(* ===== verification/Prelude.thy ===== *)
theory Prelude
  imports Complex_Main "HOL-Library.Multiset"
begin

text \<open>
  Shared vocabulary of the development: Go's time and duration values, SQL statements over
  tables kept as row lists, the error type of fallible operations, and the generic lemmas the
  component theories use.

  \<^item> A \<open>time.Time\<close> is an \<open>int\<close>, the nanoseconds since Go's zero time, so that \<open>IsZero\<close> is
    equality with \<open>0\<close>, \<open>After\<close> and \<open>Before\<close> are \<open>>\<close> and \<open><\<close>, and \<open>Add\<close> and \<open>Sub\<close> are \<open>+\<close> and \<open>-\<close>.
    \<open>UnixNano\<close> subtracts the Unix epoch. A \<open>time.Duration\<close> is an \<open>int\<close> in nanoseconds.
  \<^item> A Go string is a \<open>string\<close>, the list of its bytes.
  \<^item> An SQL table is the list of its rows in insertion order. \<open>sql_update\<close> is
    \<open>UPDATE ... SET f WHERE p\<close>, \<open>sql_count\<close> the number of rows it affects.
\<close>

section \<open>Collections of facts\<close>

named_theorems sql_simps \<open>row-wise behaviour of SQL statements\<close>
named_theorems lease_simps \<open>lease columns after an operation\<close>
named_theorems frame_simps \<open>columns and fields an operation leaves alone\<close>

section \<open>Time\<close>

type_synonym gotime = int
type_synonym duration = int

abbreviation (input) zero_time :: gotime where "zero_time \<equiv> 0"
abbreviation (input) is_zero_time :: "gotime \<Rightarrow> bool" where "is_zero_time t \<equiv> t = 0"

abbreviation (input) second :: duration where "second \<equiv> 1000000000"
abbreviation (input) minute :: duration where "minute \<equiv> 60000000000"
abbreviation (input) hour :: duration where "hour \<equiv> 3600000000000"
abbreviation (input) day :: duration where "day \<equiv> 86400000000000"

text \<open>The Unix epoch, in nanoseconds after the zero time (1 January of year 1).\<close>

definition unix_epoch :: gotime where
  "unix_epoch = 62135596800 * second"

definition unix_nano :: "gotime \<Rightarrow> int" where
  "unix_nano t = t - unix_epoch"

definition from_unix :: "int \<Rightarrow> gotime" where
  "from_unix ns = ns + unix_epoch"

lemma from_unix_nano [simp]: "from_unix (unix_nano t) = t"
  by (simp add: from_unix_def unix_nano_def)

lemma unix_nano_from [simp]: "unix_nano (from_unix n) = n"
  by (simp add: from_unix_def unix_nano_def)

lemma unix_nano_le [simp]: "unix_nano s \<le> unix_nano t \<longleftrightarrow> s \<le> t"
  by (simp add: unix_nano_def)

lemma unix_nano_less [simp]: "unix_nano s < unix_nano t \<longleftrightarrow> s < t"
  by (simp add: unix_nano_def)

lemma unix_nano_eq [simp]: "unix_nano s = unix_nano t \<longleftrightarrow> s = t"
  by (simp add: unix_nano_def)

lemma unix_nano_add: "unix_nano (t + d) = unix_nano t + d"
  by (simp add: unix_nano_def)

section \<open>Errors\<close>

text \<open>
  Fallible operations return \<open>'e + 'a\<close>. The data of an error that no caller inspects is its
  message.
\<close>

type_synonym ('e, 'a) result = "'e + 'a"

abbreviation Ok :: "'a \<Rightarrow> 'e + 'a" where "Ok \<equiv> Inr"
abbreviation Err :: "'e \<Rightarrow> 'e + 'a" where "Err \<equiv> Inl"

section \<open>SQL statements over row lists\<close>

definition sql_update :: "('r \<Rightarrow> bool) \<Rightarrow> ('r \<Rightarrow> 'r) \<Rightarrow> 'r list \<Rightarrow> 'r list" where
  "sql_update p f rows = map (\<lambda>r. if p r then f r else r) rows"

definition sql_count :: "('r \<Rightarrow> bool) \<Rightarrow> 'r list \<Rightarrow> nat" where
  "sql_count p rows = length (filter p rows)"

definition sql_delete :: "('r \<Rightarrow> bool) \<Rightarrow> 'r list \<Rightarrow> 'r list" where
  "sql_delete p rows = filter (\<lambda>r. \<not> p r) rows"

text \<open>
  \<open>INSERT ... ON CONFLICT (key) DO UPDATE SET f WHERE p\<close>: a row with the key is updated when it
  satisfies \<open>p\<close> and left alone otherwise; with no such row, the new one is appended.
\<close>

definition sql_upsert :: "('r \<Rightarrow> bool) \<Rightarrow> ('r \<Rightarrow> bool) \<Rightarrow> ('r \<Rightarrow> 'r) \<Rightarrow> 'r \<Rightarrow> 'r list \<Rightarrow> 'r list" where
  "sql_upsert key p f new rows =
     (if \<exists>r \<in> set rows. key r then sql_update (\<lambda>r. key r \<and> p r) f rows else rows @ [new])"

lemma sql_update_Nil [simp]: "sql_update p f [] = []"
  by (simp add: sql_update_def)

lemma sql_update_Cons [simp]:
  "sql_update p f (r # rs) = (if p r then f r else r) # sql_update p f rs"
  by (simp add: sql_update_def)

lemma length_sql_update [simp]: "length (sql_update p f rows) = length rows"
  by (simp add: sql_update_def)

lemma set_sql_update: "set (sql_update p f rows) = (\<lambda>r. if p r then f r else r) ` set rows"
  by (simp add: sql_update_def)

lemma in_sql_updateE:
  assumes "r' \<in> set (sql_update p f rows)"
  obtains r where "r \<in> set rows" "p r" "r' = f r" | "r' \<in> set rows" "\<not> p r'"
  using assms by (auto simp: set_sql_update split: if_splits)

lemma sql_update_frame: "\<lbrakk>r \<in> set rows; \<not> p r\<rbrakk> \<Longrightarrow> r \<in> set (sql_update p f rows)"
  by (force simp: set_sql_update)

lemma sql_update_hit: "\<lbrakk>r \<in> set rows; p r\<rbrakk> \<Longrightarrow> f r \<in> set (sql_update p f rows)"
  by (force simp: set_sql_update)

lemma map_sql_update: "(\<And>r. p r \<Longrightarrow> g (f r) = g r) \<Longrightarrow> map g (sql_update p f rows) = map g rows"
  by (simp add: sql_update_def)

lemma sql_update_none: "(\<And>r. r \<in> set rows \<Longrightarrow> \<not> p r) \<Longrightarrow> sql_update p f rows = rows"
  by (induction rows) auto

lemma sql_update_cong:
  "(\<And>r. r \<in> set rows \<Longrightarrow> p r = q r) \<Longrightarrow> (\<And>r. r \<in> set rows \<Longrightarrow> q r \<Longrightarrow> f r = g r) \<Longrightarrow>
   sql_update p f rows = sql_update q g rows"
  by (simp add: sql_update_def)

lemma sql_count_0: "sql_count p rows = 0 \<longleftrightarrow> (\<forall>r \<in> set rows. \<not> p r)"
  by (simp add: sql_count_def filter_empty_conv)

lemma sql_count_1_unique:
  assumes "sql_count p rows = 1"
  obtains r where "r \<in> set rows" "p r" "\<And>s. s \<in> set rows \<Longrightarrow> p s \<Longrightarrow> s = r"
proof -
  from assms obtain r where r: "filter p rows = [r]"
    by (auto simp: sql_count_def length_Suc_conv)
  then have "set (filter p rows) = {r}" by simp
  then show ?thesis by (auto intro: that)
qed

lemma distinct_map_const:
  assumes "distinct (map g xs)" and "\<forall>x \<in> set xs. \<forall>y \<in> set xs. g x = g y"
  shows "length xs \<le> 1"
proof (cases xs)
  case (Cons x ys)
  show ?thesis
  proof (cases ys)
    case (Cons y zs)
    with \<open>xs = x # ys\<close> assms show ?thesis by auto
  qed (simp add: Cons)
qed simp

lemma sql_count_le_1_keyed:
  assumes "distinct (map g rows)" and "\<And>r s. \<lbrakk>r \<in> set rows; s \<in> set rows; p r; p s\<rbrakk> \<Longrightarrow> g r = g s"
  shows "sql_count p rows \<le> 1"
proof -
  have d: "distinct (map g (filter p rows))"
    using assms(1) by (simp add: distinct_map_filter)
  have "\<forall>r \<in> set (filter p rows). \<forall>s \<in> set (filter p rows). g r = g s"
    using assms(2) by auto
  with d have "length (filter p rows) \<le> 1"
    by (rule distinct_map_const)
  then show ?thesis by (simp add: sql_count_def)
qed

lemma set_sql_upsert_subset:
  "set (sql_upsert key p f new rows) \<subseteq> insert new (set rows \<union> f ` {r \<in> set rows. key r \<and> p r})"
  by (auto simp: sql_upsert_def set_sql_update)

lemma sql_upsert_frame:
  "\<lbrakk>r \<in> set rows; \<not> key r\<rbrakk> \<Longrightarrow> r \<in> set (sql_upsert key p f new rows)"
  by (auto simp: sql_upsert_def intro: sql_update_frame)

lemma distinct_sql_upsert:
  assumes "distinct (map g rows)" and "\<And>r. key r \<longleftrightarrow> g r = g new" and "\<And>r. g (f r) = g r"
  shows "distinct (map g (sql_upsert key p f new rows))"
  using assms by (auto simp: sql_upsert_def map_sql_update)

lemma length_filter_update:
  "i < length xs \<Longrightarrow> length (filter q (xs[i := y])) + (if q (xs ! i) then 1 else 0) = length (filter q xs) + (if q y then 1 else 0)"
proof (induction xs arbitrary: i)
  case (Cons x xs)
  then show ?case by (cases i) (auto split: if_splits)
qed simp

section \<open>Go's integers and small helpers\<close>

definition min_int64 :: int where "min_int64 = - (2 ^ 63)"
definition max_int64 :: int where "max_int64 = 2 ^ 63 - 1"

definition has_prefix :: "string \<Rightarrow> string \<Rightarrow> bool" where
  "has_prefix s p \<longleftrightarrow> take (length p) s = p"

lemma has_prefix_append [simp]: "has_prefix (p @ s) p"
  by (simp add: has_prefix_def)

lemma has_prefix_Nil [simp]: "has_prefix s []"
  by (simp add: has_prefix_def)

text \<open>An array of durations read at an index that the code has clamped to its bounds.\<close>

definition delay_nth :: "int \<Rightarrow> duration list \<Rightarrow> duration" where
  "delay_nth i delays = delays ! nat i"

lemma delay_nth_in: "\<lbrakk>0 \<le> i; i < int (length ds)\<rbrakk> \<Longrightarrow> delay_nth i ds \<in> set ds"
  by (simp add: delay_nth_def nat_less_iff)

section \<open>Selection loops\<close>

text \<open>
  Several components pick one element with a loop that keeps the current choice and replaces it
  when an element beats it: \<open>for _, w := range ws[1:] { if more(w, selected) { selected = w } }\<close>.
\<close>

definition select_best :: "('a \<Rightarrow> 'a \<Rightarrow> bool) \<Rightarrow> 'a \<Rightarrow> 'a list \<Rightarrow> 'a" where
  "select_best more first rest = foldl (\<lambda>sel w. if more w sel then w else sel) first rest"

text \<open>The contract of such a comparison: a strict weak order.\<close>

locale strict_weak_order =
  fixes more :: "'a \<Rightarrow> 'a \<Rightarrow> bool"
  assumes irrefl: "\<not> more a a"
    and trans: "\<lbrakk>more a b; more b c\<rbrakk> \<Longrightarrow> more a c"
    and neg_trans: "\<lbrakk>\<not> more a b; \<not> more b c\<rbrakk> \<Longrightarrow> \<not> more a c"
begin

lemma asym: "more a b \<Longrightarrow> \<not> more b a"
  using irrefl trans by blast

lemma select_best_in: "select_best more x xs \<in> set (x # xs)"
proof (induction xs arbitrary: x)
  case (Cons y ys)
  from Cons.IH [of "if more y x then y else x"] show ?case
    by (auto simp: select_best_def split: if_splits)
qed (simp add: select_best_def)

lemma select_best_not_beaten: "w \<in> set (x # xs) \<Longrightarrow> \<not> more w (select_best more x xs)"
proof (induction xs arbitrary: x w)
  case Nil
  then show ?case by (simp add: select_best_def irrefl)
next
  case (Cons y ys)
  define z where "z = (if more y x then y else x)"
  have step: "select_best more x (y # ys) = select_best more z ys"
    by (simp add: select_best_def z_def)
  have z: "\<not> more z (select_best more z ys)" by (rule Cons.IH) simp
  show ?case
  proof (cases "w \<in> set ys")
    case True
    with Cons.IH [of w z] show ?thesis by (simp add: step)
  next
    case False
    with Cons.prems have "w = x \<or> w = y" by auto
    then have "\<not> more w z" by (auto simp: z_def irrefl asym)
    with z show ?thesis unfolding step by (rule neg_trans [rotated])
  qed
qed

text \<open>The choice is the first of the elements nothing beats.\<close>

lemma select_best_first:
  "\<lbrakk>\<And>w. w \<in> set xs \<Longrightarrow> \<not> more w x\<rbrakk> \<Longrightarrow> select_best more x xs = x"
  by (induction xs) (auto simp: select_best_def)

end

end
