(* ===== verification/Float64.thy ===== *)
theory Float64
  imports Prelude
begin

text \<open>
  IEEE binary64 arithmetic as Go's \<open>float64\<close> performs it on the values this program computes:
  finite numbers of the normal range, held exactly as rationals, with every operation rounded to
  53 significant bits, ties to even. \<open>rnd\<close> is that rounding. It is monotone and leaves integers
  up to \<open>2 ^ 53\<close> alone, which is what the components' bounds rest on. Infinities, NaN and
  subnormal numbers do not occur: the program multiplies durations below \<open>2 ^ 53\<close> ns and ratings
  clamped to \<open>[0, 1]\<close> by small constants.
\<close>

section \<open>Exponent of a positive rational\<close>

text \<open>\<open>rat_log2 x\<close> is the \<open>e\<close> with \<open>2 ^ e \<le> x < 2 ^ (e + 1)\<close>, read off the bit lengths.\<close>

fun bit_len :: "nat \<Rightarrow> nat" where
  "bit_len n = (if n = 0 then 0 else Suc (bit_len (n div 2)))"

declare bit_len.simps [simp del]

definition rat_log2 :: "rat \<Rightarrow> int" where
  "rat_log2 x =
     (let (p, q) = quotient_of x; e = int (bit_len (nat p)) - int (bit_len (nat q))
      in if (2 :: rat) powi e \<le> x then e else e - 1)"

definition round_half_even :: "rat \<Rightarrow> int" where
  "round_half_even x =
     (let f = \<lfloor>x\<rfloor>; d = x - of_int f
      in if d < 1 / 2 then f else if d > 1 / 2 then f + 1 else if even f then f else f + 1)"

definition rnd_pos :: "rat \<Rightarrow> rat" where
  "rnd_pos x = (let s = (2 :: rat) powi (rat_log2 x - 52) in of_int (round_half_even (x / s)) * s)"

definition rnd :: "rat \<Rightarrow> rat" where
  "rnd x = (if x = 0 then 0 else if 0 < x then rnd_pos x else - rnd_pos (- x))"

text \<open>
  The Go compiler may fuse \<open>a * b + c\<close> into one rounding, and does so on arm64 but not on amd64.
  The flag says which of the two was built.
\<close>

definition mul_add :: "bool \<Rightarrow> rat \<Rightarrow> rat \<Rightarrow> rat \<Rightarrow> rat" where
  "mul_add fused a b c = rnd ((if fused then a * b else rnd (a * b)) + c)"

text \<open>Conversion to an integer type truncates toward zero; \<open>math.Round\<close> rounds half away from zero.\<close>

definition trunc_int :: "rat \<Rightarrow> int" where
  "trunc_int x = (if 0 \<le> x then \<lfloor>x\<rfloor> else \<lceil>x\<rceil>)"

definition math_round :: "rat \<Rightarrow> int" where
  "math_round x = (if 0 \<le> x then \<lfloor>x + 1 / 2\<rfloor> else \<lceil>x - 1 / 2\<rceil>)"

section \<open>Rounding is monotone and exact on integers\<close>

lemma bit_len_bounds: "0 < n \<Longrightarrow> 2 ^ (bit_len n - 1) \<le> n \<and> n < 2 ^ bit_len n \<and> 0 < bit_len n"
proof (induction n rule: bit_len.induct)
  case (1 n)
  show ?case
  proof (cases "n = 1")
    case True
    then show ?thesis by (simp add: bit_len.simps)
  next
    case False
    with "1.prems" have half: "0 < n div 2" by simp
    from "1.IH" "1.prems" half
    have IH: "2 ^ (bit_len (n div 2) - 1) \<le> n div 2" "n div 2 < 2 ^ bit_len (n div 2)"
      "0 < bit_len (n div 2)" by auto
    have b: "bit_len n = Suc (bit_len (n div 2))"
      using "1.prems" by (simp add: bit_len.simps [of n])
    have "(2 :: nat) ^ bit_len (n div 2) = 2 * 2 ^ (bit_len (n div 2) - 1)"
      using IH(3) by (cases "bit_len (n div 2)") auto
    with IH(1) have lower: "2 ^ bit_len (n div 2) \<le> n" by linarith
    from IH(2) have "n < 2 * 2 ^ bit_len (n div 2)" by linarith
    with b lower show ?thesis by simp
  qed
qed

lemma bit_len_bounds_int:
  assumes "0 < p"
  shows "(2 :: rat) ^ (bit_len (nat p) - 1) \<le> of_int p" and "of_int p < (2 :: rat) ^ bit_len (nat p)"
    and "0 < bit_len (nat p)"
proof -
  have b: "2 ^ (bit_len (nat p) - 1) \<le> nat p" "nat p < 2 ^ bit_len (nat p)" "0 < bit_len (nat p)"
    using bit_len_bounds [of "nat p"] assms by auto
  have pe: "rat_of_nat (nat p) = of_int p" using assms by simp
  from b(1) have "rat_of_nat (2 ^ (bit_len (nat p) - 1)) \<le> of_nat (nat p)" by (simp only: of_nat_le_iff)
  then show "(2 :: rat) ^ (bit_len (nat p) - 1) \<le> of_int p" by (simp add: pe)
  from b(2) have "rat_of_nat (nat p) < of_nat (2 ^ bit_len (nat p))" by (simp only: of_nat_less_iff)
  then show "of_int p < (2 :: rat) ^ bit_len (nat p)" by (simp add: pe)
  from b(3) show "0 < bit_len (nat p)" .
qed

lemma rat_log2_bounds:
  assumes "0 < x"
  shows "2 powi rat_log2 x \<le> x" and "x < 2 powi (rat_log2 x + 1)"
proof -
  obtain p q where pq: "quotient_of x = (p, q)" by (cases "quotient_of x")
  then have q: "0 < q" by (rule quotient_of_denom_pos)
  have x: "x = of_int p / of_int q" using pq by (rule quotient_of_div)
  with assms q have p: "0 < p"
    by (metis of_int_0_less_iff of_int_pos zero_less_divide_iff not_less_iff_gr_or_eq)
  define a b where "a = bit_len (nat p)" and "b = bit_len (nat q)"
  define e where "e = int a - int b"
  note pb = bit_len_bounds_int [OF p, folded a_def]
  note qb = bit_len_bounds_int [OF q, folded b_def]
  have q0: "(0 :: rat) < of_int q" using q by simp
  have "x < 2 ^ a / 2 ^ (b - 1)"
    unfolding x using p pb(2) qb(1) q0 by (intro frac_less) auto
  also have "\<dots> = 2 powi (e + 1)"
    using qb(3) by (cases b) (auto simp: e_def power_int_diff power_int_add)
  finally have upper: "x < 2 powi (e + 1)" .
  have "2 powi (e - 1) = (2 :: rat) ^ (a - 1) / 2 ^ b"
    using pb(3) by (cases a) (auto simp: e_def power_int_diff power_int_add)
  also have "\<dots> < x"
    unfolding x using pb(1) qb(2) q0 by (intro frac_less2) auto
  finally have lower: "2 powi (e - 1) < x" .
  have "rat_log2 x = (if (2 :: rat) powi e \<le> x then e else e - 1)"
    by (simp add: rat_log2_def pq e_def a_def b_def)
  with upper lower show "2 powi rat_log2 x \<le> x" and "x < 2 powi (rat_log2 x + 1)"
    by (auto split: if_splits)
qed

lemma powi2_less_iff [simp]: "(2 :: rat) powi a < 2 powi b \<longleftrightarrow> a < b"
proof
  assume "(2 :: rat) powi a < 2 powi b"
  then show "a < b" by (metis not_le power_int_increasing one_le_numeral)
next
  assume "a < b"
  then show "(2 :: rat) powi a < 2 powi b" by (rule power_int_strict_increasing) simp
qed

lemma powi2_le_iff [simp]: "(2 :: rat) powi a \<le> 2 powi b \<longleftrightarrow> a \<le> b"
  by (simp flip: not_less)

lemma rat_log2_unique:
  assumes "2 powi e \<le> x" and "x < 2 powi (e + 1)"
  shows "rat_log2 x = e"
proof -
  have x: "0 < x" using assms(1) by (rule less_le_trans [rotated]) simp
  note b = rat_log2_bounds [OF x]
  have "(2 :: rat) powi e < 2 powi (rat_log2 x + 1)" using assms(1) b(2) by (rule le_less_trans)
  moreover have "(2 :: rat) powi rat_log2 x < 2 powi (e + 1)" using b(1) assms(2) by (rule le_less_trans)
  ultimately show ?thesis by simp
qed

lemma rat_log2_mono:
  assumes "0 < x" and "x \<le> y"
  shows "rat_log2 x \<le> rat_log2 y"
proof -
  have "(2 :: rat) powi rat_log2 x < 2 powi (rat_log2 y + 1)"
    using rat_log2_bounds(1) [of x] rat_log2_bounds(2) [of y] assms by linarith
  then show ?thesis by simp
qed

lemma round_half_even_of_int [simp]: "round_half_even (of_int n) = n"
  by (simp add: round_half_even_def)

lemma round_half_even_bounds:
  "\<lfloor>x\<rfloor> \<le> round_half_even x \<and> round_half_even x \<le> \<lfloor>x\<rfloor> + 1"
  by (auto simp: round_half_even_def Let_def)

lemma round_half_even_mono: "x \<le> y \<Longrightarrow> round_half_even x \<le> round_half_even y"
proof (cases "\<lfloor>x\<rfloor> = \<lfloor>y\<rfloor>")
  case True
  assume "x \<le> y"
  with True show ?thesis by (auto simp: round_half_even_def Let_def)
next
  case False
  assume "x \<le> y"
  then have "\<lfloor>x\<rfloor> \<le> \<lfloor>y\<rfloor>" by (rule floor_mono)
  with False have "\<lfloor>x\<rfloor> + 1 \<le> \<lfloor>y\<rfloor>" by simp
  with round_half_even_bounds [of x] round_half_even_bounds [of y] show ?thesis by linarith
qed

lemma rnd_pos_scaled:
  assumes "0 < x"
  shows "2 powi rat_log2 x \<le> rnd_pos x" and "rnd_pos x \<le> 2 powi (rat_log2 x + 1)"
proof -
  define s :: rat where "s = 2 powi (rat_log2 x - 52)"
  have s: "0 < s" by (simp add: s_def)
  have eq: "rnd_pos x = of_int (round_half_even (x / s)) * s" by (simp add: rnd_pos_def s_def Let_def)
  have lo: "2 powi rat_log2 x = of_int (2 ^ 52) * s"
    by (simp add: s_def power_int_diff)
  have hi: "2 powi (rat_log2 x + 1) = of_int (2 ^ 53) * s"
    by (simp add: s_def power_int_diff power_int_add)
  from rat_log2_bounds [OF assms]
  have "of_int (2 ^ 52) \<le> x / s" and "x / s \<le> of_int (2 ^ 53)"
    unfolding lo hi using s by (auto simp: pos_le_divide_eq pos_divide_le_eq)
  then have "round_half_even (of_int (2 ^ 52)) \<le> round_half_even (x / s)"
    and "round_half_even (x / s) \<le> round_half_even (of_int (2 ^ 53))"
    by (auto intro: round_half_even_mono)
  then have a: "2 ^ 52 \<le> round_half_even (x / s)" and b: "round_half_even (x / s) \<le> 2 ^ 53"
    by (simp_all only: round_half_even_of_int)
  from a have "rat_of_int (2 ^ 52) \<le> of_int (round_half_even (x / s))" by (simp only: of_int_le_iff)
  then show "2 powi rat_log2 x \<le> rnd_pos x" unfolding lo eq using s by (simp only: mult_right_mono less_imp_le)
  from b have "of_int (round_half_even (x / s)) \<le> rat_of_int (2 ^ 53)" by (simp only: of_int_le_iff)
  then show "rnd_pos x \<le> 2 powi (rat_log2 x + 1)" unfolding hi eq using s by (simp only: mult_right_mono less_imp_le)
qed

lemma rnd_pos_pos: "0 < x \<Longrightarrow> 0 < rnd_pos x"
  by (rule less_le_trans [OF _ rnd_pos_scaled(1)]) simp_all

lemma rnd_pos_mono:
  assumes "0 < x" and "x \<le> y"
  shows "rnd_pos x \<le> rnd_pos y"
proof (cases "rat_log2 x = rat_log2 y")
  case True
  then show ?thesis using assms
    by (auto simp: rnd_pos_def Let_def intro!: mult_right_mono round_half_even_mono divide_right_mono)
next
  case False
  with rat_log2_mono [OF assms] have "rat_log2 x + 1 \<le> rat_log2 y" by simp
  then have "(2 :: rat) powi (rat_log2 x + 1) \<le> 2 powi rat_log2 y" by simp
  with rnd_pos_scaled(2) [OF assms(1)] rnd_pos_scaled(1) [of y] assms show ?thesis by linarith
qed

lemma rnd_0 [simp]: "rnd 0 = 0"
  by (simp add: rnd_def)

lemma rnd_mono: "x \<le> y \<Longrightarrow> rnd x \<le> rnd y"
  using rnd_pos_mono [of x y] rnd_pos_mono [of "- y" "- x"] rnd_pos_pos [of y] rnd_pos_pos [of "- x"]
  by (auto simp: rnd_def)

lemma rnd_nonneg: "0 \<le> x \<Longrightarrow> 0 \<le> rnd x"
  using rnd_mono [of 0 x] by simp

lemma rnd_pos_of_int:
  assumes "0 < n" and "n \<le> 2 ^ 53"
  shows "rnd_pos (of_int n) = of_int n"
proof (cases "n = 2 ^ 53")
  case True
  have "rat_log2 (of_int n) = 53" by (rule rat_log2_unique) (simp_all add: True)
  then show ?thesis using round_half_even_of_int [of "2 ^ 52"] by (simp add: rnd_pos_def True)
next
  case False
  define e where "e = rat_log2 (of_int n)"
  have pos: "0 < rat_of_int n" using assms(1) by simp
  have "(2 :: rat) powi e \<le> of_int n" using rat_log2_bounds(1) [OF pos] by (simp add: e_def)
  also have "\<dots> < 2 powi 53" using assms(2) False by simp
  finally have e: "e \<le> 52" by (simp only: powi2_less_iff)
  have n: "rat_of_int n / 2 powi (e - 52) = of_int (n * 2 ^ nat (52 - e))"
    using e by (simp add: power_int_def field_simps)
  show ?thesis
    unfolding rnd_pos_def Let_def e_def [symmetric] n round_half_even_of_int
    using e by (simp add: power_int_def field_simps)
qed

lemma rnd_of_int: "0 \<le> n \<Longrightarrow> n \<le> 2 ^ 53 \<Longrightarrow> rnd (of_int n) = of_int n"
  by (auto simp: rnd_def rnd_pos_of_int)

text \<open>Evaluation of \<open>rnd\<close> at a constant: its exponent \<open>e\<close> and significand \<open>m\<close>.\<close>

lemma round_half_even_near:
  assumes "of_int m - 1 / 2 < x" and "x < of_int m + 1 / 2"
  shows "round_half_even x = m"
proof -
  have "\<lfloor>x\<rfloor> = m \<or> \<lfloor>x\<rfloor> = m - 1" using assms by linarith
  then show ?thesis using assms by (auto simp: round_half_even_def Let_def)
qed

lemma rnd_eval:
  assumes "2 powi e \<le> x" and "x < 2 powi (e + 1)"
    and "of_int m - 1 / 2 < x / 2 powi (e - 52)" and "x / 2 powi (e - 52) < of_int m + 1 / 2"
  shows "rnd x = of_int m * 2 powi (e - 52)"
proof -
  have "0 < x" using assms(1) by (rule less_le_trans [rotated]) simp
  then have "rnd x = rnd_pos x" by (simp add: rnd_def)
  with rat_log2_unique [OF assms(1,2)] round_half_even_near [OF assms(3,4)] show ?thesis
    by (simp add: rnd_pos_def Let_def)
qed

lemma rnd_ge_int: "\<lbrakk>of_int n \<le> x; 0 \<le> n; n \<le> 2 ^ 53\<rbrakk> \<Longrightarrow> of_int n \<le> rnd x"
  by (metis rnd_mono rnd_of_int)

lemma rnd_le_int: "\<lbrakk>x \<le> of_int n; 0 \<le> n; n \<le> 2 ^ 53\<rbrakk> \<Longrightarrow> rnd x \<le> of_int n"
  by (metis rnd_mono rnd_of_int)

lemma rnd_1 [simp]: "rnd 1 = 1"
  using rnd_of_int [of 1] by simp

lemma mul_add_mono:
  "\<lbrakk>0 \<le> a; b \<le> b'\<rbrakk> \<Longrightarrow> mul_add fused a b c \<le> mul_add fused a b' c"
  by (auto simp: mul_add_def intro!: rnd_mono mult_left_mono)

lemma mul_add_ge_1:
  "\<lbrakk>0 \<le> a; 0 \<le> b\<rbrakk> \<Longrightarrow> 1 \<le> mul_add fused a b 1"
  using rnd_ge_int [of 1 "(if fused then a * b else rnd (a * b)) + 1"]
  by (auto simp: mul_add_def rnd_nonneg)

end
