(* ===== verification/Go_Text.thy ===== *)
theory Go_Text
  imports Prelude
begin

text \<open>
  The parts of Go's \<open>strings\<close>, \<open>strconv\<close>, \<open>unicode\<close> and \<open>unicode/utf8\<close> packages that the program
  uses. A Go string is a byte list; \<open>runes\<close> decodes it as \<open>range\<close> and the \<open>strings\<close> functions do,
  with an invalid byte giving U+FFFD of width 1. For runes below U+0080 the character classes are
  written out; above, letters, digits, numbers, marks and the two cases are the Unicode tables, a parameter
  (the record \<open>unicode\<close>) over which every theorem is universal. White space is a short list, written out.
\<close>

record unicode =
  tbl_letter :: "nat \<Rightarrow> bool"
  tbl_digit :: "nat \<Rightarrow> bool"
  tbl_number :: "nat \<Rightarrow> bool"
  tbl_mark :: "nat \<Rightarrow> bool"
  tbl_lower :: "nat \<Rightarrow> nat"
  tbl_upper :: "nat \<Rightarrow> nat"
  tbl_fold :: "nat \<Rightarrow> nat"

text \<open>\<open>tbl_fold\<close> gives a rune's representative among those \<open>SimpleFold\<close> links to it. Tables with no entry above U+007F, for evaluating the model on ASCII text.\<close>

definition ascii_tables :: unicode where
  "ascii_tables = \<lparr>tbl_letter = (\<lambda>_. False), tbl_digit = (\<lambda>_. False), tbl_number = (\<lambda>_. False),
     tbl_mark = (\<lambda>_. False), tbl_lower = id, tbl_upper = id, tbl_fold = id\<rparr>"

section \<open>Runes\<close>

abbreviation byte_val :: "char \<Rightarrow> nat" where "byte_val c \<equiv> of_char c"

definition cont :: "char \<Rightarrow> bool" where
  "cont c \<longleftrightarrow> 128 \<le> byte_val c \<and> byte_val c < 192"

text \<open>The second byte of a sequence has a narrower range after some lead bytes.\<close>

definition second_ok :: "nat \<Rightarrow> char \<Rightarrow> bool" where
  "second_ok lead c \<longleftrightarrow>
     (let b = byte_val c
      in (if lead = 224 then 160 \<le> b \<and> b < 192
          else if lead = 237 then 128 \<le> b \<and> b < 160
          else if lead = 240 then 144 \<le> b \<and> b < 192
          else if lead = 244 then 128 \<le> b \<and> b < 144
          else 128 \<le> b \<and> b < 192))"

text \<open>The rune a nonempty string starts with, and its width in bytes.\<close>

fun decode_rune :: "string \<Rightarrow> nat \<times> nat" where
  "decode_rune [] = (65533, 1)"
| "decode_rune (c # cs) =
     (let b = byte_val c in
      if b < 128 then (b, 1)
      else if 194 \<le> b \<and> b < 224 then
        (case cs of
           c1 # _ \<Rightarrow> if cont c1 then ((b - 192) * 64 + (byte_val c1 - 128), 2) else (65533, 1)
         | _ \<Rightarrow> (65533, 1))
      else if 224 \<le> b \<and> b < 240 then
        (case cs of
           c1 # c2 # _ \<Rightarrow>
             if second_ok b c1 \<and> cont c2
             then ((b - 224) * 4096 + (byte_val c1 - 128) * 64 + (byte_val c2 - 128), 3)
             else (65533, 1)
         | _ \<Rightarrow> (65533, 1))
      else if 240 \<le> b \<and> b < 245 then
        (case cs of
           c1 # c2 # c3 # _ \<Rightarrow>
             if second_ok b c1 \<and> cont c2 \<and> cont c3
             then ((b - 240) * 262144 + (byte_val c1 - 128) * 4096
                   + (byte_val c2 - 128) * 64 + (byte_val c3 - 128), 4)
             else (65533, 1)
         | _ \<Rightarrow> (65533, 1))
      else (65533, 1))"

lemma decode_rune_width: "0 < snd (decode_rune s)"
  by (cases s) (auto simp: Let_def split: list.splits)

text \<open>The runes of a string, each with the bytes it was read from.\<close>

function runes :: "string \<Rightarrow> (nat \<times> string) list" where
  "runes [] = []"
| "runes (c # cs) =
     (let d = decode_rune (c # cs)
      in (fst d, take (snd d) (c # cs)) # runes (drop (snd d) (c # cs)))"
  by pat_completeness auto
termination
  by (relation "measure length") (use decode_rune_width in \<open>auto simp: Suc_le_eq simp del: decode_rune.simps\<close>)

declare runes.simps(2) [simp del]

lemma runes_ascii_Cons [simp]: "byte_val c < (128 :: nat) \<Longrightarrow> runes (c # cs) = (byte_val c, [c]) # runes cs"
  by (simp add: runes.simps(2))

lemma concat_runes [simp]: "concat (map snd (runes s)) = s"
proof (induction s rule: runes.induct)
  case (2 c cs)
  show ?case
    unfolding runes.simps(2) Let_def
    using "2.IH" [OF refl] by (simp del: decode_rune.simps)
qed simp

definition byte_of :: "nat \<Rightarrow> char" where
  "byte_of n = char_of n"

definition encode_rune :: "nat \<Rightarrow> string" where
  "encode_rune r =
     (if r < 128 then [byte_of r]
      else if r < 2048 then [byte_of (192 + r div 64), byte_of (128 + r mod 64)]
      else if r > 1114111 \<or> (55296 \<le> r \<and> r < 57344) then [byte_of 239, byte_of 191, byte_of 189]
      else if r < 65536 then
        [byte_of (224 + r div 4096), byte_of (128 + r div 64 mod 64), byte_of (128 + r mod 64)]
      else
        [byte_of (240 + r div 262144), byte_of (128 + r div 4096 mod 64),
         byte_of (128 + r div 64 mod 64), byte_of (128 + r mod 64)])"

lemma encode_rune_nonempty [simp]: "encode_rune r \<noteq> []"
  by (simp add: encode_rune_def)

section \<open>Character classes\<close>

definition is_letter :: "unicode \<Rightarrow> nat \<Rightarrow> bool" where
  "is_letter U r =
     (if r < 128 then 65 \<le> r \<and> r \<le> 90 \<or> 97 \<le> r \<and> r \<le> 122 else tbl_letter U r)"

definition is_digit :: "unicode \<Rightarrow> nat \<Rightarrow> bool" where
  "is_digit U r = (if r < 128 then 48 \<le> r \<and> r \<le> 57 else tbl_digit U r)"

definition is_number :: "unicode \<Rightarrow> nat \<Rightarrow> bool" where
  "is_number U r = (if r < 128 then 48 \<le> r \<and> r \<le> 57 else tbl_number U r)"

definition is_mark :: "unicode \<Rightarrow> nat \<Rightarrow> bool" where
  "is_mark U r \<longleftrightarrow> r \<ge> 128 \<and> tbl_mark U r"

definition upper_rune :: "unicode \<Rightarrow> nat \<Rightarrow> nat" where
  "upper_rune U r = (if r < 128 then if 97 \<le> r \<and> r \<le> 122 then r - 32 else r else tbl_upper U r)"

definition fold_rune :: "unicode \<Rightarrow> nat \<Rightarrow> nat" where
  "fold_rune U r = (if r < 128 then if 65 \<le> r \<and> r \<le> 90 then r + 32 else r else tbl_fold U r)"

definition lower_rune :: "unicode \<Rightarrow> nat \<Rightarrow> nat" where
  "lower_rune U r = (if r < 128 then if 65 \<le> r \<and> r \<le> 90 then r + 32 else r else tbl_lower U r)"

definition is_space :: "nat \<Rightarrow> bool" where
  "is_space r \<longleftrightarrow>
     9 \<le> r \<and> r \<le> 13 \<or> r = 32 \<or> r = 133 \<or> r = 160 \<or> r = 5760 \<or> 8192 \<le> r \<and> r \<le> 8202
     \<or> r = 8232 \<or> r = 8233 \<or> r = 8239 \<or> r = 8287 \<or> r = 12288"

section \<open>Package strings\<close>

definition to_lower :: "unicode \<Rightarrow> string \<Rightarrow> string" where
  "to_lower U s = concat (map (\<lambda>(r, _). encode_rune (lower_rune U r)) (runes s))"

definition to_upper :: "unicode \<Rightarrow> string \<Rightarrow> string" where
  "to_upper U s = concat (map (\<lambda>(r, _). encode_rune (upper_rune U r)) (runes s))"

definition EqualFold :: "unicode \<Rightarrow> string \<Rightarrow> string \<Rightarrow> bool" where
  "EqualFold U a b \<longleftrightarrow> map (fold_rune U \<circ> fst) (runes a) = map (fold_rune U \<circ> fst) (runes b)"

text \<open>Drop the elements satisfying \<open>p\<close> from both ends.\<close>

definition trim_by :: "('a \<Rightarrow> bool) \<Rightarrow> 'a list \<Rightarrow> 'a list" where
  "trim_by p xs = rev (dropWhile p (rev (dropWhile p xs)))"

definition trim_space :: "string \<Rightarrow> string" where
  "trim_space s = concat (map snd (trim_by (\<lambda>x. is_space (fst x)) (runes s)))"

text \<open>\<open>strings.Trim\<close> with a cutset of ASCII characters.\<close>

definition trim_set :: "string \<Rightarrow> string \<Rightarrow> string" where
  "trim_set cutset s = trim_by (\<lambda>c. c \<in> set cutset) s"

definition trim_right_set :: "string \<Rightarrow> string \<Rightarrow> string" where
  "trim_right_set cutset s = rev (dropWhile (\<lambda>c. c \<in> set cutset) (rev s))"

definition trim_left_set :: "string \<Rightarrow> string \<Rightarrow> string" where
  "trim_left_set cutset s = dropWhile (\<lambda>c. c \<in> set cutset) s"

definition has_suffix :: "string \<Rightarrow> string \<Rightarrow> bool" where
  "has_suffix s p \<longleftrightarrow> length p \<le> length s \<and> drop (length s - length p) s = p"

definition trim_prefix :: "string \<Rightarrow> string \<Rightarrow> string" where
  "trim_prefix s p = (if has_prefix s p then drop (length p) s else s)"

definition trim_suffix :: "string \<Rightarrow> string \<Rightarrow> string" where
  "trim_suffix s p = (if has_suffix s p then take (length s - length p) s else s)"

fun contains_str :: "string \<Rightarrow> string \<Rightarrow> bool" where
  "contains_str [] p = (p = [])"
| "contains_str (c # cs) p = (has_prefix (c # cs) p \<or> contains_str cs p)"

text \<open>\<open>cut s sep\<close>: the text before and after the first occurrence of a nonempty \<open>sep\<close>.\<close>

fun cut :: "string \<Rightarrow> string \<Rightarrow> (string \<times> string) option" where
  "cut [] sep = None"
| "cut (c # cs) sep =
     (if has_prefix (c # cs) sep then Some ([], drop (length sep) (c # cs))
      else map_option (\<lambda>(a, b). (c # a, b)) (cut cs sep))"

text \<open>\<open>strings.Split\<close> at a single byte.\<close>

fun split_char :: "char \<Rightarrow> string \<Rightarrow> string list" where
  "split_char d [] = [[]]"
| "split_char d (c # cs) =
     (if c = d then [] # split_char d cs
      else (case split_char d cs of [] \<Rightarrow> [[c]] | w # ws \<Rightarrow> (c # w) # ws))"

text \<open>\<open>strings.Join\<close>.\<close>

fun join :: "string \<Rightarrow> string list \<Rightarrow> string" where
  "join sep [] = []"
| "join sep [w] = w"
| "join sep (w # v # ws) = w @ sep @ join sep (v # ws)"

text \<open>
  \<open>strings.FieldsFunc\<close> on decoded runes: maximal runs of runes that do not satisfy the separator
  predicate.
\<close>

fun fields_runes :: "(nat \<Rightarrow> bool) \<Rightarrow> (nat \<times> string) list \<Rightarrow> string \<Rightarrow> string list" where
  "fields_runes sep [] acc = (if acc = [] then [] else [acc])"
| "fields_runes sep ((r, b) # rs) acc =
     (if sep r then (if acc = [] then [] else [acc]) @ fields_runes sep rs []
      else fields_runes sep rs (acc @ b))"

definition fields_func :: "(nat \<Rightarrow> bool) \<Rightarrow> string \<Rightarrow> string list" where
  "fields_func sep s = fields_runes sep (runes s) []"

definition fields :: "string \<Rightarrow> string list" where
  "fields s = fields_func is_space s"

text \<open>\<open>strings.ReplaceAll\<close> of a nonempty \<open>old\<close>, left to right.\<close>

function replace_all :: "string \<Rightarrow> string \<Rightarrow> string \<Rightarrow> string" where
  "replace_all old new [] = []"
| "replace_all old new (c # cs) =
     (if old \<noteq> [] \<and> has_prefix (c # cs) old then new @ replace_all old new (drop (length old) (c # cs))
      else c # replace_all old new cs)"
  by pat_completeness auto
termination
  by (relation "measure (\<lambda>(_, _, s). length s)") (auto simp: diff_less_Suc neq_Nil_conv)

section \<open>Package strconv\<close>

definition is_dec :: "char \<Rightarrow> bool" where
  "is_dec c \<longleftrightarrow> 48 \<le> byte_val c \<and> byte_val c \<le> (57 :: nat)"

fun digits_val :: "nat \<Rightarrow> string \<Rightarrow> nat" where
  "digits_val acc [] = acc"
| "digits_val acc (c # cs) = digits_val (10 * acc + (byte_val c - 48)) cs"

text \<open>\<open>strconv.ParseInt(s, 10, 64)\<close>, and \<open>strconv.Atoi\<close> on a 64-bit platform.\<close>

definition parse_int :: "string \<Rightarrow> int option" where
  "parse_int s =
     (let (neg, ds) = (case s of
            [] \<Rightarrow> (False, [])
          | c # cs \<Rightarrow> if c = CHR ''-'' then (True, cs) else if c = CHR ''+'' then (False, cs) else (False, s));
          v = (if neg then - int (digits_val 0 ds) else int (digits_val 0 ds))
      in if ds = [] \<or> \<not> list_all is_dec ds \<or> v < min_int64 \<or> max_int64 < v then None else Some v)"

abbreviation atoi :: "string \<Rightarrow> int option" where "atoi \<equiv> parse_int"

fun nat_digits :: "nat \<Rightarrow> string" where
  "nat_digits n = (if n < 10 then [char_of (48 + n)] else nat_digits (n div 10) @ [char_of (48 + n mod 10)])"

declare nat_digits.simps [simp del]

definition itoa :: "int \<Rightarrow> string" where
  "itoa n = (if n < 0 then CHR ''-'' # nat_digits (nat (- n)) else nat_digits (nat n))"

section \<open>Lemmas\<close>

lemma split_char_nonempty [simp]: "split_char d s \<noteq> []"
  by (cases s) (auto split: list.splits)

lemma join_split_char: "join [d] (split_char d s) = s"
proof (induction s)
  case (Cons c cs)
  show ?case
  proof (cases "split_char d cs")
    case (Cons w ws)
    with Cons.IH show ?thesis by (cases ws) auto
  qed simp
qed simp

lemma join_Cons: "ws \<noteq> [] \<Longrightarrow> join sep (w # ws) = w @ sep @ join sep ws"
  by (cases ws) auto

lemma split_char_append: "d \<notin> set w \<Longrightarrow> split_char d (w @ d # s) = w # split_char d s"
  by (induction w) auto

lemma split_char_none: "d \<notin> set w \<Longrightarrow> split_char d w = [w]"
  by (induction w) auto

lemma split_char_join:
  "\<lbrakk>ws \<noteq> []; \<forall>w \<in> set ws. d \<notin> set w\<rbrakk> \<Longrightarrow> split_char d (join [d] ws) = ws"
  by (induction "[d]" ws rule: join.induct) (auto simp: split_char_none split_char_append)

lemma split_char_no_sep: "w \<in> set (split_char d s) \<Longrightarrow> d \<notin> set w"
  by (induction s arbitrary: w) (auto split: if_splits list.splits)

lemma has_prefix_iff: "has_prefix s p \<longleftrightarrow> (\<exists>t. s = p @ t)"
  by (metis append_take_drop_id has_prefix_append has_prefix_def)

lemma contains_str_append [simp]: "contains_str (a @ p @ b) p"
proof (induction a)
  case Nil
  show ?case
  proof (cases "p @ b")
    case (Cons c cs)
    then show ?thesis by (metis append_Nil contains_str.simps(2) has_prefix_append)
  qed simp
qed simp

lemma contains_str_iff: "contains_str s p \<longleftrightarrow> (\<exists>a b. s = a @ p @ b)"
proof
  show "contains_str s p \<Longrightarrow> \<exists>a b. s = a @ p @ b"
  proof (induction s)
    case (Cons c cs)
    then show ?case by (auto simp: has_prefix_iff) (metis append_Cons append_Nil)+
  qed auto
qed auto

text \<open>The definitions that evaluate a text function on a literal.\<close>

lemmas text_eval = trim_space_def trim_by_def is_space_def trim_set_def has_prefix_def has_suffix_def
  parse_int_def is_dec_def to_lower_def lower_rune_def encode_rune_def byte_of_def Let_def
  char_of_def bit_Suc_0_iff min_int64_def max_int64_def
  trim_prefix_def trim_suffix_def trim_right_set_def trim_left_set_def fields_func_def fields_def

end
