(* ===== verification/Domain.thy ===== *)
theory Domain
  imports Go_Text
begin

text \<open>
  The data model of \<open>internal/domain\<close>: media files as Sonarr and Radarr report them, subtitle
  candidates as providers report them, scores, and language tags. The third-party code the program
  consults about text is the parameter \<open>externals\<close>: the Unicode tables, the BCP 47 parser of
  \<open>golang.org/x/text/language\<close> and the release-name parser \<open>torrentname.Parse\<close>.
\<close>

section \<open>Third-party text services\<close>

text \<open>What \<open>language.Parse\<close> returns: the undetermined tag, or a tag with its canonical string.\<close>

datatype lang_tag = Und | Tag string

record torrent =
  tn_title :: string
  tn_year :: int
  tn_season :: int
  tn_episode :: int
  tn_episode_end :: int
  tn_group :: string
  tn_quality :: string
  tn_source :: string
  tn_edition :: string
  tn_extended :: bool
  tn_unrated :: bool
  tn_resolution :: string
  tn_complete :: bool

record externals =
  ext_unicode :: unicode
  ext_lang_parse :: "string \<Rightarrow> lang_tag option"
  ext_torrent :: "string \<Rightarrow> torrent option"

section \<open>Languages\<close>

type_synonym language = string

definition languageAliases :: "(string \<times> string) list" where
  "languageAliases =
     [(''eng'', ''en''), (''hrv'', ''hr''), (''scr'', ''hr''), (''srp'', ''sr''), (''bos'', ''bs'')]"

datatype lang_error = LangEmpty | LangNotBCP47 | LangParse | LangUndetermined

definition ParseLanguage :: "externals \<Rightarrow> string \<Rightarrow> lang_error + language" where
  "ParseLanguage X raw =
     (let value0 = trim_space raw;
          value1 = (case map_of languageAliases (to_lower (ext_unicode X) value0) of
                      Some alias \<Rightarrow> alias | None \<Rightarrow> value0)
      in if value1 = [] then Err LangEmpty
         else if contains_str value1 ''_'' then Err LangNotBCP47
         else (case ext_lang_parse X value1 of
                 None \<Rightarrow> Err LangParse
               | Some Und \<Rightarrow> Err LangUndetermined
               | Some (Tag t) \<Rightarrow> Ok t))"

definition EquivalentLanguage :: "externals \<Rightarrow> language \<Rightarrow> language \<Rightarrow> bool" where
  "EquivalentLanguage X a b =
     (case ParseLanguage X a of
        Inl _ \<Rightarrow> False
      | Inr left \<Rightarrow> (case ParseLanguage X b of Inl _ \<Rightarrow> False | Inr right \<Rightarrow> left = right))"

definition TrackCoversLanguage ::
  "externals \<Rightarrow> language \<Rightarrow> bool \<Rightarrow> bool \<Rightarrow> language \<Rightarrow> bool \<Rightarrow> bool" where
  "TrackCoversLanguage X trackLanguage forced hearingImpaired want allowHearingImpaired =
     (if trackLanguage = [] \<or> forced \<or> \<not> EquivalentLanguage X trackLanguage want then False
      else \<not> hearingImpaired \<or> allowHearingImpaired)"

section \<open>Media\<close>

type_synonym media_kind = string

definition MediaMovie :: media_kind where "MediaMovie = ''movie''"
definition MediaEpisode :: media_kind where "MediaEpisode = ''episode''"
definition UnsupportedMultiEpisode :: string where "UnsupportedMultiEpisode = ''unsupported_multi_episode''"
definition SeriesTypeAnime :: string where "SeriesTypeAnime = ''anime''"
definition CheckedUnsupportedEpisodeEnd :: int where "CheckedUnsupportedEpisodeEnd = -1"

record ExternalIDs =
  x_imdb :: string
  x_tmdb :: int
  x_tvdb :: int

record MediaRef =
  ref_instance :: string
  ref_kind :: media_kind
  ref_file_id :: int

record MediaFingerprint =
  fp_path :: string
  fp_file_id :: int
  fp_size :: int
  fp_mod_time :: gotime

record Media =
  m_series_id :: int
  m_entity_id :: int
  m_ref :: MediaRef
  m_fingerprint :: MediaFingerprint
  m_title :: string
  m_episode_title :: string
  m_alternate_titles :: "string list"
  m_year :: int
  m_season :: int
  m_episode :: int
  m_absolute_episode :: int
  m_episode_end :: int
  m_absolute_episode_end :: int
  m_external_ids :: ExternalIDs
  m_original_filename :: string
  m_release_name :: string
  m_release_group :: string
  m_source :: string
  m_resolution :: string
  m_streaming_service :: string
  m_edition :: string
  m_quality :: string
  m_duration :: duration
  m_unsupported_reason :: string
  m_released_at :: gotime
  m_series_type :: string

definition Anime :: "Media \<Rightarrow> bool" where
  "Anime m \<longleftrightarrow> m_series_type m = SeriesTypeAnime"

definition IsEpisodeRange :: "Media \<Rightarrow> bool" where
  "IsEpisodeRange m \<longleftrightarrow>
     ref_kind (m_ref m) = MediaEpisode \<and> m_episode_end m > m_episode m \<and> m_episode m > 0"

section \<open>Candidates\<close>

type_synonym pack_scope = string

definition PackSeason :: pack_scope where "PackSeason = ''season''"
definition PackRange :: pack_scope where "PackRange = ''range''"

record PackMemberRef =
  pm_id :: string
  pm_filename :: string
  pm_download_ref :: string
  pm_season :: int
  pm_episode :: int
  pm_absolute_episode :: int

record PackInfo =
  pk_scope :: pack_scope
  pk_season :: int
  pk_episode_from :: int
  pk_episode_to :: int
  pk_absolute_from :: int
  pk_absolute_to :: int
  pk_direct_members :: "PackMemberRef list"

record Candidate =
  c_provider_id :: string
  c_result_id :: string
  c_language :: language
  c_kind :: media_kind
  c_title :: string
  c_alternate_titles :: "string list"
  c_evidence_version :: string
  c_year :: int
  c_season :: int
  c_episode :: int
  c_absolute_episode :: int
  c_external_ids :: ExternalIDs
  c_release_names :: "string list"
  c_release_groups :: "string list"
  c_resolutions :: "string list"
  c_exact_hash :: bool
  c_forced :: bool
  c_hearing_impaired :: bool
  c_rating :: rat
  c_popularity :: rat
  c_download_count :: int
  c_download_ref :: string
  c_download_version :: string
  c_pack :: "PackInfo option"
  c_release_numbered :: bool

section \<open>Scores\<close>

record Contribution =
  co_signal :: string
  co_points :: int
  co_reason :: string

record Score =
  sc_total :: int
  sc_contributions :: "Contribution list"
  sc_rejected_reasons :: "string list"

section \<open>The identity of saved provider progress\<close>

text \<open>The SHA-256 digest in hexadecimal is the argument \<open>digest\<close>; every part is written after its length.\<close>

definition be64 :: "nat \<Rightarrow> string" where
  "be64 n = map (\<lambda>k. char_of (n div 256 ^ k mod 256)) [7, 6, 5, 4, 3, 2, 1, 0]"

definition digest_part :: "string \<Rightarrow> string" where
  "digest_part part = be64 (length part) @ part"

definition ProviderResumeSignature :: "(string \<Rightarrow> string) \<Rightarrow> string \<Rightarrow> MediaFingerprint \<Rightarrow> string" where
  "ProviderResumeSignature digest route fingerprint =
     digest (concat (map digest_part
       [''provider-resume-v1'', route, fp_path fingerprint, itoa (fp_file_id fingerprint), itoa (fp_size fingerprint),
        itoa (unix_nano (fp_mod_time fingerprint))]))"

section \<open>Language equivalence\<close>

lemma EquivalentLanguage_sym: "EquivalentLanguage X a b \<Longrightarrow> EquivalentLanguage X b a"
  by (auto simp: EquivalentLanguage_def split: sum.splits)

lemma EquivalentLanguage_trans:
  "\<lbrakk>EquivalentLanguage X a b; EquivalentLanguage X b c\<rbrakk> \<Longrightarrow> EquivalentLanguage X a c"
  by (auto simp: EquivalentLanguage_def split: sum.splits)

lemma EquivalentLanguage_refl_iff: "EquivalentLanguage X a a \<longleftrightarrow> (\<exists>t. ParseLanguage X a = Ok t)"
  by (auto simp: EquivalentLanguage_def split: sum.splits)

lemma TrackCoversLanguage_equiv:
  assumes "EquivalentLanguage X want want'"
  shows "TrackCoversLanguage X t f h want a = TrackCoversLanguage X t f h want' a"
  using assms EquivalentLanguage_trans EquivalentLanguage_sym
  unfolding TrackCoversLanguage_def by metis

end
