(* ===== verification/Store_Types.thy ===== *)
theory Store_Types
  imports Domain
begin

text \<open>
  The records \<open>internal/store\<close> exchanges with its clients (\<open>repository.go\<close>): search leases and
  completions, notification requests and completions, provider states and installations.
\<close>

section \<open>Search queue\<close>

type_synonym search_priority = int

definition SearchPriorityUpgrade :: search_priority where "SearchPriorityUpgrade = 100"
definition SearchPriorityMissing :: search_priority where "SearchPriorityMissing = 200"
definition SearchPriorityImport :: search_priority where "SearchPriorityImport = 300"

definition validSearchPriority :: "search_priority \<Rightarrow> bool" where
  "validSearchPriority p \<longleftrightarrow>
     p = SearchPriorityUpgrade \<or> p = SearchPriorityMissing \<or> p = SearchPriorityImport"

lemmas priority_defs = SearchPriorityUpgrade_def SearchPriorityMissing_def SearchPriorityImport_def

record SearchLease =
  sl_media_id :: int
  sl_language :: language
  sl_job_id :: string
  sl_attempt :: int
  sl_failure_attempt :: int
  sl_lease_until :: gotime
  sl_priority :: search_priority
  sl_resume_providers :: "string list"
  sl_resume_signature :: string
  sl_resume_saved_at :: gotime
  sl_replace_installed :: bool

definition ResumeProvidersMaxAge :: duration where "ResumeProvidersMaxAge = 14 * day"

record SearchHistoryDetail =
  hd_media_title :: string
  hd_provider_id :: string
  hd_release_name :: string
  hd_reason :: string
  hd_manual :: bool

record SearchCompletion =
  co_job_id :: string
  co_outcome :: string
  co_next_attempt_at :: gotime
  co_advance_missing :: bool
  co_advance_upgrade :: bool
  co_advance_failure :: bool
  co_reset_missing :: bool
  co_missing_floor :: int
  co_reset_failure :: bool
  co_priority :: search_priority
  co_resume_providers :: "string list"
  co_resume_signature :: string
  co_preserve_resume :: bool
  co_resume_saved_at :: gotime
  co_preserve_queue_order :: bool
  co_history :: "SearchHistoryDetail option"
  co_finished_at :: gotime
  co_clear_replace :: bool

text \<open>The zero value of the struct, from which Go's composite literals start.\<close>

definition zero_completion :: SearchCompletion where
  "zero_completion =
     \<lparr>co_job_id = [], co_outcome = [], co_next_attempt_at = 0, co_advance_missing = False,
      co_advance_upgrade = False, co_advance_failure = False, co_reset_missing = False,
      co_missing_floor = 0, co_reset_failure = False, co_priority = 0, co_resume_providers = [],
      co_resume_signature = [], co_preserve_resume = False, co_resume_saved_at = 0,
      co_preserve_queue_order = False, co_history = None, co_finished_at = 0,
      co_clear_replace = False\<rparr>"

record SearchCompletionResult =
  cr_rerun_scheduled :: bool
  cr_resume_count :: nat

record RouteKey =
  rk_language :: language
  rk_kind :: media_kind
  rk_ranges_only :: bool

section \<open>Provider states\<close>

record ProviderState =
  ps_provider_id :: string
  ps_scope :: string
  ps_reason :: string
  ps_limit :: int
  ps_remaining :: int
  ps_reset_at :: gotime
  ps_disabled :: bool
  ps_failure_attempt :: int

definition zero_provider_state :: ProviderState where
  "zero_provider_state =
     \<lparr>ps_provider_id = [], ps_scope = [], ps_reason = [], ps_limit = 0, ps_remaining = 0,
      ps_reset_at = 0, ps_disabled = False, ps_failure_attempt = 0\<rparr>"

section \<open>Notifications\<close>

record NotificationRequest =
  nr_notifier :: string
  nr_dedupe_key :: string
  nr_payload :: string
  nr_next_attempt_at :: gotime
  nr_coalesce :: bool

record NotificationLease =
  nl_id :: int
  nl_notifier :: string
  nl_payload :: string
  nl_attempt :: int
  nl_job_id :: string
  nl_lease_until :: gotime

record NotificationCompletion =
  nc_job_id :: string
  nc_result :: string
  nc_next_attempt_at :: gotime
  nc_finished_at :: gotime

definition NotificationRetention :: duration where "NotificationRetention = 30 * day"

section \<open>Installations\<close>

record Installation =
  in_fallback :: bool
  in_media_id :: int
  in_language :: language
  in_path :: string
  in_checksum :: string
  in_provider_id :: string
  in_candidate_id :: string
  in_candidate_signature :: string
  in_artifact_checksum :: string
  in_score_json :: string
  in_sync_json :: string
  in_rollback_path :: string
  in_media_path :: string
  in_media_file_id :: int
  in_media_size :: int
  in_media_mod_time_ns :: int
  in_pending_id :: int
  in_installed_at :: gotime

end
