(* ===== verification/Schedule.thy ===== *)
theory Schedule
  imports Float64 Store_Types
begin

text \<open>
  \<open>internal/schedule\<close>: the retry delays (\<open>backoff.go\<close>) and the conversion of workflow outcomes into
  search completions (\<open>scheduler.go\<close>). The clock and the random source are arguments: \<open>now\<close> is the
  value \<open>Clock.Now\<close> returns, \<open>unit\<close> the float the random source draws. \<open>fused\<close> says whether the
  compiler fuses the jitter factor's multiplication and addition.
\<close>

section \<open>Delays\<close>

definition missingIntervals :: "duration list" where
  "missingIntervals =
     [0, 6 * hour, 6 * hour, 12 * hour, 48 * hour, 96 * hour, 168 * hour, 336 * hour]"

definition AgedMissingAttempt :: int where "AgedMissingAttempt = 6"

definition workflowFailureDelays :: "duration list" where
  "workflowFailureDelays = [minute, 5 * minute, 15 * minute, hour, 6 * hour, 24 * hour]"

definition failureDelays :: "duration list" where
  "failureDelays = [minute, 5 * minute, 15 * minute, hour]"

definition MissingDelay :: "bool \<Rightarrow> int \<Rightarrow> rat \<Rightarrow> duration" where
  "MissingDelay fused attempt randomUnit =
     (if attempt \<le> 0 then 0
      else
        let attempt' = (if attempt \<ge> int (length missingIntervals)
                        then int (length missingIntervals) - 1 else attempt);
            unit' = (if randomUnit < 0 then 0 else if randomUnit > 1 then 1 else randomUnit);
            factor = mul_add fused (rnd (1 / 5)) unit' 1
        in trunc_int (rnd (rnd (of_int (delay_nth attempt' missingIntervals)) * factor)))"

definition delayAt :: "int \<Rightarrow> duration list \<Rightarrow> duration" where
  "delayAt attempt delays =
     (let a = (if attempt < 0 then 0 else attempt);
          b = (if a \<ge> int (length delays) then int (length delays) - 1 else a)
      in delay_nth b delays)"

definition FailureDelay :: "int \<Rightarrow> duration" where
  "FailureDelay attempt = delayAt attempt failureDelays"

definition WorkflowFailureDelay :: "int \<Rightarrow> duration" where
  "WorkflowFailureDelay attempt = delayAt attempt workflowFailureDelays"

definition UpgradeDelay :: "bool \<Rightarrow> int \<Rightarrow> duration \<times> bool" where
  "UpgradeDelay exactHash score =
     (if exactHash \<or> score < 35 \<or> score > 100 then (0, False)
      else if score \<ge> 85 then (90 * 24 * hour, True)
      else if score \<ge> 60 then (30 * 24 * hour, True)
      else (7 * 24 * hour, True))"

section \<open>Scheduler\<close>

record Scheduler =
  s_now :: gotime
  s_unit :: rat
  s_aged_after :: duration

definition aged :: "Scheduler \<Rightarrow> gotime \<Rightarrow> gotime \<Rightarrow> bool" where
  "aged s releasedAt now \<longleftrightarrow>
     s_aged_after s > 0 \<and> \<not> is_zero_time releasedAt \<and> \<not> releasedAt > now
     \<and> now - releasedAt \<ge> s_aged_after s"

definition Missing :: "bool \<Rightarrow> Scheduler \<Rightarrow> string \<Rightarrow> int \<Rightarrow> gotime \<Rightarrow> SearchCompletion" where
  "Missing fused s jobID attempt releasedAt =
     (let completion = zero_completion\<lparr>co_job_id := jobID, co_outcome := ''missing'',
            co_advance_missing := True, co_reset_failure := True,
            co_priority := SearchPriorityMissing\<rparr>;
          now = s_now s;
          (attempt', completion') =
            (if aged s releasedAt now \<and> attempt < AgedMissingAttempt
             then (AgedMissingAttempt, completion\<lparr>co_missing_floor := AgedMissingAttempt\<rparr>)
             else (attempt, completion))
      in completion'\<lparr>co_next_attempt_at := now + MissingDelay fused attempt' (s_unit s)\<rparr>)"

definition ResumeTTL :: "Scheduler \<Rightarrow> int \<Rightarrow> gotime \<Rightarrow> duration" where
  "ResumeTTL s attempt releasedAt =
     (let next = attempt + 1;
          next' = (if aged s releasedAt (s_now s) \<and> next < AgedMissingAttempt
                   then AgedMissingAttempt else next);
          next'' = min next' (int (length missingIntervals) - 1)
      in max (delay_nth next'' missingIntervals) (6 * hour))"

definition Failure :: "Scheduler \<Rightarrow> string \<Rightarrow> int \<Rightarrow> string \<Rightarrow> SearchCompletion" where
  "Failure s jobID failureAttempt outcome =
     zero_completion\<lparr>co_job_id := jobID, co_outcome := outcome,
       co_next_attempt_at := s_now s + WorkflowFailureDelay failureAttempt,
       co_advance_failure := True\<rparr>"

section \<open>Bounds of the delays\<close>

lemma missing_index:
  assumes "0 < attempt"
  shows "delay_nth (if attempt \<ge> int (length missingIntervals) then int (length missingIntervals) - 1
           else attempt) missingIntervals = missingIntervals ! nat (min attempt 7)"
  using assms by (auto simp: delay_nth_def missingIntervals_def min_def)

lemma missing_interval_cases:
  assumes "1 \<le> i" and "i < 8"
  shows "missingIntervals ! i \<in> {6 * hour, 12 * hour, 48 * hour, 96 * hour, 168 * hour, 336 * hour}"
proof -
  from assms have "i \<in> {1, 2, 3, 4, 5, 6, 7}" by auto
  then show ?thesis by (auto simp: missingIntervals_def)
qed

lemma missing_interval_bounds:
  assumes "0 < attempt"
  shows "6 * hour \<le> missingIntervals ! nat (min attempt 7)"
    and "missingIntervals ! nat (min attempt 7) \<le> 336 * hour"
    and "5 dvd missingIntervals ! nat (min attempt 7)"
proof -
  have "1 \<le> nat (min attempt 7)" and "nat (min attempt 7) < 8" using assms by auto
  then have "missingIntervals ! nat (min attempt 7)
    \<in> {6 * hour, 12 * hour, 48 * hour, 96 * hour, 168 * hour, 336 * hour}"
    by (rule missing_interval_cases)
  then show "6 * hour \<le> missingIntervals ! nat (min attempt 7)"
    and "missingIntervals ! nat (min attempt 7) \<le> 336 * hour"
    and "5 dvd missingIntervals ! nat (min attempt 7)"
    by auto
qed

lemma missing_intervals_mono:
  "\<lbrakk>0 \<le> i; i \<le> j; j < 8\<rbrakk> \<Longrightarrow> missingIntervals ! i \<le> missingIntervals ! j"
proof -
  have "sorted missingIntervals" by (simp add: missingIntervals_def)
  moreover assume "i \<le> j" "j < 8"
  ultimately show ?thesis by (intro sorted_nth_mono) (simp_all add: missingIntervals_def)
qed

text \<open>The float \<open>0.2\<close> and the largest jitter factor stay below the exact values.\<close>

lemma rnd_fifth_eq: "rnd (1 / 5) = 3602879701896397 / 18014398509481984"
  using rnd_eval [of "- 3" "1 / 5" 7205759403792794] by (simp add: power_int_def power_one_over)

lemma rnd_fifth: "0 < rnd (1 / 5)"
  by (simp add: rnd_fifth_eq)

lemma rnd_fifth_idem: "rnd (rnd (1 / 5)) = rnd (1 / 5)"
  using rnd_eval [of "- 3" "3602879701896397 / 18014398509481984" 7205759403792794]
  by (simp add: rnd_fifth_eq power_int_def power_one_over)

lemma jitter_factor_max: "mul_add fused (rnd (1 / 5)) 1 1 \<le> 6 / 5"
proof -
  have "mul_add fused (rnd (1 / 5)) 1 1 = rnd (rnd (1 / 5) + 1)"
    by (simp add: mul_add_def rnd_fifth_idem)
  also have "\<dots> = 5404319552844595 / 4503599627370496"
    using rnd_eval [of 0 "21617278211378381 / 18014398509481984" 5404319552844595]
    by (simp add: rnd_fifth_eq power_int_def power_one_over)
  finally show ?thesis by simp
qed

lemma jitter_factor_bounds:
  assumes "0 \<le> u" and "u \<le> 1"
  shows "1 \<le> mul_add fused (rnd (1 / 5)) u 1" and "mul_add fused (rnd (1 / 5)) u 1 \<le> 6 / 5"
proof -
  show "1 \<le> mul_add fused (rnd (1 / 5)) u 1"
    using rnd_fifth assms by (intro mul_add_ge_1) auto
  have "mul_add fused (rnd (1 / 5)) u 1 \<le> mul_add fused (rnd (1 / 5)) 1 1"
    using rnd_fifth assms by (intro mul_add_mono) auto
  with jitter_factor_max [of fused] show "mul_add fused (rnd (1 / 5)) u 1 \<le> 6 / 5" by linarith
qed

lemma trunc_int_between:
  "\<lbrakk>of_int a \<le> x; x \<le> of_int b; 0 \<le> a\<rbrakk> \<Longrightarrow> a \<le> trunc_int x \<and> trunc_int x \<le> b"
  by (auto simp: trunc_int_def le_floor_iff floor_le_iff intro: order_trans [of 0 "of_int a" x])

lemma scaled_delay_bounds:
  assumes d: "0 \<le> d" "d \<le> 2 ^ 51" "5 dvd d" and f: "1 \<le> f" "f \<le> 6 / 5"
  shows "d \<le> trunc_int (rnd (rnd (of_int d) * f))" and "trunc_int (rnd (rnd (of_int d) * f)) \<le> d div 5 * 6"
proof -
  have rd: "rnd (of_int d) = of_int d" using d by (intro rnd_of_int) auto
  have d0: "0 \<le> rat_of_int d" using d(1) by simp
  have top: "rat_of_int (d div 5 * 6) = of_int d * (6 / 5)"
    using d(3) by (auto elim!: dvdE)
  have "rat_of_int d \<le> of_int d * f" using mult_left_mono [OF f(1) d0] by simp
  then have lo: "rat_of_int d \<le> rnd (of_int d * f)" using d by (intro rnd_ge_int) auto
  have "rat_of_int d * f \<le> of_int (d div 5 * 6)" unfolding top using mult_left_mono [OF f(2) d0] .
  moreover have "d div 5 * 6 \<le> 2 ^ 53" using d by (auto elim!: dvdE)
  ultimately have hi: "rnd (of_int d * f) \<le> of_int (d div 5 * 6)" using d(1) by (intro rnd_le_int) auto
  from trunc_int_between [OF lo hi d(1)]
  show "d \<le> trunc_int (rnd (rnd (of_int d) * f))" and "trunc_int (rnd (rnd (of_int d) * f)) \<le> d div 5 * 6"
    by (simp_all add: rd)
qed

lemma MissingDelay_range:
  assumes "0 < attempt"
  defines "d \<equiv> missingIntervals ! nat (min attempt 7)"
  shows "d \<le> MissingDelay fused attempt u" and "MissingDelay fused attempt u \<le> d div 5 * 6"
proof -
  define u' where "u' = (if u < 0 then 0 else if u > 1 then 1 else u)"
  have u': "0 \<le> u'" "u' \<le> 1" by (auto simp: u'_def)
  have eq: "MissingDelay fused attempt u = trunc_int (rnd (rnd (of_int d) * mul_add fused (rnd (1 / 5)) u' 1))"
    using assms(1) by (simp add: MissingDelay_def Let_def u'_def d_def missing_index)
  have d: "0 \<le> d" "d \<le> 2 ^ 51" "5 dvd d"
    using missing_interval_bounds [OF assms(1)] by (auto simp: d_def)
  from scaled_delay_bounds [OF d jitter_factor_bounds [OF u']]
  show "d \<le> MissingDelay fused attempt u" and "MissingDelay fused attempt u \<le> d div 5 * 6"
    by (simp_all only: eq)
qed

lemma MissingDelay_nonpos [simp]: "attempt \<le> 0 \<Longrightarrow> MissingDelay fused attempt u = 0"
  by (simp add: MissingDelay_def)

lemma delayAt_in: "ds \<noteq> [] \<Longrightarrow> delayAt attempt ds \<in> set ds"
  unfolding delayAt_def Let_def by (rule delay_nth_in) (auto simp: Suc_le_eq)

lemma delayAt_mono:
  assumes "sorted ds" and "ds \<noteq> []" and "a \<le> b"
  shows "delayAt a ds \<le> delayAt b ds"
proof -
  have len: "1 \<le> int (length ds)" using assms(2) by (cases ds) auto
  define clip where "clip i = min (max i 0) (int (length ds) - 1)" for i :: int
  have clip: "delayAt i ds = ds ! nat (clip i)" for i
    using len by (simp add: delayAt_def Let_def delay_nth_def clip_def)
  have "nat (clip a) \<le> nat (clip b)" and "nat (clip b) < length ds"
    using assms(3) len by (auto simp: clip_def nat_less_iff)
  then show ?thesis unfolding clip using assms(1) by (intro sorted_nth_mono)
qed

lemma WorkflowFailureDelay_range: "minute \<le> WorkflowFailureDelay a \<and> WorkflowFailureDelay a \<le> 24 * hour"
  using delayAt_in [of workflowFailureDelays a]
  by (auto simp: WorkflowFailureDelay_def workflowFailureDelays_def)

lemma aged_mono: "\<lbrakk>aged s r now; now \<le> later\<rbrakk> \<Longrightarrow> aged s r later"
  by (auto simp: aged_def)

section \<open>Properties\<close>

text \<open>a missing-subtitle retry is never sooner than the unjittered interval of its attempt, never
  sooner than the six hours a provider search answer stays cached, and never more than 20 percent
  later than the interval, whatever the random source draws (also outside the unit interval) and
  whether or not the compiler fuses the jitter arithmetic. The float rounding is included.\<close>

theorem missing_delay_window:
  assumes "0 < attempt"
  shows "missingIntervals ! nat (min attempt 7) \<le> MissingDelay fused attempt u
    \<and> 6 * hour \<le> MissingDelay fused attempt u
    \<and> 5 * MissingDelay fused attempt u \<le> 6 * missingIntervals ! nat (min attempt 7)"
proof -
  note r = MissingDelay_range [OF assms, of fused u] and b = missing_interval_bounds [OF assms]
  from r(2) have "5 * MissingDelay fused attempt u \<le> 5 * (missingIntervals ! nat (min attempt 7) div 5 * 6)"
    by simp
  also have "\<dots> = 6 * missingIntervals ! nat (min attempt 7)" using b(3) by (auto elim!: dvdE)
  finally show ?thesis using r b by linarith
qed

theorem missing_delay_window_witness:
  "(0::int) < 3 \<and> 12 * hour \<le> MissingDelay False 3 (1 / 2) \<and> 5 * MissingDelay False 3 (1 / 2) \<le> 6 * (12 * hour)"
  using missing_delay_window [of 3 False "1 / 2"] by (simp add: missingIntervals_def)

lemma ResumeTTL_interval:
  fixes s :: Scheduler and releasedAt :: gotime
  assumes "0 \<le> attempt"
  defines "next' \<equiv> (if aged s releasedAt (s_now s) \<and> attempt + 1 < AgedMissingAttempt
      then AgedMissingAttempt else attempt + 1)"
  shows "ResumeTTL s attempt releasedAt = missingIntervals ! nat (min next' 7)" and "0 < next'"
proof -
  show pos: "0 < next'" using assms(1) by (simp add: next'_def AgedMissingAttempt_def)
  have "delay_nth (min next' 7) missingIntervals = missingIntervals ! nat (min next' 7)"
    by (simp add: delay_nth_def)
  with missing_interval_bounds(1) [OF pos] show "ResumeTTL s attempt releasedAt = missingIntervals ! nat (min next' 7)"
    by (simp add: ResumeTTL_def next'_def missingIntervals_def Let_def)
qed

text \<open>The time a provider's empty answer may be reused by a search at some missing attempt is the gap
  the missing schedule leaves after that search, up to its jitter of at most 20 percent: never longer
  than the wait before the next search, at least the six hours of the search cache, and at most the
  fourteen days after which the store drops the list.\<close>

theorem resume_ttl_matches_schedule:
  assumes "0 \<le> attempt"
  shows "ResumeTTL s attempt releasedAt
       \<le> co_next_attempt_at (Missing fused s job (attempt + 1) releasedAt) - s_now s
    \<and> 5 * (co_next_attempt_at (Missing fused s job (attempt + 1) releasedAt) - s_now s)
       \<le> 6 * ResumeTTL s attempt releasedAt
    \<and> 6 * hour \<le> ResumeTTL s attempt releasedAt \<and> ResumeTTL s attempt releasedAt \<le> ResumeProvidersMaxAge"
proof -
  define n where "n = (if aged s releasedAt (s_now s) \<and> attempt + 1 < AgedMissingAttempt
      then AgedMissingAttempt else attempt + 1)"
  note ttl = ResumeTTL_interval [OF assms, of s releasedAt, folded n_def]
  have wait: "co_next_attempt_at (Missing fused s job (attempt + 1) releasedAt) - s_now s
      = MissingDelay fused n (s_unit s)"
    by (simp add: Missing_def n_def Let_def)
  note r = MissingDelay_range [OF ttl(2), of fused "s_unit s"] and b = missing_interval_bounds [OF ttl(2)]
  have "5 * MissingDelay fused n (s_unit s) \<le> 6 * missingIntervals ! nat (min n 7)"
    using r(2) b(3) by (auto elim!: dvdE)
  with r(1) b show ?thesis unfolding wait ttl(1) by (simp add: ResumeProvidersMaxAge_def)
qed

theorem resume_ttl_matches_schedule_witness:
  "ResumeTTL \<lparr>s_now = unix_epoch, s_unit = 1 / 2, s_aged_after = 0\<rparr> 2 0
     \<le> co_next_attempt_at (Missing False \<lparr>s_now = unix_epoch, s_unit = 1 / 2, s_aged_after = 0\<rparr> ''j'' 3 0) - unix_epoch"
  using resume_ttl_matches_schedule [of 2 "\<lparr>s_now = unix_epoch, s_unit = 1 / 2, s_aged_after = 0\<rparr>" 0 False "''j''"]
  by simp

end
