(* ===== verification/Rate_Headers.thy ===== *)
theory Rate_Headers
  imports Float64 Go_Text
begin

text \<open>
  \<open>internal/provider/rateheaders.go\<close>: reading the rate-limit headers of a provider's answer and
  choosing the window that restricts the client most. A header set is the function \<open>Get\<close> (the first
  value of a canonical name, empty when absent). The two date formats are parsed by the standard
  library; \<open>date_formats\<close> holds those two functions and nothing is assumed about them.
\<close>

type_synonym http_header = "string \<Rightarrow> string"

record date_formats =
  df_rfc3339 :: "string \<Rightarrow> gotime option"
  df_http :: "string \<Rightarrow> gotime option"

definition MaxProviderCooldown :: duration where "MaxProviderCooldown = 48 * hour"

definition deltaResetLimit :: int where "deltaResetLimit = 10 * 365 * 24 * 60 * 60"

record RateLimitWindow =
  w_name :: string
  w_limit :: int
  w_remaining :: int
  w_reset_at :: gotime
  w_source :: string

section \<open>Header grammar\<close>

definition splitHeaderValues :: "string \<Rightarrow> string list" where
  "splitHeaderValues raw = (if trim_space raw = [] then [] else split_char (CHR '','') raw)"

definition header_key :: "unicode \<Rightarrow> string \<Rightarrow> string" where
  "header_key U key = to_lower U (trim_space key)"

definition add_parameter :: "unicode \<Rightarrow> string \<Rightarrow> (string \<rightharpoonup> string) \<Rightarrow> (string \<rightharpoonup> string)" where
  "add_parameter U part parameters =
     (case cut part ''='' of
        None \<Rightarrow> parameters
      | Some (key, val) \<Rightarrow> parameters(header_key U key \<mapsto> trim_set [CHR 0x22] (trim_space val)))"

definition parseParameterized :: "unicode \<Rightarrow> string \<Rightarrow> string \<times> (string \<rightharpoonup> string)" where
  "parseParameterized U raw =
     (let parts = split_char (CHR '';'') raw;
          name = trim_set [CHR 0x22] (trim_space (hd parts));
          (name', start) =
            (case cut name ''='' of
               None \<Rightarrow> (name, Map.empty)
             | Some (key, val) \<Rightarrow> (''default'', [header_key U key \<mapsto> trim_space val]))
      in (name', fold (add_parameter U) (tl parts) start))"

fun parseIntParameter :: "(string \<rightharpoonup> string) \<Rightarrow> string list \<Rightarrow> int option" where
  "parseIntParameter parameters [] = None"
| "parseIntParameter parameters (name # names) =
     (case parameters name of Some raw \<Rightarrow> parse_int raw | None \<Rightarrow> parseIntParameter parameters names)"

text \<open>The limits by policy name; an unlisted policy reads as Go's zero value.\<close>

definition parsePolicies :: "unicode \<Rightarrow> string \<Rightarrow> string \<Rightarrow> int" where
  "parsePolicies U raw =
     fold (\<lambda>item policies.
             let (name, parameters) = parseParameterized U item
             in case parseIntParameter parameters [''q'', ''limit''] of
                  Some limit \<Rightarrow> if limit > 0 then policies(name := limit) else policies
                | None \<Rightarrow> policies)
       (splitHeaderValues raw) (\<lambda>_. 0)"

definition rateLimitEntries :: "string \<Rightarrow> string list" where
  "rateLimitEntries raw =
     (let entries = splitHeaderValues raw;
          dictionary = (entries \<noteq> [] \<and>
            list_all (\<lambda>entry. \<not> (contains_str entry '';'' \<or> \<not> contains_str entry ''='')) entries)
      in if dictionary then [join '';'' entries] else entries)"

section \<open>Reset times\<close>

definition afterSeconds :: "gotime \<Rightarrow> int \<Rightarrow> gotime" where
  "afterSeconds now seconds =
     (let limit = MaxProviderCooldown div second;
          seconds' = (if seconds > limit then limit + 1 else seconds)
      in now + seconds' * second)"

text \<open>\<open>time.Unix(sec, 0)\<close>: the seconds are shifted to Go's internal epoch in 64-bit arithmetic.\<close>

definition time_Unix :: "int \<Rightarrow> gotime" where
  "time_Unix sec = ((sec + 62135596800 + 2 ^ 63) mod 2 ^ 64 - 2 ^ 63) * second"

definition parseXReset :: "date_formats \<Rightarrow> gotime \<Rightarrow> string \<Rightarrow> gotime option" where
  "parseXReset F now raw0 =
     (let raw = trim_space raw0
      in case parse_int raw of
           Some reset \<Rightarrow>
             if reset > 0 \<and> reset < deltaResetLimit then Some (afterSeconds now reset)
             else Some (time_Unix reset)
         | None \<Rightarrow> df_rfc3339 F raw)"

definition parseRetryAfter :: "date_formats \<Rightarrow> gotime \<Rightarrow> string \<Rightarrow> gotime option" where
  "parseRetryAfter F now raw0 =
     (let raw = trim_space raw0
      in if raw = [] then None
         else let by_date = (case df_http F raw of
                               Some parsed \<Rightarrow> if parsed > now then Some parsed else None
                             | None \<Rightarrow> None)
              in case parse_int raw of
                   Some seconds \<Rightarrow> if seconds \<ge> 0 then Some (afterSeconds now seconds) else by_date
                 | None \<Rightarrow> by_date)"

section \<open>Choosing the window\<close>

definition capacity_ratio :: "RateLimitWindow \<Rightarrow> rat" where
  "capacity_ratio w = rnd (rnd (of_int (w_remaining w)) / rnd (of_int (max (w_limit w) 1)))"

definition moreRestrictive :: "RateLimitWindow \<Rightarrow> RateLimitWindow \<Rightarrow> bool" where
  "moreRestrictive candidate current =
     (let candidateExhausted = w_remaining candidate \<le> 0; currentExhausted = w_remaining current \<le> 0
      in if candidateExhausted \<noteq> currentExhausted then candidateExhausted
         else if candidateExhausted then w_reset_at candidate > w_reset_at current
         else if capacity_ratio candidate \<noteq> capacity_ratio current
              then capacity_ratio candidate < capacity_ratio current
         else w_reset_at candidate > w_reset_at current)"

definition ratelimit_window ::
  "unicode \<Rightarrow> gotime \<Rightarrow> (string \<Rightarrow> int) \<Rightarrow> string \<Rightarrow> RateLimitWindow option" where
  "ratelimit_window U now policies entry =
     (let (name, parameters) = parseParameterized U entry
      in case (parseIntParameter parameters [''r'', ''remaining''],
               parseIntParameter parameters [''t'', ''reset'']) of
           (Some remaining, Some reset) \<Rightarrow>
             if reset \<le> 0 then None
             else Some \<lparr>w_name = name,
                    w_limit = (case parseIntParameter parameters [''limit'', ''q''] of
                                 Some direct \<Rightarrow> direct | None \<Rightarrow> policies name),
                    w_remaining = remaining, w_reset_at = afterSeconds now reset,
                    w_source = ''ratelimit''\<rparr>
         | _ \<Rightarrow> None)"

definition ratelimit_windows :: "unicode \<Rightarrow> gotime \<Rightarrow> http_header \<Rightarrow> RateLimitWindow list" where
  "ratelimit_windows U now headers =
     List.map_filter (ratelimit_window U now (parsePolicies U (headers ''RateLimit-Policy'')))
       (rateLimitEntries (headers ''RateLimit''))"

definition header_int :: "http_header \<Rightarrow> string \<Rightarrow> int option" where
  "header_int headers name = parse_int (trim_space (headers name))"

text \<open>
  The value \<open>strconv.ParseInt(s, 10, 64)\<close> gives beside its error: zero for a text that is no number, the nearest bound
  for a number out of range. Its scan stops at the first digit at which the number no longer fits 64 bits.
\<close>

fun scan_uint :: "nat \<Rightarrow> string \<Rightarrow> nat option" where
  "scan_uint n [] = Some n"
| "scan_uint n (c # cs) =
     (if \<not> is_dec c then None
      else let m = 10 * n + (byte_val c - 48) in if m \<ge> 2 ^ 64 then Some (2 ^ 64 - 1) else scan_uint m cs)"

definition parse_int_value :: "string \<Rightarrow> int" where
  "parse_int_value s =
     (let (neg, ds) = (case s of
            [] \<Rightarrow> (False, [])
          | c # cs \<Rightarrow> if c = CHR ''-'' then (True, cs) else if c = CHR ''+'' then (False, cs) else (False, s))
      in case (if ds = [] then None else scan_uint 0 ds) of
           None \<Rightarrow> 0
         | Some n \<Rightarrow> if neg then max min_int64 (- int n) else min max_int64 (int n))"

lemma digits_val_mono: "n \<le> digits_val n ds"
proof (induction ds arbitrary: n)
  case (Cons c cs)
  have "n \<le> 10 * n + (byte_val c - 48)" by simp
  also have "\<dots> \<le> digits_val (10 * n + (byte_val c - 48)) cs" by (rule Cons.IH)
  finally show ?case by simp
qed simp

lemma scan_uint_digits: "\<lbrakk>list_all is_dec ds; digits_val n ds < 2 ^ 64\<rbrakk> \<Longrightarrow> scan_uint n ds = Some (digits_val n ds)"
proof (induction ds arbitrary: n)
  case (Cons c cs)
  then have "10 * n + (byte_val c - 48) < 2 ^ 64" using digits_val_mono by (metis digits_val.simps(2) le_less_trans)
  with Cons show ?case by (simp add: Let_def del: power_numeral)
qed simp

text \<open>Where there is no error, it is the number.\<close>

lemma parse_int_value: "parse_int s = Some v \<Longrightarrow> parse_int_value s = v"
  by (auto simp: parse_int_def parse_int_value_def Let_def min_int64_def max_int64_def scan_uint_digits
      simp del: scan_uint.simps digits_val.simps split: list.splits if_splits)

definition draft_windows :: "gotime \<Rightarrow> http_header \<Rightarrow> RateLimitWindow list" where
  "draft_windows now headers =
     (case (header_int headers ''RateLimit-Remaining'', header_int headers ''RateLimit-Reset'') of
        (Some remaining, Some reset) \<Rightarrow>
          if reset > 0
          then [\<lparr>w_name = ''ratelimit'', w_limit = parse_int_value (trim_space (headers ''RateLimit-Limit'')),
                 w_remaining = remaining, w_reset_at = afterSeconds now reset, w_source = ''ratelimit''\<rparr>]
          else []
      | _ \<Rightarrow> [])"

definition x_windows :: "date_formats \<Rightarrow> gotime \<Rightarrow> http_header \<Rightarrow> RateLimitWindow list" where
  "x_windows F now headers =
     (case (header_int headers ''X-RateLimit-Remaining'', parseXReset F now (headers ''X-RateLimit-Reset'')) of
        (Some remaining, Some resetAt) \<Rightarrow>
          if resetAt > now
          then let limit = parse_int_value (trim_space (headers ''X-RateLimit-Limit''))
               in [\<lparr>w_name = ''x-ratelimit'', w_limit = (if limit \<le> 0 then max remaining 1 else limit),
                    w_remaining = remaining, w_reset_at = resetAt, w_source = ''x-ratelimit''\<rparr>]
          else []
      | _ \<Rightarrow> [])"

definition retry_windows :: "date_formats \<Rightarrow> gotime \<Rightarrow> http_header \<Rightarrow> RateLimitWindow list" where
  "retry_windows F now headers =
     (case parseRetryAfter F now (headers ''Retry-After'') of
        Some retryAt \<Rightarrow> [\<lparr>w_name = ''retry-after'', w_limit = 0, w_remaining = 0,
                          w_reset_at = retryAt, w_source = ''retry-after''\<rparr>]
      | None \<Rightarrow> [])"

definition json_windows :: "gotime \<Rightarrow> gotime list \<Rightarrow> RateLimitWindow list" where
  "json_windows now jsonResets =
     map (\<lambda>resetAt. \<lparr>w_name = ''json'', w_limit = 0, w_remaining = 0, w_reset_at = resetAt,
                     w_source = ''json''\<rparr>)
       (filter (\<lambda>resetAt. resetAt > now) jsonResets)"

definition parsed_windows ::
  "unicode \<Rightarrow> date_formats \<Rightarrow> gotime \<Rightarrow> http_header \<Rightarrow> gotime list \<Rightarrow> RateLimitWindow list" where
  "parsed_windows U F now headers jsonResets =
     ratelimit_windows U now headers @ draft_windows now headers @ x_windows F now headers
     @ retry_windows F now headers @ json_windows now jsonResets"

definition ParseRateLimit ::
  "unicode \<Rightarrow> date_formats \<Rightarrow> gotime \<Rightarrow> http_header \<Rightarrow> gotime list \<Rightarrow> RateLimitWindow option" where
  "ParseRateLimit U F now headers jsonResets =
     (case parsed_windows U F now headers jsonResets of
        [] \<Rightarrow> None
      | w # ws \<Rightarrow> Some (select_best moreRestrictive w ws))"

section \<open>Lemmas\<close>

interpretation restrictive: strict_weak_order moreRestrictive
  by unfold_locales (auto simp: moreRestrictive_def Let_def split: if_splits)

lemma afterSeconds_bounds:
  assumes "0 \<le> seconds"
  shows "now \<le> afterSeconds now seconds" and "afterSeconds now seconds \<le> now + MaxProviderCooldown + second"
  using assms by (auto simp: afterSeconds_def MaxProviderCooldown_def Let_def)

lemma afterSeconds_pos: "0 < seconds \<Longrightarrow> now < afterSeconds now seconds"
  by (auto simp: afterSeconds_def MaxProviderCooldown_def Let_def)

lemma afterSeconds_mono: "s \<le> t \<Longrightarrow> afterSeconds now s \<le> afterSeconds now t"
  by (auto simp: afterSeconds_def MaxProviderCooldown_def Let_def)

lemma ratelimit_window_future: "ratelimit_window U now policies entry = Some w \<Longrightarrow> now < w_reset_at w"
  by (auto simp: ratelimit_window_def Let_def afterSeconds_pos
      split: prod.split_asm option.split_asm if_split_asm)

lemma ratelimit_windows_future: "w \<in> set (ratelimit_windows U now headers) \<Longrightarrow> now < w_reset_at w"
  by (auto simp: ratelimit_windows_def List.map_filter_def ratelimit_window_future)

lemma draft_windows_future: "w \<in> set (draft_windows now headers) \<Longrightarrow> now < w_reset_at w"
  by (cases "header_int headers ''RateLimit-Remaining''"; cases "header_int headers ''RateLimit-Reset''")
    (simp_all add: draft_windows_def afterSeconds_pos split: if_split_asm)

lemma x_windows_future: "w \<in> set (x_windows F now headers) \<Longrightarrow> now < w_reset_at w"
  by (cases "header_int headers ''X-RateLimit-Remaining''";
      cases "parseXReset F now (headers ''X-RateLimit-Reset'')")
    (simp_all add: x_windows_def Let_def split: if_split_asm)

lemma json_windows_future: "w \<in> set (json_windows now resets) \<Longrightarrow> now < w_reset_at w"
  by (auto simp: json_windows_def)

lemma parseRetryAfter_not_past: "parseRetryAfter F now raw = Some t \<Longrightarrow> now \<le> t"
  by (auto simp: parseRetryAfter_def Let_def afterSeconds_bounds split: if_splits option.splits)

lemma retry_windows_not_past: "w \<in> set (retry_windows F now headers) \<Longrightarrow> now \<le> w_reset_at w"
  by (cases "parseRetryAfter F now (headers ''Retry-After'')")
    (simp_all add: retry_windows_def parseRetryAfter_not_past)

lemmas window_times = ratelimit_windows_future draft_windows_future x_windows_future
  json_windows_future retry_windows_not_past

lemma parsed_windows_not_past:
  "w \<in> set (parsed_windows U F now headers resets) \<Longrightarrow> now \<le> w_reset_at w"
  by (auto simp: parsed_windows_def dest!: window_times)

lemma ParseRateLimit_in:
  "ParseRateLimit U F now headers resets = Some w \<Longrightarrow> w \<in> set (parsed_windows U F now headers resets)"
  using restrictive.select_best_in by (auto simp: ParseRateLimit_def split: list.splits)

lemma ParseRateLimit_not_beaten:
  "\<lbrakk>ParseRateLimit U F now headers resets = Some w; v \<in> set (parsed_windows U F now headers resets)\<rbrakk>
   \<Longrightarrow> \<not> moreRestrictive v w"
  using restrictive.select_best_not_beaten by (auto simp: ParseRateLimit_def split: list.splits)

lemma ParseRateLimit_None:
  "ParseRateLimit U F now headers resets = None \<longleftrightarrow> parsed_windows U F now headers resets = []"
  by (simp add: ParseRateLimit_def split: list.splits)

lemma exhausted_selected:
  assumes sel: "ParseRateLimit U F now headers resets = Some w"
    and v: "v \<in> set (parsed_windows U F now headers resets)" "w_remaining v \<le> 0"
  shows "w_remaining w \<le> 0" and "w_reset_at v \<le> w_reset_at w"
  using ParseRateLimit_not_beaten [OF sel v(1)] v(2)
  by (auto simp: moreRestrictive_def Let_def split: if_splits)

lemma unexhausted_selected:
  assumes sel: "ParseRateLimit U F now headers resets = Some w"
    and v: "v \<in> set (parsed_windows U F now headers resets)" "\<not> w_remaining w \<le> 0"
  shows "capacity_ratio w \<le> capacity_ratio v"
  using ParseRateLimit_not_beaten [OF sel v(1)] exhausted_selected(1) [OF sel v(1)] v(2)
  by (auto simp: moreRestrictive_def Let_def split: if_splits)

lemma ratelimit_window_bounded:
  "ratelimit_window U now policies entry = Some w \<Longrightarrow> w_reset_at w \<le> now + MaxProviderCooldown + second"
  by (auto simp: ratelimit_window_def Let_def afterSeconds_bounds
      split: prod.split_asm option.split_asm if_split_asm)

lemma parseXReset_delta:
  assumes "parse_int (trim_space raw) = Some reset" "0 < reset" "reset < deltaResetLimit"
  shows "parseXReset F now raw = Some (afterSeconds now reset)"
  using assms by (simp add: parseXReset_def)

section \<open>Properties\<close>

text \<open>the window that \<open>ParseRateLimit\<close> returns is one the answer carries and does not reset in the
  past. When some window is exhausted, the returned one is exhausted too and resets last among the
  exhausted ones; when it is not exhausted, no window has a smaller share of its capacity left.\<close>

theorem rate_limit_selection:
  assumes "ParseRateLimit U F now headers resets = Some w"
    and "v \<in> set (parsed_windows U F now headers resets)"
  shows "w \<in> set (parsed_windows U F now headers resets) \<and> now \<le> w_reset_at w
    \<and> (if w_remaining v \<le> 0 then w_remaining w \<le> 0 \<and> w_reset_at v \<le> w_reset_at w
       else w_remaining w \<le> 0 \<or> capacity_ratio w \<le> capacity_ratio v)"
  using ParseRateLimit_in [OF assms(1)] exhausted_selected [OF assms] unexhausted_selected [OF assms]
  by (auto intro: parsed_windows_not_past)

definition sample_headers :: http_header where
  "sample_headers name =
     (if name = ''RateLimit'' then ''limit=10, remaining=0, reset=30''
      else if name = ''Retry-After'' then ''120'' else [])"

definition no_dates :: date_formats where
  "no_dates = \<lparr>df_rfc3339 = (\<lambda>_. None), df_http = (\<lambda>_. None)\<rparr>"

lemmas header_eval = ratelimit_windows_def ratelimit_window_def rateLimitEntries_def
  splitHeaderValues_def parseParameterized_def add_parameter_def header_key_def afterSeconds_def
  MaxProviderCooldown_def parsePolicies_def draft_windows_def x_windows_def retry_windows_def
  json_windows_def parseRetryAfter_def header_int_def parsed_windows_def List.map_filter_def
  sample_headers_def no_dates_def

lemma sample_windows:
  "parsed_windows ascii_tables no_dates 0 sample_headers [] =
     [\<lparr>w_name = ''default'', w_limit = 10, w_remaining = 0, w_reset_at = 30 * second, w_source = ''ratelimit''\<rparr>,
      \<lparr>w_name = ''retry-after'', w_limit = 0, w_remaining = 0, w_reset_at = 120 * second,
       w_source = ''retry-after''\<rparr>]"
  by (simp add: header_eval text_eval)

theorem rate_limit_selection_witness:
  "\<exists>w. ParseRateLimit ascii_tables no_dates 0 sample_headers [] = Some w
     \<and> w_remaining w \<le> 0 \<and> 30 * second \<le> w_reset_at w"
proof -
  obtain w where w: "ParseRateLimit ascii_tables no_dates 0 sample_headers [] = Some w"
    using ParseRateLimit_None [of ascii_tables no_dates 0 sample_headers "[]"]
    by (auto simp: sample_windows)
  with rate_limit_selection [OF w, of "hd (parsed_windows ascii_tables no_dates 0 sample_headers [])"]
  show ?thesis by (simp add: sample_windows)
qed

end
