(* ===== verification/Provider_Errors.thy ===== *)
theory Provider_Errors
  imports Store_Types
begin

text \<open>
  \<open>internal/provider/errors.go\<close>, the \<open>SearchPersistenceError\<close> of \<open>coordinator.go\<close>, and the error values
  their clients inspect. A Go error chain is a
  value of one datatype: \<open>Wrapped\<close> is \<open>fmt.Errorf\<close> with \<open>%w\<close>, and \<open>errors_as\<close> walks the chain
  the way \<open>errors.As\<close> and \<open>errors.Is\<close> do. Operations and search modes are the source's strings
  (\<open>internal/provider/provider.go\<close>).
\<close>

type_synonym operation = string

definition OperationAll :: operation where "OperationAll = ''all''"
definition OperationSearch :: operation where "OperationSearch = ''search''"
definition OperationDownload :: operation where "OperationDownload = ''download''"
definition OperationDownloadTransfer :: operation where "OperationDownloadTransfer = ''download_transfer''"
definition OperationAuth :: operation where "OperationAuth = ''auth''"

lemmas operation_defs = OperationAll_def OperationSearch_def OperationDownload_def
  OperationDownloadTransfer_def OperationAuth_def

datatype provider_error =
    CooldownError (ce_suppressed: bool) (ce_provider: string) (ce_scope: operation)
      (ce_reason: string) (ce_reset_at: gotime)
  | DisabledError (de_suppressed: bool) (de_provider: string) (de_reason: string)
  | AuthenticationError string
  | InvalidPayloadError string
  | QuotaError (qe_scope: operation) (qe_reset_at: gotime) string
  | RedirectError string
  | AvailabilityError provider_error
  | SearchPersistenceError provider_error
  | ContextCanceled
  | DeadlineExceeded
  | ErrNoRows
  | OtherError string
  | Wrapped string provider_error

fun errors_as :: "(provider_error \<Rightarrow> bool) \<Rightarrow> provider_error \<Rightarrow> bool" where
  "errors_as p (Wrapped msg e) = (p (Wrapped msg e) \<or> errors_as p e)"
| "errors_as p (AvailabilityError e) = (p (AvailabilityError e) \<or> errors_as p e)"
| "errors_as p (SearchPersistenceError e) = (p (SearchPersistenceError e) \<or> errors_as p e)"
| "errors_as p e = p e"

fun is_cooldown :: "provider_error \<Rightarrow> bool" where
  "is_cooldown (CooldownError _ _ _ _ _) = True"
| "is_cooldown _ = False"

fun is_quota :: "provider_error \<Rightarrow> bool" where
  "is_quota (QuotaError _ _ _) = True"
| "is_quota _ = False"

fun is_disabled :: "provider_error \<Rightarrow> bool" where
  "is_disabled (DisabledError _ _ _) = True"
| "is_disabled _ = False"

fun is_availability :: "provider_error \<Rightarrow> bool" where
  "is_availability (AvailabilityError _) = True"
| "is_availability _ = False"

fun is_search_persistence :: "provider_error \<Rightarrow> bool" where
  "is_search_persistence (SearchPersistenceError _) = True"
| "is_search_persistence _ = False"

fun is_authentication :: "provider_error \<Rightarrow> bool" where
  "is_authentication (AuthenticationError _) = True"
| "is_authentication _ = False"

fun is_invalid_payload :: "provider_error \<Rightarrow> bool" where
  "is_invalid_payload (InvalidPayloadError _) = True"
| "is_invalid_payload _ = False"

abbreviation is_no_rows :: "provider_error \<Rightarrow> bool" where
  "is_no_rows \<equiv> errors_as (\<lambda>e. e = ErrNoRows)"

abbreviation is_context_error :: "provider_error \<Rightarrow> bool" where
  "is_context_error \<equiv> errors_as (\<lambda>e. e = ContextCanceled \<or> e = DeadlineExceeded)"

text \<open>\<open>classifyAvailabilityError\<close> of \<open>availability.go\<close>; \<open>None\<close> is the nil error.\<close>

definition classifyAvailabilityError :: "provider_error option \<Rightarrow> provider_error option" where
  "classifyAvailabilityError err =
     (case err of
        None \<Rightarrow> None
      | Some e \<Rightarrow>
          if errors_as is_cooldown e \<or> errors_as is_quota e \<or> errors_as is_disabled e
             \<or> errors_as is_availability e \<or> is_context_error e
          then Some e else Some (AvailabilityError e))"

end
