(* ===== verification/Provider_Gate.thy ===== *)
theory Provider_Gate
  imports Rate_Headers Provider_Errors
begin

text \<open>
  The persistent side of the provider gate: \<open>GetProviderState\<close>, \<open>PutProviderState\<close> and
  \<open>ClearProviderState\<close> of \<open>internal/store/repository.go\<close>, the throttle bookkeeping of
  \<open>internal/provider/limiter.go\<close> and the availability checks of \<open>internal/provider/availability.go\<close>.
  The gate reaches the table only through the interface \<open>StateStore\<close>, a record of two functions;
  the locale \<open>state_store\<close> states what the gate relies on, and the repository's table is interpreted
  as an instance. An operation reads the clock once, as \<open>now\<close>: the mutex \<open>stateMu\<close> is held for its
  whole duration. Log events are left out.
\<close>

section \<open>The table of provider states\<close>

record provider_row =
  pr_provider_id :: string
  pr_scope :: string
  pr_reason :: string
  pr_limit :: int
  pr_remaining :: int
  pr_reset_at_ns :: int
  pr_disabled :: bool
  pr_failure_attempt :: int

text \<open>A read or a write of the database may fail; which ones do is part of the state.\<close>

record state_db =
  db_rows :: "provider_row list"
  db_read_fault :: "string \<Rightarrow> string \<Rightarrow> bool"
  db_write_fault :: bool

definition unixNano :: "gotime \<Rightarrow> int" where
  "unixNano t = (if is_zero_time t then 0 else unix_nano t)"

definition fromUnixNano :: "int \<Rightarrow> gotime" where
  "fromUnixNano n = (if n = 0 then zero_time else from_unix n)"

definition row_key :: "string \<Rightarrow> string \<Rightarrow> provider_row \<Rightarrow> bool" where
  "row_key provider_id scope r \<longleftrightarrow> pr_provider_id r = provider_id \<and> pr_scope r = scope"

definition row_state :: "provider_row \<Rightarrow> ProviderState" where
  "row_state r =
     \<lparr>ps_provider_id = pr_provider_id r, ps_scope = pr_scope r, ps_reason = pr_reason r,
      ps_limit = pr_limit r, ps_remaining = pr_remaining r, ps_reset_at = fromUnixNano (pr_reset_at_ns r),
      ps_disabled = pr_disabled r, ps_failure_attempt = pr_failure_attempt r\<rparr>"

definition state_row :: "ProviderState \<Rightarrow> provider_row" where
  "state_row st =
     \<lparr>pr_provider_id = ps_provider_id st, pr_scope = ps_scope st, pr_reason = ps_reason st,
      pr_limit = ps_limit st, pr_remaining = ps_remaining st, pr_reset_at_ns = unixNano (ps_reset_at st),
      pr_disabled = ps_disabled st, pr_failure_attempt = ps_failure_attempt st\<rparr>"

definition GetProviderState :: "state_db \<Rightarrow> string \<Rightarrow> string \<Rightarrow> (provider_error, ProviderState) result" where
  "GetProviderState db provider_id scope =
     (if db_read_fault db provider_id scope
      then Err (Wrapped ''get provider state'' (OtherError ''database''))
      else case find (row_key provider_id scope) (db_rows db) of
             None \<Rightarrow> Err (Wrapped ''get provider state'' ErrNoRows)
           | Some r \<Rightarrow> Ok (row_state r))"

definition PutProviderState :: "state_db \<Rightarrow> ProviderState \<Rightarrow> (provider_error, state_db) result" where
  "PutProviderState db st =
     (if db_write_fault db then Err (Wrapped ''put provider state'' (OtherError ''database''))
      else Ok (db\<lparr>db_rows := sql_upsert (row_key (ps_provider_id st) (ps_scope st)) (\<lambda>_. True)
                  (\<lambda>_. state_row st) (state_row st) (db_rows db)\<rparr>))"

definition ClearProviderState :: "state_db \<Rightarrow> string \<Rightarrow> (provider_error, state_db) result" where
  "ClearProviderState db provider_id =
     (if trim_space provider_id = [] then Err (OtherError ''provider ID is required'')
      else if db_write_fault db then Err (Wrapped ''clear provider state'' (OtherError ''database''))
      else Ok (db\<lparr>db_rows := sql_delete (\<lambda>r. pr_provider_id r = provider_id) (db_rows db)\<rparr>))"

section \<open>The gate's view of the store\<close>

record 's StateStore =
  ss_get :: "'s \<Rightarrow> string \<Rightarrow> string \<Rightarrow> (provider_error, ProviderState) result"
  ss_put :: "'s \<Rightarrow> ProviderState \<Rightarrow> (provider_error, 's) result"

text \<open>\<open>stateErrorStore\<close>: a failure other than a missing row becomes an \<open>AvailabilityError\<close>.\<close>

definition stateErrorStore :: "'s StateStore \<Rightarrow> 's StateStore" where
  "stateErrorStore S =
     \<lparr>ss_get = (\<lambda>s provider_id scope.
        case ss_get S s provider_id scope of
          Err e \<Rightarrow> Err (if is_no_rows e then e else AvailabilityError e)
        | Ok st \<Rightarrow> Ok st),
      ss_put = (\<lambda>s st. case ss_put S s st of Err e \<Rightarrow> Err (AvailabilityError e) | Ok s' \<Rightarrow> Ok s')\<rparr>"

definition repository_store :: "state_db StateStore" where
  "repository_store = \<lparr>ss_get = GetProviderState, ss_put = PutProviderState\<rparr>"

text \<open>The store of a gate is always wrapped once, by \<open>NewGate\<close>.\<close>

definition gate_store :: "state_db StateStore" where
  "gate_store = stateErrorStore repository_store"

section \<open>Throttles\<close>

record Throttle =
  th_provider_id :: string
  th_scope :: operation
  th_reason :: string
  th_limit :: int
  th_remaining :: int
  th_reset_at :: gotime
  th_disabled :: bool

definition transientFailureDelays :: "duration list" where
  "transientFailureDelays = [minute, 5 * minute, 15 * minute, hour]"

abbreviation transient_reason :: "string \<Rightarrow> bool" where
  "transient_reason reason \<equiv> has_prefix reason ''transient_''"

definition boundedReset :: "gotime \<Rightarrow> gotime \<Rightarrow> gotime" where
  "boundedReset now resetAt =
     (if resetAt > now + MaxProviderCooldown then now + MaxProviderCooldown else resetAt)"

definition previousState ::
  "'s StateStore \<Rightarrow> 's \<Rightarrow> string \<Rightarrow> string \<Rightarrow> (provider_error, ProviderState \<times> bool) result" where
  "previousState S s provider_id scope =
     (case ss_get S s provider_id scope of
        Ok st \<Rightarrow> Ok (st, True)
      | Err e \<Rightarrow> if is_no_rows e then Ok (zero_provider_state, False)
                else Err (Wrapped ''read provider state'' e))"

text \<open>A cooldown that is running and was not started by a transient failure.\<close>

definition hard_cooldown :: "gotime \<Rightarrow> ProviderState \<Rightarrow> bool" where
  "hard_cooldown now st \<longleftrightarrow>
     ps_remaining st \<le> 0 \<and> ps_reset_at st > now \<and> \<not> transient_reason (ps_reason st)"

text \<open>The state \<open>persist\<close> writes for a throttle whose reset is already bounded.\<close>

definition persisted_state :: "gotime \<Rightarrow> Throttle \<Rightarrow> ProviderState \<Rightarrow> bool \<Rightarrow> ProviderState" where
  "persisted_state now throttle previous found =
     (let state = \<lparr>ps_provider_id = th_provider_id throttle, ps_scope = th_scope throttle,
            ps_reason = th_reason throttle, ps_limit = th_limit throttle,
            ps_remaining = th_remaining throttle, ps_reset_at = th_reset_at throttle,
            ps_disabled = th_disabled throttle, ps_failure_attempt = ps_failure_attempt previous\<rparr>
      in if ps_disabled previous then previous
         else if \<not> ps_disabled state \<and> found \<and> hard_cooldown now previous
         then let exhausted = ps_remaining state \<le> 0 \<and> ps_reset_at state > now
              in if \<not> exhausted \<or> ps_reset_at state < ps_reset_at previous
                 then state\<lparr>ps_reason := ps_reason previous, ps_limit := ps_limit previous,
                        ps_remaining := ps_remaining previous, ps_reset_at := ps_reset_at previous\<rparr>
                 else state
         else state)"

definition bounded_throttle :: "gotime \<Rightarrow> Throttle \<Rightarrow> Throttle" where
  "bounded_throttle now th = th\<lparr>th_reset_at := boundedReset now (th_reset_at th)\<rparr>"

definition persist ::
  "'s StateStore \<Rightarrow> gotime \<Rightarrow> Throttle \<Rightarrow> 's \<Rightarrow> (provider_error, gotime \<times> 's) result" where
  "persist S now throttle0 s =
     (let throttle = bounded_throttle now throttle0
      in case previousState S s (th_provider_id throttle) (th_scope throttle) of
           Err e \<Rightarrow> Err e
         | Ok (previous, found) \<Rightarrow>
             let state = persisted_state now throttle previous found
             in case ss_put S s state of
                  Err e \<Rightarrow> Err e
                | Ok s' \<Rightarrow>
                    let effective = th_reset_at throttle
                    in Ok (if \<not> ps_disabled state \<and> ps_reset_at state > effective
                           then ps_reset_at state else effective, s'))"

definition next_attempt :: "ProviderState \<Rightarrow> int" where
  "next_attempt existing = (if ps_failure_attempt existing > 0 then ps_failure_attempt existing + 1 else 1)"

definition transient_name :: "string \<Rightarrow> string" where
  "transient_name reason =
     (if reason = [] then ''transient_failure''
      else if \<not> transient_reason reason then ''transient_'' @ reason else reason)"

definition transient_reset :: "gotime \<Rightarrow> gotime \<Rightarrow> int \<Rightarrow> gotime" where
  "transient_reset now resetAt0 attempt =
     (let resetAt = boundedReset now resetAt0
      in if resetAt > now then resetAt
         else let index = attempt - 1;
                  index' = (if index \<ge> int (length transientFailureDelays)
                            then int (length transientFailureDelays) - 1 else index)
              in now + delay_nth index' transientFailureDelays)"

text \<open>The state \<open>RecordTransientFailure\<close> writes; a missing row reads as the zero state.\<close>

definition transient_state ::
  "gotime \<Rightarrow> string \<Rightarrow> operation \<Rightarrow> string \<Rightarrow> gotime \<Rightarrow> ProviderState \<Rightarrow> ProviderState" where
  "transient_state now provider_id operation reason resetAt existing =
     (let attempt = next_attempt existing;
          state = \<lparr>ps_provider_id = provider_id, ps_scope = operation, ps_reason = transient_name reason,
            ps_limit = 0, ps_remaining = 0, ps_reset_at = transient_reset now resetAt attempt,
            ps_disabled = False, ps_failure_attempt = attempt\<rparr>
      in if ps_disabled existing then existing\<lparr>ps_failure_attempt := attempt\<rparr>
         else if hard_cooldown now existing
         then state\<lparr>ps_reason := ps_reason existing, ps_limit := ps_limit existing,
                ps_remaining := ps_remaining existing, ps_disabled := ps_disabled existing,
                ps_reset_at := (if ps_reset_at existing > ps_reset_at state
                                then ps_reset_at existing else ps_reset_at state)\<rparr>
         else state)"

definition RecordTransientFailure ::
  "'s StateStore \<Rightarrow> gotime \<Rightarrow> string \<Rightarrow> operation \<Rightarrow> string \<Rightarrow> gotime \<Rightarrow> 's
   \<Rightarrow> (provider_error, ProviderState \<times> 's) result" where
  "RecordTransientFailure S now provider_id operation reason resetAt s =
     (case (case ss_get S s provider_id operation of
              Ok existing \<Rightarrow> Ok existing
            | Err e \<Rightarrow> if is_no_rows e then Ok zero_provider_state
                      else Err (Wrapped ''read provider transient failure state'' e)) of
        Err e \<Rightarrow> Err e
      | Ok existing \<Rightarrow>
          let state = transient_state now provider_id operation reason resetAt existing
          in case ss_put S s state of
               Err e \<Rightarrow> Err (Wrapped ''persist provider transient failure'' e)
             | Ok s' \<Rightarrow> Ok (state, s'))"

definition cleared_state :: "ProviderState \<Rightarrow> ProviderState" where
  "cleared_state state =
     (let state' = state\<lparr>ps_failure_attempt := 0\<rparr>
      in if transient_reason (ps_reason state)
         then state'\<lparr>ps_reason := [], ps_limit := 0, ps_remaining := 0, ps_reset_at := zero_time,
                ps_disabled := False\<rparr>
         else state')"

definition ResetTransientFailures ::
  "'s StateStore \<Rightarrow> string \<Rightarrow> operation \<Rightarrow> 's \<Rightarrow> (provider_error, 's) result" where
  "ResetTransientFailures S provider_id operation s =
     (case ss_get S s provider_id operation of
        Err e \<Rightarrow> if is_no_rows e then Ok s else Err (Wrapped ''read provider transient failure state'' e)
      | Ok state \<Rightarrow>
          if ps_failure_attempt state = 0 then Ok s
          else case ss_put S s (cleared_state state) of
                 Err e \<Rightarrow> Err (Wrapped ''reset provider transient failures'' e)
               | Ok s' \<Rightarrow> Ok s')"

section \<open>Availability checks\<close>

definition exhausted :: "gotime \<Rightarrow> ProviderState \<Rightarrow> bool" where
  "exhausted now st \<longleftrightarrow> ps_remaining st \<le> 0 \<and> ps_reset_at st > now"

text \<open>The loop of \<open>checkAvailability\<close>; \<open>blocked\<close> is the cooldown found so far.\<close>

fun check_scopes ::
  "'s StateStore \<Rightarrow> gotime \<Rightarrow> 's \<Rightarrow> string \<Rightarrow> bool \<Rightarrow> operation list \<Rightarrow> provider_error option
   \<Rightarrow> provider_error option" where
  "check_scopes S now s provider_id includeAuth [] blocked = blocked"
| "check_scopes S now s provider_id includeAuth (scope # scopes) blocked =
     (case ss_get S s provider_id scope of
        Err e \<Rightarrow>
          if is_no_rows e then check_scopes S now s provider_id includeAuth scopes blocked else Some e
      | Ok state \<Rightarrow>
          if ps_disabled state then Some (DisabledError True provider_id (ps_reason state))
          else if scope = OperationAuth \<and> \<not> includeAuth
          then check_scopes S now s provider_id includeAuth scopes blocked
          else if exhausted now state
                  \<and> (case blocked of None \<Rightarrow> True | Some b \<Rightarrow> ps_reset_at state > ce_reset_at b)
          then check_scopes S now s provider_id includeAuth scopes
                 (Some (CooldownError True provider_id scope (ps_reason state) (ps_reset_at state)))
          else check_scopes S now s provider_id includeAuth scopes blocked)"

text \<open>A scope that lets a request pass: no row, or neither disabled nor cooling down.\<close>

definition scope_free :: "'s StateStore \<Rightarrow> gotime \<Rightarrow> 's \<Rightarrow> string \<Rightarrow> bool \<Rightarrow> operation \<Rightarrow> bool" where
  "scope_free S now s provider_id includeAuth scope \<longleftrightarrow>
     (case ss_get S s provider_id scope of
        Err e \<Rightarrow> is_no_rows e
      | Ok st \<Rightarrow> \<not> ps_disabled st \<and> (scope = OperationAuth \<and> \<not> includeAuth \<or> \<not> exhausted now st))"

definition checkAvailability ::
  "'s StateStore \<Rightarrow> gotime \<Rightarrow> provider_error option \<Rightarrow> 's \<Rightarrow> string \<Rightarrow> bool \<Rightarrow> operation list
   \<Rightarrow> provider_error option" where
  "checkAvailability S now ctx_err s provider_id includeAuth scopes =
     (case ctx_err of Some e \<Rightarrow> Some e
      | None \<Rightarrow> check_scopes S now s provider_id includeAuth scopes None)"

definition checkState ::
  "'s StateStore \<Rightarrow> gotime \<Rightarrow> provider_error option \<Rightarrow> 's \<Rightarrow> string \<Rightarrow> operation \<Rightarrow> provider_error option" where
  "checkState S now ctx_err s provider_id operation =
     checkAvailability S now ctx_err s provider_id (operation = OperationAuth)
       [OperationAll, OperationAuth, operation]"

definition CheckDownloadAvailability ::
  "'s StateStore \<Rightarrow> gotime \<Rightarrow> provider_error option \<Rightarrow> 's \<Rightarrow> string \<Rightarrow> provider_error option" where
  "CheckDownloadAvailability S now ctx_err s provider_id =
     checkAvailability S now ctx_err s provider_id False
       [OperationAll, OperationAuth, OperationDownload, OperationDownloadTransfer]"

definition CheckSearchAvailability ::
  "'s StateStore \<Rightarrow> gotime \<Rightarrow> provider_error option \<Rightarrow> 's \<Rightarrow> string \<Rightarrow> provider_error option" where
  "CheckSearchAvailability S now ctx_err s provider_id =
     checkAvailability S now ctx_err s provider_id False [OperationAll, OperationAuth, OperationSearch]"

definition boundedProviderReason :: "string \<Rightarrow> string" where
  "boundedProviderReason reason =
     (if reason \<in> {''ratelimit'', ''x-ratelimit'', ''retry-after'', ''json'', ''fallback'', ''rate_limit'',
                  ''download_quota'', ''search_quota'', ''service_busy'', ''client_blocked''} then reason
      else if reason = ''transient_network_error'' \<or> reason = ''network_error'' then ''network_error''
      else if has_prefix reason ''transient_http_5'' then ''http_5xx''
      else ''provider_state'')"

section \<open>What the gate relies on\<close>

text \<open>
  \<open>stored_time\<close> is a reset time after a round trip through the table, which keeps nanoseconds since
  the Unix epoch and reads 0 as no time.
\<close>

definition stored_time :: "gotime \<Rightarrow> gotime" where
  "stored_time t = fromUnixNano (unixNano t)"

lemma stored_time_id [simp]: "t \<noteq> unix_epoch \<Longrightarrow> stored_time t = t"
  by (auto simp: stored_time_def fromUnixNano_def unixNano_def unix_nano_def from_unix_def)

lemma stored_time_cases: "stored_time t = t \<or> (t = unix_epoch \<and> stored_time t = 0)"
  by (auto simp: stored_time_def fromUnixNano_def unixNano_def unix_nano_def from_unix_def)

lemma stored_time_le: "0 \<le> b \<Longrightarrow> t \<le> b \<Longrightarrow> stored_time t \<le> b"
  using stored_time_cases [of t] by auto

lemma stored_time_idem [simp]: "stored_time (stored_time t) = stored_time t"
  using stored_time_cases [of t] by (auto simp: stored_time_def fromUnixNano_def unixNano_def)

definition stored_state :: "ProviderState \<Rightarrow> ProviderState" where
  "stored_state st = st\<lparr>ps_reset_at := stored_time (ps_reset_at st)\<rparr>"

lemma stored_state_sel [simp]:
  "ps_provider_id (stored_state st) = ps_provider_id st" "ps_scope (stored_state st) = ps_scope st"
  "ps_reason (stored_state st) = ps_reason st" "ps_limit (stored_state st) = ps_limit st"
  "ps_remaining (stored_state st) = ps_remaining st" "ps_disabled (stored_state st) = ps_disabled st"
  "ps_reset_at (stored_state st) = stored_time (ps_reset_at st)"
  "ps_failure_attempt (stored_state st) = ps_failure_attempt st"
  by (simp_all add: stored_state_def)

text \<open>A missing entry reads as the zero state.\<close>

definition old_entry :: "ProviderState option \<Rightarrow> ProviderState" where
  "old_entry o' = (case o' of None \<Rightarrow> zero_provider_state | Some st \<Rightarrow> st)"

lemma old_entry_simps [simp]: "old_entry (Some st) = st" "old_entry None = zero_provider_state"
  by (simp_all add: old_entry_def)

text \<open>
  The contract of a state store: it implements a map from provider and scope to states
  (\<open>lookup\<close>). A read that succeeds returns the entry, a missing-row error means there is none, and a
  write that succeeds changes exactly the written entry.
\<close>

locale state_store =
  fixes S :: "'s StateStore" and lookup :: "'s \<Rightarrow> string \<times> string \<Rightarrow> ProviderState option"
  assumes get_found: "ss_get S s p sc = Ok st \<Longrightarrow> lookup s (p, sc) = Some st"
    and get_missing: "\<lbrakk>ss_get S s p sc = Err e; is_no_rows e\<rbrakk> \<Longrightarrow> lookup s (p, sc) = None"
    and put_lookup: "ss_put S s st = Ok s' \<Longrightarrow>
      lookup s' = (lookup s)((ps_provider_id st, ps_scope st) \<mapsto> stored_state st)"
    and lookup_key: "lookup s (p, sc) = Some st \<Longrightarrow> ps_provider_id st = p \<and> ps_scope st = sc"
begin

text \<open>The state an operation starts from: the stored one, or the zero state.\<close>

lemma previousState_Ok:
  "previousState S s p sc = Ok (st, found)
   \<Longrightarrow> found = (lookup s (p, sc) \<noteq> None) \<and> st = old_entry (lookup s (p, sc))"
  by (auto simp: previousState_def split: sum.split_asm if_split_asm dest: get_found get_missing)

lemma persist_Ok:
  assumes "persist S now th s = Ok (eff, s')"
  defines "e \<equiv> lookup s (th_provider_id th, th_scope th)"
  defines "st \<equiv> persisted_state now (bounded_throttle now th) (old_entry e) (e \<noteq> None)"
  shows "lookup s' = (lookup s)((th_provider_id th, th_scope th) \<mapsto> stored_state st)"
    and "eff = (if \<not> ps_disabled st \<and> ps_reset_at st > boundedReset now (th_reset_at th)
                then ps_reset_at st else boundedReset now (th_reset_at th))"
proof -
  from assms(1) obtain previous found where prev:
      "previousState S s (th_provider_id th) (th_scope th) = Ok (previous, found)"
    and put: "ss_put S s (persisted_state now (bounded_throttle now th) previous found) = Ok s'"
    and eff: "eff = (let state = persisted_state now (bounded_throttle now th) previous found
            in if \<not> ps_disabled state \<and> ps_reset_at state > boundedReset now (th_reset_at th)
               then ps_reset_at state else boundedReset now (th_reset_at th))"
    by (auto simp: persist_def Let_def bounded_throttle_def split: sum.split_asm prod.split_asm)
  have st: "st = persisted_state now (bounded_throttle now th) previous found"
    using previousState_Ok [OF prev] by (simp add: st_def e_def)
  have "ps_provider_id st = th_provider_id th \<and> ps_scope st = th_scope th"
    using lookup_key [of s "th_provider_id th" "th_scope th"]
    by (cases e) (auto simp: st_def persisted_state_def bounded_throttle_def Let_def zero_provider_state_def e_def)
  with put_lookup [OF put] show "lookup s' = (lookup s)((th_provider_id th, th_scope th) \<mapsto> stored_state st)"
    by (simp add: st)
  from eff show "eff = (if \<not> ps_disabled st \<and> ps_reset_at st > boundedReset now (th_reset_at th)
      then ps_reset_at st else boundedReset now (th_reset_at th))"
    by (simp add: st Let_def)
qed

lemma RecordTransientFailure_Ok:
  assumes "RecordTransientFailure S now p op reason resetAt s = Ok (st, s')"
  shows "st = transient_state now p op reason resetAt (old_entry (lookup s (p, op)))"
    and "lookup s' = (lookup s)((p, op) \<mapsto> stored_state st)"
proof -
  from assms have st: "st = transient_state now p op reason resetAt (old_entry (lookup s (p, op)))"
    and put: "ss_put S s st = Ok s'"
    by (auto simp: RecordTransientFailure_def Let_def dest!: get_found get_missing
        split: sum.split_asm if_split_asm)
  have "ps_provider_id st = p \<and> ps_scope st = op"
    using lookup_key [of s p op]
    by (cases "lookup s (p, op)") (auto simp: st transient_state_def Let_def zero_provider_state_def)
  with put_lookup [OF put] show "lookup s' = (lookup s)((p, op) \<mapsto> stored_state st)" by simp
  show "st = transient_state now p op reason resetAt (old_entry (lookup s (p, op)))" by (rule st)
qed

lemma ResetTransientFailures_OkE:
  assumes "ResetTransientFailures S p op s = Ok s'"
  obtains "s' = s"
  | st where "lookup s (p, op) = Some st" "lookup s' = (lookup s)((p, op) \<mapsto> stored_state (cleared_state st))"
proof -
  from assms consider "s' = s"
    | st where "lookup s (p, op) = Some st" "ss_put S s (cleared_state st) = Ok s'"
    by (auto simp: ResetTransientFailures_def dest: get_found split: sum.split_asm if_split_asm)
  then show thesis
  proof cases
    case (2 st)
    have "ps_provider_id (cleared_state st) = p \<and> ps_scope (cleared_state st) = op"
      using lookup_key [OF 2(1)] by (simp add: cleared_state_def Let_def)
    with 2 put_lookup [OF 2(2)] show thesis by (intro that(2)) auto
  qed (rule that(1))
qed

end

section \<open>Sequences of gate operations\<close>

text \<open>The operations that write provider states, each run at some time; one that fails writes nothing.\<close>

datatype gate_op =
    GPersist Throttle
  | GTransient string operation string gotime
  | GReset string operation

fun gate_apply :: "'s StateStore \<Rightarrow> gotime \<times> gate_op \<Rightarrow> 's \<Rightarrow> 's" where
  "gate_apply S (now, GPersist th) s = (case persist S now th s of Ok (_, s') \<Rightarrow> s' | Err _ \<Rightarrow> s)"
| "gate_apply S (now, GTransient p op reason resetAt) s =
     (case RecordTransientFailure S now p op reason resetAt s of Ok (_, s') \<Rightarrow> s' | Err _ \<Rightarrow> s)"
| "gate_apply S (now, GReset p op) s = (case ResetTransientFailures S p op s of Ok s' \<Rightarrow> s' | Err _ \<Rightarrow> s)"

definition gate_run :: "'s StateStore \<Rightarrow> (gotime \<times> gate_op) list \<Rightarrow> 's \<Rightarrow> 's" where
  "gate_run S ops s = fold (gate_apply S) ops s"

lemma gate_run_simps [simp]:
  "gate_run S [] s = s" "gate_run S (x # ops) s = gate_run S ops (gate_apply S x s)"
  by (simp_all add: gate_run_def)

text \<open>A permanent disable: only a reason of the transient family would let a reset clear it.\<close>

definition perm_disabled :: "ProviderState \<Rightarrow> bool" where
  "perm_disabled st \<longleftrightarrow> ps_disabled st \<and> \<not> transient_reason (ps_reason st)"

text \<open>A state that refuses requests until \<open>t\<close> at least, whatever transient failures come and go.\<close>

definition holds_until :: "gotime \<Rightarrow> ProviderState \<Rightarrow> bool" where
  "holds_until t st \<longleftrightarrow> \<not> transient_reason (ps_reason st)
     \<and> (ps_disabled st \<or> ps_remaining st \<le> 0 \<and> t \<le> ps_reset_at st)"

fun op_reason_ok :: "gotime \<times> gate_op \<Rightarrow> bool" where
  "op_reason_ok (_, GPersist th) = (\<not> transient_reason (th_reason th))"
| "op_reason_ok _ = True"

text \<open>The abstract effect of an operation on the map of states: the entry it writes and its new value.\<close>

fun op_key :: "gate_op \<Rightarrow> string \<times> string" where
  "op_key (GPersist th) = (th_provider_id th, th_scope th)"
| "op_key (GTransient p op reason resetAt) = (p, op)"
| "op_key (GReset p op) = (p, op)"

fun entry_after :: "gotime \<Rightarrow> gate_op \<Rightarrow> ProviderState option \<Rightarrow> ProviderState" where
  "entry_after now (GPersist th) e =
     stored_state (persisted_state now (bounded_throttle now th) (old_entry e) (e \<noteq> None))"
| "entry_after now (GTransient p op reason resetAt) e =
     stored_state (transient_state now p op reason resetAt (old_entry e))"
| "entry_after now (GReset p op) e = stored_state (cleared_state (old_entry e))"

lemma perm_disabled_step: "perm_disabled st \<Longrightarrow> perm_disabled (entry_after now op (Some st))"
  by (cases op)
    (auto simp: perm_disabled_def persisted_state_def transient_state_def cleared_state_def Let_def)

lemma holds_until_persisted:
  assumes "holds_until t st" "now < t" "unix_epoch \<le> now" "\<not> transient_reason (th_reason th)"
  shows "holds_until t (stored_state (persisted_state now th st True))"
  using assms
  by (auto simp: holds_until_def persisted_state_def hard_cooldown_def Let_def not_less stored_time_id)

lemma holds_until_transient:
  assumes "holds_until t st" "now < t" "unix_epoch \<le> now"
  shows "holds_until t (stored_state (transient_state now p op reason r st))"
  using assms
  by (auto simp: holds_until_def transient_state_def hard_cooldown_def Let_def not_less stored_time_id)

lemma holds_until_cleared:
  assumes "holds_until t st" "now < t" "unix_epoch \<le> now"
  shows "holds_until t (stored_state (cleared_state st))"
  using assms by (auto simp: holds_until_def cleared_state_def Let_def stored_time_id)

lemma holds_until_step:
  assumes "holds_until t st" "now < t" "unix_epoch \<le> now" "op_reason_ok (now, op)"
  shows "holds_until t (entry_after now op (Some st))"
  using assms by (cases op) (auto simp: bounded_throttle_def intro: holds_until_persisted holds_until_transient holds_until_cleared)

lemma boundedReset_le: "boundedReset now r \<le> now + MaxProviderCooldown"
  by (simp add: boundedReset_def)

lemma transient_delay_range:
  assumes "1 \<le> attempt"
  shows "transient_reset now r attempt \<le> now + MaxProviderCooldown"
    and "now < transient_reset now r attempt"
  using assms
  by (auto simp: transient_reset_def Let_def boundedReset_def delay_nth_def transientFailureDelays_def
      MaxProviderCooldown_def nth_Cons' dest!: nat_le_iff [THEN iffD2] split: if_splits)

lemma next_attempt_pos: "1 \<le> next_attempt st"
  by (simp add: next_attempt_def)

lemma persisted_bounded:
  assumes "ps_reset_at st \<le> b" "th_reset_at th \<le> b" "0 \<le> b"
  shows "ps_reset_at (stored_state (persisted_state now th st found)) \<le> b"
  using assms by (auto simp: persisted_state_def Let_def intro: stored_time_le)

lemma transient_bounded:
  assumes "ps_reset_at st \<le> b" "now + MaxProviderCooldown \<le> b" "0 \<le> b"
  shows "ps_reset_at (stored_state (transient_state now p op reason r st)) \<le> b"
  using assms transient_delay_range(1) [OF next_attempt_pos, of now r st]
  by (auto simp: transient_state_def Let_def intro!: stored_time_le)

lemma cleared_bounded:
  assumes "ps_reset_at st \<le> b" "0 \<le> b"
  shows "ps_reset_at (stored_state (cleared_state st)) \<le> b"
  using assms by (auto simp: cleared_state_def Let_def intro!: stored_time_le)

context state_store
begin

text \<open>Each operation refines its effect on the map, or writes nothing.\<close>

lemma gate_apply_refines:
  "lookup (gate_apply S (now, op) s) = lookup s
   \<or> lookup (gate_apply S (now, op) s) = (lookup s)(op_key op \<mapsto> entry_after now op (lookup s (op_key op)))"
proof (cases op)
  case (GPersist th)
  then show ?thesis
    by (cases "persist S now th s") (auto simp: persist_Ok(1))
next
  case (GTransient p sc reason r)
  then show ?thesis
    by (cases "RecordTransientFailure S now p sc reason r s") (auto dest: RecordTransientFailure_Ok)
next
  case (GReset p sc)
  show ?thesis
  proof (cases "ResetTransientFailures S p sc s")
    case (Inr s')
    then show ?thesis by (cases rule: ResetTransientFailures_OkE) (auto simp: GReset Inr)
  qed (simp add: GReset)
qed

lemma gate_apply_found:
  assumes "lookup s k = Some st"
  shows "lookup (gate_apply S (now, op) s) k = Some st
    \<or> lookup (gate_apply S (now, op) s) k = Some (entry_after now op (Some st))"
  using gate_apply_refines [of now op s] assms by (auto simp: fun_upd_apply)

lemma perm_disabled_run:
  assumes "lookup s k = Some st" "perm_disabled st"
  shows "\<exists>st'. lookup (gate_run S ops s) k = Some st' \<and> perm_disabled st'"
  using assms
proof (induction ops arbitrary: s st)
  case (Cons x ops)
  obtain now op where x: "x = (now, op)" by (cases x)
  with Cons gate_apply_found [OF Cons.prems(1), of now op] perm_disabled_step [OF Cons.prems(2), of now op]
  show ?case by auto
qed auto

lemma holds_until_run:
  assumes "lookup s k = Some st" "holds_until t st"
    and "\<forall>(now, op) \<in> set ops. unix_epoch \<le> now \<and> now < t \<and> op_reason_ok (now, op)"
  shows "\<exists>st'. lookup (gate_run S ops s) k = Some st' \<and> holds_until t st'"
  using assms
proof (induction ops arbitrary: s st)
  case (Cons x ops)
  obtain now op where x: "x = (now, op)" by (cases x)
  from Cons.prems(2,3) have "holds_until t (entry_after now op (Some st))"
    by (intro holds_until_step) (auto simp: x)
  with Cons gate_apply_found [OF Cons.prems(1), of now op] show ?case by (auto simp: x)
qed auto

lemma bounded_apply:
  assumes "\<forall>k st. lookup s k = Some st \<longrightarrow> ps_reset_at st \<le> t + MaxProviderCooldown" "now \<le> t" "0 \<le> t"
    and "lookup (gate_apply S (now, op) s) k = Some st"
  shows "ps_reset_at st \<le> t + MaxProviderCooldown"
proof -
  have b: "0 \<le> t + MaxProviderCooldown" using assms(3) by (simp add: MaxProviderCooldown_def)
  have old: "ps_reset_at (old_entry (lookup s k')) \<le> t + MaxProviderCooldown" for k'
    using assms(1) b by (cases k'; cases "lookup s k'") (auto simp: zero_provider_state_def)
  have r: "boundedReset now r \<le> t + MaxProviderCooldown" for r
    using boundedReset_le [of now r] assms(2) by simp
  have "ps_reset_at (entry_after now op (lookup s (op_key op))) \<le> t + MaxProviderCooldown"
    using old r b assms(2)
    by (cases op) (auto simp: bounded_throttle_def simp del: stored_state_sel
        intro!: persisted_bounded transient_bounded cleared_bounded)
  with gate_apply_refines [of now op s] assms(1,4) show ?thesis
    by (cases k) (auto simp: fun_upd_apply split: if_splits)
qed

lemma bounded_run:
  assumes "\<forall>k st. lookup s k = Some st \<longrightarrow> ps_reset_at st \<le> t + MaxProviderCooldown" "0 \<le> t"
    and "\<forall>(now, op) \<in> set ops. now \<le> t" "lookup (gate_run S ops s) k = Some st"
  shows "ps_reset_at st \<le> t + MaxProviderCooldown"
  using assms
proof (induction ops arbitrary: s)
  case (Cons x ops)
  obtain now op where x: "x = (now, op)" by (cases x)
  show ?case
  proof (rule Cons.IH)
    show "\<forall>k st. lookup (gate_apply S x s) k = Some st \<longrightarrow> ps_reset_at st \<le> t + MaxProviderCooldown"
      using bounded_apply [OF Cons.prems(1) _ Cons.prems(2)] Cons.prems(3) by (auto simp: x)
  qed (use Cons.prems in \<open>auto simp: x\<close>)
qed (cases k; auto)

text \<open>A state that blocks a request of one scope makes the check refuse it.\<close>

lemma check_scopes_blocked [simp]: "check_scopes S now s p inc scopes (Some b) \<noteq> None"
  by (induction scopes arbitrary: b) (auto split: sum.split)

lemma check_scopes_None_iff:
  "check_scopes S now s p inc scopes None = None \<longleftrightarrow> list_all (scope_free S now s p inc) scopes"
proof (induction scopes)
  case (Cons scope scopes)
  then show ?case
    by (cases "ss_get S s p scope"; cases inc) (simp_all add: scope_free_def del: not_None_eq)
qed simp

lemma check_refuses:
  assumes "lookup s (p, scope) = Some st" "scope \<in> set scopes"
    and "ps_disabled st \<or> exhausted now st \<and> (scope = OperationAuth \<longrightarrow> inc)"
  shows "check_scopes S now s p inc scopes None \<noteq> None"
proof
  assume "check_scopes S now s p inc scopes None = None"
  with assms(2) have "scope_free S now s p inc scope"
    by (auto simp: check_scopes_None_iff list_all_iff)
  with assms(1,3) show False
    by (auto simp: scope_free_def split: sum.split_asm dest: get_found get_missing)
qed

lemma checkState_refuses:
  assumes "lookup s (p, op) = Some st" "holds_until t st" "now < t"
  shows "checkState S now ctx s p op \<noteq> None"
proof -
  have "ps_disabled st \<or> exhausted now st"
    using assms(2,3) by (auto simp: holds_until_def exhausted_def)
  then show ?thesis
    using check_refuses [OF assms(1), of "[OperationAll, OperationAuth, op]" now "op = OperationAuth"]
    by (auto simp: checkState_def checkAvailability_def split: option.split)
qed

end

section \<open>The repository's table as a state store\<close>

definition table_lookup :: "state_db \<Rightarrow> string \<times> string \<Rightarrow> ProviderState option" where
  "table_lookup db k = map_option row_state (find (row_key (fst k) (snd k)) (db_rows db))"

lemma find_sql_upsert:
  assumes "key new" "\<And>r. key r \<Longrightarrow> \<not> other r" "\<not> other new"
  shows "find key (sql_upsert key (\<lambda>_. True) (\<lambda>_. new) new rows) = Some new"
    and "find other (sql_upsert key (\<lambda>_. True) (\<lambda>_. new) new rows) = find other rows"
proof -
  have upd: "\<exists>r \<in> set rows. key r \<Longrightarrow> find key (sql_update key (\<lambda>_. new) rows) = Some new"
    by (induction rows) (auto simp: assms)
  have app: "\<not> (\<exists>r \<in> set rows. key r) \<Longrightarrow> find key (rows @ [new]) = Some new"
    by (induction rows) (auto simp: assms)
  show "find key (sql_upsert key (\<lambda>_. True) (\<lambda>_. new) new rows) = Some new"
    using upd app by (auto simp: sql_upsert_def)
  have "find other (sql_update key (\<lambda>_. new) rows) = find other rows"
    by (induction rows) (auto simp: assms)
  moreover have "find other (rows @ [new]) = find other rows"
    by (induction rows) (auto simp: assms)
  ultimately show "find other (sql_upsert key (\<lambda>_. True) (\<lambda>_. new) new rows) = find other rows"
    by (simp add: sql_upsert_def)
qed

lemma row_state_row: "row_state (state_row st) = stored_state st"
  by (simp add: row_state_def state_row_def stored_state_def stored_time_def)

lemma PutProviderState_lookup:
  assumes "PutProviderState db st = Ok db'"
  shows "table_lookup db' = (table_lookup db)((ps_provider_id st, ps_scope st) \<mapsto> stored_state st)"
proof
  fix k :: "string \<times> string"
  let ?key = "row_key (ps_provider_id st) (ps_scope st)"
  have rows: "db_rows db' = sql_upsert ?key (\<lambda>_. True) (\<lambda>_. state_row st) (state_row st) (db_rows db)"
    using assms by (auto simp: PutProviderState_def split: if_split_asm)
  have key: "?key (state_row st)" by (simp add: row_key_def state_row_def)
  show "table_lookup db' k = ((table_lookup db)((ps_provider_id st, ps_scope st) \<mapsto> stored_state st)) k"
  proof (cases "k = (ps_provider_id st, ps_scope st)")
    case True
    then show ?thesis
      using find_sql_upsert(1) [of ?key "state_row st" "\<lambda>_. False" "db_rows db"]
      by (simp add: table_lookup_def rows key row_state_row)
  next
    case False
    then show ?thesis
      using find_sql_upsert(2) [of ?key "state_row st" "row_key (fst k) (snd k)" "db_rows db"] key
      by (cases k) (auto simp: table_lookup_def rows row_key_def)
  qed
qed

interpretation repo: state_store gate_store table_lookup
proof
  fix s p sc st
  assume "ss_get gate_store s p sc = Ok st"
  then show "table_lookup s (p, sc) = Some st"
    by (auto simp: gate_store_def stateErrorStore_def repository_store_def GetProviderState_def
        table_lookup_def split: sum.split_asm if_split_asm option.split_asm)
next
  fix s p sc e
  assume "ss_get gate_store s p sc = Err e" "is_no_rows e"
  then show "table_lookup s (p, sc) = None"
    by (auto simp: gate_store_def stateErrorStore_def repository_store_def GetProviderState_def
        table_lookup_def split: sum.split_asm if_split_asm option.split_asm)
next
  fix s st s'
  assume "ss_put gate_store s st = Ok s'"
  then show "table_lookup s' = (table_lookup s)((ps_provider_id st, ps_scope st) \<mapsto> stored_state st)"
    by (auto simp: gate_store_def stateErrorStore_def repository_store_def
        intro: PutProviderState_lookup split: sum.split_asm)
next
  fix s p sc st
  assume "table_lookup s (p, sc) = Some st"
  then show "ps_provider_id st = p \<and> ps_scope st = sc"
    by (auto simp: table_lookup_def row_state_def row_key_def find_Some_iff)
qed

lemma repository_record_ok:
  assumes "\<not> db_read_fault db p op" "\<not> db_write_fault db"
  shows "\<exists>db'. RecordTransientFailure gate_store now p op reason r db
      = Ok (transient_state now p op reason r (old_entry (table_lookup db (p, op))), db')
    \<and> db_read_fault db' = db_read_fault db \<and> \<not> db_write_fault db'"
  using assms
  by (cases "find (row_key p op) (db_rows db)")
    (auto simp: RecordTransientFailure_def gate_store_def stateErrorStore_def repository_store_def
      GetProviderState_def PutProviderState_def table_lookup_def Let_def)

text \<open>A count of consecutive failures, none of them answered with a reset of the provider's own.\<close>

definition failing_since :: "nat \<Rightarrow> ProviderState option \<Rightarrow> bool" where
  "failing_since n e \<longleftrightarrow> (case e of
     None \<Rightarrow> n = 0
   | Some st \<Rightarrow> ps_failure_attempt st = int n \<and> \<not> ps_disabled st \<and> transient_reason (ps_reason st))"

lemma transient_name_transient: "transient_reason (transient_name reason)"
  by (simp add: transient_name_def has_prefix_def)

lemma transient_state_failing:
  fixes p op reason :: string
  assumes "failing_since n e" "0 < now"
  defines "st \<equiv> transient_state now p op reason 0 (old_entry e)"
  shows "failing_since (Suc n) (Some (stored_state st))"
    and "ps_reset_at st = now + transientFailureDelays ! min n 3"
proof -
  have soft: "\<not> hard_cooldown now (old_entry e)" and on: "\<not> ps_disabled (old_entry e)"
    using assms(1,2) by (auto simp: failing_since_def hard_cooldown_def zero_provider_state_def split: option.split_asm)
  have att: "next_attempt (old_entry e) = int n + 1"
    using assms(1) by (auto simp: failing_since_def next_attempt_def zero_provider_state_def split: option.split_asm)
  have st: "st = \<lparr>ps_provider_id = p, ps_scope = op, ps_reason = transient_name reason, ps_limit = 0,
      ps_remaining = 0, ps_reset_at = transient_reset now 0 (int n + 1), ps_disabled = False,
      ps_failure_attempt = int n + 1\<rparr>"
    using soft on by (simp add: st_def transient_state_def Let_def att)
  show "failing_since (Suc n) (Some (stored_state st))"
    by (simp add: failing_since_def st transient_name_transient)
  have "boundedReset now 0 = 0" using assms(2) by (simp add: boundedReset_def MaxProviderCooldown_def)
  then show "ps_reset_at st = now + transientFailureDelays ! min n 3"
    using assms(2) by (auto simp: st transient_reset_def Let_def delay_nth_def transientFailureDelays_def min_def)
qed

lemma transient_run:
  assumes "\<not> db_read_fault db p op" "\<not> db_write_fault db" "failing_since n (table_lookup db (p, op))"
    and "\<forall>(now, reason) \<in> set fails. unix_epoch \<le> now" "fails \<noteq> []"
  shows "\<exists>st. table_lookup (gate_run gate_store (map (\<lambda>(now, reason). (now, GTransient p op reason 0)) fails) db) (p, op)
        = Some st
      \<and> ps_failure_attempt st = int (n + length fails)
      \<and> ps_reset_at st = fst (last fails) + transientFailureDelays ! min (n + length fails - 1) 3"
  using assms
proof (induction fails arbitrary: db n)
  case (Cons x fails)
  obtain now reason where x: "x = (now, reason)" by (cases x)
  define st where "st = transient_state now p op reason 0 (old_entry (table_lookup db (p, op)))"
  have pos: "0 < now" "unix_epoch \<le> now" using Cons.prems(4) by (auto simp: x unix_epoch_def)
  obtain db' where ok: "RecordTransientFailure gate_store now p op reason 0 db = Ok (st, db')"
    and fl: "db_read_fault db' = db_read_fault db" "\<not> db_write_fault db'"
    using repository_record_ok [OF Cons.prems(1,2)] st_def by metis
  have look: "table_lookup db' (p, op) = Some (stored_state st)"
    using repo.RecordTransientFailure_Ok(2) [OF ok] by simp
  note fail = transient_state_failing [OF Cons.prems(3) pos(1), of p op reason, folded st_def]
  have run: "gate_run gate_store (map (\<lambda>(now, reason). (now, GTransient p op reason 0)) (x # fails)) db
      = gate_run gate_store (map (\<lambda>(now, reason). (now, GTransient p op reason 0)) fails) db'"
    by (simp add: x ok)
  show ?case
  proof (cases "fails = []")
    case True
    have "0 \<le> transientFailureDelays ! min n 3" "now + transientFailureDelays ! min n 3 \<noteq> unix_epoch"
      using pos(2) by (auto simp: transientFailureDelays_def nth_Cons' min_def)
    with fail show ?thesis unfolding run
      by (simp add: True x look failing_since_def)
  next
    case False
    with Cons.IH [of db' "Suc n"] fl fail(1) look Cons.prems show ?thesis unfolding run by auto
  qed
qed simp

section \<open>Properties\<close>

text \<open>C12: once a provider is disabled (a failed authentication), no later sequence of throttle
  responses, transient failures and recoveries of any operation clears the disable, and every
  request check of that scope goes on refusing; only \<open>ClearProviderState\<close> lifts it.\<close>

theorem disabled_until_cleared:
  assumes "table_lookup db (p, op) = Some st" "perm_disabled st"
  shows "(\<exists>st'. table_lookup (gate_run gate_store ops db) (p, op) = Some st' \<and> ps_disabled st')
    \<and> checkState gate_store now ctx (gate_run gate_store ops db) p op \<noteq> None"
proof -
  obtain st' where st': "table_lookup (gate_run gate_store ops db) (p, op) = Some st'" "perm_disabled st'"
    using repo.perm_disabled_run [OF assms] by blast
  moreover have "holds_until (now + 1) st'" using st'(2) by (simp add: perm_disabled_def holds_until_def)
  then have "checkState gate_store now ctx (gate_run gate_store ops db) p op \<noteq> None"
    by (rule repo.checkState_refuses [OF st'(1)]) simp
  ultimately show ?thesis by (auto simp: perm_disabled_def)
qed

definition sample_disabled :: state_db where
  "sample_disabled = \<lparr>db_rows = [\<lparr>pr_provider_id = ''os'', pr_scope = ''auth'', pr_reason = ''authentication_failed'',
     pr_limit = 0, pr_remaining = 0, pr_reset_at_ns = 0, pr_disabled = True, pr_failure_attempt = 0\<rparr>],
     db_read_fault = (\<lambda>_ _. False), db_write_fault = False\<rparr>"

theorem disabled_until_cleared_witness:
  "(\<exists>st'. table_lookup (gate_run gate_store [(unix_epoch + hour, GReset ''os'' ''auth'')] sample_disabled)
      (''os'', ''auth'') = Some st' \<and> ps_disabled st')
   \<and> checkState gate_store (unix_epoch + 2 * hour) None
      (gate_run gate_store [(unix_epoch + hour, GReset ''os'' ''auth'')] sample_disabled) ''os'' ''auth'' \<noteq> None"
  by (rule disabled_until_cleared [of _ _ _ "row_state (hd (db_rows sample_disabled))"])
    (simp_all add: sample_disabled_def table_lookup_def row_key_def perm_disabled_def row_state_def has_prefix_def)

text \<open>a running cooldown that the provider asked for is never shortened. As long as it runs, any
  sequence of throttle responses, transient failures and recoveries, on any scope, leaves a state
  that refuses requests until that reset time at least.\<close>

theorem cooldown_never_shortened:
  assumes "table_lookup db (p, op) = Some st" "hard_cooldown now0 st"
    and "\<forall>(now, x) \<in> set ops. unix_epoch \<le> now \<and> now < ps_reset_at st \<and> op_reason_ok (now, x)"
    and "now < ps_reset_at st"
  shows "checkState gate_store now ctx (gate_run gate_store ops db) p op \<noteq> None"
proof -
  have "holds_until (ps_reset_at st) st"
    using assms(2) by (simp add: hard_cooldown_def holds_until_def)
  with assms(1,3) obtain st' where "table_lookup (gate_run gate_store ops db) (p, op) = Some st'"
      "holds_until (ps_reset_at st) st'"
    using repo.holds_until_run by blast
  then show ?thesis using assms(4) by (rule repo.checkState_refuses)
qed

definition sample_cooling :: state_db where
  "sample_cooling = \<lparr>db_rows = [\<lparr>pr_provider_id = ''os'', pr_scope = ''search'', pr_reason = ''retry-after'',
     pr_limit = 0, pr_remaining = 0, pr_reset_at_ns = hour, pr_disabled = False, pr_failure_attempt = 0\<rparr>],
     db_read_fault = (\<lambda>_ _. False), db_write_fault = False\<rparr>"

definition sample_throttle :: Throttle where
  "sample_throttle = \<lparr>th_provider_id = ''os'', th_scope = ''search'', th_reason = ''ratelimit'', th_limit = 10,
     th_remaining = 5, th_reset_at = unix_epoch + 5 * minute, th_disabled = False\<rparr>"

theorem cooldown_never_shortened_witness:
  "checkState gate_store (unix_epoch + 59 * minute) None
     (gate_run gate_store [(unix_epoch + minute, GPersist sample_throttle),
        (unix_epoch + 2 * minute, GTransient ''os'' ''search'' ''http_503'' 0),
        (unix_epoch + 3 * minute, GReset ''os'' ''search'')] sample_cooling) ''os'' ''search'' \<noteq> None"
  by (rule cooldown_never_shortened [of _ _ _ "row_state (hd (db_rows sample_cooling))" "unix_epoch + minute"])
    (simp_all add: sample_cooling_def sample_throttle_def table_lookup_def row_key_def hard_cooldown_def
      row_state_def has_prefix_def fromUnixNano_def from_unix_def)

text \<open>No stored reset lies more than \<open>MaxProviderCooldown\<close> (48 hours) after the last operation:
  whatever resets providers report, a sequence of gate operations up to time \<open>t\<close> keeps every row
  within 48 hours of \<open>t\<close>.\<close>

theorem cooldown_bounded:
  assumes "\<forall>k st. table_lookup db k = Some st \<longrightarrow> ps_reset_at st \<le> t + MaxProviderCooldown" "0 \<le> t"
    and "\<forall>(now, x) \<in> set ops. now \<le> t" "table_lookup (gate_run gate_store ops db) k = Some st"
  shows "ps_reset_at st \<le> t + MaxProviderCooldown"
  using assms by (rule repo.bounded_run)

definition empty_states :: state_db where
  "empty_states = \<lparr>db_rows = [], db_read_fault = (\<lambda>_ _. False), db_write_fault = False\<rparr>"

theorem cooldown_bounded_witness:
  "\<exists>st. table_lookup (gate_run gate_store
      [(unix_epoch, GPersist (sample_throttle\<lparr>th_remaining := 0, th_reset_at := unix_epoch + 365 * day\<rparr>))] empty_states)
      (''os'', ''search'') = Some st \<and> ps_reset_at st \<le> unix_epoch + MaxProviderCooldown"
proof -
  let ?run = "gate_run gate_store
      [(unix_epoch, GPersist (sample_throttle\<lparr>th_remaining := 0, th_reset_at := unix_epoch + 365 * day\<rparr>))] empty_states"
  obtain st where "table_lookup ?run (''os'', ''search'') = Some st"
    by (simp add: sample_throttle_def empty_states_def persist_def previousState_def gate_store_def
        stateErrorStore_def repository_store_def GetProviderState_def PutProviderState_def sql_upsert_def
        table_lookup_def row_key_def persisted_state_def bounded_throttle_def zero_provider_state_def
        state_row_def Let_def)
  moreover from this have "ps_reset_at st \<le> unix_epoch + MaxProviderCooldown"
    by (rule cooldown_bounded [rotated -1])
      (auto simp: empty_states_def table_lookup_def unix_epoch_def)
  ultimately show ?thesis by blast
qed

text \<open>consecutive transient failures of an operation escalate: after the \<open>n\<close>-th in a row, with no
  reset from the provider, the row counts \<open>n\<close> attempts and blocks the operation for one, five, fifteen
  and then sixty minutes from the last failure.\<close>

theorem transient_failures_escalate:
  assumes "\<not> db_read_fault db p op" "\<not> db_write_fault db" "table_lookup db (p, op) = None"
    and "\<forall>(now, reason) \<in> set fails. unix_epoch \<le> now" "fails \<noteq> []"
  shows "\<exists>st. table_lookup (gate_run gate_store (map (\<lambda>(now, reason). (now, GTransient p op reason 0)) fails) db) (p, op)
        = Some st
      \<and> ps_failure_attempt st = int (length fails)
      \<and> ps_reset_at st = fst (last fails) + [minute, 5 * minute, 15 * minute, hour] ! min (length fails - 1) 3"
  using transient_run [OF assms(1,2) _ assms(4,5), of 0] assms(3)
  by (auto simp: failing_since_def transientFailureDelays_def)

theorem transient_failures_escalate_witness:
  "\<exists>st. table_lookup (gate_run gate_store (map (\<lambda>(now, reason). (now, GTransient ''os'' ''search'' reason 0))
        [(unix_epoch, ''http_502''), (unix_epoch + hour, ''network_error'')]) empty_states) (''os'', ''search'')
      = Some st \<and> ps_failure_attempt st = 2 \<and> ps_reset_at st = unix_epoch + hour + 5 * minute"
  using transient_failures_escalate [of empty_states "''os''" "''search''"
      "[(unix_epoch, ''http_502''), (unix_epoch + hour, ''network_error'')]"]
  by (simp add: empty_states_def table_lookup_def)

end
