(* ===== verification/Transport.thy ===== *)
theory Transport
  imports Provider_Gate
begin

text \<open>
  \<open>internal/provider/transport.go\<close> and the client half of \<open>availability.go\<close>: what the client does
  with an HTTP answer (\<open>Do\<close>), with the end of a response body (\<open>permitBody\<close>), and the cooldowns the
  adapters ask for (\<open>PersistCooldown\<close>, \<open>RecordDownloadRefusal\<close>, \<open>DisableAuthentication\<close>). The HTTP
  round trip itself is an argument: the outcome the standard library's client returned. Waiting for
  the rate token and the permits is the subject of theory \<open>Permits\<close>; here \<open>acquire_err\<close> is the
  error \<open>Acquire\<close> returned, if any.
\<close>

type_synonym cooldown_kind = string

definition CooldownRateLimit :: cooldown_kind where "CooldownRateLimit = ''rate_limit''"
definition CooldownDownloadQuota :: cooldown_kind where "CooldownDownloadQuota = ''download_quota''"
definition CooldownSearchQuota :: cooldown_kind where "CooldownSearchQuota = ''search_quota''"
definition CooldownServiceBusy :: cooldown_kind where "CooldownServiceBusy = ''service_busy''"
definition CooldownClientBlocked :: cooldown_kind where "CooldownClientBlocked = ''client_blocked''"

lemmas cooldown_kind_defs = CooldownRateLimit_def CooldownDownloadQuota_def CooldownSearchQuota_def
  CooldownServiceBusy_def CooldownClientBlocked_def

record Client =
  cl_provider_id :: string
  cl_provider_type :: string

definition minimumPersistedWindow :: duration where "minimumPersistedWindow = 5 * second"
definition defaultCooldown :: duration where "defaultCooldown = 5 * minute"
definition downloadRefusalWindow :: duration where "downloadRefusalWindow = hour"
definition downloadRateLimitWindow :: duration where "downloadRateLimitWindow = 15 * minute"

text \<open>The start of the next UTC day, plus a quarter of an hour.\<close>

definition next_quota_day :: "gotime \<Rightarrow> gotime" where
  "next_quota_day now = (now div day + 1) * day + 15 * minute"

definition FallbackReset :: "unicode \<Rightarrow> gotime \<Rightarrow> string \<Rightarrow> cooldown_kind \<Rightarrow> gotime" where
  "FallbackReset U now providerType kind =
     (let t = to_lower U providerType in
      if t = ''titlovi'' then
        (if kind = CooldownRateLimit then now + 5 * minute else zero_time)
      else if t = ''opensubtitles'' \<or> t = ''opensubtitlescom'' then
        (if kind = CooldownRateLimit then now + minute
         else if kind = CooldownDownloadQuota then now + 6 * hour else zero_time)
      else if t = ''subdl'' then
        (if kind = CooldownRateLimit then now + 15 * minute
         else if kind = CooldownDownloadQuota \<or> kind = CooldownSearchQuota then next_quota_day now
         else if kind = CooldownServiceBusy then now + hour else zero_time)
      else if t = ''subsource'' then
        (if kind = CooldownRateLimit then now + minute
         else if kind = CooldownDownloadQuota then now + hour else zero_time)
      else zero_time)"

definition refusalStatus :: "int \<Rightarrow> bool" where
  "refusalStatus status \<longleftrightarrow> status = 401 \<or> status = 403 \<or> status = 429"

section \<open>Cooldowns the adapters record\<close>

definition cooldown_throttle :: "Client \<Rightarrow> operation \<Rightarrow> cooldown_kind \<Rightarrow> gotime \<Rightarrow> Throttle" where
  "cooldown_throttle C operation kind resetAt =
     \<lparr>th_provider_id = cl_provider_id C, th_scope = operation, th_reason = kind, th_limit = 0,
      th_remaining = 0, th_reset_at = resetAt, th_disabled = False\<rparr>"

definition cooldown_reset :: "unicode \<Rightarrow> gotime \<Rightarrow> Client \<Rightarrow> cooldown_kind \<Rightarrow> gotime \<Rightarrow> gotime" where
  "cooldown_reset U now C kind resetAt0 =
     (let resetAt1 = (if \<not> resetAt0 > now then FallbackReset U now (cl_provider_type C) kind else resetAt0)
      in if \<not> resetAt1 > now then now + defaultCooldown else resetAt1)"

definition PersistCooldown ::
  "unicode \<Rightarrow> 's StateStore \<Rightarrow> gotime \<Rightarrow> Client \<Rightarrow> operation \<Rightarrow> cooldown_kind \<Rightarrow> gotime \<Rightarrow> 's
   \<Rightarrow> (provider_error, gotime \<times> 's) result" where
  "PersistCooldown U S now C operation kind resetAt s =
     persist S now (cooldown_throttle C operation kind (cooldown_reset U now C kind resetAt)) s"

definition DisableAuthentication ::
  "'s StateStore \<Rightarrow> gotime \<Rightarrow> Client \<Rightarrow> string \<Rightarrow> 's \<Rightarrow> (provider_error, gotime \<times> 's) result" where
  "DisableAuthentication S now C reason s =
     persist S now \<lparr>th_provider_id = cl_provider_id C, th_scope = OperationAuth, th_reason = reason,
       th_limit = 0, th_remaining = 0, th_reset_at = zero_time, th_disabled = True\<rparr> s"

definition refusal_cooldown :: "unicode \<Rightarrow> gotime \<Rightarrow> Client \<Rightarrow> cooldown_kind \<Rightarrow> cooldown_kind \<times> gotime" where
  "refusal_cooldown U now C kind =
     (if kind = CooldownRateLimit then
        let resetAt = FallbackReset U now (cl_provider_type C) CooldownRateLimit
        in (kind, if is_zero_time resetAt then now + downloadRateLimitWindow else resetAt)
      else if kind = CooldownClientBlocked then (kind, now + downloadRefusalWindow)
      else
        let resetAt = FallbackReset U now (cl_provider_type C) CooldownDownloadQuota
        in (CooldownDownloadQuota, if is_zero_time resetAt then now + downloadRefusalWindow else resetAt))"

text \<open>It always returns an error: the cooldown it recorded, or why it could not.\<close>

definition RecordDownloadRefusal ::
  "unicode \<Rightarrow> 's StateStore \<Rightarrow> gotime \<Rightarrow> Client \<Rightarrow> cooldown_kind \<Rightarrow> 's \<Rightarrow> provider_error \<times> 's" where
  "RecordDownloadRefusal U S now C kind0 s =
     (let (kind, resetAt) = refusal_cooldown U now C kind0
      in case PersistCooldown U S now C OperationDownload kind resetAt s of
           Err e \<Rightarrow> (e, s)
         | Ok (effective, s') \<Rightarrow>
             (CooldownError False (cl_provider_id C) OperationDownload kind effective, s'))"

section \<open>The answer to a request\<close>

text \<open>
  The outcome of the HTTP round trip: a failure (with a context that has ended, or a refused
  redirect), or a response with a status, headers and possibly a body. A context ends by
  cancellation or by its deadline.
\<close>

datatype ctx_end = Canceled | Deadline

fun ctx_error :: "ctx_end \<Rightarrow> provider_error" where
  "ctx_error Canceled = ContextCanceled"
| "ctx_error Deadline = DeadlineExceeded"

datatype http_outcome =
    HttpFailed "ctx_end option" "string option"
  | HttpResponse (hr_status: int) (hr_headers: http_header) (hr_body: bool)

text \<open>Who holds the permits when \<open>Do\<close> returns: nobody any more, or the response body.\<close>

datatype permits = Released | OwnedByBody

record do_result =
  dr_response :: bool
  dr_error :: "provider_error option"
  dr_permits :: permits

definition success_status :: "int \<Rightarrow> bool" where
  "success_status status \<longleftrightarrow> 200 \<le> status \<and> status < 300"

definition rate_headers :: "int \<Rightarrow> http_header \<Rightarrow> http_header" where
  "rate_headers status headers =
     (if success_status status \<and> headers ''Retry-After'' \<noteq> [] then headers(''Retry-After'' := []) else headers)"

text \<open>The window a response that is not a server error makes the client persist, if any.\<close>

definition response_window ::
  "unicode \<Rightarrow> date_formats \<Rightarrow> gotime \<Rightarrow> Client \<Rightarrow> int \<Rightarrow> http_header \<Rightarrow> RateLimitWindow option" where
  "response_window U F now C status headers =
     (let parsed = ParseRateLimit U F now (rate_headers status headers) [];
          fallback = FallbackReset U now (cl_provider_type C) CooldownRateLimit;
          window = (if status = 429 \<and> (case parsed of None \<Rightarrow> True | Some w \<Rightarrow> \<not> w_reset_at w > now)
                    then if is_zero_time fallback then None
                         else Some \<lparr>w_name = ''fallback'', w_limit = 0, w_remaining = 0,
                                w_reset_at = fallback, w_source = ''fallback''\<rparr>
                    else parsed);
          window' = (if status = 429 then map_option (\<lambda>w. w\<lparr>w_remaining := 0\<rparr>) window else window)
      in case window' of
           None \<Rightarrow> None
         | Some w \<Rightarrow>
             if success_status status \<and> w_remaining w \<le> 0 \<and> w_reset_at w - now < minimumPersistedWindow
             then None else Some w)"

definition window_throttle :: "Client \<Rightarrow> operation \<Rightarrow> RateLimitWindow \<Rightarrow> Throttle" where
  "window_throttle C operation w =
     \<lparr>th_provider_id = cl_provider_id C, th_scope = operation, th_reason = w_source w, th_limit = w_limit w,
      th_remaining = w_remaining w, th_reset_at = w_reset_at w, th_disabled = False\<rparr>"

definition transient_cooldown ::
  "'s StateStore \<Rightarrow> gotime \<Rightarrow> Client \<Rightarrow> operation \<Rightarrow> string \<Rightarrow> gotime \<Rightarrow> 's \<Rightarrow> provider_error \<times> 's" where
  "transient_cooldown S now C operation reason resetAt s =
     (case RecordTransientFailure S now (cl_provider_id C) operation reason resetAt s of
        Err e \<Rightarrow> (e, s)
      | Ok (state, s') \<Rightarrow>
          (CooldownError False (cl_provider_id C) operation (ps_reason state) (ps_reset_at state), s'))"

text \<open>The tail of \<open>Do\<close>: a response without a persisted throttle, or whose throttle is persisted.\<close>

definition finish_response ::
  "'s StateStore \<Rightarrow> Client \<Rightarrow> operation \<Rightarrow> int \<Rightarrow> bool \<Rightarrow> 's \<Rightarrow> provider_error option \<times> 's" where
  "finish_response S C operation status body s =
     (let reset = (if (\<not> success_status status \<or> \<not> body) \<and> \<not> refusalStatus status
                   then ResetTransientFailures S (cl_provider_id C) operation s else Ok s)
      in case reset of
           Err e \<Rightarrow> (Some e, s)
         | Ok s' \<Rightarrow> (if status = 401 then Some (AuthenticationError ''HTTP 401'') else None, s'))"

definition handle_response ::
  "unicode \<Rightarrow> date_formats \<Rightarrow> 's StateStore \<Rightarrow> gotime \<Rightarrow> Client \<Rightarrow> operation \<Rightarrow> int \<Rightarrow> http_header \<Rightarrow> bool \<Rightarrow> 's
   \<Rightarrow> provider_error option \<times> 's" where
  "handle_response U F S now C operation status headers body s =
     (if 500 \<le> status \<and> status \<le> 599 then
        let resetAt = (case ParseRateLimit U F now (rate_headers status headers) [] of
                         Some w \<Rightarrow> if w_remaining w \<le> 0 then w_reset_at w else zero_time
                       | None \<Rightarrow> zero_time);
            (e, s') = transient_cooldown S now C operation (''http_'' @ itoa status) resetAt s
        in (Some e, s')
      else
        case response_window U F now C status headers of
          None \<Rightarrow> finish_response S C operation status body s
        | Some w \<Rightarrow>
            (case persist S now (window_throttle C operation w) s of
               Err e \<Rightarrow> (Some (Wrapped ''persist provider throttle'' e), s)
             | Ok (resetAt, s') \<Rightarrow>
                 if status = 429
                 then (Some (CooldownError False (cl_provider_id C) operation (w_source w) resetAt), s')
                 else finish_response S C operation status body s'))"

definition client_Do ::
  "unicode \<Rightarrow> date_formats \<Rightarrow> 's StateStore \<Rightarrow> gotime \<Rightarrow> Client \<Rightarrow> operation \<Rightarrow> provider_error option
   \<Rightarrow> http_outcome \<Rightarrow> 's \<Rightarrow> do_result \<times> 's" where
  "client_Do U F S now C operation acquire_err outcome s =
     (case acquire_err of
        Some e \<Rightarrow> (\<lparr>dr_response = False, dr_error = Some e, dr_permits = Released\<rparr>, s)
      | None \<Rightarrow>
          (case outcome of
             HttpFailed (Some ctx_err) _ \<Rightarrow>
               (\<lparr>dr_response = False, dr_error = Some (ctx_error ctx_err), dr_permits = Released\<rparr>, s)
           | HttpFailed None (Some redirect) \<Rightarrow>
               (\<lparr>dr_response = False, dr_error = Some (RedirectError redirect), dr_permits = Released\<rparr>, s)
           | HttpFailed None None \<Rightarrow>
               let (e, s') = transient_cooldown S now C operation ''network_error'' zero_time s
               in (\<lparr>dr_response = False, dr_error = Some e, dr_permits = Released\<rparr>, s')
           | HttpResponse status headers body \<Rightarrow>
               let (e, s') = handle_response U F S now C operation status headers body s
               in (\<lparr>dr_response = True, dr_error = e,
                    dr_permits = (if body then OwnedByBody else Released)\<rparr>, s')))"

section \<open>The end of a response body\<close>

datatype read_error =
    ReadEOF
  | ReadUnexpectedEOF
  | ReadNetError (rn_canceled: bool)
  | ReadOther string

datatype read_result =
    ReadErr read_error
  | ReadState provider_error
  | BodyReadError read_error provider_error

text \<open>\<open>onReadEnd\<close>, installed on successful responses only.\<close>

definition on_read_end ::
  "'s StateStore \<Rightarrow> gotime \<Rightarrow> Client \<Rightarrow> operation \<Rightarrow> provider_error option \<Rightarrow> read_error \<Rightarrow> 's \<Rightarrow> read_result \<times> 's" where
  "on_read_end S now C operation ctx_err readErr s =
     (case ctx_err of
        Some e \<Rightarrow> (ReadState e, s)
      | None \<Rightarrow>
          (case readErr of
             ReadEOF \<Rightarrow>
               (case ResetTransientFailures S (cl_provider_id C) operation s of
                  Err e \<Rightarrow> (ReadState e, s)
                | Ok s' \<Rightarrow> (ReadErr ReadEOF, s'))
           | ReadOther msg \<Rightarrow> (ReadErr (ReadOther msg), s)
           | ReadNetError True \<Rightarrow> (ReadErr (ReadNetError True), s)
           | _ \<Rightarrow>
               let (e, s') = transient_cooldown S now C operation ''network_error'' zero_time s
               in (BodyReadError readErr e, s')))"

record permit_body =
  pb_released :: bool
  pb_finished :: bool
  pb_success :: bool

text \<open>
  \<open>Read\<close> with the outcome of the underlying read; the permits are given back at the end of the
  stream. The result is the error \<open>Read\<close> returns.
\<close>

definition permit_read ::
  "'s StateStore \<Rightarrow> gotime \<Rightarrow> Client \<Rightarrow> operation \<Rightarrow> provider_error option \<Rightarrow> read_error option
   \<Rightarrow> permit_body \<times> 's \<Rightarrow> read_result option \<times> permit_body \<times> 's" where
  "permit_read S now C operation ctx_err outcome bs =
     (let (b, s) = bs in
      case outcome of
        None \<Rightarrow> (None, b, s)
      | Some err \<Rightarrow>
          let (res, s') = (if \<not> pb_finished b \<and> pb_success b
                           then on_read_end S now C operation ctx_err err s else (ReadErr err, s))
          in (Some res, b\<lparr>pb_finished := True, pb_released := pb_released b \<or> err = ReadEOF\<rparr>, s'))"

definition permit_close :: "permit_body \<Rightarrow> permit_body" where
  "permit_close b = b\<lparr>pb_released := True\<rparr>"

section \<open>What a refusal leaves behind\<close>

definition refuses :: "gotime \<Rightarrow> ProviderState \<Rightarrow> bool" where
  "refuses t st \<longleftrightarrow> ps_disabled st \<or> exhausted t st"

lemma persisted_refuses:
  fixes previous :: ProviderState and found :: bool
  assumes "th_remaining th \<le> 0" "unix_epoch \<le> now" "now \<le> t"
  defines "st \<equiv> persisted_state now th previous found"
  assumes "t < (if \<not> ps_disabled st \<and> ps_reset_at st > th_reset_at th then ps_reset_at st else th_reset_at th)"
  shows "refuses t (stored_state st)"
  using assms
  by (auto simp: refuses_def exhausted_def persisted_state_def hard_cooldown_def Let_def split: if_splits)

lemma transient_refuses:
  assumes "unix_epoch \<le> now" "now \<le> t" "t < ps_reset_at (transient_state now p op reason r existing)"
  shows "refuses t (stored_state (transient_state now p op reason r existing))"
  using assms
  by (auto simp: refuses_def exhausted_def transient_state_def hard_cooldown_def Let_def split: if_splits)

lemma persisted_holds:
  fixes previous :: ProviderState and found :: bool
  assumes "th_remaining th \<le> 0" "unix_epoch \<le> now" "\<not> transient_reason (th_reason th)"
    and "ps_disabled previous \<Longrightarrow> \<not> transient_reason (ps_reason previous)"
  defines "st \<equiv> persisted_state now th previous found"
  assumes "t = (if \<not> ps_disabled st \<and> ps_reset_at st > th_reset_at th then ps_reset_at st else th_reset_at th)" "now < t"
  shows "holds_until t (stored_state st)"
  using assms
  by (auto simp: holds_until_def persisted_state_def hard_cooldown_def Let_def split: if_splits)

lemma transient_holds:
  assumes "unix_epoch \<le> now" "now < ps_reset_at (transient_state now p op reason r existing)"
    and "\<not> transient_reason (ps_reason (transient_state now p op reason r existing))"
  shows "holds_until (ps_reset_at (transient_state now p op reason r existing)) (stored_state (transient_state now p op reason r existing))"
  using assms
  by (auto simp: holds_until_def transient_state_def transient_name_def hard_cooldown_def has_prefix_iff Let_def split: if_splits)

lemma RecordTransientFailure_Err:
  "RecordTransientFailure S now p op reason r s = Err e \<Longrightarrow> \<exists>m e'. e = Wrapped m e'"
  by (auto simp: RecordTransientFailure_def Let_def split: sum.split_asm if_split_asm)

lemma ResetTransientFailures_Err:
  "ResetTransientFailures S p op s = Err e \<Longrightarrow> \<exists>m e'. e = Wrapped m e'"
  by (auto simp: ResetTransientFailures_def split: sum.split_asm if_split_asm)

lemma finish_response_no_cooldown:
  "finish_response S C op status body s = (Some e, s') \<Longrightarrow> \<not> is_cooldown e"
  by (auto simp: finish_response_def Let_def dest!: ResetTransientFailures_Err split: sum.split_asm if_split_asm)

lemma ctx_error_not_cooldown: "ctx_error c \<noteq> CooldownError b p sc reason r"
  by (cases c) simp_all

context state_store
begin

lemma refuses_checkState:
  assumes "lookup s (p, op) = Some st" "refuses t st"
  shows "checkState S t ctx s p op \<noteq> None"
  using check_refuses [OF assms(1), of "[OperationAll, OperationAuth, op]" t "op = OperationAuth"] assms(2)
  by (auto simp: checkState_def checkAvailability_def refuses_def split: option.split)

lemma persist_refuses:
  assumes "persist S now th s = Ok (eff, s')" "th_remaining th \<le> 0" "unix_epoch \<le> now" "now \<le> t" "t < eff"
  shows "checkState S t ctx s' (th_provider_id th) (th_scope th) \<noteq> None"
proof -
  define st where "st = persisted_state now (bounded_throttle now th)
    (old_entry (lookup s (th_provider_id th, th_scope th))) (lookup s (th_provider_id th, th_scope th) \<noteq> None)"
  note ok = persist_Ok [OF assms(1), folded st_def]
  have "refuses t (stored_state st)"
    unfolding st_def
    by (rule persisted_refuses) (use assms(2-5) ok(2) in \<open>auto simp: bounded_throttle_def st_def split: if_splits\<close>)
  with ok(1) show ?thesis by (intro refuses_checkState [of _ _ _ "stored_state st"]) simp_all
qed

lemma transient_cooldown_refuses:
  assumes "transient_cooldown S now C op reason r s = (CooldownError b p sc rs resetAt, s')"
    and "unix_epoch \<le> now" "now \<le> t" "t < resetAt"
  shows "checkState S t ctx s' (cl_provider_id C) op \<noteq> None"
proof -
  from assms(1) obtain st where ok: "RecordTransientFailure S now (cl_provider_id C) op reason r s = Ok (st, s')"
    and reset: "resetAt = ps_reset_at st"
    by (auto simp: transient_cooldown_def split: sum.split_asm prod.split_asm dest: RecordTransientFailure_Err)
  note rec = RecordTransientFailure_Ok [OF ok]
  have "refuses t (stored_state st)"
    using transient_refuses assms(2-4) reset unfolding rec(1) by blast
  with rec(2) show ?thesis by (intro refuses_checkState [of _ _ _ "stored_state st"]) simp_all
qed

lemma handle_response_refuses:
  assumes "handle_response U F S now C op status headers body s = (Some (CooldownError b p sc reason resetAt), s')"
    and "unix_epoch \<le> now" "now \<le> t" "t < resetAt"
  shows "checkState S t ctx s' (cl_provider_id C) op \<noteq> None"
proof (cases "500 \<le> status \<and> status \<le> 599")
  case True
  with assms(1) obtain msg r where
    "transient_cooldown S now C op msg r s = (CooldownError b p sc reason resetAt, s')"
    by (auto simp: handle_response_def Let_def split: prod.split_asm)
  then show ?thesis using assms(2-4) by (rule transient_cooldown_refuses)
next
  case False
  with assms(1) obtain w where w: "response_window U F now C status headers = Some w" and "status = 429"
    and ok: "persist S now (window_throttle C op w) s = Ok (resetAt, s')"
    by (auto simp: handle_response_def split: option.split_asm sum.split_asm prod.split_asm if_split_asm
        dest: finish_response_no_cooldown)
  from w \<open>status = 429\<close> have "w_remaining w \<le> 0"
    by (auto simp: response_window_def Let_def split: option.split_asm if_split_asm)
  then show ?thesis
    using persist_refuses [OF ok _ assms(2-4)] by (simp add: window_throttle_def)
qed

lemma client_Do_refuses:
  assumes "client_Do U F S now C op None outcome s = (res, s')"
    and "dr_error res = Some (CooldownError b p sc reason resetAt)"
    and "unix_epoch \<le> now" "now \<le> t" "t < resetAt"
  shows "checkState S t ctx s' (cl_provider_id C) op \<noteq> None"
proof (cases outcome)
  case (HttpFailed c redirect)
  with assms(1,2) obtain msg r where
    "transient_cooldown S now C op msg r s = (CooldownError b p sc reason resetAt, s')"
    by (auto simp: client_Do_def Let_def ctx_error_not_cooldown split: option.split_asm prod.split_asm)
  then show ?thesis using assms(3-5) by (rule transient_cooldown_refuses)
next
  case (HttpResponse status headers body)
  with assms(1,2) have
    "handle_response U F S now C op status headers body s = (Some (CooldownError b p sc reason resetAt), s')"
    by (auto simp: client_Do_def Let_def split: prod.split_asm)
  then show ?thesis using assms(3-5) by (rule handle_response_refuses)
qed

text \<open>A reported cooldown that is not of the transient family leaves a state that later writes cannot shorten.\<close>

lemma transient_cooldown_holds:
  assumes "transient_cooldown S now C op reason r s = (CooldownError b p sc rs resetAt, s')"
    and "unix_epoch \<le> now" "now < resetAt" "\<not> transient_reason rs"
  shows "\<exists>st. lookup s' (cl_provider_id C, op) = Some st \<and> holds_until resetAt st"
proof -
  from assms(1) obtain st where ok: "RecordTransientFailure S now (cl_provider_id C) op reason r s = Ok (st, s')"
    and reset: "resetAt = ps_reset_at st" "rs = ps_reason st"
    by (auto simp: transient_cooldown_def split: sum.split_asm prod.split_asm dest: RecordTransientFailure_Err)
  note rec = RecordTransientFailure_Ok [OF ok]
  have "holds_until resetAt (stored_state st)"
    using transient_holds assms(2-4) reset unfolding rec(1) by blast
  with rec(2) show ?thesis by simp
qed

lemma persist_holds:
  assumes "persist S now th s = Ok (eff, s')" "th_remaining th \<le> 0" "unix_epoch \<le> now" "now < eff"
    and "\<not> transient_reason (th_reason th)"
    and "\<And>st. \<lbrakk>lookup s (th_provider_id th, th_scope th) = Some st; ps_disabled st\<rbrakk> \<Longrightarrow> \<not> transient_reason (ps_reason st)"
  shows "\<exists>st. lookup s' (th_provider_id th, th_scope th) = Some st \<and> holds_until eff st"
proof -
  let ?e = "lookup s (th_provider_id th, th_scope th)"
  define st where "st = persisted_state now (bounded_throttle now th) (old_entry ?e) (?e \<noteq> None)"
  note ok = persist_Ok [OF assms(1), folded st_def]
  have old: "\<not> transient_reason (ps_reason (old_entry ?e))" if "ps_disabled (old_entry ?e)"
    using that assms(6) by (cases ?e) (simp_all add: zero_provider_state_def)
  have "holds_until eff (stored_state st)"
    unfolding st_def
    by (rule persisted_holds) (use assms(2-5) old ok(2) in \<open>auto simp: bounded_throttle_def st_def\<close>)
  with ok(1) show ?thesis by simp
qed

lemma handle_response_holds:
  assumes "handle_response U F S now C op status headers body s = (Some (CooldownError b p sc reason resetAt), s')"
    and "unix_epoch \<le> now" "now < resetAt" "\<not> transient_reason reason"
    and "\<And>st. \<lbrakk>lookup s (cl_provider_id C, op) = Some st; ps_disabled st\<rbrakk> \<Longrightarrow> \<not> transient_reason (ps_reason st)"
  shows "\<exists>st. lookup s' (cl_provider_id C, op) = Some st \<and> holds_until resetAt st"
proof (cases "500 \<le> status \<and> status \<le> 599")
  case True
  with assms(1) obtain msg r where
    "transient_cooldown S now C op msg r s = (CooldownError b p sc reason resetAt, s')"
    by (auto simp: handle_response_def Let_def split: prod.split_asm)
  then show ?thesis using assms(2-4) by (rule transient_cooldown_holds)
next
  case False
  with assms(1) obtain w where w: "response_window U F now C status headers = Some w" and "status = 429"
    and ok: "persist S now (window_throttle C op w) s = Ok (resetAt, s')" and r: "reason = w_source w"
    by (auto simp: handle_response_def split: option.split_asm sum.split_asm prod.split_asm if_split_asm
        dest: finish_response_no_cooldown)
  from w \<open>status = 429\<close> have "w_remaining w \<le> 0"
    by (auto simp: response_window_def Let_def split: option.split_asm if_split_asm)
  then show ?thesis
    using persist_holds [OF ok _ assms(2,3)] assms(4,5) r by (simp add: window_throttle_def)
qed

lemma client_Do_holds:
  assumes "client_Do U F S now C op None outcome s = (res, s')"
    and "dr_error res = Some (CooldownError b p sc reason resetAt)"
    and "unix_epoch \<le> now" "now < resetAt" "\<not> transient_reason reason"
    and "\<And>st. \<lbrakk>lookup s (cl_provider_id C, op) = Some st; ps_disabled st\<rbrakk> \<Longrightarrow> \<not> transient_reason (ps_reason st)"
  shows "\<exists>st. lookup s' (cl_provider_id C, op) = Some st \<and> holds_until resetAt st"
proof (cases outcome)
  case (HttpFailed c redirect)
  with assms(1,2) obtain msg r where
    "transient_cooldown S now C op msg r s = (CooldownError b p sc reason resetAt, s')"
    by (auto simp: client_Do_def Let_def ctx_error_not_cooldown split: option.split_asm prod.split_asm)
  then show ?thesis using assms(3-5) by (rule transient_cooldown_holds)
next
  case (HttpResponse status headers body)
  with assms(1,2) have
    "handle_response U F S now C op status headers body s = (Some (CooldownError b p sc reason resetAt), s')"
    by (auto simp: client_Do_def Let_def split: prod.split_asm)
  then show ?thesis using assms(3-6) by (rule handle_response_holds)
qed

end

lemma cooldown_reset_future: "now < cooldown_reset U now C kind r"
  by (simp add: cooldown_reset_def defaultCooldown_def Let_def)

section \<open>Properties\<close>

text \<open>C11: when \<open>Do\<close> reports a cooldown (a 429 with a known reset, a server error or a network failure), every
  request check of the same operation of that provider is refused until the reset it reports, on the state \<open>Do\<close> leaves.
  When the reported reason is not of the transient family (a 429, or a cooldown that was running already), the same
  holds whatever throttle responses, transient failures and recoveries of other requests, of any provider and
  operation, are recorded until then; the cooldown of a transient failure can be lifted by another request's
  success. A disabled operation is taken to have no transient reason, and neither have the throttles the adapters record.\<close>

theorem reported_cooldown_holds:
  assumes "client_Do U F gate_store now C op None outcome db = (res, db')"
    and "dr_error res = Some (CooldownError b p sc reason resetAt)"
    and "unix_epoch \<le> now" "now \<le> t" "t < resetAt"
    and "ops \<noteq> [] \<Longrightarrow> \<not> transient_reason reason"
    and "\<forall>(n, x) \<in> set ops. unix_epoch \<le> n \<and> n < resetAt \<and> op_reason_ok (n, x)"
    and "\<And>st. \<lbrakk>table_lookup db (cl_provider_id C, op) = Some st; ps_disabled st\<rbrakk> \<Longrightarrow> \<not> transient_reason (ps_reason st)"
  shows "checkState gate_store t ctx (gate_run gate_store ops db') (cl_provider_id C) op \<noteq> None"
proof (cases "ops = []")
  case True
  with assms(1-5) show ?thesis by (simp add: repo.client_Do_refuses)
next
  case False
  have "now < resetAt" using assms(4,5) by simp
  from repo.client_Do_holds [OF assms(1-3) this assms(6) [OF False] assms(8)]
  obtain st where st: "table_lookup db' (cl_provider_id C, op) = Some st" "holds_until resetAt st" by blast
  from repo.holds_until_run [OF st assms(7)] obtain st' where
    "table_lookup (gate_run gate_store ops db') (cl_provider_id C, op) = Some st'" "holds_until resetAt st'" by blast
  then show ?thesis using assms(5) by (rule repo.checkState_refuses)
qed

definition sample_client :: Client where
  "sample_client = \<lparr>cl_provider_id = ''os'', cl_provider_type = ''opensubtitles''\<rparr>"

lemma sample_client_id: "cl_provider_id sample_client = ''os''"
  by (simp add: sample_client_def)

lemma sample_fallback:
  "response_window ascii_tables no_dates unix_epoch sample_client 429 (\<lambda>_. [])
   = Some \<lparr>w_name = ''fallback'', w_limit = 0, w_remaining = 0, w_reset_at = unix_epoch + minute, w_source = ''fallback''\<rparr>"
proof -
  have "parsed_windows ascii_tables no_dates unix_epoch (\<lambda>_. []) [] = []" by (simp add: header_eval text_eval)
  then have none: "ParseRateLimit ascii_tables no_dates unix_epoch (\<lambda>_. []) [] = None" by (simp only: ParseRateLimit_None)
  have "FallbackReset ascii_tables unix_epoch ''opensubtitles'' CooldownRateLimit = unix_epoch + minute"
    by (simp add: FallbackReset_def cooldown_kind_defs text_eval)
  moreover have "unix_epoch + minute \<noteq> 0" by (simp add: unix_epoch_def)
  ultimately show ?thesis
    by (simp add: response_window_def rate_headers_def none sample_client_def success_status_def Let_def)
qed

lemma sample_429:
  "dr_error (fst (client_Do ascii_tables no_dates gate_store unix_epoch sample_client ''search'' None
      (HttpResponse 429 (\<lambda>_. []) True) empty_states)) = Some (CooldownError False ''os'' ''search'' ''fallback'' (unix_epoch + minute))"
  by (simp add: client_Do_def handle_response_def sample_fallback window_throttle_def persist_def previousState_def gate_store_def
      stateErrorStore_def repository_store_def GetProviderState_def PutProviderState_def empty_states_def bounded_throttle_def
      boundedReset_def persisted_state_def zero_provider_state_def sample_client_id MaxProviderCooldown_def Let_def)

theorem reported_cooldown_holds_witness:
  "checkState gate_store (unix_epoch + 30 * second) None
     (gate_run gate_store [(unix_epoch + 10 * second, GReset ''os'' ''search''), (unix_epoch + 20 * second, GTransient ''os'' ''search'' ''http_503'' 0)]
       (snd (client_Do ascii_tables no_dates gate_store unix_epoch sample_client ''search'' None
          (HttpResponse 429 (\<lambda>_. []) True) empty_states))) ''os'' ''search'' \<noteq> None"
proof -
  let ?ops = "[(unix_epoch + 10 * second, GReset ''os'' ''search''), (unix_epoch + 20 * second, GTransient ''os'' ''search'' ''http_503'' 0)]"
  have "\<not> transient_reason ''fallback''" by (simp add: has_prefix_def)
  moreover have "table_lookup empty_states k = None" for k by (simp add: table_lookup_def empty_states_def split: prod.split)
  ultimately show ?thesis
    using reported_cooldown_holds [OF prod.collapse [symmetric] sample_429, of "unix_epoch + 30 * second" ?ops None] by (simp add: sample_client_id)
qed

text \<open>A cooldown an adapter asks for always starts in the future: \<open>PersistCooldown\<close> replaces a reset
  that is missing or over by the provider's fallback or by five minutes, and until the reset it
  returns every request check of that operation is refused.\<close>

theorem persisted_cooldown_holds:
  assumes "PersistCooldown U gate_store now C op kind r db = Ok (resetAt, db')"
    and "unix_epoch \<le> now"
  shows "now < resetAt \<and>
    (\<forall>t ctx. now \<le> t \<and> t < resetAt \<longrightarrow> checkState gate_store t ctx db' (cl_provider_id C) op \<noteq> None)"
proof -
  note ok = assms(1) [unfolded PersistCooldown_def]
  have "now < boundedReset now (cooldown_reset U now C kind r)"
    using cooldown_reset_future by (simp add: boundedReset_def MaxProviderCooldown_def)
  with repo.persist_Ok(2) [OF ok] have "now < resetAt"
    by (simp add: cooldown_throttle_def split: if_splits)
  moreover have "checkState gate_store t ctx db' (cl_provider_id C) op \<noteq> None"
    if "now \<le> t" "t < resetAt" for t ctx
    using repo.persist_refuses [OF ok _ assms(2) that] by (simp add: cooldown_throttle_def)
  ultimately show ?thesis by blast
qed

theorem persisted_cooldown_holds_witness:
  "\<exists>resetAt db'. PersistCooldown ascii_tables gate_store unix_epoch sample_client ''download'' CooldownDownloadQuota 0
       empty_states = Ok (resetAt, db')
     \<and> unix_epoch < resetAt"
proof -
  have "\<exists>resetAt db'. PersistCooldown ascii_tables gate_store unix_epoch sample_client ''download'' CooldownDownloadQuota 0
       empty_states = Ok (resetAt, db')"
    by (simp add: PersistCooldown_def persist_def previousState_def gate_store_def stateErrorStore_def
        repository_store_def GetProviderState_def PutProviderState_def empty_states_def Let_def
        bounded_throttle_def cooldown_throttle_def)
  then show ?thesis using persisted_cooldown_holds by blast
qed

end
