(* ===== verification/Permits.thy ===== *)
theory Permits
  imports Prelude
begin

text \<open>
  The concurrent side of the provider gate (\<open>internal/provider/limiter.go\<close>): \<open>Configure\<close> and the
  steps of \<open>Acquire\<close> for several requests at once. A semaphore channel is the number of its slots in
  use. Each request is a thread with a program counter; the tests of the persisted state, the token
  bucket and the cancellation of a request's context are nondeterministic, and every step of one
  thread may be interleaved with the steps of the others.
\<close>

definition positive_or_one :: "int \<Rightarrow> int" where
  "positive_or_one n = (if n \<le> 0 then 1 else n)"

datatype pc =
    PStart | PChecked | PToken | PInstance | PBoth | PRunning | PDone | PRefused

record request =
  rq_provider :: string
  rq_origin :: string
  rq_pc :: pc

record gate =
  g_instances :: "string \<rightharpoonup> nat"
  g_shared_max :: nat
  g_used :: "string \<Rightarrow> nat"
  g_origin_used :: "string \<Rightarrow> nat"
  g_requests :: "request list"

definition NewGate :: "int \<Rightarrow> request list \<Rightarrow> gate" where
  "NewGate sharedMax requests =
     \<lparr>g_instances = Map.empty, g_shared_max = nat (positive_or_one sharedMax), g_used = (\<lambda>_. 0),
      g_origin_used = (\<lambda>_. 0), g_requests = requests\<rparr>"

definition Configure :: "string \<Rightarrow> int \<Rightarrow> gate \<Rightarrow> gate" where
  "Configure provider_id maxConcurrent g =
     g\<lparr>g_instances := (g_instances g)(provider_id \<mapsto> nat (positive_or_one maxConcurrent))\<rparr>"

definition set_pc :: "nat \<Rightarrow> pc \<Rightarrow> gate \<Rightarrow> gate" where
  "set_pc i p g = g\<lparr>g_requests := (g_requests g)[i := (g_requests g ! i)\<lparr>rq_pc := p\<rparr>]\<rparr>"

definition take_instance :: "string \<Rightarrow> gate \<Rightarrow> gate" where
  "take_instance p g = g\<lparr>g_used := (g_used g)(p := g_used g p + 1)\<rparr>"

definition drop_instance :: "string \<Rightarrow> gate \<Rightarrow> gate" where
  "drop_instance p g = g\<lparr>g_used := (g_used g)(p := g_used g p - 1)\<rparr>"

definition take_origin :: "string \<Rightarrow> gate \<Rightarrow> gate" where
  "take_origin o' g = g\<lparr>g_origin_used := (g_origin_used g)(o' := g_origin_used g o' + 1)\<rparr>"

definition drop_origin :: "string \<Rightarrow> gate \<Rightarrow> gate" where
  "drop_origin o' g = g\<lparr>g_origin_used := (g_origin_used g)(o' := g_origin_used g o' - 1)\<rparr>"

text \<open>Thread \<open>i\<close> is a request of provider \<open>p\<close> and origin \<open>o'\<close> at program counter \<open>c\<close>.\<close>

definition at_pc :: "gate \<Rightarrow> nat \<Rightarrow> string \<Rightarrow> string \<Rightarrow> pc \<Rightarrow> bool" where
  "at_pc g i p o' c \<longleftrightarrow> i < length (g_requests g) \<and> g_requests g ! i = \<lparr>rq_provider = p, rq_origin = o', rq_pc = c\<rparr>"

section \<open>Steps\<close>

text \<open>
  The label says whether the thread gives up: its state check refused it, the wait for a token
  failed or its context ended.
\<close>

inductive step :: "bool \<Rightarrow> gate \<Rightarrow> gate \<Rightarrow> bool" where
  check_refused: "at_pc g i p o' PStart \<Longrightarrow> step True g (set_pc i PRefused g)"
| check_passed: "at_pc g i p o' PStart \<Longrightarrow> step False g (set_pc i PChecked g)"
| no_limiter: "\<lbrakk>at_pc g i p o' PChecked; g_instances g p = None\<rbrakk> \<Longrightarrow> step False g (set_pc i PRefused g)"
| token_failed: "\<lbrakk>at_pc g i p o' PChecked; g_instances g p = Some n\<rbrakk> \<Longrightarrow> step True g (set_pc i PRefused g)"
| token: "\<lbrakk>at_pc g i p o' PChecked; g_instances g p = Some n\<rbrakk> \<Longrightarrow> step False g (set_pc i PToken g)"
| instance_canceled: "at_pc g i p o' PToken \<Longrightarrow> step True g (set_pc i PRefused g)"
| instance_taken: "\<lbrakk>at_pc g i p o' PToken; g_instances g p = Some n; g_used g p < n\<rbrakk>
    \<Longrightarrow> step False g (set_pc i PInstance (take_instance p g))"
| origin_canceled: "at_pc g i p o' PInstance \<Longrightarrow> step True g (set_pc i PRefused (drop_instance p g))"
| origin_taken: "\<lbrakk>at_pc g i p o' PInstance; g_origin_used g o' < g_shared_max g\<rbrakk>
    \<Longrightarrow> step False g (set_pc i PBoth (take_origin o' g))"
| recheck_refused: "at_pc g i p o' PBoth
    \<Longrightarrow> step True g (set_pc i PRefused (drop_instance p (drop_origin o' g)))"
| recheck_passed: "at_pc g i p o' PBoth \<Longrightarrow> step False g (set_pc i PRunning g)"
| release: "at_pc g i p o' PRunning
    \<Longrightarrow> step False g (set_pc i PDone (drop_instance p (drop_origin o' g)))"

definition any_step :: "gate \<Rightarrow> gate \<Rightarrow> bool" where
  "any_step g g' \<longleftrightarrow> (\<exists>b. step b g g')"

definition start_gate :: "int \<Rightarrow> (string \<times> int) list \<Rightarrow> (string \<times> string) list \<Rightarrow> gate" where
  "start_gate sharedMax confs reqs =
     fold (\<lambda>(p, n). Configure p n) confs
       (NewGate sharedMax (map (\<lambda>(p, o'). \<lparr>rq_provider = p, rq_origin = o', rq_pc = PStart\<rparr>) reqs))"

definition finished :: "request \<Rightarrow> bool" where
  "finished r \<longleftrightarrow> rq_pc r = PDone \<or> rq_pc r = PRefused"

definition holds_instance :: "string \<Rightarrow> request \<Rightarrow> bool" where
  "holds_instance p r \<longleftrightarrow> rq_provider r = p \<and> (rq_pc r = PInstance \<or> rq_pc r = PBoth \<or> rq_pc r = PRunning)"

definition holds_origin :: "string \<Rightarrow> request \<Rightarrow> bool" where
  "holds_origin o' r \<longleftrightarrow> rq_origin r = o' \<and> (rq_pc r = PBoth \<or> rq_pc r = PRunning)"

section \<open>Invariant\<close>

abbreviation count :: "('a \<Rightarrow> bool) \<Rightarrow> 'a list \<Rightarrow> nat" where
  "count q xs \<equiv> length (filter q xs)"

fun past_token :: "pc \<Rightarrow> bool" where
  "past_token PStart = False" | "past_token PChecked = False" | "past_token PToken = True"
| "past_token PInstance = True" | "past_token PBoth = True" | "past_token PRunning = True"
| "past_token PDone = False" | "past_token PRefused = False"

definition gate_inv :: "gate \<Rightarrow> bool" where
  "gate_inv g \<longleftrightarrow>
     (\<forall>p. g_used g p = count (holds_instance p) (g_requests g))
     \<and> (\<forall>o'. g_origin_used g o' = count (holds_origin o') (g_requests g))
     \<and> (\<forall>p n. g_instances g p = Some n \<longrightarrow> g_used g p \<le> n)
     \<and> (\<forall>o'. g_origin_used g o' \<le> g_shared_max g)
     \<and> (\<forall>r \<in> set (g_requests g). past_token (rq_pc r) \<longrightarrow> g_instances g (rq_provider r) \<noteq> None)
     \<and> 0 < g_shared_max g \<and> (\<forall>p n. g_instances g p = Some n \<longrightarrow> 0 < n)"

lemmas count_update = length_filter_update

lemma count_pos: "\<lbrakk>i < length xs; q (xs ! i)\<rbrakk> \<Longrightarrow> 0 < count q xs"
  by (auto simp: filter_empty_conv)

lemma count_posE: "0 < count q xs \<Longrightarrow> \<exists>i < length xs. q (xs ! i)"
  by (auto simp: filter_empty_conv in_set_conv_nth)

lemmas gate_ops = set_pc_def take_instance_def drop_instance_def take_origin_def drop_origin_def

lemma step_config:
  "step b g g' \<Longrightarrow> g_instances g' = g_instances g \<and> g_shared_max g' = g_shared_max g
     \<and> length (g_requests g') = length (g_requests g)"
  by (induction rule: step.induct) (auto simp: gate_ops)

definition inst_pc :: "pc \<Rightarrow> nat" where
  "inst_pc c = (if c = PInstance \<or> c = PBoth \<or> c = PRunning then 1 else 0)"

definition orig_pc :: "pc \<Rightarrow> nat" where
  "orig_pc c = (if c = PBoth \<or> c = PRunning then 1 else 0)"

text \<open>Moving one thread keeps the invariant when the counters follow its program counter.\<close>

lemma gate_inv_move:
  assumes inv: "gate_inv g" and at: "at_pc g i p o' c"
    and same: "g_instances g' = g_instances g" "g_shared_max g' = g_shared_max g"
    and req: "g_requests g' = (g_requests g)[i := \<lparr>rq_provider = p, rq_origin = o', rq_pc = c'\<rparr>]"
    and used: "\<And>q. g_used g' q + (if q = p then inst_pc c else 0) = g_used g q + (if q = p then inst_pc c' else 0)"
    and orig: "\<And>q. g_origin_used g' q + (if q = o' then orig_pc c else 0)
      = g_origin_used g q + (if q = o' then orig_pc c' else 0)"
    and bounds: "\<And>n. g_instances g p = Some n \<Longrightarrow> g_used g' p \<le> n" "g_origin_used g' o' \<le> g_shared_max g"
    and conf: "past_token c' \<Longrightarrow> g_instances g p \<noteq> None"
  shows "gate_inv g'"
proof -
  have i: "i < length (g_requests g)" and r: "g_requests g ! i = \<lparr>rq_provider = p, rq_origin = o', rq_pc = c\<rparr>"
    using at by (auto simp: at_pc_def)
  have u: "g_used g' q = count (holds_instance q) (g_requests g')" for q
    using count_update [OF i, of "holds_instance q" "\<lparr>rq_provider = p, rq_origin = o', rq_pc = c'\<rparr>"] used [of q] inv
    by (auto simp: req r gate_inv_def holds_instance_def inst_pc_def split: if_splits)
  moreover have "g_origin_used g' q = count (holds_origin q) (g_requests g')" for q
    using count_update [OF i, of "holds_origin q" "\<lparr>rq_provider = p, rq_origin = o', rq_pc = c'\<rparr>"] orig [of q] inv
    by (auto simp: req r gate_inv_def holds_origin_def orig_pc_def split: if_splits)
  moreover have "g_used g' q \<le> n" if "g_instances g q = Some n" for q n
    using that bounds(1) used [of q] inv by (cases "q = p") (auto simp: gate_inv_def)
  moreover have "g_origin_used g' q \<le> g_shared_max g" for q
    using bounds(2) orig [of q] inv by (cases "q = o'") (auto simp: gate_inv_def)
  moreover have "g_instances g (rq_provider r) \<noteq> None" if "r \<in> set (g_requests g')" "past_token (rq_pc r)" for r
  proof (cases "r \<in> set (g_requests g)")
    case False
    with that(1) have "r = \<lparr>rq_provider = p, rq_origin = o', rq_pc = c'\<rparr>"
      using set_update_subset_insert [THEN subsetD, OF that(1) [unfolded req]] by simp
    with conf that(2) show ?thesis by simp
  qed (use inv that(2) in \<open>simp add: gate_inv_def\<close>)
  ultimately show ?thesis using inv by (simp add: gate_inv_def same)
qed

lemma gate_invD:
  assumes "gate_inv g"
  shows "g_used g p = count (holds_instance p) (g_requests g)"
    and "g_origin_used g o' = count (holds_origin o') (g_requests g)"
    and "g_instances g p = Some n \<Longrightarrow> g_used g p \<le> n" and "g_origin_used g o' \<le> g_shared_max g"
    and "0 < g_shared_max g" and "g_instances g p = Some n \<Longrightarrow> 0 < n"
  using assms unfolding gate_inv_def by blast+

lemma gate_inv_past:
  "\<lbrakk>gate_inv g; r \<in> set (g_requests g); past_token (rq_pc r)\<rbrakk> \<Longrightarrow> g_instances g (rq_provider r) \<noteq> None"
  unfolding gate_inv_def by blast

lemma gate_inv_used:
  assumes "gate_inv g" "at_pc g i p o' c"
  shows "inst_pc c \<le> g_used g p" "orig_pc c \<le> g_origin_used g o'"
    and "g_instances g p = Some n \<Longrightarrow> g_used g p \<le> n" "g_origin_used g o' \<le> g_shared_max g"
    and "past_token c \<Longrightarrow> g_instances g p \<noteq> None"
proof -
  have i: "i < length (g_requests g)" and r: "g_requests g ! i = \<lparr>rq_provider = p, rq_origin = o', rq_pc = c\<rparr>"
    using assms(2) by (auto simp: at_pc_def)
  show "inst_pc c \<le> g_used g p"
    using assms(1) count_pos [OF i, of "holds_instance p"]
    by (auto simp: gate_inv_def inst_pc_def holds_instance_def r Suc_le_eq)
  show "orig_pc c \<le> g_origin_used g o'"
    using assms(1) count_pos [OF i, of "holds_origin o'"]
    by (auto simp: gate_inv_def orig_pc_def holds_origin_def r Suc_le_eq)
  show "past_token c \<Longrightarrow> g_instances g p \<noteq> None"
    using gate_inv_past [OF assms(1) nth_mem [OF i]] r by simp
qed (use gate_invD [OF assms(1)] in blast)+

lemma at_pc_req: "at_pc g i p o' c \<Longrightarrow> g_requests g ! i = \<lparr>rq_provider = p, rq_origin = o', rq_pc = c\<rparr>"
  by (simp add: at_pc_def)

lemma gate_inv_set_pc:
  assumes "gate_inv g" "at_pc g i p o' c" "inst_pc c' = inst_pc c" "orig_pc c' = orig_pc c"
    and "past_token c' \<Longrightarrow> g_instances g p \<noteq> None"
  shows "gate_inv (set_pc i c' g)"
  by (rule gate_inv_move [where c' = c', OF assms(1,2)])
    (use assms(3-5) gate_inv_used [OF assms(1,2)] in \<open>auto simp: set_pc_def at_pc_req [OF assms(2)]\<close>)

lemma gate_inv_release:
  assumes "gate_inv g" "at_pc g i p o' c" "c = PBoth \<or> c = PRunning" "c' = PDone \<or> c' = PRefused"
  shows "gate_inv (set_pc i c' (drop_instance p (drop_origin o' g)))"
  by (rule gate_inv_move [where c' = c', OF assms(1,2)])
    (use assms(3,4) gate_inv_used [OF assms(1,2)] in
      \<open>auto simp: gate_ops at_pc_req [OF assms(2)] inst_pc_def orig_pc_def\<close>)

lemma gate_inv_step: "\<lbrakk>step b g g'; gate_inv g\<rbrakk> \<Longrightarrow> gate_inv g'"
proof (induction rule: step.induct)
  case (origin_taken g i p o')
  note at = origin_taken(1)
  show ?case
    by (rule gate_inv_move [where c' = PBoth, OF origin_taken(3) at])
      (use gate_inv_used [OF origin_taken(3) at] origin_taken(2) in
        \<open>auto simp: gate_ops inst_pc_def orig_pc_def at_pc_req [OF at]\<close>)
next
  case (instance_taken g i p o' n)
  note at = instance_taken(1)
  show ?case
    by (rule gate_inv_move [where c' = PInstance, OF instance_taken(4) at])
      (use gate_inv_used [OF instance_taken(4) at] instance_taken(2,3) in
        \<open>auto simp: gate_ops inst_pc_def orig_pc_def at_pc_req [OF at]\<close>)
next
  case (origin_canceled g i p o')
  note at = origin_canceled(1)
  show ?case
    by (rule gate_inv_move [where c' = PRefused, OF origin_canceled(2) at])
      (use gate_inv_used [OF origin_canceled(2) at] in
        \<open>auto simp: gate_ops inst_pc_def orig_pc_def at_pc_req [OF at]\<close>)
next
  case (recheck_passed g i p o')
  then show ?case
    using gate_inv_used(5) by (intro gate_inv_set_pc) (auto simp: inst_pc_def orig_pc_def)
qed (auto intro: gate_inv_set_pc gate_inv_release simp: inst_pc_def orig_pc_def)

lemma start_gate_simps:
  "g_used (start_gate m confs reqs) = (\<lambda>_. 0)" "g_origin_used (start_gate m confs reqs) = (\<lambda>_. 0)"
  "g_shared_max (start_gate m confs reqs) = nat (positive_or_one m)"
  "g_requests (start_gate m confs reqs) = map (\<lambda>(p, o'). \<lparr>rq_provider = p, rq_origin = o', rq_pc = PStart\<rparr>) reqs"
proof -
  have "g_used (fold (\<lambda>(p, n). Configure p n) confs g) = g_used g
    \<and> g_origin_used (fold (\<lambda>(p, n). Configure p n) confs g) = g_origin_used g
    \<and> g_shared_max (fold (\<lambda>(p, n). Configure p n) confs g) = g_shared_max g
    \<and> g_requests (fold (\<lambda>(p, n). Configure p n) confs g) = g_requests g" for g
    by (induction confs arbitrary: g) (auto simp: Configure_def)
  then show "g_used (start_gate m confs reqs) = (\<lambda>_. 0)" "g_origin_used (start_gate m confs reqs) = (\<lambda>_. 0)"
    "g_shared_max (start_gate m confs reqs) = nat (positive_or_one m)"
    "g_requests (start_gate m confs reqs) = map (\<lambda>(p, o'). \<lparr>rq_provider = p, rq_origin = o', rq_pc = PStart\<rparr>) reqs"
    by (simp_all add: start_gate_def NewGate_def)
qed

lemma start_gate_instances: "g_instances (start_gate m confs reqs) p = Some n \<Longrightarrow> 0 < n"
proof -
  have "\<lbrakk>\<And>p n. g_instances g p = Some n \<Longrightarrow> 0 < n;
      g_instances (fold (\<lambda>(p, n). Configure p n) confs g) p = Some n\<rbrakk> \<Longrightarrow> 0 < n" for g
  proof (induction confs arbitrary: g)
    case (Cons x confs)
    obtain q m where x: "x = (q, m)" by (cases x)
    show ?case
    proof (rule Cons.IH)
      show "g_instances (Configure q m g) p' = Some n' \<Longrightarrow> 0 < n'" for p' n'
        using Cons.prems(1) [of p' n'] by (auto simp: Configure_def positive_or_one_def split: if_splits)
    qed (use Cons.prems(2) in \<open>simp add: x\<close>)
  qed simp
  from this [of "NewGate m (map (\<lambda>(p, o'). \<lparr>rq_provider = p, rq_origin = o', rq_pc = PStart\<rparr>) reqs)"]
  show "g_instances (start_gate m confs reqs) p = Some n \<Longrightarrow> 0 < n"
    by (simp add: start_gate_def NewGate_def)
qed

lemma gate_inv_start: "gate_inv (start_gate m confs reqs)"
  by (auto simp: gate_inv_def start_gate_simps start_gate_instances filter_empty_conv holds_instance_def
      holds_origin_def positive_or_one_def)

lemma gate_inv_reachable: "any_step\<^sup>*\<^sup>* (start_gate m confs reqs) g \<Longrightarrow> gate_inv g"
  by (induction rule: rtranclp_induct) (auto simp: any_step_def intro: gate_inv_start gate_inv_step)

text \<open>Threads that hold the origin permit can always move, and they are the ones others wait for.\<close>

lemma at_pcI: "i < length (g_requests g) \<Longrightarrow>
    at_pc g i (rq_provider (g_requests g ! i)) (rq_origin (g_requests g ! i)) (rq_pc (g_requests g ! i))"
  by (simp add: at_pc_def)

lemma free_move:
  "\<lbrakk>at_pc g i p o' c; c = PStart \<or> c = PBoth \<or> c = PRunning\<rbrakk> \<Longrightarrow> \<exists>g'. step False g g'"
  by (elim disjE) (blast intro: step.intros)+

lemma origin_holder_moves:
  assumes "gate_inv g" "0 < g_origin_used g o'"
  shows "\<exists>g'. step False g g'"
proof -
  from assms(2) obtain i where i: "i < length (g_requests g)" "holds_origin o' (g_requests g ! i)"
    using count_posE gate_invD(2) [OF assms(1)] by metis
  show ?thesis using at_pcI [OF i(1)] by (rule free_move) (use i(2) in \<open>simp add: holds_origin_def\<close>)
qed

lemma instance_move:
  assumes inv: "gate_inv g" and at: "at_pc g i p o' PInstance"
  shows "\<exists>g'. step False g g'"
proof (cases "g_origin_used g o' < g_shared_max g")
  case True
  with at show ?thesis by (blast intro: step.origin_taken)
next
  case False
  with gate_invD(5) [OF inv] have "0 < g_origin_used g o'" by simp
  with inv show ?thesis by (rule origin_holder_moves)
qed

lemma instance_holder_moves:
  assumes inv: "gate_inv g" and "0 < g_used g p"
  shows "\<exists>g'. step False g g'"
proof -
  from assms(2) obtain i where i: "i < length (g_requests g)" "holds_instance p (g_requests g ! i)"
    using count_posE gate_invD(1) [OF inv] by metis
  note at = at_pcI [OF i(1)]
  show ?thesis
  proof (cases "rq_pc (g_requests g ! i) = PInstance")
    case True
    with at instance_move [OF inv] show ?thesis by metis
  next
    case False
    show ?thesis using at by (rule free_move) (use False i(2) in \<open>simp add: holds_instance_def\<close>)
  qed
qed

lemma token_move:
  assumes inv: "gate_inv g" and at: "at_pc g i p o' PToken"
  shows "\<exists>g'. step False g g'"
proof -
  obtain n where n: "g_instances g p = Some n" using gate_inv_used(5) [OF inv at] by auto
  show ?thesis
  proof (cases "g_used g p < n")
    case True
    with at n show ?thesis by (blast intro: step.instance_taken)
  next
    case False
    with gate_invD(6) [OF inv n] have "0 < g_used g p" by simp
    with inv show ?thesis by (rule instance_holder_moves)
  qed
qed

lemma unfinished_moves:
  assumes inv: "gate_inv g" and at: "at_pc g i p o' c" and "c \<noteq> PDone" "c \<noteq> PRefused"
  shows "\<exists>g'. step False g g'"
proof (cases c)
  case PChecked
  with at show ?thesis
    by (cases "g_instances g p") (blast intro: step.no_limiter step.token)+
qed (use assms free_move [OF at] token_move [OF inv] instance_move [OF inv] in blast)+

lemma finished_free:
  assumes "gate_inv g" "\<forall>r \<in> set (g_requests g). finished r"
  shows "g_used g p = 0 \<and> g_origin_used g o' = 0"
  using assms(2) unfolding gate_invD(1,2) [OF assms(1)]
  by (auto simp: filter_empty_conv finished_def holds_instance_def holds_origin_def)

text \<open>Every step moves one thread forward, so a run of \<open>n\<close> requests has at most \<open>6 n\<close> steps.\<close>

fun rank :: "pc \<Rightarrow> nat" where
  "rank PStart = 6" | "rank PChecked = 5" | "rank PToken = 4" | "rank PInstance = 3"
| "rank PBoth = 2" | "rank PRunning = 1" | "rank PDone = 0" | "rank PRefused = 0"

definition work :: "gate \<Rightarrow> nat" where
  "work g = sum_list (map (\<lambda>r. rank (rq_pc r)) (g_requests g))"

lemma work_set_pc:
  assumes "at_pc g i p o' c" "rank c' < rank c" "g_requests g0 = g_requests g"
  shows "work (set_pc i c' g0) < work g"
proof -
  have i: "i < length (g_requests g)" and r: "g_requests g ! i = \<lparr>rq_provider = p, rq_origin = o', rq_pc = c\<rparr>"
    using assms(1) by (auto simp: at_pc_def)
  have "sum_list (map f (xs[i := y])) + f (xs ! i) = sum_list (map f xs) + f y" if "i < length xs"
    for f :: "request \<Rightarrow> nat" and xs y
    using that by (induction xs arbitrary: i) (auto split: nat.split)
  from this [OF i, of "\<lambda>r. rank (rq_pc r)" "(g_requests g ! i)\<lparr>rq_pc := c'\<rparr>"] assms(2,3) r
  show ?thesis by (simp add: work_def set_pc_def)
qed

lemma step_work: "step b g g' \<Longrightarrow> work g' < work g"
  by (induction rule: step.induct)
    (auto intro!: work_set_pc simp: take_instance_def drop_instance_def take_origin_def drop_origin_def)

lemma run_work: "(any_step ^^ n) g g' \<Longrightarrow> n + work g' \<le> work g"
proof (induction n arbitrary: g')
  case (Suc n)
  then obtain h where "(any_step ^^ n) g h" "any_step h g'" by auto
  with Suc.IH [of h] step_work show ?case by (fastforce simp: any_step_def)
qed simp

lemma work_start: "work (start_gate m confs reqs) = 6 * length reqs"
proof -
  have "sum_list (map (\<lambda>r. rank (rq_pc r)) (map (\<lambda>(p, o'). \<lparr>rq_provider = p, rq_origin = o', rq_pc = PStart\<rparr>) reqs))
      = 6 * length reqs"
    by (induction reqs) auto
  then show ?thesis by (simp only: work_def start_gate_simps)
qed

section \<open>Properties\<close>

definition running :: "(request \<Rightarrow> bool) \<Rightarrow> gate \<Rightarrow> nat" where
  "running q g = count (\<lambda>r. q r \<and> rq_pc r = PRunning) (g_requests g)"

lemma count_mono: "(\<And>x. q x \<Longrightarrow> q' x) \<Longrightarrow> count q xs \<le> count q' xs"
  by (induction xs) (auto intro: le_SucI)

lemma running_le: "(\<And>r. rq_pc r = PRunning \<Longrightarrow> q r \<Longrightarrow> q' r) \<Longrightarrow> running q g \<le> count q' (g_requests g)"
  unfolding running_def by (rule count_mono) simp

text \<open>C4: whatever the interleaving of requests, cancellations and refusals, at most the configured
  number of requests of a provider and at most \<open>sharedMax\<close> requests of an origin run at once, and
  the semaphores hold exactly one slot per request that acquired it and has not given it back.\<close>

theorem permits_bound_requests:
  assumes "any_step\<^sup>*\<^sup>* (start_gate m confs reqs) g" "g_instances g p = Some n"
  shows "running (\<lambda>r. rq_provider r = p) g \<le> n \<and> running (\<lambda>r. rq_origin r = o') g \<le> g_shared_max g
    \<and> g_used g p = count (holds_instance p) (g_requests g)
    \<and> g_origin_used g o' = count (holds_origin o') (g_requests g)"
proof -
  note inv = gate_inv_reachable [OF assms(1)]
  have "running (\<lambda>r. rq_provider r = p) g \<le> n"
    using running_le [of "\<lambda>r. rq_provider r = p" "holds_instance p" g] gate_invD(1,3) [OF inv] assms(2)
    by (force simp: holds_instance_def)
  moreover have "running (\<lambda>r. rq_origin r = o') g \<le> g_shared_max g"
    using running_le [of "\<lambda>r. rq_origin r = o'" "holds_origin o'" g] gate_invD(2,4) [OF inv, of o']
    by (force simp: holds_origin_def)
  ultimately show ?thesis using gate_invD(1,2) [OF inv] by simp
qed

theorem permits_bound_requests_witness:
  "running (\<lambda>r. rq_provider r = ''os'') (start_gate 2 [(''os'', 1)] [(''os'', ''a''), (''os'', ''b'')]) \<le> 1"
proof -
  have "g_instances (start_gate 2 [(''os'', 1)] [(''os'', ''a''), (''os'', ''b'')]) ''os'' = Some 1"
    by (simp add: start_gate_def Configure_def NewGate_def positive_or_one_def)
  from permits_bound_requests [OF rtranclp.rtrancl_refl this] show ?thesis by blast
qed

text \<open>C34: the gate cannot deadlock and leaks no permit. In every reachable state with a request that
  is neither done nor refused, some request can move without anyone giving up; when all are done or
  refused, every semaphore is empty; and a run of \<open>n\<close> requests has at most \<open>6 n\<close> steps.\<close>

theorem permits_no_deadlock:
  assumes "(any_step ^^ k) (start_gate m confs reqs) g"
  shows "k \<le> 6 * length reqs
    \<and> (if \<forall>r \<in> set (g_requests g). finished r then \<forall>p o'. g_used g p = 0 \<and> g_origin_used g o' = 0
       else \<exists>g'. step False g g')"
proof -
  have inv: "gate_inv g"
    using assms by (auto intro: gate_inv_reachable relpowp_imp_rtranclp)
  have move: "\<exists>g'. step False g g'" if r: "r \<in> set (g_requests g)" "\<not> finished r" for r
  proof -
    from r(1) obtain i where i: "i < length (g_requests g)" "r = g_requests g ! i" by (auto simp: in_set_conv_nth)
    show ?thesis using at_pcI [OF i(1)] r(2) unfinished_moves [OF inv] by (auto simp: i(2) finished_def)
  qed
  have "k \<le> 6 * length reqs"
    using run_work [OF assms] by (simp add: work_start)
  then show ?thesis using move finished_free [OF inv] by auto
qed

theorem permits_no_deadlock_witness:
  "\<exists>g'. step False (start_gate 1 [(''os'', 1)] [(''os'', ''a''), (''os'', ''b'')]) g'"
  using permits_no_deadlock [of 0 1 "[(''os'', 1)]" "[(''os'', ''a''), (''os'', ''b'')]"]
  by (auto simp: start_gate_simps finished_def split: if_splits)

end
