(* ===== verification/Go_Json.thy ===== *)
theory Go_Json
  imports Go_Text
begin

text \<open>
  The fragment of \<open>encoding/json\<close> the store uses for lists of strings: \<open>json.Marshal\<close> of a \<open>[]string\<close>
  (with HTML escaping, as the package does by default) and \<open>json.Unmarshal\<close> into a nil \<open>[]string\<close>.
  Decoding returns \<open>None\<close> when \<open>Unmarshal\<close> fails and also for a top-level \<open>null\<close>, which leaves the
  slice nil; a \<open>null\<close> element leaves its string empty.
\<close>

section \<open>Encoding\<close>

abbreviation dquote :: char where "dquote \<equiv> CHR 0x22"
abbreviation backslash :: char where "backslash \<equiv> CHR 0x5C"

definition hex_digit :: "nat \<Rightarrow> char" where
  "hex_digit n = (if n < 10 then char_of (48 + n) else char_of (87 + n))"

definition json_escape :: "char \<Rightarrow> string" where
  "json_escape c =
     (let b = byte_val c in
      if c = dquote \<or> c = backslash then [backslash, c]
      else if b = 8 then [backslash, CHR ''b''] else if b = 12 then [backslash, CHR ''f'']
      else if b = 10 then [backslash, CHR ''n''] else if b = 13 then [backslash, CHR ''r'']
      else if b = 9 then [backslash, CHR ''t'']
      else if b < 32 \<or> c = CHR ''<'' \<or> c = CHR ''>'' \<or> c = CHR ''&''
      then backslash # ''u00'' @ [hex_digit (b div 16), hex_digit (b mod 16)]
      else [c])"

text \<open>One rune of a string, as it was read: ASCII, invalid, a line separator, or any other.\<close>

definition json_rune :: "nat \<times> string \<Rightarrow> string" where
  "json_rune rb =
     (let (r, bytes) = rb in
      if r < 128 then concat (map json_escape bytes)
      else if r = 65533 \<and> length bytes = 1 then backslash # ''ufffd''
      else if r = 8232 then backslash # ''u2028'' else if r = 8233 then backslash # ''u2029''
      else bytes)"

definition json_string :: "string \<Rightarrow> string" where
  "json_string s = dquote # concat (map json_rune (runes s)) @ [dquote]"

definition json_strings :: "string list \<Rightarrow> string" where
  "json_strings xs = CHR ''['' # join '','' (map json_string xs) @ '']''"

section \<open>Decoding\<close>

definition json_space :: "char \<Rightarrow> bool" where
  "json_space c \<longleftrightarrow> c = CHR '' '' \<or> byte_val c = (9 :: nat) \<or> byte_val c = (10 :: nat) \<or> byte_val c = (13 :: nat)"

definition skip_space :: "string \<Rightarrow> string" where
  "skip_space s = dropWhile json_space s"

definition hex_val :: "char \<Rightarrow> nat option" where
  "hex_val c =
     (let b = byte_val c in
      if 48 \<le> b \<and> b \<le> 57 then Some (b - 48) else if 97 \<le> b \<and> b \<le> 102 then Some (b - 87)
      else if 65 \<le> b \<and> b \<le> 70 then Some (b - 55) else None)"

definition hex4 :: "string \<Rightarrow> nat option" where
  "hex4 s =
     (case map hex_val (take 4 s) of
        [Some a, Some b, Some c, Some d] \<Rightarrow> Some (((a * 16 + b) * 16 + c) * 16 + d)
      | _ \<Rightarrow> None)"

text \<open>The scanner: the raw text of a string after its opening quote, and what follows it.\<close>

fun scan_str :: "string \<Rightarrow> (string \<times> string) option" where
  "scan_str [] = None"
| "scan_str [c] = (if c = dquote then Some ([], []) else None)"
| "scan_str (c # e # es) =
     (if c = dquote then Some ([], e # es)
      else if c = backslash then
        if e \<in> {CHR ''b'', CHR ''f'', CHR ''n'', CHR ''r'', CHR ''t'', backslash, CHR ''/'', dquote}
        then map_option (\<lambda>(body, rest). (c # e # body, rest)) (scan_str es)
        else if e = CHR ''u'' \<and> hex4 es \<noteq> None
        then map_option (\<lambda>(body, rest). (c # e # body, rest)) (scan_str es)
        else None
      else if byte_val c < (32 :: nat) then None
      else map_option (\<lambda>(body, rest). (c # body, rest)) (scan_str (e # es)))"

definition surrogate :: "nat \<Rightarrow> bool" where
  "surrogate r \<longleftrightarrow> 55296 \<le> r \<and> r < 57344"

definition surrogate_pair :: "nat \<Rightarrow> nat \<Rightarrow> nat option" where
  "surrogate_pair hi lo =
     (if 55296 \<le> hi \<and> hi < 56320 \<and> 56320 \<le> lo \<and> lo < 57344
      then Some ((hi - 55296) * 1024 + (lo - 56320) + 65536) else None)"

definition simple_escape :: "char \<Rightarrow> char" where
  "simple_escape e =
     (if e = CHR ''b'' then char_of (8 :: nat) else if e = CHR ''f'' then char_of (12 :: nat)
      else if e = CHR ''n'' then char_of (10 :: nat) else if e = CHR ''r'' then char_of (13 :: nat)
      else if e = CHR ''t'' then char_of (9 :: nat) else e)"

text \<open>The rest after a low surrogate escape that completes the pair started by \<open>hi\<close>.\<close>

definition pair_tail :: "nat \<Rightarrow> string \<Rightarrow> (nat \<times> string) option" where
  "pair_tail hi s =
     (case s of
        b # u # rest \<Rightarrow>
          if b = backslash \<and> u = CHR ''u'' then
            (case hex4 rest of
               Some lo \<Rightarrow> map_option (\<lambda>r. (r, drop 4 rest)) (surrogate_pair hi lo)
             | None \<Rightarrow> None)
          else None
      | _ \<Rightarrow> None)"

lemma pair_tail_length: "pair_tail hi s = Some (r, rest) \<Longrightarrow> length rest < length s"
  by (auto simp: pair_tail_def split: list.split_asm if_split_asm option.split_asm)

function unquote :: "string \<Rightarrow> string" where
  "unquote [] = []"
| "unquote (c # cs) =
     (if c = backslash then
        case cs of
          [] \<Rightarrow> []
        | e # es \<Rightarrow>
            if e = CHR ''u'' then
              case hex4 es of
                None \<Rightarrow> []
              | Some r \<Rightarrow>
                  if surrogate r then
                    (case pair_tail r (drop 4 es) of
                       Some (r', rest) \<Rightarrow> encode_rune r' @ unquote rest
                     | None \<Rightarrow> encode_rune 65533 @ unquote (drop 4 es))
                  else encode_rune r @ unquote (drop 4 es)
            else simple_escape e # unquote es
      else if byte_val c < (128 :: nat) then c # unquote cs
      else let d = decode_rune (c # cs)
           in encode_rune (fst d) @ unquote (drop (snd d) (c # cs)))"
  by pat_completeness auto
termination
proof (relation "measure length", goal_cases)
  case (7 c cs d)
  then show ?case using decode_rune_width [of "c # cs"] by (auto simp: Suc_le_eq simp del: decode_rune.simps)
qed (auto dest!: pair_tail_length)

declare unquote.simps(2) [simp del]

text \<open>One element: a string or \<open>null\<close>.\<close>

definition parse_element :: "string \<Rightarrow> (string \<times> string) option" where
  "parse_element s =
     (case s of
        [] \<Rightarrow> None
      | c # cs \<Rightarrow>
          if c = dquote then map_option (\<lambda>(body, rest). (unquote body, rest)) (scan_str cs)
          else if has_prefix s ''null'' then Some ([], drop 4 s) else None)"

text \<open>
  The elements after the opening bracket, up to the closing one; the first argument bounds the
  number of elements, and the length of the text is always enough.
\<close>

fun parse_elements :: "nat \<Rightarrow> string \<Rightarrow> (string list \<times> string) option" where
  "parse_elements 0 s = None"
| "parse_elements (Suc n) s =
     (case parse_element (skip_space s) of
        None \<Rightarrow> None
      | Some (x, rest) \<Rightarrow>
          (case skip_space rest of
             [] \<Rightarrow> None
           | c # cs \<Rightarrow>
               if c = CHR '']'' then Some ([x], cs)
               else if c = CHR '','' then map_option (\<lambda>(xs, r). (x # xs, r)) (parse_elements n cs)
               else None))"

definition parse_json_strings :: "string \<Rightarrow> string list option" where
  "parse_json_strings s =
     (case skip_space s of
        [] \<Rightarrow> None
      | c # cs \<Rightarrow>
          if c \<noteq> CHR ''['' then None
          else let inner = skip_space cs;
                   res = (if take 1 inner = '']'' then Some ([], drop 1 inner)
                          else parse_elements (length inner) inner)
               in case res of
                    Some (xs, rest) \<Rightarrow> if skip_space rest = [] then Some xs else None
                  | None \<Rightarrow> None)"

section \<open>Round trip\<close>

abbreviation ascii :: "string \<Rightarrow> bool" where
  "ascii s \<equiv> \<forall>c \<in> set s. byte_val c < (128 :: nat)"

lemma runes_ascii: "ascii s \<Longrightarrow> runes s = map (\<lambda>c. (byte_val c, [c])) s"
  by (induction s) auto

lemma json_string_ascii: "ascii s \<Longrightarrow> json_string s = dquote # concat (map json_escape s) @ [dquote]"
  by (induction s) (simp_all add: json_string_def runes_ascii json_rune_def)

lemma hex_val_digit: "n < 16 \<Longrightarrow> hex_val (hex_digit n) = Some n"
  by (auto simp: hex_val_def hex_digit_def Let_def)

lemma hex_digit_plain: "n < 16 \<Longrightarrow> hex_digit n \<noteq> dquote \<and> hex_digit n \<noteq> backslash \<and> \<not> byte_val (hex_digit n) < (32 :: nat)"
proof -
  assume "n < 16"
  then have v: "byte_val (hex_digit n) \<ge> (48 :: nat)" "byte_val (hex_digit n) \<noteq> (92 :: nat)"
    by (auto simp: hex_digit_def)
  then have "hex_digit n \<noteq> dquote" "hex_digit n \<noteq> backslash" by auto
  with v show ?thesis by simp
qed

lemma simple_escapes:
  "simple_escape (CHR ''b'') = char_of (8 :: nat)" "simple_escape (CHR ''f'') = char_of (12 :: nat)"
  "simple_escape (CHR ''n'') = char_of (10 :: nat)" "simple_escape (CHR ''r'') = char_of (13 :: nat)"
  "simple_escape (CHR ''t'') = char_of (9 :: nat)" "simple_escape dquote = dquote"
  "simple_escape backslash = backslash"
  by (simp_all add: simple_escape_def)

lemma char_of_byte: "byte_val c = n \<Longrightarrow> char_of n = c" for n :: nat
  by (metis char_of_char)

lemma json_escape_cases:
  assumes "byte_val c < (128 :: nat)"
  obtains (plain) "json_escape c = [c]" "c \<noteq> dquote" "c \<noteq> backslash" "\<not> byte_val c < (32 :: nat)"
  | (simple) e where "json_escape c = [backslash, e]" "e \<noteq> CHR ''u''" "simple_escape e = c"
      "e \<in> {CHR ''b'', CHR ''f'', CHR ''n'', CHR ''r'', CHR ''t'', backslash, CHR ''/'', dquote}"
  | (hex) "json_escape c = backslash # ''u00'' @ [hex_digit (byte_val c div 16), hex_digit (byte_val c mod 16)]"
proof -
  consider "c = dquote \<or> c = backslash" | "byte_val c \<in> {8, 12, 10, 13, 9 :: nat}"
    | "json_escape c = [c]" "c \<noteq> dquote" "c \<noteq> backslash" "\<not> byte_val c < (32 :: nat)"
    | "json_escape c = backslash # ''u00'' @ [hex_digit (byte_val c div 16), hex_digit (byte_val c mod 16)]"
  proof (cases "(c = dquote \<or> c = backslash) \<or> byte_val c \<in> {8, 12, 10, 13, 9 :: nat}")
    case True
    with that(1,2) show thesis by blast
  next
    case False
    then have e: "json_escape c =
      (if byte_val c < (32 :: nat) \<or> c = CHR ''<'' \<or> c = CHR ''>'' \<or> c = CHR ''&''
       then backslash # ''u00'' @ [hex_digit (byte_val c div 16), hex_digit (byte_val c mod 16)] else [c])"
      by (simp add: json_escape_def Let_def)
    show thesis
    proof (cases "byte_val c < (32 :: nat) \<or> c = CHR ''<'' \<or> c = CHR ''>'' \<or> c = CHR ''&''")
      case True
      then have "json_escape c = backslash # ''u00'' @ [hex_digit (byte_val c div 16), hex_digit (byte_val c mod 16)]"
        unfolding e by (rule if_P)
      then show thesis by (rule that(4))
    next
      case 2: False
      then have "json_escape c = [c]" unfolding e by (rule if_not_P)
      with 2 False that(3) show thesis by blast
    qed
  qed
  then show thesis
  proof cases
    case 1
    then show thesis by (intro simple [of c]) (auto simp: json_escape_def simple_escape_def)
  next
    case 2
    then show thesis
      by (auto simp: json_escape_def Let_def simple_escapes char_of_byte intro!: simple split: if_splits)
  qed (fact plain hex)+
qed

lemma scan_str_plain:
  "\<lbrakk>c \<noteq> dquote; c \<noteq> backslash; \<not> byte_val c < (32 :: nat); t \<noteq> []\<rbrakk>
   \<Longrightarrow> scan_str (c # t) = map_option (\<lambda>(body, rest). (c # body, rest)) (scan_str t)"
  by (cases t) auto

lemma scan_json_escape:
  assumes "byte_val c < (128 :: nat)" "t \<noteq> []"
  shows "scan_str (json_escape c @ t) = map_option (\<lambda>(body, rest). (json_escape c @ body, rest)) (scan_str t)"
  using assms(1)
proof (cases rule: json_escape_cases)
  case plain
  then show ?thesis using assms(2) by (simp add: scan_str_plain)
next
  case (simple e)
  then show ?thesis by (simp del: insert_iff)
next
  case hex
  let ?h = "hex_digit (byte_val c div 16)" and ?l = "hex_digit (byte_val c mod 16)"
  have h: "byte_val c div 16 < (16 :: nat)" using assms(1) by simp
  have "hex4 (CHR ''0'' # CHR ''0'' # ?h # ?l # t) \<noteq> None"
    using h by (simp add: hex4_def hex_val_digit) (simp add: hex_val_def)
  then show ?thesis
    using assms(2) hex_digit_plain [OF h] hex_digit_plain [of "byte_val c mod 16"]
    by (simp add: hex scan_str_plain option.map_comp comp_def case_prod_beta del: scan_str.simps(3))
      (simp add: scan_str_plain option.map_comp comp_def case_prod_beta, cases "scan_str t"; simp add: case_prod_beta)
qed

lemma scan_json_string:
  "ascii s \<Longrightarrow> scan_str (concat (map json_escape s) @ dquote # rest) = Some (concat (map json_escape s), rest)"
proof (induction s)
  case Nil
  show ?case by (cases rest) simp_all
next
  case (Cons c s)
  then show ?case by (simp add: scan_json_escape)
qed

lemma unquote_plain: "\<lbrakk>c \<noteq> backslash; byte_val c < (128 :: nat)\<rbrakk> \<Longrightarrow> unquote (c # t) = c # unquote t"
  by (simp add: unquote.simps(2))

lemma unquote_simple: "e \<noteq> CHR ''u'' \<Longrightarrow> unquote (backslash # e # t) = simple_escape e # unquote t"
  by (simp add: unquote.simps(2))

lemma unquote_hex:
  assumes "byte_val c < (128 :: nat)"
  shows "unquote (backslash # ''u00'' @ hex_digit (byte_val c div 16) # hex_digit (byte_val c mod 16) # t) = c # unquote t"
proof -
  have "byte_val c div 16 < (16 :: nat)" using assms by simp
  then have "hex4 (''00'' @ hex_digit (byte_val c div 16) # hex_digit (byte_val c mod 16) # t) = Some (byte_val c)"
    by (simp add: hex4_def hex_val_digit) (simp add: hex_val_def)
  with assms show ?thesis
    by (simp add: unquote.simps(2) surrogate_def encode_rune_def byte_of_def)
qed

lemma unquote_json_escape: "byte_val c < (128 :: nat) \<Longrightarrow> unquote (json_escape c @ t) = c # unquote t"
  by (frule json_escape_cases) (use unquote_hex [of c t] in \<open>auto simp: unquote_plain unquote_simple\<close>)

lemma unquote_json: "ascii s \<Longrightarrow> unquote (concat (map json_escape s)) = s"
  by (induction s) (simp_all add: unquote_json_escape)

lemma parse_json_string: "ascii s \<Longrightarrow> parse_element (json_string s @ rest) = Some (s, rest)"
  by (simp add: parse_element_def json_string_ascii scan_json_string unquote_json)

lemma skip_space_string [simp]: "skip_space (json_string s @ t) = json_string s @ t"
  by (simp add: skip_space_def json_string_def json_space_def)

lemma parse_elements_json:
  "\<lbrakk>xs \<noteq> []; \<forall>x \<in> set xs. ascii x; length xs \<le> n\<rbrakk>
   \<Longrightarrow> parse_elements n (join '','' (map json_string xs) @ CHR '']'' # rest) = Some (xs, rest)"
proof (induction xs arbitrary: n)
  case (Cons x xs)
  then obtain m where n: "n = Suc m" by (cases n) auto
  have sp: "skip_space (CHR '','' # t) = CHR '','' # t" "skip_space (CHR '']'' # t) = CHR '']'' # t" for t
    by (simp_all add: skip_space_def json_space_def)
  show ?case
  proof (cases xs)
    case Nil
    with Cons.prems show ?thesis by (simp add: n parse_json_string sp)
  next
    case (Cons y ys)
    with Cons.prems Cons.IH [of m] show ?thesis by (simp add: n parse_json_string sp)
  qed
qed simp

lemma length_join_json: "length xs \<le> length (join '','' (map json_string xs) @ t)"
proof (induction xs)
  case (Cons x xs)
  then show ?case by (cases xs) (auto simp: json_string_def)
qed simp

text \<open>What \<open>json.Marshal\<close> writes for a list of ASCII strings, \<open>json.Unmarshal\<close> reads back.\<close>

lemma json_strings_roundtrip:
  assumes "\<forall>x \<in> set xs. ascii x"
  shows "parse_json_strings (json_strings xs) = Some xs"
proof (cases xs)
  case Nil
  then show ?thesis by (simp add: parse_json_strings_def json_strings_def skip_space_def json_space_def)
next
  case (Cons y ys)
  let ?inner = "join '','' (map json_string xs) @ '']''"
  have start: "\<exists>t. ?inner = json_string y @ t" using Cons by (cases ys) auto
  then have "skip_space ?inner = ?inner" by auto
  moreover have "take 1 ?inner \<noteq> '']''"
  proof -
    from start obtain t where "?inner = dquote # t" by (auto simp: json_string_def)
    then show ?thesis unfolding \<open>?inner = dquote # t\<close> by simp
  qed
  moreover have "parse_elements (length ?inner) ?inner = Some (xs, [])"
    by (rule parse_elements_json) (use assms Cons length_join_json [of xs "'']''"] in simp_all)
  moreover have "skip_space (json_strings xs) = json_strings xs"
    by (simp add: json_strings_def skip_space_def json_space_def)
  ultimately show ?thesis
    by (simp add: parse_json_strings_def json_strings_def Let_def skip_space_def del: take_Suc_Cons One_nat_def)
qed

section \<open>Validity\<close>

text \<open>
  The byte-by-byte scanner behind \<open>json.Valid\<close>: a state and the stack of open arrays and objects, of which
  at most 10000 may be open.
\<close>

datatype json_open = ObjectKey | ObjectValue | ArrayValue

datatype json_state =
    BeginValue bool | BeginString bool | EndValue | EndTop | InString | InStringEsc | InStringEscU nat
  | NumNeg | NumInt | NumZero | NumDot | NumFraction | NumE | NumESign | NumExponent | Literal string | ScanError

definition json_begin :: "char \<Rightarrow> json_open list \<Rightarrow> json_state \<times> json_open list" where
  "json_begin c stack =
     (if c = CHR ''{'' \<and> length stack < 10000 then (BeginString True, ObjectKey # stack)
      else if c = CHR ''['' \<and> length stack < 10000 then (BeginValue True, ArrayValue # stack)
      else if c = dquote then (InString, stack)
      else if c = CHR ''-'' then (NumNeg, stack)
      else if c = CHR ''0'' then (NumZero, stack)
      else if c = CHR ''t'' then (Literal ''rue'', stack)
      else if c = CHR ''f'' then (Literal ''alse'', stack)
      else if c = CHR ''n'' then (Literal ''ull'', stack)
      else if is_dec c then (NumInt, stack) else (ScanError, stack))"

definition json_close :: "json_open list \<Rightarrow> json_state \<times> json_open list" where
  "json_close stack = (if stack = [] then EndTop else EndValue, stack)"

definition json_end :: "char \<Rightarrow> json_open list \<Rightarrow> json_state \<times> json_open list" where
  "json_end c stack =
     (if stack = [] then (if json_space c then EndTop else ScanError, stack)
      else if json_space c then (EndValue, stack)
      else case stack of
             [] \<Rightarrow> (ScanError, stack)
           | ObjectKey # rest \<Rightarrow> if c = CHR '':'' then (BeginValue False, ObjectValue # rest) else (ScanError, stack)
           | ObjectValue # rest \<Rightarrow>
               if c = CHR '','' then (BeginString False, ObjectKey # rest)
               else if c = CHR ''}'' then json_close rest else (ScanError, stack)
           | ArrayValue # rest \<Rightarrow>
               if c = CHR '','' then (BeginValue False, stack)
               else if c = CHR '']'' then json_close rest else (ScanError, stack))"

fun json_step :: "char \<Rightarrow> json_state \<times> json_open list \<Rightarrow> json_state \<times> json_open list" where
  "json_step c (BeginValue first, stack) =
     (if json_space c then (BeginValue first, stack)
      else if first \<and> c = CHR '']'' then json_end c stack else json_begin c stack)"
| "json_step c (BeginString first, stack) =
     (if json_space c then (BeginString first, stack)
      else if first \<and> c = CHR ''}'' then json_close (tl stack)
      else if c = dquote then (InString, stack) else (ScanError, stack))"
| "json_step c (EndValue, stack) = json_end c stack"
| "json_step c (EndTop, stack) = (if json_space c then EndTop else ScanError, stack)"
| "json_step c (InString, stack) =
     (if c = dquote then (EndValue, stack) else if c = backslash then (InStringEsc, stack)
      else if byte_val c < (32 :: nat) then (ScanError, stack) else (InString, stack))"
| "json_step c (InStringEsc, stack) =
     (if c \<in> {CHR ''b'', CHR ''f'', CHR ''n'', CHR ''r'', CHR ''t'', backslash, CHR ''/'', dquote} then (InString, stack)
      else if c = CHR ''u'' then (InStringEscU 3, stack) else (ScanError, stack))"
| "json_step c (InStringEscU k, stack) =
     (if hex_val c = None then (ScanError, stack) else if k = 0 then (InString, stack) else (InStringEscU (k - 1), stack))"
| "json_step c (NumNeg, stack) =
     (if c = CHR ''0'' then (NumZero, stack) else if is_dec c then (NumInt, stack) else (ScanError, stack))"
| "json_step c (NumInt, stack) =
     (if is_dec c then (NumInt, stack) else if c = CHR ''.'' then (NumDot, stack)
      else if c = CHR ''e'' \<or> c = CHR ''E'' then (NumE, stack) else json_end c stack)"
| "json_step c (NumZero, stack) =
     (if c = CHR ''.'' then (NumDot, stack) else if c = CHR ''e'' \<or> c = CHR ''E'' then (NumE, stack) else json_end c stack)"
| "json_step c (NumDot, stack) = (if is_dec c then NumFraction else ScanError, stack)"
| "json_step c (NumFraction, stack) =
     (if is_dec c then (NumFraction, stack) else if c = CHR ''e'' \<or> c = CHR ''E'' then (NumE, stack) else json_end c stack)"
| "json_step c (NumE, stack) =
     (if c = CHR ''+'' \<or> c = CHR ''-'' then (NumESign, stack) else if is_dec c then (NumExponent, stack) else (ScanError, stack))"
| "json_step c (NumESign, stack) = (if is_dec c then NumExponent else ScanError, stack)"
| "json_step c (NumExponent, stack) = (if is_dec c then (NumExponent, stack) else json_end c stack)"
| "json_step c (Literal [], stack) = json_end c stack"
| "json_step c (Literal (l # ls), stack) = (if c = l then (if ls = [] then EndValue else Literal ls) else ScanError, stack)"
| "json_step c (ScanError, stack) = (ScanError, stack)"

text \<open>At the end of the text the scanner is fed one more space and must then have seen a whole value.\<close>

definition json_Valid :: "string \<Rightarrow> bool" where
  "json_Valid s = (fst (json_step (CHR '' '') (fold json_step s (BeginValue False, []))) = EndTop)"

end
