(* ===== verification/Search_Queue.thy ===== *)
theory Search_Queue
  imports Go_Json Store_Types
    "HOL-Library.Char_ord" "HOL-Library.List_Lexorder" "HOL-Library.Product_Lexorder"
begin

text \<open>
  The search queue of \<open>internal/store\<close> (\<open>repository.go\<close>, \<open>search_claim.go\<close>, \<open>lease_release.go\<close>,
  \<open>upgrade_search.go\<close>, \<open>provider_resume.go\<close>, \<open>search_history.go\<close>, \<open>user_rejection.go\<close>): the table
  \<open>search_states\<close> and the tables its statements read or write with it. A table is the list of its
  rows; an operation is one transaction, so it either returns the new tables or an error and changes
  nothing. The statements themselves are taken to succeed: an operation fails here exactly where the
  Go code checks a condition, a row count or a foreign key. Times in the tables are nanoseconds since
  the Unix epoch.
\<close>

section \<open>Tables\<close>

record media_row =
  mr_id :: int
  mr_instance :: string
  mr_kind :: media_kind
  mr_deleted :: bool
  mr_unsupported :: string
  mr_title :: string
  mr_series_id :: int
  mr_year :: int
  mr_season :: int
  mr_episode :: int
  mr_episode_end :: int
  mr_path :: string
  mr_file_id :: int
  mr_size :: int
  mr_mod_time_ns :: int

record search_row =
  sr_media_id :: int
  sr_language :: language
  sr_state :: string
  sr_attempt :: int
  sr_failure_attempt :: int
  sr_next_attempt_at_ns :: int
  sr_queue_order_ns :: int
  sr_last_outcome :: string
  sr_lease_owner :: "string option"
  sr_lease_until_ns :: "int option"
  sr_priority :: search_priority
  sr_rerun_requested :: bool
  sr_replace_installed :: bool
  sr_resume_providers_json :: string
  sr_resume_route_signature :: string
  sr_resume_saved_at_ns :: int
  sr_instance_rank :: int
  sr_sort_title :: string
  sr_sort_series :: int
  sr_sort_season :: int
  sr_sort_episode :: int

record history_row =
  hr_media_id :: int
  hr_instance :: string
  hr_kind :: media_kind
  hr_file_id :: int
  hr_language :: language
  hr_outcome :: string
  hr_detail :: SearchHistoryDetail
  hr_finished_at_ns :: int

record CandidateRejection =
  rj_media_id :: int
  rj_language :: language
  rj_provider_id :: string
  rj_result_id :: string
  rj_candidate_signature :: string
  rj_artifact_checksum :: string
  rj_reason_code :: string
  rj_tool_signature :: string
  rj_media_path :: string
  rj_media_file_id :: int
  rj_media_size :: int
  rj_media_mod_time_ns :: int
  rj_rejected_at :: gotime

record queue_db =
  q_instances :: "(string \<times> int) list"
  q_media :: "media_row list"
  q_searches :: "search_row list"
  q_history :: "history_row list"
  q_rejections :: "CandidateRejection list"

text \<open>The errors are told apart by their text only.\<close>

type_synonym store_error = string

abbreviation pending :: string where "pending \<equiv> ''pending''"
abbreviation complete :: string where "complete \<equiv> ''complete''"

definition find_media :: "queue_db \<Rightarrow> int \<Rightarrow> media_row option" where
  "find_media q media_id = find (\<lambda>m. mr_id m = media_id) (q_media q)"

definition search_key :: "int \<Rightarrow> language \<Rightarrow> search_row \<Rightarrow> bool" where
  "search_key media_id language r \<longleftrightarrow> sr_media_id r = media_id \<and> sr_language r = language"

definition owned_by :: "string \<Rightarrow> search_row \<Rightarrow> bool" where
  "owned_by job_id r \<longleftrightarrow> sr_lease_owner r = Some job_id"

text \<open>\<open>lease_until_ns IS NULL OR lease_until_ns <= now\<close>\<close>

definition lease_free :: "int \<Rightarrow> search_row \<Rightarrow> bool" where
  "lease_free now_ns r \<longleftrightarrow> (case sr_lease_until_ns r of None \<Rightarrow> True | Some u \<Rightarrow> u \<le> now_ns)"

section \<open>Inserting a search\<close>

text \<open>SQLite's \<open>lower\<close> folds ASCII letters only.\<close>

definition ascii_lower :: "string \<Rightarrow> string" where
  "ascii_lower s = map (\<lambda>c. if 65 \<le> byte_val c \<and> byte_val c \<le> (90 :: nat) then char_of (byte_val c + 32 :: nat) else c) s"

definition sort_season :: "media_row \<Rightarrow> int" where
  "sort_season m =
     (if mr_kind m = MediaMovie then mr_year m else if mr_season m = 0 then 1000000 else mr_season m)"

definition instance_priority :: "queue_db \<Rightarrow> string \<Rightarrow> int" where
  "instance_priority q name = (case map_of (q_instances q) name of Some p \<Rightarrow> p | None \<Rightarrow> 0)"

text \<open>The trigger \<open>search_states_queue_order\<close>, which copies the media order onto a new row.\<close>

definition queue_order_trigger :: "queue_db \<Rightarrow> search_row \<Rightarrow> search_row" where
  "queue_order_trigger q r =
     (case find_media q (sr_media_id r) of
        None \<Rightarrow> r
      | Some m \<Rightarrow> r\<lparr>sr_instance_rank := instance_priority q (mr_instance m),
                  sr_sort_title := ascii_lower (mr_title m), sr_sort_series := mr_series_id m,
                  sr_sort_season := sort_season m, sr_sort_episode := mr_episode m\<rparr>)"

text \<open>A row with the columns every insert gives and the defaults of the schema for the others.\<close>

definition new_search :: "int \<Rightarrow> language \<Rightarrow> string \<Rightarrow> int \<Rightarrow> int \<Rightarrow> search_priority \<Rightarrow> search_row" where
  "new_search media_id language state next order prio =
     \<lparr>sr_media_id = media_id, sr_language = language, sr_state = state, sr_attempt = 0,
      sr_failure_attempt = 0, sr_next_attempt_at_ns = next, sr_queue_order_ns = order,
      sr_last_outcome = [], sr_lease_owner = None, sr_lease_until_ns = None, sr_priority = prio,
      sr_rerun_requested = False, sr_replace_installed = False, sr_resume_providers_json = ''[]'',
      sr_resume_route_signature = [], sr_resume_saved_at_ns = 0, sr_instance_rank = 0,
      sr_sort_title = [], sr_sort_series = 0, sr_sort_season = 0, sr_sort_episode = 0\<rparr>"

text \<open>
  \<open>INSERT ... ON CONFLICT(media_id, language) DO UPDATE SET f WHERE p\<close>; the foreign key on \<open>media\<close>
  fails the insert of a search without media.
\<close>

definition upsert_search ::
  "queue_db \<Rightarrow> search_row \<Rightarrow> (search_row \<Rightarrow> bool) \<Rightarrow> (search_row \<Rightarrow> search_row) \<Rightarrow> (store_error, queue_db) result" where
  "upsert_search q new p f =
     (if find_media q (sr_media_id new) = None then Err ''FOREIGN KEY constraint failed''
      else Ok (q\<lparr>q_searches := sql_upsert (search_key (sr_media_id new) (sr_language new)) p f
                  (queue_order_trigger q new) (q_searches q)\<rparr>))"

abbreviation clear_resume :: "search_row \<Rightarrow> search_row" where
  "clear_resume r \<equiv> r\<lparr>sr_resume_providers_json := ''[]'', sr_resume_route_signature := []\<rparr>"

definition UpsertSearchStateWithPriority ::
  "int \<Rightarrow> language \<Rightarrow> gotime \<Rightarrow> search_priority \<Rightarrow> queue_db \<Rightarrow> (store_error, queue_db) result" where
  "UpsertSearchStateWithPriority media_id language next prio q =
     (if \<not> validSearchPriority prio then Err ''invalid search priority''
      else upsert_search q (new_search media_id language pending (unix_nano next) (unix_nano next) prio) (\<lambda>_. True)
        (\<lambda>r. clear_resume (r\<lparr>sr_state := pending, sr_attempt := 0, sr_failure_attempt := 0,
                sr_next_attempt_at_ns := unix_nano next, sr_queue_order_ns := unix_nano next,
                sr_priority := prio, sr_rerun_requested := False, sr_lease_owner := None,
                sr_lease_until_ns := None\<rparr>)))"

definition SettlePendingSearch ::
  "int \<Rightarrow> language \<Rightarrow> string \<Rightarrow> gotime \<Rightarrow> string \<Rightarrow> queue_db \<Rightarrow> queue_db" where
  "SettlePendingSearch media_id language outcome now owner q =
     q\<lparr>q_searches := sql_update
        (\<lambda>r. search_key media_id language r \<and> sr_state r = pending
           \<and> (lease_free (unix_nano now) r \<or> owned_by owner r \<and> owner \<noteq> [] \<and> \<not> sr_rerun_requested r))
        (\<lambda>r. clear_resume (r\<lparr>sr_state := complete, sr_attempt := 0, sr_failure_attempt := 0,
                sr_next_attempt_at_ns := 0, sr_queue_order_ns := 0, sr_last_outcome := outcome,
                sr_rerun_requested := False, sr_lease_owner := None, sr_lease_until_ns := None\<rparr>))
        (q_searches q)\<rparr>"

definition ClearSearchResume :: "int \<Rightarrow> language \<Rightarrow> queue_db \<Rightarrow> queue_db" where
  "ClearSearchResume media_id language q =
     q\<lparr>q_searches := sql_update (search_key media_id language) clear_resume (q_searches q)\<rparr>"

definition validUnsupportedReason :: "string \<Rightarrow> bool" where
  "validUnsupportedReason reason \<longleftrightarrow> reason = [] \<or> reason = UnsupportedMultiEpisode"

section \<open>Saved provider progress\<close>

text \<open>
  The policy a repository value carries: the claim scope (instances and languages) and the bounds of
  the resume lists per language; \<open>None\<close> is the nil pointer or map. The field \<open>rp_digest\<close> is the
  digest \<open>ProviderResumeSignature\<close> takes as an argument.
\<close>

record resume_bound =
  rb_signature :: string
  rb_json_bytes :: nat
  rb_providers :: "string list"

record repository =
  rp_scope :: "(string list \<times> language list) option"
  rp_routes :: "(language \<rightharpoonup> resume_bound) option"
  rp_digest :: "string \<Rightarrow> string"

definition row_fingerprint :: "media_row \<Rightarrow> MediaFingerprint" where
  "row_fingerprint m = \<lparr>fp_path = mr_path m, fp_file_id = mr_file_id m, fp_size = mr_size m,
     fp_mod_time = from_unix (mr_mod_time_ns m)\<rparr>"

definition currentResumeScope :: "repository \<Rightarrow> language \<Rightarrow> media_row \<Rightarrow> string \<Rightarrow> bool" where
  "currentResumeScope rp language m signature =
     (case rp_routes rp of
        None \<Rightarrow> True
      | Some routes \<Rightarrow>
          (case routes language of
             None \<Rightarrow> False
           | Some route \<Rightarrow> signature = ProviderResumeSignature (rp_digest rp) (rb_signature route) (row_fingerprint m)))"

definition resume_bound_of :: "repository \<Rightarrow> language \<Rightarrow> resume_bound option" where
  "resume_bound_of rp language = (case rp_routes rp of None \<Rightarrow> None | Some routes \<Rightarrow> routes language)"

definition validateResumeProviders :: "string list \<Rightarrow> bool" where
  "validateResumeProviders providers \<longleftrightarrow> list_all (\<lambda>p. trim_space p \<noteq> []) providers \<and> distinct providers"

definition decodeResumeProviders :: "string \<Rightarrow> string list option" where
  "decodeResumeProviders encoded =
     (case parse_json_strings encoded of
        None \<Rightarrow> None
      | Some providers \<Rightarrow> if validateResumeProviders providers then Some providers else None)"

definition encodeResumeProviders :: "string list \<Rightarrow> string option" where
  "encodeResumeProviders providers =
     (if validateResumeProviders providers then Some (json_strings providers) else None)"

definition decodeSearchResume :: "repository \<Rightarrow> language \<Rightarrow> string \<Rightarrow> string list option" where
  "decodeSearchResume rp language encoded =
     (case resume_bound_of rp language of
        None \<Rightarrow> decodeResumeProviders encoded
      | Some bound \<Rightarrow>
          if length encoded > rb_json_bytes bound then None
          else (case decodeResumeProviders encoded of
                  None \<Rightarrow> None
                | Some providers \<Rightarrow>
                    if length providers > card (set (rb_providers bound))
                       \<or> \<not> list_all (\<lambda>p. p \<in> set (rb_providers bound)) providers
                    then None else Some providers))"

definition WithProviderResumeRoutes :: "(language \<rightharpoonup> string \<times> string list) \<Rightarrow> repository \<Rightarrow> repository" where
  "WithProviderResumeRoutes routes rp =
     rp\<lparr>rp_routes := Some (\<lambda>language. map_option
          (\<lambda>(signature, providers). \<lparr>rb_signature = signature,
             rb_json_bytes = length (json_strings providers), rb_providers = providers\<rparr>)
          (routes language))\<rparr>"

definition WithSearchScope :: "string list \<Rightarrow> language list \<Rightarrow> repository \<Rightarrow> repository" where
  "WithSearchScope instances languages rp = rp\<lparr>rp_scope := Some (instances, languages)\<rparr>"

section \<open>Leasing\<close>

definition in_scope :: "repository \<Rightarrow> media_row \<Rightarrow> search_row \<Rightarrow> bool" where
  "in_scope rp m r \<longleftrightarrow>
     (case rp_scope rp of
        None \<Rightarrow> True
      | Some (instances, languages) \<Rightarrow> mr_instance m \<in> set instances \<and> sr_language r \<in> set languages)"

definition on_route :: "media_row \<Rightarrow> search_row \<Rightarrow> RouteKey \<Rightarrow> bool" where
  "on_route m r route \<longleftrightarrow>
     sr_language r = rk_language route \<and> mr_kind m = rk_kind route
     \<and> (rk_ranges_only route \<longrightarrow> mr_episode_end m > mr_episode m)"

definition search_due :: "repository \<Rightarrow> queue_db \<Rightarrow> int \<Rightarrow> RouteKey list \<Rightarrow> search_row \<Rightarrow> bool" where
  "search_due rp q now_ns paused r \<longleftrightarrow>
     (case find_media q (sr_media_id r) of
        None \<Rightarrow> False
      | Some m \<Rightarrow> \<not> mr_deleted m \<and> sr_state r = pending \<and> sr_next_attempt_at_ns r \<le> now_ns
          \<and> lease_free now_ns r \<and> in_scope rp m r \<and> \<not> list_ex (on_route m r) paused)"

text \<open>The key of the \<open>ORDER BY\<close>; the descending columns are negated.\<close>

definition lease_key :: "search_row \<Rightarrow> int \<times> int \<times> int \<times> int \<times> string \<times> int \<times> int \<times> int \<times> int \<times> string" where
  "lease_key r =
     (- sr_priority r, - sr_instance_rank r, sr_queue_order_ns r, sr_next_attempt_at_ns r, sr_sort_title r,
      sr_sort_series r, sr_sort_season r, sr_sort_episode r, sr_media_id r, sr_language r)"

record due =
  du_row :: search_row
  du_resume_providers :: "string list"
  du_resume_signature :: string
  du_resume_saved_at :: gotime
  du_malformed_resume :: bool

text \<open>One selected row, with its saved provider progress checked.\<close>

definition scan_due :: "repository \<Rightarrow> queue_db \<Rightarrow> gotime \<Rightarrow> search_row \<Rightarrow> due" where
  "scan_due rp q now r =
     (let savedAt = sr_resume_saved_at_ns r;
          expired = (savedAt = 0 \<or> now - from_unix savedAt \<ge> ResumeProvidersMaxAge);
          stale = (expired \<or> (case find_media q (sr_media_id r) of
                     None \<Rightarrow> True
                   | Some m \<Rightarrow> \<not> currentResumeScope rp (sr_language r) m (sr_resume_route_signature r)));
          encoded = (if stale then ''[]'' else sr_resume_providers_json r);
          signature = (if stale then [] else sr_resume_route_signature r);
          saved = (if stale then zero_time else from_unix savedAt)
      in case decodeSearchResume rp (sr_language r) encoded of
           Some providers \<Rightarrow> \<lparr>du_row = r, du_resume_providers = providers, du_resume_signature = signature,
                              du_resume_saved_at = saved, du_malformed_resume = False\<rparr>
         | None \<Rightarrow> \<lparr>du_row = r, du_resume_providers = [], du_resume_signature = [],
                     du_resume_saved_at = zero_time, du_malformed_resume = True\<rparr>)"

definition lease_of :: "string \<Rightarrow> gotime \<Rightarrow> due \<Rightarrow> SearchLease" where
  "lease_of job_id leaseUntil item =
     \<lparr>sl_media_id = sr_media_id (du_row item), sl_language = sr_language (du_row item), sl_job_id = job_id,
      sl_attempt = sr_attempt (du_row item), sl_failure_attempt = sr_failure_attempt (du_row item),
      sl_lease_until = leaseUntil, sl_priority = sr_priority (du_row item),
      sl_resume_providers = du_resume_providers item, sl_resume_signature = du_resume_signature item,
      sl_resume_saved_at = du_resume_saved_at item, sl_replace_installed = sr_replace_installed (du_row item)\<rparr>"

text \<open>One turn of the claim loop: \<open>fresh k\<close> is the \<open>k\<close>-th value of \<open>randomID\<close>.\<close>

definition claim_due ::
  "(nat \<Rightarrow> string) \<Rightarrow> gotime \<Rightarrow> gotime \<Rightarrow> nat \<times> due \<Rightarrow> SearchLease list \<times> search_row list \<Rightarrow> SearchLease list \<times> search_row list" where
  "claim_due fresh now leaseUntil numbered acc =
     (let (k, item) = numbered; (leases, rows) = acc;
          key = search_key (sr_media_id (du_row item)) (sr_language (du_row item));
          rows1 = (if du_malformed_resume item
                   then sql_update key (\<lambda>r. (clear_resume r)\<lparr>sr_resume_saved_at_ns := 0\<rparr>) rows else rows);
          claim = (\<lambda>r. key r \<and> lease_free (unix_nano now) r);
          rows2 = sql_update claim (\<lambda>r. r\<lparr>sr_lease_owner := Some (fresh k),
                    sr_lease_until_ns := Some (unix_nano leaseUntil), sr_rerun_requested := False\<rparr>) rows1
      in (if sql_count claim rows1 = 1 then leases @ [lease_of (fresh k) leaseUntil item] else leases, rows2))"

definition due_items :: "repository \<Rightarrow> queue_db \<Rightarrow> gotime \<Rightarrow> int \<Rightarrow> RouteKey list \<Rightarrow> due list" where
  "due_items rp q now limit paused =
     map (scan_due rp q now)
       (take (nat limit) (sort_key lease_key (filter (search_due rp q (unix_nano now) paused) (q_searches q))))"

definition LeaseDueSearchesExcept ::
  "repository \<Rightarrow> (nat \<Rightarrow> string) \<Rightarrow> gotime \<Rightarrow> int \<Rightarrow> duration \<Rightarrow> RouteKey list \<Rightarrow> queue_db
   \<Rightarrow> (store_error, SearchLease list \<times> queue_db) result" where
  "LeaseDueSearchesExcept rp fresh now limit dur paused q =
     (if limit \<le> 0 \<or> dur \<le> 0 then Err ''lease limit and duration must be positive''
      else if (case rp_scope rp of None \<Rightarrow> False | Some (instances, languages) \<Rightarrow> instances = [] \<or> languages = [])
      then Ok ([], q)
      else let (leases, rows) = fold (claim_due fresh now (now + dur))
                 (List.enumerate 0 (due_items rp q now limit paused)) ([], q_searches q)
           in Ok (leases, q\<lparr>q_searches := rows\<rparr>))"

definition LeaseDueSearches ::
  "repository \<Rightarrow> (nat \<Rightarrow> string) \<Rightarrow> gotime \<Rightarrow> int \<Rightarrow> duration \<Rightarrow> queue_db
   \<Rightarrow> (store_error, SearchLease list \<times> queue_db) result" where
  "LeaseDueSearches rp fresh now limit dur q = LeaseDueSearchesExcept rp fresh now limit dur [] q"

definition RenewSearchLease :: "string \<Rightarrow> gotime \<Rightarrow> duration \<Rightarrow> queue_db \<Rightarrow> (store_error, queue_db) result" where
  "RenewSearchLease job_id now dur q =
     (if job_id = [] \<or> dur \<le> 0 then Err ''search lease owner and duration are required''
      else if sql_count (owned_by job_id) (q_searches q) \<noteq> 1 then Err ''search lease not found''
      else Ok (q\<lparr>q_searches := sql_update (owned_by job_id)
                  (\<lambda>r. r\<lparr>sr_lease_until_ns := Some (unix_nano (now + dur))\<rparr>) (q_searches q)\<rparr>))"

definition ClaimSearch ::
  "int \<Rightarrow> language \<Rightarrow> string \<Rightarrow> gotime \<Rightarrow> duration \<Rightarrow> queue_db \<Rightarrow> (store_error, bool \<times> queue_db) result" where
  "ClaimSearch media_id language job_id now lease q =
     (if job_id = [] \<or> lease \<le> 0 then Err ''search lease owner and duration are required''
      else
        let new = (new_search media_id language pending (unix_nano now) (unix_nano now) SearchPriorityMissing)
                    \<lparr>sr_lease_owner := Some job_id, sr_lease_until_ns := Some (unix_nano (now + lease))\<rparr>;
            p = (\<lambda>r. lease_free (unix_nano now) r \<or> owned_by job_id r);
            rows = filter (search_key media_id language) (q_searches q)
        in case upsert_search q new p
                  (\<lambda>r. r\<lparr>sr_lease_owner := Some job_id, sr_lease_until_ns := Some (unix_nano (now + lease)),
                         sr_rerun_requested := False\<rparr>) of
             Err e \<Rightarrow> Err e
           | Ok q' \<Rightarrow> Ok (rows = [] \<or> length (filter p rows) = 1, q'))"

definition ReleaseSearchLease :: "string \<Rightarrow> queue_db \<Rightarrow> (store_error, queue_db) result" where
  "ReleaseSearchLease job_id q =
     (if job_id = [] then Err ''search lease owner is required''
      else Ok (q\<lparr>q_searches := sql_update (owned_by job_id)
                  (\<lambda>r. r\<lparr>sr_lease_owner := None, sr_lease_until_ns := None, sr_rerun_requested := False\<rparr>)
                  (q_searches q)\<rparr>))"

section \<open>Completion\<close>

definition insertSearchHistory ::
  "int \<Rightarrow> language \<Rightarrow> string \<Rightarrow> SearchHistoryDetail \<Rightarrow> gotime \<Rightarrow> queue_db \<Rightarrow> (store_error, queue_db) result" where
  "insertSearchHistory media_id language outcome detail finished q =
     (case find_media q media_id of
        None \<Rightarrow> Err ''record search history: media not found''
      | Some m \<Rightarrow> Ok (q\<lparr>q_history := q_history q @
          [\<lparr>hr_media_id = mr_id m, hr_instance = mr_instance m, hr_kind = mr_kind m, hr_file_id = mr_file_id m,
            hr_language = language, hr_outcome = outcome, hr_detail = detail, hr_finished_at_ns = unix_nano finished\<rparr>]\<rparr>))"

definition PruneHistory :: "gotime \<Rightarrow> queue_db \<Rightarrow> queue_db" where
  "PruneHistory before q = q\<lparr>q_history := sql_delete (\<lambda>h. hr_finished_at_ns h < unix_nano before) (q_history q)\<rparr>"

text \<open>The update of a row whose media was deleted while its search ran.\<close>

definition deleted_row :: "search_row \<Rightarrow> search_row" where
  "deleted_row r =
     clear_resume (r\<lparr>sr_state := complete, sr_last_outcome := ''deleted'', sr_next_attempt_at_ns := 0,
       sr_queue_order_ns := 0, sr_rerun_requested := False, sr_replace_installed := False,
       sr_lease_owner := None, sr_lease_until_ns := None\<rparr>)"

text \<open>The update of a live row, column by column; \<open>resume\<close> holds the list, signature and date to keep.\<close>

definition completed_row :: "SearchCompletion \<Rightarrow> string \<times> string \<times> int \<Rightarrow> search_row \<Rightarrow> search_row" where
  "completed_row c resume r =
     (let state = (if is_zero_time (co_next_attempt_at c) then complete else pending);
          next = (if is_zero_time (co_next_attempt_at c) then 0 else unix_nano (co_next_attempt_at c));
          advanceMissing = (if co_advance_missing c \<or> co_advance_upgrade c then 1 else 0);
          advanceFailure = (if co_advance_failure c then 1 else 0);
          rerun = sr_rerun_requested r;
          keep = (\<not> rerun \<and> co_preserve_resume c);
          (json, signature, savedAt) = resume
      in r\<lparr>sr_state := (if rerun then pending else state),
           sr_attempt := (if rerun then 0
              else max (co_missing_floor c)
                       (if co_reset_missing c then advanceMissing else sr_attempt r + advanceMissing)),
           sr_failure_attempt := (if rerun \<or> co_reset_failure c then 0 else sr_failure_attempt r + advanceFailure),
           sr_next_attempt_at_ns := (if rerun then sr_next_attempt_at_ns r else next),
           sr_queue_order_ns := (if rerun \<or> co_preserve_queue_order c then sr_queue_order_ns r else next),
           sr_last_outcome := (if rerun then [] else co_outcome c),
           sr_priority := (if rerun \<or> co_priority c = 0 then sr_priority r else co_priority c),
           sr_resume_providers_json := (if keep then json else ''[]''),
           sr_resume_route_signature := (if keep then signature else []),
           sr_resume_saved_at_ns := (if keep then savedAt else 0),
           sr_replace_installed := (if \<not> rerun \<and> co_clear_replace c then False else sr_replace_installed r),
           sr_rerun_requested := False, sr_lease_owner := None, sr_lease_until_ns := None\<rparr>)"

text \<open>The resume columns and the number of providers kept; \<open>wall\<close> is the wall clock.\<close>

definition kept_resume ::
  "repository \<Rightarrow> gotime \<Rightarrow> SearchCompletion \<Rightarrow> media_row \<Rightarrow> search_row \<Rightarrow> (store_error, (string \<times> string \<times> int) \<times> nat) result" where
  "kept_resume rp wall c m r =
     (if co_preserve_resume c \<and> \<not> mr_deleted m \<and> \<not> sr_rerun_requested r
         \<and> currentResumeScope rp (sr_language r) m (co_resume_signature c)
      then case encodeResumeProviders (co_resume_providers c) of
             None \<Rightarrow> Err ''invalid search resume providers''
           | Some json \<Rightarrow>
               if decodeSearchResume rp (sr_language r) json = None then Err ''invalid search resume providers''
               else Ok ((json, co_resume_signature c,
                         unix_nano (if is_zero_time (co_resume_saved_at c) then wall else co_resume_saved_at c)),
                        length (co_resume_providers c))
      else Ok ((''[]'', [], 0), 0))"

definition CompleteSearch ::
  "repository \<Rightarrow> gotime \<Rightarrow> SearchCompletion \<Rightarrow> queue_db \<Rightarrow> (store_error, SearchCompletionResult \<times> queue_db) result" where
  "CompleteSearch rp wall c q =
     (if co_priority c \<noteq> 0 \<and> \<not> validSearchPriority (co_priority c) then Err ''invalid search priority''
      else case find (\<lambda>r. owned_by (co_job_id c) r \<and> find_media q (sr_media_id r) \<noteq> None) (q_searches q) of
             None \<Rightarrow> Err ''search lease not found''
           | Some r \<Rightarrow>
               let m = the (find_media q (sr_media_id r))
               in case kept_resume rp wall c m r of
                    Err e \<Rightarrow> Err e
                  | Ok (resume, kept) \<Rightarrow>
                      if sql_count (owned_by (co_job_id c)) (q_searches q) \<noteq> 1 then Err ''search lease not found''
                      else
                        let f = (if mr_deleted m then deleted_row else completed_row c resume);
                            q' = q\<lparr>q_searches := sql_update (owned_by (co_job_id c)) f (q_searches q)\<rparr>;
                            res = \<lparr>cr_rerun_scheduled = (\<not> mr_deleted m \<and> sr_rerun_requested r), cr_resume_count = kept\<rparr>
                        in case (if mr_deleted m then None else co_history c) of
                             None \<Rightarrow> Ok (res, q')
                           | Some detail \<Rightarrow>
                               (case insertSearchHistory (sr_media_id r) (sr_language r) (co_outcome c) detail
                                       (if is_zero_time (co_finished_at c) then wall else co_finished_at c) q' of
                                  Err e \<Rightarrow> Err e
                                | Ok q'' \<Rightarrow> Ok (res, q'')))"

section \<open>Scheduling from elsewhere\<close>

definition EnsureUpgradeSearch :: "int \<Rightarrow> language \<Rightarrow> gotime \<Rightarrow> queue_db \<Rightarrow> (store_error, queue_db) result" where
  "EnsureUpgradeSearch media_id language next q =
     (if is_zero_time next then Err ''upgrade search requires a nonzero next attempt''
      else case find_media q media_id of
             None \<Rightarrow> Ok q
           | Some m \<Rightarrow>
               if mr_deleted m \<or> mr_unsupported m \<noteq> [] then Ok q
               else upsert_search q
                 (new_search media_id language pending (unix_nano next) (unix_nano next) SearchPriorityUpgrade)
                 (\<lambda>r. sr_lease_owner r = None \<and> sr_lease_until_ns r = None
                     \<and> (sr_state r = complete \<or> sr_state r = pending \<and> sr_next_attempt_at_ns r > unix_nano next))
                 (\<lambda>r. clear_resume (r\<lparr>sr_state := pending, sr_next_attempt_at_ns := unix_nano next,
                    sr_queue_order_ns := (if sr_state r = pending then min (sr_queue_order_ns r) (unix_nano next)
                                          else unix_nano next),
                    sr_priority := (if sr_state r = complete then SearchPriorityUpgrade else sr_priority r),
                    sr_attempt := (if sr_state r = complete then 0 else sr_attempt r),
                    sr_failure_attempt := (if sr_state r = complete then 0 else sr_failure_attempt r),
                    sr_last_outcome := (if sr_state r = complete then [] else sr_last_outcome r),
                    sr_rerun_requested := (if sr_state r = complete then False else sr_rerun_requested r)\<rparr>)))"

definition RetryThrottledSearches :: "gotime \<Rightarrow> language list \<Rightarrow> queue_db \<Rightarrow> nat \<times> queue_db" where
  "RetryThrottledSearches now languages q =
     (if languages = [] then (0, q)
      else
        let p = (\<lambda>r. sr_last_outcome r = ''throttled'' \<and> lease_free (unix_nano now) r
                   \<and> (sr_state r = complete \<or> sr_next_attempt_at_ns r > unix_nano now)
                   \<and> sr_language r \<in> set languages
                   \<and> (\<exists>m \<in> set (q_media q). mr_id m = sr_media_id r \<and> \<not> mr_deleted m))
        in (sql_count p (q_searches q),
            q\<lparr>q_searches := sql_update p
               (\<lambda>r. r\<lparr>sr_state := pending, sr_next_attempt_at_ns := unix_nano now\<rparr>) (q_searches q)\<rparr>))"

definition scheduled_row :: "int \<Rightarrow> search_priority \<Rightarrow> search_row \<Rightarrow> search_row" where
  "scheduled_row at_ns prio r =
     clear_resume (r\<lparr>sr_state := pending, sr_attempt := 0, sr_failure_attempt := 0,
       sr_next_attempt_at_ns := at_ns, sr_queue_order_ns := at_ns, sr_last_outcome := [],
       sr_priority := max (sr_priority r) prio, sr_rerun_requested := (sr_lease_owner r \<noteq> None)\<rparr>)"

definition unsupported_row :: "int \<Rightarrow> search_priority \<Rightarrow> string \<Rightarrow> search_row \<Rightarrow> search_row" where
  "unsupported_row at_ns prio unsupported r =
     (let idle = (sr_lease_owner r = None)
      in clear_resume (r\<lparr>sr_state := (if idle then complete else pending), sr_attempt := 0, sr_failure_attempt := 0,
           sr_next_attempt_at_ns := (if idle then 0 else at_ns), sr_queue_order_ns := (if idle then 0 else at_ns),
           sr_last_outcome := (if idle then unsupported else []), sr_priority := max (sr_priority r) prio,
           sr_rerun_requested := (\<not> idle)\<rparr>))"

definition scheduleMediaSearchTx ::
  "int \<Rightarrow> language \<Rightarrow> gotime \<Rightarrow> search_priority \<Rightarrow> string \<Rightarrow> queue_db \<Rightarrow> (store_error, queue_db) result" where
  "scheduleMediaSearchTx media_id language when prio unsupported q =
     (if \<not> validSearchPriority prio then Err ''invalid search priority''
      else if \<not> validUnsupportedReason unsupported then Err ''invalid unsupported media reason''
      else if unsupported = []
      then upsert_search q (new_search media_id language pending (unix_nano when) (unix_nano when) prio)
             (\<lambda>_. True) (scheduled_row (unix_nano when) prio)
      else upsert_search q ((new_search media_id language complete 0 0 prio)\<lparr>sr_last_outcome := unsupported\<rparr>)
             (\<lambda>_. True) (unsupported_row (unix_nano when) prio unsupported))"

text \<open>The delete branch of a media event: the row is marked and its searches are cancelled.\<close>

definition cancelled_row :: "search_row \<Rightarrow> search_row" where
  "cancelled_row r =
     clear_resume (r\<lparr>sr_state := complete, sr_last_outcome := ''deleted'', sr_next_attempt_at_ns := 0,
       sr_queue_order_ns := 0, sr_rerun_requested := False\<rparr>)"

definition delete_media :: "int \<Rightarrow> queue_db \<Rightarrow> queue_db" where
  "delete_media media_id q =
     q\<lparr>q_media := sql_update (\<lambda>m. mr_id m = media_id) (\<lambda>m. m\<lparr>mr_deleted := True\<rparr>) (q_media q),
       q_searches := sql_update (\<lambda>r. sr_media_id r = media_id) cancelled_row (q_searches q)\<rparr>"

section \<open>Media\<close>

text \<open>
  The trigger \<open>media_search_order\<close>, and an update of a media row, as \<open>UpsertMedia\<close> makes it, under that trigger.
\<close>

definition media_search_order :: "media_row \<Rightarrow> search_row \<Rightarrow> search_row" where
  "media_search_order m r =
     r\<lparr>sr_sort_title := ascii_lower (mr_title m), sr_sort_series := mr_series_id m,
       sr_sort_season := sort_season m, sr_sort_episode := mr_episode m\<rparr>"

definition update_media_row :: "media_row \<Rightarrow> queue_db \<Rightarrow> queue_db" where
  "update_media_row m q =
     (case find_media q (mr_id m) of
        None \<Rightarrow> q
      | Some old \<Rightarrow>
          let q' = q\<lparr>q_media := sql_update (\<lambda>x. mr_id x = mr_id m) (\<lambda>_. m) (q_media q)\<rparr>
          in if mr_title old \<noteq> mr_title m \<or> mr_series_id old \<noteq> mr_series_id m \<or> mr_year old \<noteq> mr_year m
                \<or> mr_season old \<noteq> mr_season m \<or> mr_episode old \<noteq> mr_episode m
             then q'\<lparr>q_searches := sql_update (\<lambda>r. sr_media_id r = mr_id m) (media_search_order m) (q_searches q')\<rparr>
             else q')"

text \<open>
  What \<open>ReplaceTrackInventory\<close> does to the media and the queue once the file was probed; \<open>installed\<close> are the
  languages the table of installations names for the media, \<open>now_ns\<close> is the time. The tracks, the probe it records and
  the installations it invalidates are in tables not kept here.
\<close>

definition ErrStaleInventory :: store_error where "ErrStaleInventory = ''media changed during inventory refresh''"

definition replaced_row :: "int \<Rightarrow> search_row \<Rightarrow> search_row" where
  "replaced_row now_ns r =
     r\<lparr>sr_state := pending, sr_next_attempt_at_ns := now_ns, sr_queue_order_ns := now_ns,
       sr_priority := max (sr_priority r) SearchPriorityImport\<rparr>"

definition ReplaceTrackInventory ::
  "int \<Rightarrow> MediaFingerprint \<Rightarrow> MediaFingerprint \<Rightarrow> int \<Rightarrow> language list \<Rightarrow> queue_db \<Rightarrow> (store_error, queue_db) result" where
  "ReplaceTrackInventory media_id expected fingerprint now_ns installed q =
     (case find_media q media_id of
        None \<Rightarrow> Err ErrStaleInventory
      | Some m \<Rightarrow>
          if mr_deleted m then Err ErrStaleInventory
          else if mr_path m \<noteq> fp_path expected \<or> mr_file_id m \<noteq> fp_file_id expected \<or> mr_size m \<noteq> fp_size expected
             \<or> mr_mod_time_ns m \<noteq> unix_nano (fp_mod_time expected) \<or> fp_path fingerprint \<noteq> fp_path expected
             \<or> fp_file_id fingerprint \<noteq> fp_file_id expected
          then Err ErrStaleInventory
          else
            let contentChanged = mr_file_id m \<noteq> fp_file_id fingerprint \<or> mr_size m \<noteq> fp_size fingerprint
                  \<or> mr_mod_time_ns m \<noteq> unix_nano (fp_mod_time fingerprint);
                replacedInPlace = mr_size m \<noteq> fp_size fingerprint;
                q1 = q\<lparr>q_media := sql_update (\<lambda>x. mr_id x = media_id)
                         (\<lambda>x. x\<lparr>mr_path := fp_path fingerprint, mr_file_id := fp_file_id fingerprint,
                               mr_size := fp_size fingerprint, mr_mod_time_ns := unix_nano (fp_mod_time fingerprint)\<rparr>) (q_media q)\<rparr>;
                q2 = (if contentChanged
                      then q1\<lparr>q_searches := sql_update (\<lambda>r. sr_media_id r = media_id) (\<lambda>r. clear_resume r) (q_searches q1)\<rparr> else q1)
            in Ok (if replacedInPlace
                   then q2\<lparr>q_searches := sql_update
                          (\<lambda>r. sr_media_id r = media_id \<and> sr_language r \<in> set installed \<and> lease_free now_ns r)
                          (replaced_row now_ns) (q_searches q2)\<rparr>
                   else q2))"

text \<open>
  \<open>ForgetInstance\<close> with its changes applied: the history of the instance goes, and with its media their searches and
  rejections, by the foreign keys. What it deletes from other tables is not here.
\<close>

definition ForgetInstance :: "string \<Rightarrow> queue_db \<Rightarrow> (store_error, queue_db) result" where
  "ForgetInstance name q =
     (if map_of (q_instances q) name = None \<and> \<not> list_ex (\<lambda>m. mr_instance m = name) (q_media q) then Err ''instance is not in the database''
      else let owned = (\<lambda>i. list_ex (\<lambda>m. mr_id m = i \<and> mr_instance m = name) (q_media q))
           in Ok (q\<lparr>q_history := sql_delete (\<lambda>h. hr_instance h = name) (q_history q),
                    q_searches := sql_delete (\<lambda>r. owned (sr_media_id r)) (q_searches q),
                    q_rejections := sql_delete (\<lambda>rj. owned (rj_media_id rj)) (q_rejections q),
                    q_media := sql_delete (\<lambda>m. mr_instance m = name) (q_media q),
                    q_instances := filter (\<lambda>(n, _). n \<noteq> name) (q_instances q)\<rparr>))"

definition backfill_row :: "queue_db \<Rightarrow> gotime \<Rightarrow> language \<Rightarrow> media_row \<Rightarrow> search_row" where
  "backfill_row q now l m =
     (let supported = (mr_unsupported m = []);
          ns = (if supported then unix_nano now else 0)
      in queue_order_trigger q
           ((new_search (mr_id m) l (if supported then pending else complete) ns ns SearchPriorityMissing)
             \<lparr>sr_last_outcome := mr_unsupported m\<rparr>))"

definition EnsureConfiguredLanguageSearch :: "string \<Rightarrow> language \<Rightarrow> gotime \<Rightarrow> queue_db \<Rightarrow> queue_db" where
  "EnsureConfiguredLanguageSearch inst language now q =
     q\<lparr>q_searches := fold
        (\<lambda>m. sql_upsert (search_key (mr_id m) language) (\<lambda>_. False) id (backfill_row q now language m))
        (filter (\<lambda>m. mr_instance m = inst \<and> \<not> mr_deleted m) (q_media q)) (q_searches q)\<rparr>"

text \<open>The number it reports is the number of rows added.\<close>

definition EnsureConfiguredLanguageSearches ::
  "string list \<Rightarrow> language list \<Rightarrow> gotime \<Rightarrow> queue_db \<Rightarrow> int \<times> queue_db" where
  "EnsureConfiguredLanguageSearches instances languages now q =
     (let q' = fold (\<lambda>inst q. fold (\<lambda>language q. EnsureConfiguredLanguageSearch inst language now q) languages q) instances q
      in (int (length (q_searches q')) - int (length (q_searches q)), q'))"

definition reranked :: "queue_db \<Rightarrow> search_row \<Rightarrow> search_row" where
  "reranked q r = r\<lparr>sr_instance_rank := (case find_media q (sr_media_id r) of
     Some m \<Rightarrow> instance_priority q (mr_instance m) | None \<Rightarrow> sr_instance_rank r)\<rparr>"

definition SetInstanceQueuePriorities :: "(string \<times> int) list \<Rightarrow> queue_db \<Rightarrow> queue_db" where
  "SetInstanceQueuePriorities priorities q =
     (let q' = q\<lparr>q_instances := map (\<lambda>(name, _). (name, case map_of priorities name of Some p \<Rightarrow> p | None \<Rightarrow> 0))
                  (q_instances q)\<rparr>
      in q'\<lparr>q_searches := map (reranked q') (q_searches q)\<rparr>)"

section \<open>The owner's rejections\<close>

definition UserRejectionPrefix :: string where "UserRejectionPrefix = ''user_''"

definition IsUserRejection :: "string \<Rightarrow> bool" where
  "IsUserRejection reasonCode = has_prefix reasonCode UserRejectionPrefix"

text \<open>The SQL test \<open>reason_code LIKE 'user\_%'\<close>; \<open>LIKE\<close> ignores the case of ASCII letters.\<close>

definition userReasonSQL :: "string \<Rightarrow> bool" where
  "userReasonSQL reasonCode = has_prefix (ascii_lower reasonCode) UserRejectionPrefix"

definition validateCandidateRejectionIdentity :: "CandidateRejection \<Rightarrow> bool" where
  "validateCandidateRejectionIdentity rj \<longleftrightarrow>
     rj_media_id rj > 0 \<and> rj_language rj \<noteq> [] \<and> rj_provider_id rj \<noteq> [] \<and> rj_result_id rj \<noteq> []
     \<and> rj_candidate_signature rj \<noteq> [] \<and> rj_tool_signature rj \<noteq> [] \<and> rj_media_path rj \<noteq> []"

definition validateCandidateRejection :: "CandidateRejection \<Rightarrow> bool" where
  "validateCandidateRejection rj \<longleftrightarrow>
     validateCandidateRejectionIdentity rj \<and> rj_reason_code rj \<noteq> [] \<and> \<not> is_zero_time (rj_rejected_at rj)"

definition same_rejection :: "CandidateRejection \<Rightarrow> CandidateRejection \<Rightarrow> bool" where
  "same_rejection a b \<longleftrightarrow>
     rj_media_id a = rj_media_id b \<and> rj_language a = rj_language b \<and> rj_provider_id a = rj_provider_id b
     \<and> rj_result_id a = rj_result_id b \<and> rj_candidate_signature a = rj_candidate_signature b
     \<and> rj_artifact_checksum a = rj_artifact_checksum b \<and> rj_tool_signature a = rj_tool_signature b"

definition putCandidateRejection :: "CandidateRejection \<Rightarrow> queue_db \<Rightarrow> (store_error, queue_db) result" where
  "putCandidateRejection rj q =
     (if find_media q (rj_media_id rj) = None then Err ''FOREIGN KEY constraint failed''
      else Ok (q\<lparr>q_rejections := sql_upsert (same_rejection rj) (\<lambda>_. True)
          (\<lambda>old. rj\<lparr>rj_reason_code := (if userReasonSQL (rj_reason_code old) then rj_reason_code old
                                       else rj_reason_code rj)\<rparr>)
          rj (q_rejections q)\<rparr>))"

definition PutCandidateRejection :: "CandidateRejection \<Rightarrow> queue_db \<Rightarrow> (store_error, queue_db) result" where
  "PutCandidateRejection rj q =
     (if \<not> validateCandidateRejection rj
      then Err ''candidate rejection identity, reason, fingerprint, and timestamp are required''
      else putCandidateRejection rj q)"

definition rejected_row :: "int \<Rightarrow> (string \<times> int) option \<Rightarrow> search_row \<Rightarrow> search_row" where
  "rejected_row at_ns lease r =
     (let held = (case sr_lease_until_ns r of Some u \<Rightarrow> u > at_ns | None \<Rightarrow> False)
      in (clear_resume (r\<lparr>sr_state := pending, sr_attempt := 0, sr_failure_attempt := 0,
            sr_next_attempt_at_ns := at_ns, sr_queue_order_ns := at_ns, sr_priority := SearchPriorityImport,
            sr_last_outcome := [], sr_replace_installed := True, sr_resume_saved_at_ns := 0,
            sr_rerun_requested := (if held then True else if lease \<noteq> None then False else sr_rerun_requested r),
            sr_lease_owner := (if held \<or> lease = None then sr_lease_owner r else map_option fst lease),
            sr_lease_until_ns := (if held \<or> lease = None then sr_lease_until_ns r else map_option snd lease)\<rparr>)))"

definition RecordUserRejection ::
  "CandidateRejection \<Rightarrow> gotime \<Rightarrow> string \<Rightarrow> duration \<Rightarrow> SearchHistoryDetail \<Rightarrow> queue_db \<Rightarrow> (store_error, queue_db) result" where
  "RecordUserRejection rj now owner lease history q =
     (if \<not> validateCandidateRejection rj
      then Err ''candidate rejection identity, reason, fingerprint, and timestamp are required''
      else if \<not> IsUserRejection (rj_reason_code rj) then Err ''user rejection reason must start with user_''
      else case putCandidateRejection rj q of
             Err e \<Rightarrow> Err e
           | Ok q1 \<Rightarrow>
               if (owner = []) \<noteq> (lease \<le> 0)
               then Err ''a user rejection's lease needs both an owner and a duration''
               else
                 let at_ns = unix_nano now;
                     grant = (if owner \<noteq> [] then Some (owner, unix_nano (now + lease)) else None);
                     new = (new_search (rj_media_id rj) (rj_language rj) pending at_ns at_ns SearchPriorityImport)
                             \<lparr>sr_replace_installed := True, sr_lease_owner := map_option fst grant,
                              sr_lease_until_ns := map_option snd grant\<rparr>;
                     detail = history\<lparr>hd_reason := rj_reason_code rj, hd_manual := True,
                                hd_provider_id := (if hd_provider_id history = [] then rj_provider_id rj
                                                   else hd_provider_id history)\<rparr>
                 in case upsert_search q1 new (\<lambda>_. True) (rejected_row at_ns grant) of
                      Err e \<Rightarrow> Err e
                    | Ok q2 \<Rightarrow> insertSearchHistory (rj_media_id rj) (rj_language rj) ''rejected'' detail now q2)"

definition ClearUserRejections :: "int \<Rightarrow> language \<Rightarrow> queue_db \<Rightarrow> nat \<times> queue_db" where
  "ClearUserRejections media_id language q =
     (let p = (\<lambda>rj. rj_media_id rj = media_id \<and> rj_language rj = language \<and> userReasonSQL (rj_reason_code rj))
      in (sql_count p (q_rejections q),
          q\<lparr>q_rejections := sql_delete p (q_rejections q),
            q_searches := sql_update (search_key media_id language)
              (\<lambda>r. r\<lparr>sr_replace_installed := False\<rparr>) (q_searches q)\<rparr>))"

definition ClearCandidateRejections :: "int \<Rightarrow> language \<Rightarrow> queue_db \<Rightarrow> queue_db" where
  "ClearCandidateRejections media_id language q =
     q\<lparr>q_rejections := sql_delete (\<lambda>rj. rj_media_id rj = media_id \<and> rj_language rj = language
         \<and> \<not> userReasonSQL (rj_reason_code rj)) (q_rejections q)\<rparr>"

end
