(* ===== verification/Lease_Table.thy ===== *)
theory Lease_Table
  imports Prelude
begin

text \<open>
  Tables whose rows can be leased: a row has a key, and while it is leased an owner and an expiry. The
  search queue and the notification outbox both follow this discipline. The locale collects what their
  statements need: granting, renewing and ending a lease through an update keeps the table consistent.
\<close>

definition paired :: "('r \<Rightarrow> string option) \<Rightarrow> ('r \<Rightarrow> int option) \<Rightarrow> 'r \<Rightarrow> bool" where
  "paired owner until r \<longleftrightarrow> (owner r = None) = (until r = None)"

definition rivals :: "('r \<Rightarrow> 'k) \<Rightarrow> ('r \<Rightarrow> string option) \<Rightarrow> 'r \<Rightarrow> 'r \<Rightarrow> bool" where
  "rivals key owner r r' \<longleftrightarrow> owner r \<noteq> None \<and> owner r = owner r' \<and> key r \<noteq> key r'"

definition lease_inv ::
  "('r \<Rightarrow> 'k) \<Rightarrow> ('r \<Rightarrow> string option) \<Rightarrow> ('r \<Rightarrow> int option) \<Rightarrow> 'r list \<Rightarrow> bool" where
  "lease_inv key owner until rows \<longleftrightarrow>
     distinct (map key rows) \<and> (\<forall>r \<in> set rows. paired owner until r)
     \<and> (\<forall>r \<in> set rows. \<forall>r' \<in> set rows. \<not> rivals key owner r r')"

lemma lease_invI:
  assumes "distinct (map key rows)" "\<And>r. r \<in> set rows \<Longrightarrow> paired owner until r"
    and "\<And>r r'. \<lbrakk>r \<in> set rows; r' \<in> set rows; rivals key owner r r'\<rbrakk> \<Longrightarrow> False"
  shows "lease_inv key owner until rows"
  using assms unfolding lease_inv_def by blast

lemma lease_invD:
  assumes "lease_inv key owner until rows"
  shows "distinct (map key rows)" and "r \<in> set rows \<Longrightarrow> paired owner until r"
    and "\<lbrakk>r \<in> set rows; r' \<in> set rows\<rbrakk> \<Longrightarrow> \<not> rivals key owner r r'"
  using assms unfolding lease_inv_def by blast+

text \<open>What an update may do to the lease of one row without naming a new owner.\<close>

definition lease_kept :: "('r \<Rightarrow> 'k) \<Rightarrow> ('r \<Rightarrow> string option) \<Rightarrow> ('r \<Rightarrow> int option) \<Rightarrow> 'r \<Rightarrow> 'r \<Rightarrow> bool" where
  "lease_kept key owner until r r' \<longleftrightarrow> key r' = key r
     \<and> (owner r' = owner r \<and> (until r' = None) = (until r = None) \<or> owner r' = None \<and> until r' = None)"

lemma find_sql_update:
  assumes "\<And>r. q (if p r then f r else r) = q r"
  shows "find q (sql_update p f rows) = map_option (\<lambda>r. if p r then f r else r) (find q rows)"
  using assms by (induction rows) auto

locale lease_table =
  fixes key :: "'r \<Rightarrow> 'k" and owner :: "'r \<Rightarrow> string option" and until :: "'r \<Rightarrow> int option"
    and set_lease :: "(string \<times> int) option \<Rightarrow> 'r \<Rightarrow> 'r"
  assumes key_set_lease [simp]: "key (set_lease l r) = key r"
    and owner_set_lease [simp]: "owner (set_lease l r) = map_option fst l"
    and until_set_lease [simp]: "until (set_lease l r) = map_option snd l"
begin

abbreviation inv :: "'r list \<Rightarrow> bool" where "inv \<equiv> lease_inv key owner until"

lemma inv_key: "\<lbrakk>inv rows; r \<in> set rows; r' \<in> set rows; key r = key r'\<rbrakk> \<Longrightarrow> r = r'"
  by (drule lease_invD(1)) (auto simp: distinct_map dest: inj_onD)

lemma inv_owner:
  assumes "inv rows" "r \<in> set rows" "r' \<in> set rows" "owner r = Some j" "owner r' = Some j"
  shows "r = r'"
  using lease_invD(3) [OF assms(1-3)] assms(4,5) inv_key [OF assms(1-3)] by (simp add: rivals_def)

lemma kept_refl [simp]: "lease_kept key owner until r r"
  by (simp add: lease_kept_def)

lemma kept_end [simp]: "lease_kept key owner until r (set_lease None r)"
  by (simp add: lease_kept_def)

text \<open>An update that grants no lease.\<close>

lemma inv_update:
  assumes inv: "inv rows" and kept: "\<And>r. \<lbrakk>r \<in> set rows; p r\<rbrakk> \<Longrightarrow> lease_kept key owner until r (f r)"
  shows "inv (sql_update p f rows)"
proof (rule lease_invI)
  let ?g = "\<lambda>r. if p r then f r else r"
  have g: "lease_kept key owner until r (?g r)" if "r \<in> set rows" for r using kept that by simp
  have "map key (sql_update p f rows) = map key rows"
    using g by (auto simp: sql_update_def lease_kept_def intro!: map_cong)
  with lease_invD(1) [OF inv] show "distinct (map key (sql_update p f rows))" by simp
  show "paired owner until r" if "r \<in> set (sql_update p f rows)" for r
  proof -
    from that obtain s where s: "s \<in> set rows" "r = ?g s" by (auto simp: set_sql_update)
    from lease_invD(2) [OF inv s(1)] g [OF s(1)] show ?thesis unfolding s(2) lease_kept_def paired_def by argo
  qed
  fix r r' assume "r \<in> set (sql_update p f rows)" "r' \<in> set (sql_update p f rows)" and riv: "rivals key owner r r'"
  then obtain s s' where s: "s \<in> set rows" "r = ?g s" "s' \<in> set rows" "r' = ?g s'"
    by (auto simp: set_sql_update)
  from g [OF s(1)] g [OF s(3)] riv have "rivals key owner s s'"
    unfolding s(2,4) lease_kept_def rivals_def by metis
  with lease_invD(3) [OF inv s(1,3)] show False by simp
qed

text \<open>An update that grants the lease of one key to an owner that holds no other.\<close>

lemma inv_grant:
  assumes inv: "inv rows" and one: "\<And>r. p r \<Longrightarrow> key r = k"
    and grant: "\<And>r. \<lbrakk>r \<in> set rows; p r\<rbrakk> \<Longrightarrow> key (f r) = key r \<and> owner (f r) = Some j \<and> until (f r) \<noteq> None"
    and fresh: "\<And>r. \<lbrakk>r \<in> set rows; owner r = Some j\<rbrakk> \<Longrightarrow> key r = k"
  shows "inv (sql_update p f rows)"
proof (rule lease_invI)
  let ?g = "\<lambda>r. if p r then f r else r"
  have key: "key (?g r) = key r" if "r \<in> set rows" for r using grant that by simp
  then have "map key (sql_update p f rows) = map key rows"
    by (auto simp: sql_update_def intro!: map_cong)
  with lease_invD(1) [OF inv] show "distinct (map key (sql_update p f rows))" by simp
  show "paired owner until r" if "r \<in> set (sql_update p f rows)" for r
  proof -
    from that obtain s where s: "s \<in> set rows" "r = ?g s" by (auto simp: set_sql_update)
    from lease_invD(2) [OF inv s(1)] grant [OF s(1)] show ?thesis unfolding s(2) paired_def by auto
  qed
  fix r r' assume "r \<in> set (sql_update p f rows)" "r' \<in> set (sql_update p f rows)" and riv: "rivals key owner r r'"
  then obtain s s' where s: "s \<in> set rows" "r = ?g s" "s' \<in> set rows" "r' = ?g s'"
    by (auto simp: set_sql_update)
  have own: "key t = k" if "t \<in> set rows" "owner (?g t) = Some j" for t
    using that one fresh by (auto split: if_splits)
  show False
  proof (cases "owner r = Some j")
    case True
    with riv have o: "owner (?g s) = Some j" "owner (?g s') = Some j" and k: "key (?g s) \<noteq> key (?g s')"
      unfolding s(2,4) rivals_def by auto
    from own [OF s(1) o(1)] own [OF s(3) o(2)] key [OF s(1)] key [OF s(3)] k show False by simp
  next
    case False
    with riv s grant have "\<not> p s" "\<not> p s'" by (auto simp: rivals_def split: if_splits)
    with riv lease_invD(3) [OF inv s(1,3)] show False by (simp add: s)
  qed
qed

lemma inv_append:
  assumes "inv rows" "key new \<notin> key ` set rows" "paired owner until new"
    and "\<And>r. \<lbrakk>r \<in> set rows; owner new = owner r\<rbrakk> \<Longrightarrow> owner new = None"
  shows "inv (rows @ [new])"
proof (rule lease_invI)
  show "distinct (map key (rows @ [new]))" using lease_invD(1) [OF assms(1)] assms(2) by auto
  show "paired owner until r" if "r \<in> set (rows @ [new])" for r
    using that lease_invD(2) [OF assms(1)] assms(3) by auto
  show False if "r \<in> set (rows @ [new])" "r' \<in> set (rows @ [new])" "rivals key owner r r'" for r r'
  proof (cases "r \<in> set rows \<and> r' \<in> set rows")
    case True
    with that(3) lease_invD(3) [OF assms(1)] show False by blast
  next
    case False
    with that have "r = new \<and> r' \<in> set rows \<or> r' = new \<and> r \<in> set rows"
      by (auto simp: rivals_def)
    with that(3) assms(4) show False unfolding rivals_def by metis
  qed
qed

text \<open>At most one row has a given owner, so an update by owner changes at most one row.\<close>

lemma owner_count: "inv rows \<Longrightarrow> sql_count (\<lambda>r. owner r = Some j) rows \<le> 1"
  by (rule sql_count_le_1_keyed [where g = key, OF lease_invD(1)]) (auto dest: inv_owner)

end

end
