(* ===== verification/Search_Queue_Inv.thy ===== *)
theory Search_Queue_Inv
  imports Search_Queue Lease_Table
begin

text \<open>
  Properties of the search queue: an invariant of the table that every operation keeps, the leases as
  mutual exclusion between the worker and manual runs, the order and the completeness of leasing, and
  what a completion leaves of a change that arrived while the search ran.
\<close>

definition search_row_key :: "search_row \<Rightarrow> int \<times> language" where
  "search_row_key r = (sr_media_id r, sr_language r)"

definition set_search_lease :: "(string \<times> int) option \<Rightarrow> search_row \<Rightarrow> search_row" where
  "set_search_lease l r = r\<lparr>sr_lease_owner := map_option fst l, sr_lease_until_ns := map_option snd l\<rparr>"

interpretation sq: lease_table search_row_key sr_lease_owner sr_lease_until_ns set_search_lease
  by unfold_locales (simp_all add: search_row_key_def set_search_lease_def)

lemma search_key_iff: "search_key i l r \<longleftrightarrow> search_row_key r = (i, l)"
  by (simp add: search_key_def search_row_key_def)

section \<open>The invariant\<close>

text \<open>
  A requested rerun belongs to a leased pending row, a row is pending or complete, and a complete row
  has no due time.
\<close>

definition row_ok :: "search_row \<Rightarrow> bool" where
  "row_ok r \<longleftrightarrow> (sr_rerun_requested r \<longrightarrow> sr_lease_owner r \<noteq> None \<and> sr_state r = pending)
     \<and> (sr_state r = pending \<or> sr_state r = complete) \<and> (sr_state r = complete \<longrightarrow> sr_next_attempt_at_ns r = 0)"

abbreviation lease_ok :: "search_row list \<Rightarrow> bool" where
  "lease_ok \<equiv> lease_inv search_row_key sr_lease_owner sr_lease_until_ns"

definition queue_inv :: "queue_db \<Rightarrow> bool" where
  "queue_inv q \<longleftrightarrow> lease_ok (q_searches q)
     \<and> (\<forall>r \<in> set (q_searches q). row_ok r)"

abbreviation kept :: "search_row \<Rightarrow> search_row \<Rightarrow> bool" where
  "kept \<equiv> lease_kept search_row_key sr_lease_owner sr_lease_until_ns"

text \<open>Who may be granted a lease: an owner of no other search.\<close>

definition free_owner :: "queue_db \<Rightarrow> int \<times> language \<Rightarrow> string \<Rightarrow> bool" where
  "free_owner q k j \<longleftrightarrow> (\<forall>r \<in> set (q_searches q). sr_lease_owner r = Some j \<longrightarrow> search_row_key r = k)"

lemma queue_invI: "\<lbrakk>lease_ok (q_searches q); \<And>r. r \<in> set (q_searches q) \<Longrightarrow> row_ok r\<rbrakk> \<Longrightarrow> queue_inv q"
  unfolding queue_inv_def by blast

lemma queue_invD:
  assumes "queue_inv q"
  shows "lease_ok (q_searches q)" and "r \<in> set (q_searches q) \<Longrightarrow> row_ok r"
    and "r \<in> set (q_searches q) \<Longrightarrow> paired sr_lease_owner sr_lease_until_ns r"
proof -
  show ok: "lease_ok (q_searches q)" and "r \<in> set (q_searches q) \<Longrightarrow> row_ok r"
    using assms unfolding queue_inv_def by blast+
  show "r \<in> set (q_searches q) \<Longrightarrow> paired sr_lease_owner sr_lease_until_ns r"
    by (rule lease_invD(2) [OF ok])
qed

lemma queue_inv_update:
  assumes "queue_inv q"
    and "\<And>r. \<lbrakk>r \<in> set (q_searches q); p r; row_ok r\<rbrakk> \<Longrightarrow> kept r (f r) \<and> row_ok (f r)"
  shows "queue_inv (q\<lparr>q_searches := sql_update p f (q_searches q)\<rparr>)"
  using assms
  by (auto simp: queue_inv_def intro!: sq.inv_update elim!: in_sql_updateE)

lemma queue_inv_cong: "q_searches q' = q_searches q \<Longrightarrow> queue_inv q' = queue_inv q"
  by (simp add: queue_inv_def)

lemma trigger_lease [simp]:
  "sr_lease_owner (queue_order_trigger q r) = sr_lease_owner r"
  "sr_lease_until_ns (queue_order_trigger q r) = sr_lease_until_ns r"
  "search_row_key (queue_order_trigger q r) = search_row_key r"
  "sr_media_id (queue_order_trigger q r) = sr_media_id r" "sr_language (queue_order_trigger q r) = sr_language r"
  "row_ok (queue_order_trigger q r) = row_ok r"
  by (simp_all add: queue_order_trigger_def search_row_key_def row_ok_def split: option.split)

lemma upsert_search_Ok:
  assumes "upsert_search q new p f = Ok q'"
  shows "find_media q (sr_media_id new) \<noteq> None"
    and "q' = q\<lparr>q_searches := sql_upsert (search_key (sr_media_id new) (sr_language new)) p f
                 (queue_order_trigger q new) (q_searches q)\<rparr>"
  using assms by (auto simp: upsert_search_def split: if_split_asm)

text \<open>An insert or update of one key that grants no lease on update.\<close>

lemma queue_inv_upsert:
  assumes inv: "queue_inv q" and ok: "upsert_search q new p f = Ok q'"
    and new: "row_ok new" "sr_lease_owner new = None" "sr_lease_until_ns new = None"
    and f: "\<And>r. \<lbrakk>r \<in> set (q_searches q); p r; row_ok r; paired sr_lease_owner sr_lease_until_ns r\<rbrakk> \<Longrightarrow> kept r (f r) \<and> row_ok (f r)"
  shows "queue_inv q'"
proof (cases "\<exists>r \<in> set (q_searches q). search_key (sr_media_id new) (sr_language new) r")
  case True
  let ?p = "\<lambda>r. search_key (sr_media_id new) (sr_language new) r \<and> p r"
  have "queue_inv (q\<lparr>q_searches := sql_update ?p f (q_searches q)\<rparr>)"
    using inv by (rule queue_inv_update) (use inv f in \<open>auto simp: queue_inv_def dest: lease_invD(2)\<close>)
  with True upsert_search_Ok(2) [OF ok] show ?thesis by (simp add: sql_upsert_def)
next
  case False
  then have rows: "q_searches q' = q_searches q @ [queue_order_trigger q new]"
    using upsert_search_Ok(2) [OF ok] by (simp add: sql_upsert_def)
  have "lease_ok (q_searches q @ [queue_order_trigger q new])"
    by (rule sq.inv_append)
      (use inv new False in \<open>auto simp: queue_inv_def paired_def search_key_def search_row_key_def\<close>)
  then show ?thesis using inv new by (simp add: queue_inv_def rows)
qed

text \<open>An insert or update of one key that may grant its lease to \<open>j\<close>.\<close>

lemma queue_inv_upsert_grant:
  assumes inv: "queue_inv q" and ok: "upsert_search q new p f = Ok q'"
    and new: "row_ok new" "sr_lease_owner new = Some j" "sr_lease_until_ns new \<noteq> None"
    and fresh: "free_owner q (search_row_key new) j"
    and f: "\<And>r. row_ok r \<Longrightarrow> search_row_key (f r) = search_row_key r
        \<and> sr_lease_owner (f r) = Some j \<and> sr_lease_until_ns (f r) \<noteq> None \<and> row_ok (f r)"
  shows "queue_inv q'"
proof (cases "\<exists>r \<in> set (q_searches q). search_key (sr_media_id new) (sr_language new) r")
  case True
  let ?p = "\<lambda>r. search_key (sr_media_id new) (sr_language new) r \<and> p r"
  have rows: "q_searches q' = sql_update ?p f (q_searches q)"
    using True upsert_search_Ok(2) [OF ok] by (simp add: sql_upsert_def)
  have "lease_ok (sql_update ?p f (q_searches q))"
  proof (rule sq.inv_grant [OF queue_invD(1) [OF inv], where k = "search_row_key new" and j = j])
    show "search_row_key r = search_row_key new" if "?p r" for r
      using that by (simp add: search_key_def search_row_key_def)
    show "search_row_key (f r) = search_row_key r \<and> sr_lease_owner (f r) = Some j \<and> sr_lease_until_ns (f r) \<noteq> None"
      if "r \<in> set (q_searches q)" for r using f queue_invD(2) [OF inv that] by blast
  qed (use fresh in \<open>simp add: free_owner_def\<close>)
  then show ?thesis
    by (intro queue_invI) (use f queue_invD(2) [OF inv] in \<open>auto simp: rows elim!: in_sql_updateE\<close>)
next
  case False
  then have rows: "q_searches q' = q_searches q @ [queue_order_trigger q new]"
    using upsert_search_Ok(2) [OF ok] by (simp add: sql_upsert_def)
  have "lease_ok (q_searches q @ [queue_order_trigger q new])"
  proof (rule sq.inv_append [OF queue_invD(1) [OF inv]])
    show "search_row_key (queue_order_trigger q new) \<notin> search_row_key ` set (q_searches q)"
      using False by (auto simp: search_key_def search_row_key_def)
    show "sr_lease_owner (queue_order_trigger q new) = None"
      if "r \<in> set (q_searches q)" "sr_lease_owner (queue_order_trigger q new) = sr_lease_owner r" for r
      using that False fresh new(2) by (auto simp: free_owner_def search_key_def search_row_key_def)
  qed (use new in \<open>simp add: paired_def\<close>)
  then show ?thesis
    by (intro queue_invI) (use new queue_invD(2) [OF inv] in \<open>auto simp: rows\<close>)
qed

section \<open>Operations keep the invariant\<close>

lemmas row_defs = lease_kept_def row_ok_def search_row_key_def

lemma new_search_ok [simp]:
  "row_ok (new_search i l pending n o' p)" "row_ok (new_search i l complete 0 0 p)"
  "sr_lease_owner (new_search i l st n o' p) = None" "sr_lease_until_ns (new_search i l st n o' p) = None"
  "search_row_key (new_search i l st n o' p) = (i, l)"
  by (simp_all add: new_search_def row_ok_def search_row_key_def)

lemma settle_inv: "queue_inv q \<Longrightarrow> queue_inv (SettlePendingSearch i l outcome now owner q)"
  unfolding SettlePendingSearch_def by (erule queue_inv_update) (auto simp: row_defs)

lemma clear_resume_inv: "queue_inv q \<Longrightarrow> queue_inv (ClearSearchResume i l q)"
  unfolding ClearSearchResume_def by (erule queue_inv_update) (auto simp: row_defs)

lemma upsert_priority_inv:
  "\<lbrakk>queue_inv q; UpsertSearchStateWithPriority i l next prio q = Ok q'\<rbrakk> \<Longrightarrow> queue_inv q'"
  unfolding UpsertSearchStateWithPriority_def
  by (simp split: if_split_asm, erule (1) queue_inv_upsert) (auto simp: row_defs new_search_def)

lemma renew_inv: "\<lbrakk>queue_inv q; RenewSearchLease j now dur q = Ok q'\<rbrakk> \<Longrightarrow> queue_inv q'"
proof -
  assume inv: "queue_inv q" and ok: "RenewSearchLease j now dur q = Ok q'"
  have "queue_inv (q\<lparr>q_searches := sql_update (owned_by j)
      (\<lambda>r. r\<lparr>sr_lease_until_ns := Some (unix_nano (now + dur))\<rparr>) (q_searches q)\<rparr>)"
    using inv
  proof (rule queue_inv_update)
    fix r assume r: "r \<in> set (q_searches q)" "owned_by j r" "row_ok r"
    with inv have "paired sr_lease_owner sr_lease_until_ns r" by (auto simp: queue_inv_def dest: lease_invD(2))
    with r show "kept r (r\<lparr>sr_lease_until_ns := Some (unix_nano (now + dur))\<rparr>)
        \<and> row_ok (r\<lparr>sr_lease_until_ns := Some (unix_nano (now + dur))\<rparr>)"
      by (auto simp: row_defs paired_def owned_by_def)
  qed
  with ok show "queue_inv q'" by (auto simp: RenewSearchLease_def split: if_split_asm)
qed

lemma release_inv: "\<lbrakk>queue_inv q; ReleaseSearchLease j q = Ok q'\<rbrakk> \<Longrightarrow> queue_inv q'"
  unfolding ReleaseSearchLease_def
  by (auto split: if_split_asm intro!: queue_inv_update simp: row_defs)

lemma claim_inv:
  assumes "queue_inv q" "ClaimSearch i l j now lease q = Ok (b, q')" "free_owner q (i, l) j"
  shows "queue_inv q'"
proof -
  from assms(2) obtain new p f where ok: "upsert_search q new p f = Ok q'"
    and new: "new = (new_search i l pending (unix_nano now) (unix_nano now) SearchPriorityMissing)
        \<lparr>sr_lease_owner := Some j, sr_lease_until_ns := Some (unix_nano (now + lease))\<rparr>"
    and f: "f = (\<lambda>r. r\<lparr>sr_lease_owner := Some j, sr_lease_until_ns := Some (unix_nano (now + lease)), sr_rerun_requested := False\<rparr>)"
    by (auto simp: ClaimSearch_def Let_def split: if_split_asm sum.split_asm)
  from assms(1) ok show ?thesis
    by (rule queue_inv_upsert_grant)
      (use assms(3) in \<open>auto simp: new f row_ok_def new_search_def search_row_key_def\<close>)
qed

lemma history_searches [simp]:
  "insertSearchHistory i l outcome d t q = Ok q' \<Longrightarrow> q_searches q' = q_searches q"
  by (auto simp: insertSearchHistory_def split: option.split_asm)

lemma completed_row_ok: "row_ok r \<Longrightarrow> kept r (completed_row c resume r) \<and> row_ok (completed_row c resume r)"
  by (cases resume) (auto simp: completed_row_def row_defs Let_def)

lemma deleted_row_ok: "kept r (deleted_row r) \<and> row_ok (deleted_row r)"
  by (simp add: deleted_row_def row_defs)

text \<open>What a successful completion does to the table of searches.\<close>

lemma CompleteSearch_Ok:
  assumes "CompleteSearch rp wall c q = Ok (res, q')"
  obtains r m resume kept' where
    "r \<in> set (q_searches q)" "owned_by (co_job_id c) r" "find_media q (sr_media_id r) = Some m"
    "kept_resume rp wall c m r = Ok (resume, kept')"
    "q_searches q' = sql_update (owned_by (co_job_id c)) (if mr_deleted m then deleted_row else completed_row c resume) (q_searches q)"
    "sql_count (owned_by (co_job_id c)) (q_searches q) = 1"
    "res = \<lparr>cr_rerun_scheduled = (\<not> mr_deleted m \<and> sr_rerun_requested r), cr_resume_count = kept'\<rparr>"
proof -
  from assms obtain r where r:
      "find (\<lambda>r. owned_by (co_job_id c) r \<and> find_media q (sr_media_id r) \<noteq> None) (q_searches q) = Some r"
    by (auto simp: CompleteSearch_def split: if_split_asm option.split_asm)
  then obtain m where m: "find_media q (sr_media_id r) = Some m" and mem: "r \<in> set (q_searches q)" "owned_by (co_job_id c) r"
    by (auto simp: find_Some_iff)
  from assms r m obtain resume kept' where "kept_resume rp wall c m r = Ok (resume, kept')"
      "sql_count (owned_by (co_job_id c)) (q_searches q) = 1"
      "q_searches q' = sql_update (owned_by (co_job_id c)) (if mr_deleted m then deleted_row else completed_row c resume) (q_searches q)"
      "res = \<lparr>cr_rerun_scheduled = (\<not> mr_deleted m \<and> sr_rerun_requested r), cr_resume_count = kept'\<rparr>"
    by (auto simp: CompleteSearch_def Let_def split: if_split_asm option.split_asm sum.split_asm prod.split_asm)
  with mem m show thesis by (intro that)
qed

lemma complete_inv: "\<lbrakk>queue_inv q; CompleteSearch rp wall c q = Ok (res, q')\<rbrakk> \<Longrightarrow> queue_inv q'"
proof -
  assume inv: "queue_inv q" and "CompleteSearch rp wall c q = Ok (res, q')"
  from this(2) show "queue_inv q'"
  proof (rule CompleteSearch_Ok)
    fix m resume
    assume rows: "q_searches q' = sql_update (owned_by (co_job_id c))
        (if mr_deleted m then deleted_row else completed_row c resume) (q_searches q)"
    have "queue_inv (q\<lparr>q_searches := sql_update (owned_by (co_job_id c))
        (if mr_deleted m then deleted_row else completed_row c resume) (q_searches q)\<rparr>)"
      using inv by (rule queue_inv_update) (simp add: completed_row_ok deleted_row_ok)
    then show ?thesis by (simp add: queue_inv_def rows)
  qed
qed

lemma upgrade_inv: "\<lbrakk>queue_inv q; EnsureUpgradeSearch i l next q = Ok q'\<rbrakk> \<Longrightarrow> queue_inv q'"
  unfolding EnsureUpgradeSearch_def
  by (simp split: if_split_asm option.split_asm, erule (1) queue_inv_upsert) (auto simp: row_defs new_search_def)

lemma scheduled_row_ok: "row_ok r \<Longrightarrow> kept r (scheduled_row n p r) \<and> row_ok (scheduled_row n p r)"
  by (auto simp: scheduled_row_def row_defs)

lemma unsupported_row_ok: "row_ok r \<Longrightarrow> kept r (unsupported_row n p u r) \<and> row_ok (unsupported_row n p u r)"
  by (auto simp: unsupported_row_def row_defs Let_def)

lemma schedule_inv: "\<lbrakk>queue_inv q; scheduleMediaSearchTx i l when prio u q = Ok q'\<rbrakk> \<Longrightarrow> queue_inv q'"
  unfolding scheduleMediaSearchTx_def
  by (simp split: if_split_asm; erule (1) queue_inv_upsert)
    (simp_all add: scheduled_row_ok unsupported_row_ok, simp_all add: row_ok_def new_search_def)

lemma retry_inv: "queue_inv q \<Longrightarrow> queue_inv (snd (RetryThrottledSearches now ls q))"
  by (auto simp: RetryThrottledSearches_def Let_def row_defs intro!: queue_inv_update)

lemma delete_inv: "queue_inv q \<Longrightarrow> queue_inv (delete_media i q)"
proof -
  assume "queue_inv q"
  then have "queue_inv (q\<lparr>q_searches := sql_update (\<lambda>r. sr_media_id r = i) cancelled_row (q_searches q)\<rparr>)"
    by (rule queue_inv_update) (auto simp: cancelled_row_def row_defs)
  then show ?thesis by (simp add: delete_media_def queue_inv_def)
qed

text \<open>The invariant is about the searches only.\<close>

lemma queue_inv_rows:
  assumes "queue_inv q" "q_searches q' = sql_update p f (q_searches q)"
    and "\<And>r. row_ok r \<Longrightarrow> kept r (f r) \<and> row_ok (f r)"
  shows "queue_inv q'"
proof -
  have "queue_inv (q\<lparr>q_searches := sql_update p f (q_searches q)\<rparr>)"
    using assms(1) by (rule queue_inv_update) (simp add: assms(3))
  with assms(2) show ?thesis by (simp add: queue_inv_def)
qed

lemma queue_inv_same: "\<lbrakk>queue_inv q; q_searches q' = q_searches q\<rbrakk> \<Longrightarrow> queue_inv q'"
  by (simp add: queue_inv_def)

lemma media_row_inv: "queue_inv q \<Longrightarrow> queue_inv (update_media_row m q)"
proof (cases "q_searches (update_media_row m q) = q_searches q")
  case True
  assume "queue_inv q"
  from queue_inv_same [OF this True] show ?thesis .
next
  case False
  assume inv: "queue_inv q"
  from False have "q_searches (update_media_row m q) = sql_update (\<lambda>r. sr_media_id r = mr_id m) (media_search_order m) (q_searches q)"
    by (auto simp: update_media_row_def Let_def split: option.splits if_splits)
  from inv this show ?thesis by (rule queue_inv_rows) (auto simp: media_search_order_def row_defs)
qed

lemma inventory_searches:
  assumes "ReplaceTrackInventory i expected fp n ls q = Ok q'"
  obtains changed p where "q_searches q' = sql_update p (replaced_row n)
     (sql_update (\<lambda>r. sr_media_id r = i \<and> changed) (\<lambda>r. clear_resume r) (q_searches q))" "\<And>r. p r \<Longrightarrow> lease_free n r"
proof -
  obtain m where m: "find_media q i = Some m"
    using assms by (auto simp: ReplaceTrackInventory_def split: option.splits)
  define changed where "changed = (mr_file_id m \<noteq> fp_file_id fp \<or> mr_size m \<noteq> fp_size fp \<or> mr_mod_time_ns m \<noteq> unix_nano (fp_mod_time fp))"
  define p where "p = (\<lambda>r. mr_size m \<noteq> fp_size fp \<and> sr_media_id r = i \<and> sr_language r \<in> set ls \<and> lease_free n r)"
  have none: "sql_update (\<lambda>r. False) f rows = rows" for f :: "search_row \<Rightarrow> search_row" and rows by (simp add: sql_update_def)
  have "q_searches q' = sql_update p (replaced_row n) (sql_update (\<lambda>r. sr_media_id r = i \<and> changed) (\<lambda>r. clear_resume r) (q_searches q))"
    using assms unfolding ReplaceTrackInventory_def m option.case Let_def changed_def [symmetric]
    by (cases changed; cases "mr_size m = fp_size fp") (auto simp: p_def none split: if_split_asm)
  then show ?thesis by (rule that) (simp add: p_def)
qed

lemma inventory_inv: "\<lbrakk>queue_inv q; ReplaceTrackInventory i expected fp n ls q = Ok q'\<rbrakk> \<Longrightarrow> queue_inv q'"
proof -
  assume inv: "queue_inv q" and ok: "ReplaceTrackInventory i expected fp n ls q = Ok q'"
  obtain changed p where s: "q_searches q' = sql_update p (replaced_row n)
     (sql_update (\<lambda>r. sr_media_id r = i \<and> changed) (\<lambda>r. clear_resume r) (q_searches q))"
    using inventory_searches [OF ok] by metis
  have "queue_inv (q\<lparr>q_searches := sql_update (\<lambda>r. sr_media_id r = i \<and> changed) (\<lambda>r. clear_resume r) (q_searches q)\<rparr>)"
    by (rule queue_inv_rows [OF inv]) (simp, auto simp: row_defs)
  then show ?thesis by (rule queue_inv_rows) (simp add: s, auto simp: replaced_row_def row_defs)
qed

lemma insert_ignore_inv:
  assumes "lease_inv search_row_key sr_lease_owner sr_lease_until_ns rows" "\<forall>r \<in> set rows. row_ok r"
    and "row_ok new" "sr_lease_owner new = None" "sr_lease_until_ns new = None" "search_row_key new = (i, l)"
  shows "lease_ok (sql_upsert (search_key i l) (\<lambda>_. False) id new rows)
    \<and> (\<forall>r \<in> set (sql_upsert (search_key i l) (\<lambda>_. False) id new rows). row_ok r)"
proof (cases "\<exists>r \<in> set rows. search_key i l r")
  case True
  then show ?thesis using assms by (simp add: sql_upsert_def sql_update_none)
next
  case False
  then have "lease_ok (rows @ [new])"
    using assms by (intro sq.inv_append) (auto simp: paired_def search_key_iff)
  with False assms show ?thesis by (simp add: sql_upsert_def)
qed

lemma backfill_row_ok:
  "row_ok (backfill_row q now l m)" "sr_lease_owner (backfill_row q now l m) = None"
  "sr_lease_until_ns (backfill_row q now l m) = None" "search_row_key (backfill_row q now l m) = (mr_id m, l)"
  by (simp_all add: backfill_row_def Let_def) (simp_all add: new_search_def row_ok_def search_row_key_def)

lemma configured_rows:
  "q_searches (EnsureConfiguredLanguageSearch inst l now q) =
     fold (\<lambda>m. sql_upsert (search_key (mr_id m) l) (\<lambda>_. False) id (backfill_row q now l m))
       (filter (\<lambda>m. mr_instance m = inst \<and> \<not> mr_deleted m) (q_media q)) (q_searches q)"
  by (simp add: EnsureConfiguredLanguageSearch_def)

lemma configured_inv: "queue_inv q \<Longrightarrow> queue_inv (EnsureConfiguredLanguageSearch inst l now q)"
proof -
  have "lease_ok (fold (\<lambda>m. sql_upsert (search_key (mr_id m) l) (\<lambda>_. False) id (backfill_row q now l m)) ms rows)
      \<and> (\<forall>r \<in> set (fold (\<lambda>m. sql_upsert (search_key (mr_id m) l) (\<lambda>_. False) id (backfill_row q now l m)) ms rows). row_ok r)"
    if "lease_ok rows" "\<forall>r \<in> set rows. row_ok r" for ms rows
    using that
  proof (induction ms arbitrary: rows)
    case (Cons m ms)
    have "lease_ok (sql_upsert (search_key (mr_id m) l) (\<lambda>_. False) id (backfill_row q now l m) rows)
      \<and> (\<forall>r \<in> set (sql_upsert (search_key (mr_id m) l) (\<lambda>_. False) id (backfill_row q now l m) rows). row_ok r)"
      by (rule insert_ignore_inv [OF Cons.prems]) (simp_all add: backfill_row_ok)
    with Cons.IH show ?case unfolding fold_Cons o_apply by blast
  qed simp
  then show "queue_inv q \<Longrightarrow> queue_inv (EnsureConfiguredLanguageSearch inst l now q)"
    unfolding queue_inv_def configured_rows by blast
qed

lemma configured_all_inv: "queue_inv q \<Longrightarrow> queue_inv (snd (EnsureConfiguredLanguageSearches is ls now q))"
proof -
  have l: "queue_inv q \<Longrightarrow> queue_inv (fold (\<lambda>language q. EnsureConfiguredLanguageSearch i language now q) ls q)" for i q
    by (induction ls arbitrary: q) (simp_all add: configured_inv)
  have "queue_inv q \<Longrightarrow> queue_inv (fold (\<lambda>i q. fold (\<lambda>language q. EnsureConfiguredLanguageSearch i language now q) ls q) is q)" for q
    by (induction "is" arbitrary: q) (simp_all add: l)
  then show "queue_inv q \<Longrightarrow> queue_inv (snd (EnsureConfiguredLanguageSearches is ls now q))"
    by (simp add: EnsureConfiguredLanguageSearches_def Let_def)
qed

lemma queue_inv_map:
  assumes "queue_inv q" "q_searches q' = map h (q_searches q)" "\<And>r. row_ok r \<Longrightarrow> kept r (h r) \<and> row_ok (h r)"
  shows "queue_inv q'"
proof -
  have "queue_inv (q\<lparr>q_searches := sql_update (\<lambda>_. True) h (q_searches q)\<rparr>)"
    using assms(1) by (rule queue_inv_update) (simp add: assms(3))
  then show ?thesis by (simp add: queue_inv_def assms(2) sql_update_def)
qed

lemma priorities_inv: "queue_inv q \<Longrightarrow> queue_inv (SetInstanceQueuePriorities ps q)"
proof -
  assume inv: "queue_inv q"
  have "\<exists>q'. q_searches (SetInstanceQueuePriorities ps q) = map (reranked q') (q_searches q)"
    by (simp add: SetInstanceQueuePriorities_def Let_def del: map_eq_conv) blast
  then obtain q' where rows: "q_searches (SetInstanceQueuePriorities ps q) = map (reranked q') (q_searches q)" ..
  show ?thesis using inv rows by (rule queue_inv_map) (simp add: reranked_def row_defs)
qed

lemma rejected_row_kept:
  assumes "row_ok r" "paired sr_lease_owner sr_lease_until_ns r"
  shows "kept r (rejected_row n None r) \<and> row_ok (rejected_row n None r)"
proof -
  have "sr_lease_until_ns r = Some u \<Longrightarrow> sr_lease_owner r \<noteq> None" for u
    using assms(2) by (simp add: paired_def)
  with assms(1) show ?thesis by (auto simp: rejected_row_def row_defs Let_def split: option.split)
qed

definition row_held :: "int \<Rightarrow> search_row \<Rightarrow> bool" where
  "row_held now_ns r \<longleftrightarrow> \<not> lease_free now_ns r"

lemma row_held_iff: "row_held n r \<longleftrightarrow> (\<exists>u. sr_lease_until_ns r = Some u \<and> n < u)"
  by (auto simp: row_held_def lease_free_def split: option.split)

lemma rejected_row_held:
  "row_held n r \<Longrightarrow> rejected_row n (Some (j, u)) r = rejected_row n None r"
  "\<not> row_held n r \<Longrightarrow> rejected_row n (Some (j, u)) r
     = (rejected_row n None r)\<lparr>sr_rerun_requested := False, sr_lease_owner := Some j, sr_lease_until_ns := Some u\<rparr>"
  by (auto simp: rejected_row_def Let_def row_held_iff split: option.split)

lemma reject_row_inv:
  assumes inv: "queue_inv q" and fresh: "free_owner q (i, l) j"
  shows "queue_inv (q\<lparr>q_searches := sql_update (search_key i l) (rejected_row n (Some (j, u))) (q_searches q)\<rparr>)"
proof -
  let ?held = "\<lambda>r. search_key i l r \<and> row_held n r" and ?free = "\<lambda>r. search_key i l r \<and> \<not> row_held n r"
  have pair: "paired sr_lease_owner sr_lease_until_ns r" if "r \<in> set (q_searches q)" for r
    using that inv by (auto simp: queue_inv_def dest: lease_invD(2))
  have keep: "kept r (rejected_row n None r) \<and> row_ok (rejected_row n None r)"
    if "r \<in> set (q_searches q)" "row_ok r" for r
    using rejected_row_kept pair that by blast
  show ?thesis
  proof (cases "\<exists>r \<in> set (q_searches q). ?held r")
    case True
    then obtain r0 where r0: "r0 \<in> set (q_searches q)" "?held r0" by blast
    have all: "row_held n r" if "r \<in> set (q_searches q)" "search_key i l r" for r
      using that r0 inv by (metis queue_inv_def search_key_iff sq.inv_key)
    have "sql_update (search_key i l) (rejected_row n (Some (j, u))) (q_searches q)
        = sql_update (search_key i l) (rejected_row n None) (q_searches q)"
      by (rule sql_update_cong) (auto simp: all rejected_row_held)
    moreover have "queue_inv (q\<lparr>q_searches := sql_update (search_key i l) (rejected_row n None) (q_searches q)\<rparr>)"
      using inv by (rule queue_inv_update) (simp add: keep)
    ultimately show ?thesis by simp
  next
    case False
    have free: "\<not> row_held n r" if "r \<in> set (q_searches q)" "search_key i l r" for r using that False by blast
    have "lease_ok (sql_update (search_key i l) (rejected_row n (Some (j, u))) (q_searches q))"
    proof (rule sq.inv_grant [OF queue_invD(1) [OF inv], where k = "(i, l)" and j = j])
      show "search_row_key (rejected_row n (Some (j, u)) r) = search_row_key r
          \<and> sr_lease_owner (rejected_row n (Some (j, u)) r) = Some j
          \<and> sr_lease_until_ns (rejected_row n (Some (j, u)) r) \<noteq> None"
        if "r \<in> set (q_searches q)" "search_key i l r" for r
        unfolding rejected_row_held(2) [OF free [OF that]]
        by (simp add: search_row_key_def rejected_row_def Let_def)
    qed (use fresh in \<open>simp_all add: free_owner_def search_key_iff\<close>)
    moreover have "row_ok (rejected_row n (Some (j, u)) r)" if "r \<in> set (q_searches q)" "search_key i l r" for r
    proof -
      show ?thesis unfolding rejected_row_held(2) [OF free [OF that]]
        by (simp add: row_ok_def rejected_row_def Let_def)
    qed
    ultimately show ?thesis using inv by (auto simp: queue_inv_def elim!: in_sql_updateE)
  qed
qed

lemma putCandidateRejection_Ok:
  "putCandidateRejection rj q = Ok q' \<Longrightarrow> q_searches q' = q_searches q \<and> q_media q' = q_media q"
  by (auto simp: putCandidateRejection_def split: if_split_asm)

lemma reject_inv:
  assumes inv: "queue_inv q" and ok: "RecordUserRejection rj now j lease h q = Ok q'"
    and fresh: "j \<noteq> [] \<Longrightarrow> free_owner q (rj_media_id rj, rj_language rj) j"
  shows "queue_inv q'"
proof -
  define grant where "grant = (if j \<noteq> [] then Some (j, unix_nano (now + lease)) else None)"
  define new where "new = (new_search (rj_media_id rj) (rj_language rj) pending (unix_nano now) (unix_nano now)
      SearchPriorityImport)\<lparr>sr_replace_installed := True, sr_lease_owner := map_option fst grant,
      sr_lease_until_ns := map_option snd grant\<rparr>"
  from ok obtain q1 q2 where q1: "putCandidateRejection rj q = Ok q1"
    and q2: "upsert_search q1 new (\<lambda>_. True) (rejected_row (unix_nano now) grant) = Ok q2"
    and q': "q_searches q' = q_searches q2"
    by (auto simp: RecordUserRejection_def Let_def new_def grant_def split: if_split_asm sum.split_asm)
  have inv1: "queue_inv q1" using inv putCandidateRejection_Ok [OF q1] by (simp add: queue_inv_def)
  have key: "sr_media_id new = rj_media_id rj" "sr_language new = rj_language rj"
    by (simp_all add: new_def new_search_def)
  have "queue_inv q2"
  proof (cases "j = []")
    case True
    from inv1 q2 show ?thesis
      by (rule queue_inv_upsert)
        (use rejected_row_kept in \<open>simp_all add: new_def grant_def True, simp_all add: row_ok_def new_search_def\<close>)
  next
    case False
    have fr: "free_owner q1 (rj_media_id rj, rj_language rj) j"
      using fresh [OF False] putCandidateRejection_Ok [OF q1] by (simp add: free_owner_def)
    show ?thesis
    proof (cases "\<exists>r \<in> set (q_searches q1). search_key (rj_media_id rj) (rj_language rj) r")
      case True
      then have "q2 = q1\<lparr>q_searches := sql_update (search_key (rj_media_id rj) (rj_language rj))
          (rejected_row (unix_nano now) grant) (q_searches q1)\<rparr>"
        using upsert_search_Ok(2) [OF q2] by (simp add: sql_upsert_def key)
      with reject_row_inv [OF inv1 fr] False show ?thesis by (simp add: grant_def)
    next
      case no: False
      then have "upsert_search q1 new (\<lambda>_. False) (set_search_lease grant) = Ok q2"
        using q2 by (simp add: upsert_search_def sql_upsert_def key split: if_split_asm)
      then have "upsert_search q1 new (\<lambda>_. False) (\<lambda>r. set_search_lease grant (r\<lparr>sr_rerun_requested := False\<rparr>)) = Ok q2"
        using no by (simp add: upsert_search_def sql_upsert_def key split: if_split_asm)
      with inv1 show ?thesis
        by (rule queue_inv_upsert_grant [where j = j])
          (use fr False in \<open>auto simp: new_def grant_def row_ok_def new_search_def search_row_key_def set_search_lease_def\<close>)
    qed
  qed
  then show ?thesis by (simp add: queue_inv_def q')
qed

lemma clear_reject_inv: "queue_inv q \<Longrightarrow> queue_inv (snd (ClearUserRejections i l q))"
proof -
  assume "queue_inv q"
  then have "queue_inv (q\<lparr>q_searches := sql_update (search_key i l) (\<lambda>r. r\<lparr>sr_replace_installed := False\<rparr>) (q_searches q)\<rparr>)"
    by (rule queue_inv_update) (auto simp: row_defs)
  then show ?thesis by (simp add: ClearUserRejections_def Let_def queue_inv_def)
qed

section \<open>Leasing\<close>

text \<open>
  The claim loop, for rows with distinct keys: each selected row is leased to its fresh owner, the
  other rows are left alone, and every item yields a lease.
\<close>

definition claimed_row :: "gotime \<Rightarrow> string \<Rightarrow> due \<Rightarrow> search_row \<Rightarrow> search_row" where
  "claimed_row leaseUntil j item r =
     (if du_malformed_resume item then (clear_resume r)\<lparr>sr_resume_saved_at_ns := 0\<rparr> else r)
       \<lparr>sr_lease_owner := Some j, sr_lease_until_ns := Some (unix_nano leaseUntil), sr_rerun_requested := False\<rparr>"

lemma claim_due_step:
  assumes "distinct (map search_row_key rows)" "du_row item \<in> set rows" "lease_free (unix_nano now) (du_row item)"
  shows "claim_due fresh now leaseUntil (k, item) (leases, rows)
    = (leases @ [lease_of (fresh k) leaseUntil item],
       sql_update (\<lambda>r. search_row_key r = search_row_key (du_row item)) (claimed_row leaseUntil (fresh k) item) rows)"
proof -
  let ?key = "search_key (sr_media_id (du_row item)) (sr_language (du_row item))"
  let ?reset = "\<lambda>r. (clear_resume r)\<lparr>sr_resume_saved_at_ns := 0\<rparr>"
  let ?rows1 = "if du_malformed_resume item then sql_update ?key ?reset rows else rows"
  let ?claim = "\<lambda>r. ?key r \<and> lease_free (unix_nano now) r"
  have key: "?key r \<longleftrightarrow> r = du_row item" if "r \<in> set rows" for r
    using that assms(1,2) by (auto simp: search_key_iff [of "sr_media_id _"] search_row_key_def [symmetric]
        distinct_map dest: inj_onD)
  have free: "lease_free n (?reset r) = lease_free n r" "?key (?reset r) = ?key r" for n r
    by (simp_all add: lease_free_def search_key_def)
  have cnt: "sql_count (\<lambda>r. r = du_row item) rows = 1"
    using assms(1,2)
  proof (induction rows)
    case (Cons r rows)
    then show ?case
      by (cases "r = du_row item") (auto simp: sql_count_def filter_empty_conv)
  qed simp
  have "sql_count ?claim ?rows1 = sql_count ?claim rows"
    by (auto simp: sql_count_def sql_update_def filter_map comp_def free intro!: arg_cong [where f = length] filter_cong)
  also have "\<dots> = sql_count (\<lambda>r. r = du_row item) rows"
    unfolding sql_count_def using key assms(3) by (intro arg_cong [where f = length] filter_cong) auto
  finally have one: "sql_count ?claim ?rows1 = 1" using cnt by simp
  have "sql_update ?claim (\<lambda>r. r\<lparr>sr_lease_owner := Some (fresh k),
          sr_lease_until_ns := Some (unix_nano leaseUntil), sr_rerun_requested := False\<rparr>) ?rows1
      = sql_update (\<lambda>r. search_row_key r = search_row_key (du_row item)) (claimed_row leaseUntil (fresh k) item) rows"
    using key assms(3)
    by (auto simp: sql_update_def free claimed_row_def search_key_iff search_row_key_def intro!: map_cong)
  with one show ?thesis unfolding claim_due_def Let_def by simp
qed

text \<open>The whole loop: item by item, each row of an item gets its lease.\<close>

definition claim_rows :: "(nat \<Rightarrow> string) \<Rightarrow> gotime \<Rightarrow> nat \<Rightarrow> due list \<Rightarrow> search_row list \<Rightarrow> search_row list" where
  "claim_rows fresh leaseUntil n items rows =
     fold (\<lambda>(k, item). sql_update (\<lambda>r. search_row_key r = search_row_key (du_row item))
                         (claimed_row leaseUntil (fresh k) item)) (List.enumerate n items) rows"

lemma claimed_row_key [simp]: "search_row_key (claimed_row t j item r) = search_row_key r"
  by (simp add: claimed_row_def search_row_key_def)

lemma claim_rows_keys [simp]: "map search_row_key (claim_rows fresh t n items rows) = map search_row_key rows"
  unfolding claim_rows_def
  by (induction items arbitrary: n rows) (auto simp: map_sql_update)

lemma claim_loop:
  assumes "distinct (map search_row_key rows)" "distinct (map (\<lambda>i. search_row_key (du_row i)) items)"
    and "\<forall>item \<in> set items. du_row item \<in> set rows \<and> lease_free (unix_nano now) (du_row item)"
  shows "fold (claim_due fresh now leaseUntil) (List.enumerate n items) (leases, rows)
    = (leases @ map (\<lambda>(k, item). lease_of (fresh k) leaseUntil item) (List.enumerate n items),
       claim_rows fresh leaseUntil n items rows)"
  using assms
proof (induction items arbitrary: n rows leases)
  case (Cons item items)
  let ?rows = "sql_update (\<lambda>r. search_row_key r = search_row_key (du_row item))
      (claimed_row leaseUntil (fresh n) item) rows"
  have step: "claim_due fresh now leaseUntil (n, item) (leases, rows)
      = (leases @ [lease_of (fresh n) leaseUntil item], ?rows)"
    by (rule claim_due_step) (use Cons.prems in auto)
  have "distinct (map search_row_key ?rows)" using Cons.prems(1) by (simp add: map_sql_update)
  moreover have "\<forall>i \<in> set items. du_row i \<in> set ?rows \<and> lease_free (unix_nano now) (du_row i)"
  proof
    fix i assume i: "i \<in> set items"
    with Cons.prems(2) have "search_row_key (du_row i) \<noteq> search_row_key (du_row item)"
      by (metis (no_types, lifting) distinct.simps(2) image_eqI list.simps(9) set_map)
    with i Cons.prems(3) show "du_row i \<in> set ?rows \<and> lease_free (unix_nano now) (du_row i)"
      by (auto intro: sql_update_frame)
  qed
  ultimately show ?case
    using Cons.IH [of ?rows "Suc n" "leases @ [lease_of (fresh n) leaseUntil item]"] Cons.prems(2)
    by (simp add: step claim_rows_def)
qed (simp add: claim_rows_def)

lemma scan_due_row [simp]: "du_row (scan_due rp q now r) = r"
  by (simp add: scan_due_def Let_def split: option.split)

lemma due_items_rows:
  "map du_row (due_items rp q now limit paused)
   = take (nat limit) (sort_key lease_key (filter (search_due rp q (unix_nano now) paused) (q_searches q)))"
  by (simp add: due_items_def comp_def)

lemma due_items_facts:
  assumes "queue_inv q"
  shows "distinct (map (\<lambda>i. search_row_key (du_row i)) (due_items rp q now limit paused))"
    and "item \<in> set (due_items rp q now limit paused) \<Longrightarrow> du_row item \<in> set (q_searches q)
      \<and> search_due rp q (unix_nano now) paused (du_row item)"
proof -
  have d: "distinct (map search_row_key (q_searches q))" using assms queue_invD(1) lease_invD(1) by blast
  have "distinct (map search_row_key (sort_key lease_key (filter (search_due rp q (unix_nano now) paused) (q_searches q))))"
    using d by (simp add: distinct_map inj_on_def)
  then have "distinct (map search_row_key (map du_row (due_items rp q now limit paused)))"
    unfolding due_items_rows by (simp add: distinct_map take_map [symmetric] distinct_take inj_on_subset [OF _ set_take_subset] flip: take_map)
  then show "distinct (map (\<lambda>i. search_row_key (du_row i)) (due_items rp q now limit paused))"
    by (simp add: comp_def)
  show "item \<in> set (due_items rp q now limit paused) \<Longrightarrow> du_row item \<in> set (q_searches q)
      \<and> search_due rp q (unix_nano now) paused (du_row item)"
    by (auto simp: due_items_def dest: in_set_takeD)
qed

lemma search_due_free: "search_due rp q n paused r \<Longrightarrow> lease_free n r"
  by (simp add: search_due_def split: option.split_asm)

text \<open>The scope of a claim policy with an empty list disables claims.\<close>

definition scope_disabled :: "repository \<Rightarrow> bool" where
  "scope_disabled rp \<longleftrightarrow> (case rp_scope rp of None \<Rightarrow> False | Some (instances, languages) \<Rightarrow> instances = [] \<or> languages = [])"

lemma LeaseDueSearchesExcept_Ok:
  assumes "queue_inv q" "0 < limit" "0 < dur" "\<not> scope_disabled rp"
  shows "LeaseDueSearchesExcept rp fresh now limit dur paused q =
     Ok (map (\<lambda>(k, item). lease_of (fresh k) (now + dur) item) (List.enumerate 0 (due_items rp q now limit paused)),
         q\<lparr>q_searches := claim_rows fresh (now + dur) 0 (due_items rp q now limit paused) (q_searches q)\<rparr>)"
proof -
  have "fold (claim_due fresh now (now + dur)) (List.enumerate 0 (due_items rp q now limit paused)) ([], q_searches q)
    = ([] @ map (\<lambda>(k, item). lease_of (fresh k) (now + dur) item) (List.enumerate 0 (due_items rp q now limit paused)),
       claim_rows fresh (now + dur) 0 (due_items rp q now limit paused) (q_searches q))"
    by (rule claim_loop)
      (use due_items_facts [OF assms(1)] search_due_free queue_invD(1) [OF assms(1)] lease_invD(1) in blast)+
  with assms(2-4) show ?thesis
    by (simp add: LeaseDueSearchesExcept_def scope_disabled_def)
qed

lemma claimed_row_lease [simp]:
  "sr_lease_owner (claimed_row t j item r) = Some j" "sr_lease_until_ns (claimed_row t j item r) = Some (unix_nano t)"
  by (simp_all add: claimed_row_def)

lemma claimed_row_ok: "row_ok r \<Longrightarrow> row_ok (claimed_row t j item r)"
  by (simp add: claimed_row_def row_ok_def)

lemma claim_rows_inv:
  assumes "lease_ok rows" "\<forall>r \<in> set rows. row_ok r" "inj_on fresh {n..<n + length items}"
    and "\<forall>r \<in> set rows. \<forall>k \<in> {n..<n + length items}. sr_lease_owner r \<noteq> Some (fresh k)"
  shows "lease_ok (claim_rows fresh t n items rows) \<and> (\<forall>r \<in> set (claim_rows fresh t n items rows). row_ok r)"
  using assms
proof (induction items arbitrary: n rows)
  case (Cons item items)
  let ?p = "\<lambda>r. search_row_key r = search_row_key (du_row item)"
  let ?rows = "sql_update ?p (claimed_row t (fresh n) item) rows"
  have "lease_ok ?rows"
    by (rule sq.inv_grant [OF Cons.prems(1), where k = "search_row_key (du_row item)" and j = "fresh n"])
      (use Cons.prems(4) in auto)
  moreover have "\<forall>r \<in> set ?rows. row_ok r"
    using Cons.prems(2) by (auto simp: claimed_row_ok elim!: in_sql_updateE)
  moreover have "sr_lease_owner r \<noteq> Some (fresh k)" if "r \<in> set ?rows" "k \<in> {Suc n..<Suc n + length items}" for r k
  proof -
    have "fresh k \<noteq> fresh n" using Cons.prems(3) that(2) by (auto dest!: inj_onD)
    then show ?thesis using that Cons.prems(4) by (auto elim!: in_sql_updateE)
  qed
  moreover have "inj_on fresh {Suc n..<Suc n + length items}"
    using Cons.prems(3) by (rule inj_on_subset) auto
  ultimately show ?case using Cons.IH [of ?rows "Suc n"] by (simp add: claim_rows_def)
qed (simp add: claim_rows_def)

definition fresh_ids :: "queue_db \<Rightarrow> (nat \<Rightarrow> string) \<Rightarrow> bool" where
  "fresh_ids q fresh \<longleftrightarrow> inj fresh \<and> (\<forall>r \<in> set (q_searches q). \<forall>k. sr_lease_owner r \<noteq> Some (fresh k))"

lemma lease_inv_step:
  assumes inv: "queue_inv q" and ok: "LeaseDueSearchesExcept rp fresh now limit dur paused q = Ok (leases, q')"
    and fresh: "fresh_ids q fresh"
  shows "queue_inv q'"
proof (cases "scope_disabled rp")
  case True
  with ok have "q' = q"
    by (auto simp: LeaseDueSearchesExcept_def scope_disabled_def split: if_split_asm)
  with inv show ?thesis by simp
next
  case False
  have "0 < limit" "0 < dur" using ok by (auto simp: LeaseDueSearchesExcept_def split: if_split_asm)
  with LeaseDueSearchesExcept_Ok [OF inv this False, of fresh now paused] ok
  have q': "q_searches q' = claim_rows fresh (now + dur) 0 (due_items rp q now limit paused) (q_searches q)" by auto
  have "lease_ok (q_searches q') \<and> (\<forall>r \<in> set (q_searches q'). row_ok r)"
    unfolding q'
    by (rule claim_rows_inv)
      (use inv fresh in \<open>auto simp: queue_inv_def fresh_ids_def inj_on_def inj_def\<close>)
  then show ?thesis by (simp add: queue_inv_def)
qed

section \<open>Runs of the queue\<close>

text \<open>The operations, each one transaction; one that fails changes nothing.\<close>

datatype queue_op =
    QLease "nat \<Rightarrow> string" gotime int duration "RouteKey list"
  | QRenew string gotime duration
  | QComplete gotime SearchCompletion
  | QClaim int language string gotime duration
  | QRelease string
  | QSettle int language string gotime string
  | QClearResume int language
  | QUpgrade int language gotime
  | QRetry gotime "language list"
  | QSchedule int language gotime search_priority string
  | QDelete int
  | QBackfill "string list" "language list" gotime
  | QPriorities "(string \<times> int) list"
  | QReject CandidateRejection gotime string duration SearchHistoryDetail
  | QClearReject int language
  | QInventory int MediaFingerprint MediaFingerprint int "language list"
  | QMedia media_row

fun ok_or :: "queue_db \<Rightarrow> (store_error, queue_db) result \<Rightarrow> queue_db" where
  "ok_or q (Inr q') = q'"
| "ok_or q (Inl e) = q"

fun queue_apply :: "repository \<Rightarrow> queue_op \<Rightarrow> queue_db \<Rightarrow> queue_db" where
  "queue_apply rp (QLease fresh now limit dur paused) q =
     (case LeaseDueSearchesExcept rp fresh now limit dur paused q of Ok (_, q') \<Rightarrow> q' | Err _ \<Rightarrow> q)"
| "queue_apply rp (QRenew j now dur) q = ok_or q (RenewSearchLease j now dur q)"
| "queue_apply rp (QComplete wall c) q = (case CompleteSearch rp wall c q of Ok (_, q') \<Rightarrow> q' | Err _ \<Rightarrow> q)"
| "queue_apply rp (QClaim i l j now lease) q = (case ClaimSearch i l j now lease q of Ok (_, q') \<Rightarrow> q' | Err _ \<Rightarrow> q)"
| "queue_apply rp (QRelease j) q = ok_or q (ReleaseSearchLease j q)"
| "queue_apply rp (QSettle i l outcome now j) q = SettlePendingSearch i l outcome now j q"
| "queue_apply rp (QClearResume i l) q = ClearSearchResume i l q"
| "queue_apply rp (QUpgrade i l next) q = ok_or q (EnsureUpgradeSearch i l next q)"
| "queue_apply rp (QRetry now ls) q = snd (RetryThrottledSearches now ls q)"
| "queue_apply rp (QSchedule i l when prio u) q = ok_or q (scheduleMediaSearchTx i l when prio u q)"
| "queue_apply rp (QDelete i) q = delete_media i q"
| "queue_apply rp (QBackfill is ls now) q = snd (EnsureConfiguredLanguageSearches is ls now q)"
| "queue_apply rp (QPriorities ps) q = SetInstanceQueuePriorities ps q"
| "queue_apply rp (QReject rj now j lease h) q = ok_or q (RecordUserRejection rj now j lease h q)"
| "queue_apply rp (QClearReject i l) q = snd (ClearUserRejections i l q)"
| "queue_apply rp (QInventory i expected fingerprint now_ns installed) q =
     ok_or q (ReplaceTrackInventory i expected fingerprint now_ns installed q)"
| "queue_apply rp (QMedia m) q = update_media_row m q"

text \<open>
  New owners come from \<open>randomID\<close>: they own no other search. \<open>UpsertSearchStateWithPriority\<close>, which only tests
  call, and \<open>ForgetInstance\<close> end leases, so they are steps of \<open>queue_reach\<close> and not operations of a run; so is the
  deletion of rows with their media and whatever changes other tables.
\<close>

fun op_fresh :: "queue_op \<Rightarrow> queue_db \<Rightarrow> bool" where
  "op_fresh (QLease fresh now limit dur paused) q = fresh_ids q fresh"
| "op_fresh (QClaim i l j now lease) q = free_owner q (i, l) j"
| "op_fresh (QReject rj now j lease h) q = (j \<noteq> [] \<longrightarrow> free_owner q (rj_media_id rj, rj_language rj) j)"
| "op_fresh _ q = True"

inductive queue_reach :: "repository \<Rightarrow> queue_db \<Rightarrow> bool" for rp where
  reach_start: "q_searches q = [] \<Longrightarrow> queue_reach rp q"
| reach_op: "\<lbrakk>queue_reach rp q; op_fresh op q\<rbrakk> \<Longrightarrow> queue_reach rp (queue_apply rp op q)"
| reach_enqueue: "\<lbrakk>queue_reach rp q; UpsertSearchStateWithPriority i l due prio q = Ok q'\<rbrakk> \<Longrightarrow> queue_reach rp q'"
| reach_forget: "\<lbrakk>queue_reach rp q; ForgetInstance name q = Ok q'\<rbrakk> \<Longrightarrow> queue_reach rp q'"
| reach_media: "\<lbrakk>queue_reach rp q; q_searches q' = filter p (q_searches q)\<rbrakk> \<Longrightarrow> queue_reach rp q'"

lemma queue_inv_ok_or: "\<lbrakk>queue_inv q; \<And>q'. res = Ok q' \<Longrightarrow> queue_inv q'\<rbrakk> \<Longrightarrow> queue_inv (ok_or q res)"
  by (cases res) auto

lemma queue_apply_inv: "\<lbrakk>queue_inv q; op_fresh op q\<rbrakk> \<Longrightarrow> queue_inv (queue_apply rp op q)"
  by (cases op)
    (auto intro: lease_inv_step renew_inv complete_inv claim_inv release_inv settle_inv clear_resume_inv
      upgrade_inv retry_inv schedule_inv delete_inv configured_all_inv priorities_inv reject_inv clear_reject_inv
      inventory_inv media_row_inv queue_inv_ok_or split: sum.split)

lemma lease_ok_filter: "lease_ok rows \<Longrightarrow> lease_ok (filter p rows)"
  by (rule lease_invI) (auto dest: lease_invD simp: distinct_map_filter)

lemma queue_reach_inv: "queue_reach rp q \<Longrightarrow> queue_inv q"
proof (induction rule: queue_reach.induct)
  case (reach_start q)
  then show ?case by (simp add: queue_inv_def lease_inv_def)
next
  case (reach_op q op)
  then show ?case by (simp add: queue_apply_inv)
next
  case (reach_enqueue q i l due prio q')
  then show ?case by (simp add: upsert_priority_inv)
next
  case (reach_forget q name q')
  then show ?case by (auto simp: queue_inv_def ForgetInstance_def Let_def sql_delete_def intro: lease_ok_filter split: if_split_asm)
next
  case (reach_media q q' p)
  then show ?case by (auto simp: queue_inv_def intro: lease_ok_filter)
qed

section \<open>A live lease excludes every other owner\<close>

definition holds_lease :: "int \<times> language \<Rightarrow> string \<Rightarrow> int \<Rightarrow> search_row list \<Rightarrow> bool" where
  "holds_lease k j u rows \<longleftrightarrow>
     (\<exists>r \<in> set rows. search_row_key r = k \<and> sr_lease_owner r = Some j \<and> sr_lease_until_ns r = Some u)"

definition same_lease :: "search_row \<Rightarrow> search_row \<Rightarrow> bool" where
  "same_lease r r' \<longleftrightarrow> search_row_key r' = search_row_key r \<and> sr_lease_owner r' = sr_lease_owner r
     \<and> sr_lease_until_ns r' = sr_lease_until_ns r"

lemma holds_lease_update:
  assumes "holds_lease k j u rows"
    and "\<And>r. \<lbrakk>r \<in> set rows; search_row_key r = k; sr_lease_owner r = Some j; sr_lease_until_ns r = Some u; p r\<rbrakk>
      \<Longrightarrow> same_lease r (f r)"
  shows "holds_lease k j u (sql_update p f rows)"
proof -
  from assms(1) obtain r where r: "r \<in> set rows" "search_row_key r = k" "sr_lease_owner r = Some j" "sr_lease_until_ns r = Some u"
    by (auto simp: holds_lease_def)
  show ?thesis
  proof (cases "p r")
    case True
    from assms(2) [OF r] r sql_update_hit [of r rows p f] True show ?thesis
      unfolding holds_lease_def same_lease_def by metis
  next
    case False
    with r sql_update_frame [of r rows p f] show ?thesis unfolding holds_lease_def by blast
  qed
qed

lemma holds_lease_upsert:
  assumes "holds_lease k j u (q_searches q)" "upsert_search q new p f = Ok q'"
    and "\<And>r. \<lbrakk>r \<in> set (q_searches q); search_row_key r = k; sr_lease_owner r = Some j; sr_lease_until_ns r = Some u;
        search_row_key r = search_row_key new; p r\<rbrakk> \<Longrightarrow> same_lease r (f r)"
  shows "holds_lease k j u (q_searches q')"
proof (cases "\<exists>r \<in> set (q_searches q). search_key (sr_media_id new) (sr_language new) r")
  case True
  have "holds_lease k j u (sql_update (\<lambda>r. search_key (sr_media_id new) (sr_language new) r \<and> p r) f (q_searches q))"
    by (rule holds_lease_update [OF assms(1)]) (use assms(3) in \<open>auto simp: search_key_def search_row_key_def\<close>)
  with True upsert_search_Ok(2) [OF assms(2)] show ?thesis by (simp add: sql_upsert_def)
next
  case False
  with upsert_search_Ok(2) [OF assms(2)] assms(1) show ?thesis
    by (auto simp: sql_upsert_def holds_lease_def)
qed

fun op_by :: "string \<Rightarrow> queue_op \<Rightarrow> bool" where
  "op_by j (QRenew j' now dur) = (j' = j)"
| "op_by j (QComplete wall c) = (co_job_id c = j)"
| "op_by j (QClaim i l j' now lease) = (j' = j)"
| "op_by j (QRelease j') = (j' = j)"
| "op_by j (QSettle i l outcome now j') = (j' = j)"
| "op_by j _ = False"

fun op_before :: "int \<Rightarrow> queue_op \<Rightarrow> bool" where
  "op_before u (QLease fresh now limit dur paused) = (unix_nano now < u)"
| "op_before u (QClaim i l j now lease) = (unix_nano now < u)"
| "op_before u (QSettle i l outcome now j) = (unix_nano now < u)"
| "op_before u (QReject rj now j lease h) = (unix_nano now < u)"
| "op_before u _ = True"

lemma not_free: "\<lbrakk>sr_lease_until_ns r = Some u; n < u\<rbrakk> \<Longrightarrow> \<not> lease_free n r"
  by (simp add: lease_free_def)

lemma owned_other: "\<lbrakk>sr_lease_owner r = Some j; j' \<noteq> j\<rbrakk> \<Longrightarrow> \<not> owned_by j' r"
  by (simp add: owned_by_def)

lemma claim_rows_frame:
  "\<lbrakk>r \<in> set rows; \<forall>item \<in> set items. search_row_key (du_row item) \<noteq> search_row_key r\<rbrakk>
   \<Longrightarrow> r \<in> set (claim_rows fresh t n items rows)"
  unfolding claim_rows_def
proof (induction items arbitrary: n rows)
  case (Cons item items)
  then have "r \<in> set (sql_update (\<lambda>r. search_row_key r = search_row_key (du_row item)) (claimed_row t (fresh n) item) rows)"
    by (auto intro: sql_update_frame)
  with Cons show ?case by simp
qed simp

lemma held_not_due:
  assumes "queue_inv q" "r \<in> set (q_searches q)" "sr_lease_until_ns r = Some u" "unix_nano now < u"
    and "item \<in> set (due_items rp q now limit paused)"
  shows "search_row_key (du_row item) \<noteq> search_row_key r"
proof
  assume "search_row_key (du_row item) = search_row_key r"
  with due_items_facts(2) [OF assms(1,5)] assms(1,2) have "du_row item = r"
    by (metis queue_invD(1) sq.inv_key)
  with due_items_facts(2) [OF assms(1,5)] search_due_free not_free [OF assms(3,4)] show False by blast
qed

lemma in_leasesE:
  assumes "l \<in> set (map (\<lambda>(k, item). lease_of (fresh k) t item) (List.enumerate n items))"
  obtains k item where "item \<in> set items" "l = lease_of (fresh k) t item"
proof -
  from assms obtain k item where ki: "(k, item) \<in> set (List.enumerate n items)" "l = lease_of (fresh k) t item" by auto
  from ki(1) have "snd (k, item) \<in> set (map snd (List.enumerate n items))"
    unfolding set_map by (rule imageI)
  with ki(2) that show thesis by (simp only: map_snd_enumerate snd_conv)
qed

lemma held_lease_step:
  assumes inv: "queue_inv q" and held: "holds_lease k j u (q_searches q)" and "unix_nano now < u"
    and ok: "LeaseDueSearchesExcept rp fresh now limit dur paused q = Ok (leases, q')"
  shows "holds_lease k j u (q_searches q') \<and> (\<forall>le \<in> set leases. (sl_media_id le, sl_language le) \<noteq> k)"
proof (cases "scope_disabled rp")
  case True
  with ok held show ?thesis
    by (auto simp: LeaseDueSearchesExcept_def scope_disabled_def split: if_split_asm)
next
  case False
  from held obtain r where r: "r \<in> set (q_searches q)" "search_row_key r = k" "sr_lease_owner r = Some j"
      "sr_lease_until_ns r = Some u" by (auto simp: holds_lease_def)
  have other: "search_row_key (du_row item) \<noteq> k" if "item \<in> set (due_items rp q now limit paused)" for item
    using held_not_due [OF inv r(1,4) assms(3) that] r(2) by simp
  have "0 < limit" "0 < dur" using ok by (auto simp: LeaseDueSearchesExcept_def split: if_split_asm)
  note run = LeaseDueSearchesExcept_Ok [OF inv this False, of fresh now paused]
  from ok run have q': "q_searches q' = claim_rows fresh (now + dur) 0 (due_items rp q now limit paused) (q_searches q)"
    and le: "leases = map (\<lambda>(k, item). lease_of (fresh k) (now + dur) item) (List.enumerate 0 (due_items rp q now limit paused))"
    by auto
  have "r \<in> set (q_searches q')" unfolding q' by (rule claim_rows_frame) (use r other in auto)
  moreover have "(sl_media_id l, sl_language l) \<noteq> k" if "l \<in> set leases" for l
  proof -
    from that [unfolded le] obtain k' item where "item \<in> set (due_items rp q now limit paused)"
        "l = lease_of (fresh k') (now + dur) item"
      by (rule in_leasesE)
    with other show ?thesis by (simp add: lease_of_def search_row_key_def)
  qed
  ultimately show ?thesis using r unfolding holds_lease_def by blast
qed

lemma holds_lease_rows: "q_searches q' = q_searches q \<Longrightarrow> holds_lease k j u (q_searches q') = holds_lease k j u (q_searches q)"
  by simp

lemma complete_other:
  assumes "CompleteSearch rp wall c q = Ok (res, q')" "co_job_id c \<noteq> j" "holds_lease k j u (q_searches q)"
  shows "holds_lease k j u (q_searches q')"
  using assms(1)
proof (rule CompleteSearch_Ok)
  fix m resume
  assume "q_searches q' = sql_update (owned_by (co_job_id c))
      (if mr_deleted m then deleted_row else completed_row c resume) (q_searches q)"
  then show ?thesis
    using assms(2,3) by (auto intro!: holds_lease_update simp: owned_by_def)
qed

lemma claim_other:
  assumes "ClaimSearch i l j' now lease q = Ok (b, q')" "j' \<noteq> j" "unix_nano now < u" "queue_inv q"
    and "holds_lease k j u (q_searches q)"
  shows "holds_lease k j u (q_searches q') \<and> ((i, l) = k \<longrightarrow> \<not> b)"
proof
  let ?p = "\<lambda>r. lease_free (unix_nano now) r \<or> owned_by j' r"
  from assms(1) obtain new f where ok: "upsert_search q new ?p f = Ok q'"
    and b: "b = (filter (search_key i l) (q_searches q) = [] \<or> length (filter ?p (filter (search_key i l) (q_searches q))) = 1)"
    by (auto simp: ClaimSearch_def Let_def split: if_split_asm sum.split_asm)
  show "holds_lease k j u (q_searches q')"
    by (rule holds_lease_upsert [OF assms(5) ok]) (use assms(2,3) in \<open>auto simp: not_free owned_by_def\<close>)
  show "(i, l) = k \<longrightarrow> \<not> b"
  proof
    assume k: "(i, l) = k"
    from assms(5) obtain r where r: "r \<in> set (q_searches q)" "search_row_key r = k" "sr_lease_owner r = Some j"
        "sr_lease_until_ns r = Some u" by (auto simp: holds_lease_def)
    have only: "s = r" if "s \<in> set (q_searches q)" "search_key i l s" for s
      using that r k assms(4) by (metis queue_invD(1) search_key_iff sq.inv_key)
    have "\<not> ?p r" using r assms(2,3) by (simp add: not_free owned_by_def)
    with only have "filter ?p (filter (search_key i l) (q_searches q)) = []" by (auto simp: filter_empty_conv)
    moreover have "filter (search_key i l) (q_searches q) \<noteq> []"
      using r k by (auto simp: filter_empty_conv search_key_iff)
    ultimately show "\<not> b" by (simp add: b)
  qed
qed

lemma reject_other:
  assumes "RecordUserRejection rj now j' lease h q = Ok q'" "unix_nano now < u" "holds_lease k j u (q_searches q)"
  shows "holds_lease k j u (q_searches q')"
proof -
  from assms(1) obtain q1 q2 new grant where q1: "putCandidateRejection rj q = Ok q1"
    and q2: "upsert_search q1 new (\<lambda>_. True) (rejected_row (unix_nano now) grant) = Ok q2"
    and q': "q_searches q' = q_searches q2"
    by (auto simp: RecordUserRejection_def Let_def split: if_split_asm sum.split_asm)
  have "holds_lease k j u (q_searches q1)" using assms(3) putCandidateRejection_Ok [OF q1] by simp
  then have "holds_lease k j u (q_searches q2)"
    using q2 by (rule holds_lease_upsert)
      (use assms(2) in \<open>auto simp: same_lease_def rejected_row_def search_row_key_def Let_def\<close>)
  then show ?thesis by (simp add: q')
qed

lemma backfill_keeps: "holds_lease k j u (q_searches q) \<Longrightarrow> holds_lease k j u (q_searches (snd (EnsureConfiguredLanguageSearches is ls now q)))"
proof -
  have up: "holds_lease k j u rows \<Longrightarrow> holds_lease k j u (sql_upsert key (\<lambda>_. False) id new rows)" for key new rows
    by (auto simp: sql_upsert_def sql_update_none holds_lease_def)
  have rows: "holds_lease k j u rows \<Longrightarrow> holds_lease k j u (fold (\<lambda>m. sql_upsert (K m) (\<lambda>_. False) id (N m)) ms rows)"
    for K N and ms :: "media_row list" and rows
    by (induction ms arbitrary: rows) (simp, simp only: fold_Cons o_apply up)
  have one: "holds_lease k j u (q_searches q) \<Longrightarrow> holds_lease k j u (q_searches (EnsureConfiguredLanguageSearch i l now q))" for i l q
    unfolding configured_rows by (rule rows)
  have ls: "holds_lease k j u (q_searches q) \<Longrightarrow>
      holds_lease k j u (q_searches (fold (\<lambda>language q. EnsureConfiguredLanguageSearch i language now q) ls q))" for i q
    by (induction ls arbitrary: q) (simp_all add: one)
  have "holds_lease k j u (q_searches q) \<Longrightarrow>
      holds_lease k j u (q_searches (fold (\<lambda>i q. fold (\<lambda>language q. EnsureConfiguredLanguageSearch i language now q) ls q) is q))" for q
    by (induction "is" arbitrary: q) (simp_all add: ls)
  then show "holds_lease k j u (q_searches q) \<Longrightarrow> ?thesis"
    by (simp add: EnsureConfiguredLanguageSearches_def Let_def)
qed

lemma priorities_keep: "holds_lease k j u (q_searches q) \<Longrightarrow> holds_lease k j u (q_searches (SetInstanceQueuePriorities ps q))"
  by (auto simp: SetInstanceQueuePriorities_def Let_def holds_lease_def reranked_def search_row_key_def)

lemma ok_or_keeps:
  "\<lbrakk>holds_lease k j u (q_searches q); \<And>q'. res = Ok q' \<Longrightarrow> holds_lease k j u (q_searches q')\<rbrakk>
   \<Longrightarrow> holds_lease k j u (q_searches (ok_or q res))"
  by (cases res) auto

lemma upgrade_keeps:
  "\<lbrakk>holds_lease k j u (q_searches q); EnsureUpgradeSearch i l t q = Ok q'\<rbrakk> \<Longrightarrow> holds_lease k j u (q_searches q')"
  unfolding EnsureUpgradeSearch_def
  by (simp split: if_split_asm option.split_asm, erule (1) holds_lease_upsert) simp

lemma scheduled_row_lease: "same_lease r (scheduled_row n p r)" "same_lease r (unsupported_row n p v r)"
  by (simp_all add: same_lease_def scheduled_row_def unsupported_row_def search_row_key_def Let_def)

lemma schedule_keeps:
  "\<lbrakk>holds_lease k j u (q_searches q); scheduleMediaSearchTx i l t prio v q = Ok q'\<rbrakk> \<Longrightarrow> holds_lease k j u (q_searches q')"
  unfolding scheduleMediaSearchTx_def
  by (simp split: if_split_asm; erule (1) holds_lease_upsert) (simp_all add: scheduled_row_lease)

lemma live_lease_step:
  assumes inv: "queue_inv q" and held: "holds_lease k j u (q_searches q)" and "\<not> op_by j op" "op_before u op"
  shows "holds_lease k j u (q_searches (queue_apply rp op q))"
proof (cases op)
  case (QLease fresh now limit dur paused)
  then show ?thesis using held_lease_step [OF inv held] assms(4) held by (auto split: sum.split)
next
  case (QRenew j' now dur)
  then show ?thesis using held assms(3)
    by (auto simp: RenewSearchLease_def owned_by_def intro!: holds_lease_update)
next
  case (QComplete wall c)
  then show ?thesis using held assms(3) by (auto split: sum.split intro: complete_other)
next
  case (QClaim i l j' now lease)
  then show ?thesis using held assms(3,4) claim_other [OF _ _ _ inv held] by (auto split: sum.split)
next
  case (QRelease j')
  then show ?thesis using held assms(3)
    by (auto simp: ReleaseSearchLease_def owned_by_def intro!: holds_lease_update)
next
  case (QSettle i l outcome now j')
  then show ?thesis using held assms(3,4)
    by (auto simp: SettlePendingSearch_def owned_by_def not_free intro!: holds_lease_update)
next
  case (QClearResume i l)
  then show ?thesis using held
    by (auto simp: ClearSearchResume_def same_lease_def search_row_key_def intro!: holds_lease_update)
next
  case (QUpgrade i l t)
  then show ?thesis using held by (auto intro!: ok_or_keeps intro: upgrade_keeps)
next
  case (QRetry now ls)
  then show ?thesis using held
    by (auto simp: RetryThrottledSearches_def Let_def same_lease_def search_row_key_def intro!: holds_lease_update)
next
  case (QSchedule i l t prio v)
  then show ?thesis using held by (auto intro!: ok_or_keeps intro: schedule_keeps)
next
  case (QDelete i)
  then show ?thesis using held
    by (auto simp: delete_media_def cancelled_row_def same_lease_def search_row_key_def intro!: holds_lease_update)
next
  case (QReject rj now j' lease h)
  then show ?thesis using held assms(4) by (auto intro!: ok_or_keeps intro: reject_other)
next
  case (QClearReject i l)
  then show ?thesis using held
    by (auto simp: ClearUserRejections_def Let_def same_lease_def search_row_key_def intro!: holds_lease_update)
next
  case (QInventory i expected fp n ls)
  have "holds_lease k j u (q_searches q')" if ok: "ReplaceTrackInventory i expected fp n ls q = Ok q'" for q'
  proof -
    obtain changed p where s: "q_searches q' = sql_update p (replaced_row n)
       (sql_update (\<lambda>r. sr_media_id r = i \<and> changed) (\<lambda>r. clear_resume r) (q_searches q))"
      using inventory_searches [OF ok] by metis
    show ?thesis unfolding s
      by (intro holds_lease_update held) (auto simp: same_lease_def search_row_key_def replaced_row_def)
  qed
  then show ?thesis using held by (auto simp: QInventory intro!: ok_or_keeps)
next
  case (QMedia m)
  have "q_searches (update_media_row m q) = sql_update (\<lambda>r. sr_media_id r = mr_id m) (media_search_order m) (q_searches q)
      \<or> q_searches (update_media_row m q) = q_searches q"
    by (auto simp: update_media_row_def Let_def split: option.split)
  then show ?thesis using held
    by (auto simp: QMedia same_lease_def search_row_key_def media_search_order_def intro!: holds_lease_update)
qed (use held in \<open>auto intro: backfill_keeps priorities_keep\<close>)

text \<open>Sequences of operations whose new owners are fresh when they are used.\<close>

fun fresh_run :: "repository \<Rightarrow> queue_op list \<Rightarrow> queue_db \<Rightarrow> bool" where
  "fresh_run rp [] q = True"
| "fresh_run rp (op # ops) q = (op_fresh op q \<and> fresh_run rp ops (queue_apply rp op q))"

definition queue_run :: "repository \<Rightarrow> queue_op list \<Rightarrow> queue_db \<Rightarrow> queue_db" where
  "queue_run rp ops q = fold (queue_apply rp) ops q"

lemma queue_run_simps [simp]:
  "queue_run rp [] q = q" "queue_run rp (op # ops) q = queue_run rp ops (queue_apply rp op q)"
  by (simp_all add: queue_run_def)

lemma queue_run_inv: "\<lbrakk>queue_inv q; fresh_run rp ops q\<rbrakk> \<Longrightarrow> queue_inv (queue_run rp ops q)"
  by (induction ops arbitrary: q) (simp_all add: queue_apply_inv)

lemma live_lease_run:
  "\<lbrakk>queue_inv q; fresh_run rp ops q; holds_lease k j u (q_searches q); \<forall>op \<in> set ops. \<not> op_by j op \<and> op_before u op\<rbrakk>
   \<Longrightarrow> holds_lease k j u (q_searches (queue_run rp ops q))"
  by (induction ops arbitrary: q) (simp_all add: queue_apply_inv live_lease_step)

end
