(* ===== verification/Search_Queue_Props.thy ===== *)
theory Search_Queue_Props
  imports Search_Queue_Inv
begin

text \<open>
  The guarantees of the search queue (\<open>src/internal/store/repository.go\<close>): the invariant of every reachable
  queue, exclusive leases, which searches a lease call hands out, changes that arrive during a search, and saved progress.
\<close>

section \<open>What leasing and completing leave behind\<close>

lemma claim_rows_hit:
  assumes "distinct (map (\<lambda>i. search_row_key (du_row i)) items)" "(k, item) \<in> set (List.enumerate n items)"
    and "\<forall>item \<in> set items. \<exists>r \<in> set rows. search_row_key r = search_row_key (du_row item)"
  shows "holds_lease (search_row_key (du_row item)) (fresh k) (unix_nano t) (claim_rows fresh t n items rows)"
  using assms
proof (induction items arbitrary: n rows)
  case (Cons x items)
  let ?p = "\<lambda>r. search_row_key r = search_row_key (du_row x)"
  let ?rows = "sql_update ?p (claimed_row t (fresh n) x) rows"
  have step: "claim_rows fresh t n (x # items) rows = claim_rows fresh t (Suc n) items ?rows"
    by (simp add: claim_rows_def)
  show ?case
  proof (cases "(k, item) = (n, x)")
    case True
    from Cons.prems(3) obtain r where r: "r \<in> set rows" "?p r" by auto
    then have "claimed_row t (fresh n) x r \<in> set ?rows" by (rule sql_update_hit)
    moreover have "\<forall>i \<in> set items. search_row_key (du_row i) \<noteq> search_row_key (claimed_row t (fresh n) x r)"
      using Cons.prems(1) r(2) by (auto simp: image_iff)
    ultimately have "claimed_row t (fresh n) x r \<in> set (claim_rows fresh t (Suc n) items ?rows)"
      by (rule claim_rows_frame)
    moreover have "search_row_key (claimed_row t (fresh n) x r) = search_row_key (du_row item)" using r(2) True by simp
    moreover have "sr_lease_owner (claimed_row t (fresh n) x r) = Some (fresh k)"
        "sr_lease_until_ns (claimed_row t (fresh n) x r) = Some (unix_nano t)" using True by simp_all
    ultimately show ?thesis unfolding step holds_lease_def by blast
  next
    case False
    have "map search_row_key ?rows = map search_row_key rows" by (simp add: map_sql_update)
    then have keys: "search_row_key ` set ?rows = search_row_key ` set rows" by (metis set_map)
    have "\<exists>r \<in> set ?rows. search_row_key r = search_row_key (du_row i)" if "i \<in> set items" for i
    proof -
      from Cons.prems(3) that have "search_row_key (du_row i) \<in> search_row_key ` set rows"
        by (metis imageI list.set_intros(2))
      then show ?thesis unfolding keys [symmetric] by auto
    qed
    moreover have "(k, item) \<in> set (List.enumerate (Suc n) items)" using Cons.prems(2) False by auto
    moreover have "distinct (map (\<lambda>i. search_row_key (du_row i)) items)" using Cons.prems(1) by simp
    ultimately show ?thesis unfolding step by (intro Cons.IH) auto
  qed
qed simp

text \<open>A search that is due at \<open>t\<close> with its counters reset and no owner.\<close>

definition due_again :: "int \<Rightarrow> language \<Rightarrow> gotime \<Rightarrow> search_row \<Rightarrow> bool" where
  "due_again i l t r \<longleftrightarrow> search_row_key r = (i, l) \<and> sr_state r = pending \<and> sr_next_attempt_at_ns r = unix_nano t
     \<and> sr_attempt r = 0 \<and> sr_failure_attempt r = 0 \<and> sr_lease_owner r = None \<and> sr_lease_until_ns r = None"

definition rerun_row :: "int \<Rightarrow> language \<Rightarrow> gotime \<Rightarrow> string \<Rightarrow> search_row \<Rightarrow> bool" where
  "rerun_row i l t j r \<longleftrightarrow> search_row_key r = (i, l) \<and> sr_lease_owner r = Some j \<and> sr_rerun_requested r
     \<and> sr_state r = pending \<and> sr_next_attempt_at_ns r = unix_nano t \<and> sr_attempt r = 0 \<and> sr_failure_attempt r = 0"

lemma scheduled_while_leased:
  assumes "holds_lease (i, l) j u (q_searches q)" "scheduleMediaSearchTx i l t prio [] q = Ok q1"
  obtains r m where "r \<in> set (q_searches q1)" "rerun_row i l t j r" "sr_lease_until_ns r = Some u"
    "find_media q1 i = Some m" "find_media q i = Some m"
proof -
  from assms(1) obtain r where r: "r \<in> set (q_searches q)" "search_row_key r = (i, l)" "sr_lease_owner r = Some j"
      "sr_lease_until_ns r = Some u" by (auto simp: holds_lease_def)
  from assms(2) have up: "upsert_search q (new_search i l pending (unix_nano t) (unix_nano t) prio) (\<lambda>_. True)
      (scheduled_row (unix_nano t) prio) = Ok q1"
    by (auto simp: scheduleMediaSearchTx_def split: if_split_asm)
  have sel: "sr_media_id (new_search i l pending (unix_nano t) (unix_nano t) prio) = i"
      "sr_language (new_search i l pending (unix_nano t) (unix_nano t) prio) = l" by (simp_all add: new_search_def)
  have ex: "\<exists>r \<in> set (q_searches q). search_key i l r" using r by (auto simp: search_key_iff)
  have q1: "q1 = q\<lparr>q_searches := sql_update (search_key i l) (scheduled_row (unix_nano t) prio) (q_searches q)\<rparr>"
    using upsert_search_Ok(2) [OF up] ex by (simp add: sql_upsert_def sel)
  have "scheduled_row (unix_nano t) prio r \<in> set (q_searches q1)"
    using r by (auto simp: q1 search_key_iff intro: sql_update_hit)
  moreover have "rerun_row i l t j (scheduled_row (unix_nano t) prio r)"
      "sr_lease_until_ns (scheduled_row (unix_nano t) prio r) = Some u"
    using r by (simp_all add: rerun_row_def scheduled_row_def search_row_key_def)
  moreover obtain m where m: "find_media q i = Some m" using upsert_search_Ok(1) [OF up] by (auto simp: sel)
  moreover from m have "find_media q1 i = Some m" by (simp add: q1 find_media_def)
  ultimately show thesis by (intro that)
qed

lemma schedule_inv_reach: "\<lbrakk>queue_reach rp q; scheduleMediaSearchTx i l t prio v q = Ok q1\<rbrakk> \<Longrightarrow> queue_reach rp q1"
  using reach_op [of rp q "QSchedule i l t prio v"] by simp

lemma owned_unique:
  assumes "queue_inv q" "r \<in> set (q_searches q)" "sr_lease_owner r = Some j"
  shows "sql_count (owned_by j) (q_searches q) = 1"
proof -
  have "sql_count (owned_by j) (q_searches q) \<le> 1"
    using sq.owner_count [OF queue_invD(1) [OF assms(1)]] by (simp add: owned_by_def [abs_def])
  moreover have "sql_count (owned_by j) (q_searches q) \<noteq> 0" using assms(2,3) by (auto simp: sql_count_0 owned_by_def)
  ultimately show ?thesis by linarith
qed

text \<open>A completion by the owner of a search with a requested rerun always succeeds and leaves it due.\<close>

lemma find_hit: "\<lbrakk>x \<in> set xs; P x; \<And>y. \<lbrakk>y \<in> set xs; P y\<rbrakk> \<Longrightarrow> y = x\<rbrakk> \<Longrightarrow> find P xs = Some x"
proof (induction xs)
  case (Cons a xs)
  show ?case
  proof (cases "P a")
    case True
    with Cons.prems(3) [of a] show ?thesis by simp
  next
    case False
    with Cons.prems(1,2) have "x \<in> set xs" by auto
    then have "find P xs = Some x" by (rule Cons.IH) (use Cons.prems(2,3) in \<open>simp_all only: list.set_intros\<close>)
    with False show ?thesis by simp
  qed
qed simp

lemma completed_rerun:
  assumes "rerun_row i l t j r"
  shows "due_again i l t (completed_row c resume r)"
  using assms unfolding due_again_def rerun_row_def search_row_key_def completed_row_def
  by (cases resume) simp

lemma complete_rerun:
  assumes inv: "queue_inv q" and r: "r \<in> set (q_searches q)" "rerun_row i l t (co_job_id c) r"
    and m: "find_media q i = Some m" "\<not> mr_deleted m" and prio: "co_priority c = 0 \<or> validSearchPriority (co_priority c)"
  shows "\<exists>res q'. CompleteSearch rp wall c q = Ok (res, q') \<and> cr_rerun_scheduled res
    \<and> (\<exists>r' \<in> set (q_searches q'). due_again i l t r')"
proof -
  have own: "owned_by (co_job_id c) r" and med: "sr_media_id r = i"
    using r(2) by (simp_all add: rerun_row_def owned_by_def search_row_key_def)
  have one: "sql_count (owned_by (co_job_id c)) (q_searches q) = 1"
    using owned_unique [OF inv r(1)] r(2) by (simp add: rerun_row_def)
  have x: "find (\<lambda>r. owned_by (co_job_id c) r \<and> find_media q (sr_media_id r) \<noteq> None) (q_searches q) = Some r"
    using r(1) own m(1) med sq.inv_owner [OF queue_invD(1) [OF inv]] by (intro find_hit) (auto simp: owned_by_def)
  have keep: "kept_resume rp wall c m r = Ok ((''[]'', [], 0), 0)"
    using r(2) by (simp add: kept_resume_def rerun_row_def)
  let ?q = "q\<lparr>q_searches := sql_update (owned_by (co_job_id c)) (completed_row c (''[]'', [], 0)) (q_searches q)\<rparr>"
  let ?res = "\<lparr>cr_rerun_scheduled = True, cr_resume_count = 0\<rparr>"
  have rerun: "sr_rerun_requested r" using r(2) by (simp add: rerun_row_def)
  have fin: "find_media ?q i = Some m" using m(1) by (simp add: find_media_def)
  have eq: "CompleteSearch rp wall c q = (case co_history c of None \<Rightarrow> Ok (?res, ?q)
     | Some detail \<Rightarrow> (case insertSearchHistory i (sr_language r) (co_outcome c) detail
                (if is_zero_time (co_finished_at c) then wall else co_finished_at c) ?q of
             Err e \<Rightarrow> Err e | Ok q'' \<Rightarrow> Ok (?res, q'')))"
  proof -
    have "(co_priority c \<noteq> 0 \<and> \<not> validSearchPriority (co_priority c)) = False" using prio by blast
    then show ?thesis unfolding CompleteSearch_def x
      by (cases "co_history c") (simp_all only: if_False option.case sum.case prod.case Let_def med m option.sel one keep rerun refl simp_thms)
  qed
  have res: "\<exists>res q'. CompleteSearch rp wall c q = Ok (res, q') \<and> cr_rerun_scheduled res \<and> q_searches q' = q_searches ?q"
    unfolding eq by (cases "co_history c") (simp_all add: insertSearchHistory_def fin)
  have "completed_row c (''[]'', [], 0) r \<in> set (q_searches ?q)"
    using r(1) own by (auto intro: sql_update_hit)
  moreover have "due_again i l t (completed_row c (''[]'', [], 0) r)"
    by (rule completed_rerun) (rule r(2))
  ultimately have "\<exists>r' \<in> set (q_searches ?q). due_again i l t r'" by blast
  with res show ?thesis by metis
qed

text \<open>A search handed out: the lease carries the counters of the row.\<close>

definition lease_of_row :: "SearchLease \<Rightarrow> search_row \<Rightarrow> bool" where
  "lease_of_row le r \<longleftrightarrow> sl_media_id le = sr_media_id r \<and> sl_language le = sr_language r
     \<and> sl_attempt le = sr_attempt r \<and> sl_failure_attempt le = sr_failure_attempt r
     \<and> sl_priority le = sr_priority r \<and> sl_replace_installed le = sr_replace_installed r"

lemma leases_of_rows:
  "list_all2 lease_of_row (map (\<lambda>(k, item). lease_of (fresh k) t item) (List.enumerate n items)) (map du_row items)"
  by (induction items arbitrary: n) (simp_all add: lease_of_row_def lease_of_def)

lemma leases_held:
  assumes "queue_inv q" "le \<in> set (map (\<lambda>(k, item). lease_of (fresh k) t item) (List.enumerate 0 (due_items rp q now limit paused)))"
  shows "holds_lease (sl_media_id le, sl_language le) (sl_job_id le) (unix_nano t)
    (claim_rows fresh t 0 (due_items rp q now limit paused) (q_searches q))"
proof -
  from assms(2) obtain k item where ki: "(k, item) \<in> set (List.enumerate 0 (due_items rp q now limit paused))"
    "le = lease_of (fresh k) t item" by auto
  have "\<forall>item \<in> set (due_items rp q now limit paused). \<exists>r \<in> set (q_searches q). search_row_key r = search_row_key (du_row item)"
    using due_items_facts(2) [OF assms(1)] by blast
  from claim_rows_hit [OF due_items_facts(1) [OF assms(1)] ki(1) this, of fresh t] ki(2)
  show ?thesis by (simp add: lease_of_def search_row_key_def)
qed

lemma release_rerun:
  assumes "r \<in> set (q_searches q)" "rerun_row i l t j r" "j \<noteq> []"
  shows "\<exists>q'. ReleaseSearchLease j q = Ok q' \<and> (\<exists>r' \<in> set (q_searches q'). due_again i l t r')"
proof -
  let ?f = "\<lambda>r. r\<lparr>sr_lease_owner := None, sr_lease_until_ns := None, sr_rerun_requested := False\<rparr>"
  have "owned_by j r" using assms(2) by (simp add: rerun_row_def owned_by_def)
  then have "?f r \<in> set (sql_update (owned_by j) ?f (q_searches q))" using assms(1) by (rule sql_update_hit [rotated])
  moreover have "due_again i l t (?f r)" using assms(2) by (simp add: rerun_row_def due_again_def search_row_key_def)
  ultimately show ?thesis using assms(3) unfolding ReleaseSearchLease_def by auto
qed

lemma settle_rerun:
  assumes "queue_inv q" "r \<in> set (q_searches q)" "rerun_row i l t j r" "sr_lease_until_ns r = Some u" "unix_nano now < u"
  shows "SettlePendingSearch i l outcome now j q = q"
proof -
  have "x = r" if "x \<in> set (q_searches q)" "search_key i l x" for x
    using that assms(2,3) sq.inv_key [OF queue_invD(1) [OF assms(1)]] by (simp add: search_key_iff rerun_row_def)
  then have "\<not> (search_key i l x \<and> sr_state x = pending
           \<and> (lease_free (unix_nano now) x \<or> owned_by j x \<and> j \<noteq> [] \<and> \<not> sr_rerun_requested x))" if "x \<in> set (q_searches q)" for x
    using that assms(3) not_free [OF assms(4,5)] unfolding rerun_row_def by metis
  then show ?thesis unfolding SettlePendingSearch_def by (subst sql_update_none) (blast, simp)
qed

section \<open>Saved progress\<close>

lemma decode_encoded:
  "\<lbrakk>encodeResumeProviders xs = Some json; \<forall>x \<in> set xs. ascii x\<rbrakk> \<Longrightarrow> decodeResumeProviders json = Some xs"
  by (auto simp: encodeResumeProviders_def decodeResumeProviders_def json_strings_roundtrip split: if_split_asm)

lemma decode_search_encoded:
  assumes "encodeResumeProviders xs = Some json" "\<forall>x \<in> set xs. ascii x" "decodeSearchResume rp l json \<noteq> None"
  shows "decodeSearchResume rp l json = Some xs"
  using assms(3) decode_encoded [OF assms(1,2)]
  by (auto simp: decodeSearchResume_def split: option.split_asm if_split_asm)

lemma complete_media: "CompleteSearch rp wall c q = Ok (res, q') \<Longrightarrow> find_media q' = find_media q"
  by (auto simp: CompleteSearch_def insertSearchHistory_def Let_def find_media_def [abs_def] fun_eq_iff
      split: if_split_asm option.split_asm sum.split_asm prod.split_asm)

lemma kept_resume_count:
  assumes "kept_resume rp wall c m r = Ok (resume, n)" "n \<noteq> 0"
  obtains json where "encodeResumeProviders (co_resume_providers c) = Some json" "decodeSearchResume rp (sr_language r) json \<noteq> None"
    "resume = (json, co_resume_signature c, unix_nano (if is_zero_time (co_resume_saved_at c) then wall else co_resume_saved_at c))"
    "co_preserve_resume c" "\<not> mr_deleted m" "\<not> sr_rerun_requested r" "currentResumeScope rp (sr_language r) m (co_resume_signature c)"
  using assms by (auto simp: kept_resume_def split: if_split_asm option.split_asm)

text \<open>The row a completion with saved progress leaves, and what a later scan reads from it.\<close>

lemma saved_row:
  assumes ok: "CompleteSearch rp wall c q = Ok (res, q')" and n: "cr_resume_count res \<noteq> 0"
    and j: "r \<in> set (q_searches q)" "sr_lease_owner r = Some (co_job_id c)" and inv: "queue_inv q"
  obtains r' json m where "r' \<in> set (q_searches q')" "search_row_key r' = search_row_key r"
    "find_media q' (sr_media_id r') = Some m" "currentResumeScope rp (sr_language r') m (co_resume_signature c)"
    "encodeResumeProviders (co_resume_providers c) = Some json" "decodeSearchResume rp (sr_language r') json \<noteq> None"
    "sr_resume_providers_json r' = json" "sr_resume_route_signature r' = co_resume_signature c"
    "sr_resume_saved_at_ns r' = unix_nano (if is_zero_time (co_resume_saved_at c) then wall else co_resume_saved_at c)"
proof -
  from ok obtain r0 m resume kept' where r0:
    "r0 \<in> set (q_searches q)" "owned_by (co_job_id c) r0" "find_media q (sr_media_id r0) = Some m"
    "kept_resume rp wall c m r0 = Ok (resume, kept')"
    "q_searches q' = sql_update (owned_by (co_job_id c)) (if mr_deleted m then deleted_row else completed_row c resume) (q_searches q)"
    "res = \<lparr>cr_rerun_scheduled = (\<not> mr_deleted m \<and> sr_rerun_requested r0), cr_resume_count = kept'\<rparr>"
    by (rule CompleteSearch_Ok)
  have r: "r0 = r" using r0(1,2) j sq.inv_owner [OF queue_invD(1) [OF inv]] by (simp add: owned_by_def)
  from r0(6) n have "kept' \<noteq> 0" by simp
  from kept_resume_count [OF r0(4) this] obtain json where k:
    "encodeResumeProviders (co_resume_providers c) = Some json" "decodeSearchResume rp (sr_language r) json \<noteq> None"
    "resume = (json, co_resume_signature c, unix_nano (if is_zero_time (co_resume_saved_at c) then wall else co_resume_saved_at c))"
    "co_preserve_resume c" "\<not> mr_deleted m" "\<not> sr_rerun_requested r" "currentResumeScope rp (sr_language r) m (co_resume_signature c)"
    unfolding r by blast
  have mem: "completed_row c resume r \<in> set (q_searches q')"
    unfolding r0(5) using k(5) r0(2) j(1) by (simp add: r sql_update_hit)
  have key: "sr_media_id (completed_row c resume r) = sr_media_id r" "sr_language (completed_row c resume r) = sr_language r"
      "sr_resume_providers_json (completed_row c resume r) = json"
      "sr_resume_route_signature (completed_row c resume r) = co_resume_signature c"
      "sr_resume_saved_at_ns (completed_row c resume r) = unix_nano (if is_zero_time (co_resume_saved_at c) then wall else co_resume_saved_at c)"
    using k(4,6) unfolding k(3) completed_row_def Let_def prod.case by simp_all
  show thesis
    by (rule that [OF mem, of m json]) (use k key r0(3) complete_media [OF ok] r in \<open>simp_all add: search_row_key_def\<close>)
qed

lemma saved_scan:
  assumes "find_media q (sr_media_id r) = Some m" "currentResumeScope rp (sr_language r) m (sr_resume_route_signature r)"
    and "sr_resume_saved_at_ns r \<noteq> 0" "now - from_unix (sr_resume_saved_at_ns r) < ResumeProvidersMaxAge"
    and "decodeSearchResume rp (sr_language r) (sr_resume_providers_json r) = Some ps"
  shows "du_resume_providers (scan_due rp q now r) = ps"
    and "du_resume_signature (scan_due rp q now r) = sr_resume_route_signature r"
  using assms by (simp_all add: scan_due_def Let_def not_le)

lemma leased_scan:
  assumes inv: "queue_inv q" and ok: "LeaseDueSearchesExcept rp fresh now limit dur paused q = Ok (leases, q')"
    and le: "le \<in> set leases" and r: "r \<in> set (q_searches q)" "search_row_key r = (sl_media_id le, sl_language le)"
  shows "sl_resume_providers le = du_resume_providers (scan_due rp q now r)
    \<and> sl_resume_signature le = du_resume_signature (scan_due rp q now r)"
proof -
  have pos: "0 < limit" "0 < dur" "\<not> scope_disabled rp"
    using ok le by (auto simp: LeaseDueSearchesExcept_def scope_disabled_def split: if_split_asm)
  have "le \<in> set (map (\<lambda>(k, item). lease_of (fresh k) (now + dur) item) (List.enumerate 0 (due_items rp q now limit paused)))"
    using le ok LeaseDueSearchesExcept_Ok [OF inv pos, of fresh now paused] by simp
  then obtain k item where item: "item \<in> set (due_items rp q now limit paused)" "le = lease_of (fresh k) (now + dur) item"
    by (rule in_leasesE)
  then obtain r' where r': "item = scan_due rp q now r'" by (auto simp: due_items_def)
  with due_items_facts(2) [OF inv item(1)] have "r' \<in> set (q_searches q)" by simp
  moreover have "search_row_key r' = search_row_key r" using r(2) by (simp add: item(2) r' lease_of_def search_row_key_def)
  ultimately have "r' = r" using sq.inv_key [OF queue_invD(1) [OF inv]] r(1) by blast
  then show ?thesis by (simp add: item(2) r' lease_of_def)
qed

lemma reach_facts:
  assumes "queue_reach rp q"
  shows "distinct (map (\<lambda>r. (sr_media_id r, sr_language r)) (q_searches q))"
    and "r \<in> set (q_searches q) \<Longrightarrow> (sr_lease_owner r = None) = (sr_lease_until_ns r = None)"
    and "\<lbrakk>r \<in> set (q_searches q); r' \<in> set (q_searches q); sr_lease_owner r = Some j; sr_lease_owner r' = Some j\<rbrakk> \<Longrightarrow> r = r'"
    and "\<lbrakk>r \<in> set (q_searches q); sr_rerun_requested r\<rbrakk> \<Longrightarrow> sr_lease_owner r \<noteq> None \<and> sr_state r = ''pending''"
    and "r \<in> set (q_searches q) \<Longrightarrow> sr_state r = ''pending'' \<or> sr_state r = ''complete'' \<and> sr_next_attempt_at_ns r = 0"
proof -
  note inv = queue_reach_inv [OF assms]
  show "distinct (map (\<lambda>r. (sr_media_id r, sr_language r)) (q_searches q))"
    using lease_invD(1) [OF queue_invD(1) [OF inv]] by (simp add: search_row_key_def [abs_def])
  show "r \<in> set (q_searches q) \<Longrightarrow> (sr_lease_owner r = None) = (sr_lease_until_ns r = None)"
    using queue_invD(3) [OF inv] by (simp add: paired_def)
  show "\<lbrakk>r \<in> set (q_searches q); r' \<in> set (q_searches q); sr_lease_owner r = Some j; sr_lease_owner r' = Some j\<rbrakk> \<Longrightarrow> r = r'"
    by (rule sq.inv_owner [OF queue_invD(1) [OF inv]])
qed (use queue_invD(2) [OF queue_reach_inv [OF assms]] in \<open>auto simp: row_ok_def\<close>)

section \<open>Properties\<close>

definition sample_media :: media_row where
  "sample_media = \<lparr>mr_id = 1, mr_instance = ''radarr'', mr_kind = ''movie'', mr_deleted = False, mr_unsupported = [],
     mr_title = ''Alien'', mr_series_id = 0, mr_year = 1979, mr_season = 0, mr_episode = 0, mr_episode_end = 0,
     mr_path = ''/m/alien.mkv'', mr_file_id = 7, mr_size = 100, mr_mod_time_ns = 5\<rparr>"

definition sample_queue :: queue_db where
  "sample_queue = \<lparr>q_instances = [(''radarr'', 3)], q_media = [sample_media], q_searches = [], q_history = [],
     q_rejections = []\<rparr>"

definition sample_repository :: repository where
  "sample_repository = \<lparr>rp_scope = None, rp_routes = None, rp_digest = id\<rparr>"

text \<open>A search of the sample media, scheduled by an import one hour after the epoch and claimed by a manual run.\<close>

definition sample_claimed :: queue_db where
  "sample_claimed = queue_run sample_repository
     [QSchedule 1 ''en'' (unix_epoch + hour) 300 [], QClaim 1 ''en'' ''job'' (unix_epoch + hour) hour] sample_queue"

lemma sample_scheduled:
  "queue_apply sample_repository (QSchedule 1 ''en'' (unix_epoch + hour) 300 []) sample_queue =
     sample_queue\<lparr>q_searches := [(new_search 1 ''en'' pending hour hour 300)
        \<lparr>sr_instance_rank := 3, sr_sort_title := ''alien'', sr_sort_season := 1979\<rparr>]\<rparr>"
  by (simp add: scheduleMediaSearchTx_def priority_defs validSearchPriority_def validUnsupportedReason_def
      upsert_search_def sample_queue_def find_media_def sample_media_def sql_upsert_def queue_order_trigger_def
      instance_priority_def sort_season_def MediaMovie_def unix_nano_def new_search_def ascii_lower_def char_of_def
      bit_Suc_0_iff)

lemma sample_claimed_eq:
  "sample_claimed = sample_queue\<lparr>q_searches := [(new_search 1 ''en'' pending hour hour 300)
        \<lparr>sr_instance_rank := 3, sr_sort_title := ''alien'', sr_sort_season := 1979,
         sr_lease_owner := Some ''job'', sr_lease_until_ns := Some (2 * hour)\<rparr>]\<rparr>"
proof -
  have "queue_apply sample_repository (QClaim 1 ''en'' ''job'' (unix_epoch + hour) hour)
      (queue_apply sample_repository (QSchedule 1 ''en'' (unix_epoch + hour) 300 []) sample_queue)
    = sample_queue\<lparr>q_searches := [(new_search 1 ''en'' pending hour hour 300)
        \<lparr>sr_instance_rank := 3, sr_sort_title := ''alien'', sr_sort_season := 1979,
         sr_lease_owner := Some ''job'', sr_lease_until_ns := Some (2 * hour)\<rparr>]\<rparr>"
    unfolding sample_scheduled
    by (simp add: ClaimSearch_def upsert_search_def sample_queue_def find_media_def sample_media_def sql_upsert_def
        search_key_def lease_free_def new_search_def unix_nano_def Let_def)
  then show ?thesis by (simp only: sample_claimed_def queue_run_simps)
qed

lemma sample_claimed_reach: "queue_reach sample_repository sample_claimed"
proof -
  have "queue_reach sample_repository (queue_apply sample_repository (QSchedule 1 ''en'' (unix_epoch + hour) 300 []) sample_queue)"
    by (intro reach_op reach_start) (simp_all add: sample_queue_def)
  then have "queue_reach sample_repository (queue_apply sample_repository (QClaim 1 ''en'' ''job'' (unix_epoch + hour) hour)
      (queue_apply sample_repository (QSchedule 1 ''en'' (unix_epoch + hour) 300 []) sample_queue))"
    by (rule reach_op) (simp only: sample_scheduled, simp add: free_owner_def new_search_def)
  then show ?thesis by (simp only: sample_claimed_def queue_run_simps)
qed

text \<open>C17: in every reachable state of the search queue a media file and language have one row, a row has
  an owner exactly when it has an expiry, no owner holds two searches, a requested rerun belongs to a
  leased pending search, a search is pending or complete and a complete one has no due time.\<close>

theorem search_queue_invariant:
  assumes "queue_reach rp q"
  shows "distinct (map (\<lambda>r. (sr_media_id r, sr_language r)) (q_searches q))
    \<and> (\<forall>r \<in> set (q_searches q).
         (sr_lease_owner r = None) = (sr_lease_until_ns r = None)
         \<and> (sr_rerun_requested r \<longrightarrow> sr_lease_owner r \<noteq> None \<and> sr_state r = ''pending'')
         \<and> (sr_state r = ''pending'' \<or> sr_state r = ''complete'' \<and> sr_next_attempt_at_ns r = 0)
         \<and> (\<forall>r' \<in> set (q_searches q). \<forall>j. sr_lease_owner r = Some j \<and> sr_lease_owner r' = Some j \<longrightarrow> r = r'))"
  using reach_facts [OF assms] by blast

theorem search_queue_invariant_witness:
  "distinct (map (\<lambda>r. (sr_media_id r, sr_language r)) (q_searches sample_claimed)) \<and> q_searches sample_claimed \<noteq> []"
  using search_queue_invariant [OF sample_claimed_reach] by (simp add: sample_claimed_eq)

text \<open>C1: a live lease excludes every other owner. While it lasts, whatever other owners, media events,
  retries and rejections do to the queue, the search stays with its owner until the same time, no
  later lease of due searches returns it and no other run can claim it.\<close>

theorem lease_mutual_exclusion:
  assumes "queue_reach rp q" "holds_lease k j u (q_searches q)" "fresh_run rp ops q"
    and "\<forall>op \<in> set ops. \<not> op_by j op \<and> op_before u op" "unix_nano now < u"
  shows "holds_lease k j u (q_searches (queue_run rp ops q))
    \<and> (\<forall>fresh limit dur paused leases q'.
         LeaseDueSearchesExcept rp fresh now limit dur paused (queue_run rp ops q) = Ok (leases, q')
         \<longrightarrow> (\<forall>le \<in> set leases. (sl_media_id le, sl_language le) \<noteq> k))
    \<and> (\<forall>j' lease b q'. j' \<noteq> j \<and> ClaimSearch (fst k) (snd k) j' now lease (queue_run rp ops q) = Ok (b, q') \<longrightarrow> \<not> b)"
proof -
  note inv0 = queue_reach_inv [OF assms(1)]
  note inv = queue_run_inv [OF inv0 assms(3)]
  have held: "holds_lease k j u (q_searches (queue_run rp ops q))"
    using live_lease_run [OF inv0 assms(3,2,4)] .
  have "\<not> b" if "j' \<noteq> j" "ClaimSearch (fst k) (snd k) j' now lease (queue_run rp ops q) = Ok (b, q')" for j' lease b q'
    using claim_other [OF that(2,1) assms(5) inv held] by simp
  with held held_lease_step [OF inv held assms(5)] show ?thesis by blast
qed

theorem lease_mutual_exclusion_witness:
  "holds_lease (1, ''en'') ''job'' (2 * hour)
     (q_searches (queue_run sample_repository [QSchedule 1 ''en'' (unix_epoch + hour + minute) 300 [], QDelete 1] sample_claimed))"
proof -
  have "holds_lease (1, ''en'') ''job'' (2 * hour) (q_searches sample_claimed)"
    by (simp add: sample_claimed_eq holds_lease_def search_row_key_def new_search_def)
  from lease_mutual_exclusion [OF sample_claimed_reach this, of "[QSchedule 1 ''en'' (unix_epoch + hour + minute) 300 [], QDelete 1]" "unix_epoch + hour"]
  show ?thesis by (simp add: unix_nano_def)
qed

text \<open>A lease call hands out the due searches in queue order, by priority, instance rank and then age and
  title. Nothing due is skipped: the searches it leaves are the ones after the limit. Each search it
  returns is leased to the returned job until the end of the lease and carries the counters of its row.\<close>

theorem lease_complete_ordered:
  assumes "queue_reach rp q" "0 < limit" "0 < dur" "\<not> scope_disabled rp"
  shows "\<exists>leases q' taken rest. LeaseDueSearchesExcept rp fresh now limit dur paused q = Ok (leases, q')
    \<and> mset (taken @ rest) = mset (filter (search_due rp q (unix_nano now) paused) (q_searches q))
    \<and> sorted (map lease_key (taken @ rest))
    \<and> length taken \<le> nat limit \<and> (length taken < nat limit \<longrightarrow> rest = [])
    \<and> list_all2 lease_of_row leases taken
    \<and> (\<forall>le \<in> set leases. holds_lease (sl_media_id le, sl_language le) (sl_job_id le) (unix_nano (now + dur)) (q_searches q'))"
proof -
  note inv = queue_reach_inv [OF assms(1)]
  let ?sorted = "sort_key lease_key (filter (search_due rp q (unix_nano now) paused) (q_searches q))"
  let ?taken = "take (nat limit) ?sorted" and ?rest = "drop (nat limit) ?sorted"
  have "mset (?taken @ ?rest) = mset (filter (search_due rp q (unix_nano now) paused) (q_searches q))"
    by (simp only: append_take_drop_id mset_sort)
  moreover have "sorted (map lease_key (?taken @ ?rest))" by (simp only: append_take_drop_id sorted_sort_key)
  moreover have "length ?taken \<le> nat limit" "length ?taken < nat limit \<longrightarrow> ?rest = []" by auto
  moreover have "list_all2 lease_of_row (map (\<lambda>(k, item). lease_of (fresh k) (now + dur) item)
      (List.enumerate 0 (due_items rp q now limit paused))) ?taken"
    using leases_of_rows [of fresh "now + dur" 0 "due_items rp q now limit paused"] unfolding due_items_rows .
  moreover note LeaseDueSearchesExcept_Ok [OF inv assms(2-4), of fresh now paused]
    leases_held [OF inv, of _ fresh "now + dur" rp now limit paused]
  ultimately show ?thesis
    by (intro exI conjI; assumption?) (simp_all only: queue_db.select_convs queue_db.update_convs, auto)
qed

definition sample_pending :: queue_db where
  "sample_pending = queue_apply sample_repository (QSchedule 1 ''en'' (unix_epoch + hour) 300 []) sample_queue"

lemma sample_pending_reach: "queue_reach sample_repository sample_pending"
  unfolding sample_pending_def by (intro reach_op reach_start) (simp_all add: sample_queue_def)

theorem lease_complete_ordered_witness:
  "\<exists>le q'. LeaseDueSearchesExcept sample_repository (\<lambda>k. ''id'') (unix_epoch + hour) 5 hour [] sample_pending = Ok ([le], q')
    \<and> sl_media_id le = 1 \<and> holds_lease (1, ''en'') (sl_job_id le) (2 * hour) (q_searches q')"
proof -
  have due: "\<exists>r. filter (search_due sample_repository sample_pending (unix_nano (unix_epoch + hour)) []) (q_searches sample_pending) = [r]
      \<and> sr_media_id r = 1 \<and> sr_language r = ''en''"
    unfolding sample_pending_def sample_scheduled
    by (simp add: search_due_def find_media_def sample_queue_def sample_media_def new_search_def lease_free_def in_scope_def
        sample_repository_def unix_nano_def)
  have "\<not> scope_disabled sample_repository" by (simp add: scope_disabled_def sample_repository_def)
  with lease_complete_ordered [OF sample_pending_reach, of 5 hour "\<lambda>k. ''id''" "unix_epoch + hour" "[]"]
  obtain leases q' taken rest where o: "LeaseDueSearchesExcept sample_repository (\<lambda>k. ''id'') (unix_epoch + hour) 5 hour [] sample_pending = Ok (leases, q')"
    "mset (taken @ rest) = mset (filter (search_due sample_repository sample_pending (unix_nano (unix_epoch + hour)) []) (q_searches sample_pending))"
    "length taken < nat 5 \<longrightarrow> rest = []" "list_all2 lease_of_row leases taken"
    "\<forall>le \<in> set leases. holds_lease (sl_media_id le, sl_language le) (sl_job_id le) (unix_nano (unix_epoch + hour + hour)) (q_searches q')"
    by auto
  from due obtain r where f: "filter (search_due sample_repository sample_pending (unix_nano (unix_epoch + hour)) []) (q_searches sample_pending) = [r]"
    and key: "sr_media_id r = 1" "sr_language r = ''en''" by blast
  have r: "mset (taken @ rest) = {#r#}" using o(2) unfolding f by simp
  then have "length (taken @ rest) = 1" by (metis size_mset size_single)
  with o(3) have "rest = []" by auto
  with r have "taken = [r]" by (metis append_Nil2 mset_single_iff)
  with o(4) obtain le where "leases = [le]" "lease_of_row le r" by (auto simp: list_all2_Cons2)
  with o(1,5) key show ?thesis by (auto simp: lease_of_row_def unix_nano_def)
qed

text \<open>C18: a change that arrives while a search runs is never lost. After new media data schedules a leased
  search, whatever outcome its owner reports (complete, missing, failed, with any next attempt) the
  completion succeeds, reports the rerun and leaves the search due at the time of the change with its
  counters reset; a release does the same, and settling by the owner changes nothing.\<close>

theorem change_during_lease_kept:
  assumes "queue_reach rp q" "holds_lease (i, l) (co_job_id c) u (q_searches q)"
    and "find_media q i = Some m" "\<not> mr_deleted m" "co_priority c = 0 \<or> validSearchPriority (co_priority c)"
    and "scheduleMediaSearchTx i l t prio [] q = Ok q1" "co_job_id c \<noteq> []" "unix_nano now < u"
  shows "(\<exists>res q2. CompleteSearch rp wall c q1 = Ok (res, q2) \<and> cr_rerun_scheduled res
      \<and> (\<exists>r \<in> set (q_searches q2). due_again i l t r))
    \<and> (\<exists>q2. ReleaseSearchLease (co_job_id c) q1 = Ok q2 \<and> (\<exists>r \<in> set (q_searches q2). due_again i l t r))
    \<and> SettlePendingSearch i l outcome now (co_job_id c) q1 = q1"
proof -
  note inv = queue_reach_inv [OF schedule_inv_reach [OF assms(1,6)]]
  from scheduled_while_leased [OF assms(2,6)] assms(3) obtain r where
    r: "r \<in> set (q_searches q1)" "rerun_row i l t (co_job_id c) r" "sr_lease_until_ns r = Some u" "find_media q1 i = Some m"
    by (metis option.inject)
  from complete_rerun [OF inv r(1,2,4) assms(4,5)] release_rerun [OF r(1,2) assms(7)] settle_rerun [OF inv r(1-3) assms(8)]
  show ?thesis by blast
qed

definition sample_completion :: SearchCompletion where
  "sample_completion = zero_completion\<lparr>co_job_id := ''job'', co_outcome := ''missing'', co_next_attempt_at := unix_epoch + 3 * hour,
     co_resume_providers := [''os'', ''titlovi''], co_preserve_resume := True\<rparr>"

lemma sample_held: "holds_lease (1, ''en'') ''job'' (2 * hour) (q_searches sample_claimed)"
  by (simp add: sample_claimed_eq holds_lease_def search_row_key_def new_search_def)

lemma sample_found: "find_media sample_claimed 1 = Some sample_media"
  by (simp add: sample_claimed_eq find_media_def sample_queue_def sample_media_def)

theorem change_during_lease_kept_witness:
  "\<exists>q1. scheduleMediaSearchTx 1 ''en'' (unix_epoch + hour + minute) 300 [] sample_claimed = Ok q1
    \<and> (\<exists>q2. ReleaseSearchLease ''job'' q1 = Ok q2 \<and> (\<exists>r \<in> set (q_searches q2). due_again 1 ''en'' (unix_epoch + hour + minute) r))"
proof -
  have "\<exists>q1. scheduleMediaSearchTx 1 ''en'' (unix_epoch + hour + minute) 300 [] sample_claimed = Ok q1"
    by (simp add: scheduleMediaSearchTx_def priority_defs validSearchPriority_def validUnsupportedReason_def upsert_search_def
        new_search_def sample_found)
  then obtain q1 where q1: "scheduleMediaSearchTx 1 ''en'' (unix_epoch + hour + minute) 300 [] sample_claimed = Ok q1" ..
  have "co_job_id sample_completion = ''job''" "co_priority sample_completion = 0" "\<not> mr_deleted sample_media"
    by (simp_all add: sample_completion_def zero_completion_def sample_media_def)
  with change_during_lease_kept [OF sample_claimed_reach _ sample_found _ _ q1, of sample_completion "2 * hour" "unix_epoch + hour"] sample_held q1
  show ?thesis by (simp add: unix_nano_def)
qed

text \<open>
  Operations that leave a search (\<open>k\<close>: media and language) alone: they neither lease, claim, complete, reschedule,
  settle nor reject it, and do not touch its media file.
\<close>

fun leaves_search :: "repository \<Rightarrow> int \<times> language \<Rightarrow> queue_op \<Rightarrow> queue_db \<Rightarrow> bool" where
  "leaves_search rp k (QLease fresh now limit dur paused) q =
     (case LeaseDueSearchesExcept rp fresh now limit dur paused q of
        Ok (leases, _) \<Rightarrow> list_all (\<lambda>le. (sl_media_id le, sl_language le) \<noteq> k) leases | Err _ \<Rightarrow> True)"
| "leaves_search rp k (QComplete wall c) q = list_all (\<lambda>r. search_row_key r \<noteq> k \<or> \<not> owned_by (co_job_id c) r) (q_searches q)"
| "leaves_search rp k (QClaim i l j now lease) q = ((i, l) \<noteq> k)"
| "leaves_search rp k (QSettle i l outcome now j) q = ((i, l) \<noteq> k)"
| "leaves_search rp k (QClearResume i l) q = ((i, l) \<noteq> k)"
| "leaves_search rp k (QUpgrade i l t) q = ((i, l) \<noteq> k)"
| "leaves_search rp k (QSchedule i l t prio u) q = ((i, l) \<noteq> k)"
| "leaves_search rp k (QReject rj now j lease h) q = ((rj_media_id rj, rj_language rj) \<noteq> k)"
| "leaves_search rp k (QDelete i) q = (i \<noteq> fst k)"
| "leaves_search rp k (QInventory i expected fingerprint now_ns installed) q = (i \<noteq> fst k)"
| "leaves_search rp k (QMedia m) q = (mr_id m \<noteq> fst k)"
| "leaves_search rp k _ q = True"

fun leaving_run :: "repository \<Rightarrow> int \<times> language \<Rightarrow> queue_op list \<Rightarrow> queue_db \<Rightarrow> bool" where
  "leaving_run rp k [] q = True"
| "leaving_run rp k (op # ops) q = (leaves_search rp k op q \<and> leaving_run rp k ops (queue_apply rp op q))"

definition resume_row :: "int \<times> language \<Rightarrow> search_row \<Rightarrow> search_row \<Rightarrow> bool" where
  "resume_row k r0 r \<longleftrightarrow> search_row_key r = k \<and> sr_resume_providers_json r = sr_resume_providers_json r0
     \<and> sr_resume_route_signature r = sr_resume_route_signature r0 \<and> sr_resume_saved_at_ns r = sr_resume_saved_at_ns r0"

abbreviation resume_in :: "int \<times> language \<Rightarrow> search_row \<Rightarrow> search_row list \<Rightarrow> bool" where
  "resume_in k r0 rows \<equiv> list_ex (resume_row k r0) rows"

lemma resume_in_update:
  assumes "resume_in k r0 rows" "\<And>r. \<lbrakk>r \<in> set rows; search_row_key r = k; p r\<rbrakk> \<Longrightarrow> resume_row k r (f r)"
  shows "resume_in k r0 (sql_update p f rows)"
proof -
  from assms(1) obtain r where r: "r \<in> set rows" "resume_row k r0 r" by (auto simp: list_ex_iff)
  show ?thesis
  proof (cases "p r")
    case True
    with r assms(2) [of r] have "resume_row k r0 (f r)" by (simp add: resume_row_def)
    with True sql_update_hit [OF r(1), of p f] show ?thesis unfolding list_ex_iff by blast
  next
    case False
    with r sql_update_frame [of r rows p f] show ?thesis by (auto simp: list_ex_iff)
  qed
qed

lemma resume_in_upsert:
  assumes "resume_in k r0 (q_searches q)" "upsert_search q new p f = Ok q'" "search_row_key new \<noteq> k"
  shows "resume_in k r0 (q_searches q')"
proof (cases "\<exists>r \<in> set (q_searches q). search_key (sr_media_id new) (sr_language new) r")
  case True
  have "resume_in k r0 (sql_update (\<lambda>r. search_key (sr_media_id new) (sr_language new) r \<and> p r) f (q_searches q))"
    by (rule resume_in_update [OF assms(1)]) (use assms(3) in \<open>auto simp: search_key_def search_row_key_def\<close>)
  with True upsert_search_Ok(2) [OF assms(2)] show ?thesis by (simp add: sql_upsert_def)
next
  case False
  with upsert_search_Ok(2) [OF assms(2)] assms(1) show ?thesis by (auto simp: sql_upsert_def)
qed

lemma resume_in_backfill: "resume_in k r0 (q_searches q) \<Longrightarrow> resume_in k r0 (q_searches (snd (EnsureConfiguredLanguageSearches is ls now q)))"
proof -
  have up: "resume_in k r0 rows \<Longrightarrow> resume_in k r0 (sql_upsert key (\<lambda>_. False) id new rows)" for key new rows
    by (auto simp: sql_upsert_def sql_update_none)
  have rows: "resume_in k r0 rows \<Longrightarrow> resume_in k r0 (fold (\<lambda>m. sql_upsert (K m) (\<lambda>_. False) id (N m)) ms rows)"
    for K N and ms :: "media_row list" and rows
    by (induction ms arbitrary: rows) (simp, simp only: fold_Cons o_apply up)
  have one: "resume_in k r0 (q_searches q) \<Longrightarrow> resume_in k r0 (q_searches (EnsureConfiguredLanguageSearch i l now q))" for i l q
    unfolding configured_rows by (rule rows)
  have ls: "resume_in k r0 (q_searches q) \<Longrightarrow>
      resume_in k r0 (q_searches (fold (\<lambda>language q. EnsureConfiguredLanguageSearch i language now q) ls q))" for i q
    by (induction ls arbitrary: q) (simp_all add: one)
  have "resume_in k r0 (q_searches q) \<Longrightarrow>
      resume_in k r0 (q_searches (fold (\<lambda>i q. fold (\<lambda>language q. EnsureConfiguredLanguageSearch i language now q) ls q) is q))" for q
    by (induction "is" arbitrary: q) (simp_all add: ls)
  then show "resume_in k r0 (q_searches q) \<Longrightarrow> ?thesis"
    by (simp add: EnsureConfiguredLanguageSearches_def Let_def)
qed

lemma resume_in_ok_or:
  "\<lbrakk>resume_in k r0 (q_searches q); \<And>q'. res = Ok q' \<Longrightarrow> resume_in k r0 (q_searches q')\<rbrakk> \<Longrightarrow> resume_in k r0 (q_searches (ok_or q res))"
  by (cases res) auto

lemma resume_in_lease:
  assumes inv: "queue_inv q" and r: "resume_in k r0 (q_searches q)" and left: "leaves_search rp k (QLease fresh now limit dur paused) q"
  shows "resume_in k r0 (q_searches (queue_apply rp (QLease fresh now limit dur paused) q))"
proof (cases "0 < limit \<and> 0 < dur \<and> \<not> scope_disabled rp")
  case False
  then have "q_searches (queue_apply rp (QLease fresh now limit dur paused) q) = q_searches q"
    unfolding queue_apply.simps LeaseDueSearchesExcept_def scope_disabled_def by (cases "limit \<le> 0 \<or> dur \<le> 0") auto
  with r show ?thesis by (simp only:)
next
  case True
  then have pos: "0 < limit" "0 < dur" "\<not> scope_disabled rp" by simp_all
  note run = LeaseDueSearchesExcept_Ok [OF inv pos, of fresh now paused]
  let ?items = "due_items rp q now limit paused"
  from r obtain r1 where r1: "r1 \<in> set (q_searches q)" "resume_row k r0 r1" by (auto simp: list_ex_iff)
  have left: "list_all (\<lambda>le. (sl_media_id le, sl_language le) \<noteq> k)
      (map (\<lambda>(k, item). lease_of (fresh k) (now + dur) item) (List.enumerate 0 ?items))"
    using left unfolding leaves_search.simps run sum.case prod.case .
  have "search_row_key (du_row item) \<noteq> k" if item: "item \<in> set ?items" for item
  proof -
    have "item \<in> snd ` set (List.enumerate 0 ?items)"
      using item unfolding set_map [symmetric] map_snd_enumerate .
    then obtain n where "(n, item) \<in> set (List.enumerate 0 ?items)" by auto
    then have "lease_of (fresh n) (now + dur) item \<in> set (map (\<lambda>(k, item). lease_of (fresh k) (now + dur) item) (List.enumerate 0 ?items))"
      unfolding set_map by (rule rev_image_eqI) simp
    with left have "(sl_media_id (lease_of (fresh n) (now + dur) item), sl_language (lease_of (fresh n) (now + dur) item)) \<noteq> k"
      unfolding list_all_iff by (rule bspec)
    then show ?thesis by (simp add: lease_of_def search_row_key_def)
  qed
  then have "r1 \<in> set (claim_rows fresh (now + dur) 0 ?items (q_searches q))"
    using r1 by (intro claim_rows_frame) (auto simp: resume_row_def)
  moreover have "q_searches (queue_apply rp (QLease fresh now limit dur paused) q)
      = claim_rows fresh (now + dur) 0 ?items (q_searches q)"
    unfolding queue_apply.simps run sum.case prod.case by simp
  ultimately show ?thesis using r1(2) unfolding list_ex_iff by metis
qed

lemma resume_in_step:
  assumes inv: "queue_inv q" and r: "resume_in k r0 (q_searches q)" and left: "leaves_search rp k op q"
  shows "resume_in k r0 (q_searches (queue_apply rp op q))"
proof (cases op)
  case (QLease fresh now limit dur paused)
  with resume_in_lease [OF inv r] left show ?thesis by simp
next
  case (QComplete wall c)
  have "resume_in k r0 (q_searches q')" if ok: "CompleteSearch rp wall c q = Ok (res, q')" for res q'
    using ok
  proof (rule CompleteSearch_Ok)
    fix m resume
    assume "q_searches q' = sql_update (owned_by (co_job_id c)) (if mr_deleted m then deleted_row else completed_row c resume) (q_searches q)"
    then show ?thesis using left by (auto simp: QComplete list_all_iff intro!: resume_in_update [OF r])
  qed
  with r show ?thesis by (auto simp: QComplete split: sum.split)
next
  case (QClaim i l j now lease)
  have "resume_in k r0 (q_searches q')" if "ClaimSearch i l j now lease q = Ok (b, q')" for b q'
    using that left
    by (auto simp: QClaim ClaimSearch_def Let_def new_search_def search_row_key_def
        dest!: resume_in_upsert [OF r] split: if_split_asm sum.split_asm)
  with r show ?thesis by (auto simp: QClaim split: sum.split)
next
  case (QReject rj now j lease h)
  have "resume_in k r0 (q_searches q')" if ok: "RecordUserRejection rj now j lease h q = Ok q'" for q'
  proof -
    from ok obtain q1 q2 new grant where q1: "putCandidateRejection rj q = Ok q1"
      and q2: "upsert_search q1 new (\<lambda>_. True) (rejected_row (unix_nano now) grant) = Ok q2"
      and new: "search_row_key new = (rj_media_id rj, rj_language rj)" and q': "q_searches q' = q_searches q2"
      by (auto simp: RecordUserRejection_def Let_def new_search_def search_row_key_def split: if_split_asm sum.split_asm)
    have "resume_in k r0 (q_searches q1)" using r putCandidateRejection_Ok [OF q1] by simp
    from resume_in_upsert [OF this q2] left show ?thesis by (simp add: q' new QReject)
  qed
  with r show ?thesis by (auto simp: QReject intro: resume_in_ok_or)
next
  case (QUpgrade i l t)
  have "resume_in k r0 (q_searches q')" if "EnsureUpgradeSearch i l t q = Ok q'" for q'
    using that left r
    by (auto simp: QUpgrade EnsureUpgradeSearch_def new_search_def search_row_key_def
        dest!: resume_in_upsert [OF r] split: if_split_asm option.split_asm)
  with r show ?thesis by (auto simp: QUpgrade intro: resume_in_ok_or)
next
  case (QSchedule i l t prio v)
  have "resume_in k r0 (q_searches q')" if "scheduleMediaSearchTx i l t prio v q = Ok q'" for q'
    using that left
    by (auto simp: QSchedule scheduleMediaSearchTx_def new_search_def search_row_key_def
        dest!: resume_in_upsert [OF r] split: if_split_asm)
  with r show ?thesis by (auto simp: QSchedule intro: resume_in_ok_or)
next
  case (QInventory i expected fp n ls)
  have "resume_in k r0 (q_searches q')" if ok: "ReplaceTrackInventory i expected fp n ls q = Ok q'" for q'
  proof -
    obtain changed p where rows: "q_searches q' = sql_update p (replaced_row n)
       (sql_update (\<lambda>r. sr_media_id r = i \<and> changed) (\<lambda>r. clear_resume r) (q_searches q))"
      using inventory_searches [OF ok] by metis
    show ?thesis unfolding rows
      by (intro resume_in_update r) (use left in \<open>auto simp: QInventory resume_row_def search_row_key_def replaced_row_def\<close>)
  qed
  with r show ?thesis by (auto simp: QInventory intro: resume_in_ok_or)
next
  case (QMedia m)
  have "q_searches (update_media_row m q) = sql_update (\<lambda>r. sr_media_id r = mr_id m) (media_search_order m) (q_searches q)
      \<or> q_searches (update_media_row m q) = q_searches q"
    by (auto simp: update_media_row_def Let_def split: option.split)
  with r left show ?thesis
    by (auto simp: QMedia resume_row_def search_row_key_def intro!: resume_in_update)
next
  case (QPriorities ps)
  with r show ?thesis
    by (auto simp: SetInstanceQueuePriorities_def Let_def list_ex_iff resume_row_def reranked_def search_row_key_def)
next
  case (QBackfill insts ls now)
  with resume_in_backfill [OF r] show ?thesis by simp
qed (use r left in \<open>auto simp: RenewSearchLease_def ReleaseSearchLease_def SettlePendingSearch_def ClearSearchResume_def
    RetryThrottledSearches_def delete_media_def cancelled_row_def ClearUserRejections_def Let_def search_key_def
    resume_row_def search_row_key_def intro!: resume_in_update\<close>)

lemma find_update: "(\<And>x. p x \<Longrightarrow> \<not> P x \<and> \<not> P (f x)) \<Longrightarrow> find P (sql_update p f xs) = find P xs"
  by (induction xs) auto

lemma media_step:
  assumes left: "leaves_search rp k op q"
  shows "find_media (queue_apply rp op q) (fst k) = find_media q (fst k)"
proof -
  have ok: "find_media (ok_or q res) i = find_media q i" if "\<And>q'. res = Ok q' \<Longrightarrow> find_media q' i = find_media q i" for res i
    using that by (cases res) auto
  have conf: "q_media (snd (EnsureConfiguredLanguageSearches is ls now q)) = q_media q" for "is" ls now
  proof -
    have "q_media (fold (\<lambda>l q. EnsureConfiguredLanguageSearch i l now q) ls q) = q_media q" for i q
      by (induction ls arbitrary: q) (simp_all add: EnsureConfiguredLanguageSearch_def)
    then show ?thesis unfolding EnsureConfiguredLanguageSearches_def Let_def snd_conv
      by (induction "is" arbitrary: q) simp_all
  qed
  have up: "q_media q' = q_media q" if "upsert_search q new p f = Ok q'" for q q' :: queue_db and new p f
    using that by (auto simp: upsert_search_def split: if_split_asm)
  have hist: "q_media q' = q_media q" if "insertSearchHistory i l out d t q = Ok q'" for q q' i l out d t
    using that by (auto simp: insertSearchHistory_def split: option.split_asm)
  have comp: "q_media q' = q_media q" if "CompleteSearch rp wall c q = Ok (res, q')" for wall c res q'
    using that by (auto simp: CompleteSearch_def Let_def dest!: hist split: if_split_asm option.split_asm sum.split_asm prod.split_asm)
  have rej: "q_media q' = q_media q" if rj: "RecordUserRejection rj now j lease h q = Ok q'" for rj now j lease h q'
  proof -
    from rj obtain q1 where "putCandidateRejection rj q = Ok q1" "q_media q' = q_media q1"
      by (auto simp: RecordUserRejection_def Let_def dest!: up hist split: if_split_asm sum.split_asm)
    with putCandidateRejection_Ok show ?thesis by metis
  qed
  show ?thesis using left
    by (cases op)
      (auto simp: find_media_def LeaseDueSearchesExcept_def RenewSearchLease_def ClaimSearch_def ReleaseSearchLease_def
        SettlePendingSearch_def ClearSearchResume_def EnsureUpgradeSearch_def RetryThrottledSearches_def
        scheduleMediaSearchTx_def delete_media_def conf SetInstanceQueuePriorities_def ReplaceTrackInventory_def
        update_media_row_def ClearUserRejections_def Let_def
        intro!: ok [unfolded find_media_def] find_update dest!: up comp rej
        split: if_split_asm option.split_asm option.split sum.split prod.split_asm prod.split)
qed

lemma resume_in_run:
  "\<lbrakk>queue_inv q; fresh_run rp ops q; leaving_run rp k ops q; resume_in k r0 (q_searches q)\<rbrakk>
   \<Longrightarrow> resume_in k r0 (q_searches (queue_run rp ops q)) \<and> find_media (queue_run rp ops q) (fst k) = find_media q (fst k)"
  by (induction ops arbitrary: q) (simp_all add: queue_apply_inv resume_in_step media_step)

text \<open>C19: provider progress that a completion saves, its provider ids in ASCII, is what the next lease of that search
  returns, whatever the queue does in between to other searches, other media files and the order, as long as the progress
  is younger than its maximal age and the route is unchanged: the list survives its JSON column and comes
  back with the same signature.\<close>

theorem saved_progress_roundtrip:
  assumes "queue_reach rp q" "holds_lease (i, l) (co_job_id c) u (q_searches q)"
    and "CompleteSearch rp wall c q = Ok (res, q1)" "cr_resume_count res \<noteq> 0"
    and "\<forall>p \<in> set (co_resume_providers c). ascii p"
    and "saved = (if is_zero_time (co_resume_saved_at c) then wall else co_resume_saved_at c)"
    and "unix_nano saved \<noteq> 0" "now - saved < ResumeProvidersMaxAge"
    and "fresh_run rp ops q1" "leaving_run rp (i, l) ops q1"
    and "LeaseDueSearchesExcept rp fresh now limit dur paused (queue_run rp ops q1) = Ok (leases, q2)"
    and "le \<in> set leases" "sl_media_id le = i" "sl_language le = l"
  shows "sl_resume_providers le = co_resume_providers c \<and> sl_resume_signature le = co_resume_signature c"
proof -
  note inv = queue_reach_inv [OF assms(1)]
  from assms(2) obtain r0 where r0: "r0 \<in> set (q_searches q)" "search_row_key r0 = (i, l)" "sr_lease_owner r0 = Some (co_job_id c)"
    by (auto simp: holds_lease_def)
  from saved_row [OF assms(3,4) r0(1,3) inv] obtain r json m where r: "r \<in> set (q_searches q1)" "search_row_key r = (i, l)"
    "find_media q1 (sr_media_id r) = Some m" "currentResumeScope rp (sr_language r) m (co_resume_signature c)"
    "encodeResumeProviders (co_resume_providers c) = Some json" "decodeSearchResume rp (sr_language r) json \<noteq> None"
    "sr_resume_providers_json r = json" "sr_resume_route_signature r = co_resume_signature c" "sr_resume_saved_at_ns r = unix_nano saved"
    unfolding r0(2) assms(6) by metis
  have dec: "decodeSearchResume rp (sr_language r) (sr_resume_providers_json r) = Some (co_resume_providers c)"
    unfolding r(7) by (rule decode_search_encoded [OF r(5) assms(5) r(6)])
  have inv1: "queue_inv q1" by (rule complete_inv [OF inv assms(3)])
  let ?q = "queue_run rp ops q1"
  have "resume_in (i, l) r (q_searches q1)" using r(1,2) by (auto simp: list_ex_iff resume_row_def)
  from resume_in_run [OF inv1 assms(9,10) this] obtain r' where r': "r' \<in> set (q_searches ?q)" "resume_row (i, l) r r'"
    and m: "find_media ?q i = find_media q1 i" by (auto simp: list_ex_iff)
  have key: "sr_media_id r' = i" "sr_language r' = l" "sr_media_id r = i" "sr_language r = l"
    using r'(2) r(2) by (simp_all add: resume_row_def search_row_key_def)
  have col: "sr_resume_providers_json r' = sr_resume_providers_json r" "sr_resume_route_signature r' = co_resume_signature c"
    "sr_resume_saved_at_ns r' = unix_nano saved"
    using r'(2) r(8,9) by (simp_all add: resume_row_def)
  have "find_media ?q (sr_media_id r') = Some m" using m r(3) key by simp
  from saved_scan [OF this, of rp now] r(4) dec key col assms(7,8)
  have "du_resume_providers (scan_due rp ?q now r') = co_resume_providers c"
    "du_resume_signature (scan_due rp ?q now r') = co_resume_signature c" by simp_all
  with leased_scan [OF queue_run_inv [OF inv1 assms(9)] assms(11,12) r'(1)] key assms(13,14) show ?thesis
    by (simp add: search_row_key_def)
qed

lemma sample_completed:
  "CompleteSearch sample_repository (unix_epoch + hour + minute) sample_completion sample_claimed
   = Ok (\<lparr>cr_rerun_scheduled = False, cr_resume_count = 2\<rparr>,
       sample_claimed\<lparr>q_searches := map (completed_row sample_completion (json_strings [''os'', ''titlovi''], [], hour + minute))
          (q_searches sample_claimed)\<rparr>)"
proof -
  have ok: "encodeResumeProviders [''os'', ''titlovi''] = Some (json_strings [''os'', ''titlovi''])"
    by (simp add: encodeResumeProviders_def validateResumeProviders_def text_eval)
  then have "decodeResumeProviders (json_strings [''os'', ''titlovi'']) = Some [''os'', ''titlovi'']"
    by (rule decode_encoded) simp
  with ok show ?thesis
    by (simp add: CompleteSearch_def sample_claimed_eq sample_completion_def zero_completion_def owned_by_def find_media_def
        sample_queue_def sample_media_def new_search_def kept_resume_def currentResumeScope_def sample_repository_def
        decodeSearchResume_def resume_bound_of_def sql_count_def unix_nano_def Let_def)
qed

lemma sample_time: "unix_epoch + 10800000000000 \<noteq> 0"
  by (simp add: unix_epoch_def)

theorem saved_progress_roundtrip_witness:
  "\<exists>q1 leases q2. CompleteSearch sample_repository (unix_epoch + hour + minute) sample_completion sample_claimed
       = Ok (\<lparr>cr_rerun_scheduled = False, cr_resume_count = 2\<rparr>, q1)
     \<and> LeaseDueSearchesExcept sample_repository (\<lambda>k. ''id'') (unix_epoch + 3 * hour) 5 hour []
         (queue_run sample_repository [QClearResume 2 ''hr'', QRelease ''other''] q1) = Ok (leases, q2)
     \<and> map sl_resume_providers leases = [[''os'', ''titlovi'']]"
proof -
  define q1 where "q1 = sample_claimed\<lparr>q_searches := map (completed_row sample_completion (json_strings [''os'', ''titlovi''], [], hour + minute))
          (q_searches sample_claimed)\<rparr>"
  let ?now = "unix_epoch + 3 * hour"
  note fin = sample_completed [folded q1_def]
  have inv: "queue_inv q1" by (rule complete_inv [OF queue_reach_inv [OF sample_claimed_reach] fin])
  have en: "\<not> scope_disabled sample_repository" by (simp add: scope_disabled_def sample_repository_def)
  have "length (due_items sample_repository q1 ?now 5 []) = 1
      \<and> (\<forall>r \<in> set (q_searches q1). sr_media_id r = 1 \<and> sr_language r = ''en'')"
    unfolding due_items_def q1_def sample_claimed_eq
    by (simp add: search_due_def find_media_def sample_queue_def sample_media_def new_search_def lease_free_def
        in_scope_def sample_repository_def completed_row_def sample_completion_def zero_completion_def unix_nano_def
        sample_time Let_def)
  then have one: "length (due_items sample_repository q1 ?now 5 []) = Suc 0"
      and key: "\<forall>r \<in> set (q_searches q1). sr_media_id r = 1 \<and> sr_language r = ''en''" 
    unfolding One_nat_def by (rule conjunct1, rule conjunct2)
  from one obtain item where item: "due_items sample_repository q1 ?now 5 [] = [item]"
    unfolding length_Suc_conv length_0_conv by blast
  let ?le = "lease_of ''id'' (?now + hour) item"
  obtain q2 where run: "LeaseDueSearchesExcept sample_repository (\<lambda>k. ''id'') ?now 5 hour [] q1 = Ok ([?le], q2)"
    using LeaseDueSearchesExcept_Ok [OF inv _ _ en, of 5 hour "\<lambda>k. ''id''" ?now "[]"] unfolding item by simp
  have free: "sr_lease_owner r = None" if "r \<in> set (q_searches q1)" for r
    using that by (auto simp: q1_def sample_claimed_eq completed_row_def sample_completion_def zero_completion_def Let_def)
  let ?ops = "[QClearResume 2 ''hr'', QRelease ''other'']"
  have "queue_run sample_repository ?ops q1 = q1"
    using key free by (auto simp: ClearSearchResume_def ReleaseSearchLease_def search_key_def owned_by_def sql_update_none)
  with run have run: "LeaseDueSearchesExcept sample_repository (\<lambda>k. ''id'') ?now 5 hour [] (queue_run sample_repository ?ops q1)
      = Ok ([?le], q2)" by (simp only:)
  have key: "sl_media_id ?le = 1" "sl_language ?le = ''en''"
    using due_items_facts(2) [OF inv, of item sample_repository ?now 5 "[]"] key unfolding item by (simp_all add: lease_of_def)
  have co: "co_job_id sample_completion = ''job''" "co_resume_saved_at sample_completion = 0"
      "co_resume_providers sample_completion = [''os'', ''titlovi'']"
    by (simp_all add: sample_completion_def zero_completion_def)
  have "sl_resume_providers ?le = co_resume_providers sample_completion \<and> sl_resume_signature ?le = co_resume_signature sample_completion"
    by (rule saved_progress_roundtrip [where u = "2 * hour", OF sample_claimed_reach _ fin _ _ refl _ _ _ _ run _ key])
      (simp_all add: co sample_held [simplified] unix_nano_def ResumeProvidersMaxAge_def)
  then have got: "map sl_resume_providers [?le] = [[''os'', ''titlovi'']]" by (simp add: co)
  show ?thesis by (intro exI conjI, rule fin, rule run, rule got)
qed

section \<open>The owner's verdicts\<close>

text \<open>Every step that touches the verdicts about a file and language, but for the owner withdrawing them.\<close>

inductive verdict_step :: "repository \<Rightarrow> int \<times> language \<Rightarrow> queue_db \<Rightarrow> queue_db \<Rightarrow> bool" for rp k where
  verdict_op: "(\<And>i l. op = QClearReject i l \<Longrightarrow> (i, l) \<noteq> k) \<Longrightarrow> verdict_step rp k q (queue_apply rp op q)"
| verdict_put: "PutCandidateRejection rj q = Ok q' \<Longrightarrow> verdict_step rp k q q'"
| verdict_clear: "verdict_step rp k q (ClearCandidateRejections i l q)"

definition verdict :: "CandidateRejection \<Rightarrow> queue_db \<Rightarrow> bool" where
  "verdict rj q \<longleftrightarrow> (\<exists>rj' \<in> set (q_rejections q). same_rejection rj rj' \<and> rj_reason_code rj' = rj_reason_code rj)"

lemma verdict_same: "\<lbrakk>verdict rj q; q_rejections q' = q_rejections q\<rbrakk> \<Longrightarrow> verdict rj q'"
  by (simp add: verdict_def)

lemma put_verdict:
  assumes "verdict rj q" "userReasonSQL (rj_reason_code rj)" "putCandidateRejection new q = Ok q'"
  shows "verdict rj q'"
proof -
  let ?f = "\<lambda>old. new\<lparr>rj_reason_code := (if userReasonSQL (rj_reason_code old) then rj_reason_code old else rj_reason_code new)\<rparr>"
  from assms(1) obtain rj' where rj': "rj' \<in> set (q_rejections q)" "same_rejection rj rj'" "rj_reason_code rj' = rj_reason_code rj"
    unfolding verdict_def by blast
  have q': "q_rejections q' = sql_upsert (same_rejection new) (\<lambda>_. True) ?f new (q_rejections q)"
    using assms(3) by (auto simp: putCandidateRejection_def split: if_split_asm)
  show ?thesis
  proof (cases "same_rejection new rj'")
    case True
    with rj'(1) have "?f rj' \<in> set (sql_update (same_rejection new) ?f (q_rejections q))" by (rule sql_update_hit)
    moreover have "q_rejections q' = sql_update (same_rejection new) ?f (q_rejections q)"
      using True rj'(1) unfolding q' sql_upsert_def by auto
    ultimately have "?f rj' \<in> set (q_rejections q')" by simp
    moreover have "same_rejection rj (?f rj')" "rj_reason_code (?f rj') = rj_reason_code rj"
      using rj'(2,3) True assms(2) by (simp_all add: same_rejection_def)
    ultimately show ?thesis unfolding verdict_def by blast
  next
    case False
    then have "rj' \<in> set (q_rejections q')" using rj'(1) by (auto simp: q' sql_upsert_def intro: sql_update_frame)
    with rj'(2,3) show ?thesis unfolding verdict_def by blast
  qed
qed

lemma delete_verdict:
  assumes "verdict rj q" "q_rejections q' = sql_delete p (q_rejections q)"
    and "\<And>x. \<lbrakk>same_rejection rj x; rj_reason_code x = rj_reason_code rj\<rbrakk> \<Longrightarrow> \<not> p x"
  shows "verdict rj q'"
  using assms by (auto simp: verdict_def sql_delete_def)

lemma upsert_rejections: "upsert_search q new p f = Ok q' \<Longrightarrow> q_rejections q' = q_rejections q"
  by (auto simp: upsert_search_def split: if_split_asm)

lemma history_rejections: "insertSearchHistory i l out d t q = Ok q' \<Longrightarrow> q_rejections q' = q_rejections q"
  by (auto simp: insertSearchHistory_def split: option.split_asm)

lemma complete_rejections: "CompleteSearch rp wall c q = Ok (res, q') \<Longrightarrow> q_rejections q' = q_rejections q"
  by (auto simp: CompleteSearch_def Let_def dest!: history_rejections
      split: if_split_asm option.split_asm sum.split_asm prod.split_asm)

lemma reject_verdict:
  assumes "RecordUserRejection new now j lease h q = Ok q'" "verdict rj q" "userReasonSQL (rj_reason_code rj)"
  shows "verdict rj q'"
proof -
  from assms(1) obtain q1 where "putCandidateRejection new q = Ok q1" "q_rejections q' = q_rejections q1"
    by (auto simp: RecordUserRejection_def Let_def dest!: upsert_rejections history_rejections split: if_split_asm sum.split_asm)
  with put_verdict [OF assms(2,3)] verdict_same show ?thesis by blast
qed

lemma configured_rejections: "q_rejections (snd (EnsureConfiguredLanguageSearches is ls now q)) = q_rejections q"
proof -
  have "q_rejections (fold (\<lambda>l q. EnsureConfiguredLanguageSearch i l now q) ls q) = q_rejections q" for i q
    by (induction ls arbitrary: q) (simp_all add: EnsureConfiguredLanguageSearch_def)
  then show ?thesis unfolding EnsureConfiguredLanguageSearches_def Let_def snd_conv
    by (induction "is" arbitrary: q) simp_all
qed

lemma queue_op_rejections:
  assumes "case op of QReject _ _ _ _ _ \<Rightarrow> False | QClearReject _ _ \<Rightarrow> False | _ \<Rightarrow> True"
  shows "q_rejections (queue_apply rp op q) = q_rejections q"
proof -
  have ok: "q_rejections (ok_or q res) = q_rejections q" if "\<And>q'. res = Ok q' \<Longrightarrow> q_rejections q' = q_rejections q" for res
    using that by (cases res) auto
  show ?thesis using assms
    by (cases op)
      (auto intro!: ok simp: LeaseDueSearchesExcept_def RenewSearchLease_def ClaimSearch_def ReleaseSearchLease_def
        SettlePendingSearch_def ClearSearchResume_def EnsureUpgradeSearch_def RetryThrottledSearches_def
        scheduleMediaSearchTx_def delete_media_def configured_rejections SetInstanceQueuePriorities_def Let_def
        ReplaceTrackInventory_def update_media_row_def
        dest!: upsert_rejections complete_rejections
        split: if_split_asm option.split_asm option.split sum.split prod.split_asm prod.split)
qed

lemma verdict_step_kept:
  assumes "verdict_step rp (rj_media_id rj, rj_language rj) q q'" "verdict rj q" "userReasonSQL (rj_reason_code rj)"
  shows "verdict rj q'"
  using assms(1)
proof cases
  case (verdict_op op)
  then show ?thesis
  proof (cases "case op of QReject _ _ _ _ _ \<Rightarrow> False | QClearReject _ _ \<Rightarrow> False | _ \<Rightarrow> True")
    case True
    then show ?thesis using verdict_same [OF assms(2)] queue_op_rejections verdict_op(1) by blast
  next
    case False
    then consider new now j lease h where "op = QReject new now j lease h" | i l where "op = QClearReject i l"
      by (cases op) auto
    then show ?thesis
    proof cases
      case 1
      with verdict_op(1) reject_verdict [OF _ assms(2,3), of new now j lease h] assms(2) show ?thesis
        by (cases "RecordUserRejection new now j lease h q") auto
    next
      case 2
      with verdict_op show ?thesis
        by (auto simp: ClearUserRejections_def Let_def same_rejection_def intro!: delete_verdict [OF assms(2)])
    qed
  qed
next
  case (verdict_put new)
  with put_verdict [OF assms(2,3)] show ?thesis by (auto simp: PutCandidateRejection_def split: if_split_asm)
next
  case (verdict_clear i l)
  with assms(2,3) show ?thesis
    by (auto simp: ClearCandidateRejections_def intro!: delete_verdict [OF assms(2)])
qed

text \<open>C32: a verdict of the owner about a candidate is sticky. Whatever the queue does, whatever the workflow
  records about the same candidate and whichever automatic rejections are cleared, the verdict keeps its
  reason until the owner withdraws the verdicts of that file and language; forgetting an instance, which deletes the
  verdicts with the media, is apart.\<close>

theorem user_verdict_sticky:
  assumes "(verdict_step rp (rj_media_id rj, rj_language rj))\<^sup>*\<^sup>* q q'"
    and "rj \<in> set (q_rejections q)" "userReasonSQL (rj_reason_code rj)"
  shows "\<exists>rj' \<in> set (q_rejections q'). same_rejection rj rj' \<and> rj_reason_code rj' = rj_reason_code rj"
proof -
  have "verdict rj q" using assms(2) by (auto simp: verdict_def same_rejection_def)
  with assms(1) have "verdict rj q'" by (induction rule: rtranclp_induct) (auto intro: verdict_step_kept assms(3))
  then show ?thesis by (simp add: verdict_def)
qed

definition sample_rejection :: CandidateRejection where
  "sample_rejection = \<lparr>rj_media_id = 1, rj_language = ''en'', rj_provider_id = ''os'', rj_result_id = ''9'',
     rj_candidate_signature = ''c'', rj_artifact_checksum = ''a'', rj_reason_code = ''user_wrong'', rj_tool_signature = ''t'',
     rj_media_path = ''/m/alien.mkv'', rj_media_file_id = 7, rj_media_size = 100, rj_media_mod_time_ns = 5, rj_rejected_at = 1\<rparr>"

theorem user_verdict_sticky_witness:
  "\<exists>q'. PutCandidateRejection (sample_rejection\<lparr>rj_reason_code := ''desync''\<rparr>) (sample_queue\<lparr>q_rejections := [sample_rejection]\<rparr>) = Ok q'
     \<and> (\<exists>rj' \<in> set (q_rejections q'). same_rejection sample_rejection rj' \<and> rj_reason_code rj' = rj_reason_code sample_rejection)"
proof -
  let ?q = "sample_queue\<lparr>q_rejections := [sample_rejection]\<rparr>"
  have "\<exists>q'. PutCandidateRejection (sample_rejection\<lparr>rj_reason_code := ''desync''\<rparr>) ?q = Ok q'"
    by (simp add: PutCandidateRejection_def putCandidateRejection_def validateCandidateRejection_def
        validateCandidateRejectionIdentity_def sample_rejection_def find_media_def sample_queue_def sample_media_def)
  then obtain q' where q': "PutCandidateRejection (sample_rejection\<lparr>rj_reason_code := ''desync''\<rparr>) ?q = Ok q'" ..
  have "userReasonSQL (rj_reason_code sample_rejection)"
    by (simp add: userReasonSQL_def UserRejectionPrefix_def ascii_lower_def sample_rejection_def text_eval)
  with user_verdict_sticky [OF r_into_rtranclp [of "verdict_step sample_repository (rj_media_id sample_rejection, rj_language sample_rejection)",
        OF verdict_put [OF q']]] q'
  show ?thesis by auto
qed

end
