(* ===== verification/Outbox.thy ===== *)
theory Outbox
  imports Lease_Table Store_Types Go_Json "HOL-Library.Product_Lexorder"
begin

text \<open>
  The notification outbox of \<open>src/internal/store/repository.go\<close>: intents to tell a media server about a changed
  subtitle, deduplicated by key, leased for delivery, retried and pruned. The table is a list of rows;
  every operation is one transaction, and the owners of leases come from \<open>randomID\<close>.
\<close>

section \<open>The table\<close>

record notification_row =
  nw_id :: int
  nw_notifier :: string
  nw_payload :: string
  nw_attempt :: int
  nw_next_attempt_at_ns :: int
  nw_result :: string
  nw_lease_owner :: "string option"
  nw_lease_until_ns :: "int option"
  nw_dedupe_key :: "string option"
  nw_finished_at_ns :: "int option"

text \<open>SQLite gives a new row the largest row id plus one.\<close>

definition next_rowid :: "notification_row list \<Rightarrow> int" where
  "next_rowid rows = fold (\<lambda>r. max (nw_id r)) rows 0 + 1"

definition new_notification :: "int \<Rightarrow> NotificationRequest \<Rightarrow> notification_row" where
  "new_notification i request =
     \<lparr>nw_id = i, nw_notifier = nr_notifier request, nw_payload = nr_payload request, nw_attempt = 0,
      nw_next_attempt_at_ns = unix_nano (nr_next_attempt_at request), nw_result = [], nw_lease_owner = None,
      nw_lease_until_ns = None, nw_dedupe_key = Some (nr_dedupe_key request), nw_finished_at_ns = None\<rparr>"

definition has_key :: "string \<Rightarrow> notification_row \<Rightarrow> bool" where
  "has_key key r \<longleftrightarrow> nw_dedupe_key r = Some key"

section \<open>Operations\<close>

definition validateNotificationRequest :: "NotificationRequest \<Rightarrow> bool" where
  "validateNotificationRequest request \<longleftrightarrow>
     nr_notifier request \<noteq> [] \<and> nr_dedupe_key request \<noteq> [] \<and> json_Valid (nr_payload request)
     \<and> \<not> is_zero_time (nr_next_attempt_at request)"

text \<open>The insert, which a row with the same key stops, and the number of rows it added.\<close>

definition insert_notification :: "NotificationRequest \<Rightarrow> notification_row list \<Rightarrow> bool \<times> notification_row list" where
  "insert_notification request rows =
     (if list_ex (has_key (nr_dedupe_key request)) rows then (False, rows)
      else (True, rows @ [new_notification (next_rowid rows) request]))"

definition enqueueNotification :: "NotificationRequest \<Rightarrow> notification_row list \<Rightarrow> bool \<times> notification_row list" where
  "enqueueNotification request rows =
     (if nr_coalesce request then
        (case find (has_key (nr_dedupe_key request)) rows of
           None \<Rightarrow> insert_notification request rows
         | Some r \<Rightarrow>
             if nw_lease_owner r = None then (False, rows)
             else insert_notification request
                    (sql_update (\<lambda>r'. nw_id r' = nw_id r) (\<lambda>r'. r'\<lparr>nw_dedupe_key := None\<rparr>) rows))
      else insert_notification request rows)"

definition EnqueueNotification ::
  "NotificationRequest \<Rightarrow> notification_row list \<Rightarrow> (string, bool \<times> notification_row list) result" where
  "EnqueueNotification request rows =
     (if validateNotificationRequest request then Ok (enqueueNotification request rows)
      else Err ''notification notifier, dedupe key, valid payload, and due time are required'')"

definition notification_free :: "int \<Rightarrow> notification_row \<Rightarrow> bool" where
  "notification_free now_ns r \<longleftrightarrow> (case nw_lease_until_ns r of None \<Rightarrow> True | Some u \<Rightarrow> u \<le> now_ns)"

definition notification_due :: "int \<Rightarrow> notification_row \<Rightarrow> bool" where
  "notification_due now_ns r \<longleftrightarrow>
     nw_next_attempt_at_ns r > 0 \<and> nw_next_attempt_at_ns r \<le> now_ns \<and> notification_free now_ns r"

definition due_notifications :: "gotime \<Rightarrow> int \<Rightarrow> notification_row list \<Rightarrow> notification_row list" where
  "due_notifications now limit rows =
     take (nat limit) (sort_key (\<lambda>r. (nw_next_attempt_at_ns r, nw_id r)) (filter (notification_due (unix_nano now)) rows))"

definition claim_notification ::
  "(nat \<Rightarrow> string) \<Rightarrow> gotime \<Rightarrow> gotime \<Rightarrow> nat \<times> notification_row
   \<Rightarrow> NotificationLease list \<times> notification_row list \<Rightarrow> NotificationLease list \<times> notification_row list" where
  "claim_notification fresh now leaseUntil numbered acc =
     (let (k, item) = numbered; (leased, rows) = acc;
          claim = (\<lambda>r. nw_id r = nw_id item \<and> notification_free (unix_nano now) r);
          rows' = sql_update claim (\<lambda>r. r\<lparr>nw_lease_owner := Some (fresh k),
                    nw_lease_until_ns := Some (unix_nano leaseUntil)\<rparr>) rows;
          lease = \<lparr>nl_id = nw_id item, nl_notifier = nw_notifier item, nl_payload = nw_payload item,
                   nl_attempt = nw_attempt item, nl_job_id = fresh k, nl_lease_until = leaseUntil\<rparr>
      in (if sql_count claim rows = 1 then leased @ [lease] else leased, rows'))"

definition LeaseDueNotifications ::
  "(nat \<Rightarrow> string) \<Rightarrow> gotime \<Rightarrow> int \<Rightarrow> duration \<Rightarrow> notification_row list
   \<Rightarrow> (string, NotificationLease list \<times> notification_row list) result" where
  "LeaseDueNotifications fresh now limit dur rows =
     (if limit \<le> 0 \<or> dur \<le> 0 then Err ''notification lease limit and duration must be positive''
      else Ok (fold (claim_notification fresh now (now + dur))
                 (List.enumerate 0 (due_notifications now limit rows)) ([], rows)))"

definition notification_owned :: "string \<Rightarrow> notification_row \<Rightarrow> bool" where
  "notification_owned job_id r \<longleftrightarrow> nw_lease_owner r = Some job_id"

definition requireOneRow :: "nat \<Rightarrow> string \<Rightarrow> string option" where
  "requireOneRow n message = (if n \<noteq> 1 then Some message else None)"

text \<open>The statement of a renewal or completion has run when the count is checked, so its error changes the table too.\<close>

definition RenewNotificationLease ::
  "string \<Rightarrow> gotime \<Rightarrow> duration \<Rightarrow> notification_row list \<Rightarrow> string option \<times> notification_row list" where
  "RenewNotificationLease job_id now dur rows =
     (if job_id = [] \<or> dur \<le> 0 then (Some ''notification lease owner and duration are required'', rows)
      else (requireOneRow (sql_count (notification_owned job_id) rows) ''notification lease not found'',
            sql_update (notification_owned job_id) (\<lambda>r. r\<lparr>nw_lease_until_ns := Some (unix_nano (now + dur))\<rparr>) rows))"

definition finished_row :: "gotime \<Rightarrow> NotificationCompletion \<Rightarrow> notification_row \<Rightarrow> notification_row" where
  "finished_row wall c r =
     (let next = (if is_zero_time (nc_next_attempt_at c) then 0 else unix_nano (nc_next_attempt_at c));
          finished = (if is_zero_time (nc_finished_at c) then wall else nc_finished_at c)
      in r\<lparr>nw_attempt := nw_attempt r + 1, nw_next_attempt_at_ns := next, nw_result := nc_result c,
           nw_lease_owner := None, nw_lease_until_ns := None,
           nw_dedupe_key := (if next = 0 then None else nw_dedupe_key r),
           nw_finished_at_ns := (if next = 0 then Some (unix_nano finished) else None)\<rparr>)"

definition CompleteNotification ::
  "gotime \<Rightarrow> NotificationCompletion \<Rightarrow> notification_row list \<Rightarrow> string option \<times> notification_row list" where
  "CompleteNotification wall c rows =
     (requireOneRow (sql_count (notification_owned (nc_job_id c)) rows) ''notification lease not found'',
      sql_update (notification_owned (nc_job_id c)) (finished_row wall c) rows)"

definition ReleaseNotificationLease :: "string \<Rightarrow> notification_row list \<Rightarrow> string option \<times> notification_row list" where
  "ReleaseNotificationLease job_id rows =
     (if job_id = [] then (Some ''notification lease owner is required'', rows)
      else (None, sql_update (notification_owned job_id)
              (\<lambda>r. r\<lparr>nw_lease_owner := None, nw_lease_until_ns := None\<rparr>) rows))"

definition prunable :: "int \<Rightarrow> notification_row \<Rightarrow> bool" where
  "prunable before_ns r \<longleftrightarrow>
     nw_next_attempt_at_ns r = 0 \<and> (case nw_finished_at_ns r of None \<Rightarrow> False | Some f \<Rightarrow> f < before_ns)
     \<and> nw_lease_owner r = None"

definition pruned_ids :: "gotime \<Rightarrow> int \<Rightarrow> notification_row list \<Rightarrow> int list" where
  "pruned_ids before limit rows =
     map nw_id (take (nat limit) (sort_key (\<lambda>r. the (nw_finished_at_ns r)) (filter (prunable (unix_nano before)) rows)))"

definition PruneFinishedNotifications ::
  "gotime \<Rightarrow> int \<Rightarrow> notification_row list \<Rightarrow> (string, nat \<times> notification_row list) result" where
  "PruneFinishedNotifications before limit rows =
     (if limit \<le> 0 then Err ''notification prune limit must be positive''
      else let p = (\<lambda>r. nw_id r \<in> set (pruned_ids before limit rows))
           in Ok (sql_count p rows, sql_delete p rows))"

section \<open>The invariant\<close>

definition set_notification_lease :: "(string \<times> int) option \<Rightarrow> notification_row \<Rightarrow> notification_row" where
  "set_notification_lease l r = r\<lparr>nw_lease_owner := map_option fst l, nw_lease_until_ns := map_option snd l\<rparr>"

interpretation ob: lease_table nw_id nw_lease_owner nw_lease_until_ns set_notification_lease
  by unfold_locales (simp_all add: set_notification_lease_def)

abbreviation leases_ok :: "notification_row list \<Rightarrow> bool" where
  "leases_ok \<equiv> lease_inv nw_id nw_lease_owner nw_lease_until_ns"

abbreviation lease_stays :: "notification_row \<Rightarrow> notification_row \<Rightarrow> bool" where
  "lease_stays \<equiv> lease_kept nw_id nw_lease_owner nw_lease_until_ns"

text \<open>A finished intent has given up its key and its lease and has a date; an open one has no date.\<close>

definition intent_ok :: "notification_row \<Rightarrow> bool" where
  "intent_ok r \<longleftrightarrow>
     (if nw_next_attempt_at_ns r = 0 then nw_dedupe_key r = None \<and> nw_lease_owner r = None \<and> nw_finished_at_ns r \<noteq> None
      else nw_finished_at_ns r = None)"

definition keys_unique :: "notification_row list \<Rightarrow> bool" where
  "keys_unique rows \<longleftrightarrow> (\<forall>r \<in> set rows. \<forall>r' \<in> set rows. \<forall>k. has_key k r \<and> has_key k r' \<longrightarrow> nw_id r = nw_id r')"

definition outbox_inv :: "notification_row list \<Rightarrow> bool" where
  "outbox_inv rows \<longleftrightarrow> leases_ok rows \<and> keys_unique rows \<and> (\<forall>r \<in> set rows. intent_ok r)"

lemma outbox_invD:
  assumes "outbox_inv rows"
  shows "leases_ok rows" "keys_unique rows" "r \<in> set rows \<Longrightarrow> intent_ok r"
  using assms unfolding outbox_inv_def by blast+

lemma keys_uniqueD:
  "\<lbrakk>keys_unique rows; r \<in> set rows; r' \<in> set rows; has_key k r; has_key k r'\<rbrakk> \<Longrightarrow> nw_id r = nw_id r'"
  unfolding keys_unique_def by blast

text \<open>An update that grants no lease and no key.\<close>

lemma outbox_inv_update:
  assumes inv: "outbox_inv rows"
    and f: "\<And>r. \<lbrakk>r \<in> set rows; p r\<rbrakk> \<Longrightarrow> lease_stays r (f r) \<and> intent_ok (f r) \<and> nw_dedupe_key (f r) \<in> {None, nw_dedupe_key r}"
  shows "outbox_inv (sql_update p f rows)"
proof -
  let ?g = "\<lambda>r. if p r then f r else r"
  have g: "nw_id (?g r) = nw_id r" "has_key k (?g r) \<Longrightarrow> has_key k r" if "r \<in> set rows" for r k
    using f [OF that] by (auto simp: lease_kept_def has_key_def split: if_split_asm)
  have "leases_ok (sql_update p f rows)" by (rule ob.inv_update [OF outbox_invD(1) [OF inv]]) (use f in blast)
  moreover have "keys_unique (sql_update p f rows)"
    unfolding keys_unique_def
  proof (intro ballI allI impI)
    fix r r' k assume "r \<in> set (sql_update p f rows)" "r' \<in> set (sql_update p f rows)" and k: "has_key k r \<and> has_key k r'"
    then obtain s s' where s: "s \<in> set rows" "r = ?g s" "s' \<in> set rows" "r' = ?g s'" by (auto simp: set_sql_update)
    with k g(2) have "has_key k s" "has_key k s'" by blast+
    from keys_uniqueD [OF outbox_invD(2) [OF inv] s(1,3) this] show "nw_id r = nw_id r'"
      unfolding s(2,4) g(1) [OF s(1)] g(1) [OF s(3)] .
  qed
  moreover have "\<forall>r \<in> set (sql_update p f rows). intent_ok r"
    using f outbox_invD(3) [OF inv] by (auto simp: set_sql_update)
  ultimately show ?thesis by (simp add: outbox_inv_def)
qed

lemma max_ids: "r \<in> set rows \<Longrightarrow> nw_id r \<le> fold (\<lambda>r. max (nw_id r)) rows m"
proof -
  have ge: "m \<le> fold (\<lambda>r. max (nw_id r)) rows m" for m rows
  proof (induction rows arbitrary: m)
    case (Cons a rows)
    then show ?case by (metis fold_simps(2) max.bounded_iff)
  qed simp
  show "r \<in> set rows \<Longrightarrow> nw_id r \<le> fold (\<lambda>r. max (nw_id r)) rows m"
    by (induction rows arbitrary: m) (auto intro: order_trans [OF max.cobounded1 ge])
qed

lemma next_rowid_new: "r \<in> set rows \<Longrightarrow> nw_id r < next_rowid rows"
  using max_ids [of r rows 0] by (simp add: next_rowid_def)

lemma insert_inv:
  assumes inv: "outbox_inv rows" and due: "unix_nano (nr_next_attempt_at request) \<noteq> 0"
  shows "outbox_inv (snd (insert_notification request rows))"
proof (cases "list_ex (has_key (nr_dedupe_key request)) rows")
  case False
  let ?new = "new_notification (next_rowid rows) request"
  have new: "nw_id ?new = next_rowid rows" "nw_lease_owner ?new = None" "nw_lease_until_ns ?new = None"
      "nw_dedupe_key ?new = Some (nr_dedupe_key request)"
    by (simp_all add: new_notification_def)
  have "intent_ok ?new" using due by (simp add: new_notification_def intent_ok_def)
  moreover have "leases_ok (rows @ [?new])"
    by (rule ob.inv_append [OF outbox_invD(1) [OF inv]]) (auto simp: new paired_def dest: next_rowid_new)
  moreover have "keys_unique (rows @ [?new])"
    using outbox_invD(2) [OF inv] False by (auto simp: keys_unique_def has_key_def new list_ex_iff)
  ultimately show ?thesis using False outbox_invD(3) [OF inv] by (auto simp: insert_notification_def outbox_inv_def)
qed (use inv in \<open>simp add: insert_notification_def\<close>)

lemma drop_key_inv:
  assumes "outbox_inv rows"
  shows "outbox_inv (sql_update (\<lambda>r'. nw_id r' = i) (\<lambda>r'. r'\<lparr>nw_dedupe_key := None\<rparr>) rows)"
  using assms by (rule outbox_inv_update) (use outbox_invD(3) [OF assms] in \<open>auto simp: lease_kept_def intent_ok_def\<close>)

lemma enqueue_inv:
  assumes "outbox_inv rows" "unix_nano (nr_next_attempt_at request) \<noteq> 0"
  shows "outbox_inv (snd (enqueueNotification request rows))"
  unfolding enqueueNotification_def
  using insert_inv [OF _ assms(2)] drop_key_inv [OF assms(1)] assms(1) by (simp split: option.split)

lemma outbox_delete_inv: "outbox_inv rows \<Longrightarrow> outbox_inv (filter p rows)"
proof -
  assume inv: "outbox_inv rows"
  have "leases_ok (filter p rows)"
    by (rule lease_invI) (use lease_invD [OF outbox_invD(1) [OF inv]] in \<open>auto simp: distinct_map_filter\<close>)
  then show ?thesis using outbox_invD(2,3) [OF inv] by (auto simp: outbox_inv_def keys_unique_def)
qed

lemma prune_inv:
  assumes "outbox_inv rows" "PruneFinishedNotifications before limit rows = Ok (n, rows')"
  shows "outbox_inv rows'"
proof -
  obtain p where "rows' = filter p rows" using assms(2)
    by (auto simp: PruneFinishedNotifications_def sql_delete_def Let_def split: if_split_asm)
  with outbox_delete_inv [OF assms(1)] show ?thesis by simp
qed

lemma release_notification_inv: "outbox_inv rows \<Longrightarrow> outbox_inv (snd (ReleaseNotificationLease j rows))"
  by (auto simp: ReleaseNotificationLease_def lease_kept_def intent_ok_def dest: outbox_invD(3)
      intro!: outbox_inv_update split: if_split_asm)

lemma renew_notification_inv: "outbox_inv rows \<Longrightarrow> outbox_inv (snd (RenewNotificationLease j now dur rows))"
proof -
  assume inv: "outbox_inv rows"
  have "nw_lease_until_ns r \<noteq> None" if "r \<in> set rows" "notification_owned j r" for r
    using lease_invD(2) [OF outbox_invD(1) [OF inv] that(1)] that(2) by (auto simp: paired_def notification_owned_def)
  then show ?thesis using inv outbox_invD(3) [OF inv]
    by (auto simp: RenewNotificationLease_def lease_kept_def intent_ok_def intro!: outbox_inv_update)
qed

lemma complete_notification_inv: "outbox_inv rows \<Longrightarrow> outbox_inv (snd (CompleteNotification wall c rows))"
  unfolding CompleteNotification_def snd_conv
  by (erule outbox_inv_update) (auto simp: finished_row_def Let_def lease_kept_def intent_ok_def)

section \<open>Leasing\<close>

definition unleased :: "notification_row \<Rightarrow> notification_row" where
  "unleased = set_notification_lease None"

lemma unleased_eq:
  assumes "unleased r = unleased r'"
  shows "nw_id r = nw_id r'" "nw_next_attempt_at_ns r = nw_next_attempt_at_ns r'" "nw_payload r = nw_payload r'"
    "nw_notifier r = nw_notifier r'" "nw_dedupe_key r = nw_dedupe_key r'" "nw_finished_at_ns r = nw_finished_at_ns r'"
  using assms by (cases r; cases r'; simp add: unleased_def set_notification_lease_def)+

text \<open>What leasing relies on: the items are open, and the new owners hold nothing.\<close>

definition claimable :: "(nat \<Rightarrow> string) \<Rightarrow> nat \<Rightarrow> notification_row list \<Rightarrow> notification_row list \<Rightarrow> bool" where
  "claimable fresh n items rows \<longleftrightarrow> inj fresh
     \<and> (\<forall>item \<in> set items. \<forall>r \<in> set rows. nw_id r = nw_id item \<longrightarrow> nw_next_attempt_at_ns r \<noteq> 0)
     \<and> (\<forall>k \<ge> n. \<forall>r \<in> set rows. nw_lease_owner r \<noteq> Some (fresh k))"

definition leases_open :: "notification_row list \<Rightarrow> bool" where
  "leases_open rows \<longleftrightarrow> (\<forall>r \<in> set rows. nw_lease_owner r \<noteq> None \<longrightarrow> nw_next_attempt_at_ns r \<noteq> 0)"

lemma claim_notification_step:
  assumes "leases_ok rows" "leases_open rows" "claimable fresh n (item # items) rows"
    and "claim_notification fresh now t (n, item) (leased, rows) = (leased', rows')"
  shows "leases_ok rows' \<and> leases_open rows' \<and> claimable fresh (Suc n) items rows' \<and> map unleased rows' = map unleased rows"
proof -
  let ?p = "\<lambda>r. nw_id r = nw_id item \<and> notification_free (unix_nano now) r"
  let ?f = "\<lambda>r. r\<lparr>nw_lease_owner := Some (fresh n), nw_lease_until_ns := Some (unix_nano t)\<rparr>"
  have rows': "rows' = sql_update ?p ?f rows" using assms(4) by (simp add: claim_notification_def Let_def)
  have c: "inj fresh" "\<And>r i. \<lbrakk>i \<in> set (item # items); r \<in> set rows; nw_id r = nw_id i\<rbrakk> \<Longrightarrow> nw_next_attempt_at_ns r \<noteq> 0"
      "\<And>k r. \<lbrakk>k \<ge> n; r \<in> set rows\<rbrakk> \<Longrightarrow> nw_lease_owner r \<noteq> Some (fresh k)"
    using assms(3) unfolding claimable_def by blast+
  have "leases_ok rows'" unfolding rows'
    by (rule ob.inv_grant [OF assms(1), where k = "nw_id item" and j = "fresh n"]) (use c(3) [of n] in auto)
  moreover have "leases_open rows'"
    using assms(2) c(2) [OF list.set_intros(1)] by (auto simp: leases_open_def rows' set_sql_update)
  moreover have "claimable fresh (Suc n) items rows'"
    unfolding claimable_def
  proof (intro conjI ballI allI impI)
    show "inj fresh" by (rule c(1))
    fix i r assume "i \<in> set items" "r \<in> set rows'" "nw_id r = nw_id i"
    with c(2) [of i] show "nw_next_attempt_at_ns r \<noteq> 0" by (auto simp: rows' set_sql_update)
  next
    fix k r assume k: "Suc n \<le> k" and "r \<in> set rows'"
    then obtain r0 where r0: "r0 \<in> set rows" "r = r0 \<or> r = ?f r0" by (auto simp: rows' set_sql_update)
    have "fresh n \<noteq> fresh k" using k injD [OF c(1), of n k] by auto
    with r0(2) c(3) [OF Suc_leD [OF k] r0(1)] show "nw_lease_owner r \<noteq> Some (fresh k)" by auto
  qed
  moreover have "map unleased rows' = map unleased rows"
    by (simp add: rows' map_sql_update unleased_def set_notification_lease_def)
  ultimately show ?thesis by blast
qed

lemma claim_notifications:
  assumes "leases_ok rows" "leases_open rows" "claimable fresh n items rows"
    and "fold (claim_notification fresh now t) (List.enumerate n items) (leased, rows) = (leased', rows')"
  shows "leases_ok rows' \<and> leases_open rows' \<and> map unleased rows' = map unleased rows"
  using assms
proof (induction items arbitrary: n leased rows)
  case (Cons item items)
  obtain leased1 rows1 where step: "claim_notification fresh now t (n, item) (leased, rows) = (leased1, rows1)"
    by (cases "claim_notification fresh now t (n, item) (leased, rows)")
  from claim_notification_step [OF Cons.prems(1-3) step] Cons.IH [of rows1 "Suc n" leased1] Cons.prems(4) step
  show ?case by simp
qed simp

definition fresh_owners :: "(nat \<Rightarrow> string) \<Rightarrow> notification_row list \<Rightarrow> bool" where
  "fresh_owners fresh rows \<longleftrightarrow> inj fresh \<and> (\<forall>k. \<forall>r \<in> set rows. nw_lease_owner r \<noteq> Some (fresh k))"

lemma due_notifications_open:
  "\<lbrakk>item \<in> set (due_notifications now limit rows)\<rbrakk> \<Longrightarrow> item \<in> set rows \<and> nw_next_attempt_at_ns item > 0"
  by (auto simp: due_notifications_def notification_due_def dest: in_set_takeD)

lemma lease_notifications:
  assumes inv: "outbox_inv rows" and "fresh_owners fresh rows"
    and ok: "LeaseDueNotifications fresh now limit dur rows = Ok (leased, rows')"
  shows "outbox_inv rows' \<and> map unleased rows' = map unleased rows"
proof -
  have "leases_open rows" using outbox_invD(3) [OF inv] by (auto simp: leases_open_def intent_ok_def split: if_split_asm)
  moreover have "claimable fresh 0 (due_notifications now limit rows) rows"
    unfolding claimable_def
  proof (intro conjI ballI impI)
    fix item r assume "item \<in> set (due_notifications now limit rows)" "r \<in> set rows" "nw_id r = nw_id item"
    with due_notifications_open [of item now limit rows] ob.inv_key [OF outbox_invD(1) [OF inv], of r item]
    show "nw_next_attempt_at_ns r \<noteq> 0" by auto
  qed (use assms(2) in \<open>simp_all add: fresh_owners_def\<close>)
  moreover have "fold (claim_notification fresh now (now + dur))
                 (List.enumerate 0 (due_notifications now limit rows)) ([], rows) = (leased, rows')"
    using ok by (simp add: LeaseDueNotifications_def split: if_split_asm)
  ultimately have r: "leases_ok rows'" "leases_open rows'" "map unleased rows' = map unleased rows"
    using claim_notifications [OF outbox_invD(1) [OF inv]] by blast+
  have old: "\<exists>r0 \<in> set rows. unleased r = unleased r0" if "r \<in> set rows'" for r
  proof -
    have "unleased r \<in> set (map unleased rows)" unfolding r(3) [symmetric] using that by simp
    then show ?thesis by auto
  qed
  have "keys_unique rows'"
    unfolding keys_unique_def
  proof (intro ballI allI impI)
    fix x x' k assume x: "x \<in> set rows'" "x' \<in> set rows'" and k: "has_key k x \<and> has_key k x'"
    from old [OF x(1)] old [OF x(2)] obtain y y' where y: "y \<in> set rows" "unleased x = unleased y" "y' \<in> set rows" "unleased x' = unleased y'"
      by blast
    have "has_key k y" "has_key k y'" using k unleased_eq(5) [OF y(2)] unleased_eq(5) [OF y(4)] by (simp_all add: has_key_def)
    with keys_uniqueD [OF outbox_invD(2) [OF inv] y(1,3)] show "nw_id x = nw_id x'"
      using unleased_eq(1) [OF y(2)] unleased_eq(1) [OF y(4)] by simp
  qed
  moreover have "intent_ok r" if m: "r \<in> set rows'" for r
  proof -
    from old [OF m] obtain r0 where "r0 \<in> set rows" "unleased r = unleased r0" by blast
    with outbox_invD(3) [OF inv] unleased_eq [of r r0] r(2) m show ?thesis
      by (auto simp: intent_ok_def leases_open_def split: if_split_asm)
  qed
  ultimately show ?thesis using r by (simp add: outbox_inv_def)
qed

section \<open>Runs of the outbox\<close>

datatype outbox_op =
    OEnqueue NotificationRequest
  | OLease "nat \<Rightarrow> string" gotime int duration
  | ORenew string gotime duration
  | OComplete gotime NotificationCompletion
  | ORelease string
  | OPrune gotime int

fun outbox_apply :: "outbox_op \<Rightarrow> notification_row list \<Rightarrow> notification_row list" where
  "outbox_apply (OEnqueue request) rows = (case EnqueueNotification request rows of Ok (_, rows') \<Rightarrow> rows' | Err _ \<Rightarrow> rows)"
| "outbox_apply (OLease fresh now limit dur) rows =
     (case LeaseDueNotifications fresh now limit dur rows of Ok (_, rows') \<Rightarrow> rows' | Err _ \<Rightarrow> rows)"
| "outbox_apply (ORenew j now dur) rows = snd (RenewNotificationLease j now dur rows)"
| "outbox_apply (OComplete wall c) rows = snd (CompleteNotification wall c rows)"
| "outbox_apply (ORelease j) rows = snd (ReleaseNotificationLease j rows)"
| "outbox_apply (OPrune before limit) rows =
     (case PruneFinishedNotifications before limit rows of Ok (_, rows') \<Rightarrow> rows' | Err _ \<Rightarrow> rows)"

text \<open>New owners are fresh, and nothing is due at the start of 1970, which the table reads as finished.\<close>

fun outbox_ok :: "outbox_op \<Rightarrow> notification_row list \<Rightarrow> bool" where
  "outbox_ok (OLease fresh now limit dur) rows = fresh_owners fresh rows"
| "outbox_ok (OEnqueue request) rows = (unix_nano (nr_next_attempt_at request) \<noteq> 0)"
| "outbox_ok _ rows = True"

text \<open>\<open>ForgetInstance\<close> deletes the intents whose payload names the instance, which SQLite reads out of the JSON.\<close>

definition forget_notifications :: "(string \<Rightarrow> bool) \<Rightarrow> notification_row list \<Rightarrow> notification_row list" where
  "forget_notifications names rows = sql_delete (\<lambda>r. names (nw_payload r)) rows"

inductive outbox_reach :: "notification_row list \<Rightarrow> bool" where
  outbox_start: "outbox_reach []"
| outbox_step: "\<lbrakk>outbox_reach rows; outbox_ok op rows\<rbrakk> \<Longrightarrow> outbox_reach (outbox_apply op rows)"
| outbox_forget: "outbox_reach rows \<Longrightarrow> outbox_reach (forget_notifications names rows)"

definition outbox_run :: "outbox_op list \<Rightarrow> notification_row list \<Rightarrow> notification_row list" where
  "outbox_run ops rows = fold outbox_apply ops rows"

fun outbox_run_ok :: "outbox_op list \<Rightarrow> notification_row list \<Rightarrow> bool" where
  "outbox_run_ok [] rows = True"
| "outbox_run_ok (op # ops) rows = (outbox_ok op rows \<and> outbox_run_ok ops (outbox_apply op rows))"

lemma outbox_apply_inv: "\<lbrakk>outbox_inv rows; outbox_ok op rows\<rbrakk> \<Longrightarrow> outbox_inv (outbox_apply op rows)"
proof (cases op)
  case (OEnqueue request)
  moreover assume "outbox_inv rows" "outbox_ok op rows"
  ultimately show ?thesis using enqueue_inv [of rows request]
    by (auto simp: EnqueueNotification_def split: prod.split)
qed (auto simp: release_notification_inv renew_notification_inv complete_notification_inv
      dest: lease_notifications prune_inv split: sum.split)

lemma outbox_reach_inv: "outbox_reach rows \<Longrightarrow> outbox_inv rows"
proof (induction rule: outbox_reach.induct)
  case outbox_start
  show ?case by (simp add: outbox_inv_def lease_inv_def keys_unique_def)
qed (simp_all add: outbox_apply_inv forget_notifications_def sql_delete_def outbox_delete_inv)

text \<open>An open intent with this identity.\<close>

definition open_intent :: "notification_row \<Rightarrow> notification_row \<Rightarrow> bool" where
  "open_intent r r' \<longleftrightarrow> nw_id r' = nw_id r \<and> nw_payload r' = nw_payload r \<and> nw_notifier r' = nw_notifier r
     \<and> nw_next_attempt_at_ns r' \<noteq> 0"

lemma open_intent_trans: "\<lbrakk>open_intent r r'; open_intent r' r''\<rbrakk> \<Longrightarrow> open_intent r r''"
  by (simp add: open_intent_def)

lemma open_update:
  assumes "r \<in> set rows" "nw_next_attempt_at_ns r \<noteq> 0" "\<And>r. p r \<Longrightarrow> open_intent r (f r) \<or> nw_next_attempt_at_ns r = 0"
  shows "\<exists>r' \<in> set (sql_update p f rows). open_intent r r'"
proof (cases "p r")
  case True
  with assms have "open_intent r (f r)" by blast
  with sql_update_hit [OF assms(1), of p f] True show ?thesis by blast
next
  case False
  with sql_update_frame [OF assms(1), of p f] assms(2) show ?thesis by (auto simp: open_intent_def)
qed

lemma open_insert:
  "r \<in> set rows \<Longrightarrow> r \<in> set (snd (insert_notification request rows))"
  by (simp add: insert_notification_def)

lemma open_enqueue:
  assumes "r \<in> set rows" "nw_next_attempt_at_ns r \<noteq> 0"
  shows "\<exists>r' \<in> set (snd (enqueueNotification request rows)). open_intent r r'"
proof -
  have refl: "open_intent r r" using assms(2) by (simp add: open_intent_def)
  have upd: "\<exists>r' \<in> set (sql_update (\<lambda>r'. nw_id r' = i) (\<lambda>r'. r'\<lparr>nw_dedupe_key := None\<rparr>) rows). open_intent r r'" for i
    by (rule open_update [OF assms]) (simp add: open_intent_def)
  show ?thesis unfolding enqueueNotification_def
    using refl assms(1) upd open_insert by (fastforce split: option.split)
qed

lemma open_prune:
  assumes "outbox_inv rows" "r \<in> set rows" "nw_next_attempt_at_ns r \<noteq> 0"
    and "PruneFinishedNotifications before limit rows = Ok (n, rows')"
  shows "r \<in> set rows'"
proof -
  have "nw_id r \<notin> set (pruned_ids before limit rows)"
  proof
    assume "nw_id r \<in> set (pruned_ids before limit rows)"
    then obtain x where x: "x \<in> set rows" "nw_id x = nw_id r" "prunable (unix_nano before) x"
      by (auto simp: pruned_ids_def dest!: in_set_takeD)
    with ob.inv_key [OF outbox_invD(1) [OF assms(1)] x(1) assms(2)] assms(3) show False by (simp add: prunable_def)
  qed
  then show ?thesis using assms(2,4) by (auto simp: PruneFinishedNotifications_def sql_delete_def Let_def split: if_split_asm)
qed

lemma open_lease:
  assumes "map unleased rows' = map unleased rows" "r \<in> set rows" "nw_next_attempt_at_ns r \<noteq> 0"
  shows "\<exists>r' \<in> set rows'. open_intent r r'"
proof -
  have "unleased r \<in> set (map unleased rows')" using assms(1,2) by simp
  then obtain r' where "r' \<in> set rows'" "unleased r = unleased r'" by auto
  with unleased_eq [of r r'] assms(3) show ?thesis by (auto simp: open_intent_def)
qed

lemma open_intent_step:
  assumes inv: "outbox_inv rows" and ok: "outbox_ok op rows" and r: "r \<in> set rows" "nw_next_attempt_at_ns r \<noteq> 0"
  shows "(\<exists>r' \<in> set (outbox_apply op rows). open_intent r r')
    \<or> (\<exists>wall c. op = OComplete wall c \<and> nw_lease_owner r = Some (nc_job_id c))"
proof -
  have refl: "open_intent r r" using r(2) by (simp add: open_intent_def)
  show ?thesis
  proof (cases op)
    case (OEnqueue request)
    with open_enqueue [OF r, of request] refl r(1) show ?thesis
      by (cases "enqueueNotification request rows") (auto simp: EnqueueNotification_def)
  next
    case (OLease fresh now limit dur)
    with lease_notifications [OF inv] open_lease [OF _ r] ok refl r(1) show ?thesis by (fastforce split: sum.split prod.split)
  next
    case (ORenew j now dur)
    with open_update [OF r] refl r(1) show ?thesis by (auto simp: RenewNotificationLease_def open_intent_def)
  next
    case (OComplete wall c)
    show ?thesis
    proof (cases "notification_owned (nc_job_id c) r")
      case False
      with sql_update_frame [OF r(1)] OComplete refl show ?thesis by (auto simp: CompleteNotification_def)
    qed (use OComplete in \<open>simp add: notification_owned_def\<close>)
  next
    case (ORelease j)
    with open_update [OF r] refl r(1) show ?thesis by (auto simp: ReleaseNotificationLease_def open_intent_def)
  next
    case (OPrune before limit)
    have "r \<in> set (outbox_apply op rows)"
    proof (cases "PruneFinishedNotifications before limit rows")
      case (Inr res)
      with open_prune [OF inv r, of before limit "fst res" "snd res"] OPrune show ?thesis by (simp add: case_prod_unfold)
    qed (use OPrune r(1) in simp)
    with refl show ?thesis by blast
  qed
qed

lemma open_intent_run:
  assumes "outbox_inv rows" "outbox_run_ok ops rows" "r \<in> set rows" "nw_next_attempt_at_ns r \<noteq> 0"
  shows "(\<exists>r' \<in> set (outbox_run ops rows). open_intent r r')
    \<or> (\<exists>ops1 wall c ops2 r'. ops = ops1 @ OComplete wall c # ops2 \<and> r' \<in> set (outbox_run ops1 rows) \<and> open_intent r r'
        \<and> nw_lease_owner r' = Some (nc_job_id c))"
  using assms
proof (induction ops arbitrary: rows r)
  case Nil
  then show ?case by (auto simp: outbox_run_def open_intent_def)
next
  case (Cons op ops)
  have inv: "outbox_inv (outbox_apply op rows)" using Cons.prems outbox_apply_inv by simp
  from open_intent_step [OF Cons.prems(1) _ Cons.prems(3,4), of op] Cons.prems(2)
  consider r1 where "r1 \<in> set (outbox_apply op rows)" "open_intent r r1"
    | wall c where "op = OComplete wall c" "nw_lease_owner r = Some (nc_job_id c)" by auto
  then show ?case
  proof cases
    case 1
    then have "nw_next_attempt_at_ns r1 \<noteq> 0" by (simp add: open_intent_def)
    from Cons.IH [OF inv _ 1(1) this] Cons.prems(2) have
      "(\<exists>r' \<in> set (outbox_run ops (outbox_apply op rows)). open_intent r1 r')
       \<or> (\<exists>ops1 wall c ops2 r'. ops = ops1 @ OComplete wall c # ops2 \<and> r' \<in> set (outbox_run ops1 (outbox_apply op rows))
            \<and> open_intent r1 r' \<and> nw_lease_owner r' = Some (nc_job_id c))" by simp
    then show ?thesis
    proof
      assume "\<exists>r' \<in> set (outbox_run ops (outbox_apply op rows)). open_intent r1 r'"
      with open_intent_trans [OF 1(2)] show ?thesis by (auto simp: outbox_run_def)
    next
      assume "\<exists>ops1 wall c ops2 r'. ops = ops1 @ OComplete wall c # ops2 \<and> r' \<in> set (outbox_run ops1 (outbox_apply op rows))
            \<and> open_intent r1 r' \<and> nw_lease_owner r' = Some (nc_job_id c)"
      then obtain ops1 wall c ops2 r' where "op # ops = (op # ops1) @ OComplete wall c # ops2"
          "r' \<in> set (outbox_run (op # ops1) rows)" "open_intent r1 r'" "nw_lease_owner r' = Some (nc_job_id c)"
        by (auto simp: outbox_run_def)
      with open_intent_trans [OF 1(2)] show ?thesis by blast
    qed
  next
    case 2
    then have "op # ops = [] @ OComplete wall c # ops" "r \<in> set (outbox_run [] rows)" "open_intent r r"
      using Cons.prems(3,4) by (simp_all add: outbox_run_def open_intent_def)
    with 2(2) show ?thesis by blast
  qed
qed

section \<open>Properties\<close>

text \<open>C35: in every reachable outbox the ids and the deduplication keys are unique, an intent has an owner exactly
  when it has an expiry, no owner holds two intents, and an intent is either open and undated, or
  finished and then dated, without key and without lease.\<close>

theorem outbox_invariant:
  assumes "outbox_reach rows"
  shows "distinct (map nw_id rows)
    \<and> (\<forall>r \<in> set rows. (nw_lease_owner r = None) = (nw_lease_until_ns r = None)
         \<and> (nw_next_attempt_at_ns r = 0 \<longrightarrow> nw_dedupe_key r = None \<and> nw_lease_owner r = None \<and> nw_finished_at_ns r \<noteq> None)
         \<and> (nw_next_attempt_at_ns r \<noteq> 0 \<longrightarrow> nw_finished_at_ns r = None)
         \<and> (\<forall>r' \<in> set rows. (nw_dedupe_key r \<noteq> None \<and> nw_dedupe_key r = nw_dedupe_key r'
              \<or> nw_lease_owner r \<noteq> None \<and> nw_lease_owner r = nw_lease_owner r') \<longrightarrow> r = r'))"
proof -
  note inv = outbox_reach_inv [OF assms]
  have pair: "(nw_lease_owner r = None) = (nw_lease_until_ns r = None)" if "r \<in> set rows" for r
    using lease_invD(2) [OF outbox_invD(1) [OF inv] that] by (simp add: paired_def)
  have "r = r'" if "r \<in> set rows" "r' \<in> set rows" "nw_dedupe_key r = Some k" "nw_dedupe_key r' = Some k" for r r' k
    using keys_uniqueD [OF outbox_invD(2) [OF inv] that(1,2)] ob.inv_key [OF outbox_invD(1) [OF inv] that(1,2)] that(3,4)
    by (simp add: has_key_def)
  moreover have "r = r'" if "r \<in> set rows" "r' \<in> set rows" "nw_lease_owner r = Some j" "nw_lease_owner r' = Some j" for r r' j
    by (rule ob.inv_owner [OF outbox_invD(1) [OF inv] that])
  ultimately have "r = r'" if "r \<in> set rows" "r' \<in> set rows" "nw_dedupe_key r \<noteq> None \<and> nw_dedupe_key r = nw_dedupe_key r'
      \<or> nw_lease_owner r \<noteq> None \<and> nw_lease_owner r = nw_lease_owner r'" for r r'
    using that by (metis not_None_eq)
  with pair outbox_invD(3) [OF inv] lease_invD(1) [OF outbox_invD(1) [OF inv]] show ?thesis
    unfolding intent_ok_def by meson
qed

definition sample_request :: NotificationRequest where
  "sample_request = \<lparr>nr_notifier = ''silo'', nr_dedupe_key = ''series-1'', nr_payload = ''{}'',
     nr_next_attempt_at = unix_epoch + hour, nr_coalesce = True\<rparr>"

lemma sample_request_valid: "validateNotificationRequest sample_request"
  by (simp add: validateNotificationRequest_def sample_request_def json_Valid_def json_begin_def json_close_def
      json_end_def json_space_def unix_epoch_def)

lemma sample_enqueued:
  "EnqueueNotification sample_request [] = Ok (True, [new_notification 1 sample_request])"
  using sample_request_valid
  by (simp add: EnqueueNotification_def enqueueNotification_def insert_notification_def next_rowid_def)

lemma sample_outbox_reach: "outbox_reach [new_notification 1 sample_request]"
  using outbox_step [OF outbox_start, of "OEnqueue sample_request"]
  by (simp add: sample_enqueued) (simp add: sample_request_def unix_nano_def)

theorem outbox_invariant_witness:
  "distinct (map nw_id [new_notification 1 sample_request])
   \<and> nw_finished_at_ns (new_notification 1 sample_request) = None"
  using outbox_invariant [OF sample_outbox_reach] by (simp add: new_notification_def sample_request_def unix_nano_def)

lemma enqueue_coalesced:
  assumes inv: "outbox_inv rows" and due: "unix_nano (nr_next_attempt_at request) \<noteq> 0" and co: "nr_coalesce request"
  shows "\<exists>r \<in> set (snd (enqueueNotification request rows)). has_key (nr_dedupe_key request) r \<and> nw_lease_owner r = None
    \<and> nw_next_attempt_at_ns r \<noteq> 0"
proof -
  let ?k = "nr_dedupe_key request"
  have new: "\<exists>r \<in> set (snd (insert_notification request rows)). has_key ?k r \<and> nw_lease_owner r = None \<and> nw_next_attempt_at_ns r \<noteq> 0"
    if "\<not> list_ex (has_key ?k) rows" for rows
    using that due by (simp add: insert_notification_def new_notification_def has_key_def)
  show ?thesis
  proof (cases "find (has_key ?k) rows")
    case None
    then have "\<not> list_ex (has_key ?k) rows" by (auto simp: find_None_iff list_ex_iff)
    from new [OF this] None co show ?thesis by (simp add: enqueueNotification_def)
  next
    case (Some r)
    then have r: "r \<in> set rows" "has_key ?k r" by (auto simp: find_Some_iff)
    show ?thesis
    proof (cases "nw_lease_owner r = None")
      case True
      have "nw_next_attempt_at_ns r \<noteq> 0" using outbox_invD(3) [OF inv r(1)] r(2) by (auto simp: intent_ok_def has_key_def)
      with True r Some co show ?thesis by (auto simp: enqueueNotification_def)
    next
      case False
      let ?rows = "sql_update (\<lambda>r'. nw_id r' = nw_id r) (\<lambda>r'. r'\<lparr>nw_dedupe_key := None\<rparr>) rows"
      have "\<not> list_ex (has_key ?k) ?rows"
        using keys_uniqueD [OF outbox_invD(2) [OF inv] _ r(1) _ r(2)] by (auto simp: list_ex_iff set_sql_update has_key_def)
      from new [OF this] Some False co show ?thesis by (auto simp: enqueueNotification_def)
    qed
  qed
qed

text \<open>a change announced with a coalescing key is never lost. Right after it is accepted there is an open intent
  with its key that no delivery has started, so a delivery already under way does not absorb the change;
  and whatever happens next, that intent stays open until a completion by the owner that leased this very
  intent after the change.\<close>

theorem coalesced_change_delivered:
  assumes "outbox_reach rows" "nr_coalesce request" "unix_nano (nr_next_attempt_at request) \<noteq> 0"
    and "EnqueueNotification request rows = Ok (inserted, rows1)" "outbox_run_ok ops rows1"
  shows "\<exists>r \<in> set rows1. has_key (nr_dedupe_key request) r \<and> nw_lease_owner r = None
    \<and> ((\<exists>r' \<in> set (outbox_run ops rows1). open_intent r r')
       \<or> (\<exists>ops1 wall c ops2 r'. ops = ops1 @ OComplete wall c # ops2 \<and> r' \<in> set (outbox_run ops1 rows1)
            \<and> open_intent r r' \<and> nw_lease_owner r' = Some (nc_job_id c)))"
proof -
  note inv = outbox_reach_inv [OF assms(1)]
  have rows1: "rows1 = snd (enqueueNotification request rows)"
    using assms(4) by (auto simp: EnqueueNotification_def split: if_split_asm)
  from enqueue_coalesced [OF inv assms(3,2)] obtain r where r: "r \<in> set rows1" "has_key (nr_dedupe_key request) r"
    "nw_lease_owner r = None" "nw_next_attempt_at_ns r \<noteq> 0" unfolding rows1 by blast
  have "outbox_inv rows1" unfolding rows1 by (rule enqueue_inv [OF inv assms(3)])
  from open_intent_run [OF this assms(5) r(1,4)] r(1-3) show ?thesis by blast
qed

theorem coalesced_change_delivered_witness:
  "\<exists>r \<in> set [new_notification 1 sample_request]. nw_lease_owner r = None \<and> has_key ''series-1'' r"
  using coalesced_change_delivered [OF outbox_start _ _ sample_enqueued, of "[]"]
  by (auto simp: sample_request_def unix_nano_def)

end
