(* ===== verification/TTL_Cache.thy ===== *)
theory TTL_Cache
  imports Prelude "HOL-Library.Multiset"
begin

text \<open>
  The in-memory cache of provider answers (\<open>src/internal/provider/ttlcache.go\<close>): lookup with expiry, storing with
  eviction of the oldest entries, and \<open>Load\<close>, which lets concurrent callers of one key share a fetch. A Go
  map is an association list; the order in which \<open>range\<close> visits it is the parameter \<open>order\<close>, of which the
  code relies only on visiting every entry once (\<open>map_order\<close>). The callers of \<open>Load\<close> are threads whose
  critical sections are steps.
\<close>

section \<open>Entries\<close>

type_synonym 'v cache_entries = "(string \<times> 'v \<times> gotime) list"

definition map_order :: "('v cache_entries \<Rightarrow> 'v cache_entries) \<Rightarrow> bool" where
  "map_order order \<longleftrightarrow> (\<forall>es. mset (order es) = mset es)"

definition cache_delete :: "string \<Rightarrow> 'v cache_entries \<Rightarrow> 'v cache_entries" where
  "cache_delete key es = filter (\<lambda>e. fst e \<noteq> key) es"

text \<open>An assignment \<open>m[key] = v\<close>.\<close>

definition cache_assign :: "string \<Rightarrow> 'v \<Rightarrow> gotime \<Rightarrow> 'v cache_entries \<Rightarrow> 'v cache_entries" where
  "cache_assign key value stored es = cache_delete key es @ [(key, value, stored)]"

definition lookupLocked :: "duration \<Rightarrow> gotime \<Rightarrow> string \<Rightarrow> 'v cache_entries \<Rightarrow> 'v option \<times> 'v cache_entries" where
  "lookupLocked ttl now key es =
     (case map_of es key of
        None \<Rightarrow> (None, es)
      | Some (value, stored) \<Rightarrow>
          if \<not> now < stored + ttl then (None, cache_delete key es) else (Some value, es))"

text \<open>The scan for the oldest entry: the empty key stands for \<open>none yet\<close>.\<close>

definition oldest_step :: "string \<times> 'v \<times> gotime \<Rightarrow> string \<times> gotime \<Rightarrow> string \<times> gotime" where
  "oldest_step e acc =
     (let (candidateKey, value, stored) = e; (oldestKey, oldest) = acc
      in if oldestKey = [] \<or> stored < oldest then (candidateKey, stored) else acc)"

definition oldest_key :: "gotime \<Rightarrow> 'v cache_entries \<Rightarrow> string" where
  "oldest_key now visited = fst (fold oldest_step visited ([], now))"

lemma oldest_scan: "fst (fold oldest_step es acc) \<in> insert (fst acc) (fst ` set es)"
proof (induction es arbitrary: acc)
  case (Cons e es)
  have "fst (oldest_step e acc) \<in> {fst acc, fst e}" by (simp add: oldest_step_def Let_def split: prod.split)
  with Cons.IH [of "oldest_step e acc"] show ?case by auto
qed simp

lemma oldest_key_in: "es \<noteq> [] \<Longrightarrow> oldest_key now es \<in> fst ` set es"
proof (cases es)
  case (Cons e es')
  have "fst (oldest_step e ([], now)) = fst e" by (simp add: oldest_step_def Let_def split: prod.split)
  with oldest_scan [of es' "oldest_step e ([], now)"] show ?thesis by (simp add: oldest_key_def Cons)
qed simp

text \<open>The eviction loop. The second argument of the definition guards a negative limit, with which the loop of the
  code would not end; the cache is created with positive limits.\<close>

function evict :: "('v cache_entries \<Rightarrow> 'v cache_entries) \<Rightarrow> gotime \<Rightarrow> nat \<Rightarrow> 'v cache_entries \<Rightarrow> 'v cache_entries" where
  "evict order now limit es =
     (if limit < length es \<and> oldest_key now (order es) \<in> fst ` set es
      then evict order now limit (cache_delete (oldest_key now (order es)) es) else es)"
  by pat_completeness auto

termination
proof (relation "measure (\<lambda>(order, now, limit, es). length es)")
  fix order :: "'v cache_entries \<Rightarrow> 'v cache_entries" and now limit es
  assume "limit < length es \<and> oldest_key now (order es) \<in> fst ` set es"
  then obtain e where "e \<in> set es" "fst e = oldest_key now (order es)" by auto
  then show "((order, now, limit, cache_delete (oldest_key now (order es)) es), order, now, limit, es)
      \<in> measure (\<lambda>(order, now, limit, es). length es)"
    by (auto simp: cache_delete_def intro: length_filter_less)
qed simp

declare evict.simps [simp del]

definition storeLocked ::
  "('v cache_entries \<Rightarrow> 'v cache_entries) \<Rightarrow> nat \<Rightarrow> gotime \<Rightarrow> string \<Rightarrow> 'v \<Rightarrow> 'v cache_entries \<Rightarrow> 'v cache_entries" where
  "storeLocked order limit now key value es = evict order now limit (cache_assign key value now es)"

section \<open>What the entries hold\<close>

text \<open>Loads and stores of one cache, each at its time: \<open>CStore\<close> is \<open>Put\<close> or the end of a cacheable fetch, \<open>CLookup\<close> is
  \<open>Get\<close> or the test at the start of \<open>Load\<close>.\<close>

datatype 'v cache_op = CStore gotime string 'v | CLookup gotime string

fun cache_apply ::
  "('v cache_entries \<Rightarrow> 'v cache_entries) \<Rightarrow> duration \<Rightarrow> nat \<Rightarrow> 'v cache_op \<Rightarrow> 'v cache_entries \<Rightarrow> 'v cache_entries" where
  "cache_apply order ttl limit (CStore now key value) es = storeLocked order limit now key value es"
| "cache_apply order ttl limit (CLookup now key) es = snd (lookupLocked ttl now key es)"

definition cache_run ::
  "('v cache_entries \<Rightarrow> 'v cache_entries) \<Rightarrow> duration \<Rightarrow> nat \<Rightarrow> 'v cache_op list \<Rightarrow> 'v cache_entries" where
  "cache_run order ttl limit ops = fold (cache_apply order ttl limit) ops []"

text \<open>The specification: the last value stored for a key, with its time.\<close>

fun latest_store :: "'v cache_op \<Rightarrow> (string \<rightharpoonup> 'v \<times> gotime) \<Rightarrow> (string \<rightharpoonup> 'v \<times> gotime)" where
  "latest_store (CStore now key value) m = m(key \<mapsto> (value, now))"
| "latest_store (CLookup now key) m = m"

definition latest :: "'v cache_op list \<Rightarrow> (string \<rightharpoonup> 'v \<times> gotime)" where
  "latest ops = fold latest_store ops Map.empty"

definition cache_ok :: "nat \<Rightarrow> (string \<rightharpoonup> 'v \<times> gotime) \<Rightarrow> 'v cache_entries \<Rightarrow> bool" where
  "cache_ok limit m es \<longleftrightarrow> distinct (map fst es) \<and> length es \<le> limit \<and> map_of es \<subseteq>\<^sub>m m"

lemma map_of_delete: "map_of (cache_delete key es) = (map_of es)(key := None)"
  unfolding cache_delete_def by (induction es) (auto simp: fun_eq_iff)

lemma map_of_assign: "map_of (cache_assign key value t es) = (map_of es)(key \<mapsto> (value, t))"
  unfolding cache_assign_def map_of_append map_of_delete by (auto simp: fun_eq_iff map_add_def split: option.split)

lemma distinct_delete: "distinct (map fst es) \<Longrightarrow> distinct (map fst (cache_delete key es))"
  by (simp add: cache_delete_def distinct_map_filter)

lemma distinct_assign: "distinct (map fst es) \<Longrightarrow> distinct (map fst (cache_assign key value t es))"
  using distinct_delete [of es key] by (auto simp: cache_assign_def cache_delete_def)

lemma map_le_update_None: "m \<subseteq>\<^sub>m m' \<Longrightarrow> m(k := None) \<subseteq>\<^sub>m m'"
  by (simp add: map_le_def)

lemma evict_ok:
  assumes "map_order order" "distinct (map fst es)" "map_of es \<subseteq>\<^sub>m m"
  shows "cache_ok limit m (evict order now limit es)"
  using assms
proof (induction order now limit es rule: evict.induct)
  case (1 order now limit es)
  let ?k = "oldest_key now (order es)"
  show ?case
  proof (cases "limit < length es \<and> ?k \<in> fst ` set es")
    case True
    then have "evict order now limit es = evict order now limit (cache_delete ?k es)"
      by (subst evict.simps) simp
    moreover have "map_of (cache_delete ?k es) \<subseteq>\<^sub>m m"
      unfolding map_of_delete by (rule map_le_update_None) (rule 1(4))
    ultimately show ?thesis using 1(1) [OF True 1(2) distinct_delete [OF 1(3)]] by simp
  next
    case False
    have "mset (order es) = mset es" using 1(2) by (simp add: map_order_def)
    then have "set (order es) = set es" by (metis set_mset_mset)
    then have "limit < length es \<Longrightarrow> ?k \<in> fst ` set es" using oldest_key_in [of "order es" now] by fastforce
    with False 1 show ?thesis by (subst evict.simps) (auto simp: cache_ok_def)
  qed
qed

lemma store_ok:
  assumes "map_order order" "cache_ok limit m es"
  shows "cache_ok limit (m(key \<mapsto> (value, now))) (storeLocked order limit now key value es)"
  unfolding storeLocked_def
proof (rule evict_ok [OF assms(1)])
  show "distinct (map fst (cache_assign key value now es))" using assms(2) by (simp add: cache_ok_def distinct_assign)
  show "map_of (cache_assign key value now es) \<subseteq>\<^sub>m m(key \<mapsto> (value, now))"
    using assms(2) by (auto simp: map_of_assign cache_ok_def map_le_def)
qed

lemma lookup_ok:
  assumes "cache_ok limit m es"
  shows "cache_ok limit m (snd (lookupLocked ttl now key es))"
proof -
  have "length (cache_delete key es) \<le> length es" by (simp add: cache_delete_def)
  then have "cache_ok limit m (cache_delete key es)"
    using assms unfolding cache_ok_def map_of_delete by (simp add: distinct_delete map_le_update_None del: fun_upd_apply)
  with assms show ?thesis by (auto simp: lookupLocked_def split: option.split)
qed

lemma cache_run_ok: "map_order order \<Longrightarrow> cache_ok limit (latest ops) (cache_run order ttl limit ops)"
proof (induction ops rule: rev_induct)
  case Nil
  show ?case by (simp add: cache_run_def latest_def cache_ok_def)
next
  case (snoc op ops)
  then show ?case by (cases op) (simp_all add: cache_run_def latest_def store_ok lookup_ok del: fun_upd_apply)
qed

lemma lookup_Some:
  "lookupLocked ttl now key es = (Some v, es') \<longleftrightarrow> (\<exists>t. map_of es key = Some (v, t) \<and> now < t + ttl \<and> es' = es)"
  by (auto simp: lookupLocked_def split: option.split)

text \<open>Nothing is evicted below the limit.\<close>

lemma evict_id: "length es \<le> limit \<Longrightarrow> evict order now limit es = es"
  by (subst evict.simps) simp

text \<open>While the keys stored fit into the limit, an entry that has not expired stays.\<close>

fun op_time :: "'v cache_op \<Rightarrow> gotime" where
  "op_time (CStore now key value) = now"
| "op_time (CLookup now key) = now"

lemma ok_keys: "cache_ok limit m es \<Longrightarrow> fst ` set es \<subseteq> dom m"
  by (metis cache_ok_def dom_map_of_conv_image_fst map_le_implies_dom_le)

lemma run_keys:
  assumes "map_order order"
  shows "length (cache_run order ttl limit ops) \<le> card (dom (latest ops)) \<and> finite (dom (latest ops))"
proof -
  have ok: "cache_ok limit (latest ops) (cache_run order ttl limit ops)" by (rule cache_run_ok [OF assms])
  have fin: "finite (dom (latest ops))"
  proof (induction ops rule: rev_induct)
    case (snoc op ops)
    then show ?case by (cases op) (simp_all add: latest_def del: fun_upd_apply)
  qed (simp add: latest_def)
  have "set (map fst (cache_run order ttl limit ops)) \<subseteq> dom (latest ops)"
    using ok_keys [OF ok] by simp
  from card_mono [OF fin this] ok fin show ?thesis by (metis cache_ok_def distinct_card length_map)
qed

lemma latest_kept:
  assumes "map_order order" "card (dom (latest ops)) \<le> limit" "\<forall>op \<in> set ops. op_time op \<le> now"
    and "latest ops key = Some (v, t)" "now < t + ttl"
  shows "map_of (cache_run order ttl limit ops) key = Some (v, t)"
  using assms(2-)
proof (induction ops rule: rev_induct)
  case Nil
  then show ?case by (simp add: latest_def)
next
  case (snoc op ops)
  let ?es = "cache_run order ttl limit ops"
  show ?case
  proof (cases op)
    case (CStore n k x)
    have l: "latest (ops @ [op]) = (latest ops)(k \<mapsto> (x, n))" by (simp add: latest_def CStore)
    have dom: "card (dom (latest ops)) \<le> card (dom (latest (ops @ [op])))"
      unfolding l using run_keys [OF assms(1), of ttl limit ops] by (intro card_mono) auto
    have "length (cache_assign k x n ?es) \<le> card (dom (latest (ops @ [op])))"
    proof -
      have ok: "cache_ok limit (latest ops) ?es" by (rule cache_run_ok [OF assms(1)])
      have "set (map fst (cache_assign k x n ?es)) \<subseteq> dom (latest (ops @ [op]))"
        using ok_keys [OF ok] by (auto simp: l cache_assign_def cache_delete_def)
      with ok show ?thesis
        using run_keys [OF assms(1), of ttl limit "ops @ [op]"] distinct_assign [of ?es k x n]
        by (metis cache_ok_def card_mono distinct_card length_map)
    qed
    then have "cache_run order ttl limit (ops @ [op]) = cache_assign k x n ?es"
      using snoc.prems(1) by (simp add: cache_run_def CStore storeLocked_def evict_id)
    then show ?thesis using snoc dom l by (auto simp: map_of_assign)
  next
    case (CLookup n k)
    have "map_of ?es key = Some (v, t)" using snoc by (simp add: latest_def CLookup)
    then show ?thesis using snoc.prems(2,4)
      by (auto simp: cache_run_def CLookup lookupLocked_def map_of_delete split: option.split)
  qed
qed

section \<open>Sharing a fetch\<close>

datatype 'v load_result = LValue 'v | LFailed | LCanceled

datatype 'v load_pc = LStart | LFetching nat | LWaiting nat | LDone "'v load_result"

record 'v caller =
  ca_key :: string
  ca_pc :: "'v load_pc"
  ca_canceled :: bool

text \<open>\<open>ld_inflight\<close> maps a key to the channel of its fetch; a channel is a number, and the closed ones are listed.\<close>

record 'v loads =
  ld_now :: gotime
  ld_entries :: "'v cache_entries"
  ld_inflight :: "string \<rightharpoonup> nat"
  ld_closed :: "nat list"
  ld_next :: nat
  ld_waiters :: int
  ld_callers :: "'v caller list"

definition caller_at :: "'v loads \<Rightarrow> nat \<Rightarrow> string \<Rightarrow> 'v load_pc \<Rightarrow> bool \<Rightarrow> bool" where
  "caller_at s i key p canceled \<longleftrightarrow> i < length (ld_callers s)
     \<and> ld_callers s ! i = \<lparr>ca_key = key, ca_pc = p, ca_canceled = canceled\<rparr>"

definition go_to :: "nat \<Rightarrow> 'v load_pc \<Rightarrow> 'v loads \<Rightarrow> 'v loads" where
  "go_to i p s = s\<lparr>ld_callers := (ld_callers s)[i := (ld_callers s ! i)\<lparr>ca_pc := p\<rparr>]\<rparr>"

definition cancel_caller :: "nat \<Rightarrow> 'v loads \<Rightarrow> 'v loads" where
  "cancel_caller i s = s\<lparr>ld_callers := (ld_callers s)[i := (ld_callers s ! i)\<lparr>ca_canceled := True\<rparr>]\<rparr>"

definition end_fetch :: "string \<Rightarrow> nat \<Rightarrow> 'v loads \<Rightarrow> 'v loads" where
  "end_fetch key ch s = s\<lparr>ld_inflight := (ld_inflight s)(key := None), ld_closed := ch # ld_closed s\<rparr>"

text \<open>The steps of \<open>Load\<close> itself; a value or an error of the fetch may come at any time.\<close>

inductive load_step ::
  "('v cache_entries \<Rightarrow> 'v cache_entries) \<Rightarrow> duration \<Rightarrow> nat \<Rightarrow> 'v loads \<Rightarrow> 'v loads \<Rightarrow> bool"
  for order ttl limit where
  load_hit: "\<lbrakk>caller_at s i key LStart c; lookupLocked ttl (ld_now s) key (ld_entries s) = (Some v, es)\<rbrakk>
    \<Longrightarrow> load_step order ttl limit s (go_to i (LDone (LValue v)) (s\<lparr>ld_entries := es\<rparr>))"
| load_fetch: "\<lbrakk>caller_at s i key LStart c; lookupLocked ttl (ld_now s) key (ld_entries s) = (None, es); ld_inflight s key = None\<rbrakk>
    \<Longrightarrow> load_step order ttl limit s (go_to i (LFetching (ld_next s))
          (s\<lparr>ld_entries := es, ld_inflight := (ld_inflight s)(key \<mapsto> ld_next s), ld_next := Suc (ld_next s)\<rparr>))"
| load_wait: "\<lbrakk>caller_at s i key LStart c; lookupLocked ttl (ld_now s) key (ld_entries s) = (None, es); ld_inflight s key = Some ch\<rbrakk>
    \<Longrightarrow> load_step order ttl limit s (go_to i (LWaiting ch) (s\<lparr>ld_entries := es, ld_waiters := ld_waiters s + 1\<rparr>))"
| load_fetched: "\<lbrakk>caller_at s i key (LFetching ch) c\<rbrakk>
    \<Longrightarrow> load_step order ttl limit s (go_to i (LDone (LValue v)) (end_fetch key ch
          (s\<lparr>ld_entries := (if cacheable then storeLocked order limit (ld_now s) key v (ld_entries s) else ld_entries s)\<rparr>)))"
| load_failed: "caller_at s i key (LFetching ch) c
    \<Longrightarrow> load_step order ttl limit s (go_to i (LDone LFailed) (end_fetch key ch s))"
| load_wake: "\<lbrakk>caller_at s i key (LWaiting ch) False; ch \<in> set (ld_closed s)\<rbrakk>
    \<Longrightarrow> load_step order ttl limit s (go_to i LStart (s\<lparr>ld_waiters := ld_waiters s - 1\<rparr>))"
| load_canceled: "caller_at s i key (LWaiting ch) True
    \<Longrightarrow> load_step order ttl limit s (go_to i (LDone LCanceled) (s\<lparr>ld_waiters := ld_waiters s - 1\<rparr>))"

text \<open>What happens around it: contexts end, time passes, and others use \<open>Put\<close> and \<open>Get\<close>.\<close>

inductive env_step ::
  "('v cache_entries \<Rightarrow> 'v cache_entries) \<Rightarrow> duration \<Rightarrow> nat \<Rightarrow> 'v loads \<Rightarrow> 'v loads \<Rightarrow> bool"
  for order ttl limit where
  env_cancel: "i < length (ld_callers s) \<Longrightarrow> env_step order ttl limit s (cancel_caller i s)"
| env_tick: "0 \<le> d \<Longrightarrow> env_step order ttl limit s (s\<lparr>ld_now := ld_now s + d\<rparr>)"
| env_put: "env_step order ttl limit s (s\<lparr>ld_entries := storeLocked order limit (ld_now s) key v (ld_entries s)\<rparr>)"
| env_get: "env_step order ttl limit s (s\<lparr>ld_entries := snd (lookupLocked ttl (ld_now s) key (ld_entries s))\<rparr>)"

definition NewTTLCache :: "gotime \<Rightarrow> string list \<Rightarrow> 'v loads" where
  "NewTTLCache now keys =
     \<lparr>ld_now = now, ld_entries = [], ld_inflight = Map.empty, ld_closed = [], ld_next = 0, ld_waiters = 0,
      ld_callers = map (\<lambda>k. \<lparr>ca_key = k, ca_pc = LStart, ca_canceled = False\<rparr>) keys\<rparr>"

inductive load_reach :: "('v cache_entries \<Rightarrow> 'v cache_entries) \<Rightarrow> duration \<Rightarrow> nat \<Rightarrow> 'v loads \<Rightarrow> bool"
  for order ttl limit where
  load_init: "load_reach order ttl limit (NewTTLCache now keys)"
| load_next: "\<lbrakk>load_reach order ttl limit s; load_step order ttl limit s s' \<or> env_step order ttl limit s s'\<rbrakk>
    \<Longrightarrow> load_reach order ttl limit s'"

definition fetching :: "'v loads \<Rightarrow> nat \<Rightarrow> string \<Rightarrow> nat \<Rightarrow> bool" where
  "fetching s i k ch \<longleftrightarrow> i < length (ld_callers s) \<and> ca_key (ld_callers s ! i) = k \<and> ca_pc (ld_callers s ! i) = LFetching ch"

definition waiting_on :: "'v loads \<Rightarrow> nat \<Rightarrow> string \<Rightarrow> nat \<Rightarrow> bool" where
  "waiting_on s i k ch \<longleftrightarrow> i < length (ld_callers s) \<and> ca_key (ld_callers s ! i) = k \<and> ca_pc (ld_callers s ! i) = LWaiting ch"

definition waiting :: "'v caller \<Rightarrow> bool" where
  "waiting c \<longleftrightarrow> (case ca_pc c of LWaiting ch \<Rightarrow> True | _ \<Rightarrow> False)"

text \<open>The fetches under way are exactly those of the map, one per key.\<close>

definition flights_ok :: "'v loads \<Rightarrow> bool" where
  "flights_ok s \<longleftrightarrow>
     (\<forall>i k ch. fetching s i k ch \<longrightarrow> ld_inflight s k = Some ch)
     \<and> (\<forall>k ch. ld_inflight s k = Some ch \<longrightarrow> (\<exists>i. fetching s i k ch))
     \<and> (\<forall>i j k ch. fetching s i k ch \<and> fetching s j k ch \<longrightarrow> i = j)"

text \<open>Channels are used once, and a waiter waits on the fetch under way or on a closed channel.\<close>

definition channels_ok :: "'v loads \<Rightarrow> bool" where
  "channels_ok s \<longleftrightarrow>
     (\<forall>k ch. ld_inflight s k = Some ch \<longrightarrow> ch < ld_next s \<and> ch \<notin> set (ld_closed s))
     \<and> (\<forall>k k' ch. ld_inflight s k = Some ch \<and> ld_inflight s k' = Some ch \<longrightarrow> k = k')
     \<and> (\<forall>ch \<in> set (ld_closed s). ch < ld_next s)
     \<and> (\<forall>i k ch. waiting_on s i k ch \<longrightarrow> ch \<in> set (ld_closed s) \<or> ld_inflight s k = Some ch)"

definition waiters_ok :: "'v loads \<Rightarrow> bool" where
  "waiters_ok s \<longleftrightarrow> ld_waiters s = int (sql_count waiting (ld_callers s))
     \<and> (\<forall>c \<in> set (ld_callers s). ca_pc c = LDone LCanceled \<longrightarrow> ca_canceled c)"

definition load_inv :: "'v loads \<Rightarrow> bool" where
  "load_inv s \<longleftrightarrow> flights_ok s \<and> channels_ok s \<and> waiters_ok s"

text \<open>What one thread's step does to these views; \<open>s'\<close> is the state around the moved thread.\<close>

lemma fetching_go:
  assumes "caller_at s i key p c" "ld_callers s' = ld_callers s"
  shows "fetching (go_to i q s') j k ch \<longleftrightarrow> (if j = i then k = key \<and> q = LFetching ch else fetching s j k ch)"
  using assms by (auto simp: fetching_def go_to_def caller_at_def nth_list_update)

lemma waiting_go:
  assumes "caller_at s i key p c" "ld_callers s' = ld_callers s"
  shows "waiting_on (go_to i q s') j k ch \<longleftrightarrow> (if j = i then k = key \<and> q = LWaiting ch else waiting_on s j k ch)"
  using assms by (auto simp: waiting_on_def go_to_def caller_at_def nth_list_update)

lemma at_fetching: "caller_at s i key (LFetching ch) c \<Longrightarrow> fetching s i key ch"
  by (simp add: caller_at_def fetching_def)

lemma at_waiting: "caller_at s i key (LWaiting ch) c \<Longrightarrow> waiting_on s i key ch"
  by (simp add: caller_at_def waiting_on_def)

lemma at_other:
  "\<lbrakk>caller_at s i key p c; \<And>ch. p \<noteq> LFetching ch\<rbrakk> \<Longrightarrow> \<not> fetching s i k ch"
  "\<lbrakk>caller_at s i key p c; \<And>ch. p \<noteq> LWaiting ch\<rbrakk> \<Longrightarrow> \<not> waiting_on s i k ch"
  by (auto simp: caller_at_def fetching_def waiting_on_def)

lemma go_to_fields [simp]:
  "ld_inflight (go_to i p s) = ld_inflight s" "ld_closed (go_to i p s) = ld_closed s" "ld_next (go_to i p s) = ld_next s"
  "ld_entries (go_to i p s) = ld_entries s" "ld_now (go_to i p s) = ld_now s" "ld_waiters (go_to i p s) = ld_waiters s"
  by (simp_all add: go_to_def)

lemma end_fetch_fields [simp]:
  "ld_inflight (end_fetch k ch s) = (ld_inflight s)(k := None)" "ld_closed (end_fetch k ch s) = ch # ld_closed s"
  "ld_next (end_fetch k ch s) = ld_next s" "ld_waiters (end_fetch k ch s) = ld_waiters s"
  "ld_entries (end_fetch k ch s) = ld_entries s" "ld_callers (end_fetch k ch s) = ld_callers s"
  by (simp_all add: end_fetch_def)

lemma flights_okD:
  assumes "flights_ok s"
  shows "fetching s i k ch \<Longrightarrow> ld_inflight s k = Some ch" "ld_inflight s k = Some ch \<Longrightarrow> \<exists>i. fetching s i k ch"
    "\<lbrakk>fetching s i k ch; fetching s j k ch\<rbrakk> \<Longrightarrow> i = j"
  using assms unfolding flights_ok_def by blast+

lemma channels_okD:
  assumes "channels_ok s"
  shows "ld_inflight s k = Some ch \<Longrightarrow> ch < ld_next s" "ld_inflight s k = Some ch \<Longrightarrow> ch \<notin> set (ld_closed s)"
    "\<lbrakk>ld_inflight s k = Some ch; ld_inflight s k' = Some ch\<rbrakk> \<Longrightarrow> k = k'" "ch \<in> set (ld_closed s) \<Longrightarrow> ch < ld_next s"
    "waiting_on s i k ch \<Longrightarrow> ch \<in> set (ld_closed s) \<or> ld_inflight s k = Some ch"
  using assms unfolding channels_ok_def by blast+

text \<open>A step that leaves the fetches alone.\<close>

lemma quiet_step:
  assumes "caller_at s i key p c" "\<And>ch. p \<noteq> LFetching ch" "\<And>ch. q \<noteq> LFetching ch"
    and s': "ld_callers s' = ld_callers s" "ld_inflight s' = ld_inflight s" "ld_closed s' = ld_closed s" "ld_next s' = ld_next s"
    and q: "\<And>ch. q = LWaiting ch \<Longrightarrow> ld_inflight s key = Some ch"
    and ok: "flights_ok s" "channels_ok s"
  shows "flights_ok (go_to i q s') \<and> channels_ok (go_to i q s')"
proof
  have f: "fetching (go_to i q s') j k ch \<longleftrightarrow> fetching s j k ch" for j k ch
    using fetching_go [OF assms(1) s'(1)] at_other(1) [OF assms(1,2)] assms(3) by auto
  show "flights_ok (go_to i q s')" using ok(1) unfolding flights_ok_def f by (simp add: s')
  have w: "waiting_on (go_to i q s') j k ch \<Longrightarrow> waiting_on s j k ch \<or> ld_inflight s k = Some ch" for j k ch
    using waiting_go [OF assms(1) s'(1)] q by (auto split: if_split_asm)
  show "channels_ok (go_to i q s')" using ok(2) w unfolding channels_ok_def by (simp add: s') blast
qed

lemma fetch_start:
  assumes "caller_at s i key LStart c" "ld_inflight s key = None" "flights_ok s" "channels_ok s"
    and s': "s' = s\<lparr>ld_entries := es, ld_inflight := (ld_inflight s)(key \<mapsto> ld_next s), ld_next := Suc (ld_next s)\<rparr>"
  shows "flights_ok (go_to i (LFetching (ld_next s)) s') \<and> channels_ok (go_to i (LFetching (ld_next s)) s')"
proof
  have cs: "ld_callers s' = ld_callers s" by (simp add: s')
  note f = fetching_go [OF assms(1) cs] and w = waiting_go [OF assms(1) cs]
  have old: "ld_inflight s k = Some ch \<Longrightarrow> k \<noteq> key \<and> ch < ld_next s" for k ch
    using channels_okD(1) [OF assms(4)] assms(2) by auto
  have taken: "fetching s j k ch \<Longrightarrow> k \<noteq> key \<and> j \<noteq> i" for j k ch
    using flights_okD(1) [OF assms(3)] assms(2) at_other(1) [OF assms(1)] by fastforce
  show "flights_ok (go_to i (LFetching (ld_next s)) s')"
    unfolding flights_ok_def
  proof (intro conjI allI impI)
    fix j k ch assume "fetching (go_to i (LFetching (ld_next s)) s') j k ch"
    then show "ld_inflight (go_to i (LFetching (ld_next s)) s') k = Some ch"
      unfolding f using flights_okD(1) [OF assms(3)] taken by (auto simp: s' split: if_split_asm)
  next
    fix k ch assume a: "ld_inflight (go_to i (LFetching (ld_next s)) s') k = Some ch"
    show "\<exists>j. fetching (go_to i (LFetching (ld_next s)) s') j k ch"
    proof (cases "k = key")
      case True
      with a show ?thesis unfolding f by (auto simp: s')
    next
      case False
      with a have "ld_inflight s k = Some ch" by (simp add: s')
      then obtain j where "fetching s j k ch" using flights_okD(2) [OF assms(3)] by blast
      with taken show ?thesis unfolding f by auto
    qed
  next
    fix j j' k ch assume "fetching (go_to i (LFetching (ld_next s)) s') j k ch \<and> fetching (go_to i (LFetching (ld_next s)) s') j' k ch"
    then show "j = j'" unfolding f using taken flights_okD(3) [OF assms(3)] by (auto split: if_split_asm)
  qed
  show "channels_ok (go_to i (LFetching (ld_next s)) s')"
    unfolding channels_ok_def
  proof (intro conjI allI impI ballI)
    fix k ch assume a: "ld_inflight (go_to i (LFetching (ld_next s)) s') k = Some ch"
    then show "ch < ld_next (go_to i (LFetching (ld_next s)) s')"
      using old by (cases "k = key") (fastforce simp: s')+
    show "ch \<notin> set (ld_closed (go_to i (LFetching (ld_next s)) s'))"
      using a channels_okD(2,4) [OF assms(4)] by (cases "k = key") (fastforce simp: s')+
  next
    fix k k' ch
    assume "ld_inflight (go_to i (LFetching (ld_next s)) s') k = Some ch \<and> ld_inflight (go_to i (LFetching (ld_next s)) s') k' = Some ch"
    then show "k = k'" using old channels_okD(3) [OF assms(4), of k ch k'] by (cases "k = key"; cases "k' = key") (fastforce simp: s')+
  next
    fix ch assume "ch \<in> set (ld_closed (go_to i (LFetching (ld_next s)) s'))"
    then show "ch < ld_next (go_to i (LFetching (ld_next s)) s')" using channels_okD(4) [OF assms(4)] by (fastforce simp: s')
  next
    fix j k ch assume "waiting_on (go_to i (LFetching (ld_next s)) s') j k ch"
    then have "waiting_on s j k ch" unfolding w by (simp split: if_split_asm)
    from channels_okD(5) [OF assms(4) this]
    show "ch \<in> set (ld_closed (go_to i (LFetching (ld_next s)) s')) \<or> ld_inflight (go_to i (LFetching (ld_next s)) s') k = Some ch"
      using assms(2) by (auto simp: s')
  qed
qed

lemma fetch_end:
  assumes "caller_at s i key (LFetching ch0) c" "flights_ok s" "channels_ok s"
    and s': "ld_callers s' = ld_callers s" "ld_inflight s' = (ld_inflight s)(key := None)" "ld_closed s' = ch0 # ld_closed s"
      "ld_next s' = ld_next s"
  shows "flights_ok (go_to i (LDone r) s') \<and> channels_ok (go_to i (LDone r) s')"
proof
  note f = fetching_go [OF assms(1) s'(1)] and w = waiting_go [OF assms(1) s'(1)]
  have fl: "ld_inflight s key = Some ch0" by (rule flights_okD(1) [OF assms(2) at_fetching [OF assms(1)]])
  have mine: "j = i" if "fetching s j key ch" for j ch
    using flights_okD(1) [OF assms(2) that] flights_okD(3) [OF assms(2) that] at_fetching [OF assms(1)] fl by simp
  show "flights_ok (go_to i (LDone r) s')"
    unfolding flights_ok_def
  proof (intro conjI allI impI)
    fix j k ch assume "fetching (go_to i (LDone r) s') j k ch"
    then have a: "fetching s j k ch" "j \<noteq> i" unfolding f by (auto split: if_split_asm)
    with mine have "k \<noteq> key" by blast
    with flights_okD(1) [OF assms(2) a(1)] show "ld_inflight (go_to i (LDone r) s') k = Some ch" by (simp add: s')
  next
    fix k ch assume "ld_inflight (go_to i (LDone r) s') k = Some ch"
    then have k: "k \<noteq> key" "ld_inflight s k = Some ch" by (auto simp: s' split: if_split_asm)
    from flights_okD(2) [OF assms(2) k(2)] obtain j where j: "fetching s j k ch" by blast
    with k(1) at_fetching [OF assms(1)] have "j \<noteq> i" by (auto simp: fetching_def)
    with j show "\<exists>j. fetching (go_to i (LDone r) s') j k ch" unfolding f by auto
  next
    fix j j' k ch assume "fetching (go_to i (LDone r) s') j k ch \<and> fetching (go_to i (LDone r) s') j' k ch"
    then show "j = j'" unfolding f using flights_okD(3) [OF assms(2)] by (auto split: if_split_asm)
  qed
  have other: "ld_inflight s' k = Some ch \<Longrightarrow> ld_inflight s k = Some ch \<and> ch \<noteq> ch0" for k ch
    using channels_okD(3) [OF assms(3), of k ch key] fl by (auto simp: s' split: if_split_asm)
  show "channels_ok (go_to i (LDone r) s')"
    unfolding channels_ok_def
  proof (intro conjI allI impI ballI)
    fix k ch assume "ld_inflight (go_to i (LDone r) s') k = Some ch"
    with other channels_okD(1,2) [OF assms(3)]
    show "ch < ld_next (go_to i (LDone r) s')" "ch \<notin> set (ld_closed (go_to i (LDone r) s'))"
      by (fastforce simp: s')+
  next
    fix k k' ch assume "ld_inflight (go_to i (LDone r) s') k = Some ch \<and> ld_inflight (go_to i (LDone r) s') k' = Some ch"
    then show "k = k'" using other channels_okD(3) [OF assms(3), of k ch k'] by simp
  next
    fix ch assume "ch \<in> set (ld_closed (go_to i (LDone r) s'))"
    then show "ch < ld_next (go_to i (LDone r) s')" using channels_okD(4) [OF assms(3)] channels_okD(1) [OF assms(3) fl] by (auto simp: s')
  next
    fix j k ch assume "waiting_on (go_to i (LDone r) s') j k ch"
    then have "waiting_on s j k ch" unfolding w by (simp split: if_split_asm)
    from channels_okD(5) [OF assms(3) this] fl
    show "ch \<in> set (ld_closed (go_to i (LDone r) s')) \<or> ld_inflight (go_to i (LDone r) s') k = Some ch" by (auto simp: s')
  qed
qed

lemma count_at:
  assumes "caller_at s i key p c"
  shows "int (sql_count P ((ld_callers s)[i := x])) = int (sql_count P (ld_callers s))
    - (if P \<lparr>ca_key = key, ca_pc = p, ca_canceled = c\<rparr> then 1 else 0) + (if P x then 1 else 0)"
  using length_filter_update [of i "ld_callers s" P x] assms by (auto simp: sql_count_def caller_at_def)

lemma waiters_go:
  assumes "caller_at s i key p c" "waiters_ok s" "ld_callers s' = ld_callers s" "q = LDone LCanceled \<Longrightarrow> c"
    and "ld_waiters s' = ld_waiters s - (if \<exists>ch. p = LWaiting ch then 1 else 0) + (if \<exists>ch. q = LWaiting ch then 1 else 0)"
  shows "waiters_ok (go_to i q s')"
proof -
  have at: "ld_callers s ! i = \<lparr>ca_key = key, ca_pc = p, ca_canceled = c\<rparr>" using assms(1) by (simp add: caller_at_def)
  have w: "waiting \<lparr>ca_key = key, ca_pc = p, ca_canceled = c\<rparr> \<longleftrightarrow> (\<exists>ch. p = LWaiting ch)" for p
    by (simp add: waiting_def split: load_pc.split)
  have "x \<in> set ((ld_callers s)[i := \<lparr>ca_key = key, ca_pc = q, ca_canceled = c\<rparr>]) \<Longrightarrow> ca_pc x = LDone LCanceled \<Longrightarrow> ca_canceled x" for x
    using assms(2,4) set_update_subset_insert [of "ld_callers s" i] unfolding waiters_ok_def by fastforce
  then show ?thesis
    using assms(2,5) count_at [OF assms(1), of waiting "\<lparr>ca_key = key, ca_pc = q, ca_canceled = c\<rparr>"]
    unfolding waiters_ok_def go_to_def w by (simp add: assms(3) at w)
qed

lemma load_step_inv:
  assumes "load_step order ttl limit s s'" "load_inv s"
  shows "load_inv s'"
proof -
  have ok: "flights_ok s" "channels_ok s" "waiters_ok s" using assms(2) by (simp_all add: load_inv_def)
  show ?thesis using assms(1)
  proof cases
    case (load_hit i key c v es)
    then show ?thesis unfolding load_inv_def load_hit(1)
      using quiet_step [OF load_hit(2), where q = "LDone (LValue v)" and s' = "s\<lparr>ld_entries := es\<rparr>"] ok
        waiters_go [OF load_hit(2) ok(3), of "s\<lparr>ld_entries := es\<rparr>" "LDone (LValue v)"] by simp
  next
    case (load_fetch i key c es)
    then show ?thesis unfolding load_inv_def load_fetch(1)
      using fetch_start [OF load_fetch(2,4) ok(1,2) refl, of es]
        waiters_go [OF load_fetch(2) ok(3), of "s\<lparr>ld_entries := es, ld_inflight := (ld_inflight s)(key \<mapsto> ld_next s), ld_next := Suc (ld_next s)\<rparr>" "LFetching (ld_next s)"]
      by simp
  next
    case (load_wait i key c es ch)
    then show ?thesis unfolding load_inv_def load_wait(1)
      using quiet_step [OF load_wait(2), where q = "LWaiting ch" and s' = "s\<lparr>ld_entries := es, ld_waiters := ld_waiters s + 1\<rparr>"] ok
        waiters_go [OF load_wait(2) ok(3), of "s\<lparr>ld_entries := es, ld_waiters := ld_waiters s + 1\<rparr>" "LWaiting ch"] by simp
  next
    case (load_fetched i key ch c v cacheable)
    then show ?thesis unfolding load_inv_def load_fetched(1)
      using fetch_end [OF load_fetched(2) ok(1,2), of "end_fetch key ch (s\<lparr>ld_entries := es\<rparr>)" for es]
        waiters_go [OF load_fetched(2) ok(3), of "end_fetch key ch (s\<lparr>ld_entries := es\<rparr>)" "LDone (LValue v)" for es]
      by simp
  next
    case (load_failed i key ch c)
    then show ?thesis unfolding load_inv_def load_failed(1)
      using fetch_end [OF load_failed(2) ok(1,2), of "end_fetch key ch s"]
        waiters_go [OF load_failed(2) ok(3), of "end_fetch key ch s" "LDone LFailed"] by simp
  next
    case (load_wake i key ch)
    then show ?thesis unfolding load_inv_def load_wake(1)
      using quiet_step [OF load_wake(2), where q = LStart and s' = "s\<lparr>ld_waiters := ld_waiters s - 1\<rparr>"] ok
        waiters_go [OF load_wake(2) ok(3), of "s\<lparr>ld_waiters := ld_waiters s - 1\<rparr>" LStart] by simp
  next
    case (load_canceled i key ch)
    then show ?thesis unfolding load_inv_def load_canceled(1)
      using quiet_step [OF load_canceled(2), where q = "LDone LCanceled" and s' = "s\<lparr>ld_waiters := ld_waiters s - 1\<rparr>"] ok
        waiters_go [OF load_canceled(2) ok(3), of "s\<lparr>ld_waiters := ld_waiters s - 1\<rparr>" "LDone LCanceled"] by simp
  qed
qed

lemma env_step_inv:
  assumes "env_step order ttl limit s s'" "load_inv s"
  shows "load_inv s'"
  using assms(1)
proof cases
  case (env_cancel i)
  have "ca_key (ld_callers s' ! j) = ca_key (ld_callers s ! j)" "ca_pc (ld_callers s' ! j) = ca_pc (ld_callers s ! j)" for j
    using env_cancel(2) by (cases "j = i"; simp add: env_cancel(1) cancel_caller_def)+
  then have f: "fetching s' = fetching s" "waiting_on s' = waiting_on s"
    by (simp_all add: fetching_def waiting_on_def fun_eq_iff) (simp_all add: env_cancel(1) cancel_caller_def)
  have "caller_at s i (ca_key (ld_callers s ! i)) (ca_pc (ld_callers s ! i)) (ca_canceled (ld_callers s ! i))"
    using env_cancel(2) by (simp add: caller_at_def)
  from count_at [OF this, of waiting "(ld_callers s ! i)\<lparr>ca_canceled := True\<rparr>"]
  have "sql_count waiting (ld_callers s') = sql_count waiting (ld_callers s)"
    by (simp add: env_cancel(1) cancel_caller_def waiting_def)
  moreover have "x \<in> set (ld_callers s') \<Longrightarrow> ca_pc x = LDone LCanceled \<Longrightarrow> ca_canceled x" for x
    using assms(2) set_update_subset_insert [of "ld_callers s" i "(ld_callers s ! i)\<lparr>ca_canceled := True\<rparr>"]
    by (auto simp: env_cancel(1) cancel_caller_def load_inv_def waiters_ok_def)
  moreover have "ld_waiters s' = ld_waiters s" "ld_inflight s' = ld_inflight s" "ld_closed s' = ld_closed s" "ld_next s' = ld_next s"
    by (simp_all add: env_cancel(1) cancel_caller_def)
  ultimately show ?thesis using assms(2) unfolding load_inv_def flights_ok_def channels_ok_def waiters_ok_def f by simp
qed (use assms(2) in \<open>simp_all add: load_inv_def flights_ok_def channels_ok_def waiters_ok_def fetching_def waiting_on_def\<close>)

lemma load_reach_inv: "load_reach order ttl limit s \<Longrightarrow> load_inv s"
proof (induction rule: load_reach.induct)
  case (load_init now keys)
  let ?s = "NewTTLCache now keys :: 'a loads"
  have "\<not> fetching ?s i k ch" "\<not> waiting_on ?s i k ch" for i k ch
    by (auto simp: NewTTLCache_def fetching_def waiting_on_def)
  moreover have "ld_inflight ?s = Map.empty" "ld_closed ?s = []"
      "waiters_ok ?s"
    by (auto simp: NewTTLCache_def waiters_ok_def sql_count_0 waiting_def)
  ultimately show ?case unfolding load_inv_def flights_ok_def channels_ok_def by simp
next
  case (load_next s s')
  then show ?case using load_step_inv env_step_inv by blast
qed

subsection \<open>Progress\<close>

definition answered :: "'v caller \<Rightarrow> bool" where
  "answered c \<longleftrightarrow> (\<exists>r. ca_pc c = LDone r)"

lemma load_enabled:
  assumes inv: "load_inv s" and "c \<in> set (ld_callers s)" "\<not> answered c"
  shows "\<exists>s'. load_step order ttl limit s s'"
proof -
  from assms(2) obtain i where "i < length (ld_callers s)" "ld_callers s ! i = c" by (auto simp: in_set_conv_nth)
  then have at: "caller_at s i (ca_key c) (ca_pc c) (ca_canceled c)" by (simp add: caller_at_def)
  show ?thesis
  proof (cases "ca_pc c")
    case LStart
    obtain r es where look: "lookupLocked ttl (ld_now s) (ca_key c) (ld_entries s) = (r, es)" by fastforce
    show ?thesis
    proof (cases r)
      case None
      with load_fetch [OF at [unfolded LStart]] load_wait [OF at [unfolded LStart]] look show ?thesis
        by (cases "ld_inflight s (ca_key c)") blast+
    next
      case (Some v)
      with load_hit [OF at [unfolded LStart]] look show ?thesis by blast
    qed
  next
    case (LFetching ch)
    with load_failed [OF at [unfolded LFetching]] show ?thesis by blast
  next
    case (LWaiting ch)
    note at = at [unfolded LWaiting]
    show ?thesis
    proof (cases "ca_canceled c")
      case True
      with load_canceled [of s i "ca_key c" ch order ttl limit] at show ?thesis by auto
    next
      case False
      have "ch \<in> set (ld_closed s) \<or> ld_inflight s (ca_key c) = Some ch"
        using channels_okD(5) [OF _ at_waiting [OF at]] inv by (simp add: load_inv_def)
      then show ?thesis
      proof
        assume "ch \<in> set (ld_closed s)"
        with load_wake [of s i "ca_key c" ch order ttl limit] at False show ?thesis by auto
      next
        assume "ld_inflight s (ca_key c) = Some ch"
        with inv obtain j where "fetching s j (ca_key c) ch" unfolding load_inv_def flights_ok_def by blast
        then have "caller_at s j (ca_key c) (LFetching ch) (ca_canceled (ld_callers s ! j))"
          by (simp add: fetching_def caller_at_def)
        with load_failed show ?thesis by blast
      qed
    qed
  next
    case (LDone r)
    with assms(3) show ?thesis by (simp add: answered_def)
  qed
qed

text \<open>A thread that does not end its call moves down in this rank: from a closed channel to the start and from there
  to a fetch or an open channel. Each fetch that ends, ends a call.\<close>

definition pc_rank :: "nat list \<Rightarrow> 'v load_pc \<Rightarrow> nat" where
  "pc_rank shut p = (case p of LStart \<Rightarrow> 1 | LWaiting ch \<Rightarrow> if ch \<in> set shut then 2 else 0 | _ \<Rightarrow> 0)"

definition load_ranks :: "'v loads \<Rightarrow> nat" where
  "load_ranks s = sum_list (map (\<lambda>c. pc_rank (ld_closed s) (ca_pc c)) (ld_callers s))"

definition load_work :: "'v loads \<Rightarrow> nat" where
  "load_work s = sql_count (\<lambda>c. \<not> answered c) (ld_callers s) * (2 * length (ld_callers s) + 1) + load_ranks s"

lemma load_ranks_bound: "load_ranks s \<le> 2 * length (ld_callers s)"
proof -
  have "sum_list (map (\<lambda>c. pc_rank cl (ca_pc c)) cs) \<le> 2 * length cs" for cl and cs :: "'v caller list"
  proof (induction cs)
    case (Cons c cs)
    have "pc_rank cl (ca_pc c) \<le> 2" by (simp add: pc_rank_def split: load_pc.split)
    with Cons show ?case by simp
  qed simp
  then show ?thesis by (simp add: load_ranks_def)
qed

lemma work_done:
  assumes "caller_at s i key p c" "\<not> answered \<lparr>ca_key = key, ca_pc = p, ca_canceled = c\<rparr>" "ld_callers s' = ld_callers s"
  shows "load_work (go_to i (LDone r) s') < load_work s"
proof -
  let ?n = "length (ld_callers s)"
  have at: "ld_callers s ! i = \<lparr>ca_key = key, ca_pc = p, ca_canceled = c\<rparr>" using assms(1) by (simp add: caller_at_def)
  have len: "length (ld_callers (go_to i (LDone r) s')) = ?n" by (simp add: go_to_def assms(3))
  have "int (sql_count (\<lambda>c. \<not> answered c) (ld_callers (go_to i (LDone r) s'))) = int (sql_count (\<lambda>c. \<not> answered c) (ld_callers s)) - 1"
    using count_at [OF assms(1), of "\<lambda>c. \<not> answered c" "\<lparr>ca_key = key, ca_pc = LDone r, ca_canceled = c\<rparr>"] assms(2)
    by (simp add: go_to_def assms(3) at answered_def)
  then have "Suc (sql_count (\<lambda>c. \<not> answered c) (ld_callers (go_to i (LDone r) s'))) = sql_count (\<lambda>c. \<not> answered c) (ld_callers s)" by linarith
  then have "load_work s = sql_count (\<lambda>c. \<not> answered c) (ld_callers (go_to i (LDone r) s')) * (2 * ?n + 1) + (2 * ?n + 1) + load_ranks s"
    unfolding load_work_def by (metis add.commute mult_Suc)
  then show ?thesis unfolding load_work_def len using load_ranks_bound [of "go_to i (LDone r) s'"] len by simp
qed

lemma work_move:
  assumes "caller_at s i key p c" "ld_callers s' = ld_callers s" "ld_closed s' = ld_closed s"
    and "\<not> answered \<lparr>ca_key = key, ca_pc = p, ca_canceled = c\<rparr>" "\<not> answered \<lparr>ca_key = key, ca_pc = q, ca_canceled = c\<rparr>"
    and "pc_rank (ld_closed s) q < pc_rank (ld_closed s) p"
  shows "load_work (go_to i q s') < load_work s"
proof -
  have at: "i < length (ld_callers s)" "ld_callers s ! i = \<lparr>ca_key = key, ca_pc = p, ca_canceled = c\<rparr>"
    using assms(1) by (simp_all add: caller_at_def)
  have cs: "ld_callers (go_to i q s') = (ld_callers s)[i := \<lparr>ca_key = key, ca_pc = q, ca_canceled = c\<rparr>]"
    by (simp add: go_to_def assms(2) at)
  have un: "sql_count (\<lambda>c. \<not> answered c) (ld_callers (go_to i q s')) = sql_count (\<lambda>c. \<not> answered c) (ld_callers s)"
    using count_at [OF assms(1), of "\<lambda>c. \<not> answered c" "\<lparr>ca_key = key, ca_pc = q, ca_canceled = c\<rparr>"] assms(4,5)
    unfolding cs by simp
  let ?xs = "map (\<lambda>c. pc_rank (ld_closed s) (ca_pc c)) (ld_callers s)"
  have "load_ranks (go_to i q s') = sum_list (?xs[i := pc_rank (ld_closed s) q])"
    by (simp add: load_ranks_def cs assms(3) map_update)
  also have "\<dots> = sum_list ?xs + pc_rank (ld_closed s) q - ?xs ! i" using at(1) by (simp add: sum_list_update)
  also have "\<dots> < sum_list ?xs"
  proof -
    have "?xs ! i \<le> sum_list ?xs" using at(1) by (intro member_le_sum_list nth_mem) simp_all
    moreover have "pc_rank (ld_closed s) q < ?xs ! i" using assms(6) at by simp
    ultimately show ?thesis by linarith
  qed
  finally have "load_ranks (go_to i q s') < load_ranks s" by (simp add: load_ranks_def)
  with un show ?thesis by (simp add: load_work_def cs)
qed

lemma load_step_work:
  assumes "load_step order ttl limit s s'" "load_inv s"
  shows "load_work s' < load_work s"
  using assms(1)
proof cases
  case (load_wait i key c es ch)
  have "ch \<notin> set (ld_closed s)" using assms(2) load_wait(4) channels_okD(2) by (auto simp: load_inv_def)
  then show ?thesis unfolding load_wait(1) by (intro work_move [OF load_wait(2)]) (simp_all add: answered_def pc_rank_def)
qed (auto intro!: work_done work_move simp: answered_def pc_rank_def)

lemma load_steps_bound:
  assumes "load_inv s" "(load_step order ttl limit ^^ n) s s'"
  shows "n + load_work s' \<le> load_work s \<and> load_inv s'"
  using assms(2)
proof (induction n arbitrary: s')
  case 0
  then show ?case using assms(1) by simp
next
  case (Suc n)
  then obtain t where t: "(load_step order ttl limit ^^ n) s t" "load_step order ttl limit t s'" by auto
  from Suc.IH [OF t(1)] load_step_work [OF t(2)] load_step_inv [OF t(2)] show ?case by force
qed

section \<open>Properties\<close>

text \<open>C37: concurrent loads of one key share a fetch. In every reachable state at most one caller fetches a key, the
  count of waiters is right, every caller that waits does so on a fetch under way or on one already
  ended (no wake-up is lost), and only a caller whose own context ended was answered with a cancellation.\<close>

theorem load_single_flight:
  assumes "load_reach order ttl limit s"
  shows "(\<forall>i j k ch ch'. fetching s i k ch \<and> fetching s j k ch' \<longrightarrow> i = j)
    \<and> ld_waiters s = int (sql_count waiting (ld_callers s))
    \<and> (\<forall>i k ch. waiting_on s i k ch \<longrightarrow> ch \<in> set (ld_closed s) \<or> (\<exists>j. fetching s j k ch))
    \<and> (\<forall>c \<in> set (ld_callers s). ca_pc c = LDone LCanceled \<longrightarrow> ca_canceled c)"
proof -
  have ok: "flights_ok s" "channels_ok s" "waiters_ok s" using load_reach_inv [OF assms] by (simp_all add: load_inv_def)
  have "i = j" if "fetching s i k ch" "fetching s j k ch'" for i j k ch ch'
    using flights_okD(1) [OF ok(1) that(1)] flights_okD(1) [OF ok(1) that(2)] flights_okD(3) [OF ok(1)] that by simp
  moreover have "ch \<in> set (ld_closed s) \<or> (\<exists>j. fetching s j k ch)" if "waiting_on s i k ch" for i k ch
    using channels_okD(5) [OF ok(2) that] flights_okD(2) [OF ok(1)] by blast
  ultimately show ?thesis using ok(3) unfolding waiters_ok_def by blast
qed

definition sample_loads :: "int loads" where
  "sample_loads = (NewTTLCache 0 [''k'', ''k''])
     \<lparr>ld_inflight := [''k'' \<mapsto> 0], ld_next := 1,
      ld_callers := [\<lparr>ca_key = ''k'', ca_pc = LFetching 0, ca_canceled = False\<rparr>, \<lparr>ca_key = ''k'', ca_pc = LStart, ca_canceled = False\<rparr>]\<rparr>"

lemma sample_loads_reach: "load_reach id hour 8 sample_loads"
proof -
  let ?s = "NewTTLCache 0 [''k'', ''k''] :: int loads"
  have "load_step id hour 8 ?s (go_to 0 (LFetching (ld_next ?s))
      (?s\<lparr>ld_entries := [], ld_inflight := (ld_inflight ?s)(''k'' \<mapsto> ld_next ?s), ld_next := Suc (ld_next ?s)\<rparr>))"
    by (rule load_fetch [where c = False]) (simp_all add: caller_at_def NewTTLCache_def lookupLocked_def)
  moreover have "go_to 0 (LFetching (ld_next ?s))
      (?s\<lparr>ld_entries := [], ld_inflight := (ld_inflight ?s)(''k'' \<mapsto> ld_next ?s), ld_next := Suc (ld_next ?s)\<rparr>) = sample_loads"
    by (simp add: sample_loads_def go_to_def NewTTLCache_def)
  ultimately show ?thesis using load_next [OF load_init] by metis
qed

theorem load_single_flight_witness:
  "fetching sample_loads 0 ''k'' 0 \<and> \<not> fetching sample_loads 1 ''k'' 1 \<and> ld_waiters sample_loads = 0"
proof -
  have "fetching sample_loads 0 ''k'' 0" "sql_count waiting (ld_callers sample_loads) = 0"
    by (simp_all add: sample_loads_def fetching_def sql_count_def waiting_def)
  with load_single_flight [OF sample_loads_reach] show ?thesis by (metis of_nat_0 zero_neq_one)
qed

text \<open>every \<open>Load\<close> is answered. However the callers interleave, they take at most \<open>k (2 k + 3)\<close> steps together,
  where \<open>k\<close> is their number, before time, a cancellation or another operation intervenes, and they stop only
  when each of them has its answer: nobody waits for ever on a fetch that failed or was not cacheable.\<close>

theorem load_always_answers:
  assumes "load_reach order ttl limit s" "(load_step order ttl limit ^^ n) s s'"
  shows "n \<le> length (ld_callers s) * (2 * length (ld_callers s) + 3)
    \<and> ((\<nexists>s''. load_step order ttl limit s' s'') \<longrightarrow> (\<forall>c \<in> set (ld_callers s'). \<exists>r. ca_pc c = LDone r))"
proof -
  let ?k = "length (ld_callers s)"
  note b = load_steps_bound [OF load_reach_inv [OF assms(1)] assms(2)]
  have "sql_count (\<lambda>c. \<not> answered c) (ld_callers s) \<le> ?k" by (simp add: sql_count_def)
  then have "load_work s \<le> ?k * (2 * ?k + 1) + 2 * ?k"
    unfolding load_work_def using load_ranks_bound [of s] by (intro add_mono mult_le_mono1)
  also have "\<dots> = ?k * (2 * ?k + 3)" by (simp add: algebra_simps)
  finally have "n \<le> ?k * (2 * ?k + 3)" using b by linarith
  with load_enabled [of s'] b show ?thesis unfolding answered_def by blast
qed

theorem load_always_answers_witness:
  "\<exists>s'. load_step id hour 8 sample_loads s'"
proof (rule ccontr)
  assume a: "\<nexists>s'. load_step id hour 8 sample_loads s'"
  have "(load_step id hour 8 ^^ 0) sample_loads sample_loads" by simp
  with load_always_answers [OF sample_loads_reach this] a show False by (simp add: sample_loads_def)
qed

text \<open>C36: whatever the order in which the map is visited, the cache never holds more entries than its limit, and a
  lookup that hits returns the value stored last for its key, stored less than the time to live ago. While the
  distinct keys stored do not exceed the limit, a lookup hits exactly when such a value exists.\<close>

theorem cache_returns_latest:
  assumes "map_order order"
  shows "length (cache_run order ttl limit ops) \<le> limit
    \<and> (\<forall>v es. lookupLocked ttl now key (cache_run order ttl limit ops) = (Some v, es)
         \<longrightarrow> (\<exists>t. latest ops key = Some (v, t) \<and> now < t + ttl))
    \<and> (\<forall>v t. card (dom (latest ops)) \<le> limit \<and> (\<forall>op \<in> set ops. op_time op \<le> now)
         \<and> latest ops key = Some (v, t) \<and> now < t + ttl
         \<longrightarrow> fst (lookupLocked ttl now key (cache_run order ttl limit ops)) = Some v)"
proof -
  have ok: "length (cache_run order ttl limit ops) \<le> limit" "map_of (cache_run order ttl limit ops) \<subseteq>\<^sub>m latest ops"
    using cache_run_ok [OF assms, of limit ops ttl] by (simp_all add: cache_ok_def)
  from ok(2) have hit: "map_of (cache_run order ttl limit ops) key = Some (v, t) \<Longrightarrow> latest ops key = Some (v, t)" for v t
    by (metis domI map_le_def)
  have "fst (lookupLocked ttl now key (cache_run order ttl limit ops)) = Some v"
    if "card (dom (latest ops)) \<le> limit" "\<forall>op \<in> set ops. op_time op \<le> now" "latest ops key = Some (v, t)" "now < t + ttl"
    for v t
    using latest_kept [OF assms that] that(4) by (simp add: lookupLocked_def)
  with ok(1) hit lookup_Some show ?thesis by metis
qed

theorem cache_returns_latest_witness:
  "length (cache_run rev hour 1 [CStore 5 ''a'' (1 :: int), CStore 6 ''b'' 2, CStore 7 ''b'' 3]) \<le> 1
    \<and> fst (lookupLocked hour 8 ''b'' (cache_run rev hour 1 [CStore 5 ''a'' (1 :: int), CStore 6 ''b'' 2, CStore 7 ''b'' 3])) = Some 3"
proof -
  have "map_order rev" by (simp add: map_order_def)
  from cache_returns_latest [OF this, of hour 1 "[CStore 5 ''a'' (1 :: int), CStore 6 ''b'' 2, CStore 7 ''b'' 3]"]
  have "length (cache_run rev hour 1 [CStore 5 ''a'' (1 :: int), CStore 6 ''b'' 2, CStore 7 ''b'' 3]) \<le> 1" by blast
  moreover have "cache_run rev hour 1 [CStore 5 ''a'' (1 :: int), CStore 6 ''b'' 2, CStore 7 ''b'' 3] = [(''b'', 3, 7)]"
    by (simp add: cache_run_def storeLocked_def cache_assign_def cache_delete_def evict.simps oldest_key_def oldest_step_def)
  ultimately show ?thesis by (simp add: lookupLocked_def)
qed

end
