(* ===== verification/Go_Path.thy ===== *)
theory Go_Path
  imports Go_Text
begin

text \<open>
  The lexical path functions of Go's \<open>path/filepath\<close> on Unix that the sources use: \<open>Clean\<close>, \<open>Base\<close>, \<open>Dir\<close>,
  \<open>Ext\<close> and \<open>Join\<close>. A path is a byte string; nothing here reads the file system.
\<close>

abbreviation slash :: char where "slash \<equiv> CHR ''/''"

text \<open>One element of a path against the elements kept so far, the last one first.\<close>

definition clean_step :: "bool \<Rightarrow> string \<Rightarrow> string list \<Rightarrow> string list" where
  "clean_step rooted p kept =
     (if p = [] \<or> p = ''.'' then kept
      else if p = ''..'' then
        (case kept of
           [] \<Rightarrow> if rooted then [] else [p]
         | k # ks \<Rightarrow> if k = ''..'' then p # kept else ks)
      else p # kept)"

definition clean_parts :: "bool \<Rightarrow> string list \<Rightarrow> string list" where
  "clean_parts rooted parts = rev (fold (clean_step rooted) parts [])"

definition filepath_Clean :: "string \<Rightarrow> string" where
  "filepath_Clean path =
     (let rooted = (take 1 path = [slash]);
          s = join [slash] (clean_parts rooted (split_char slash path))
      in if rooted then slash # s else if s = [] then ''.'' else s)"

definition filepath_Base :: "string \<Rightarrow> string" where
  "filepath_Base path =
     (if path = [] then ''.''
      else let s = trim_right_set [slash] path
           in if s = [] then [slash] else last (split_char slash s))"

definition filepath_Ext :: "string \<Rightarrow> string" where
  "filepath_Ext path =
     (let name = last (split_char slash path); parts = split_char (CHR ''.'') name
      in if length parts \<le> 1 then [] else CHR ''.'' # last parts)"

text \<open>The directory is the cleaned text up to the last slash.\<close>

definition filepath_Dir :: "string \<Rightarrow> string" where
  "filepath_Dir path =
     (let name = last (split_char slash path)
      in filepath_Clean (take (length path - length name) path))"

text \<open>\<open>Join\<close> of two elements that are not empty.\<close>

definition filepath_Join :: "string \<Rightarrow> string \<Rightarrow> string" where
  "filepath_Join dir name = filepath_Clean (dir @ ''/'' @ name)"

section \<open>Cleaning is idempotent\<close>

text \<open>What the loop keeps, the last element first: proper names, above them only \<open>..\<close> of a relative path.\<close>

definition cleaned :: "bool \<Rightarrow> string list \<Rightarrow> bool" where
  "cleaned rooted kept \<longleftrightarrow> (\<exists>names n. kept = names @ replicate n ''..'' \<and> (rooted \<longrightarrow> n = 0)
     \<and> (\<forall>p \<in> set names. p \<noteq> [] \<and> p \<noteq> ''.'' \<and> p \<noteq> ''..''))"

lemma cleaned_step:
  assumes "cleaned rooted kept"
  shows "cleaned rooted (clean_step rooted p kept)"
proof -
  from assms obtain names n where k: "kept = names @ replicate n ''..''" "rooted \<longrightarrow> n = 0"
      "\<forall>p \<in> set names. p \<noteq> [] \<and> p \<noteq> ''.'' \<and> p \<noteq> ''..''" unfolding cleaned_def by blast
  consider "p = [] \<or> p = ''.''" | "p = ''..''" | "p \<noteq> []" "p \<noteq> ''.''" "p \<noteq> ''..''" by blast
  then show ?thesis
  proof cases
    case 1
    with assms show ?thesis by (auto simp: clean_step_def)
  next
    case 2
    show ?thesis
    proof (cases names)
      case Nil
      then have "clean_step rooted p kept = replicate (if rooted then 0 else Suc n) ''..''"
        using 2 k(1,2) by (cases n) (auto simp: clean_step_def)
      then show ?thesis unfolding cleaned_def by (metis append_Nil empty_iff list.set(1))
    next
      case (Cons q qs)
      with 2 k have "clean_step rooted p kept = qs @ replicate n ''..''" by (simp add: clean_step_def)
      with k Cons show ?thesis unfolding cleaned_def by auto
    qed
  next
    case 3
    with k have "clean_step rooted p kept = (p # names) @ replicate n ''..''" by (simp add: clean_step_def)
    with k 3 show ?thesis unfolding cleaned_def by (metis set_ConsD)
  qed
qed

lemma cleaned_fold: "cleaned rooted (fold (clean_step rooted) parts [])"
proof -
  have "cleaned rooted kept \<Longrightarrow> cleaned rooted (fold (clean_step rooted) parts kept)" for kept
    by (induction parts arbitrary: kept) (simp_all add: cleaned_step)
  moreover have "cleaned rooted []" by (simp add: cleaned_def)
  ultimately show ?thesis by blast
qed

lemma clean_again:
  assumes "cleaned rooted kept"
  shows "fold (clean_step rooted) (rev kept) [] = kept"
proof -
  from assms obtain names n where k: "kept = names @ replicate n ''..''" "rooted \<longrightarrow> n = 0"
      "\<forall>p \<in> set names. p \<noteq> [] \<and> p \<noteq> ''.'' \<and> p \<noteq> ''..''" unfolding cleaned_def by blast
  have step: "clean_step False ''..'' (replicate m ''..'') = replicate (Suc m) ''..''" for m
    by (cases m) (auto simp: clean_step_def)
  have dots: "fold (clean_step False) (replicate n ''..'') [] = replicate n ''..''" for n
    by (induction n) (simp_all add: step del: replicate_Suc)
  have names: "fold (clean_step rooted) (rev ns) ks = ns @ ks" if "\<forall>p \<in> set ns. p \<noteq> [] \<and> p \<noteq> ''.'' \<and> p \<noteq> ''..''" for ns ks
    using that by (induction ns) (auto simp: clean_step_def)
  from dots [of n] names [OF k(3)] k(1,2) show ?thesis by (cases rooted) simp_all
qed

lemma clean_parts_sub: "p \<in> set (clean_parts rooted parts) \<Longrightarrow> p \<in> set parts"
proof -
  have "set (fold (clean_step rooted) parts kept) \<subseteq> set parts \<union> set kept" for kept
  proof (induction parts arbitrary: kept)
    case (Cons q parts)
    have "set (clean_step rooted q kept) \<subseteq> insert q (set kept)" by (auto simp: clean_step_def split: list.split)
    with Cons [of "clean_step rooted q kept"] show ?case by auto
  qed simp
  then show "p \<in> set (clean_parts rooted parts) \<Longrightarrow> p \<in> set parts" by (fastforce simp: clean_parts_def)
qed

lemma filepath_Clean_idem: "filepath_Clean (filepath_Clean path) = filepath_Clean path"
proof -
  define rooted where "rooted = (take 1 path = [slash])"
  define parts where "parts = clean_parts rooted (split_char slash path)"
  have clean: "cleaned rooted (rev parts)" by (simp add: parts_def clean_parts_def cleaned_fold)
  then have again: "clean_parts rooted parts = parts" using clean_again [OF clean] by (simp add: clean_parts_def)
  have noslash: "\<forall>p \<in> set parts. slash \<notin> set p" unfolding parts_def using clean_parts_sub split_char_no_sep by blast
  from clean obtain names n where "rev parts = names @ replicate n ''..''" "\<forall>p \<in> set names. p \<noteq> []"
    unfolding cleaned_def by blast
  then have "set (rev parts) \<subseteq> set names \<union> {''..''}" by auto
  with \<open>\<forall>p \<in> set names. p \<noteq> []\<close> have proper: "\<forall>p \<in> set parts. p \<noteq> []" by auto
  have p: "filepath_Clean path = (if rooted then slash # join [slash] parts else if join [slash] parts = [] then ''.'' else join [slash] parts)"
    by (simp add: filepath_Clean_def Let_def rooted_def parts_def)
  show ?thesis
  proof (cases "parts = []")
    case True
    then show ?thesis unfolding p by (auto simp: filepath_Clean_def clean_parts_def clean_step_def)
  next
    case False
    note split = split_char_join [OF False noslash]
    from False proper noslash have first: "join [slash] parts \<noteq> [] \<and> take 1 (join [slash] parts) \<noteq> [slash]"
      by (cases parts; cases "tl parts") (auto simp: neq_Nil_conv)
    show ?thesis
    proof (cases rooted)
      case True
      then have "filepath_Clean (filepath_Clean path) = slash # join [slash] (clean_parts True ([] # parts))"
        unfolding p by (simp add: filepath_Clean_def split)
      also have "clean_parts True ([] # parts) = parts" using again True by (simp add: clean_parts_def clean_step_def)
      finally show ?thesis unfolding p using True by simp
    next
      case False
      with first have "filepath_Clean (filepath_Clean path) = join [slash] (clean_parts False parts)"
        unfolding p using again by (simp add: filepath_Clean_def split)
      with again False first show ?thesis unfolding p by simp
    qed
  qed
qed

end
