(* ===== verification/Workflow_Types.thy ===== *)
theory Workflow_Types
  imports Provider_Errors Domain Go_Path
begin

text \<open>
  The data of \<open>src/internal/workflow/service.go\<close> that the workflow theories share: outcomes, decisions, results,
  requests, and the errors the workflow tells apart. The JSON decoding of a stored score
  (\<open>encoding/json\<close> on \<open>domain.Score\<close>) is the argument \<open>decode\<close> of the definitions that read one.
\<close>

type_synonym outcome = string

definition OutcomeSatisfied :: outcome where "OutcomeSatisfied = ''satisfied''"
definition OutcomeInstalled :: outcome where "OutcomeInstalled = ''installed''"
definition OutcomeNoResult :: outcome where "OutcomeNoResult = ''no_result''"
definition OutcomeRejected :: outcome where "OutcomeRejected = ''rejected''"
definition OutcomeThrottled :: outcome where "OutcomeThrottled = ''throttled''"
definition OutcomeRemoved :: outcome where "OutcomeRemoved = ''removed''"

lemmas outcome_defs = OutcomeSatisfied_def OutcomeInstalled_def OutcomeNoResult_def OutcomeRejected_def
  OutcomeThrottled_def OutcomeRemoved_def

text \<open>
  What a candidate can fail with, one constructor per error type of \<open>internal/syncer\<close>, \<open>internal/pack\<close> and
  \<open>workflow/install.go\<close> that the workflow tells apart: LAPSE's verdict, its refusals and its process errors, the rule
  by which pack selection refused an archive, and the reason code of a failed validation before publication.
\<close>

datatype candidate_error =
    VerdictError string
  | TooFewCuesError
  | InvalidOutputError
  | NoSpeechError
  | TimeoutError
  | ProcessExitError int bool bool
  | SelectionError string
  | SubtitleValidationError string

text \<open>
  Workflow errors: an error of a provider, the end of the context, an exhausted acquisition around the failures
  of its candidates, joined errors, a candidate's failure, rejected subtitle content around what it found, a media
  file that cannot be read and whether it is missing, an error wrapped with \<open>%w\<close>, and any other error by its text.
\<close>

datatype workflow_error =
    WProvider provider_error
  | WContext
  | WOther string
  | WExhausted "workflow_error list"
  | WJoined "workflow_error list"
  | WCandidate candidate_error
  | WContent workflow_error
  | WMediaUnavailable bool workflow_error
  | WWrapped string workflow_error

fun is_exhausted :: "workflow_error \<Rightarrow> bool" where
  "is_exhausted (WExhausted es) = True"
| "is_exhausted (WJoined es) = list_ex is_exhausted es"
| "is_exhausted (WContent e) = is_exhausted e"
| "is_exhausted (WMediaUnavailable missing e) = is_exhausted e"
| "is_exhausted (WWrapped msg e) = is_exhausted e"
| "is_exhausted _ = False"

text \<open>\<open>errors.Join\<close> of two errors of which either may be nil.\<close>

definition join_errors :: "workflow_error option \<Rightarrow> workflow_error option \<Rightarrow> workflow_error option" where
  "join_errors a b =
     (case (a, b) of
        (None, None) \<Rightarrow> None
      | (Some x, None) \<Rightarrow> Some (WJoined [x])
      | (None, Some y) \<Rightarrow> Some (WJoined [y])
      | (Some x, Some y) \<Rightarrow> Some (WJoined [x, y]))"

text \<open>What LAPSE reports of a synchronization (\<open>domain/sync.go\<close>).\<close>

record SyncResult =
  sy_verdict :: string
  sy_mode :: string
  sy_reference :: string
  sy_offset_ms :: int
  sy_ratio :: rat
  sy_confidence :: rat
  sy_sigma :: rat
  sy_margin :: rat
  sy_agreement :: rat
  sy_coverage :: rat
  sy_parts :: int
  sy_splits :: int

record Decision =
  dn_stage :: string
  dn_provider_id :: string
  dn_result_id :: string
  dn_reason :: string

record Result =
  rs_outcome :: outcome
  rs_candidate :: Candidate
  rs_score :: Score
  rs_sync_result :: SyncResult
  rs_installation :: Installation
  rs_retry_at :: gotime
  rs_next_upgrade :: gotime
  rs_decisions :: "Decision list"
  rs_provider_errors :: "(string \<times> workflow_error) list"
  rs_resume_providers :: "string list"
  rs_resume_route_signature :: string
  rs_removed_after :: outcome
  rs_removal_deferred :: bool
  rs_clean_empty_providers :: "string list"
  rs_upgrade_recovery :: bool
  rs_retained_installation :: bool

record Request =
  rq_media_id :: int
  rq_media :: Media
  rq_language :: language
  rq_manual :: bool
  rq_force_probe :: bool
  rq_upgrade_attempt :: int
  rq_resume_providers :: "string list"
  rq_resume_route_signature :: string
  rq_replace_installed :: bool
  rq_replacing :: "Installation option"

text \<open>The zero values that Go's composite literals start from.\<close>

definition zero_ids :: ExternalIDs where
  "zero_ids = \<lparr>x_imdb = [], x_tmdb = 0, x_tvdb = 0\<rparr>"

definition zero_media :: Media where
  "zero_media =
     \<lparr>m_series_id = 0, m_entity_id = 0, m_ref = \<lparr>ref_instance = [], ref_kind = [], ref_file_id = 0\<rparr>,
      m_fingerprint = \<lparr>fp_path = [], fp_file_id = 0, fp_size = 0, fp_mod_time = 0\<rparr>, m_title = [], m_episode_title = [],
      m_alternate_titles = [], m_year = 0, m_season = 0, m_episode = 0, m_absolute_episode = 0, m_episode_end = 0,
      m_absolute_episode_end = 0, m_external_ids = zero_ids, m_original_filename = [], m_release_name = [],
      m_release_group = [], m_source = [], m_resolution = [], m_streaming_service = [], m_edition = [], m_quality = [],
      m_duration = 0, m_unsupported_reason = [], m_released_at = 0, m_series_type = []\<rparr>"

definition zero_candidate :: Candidate where
  "zero_candidate =
     \<lparr>c_provider_id = [], c_result_id = [], c_language = [], c_kind = [], c_title = [], c_alternate_titles = [],
      c_evidence_version = [], c_year = 0, c_season = 0, c_episode = 0, c_absolute_episode = 0,
      c_external_ids = zero_ids, c_release_names = [], c_release_groups = [], c_resolutions = [],
      c_exact_hash = False, c_forced = False, c_hearing_impaired = False, c_rating = 0, c_popularity = 0,
      c_download_count = 0, c_download_ref = [], c_download_version = [], c_pack = None,
      c_release_numbered = False\<rparr>"

definition zero_score :: Score where
  "zero_score = \<lparr>sc_total = 0, sc_contributions = [], sc_rejected_reasons = []\<rparr>"

definition zero_installation :: Installation where
  "zero_installation =
     \<lparr>in_fallback = False, in_media_id = 0, in_language = [], in_path = [], in_checksum = [], in_provider_id = [],
      in_candidate_id = [], in_candidate_signature = [], in_artifact_checksum = [], in_score_json = [],
      in_sync_json = [], in_rollback_path = [], in_media_path = [], in_media_file_id = 0, in_media_size = 0,
      in_media_mod_time_ns = 0, in_pending_id = 0, in_installed_at = 0\<rparr>"

definition zero_sync :: SyncResult where
  "zero_sync =
     \<lparr>sy_verdict = [], sy_mode = [], sy_reference = [], sy_offset_ms = 0, sy_ratio = 0, sy_confidence = 0,
      sy_sigma = 0, sy_margin = 0, sy_agreement = 0, sy_coverage = 0, sy_parts = 0, sy_splits = 0\<rparr>"

definition zero_result :: Result where
  "zero_result =
     \<lparr>rs_outcome = [], rs_candidate = zero_candidate, rs_score = zero_score, rs_sync_result = zero_sync, rs_installation = zero_installation,
      rs_retry_at = 0, rs_next_upgrade = 0, rs_decisions = [], rs_provider_errors = [], rs_resume_providers = [],
      rs_resume_route_signature = [], rs_removed_after = [], rs_removal_deferred = False,
      rs_clean_empty_providers = [], rs_upgrade_recovery = False, rs_retained_installation = False\<rparr>"

end
