(* ===== verification/Upgrade.thy ===== *)
theory Upgrade
  imports Workflow_Types Schedule
begin

text \<open>
  When an installed subtitle is replaced and when it is looked at again (\<open>src/internal/workflow/upgrade.go\<close> and the
  tier rules of \<open>provider_tiers.go\<close>), and the budget of sidecar deletions (\<open>removal_budget.go\<close>). The clock and
  the random unit are arguments.
\<close>

section \<open>The service's settings\<close>

record Service =
  sv_provider_order :: "string list"
  sv_preferred_order :: "string list option"
  sv_fallback_order :: "string list"
  sv_has_fallback_searcher :: bool
  sv_minimum_upgrade_delta :: int
  sv_max_upgrade_checks :: int
  sv_aged_after :: duration
  sv_allow_hearing_impaired :: bool

section \<open>Replacing an installed subtitle\<close>

definition DefaultMinimumUpgradeDelta :: int where "DefaultMinimumUpgradeDelta = 10"

definition exact_contribution :: "Contribution \<Rightarrow> bool" where
  "exact_contribution c \<longleftrightarrow> co_signal c = ''exact_hash'' \<and> co_points c = 100"

definition installedScore :: "(string \<Rightarrow> Score option) \<Rightarrow> Installation \<Rightarrow> (workflow_error, Score \<times> bool) result" where
  "installedScore decode installation =
     (if in_score_json installation = [] \<or> in_score_json installation = ''{}'' then Ok (zero_score, False)
      else case decode (in_score_json installation) of
             None \<Rightarrow> Err (WOther ''decode installed subtitle score'')
           | Some score \<Rightarrow> Ok (score, list_ex exact_contribution (sc_contributions score)))"

definition ShouldUpgrade ::
  "(string \<Rightarrow> Score option) \<Rightarrow> Installation \<Rightarrow> Score \<Rightarrow> bool \<Rightarrow> int \<Rightarrow> (workflow_error, bool) result" where
  "ShouldUpgrade decode existing candidate candidateExact minimumDelta =
     (let delta = (if minimumDelta \<le> 0 then DefaultMinimumUpgradeDelta else minimumDelta)
      in case installedScore decode existing of
           Err e \<Rightarrow> Err e
         | Ok (current, exact) \<Rightarrow>
             if exact then Ok False
             else if candidateExact then Ok True
             else Ok (sc_total candidate \<ge> sc_total current + delta))"

definition InstallationMatchesMedia :: "Installation \<Rightarrow> Media \<Rightarrow> bool" where
  "InstallationMatchesMedia installation media \<longleftrightarrow>
     (let fingerprint = m_fingerprint media
      in filepath_Clean (in_media_path installation) = filepath_Clean (fp_path fingerprint)
         \<and> in_media_file_id installation = fp_file_id fingerprint
         \<and> in_media_size installation = fp_size fingerprint
         \<and> in_media_mod_time_ns installation = unix_nano (fp_mod_time fingerprint))"

definition ShouldUpgradeForMedia ::
  "(string \<Rightarrow> Score option) \<Rightarrow> Installation \<Rightarrow> Media \<Rightarrow> Score \<Rightarrow> bool \<Rightarrow> int \<Rightarrow> (workflow_error, bool) result" where
  "ShouldUpgradeForMedia decode existing media candidate candidateExact minimumDelta =
     (if \<not> InstallationMatchesMedia existing media then Ok True
      else ShouldUpgrade decode existing candidate candidateExact minimumDelta)"

definition isFallbackProvider :: "Service \<Rightarrow> string \<Rightarrow> bool" where
  "isFallbackProvider s provider_id \<longleftrightarrow> provider_id \<in> set (sv_fallback_order s)"

definition preferred_order :: "Service \<Rightarrow> string list" where
  "preferred_order s = (case sv_preferred_order s of None \<Rightarrow> sv_provider_order s | Some order \<Rightarrow> order)"

definition shouldUpgrade ::
  "(string \<Rightarrow> Score option) \<Rightarrow> Service \<Rightarrow> Installation \<Rightarrow> Media \<Rightarrow> Candidate \<Rightarrow> Score \<Rightarrow> (workflow_error, bool) result" where
  "shouldUpgrade decode s existing media candidate score =
     (if \<not> InstallationMatchesMedia existing media then Ok True
      else if isFallbackProvider s (in_provider_id existing) \<and> c_provider_id candidate \<in> set (preferred_order s) then Ok True
      else if in_provider_id existing \<in> set (preferred_order s) \<and> isFallbackProvider s (c_provider_id candidate) then Ok False
      else ShouldUpgrade decode existing score (c_exact_hash candidate) (sv_minimum_upgrade_delta s))"

definition sameInstalledCandidate :: "Installation \<Rightarrow> Media \<Rightarrow> Candidate \<Rightarrow> bool" where
  "sameInstalledCandidate existing media candidate \<longleftrightarrow>
     InstallationMatchesMedia existing media \<and> in_provider_id existing = c_provider_id candidate
     \<and> in_candidate_id existing = c_result_id candidate"

definition cacheProviderAllowed :: "Service \<Rightarrow> string \<Rightarrow> bool" where
  "cacheProviderAllowed s provider_id \<longleftrightarrow> sv_fallback_order s = [] \<or> provider_id \<in> set (sv_provider_order s)"

section \<open>The next check\<close>

definition NextUpgradeAt :: "gotime \<Rightarrow> Score \<Rightarrow> bool \<Rightarrow> gotime" where
  "NextUpgradeAt now score exact =
     (if exact then zero_time
      else if sc_total score \<ge> 85 then now + 90 * 24 * hour
      else if sc_total score \<ge> 60 then now + 30 * 24 * hour
      else now + 7 * 24 * hour)"

definition nextUpgradeAt :: "Service \<Rightarrow> gotime \<Rightarrow> Score \<Rightarrow> Candidate \<Rightarrow> gotime" where
  "nextUpgradeAt s now score candidate =
     (if isFallbackProvider s (c_provider_id candidate) then now + 7 * 24 * hour
      else NextUpgradeAt now score (c_exact_hash candidate))"

definition setReassessmentResult :: "Service \<Rightarrow> Result \<Rightarrow> Installation \<Rightarrow> Candidate \<Rightarrow> Score \<Rightarrow> gotime \<Rightarrow> Result" where
  "setReassessmentResult s result installation candidate score now =
     result\<lparr>rs_candidate := candidate, rs_score := score, rs_installation := installation,
       rs_next_upgrade := nextUpgradeAt s now score candidate\<rparr>"

definition recentFallbackChecks :: int where "recentFallbackChecks = 4"

definition recentRelease :: "Service \<Rightarrow> gotime \<Rightarrow> gotime \<Rightarrow> bool" where
  "recentRelease s releasedAt at' \<longleftrightarrow>
     sv_aged_after s > 0 \<and> \<not> is_zero_time releasedAt \<and> \<not> is_zero_time at' \<and> \<not> releasedAt > at'
     \<and> at' - releasedAt < sv_aged_after s"

text \<open>The random unit the service uses: the draw, clamped.\<close>

definition randomUnit :: "rat \<Rightarrow> rat" where
  "randomUnit unit = max 0 (min 1 unit)"

text \<open>One turn of the loop over the longer intervals.\<close>

definition lengthen :: "int \<Rightarrow> duration \<times> int \<Rightarrow> duration \<times> int" where
  "lengthen days acc =
     (let (base, attempt) = acc; delay = days * 24 * hour
      in if attempt > 0 \<and> delay > base then (delay, attempt - 1) else acc)"

definition jittered :: "duration \<Rightarrow> rat \<Rightarrow> duration" where
  "jittered base unit =
     base + trunc_int (rnd (rnd (rnd (of_int base) * rnd (1 / 10)) * rnd (2 * randomUnit unit - 1)))"

definition scheduleUpgrade :: "bool \<Rightarrow> Service \<Rightarrow> gotime \<Rightarrow> rat \<Rightarrow> Result \<Rightarrow> int \<Rightarrow> gotime \<Rightarrow> gotime \<Rightarrow> Result" where
  "scheduleUpgrade fused s now unit result attempt releasedAt installedAt =
     (if is_zero_time (rs_next_upgrade result) then result
      else
        let base = nextUpgradeAt s now (rs_score result) (rs_candidate result) - now;
            attempt1 = (if rs_outcome result \<noteq> OutcomeSatisfied then 0 else attempt);
            fallback = isFallbackProvider s (c_provider_id (rs_candidate result))
        in if fallback \<and> recentRelease s releasedAt now \<and> attempt1 < recentFallbackChecks
           then let next = now + MissingDelay fused (attempt1 + 1) (randomUnit unit)
                in if \<not> rs_upgrade_recovery result \<or> next < rs_next_upgrade result
                   then result\<lparr>rs_next_upgrade := next\<rparr> else result
           else if rs_upgrade_recovery result then result
           else
             let attempt2 = (if fallback \<and> recentRelease s releasedAt installedAt
                             then max 0 (attempt1 - recentFallbackChecks) else attempt1)
             in if sv_max_upgrade_checks s > 0 \<and> attempt2 \<ge> sv_max_upgrade_checks s \<and> \<not> fallback
                then result\<lparr>rs_next_upgrade := zero_time\<rparr>
                else let (longer, _) = fold lengthen [14, 30, 60, 90] (base, attempt2)
                     in result\<lparr>rs_next_upgrade := now + jittered longer unit\<rparr>)"

section \<open>The budget of deletions\<close>

definition MaxReplacedRemovalsPerHour :: int where "MaxReplacedRemovalsPerHour = 20"
definition replacedRemovalWindow :: duration where "replacedRemovalWindow = hour"
definition removalRetryMargin :: duration where "removalRetryMargin = minute"

record RemovalBudget =
  rb_limit :: int
  rb_window :: duration
  rb_taken :: "gotime list"

definition NewReplacedRemovalBudget :: RemovalBudget where
  "NewReplacedRemovalBudget = \<lparr>rb_limit = MaxReplacedRemovalsPerHour, rb_window = replacedRemovalWindow, rb_taken = []\<rparr>"

definition live_removals :: "RemovalBudget \<Rightarrow> gotime \<Rightarrow> gotime list" where
  "live_removals b now = filter (\<lambda>at'. now - at' < rb_window b) (rb_taken b)"

definition reserve :: "RemovalBudget \<Rightarrow> gotime \<Rightarrow> bool \<times> RemovalBudget" where
  "reserve b now =
     (let kept = live_removals b now
      in if int (length kept) \<ge> rb_limit b then (False, b\<lparr>rb_taken := kept\<rparr>)
         else (True, b\<lparr>rb_taken := kept @ [now]\<rparr>))"

text \<open>The release function a reservation at \<open>at'\<close> returns; \<open>remove1\<close> drops the first equal entry.\<close>

definition release_reservation :: "gotime \<Rightarrow> RemovalBudget \<Rightarrow> RemovalBudget" where
  "release_reservation at' b = b\<lparr>rb_taken := remove1 at' (rb_taken b)\<rparr>"

definition oldest_removal :: "gotime list \<Rightarrow> gotime" where
  "oldest_removal ts = fold (\<lambda>at' oldest. if is_zero_time oldest \<or> at' < oldest then at' else oldest) ts zero_time"

definition nextSlot :: "RemovalBudget \<Rightarrow> gotime \<Rightarrow> gotime" where
  "nextSlot b now =
     (if int (length (live_removals b now)) < rb_limit b then now
      else oldest_removal (live_removals b now) + rb_window b)"

end
