(* ===== verification/Upgrade_Props.thy ===== *)
theory Upgrade_Props
  imports Upgrade "HOL-Library.Multiset"
begin

text \<open>
  What the upgrade rules and the deletion budget guarantee: no cycle of replacements, checks that come back within
  the schedule, and a rolling bound on deletions.
\<close>

section \<open>The deletion budget\<close>

text \<open>
  Runs of one budget: reservations at nondecreasing clock readings, each with the granted of the deletions that were
  granted and not given back.
\<close>

inductive removal_run :: "RemovalBudget \<Rightarrow> gotime list \<Rightarrow> gotime \<Rightarrow> bool" where
  run_new: "0 < clock \<Longrightarrow> removal_run NewReplacedRemovalBudget [] clock"
| run_granted: "\<lbrakk>removal_run b granted clock; clock \<le> now; reserve b now = (True, b')\<rbrakk> \<Longrightarrow> removal_run b' (granted @ [now]) now"
| run_refused: "\<lbrakk>removal_run b granted clock; clock \<le> now; reserve b now = (False, b')\<rbrakk> \<Longrightarrow> removal_run b' granted now"
| run_released: "\<lbrakk>removal_run b granted clock; at' \<in> set granted\<rbrakk>
    \<Longrightarrow> removal_run (release_reservation at' b) (remove1 at' granted) clock"

definition in_window :: "gotime \<Rightarrow> duration \<Rightarrow> gotime \<Rightarrow> bool" where
  "in_window t w at' \<longleftrightarrow> t - w < at' \<and> at' \<le> t"

text \<open>What a run keeps: the budget holds exactly the logged deletions that are still live, and no window is overfull.\<close>

definition budget_ok :: "RemovalBudget \<Rightarrow> gotime list \<Rightarrow> gotime \<Rightarrow> bool" where
  "budget_ok b granted clock \<longleftrightarrow>
     rb_limit b = MaxReplacedRemovalsPerHour \<and> rb_window b = replacedRemovalWindow
     \<and> 0 < clock \<and> (\<forall>at' \<in> set granted. 0 < at' \<and> at' \<le> clock) \<and> mset (rb_taken b) \<subseteq># mset granted
     \<and> mset (live_removals b clock) = filter_mset (\<lambda>at'. clock - at' < replacedRemovalWindow) (mset granted)
     \<and> (\<forall>t. int (length (filter (in_window t replacedRemovalWindow) granted)) \<le> MaxReplacedRemovalsPerHour)"

lemma budget_okD:
  assumes "budget_ok b granted clock"
  shows "rb_limit b = MaxReplacedRemovalsPerHour" and "rb_window b = replacedRemovalWindow" and "0 < clock"
    and "at' \<in> set granted \<Longrightarrow> 0 < at' \<and> at' \<le> clock" and "mset (rb_taken b) \<subseteq># mset granted"
    and "mset (live_removals b clock) = filter_mset (\<lambda>at'. clock - at' < replacedRemovalWindow) (mset granted)"
    and "int (length (filter (in_window t replacedRemovalWindow) granted)) \<le> MaxReplacedRemovalsPerHour"
  using assms unfolding budget_ok_def by blast+

lemma live_later:
  assumes "clock \<le> now" "rb_window b = w"
    and "mset (live_removals b clock) = filter_mset (\<lambda>at'. clock - at' < w) (mset granted)"
  shows "mset (live_removals b now) = filter_mset (\<lambda>at'. now - at' < w) (mset granted)"
proof -
  have *: "(\<lambda>at'. now - at' < w) = (\<lambda>at'. clock - at' < w \<and> now - at' < w)" using assms(1) by auto
  have "mset (live_removals b now) = filter_mset (\<lambda>at'. now - at' < w) (mset (live_removals b clock))"
    unfolding live_removals_def mset_filter filter_filter_mset assms(2) by (subst *) (simp only: conj_commute)
  then show ?thesis unfolding assms(3) filter_filter_mset by (subst *) (simp only: conj_commute)
qed

lemma live_taken: "\<forall>at' \<in> set (rb_taken b). now - at' < rb_window b \<Longrightarrow> live_removals b now = rb_taken b"
  by (simp add: live_removals_def)

lemma window_count_le:
  assumes "mset ts = filter_mset (\<lambda>at'. now - at' < w) (mset granted)" "now \<le> t"
  shows "length (filter (in_window t w) granted) \<le> length ts"
proof -
  have "filter_mset (in_window t w) (mset granted) \<subseteq># filter_mset (\<lambda>at'. now - at' < w) (mset granted)"
    using assms(2) by (intro filter_mset_mono_strong) (auto simp: in_window_def)
  from size_mset_mono [OF this] show ?thesis
    using arg_cong [OF assms(1), of size] by (simp flip: mset_filter)
qed

lemma reserve_True: "reserve b now = (True, b') \<longleftrightarrow>
    int (length (live_removals b now)) < rb_limit b \<and> b' = b\<lparr>rb_taken := live_removals b now @ [now]\<rparr>"
  by (auto simp: reserve_def Let_def)

lemma reserve_False: "reserve b now = (False, b') \<longleftrightarrow>
    \<not> int (length (live_removals b now)) < rb_limit b \<and> b' = b\<lparr>rb_taken := live_removals b now\<rparr>"
  by (auto simp: reserve_def Let_def)

lemma live_kept: "live_removals (b\<lparr>rb_taken := live_removals b now\<rparr>) now = live_removals b now"
  by (simp add: live_removals_def)

lemma live_granted: "0 < rb_window b \<Longrightarrow>
    live_removals (b\<lparr>rb_taken := live_removals b now @ [now]\<rparr>) now = live_removals b now @ [now]"
  by (simp add: live_removals_def)

lemma replacedRemovalWindow_pos: "0 < replacedRemovalWindow"
  by (simp add: replacedRemovalWindow_def)

lemma live_sub_log:
  assumes "mset (live_removals b now) = filter_mset P (mset granted)"
  shows "mset (live_removals b now) \<subseteq># mset granted"
  unfolding assms by simp

lemma budget_granted:
  assumes "budget_ok b granted clock" "clock \<le> now" "reserve b now = (True, b')"
  shows "budget_ok b' (granted @ [now]) now"
proof -
  let ?w = replacedRemovalWindow
  have b: "rb_window b = ?w" "rb_limit b = MaxReplacedRemovalsPerHour" by (rule budget_okD [OF assms(1)])+
  have live: "mset (live_removals b now) = filter_mset (\<lambda>at'. now - at' < ?w) (mset granted)"
    by (rule live_later [OF assms(2) budget_okD(2,6) [OF assms(1)]])
  have room: "int (length (live_removals b now)) < MaxReplacedRemovalsPerHour"
    and b': "b' = b\<lparr>rb_taken := live_removals b now @ [now]\<rparr>"
    using assms(3) b(2) by (simp_all add: reserve_True)
  have live': "live_removals b' now = live_removals b now @ [now]"
    unfolding b' using replacedRemovalWindow_pos by (intro live_granted) (simp add: b)
  have count: "int (length (filter (in_window t ?w) (granted @ [now]))) \<le> MaxReplacedRemovalsPerHour" for t
  proof (cases "now \<le> t")
    case True
    with window_count_le [OF live True] room show ?thesis by simp
  next
    case False
    then show ?thesis using budget_okD(7) [OF assms(1), of t] by (simp add: in_window_def)
  qed
  have times: "0 < now" "\<forall>at' \<in> set (granted @ [now]). 0 < at' \<and> at' \<le> now"
    using budget_okD(3,4) [OF assms(1)] assms(2) by fastforce+
  have live2: "mset (live_removals b' now) = filter_mset (\<lambda>at'. now - at' < ?w) (mset (granted @ [now]))"
    unfolding live' using live replacedRemovalWindow_pos by simp
  have sub: "mset (rb_taken b') \<subseteq># mset (granted @ [now])" using live_sub_log [OF live] by (simp add: b')
  have "rb_limit b' = MaxReplacedRemovalsPerHour" "rb_window b' = ?w" using b by (simp_all add: b')
  with times live2 sub count show ?thesis unfolding budget_ok_def by blast
qed

lemma budget_refused:
  assumes "budget_ok b granted clock" "clock \<le> now" "reserve b now = (False, b')"
  shows "budget_ok b' granted now"
proof -
  let ?w = replacedRemovalWindow
  have b': "b' = b\<lparr>rb_taken := live_removals b now\<rparr>" using assms(3) by (simp add: reserve_False)
  have live: "mset (live_removals b now) = filter_mset (\<lambda>at'. now - at' < ?w) (mset granted)"
    by (rule live_later [OF assms(2) budget_okD(2,6) [OF assms(1)]])
  have "\<forall>at' \<in> set granted. 0 < at' \<and> at' \<le> now" using budget_okD(4) [OF assms(1)] assms(2) by fastforce
  moreover have "0 < now" using budget_okD(3) [OF assms(1)] assms(2) by simp
  ultimately show ?thesis
    using live live_sub_log [OF live] budget_okD(1,2,7) [OF assms(1)] unfolding budget_ok_def b' live_kept by simp
qed

lemma mset_remove1_sub: "A \<subseteq># B \<Longrightarrow> A - {#x#} \<subseteq># B - {#x#}"
  by (simp add: subseteq_mset_def le_diff_conv2 diff_le_mono)

lemma filter_remove1_le: "length (filter P (remove1 x xs)) \<le> length (filter P xs)"
  by (induction xs) auto

lemma budget_released:
  assumes "budget_ok b granted clock" "at' \<in> set granted"
  shows "budget_ok (release_reservation at' b) (remove1 at' granted) clock"
proof -
  let ?w = replacedRemovalWindow and ?b = "release_reservation at' b" and ?live = "\<lambda>x. clock - x < replacedRemovalWindow"
  have w: "rb_window b = ?w" by (rule budget_okD(2) [OF assms(1)])
  have f: "filter_mset ?live (M - {#at'#}) = filter_mset ?live M - (if ?live at' then {#at'#} else {#})"
    for M by (simp add: filter_diff_mset)
  have "mset (live_removals b clock) = filter_mset ?live (mset (rb_taken b))" by (simp add: live_removals_def w)
  moreover have "mset (live_removals ?b clock) = filter_mset ?live (mset (rb_taken b) - {#at'#})"
    by (simp add: live_removals_def release_reservation_def w)
  ultimately have live: "mset (live_removals ?b clock) = filter_mset ?live (mset (remove1 at' granted))"
    using budget_okD(6) [OF assms(1)] by (simp add: f)
  have sub: "mset (rb_taken ?b) \<subseteq># mset (remove1 at' granted)"
    using mset_remove1_sub [OF budget_okD(5) [OF assms(1)]] by (simp add: release_reservation_def)
  have count: "int (length (filter (in_window t ?w) (remove1 at' granted))) \<le> MaxReplacedRemovalsPerHour" for t
    using budget_okD(7) [OF assms(1), of t] filter_remove1_le [of "in_window t ?w" at' granted] by linarith
  have times: "0 < clock" "\<forall>x \<in> set (remove1 at' granted). 0 < x \<and> x \<le> clock"
    using budget_okD(3,4) [OF assms(1)] set_remove1_subset [of at' granted] by auto
  have "rb_limit ?b = MaxReplacedRemovalsPerHour" "rb_window ?b = ?w"
    using budget_okD(1,2) [OF assms(1)] by (simp_all add: release_reservation_def)
  with times live sub count show ?thesis unfolding budget_ok_def by blast
qed

lemma removal_run_ok: "removal_run b granted clock \<Longrightarrow> budget_ok b granted clock"
proof (induction rule: removal_run.induct)
  case (run_new clock)
  then show ?case by (simp add: budget_ok_def NewReplacedRemovalBudget_def live_removals_def MaxReplacedRemovalsPerHour_def)
qed (auto intro: budget_granted budget_refused budget_released)

text \<open>The scan of \<open>nextSlot\<close> finds the least entry, as no entry is the zero time.\<close>

definition earlier :: "gotime \<Rightarrow> gotime \<Rightarrow> gotime" where
  "earlier at' oldest = (if is_zero_time oldest \<or> at' < oldest then at' else oldest)"

lemma oldest_scan_min: "\<lbrakk>\<forall>t \<in> set ts. 0 < t; 0 < o'\<rbrakk> \<Longrightarrow> fold earlier ts o' = Min (set (o' # ts))"
proof (induction ts arbitrary: o')
  case (Cons t ts)
  have "earlier t o' = min t o'" using Cons.prems by (auto simp: earlier_def min_def)
  with Cons.IH [of "min t o'"] Cons.prems show ?case
    by (cases "ts = []") (simp_all add: min.commute min.left_commute)
qed simp

lemma oldest_removal_min:
  assumes "\<forall>t \<in> set ts. 0 < t" "ts \<noteq> []"
  shows "oldest_removal ts = Min (set ts)"
proof (cases ts)
  case (Cons t ts')
  have "oldest_removal ts = fold earlier ts' (earlier t zero_time)"
    by (simp add: oldest_removal_def earlier_def [abs_def] Cons)
  moreover have "earlier t zero_time = t" by (simp add: earlier_def)
  ultimately show ?thesis using oldest_scan_min [of ts' t] assms(1) Cons by simp
qed (use assms in simp)

lemma live_between:
  assumes "\<forall>t \<in> set (live_removals b now). t' - t < rb_window b" "now \<le> t'"
  shows "live_removals b t' = live_removals b now"
  using assms by (auto simp: live_removals_def intro!: filter_cong)

lemma nextSlot_exact:
  assumes ok: "budget_ok b granted clock" and now: "clock \<le> now"
  shows "now \<le> nextSlot b now \<and> nextSlot b now \<le> now + replacedRemovalWindow
    \<and> fst (reserve b (nextSlot b now)) \<and> (\<forall>t. now \<le> t \<and> t < nextSlot b now \<longrightarrow> \<not> fst (reserve b t))"
proof (cases "int (length (live_removals b now)) < rb_limit b")
  case True
  then show ?thesis using replacedRemovalWindow_pos by (auto simp: nextSlot_def reserve_def Let_def)
next
  case full: False
  let ?w = replacedRemovalWindow and ?live = "live_removals b now"
  have b: "rb_window b = ?w" "rb_limit b = 20" using budget_okD(1,2) [OF ok] by (simp_all add: MaxReplacedRemovalsPerHour_def)
  have live: "mset ?live = filter_mset (\<lambda>at'. now - at' < ?w) (mset granted)"
    by (rule live_later [OF now budget_okD(2,6) [OF ok]])
  have sl: "set ?live = {x \<in> set granted. now - x < ?w}" using arg_cong [OF live, of set_mset] by simp
  have times: "\<forall>t \<in> set ?live. 0 < t \<and> t \<le> now" using budget_okD(4) [OF ok] now unfolding sl by fastforce
  have "length (filter (in_window now ?w) granted) = length ?live"
  proof -
    have "filter_mset (in_window now ?w) (mset granted) = mset ?live"
      unfolding live using budget_okD(4) [OF ok] now by (intro filter_mset_cong) (fastforce simp: in_window_def)+
    then show ?thesis by (metis mset_filter size_mset)
  qed
  then have len: "int (length ?live) = 20"
    using budget_okD(7) [OF ok, of now] full b(2) by (simp add: MaxReplacedRemovalsPerHour_def)
  then have ne: "?live \<noteq> []" by auto
  define o' where "o' = Min (set ?live)"
  have o: "o' \<in> set ?live" "\<forall>t \<in> set ?live. o' \<le> t" using ne by (simp_all add: o'_def)
  have slot: "nextSlot b now = o' + ?w"
    using full oldest_removal_min [OF _ ne] times by (simp add: nextSlot_def o'_def b)
  have fits: "now < o' + ?w" "o' \<le> now" using o(1) times unfolding sl by auto
  have early: "\<not> fst (reserve b t)" if "now \<le> t" "t < nextSlot b now" for t
  proof -
    have "live_removals b t = ?live" using that o(2) by (intro live_between) (auto simp: slot b)
    then show ?thesis using len b(2) by (simp add: reserve_def Let_def)
  qed
  have "live_removals b (o' + ?w) = filter (\<lambda>x. o' + ?w - x < ?w) ?live"
    using fits by (auto simp: live_removals_def b intro!: filter_cong)
  moreover have "length (filter (\<lambda>x. o' + ?w - x < ?w) ?live) < length ?live"
    using o(1) by (intro length_filter_less [of o']) auto
  ultimately have "fst (reserve b (nextSlot b now))" using len b(2) by (simp add: slot reserve_def Let_def)
  with early fits show ?thesis by (simp add: slot)
qed

section \<open>The time of the next check\<close>

lemma rnd_tenth_eq: "rnd (1 / 10) = 3602879701896397 / 36028797018963968"
  using rnd_eval [of "- 4" "1 / 10" 7205759403792794] by (simp add: power_int_def power_one_over)

definition check_days :: "int list" where "check_days = [7, 14, 30, 60, 90]"

lemma tenth_of_base:
  assumes "days \<in> set check_days"
  shows "rnd (rnd (of_int (days * 24 * hour)) * rnd (1 / 10)) = of_int (days * 24 * hour div 10)"
proof -
  have r: "rnd (of_int (days * 24 * hour)) = of_int (days * 24 * hour)"
    using assms by (intro rnd_of_int) (auto simp: check_days_def)
  have "rnd (rat_of_int (7 * 24 * hour) * rnd (1 / 10)) = of_int (7 * 24 * hour div 10)"
    using rnd_eval [of 45 "rat_of_int (7 * 24 * hour) * (3602879701896397 / 36028797018963968)" 7741440000000000]
    by (simp add: rnd_tenth_eq power_int_def power_one_over)
  moreover have "rnd (rat_of_int (14 * 24 * hour) * rnd (1 / 10)) = of_int (14 * 24 * hour div 10)"
    using rnd_eval [of 46 "rat_of_int (14 * 24 * hour) * (3602879701896397 / 36028797018963968)" 7741440000000000]
    by (simp add: rnd_tenth_eq power_int_def power_one_over)
  moreover have "rnd (rat_of_int (30 * 24 * hour) * rnd (1 / 10)) = of_int (30 * 24 * hour div 10)"
    using rnd_eval [of 47 "rat_of_int (30 * 24 * hour) * (3602879701896397 / 36028797018963968)" 8294400000000000]
    by (simp add: rnd_tenth_eq power_int_def power_one_over)
  moreover have "rnd (rat_of_int (60 * 24 * hour) * rnd (1 / 10)) = of_int (60 * 24 * hour div 10)"
    using rnd_eval [of 48 "rat_of_int (60 * 24 * hour) * (3602879701896397 / 36028797018963968)" 8294400000000000]
    by (simp add: rnd_tenth_eq power_int_def power_one_over)
  moreover have "rnd (rat_of_int (90 * 24 * hour) * rnd (1 / 10)) = of_int (90 * 24 * hour div 10)"
    using rnd_eval [of 49 "rat_of_int (90 * 24 * hour) * (3602879701896397 / 36028797018963968)" 6220800000000000]
    by (simp add: rnd_tenth_eq power_int_def power_one_over)
  ultimately show ?thesis unfolding r using assms unfolding check_days_def by auto
qed

lemma rnd_minus: "rnd (- x) = - rnd x"
  by (auto simp: rnd_def)

lemma rnd_within: "\<lbrakk>- of_int n \<le> x; x \<le> of_int n; 0 \<le> n; n \<le> 2 ^ 53\<rbrakk> \<Longrightarrow> - of_int n \<le> rnd x \<and> rnd x \<le> of_int n"
  using rnd_le_int [of x n] rnd_le_int [of "- x" n] by (simp add: rnd_minus)

lemma trunc_int_within: "\<lbrakk>- of_int n \<le> x; x \<le> of_int n\<rbrakk> \<Longrightarrow> - n \<le> trunc_int x \<and> trunc_int x \<le> n"
  by (auto simp: trunc_int_def le_floor_iff floor_le_iff le_ceiling_iff ceiling_le_iff)

lemma jittered_bounds:
  assumes "days \<in> set check_days"
  shows "\<bar>jittered (days * 24 * hour) unit - days * 24 * hour\<bar> \<le> days * 24 * hour div 10"
proof -
  let ?n = "days * 24 * hour div 10" and ?f = "rnd (2 * randomUnit unit - 1)"
  have f: "- 1 \<le> ?f" "?f \<le> 1"
    using rnd_within [of 1 "2 * randomUnit unit - 1"] by (simp_all add: randomUnit_def)
  have n: "0 \<le> ?n" "?n \<le> 2 ^ 53" using assms by (auto simp: check_days_def)
  have "- of_int ?n \<le> of_int ?n * ?f" "of_int ?n * ?f \<le> of_int ?n"
    using mult_left_mono [OF f(1), of "of_int ?n"] mult_left_mono [OF f(2), of "of_int ?n"] n(1) by simp_all
  from rnd_within [OF this n] have "- ?n \<le> trunc_int (rnd (of_int ?n * ?f)) \<and> trunc_int (rnd (of_int ?n * ?f)) \<le> ?n"
    by (intro trunc_int_within) auto
  then show ?thesis unfolding jittered_def tenth_of_base [OF assms] by (simp add: abs_le_iff)
qed

lemma lengthen_in:
  "\<lbrakk>fst acc \<in> (\<lambda>d. d * 24 * hour) ` set check_days; days \<in> set check_days\<rbrakk>
    \<Longrightarrow> fst (lengthen days acc) \<in> (\<lambda>d. d * 24 * hour) ` set check_days \<and> fst acc \<le> fst (lengthen days acc)"
  by (cases acc) (auto simp: lengthen_def Let_def)

lemma lengthened_in:
  "\<lbrakk>fst acc \<in> (\<lambda>d. d * 24 * hour) ` set check_days; set ds \<subseteq> set check_days\<rbrakk>
    \<Longrightarrow> fst (fold lengthen ds acc) \<in> (\<lambda>d. d * 24 * hour) ` set check_days \<and> fst acc \<le> fst (fold lengthen ds acc)"
proof (induction ds arbitrary: acc)
  case (Cons d ds)
  from Cons.prems lengthen_in [of acc d] Cons.IH [of "lengthen d acc"] show ?case by force
qed simp

lemma nextUpgradeAt_base:
  assumes "isFallbackProvider s (c_provider_id candidate) \<or> \<not> c_exact_hash candidate"
  shows "nextUpgradeAt s now score candidate - now \<in> (\<lambda>d. d * 24 * hour) ` set check_days"
  using assms by (auto simp: nextUpgradeAt_def NextUpgradeAt_def check_days_def)

lemma missing_delay_day_bounds:
  assumes "0 < attempt"
  shows "6 * hour \<le> MissingDelay fused attempt u" and "MissingDelay fused attempt u \<le> 99 * 24 * hour"
  using MissingDelay_range [OF assms, of fused u] missing_interval_bounds [OF assms] by linarith+

lemma jittered_day_bounds:
  assumes "base \<in> (\<lambda>d. d * 24 * hour) ` set check_days"
  shows "9 * base \<le> 10 * jittered base unit" "6 * hour \<le> jittered base unit" "jittered base unit \<le> 99 * 24 * hour"
proof -
  obtain d where d: "base = d * 24 * hour" "d \<in> set check_days" using assms by auto
  have "\<bar>jittered base unit - base\<bar> \<le> base div 10" using jittered_bounds [OF d(2), of unit] by (simp add: d(1))
  moreover have "7 * 24 * hour \<le> base" "base \<le> 90 * 24 * hour" "10 * (base div 10) = base"
    using d by (auto simp: check_days_def)
  ultimately show "9 * base \<le> 10 * jittered base unit" "6 * hour \<le> jittered base unit" "jittered base unit \<le> 99 * 24 * hour"
    by linarith+
qed

lemma lengthened_check:
  fixes s now score candidate attempt unit
  assumes "isFallbackProvider s (c_provider_id candidate) \<or> \<not> c_exact_hash candidate"
  defines "base \<equiv> nextUpgradeAt s now score candidate - now"
  defines "delay \<equiv> jittered (fst (fold lengthen [14, 30, 60, 90] (base, attempt))) unit"
  shows "9 * base \<le> 10 * delay \<and> 6 * hour \<le> delay \<and> delay \<le> 99 * 24 * hour"
proof -
  have "fst (fold lengthen [14, 30, 60, 90] (base, attempt)) \<in> (\<lambda>d. d * 24 * hour) ` set check_days
      \<and> base \<le> fst (fold lengthen [14, 30, 60, 90] (base, attempt))"
    using lengthened_in [of "(base, attempt)" "[14, 30, 60, 90]"] nextUpgradeAt_base [OF assms(1)]
    by (simp add: base_def check_days_def del: fold_simps)
  with jittered_day_bounds [of "fst (fold lengthen [14, 30, 60, 90] (base, attempt))" unit] show ?thesis
    unfolding delay_def by linarith
qed

text \<open>The two ends of \<open>scheduleUpgrade\<close>, for a result without a recovery time.\<close>

lemma scheduleUpgrade_cases:
  fixes fused s now unit result attempt releasedAt installedAt
  assumes "rs_next_upgrade result \<noteq> zero_time" "\<not> rs_upgrade_recovery result"
  defines "fallback \<equiv> isFallbackProvider s (c_provider_id (rs_candidate result))"
    and "attempt1 \<equiv> (if rs_outcome result \<noteq> OutcomeSatisfied then 0 else attempt)"
  shows "rs_next_upgrade (scheduleUpgrade fused s now unit result attempt releasedAt installedAt) =
    (if fallback \<and> recentRelease s releasedAt now \<and> attempt1 < recentFallbackChecks
     then now + MissingDelay fused (attempt1 + 1) (randomUnit unit)
     else if \<not> fallback \<and> sv_max_upgrade_checks s > 0 \<and> attempt1 \<ge> sv_max_upgrade_checks s then zero_time
     else now + jittered (fst (fold lengthen [14, 30, 60, 90]
            (nextUpgradeAt s now (rs_score result) (rs_candidate result) - now,
             if fallback \<and> recentRelease s releasedAt installedAt then max 0 (attempt1 - recentFallbackChecks)
             else attempt1))) unit)"
  using assms(1,2)
  by (simp add: scheduleUpgrade_def Let_def fallback_def attempt1_def case_prod_beta del: fold_simps)

section \<open>Replacements do not cycle\<close>

text \<open>What installing an accepted candidate leaves behind: its provider and its score, encoded.\<close>

definition installed_from :: "(string \<Rightarrow> Score option) \<Rightarrow> Candidate \<Rightarrow> Score \<Rightarrow> Installation \<Rightarrow> bool" where
  "installed_from decode candidate score installation \<longleftrightarrow>
     in_provider_id installation = c_provider_id candidate
     \<and> installedScore decode installation = Ok (score, c_exact_hash candidate)"

text \<open>A sequence of installations of one media file, newest last, each accepted over the one before it.\<close>

inductive upgrades :: "(string \<Rightarrow> Score option) \<Rightarrow> Service \<Rightarrow> Media \<Rightarrow> int \<Rightarrow> Installation list \<Rightarrow> bool"
  for decode s media best where
  upgrades_first: "\<lbrakk>installed_from decode candidate score i; InstallationMatchesMedia i media;
      c_provider_id candidate \<in> set (preferred_order s) \<union> set (sv_fallback_order s);
      0 \<le> sc_total score; sc_total score \<le> best\<rbrakk> \<Longrightarrow> upgrades decode s media best [i]"
| upgrades_next: "\<lbrakk>upgrades decode s media best (seq @ [i]); shouldUpgrade decode s i media candidate score = Ok True;
      installed_from decode candidate score i'; InstallationMatchesMedia i' media;
      c_provider_id candidate \<in> set (preferred_order s) \<union> set (sv_fallback_order s);
      0 \<le> sc_total score; sc_total score \<le> best\<rbrakk> \<Longrightarrow> upgrades decode s media best (seq @ [i, i'])"

definition upgrade_delta :: "Service \<Rightarrow> int" where
  "upgrade_delta s = (if sv_minimum_upgrade_delta s \<le> 0 then DefaultMinimumUpgradeDelta else sv_minimum_upgrade_delta s)"

text \<open>The rank a replacement raises: the tier, then an exact hash, then the score in steps of the least difference.\<close>

definition install_rank :: "Service \<Rightarrow> int \<Rightarrow> string \<Rightarrow> Score \<Rightarrow> bool \<Rightarrow> int" where
  "install_rank s best provider_id score exact =
     (if provider_id \<in> set (preferred_order s) then best div upgrade_delta s + 2 else 0)
     + (if exact then best div upgrade_delta s + 1 else sc_total score div upgrade_delta s)"

definition rank_of :: "(string \<Rightarrow> Score option) \<Rightarrow> Service \<Rightarrow> int \<Rightarrow> Installation \<Rightarrow> int" where
  "rank_of decode s best i =
     (case installedScore decode i of Err e \<Rightarrow> 0 | Ok (score, exact) \<Rightarrow> install_rank s best (in_provider_id i) score exact)"

lemma upgrade_delta_pos: "0 < upgrade_delta s"
  by (simp add: upgrade_delta_def DefaultMinimumUpgradeDelta_def)

lemma rank_of_from:
  "installed_from decode candidate score i \<Longrightarrow>
    rank_of decode s best i = install_rank s best (c_provider_id candidate) score (c_exact_hash candidate)"
  by (simp add: rank_of_def installed_from_def)

lemma install_rank_bounds:
  assumes "0 \<le> sc_total score" "sc_total score \<le> best"
  shows "0 \<le> install_rank s best p score exact \<and> install_rank s best p score exact < 2 * (best div upgrade_delta s + 2)"
proof -
  have "0 \<le> sc_total score div upgrade_delta s" "sc_total score div upgrade_delta s \<le> best div upgrade_delta s"
    using assms upgrade_delta_pos [of s] by (simp_all add: pos_imp_zdiv_nonneg_iff zdiv_mono1)
  moreover from this have "0 \<le> best div upgrade_delta s" by linarith
  ultimately show ?thesis by (auto simp: install_rank_def)
qed

lemma rank_step:
  assumes up: "shouldUpgrade decode s i media candidate score = Ok True" and m: "InstallationMatchesMedia i media"
    and old: "installedScore decode i = Ok (current, exact)" and prov: "in_provider_id i \<in> P \<union> F"
    and tiers: "set (preferred_order s) = P" "set (sv_fallback_order s) = F" "P \<inter> F = {}" "c_provider_id candidate \<in> P \<union> F"
    and best: "0 \<le> sc_total current" "sc_total current \<le> best" "0 \<le> sc_total score" "sc_total score \<le> best"
  shows "rank_of decode s best i < install_rank s best (c_provider_id candidate) score (c_exact_hash candidate)"
proof -
  let ?d = "upgrade_delta s"
  have b: "0 \<le> sc_total current div ?d" "sc_total current div ?d \<le> best div ?d"
      "0 \<le> sc_total score div ?d" "sc_total score div ?d \<le> best div ?d"
    using best upgrade_delta_pos [of s] by (simp_all add: pos_imp_zdiv_nonneg_iff zdiv_mono1)
  have step: "sc_total current div ?d < sc_total score div ?d" if "sc_total current + ?d \<le> sc_total score"
  proof -
    have "sc_total current div ?d + 1 = (sc_total current + ?d) div ?d" using upgrade_delta_pos [of s] by simp
    also have "\<dots> \<le> sc_total score div ?d" using that upgrade_delta_pos [of s] by (intro zdiv_mono1) auto
    finally show ?thesis by simp
  qed
  consider "in_provider_id i \<in> F" "c_provider_id candidate \<in> P"
    | "in_provider_id i \<in> P \<longleftrightarrow> c_provider_id candidate \<in> P" "\<not> exact"
        "c_exact_hash candidate \<or> sc_total current + ?d \<le> sc_total score"
    using up m old prov tiers
    by (auto simp: shouldUpgrade_def isFallbackProvider_def ShouldUpgrade_def upgrade_delta_def Let_def
        split: if_splits)
  then show ?thesis
  proof cases
    case 1
    then have "in_provider_id i \<notin> P" using tiers(3) by auto
    with 1 b show ?thesis by (auto simp: rank_of_def old install_rank_def tiers)
  next
    case 2
    with b step show ?thesis by (auto simp: rank_of_def old install_rank_def tiers)
  qed
qed

definition chain_ok :: "(string \<Rightarrow> Score option) \<Rightarrow> Service \<Rightarrow> Media \<Rightarrow> int \<Rightarrow> Installation list \<Rightarrow> bool" where
  "chain_ok decode s media best seq \<longleftrightarrow>
     seq \<noteq> [] \<and> sorted_wrt (<) (map (rank_of decode s best) seq)
     \<and> set (map (rank_of decode s best) seq) \<subseteq> {0 ..< 2 * (best div upgrade_delta s + 2)}
     \<and> (\<exists>score exact. installedScore decode (last seq) = Ok (score, exact) \<and> 0 \<le> sc_total score \<and> sc_total score \<le> best)
     \<and> in_provider_id (last seq) \<in> set (preferred_order s) \<union> set (sv_fallback_order s)
     \<and> InstallationMatchesMedia (last seq) media"

lemma upgrades_chain_ok:
  assumes "upgrades decode s media best seq" "set (preferred_order s) \<inter> set (sv_fallback_order s) = {}"
  shows "chain_ok decode s media best seq"
  using assms(1)
proof (induction rule: upgrades.induct)
  case (upgrades_first candidate score i)
  then have "rank_of decode s best i \<in> {0 ..< 2 * (best div upgrade_delta s + 2)}"
    using install_rank_bounds [of score best s] by (simp add: rank_of_from)
  with upgrades_first show ?case by (auto simp: chain_ok_def installed_from_def)
next
  case (upgrades_next seq i candidate score i')
  let ?r = "rank_of decode s best"
  have ok: "chain_ok decode s media best (seq @ [i])" by (rule upgrades_next.IH)
  then obtain current exact where old: "installedScore decode i = Ok (current, exact)"
      "0 \<le> sc_total current" "sc_total current \<le> best"
    by (auto simp: chain_ok_def)
  have "?r i < ?r i'"
    using rank_step [OF upgrades_next.hyps(2) _ old(1) _ refl refl assms(2) upgrades_next.hyps(5) old(2,3)
        upgrades_next.hyps(6,7)] ok rank_of_from [OF upgrades_next.hyps(3)]
    by (simp add: chain_ok_def)
  moreover have "?r i' \<in> {0 ..< 2 * (best div upgrade_delta s + 2)}"
    using install_rank_bounds [OF upgrades_next.hyps(6,7), of s] by (simp add: rank_of_from [OF upgrades_next.hyps(3)])
  ultimately have "sorted_wrt (<) (map ?r (seq @ [i, i']))"
      "set (map ?r (seq @ [i, i'])) \<subseteq> {0 ..< 2 * (best div upgrade_delta s + 2)}"
    using ok by (auto simp: chain_ok_def sorted_wrt_append)
  then show ?case using upgrades_next.hyps by (auto simp: chain_ok_def installed_from_def)
qed

lemma increasing_length:
  fixes xs :: "int list"
  assumes "sorted_wrt (<) xs" "set xs \<subseteq> {0 ..< n}"
  shows "int (length xs) \<le> max 0 n"
proof -
  have "length xs = card (set xs)" using assms(1) by (simp add: distinct_card strict_sorted_iff)
  also have "\<dots> \<le> card {0 ..< n}" using assms(2) by (intro card_mono) auto
  finally show ?thesis by simp
qed

section \<open>Properties\<close>

text \<open>deletions of sidecars of replaced files are bounded in every rolling hour, whatever reservations are made
  and given back: of the deletions granted and not given back, at most twenty fall into any window of one hour.
  And \<open>nextSlot\<close>, to which a deferred search is put off, is exact: a reservation at that time succeeds,
  every one before it is refused, and it is at most one hour away.\<close>

theorem removals_bounded:
  assumes "removal_run b granted clock"
  shows "length (filter (in_window t hour) granted) \<le> 20
    \<and> (\<forall>now. clock \<le> now \<longrightarrow>
         now \<le> nextSlot b now \<and> nextSlot b now \<le> now + hour
         \<and> fst (reserve b (nextSlot b now)) \<and> (\<forall>t'. now \<le> t' \<and> t' < nextSlot b now \<longrightarrow> \<not> fst (reserve b t')))"
proof -
  have ok: "budget_ok b granted clock" using assms by (rule removal_run_ok)
  have "length (filter (in_window t hour) granted) \<le> 20"
    using budget_okD(7) [OF ok, of t] by (simp add: replacedRemovalWindow_def MaxReplacedRemovalsPerHour_def)
  then show ?thesis using nextSlot_exact [OF ok] unfolding replacedRemovalWindow_def by blast
qed

theorem removals_bounded_witness:
  "length (filter (in_window 6 hour) [5]) \<le> 20
    \<and> nextSlot \<lparr>rb_limit = 20, rb_window = hour, rb_taken = [5]\<rparr> 6 \<le> 6 + hour"
proof -
  have "reserve NewReplacedRemovalBudget 5 = (True, \<lparr>rb_limit = 20, rb_window = hour, rb_taken = [5]\<rparr>)"
    by (simp add: reserve_def NewReplacedRemovalBudget_def live_removals_def MaxReplacedRemovalsPerHour_def
        replacedRemovalWindow_def)
  from run_granted [OF run_new [of 3] _ this]
  have "removal_run \<lparr>rb_limit = 20, rb_window = hour, rb_taken = [5]\<rparr> [5] 5" by simp
  from removals_bounded [OF this, of 6] show ?thesis by (simp only: simp_thms)
qed

text \<open>A check for a better subtitle comes back within the schedule, float rounding included: after an assessment
  without a recovery time the next check is at least six hours and at most 99 days away, for a subtitle of a
  preferred provider not sooner than nine tenths of its base interval, and checks end only for a preferred
  provider's subtitle, after the configured number of unchanged assessments.\<close>

theorem upgrade_check_time:
  fixes fused s now unit result attempt releasedAt installedAt
  assumes "0 < now" "0 \<le> attempt" "rs_next_upgrade result \<noteq> zero_time" "\<not> rs_upgrade_recovery result"
    and fb: "isFallbackProvider s (c_provider_id (rs_candidate result)) \<or> \<not> c_exact_hash (rs_candidate result)"
  defines "next_check \<equiv> rs_next_upgrade (scheduleUpgrade fused s now unit result attempt releasedAt installedAt)"
    and "fallback \<equiv> isFallbackProvider s (c_provider_id (rs_candidate result))"
  shows "(next_check = zero_time \<longleftrightarrow>
           \<not> fallback \<and> rs_outcome result = OutcomeSatisfied \<and> 0 < sv_max_upgrade_checks s \<and> sv_max_upgrade_checks s \<le> attempt)
    \<and> (next_check \<noteq> zero_time \<longrightarrow> now + 6 * hour \<le> next_check \<and> next_check \<le> now + 99 * 24 * hour)
    \<and> (next_check \<noteq> zero_time \<and> \<not> fallback \<longrightarrow>
         9 * (nextUpgradeAt s now (rs_score result) (rs_candidate result) - now) \<le> 10 * (next_check - now))"
proof -
  define attempt1 where "attempt1 = (if rs_outcome result \<noteq> OutcomeSatisfied then 0 else attempt)"
  have "0 < attempt1 + 1" using assms(2) by (simp add: attempt1_def)
  note early = missing_delay_day_bounds [OF this, of fused "randomUnit unit"]
  note later = lengthened_check [OF fb, of now "rs_score result" _ unit]
  have ends: "\<not> fallback \<and> sv_max_upgrade_checks s > 0 \<and> attempt1 \<ge> sv_max_upgrade_checks s \<longleftrightarrow>
      \<not> fallback \<and> rs_outcome result = OutcomeSatisfied \<and> 0 < sv_max_upgrade_checks s \<and> sv_max_upgrade_checks s \<le> attempt"
    by (auto simp: attempt1_def)
  note eq = scheduleUpgrade_cases [OF assms(3,4), of fused s now unit attempt releasedAt installedAt,
      folded next_check_def fallback_def attempt1_def]
  show ?thesis
  proof (cases "fallback \<and> recentRelease s releasedAt now \<and> attempt1 < recentFallbackChecks")
    case True
    then have "next_check = now + MissingDelay fused (attempt1 + 1) (randomUnit unit)" using eq by simp
    with True early assms(1) show ?thesis by auto
  next
    case False
    show ?thesis
    proof (cases "\<not> fallback \<and> sv_max_upgrade_checks s > 0 \<and> attempt1 \<ge> sv_max_upgrade_checks s")
      case True
      then have "next_check = 0" using eq False by auto
      with True ends show ?thesis by auto
    next
      case unended: False
      let ?a = "if fallback \<and> recentRelease s releasedAt installedAt then max 0 (attempt1 - recentFallbackChecks) else attempt1"
      have "next_check = now + jittered (fst (fold lengthen [14, 30, 60, 90]
          (nextUpgradeAt s now (rs_score result) (rs_candidate result) - now, ?a))) unit"
        using eq False unended by (simp only: if_False)
      then have b: "now + 6 * hour \<le> next_check" "next_check \<le> now + 99 * 24 * hour"
          "9 * (nextUpgradeAt s now (rs_score result) (rs_candidate result) - now) \<le> 10 * (next_check - now)"
        using later [of ?a] by simp_all
      then have "next_check \<noteq> 0" using assms(1) by auto
      with b unended ends show ?thesis by blast
    qed
  qed
qed

definition sample_service :: Service where
  "sample_service =
     \<lparr>sv_provider_order = [''a'', ''b''], sv_preferred_order = Some [''a''], sv_fallback_order = [''b''],
      sv_has_fallback_searcher = True, sv_minimum_upgrade_delta = 10, sv_max_upgrade_checks = 5,
      sv_aged_after = 100 * hour, sv_allow_hearing_impaired = False\<rparr>"

definition sample_result :: Result where
  "sample_result = zero_result\<lparr>rs_outcome := OutcomeSatisfied, rs_candidate := zero_candidate\<lparr>c_provider_id := ''a''\<rparr>,
     rs_score := zero_score\<lparr>sc_total := 90\<rparr>, rs_next_upgrade := 77\<rparr>"

theorem upgrade_check_time_witness:
  "rs_next_upgrade (scheduleUpgrade True sample_service hour 1 sample_result 5 zero_time zero_time) = zero_time
    \<and> rs_next_upgrade (scheduleUpgrade True sample_service hour 1 sample_result 4 zero_time zero_time) \<noteq> zero_time"
  using upgrade_check_time [of hour 5 sample_result sample_service True 1 0 0]
    upgrade_check_time [of hour 4 sample_result sample_service True 1 0 0]
  by (simp add: sample_result_def sample_service_def isFallbackProvider_def zero_candidate_def zero_result_def)

text \<open>replacements of one media file's subtitle do not cycle. In a sequence of installations each accepted over
  the one before, the tier, the exact hash and the score strictly rise, so the sequence has at most two
  entries for every step of the least difference and two more per tier.\<close>

theorem upgrade_chain_bounded:
  assumes "upgrades decode s media best seq" "set (preferred_order s) \<inter> set (sv_fallback_order s) = {}"
  shows "sorted_wrt (<) (map (rank_of decode s best) seq) \<and> int (length seq) \<le> 2 * (best div upgrade_delta s + 2)"
proof -
  have ok: "chain_ok decode s media best seq" using assms by (rule upgrades_chain_ok)
  then have "int (length (map (rank_of decode s best) seq)) \<le> max 0 (2 * (best div upgrade_delta s + 2))"
    unfolding chain_ok_def by (intro increasing_length) auto
  moreover have "0 < 2 * (best div upgrade_delta s + 2)"
    using ok unfolding chain_ok_def by (cases "seq") auto
  ultimately show ?thesis using ok by (simp add: chain_ok_def)
qed

lemma sample_upgrade:
  fixes old new
  defines "old \<equiv> zero_installation\<lparr>in_provider_id := ''b''\<rparr>" and "new \<equiv> zero_installation\<lparr>in_provider_id := ''a''\<rparr>"
    and "media \<equiv> zero_media\<lparr>m_fingerprint := \<lparr>fp_path = [], fp_file_id = 0, fp_size = 0, fp_mod_time = unix_epoch\<rparr>\<rparr>"
  shows "upgrades (\<lambda>j. Some zero_score) sample_service media 100 [old, new]"
proof -
  let ?c = "\<lambda>p. zero_candidate\<lparr>c_provider_id := p\<rparr>" and ?d = "\<lambda>j. Some zero_score"
  have fr: "installed_from ?d (?c ''b'') zero_score old" "installed_from ?d (?c ''a'') zero_score new"
    by (simp_all add: installed_from_def installedScore_def old_def new_def zero_installation_def zero_candidate_def)
  have m: "InstallationMatchesMedia old media" "InstallationMatchesMedia new media"
    by (simp_all add: InstallationMatchesMedia_def old_def new_def media_def zero_media_def zero_installation_def unix_nano_def)
  have "shouldUpgrade ?d sample_service old media (?c ''a'') zero_score = Ok True"
    using m by (simp add: shouldUpgrade_def isFallbackProvider_def preferred_order_def sample_service_def old_def
        zero_installation_def zero_candidate_def)
  moreover have "upgrades ?d sample_service media 100 ([] @ [old])"
    using upgrades_first [OF fr(1) m(1), of sample_service 100]
    by (simp add: sample_service_def zero_candidate_def zero_score_def)
  ultimately have "upgrades ?d sample_service media 100 ([] @ [old, new])"
    using fr(2) m(2) by (intro upgrades_next [of _ _ _ _ _ _ "?c ''a''" zero_score])
      (simp_all add: preferred_order_def sample_service_def zero_candidate_def zero_score_def)
  then show ?thesis by simp
qed

theorem upgrade_chain_bounded_witness:
  "rank_of (\<lambda>j. Some zero_score) sample_service 100 (zero_installation\<lparr>in_provider_id := ''b''\<rparr>)
    < rank_of (\<lambda>j. Some zero_score) sample_service 100 (zero_installation\<lparr>in_provider_id := ''a''\<rparr>)"
  using upgrade_chain_bounded [OF sample_upgrade] by (simp add: preferred_order_def sample_service_def)

end
