(* ===== verification/Outages.thy ===== *)
theory Outages
  imports Upgrade Provider_Gate
begin

text \<open>
  Providers that cannot be used for a while, as the workflow sees them: the classification of failures and the retry
  times taken from them (\<open>src/internal/workflow/service.go\<close>, \<open>provider_tiers.go\<close>), and the pause of a whole
  language route (\<open>route_availability.go\<close>) over the preflight checks of \<open>provider/availability.go\<close>. A Go map of
  errors is a list of pairs in the order its range visits them.
\<close>

section \<open>What a failure says\<close>

text \<open>\<open>errors.As\<close>: the first error of the tree that satisfies the test, depth first.\<close>

fun errors_find :: "(provider_error \<Rightarrow> bool) \<Rightarrow> provider_error \<Rightarrow> provider_error option" where
  "errors_find p (Wrapped msg e) = (if p (Wrapped msg e) then Some (Wrapped msg e) else errors_find p e)"
| "errors_find p (AvailabilityError e) = (if p (AvailabilityError e) then Some (AvailabilityError e) else errors_find p e)"
| "errors_find p (SearchPersistenceError e) =
     (if p (SearchPersistenceError e) then Some (SearchPersistenceError e) else errors_find p e)"
| "errors_find p e = (if p e then Some e else None)"

fun workflow_find :: "(provider_error \<Rightarrow> bool) \<Rightarrow> workflow_error \<Rightarrow> provider_error option"
  and workflow_find_list :: "(provider_error \<Rightarrow> bool) \<Rightarrow> workflow_error list \<Rightarrow> provider_error option" where
  "workflow_find p (WProvider e) = errors_find p e"
| "workflow_find p (WExhausted es) = workflow_find_list p es"
| "workflow_find p (WJoined es) = workflow_find_list p es"
| "workflow_find p (WContent e) = workflow_find p e"
| "workflow_find p (WMediaUnavailable missing e) = workflow_find p e"
| "workflow_find p (WWrapped msg e) = workflow_find p e"
| "workflow_find p (WCandidate e) = None"
| "workflow_find p WContext = None"
| "workflow_find p (WOther msg) = None"
| "workflow_find_list p [] = None"
| "workflow_find_list p (e # es) =
     (case workflow_find p e of Some found \<Rightarrow> Some found | None \<Rightarrow> workflow_find_list p es)"

text \<open>The reset and whether the failure is an unavailability.\<close>

definition unavailableReset :: "workflow_error \<Rightarrow> gotime \<times> bool" where
  "unavailableReset failure =
     (case workflow_find is_cooldown failure of
        Some e \<Rightarrow> (ce_reset_at e, True)
      | None \<Rightarrow> (case workflow_find is_quota failure of
            Some e \<Rightarrow> (qe_reset_at e, True)
          | None \<Rightarrow> (case workflow_find is_disabled failure of
                Some e \<Rightarrow> (zero_time, True)
              | None \<Rightarrow> (zero_time, False))))"

definition earlier_reset :: "gotime \<Rightarrow> gotime \<Rightarrow> gotime" where
  "earlier_reset reset earliest =
     (if \<not> is_zero_time reset \<and> (is_zero_time earliest \<or> reset < earliest) then reset else earliest)"

fun unavailable_scan :: "workflow_error list \<Rightarrow> gotime \<Rightarrow> gotime \<times> bool" where
  "unavailable_scan [] earliest = (earliest, True)"
| "unavailable_scan (failure # failures) earliest =
     (let (reset, unavailable) = unavailableReset failure
      in if \<not> unavailable then (zero_time, False) else unavailable_scan failures (earlier_reset reset earliest))"

definition unavailableErrors :: "workflow_error list \<Rightarrow> gotime \<times> bool" where
  "unavailableErrors failures =
     (if failures = [] then (zero_time, False) else unavailable_scan failures zero_time)"

definition allProvidersUnavailable :: "(string \<times> workflow_error) list \<Rightarrow> int \<Rightarrow> gotime \<times> bool" where
  "allProvidersUnavailable failures expected =
     (if failures = [] \<or> expected > 0 \<and> int (length failures) < expected then (zero_time, False)
      else unavailableErrors (map snd failures))"

definition skippedProviderRetry :: "(string \<times> workflow_error) list \<Rightarrow> bool \<Rightarrow> gotime \<times> bool" where
  "skippedProviderRetry failures installed =
     (if installed then (zero_time, False)
      else
        let earliest = fold (\<lambda>failure earliest.
              let (reset, unavailable) = unavailableReset (snd failure)
              in if unavailable then earlier_reset reset earliest else earliest) failures zero_time
        in (earliest, \<not> is_zero_time earliest))"

text \<open>The result, the error, and whether the failures decided the outcome.\<close>

definition classifyCandidateFailures ::
  "Result \<Rightarrow> workflow_error list \<Rightarrow> Result \<times> workflow_error option \<times> bool" where
  "classifyCandidateFailures result failures =
     (if failures = [] then (result, None, False)
      else
        let (retry, unavailable) = unavailableErrors failures
        in if unavailable then (result\<lparr>rs_outcome := OutcomeThrottled, rs_retry_at := retry\<rparr>, None, True)
           else (result, Some (WExhausted failures), True))"

definition consider_reset :: "gotime \<Rightarrow> gotime \<Rightarrow> gotime \<Rightarrow> gotime" where
  "consider_reset now reset next = (if reset > now \<and> reset < next then reset else next)"

definition preferredRetryAt :: "Result \<Rightarrow> gotime \<Rightarrow> gotime \<Rightarrow> gotime" where
  "preferredRetryAt result now next =
     fold (\<lambda>failure next.
         let (reset, unavailable) = unavailableErrors [snd failure]
         in if unavailable then consider_reset now reset next else next)
       (rs_provider_errors result) (consider_reset now (rs_retry_at result) next)"

definition searchPersistenceFailure :: "(string \<times> provider_error) list \<Rightarrow> workflow_error option" where
  "searchPersistenceFailure failures =
     (let found = filter (\<lambda>e. errors_as is_search_persistence e \<or> errors_as is_availability e) (map snd failures)
      in if found = [] then None else Some (WJoined (map WProvider found)))"

section \<open>Providers of a route\<close>

record Capabilities =
  cap_media_kinds :: "media_kind list"
  cap_exact_file_hash :: bool
  cap_season_packs :: bool
  cap_direct_pack_member :: bool
  cap_single_episode_only :: bool

text \<open>
  An adapter: its identity, capabilities and languages, the version of its searches (empty when it has none), and
  whether it implements the preflights.
\<close>

record adapter =
  ad_id :: string
  ad_capabilities :: Capabilities
  ad_supports_language :: "language \<Rightarrow> bool"
  ad_search_cache_version :: string
  ad_checks_download :: bool
  ad_checks_search :: bool

definition SupportsMediaKind :: "adapter \<Rightarrow> media_kind \<Rightarrow> bool" where
  "SupportsMediaKind p kind =
     (let kinds = cap_media_kinds (ad_capabilities p)
      in if kinds = [] then True else kind \<in> set kinds)"

definition SupportsMedia :: "adapter \<Rightarrow> Media \<Rightarrow> bool" where
  "SupportsMedia p media =
     (if \<not> SupportsMediaKind p (ref_kind (m_ref media)) then False
      else \<not> IsEpisodeRange media \<or> \<not> cap_single_episode_only (ad_capabilities p))"

text \<open>\<open>CheckDownloadAvailability\<close> of the package, around the adapter's own check.\<close>

definition adapter_CheckDownload :: "provider_error option \<Rightarrow> adapter \<Rightarrow> provider_error option \<Rightarrow> provider_error option" where
  "adapter_CheckDownload ctx_err p checked =
     (case ctx_err of Some e \<Rightarrow> Some e
      | None \<Rightarrow> if ad_checks_download p then classifyAvailabilityError checked else None)"

definition adapter_CheckSearch :: "provider_error option \<Rightarrow> adapter \<Rightarrow> provider_error option \<Rightarrow> provider_error option" where
  "adapter_CheckSearch ctx_err p checked =
     (case ctx_err of Some e \<Rightarrow> Some e
      | None \<Rightarrow> if ad_checks_search p then classifyAvailabilityError checked else None)"

record RouteStatus =
  rt_paused :: bool
  rt_reset_at :: gotime
  rt_provider_count :: int
  rt_ranges_paused :: bool
  rt_ranges_reset_at :: gotime

definition zero_route_status :: RouteStatus where
  "zero_route_status = \<lparr>rt_paused = False, rt_reset_at = zero_time, rt_provider_count = 0, rt_ranges_paused = False,
     rt_ranges_reset_at = zero_time\<rparr>"

record routeAvailability =
  ra_count :: int
  ra_available :: bool
  ra_reset_at :: gotime

definition zero_availability :: routeAvailability where
  "zero_availability = \<lparr>ra_count = 0, ra_available = False, ra_reset_at = zero_time\<rparr>"

definition add_availability :: "routeAvailability \<Rightarrow> gotime \<Rightarrow> bool \<Rightarrow> routeAvailability" where
  "add_availability a reset available =
     (let b = a\<lparr>ra_count := ra_count a + 1\<rparr>
      in if available then b\<lparr>ra_available := True\<rparr>
         else b\<lparr>ra_reset_at := earlier_reset reset (ra_reset_at a)\<rparr>)"

definition paused :: "routeAvailability \<Rightarrow> bool" where
  "paused a \<longleftrightarrow> ra_count a > 0 \<and> \<not> ra_available a"

text \<open>The loop of \<open>RouteAvailability\<close>; \<open>check\<close> is the adapter's own preflight and \<open>ctx_err\<close> the error
  of the context, each when the loop reaches the provider.\<close>

fun route_scan ::
  "(string \<rightharpoonup> adapter) \<Rightarrow> (string \<Rightarrow> provider_error option) \<Rightarrow> (string \<Rightarrow> provider_error option) \<Rightarrow> media_kind \<Rightarrow> string list
   \<Rightarrow> routeAvailability \<times> routeAvailability \<Rightarrow> (provider_error, routeAvailability \<times> routeAvailability) result" where
  "route_scan providers ctx_err check kind [] acc = Ok acc"
| "route_scan providers ctx_err check kind (id' # ids) acc =
     (case providers id' of
        None \<Rightarrow> route_scan providers ctx_err check kind ids acc
      | Some item \<Rightarrow>
          if \<not> SupportsMediaKind item kind then route_scan providers ctx_err check kind ids acc
          else
            let err = adapter_CheckDownload (ctx_err id') item (check id');
                (reset, unavailable) = (case err of None \<Rightarrow> (zero_time, False) | Some e \<Rightarrow> unavailableReset (WProvider e))
            in if err \<noteq> None \<and> \<not> unavailable then Err (the err)
               else
                 let all' = add_availability (fst acc) reset (err = None);
                     ranges' = (if kind = MediaEpisode \<and> \<not> cap_single_episode_only (ad_capabilities item)
                                then add_availability (snd acc) reset (err = None) else snd acc)
                 in route_scan providers ctx_err check kind ids (all', ranges'))"

definition route_status :: "routeAvailability \<Rightarrow> routeAvailability \<Rightarrow> RouteStatus" where
  "route_status all' ranges =
     (if paused all'
      then zero_route_status\<lparr>rt_paused := True, rt_reset_at := ra_reset_at all', rt_provider_count := ra_count all'\<rparr>
      else if paused ranges
      then zero_route_status\<lparr>rt_ranges_paused := True, rt_ranges_reset_at := ra_reset_at ranges, rt_provider_count := ra_count ranges\<rparr>
      else zero_route_status)"

definition RouteAvailability ::
  "Service \<Rightarrow> (string \<rightharpoonup> adapter) \<Rightarrow> (string \<Rightarrow> provider_error option) \<Rightarrow> (string \<Rightarrow> provider_error option) \<Rightarrow> media_kind
   \<Rightarrow> (provider_error, RouteStatus) result" where
  "RouteAvailability s providers ctx_err check kind =
     (case route_scan providers ctx_err check kind (sv_provider_order s @ sv_fallback_order s) (zero_availability, zero_availability) of
        Err e \<Rightarrow> Err e
      | Ok (all', ranges) \<Rightarrow> Ok (route_status all' ranges))"

end
