(* ===== verification/Outage_Props.thy ===== *)
theory Outage_Props
  imports Outages
begin

text \<open>
  The pause of a route follows the provider states. The interface between the two is the locale \<open>preflight\<close>: a
  provider is off for good, or cools down until a time, and its check says which. The client lemmas on
  \<open>RouteAvailability\<close> are proved in the locale; the gate's \<open>CheckDownloadAvailability\<close> interprets it.
\<close>

section \<open>The earliest reset\<close>

definition earliest :: "gotime set \<Rightarrow> gotime" where
  "earliest resets = (if resets - {0} = {} then 0 else Min (resets - {0}))"

lemma earliest_nonzero: "\<lbrakk>finite R; r \<in> R; r \<noteq> 0\<rbrakk> \<Longrightarrow> earliest R = Min (R - {0}) \<and> Min (R - {0}) \<in> R - {0}"
  using Min_in [of "R - {0}"] by (auto simp: earliest_def)

lemma earlier_reset_earliest:
  assumes "finite R"
  shows "earlier_reset reset (earliest R) = earliest (insert reset R)"
proof (cases "R - {0} = {}")
  case True
  then have "insert reset R - {0} = {reset} - {0}" by auto
  with True show ?thesis by (auto simp: earlier_reset_def earliest_def)
next
  case False
  then obtain r where "r \<in> R" "r \<noteq> 0" by auto
  note m = earliest_nonzero [OF assms this]
  show ?thesis
  proof (cases "reset = 0")
    case True
    then have "insert reset R - {0} = R - {0}" by auto
    then show ?thesis by (simp add: earlier_reset_def earliest_def True)
  next
    case nz: False
    then have "earliest (insert reset R) = Min (insert reset (R - {0}))" by (simp add: earliest_def insert_Diff_if)
    also have "\<dots> = min reset (Min (R - {0}))" using assms False by (intro Min_insert) auto
    finally show ?thesis using m nz by (auto simp: earlier_reset_def min_def)
  qed
qed

lemma earliest_le: "\<lbrakk>finite R; r \<in> R; r \<noteq> 0\<rbrakk> \<Longrightarrow> earliest R \<le> r"
  using earliest_nonzero [of R r] by simp

lemma earliest_in: "\<lbrakk>finite R; earliest R \<noteq> 0\<rbrakk> \<Longrightarrow> earliest R \<in> R"
  using Min_in [of "R - {0}"] by (auto simp: earliest_def split: if_splits)

lemma earliest_empty [simp]: "earliest {} = 0"
  by (simp add: earliest_def)

section \<open>The interface of the preflight\<close>

text \<open>The condition of a provider: disabled, unreadable, or cooling down until a time (in the past when it is free).\<close>

datatype condition = Off | Broken provider_error | Until gotime

locale preflight =
  fixes check :: "gotime \<Rightarrow> string \<Rightarrow> provider_error option"
    and cond :: "string \<Rightarrow> condition"
  assumes check_off: "cond i = Off \<Longrightarrow> \<exists>b p r. check t i = Some (DisabledError b p r)"
    and check_broken: "cond i = Broken e \<Longrightarrow> check t i = Some e \<and> \<not> snd (unavailableReset (WProvider e))"
    and check_cooling: "\<lbrakk>cond i = Until u; 0 \<le> t; t < u\<rbrakk> \<Longrightarrow> \<exists>b p sc r. check t i = Some (CooldownError b p sc r u)"
    and check_free: "\<lbrakk>cond i = Until u; 0 \<le> t; u \<le> t\<rbrakk> \<Longrightarrow> check t i = None"
begin

text \<open>Whether a provider is available at a time, the reset it reports otherwise, and whether it cannot be read.\<close>

definition up :: "(string \<rightharpoonup> adapter) \<Rightarrow> gotime \<Rightarrow> string \<Rightarrow> bool" where
  "up providers t i \<longleftrightarrow> \<not> ad_checks_download (the (providers i)) \<or> (\<exists>u. cond i = Until u \<and> u \<le> t)"

definition down_reset :: "string \<Rightarrow> gotime" where
  "down_reset i = (case cond i of Until u \<Rightarrow> u | _ \<Rightarrow> 0)"

definition unreadable :: "(string \<rightharpoonup> adapter) \<Rightarrow> string \<Rightarrow> bool" where
  "unreadable providers i \<longleftrightarrow> ad_checks_download (the (providers i)) \<and> (\<exists>e. cond i = Broken e)"

lemma checked_up:
  "\<lbrakk>providers i = Some item; 0 \<le> t; up providers t i\<rbrakk> \<Longrightarrow> adapter_CheckDownload None item (check t i) = None"
  using check_free by (auto simp: up_def adapter_CheckDownload_def classifyAvailabilityError_def)

lemma checked_down:
  assumes "providers i = Some item" "0 \<le> t" "\<not> up providers t i" "\<not> unreadable providers i"
  shows "\<exists>e. adapter_CheckDownload None item (check t i) = Some e \<and> unavailableReset (WProvider e) = (down_reset i, True)"
proof (cases "cond i")
  case Off
  with check_off [OF Off, of t] assms show ?thesis
    by (auto simp: up_def adapter_CheckDownload_def classifyAvailabilityError_def unavailableReset_def down_reset_def)
next
  case (Broken e)
  with assms show ?thesis by (simp add: up_def unreadable_def)
next
  case (Until u)
  with assms have "t < u" "ad_checks_download item" by (auto simp: up_def)
  with check_cooling [OF Until assms(2)] Until show ?thesis
    by (auto simp: adapter_CheckDownload_def classifyAvailabilityError_def unavailableReset_def down_reset_def)
qed

lemma find_classified:
  "\<not> snd (unavailableReset (WProvider e)) \<Longrightarrow> classifyAvailabilityError (Some e) = Some e'
    \<Longrightarrow> \<not> snd (unavailableReset (WProvider e'))"
  by (auto simp: classifyAvailabilityError_def unavailableReset_def split: option.splits if_splits)

lemma checked_broken:
  assumes "providers i = Some item" "unreadable providers i"
  shows "\<exists>e. adapter_CheckDownload None item (check t i) = Some e \<and> \<not> snd (unavailableReset (WProvider e))"
proof -
  obtain e where e: "cond i = Broken e" "ad_checks_download item" using assms by (auto simp: unreadable_def)
  have c: "check t i = Some e" "\<not> snd (unavailableReset (WProvider e))" using check_broken [OF e(1), of t] by auto
  obtain e' where e': "classifyAvailabilityError (Some e) = Some e'"
    by (cases "classifyAvailabilityError (Some e)") (auto simp: classifyAvailabilityError_def split: if_splits)
  with find_classified [OF c(2) e'] c(1) e(2) show ?thesis by (auto simp: adapter_CheckDownload_def)
qed

definition add_provider :: "(string \<rightharpoonup> adapter) \<Rightarrow> gotime \<Rightarrow> string \<Rightarrow> routeAvailability \<Rightarrow> routeAvailability" where
  "add_provider providers t i a =
     add_availability a (if up providers t i then 0 else down_reset i) (up providers t i)"

definition serves :: "(string \<rightharpoonup> adapter) \<Rightarrow> media_kind \<Rightarrow> string \<Rightarrow> bool" where
  "serves providers kind i \<longleftrightarrow> (\<exists>item. providers i = Some item \<and> SupportsMediaKind item kind)"

definition serves_ranges :: "(string \<rightharpoonup> adapter) \<Rightarrow> media_kind \<Rightarrow> string \<Rightarrow> bool" where
  "serves_ranges providers kind i \<longleftrightarrow>
     serves providers kind i \<and> kind = MediaEpisode \<and> \<not> cap_single_episode_only (ad_capabilities (the (providers i)))"

text \<open>One turn of the loop, for a provider that serves the kind.\<close>

lemma route_scan_turn:
  assumes "0 \<le> t" "serves providers kind i"
  shows "unreadable providers i \<Longrightarrow> \<exists>e. route_scan providers (\<lambda>_. None) (check t) kind (i # ids) acc = Err e"
    and "\<not> unreadable providers i \<Longrightarrow> route_scan providers (\<lambda>_. None) (check t) kind (i # ids) acc =
      route_scan providers (\<lambda>_. None) (check t) kind ids
        (add_provider providers t i (fst acc),
         if serves_ranges providers kind i then add_provider providers t i (snd acc) else snd acc)"
proof -
  obtain item where item: "providers i = Some item" "SupportsMediaKind item kind" using assms(2) by (auto simp: serves_def)
  let ?err = "adapter_CheckDownload None item (check t i)"
  show "\<exists>e. route_scan providers (\<lambda>_. None) (check t) kind (i # ids) acc = Err e" if "unreadable providers i"
    using checked_broken [of providers, OF item(1) that, of t] item by (auto simp: Let_def case_prod_beta)
  assume r: "\<not> unreadable providers i"
  have "?err = None \<and> up providers t i
      \<or> (\<exists>e. ?err = Some e \<and> unavailableReset (WProvider e) = (down_reset i, True)) \<and> \<not> up providers t i"
    using checked_up [of providers i item t] checked_down [of providers i item t] item assms(1) r by blast
  with item show "route_scan providers (\<lambda>_. None) (check t) kind (i # ids) acc =
      route_scan providers (\<lambda>_. None) (check t) kind ids
        (add_provider providers t i (fst acc),
         if serves_ranges providers kind i then add_provider providers t i (snd acc) else snd acc)"
    by (auto simp: add_provider_def serves_ranges_def serves_def Let_def)
qed

lemma route_scan_skip:
  "\<not> serves providers kind i \<Longrightarrow>
    route_scan providers ctx_err (check t) kind (i # ids) acc = route_scan providers ctx_err (check t) kind ids acc"
  by (auto simp: serves_def split: option.split)

lemma route_scan_ok:
  assumes "0 \<le> t" "\<forall>i \<in> set ids. serves providers kind i \<longrightarrow> \<not> unreadable providers i"
  shows "route_scan providers (\<lambda>_. None) (check t) kind ids acc =
    Ok (fold (add_provider providers t) (filter (serves providers kind) ids) (fst acc),
        fold (add_provider providers t) (filter (serves_ranges providers kind) ids) (snd acc))"
  using assms(2)
proof (induction ids arbitrary: acc)
  case (Cons i ids)
  show ?case
  proof (cases "serves providers kind i")
    case True
    with route_scan_turn(2) [OF assms(1) True, of ids acc] Cons show ?thesis by simp
  next
    case False
    then have "\<not> serves_ranges providers kind i" by (simp add: serves_ranges_def)
    with route_scan_skip [OF False, of "\<lambda>_. None" t ids acc] False Cons show ?thesis by simp
  qed
qed simp

lemma route_scan_err:
  assumes "0 \<le> t" "\<exists>i \<in> set ids. serves providers kind i \<and> unreadable providers i"
  shows "\<exists>e. route_scan providers (\<lambda>_. None) (check t) kind ids acc = Err e"
  using assms(2)
proof (induction ids arbitrary: acc)
  case (Cons i ids)
  show ?case
  proof (cases "serves providers kind i")
    case True
    show ?thesis
      by (cases "unreadable providers i")
        (use route_scan_turn [OF assms(1) True, of ids acc] Cons in auto)
  next
    case False
    with route_scan_skip [OF False, of "\<lambda>_. None" t ids acc] Cons show ?thesis by simp
  qed
qed simp

text \<open>What the loop has collected at its end.\<close>

definition collected :: "(string \<rightharpoonup> adapter) \<Rightarrow> gotime \<Rightarrow> string list \<Rightarrow> routeAvailability" where
  "collected providers t L = \<lparr>ra_count = int (length L), ra_available = (\<exists>i \<in> set L. up providers t i),
     ra_reset_at = earliest (down_reset ` {i \<in> set L. \<not> up providers t i})\<rparr>"

lemma collected_snoc: "add_provider providers t i (collected providers t L) = collected providers t (L @ [i])"
proof (cases "up providers t i")
  case True
  then have "{j. (j = i \<or> j \<in> set L) \<and> \<not> up providers t j} = {j \<in> set L. \<not> up providers t j}" by auto
  with True show ?thesis by (simp add: collected_def add_provider_def add_availability_def Let_def)
next
  case False
  then have "{j. (j = i \<or> j \<in> set L) \<and> \<not> up providers t j} = insert i {j \<in> set L. \<not> up providers t j}" by auto
  with False show ?thesis
    by (simp add: collected_def add_provider_def add_availability_def Let_def earlier_reset_earliest)
qed

lemma fold_collected: "fold (add_provider providers t) L zero_availability = collected providers t L"
proof (induction L rule: rev_induct)
  case Nil
  show ?case by (simp add: collected_def zero_availability_def)
qed (simp add: collected_snoc)

lemma paused_collected: "paused (collected providers t L) \<longleftrightarrow> L \<noteq> [] \<and> (\<forall>i \<in> set L. \<not> up providers t i)"
  by (auto simp: paused_def collected_def)

definition status_at :: "(string \<rightharpoonup> adapter) \<Rightarrow> media_kind \<Rightarrow> string list \<Rightarrow> gotime \<Rightarrow> RouteStatus" where
  "status_at providers kind ids t =
     route_status (collected providers t (filter (serves providers kind) ids))
       (collected providers t (filter (serves_ranges providers kind) ids))"

lemma RouteAvailability_closed:
  assumes "0 \<le> t"
  shows "RouteAvailability s providers (\<lambda>_. None) (check t) kind = Ok st \<longleftrightarrow>
    (\<forall>i \<in> set (sv_provider_order s @ sv_fallback_order s). serves providers kind i \<longrightarrow> \<not> unreadable providers i)
    \<and> st = status_at providers kind (sv_provider_order s @ sv_fallback_order s) t"
proof (cases "\<forall>i \<in> set (sv_provider_order s @ sv_fallback_order s). serves providers kind i \<longrightarrow> \<not> unreadable providers i")
  case True
  then show ?thesis unfolding RouteAvailability_def route_scan_ok [OF assms True]
    by (auto simp: status_at_def fold_collected simp del: set_append fold_append filter_append)
next
  case False
  then obtain e where "route_scan providers (\<lambda>_. None) (check t) kind (sv_provider_order s @ sv_fallback_order s)
      (zero_availability, zero_availability) = Err e"
    using route_scan_err [OF assms, of "sv_provider_order s @ sv_fallback_order s" providers kind] by blast
  with False show ?thesis by (simp add: RouteAvailability_def del: set_append)
qed

lemma up_later: "\<lbrakk>up providers t i; t \<le> t'\<rbrakk> \<Longrightarrow> up providers t' i"
  by (auto simp: up_def)

lemma down_until: "\<lbrakk>\<not> up providers t i; t' < down_reset i \<or> down_reset i = 0; 0 < t\<rbrakk> \<Longrightarrow> \<not> up providers t' i"
  by (auto simp: up_def down_reset_def split: condition.splits)

lemma down_reset_later: "\<lbrakk>\<not> up providers t i; down_reset i \<noteq> 0; 0 < t\<rbrakk> \<Longrightarrow> t < down_reset i \<and> up providers (down_reset i) i"
  by (auto simp: up_def down_reset_def split: condition.splits)

text \<open>A pause holds exactly until the earliest reset.\<close>

lemma pause_exact:
  fixes L
  assumes "0 < now" and paused: "paused (collected providers now L)"
  defines "r \<equiv> ra_reset_at (collected providers now L)"
  shows "\<lbrakk>now \<le> t; t < r \<or> r = 0\<rbrakk> \<Longrightarrow> collected providers t L = collected providers now L"
    and "r \<noteq> 0 \<Longrightarrow> now < r \<and> \<not> paused (collected providers r L)"
proof -
  have down: "\<forall>i \<in> set L. \<not> up providers now i" using paused by (simp add: paused_collected)
  then have all: "{i \<in> set L. \<not> up providers now i} = set L" by auto
  then have r: "r = earliest (down_reset ` set L)" by (simp add: r_def collected_def)
  show "collected providers t L = collected providers now L" if t: "now \<le> t" "t < r \<or> r = 0"
  proof -
    have "\<not> up providers t i" if i: "i \<in> set L" for i
    proof -
      have "t < down_reset i \<or> down_reset i = 0"
      proof (cases "down_reset i = 0")
        case False
        then have "r \<le> down_reset i" "r \<noteq> 0"
          using i earliest_le [of "down_reset ` set L" "down_reset i"] earliest_nonzero [of "down_reset ` set L" "down_reset i"]
          by (auto simp: r)
        with t show ?thesis by auto
      qed simp
      with down_until [of providers now i t] down i assms(1) show ?thesis by simp
    qed
    then show ?thesis using down by (simp add: collected_def cong: conj_cong)
  qed
  show "now < r \<and> \<not> paused (collected providers r L)" if "r \<noteq> 0"
  proof -
    have "r \<in> down_reset ` set L" using earliest_in [of "down_reset ` set L"] that unfolding r by simp
    then obtain i where "i \<in> set L" "r = down_reset i" by auto
    with down_reset_later [of providers now i] down assms(1) that show ?thesis by (auto simp: paused_collected)
  qed
qed

lemma unpaused_later: "\<lbrakk>\<not> paused (collected providers now L); now \<le> t\<rbrakk> \<Longrightarrow> \<not> paused (collected providers t L)"
  by (auto simp: paused_collected intro: up_later)

lemma paused_status_exact:
  assumes "0 < now" "rt_paused (status_at providers kind ids now)"
  shows "\<lbrakk>now \<le> t; t < rt_reset_at (status_at providers kind ids now) \<or> rt_reset_at (status_at providers kind ids now) = 0\<rbrakk>
      \<Longrightarrow> rt_paused (status_at providers kind ids t)
        \<and> rt_reset_at (status_at providers kind ids t) = rt_reset_at (status_at providers kind ids now)"
    and "rt_reset_at (status_at providers kind ids now) \<noteq> 0
      \<Longrightarrow> now < rt_reset_at (status_at providers kind ids now)
        \<and> \<not> rt_paused (status_at providers kind ids (rt_reset_at (status_at providers kind ids now)))"
proof -
  let ?L = "filter (serves providers kind) ids"
  have p: "paused (collected providers now ?L)"
    using assms(2) by (simp add: status_at_def route_status_def zero_route_status_def split: if_splits)
  have st: "rt_paused (status_at providers kind ids t) \<longleftrightarrow> paused (collected providers t ?L)"
      "paused (collected providers t ?L) \<Longrightarrow> rt_reset_at (status_at providers kind ids t) = ra_reset_at (collected providers t ?L)" for t
    by (simp_all add: status_at_def route_status_def zero_route_status_def)
  show "rt_paused (status_at providers kind ids t)
        \<and> rt_reset_at (status_at providers kind ids t) = rt_reset_at (status_at providers kind ids now)"
    if "now \<le> t" "t < rt_reset_at (status_at providers kind ids now) \<or> rt_reset_at (status_at providers kind ids now) = 0"
    using pause_exact(1) [OF assms(1) p that(1)] that(2) p st by simp
  show "now < rt_reset_at (status_at providers kind ids now)
        \<and> \<not> rt_paused (status_at providers kind ids (rt_reset_at (status_at providers kind ids now)))"
    if "rt_reset_at (status_at providers kind ids now) \<noteq> 0"
    using pause_exact(2) [OF assms(1) p] that p st by simp
qed

end

section \<open>The gate as the preflight\<close>

text \<open>The condition the stored states of a provider amount to, over the scopes a check reads.\<close>

fun scope_condition :: "'s StateStore \<Rightarrow> 's \<Rightarrow> string \<Rightarrow> operation list \<Rightarrow> gotime \<Rightarrow> condition" where
  "scope_condition S s provider_id [] u = Until u"
| "scope_condition S s provider_id (scope # scopes) u =
     (case ss_get S s provider_id scope of
        Err e \<Rightarrow> if is_no_rows e then scope_condition S s provider_id scopes u else Broken e
      | Ok st \<Rightarrow>
          if ps_disabled st then Off
          else if scope = OperationAuth \<or> ps_remaining st > 0 then scope_condition S s provider_id scopes u
          else scope_condition S s provider_id scopes (max u (ps_reset_at st)))"

definition blocked_for :: "gotime \<Rightarrow> gotime \<Rightarrow> provider_error option \<Rightarrow> bool" where
  "blocked_for t u blocked \<longleftrightarrow>
     (if u \<le> t then blocked = None else \<exists>b p sc r. blocked = Some (CooldownError b p sc r u))"

text \<open>A check at a time shows the condition.\<close>

definition shows_condition :: "'s StateStore \<Rightarrow> 's \<Rightarrow> string \<Rightarrow> gotime \<Rightarrow> condition \<Rightarrow> provider_error option \<Rightarrow> bool" where
  "shows_condition S s provider_id t c checked \<longleftrightarrow>
     (case c of
        Off \<Rightarrow> \<exists>b p r. checked = Some (DisabledError b p r)
      | Broken e \<Rightarrow> checked = Some e \<and> \<not> is_no_rows e \<and> (\<exists>scope. ss_get S s provider_id scope = Err e)
      | Until u \<Rightarrow> blocked_for t u checked)"

lemma check_scopes_condition:
  assumes "blocked_for t u blocked"
  shows "shows_condition S s provider_id t (scope_condition S s provider_id scopes u)
    (check_scopes S t s provider_id False scopes blocked)"
  using assms
proof (induction scopes arbitrary: u blocked)
  case (Cons scope scopes)
  show ?case
  proof (cases "ss_get S s provider_id scope")
    case (Inl e)
    then show ?thesis using Cons by (cases "is_no_rows e") (auto simp: shows_condition_def [of _ _ _ _ "Broken e"])
  next
    case (Inr st)
    show ?thesis
    proof (cases "ps_disabled st \<or> scope = OperationAuth \<or> ps_remaining st > 0")
      case True
      then show ?thesis using Inr Cons by (auto simp: exhausted_def shows_condition_def [of _ _ _ _ Off])
    next
      case False
      let ?found = "exhausted t st \<and> (case blocked of None \<Rightarrow> True | Some b \<Rightarrow> ps_reset_at st > ce_reset_at b)"
      let ?b = "if ?found then Some (CooldownError True provider_id scope (ps_reason st) (ps_reset_at st)) else blocked"
      have "blocked_for t (max u (ps_reset_at st)) ?b"
        using Cons.prems False by (auto simp: blocked_for_def exhausted_def max_def split: if_splits)
      from Cons.IH [OF this] False Inr show ?thesis by (cases ?found) auto
    qed
  qed
qed (simp add: shows_condition_def)

definition download_condition :: "state_db \<Rightarrow> string \<Rightarrow> condition" where
  "download_condition db provider_id = scope_condition gate_store db provider_id
     [OperationAll, OperationAuth, OperationDownload, OperationDownloadTransfer] 0"

lemma gate_read_error:
  "\<lbrakk>ss_get gate_store db provider_id scope = Err e; \<not> is_no_rows e\<rbrakk> \<Longrightarrow> \<not> snd (unavailableReset (WProvider e))"
  by (auto simp: gate_store_def stateErrorStore_def repository_store_def GetProviderState_def unavailableReset_def
      split: if_splits option.splits)

lemma download_check_condition:
  "0 \<le> t \<Longrightarrow> shows_condition gate_store db i t (download_condition db i) (CheckDownloadAvailability gate_store t None db i)"
  using check_scopes_condition [of t 0 None gate_store db i]
  unfolding download_condition_def CheckDownloadAvailability_def checkAvailability_def by (simp add: blocked_for_def del: check_scopes.simps scope_condition.simps)

text \<open>The conditions do not depend on the time, so a disabled or unreadable state shows at every time.\<close>

lemma check_scopes_hard:
  "\<lbrakk>scope_condition S s provider_id scopes u = c; c = Off \<or> c = Broken e\<rbrakk>
    \<Longrightarrow> shows_condition S s provider_id t c (check_scopes S t s provider_id False scopes blocked)"
proof (induction scopes arbitrary: u blocked)
  case (Cons scope scopes)
  show ?case
  proof (cases "ss_get S s provider_id scope")
    case (Inl e')
    then show ?thesis using Cons by (cases "is_no_rows e'") (auto simp: shows_condition_def [of _ _ _ _ "Broken e"])
  next
    case (Inr st)
    then show ?thesis using Cons by (auto simp: shows_condition_def [of _ _ _ _ Off] split: if_splits)
  qed
qed auto

lemma download_check_hard:
  "\<lbrakk>download_condition db i = c; c = Off \<or> c = Broken e\<rbrakk>
    \<Longrightarrow> shows_condition gate_store db i t c (CheckDownloadAvailability gate_store t None db i)"
  unfolding download_condition_def CheckDownloadAvailability_def checkAvailability_def option.case
  by (rule check_scopes_hard)

interpretation gate: preflight "\<lambda>t i. CheckDownloadAvailability gate_store t None db i" "download_condition db" for db
proof
  fix i t e u
  show "\<exists>b p r. CheckDownloadAvailability gate_store t None db i = Some (DisabledError b p r)" if "download_condition db i = Off"
    using download_check_hard [OF that, of _ t] by (simp add: shows_condition_def)
  show "CheckDownloadAvailability gate_store t None db i = Some e \<and> \<not> snd (unavailableReset (WProvider e))"
    if "download_condition db i = Broken e"
    using download_check_hard [OF that, of e t] gate_read_error by (auto simp: shows_condition_def)
  show "\<exists>b p sc r. CheckDownloadAvailability gate_store t None db i = Some (CooldownError b p sc r u)"
    if "download_condition db i = Until u" "0 \<le> t" "t < u"
    using download_check_condition [OF that(2), of db i] that by (auto simp: shows_condition_def blocked_for_def)
  show "CheckDownloadAvailability gate_store t None db i = None" if "download_condition db i = Until u" "0 \<le> t" "u \<le> t"
    using download_check_condition [OF that(2), of db i] that by (auto simp: shows_condition_def blocked_for_def)
qed

section \<open>Properties\<close>

text \<open>a paused route stays paused exactly as long as the stored provider states say. When \<open>RouteAvailability\<close> reports
  a pause with a reset, then while the states stay as they are the route is paused at every time before the
  reset, with the same reset, and no longer paused at the reset; a pause without a reset (every provider disabled)
  does not end by itself. So work held back until the reset is neither tried too early nor held too long.\<close>

theorem route_pause_exact:
  fixes s providers kind db
  defines "route t \<equiv> RouteAvailability s providers (\<lambda>_. None) (CheckDownloadAvailability gate_store t None db) kind"
  assumes "0 < now" "route now = Ok st" "rt_paused st"
  shows "(\<forall>t. now \<le> t \<and> (t < rt_reset_at st \<or> rt_reset_at st = zero_time) \<longrightarrow>
            (\<exists>st'. route t = Ok st' \<and> rt_paused st' \<and> rt_reset_at st' = rt_reset_at st))
    \<and> (rt_reset_at st \<noteq> zero_time \<longrightarrow> now < rt_reset_at st \<and> (\<exists>st'. route (rt_reset_at st) = Ok st' \<and> \<not> rt_paused st'))"
proof -
  let ?ids = "sv_provider_order s @ sv_fallback_order s" and ?st = "gate.status_at db providers kind (sv_provider_order s @ sv_fallback_order s)"
  note closed = gate.RouteAvailability_closed [where db = db and s = s and providers = providers and kind = kind]
  have readable: "\<forall>i \<in> set ?ids. gate.serves providers kind i \<longrightarrow> \<not> gate.unreadable db providers i"
    and st: "st = ?st now"
    using assms(2,3) closed [of now st] unfolding route_def by simp_all
  have ok: "route t = Ok (?st t)" if "0 \<le> t" for t
    using closed [OF that, of "?st t"] readable unfolding route_def by blast
  have p: "rt_paused (?st now)" using assms(4) st by simp
  note exact = gate.paused_status_exact [OF assms(2) p]
  have "\<exists>st'. route t = Ok st' \<and> rt_paused st' \<and> rt_reset_at st' = rt_reset_at st"
    if "now \<le> t" "t < rt_reset_at st \<or> rt_reset_at st = zero_time" for t
    using exact(1) [of t] that ok [of t] assms(2) unfolding st by simp
  moreover have "now < rt_reset_at st \<and> (\<exists>st'. route (rt_reset_at st) = Ok st' \<and> \<not> rt_paused st')" if "rt_reset_at st \<noteq> zero_time"
    using exact(2) that ok [of "rt_reset_at st"] assms(2) unfolding st by simp
  ultimately show ?thesis by blast
qed

definition sample_adapter :: adapter where
  "sample_adapter = \<lparr>ad_id = ''os'', ad_capabilities = \<lparr>cap_media_kinds = [], cap_exact_file_hash = True, cap_season_packs = True,
     cap_direct_pack_member = False, cap_single_episode_only = False\<rparr>, ad_supports_language = (\<lambda>_. True),
     ad_search_cache_version = [], ad_checks_download = True, ad_checks_search = True\<rparr>"

definition sample_states :: state_db where
  "sample_states = \<lparr>db_rows = [\<lparr>pr_provider_id = ''os'', pr_scope = ''download'', pr_reason = ''download_quota'',
     pr_limit = 0, pr_remaining = 0, pr_reset_at_ns = hour, pr_disabled = False, pr_failure_attempt = 0\<rparr>],
     db_read_fault = (\<lambda>_ _. False), db_write_fault = False\<rparr>"

definition sample_route :: Service where
  "sample_route = \<lparr>sv_provider_order = [''os''], sv_preferred_order = None, sv_fallback_order = [],
     sv_has_fallback_searcher = False, sv_minimum_upgrade_delta = 0, sv_max_upgrade_checks = 0, sv_aged_after = 0,
     sv_allow_hearing_impaired = False\<rparr>"

theorem route_pause_exact_witness:
  "\<exists>st. RouteAvailability sample_route [''os'' \<mapsto> sample_adapter] (\<lambda>_. None)
      (CheckDownloadAvailability gate_store (unix_epoch + hour) None sample_states) MediaMovie = Ok st \<and> \<not> rt_paused st"
proof -
  have now: "RouteAvailability sample_route [''os'' \<mapsto> sample_adapter] (\<lambda>_. None)
      (CheckDownloadAvailability gate_store (unix_epoch + minute) None sample_states) MediaMovie
    = Ok (zero_route_status\<lparr>rt_paused := True, rt_reset_at := unix_epoch + hour, rt_provider_count := 1\<rparr>)"
    by (simp add: RouteAvailability_def sample_route_def SupportsMediaKind_def sample_adapter_def adapter_CheckDownload_def
        CheckDownloadAvailability_def checkAvailability_def gate_store_def stateErrorStore_def repository_store_def
        GetProviderState_def sample_states_def row_key_def operation_defs row_state_def exhausted_def fromUnixNano_def
        from_unix_def classifyAvailabilityError_def unavailableReset_def zero_availability_def add_availability_def
        earlier_reset_def route_status_def paused_def MediaMovie_def MediaEpisode_def Let_def)
  have "0 < unix_epoch + minute" "unix_epoch + hour \<noteq> 0" by (simp_all add: unix_epoch_def)
  then show ?thesis using route_pause_exact [OF _ now] by (simp add: zero_route_status_def)
qed

end
