(* ===== verification/Coordinator.thy ===== *)
theory Coordinator
  imports Outages Go_Json
begin

text \<open>
  The search of all providers of a tier (\<open>src/internal/provider/coordinator.go\<close>): which providers are asked, the
  shared search cache of the store (\<open>GetProviderCache\<close>, \<open>PutProviderCache\<close> of \<open>store/repository.go\<close>),
  merging duplicate candidates, and collecting the answers, for the broad search in whatever order they arrive.
  What the providers answer, \<open>net/url\<close>, the JSON of cached results and the digest of the cache key are fields
  of the environment; log events are left out.
\<close>

section \<open>Queries and results\<close>

type_synonym search_mode = string

definition SearchExactHash :: search_mode where "SearchExactHash = ''exact_hash''"
definition SearchBroad :: search_mode where "SearchBroad = ''broad''"

record SearchQuery =
  qu_media :: Media
  qu_language :: language
  qu_mode :: search_mode
  qu_skip_providers :: "string list"

record SearchResult =
  sx_candidates :: "Candidate list"
  sx_errors :: "(string \<times> provider_error) list"
  sx_applicable_providers :: "string list"
  sx_empty_providers :: "string list"

definition empty_search :: SearchResult where
  "empty_search = \<lparr>sx_candidates = [], sx_errors = [], sx_applicable_providers = [], sx_empty_providers = []\<rparr>"

text \<open>Assignment to and deletion from a Go map.\<close>

definition map_put :: "string \<Rightarrow> 'v \<Rightarrow> (string \<times> 'v) list \<Rightarrow> (string \<times> 'v) list" where
  "map_put k v m = filter (\<lambda>e. fst e \<noteq> k) m @ [(k, v)]"

definition map_delete :: "string \<Rightarrow> (string \<times> 'v) list \<Rightarrow> (string \<times> 'v) list" where
  "map_delete k m = filter (\<lambda>e. fst e \<noteq> k) m"

section \<open>Duplicate candidates\<close>

definition append_unique :: "string \<Rightarrow> string list \<Rightarrow> string list" where
  "append_unique value existing = (if value = [] \<or> value \<in> set existing then existing else existing @ [value])"

definition appendUniqueStrings :: "string list \<Rightarrow> string list \<Rightarrow> string list" where
  "appendUniqueStrings existing additions = fold append_unique additions existing"

definition or_string :: "string \<Rightarrow> string \<Rightarrow> string" where
  "or_string a b = (if a = [] then b else a)"

definition or_int :: "int \<Rightarrow> int \<Rightarrow> int" where
  "or_int a b = (if a = 0 then b else a)"

definition merge_ids :: "ExternalIDs \<Rightarrow> ExternalIDs \<Rightarrow> ExternalIDs" where
  "merge_ids a b = \<lparr>x_imdb = or_string (x_imdb a) (x_imdb b), x_tmdb = or_int (x_tmdb a) (x_tmdb b), x_tvdb = or_int (x_tvdb a) (x_tvdb b)\<rparr>"

definition merge_candidate :: "Candidate \<Rightarrow> Candidate \<Rightarrow> Candidate" where
  "merge_candidate merged candidate =
     merged\<lparr>c_language := or_string (c_language merged) (c_language candidate),
       c_kind := or_string (c_kind merged) (c_kind candidate),
       c_title := or_string (c_title merged) (c_title candidate),
       c_year := or_int (c_year merged) (c_year candidate),
       c_season := or_int (c_season merged) (c_season candidate),
       c_episode := or_int (c_episode merged) (c_episode candidate),
       c_absolute_episode := or_int (c_absolute_episode merged) (c_absolute_episode candidate),
       c_external_ids := merge_ids (c_external_ids merged) (c_external_ids candidate),
       c_release_names := appendUniqueStrings (c_release_names merged) (c_release_names candidate),
       c_alternate_titles := appendUniqueStrings (c_alternate_titles merged) (c_alternate_titles candidate),
       c_download_version := or_string (c_download_version merged) (c_download_version candidate),
       c_evidence_version := or_string (c_evidence_version merged) (c_evidence_version candidate),
       c_release_groups := appendUniqueStrings (c_release_groups merged) (c_release_groups candidate),
       c_resolutions := appendUniqueStrings (c_resolutions merged) (c_resolutions candidate),
       c_exact_hash := c_exact_hash merged \<or> c_exact_hash candidate,
       c_forced := c_forced merged \<or> c_forced candidate,
       c_hearing_impaired := c_hearing_impaired merged \<or> c_hearing_impaired candidate,
       c_rating := max (c_rating merged) (c_rating candidate),
       c_popularity := max (c_popularity merged) (c_popularity candidate),
       c_download_count := max (c_download_count merged) (c_download_count candidate),
       c_download_ref := or_string (c_download_ref merged) (c_download_ref candidate),
       c_pack := (case c_pack merged of None \<Rightarrow> c_pack candidate | Some p \<Rightarrow> Some p)\<rparr>"

definition candidate_key :: "Candidate \<Rightarrow> string" where
  "candidate_key c = c_provider_id c @ char_of (0 :: nat) # c_result_id c"

definition identified :: "Candidate \<Rightarrow> bool" where
  "identified c \<longleftrightarrow> c_provider_id c \<noteq> [] \<and> c_result_id c \<noteq> []"

text \<open>One turn of the loop over the result so far and the index of every identity in it.\<close>

definition dedup_step ::
  "Candidate \<Rightarrow> Candidate list \<times> (string \<rightharpoonup> nat) \<Rightarrow> Candidate list \<times> (string \<rightharpoonup> nat)" where
  "dedup_step candidate acc =
     (let (result, indices) = acc
      in if \<not> identified candidate then (result @ [candidate], indices)
         else case indices (candidate_key candidate) of
                None \<Rightarrow> (result @ [candidate], indices(candidate_key candidate \<mapsto> length result))
              | Some index \<Rightarrow> (result[index := merge_candidate (result ! index) candidate], indices))"

definition DeduplicateCandidates :: "Candidate list \<Rightarrow> Candidate list" where
  "DeduplicateCandidates candidates = fst (fold dedup_step candidates ([], Map.empty))"

section \<open>The search cache\<close>

definition searchCacheTTL :: duration where "searchCacheTTL = 6 * hour"
definition normalizedCandidateCacheVersion :: string where "normalizedCandidateCacheVersion = ''candidate-v6''"

record cachedSearchResults =
  cs_version :: int
  cs_candidates :: "Candidate list"
  cs_requires_refresh :: bool

record ProviderCacheEntry =
  pc_key :: string
  pc_provider_id :: string
  pc_results_json :: string
  pc_expires_at :: gotime

text \<open>A parsed URL is its scheme and its text without query and fragment.\<close>

record search_env =
  ev_url_parse :: "string \<Rightarrow> (string \<times> string) option"
  ev_encode :: "cachedSearchResults \<Rightarrow> string option"
  ev_decode :: "string \<Rightarrow> cachedSearchResults option"
  ev_digest :: "string \<Rightarrow> string"
  ev_has_cache :: bool
  ev_get_fault :: "string \<Rightarrow> provider_error option"
  ev_put_fault :: "string \<Rightarrow> provider_error option"
  ev_ctx_err :: "provider_error option"
  ev_download_check :: "string \<Rightarrow> provider_error option"
  ev_search_check :: "string \<Rightarrow> provider_error option"
  ev_search :: "string \<Rightarrow> SearchQuery \<Rightarrow> (provider_error, Candidate list) result"

definition GetProviderCache :: "ProviderCacheEntry list \<Rightarrow> string \<Rightarrow> gotime \<Rightarrow> ProviderCacheEntry option" where
  "GetProviderCache rows key now = find (\<lambda>r. pc_key r = key \<and> unix_nano (pc_expires_at r) > unix_nano now) rows"

definition PutProviderCache :: "ProviderCacheEntry \<Rightarrow> ProviderCacheEntry list \<Rightarrow> ProviderCacheEntry list" where
  "PutProviderCache entry rows = sql_upsert (\<lambda>r. pc_key r = pc_key entry) (\<lambda>_. True) (\<lambda>_. entry) entry rows"

definition stripCandidateQuery :: "search_env \<Rightarrow> string \<Rightarrow> string" where
  "stripCandidateQuery E raw =
     (case ev_url_parse E raw of
        None \<Rightarrow> takeWhile (\<lambda>c. c \<noteq> CHR ''?'') raw
      | Some (scheme, stripped) \<Rightarrow> stripped)"

definition safe_download_ref :: "search_env \<Rightarrow> string \<Rightarrow> string" where
  "safe_download_ref E ref =
     (case ev_url_parse E ref of
        Some (scheme, stripped) \<Rightarrow>
          if scheme = ''http'' \<or> scheme = ''https'' then [] else stripCandidateQuery E ref
      | None \<Rightarrow> stripCandidateQuery E ref)"

definition safe_candidate :: "search_env \<Rightarrow> Candidate \<Rightarrow> Candidate" where
  "safe_candidate E c =
     c\<lparr>c_result_id := stripCandidateQuery E (c_result_id c),
       c_download_ref := safe_download_ref E (c_download_ref c),
       c_pack := map_option (\<lambda>p. p\<lparr>pk_direct_members := map (\<lambda>m. m\<lparr>pm_download_ref := []\<rparr>) (pk_direct_members p)\<rparr>) (c_pack c)\<rparr>"

definition cacheSafeCandidates :: "search_env \<Rightarrow> Candidate list \<Rightarrow> Candidate list" where
  "cacheSafeCandidates E candidates = map (safe_candidate E) candidates"

definition reference_changed :: "Candidate \<Rightarrow> Candidate \<Rightarrow> bool" where
  "reference_changed candidate safe \<longleftrightarrow>
     c_result_id candidate \<noteq> c_result_id safe \<or> c_download_ref candidate \<noteq> c_download_ref safe
     \<or> (case c_pack candidate of
          None \<Rightarrow> False
        | Some p \<Rightarrow> list_ex (\<lambda>(a, b). pm_download_ref a \<noteq> pm_download_ref b)
            (zip (pk_direct_members p) (pk_direct_members (the (c_pack safe)))))"

definition cacheReferencesChanged :: "Candidate list \<Rightarrow> Candidate list \<Rightarrow> bool" where
  "cacheReferencesChanged original safe \<longleftrightarrow> list_ex (\<lambda>(a, b). reference_changed a b) (zip original safe)"

text \<open>The JSON array of strings and integers that the key digests.\<close>

datatype json_atom = JText string | JInt int

fun json_atom_text :: "json_atom \<Rightarrow> string" where
  "json_atom_text (JText s) = json_string s"
| "json_atom_text (JInt i) = itoa i"

definition cache_key_parts :: "string \<Rightarrow> SearchQuery \<Rightarrow> json_atom list" where
  "cache_key_parts provider_id query =
     (let media = qu_media query; fingerprint = m_fingerprint media
      in [JText normalizedCandidateCacheVersion, JText provider_id, JText (qu_mode query), JText (qu_language query),
          JText (ref_instance (m_ref media)), JText (ref_kind (m_ref media)), JInt (ref_file_id (m_ref media)),
          JInt (fp_size fingerprint), JInt (unix_nano (fp_mod_time fingerprint)), JText (m_release_name media),
          JText (m_title media), JInt (m_year media), JText (x_imdb (m_external_ids media)),
          JInt (x_tmdb (m_external_ids media)), JInt (x_tvdb (m_external_ids media)),
          JInt (m_season media), JInt (m_episode media), JInt (m_episode_end media),
          JInt (m_absolute_episode media), JInt (m_absolute_episode_end media)])"

definition providerCacheKey :: "search_env \<Rightarrow> string \<Rightarrow> SearchQuery \<Rightarrow> string" where
  "providerCacheKey E provider_id query =
     ev_digest E (CHR ''['' # join '','' (map json_atom_text (cache_key_parts provider_id query)) @ '']'')"

definition search_key_of :: "search_env \<Rightarrow> adapter \<Rightarrow> SearchQuery \<Rightarrow> string" where
  "search_key_of E p query =
     providerCacheKey E (ad_id p) query
     @ (if ad_search_cache_version p = [] then [] else CHR '':'' # ad_search_cache_version p)"

section \<open>One provider\<close>

text \<open>The entry a search reads, when it may answer from the cache.\<close>

definition cached_answer :: "search_env \<Rightarrow> ProviderCacheEntry option \<Rightarrow> Candidate list option" where
  "cached_answer E entry =
     (case entry of
        None \<Rightarrow> None
      | Some row \<Rightarrow>
          (case ev_decode E (pc_results_json row) of
             Some cached \<Rightarrow>
               if cs_version cached = 1 \<and> \<not> cs_requires_refresh cached
               then Some (DeduplicateCandidates (cs_candidates cached)) else None
           | None \<Rightarrow> None))"

text \<open>The candidates a provider answers with are deduplicated and written to the cache, sanitized: the answer, and the
  entry written.\<close>

definition store_answer ::
  "search_env \<Rightarrow> gotime \<Rightarrow> adapter \<Rightarrow> SearchQuery \<Rightarrow> Candidate list
   \<Rightarrow> (provider_error, Candidate list) result \<times> ProviderCacheEntry option" where
  "store_answer E now p query candidates =
     (if \<not> ev_has_cache E then (Ok candidates, None)
      else
        let safe = cacheSafeCandidates E candidates; key = search_key_of E p query
        in case ev_encode E \<lparr>cs_version = 1, cs_candidates = safe, cs_requires_refresh = cacheReferencesChanged candidates safe\<rparr> of
             None \<Rightarrow> (Err (Wrapped ''encode search cache'' (OtherError ''json'')), None)
           | Some encoded \<Rightarrow>
               (case ev_put_fault E key of
                  Some e \<Rightarrow> (Err (SearchPersistenceError (Wrapped ''write search cache'' e)), None)
                | None \<Rightarrow> (Ok candidates, Some \<lparr>pc_key = key, pc_provider_id = ad_id p, pc_results_json = encoded,
                    pc_expires_at = now + searchCacheTTL\<rparr>)))"

text \<open>The body of \<open>searchProvider\<close> after the preflight, with the cache entry \<open>found\<close>.\<close>

definition ask_provider ::
  "search_env \<Rightarrow> gotime \<Rightarrow> adapter \<Rightarrow> SearchQuery \<Rightarrow> ProviderCacheEntry option
   \<Rightarrow> (provider_error, Candidate list) result \<times> ProviderCacheEntry option" where
  "ask_provider E now p query found =
     (case (if ev_has_cache E then ev_get_fault E (search_key_of E p query) else None) of
        Some e \<Rightarrow> (Err (SearchPersistenceError (Wrapped ''read search cache'' e)), None)
      | None \<Rightarrow>
          (case (if ev_has_cache E then cached_answer E found else None) of
             Some candidates \<Rightarrow> (Ok candidates, None)
           | None \<Rightarrow>
               (case adapter_CheckSearch (ev_ctx_err E) p (ev_search_check E (ad_id p)) of
                  Some e \<Rightarrow> (Err e, None)
                | None \<Rightarrow>
                    (case ev_search E (ad_id p) query of
                       Err e \<Rightarrow> (Err e, None)
                     | Ok candidates \<Rightarrow> store_answer E now p query (DeduplicateCandidates candidates)))))"

definition searchProvider ::
  "search_env \<Rightarrow> gotime \<Rightarrow> adapter \<Rightarrow> SearchQuery \<Rightarrow> ProviderCacheEntry list
   \<Rightarrow> (provider_error, Candidate list) result \<times> ProviderCacheEntry list" where
  "searchProvider E now p query rows =
     (case adapter_CheckDownload (ev_ctx_err E) p (ev_download_check E (ad_id p)) of
        Some e \<Rightarrow> (Err e, rows)
      | None \<Rightarrow>
          let (answer, written) = ask_provider E now p query (GetProviderCache rows (search_key_of E p query) now)
          in (answer, case written of None \<Rightarrow> rows | Some entry \<Rightarrow> PutProviderCache entry rows))"

section \<open>All providers\<close>

definition exactProviderMembership :: "string list \<Rightarrow> string list" where
  "exactProviderMembership ids = filter (\<lambda>i. i \<noteq> []) ids"

definition broad_applicable :: "SearchQuery \<Rightarrow> adapter \<Rightarrow> bool" where
  "broad_applicable query p \<longleftrightarrow>
     ad_supports_language p (qu_language query) \<and> SupportsMedia p (qu_media query)
     \<and> ad_id p \<notin> set (exactProviderMembership (qu_skip_providers query))"

definition exact_applicable :: "SearchQuery \<Rightarrow> adapter \<Rightarrow> bool" where
  "exact_applicable query p \<longleftrightarrow> cap_exact_file_hash (ad_capabilities p) \<and> broad_applicable query p"

definition exact_step ::
  "search_env \<Rightarrow> gotime \<Rightarrow> SearchQuery \<Rightarrow> adapter \<Rightarrow> SearchResult \<times> ProviderCacheEntry list
   \<Rightarrow> SearchResult \<times> ProviderCacheEntry list" where
  "exact_step E now query p acc =
     (let (result, rows) = acc
      in if \<not> exact_applicable query p then acc
         else
           let result1 = result\<lparr>sx_applicable_providers := sx_applicable_providers result @ [ad_id p]\<rparr>;
               (answer, rows1) = searchProvider E now p query rows
           in case answer of
                Err e \<Rightarrow> (result1\<lparr>sx_errors := map_put (ad_id p) e (sx_errors result1)\<rparr>, rows1)
              | Ok candidates \<Rightarrow>
                  (result1\<lparr>sx_empty_providers := sx_empty_providers result1 @ (if candidates = [] then [ad_id p] else []),
                     sx_candidates := sx_candidates result1 @ filter c_exact_hash candidates\<rparr>, rows1))"

definition searchExact ::
  "search_env \<Rightarrow> gotime \<Rightarrow> adapter list \<Rightarrow> SearchQuery \<Rightarrow> ProviderCacheEntry list \<Rightarrow> SearchResult \<times> ProviderCacheEntry list" where
  "searchExact E now providers query rows = fold (exact_step E now query) providers (empty_search, rows)"

text \<open>
  The broad search asks all applicable providers at once. \<open>arrival\<close> is the order in which their answers come in;
  a goroutine writes its answer's cache entry before it sends the answer. Every provider reads the table as it
  was, since no other one writes the entry of its key.
\<close>

record broadResult =
  br_provider_id :: string
  br_answer :: "(provider_error, Candidate list) result"

definition zero_broad :: broadResult where
  "zero_broad = \<lparr>br_provider_id = [], br_answer = Ok []\<rparr>"

definition active_indices :: "SearchQuery \<Rightarrow> adapter list \<Rightarrow> nat list" where
  "active_indices query providers = filter (\<lambda>i. broad_applicable query (providers ! i)) [0 ..< length providers]"

definition broad_answer :: "search_env \<Rightarrow> gotime \<Rightarrow> SearchQuery \<Rightarrow> ProviderCacheEntry list \<Rightarrow> adapter \<Rightarrow> broadResult" where
  "broad_answer E now query rows p =
     \<lparr>br_provider_id = ad_id p, br_answer = fst (searchProvider E now p query rows)\<rparr>"

definition receive :: "(nat \<Rightarrow> broadResult) \<Rightarrow> nat list \<Rightarrow> nat \<Rightarrow> broadResult list" where
  "receive answers arrival n = fold (\<lambda>i ordered. ordered[i := answers i]) arrival (replicate n zero_broad)"

definition collect_broad :: "broadResult \<Rightarrow> SearchResult \<Rightarrow> SearchResult" where
  "collect_broad item result =
     (if br_provider_id item = [] then result
      else case br_answer item of
             Err e \<Rightarrow> result\<lparr>sx_errors := map_put (br_provider_id item) e (sx_errors result)\<rparr>
           | Ok candidates \<Rightarrow>
               result\<lparr>sx_errors := map_delete (br_provider_id item) (sx_errors result),
                 sx_empty_providers := sx_empty_providers result @ (if candidates = [] then [br_provider_id item] else []),
                 sx_candidates := sx_candidates result @ candidates\<rparr>)"

definition searchBroad ::
  "search_env \<Rightarrow> gotime \<Rightarrow> adapter list \<Rightarrow> SearchQuery \<Rightarrow> nat list \<Rightarrow> ProviderCacheEntry list
   \<Rightarrow> SearchResult \<times> ProviderCacheEntry list" where
  "searchBroad E now providers query arrival rows =
     (let active = active_indices query providers;
          answers = (\<lambda>i. broad_answer E now query rows (providers ! i));
          ordered = receive answers arrival (length providers);
          result = empty_search\<lparr>sx_applicable_providers := map (\<lambda>i. ad_id (providers ! i)) active\<rparr>
      in (fold collect_broad ordered result,
          fold (\<lambda>i written. snd (searchProvider E now (providers ! i) query written)) arrival rows))"

definition coordinator_Search ::
  "search_env \<Rightarrow> gotime \<Rightarrow> adapter list \<Rightarrow> SearchQuery \<Rightarrow> nat list \<Rightarrow> ProviderCacheEntry list
   \<Rightarrow> SearchResult \<times> ProviderCacheEntry list" where
  "coordinator_Search E now providers query arrival rows =
     (if qu_mode query = SearchExactHash then searchExact E now providers query rows
      else if qu_mode query = SearchBroad then searchBroad E now providers query arrival rows
      else (empty_search\<lparr>sx_errors := [(''coordinator'', OtherError ''unsupported search mode'')]\<rparr>, rows))"

text \<open>The outcome names of the search events.\<close>

definition providerOutcome :: "provider_error option \<Rightarrow> int \<Rightarrow> string" where
  "providerOutcome err candidateCount =
     (case err of
        None \<Rightarrow> if candidateCount = 0 then ''no_result'' else ''success''
      | Some e \<Rightarrow>
          if errors_as is_cooldown e \<or> errors_as is_quota e then ''throttled''
          else if is_context_error e then ''canceled''
          else if errors_as is_disabled e then ''disabled''
          else if errors_as is_authentication e then ''authentication_failed''
          else ''failed'')"

end
