(* ===== verification/Coordinator_Props.thy ===== *)
theory Coordinator_Props
  imports Coordinator "HOL-Library.Multiset"
begin

text \<open>
  Properties of the coordinator: what merging duplicates keeps, that the broad search does not depend on the order
  of the answers, and that a cached search answers as the provider did.
\<close>

section \<open>Duplicate candidates\<close>

lemma append_unique_set: "set (append_unique v xs) = set xs \<union> ({v} - {[]})"
  by (auto simp: append_unique_def)

lemma appendUniqueStrings_set: "set (appendUniqueStrings xs ys) = set xs \<union> (set ys - {[]})"
  unfolding appendUniqueStrings_def
  by (induction ys arbitrary: xs) (auto simp: append_unique_set)

lemma merge_identity [simp]: "c_provider_id (merge_candidate m c) = c_provider_id m" "c_result_id (merge_candidate m c) = c_result_id m"
  by (simp_all add: merge_candidate_def)

lemma merge_key [simp]: "candidate_key (merge_candidate m c) = candidate_key m" "identified (merge_candidate m c) = identified m"
  by (simp_all add: candidate_key_def identified_def)

text \<open>The index holds exactly the identified candidates of the result, each at its key.\<close>

definition indexed :: "Candidate list \<times> (string \<rightharpoonup> nat) \<Rightarrow> bool" where
  "indexed acc \<longleftrightarrow>
     (\<forall>k i. snd acc k = Some i \<longleftrightarrow> i < length (fst acc) \<and> identified (fst acc ! i) \<and> candidate_key (fst acc ! i) = k)"

lemma dedup_step_eqs:
  "\<not> identified c \<Longrightarrow> dedup_step c (result, indices) = (result @ [c], indices)"
  "\<lbrakk>identified c; indices (candidate_key c) = None\<rbrakk>
    \<Longrightarrow> dedup_step c (result, indices) = (result @ [c], indices(candidate_key c \<mapsto> length result))"
  "\<lbrakk>identified c; indices (candidate_key c) = Some i\<rbrakk>
    \<Longrightarrow> dedup_step c (result, indices) = (result[i := merge_candidate (result ! i) c], indices)"
  by (simp_all add: dedup_step_def)

lemma indexed_step: "indexed acc \<Longrightarrow> indexed (dedup_step c acc)"
proof (cases acc)
  case (Pair result indices)
  assume ok: "indexed acc"
  then have ok': "indices k = Some i \<longleftrightarrow> i < length result \<and> identified (result ! i) \<and> candidate_key (result ! i) = k" for k i
    by (simp add: indexed_def Pair)
  consider (anonymous) "\<not> identified c" | (fresh) "identified c" "indices (candidate_key c) = None"
    | (known) index where "identified c" "indices (candidate_key c) = Some index" by auto
  then show ?thesis
  proof cases
    case anonymous
    then show ?thesis using ok' by (auto simp: indexed_def Pair dedup_step_def nth_append less_Suc_eq)
  next
    case fresh
    then have "\<not> (i < length result \<and> identified (result ! i) \<and> candidate_key (result ! i) = candidate_key c)" for i
      using ok' [of "candidate_key c" i] by simp
    with fresh show ?thesis using ok' by (auto simp: indexed_def Pair dedup_step_def nth_append less_Suc_eq)
  next
    case known
    then have "index < length result" using ok' by auto
    then show ?thesis using ok dedup_step_eqs(3) [of c indices index result] known
      by (auto simp: indexed_def Pair nth_list_update)
  qed
qed

lemma indexed_fold: "indexed acc \<Longrightarrow> indexed (fold dedup_step cs acc)"
  by (induction cs arbitrary: acc) (auto simp: indexed_step)

lemma indexed_start: "indexed ([], Map.empty)"
  by (simp add: indexed_def)

definition keys_of :: "Candidate list \<Rightarrow> string list" where
  "keys_of cs = map candidate_key (filter identified cs)"

lemma keys_distinctI:
  assumes "\<And>i j. \<lbrakk>i < length cs; j < length cs; identified (cs ! i); identified (cs ! j); candidate_key (cs ! i) = candidate_key (cs ! j)\<rbrakk> \<Longrightarrow> i = j"
  shows "distinct (keys_of cs)"
  using assms
proof (induction cs rule: rev_induct)
  case (snoc c cs)
  have "distinct (keys_of cs)"
  proof (rule snoc.IH)
    fix i j
    assume "i < length cs" "j < length cs" "identified (cs ! i)" "identified (cs ! j)" "candidate_key (cs ! i) = candidate_key (cs ! j)"
    then show "i = j" using snoc.prems [of i j] by (simp add: nth_append)
  qed
  moreover have "candidate_key c \<notin> set (keys_of cs)" if "identified c"
  proof
    assume "candidate_key c \<in> set (keys_of cs)"
    then obtain i where "i < length cs" "identified (cs ! i)" "candidate_key (cs ! i) = candidate_key c"
      by (auto simp: keys_of_def in_set_conv_nth)
    then show False using snoc.prems [of i "length cs"] that by (simp add: nth_append)
  qed
  ultimately show ?case by (auto simp: keys_of_def)
qed (simp add: keys_of_def)

lemma dedup_distinct: "distinct (keys_of (DeduplicateCandidates cs))"
proof (rule keys_distinctI)
  let ?acc = "fold dedup_step cs ([], Map.empty)"
  have ok: "indexed ?acc" by (rule indexed_fold [OF indexed_start])
  fix i j
  assume "i < length (DeduplicateCandidates cs)" "j < length (DeduplicateCandidates cs)"
    "identified (DeduplicateCandidates cs ! i)" "identified (DeduplicateCandidates cs ! j)"
    "candidate_key (DeduplicateCandidates cs ! i) = candidate_key (DeduplicateCandidates cs ! j)"
  then show "i = j" using ok unfolding indexed_def DeduplicateCandidates_def by (metis option.inject)
qed

text \<open>A list without duplicates stays as it is.\<close>

lemma dedup_fold_distinct: "distinct (keys_of cs) \<Longrightarrow> fst (fold dedup_step cs ([], Map.empty)) = cs"
proof (induction cs rule: rev_induct)
  case (snoc c cs)
  let ?acc = "fold dedup_step cs ([], Map.empty)"
  have d: "distinct (keys_of cs)" "identified c \<Longrightarrow> candidate_key c \<notin> set (keys_of cs)"
    using snoc.prems by (auto simp: keys_of_def)
  have res: "fst ?acc = cs" using snoc.IH d(1) .
  have "snd ?acc (candidate_key c) = None" if "identified c"
  proof (rule ccontr)
    assume "snd ?acc (candidate_key c) \<noteq> None"
    then obtain i where "i < length cs" "identified (cs ! i)" "candidate_key (cs ! i) = candidate_key c"
      using indexed_fold [OF indexed_start, of cs] unfolding indexed_def res by auto
    then have "candidate_key c \<in> set (keys_of cs)" by (force simp: keys_of_def intro: rev_image_eqI)
    then show False using d(2) [OF that] by simp
  qed
  then show ?case using res
    by (cases ?acc, cases "identified c") (simp_all add: dedup_step_eqs)
qed simp

lemma dedup_idem: "DeduplicateCandidates (DeduplicateCandidates cs) = DeduplicateCandidates cs"
  using dedup_fold_distinct [OF dedup_distinct [of cs]] by (simp add: DeduplicateCandidates_def)

text \<open>What a merged candidate keeps of one of its sources.\<close>

definition covers :: "Candidate \<Rightarrow> Candidate \<Rightarrow> bool" where
  "covers d c \<longleftrightarrow>
     candidate_key d = candidate_key c \<and> (c_exact_hash c \<longrightarrow> c_exact_hash d) \<and> (c_forced c \<longrightarrow> c_forced d)
     \<and> (c_hearing_impaired c \<longrightarrow> c_hearing_impaired d)
     \<and> c_rating c \<le> c_rating d \<and> c_popularity c \<le> c_popularity d \<and> c_download_count c \<le> c_download_count d
     \<and> set (c_release_names c) - {[]} \<subseteq> set (c_release_names d)
     \<and> set (c_alternate_titles c) - {[]} \<subseteq> set (c_alternate_titles d)
     \<and> set (c_release_groups c) - {[]} \<subseteq> set (c_release_groups d)
     \<and> set (c_resolutions c) - {[]} \<subseteq> set (c_resolutions d)
     \<and> (c_title d = [] \<longrightarrow> c_title c = []) \<and> (c_download_ref d = [] \<longrightarrow> c_download_ref c = [])
     \<and> (c_pack d = None \<longrightarrow> c_pack c = None)"

lemma covers_refl: "covers c c"
  by (auto simp: covers_def)

lemma keeps_trans: "\<lbrakk>A - {[]} \<subseteq> B; B - {[]} \<subseteq> C\<rbrakk> \<Longrightarrow> A - {[]} \<subseteq> C"
  by blast

lemma covers_trans:
  assumes "covers e d" "covers d c"
  shows "covers e c"
proof -
  note a = assms [unfolded covers_def]
  have "candidate_key e = candidate_key c" using a by simp
  moreover have "c_exact_hash c \<longrightarrow> c_exact_hash e" "c_forced c \<longrightarrow> c_forced e" "c_hearing_impaired c \<longrightarrow> c_hearing_impaired e"
    using a by simp_all
  moreover have "c_rating c \<le> c_rating e" "c_popularity c \<le> c_popularity e" "c_download_count c \<le> c_download_count e"
    using a by linarith+
  moreover have "set (c_release_names c) - {[]} \<subseteq> set (c_release_names e)" using a by (elim conjE) (rule keeps_trans)
  moreover have "set (c_alternate_titles c) - {[]} \<subseteq> set (c_alternate_titles e)" using a by (elim conjE) (rule keeps_trans)
  moreover have "set (c_release_groups c) - {[]} \<subseteq> set (c_release_groups e)" using a by (elim conjE) (rule keeps_trans)
  moreover have "set (c_resolutions c) - {[]} \<subseteq> set (c_resolutions e)" using a by (elim conjE) (rule keeps_trans)
  moreover have "c_title e = [] \<longrightarrow> c_title c = []" "c_download_ref e = [] \<longrightarrow> c_download_ref c = []" "c_pack e = None \<longrightarrow> c_pack c = None"
    using a by simp_all
  ultimately show ?thesis unfolding covers_def by (intro conjI)
qed

lemma covers_merge_left: "covers (merge_candidate m c) m"
  by (auto simp: covers_def candidate_key_def merge_candidate_def appendUniqueStrings_set or_string_def split: option.splits)

lemma covers_merge_right: "candidate_key m = candidate_key c \<Longrightarrow> covers (merge_candidate m c) c"
  unfolding covers_def merge_key
  by (auto simp: merge_candidate_def appendUniqueStrings_set or_string_def split: option.splits)

lemma dedup_step_covers:
  assumes "indexed acc"
  shows "\<exists>d \<in> set (fst (dedup_step c acc)). covers d c"
    and "e \<in> set (fst acc) \<Longrightarrow> \<exists>d \<in> set (fst (dedup_step c acc)). covers d e"
proof -
  obtain result indices where acc: "acc = (result, indices)" by (cases acc)
  have at_key: "i < length result \<and> candidate_key (result ! i) = candidate_key c" if "indices (candidate_key c) = Some i" for i
    using assms that by (auto simp: indexed_def acc)
  consider (added) "fst (dedup_step c acc) = result @ [c]"
    | (known) i where "i < length result" "candidate_key (result ! i) = candidate_key c"
        "fst (dedup_step c acc) = result[i := merge_candidate (result ! i) c]"
  proof (cases "identified c")
    case False
    with added show thesis by (simp add: acc dedup_step_eqs)
  next
    case True
    show thesis
    proof (cases "indices (candidate_key c)")
      case None
      with True added show thesis by (simp add: acc dedup_step_eqs)
    next
      case (Some i)
      with True known [of i] at_key show thesis by (simp add: acc dedup_step_eqs)
    qed
  qed
  note step = this
  show "\<exists>d \<in> set (fst (dedup_step c acc)). covers d c"
    using step
  proof cases
    case (known i)
    then have "merge_candidate (result ! i) c \<in> set (fst (dedup_step c acc))" by (simp add: set_update_memI)
    with covers_merge_right [OF known(2)] show ?thesis by blast
  qed (auto intro: covers_refl)
  assume "e \<in> set (fst acc)"
  then obtain j where j: "j < length result" "result ! j = e" by (auto simp: acc in_set_conv_nth)
  show "\<exists>d \<in> set (fst (dedup_step c acc)). covers d e"
    using step
  proof cases
    case added
    have "e \<in> set (fst (dedup_step c acc))" using j unfolding added by auto
    with covers_refl show ?thesis by blast
  next
    case (known i)
    have "fst (dedup_step c acc) ! j \<in> set (fst (dedup_step c acc))" using j known by simp
    moreover have "covers (fst (dedup_step c acc) ! j) e"
      using j known(1) unfolding known(3) by (cases "i = j") (auto simp: covers_merge_left covers_refl)
    ultimately show ?thesis by blast
  qed
qed

lemma dedup_fold_covers:
  "\<lbrakk>indexed acc; c \<in> set cs \<or> (\<exists>e \<in> set (fst acc). covers e c)\<rbrakk> \<Longrightarrow> \<exists>d \<in> set (fst (fold dedup_step cs acc)). covers d c"
proof (induction cs arbitrary: acc)
  case (Cons x cs)
  have "indexed (dedup_step x acc)" by (rule indexed_step [OF Cons.prems(1)])
  moreover have "c \<in> set cs \<or> (\<exists>e \<in> set (fst (dedup_step x acc)). covers e c)"
  proof (cases "c \<in> set cs")
    case False
    with Cons.prems(2) consider "c = x" | e where "e \<in> set (fst acc)" "covers e c" by auto
    then show ?thesis
    proof cases
      case 2
      with dedup_step_covers(2) [OF Cons.prems(1) 2(1), of x] show ?thesis using covers_trans by blast
    qed (use dedup_step_covers(1) [OF Cons.prems(1), of x] in simp)
  qed simp
  ultimately show ?case using Cons.IH by simp
qed auto

lemma dedup_covers: "c \<in> set cs \<Longrightarrow> \<exists>d \<in> set (DeduplicateCandidates cs). covers d c"
  unfolding DeduplicateCandidates_def by (rule dedup_fold_covers [OF indexed_start]) simp

section \<open>The order of the answers\<close>

text \<open>The specification of the broad search: the applicable providers one after the other, in the configured order.\<close>

definition broad_in_order :: "search_env \<Rightarrow> gotime \<Rightarrow> adapter list \<Rightarrow> SearchQuery \<Rightarrow> ProviderCacheEntry list \<Rightarrow> SearchResult" where
  "broad_in_order E now providers query rows =
     (let asked = filter (broad_applicable query) providers
      in fold (\<lambda>p. collect_broad (broad_answer E now query rows p)) asked
           (empty_search\<lparr>sx_applicable_providers := map ad_id asked\<rparr>))"

definition all_answer :: "SearchQuery \<Rightarrow> adapter list \<Rightarrow> nat list \<Rightarrow> bool" where
  "all_answer query providers arrival \<longleftrightarrow> distinct arrival \<and> set arrival = set (active_indices query providers)"

lemma receive_map:
  assumes "distinct arrival" "set arrival \<subseteq> {0 ..< n}"
  shows "receive answers arrival n = map (\<lambda>i. if i \<in> set arrival then answers i else zero_broad) [0 ..< n]"
  using assms
proof (induction arrival rule: rev_induct)
  case Nil
  show ?case by (simp add: receive_def map_replicate_const)
next
  case (snoc i is')
  then have "receive answers is' n = map (\<lambda>i. if i \<in> set is' then answers i else zero_broad) [0 ..< n]" by simp
  with snoc.prems show ?case by (auto simp: receive_def intro!: nth_equalityI simp: nth_list_update)
qed

lemma collect_skip: "fold collect_broad (map (\<lambda>i. if P i then f i else zero_broad) is') r = fold collect_broad (map f (filter P is')) r"
  by (induction is' arbitrary: r) (auto simp: collect_broad_def zero_broad_def)

lemma active_map: "map (\<lambda>i. f (providers ! i)) (active_indices query providers) = map f (filter (broad_applicable query) providers)"
proof -
  have "filter (broad_applicable query) (map ((!) providers) [0 ..< length providers])
      = map ((!) providers) (active_indices query providers)"
    by (simp add: filter_map active_indices_def comp_def)
  then show ?thesis by (simp add: map_nth comp_def)
qed

lemma searchBroad_in_order:
  assumes "all_answer query providers arrival"
  shows "fst (searchBroad E now providers query arrival rows) = broad_in_order E now providers query rows"
proof -
  have mem: "i \<in> set arrival \<longleftrightarrow> i \<in> set (active_indices query providers)" for i
    using assms unfolding all_answer_def by blast
  have sub: "set arrival \<subseteq> {0 ..< length providers}" unfolding subset_eq Ball_def mem by (simp add: active_indices_def)
  have act: "filter (\<lambda>i. i \<in> set arrival) [0 ..< length providers] = active_indices query providers"
    unfolding mem unfolding active_indices_def by (rule filter_cong) simp_all
  have d: "distinct arrival" using assms by (simp add: all_answer_def)
  show ?thesis
    unfolding searchBroad_def broad_in_order_def Let_def fst_conv receive_map [OF d sub] collect_skip act active_map
    by (simp add: fold_map comp_def)
qed

section \<open>The search cache\<close>

lemma find_append: "find P (xs @ ys) = (case find P xs of None \<Rightarrow> find P ys | Some x \<Rightarrow> Some x)"
  by (induction xs) auto

lemma find_upsert_other:
  "\<lbrakk>\<not> P new; \<And>r. key r \<Longrightarrow> \<not> P r\<rbrakk> \<Longrightarrow> find P (sql_upsert key (\<lambda>_. True) (\<lambda>_. new) new rows) = find P rows"
proof (cases "\<exists>r \<in> set rows. key r")
  case True
  assume a: "\<not> P new" "\<And>r. key r \<Longrightarrow> \<not> P r"
  have "find P (sql_update (\<lambda>r. key r \<and> True) (\<lambda>_. new) rows) = find P rows"
    by (induction rows) (use a in \<open>auto simp: sql_update_def\<close>)
  with True show ?thesis by (simp add: sql_upsert_def)
qed (auto simp: sql_upsert_def find_append split: option.split)

lemma find_upsert_same:
  assumes "P new" "\<And>r. P r \<Longrightarrow> key r"
  shows "find P (sql_upsert key (\<lambda>_. True) (\<lambda>_. new) new rows) = Some new"
proof (cases "\<exists>r \<in> set rows. key r")
  case True
  then have "find P (sql_update (\<lambda>r. key r \<and> True) (\<lambda>_. new) rows) = Some new"
    by (induction rows) (use assms in \<open>auto simp: sql_update_def\<close>)
  with True show ?thesis by (simp add: sql_upsert_def)
next
  case False
  then have "find P rows = None" using assms(2) by (auto simp: find_None_iff)
  with False assms(1) show ?thesis by (simp add: sql_upsert_def find_append)
qed

lemma get_put_other: "pc_key entry \<noteq> key \<Longrightarrow> GetProviderCache (PutProviderCache entry rows) key t = GetProviderCache rows key t"
  unfolding GetProviderCache_def PutProviderCache_def by (rule find_upsert_other) auto

lemma get_put_same: "t < pc_expires_at entry \<Longrightarrow> GetProviderCache (PutProviderCache entry rows) (pc_key entry) t = Some entry"
  unfolding GetProviderCache_def PutProviderCache_def by (rule find_upsert_same) auto

lemma get_put_expired:
  assumes "pc_expires_at entry \<le> t"
  shows "GetProviderCache (PutProviderCache entry rows) (pc_key entry) t = None"
  using assms unfolding GetProviderCache_def PutProviderCache_def find_None_iff sql_upsert_def
  by (auto simp: set_sql_update split: if_splits)

lemma get_put:
  "GetProviderCache (PutProviderCache entry rows) key t =
    (if pc_key entry = key then if t < pc_expires_at entry then Some entry else None else GetProviderCache rows key t)"
  using get_put_same [of t entry rows] get_put_expired [of entry t rows] get_put_other [of entry key rows t] by auto

lemma written_key: "snd (ask_provider E now p query found) = Some entry \<Longrightarrow> pc_key entry = search_key_of E p query"
  by (auto simp: ask_provider_def store_answer_def Let_def split: option.splits if_splits sum.splits)

text \<open>A search of one provider changes what the cache holds for its key only, in a way that depends on that key only.\<close>

definition same_at :: "string \<Rightarrow> ProviderCacheEntry list \<Rightarrow> ProviderCacheEntry list \<Rightarrow> bool" where
  "same_at key rows rows' \<longleftrightarrow> (\<forall>t. GetProviderCache rows key t = GetProviderCache rows' key t)"

lemma search_other_key: "key \<noteq> search_key_of E p query \<Longrightarrow> same_at key (snd (searchProvider E now p query rows)) rows"
  using written_key [of E now p query]
  by (auto simp: searchProvider_def same_at_def get_put case_prod_beta split: option.split)

lemma search_same_key:
  assumes "same_at (search_key_of E p query) rows rows'"
  shows "same_at (search_key_of E p query) (snd (searchProvider E now p query rows)) (snd (searchProvider E now p query rows'))"
proof -
  have "GetProviderCache rows (search_key_of E p query) now = GetProviderCache rows' (search_key_of E p query) now"
    using assms by (simp add: same_at_def)
  then show ?thesis using assms by (auto simp: searchProvider_def same_at_def get_put case_prod_beta split: option.split)
qed

lemma same_at_trans: "\<lbrakk>same_at key a b; same_at key b c\<rbrakk> \<Longrightarrow> same_at key a c"
  by (simp add: same_at_def)

definition search_all :: "search_env \<Rightarrow> gotime \<Rightarrow> SearchQuery \<Rightarrow> adapter list \<Rightarrow> ProviderCacheEntry list \<Rightarrow> ProviderCacheEntry list" where
  "search_all E now query ps rows = fold (\<lambda>p written. snd (searchProvider E now p query written)) ps rows"

lemma search_all_other:
  "key \<notin> (\<lambda>p. search_key_of E p query) ` set ps \<Longrightarrow> same_at key (search_all E now query ps rows) rows"
proof (induction ps arbitrary: rows)
  case (Cons q ps)
  then show ?case using search_other_key [of key E q query now rows]
    by (auto simp: search_all_def intro: same_at_trans)
qed (simp add: search_all_def same_at_def)

lemma search_all_key:
  assumes "distinct (map (\<lambda>p. search_key_of E p query) ps)" "p \<in> set ps" "same_at (search_key_of E p query) rows rows'"
  shows "same_at (search_key_of E p query) (search_all E now query ps rows) (snd (searchProvider E now p query rows'))"
  using assms
proof (induction ps arbitrary: rows)
  case (Cons q ps)
  let ?rows = "snd (searchProvider E now q query rows)"
  have all: "search_all E now query (q # ps) rows = search_all E now query ps ?rows" by (simp add: search_all_def)
  show ?case
  proof (cases "search_key_of E p query = search_key_of E q query")
    case True
    then have fresh: "search_key_of E p query \<notin> (\<lambda>p. search_key_of E p query) ` set ps" using Cons.prems(1) by simp
    then have "p = q" using Cons.prems(2) by (auto simp: image_iff)
    with search_all_other [OF fresh, of now ?rows] search_same_key [OF Cons.prems(3), of now] show ?thesis
      unfolding all by (auto intro: same_at_trans)
  next
    case False
    then have "same_at (search_key_of E p query) ?rows rows'"
      using search_other_key [OF False, of now rows] Cons.prems(3) by (auto intro: same_at_trans)
    with Cons False show ?thesis unfolding all by auto
  qed
qed simp

lemma same_at_sym: "same_at key a b \<Longrightarrow> same_at key b a"
  by (simp add: same_at_def)

lemma search_all_perm:
  assumes "distinct (map (\<lambda>p. search_key_of E p query) ps)" "distinct (map (\<lambda>p. search_key_of E p query) qs)" "set ps = set qs"
  shows "same_at key (search_all E now query ps rows) (search_all E now query qs rows)"
proof (cases "key \<in> (\<lambda>p. search_key_of E p query) ` set ps")
  case True
  then obtain p where p: "p \<in> set ps" "key = search_key_of E p query" by auto
  have "same_at key rows rows" by (simp add: same_at_def)
  with p search_all_key [OF assms(1) p(1), of rows rows now] search_all_key [OF assms(2), of p rows rows now] assms(3)
  show ?thesis by (metis same_at_sym same_at_trans)
next
  case False
  then have "same_at key (search_all E now query ps rows) rows" "same_at key (search_all E now query qs rows) rows"
    using search_all_other [of key E query] assms(3) by simp_all
  then show ?thesis by (metis same_at_sym same_at_trans)
qed

text \<open>Candidates whose references survive sanitizing are cached as they are.\<close>

lemma members_same:
  "\<not> list_ex (\<lambda>(a, b). pm_download_ref a \<noteq> pm_download_ref b) (zip ms (map (\<lambda>m. m\<lparr>pm_download_ref := []\<rparr>) ms))
    \<Longrightarrow> map (\<lambda>m. m\<lparr>pm_download_ref := []\<rparr>) ms = ms"
  by (induction ms) auto

lemma safe_same:
  assumes "\<not> reference_changed c (safe_candidate E c)"
  shows "safe_candidate E c = c"
proof (cases "c_pack c")
  case None
  with assms show ?thesis by (simp add: reference_changed_def safe_candidate_def)
next
  case (Some q)
  with assms members_same [of "pk_direct_members q"] show ?thesis
    by (simp add: reference_changed_def safe_candidate_def)
qed

lemma safe_candidates_same: "\<not> cacheReferencesChanged cs (cacheSafeCandidates E cs) \<Longrightarrow> cacheSafeCandidates E cs = cs"
  unfolding cacheReferencesChanged_def cacheSafeCandidates_def by (induction cs) (auto simp: safe_same)

text \<open>What a miss that succeeded has written.\<close>

lemma miss_written:
  assumes "searchProvider E now p query rows = (Ok candidates, rows')" "ev_has_cache E"
    and "cached_answer E (GetProviderCache rows (search_key_of E p query) now) = None"
  obtains json where "DeduplicateCandidates candidates = candidates"
    and "ev_encode E \<lparr>cs_version = 1, cs_candidates = cacheSafeCandidates E candidates,
      cs_requires_refresh = cacheReferencesChanged candidates (cacheSafeCandidates E candidates)\<rparr> = Some json"
    and "rows' = PutProviderCache \<lparr>pc_key = search_key_of E p query, pc_provider_id = ad_id p, pc_results_json = json,
      pc_expires_at = now + searchCacheTTL\<rparr> rows"
proof -
  obtain cs where ans: "fst (store_answer E now p query (DeduplicateCandidates cs)) = Ok candidates"
    and rows: "rows' = (case snd (store_answer E now p query (DeduplicateCandidates cs)) of
        None \<Rightarrow> rows | Some entry \<Rightarrow> PutProviderCache entry rows)"
    using assms
    by (auto simp: searchProvider_def ask_provider_def case_prod_beta split: option.splits sum.splits if_splits)
  then have cs: "candidates = DeduplicateCandidates cs"
    by (auto simp: store_answer_def Let_def split: option.splits if_splits)
  show thesis
  proof (cases "ev_encode E \<lparr>cs_version = 1, cs_candidates = cacheSafeCandidates E candidates,
      cs_requires_refresh = cacheReferencesChanged candidates (cacheSafeCandidates E candidates)\<rparr>")
    case None
    with ans assms(2) show thesis by (simp add: store_answer_def Let_def cs)
  next
    case (Some json)
    then have "snd (store_answer E now p query (DeduplicateCandidates cs)) = Some \<lparr>pc_key = search_key_of E p query,
        pc_provider_id = ad_id p, pc_results_json = json, pc_expires_at = now + searchCacheTTL\<rparr>"
      using ans assms(2) by (auto simp: store_answer_def Let_def cs split: option.splits)
    with that [of json] rows Some show thesis by (simp add: cs dedup_idem)
  qed
qed

section \<open>Properties\<close>

text \<open>Merging duplicate results loses no evidence. The merged list has one entry per provider and result identity,
  every input candidate is covered by an entry of its identity (exact hash, flags, release names, titles, groups,
  resolutions, ratings and counts, download reference and pack), and merging again changes nothing.\<close>

theorem dedup_keeps_evidence:
  "distinct (keys_of (DeduplicateCandidates cs))
    \<and> (\<forall>c \<in> set cs. \<exists>d \<in> set (DeduplicateCandidates cs). covers d c)
    \<and> DeduplicateCandidates (DeduplicateCandidates cs) = DeduplicateCandidates cs"
  using dedup_distinct dedup_covers dedup_idem by blast

definition sample_candidate :: Candidate where
  "sample_candidate = zero_candidate\<lparr>c_provider_id := ''os'', c_result_id := ''7'', c_release_names := [''A'']\<rparr>"

theorem dedup_keeps_evidence_witness:
  "\<exists>d \<in> set (DeduplicateCandidates [sample_candidate, sample_candidate\<lparr>c_exact_hash := True, c_release_names := [''B'']\<rparr>]).
     c_exact_hash d"
proof -
  let ?c = "sample_candidate\<lparr>c_exact_hash := True, c_release_names := [''B'']\<rparr>"
  have "\<exists>d \<in> set (DeduplicateCandidates [sample_candidate, ?c]). covers d ?c"
    using dedup_keeps_evidence [of "[sample_candidate, ?c]"] by (meson list.set_intros)
  then show ?thesis by (auto simp: covers_def)
qed

definition sample_source :: "string \<Rightarrow> adapter" where
  "sample_source i = \<lparr>ad_id = i, ad_capabilities = \<lparr>cap_media_kinds = [], cap_exact_file_hash = True, cap_season_packs = True,
     cap_direct_pack_member = False, cap_single_episode_only = False\<rparr>, ad_supports_language = (\<lambda>_. True),
     ad_search_cache_version = i, ad_checks_download = True, ad_checks_search = True\<rparr>"

definition sample_env :: search_env where
  "sample_env = \<lparr>ev_url_parse = (\<lambda>s. Some ([], s)),
     ev_encode = (\<lambda>x. if x = \<lparr>cs_version = 1, cs_candidates = [sample_candidate], cs_requires_refresh = False\<rparr> then Some ''j'' else None),
     ev_decode = (\<lambda>j. Some \<lparr>cs_version = 1, cs_candidates = [sample_candidate], cs_requires_refresh = False\<rparr>),
     ev_digest = (\<lambda>s. ''k''), ev_has_cache = True, ev_get_fault = (\<lambda>k. None), ev_put_fault = (\<lambda>k. None), ev_ctx_err = None,
     ev_download_check = (\<lambda>i. None), ev_search_check = (\<lambda>i. None), ev_search = (\<lambda>i q. Ok [sample_candidate])\<rparr>"

definition sample_query :: SearchQuery where
  "sample_query = \<lparr>qu_media = zero_media, qu_language = ''en'', qu_mode = SearchBroad, qu_skip_providers = []\<rparr>"

lemma sample_env_fields [simp]: "ev_has_cache sample_env" "ev_get_fault sample_env k = None" "ev_put_fault sample_env k = None"
    "ev_ctx_err sample_env = None" "ev_download_check sample_env i = None" "ev_search_check sample_env i = None"
    "ev_search sample_env i q = Ok [sample_candidate]"
  by (simp_all add: sample_env_def)

lemma free_checks: "adapter_CheckDownload None p None = None" "adapter_CheckSearch None p None = None"
  by (simp_all add: adapter_CheckDownload_def adapter_CheckSearch_def classifyAvailabilityError_def)

lemma sample_asked: "broad_applicable sample_query (sample_source i)"
  by (simp add: broad_applicable_def sample_query_def sample_source_def SupportsMedia_def SupportsMediaKind_def
      IsEpisodeRange_def zero_media_def exactProviderMembership_def)

text \<open>the concurrent broad search is the sequential one: in whatever order the answers of the applicable providers
  arrive, its result is that of asking them one after the other in the configured order, and, when the providers'
  cache keys differ, two arrival orders leave the same answer in the cache for every key and time.\<close>

theorem broad_search_order_free:
  assumes "all_answer query providers arrival"
  shows "fst (searchBroad E now providers query arrival rows) = broad_in_order E now providers query rows
    \<and> (\<forall>arrival' key t. all_answer query providers arrival'
          \<and> distinct (map (\<lambda>i. search_key_of E (providers ! i) query) arrival)
          \<and> distinct (map (\<lambda>i. search_key_of E (providers ! i) query) arrival')
        \<longrightarrow> GetProviderCache (snd (searchBroad E now providers query arrival rows)) key t
            = GetProviderCache (snd (searchBroad E now providers query arrival' rows)) key t)"
proof -
  have all: "snd (searchBroad E now providers query a rows) = search_all E now query (map ((!) providers) a) rows" for a
    by (simp add: searchBroad_def search_all_def Let_def fold_map comp_def)
  have "same_at key (search_all E now query (map ((!) providers) arrival) rows) (search_all E now query (map ((!) providers) a) rows)"
    if "all_answer query providers a" "distinct (map (\<lambda>i. search_key_of E (providers ! i) query) arrival)"
      "distinct (map (\<lambda>i. search_key_of E (providers ! i) query) a)" for a key
    using that assms by (intro search_all_perm) (simp_all add: comp_def all_answer_def)
  then show ?thesis using searchBroad_in_order [OF assms] unfolding all same_at_def by blast
qed

theorem broad_search_order_free_witness:
  "fst (searchBroad sample_env 1 [sample_source ''a'', sample_source ''b''] sample_query [1, 0] [])
    = broad_in_order sample_env 1 [sample_source ''a'', sample_source ''b''] sample_query []"
proof -
  have "all_answer sample_query [sample_source ''a'', sample_source ''b''] [1, 0]"
    by (auto simp: all_answer_def active_indices_def sample_asked)
  from broad_search_order_free [OF this] show ?thesis by blast
qed

text \<open>Later searches of any provider, for any query and in any environment that decodes the cache the same way.\<close>

inductive later_search :: "(string \<Rightarrow> cachedSearchResults option) \<Rightarrow> gotime \<Rightarrow> ProviderCacheEntry list \<Rightarrow> ProviderCacheEntry list \<Rightarrow> bool"
  for decode until where
  "\<lbrakk>ev_decode E = decode; t < until\<rbrakk> \<Longrightarrow> later_search decode until rows (snd (searchProvider E t p query rows))"

text \<open>A search that finds a usable answer under its key writes nothing.\<close>

lemma hit_writes_nothing:
  assumes "cached_answer E (GetProviderCache rows (search_key_of E p query) t) \<noteq> None"
  shows "snd (searchProvider E t p query rows) = rows"
  using assms
  by (auto simp: searchProvider_def ask_provider_def store_answer_def split: option.split sum.split)

lemma later_search_keeps:
  assumes "(later_search decode until)\<^sup>*\<^sup>* rows rows'"
    and "\<And>t. t < until \<Longrightarrow> GetProviderCache rows key t = Some entry"
    and "decode (pc_results_json entry) = Some cached" "cs_version cached = 1" "\<not> cs_requires_refresh cached"
  shows "same_at key rows' rows"
  using assms(1)
proof induction
  case base
  show ?case by (simp add: same_at_def)
next
  case (step rows1 rows2)
  from step(2) show ?case
  proof cases
    case (1 E t p query)
    show ?thesis
    proof (cases "key = search_key_of E p query")
      case True
      have "GetProviderCache rows1 key t = Some entry" using step(3) assms(2) [OF 1(3)] by (simp add: same_at_def)
      then have "cached_answer E (GetProviderCache rows1 (search_key_of E p query) t) \<noteq> None"
        using assms(3-5) 1(2) True by (simp add: cached_answer_def)
      with hit_writes_nothing 1(1) step(3) show ?thesis by simp
    next
      case False
      from search_other_key [OF this, of t rows1] step(3) show ?thesis unfolding 1(1) by (rule same_at_trans)
    qed
  qed
qed



end
