(* ===== verification/Search_Evidence.thy ===== *)
theory Search_Evidence
  imports Coordinator_Props
begin

text \<open>
  What the workflow keeps of a search: the providers that answered with nothing and may be skipped when the search
  is resumed (\<open>src/internal/workflow/provider_resume.go\<close>), and the second search under the release's own episode
  numbering (\<open>release_numbering.go\<close>). The SHA-256 digest is the argument \<open>digest\<close>.
\<close>

section \<open>The identity of a route\<close>

definition providerRouteSignature :: "(string \<Rightarrow> string) \<Rightarrow> language \<Rightarrow> string list \<Rightarrow> string list \<Rightarrow> string" where
  "providerRouteSignature digest language preferred fallback =
     digest (concat (map digest_part
       (language # concat (map (\<lambda>i. [''preferred'', i]) preferred) @ concat (map (\<lambda>i. [''fallback'', i]) fallback))))"

definition RouteSignature :: "(string \<Rightarrow> string) \<Rightarrow> Service \<Rightarrow> language \<Rightarrow> string" where
  "RouteSignature digest s language = providerRouteSignature digest language (sv_provider_order s) (sv_fallback_order s)"

definition ResumeSignature :: "(string \<Rightarrow> string) \<Rightarrow> Service \<Rightarrow> language \<Rightarrow> MediaFingerprint \<Rightarrow> string" where
  "ResumeSignature digest s language fingerprint =
     ProviderResumeSignature digest (RouteSignature digest s language) fingerprint"

section \<open>Resuming a search\<close>

text \<open>The loop over the saved list; \<open>seen\<close> holds what it has passed.\<close>

fun valid_resume :: "string list \<Rightarrow> string list \<Rightarrow> string list \<Rightarrow> bool" where
  "valid_resume membership [] seen = True"
| "valid_resume membership (i # ids) seen =
     (if i = [] \<or> i \<notin> set membership then False
      else if i \<in> set seen then False
      else valid_resume membership ids (i # seen))"

definition validatedResumeRequest :: "(string \<Rightarrow> string) \<Rightarrow> Service \<Rightarrow> Request \<Rightarrow> (workflow_error, Request) result" where
  "validatedResumeRequest digest s request =
     (if rq_manual request
         \<or> rq_resume_route_signature request \<noteq> ResumeSignature digest s (rq_language request) (m_fingerprint (rq_media request))
      then Ok (request\<lparr>rq_resume_providers := [], rq_resume_route_signature := []\<rparr>)
      else if \<not> valid_resume (sv_provider_order s @ sv_fallback_order s) (rq_resume_providers request) []
      then Err (WOther ''invalid provider resume state'')
      else Ok request)"

record providerPhaseEvidence =
  pe_applicable :: "string list"
  pe_empty :: "string list"
  pe_candidates :: "string list"
  pe_errors :: "string list"

definition no_evidence :: providerPhaseEvidence where
  "no_evidence = \<lparr>pe_applicable = [], pe_empty = [], pe_candidates = [], pe_errors = []\<rparr>"

record providerResumeAccumulator =
  ac_exact :: providerPhaseEvidence
  ac_broad :: providerPhaseEvidence

definition zero_accumulator :: providerResumeAccumulator where
  "zero_accumulator = \<lparr>ac_exact = no_evidence, ac_broad = no_evidence\<rparr>"

definition add_evidence :: "SearchResult \<Rightarrow> providerPhaseEvidence \<Rightarrow> providerPhaseEvidence" where
  "add_evidence result phase =
     phase\<lparr>pe_applicable := sx_applicable_providers result @ pe_applicable phase,
       pe_empty := sx_empty_providers result @ pe_empty phase,
       pe_candidates := filter (\<lambda>i. i \<noteq> []) (map c_provider_id (sx_candidates result)) @ pe_candidates phase,
       pe_errors := map fst (sx_errors result) @ pe_errors phase\<rparr>"

definition consume :: "search_mode \<Rightarrow> SearchResult \<Rightarrow> providerResumeAccumulator \<Rightarrow> providerResumeAccumulator" where
  "consume mode result a =
     (if mode = SearchExactHash then a\<lparr>ac_exact := add_evidence result (ac_exact a)\<rparr>
      else a\<lparr>ac_broad := add_evidence result (ac_broad a)\<rparr>)"

definition hasCleanEmpty :: "providerPhaseEvidence \<Rightarrow> string \<Rightarrow> bool" where
  "hasCleanEmpty p i \<longleftrightarrow> i \<in> set (pe_applicable p) \<and> i \<in> set (pe_empty p)"

definition hasCandidateOrError :: "providerPhaseEvidence \<Rightarrow> string \<Rightarrow> bool" where
  "hasCandidateOrError p i \<longleftrightarrow> i \<in> set (pe_candidates p) \<or> i \<in> set (pe_errors p)"

definition cleanEmpty :: "providerResumeAccumulator \<Rightarrow> string list \<Rightarrow> string list" where
  "cleanEmpty a providerOrder =
     filter (\<lambda>i. \<not> (\<not> hasCleanEmpty (ac_broad a) i \<or> hasCandidateOrError (ac_broad a) i \<or> hasCandidateOrError (ac_exact a) i)
               \<and> \<not> (i \<in> set (pe_applicable (ac_exact a)) \<and> \<not> hasCleanEmpty (ac_exact a) i)) providerOrder"

definition mergeResumeProviders :: "Service \<Rightarrow> string list list \<Rightarrow> string list" where
  "mergeResumeProviders s groups =
     filter (\<lambda>i. i \<in> set (concat groups)) (sv_provider_order s @ sv_fallback_order s)"

definition finishProviderResume ::
  "(string \<Rightarrow> string) \<Rightarrow> Service \<Rightarrow> Request \<Rightarrow> bool \<Rightarrow> Result \<Rightarrow> workflow_error option \<Rightarrow> Result" where
  "finishProviderResume digest s request installed result runErr =
     (let clean = rs_clean_empty_providers result;
          result1 = result\<lparr>rs_clean_empty_providers := [], rs_resume_providers := [], rs_resume_route_signature := []\<rparr>
      in if installed \<or> runErr = None \<and> rs_outcome result1 \<noteq> OutcomeThrottled then result1
         else
           let resume = mergeResumeProviders s [rq_resume_providers request, clean]
           in if resume \<noteq> []
              then result1\<lparr>rs_resume_providers := resume,
                     rs_resume_route_signature := ResumeSignature digest s (rq_language request) (m_fingerprint (rq_media request))\<rparr>
              else result1\<lparr>rs_resume_providers := resume\<rparr>)"

section \<open>The release's own numbering\<close>

text \<open>\<open>release\<close> is the season and episode the release names (\<open>pack.ReleaseEpisode\<close>), if any.\<close>

definition releaseNumberedMedia :: "(Media \<Rightarrow> (int \<times> int) option) \<Rightarrow> Media \<Rightarrow> Media option" where
  "releaseNumberedMedia release media =
     (if ref_kind (m_ref media) \<noteq> MediaEpisode \<or> IsEpisodeRange media then None
      else case release media of
             None \<Rightarrow> None
           | Some (season, episode) \<Rightarrow>
               Some (media\<lparr>m_season := season, m_episode := episode, m_episode_end := 0, m_absolute_episode := 0,
                 m_absolute_episode_end := 0\<rparr>))"

definition candidateMedia :: "Media \<Rightarrow> Media option \<Rightarrow> Candidate \<Rightarrow> Media" where
  "candidateMedia media releaseMedia candidate =
     (case releaseMedia of Some m \<Rightarrow> if c_release_numbered candidate then m else media | None \<Rightarrow> media)"

definition candidateSeason :: "Candidate \<Rightarrow> int" where
  "candidateSeason candidate =
     (case c_pack candidate of Some p \<Rightarrow> if pk_season p \<noteq> 0 then pk_season p else c_season candidate | None \<Rightarrow> c_season candidate)"

definition result_key :: "Candidate \<Rightarrow> string \<times> string" where
  "result_key c = (c_provider_id c, c_result_id c)"

text \<open>The index the loop keeps: assignment order makes the last position of a key win.\<close>

definition index_of :: "Candidate list \<Rightarrow> string \<times> string \<Rightarrow> nat option" where
  "index_of cs = fold (\<lambda>i m. m(result_key (cs ! i) \<mapsto> i)) [0 ..< length cs] Map.empty"

record merge_state =
  mg_candidates :: "Candidate list"
  mg_index :: "string \<times> string \<Rightarrow> nat option"
  mg_found :: "string list"

definition merge_release_step :: "int \<Rightarrow> int \<Rightarrow> Candidate \<Rightarrow> merge_state \<Rightarrow> merge_state" where
  "merge_release_step releaseSeason arrSeason candidate0 m =
     (let key = result_key candidate0; candidate = candidate0\<lparr>c_release_numbered := True\<rparr>
      in case mg_index m key of
           Some position \<Rightarrow>
             if candidateSeason candidate = releaseSeason \<and> candidateSeason candidate \<noteq> arrSeason
             then m\<lparr>mg_candidates := (mg_candidates m)[position := candidate], mg_found := c_provider_id candidate # mg_found m\<rparr>
             else m
         | None \<Rightarrow>
             m\<lparr>mg_index := (mg_index m)(key \<mapsto> length (mg_candidates m)),
               mg_candidates := mg_candidates m @ [candidate], mg_found := c_provider_id candidate # mg_found m\<rparr>)"

definition merge_errors :: "(string \<times> provider_error) list \<Rightarrow> (string \<times> provider_error) list \<Rightarrow> (string \<times> provider_error) list" where
  "merge_errors errors release =
     fold (\<lambda>(i, e) merged.
         if i \<in> fst ` set merged then merged
         else if snd (unavailableReset (WProvider e)) then map_put i e merged else merged) release errors"

definition mergeReleaseNumberedSearch :: "SearchResult \<Rightarrow> SearchResult \<Rightarrow> int \<Rightarrow> int \<Rightarrow> SearchResult" where
  "mergeReleaseNumberedSearch search release releaseSeason arrSeason =
     (let m = fold (merge_release_step releaseSeason arrSeason) (sx_candidates release)
                \<lparr>mg_candidates = sx_candidates search, mg_index = index_of (sx_candidates search), mg_found = []\<rparr>;
          errors = merge_errors (sx_errors search) (sx_errors release)
      in search\<lparr>sx_candidates := mg_candidates m, sx_errors := errors,
           sx_empty_providers := filter (\<lambda>i. i \<notin> set (mg_found m) \<and> i \<notin> fst ` set errors) (sx_empty_providers search)\<rparr>)"

section \<open>A saved list validates\<close>

lemma valid_resume_iff:
  "valid_resume membership ids seen \<longleftrightarrow> distinct ids \<and> set ids \<inter> set seen = {} \<and> set ids \<subseteq> set membership - {[]}"
  by (induction ids arbitrary: seen) auto

lemma merge_sub: "set (mergeResumeProviders s groups) \<subseteq> set (sv_provider_order s @ sv_fallback_order s) \<inter> set (concat groups)"
  by (auto simp: mergeResumeProviders_def)

section \<open>An empty answer was given\<close>

lemma collect_empty:
  "i \<in> set (sx_empty_providers (fold collect_broad items r)) \<longleftrightarrow>
    i \<in> set (sx_empty_providers r) \<or> (\<exists>item \<in> set items. br_provider_id item = i \<and> i \<noteq> [] \<and> br_answer item = Ok [])"
proof (induction items arbitrary: r)
  case (Cons item items)
  have "i \<in> set (sx_empty_providers (collect_broad item r)) \<longleftrightarrow>
      i \<in> set (sx_empty_providers r) \<or> br_provider_id item = i \<and> i \<noteq> [] \<and> br_answer item = Ok []"
    by (auto simp: collect_broad_def split: sum.split)
  with Cons.IH [of "collect_broad item r"] show ?case by auto
qed simp

lemma broad_empty_answer:
  assumes "all_answer query providers arrival"
    and "i \<in> set (sx_empty_providers (fst (searchBroad E now providers query arrival rows)))"
  shows "\<exists>p \<in> set providers. ad_id p = i \<and> broad_applicable query p \<and> fst (searchProvider E now p query rows) = Ok []"
proof -
  have eq: "fold (\<lambda>p. collect_broad (broad_answer E now query rows p)) ps r
      = fold collect_broad (map (broad_answer E now query rows) ps) r" for ps r
    by (simp add: fold_map comp_def)
  from assms(2) show ?thesis
    unfolding searchBroad_in_order [OF assms(1)] broad_in_order_def Let_def eq collect_empty
    by (auto simp: empty_search_def broad_answer_def)
qed

text \<open>The exact search: every provider it asked is among the applicable ones, and the empty ones answered so.\<close>

lemma exact_step_fields:
  fixes acc
  assumes "exact_step E now query p acc = (r', rows')"
  shows "sx_applicable_providers r' = sx_applicable_providers (fst acc) @ (if exact_applicable query p then [ad_id p] else [])"
    and "set (sx_empty_providers r') \<subseteq> set (sx_empty_providers (fst acc))
      \<union> (if exact_applicable query p \<and> fst (searchProvider E now p query (snd acc)) = Ok [] then {ad_id p} else {})"
  using assms
  by (auto simp: exact_step_def Let_def case_prod_beta split: sum.splits if_splits)

lemma exact_fold_applicable:
  "sx_applicable_providers (fst (fold (exact_step E now query) ps acc))
    = sx_applicable_providers (fst acc) @ map ad_id (filter (exact_applicable query) ps)"
proof (induction ps arbitrary: acc)
  case (Cons p ps)
  show ?case using Cons.IH [of "exact_step E now query p acc"] exact_step_fields(1) [of E now query p acc]
    by (cases "exact_step E now query p acc") simp
qed simp

lemma exact_fold_empty:
  "i \<in> set (sx_empty_providers (fst (fold (exact_step E now query) ps acc))) \<Longrightarrow> i \<in> set (sx_empty_providers (fst acc))
    \<or> (\<exists>p \<in> set ps. \<exists>rows. ad_id p = i \<and> exact_applicable query p \<and> fst (searchProvider E now p query rows) = Ok [])"
proof (induction ps arbitrary: acc)
  case (Cons p ps)
  show ?case using Cons.IH [of "exact_step E now query p acc"] exact_step_fields(2) [of E now query p acc] Cons.prems
    by (cases "exact_step E now query p acc") (auto split: if_splits)
qed simp

section \<open>Merging the release-numbered search\<close>

definition merge_ok :: "merge_state \<Rightarrow> bool" where
  "merge_ok m \<longleftrightarrow>
     (\<forall>k i. mg_index m k = Some i \<longrightarrow> i < length (mg_candidates m) \<and> result_key (mg_candidates m ! i) = k)
     \<and> (\<forall>c \<in> set (mg_candidates m). mg_index m (result_key c) \<noteq> None)
     \<and> (\<forall>c \<in> set (mg_candidates m). c_release_numbered c \<longrightarrow> c_provider_id c \<in> set (mg_found m))"

lemma merge_okD:
  assumes "merge_ok m"
  shows "mg_index m k = Some i \<Longrightarrow> i < length (mg_candidates m) \<and> result_key (mg_candidates m ! i) = k"
    and "c \<in> set (mg_candidates m) \<Longrightarrow> mg_index m (result_key c) \<noteq> None"
    and "\<lbrakk>c \<in> set (mg_candidates m); c_release_numbered c\<rbrakk> \<Longrightarrow> c_provider_id c \<in> set (mg_found m)"
  using assms unfolding merge_ok_def by blast+

lemma merge_okI:
  assumes "\<And>k i. mg_index m k = Some i \<Longrightarrow> i < length (mg_candidates m) \<and> result_key (mg_candidates m ! i) = k"
    and "\<And>c. c \<in> set (mg_candidates m) \<Longrightarrow> mg_index m (result_key c) \<noteq> None"
    and "\<And>c. \<lbrakk>c \<in> set (mg_candidates m); c_release_numbered c\<rbrakk> \<Longrightarrow> c_provider_id c \<in> set (mg_found m)"
  shows "merge_ok m"
  using assms unfolding merge_ok_def by blast

lemma index_of_upto:
  "n \<le> length cs \<Longrightarrow> fold (\<lambda>i m. m(result_key (cs ! i) \<mapsto> i)) [0 ..< n] Map.empty k = Some i \<longrightarrow> i < n \<and> result_key (cs ! i) = k"
  "n \<le> length cs \<Longrightarrow> j < n \<Longrightarrow> fold (\<lambda>i m. m(result_key (cs ! i) \<mapsto> i)) [0 ..< n] Map.empty (result_key (cs ! j)) \<noteq> None"
  by (induction n) (auto simp: less_Suc_eq)

lemma index_of_ok:
  "index_of cs k = Some i \<Longrightarrow> i < length cs \<and> result_key (cs ! i) = k"
  "c \<in> set cs \<Longrightarrow> index_of cs (result_key c) \<noteq> None"
  using index_of_upto [of "length cs" cs] by (auto simp: index_of_def in_set_conv_nth)

lemma result_key_numbered [simp]: "result_key (c\<lparr>c_release_numbered := b\<rparr>) = result_key c"
  by (simp add: result_key_def)

lemma merge_step_ok:
  assumes "merge_ok m"
  shows "merge_ok (merge_release_step rel arr c m)"
proof (cases "mg_index m (result_key c)")
  case None
  then have eq: "merge_release_step rel arr c m = m\<lparr>mg_index := (mg_index m)(result_key c \<mapsto> length (mg_candidates m)),
      mg_candidates := mg_candidates m @ [c\<lparr>c_release_numbered := True\<rparr>], mg_found := c_provider_id c # mg_found m\<rparr>"
    by (simp add: merge_release_step_def)
  show ?thesis unfolding eq
  proof (rule merge_okI)
    fix k i
    assume "mg_index (m\<lparr>mg_index := (mg_index m)(result_key c \<mapsto> length (mg_candidates m)),
      mg_candidates := mg_candidates m @ [c\<lparr>c_release_numbered := True\<rparr>], mg_found := c_provider_id c # mg_found m\<rparr>) k = Some i"
    then show "i < length (mg_candidates (m\<lparr>mg_index := (mg_index m)(result_key c \<mapsto> length (mg_candidates m)),
        mg_candidates := mg_candidates m @ [c\<lparr>c_release_numbered := True\<rparr>], mg_found := c_provider_id c # mg_found m\<rparr>))
      \<and> result_key (mg_candidates (m\<lparr>mg_index := (mg_index m)(result_key c \<mapsto> length (mg_candidates m)),
        mg_candidates := mg_candidates m @ [c\<lparr>c_release_numbered := True\<rparr>], mg_found := c_provider_id c # mg_found m\<rparr>) ! i) = k"
      using merge_okD(1) [OF assms, of k i] by (auto simp: nth_append split: if_splits)
  qed (use merge_okD(2,3) [OF assms] in auto)
next
  case (Some i)
  let ?c = "c\<lparr>c_release_numbered := True\<rparr>"
  have i: "i < length (mg_candidates m)" "result_key (mg_candidates m ! i) = result_key c"
    using merge_okD(1) [OF assms Some] by auto
  have sub: "set ((mg_candidates m)[i := ?c]) \<subseteq> insert ?c (set (mg_candidates m))" by (rule set_update_subset_insert)
  have "merge_ok (m\<lparr>mg_candidates := (mg_candidates m)[i := ?c], mg_found := c_provider_id c # mg_found m\<rparr>)"
  proof (rule merge_okI)
    fix k j
    assume "mg_index (m\<lparr>mg_candidates := (mg_candidates m)[i := ?c], mg_found := c_provider_id c # mg_found m\<rparr>) k = Some j"
    then show "j < length (mg_candidates (m\<lparr>mg_candidates := (mg_candidates m)[i := ?c], mg_found := c_provider_id c # mg_found m\<rparr>))
      \<and> result_key (mg_candidates (m\<lparr>mg_candidates := (mg_candidates m)[i := ?c], mg_found := c_provider_id c # mg_found m\<rparr>) ! j) = k"
      using merge_okD(1) [OF assms, of k j] i by (auto simp: nth_list_update)
  qed (use merge_okD(2,3) [OF assms] Some sub in auto)
  then show ?thesis using assms Some by (simp add: merge_release_step_def Let_def)
qed

lemma merge_step_keys:
  assumes "merge_ok m"
  shows "map result_key (mg_candidates (merge_release_step rel arr c m)) =
    map result_key (mg_candidates m) @ (if mg_index m (result_key c) = None then [result_key c] else [])"
proof (cases "mg_index m (result_key c)")
  case (Some i)
  then have "result_key (mg_candidates m ! i) = result_key c" "i < length (mg_candidates m)"
    using merge_okD(1) [OF assms Some] by auto
  then have "map result_key ((mg_candidates m)[i := c\<lparr>c_release_numbered := True\<rparr>]) = map result_key (mg_candidates m)"
    by (simp add: map_update list_update_same_conv)
  with Some show ?thesis by (simp add: merge_release_step_def Let_def)
qed (simp add: merge_release_step_def)

lemma merge_fold_ok: "merge_ok m \<Longrightarrow> merge_ok (fold (merge_release_step rel arr) cs m)"
  by (induction cs arbitrary: m) (auto intro: merge_step_ok)

lemma merge_index_None: "merge_ok m \<Longrightarrow> mg_index m (result_key c) = None \<longleftrightarrow> result_key c \<notin> set (map result_key (mg_candidates m))"
proof (cases "mg_index m (result_key c)")
  case None
  assume ok: "merge_ok m"
  show ?thesis using merge_okD(2) [OF ok] None by (auto, metis option.distinct(1))
next
  case (Some i)
  assume ok: "merge_ok m"
  have "mg_candidates m ! i \<in> set (mg_candidates m)" "result_key (mg_candidates m ! i) = result_key c"
    using merge_okD(1) [OF ok Some] by auto
  with Some show ?thesis by (auto intro: rev_image_eqI)
qed

lemma merge_fold_keys:
  "merge_ok m \<Longrightarrow> set (map result_key (mg_candidates (fold (merge_release_step rel arr) cs m)))
    = set (map result_key (mg_candidates m)) \<union> result_key ` set cs"
proof (induction cs arbitrary: m)
  case (Cons c cs)
  have "set (map result_key (mg_candidates (merge_release_step rel arr c m))) = insert (result_key c) (set (map result_key (mg_candidates m)))"
    using merge_index_None [OF Cons.prems, of c] unfolding merge_step_keys [OF Cons.prems] by auto
  with Cons.IH [OF merge_step_ok [OF Cons.prems, of rel arr c]] show ?case by (simp del: set_map)
qed simp

lemma merge_fold_distinct:
  "\<lbrakk>merge_ok m; distinct (map result_key (mg_candidates m))\<rbrakk>
    \<Longrightarrow> distinct (map result_key (mg_candidates (fold (merge_release_step rel arr) cs m)))"
proof (induction cs arbitrary: m)
  case (Cons c cs)
  have "distinct (map result_key (mg_candidates (merge_release_step rel arr c m)))"
    unfolding merge_step_keys [OF Cons.prems(1)] using merge_index_None [OF Cons.prems(1), of c] Cons.prems(2) by (simp del: set_map)
  with Cons.IH [OF merge_step_ok [OF Cons.prems(1), of rel arr c]] show ?case by simp
qed simp

lemma merge_start_ok:
  "\<forall>c \<in> set cs. \<not> c_release_numbered c \<Longrightarrow> merge_ok \<lparr>mg_candidates = cs, mg_index = index_of cs, mg_found = []\<rparr>"
  using index_of_ok by (intro merge_okI) auto

section \<open>Properties\<close>

text \<open>Saved provider progress comes back. The list a finished search saves passes the validation of the next request
  for the same media and language with its list kept, when the configured providers have distinct and
  nonempty names; it is dropped, without an error, on a manual request or when the route's signature changed.\<close>

theorem resume_list_validates:
  fixes digest s request result installed err
  defines "saved \<equiv> finishProviderResume digest s request installed result err"
  assumes "distinct (sv_provider_order s @ sv_fallback_order s)" "[] \<notin> set (sv_provider_order s @ sv_fallback_order s)"
    and "rs_resume_providers saved \<noteq> []"
    and "rq_language request' = rq_language request" "m_fingerprint (rq_media request') = m_fingerprint (rq_media request)"
    and "rq_resume_providers request' = rs_resume_providers saved" "rq_resume_route_signature request' = rs_resume_route_signature saved"
  shows "(\<not> rq_manual request' \<longrightarrow> validatedResumeRequest digest s request' = Ok request')
    \<and> (rq_manual request' \<or> rs_resume_route_signature saved \<noteq> ResumeSignature digest s' (rq_language request) (m_fingerprint (rq_media request))
        \<longrightarrow> (\<exists>r. validatedResumeRequest digest s' request' = Ok r \<and> rq_resume_providers r = []))
    \<and> \<not> installed \<and> (err \<noteq> None \<or> rs_outcome result = OutcomeThrottled)"
proof -
  have unfinished: "\<not> installed \<and> (err \<noteq> None \<or> rs_outcome result = OutcomeThrottled)"
    using assms(4) by (auto simp: saved_def finishProviderResume_def Let_def split: if_splits)
  have list: "rs_resume_providers saved = mergeResumeProviders s [rq_resume_providers request, rs_clean_empty_providers result]"
    and sig: "rs_resume_route_signature saved = ResumeSignature digest s (rq_language request) (m_fingerprint (rq_media request))"
    using assms(4) by (auto simp: saved_def finishProviderResume_def Let_def split: if_splits)
  have "valid_resume (sv_provider_order s @ sv_fallback_order s) (rs_resume_providers saved) []"
    unfolding valid_resume_iff list using assms(2,3) by (auto simp: mergeResumeProviders_def)
  then have "\<not> rq_manual request' \<longrightarrow> validatedResumeRequest digest s request' = Ok request'"
    using assms(5-) sig by (simp add: validatedResumeRequest_def)
  then show ?thesis using unfinished assms(5-) by (auto simp: validatedResumeRequest_def)
qed

definition resumed_service :: Service where
  "resumed_service = \<lparr>sv_provider_order = [''a''], sv_preferred_order = None, sv_fallback_order = [''b''],
     sv_has_fallback_searcher = True, sv_minimum_upgrade_delta = 0, sv_max_upgrade_checks = 0, sv_aged_after = 0,
     sv_allow_hearing_impaired = False\<rparr>"

definition sample_search_request :: Request where
  "sample_search_request = \<lparr>rq_media_id = 1, rq_media = zero_media, rq_language = ''en'', rq_manual = False, rq_force_probe = False,
     rq_upgrade_attempt = 0, rq_resume_providers = [], rq_resume_route_signature = [], rq_replace_installed = False, rq_replacing = None\<rparr>"

theorem resume_list_validates_witness:
  "\<exists>request'. rq_resume_providers request' = [''b''] \<and> validatedResumeRequest (\<lambda>x. ''d'') resumed_service request' = Ok request'"
proof -
  let ?result = "zero_result\<lparr>rs_outcome := OutcomeThrottled, rs_clean_empty_providers := [''b'']\<rparr>"
  let ?saved = "finishProviderResume (\<lambda>x. ''d'') resumed_service sample_search_request False ?result None"
  have list: "rs_resume_providers ?saved = [''b'']"
    by (simp add: finishProviderResume_def Let_def mergeResumeProviders_def resumed_service_def zero_result_def sample_search_request_def)
  let ?request = "sample_search_request\<lparr>rq_resume_providers := [''b''], rq_resume_route_signature := rs_resume_route_signature ?saved\<rparr>"
  have "validatedResumeRequest (\<lambda>x. ''d'') resumed_service ?request = Ok ?request"
    using resume_list_validates [of resumed_service "\<lambda>x. ''d''" sample_search_request False ?result None ?request]
    by (simp add: list) (simp add: resumed_service_def sample_search_request_def)
  then show ?thesis by (intro exI [of _ ?request]) simp
qed

text \<open>A resumed search skips only providers that answered with nothing. After the exact and the broad search of the
  coordinator, in whatever order the broad answers came, a provider on the clean list was asked in the broad
  search and answered with no candidate and no error, and the same holds for the exact search if it was asked there.\<close>

theorem skipped_provider_answered:
  assumes "all_answer query providers arrival" "distinct (map ad_id providers)"
    and "i \<in> set (cleanEmpty (consume SearchBroad (fst (searchBroad E now providers query arrival rows))
               (consume SearchExactHash (fst (searchExact E' now' providers query' rows')) zero_accumulator)) order)"
  shows "i \<in> set order
    \<and> (\<exists>p \<in> set providers. ad_id p = i \<and> broad_applicable query p \<and> fst (searchProvider E now p query rows) = Ok [])
    \<and> (\<forall>p \<in> set providers. ad_id p = i \<and> exact_applicable query' p
         \<longrightarrow> (\<exists>rows''. fst (searchProvider E' now' p query' rows'') = Ok []))"
proof -
  let ?broad = "fst (searchBroad E now providers query arrival rows)" and ?exact = "fst (searchExact E' now' providers query' rows')"
  have modes: "SearchBroad \<noteq> SearchExactHash" by (simp add: SearchBroad_def SearchExactHash_def)
  have i: "i \<in> set order" "i \<in> set (sx_empty_providers ?broad)"
      "i \<in> set (sx_applicable_providers ?exact) \<Longrightarrow> i \<in> set (sx_empty_providers ?exact)"
    using assms(3) modes
    by (auto simp: cleanEmpty_def consume_def hasCleanEmpty_def add_evidence_def zero_accumulator_def no_evidence_def)
  have "\<exists>rows''. fst (searchProvider E' now' p query' rows'') = Ok []" if p: "p \<in> set providers" "ad_id p = i" "exact_applicable query' p" for p
  proof -
    have "i \<in> set (sx_applicable_providers ?exact)"
      using p by (auto simp: searchExact_def exact_fold_applicable empty_search_def)
    then have "i \<in> set (sx_empty_providers ?exact)" by (rule i(3))
    then obtain q rows'' where "q \<in> set providers" "ad_id q = i" "fst (searchProvider E' now' q query' rows'') = Ok []"
      using exact_fold_empty [of i E' now' query' providers "(empty_search, rows')"] by (auto simp: searchExact_def empty_search_def)
    moreover from this p assms(2) have "q = p" by (auto simp: distinct_map inj_on_def)
    ultimately show ?thesis by blast
  qed
  with i(1) broad_empty_answer [OF assms(1) i(2)] show ?thesis by blast
qed

theorem skipped_provider_answered_witness:
  "\<exists>p \<in> set [sample_source ''a'']. ad_id p = ''a'' \<and> broad_applicable sample_query p
     \<and> fst (searchProvider (sample_env\<lparr>ev_search := \<lambda>i q. Ok [], ev_has_cache := False\<rparr>) 1 p sample_query []) = Ok []"
proof -
  let ?E = "sample_env\<lparr>ev_search := \<lambda>i q. Ok [], ev_has_cache := False\<rparr>" and ?p = "sample_source ''a''"
  have all: "all_answer sample_query [?p] [0]" by (simp add: all_answer_def active_indices_def sample_asked)
  have ans: "searchProvider ?E 1 ?p sample_query rows = (Ok [], rows)" for rows
    by (simp add: searchProvider_def ask_provider_def store_answer_def DeduplicateCandidates_def free_checks)
  have ad: "ad_id ?p = ''a''" by (simp add: sample_source_def)
  have broad: "fst (searchBroad ?E 1 [?p] sample_query [0] []) = empty_search\<lparr>sx_applicable_providers := [''a''], sx_empty_providers := [''a'']\<rparr>"
    unfolding searchBroad_in_order [OF all]
    by (simp add: broad_in_order_def sample_asked broad_answer_def collect_broad_def ans ad empty_search_def map_delete_def)
  have exact: "fst (searchExact ?E 1 [?p] sample_query []) = empty_search\<lparr>sx_applicable_providers := [''a''], sx_empty_providers := [''a'']\<rparr>"
    using sample_asked [of "''a''"] by (simp add: searchExact_def exact_step_def exact_applicable_def ans ad empty_search_def) (simp add: sample_source_def)
  have "''a'' \<in> set (cleanEmpty (consume SearchBroad (fst (searchBroad ?E 1 [?p] sample_query [0] []))
      (consume SearchExactHash (fst (searchExact ?E 1 [?p] sample_query [])) zero_accumulator)) [''a''])"
    unfolding broad exact
    by (simp add: cleanEmpty_def consume_def hasCleanEmpty_def hasCandidateOrError_def add_evidence_def zero_accumulator_def
        no_evidence_def empty_search_def SearchBroad_def SearchExactHash_def)
  from skipped_provider_answered [OF all _ this] show ?thesis by simp
qed

text \<open>Adding the search under the release's numbering loses no result and hides no provider: every result of either
  search is in the merged list under its identity, identities stay unique, and a provider is reported empty
  only if it was empty before, has no error in either search that counts, and has no release-numbered result.\<close>

theorem release_merge_keeps:
  fixes search release rel arr
  defines "merged \<equiv> mergeReleaseNumberedSearch search release rel arr"
  assumes "\<forall>c \<in> set (sx_candidates search). \<not> c_release_numbered c"
  shows "result_key ` set (sx_candidates merged) = result_key ` (set (sx_candidates search) \<union> set (sx_candidates release))
    \<and> (distinct (map result_key (sx_candidates search)) \<longrightarrow> distinct (map result_key (sx_candidates merged)))
    \<and> (\<forall>i \<in> set (sx_empty_providers merged). i \<in> set (sx_empty_providers search) \<and> i \<notin> fst ` set (sx_errors merged)
         \<and> (\<forall>c \<in> set (sx_candidates merged). c_release_numbered c \<longrightarrow> c_provider_id c \<noteq> i))"
proof -
  let ?start = "\<lparr>mg_candidates = sx_candidates search, mg_index = index_of (sx_candidates search), mg_found = []\<rparr>"
  let ?m = "fold (merge_release_step rel arr) (sx_candidates release) ?start"
  have ok0: "merge_ok ?start" by (rule merge_start_ok [OF assms(2)])
  have cands: "sx_candidates merged = mg_candidates ?m" by (simp add: merged_def mergeReleaseNumberedSearch_def Let_def)
  have "result_key ` set (sx_candidates merged) = result_key ` (set (sx_candidates search) \<union> set (sx_candidates release))"
    using merge_fold_keys [OF ok0, of rel arr "sx_candidates release"] by (simp add: cands image_Un)
  moreover have "distinct (map result_key (sx_candidates search)) \<longrightarrow> distinct (map result_key (sx_candidates merged))"
    using merge_fold_distinct [OF ok0, of rel arr "sx_candidates release"] by (simp add: cands)
  moreover have "c_provider_id c \<noteq> i" if "i \<in> set (sx_empty_providers merged)" "c \<in> set (sx_candidates merged)" "c_release_numbered c" for i c
    using that merge_okD(3) [OF merge_fold_ok [OF ok0, of rel arr "sx_candidates release"], of c]
    by (auto simp: merged_def mergeReleaseNumberedSearch_def Let_def)
  moreover have "i \<in> set (sx_empty_providers search) \<and> i \<notin> fst ` set (sx_errors merged)" if "i \<in> set (sx_empty_providers merged)" for i
    using that by (simp add: merged_def mergeReleaseNumberedSearch_def Let_def)
  ultimately show ?thesis by blast
qed

theorem release_merge_keeps_witness:
  "distinct (map result_key (sx_candidates (mergeReleaseNumberedSearch (empty_search\<lparr>sx_candidates := [sample_candidate]\<rparr>)
      (empty_search\<lparr>sx_candidates := [sample_candidate\<lparr>c_season := 2\<rparr>]\<rparr>) 2 1)))"
  using release_merge_keeps [of "empty_search\<lparr>sx_candidates := [sample_candidate]\<rparr>"
      "empty_search\<lparr>sx_candidates := [sample_candidate\<lparr>c_season := 2\<rparr>]\<rparr>" 2 1]
  by (simp add: sample_candidate_def zero_candidate_def)

end
