(* ===== verification/Workflow_Run.thy ===== *)
theory Workflow_Run
  imports Search_Evidence
begin

text \<open>
  One search for one media file and language (\<open>src/internal/workflow/service.go\<close>: \<open>Run\<close>, \<open>replaceInstalled\<close>,
  \<open>removeRejected\<close>; \<open>provider_tiers.go\<close>: \<open>runProviderTiers\<close>, \<open>retainFallback\<close>). What these functions call on
  their interfaces acts on a world of type \<open>'w\<close> (the media and subtitle files and the database): refreshing the
  inventory, reading and reconciling the installation record, removing a subtitle, and acquiring from one
  provider tier. Each call is a field of the environment that takes the world and returns the next one, so the
  order of the calls and the calls not made are visible. Log events and the candidate count are left out.
\<close>

section \<open>Inventory\<close>

record Track =
  tr_index :: int
  tr_path :: string
  tr_language :: language
  tr_codec :: string
  tr_embedded :: bool
  tr_forced :: bool
  tr_default :: bool
  tr_sdh :: bool
  tr_protected :: bool
  tr_symlink :: bool
  tr_checksum :: string

record Inventory =
  iv_fingerprint :: MediaFingerprint
  iv_tracks :: "Track list"

definition covering_track :: "externals \<Rightarrow> language \<Rightarrow> bool \<Rightarrow> Track \<Rightarrow> bool" where
  "covering_track X language allowHearingImpaired track \<longleftrightarrow>
     TrackCoversLanguage X (tr_language track) (tr_forced track) (tr_sdh track) language allowHearingImpaired"

definition is_installation :: "Track \<Rightarrow> Installation \<Rightarrow> bool" where
  "is_installation track installation \<longleftrightarrow>
     filepath_Clean (tr_path track) = filepath_Clean (in_path installation) \<and> tr_checksum track = in_checksum installation"

definition inventoryStopsSearch :: "externals \<Rightarrow> Inventory \<Rightarrow> language \<Rightarrow> bool \<Rightarrow> bool \<Rightarrow> Installation \<Rightarrow> bool" where
  "inventoryStopsSearch X current language allowHearingImpaired installed installation \<longleftrightarrow>
     list_ex (\<lambda>track. covering_track X language allowHearingImpaired track
       \<and> (tr_embedded track \<or> tr_protected track \<or> \<not> installed \<or> \<not> is_installation track installation)) (iv_tracks current)"

definition managedInstallationPresent :: "Inventory \<Rightarrow> Installation \<Rightarrow> bool" where
  "managedInstallationPresent current installation \<longleftrightarrow>
     list_ex (\<lambda>track. \<not> (tr_embedded track \<or> tr_path track = []) \<and> is_installation track installation) (iv_tracks current)"

section \<open>The interfaces of the service\<close>

record Reconciliation =
  rc_changed :: bool
  rc_removed :: bool
  rc_deferred :: bool
  rc_retry_at :: gotime

text \<open>The outcome of \<open>RemoveManaged\<close>: done, \<open>ErrManagedSubtitleChanged\<close>, or another error.\<close>

datatype removal = Removed_ok | Changed_on_disk | Removal_failed workflow_error

record 'w workflow_env =
  wv_decode :: "string \<Rightarrow> Score option"
  wv_digest :: "string \<Rightarrow> string"
  wv_externals :: externals
  wv_fused :: bool
  wv_complete :: bool
  wv_ctx_err :: "'w \<Rightarrow> workflow_error option"
  wv_now :: "'w \<Rightarrow> gotime"
  wv_unit :: "'w \<Rightarrow> rat"
  wv_refresh :: "Request \<Rightarrow> bool \<Rightarrow> 'w \<Rightarrow> (workflow_error, Inventory) result \<times> 'w"
  wv_get_installation :: "Request \<Rightarrow> 'w \<Rightarrow> (workflow_error, Installation option) result"
  wv_reconcile :: "(Request \<Rightarrow> Installation \<Rightarrow> 'w \<Rightarrow> (workflow_error, Reconciliation) result \<times> 'w) option"
  wv_remove :: "(Request \<Rightarrow> Installation \<Rightarrow> 'w \<Rightarrow> removal \<times> 'w) option"
  wv_acquire :: "Service \<Rightarrow> bool \<Rightarrow> Request \<Rightarrow> Installation \<Rightarrow> bool \<Rightarrow> 'w \<Rightarrow> (Result \<times> workflow_error option) \<times> 'w"

definition workflow_validate :: "'w workflow_env \<Rightarrow> Request \<Rightarrow> workflow_error option" where
  "workflow_validate E request =
     (if \<not> wv_complete E then Some (WOther ''workflow dependencies are incomplete'')
      else if rq_media_id request \<le> 0 \<or> rq_language request = [] \<or> fp_path (m_fingerprint (rq_media request)) = []
      then Some (WOther ''workflow request identity is incomplete'')
      else None)"

section \<open>Provider tiers\<close>

definition installed_candidate :: "Installation \<Rightarrow> bool \<Rightarrow> Candidate" where
  "installed_candidate existing exact =
     zero_candidate\<lparr>c_provider_id := in_provider_id existing, c_result_id := in_candidate_id existing, c_exact_hash := exact\<rparr>"

definition retainFallback ::
  "(string \<Rightarrow> Score option) \<Rightarrow> gotime \<Rightarrow> Result \<Rightarrow> workflow_error option \<Rightarrow> Installation \<Rightarrow> Result \<times> workflow_error option" where
  "retainFallback decode now result err existing0 =
     (if err \<noteq> None \<or> rs_outcome result = OutcomeThrottled then (result, err)
      else
        let existing = (if in_media_id (rs_installation result) \<noteq> 0 then rs_installation result else existing0)
        in case installedScore decode existing of
             Err e \<Rightarrow> (result, Some e)
           | Ok (score, exact) \<Rightarrow>
               (result\<lparr>rs_outcome := OutcomeSatisfied, rs_installation := existing, rs_score := score,
                  rs_candidate := installed_candidate existing exact, rs_next_upgrade := now + 7 * 24 * hour\<rparr>, None))"

text \<open>The two services \<open>acquire\<close> runs on: they remember the preferred order.\<close>

definition preferred_service :: "Service \<Rightarrow> Service" where
  "preferred_service s = s\<lparr>sv_preferred_order := Some (sv_provider_order s)\<rparr>"

definition fallback_service :: "Service \<Rightarrow> Service" where
  "fallback_service s = (preferred_service s)\<lparr>sv_provider_order := sv_fallback_order s\<rparr>"

definition owned_match :: "bool \<Rightarrow> Installation \<Rightarrow> Media \<Rightarrow> bool" where
  "owned_match installed existing media \<longleftrightarrow> installed \<and> InstallationMatchesMedia existing media"

text \<open>What the second tier's outcome becomes in view of the first one's.\<close>

definition combine_tiers ::
  "'w workflow_env \<Rightarrow> Service \<Rightarrow> Request \<Rightarrow> Installation \<Rightarrow> bool \<Rightarrow> gotime \<Rightarrow> workflow_error option
   \<Rightarrow> Result \<times> workflow_error option \<Rightarrow> Result \<times> workflow_error option \<Rightarrow> Result \<times> workflow_error option" where
  "combine_tiers E s request existing installed now ctx_err tier1 tier2 =
     (let (first, firstErr) = tier1; (second0, secondErr) = tier2;
          second = second0\<lparr>rs_clean_empty_providers := mergeResumeProviders s [rs_clean_empty_providers first, rs_clean_empty_providers second0],
            rs_decisions := rs_decisions first @ rs_decisions second0,
            rs_provider_errors := fold (\<lambda>(i, e). map_put i e) (rs_provider_errors first) (rs_provider_errors second0)\<rparr>
      in if ctx_err \<noteq> None then (second, join_errors secondErr ctx_err)
         else if secondErr \<noteq> None \<and> \<not> is_exhausted (the secondErr) then (second, secondErr)
         else if secondErr = None \<and> rs_outcome second = OutcomeInstalled
         then let next = preferredRetryAt first now (rs_next_upgrade second)
              in (second\<lparr>rs_upgrade_recovery := next < rs_next_upgrade second, rs_next_upgrade := next\<rparr>, None)
         else if firstErr \<noteq> None \<or> secondErr \<noteq> None then (second, join_errors firstErr secondErr)
         else
           let third = (if rs_outcome first = OutcomeThrottled
                 then second\<lparr>rs_outcome := OutcomeThrottled, rs_retry_at := earlier_reset (rs_retry_at first) (rs_retry_at second)\<rparr>
                 else second)
           in if owned_match installed existing (rq_media request) then retainFallback (wv_decode E) now third None existing
              else if rs_outcome third = OutcomeNoResult \<and> rs_outcome first = OutcomeRejected
              then (third\<lparr>rs_outcome := OutcomeRejected\<rparr>, None)
              else (third, None))"

definition tiers_body ::
  "'w workflow_env \<Rightarrow> Service \<Rightarrow> Request \<Rightarrow> Installation \<Rightarrow> bool \<Rightarrow> 'w \<Rightarrow> (Result \<times> workflow_error option) \<times> 'w" where
  "tiers_body E s request existing installed w =
     (let (tier1, w1) = wv_acquire E (preferred_service s) False request existing installed w;
          (first, firstErr) = tier1
      in if wv_ctx_err E w1 \<noteq> None then ((first, join_errors firstErr (wv_ctx_err E w1)), w1)
         else if firstErr \<noteq> None \<and> \<not> is_exhausted (the firstErr) then (tier1, w1)
         else if firstErr = None \<and> (rs_outcome first = OutcomeInstalled \<or> rs_outcome first = OutcomeSatisfied) then (tier1, w1)
         else if \<not> sv_has_fallback_searcher s \<or> sv_fallback_order s = [] then (tier1, w1)
         else if owned_match installed existing (rq_media request) \<and> \<not> isFallbackProvider s (in_provider_id existing) then (tier1, w1)
         else
           let ask_fallback =
             (let (tier2, w2) = wv_acquire E (fallback_service s) True request existing installed w1
              in (combine_tiers E s request existing installed (wv_now E w2) (wv_ctx_err E w2) tier1 tier2, w2))
           in if owned_match installed existing (rq_media request)
              then case installedScore (wv_decode E) existing of
                     Err e \<Rightarrow> ((first, Some e), w1)
                   | Ok (score, exact) \<Rightarrow>
                       if exact then (retainFallback (wv_decode E) (wv_now E w1) first firstErr existing, w1) else ask_fallback
              else ask_fallback)"

definition runProviderTiers ::
  "'w workflow_env \<Rightarrow> Service \<Rightarrow> Request \<Rightarrow> Installation \<Rightarrow> bool \<Rightarrow> 'w \<Rightarrow> (Result \<times> workflow_error option) \<times> 'w" where
  "runProviderTiers E s request0 existing installed w =
     (let request = (if installed then request0\<lparr>rq_resume_providers := [], rq_resume_route_signature := []\<rparr> else request0);
          ((result, err), w') = tiers_body E s request existing installed w
      in ((finishProviderResume (wv_digest E) s request installed result err, err), w'))"

section \<open>Replacing a rejected subtitle\<close>

definition reportRemovedBeforeSearch :: "Result \<Rightarrow> Result" where
  "reportRemovedBeforeSearch result =
     (if rs_outcome result = OutcomeNoResult \<or> rs_outcome result = OutcomeRejected \<or> rs_outcome result = OutcomeSatisfied
      then result\<lparr>rs_removed_after := rs_outcome result, rs_outcome := OutcomeRemoved, rs_next_upgrade := zero_time\<rparr>
      else result)"

definition removeRejected ::
  "'w workflow_env \<Rightarrow> Request \<Rightarrow> Installation \<Rightarrow> Result \<Rightarrow> 'w \<Rightarrow> (Result \<times> workflow_error option) \<times> 'w" where
  "removeRejected E request existing result w =
     (case wv_remove E of
        None \<Rightarrow> ((result, Some (WOther ''installer cannot remove the rejected subtitle'')), w)
      | Some remover \<Rightarrow>
          (case remover request existing w of
             (Changed_on_disk, w') \<Rightarrow>
               ((result\<lparr>rs_decisions := rs_decisions result @ [\<lparr>dn_stage = ''removal'', dn_provider_id = [], dn_result_id = [],
                   dn_reason = ''managed subtitle changed on disk; kept''\<rparr>]\<rparr>, None), w')
           | (Removal_failed e, w') \<Rightarrow> ((result, Some e), w')
           | (Removed_ok, w') \<Rightarrow>
               ((result\<lparr>rs_removed_after := rs_outcome result, rs_outcome := OutcomeRemoved, rs_next_upgrade := zero_time\<rparr>, None), w')))"

definition replaceInstalled ::
  "'w workflow_env \<Rightarrow> Service \<Rightarrow> Request \<Rightarrow> Installation \<Rightarrow> 'w \<Rightarrow> (Result \<times> workflow_error option) \<times> 'w" where
  "replaceInstalled E s request0 existing w =
     (let request = request0\<lparr>rq_replacing := Some existing\<rparr>;
          ((result, err), w') = runProviderTiers E s request existing False w
      in if err \<noteq> None then ((result, err), w')
         else if rs_outcome result \<noteq> OutcomeNoResult \<and> rs_outcome result \<noteq> OutcomeRejected
         then ((scheduleUpgrade (wv_fused E) s (wv_now E w') (wv_unit E w') result (rq_upgrade_attempt request)
                  (m_released_at (rq_media request)) (in_installed_at existing), None), w')
         else if rs_provider_errors result \<noteq> []
         then ((result, Some (WJoined (WOther ''rejected subtitle kept because a provider search failed''
                  # map snd (rs_provider_errors result)))), w')
         else removeRejected E request existing result w')"

section \<open>One search\<close>

text \<open>\<open>Run\<close> after the inventory and the installation record are settled.\<close>

definition run_search ::
  "'w workflow_env \<Rightarrow> Service \<Rightarrow> Request \<Rightarrow> Inventory \<Rightarrow> Installation \<Rightarrow> bool \<Rightarrow> 'w \<Rightarrow> (Result \<times> workflow_error option) \<times> 'w" where
  "run_search E s request current existing installed w =
     (let active = installed \<and> managedInstallationPresent current existing;
          replacing = rq_replace_installed request \<and> active
      in if inventoryStopsSearch (wv_externals E) current (rq_language request) (sv_allow_hearing_impaired s) active existing
         then let result = zero_result\<lparr>rs_outcome := OutcomeSatisfied\<rparr>
              in if replacing then removeRejected E request existing result w else ((result, None), w)
         else if replacing then replaceInstalled E s request existing w
         else
           let search =
             (let ((result0, err), w') = runProviderTiers E s request existing active w
              in if err \<noteq> None then ((result0, err), w')
                 else if owned_match active existing (rq_media request) \<and> (rs_outcome result0 = OutcomeNoResult \<or> rs_outcome result0 = OutcomeRejected)
                 then case installedScore (wv_decode E) existing of
                        Err e \<Rightarrow> ((result0, Some e), w')
                      | Ok (score, exact) \<Rightarrow>
                          ((scheduleUpgrade (wv_fused E) s (wv_now E w') (wv_unit E w')
                              (setReassessmentResult s (result0\<lparr>rs_outcome := OutcomeSatisfied, rs_retained_installation := True\<rparr>) existing
                                 (installed_candidate existing exact) score (wv_now E w'))
                              (rq_upgrade_attempt request) (m_released_at (rq_media request)) (in_installed_at existing), None), w')
                 else ((scheduleUpgrade (wv_fused E) s (wv_now E w') (wv_unit E w') result0 (rq_upgrade_attempt request)
                          (m_released_at (rq_media request)) (in_installed_at existing), None), w'))
           in if owned_match active existing (rq_media request)
              then case installedScore (wv_decode E) existing of
                     Err e \<Rightarrow> ((zero_result, Some e), w)
                   | Ok (score, exact) \<Rightarrow>
                       if exact \<and> \<not> isFallbackProvider s (in_provider_id existing)
                       then ((zero_result\<lparr>rs_outcome := OutcomeSatisfied\<rparr>, None), w) else search
              else search)"

text \<open>The reconciliation of a record left by a replaced or renamed file; the search runs on what it leaves.\<close>

definition reconcile_and_search ::
  "'w workflow_env \<Rightarrow> Service \<Rightarrow> Request \<Rightarrow> Inventory \<Rightarrow> Installation option \<Rightarrow> 'w \<Rightarrow> (Result \<times> workflow_error option) \<times> 'w" where
  "reconcile_and_search E s request current existing w =
     (case (wv_reconcile E, existing) of
        (Some reconcile, Some installation) \<Rightarrow>
          (case reconcile request installation w of
             (Err e, w1) \<Rightarrow>
               ((finishProviderResume (wv_digest E) s request False zero_result (Some e), Some e), w1)
           | (Ok reconciled, w1) \<Rightarrow>
               if rc_deferred reconciled
               then ((finishProviderResume (wv_digest E) s request False
                        (zero_result\<lparr>rs_outcome := OutcomeThrottled, rs_retry_at := rc_retry_at reconciled, rs_removal_deferred := True\<rparr>) None, None), w1)
               else
                 let report = (\<lambda>((result, err), w').
                       ((if rc_removed reconciled \<and> rq_replace_installed request \<and> err = None
                         then reportRemovedBeforeSearch result else result, err), w'))
                 in if rc_changed reconciled
                    then (case wv_refresh E request False w1 of
                            (Err e, w2) \<Rightarrow> ((finishProviderResume (wv_digest E) s request False zero_result (Some e), Some e), w2)
                          | (Ok current', w2) \<Rightarrow>
                              (case wv_get_installation E request w2 of
                                 Err e \<Rightarrow> ((finishProviderResume (wv_digest E) s request False zero_result (Some e), Some e), w2)
                               | Ok existing' \<Rightarrow>
                                   report (run_search E s request current' (case existing' of None \<Rightarrow> zero_installation | Some i \<Rightarrow> i)
                                     (existing' \<noteq> None) w2)))
                    else report (run_search E s request current installation True w1))
      | _ \<Rightarrow> run_search E s request current (case existing of None \<Rightarrow> zero_installation | Some i \<Rightarrow> i) (existing \<noteq> None) w)"

definition workflow_Run ::
  "'w workflow_env \<Rightarrow> Service \<Rightarrow> Request \<Rightarrow> 'w \<Rightarrow> (Result \<times> workflow_error option) \<times> 'w" where
  "workflow_Run E s request0 w =
     (if wv_ctx_err E w \<noteq> None then ((zero_result, wv_ctx_err E w), w)
      else if workflow_validate E request0 \<noteq> None then ((zero_result, workflow_validate E request0), w)
      else case validatedResumeRequest (wv_digest E) s request0 of
             Err e \<Rightarrow> ((zero_result, Some e), w)
           | Ok request1 \<Rightarrow>
               (case wv_refresh E request1 (rq_force_probe request1) w of
                  (Err e, w1) \<Rightarrow> ((finishProviderResume (wv_digest E) s request1 False zero_result (Some e), Some e), w1)
                | (Ok current, w1) \<Rightarrow>
                    (case (if fp_path (iv_fingerprint current) \<noteq> []
                           then validatedResumeRequest (wv_digest E) s
                                  (request1\<lparr>rq_media := (rq_media request1)\<lparr>m_fingerprint := iv_fingerprint current\<rparr>\<rparr>)
                           else Ok request1) of
                       Err e \<Rightarrow> ((zero_result, Some e), w1)
                     | Ok request \<Rightarrow>
                         (case wv_get_installation E request w1 of
                            Err e \<Rightarrow> ((finishProviderResume (wv_digest E) s request False zero_result (Some e), Some e), w1)
                          | Ok existing \<Rightarrow> reconcile_and_search E s request current existing w1))))"

end
