(* ===== verification/Workflow_Props.thy ===== *)
theory Workflow_Props
  imports Workflow_Run
begin

text \<open>
  What one search guarantees whatever its collaborators do: when the fallback tier is asked, that a rejected
  subtitle is deleted only after a clean search, that an installed subtitle is kept, and that a search
  which fails early keeps the saved provider progress.
\<close>

section \<open>Tiers\<close>

definition tier_request :: "Request \<Rightarrow> bool \<Rightarrow> Request" where
  "tier_request request installed = (if installed then request\<lparr>rq_resume_providers := [], rq_resume_route_signature := []\<rparr> else request)"

lemma tier_request_media [simp]: "rq_media (tier_request request installed) = rq_media request"
  by (simp add: tier_request_def)

text \<open>When the fallback tier is asked, in terms of what the preferred tier left.\<close>

definition fallback_asked ::
  "'w workflow_env \<Rightarrow> Service \<Rightarrow> Request \<Rightarrow> Installation \<Rightarrow> bool \<Rightarrow> (Result \<times> workflow_error option) \<times> 'w \<Rightarrow> bool" where
  "fallback_asked E s request existing installed tier1 \<longleftrightarrow>
     wv_ctx_err E (snd tier1) = None
     \<and> (case snd (fst tier1) of
          None \<Rightarrow> rs_outcome (fst (fst tier1)) \<notin> {OutcomeInstalled, OutcomeSatisfied}
        | Some e \<Rightarrow> is_exhausted e)
     \<and> sv_has_fallback_searcher s \<and> sv_fallback_order s \<noteq> []
     \<and> (owned_match installed existing (rq_media request) \<longrightarrow>
          isFallbackProvider s (in_provider_id existing) \<and> (\<exists>score. installedScore (wv_decode E) existing = Ok (score, False)))"

lemma runProviderTiers_world:
  "snd (runProviderTiers E s request existing installed w) = snd (tiers_body E s (tier_request request installed) existing installed w)"
  by (simp add: runProviderTiers_def tier_request_def Let_def case_prod_beta)

lemma tiers_world:
  fixes E s request existing installed w
  defines "tier1 \<equiv> wv_acquire E (preferred_service s) False request existing installed w"
  shows "snd (tiers_body E s request existing installed w) =
    (if fallback_asked E s request existing installed tier1
     then snd (wv_acquire E (fallback_service s) True request existing installed (snd tier1)) else snd tier1)"
proof (cases "installedScore (wv_decode E) existing")
  case (Inl e)
  then show ?thesis unfolding tier1_def
    by (auto simp: tiers_body_def fallback_asked_def Let_def case_prod_beta split: option.split)
next
  case (Inr r)
  then show ?thesis unfolding tier1_def
    by (cases r) (auto simp: tiers_body_def fallback_asked_def Let_def case_prod_beta split: option.split)
qed

lemma finish_outcome [simp]: "rs_outcome (finishProviderResume digest s request installed result err) = rs_outcome result"
  by (simp add: finishProviderResume_def Let_def)

lemma finish_fields [simp]:
  "rs_provider_errors (finishProviderResume digest s request installed result err) = rs_provider_errors result"
  "rs_retry_at (finishProviderResume digest s request installed result err) = rs_retry_at result"
  by (simp_all add: finishProviderResume_def Let_def)

lemma schedule_outcome [simp]: "rs_outcome (scheduleUpgrade fused s now unit result attempt a b) = rs_outcome result"
  by (simp add: scheduleUpgrade_def Let_def case_prod_beta)

text \<open>For a preferred subtitle of this very file the fallback tier plays no part.\<close>

lemma tiers_body_owned:
  assumes "owned_match installed existing (rq_media request)" "\<not> isFallbackProvider s (in_provider_id existing)"
  shows "tiers_body E s request existing installed w =
    (let tier1 = wv_acquire E (preferred_service s) False request existing installed w
     in ((fst (fst tier1), case wv_ctx_err E (snd tier1) of None \<Rightarrow> snd (fst tier1) | Some e \<Rightarrow> join_errors (snd (fst tier1)) (Some e)), snd tier1))"
proof (cases "wv_acquire E (preferred_service s) False request existing installed w")
  case (Pair t w1)
  show ?thesis
  proof (cases "wv_ctx_err E w1")
    case None
    with assms Pair show ?thesis by (cases t) (simp add: tiers_body_def)
  next
    case (Some e)
    with Pair show ?thesis by (cases t) (simp add: tiers_body_def)
  qed
qed

section \<open>Properties\<close>

text \<open>C7: the fallback tier is asked exactly when the preferred one could not serve: its acquisition ended without a
  subtitle or exhausted (never after another error or a cancellation), fallback providers are configured, and a
  subtitle installed for this very file is itself from a fallback provider and not an exact match. In particular a
  preferred subtitle is never downgraded, and for it the outcome does not depend on the fallback tier at all.\<close>

theorem fallback_asked_exactly:
  fixes E s request existing installed w
  defines "tier1 \<equiv> wv_acquire E (preferred_service s) False (tier_request request installed) existing installed w"
  shows "snd (runProviderTiers E s request existing installed w) =
      (if fallback_asked E s request existing installed tier1
       then snd (wv_acquire E (fallback_service s) True (tier_request request installed) existing installed (snd tier1)) else snd tier1)
    \<and> (owned_match installed existing (rq_media request) \<and> \<not> isFallbackProvider s (in_provider_id existing) \<longrightarrow>
         snd (fst (runProviderTiers E s request existing installed w)) =
           (case wv_ctx_err E (snd tier1) of None \<Rightarrow> snd (fst tier1) | Some e \<Rightarrow> join_errors (snd (fst tier1)) (Some e))
         \<and> rs_outcome (fst (fst (runProviderTiers E s request existing installed w))) = rs_outcome (fst (fst tier1)))"
proof -
  have asked: "fallback_asked E s (tier_request request installed) existing installed t \<longleftrightarrow> fallback_asked E s request existing installed t" for t
    by (simp add: fallback_asked_def)
  have "snd (fst (runProviderTiers E s request existing installed w)) =
        (case wv_ctx_err E (snd tier1) of None \<Rightarrow> snd (fst tier1) | Some e \<Rightarrow> join_errors (snd (fst tier1)) (Some e))
      \<and> rs_outcome (fst (fst (runProviderTiers E s request existing installed w))) = rs_outcome (fst (fst tier1))"
    if "owned_match installed existing (rq_media request)" "\<not> isFallbackProvider s (in_provider_id existing)"
    using tiers_body_owned [of installed existing "tier_request request installed" s E w] that
    unfolding tier1_def runProviderTiers_def tier_request_def [symmetric] Let_def by simp
  then show ?thesis unfolding runProviderTiers_world tiers_world asked tier1_def by blast
qed

text \<open>A small world for the examples: the calls made so far, newest first.\<close>

definition sample_externals :: externals where
  "sample_externals = \<lparr>ext_unicode = ascii_tables, ext_lang_parse = (\<lambda>t. Some (Tag t)), ext_torrent = (\<lambda>_. None)\<rparr>"

definition sample_workflow :: "string list workflow_env" where
  "sample_workflow = \<lparr>wv_decode = (\<lambda>j. Some zero_score), wv_digest = (\<lambda>x. ''d''), wv_externals = sample_externals, wv_fused = False,
     wv_complete = True, wv_ctx_err = (\<lambda>w. None), wv_now = (\<lambda>w. hour), wv_unit = (\<lambda>w. 0),
     wv_refresh = (\<lambda>request probe w. (Err (WOther ''probe''), w)),
     wv_get_installation = (\<lambda>request w. Ok None), wv_reconcile = None,
     wv_remove = Some (\<lambda>request existing w. (Removed_ok, ''remove'' # w)),
     wv_acquire = (\<lambda>s fallback request existing installed w.
       ((zero_result\<lparr>rs_outcome := OutcomeNoResult\<rparr>, None), (if fallback then ''fallback'' else ''preferred'') # w))\<rparr>"

theorem fallback_asked_exactly_witness:
  "snd (runProviderTiers sample_workflow resumed_service sample_search_request zero_installation False []) = [''fallback'', ''preferred'']
    \<and> rs_outcome (fst (fst (runProviderTiers sample_workflow resumed_service
        (sample_search_request\<lparr>rq_media := zero_media\<lparr>m_fingerprint := \<lparr>fp_path = [], fp_file_id = 0, fp_size = 0, fp_mod_time = unix_epoch\<rparr>\<rparr>\<rparr>)
        (zero_installation\<lparr>in_provider_id := ''a''\<rparr>) True []))) = OutcomeNoResult"
proof -
  have "fallback_asked sample_workflow resumed_service sample_search_request zero_installation False
      (wv_acquire sample_workflow (preferred_service resumed_service) False (tier_request sample_search_request False) zero_installation False [])"
    by (simp add: fallback_asked_def sample_workflow_def resumed_service_def owned_match_def outcome_defs)
  then have "snd (runProviderTiers sample_workflow resumed_service sample_search_request zero_installation False []) = [''fallback'', ''preferred'']"
    using fallback_asked_exactly [of sample_workflow resumed_service sample_search_request zero_installation False "[]"]
    by (simp add: sample_workflow_def)
  moreover have "owned_match True (zero_installation\<lparr>in_provider_id := ''a''\<rparr>)
      (zero_media\<lparr>m_fingerprint := \<lparr>fp_path = [], fp_file_id = 0, fp_size = 0, fp_mod_time = unix_epoch\<rparr>\<rparr>)"
    by (simp add: owned_match_def InstallationMatchesMedia_def zero_installation_def zero_media_def unix_nano_def)
  then have "rs_outcome (fst (fst (runProviderTiers sample_workflow resumed_service
        (sample_search_request\<lparr>rq_media := zero_media\<lparr>m_fingerprint := \<lparr>fp_path = [], fp_file_id = 0, fp_size = 0, fp_mod_time = unix_epoch\<rparr>\<rparr>\<rparr>)
        (zero_installation\<lparr>in_provider_id := ''a''\<rparr>) True []))) = OutcomeNoResult"
    using fallback_asked_exactly [of sample_workflow resumed_service
        "sample_search_request\<lparr>rq_media := zero_media\<lparr>m_fingerprint := \<lparr>fp_path = [], fp_file_id = 0, fp_size = 0, fp_mod_time = unix_epoch\<rparr>\<rparr>\<rparr>"
        "zero_installation\<lparr>in_provider_id := ''a''\<rparr>" True "[]"]
    by (simp add: isFallbackProvider_def resumed_service_def sample_workflow_def)
  ultimately show ?thesis by simp
qed

lemma remover_fields:
  "wv_decode (E\<lparr>wv_remove := remover\<rparr>) = wv_decode E" "wv_acquire (E\<lparr>wv_remove := remover\<rparr>) = wv_acquire E"
  "wv_now (E\<lparr>wv_remove := remover\<rparr>) = wv_now E" "wv_ctx_err (E\<lparr>wv_remove := remover\<rparr>) = wv_ctx_err E"
  "wv_digest (E\<lparr>wv_remove := remover\<rparr>) = wv_digest E"
  by simp_all

text \<open>The tiers do not consult the remover.\<close>

lemma tiers_remover: "runProviderTiers (E\<lparr>wv_remove := remover\<rparr>) s request existing installed w = runProviderTiers E s request existing installed w"
proof -
  have "combine_tiers (E\<lparr>wv_remove := remover\<rparr>) s r existing installed now c t1 t2 = combine_tiers E s r existing installed now c t1 t2"
    for r now c t1 t2 by (simp only: combine_tiers_def remover_fields)
  then show ?thesis by (simp only: runProviderTiers_def tiers_body_def remover_fields)
qed

text \<open>The tiers report a removal only when an acquisition did.\<close>

lemma removed_neq: "OutcomeThrottled \<noteq> OutcomeRemoved" "OutcomeRejected \<noteq> OutcomeRemoved" "OutcomeSatisfied \<noteq> OutcomeRemoved"
  "OutcomeNoResult \<noteq> OutcomeRemoved" "OutcomeInstalled \<noteq> OutcomeRemoved" "rs_outcome zero_result \<noteq> OutcomeRemoved"
  by (simp_all add: outcome_defs zero_result_def)

lemma retain_not_removed:
  "rs_outcome result \<noteq> OutcomeRemoved \<Longrightarrow> rs_outcome (fst (retainFallback decode now result err existing)) \<noteq> OutcomeRemoved"
  using removed_neq by (auto simp: retainFallback_def Let_def split: sum.split)

lemma combine_not_removed:
  "rs_outcome (fst t2) \<noteq> OutcomeRemoved \<Longrightarrow> rs_outcome (fst (combine_tiers E s request existing installed now c t1 t2)) \<noteq> OutcomeRemoved"
  using removed_neq by (cases t1; cases t2) (auto simp: combine_tiers_def Let_def retain_not_removed)

lemma tiers_not_removed:
  assumes "\<And>s fallback request w. rs_outcome (fst (fst (wv_acquire E s fallback request existing installed w))) \<noteq> OutcomeRemoved"
  shows "rs_outcome (fst (fst (runProviderTiers E s request existing installed w))) \<noteq> OutcomeRemoved"
proof -
  have "rs_outcome (fst (fst (tiers_body E s r existing installed w))) \<noteq> OutcomeRemoved" for r
  proof -
    obtain t1 w1 where one: "wv_acquire E (preferred_service s) False r existing installed w = (t1, w1)" by (metis surj_pair)
    obtain t2 w2 where two: "wv_acquire E (fallback_service s) True r existing installed w1 = (t2, w2)" by (metis surj_pair)
    have "rs_outcome (fst t1) \<noteq> OutcomeRemoved" "rs_outcome (fst t2) \<noteq> OutcomeRemoved"
      using assms [of "preferred_service s" False r w] assms [of "fallback_service s" True r w1] one two by simp_all
    then show ?thesis
      unfolding tiers_body_def one two Let_def prod.case
      by (cases t1) (simp add: combine_not_removed retain_not_removed removed_neq cong: imp_cong split: sum.split)
  qed
  then show ?thesis by (simp add: runProviderTiers_def Let_def case_prod_beta)
qed

text \<open>A search that replaces nothing neither removes nor consults the remover.\<close>

lemma plain_search:
  assumes "\<And>s fallback request ins w. rs_outcome (fst (fst (wv_acquire E s fallback request existing ins w))) \<noteq> OutcomeRemoved"
    and "\<not> (rq_replace_installed request \<and> installed \<and> managedInstallationPresent current existing)"
  shows "run_search (E\<lparr>wv_remove := remove'\<rparr>) s request current existing installed w = run_search E s request current existing installed w
    \<and> rs_outcome (fst (fst (run_search E s request current existing installed w))) \<noteq> OutcomeRemoved"
proof -
  define active where "active = (installed \<and> managedInstallationPresent current existing)"
  obtain result err w1 where p: "runProviderTiers E s request existing active w = ((result, err), w1)" by (metis prod.collapse)
  have quiet: "rs_outcome result \<noteq> OutcomeRemoved"
    using tiers_not_removed [of E existing active s request w] assms(1) by (simp add: p)
  have plain: "(rq_replace_installed request \<and> active) = False" using assms(2) by (auto simp: active_def)
  have same: "wv_externals (E\<lparr>wv_remove := remove'\<rparr>) = wv_externals E" "wv_fused (E\<lparr>wv_remove := remove'\<rparr>) = wv_fused E"
    "wv_unit (E\<lparr>wv_remove := remove'\<rparr>) = wv_unit E" by simp_all
  have "run_search (E\<lparr>wv_remove := remove'\<rparr>) s request current existing installed w = run_search E s request current existing installed w"
    unfolding run_search_def Let_def active_def [symmetric] plain if_False tiers_remover remover_fields same by (rule refl)
  moreover have "rs_outcome (fst (fst (run_search E s request current existing installed w))) \<noteq> OutcomeRemoved"
    unfolding run_search_def Let_def active_def [symmetric] plain if_False p prod.case
    using quiet removed_neq by (simp add: setReassessmentResult_def split: sum.split prod.split)
  ultimately show ?thesis by blast
qed


definition sample_installed :: Installation where
  "sample_installed = zero_installation\<lparr>in_provider_id := ''a'', in_path := ''/m.srt'', in_media_path := ''/m'', in_score_json := ''x''\<rparr>"

definition sample_inventory :: Inventory where
  "sample_inventory = \<lparr>iv_fingerprint = m_fingerprint zero_media, iv_tracks = [\<lparr>tr_index = 0, tr_path = ''/m.srt'', tr_language = ''en'',
     tr_codec = [], tr_embedded = False, tr_forced = False, tr_default = False, tr_sdh = False, tr_protected = False, tr_symlink = False,
     tr_checksum = []\<rparr>]\<rparr>"

definition throttled_workflow :: "string list workflow_env" where
  "throttled_workflow = sample_workflow\<lparr>wv_acquire := \<lambda>s fallback request existing installed w.
     ((zero_result\<lparr>rs_outcome := OutcomeThrottled\<rparr>, None), w)\<rparr>"


text \<open>a search keeps the subtitle that is installed. When the managed subtitle of this very file is on disk and was
  not rejected by its owner, a search that ends without an error never reports that nothing was found or that
  everything was rejected, and neither a covering track nor an exact match of a preferred provider asks any provider.\<close>

theorem installed_subtitle_kept:
  assumes "managedInstallationPresent current existing" "InstallationMatchesMedia existing (rq_media request)"
    and "\<not> rq_replace_installed request"
    and "run_search E s request current existing True w = ((result, None), w')"
  shows "rs_outcome result \<notin> {OutcomeNoResult, OutcomeRejected}
    \<and> (inventoryStopsSearch (wv_externals E) current (rq_language request) (sv_allow_hearing_impaired s) True existing
       \<or> (\<exists>score. installedScore (wv_decode E) existing = Ok (score, True)) \<and> \<not> isFallbackProvider s (in_provider_id existing)
       \<longrightarrow> w' = w \<and> rs_outcome result = OutcomeSatisfied)"
proof -
  obtain result0 err w1 where tiers: "runProviderTiers E s request existing True w = ((result0, err), w1)"
    by (metis prod.collapse)
  have o: "OutcomeSatisfied \<noteq> OutcomeNoResult" "OutcomeSatisfied \<noteq> OutcomeRejected" by (simp_all add: outcome_defs)
  have m: "owned_match True existing (rq_media request)" using assms(2) by (simp add: owned_match_def)
  show ?thesis
  proof (cases "inventoryStopsSearch (wv_externals E) current (rq_language request) (sv_allow_hearing_impaired s) True existing")
    case True
    with assms o show ?thesis by (auto simp: run_search_def)
  next
    case False
    then obtain score exact where sc: "installedScore (wv_decode E) existing = Ok (score, exact)"
      using assms m by (cases "installedScore (wv_decode E) existing") (auto simp: run_search_def)
    show ?thesis
    proof (cases "exact \<and> \<not> isFallbackProvider s (in_provider_id existing)")
      case True
      with assms m sc False o show ?thesis by (auto simp: run_search_def)
    next
      case search: False
      have "rs_outcome result \<notin> {OutcomeNoResult, OutcomeRejected}"
        using assms(4) assms(1,3) m sc False search o tiers
        by (auto simp: run_search_def setReassessmentResult_def split: if_splits)
      with search sc False show ?thesis by auto
    qed
  qed
qed

definition sample_request_for_media :: Request where
  "sample_request_for_media = sample_search_request\<lparr>rq_media := zero_media\<lparr>m_fingerprint := \<lparr>fp_path = ''/m'', fp_file_id = 0, fp_size = 0,
     fp_mod_time = unix_epoch\<rparr>\<rparr>\<rparr>"

definition exact_score :: Score where
  "exact_score = \<lparr>sc_total = 100, sc_contributions = [\<lparr>co_signal = ''exact_hash'', co_points = 100, co_reason = []\<rparr>], sc_rejected_reasons = []\<rparr>"

theorem installed_subtitle_kept_witness:
  "snd (run_search (sample_workflow\<lparr>wv_decode := \<lambda>j. Some exact_score\<rparr>) resumed_service sample_request_for_media sample_inventory
      sample_installed True []) = []"
proof -
  let ?E = "sample_workflow\<lparr>wv_decode := \<lambda>j. Some exact_score\<rparr>"
  have present: "managedInstallationPresent sample_inventory sample_installed"
    by (simp add: managedInstallationPresent_def sample_inventory_def is_installation_def sample_installed_def zero_installation_def)
  have matches: "InstallationMatchesMedia sample_installed (rq_media sample_request_for_media)"
    by (simp add: InstallationMatchesMedia_def sample_installed_def zero_installation_def sample_request_for_media_def unix_nano_def)
  have sc: "installedScore (\<lambda>j. Some exact_score) sample_installed = Ok (exact_score, True)"
    by (simp add: installedScore_def sample_installed_def exact_score_def exact_contribution_def)
  have pref: "\<not> isFallbackProvider resumed_service (in_provider_id sample_installed)"
    by (simp add: isFallbackProvider_def resumed_service_def sample_installed_def)
  have rep: "\<not> rq_replace_installed sample_request_for_media" by (simp add: sample_request_for_media_def sample_search_request_def)
  have "\<exists>result w'. run_search ?E resumed_service sample_request_for_media sample_inventory sample_installed True [] = ((result, None), w')"
    using present matches sc pref rep by (simp add: run_search_def owned_match_def)
  then obtain result w' where run: "run_search ?E resumed_service sample_request_for_media sample_inventory sample_installed True [] = ((result, None), w')"
    by blast
  from installed_subtitle_kept [OF present matches rep run] sc pref show ?thesis by (simp add: run)
qed

text \<open>a search that fails before any provider is asked keeps the saved provider progress: when the inventory cannot
  be refreshed, the error is returned with the saved list of the validated request, complete, in route order and under
  the signature of this media file, so that the retry resumes where the search stood.\<close>

theorem failed_search_keeps_progress:
  assumes "wv_ctx_err E w = None" "workflow_validate E request = None"
    and "validatedResumeRequest (wv_digest E) s request = Ok request'" "rq_resume_providers request' \<noteq> []"
    and "wv_refresh E request' (rq_force_probe request') w = (Err e, w')"
  shows "\<exists>result. workflow_Run E s request w = ((result, Some e), w')
    \<and> set (rs_resume_providers result) = set (rq_resume_providers request')
    \<and> rs_resume_providers result = filter (\<lambda>i. i \<in> set (rq_resume_providers request')) (sv_provider_order s @ sv_fallback_order s)
    \<and> rs_resume_route_signature result = rq_resume_route_signature request'"
proof -
  have req: "request' = request" "\<not> rq_manual request"
      "rq_resume_route_signature request = ResumeSignature (wv_digest E) s (rq_language request) (m_fingerprint (rq_media request))"
      "valid_resume (sv_provider_order s @ sv_fallback_order s) (rq_resume_providers request) []"
    using assms(3,4) by (auto simp: validatedResumeRequest_def split: if_splits)
  have sub: "set (rq_resume_providers request) \<subseteq> set (sv_provider_order s @ sv_fallback_order s)"
    using req(4) by (auto simp: valid_resume_iff)
  let ?result = "finishProviderResume (wv_digest E) s request False zero_result (Some e)"
  have list: "mergeResumeProviders s [rq_resume_providers request, rs_clean_empty_providers zero_result]
      = filter (\<lambda>i. i \<in> set (rq_resume_providers request)) (sv_provider_order s @ sv_fallback_order s)"
    by (simp add: mergeResumeProviders_def zero_result_def)
  have set_list: "set (filter (\<lambda>i. i \<in> set (rq_resume_providers request)) (sv_provider_order s @ sv_fallback_order s))
      = set (rq_resume_providers request)"
    using sub by auto
  then have "filter (\<lambda>i. i \<in> set (rq_resume_providers request)) (sv_provider_order s @ sv_fallback_order s) \<noteq> []"
    using assms(4) req(1) by (metis set_empty)
  then have "rs_resume_providers ?result = filter (\<lambda>i. i \<in> set (rq_resume_providers request)) (sv_provider_order s @ sv_fallback_order s)
      \<and> rs_resume_route_signature ?result = rq_resume_route_signature request"
    unfolding finishProviderResume_def Let_def list using req(3) by simp
  moreover have "workflow_Run E s request w = ((?result, Some e), w')"
    using assms req(1) by (simp add: workflow_Run_def)
  ultimately show ?thesis using set_list req(1) by (intro exI [of _ ?result]) simp
qed

theorem failed_search_keeps_progress_witness:
  "\<exists>result. workflow_Run sample_workflow resumed_service
      (sample_request_for_media\<lparr>rq_resume_providers := [''b''], rq_resume_route_signature := ''d''\<rparr>) [] = ((result, Some (WOther ''probe'')), [])
    \<and> rs_resume_providers result = [''b'']"
proof -
  let ?r = "sample_request_for_media\<lparr>rq_resume_providers := [''b''], rq_resume_route_signature := ''d''\<rparr>"
  have "validatedResumeRequest (wv_digest sample_workflow) resumed_service ?r = Ok ?r"
    by (simp add: validatedResumeRequest_def sample_request_for_media_def sample_search_request_def sample_workflow_def ResumeSignature_def
        ProviderResumeSignature_def resumed_service_def)
  moreover have "workflow_validate sample_workflow ?r = None"
    by (simp add: workflow_validate_def sample_workflow_def sample_request_for_media_def sample_search_request_def)
  moreover have "wv_ctx_err sample_workflow [] = None" "wv_refresh sample_workflow ?r (rq_force_probe ?r) [] = (Err (WOther ''probe''), [])"
    by (simp_all add: sample_workflow_def)
  moreover have "filter (\<lambda>i. i \<in> set (rq_resume_providers ?r)) (sv_provider_order resumed_service @ sv_fallback_order resumed_service) = [''b'']"
    "rq_resume_providers ?r \<noteq> []"
    by (simp_all add: resumed_service_def)
  ultimately show ?thesis
    using failed_search_keeps_progress [of sample_workflow "[]" ?r resumed_service ?r "WOther ''probe''" "[]"] by metis
qed

end
