(* ===== verification/Go_Regexp.thy ===== *)
theory Go_Regexp
  imports Go_Text
begin

text \<open>
  Package \<open>regexp\<close> for the expressions this program compiles. An expression matches decoded runes;
  \<open>ends r rs i\<close> lists, in the order in which a leftmost-first matcher prefers them, the positions
  where a match of \<open>r\<close> starting at position \<open>i\<close> can end, each with the group positions it sets.
  \<open>find_submatch\<close> is \<open>FindStringSubmatch\<close>: the leftmost start, and there the preferred end.
  Repetition is of a character class, greedy, which is all the program uses. \<open>Boundary\<close> is \<open>\b\<close>, between ASCII words.
\<close>

datatype regexp =
    Class "nat \<Rightarrow> bool"
  | Repeat nat "nat option" "nat \<Rightarrow> bool"
  | Then regexp regexp
  | Alt regexp regexp
  | Maybe regexp
  | Group nat regexp
  | Begin
  | Boundary
  | Finish

type_synonym rune_list = "(nat \<times> string) list"
type_synonym groups = "(nat \<times> nat \<times> nat) list"

text \<open>The length of the longest run of runes in the class from position \<open>i\<close>.\<close>

definition class_run :: "(nat \<Rightarrow> bool) \<Rightarrow> rune_list \<Rightarrow> nat \<Rightarrow> nat" where
  "class_run p rs i = length (takeWhile (\<lambda>r. p (fst r)) (drop i rs))"

definition word_at :: "rune_list \<Rightarrow> nat \<Rightarrow> bool" where
  "word_at rs i \<longleftrightarrow> i < length rs \<and> (let r = fst (rs ! i)
     in 48 \<le> r \<and> r \<le> 57 \<or> 65 \<le> r \<and> r \<le> 90 \<or> 97 \<le> r \<and> r \<le> 122 \<or> r = 95)"

fun ends :: "regexp \<Rightarrow> rune_list \<Rightarrow> nat \<Rightarrow> (nat \<times> groups) list" where
  "ends (Class p) rs i = (if i < length rs \<and> p (fst (rs ! i)) then [(i + 1, [])] else [])"
| "ends (Repeat low high p) rs i =
     (let run = class_run p rs i; most = (case high of None \<Rightarrow> run | Some h \<Rightarrow> min run h)
      in map (\<lambda>k. (i + k, [])) (rev [low ..< most + 1]))"
| "ends (Then a b) rs i =
     concat (map (\<lambda>(j, g). map (\<lambda>(k, h). (k, g @ h)) (ends b rs j)) (ends a rs i))"
| "ends (Alt a b) rs i = ends a rs i @ ends b rs i"
| "ends (Maybe a) rs i = ends a rs i @ [(i, [])]"
| "ends (Group n a) rs i = map (\<lambda>(j, g). (j, (n, i, j) # g)) (ends a rs i)"
| "ends Begin rs i = (if i = 0 then [(i, [])] else [])"
| "ends Boundary rs i = (if (0 < i \<and> word_at rs (i - 1)) \<noteq> word_at rs i then [(i, [])] else [])"
| "ends Finish rs i = (if i = length rs then [(i, [])] else [])"

definition slice_text :: "rune_list \<Rightarrow> nat \<Rightarrow> nat \<Rightarrow> string" where
  "slice_text rs i j = concat (map snd (take (j - i) (drop i rs)))"

text \<open>The first start at or after \<open>i\<close> with a match, within \<open>n\<close> positions, and that match.\<close>

fun find_from :: "regexp \<Rightarrow> rune_list \<Rightarrow> nat \<Rightarrow> nat \<Rightarrow> (nat \<times> nat \<times> groups) option" where
  "find_from r rs i n =
     (case ends r rs i of
        (j, g) # _ \<Rightarrow> Some (i, j, g)
      | [] \<Rightarrow> (case n of 0 \<Rightarrow> None | Suc m \<Rightarrow> find_from r rs (Suc i) m))"

declare find_from.simps [simp del]

definition match_string :: "regexp \<Rightarrow> string \<Rightarrow> bool" where
  "match_string r s = (let rs = runes s in find_from r rs 0 (length rs) \<noteq> None)"

text \<open>The text of a group, empty when the match did not set it.\<close>

definition group_text :: "rune_list \<Rightarrow> groups \<Rightarrow> nat \<Rightarrow> string" where
  "group_text rs g n = (case map_of g n of None \<Rightarrow> [] | Some (i, j) \<Rightarrow> slice_text rs i j)"

definition find_submatch :: "regexp \<Rightarrow> string \<Rightarrow> (nat \<Rightarrow> string) option" where
  "find_submatch r s =
     (let rs = runes s in map_option (\<lambda>(i, j, g). group_text rs g) (find_from r rs 0 (length rs)))"

text \<open>
  \<open>Split\<close> with a limit of \<open>-1\<close>, for an expression whose matches are not empty: the texts between
  the successive leftmost matches. Each match moves the start on, so the length of the input is
  enough fuel; an empty match would end the split.
\<close>

fun split_from :: "regexp \<Rightarrow> rune_list \<Rightarrow> nat \<Rightarrow> nat \<Rightarrow> string list" where
  "split_from r rs i 0 = [slice_text rs i (length rs)]"
| "split_from r rs i (Suc n) =
     (case find_from r rs i (length rs - i) of
        None \<Rightarrow> [slice_text rs i (length rs)]
      | Some (a, b, _) \<Rightarrow>
          if b \<le> i then [slice_text rs i (length rs)]
          else slice_text rs i a # split_from r rs b n)"

text \<open>
  The successive matches, as \<open>FindAll\<close> returns them for an expression that never matches the empty text; the number of
  runes bounds their number.
\<close>

fun find_all :: "regexp \<Rightarrow> rune_list \<Rightarrow> nat \<Rightarrow> nat \<Rightarrow> (nat \<times> nat \<times> groups) list" where
  "find_all r rs i 0 = []"
| "find_all r rs i (Suc n) =
     (case find_from r rs i (length rs - i) of
        None \<Rightarrow> []
      | Some (a, b, g) \<Rightarrow> if b \<le> i then [] else (a, b, g) # find_all r rs b n)"

definition split_regexp :: "regexp \<Rightarrow> string \<Rightarrow> string list" where
  "split_regexp r s = (let rs = runes s in split_from r rs 0 (length rs))"

section \<open>Classes\<close>

definition digit_class :: "nat \<Rightarrow> bool" where
  "digit_class r \<longleftrightarrow> 48 \<le> r \<and> r \<le> 57"

definition one_of :: "string \<Rightarrow> nat \<Rightarrow> bool" where
  "one_of cs r \<longleftrightarrow> r \<in> set (map of_char cs)"

text \<open>A literal text, rune by rune (ASCII).\<close>

fun Text_re :: "string \<Rightarrow> regexp" where
  "Text_re [] = Repeat 0 (Some 0) (\<lambda>_. False)"
| "Text_re [c] = Class (\<lambda>r. r = of_char c)"
| "Text_re (c # cs) = Then (Class (\<lambda>r. r = of_char c)) (Text_re cs)"

text \<open>\<open>seq_re\<close>: one expression after the other.\<close>

fun seq_re :: "regexp list \<Rightarrow> regexp" where
  "seq_re [] = Repeat 0 (Some 0) (\<lambda>_. False)"
| "seq_re [r] = r"
| "seq_re (r # rs) = Then r (seq_re rs)"

section \<open>Matches lie within the text\<close>

lemma class_run_le: "i + class_run p rs i \<le> max i (length rs)"
  using length_takeWhile_le [of "\<lambda>r. p (fst r)" "drop i rs"] by (auto simp: class_run_def)

lemma ends_bounds: "(j, g) \<in> set (ends r rs i) \<Longrightarrow> i \<le> j \<and> j \<le> max i (length rs)"
proof (induction r arbitrary: i j g)
  case (Repeat low high p)
  then show ?case using class_run_le [of i p rs] by (auto simp: Let_def split: option.splits)
next
  case (Then a b)
  then show ?case by fastforce
qed (auto split: if_splits)

lemma find_from_bounds:
  "find_from r rs i n = Some (a, b, g) \<Longrightarrow> i \<le> a \<and> a \<le> i + n \<and> (b, g) \<in> set (ends r rs a)"
proof (induction r rs i n rule: find_from.induct)
  case (1 r rs i n)
  show ?case
  proof (cases "ends r rs i")
    case Nil
    with "1.prems" obtain m where "n = Suc m" "find_from r rs (Suc i) m = Some (a, b, g)"
      by (auto simp: find_from.simps [of r rs i n] split: nat.splits)
    with "1.IH" [OF Nil] show ?thesis by auto
  next
    case (Cons e es)
    with "1.prems" show ?thesis by (auto simp: find_from.simps [of r rs i n] split: prod.splits)
  qed
qed

text \<open>A search that finds nothing has tried every start.\<close>

lemma find_from_None:
  "find_from r rs i n = None \<Longrightarrow> i \<le> k \<Longrightarrow> k \<le> i + n \<Longrightarrow> ends r rs k = []"
proof (induction r rs i n rule: find_from.induct)
  case (1 r rs i n)
  have nil: "ends r rs i = []"
    using "1.prems"(1) by (auto simp: find_from.simps [of r rs i n] split: list.splits)
  show ?case
  proof (cases "k = i")
    case False
    with "1.prems" nil obtain m where "n = Suc m" "find_from r rs (Suc i) m = None"
      by (auto simp: find_from.simps [of r rs i n] split: nat.splits)
    with "1.IH" [OF nil] "1.prems" False show ?thesis by auto
  qed (simp add: nil)
qed

end
