(* ===== verification/Match_Release.thy ===== *)
theory Match_Release
  imports Domain Go_Regexp "HOL-Library.Word"
begin

text \<open>
  \<open>internal/match/release.go\<close>: what a release name says about title, numbering, group, source, cut
  and streaming service. \<open>torrentname.Parse\<close> is the parameter \<open>ext_torrent\<close>; the corrections the
  program makes to its answer (\<open>06x01.02\<close> ranges, absolute ranges, sources, editions) are written
  out. The set of picture labels is an 8-bit word, as in the code.
\<close>

unbundle bit_operations_syntax

type_synonym editionVariant = "8 word"

record Release =
  rl_raw :: string
  rl_title :: string
  rl_year :: int
  rl_season :: int
  rl_episode :: int
  rl_episode_end :: int
  rl_absolute_episode :: int
  rl_absolute_episode_end :: int
  rl_group :: string
  rl_source :: string
  rl_edition :: string
  rl_variants :: editionVariant
  rl_service :: string
  rl_resolution :: string
  rl_complete :: bool

definition zero_release :: Release where
  "zero_release =
     \<lparr>rl_raw = [], rl_title = [], rl_year = 0, rl_season = 0, rl_episode = 0, rl_episode_end = 0,
      rl_absolute_episode = 0, rl_absolute_episode_end = 0, rl_group = [], rl_source = [], rl_edition = [],
      rl_variants = 0, rl_service = [], rl_resolution = [], rl_complete = False\<rparr>"

section \<open>Expressions\<close>

text \<open>\<open>[[:space:]\p{Z}]\<close>.\<close>

definition separator_space :: "nat \<Rightarrow> bool" where
  "separator_space r \<longleftrightarrow>
     9 \<le> r \<and> r \<le> 13 \<or> r = 32 \<or> r = 160 \<or> r = 5760 \<or> 8192 \<le> r \<and> r \<le> 8202
     \<or> r = 8232 \<or> r = 8233 \<or> r = 8239 \<or> r = 8287 \<or> r = 12288"

definition releaseAlternativeSeparator :: regexp where
  "releaseAlternativeSeparator =
     seq_re [Repeat 1 None separator_space, Text_re ''/'', Repeat 1 None separator_space]"

text \<open>\<open>\s\<close> together with further characters.\<close>

definition perl_space :: "nat \<Rightarrow> bool" where
  "perl_space r \<longleftrightarrow> r = 9 \<or> r = 10 \<or> r = 12 \<or> r = 13 \<or> r = 32"

definition absoluteEpisodeRange :: regexp where
  "absoluteEpisodeRange =
     seq_re [Alt Begin (Class (\<lambda>r. perl_space r \<or> one_of ''._[(-'' r)),
       Group 1 (Repeat 2 (Some 4) digit_class), Text_re ''-'', Group 2 (Repeat 2 (Some 4) digit_class),
       Alt (Class (\<lambda>r. perl_space r \<or> one_of ''._])'' r)) Finish]"

definition maximumAbsoluteRangeSpan :: int where "maximumAbsoluteRangeSpan = 10"

text \<open>
  \<open>[0-9a-z]\<close> under \<open>(?i)\<close>: case folding adds the capitals, the long s and the Kelvin sign.
\<close>

definition folded_alnum :: "nat \<Rightarrow> bool" where
  "folded_alnum r \<longleftrightarrow> 48 \<le> r \<and> r \<le> 57 \<or> 97 \<le> r \<and> r \<le> 122 \<or> 65 \<le> r \<and> r \<le> 90 \<or> r = 383 \<or> r = 8490"

definition seasonCrossEpisodeDotRange :: regexp where
  "seasonCrossEpisodeDotRange =
     seq_re [Alt Begin (Class (\<lambda>r. \<not> folded_alnum r)),
       Group 1 (Repeat 1 (Some 2) digit_class), Class (one_of ''xX''),
       Group 2 (Repeat 1 (Some 3) digit_class), Text_re ''.'',
       Group 3 (Repeat 1 (Some 3) digit_class), Alt (Class (\<lambda>r. \<not> digit_class r)) Finish]"

section \<open>Identities\<close>

definition identity_rune :: "unicode \<Rightarrow> string \<times> bool \<Rightarrow> nat \<Rightarrow> string \<times> bool" where
  "identity_rune U st r =
     (let (output, space) = st
      in if is_letter U r \<or> is_digit U r then
           ((if space \<and> output \<noteq> [] then output @ '' '' else output) @ encode_rune r, False)
         else if r = 39 \<or> r = 8217 then (output, space)
         else (output, True))"

definition NormalizeIdentity :: "unicode \<Rightarrow> string \<Rightarrow> string" where
  "NormalizeIdentity U value0 =
     fst (foldl (identity_rune U) ([], False) (map fst (runes (to_lower U (trim_space value0)))))"

section \<open>Sources\<close>

definition sourceAliases :: "(string \<times> string) list" where
  "sourceAliases =
     [(''television'', ''hdtv''), (''televisionraw'', ''hdtv''), (''tv'', ''hdtv''), (''pdtv'', ''hdtv''),
      (''web'', ''web-dl''), (''webdl'', ''web-dl''), (''dvd'', ''dvdrip''), (''brrip'', ''bluray''),
      (''blurayraw'', ''remux''), (''bdremux'', ''remux''), (''brdisk'', ''remux''), (''br disk'', ''remux''),
      (''bdmv'', ''remux'')]"

definition sourceToken :: "unicode \<Rightarrow> string \<Rightarrow> string" where
  "sourceToken U text0 =
     (let t = to_lower U text0
      in if contains_str t ''remux'' \<or> contains_str t ''bdmv'' \<or> contains_str t ''br-disk'' then ''remux''
         else if contains_str t ''web-dl'' \<or> contains_str t ''webdl'' \<or> contains_str t ''web dl'' then ''web-dl''
         else if contains_str t ''webrip'' \<or> contains_str t ''web-rip'' then ''webrip''
         else if contains_str t ''bluray'' \<or> contains_str t ''blu-ray'' \<or> contains_str t ''bdrip'' then ''bluray''
         else if contains_str t ''hdtv'' then ''hdtv''
         else [])"

definition normalizeSource :: "unicode \<Rightarrow> string \<Rightarrow> string \<Rightarrow> string" where
  "normalizeSource U value0 raw =
     (if sourceToken U raw \<noteq> [] then sourceToken U raw
      else (case map_of sourceAliases (NormalizeIdentity U value0) of
              Some alias \<Rightarrow> alias
            | None \<Rightarrow> if sourceToken U value0 \<noteq> [] then sourceToken U value0 else NormalizeIdentity U value0))"

section \<open>Editions\<close>

text \<open>\<open>strings.NewReplacer(".", " ", "_", " ", "-", " ")\<close>.\<close>

definition blank_separators :: "string \<Rightarrow> string" where
  "blank_separators s = map (\<lambda>c. if c \<in> {CHR ''.'', CHR ''_'', CHR ''-''} then CHR '' '' else c) s"

fun after_year :: "string list \<Rightarrow> string list option" where
  "after_year [] = None"
| "after_year (field # rest) =
     (case atoi field of
        Some year \<Rightarrow> if length field = 4 \<and> 1900 \<le> year \<and> year \<le> 2099 then Some rest else after_year rest
      | None \<Rightarrow> after_year rest)"

definition editionDescriptor :: "string \<Rightarrow> string" where
  "editionDescriptor raw =
     (let fs = Go_Text.fields (blank_separators raw)
      in join '' '' (case after_year fs of Some rest \<Rightarrow> rest | None \<Rightarrow> fs))"

definition normalizeEdition :: "unicode \<Rightarrow> string \<Rightarrow> string \<Rightarrow> bool \<Rightarrow> bool \<Rightarrow> string" where
  "normalizeEdition U value0 raw extended unrated =
     (let joined = to_lower U (value0 @ '' '' @ editionDescriptor raw)
      in if contains_str joined (''director'' @ [CHR 0x27] @ ''s cut'') \<or> contains_str joined ''directors cut''
            \<or> contains_str joined ''director cut'' then ''directors cut''
         else if contains_str joined ''final cut'' then ''final cut''
         else if contains_str joined ''ultimate cut'' then ''ultimate cut''
         else if contains_str joined ''ultimate edition'' then ''ultimate edition''
         else if contains_str joined ''special edition'' then ''special edition''
         else if contains_str joined ''anniversary edition'' then ''anniversary edition''
         else if contains_str joined ''redux'' then ''redux''
         else if extended \<or> contains_str joined ''extended'' then ''extended''
         else if unrated \<or> contains_str joined ''unrated'' then ''unrated''
         else if contains_str joined ''theatrical'' then ''theatrical''
         else if ''cut'' \<in> set (Go_Text.fields (NormalizeIdentity U value0)) then NormalizeIdentity U value0
         else [])"

definition variantIMAX :: editionVariant where "variantIMAX = 1"
definition variantRemastered :: editionVariant where "variantRemastered = 2"
definition variantRestored :: editionVariant where "variantRestored = 4"
definition variantOpenMatte :: editionVariant where "variantOpenMatte = 8"
definition variantHybrid :: editionVariant where "variantHybrid = 16"

definition variant_labels :: "(editionVariant \<times> string list) list" where
  "variant_labels =
     [(variantIMAX, [''imax'']), (variantRemastered, [''remastered'', ''remaster'', ''rm4k'']),
      (variantRestored, [''restored'', ''restoration'']), (variantOpenMatte, [''open matte'']),
      (variantHybrid, [''hybrid''])]"

definition editionVariants :: "unicode \<Rightarrow> string \<Rightarrow> editionVariant" where
  "editionVariants U text0 =
     (let ws = '' '' @ NormalizeIdentity U text0 @ '' ''
      in foldl (\<lambda>variants (variant, labels).
           foldl (\<lambda>vs word. if contains_str ws ('' '' @ word @ '' '') then vs OR variant else vs) variants labels)
         0 variant_labels)"

section \<open>Streaming services\<close>

definition containsToken :: "string \<Rightarrow> string \<Rightarrow> bool" where
  "containsToken haystack token = contains_str haystack ('' '' @ token @ '' '')"

definition streamingService :: "unicode \<Rightarrow> string \<Rightarrow> string" where
  "streamingService U raw =
     (let tokens = '' '' @ to_lower U (blank_separators raw) @ '' ''
      in if containsToken tokens ''nf'' \<or> contains_str tokens '' netflix '' then ''netflix''
         else if containsToken tokens ''amzn'' \<or> contains_str tokens '' amazon '' then ''amazon''
         else if containsToken tokens ''dsnp'' \<or> contains_str tokens '' disney '' then ''disney+''
         else if containsToken tokens ''atvp'' \<or> contains_str tokens '' apple tv '' then ''apple tv+''
         else if containsToken tokens ''hmax'' \<or> containsToken tokens ''max'' then ''max''
         else if containsToken tokens ''hulu'' then ''hulu''
         else [])"

fun firstNonEmpty :: "string list \<Rightarrow> string" where
  "firstNonEmpty [] = []"
| "firstNonEmpty (v # vs) = (if v \<noteq> [] then v else firstNonEmpty vs)"

section \<open>ParseRelease\<close>

text \<open>\<open>v, _ := strconv.Atoi(s)\<close> on digits that fit.\<close>

definition atoi_or_zero :: "string \<Rightarrow> int" where
  "atoi_or_zero s = (case atoi s of Some v \<Rightarrow> v | None \<Rightarrow> 0)"

definition torrent_release :: "unicode \<Rightarrow> string \<Rightarrow> torrent option \<Rightarrow> Release" where
  "torrent_release U raw parsed =
     (case parsed of
        None \<Rightarrow> zero_release\<lparr>rl_raw := raw\<rparr>
      | Some p \<Rightarrow> zero_release
          \<lparr>rl_raw := raw, rl_title := NormalizeIdentity U (tn_title p), rl_year := tn_year p,
           rl_season := tn_season p, rl_episode := tn_episode p, rl_episode_end := tn_episode_end p,
           rl_group := NormalizeIdentity U (tn_group p),
           rl_source := normalizeSource U (firstNonEmpty [tn_quality p, tn_source p]) raw,
           rl_edition := normalizeEdition U (tn_edition p) raw (tn_extended p) (tn_unrated p),
           rl_resolution := to_lower U (tn_resolution p), rl_complete := tn_complete p\<rparr>)"

definition apply_cross_range :: "string \<Rightarrow> Release \<Rightarrow> Release" where
  "apply_cross_range raw release =
     (case find_submatch seasonCrossEpisodeDotRange raw of
        None \<Rightarrow> release
      | Some m \<Rightarrow>
          (let season = atoi_or_zero (m 1); first = atoi_or_zero (m 2); last = atoi_or_zero (m 3)
           in if season > 0 \<and> first > 0 \<and> last > first
              then release\<lparr>rl_season := season, rl_episode := first, rl_episode_end := last\<rparr> else release))"

definition apply_absolute_range :: "string \<Rightarrow> Release \<Rightarrow> Release" where
  "apply_absolute_range raw release =
     (if rl_season release = 0 then
        (case find_submatch absoluteEpisodeRange raw of
           None \<Rightarrow> release
         | Some m \<Rightarrow>
             (let first = atoi_or_zero (m 1); last = atoi_or_zero (m 2);
                  yearLike = (1900 \<le> first \<and> first \<le> 2099)
              in if first > 0 \<and> last > first \<and> last - first \<le> maximumAbsoluteRangeSpan \<and> \<not> yearLike
                 then release\<lparr>rl_absolute_episode := first, rl_absolute_episode_end := last\<rparr> else release))
      else release)"

definition ParseRelease :: "externals \<Rightarrow> string \<Rightarrow> Release" where
  "ParseRelease X raw =
     (let U = ext_unicode X;
          release = apply_absolute_range raw (apply_cross_range raw (torrent_release U raw (ext_torrent X raw)))
      in release
           \<lparr>rl_service := streamingService U raw,
            rl_source := (if rl_source release = [] then normalizeSource U [] raw else rl_source release),
            rl_edition := (if rl_edition release = [] then normalizeEdition U [] raw False False else rl_edition release),
            rl_variants := editionVariants U (editionDescriptor raw)\<rparr>)"

definition parseReleases :: "externals \<Rightarrow> string list \<Rightarrow> Release list" where
  "parseReleases X names =
     concat (map (\<lambda>raw. map (ParseRelease X)
       (filter (\<lambda>a. a \<noteq> []) (map trim_space (split_regexp releaseAlternativeSeparator raw)))) names)"

end
