(* ===== verification/Go_Sort.thy ===== *)
theory Go_Sort
  imports Prelude
begin

text \<open>
  Go's \<open>sort.SliceStable\<close> and \<open>sort.SliceIsSorted\<close> with a comparison function. For a comparison that is
  a strict weak order the result of a stable sort is determined (\<open>stable_sort_unique\<close>): any list
  that is sorted and keeps equivalent elements in their old order is the one computed here, so the
  insertion order of \<open>sort_by\<close> models the library's merges. A comparison is introduced to the
  locale \<open>strict_weak_order\<close> by its sort key (\<open>swo_key\<close>) or by lexicographic steps (\<open>swo_lex\<close>).
\<close>

fun insert_by :: "('a \<Rightarrow> 'a \<Rightarrow> bool) \<Rightarrow> 'a \<Rightarrow> 'a list \<Rightarrow> 'a list" where
  "insert_by lt x [] = [x]"
| "insert_by lt x (y # ys) = (if lt y x then y # insert_by lt x ys else x # y # ys)"

definition sort_by :: "('a \<Rightarrow> 'a \<Rightarrow> bool) \<Rightarrow> 'a list \<Rightarrow> 'a list" where
  "sort_by lt xs = foldr (insert_by lt) xs []"

text \<open>\<open>sort.SliceIsSorted\<close> compares neighbours only.\<close>

fun is_sorted_by :: "('a \<Rightarrow> 'a \<Rightarrow> bool) \<Rightarrow> 'a list \<Rightarrow> bool" where
  "is_sorted_by lt (x # y # ys) \<longleftrightarrow> \<not> lt y x \<and> is_sorted_by lt (y # ys)"
| "is_sorted_by lt _ \<longleftrightarrow> True"

abbreviation tied :: "('a \<Rightarrow> 'a \<Rightarrow> bool) \<Rightarrow> 'a \<Rightarrow> 'a \<Rightarrow> bool" where
  "tied lt a b \<equiv> \<not> lt a b \<and> \<not> lt b a"

lemma sort_by_Nil [simp]: "sort_by lt [] = []"
  by (simp add: sort_by_def)

lemma sort_by_Cons [simp]: "sort_by lt (x # xs) = insert_by lt x (sort_by lt xs)"
  by (simp add: sort_by_def)

lemma mset_insert_by [simp]: "mset (insert_by lt x xs) = add_mset x (mset xs)"
  by (induction xs) auto

lemma mset_sort_by [simp]: "mset (sort_by lt xs) = mset xs"
  by (induction xs) auto

lemma set_sort_by [simp]: "set (sort_by lt xs) = set xs"
  by (metis mset_sort_by set_mset_mset)

lemma length_sort_by [simp]: "length (sort_by lt xs) = length xs"
  by (metis mset_sort_by size_mset)

lemma distinct_sort_by [simp]: "distinct (sort_by lt xs) = distinct xs"
  by (rule mset_eq_imp_distinct_iff) simp

lemma set_insert_by [simp]: "set (insert_by lt x xs) = insert x (set xs)"
  by (metis mset_insert_by set_mset_add_mset_insert set_mset_mset)

context strict_weak_order
begin

abbreviation in_order :: "'a list \<Rightarrow> bool" where
  "in_order \<equiv> sorted_wrt (\<lambda>a b. \<not> more b a)"

lemma in_order_insert: "in_order xs \<Longrightarrow> in_order (insert_by more x xs)"
proof (induction xs)
  case (Cons y ys)
  have "\<not> more z x" if "\<not> more y x" "z \<in> set ys" for z
    using that Cons.prems neg_trans by fastforce
  with Cons show ?case by (auto dest: asym)
qed simp

lemma in_order_sort_by: "in_order (sort_by more xs)"
  by (induction xs) (auto intro: in_order_insert)

lemma is_sorted_by_iff: "is_sorted_by more xs \<longleftrightarrow> in_order xs"
proof (induction xs rule: induct_list012)
  case (3 x y ys)
  have "\<not> more z x" if "\<not> more y x" "\<not> more z y" for z
    using that by (rule neg_trans [rotated])
  with 3 show ?case by auto
qed auto

lemma tied_trans: "\<lbrakk>tied more a b; tied more b c\<rbrakk> \<Longrightarrow> tied more a c"
  using neg_trans by blast

lemma insert_by_ties:
  "filter (tied more a) (insert_by more x xs) = filter (tied more a) (x # xs)"
proof (induction xs)
  case (Cons y ys)
  have "\<not> (tied more a x \<and> tied more a y)" if "more y x"
    using that tied_trans [of x a y] by blast
  with Cons show ?case by auto
qed simp

lemma sort_by_ties: "filter (tied more a) (sort_by more xs) = filter (tied more a) xs"
  by (induction xs) (simp_all add: insert_by_ties)

lemma stable_sort_unique:
  assumes "in_order xs" and "in_order ys"
    and "\<And>a. filter (tied more a) xs = filter (tied more a) ys"
  shows "xs = ys"
  using assms
proof (induction xs arbitrary: ys)
  case Nil
  have "y \<notin> set ys" for y
  proof
    assume "y \<in> set ys"
    then have "y \<in> set (filter (tied more y) ys)" by (simp add: irrefl)
    with Nil(3) [of y] show False by simp
  qed
  then show ?case by (cases ys) auto
next
  case (Cons x xs)
  have mem: "z \<in> set ys \<longleftrightarrow> z \<in> set (x # xs)" for z
  proof -
    have "z \<in> set us \<longleftrightarrow> z \<in> set (filter (tied more z) us)" for us by (simp add: irrefl)
    then show ?thesis using Cons.prems(3) [of z] by metis
  qed
  then obtain y zs where ys: "ys = y # zs" by (cases ys) auto
  have "\<not> more x y" using mem [of x] Cons.prems(2) by (auto simp: ys irrefl)
  moreover have "\<not> more y x" using mem [of y] Cons.prems(1) by (auto simp: ys irrefl)
  ultimately have xy: "x = y" using Cons.prems(3) [of x] by (simp add: ys irrefl)
  have "filter (tied more a) xs = filter (tied more a) zs" for a
    using Cons.prems(3) [of a] by (simp add: ys xy split: if_splits)
  with Cons.IH [of zs] Cons.prems(1,2) xy ys show ?case by simp
qed

lemma sort_by_sorted: "in_order xs \<Longrightarrow> sort_by more xs = xs"
  by (rule stable_sort_unique) (simp_all add: in_order_sort_by sort_by_ties)

text \<open>With no two elements tied, the result does not depend on the order of the input.\<close>

lemma sort_by_order_free:
  assumes "mset xs = mset ys" and "\<And>a b. \<lbrakk>a \<in> set xs; b \<in> set xs; tied more a b\<rbrakk> \<Longrightarrow> a = b"
  shows "sort_by more xs = sort_by more ys"
proof (rule stable_sort_unique)
  fix a
  have ties: "mset (filter (tied more a) xs) = mset (filter (tied more a) ys)"
    using assms(1) by (simp add: mset_filter)
  have same: "u = v" if "u \<in> set (filter (tied more a) xs)" "v \<in> set (filter (tied more a) xs)" for u v
  proof (rule assms(2))
    show "tied more u v" using that tied_trans [of u a v] by simp
  qed (use that in auto)
  have len: "length (filter (tied more a) xs) = length (filter (tied more a) ys)"
    using ties by (rule mset_eq_length)
  have in_ys: "set (filter (tied more a) ys) = set (filter (tied more a) xs)"
    using ties by (rule mset_eq_setD [symmetric])
  have "filter (tied more a) xs = filter (tied more a) ys"
  proof (rule nth_equalityI)
    fix i assume i: "i < length (filter (tied more a) xs)"
    show "filter (tied more a) xs ! i = filter (tied more a) ys ! i"
    proof (rule same)
      show "filter (tied more a) xs ! i \<in> set (filter (tied more a) xs)" using i by (rule nth_mem)
      show "filter (tied more a) ys ! i \<in> set (filter (tied more a) xs)"
        using nth_mem [of i "filter (tied more a) ys"] i unfolding len in_ys .
    qed
  qed (rule len)
  then show "filter (tied more a) (sort_by more xs) = filter (tied more a) (sort_by more ys)"
    by (simp only: sort_by_ties)
qed (simp_all add: in_order_sort_by)

end

section \<open>Comparisons\<close>

lemma swo_key: "strict_weak_order (\<lambda>a b. (f a :: 'k :: linorder) < f b)"
  by unfold_locales auto

text \<open>\<open>if f a != f b { return f a < f b }\<close> before a further comparison.\<close>

lemma swo_lex:
  fixes f :: "'a \<Rightarrow> 'k :: linorder"
  assumes "strict_weak_order more"
  shows "strict_weak_order (\<lambda>a b. if f a \<noteq> f b then f a < f b else more a b)"
proof -
  from assms have m: "\<not> more u u" "\<lbrakk>more u v; more v w\<rbrakk> \<Longrightarrow> more u w"
      "\<lbrakk>\<not> more u v; \<not> more v w\<rbrakk> \<Longrightarrow> \<not> more u w" for u v w
    by (blast dest: strict_weak_order.irrefl strict_weak_order.trans strict_weak_order.neg_trans)+
  show ?thesis
  proof
    fix a b c
    show "\<not> (if f a \<noteq> f a then f a < f a else more a a)" by (simp add: m(1))
    show "(if f a \<noteq> f c then f a < f c else more a c)"
      if "if f a \<noteq> f b then f a < f b else more a b" "if f b \<noteq> f c then f b < f c else more b c"
      using that m(2) [of a b c] by (cases "f a" "f b" rule: linorder_cases; cases "f b" "f c" rule: linorder_cases) (auto split: if_splits)
    show "\<not> (if f a \<noteq> f c then f a < f c else more a c)"
      if "\<not> (if f a \<noteq> f b then f a < f b else more a b)" "\<not> (if f b \<noteq> f c then f b < f c else more b c)"
      using that m(3) [of a b c] by (cases "f a" "f b" rule: linorder_cases; cases "f b" "f c" rule: linorder_cases) (auto split: if_splits)
  qed
qed

end
