(* ===== verification/Match_Score.thy ===== *)
theory Match_Score
  imports Match_Release Go_Sort Float64 "HOL-Library.List_Lexorder" "HOL-Library.Char_ord"
begin

text \<open>
  \<open>internal/match/score.go\<close> and \<open>affinity.go\<close>: the identity checks that reject a candidate, the points
  of the others, the eligibility test and the ranking. Strings are compared by their bytes, as Go
  compares them.
\<close>

record EvaluatedCandidate =
  ev_candidate :: Candidate
  ev_score :: Score
  ev_priority :: int

section \<open>Comparison helpers\<close>

definition comparable :: "unicode \<Rightarrow> string \<Rightarrow> string" where
  "comparable U value0 = NormalizeIdentity U (trim_space value0)"

definition clamp :: "rat \<Rightarrow> rat" where
  "clamp v = (if v < 0 then 0 else if v > 1 then 1 else v)"

definition boolPoints :: "bool \<Rightarrow> int \<Rightarrow> int" where
  "boolPoints b points = (if b then points else 0)"

definition contribution :: "string \<Rightarrow> int \<Rightarrow> string \<Rightarrow> Contribution" where
  "contribution signal points label =
     \<lparr>co_signal = signal, co_points = points,
      co_reason = (if points > 0 then label @ '' matched'' else label @ '' did not match or was unknown'')\<rparr>"

definition releaseFieldMatches :: "unicode \<Rightarrow> Release list \<Rightarrow> string \<Rightarrow> (Release \<Rightarrow> string) \<Rightarrow> bool" where
  "releaseFieldMatches U releases wanted0 field =
     (let wanted = comparable U wanted0
      in wanted \<noteq> [] \<and> (\<exists>release \<in> set releases. comparable U (field release) = wanted))"

text \<open>The quality names a remux or a full disc that the source does not.\<close>

definition mediaSource :: "unicode \<Rightarrow> Media \<Rightarrow> string" where
  "mediaSource U media =
     (let quality = to_lower U (m_quality media)
      in if contains_str quality ''remux'' \<or> contains_str quality ''br-disk'' \<or> contains_str quality ''brdisk''
         then ''remux'' else normalizeSource U (m_source media) [])"

definition releaseSourceMatches :: "unicode \<Rightarrow> Release list \<Rightarrow> Media \<Rightarrow> bool" where
  "releaseSourceMatches U releases media = releaseFieldMatches U releases (mediaSource U media) rl_source"

definition editionMatches :: "unicode \<Rightarrow> Release list \<Rightarrow> string \<Rightarrow> bool" where
  "editionMatches U releases edition =
     (let wanted = comparable U (normalizeEdition U edition [] False False)
      in if wanted \<noteq> [] then \<exists>release \<in> set releases. comparable U (rl_edition release) = wanted
         else (let variants = editionVariants U edition
               in variants \<noteq> 0 \<and> (\<exists>release \<in> set releases. and (rl_variants release) variants = variants)))"

definition equivalentReleaseGroups :: "string list list" where
  "equivalentReleaseGroups =
     [[''framestor'', ''w4nk3r'', ''bhdstudio''], [''lol'', ''dimension''], [''asap'', ''immerse'', ''fleet''],
      [''avs'', ''sva'']]"

definition accepted_groups :: "unicode \<Rightarrow> string \<Rightarrow> string list" where
  "accepted_groups U wanted =
     wanted # concat (map (map (comparable U))
       (filter (\<lambda>aliases. \<exists>alias \<in> set aliases. comparable U alias = wanted) equivalentReleaseGroups))"

definition releaseGroupMatches :: "unicode \<Rightarrow> Release list \<Rightarrow> string \<Rightarrow> bool" where
  "releaseGroupMatches U releases wanted0 =
     (let wanted = comparable U wanted0
      in wanted \<noteq> [] \<and>
         (\<exists>release \<in> set releases. comparable U (rl_group release) \<in> set (accepted_groups U wanted)))"

definition titleMatches :: "unicode \<Rightarrow> Media \<Rightarrow> Candidate \<Rightarrow> Release list \<Rightarrow> bool" where
  "titleMatches U media candidate releases =
     (let wanted = map (NormalizeIdentity U) (m_title media # m_alternate_titles media)
      in (\<exists>title \<in> set (c_title candidate # c_alternate_titles candidate).
            NormalizeIdentity U title \<noteq> [] \<and> NormalizeIdentity U title \<in> set wanted)
         \<or> (\<exists>release \<in> set releases. rl_title release \<noteq> [] \<and> rl_title release \<in> set wanted))"

section \<open>External identities\<close>

definition externalConflicts :: "unicode \<Rightarrow> ExternalIDs \<Rightarrow> ExternalIDs \<Rightarrow> string list" where
  "externalConflicts U media candidate =
     (if x_imdb media \<noteq> [] \<and> x_imdb candidate \<noteq> [] \<and> comparable U (x_imdb media) \<noteq> comparable U (x_imdb candidate)
      then [''candidate IMDb identity conflicts with target''] else [])
     @ (if x_tmdb media \<noteq> 0 \<and> x_tmdb candidate \<noteq> 0 \<and> x_tmdb media \<noteq> x_tmdb candidate
        then [''candidate TMDB identity conflicts with target''] else [])
     @ (if x_tvdb media \<noteq> 0 \<and> x_tvdb candidate \<noteq> 0 \<and> x_tvdb media \<noteq> x_tvdb candidate
        then [''candidate TVDB identity conflicts with target''] else [])"

definition matchingExternalID :: "unicode \<Rightarrow> ExternalIDs \<Rightarrow> ExternalIDs \<Rightarrow> bool" where
  "matchingExternalID U media candidate \<longleftrightarrow>
     x_imdb media \<noteq> [] \<and> x_imdb candidate \<noteq> [] \<and> comparable U (x_imdb media) = comparable U (x_imdb candidate)
     \<or> x_tmdb media \<noteq> 0 \<and> x_tmdb candidate \<noteq> 0 \<and> x_tmdb media = x_tmdb candidate
     \<or> x_tvdb media \<noteq> 0 \<and> x_tvdb candidate \<noteq> 0 \<and> x_tvdb media = x_tvdb candidate"

section \<open>Episodes and packs\<close>

definition packSeasonConflicts :: "PackInfo option \<Rightarrow> Media \<Rightarrow> bool" where
  "packSeasonConflicts pack media =
     (case pack of
        None \<Rightarrow> False
      | Some p \<Rightarrow>
          if pk_season p = 0 \<or> pk_season p = m_season media then False
          else \<not> (pk_scope p = PackRange \<and> m_absolute_episode media > 0
                  \<and> pk_absolute_from p \<le> m_absolute_episode media \<and> m_absolute_episode media \<le> pk_absolute_to p))"

definition packContains :: "PackInfo option \<Rightarrow> Media \<Rightarrow> bool" where
  "packContains pack media =
     (case pack of
        None \<Rightarrow> False
      | Some p \<Rightarrow>
          if pk_scope p = PackSeason then pk_season p = m_season media
          else if pk_scope p = PackRange then
            (pk_season p = 0 \<or> pk_season p = m_season media) \<and> pk_episode_from p \<le> m_episode media
              \<and> m_episode media \<le> pk_episode_to p
            \<or> m_absolute_episode media > 0 \<and> pk_absolute_from p \<le> m_absolute_episode media
              \<and> m_absolute_episode media \<le> pk_absolute_to p
          else False)"

text \<open>The part of \<open>coversTarget\<close> that reads the pack, and the part that reads one release.\<close>

definition pack_covers :: "Media \<Rightarrow> PackInfo option \<Rightarrow> bool" where
  "pack_covers media pack =
     (case pack of
        None \<Rightarrow> False
      | Some p \<Rightarrow> pk_scope p = PackRange \<and>
          ((pk_season p = 0 \<or> pk_season p = m_season media) \<and> pk_episode_from p > 0
             \<and> pk_episode_from p \<le> m_episode media \<and> m_episode_end media \<le> pk_episode_to p
           \<or> m_absolute_episode_end media > 0 \<and> pk_absolute_from p > 0
             \<and> pk_absolute_from p \<le> m_absolute_episode media \<and> m_absolute_episode_end media \<le> pk_absolute_to p))"

definition release_covers :: "Media \<Rightarrow> Release \<Rightarrow> bool" where
  "release_covers media release \<longleftrightarrow>
     rl_season release = m_season media \<and> rl_episode release > 0 \<and> rl_episode release \<le> m_episode media
       \<and> m_episode_end media \<le> max (rl_episode_end release) (rl_episode release)
     \<or> m_absolute_episode_end media > 0 \<and> rl_absolute_episode release > 0
       \<and> rl_absolute_episode release \<le> m_absolute_episode media
       \<and> m_absolute_episode_end media \<le> rl_absolute_episode_end release"

definition coversTarget :: "Media \<Rightarrow> Candidate \<Rightarrow> Release list \<Rightarrow> bool" where
  "coversTarget media candidate releases \<longleftrightarrow>
     c_exact_hash candidate \<or> pack_covers media (c_pack candidate) \<or> (\<exists>release \<in> set releases. release_covers media release)"

definition episodeInTarget :: "Media \<Rightarrow> int \<Rightarrow> bool" where
  "episodeInTarget media episode =
     (if IsEpisodeRange media then m_episode media \<le> episode \<and> episode \<le> m_episode_end media
      else episode = m_episode media)"

definition candidateReleases :: "externals \<Rightarrow> Candidate \<Rightarrow> Release list" where
  "candidateReleases X candidate =
     parseReleases X (c_release_names candidate)
     @ map (\<lambda>g. zero_release\<lparr>rl_group := g\<rparr>) (c_release_groups candidate)
     @ map (\<lambda>r. zero_release\<lparr>rl_resolution := r\<rparr>) (c_resolutions candidate)"

definition episodeEvidenceMatches :: "Media \<Rightarrow> Candidate \<Rightarrow> Release list \<Rightarrow> bool" where
  "episodeEvidenceMatches media candidate releases =
     (if ref_kind (m_ref media) \<noteq> MediaEpisode then False
      else if IsEpisodeRange media then coversTarget media candidate releases
      else c_season candidate = m_season media \<and> c_episode candidate = m_episode media \<and> m_season media > 0 \<and> m_episode media > 0
        \<or> m_absolute_episode media > 0 \<and> c_absolute_episode candidate = m_absolute_episode media
        \<or> packContains (c_pack candidate) media
        \<or> (\<exists>release \<in> set releases.
             rl_season release = m_season media \<and> rl_episode release > 0 \<and> rl_episode release \<le> m_episode media
             \<and> m_episode media \<le> (if rl_episode_end release = 0 then rl_episode release else rl_episode_end release)))"

definition HasEpisodeEvidence :: "externals \<Rightarrow> Media \<Rightarrow> Candidate \<Rightarrow> bool" where
  "HasEpisodeEvidence X media candidate = episodeEvidenceMatches media candidate (candidateReleases X candidate)"

section \<open>Rejections\<close>

definition multiDiscLabel :: regexp where
  "multiDiscLabel =
     seq_re [Alt Begin (Class (\<lambda>r. \<not> folded_alnum r)),
       Alt (seq_re [Class (one_of ''cC''), Class (one_of ''dD''), Repeat 0 (Some 1) (\<lambda>r. r = 32),
                    Repeat 0 (Some 1) (\<lambda>r. r = 48), Class (\<lambda>r. 49 \<le> r \<and> r \<le> 57)])
           (seq_re [Class (\<lambda>r. 50 \<le> r \<and> r \<le> 57), Repeat 0 (Some 1) (\<lambda>r. r = 32), Class (one_of ''cC''),
                    Class (one_of ''dD''), Repeat 0 (Some 1) (\<lambda>r. r = 115 \<or> r = 83 \<or> r = 383)]),
       Alt (Class (\<lambda>r. \<not> folded_alnum r)) Finish]"

definition IsMultiDisc :: "string \<Rightarrow> bool" where
  "IsMultiDisc name = match_string multiDiscLabel name"

definition edition_conflicts :: "unicode \<Rightarrow> Media \<Rightarrow> Candidate \<Rightarrow> Release list \<Rightarrow> bool" where
  "edition_conflicts U media candidate releases =
     (let wanted = comparable U (normalizeEdition U (m_edition media) [] False False);
          named = filter (\<lambda>release. rl_edition release \<noteq> []) releases
      in wanted \<noteq> [] \<and> \<not> c_exact_hash candidate \<and> named \<noteq> []
         \<and> \<not> (\<exists>release \<in> set named. comparable U (rl_edition release) = wanted))"

definition identityRejections ::
  "externals \<Rightarrow> Media \<Rightarrow> Candidate \<Rightarrow> language \<Rightarrow> Release list \<Rightarrow> bool \<Rightarrow> string list" where
  "identityRejections X media candidate requestedLanguage releases selectedMember =
     (let U = ext_unicode X
      in (if \<not> EquivalentLanguage X (c_language candidate) requestedLanguage
          then [''candidate language conflicts with requested language''] else [])
       @ (if c_kind candidate \<noteq> [] \<and> c_kind candidate \<noteq> ref_kind (m_ref media)
          then [''candidate media kind conflicts with target''] else [])
       @ (if c_forced candidate then [''forced-only candidate does not satisfy a full-language request''] else [])
       @ externalConflicts U (m_external_ids media) (c_external_ids candidate)
       @ (if ref_kind (m_ref media) = MediaMovie then
            (if m_year media \<noteq> 0 \<and> c_year candidate \<noteq> 0 \<and> \<bar>m_year media - c_year candidate\<bar> > 1
                \<and> \<not> matchingExternalID U (m_external_ids media) (c_external_ids candidate)
             then [''candidate movie year differs by more than one''] else [])
          else if packSeasonConflicts (c_pack candidate) media then [''candidate pack season conflicts with target'']
          else if \<not> packContains (c_pack candidate) media then
            (if c_season candidate \<noteq> 0 \<and> c_season candidate \<noteq> m_season media
             then [''candidate season conflicts with target''] else [])
            @ (if \<not> selectedMember \<and> c_episode candidate \<noteq> 0 \<and> \<not> episodeInTarget media (c_episode candidate)
                  \<and> c_episode candidate \<noteq> m_absolute_episode media
               then [''candidate episode conflicts with target''] else [])
          else [])
       @ (if IsEpisodeRange media \<and> \<not> c_exact_hash candidate \<and> \<not> selectedMember \<and> \<not> coversTarget media candidate releases
          then [''candidate episode range does not cover target''] else [])
       @ (if edition_conflicts U media candidate releases then [''candidate edition conflicts with target''] else [])
       @ (if \<not> c_exact_hash candidate \<and> (\<exists>release \<in> set releases. match_string multiDiscLabel (rl_raw release))
          then [''candidate is one disc of a multi-disc release''] else []))"

definition HasMatchingEdition :: "externals \<Rightarrow> Media \<Rightarrow> Candidate \<Rightarrow> bool" where
  "HasMatchingEdition X media candidate =
     (let U = ext_unicode X
      in if normalizeEdition U (m_edition media) [] False False = [] \<and> editionVariants U (m_edition media) = 0 then True
         else editionMatches U (candidateReleases X candidate) (m_edition media))"

section \<open>Points\<close>

definition year_matches :: "Media \<Rightarrow> Candidate \<Rightarrow> Release list \<Rightarrow> bool" where
  "year_matches media candidate releases \<longleftrightarrow>
     c_year candidate \<noteq> 0 \<and> m_year media \<noteq> 0 \<and> c_year candidate = m_year media
     \<or> (\<exists>release \<in> set releases. rl_year release \<noteq> 0 \<and> rl_year release = m_year media)"

definition score_contributions :: "unicode \<Rightarrow> Media \<Rightarrow> Candidate \<Rightarrow> Release list \<Rightarrow> bool \<Rightarrow> Contribution list" where
  "score_contributions U media candidate releases selectedMember =
     [contribution ''external_id''
        (boolPoints (matchingExternalID U (m_external_ids media) (c_external_ids candidate)) 20)
        ''matching IMDb, TMDB, or TVDB identity'',
      contribution ''title_year''
        (boolPoints (titleMatches U media candidate releases \<and> year_matches media candidate releases) 15)
        ''normalized title and year'',
      contribution ''episode''
        (boolPoints (selectedMember \<or> episodeEvidenceMatches media candidate releases) 20) ''episode or containing pack'',
      contribution ''release_group'' (boolPoints (releaseGroupMatches U releases (m_release_group media)) 25) ''release group'',
      contribution ''source'' (boolPoints (releaseSourceMatches U releases media) 15) ''media source'',
      contribution ''edition'' (boolPoints (editionMatches U releases (m_edition media)) 10) ''edition or cut'',
      contribution ''streaming_service''
        (boolPoints (releaseFieldMatches U releases (m_streaming_service media) rl_service) 5) ''streaming service'',
      contribution ''resolution''
        (boolPoints (releaseFieldMatches U releases (m_resolution media) rl_resolution) 5) ''resolution'',
      contribution ''provider_rating'' (math_round (rnd (clamp (c_rating candidate) * 3))) ''normalized provider rating'',
      contribution ''popularity'' (math_round (rnd (clamp (c_popularity candidate) * 2))) ''normalized provider popularity'']"

definition exact_hash_score :: Score where
  "exact_hash_score =
     \<lparr>sc_total = 100,
      sc_contributions = [\<lparr>co_signal = ''exact_hash'', co_points = 100, co_reason = ''provider verified the exact media-file hash''\<rparr>],
      sc_rejected_reasons = []\<rparr>"

definition evaluate :: "externals \<Rightarrow> Media \<Rightarrow> Candidate \<Rightarrow> language \<Rightarrow> bool \<Rightarrow> Score" where
  "evaluate X media candidate requestedLanguage selectedMember =
     (let releases = candidateReleases X candidate;
          rejected = identityRejections X media candidate requestedLanguage releases selectedMember
      in if rejected \<noteq> [] then \<lparr>sc_total = 0, sc_contributions = [], sc_rejected_reasons = rejected\<rparr>
         else if c_exact_hash candidate then exact_hash_score
         else (let contributions = score_contributions (ext_unicode X) media candidate releases selectedMember;
                   total = sum_list (map co_points contributions)
               in \<lparr>sc_total = (if total > 100 then 100 else total), sc_contributions = contributions, sc_rejected_reasons = []\<rparr>))"

definition Evaluate :: "externals \<Rightarrow> Media \<Rightarrow> Candidate \<Rightarrow> language \<Rightarrow> Score" where
  "Evaluate X media candidate requestedLanguage = evaluate X media candidate requestedLanguage False"

definition EvaluateSelectedPackMember :: "externals \<Rightarrow> Media \<Rightarrow> Candidate \<Rightarrow> language \<Rightarrow> Score" where
  "EvaluateSelectedPackMember X media candidate lang =
     (if ref_kind (m_ref media) \<noteq> MediaEpisode \<or> c_exact_hash candidate then Evaluate X media candidate lang
      else evaluate X media candidate lang True)"

definition Eligible :: "Score \<Rightarrow> int \<Rightarrow> bool" where
  "Eligible score minimum \<longleftrightarrow> sc_rejected_reasons score = [] \<and> minimum \<le> sc_total score"

definition ReleaseAffinity :: "externals \<Rightarrow> Media \<Rightarrow> string \<Rightarrow> int" where
  "ReleaseAffinity X media name =
     (let U = ext_unicode X; releases = [ParseRelease X name]
      in boolPoints (releaseGroupMatches U releases (m_release_group media)) 25
         + boolPoints (releaseSourceMatches U releases media) 15
         + boolPoints (editionMatches U releases (m_edition media)) 10
         + boolPoints (releaseFieldMatches U releases (m_streaming_service media) rl_service) 5
         + boolPoints (releaseFieldMatches U releases (m_resolution media) rl_resolution) 5)"

section \<open>Ranking\<close>

definition rank_before :: "EvaluatedCandidate \<Rightarrow> EvaluatedCandidate \<Rightarrow> bool" where
  "rank_before left right =
     (let l = ev_candidate left; r = ev_candidate right
      in if sc_total (ev_score left) \<noteq> sc_total (ev_score right) then sc_total (ev_score right) < sc_total (ev_score left)
         else if ev_priority left \<noteq> ev_priority right then ev_priority left < ev_priority right
         else if c_rating l \<noteq> c_rating r then c_rating r < c_rating l
         else if c_download_count l \<noteq> c_download_count r then c_download_count r < c_download_count l
         else if c_provider_id l \<noteq> c_provider_id r then c_provider_id l < c_provider_id r
         else c_result_id l < c_result_id r)"

definition Rank :: "EvaluatedCandidate list \<Rightarrow> EvaluatedCandidate list" where
  "Rank items = sort_by rank_before items"

interpretation rank: strict_weak_order rank_before
proof -
  have "strict_weak_order (\<lambda>left right.
      if - sc_total (ev_score left) \<noteq> - sc_total (ev_score right) then - sc_total (ev_score left) < - sc_total (ev_score right)
      else if ev_priority left \<noteq> ev_priority right then ev_priority left < ev_priority right
      else if - c_rating (ev_candidate left) \<noteq> - c_rating (ev_candidate right)
        then - c_rating (ev_candidate left) < - c_rating (ev_candidate right)
      else if - c_download_count (ev_candidate left) \<noteq> - c_download_count (ev_candidate right)
        then - c_download_count (ev_candidate left) < - c_download_count (ev_candidate right)
      else if c_provider_id (ev_candidate left) \<noteq> c_provider_id (ev_candidate right)
        then c_provider_id (ev_candidate left) < c_provider_id (ev_candidate right)
      else c_result_id (ev_candidate left) < c_result_id (ev_candidate right))"
    by (intro swo_lex swo_key)
  also have "(\<lambda>left right.
      if - sc_total (ev_score left) \<noteq> - sc_total (ev_score right) then - sc_total (ev_score left) < - sc_total (ev_score right)
      else if ev_priority left \<noteq> ev_priority right then ev_priority left < ev_priority right
      else if - c_rating (ev_candidate left) \<noteq> - c_rating (ev_candidate right)
        then - c_rating (ev_candidate left) < - c_rating (ev_candidate right)
      else if - c_download_count (ev_candidate left) \<noteq> - c_download_count (ev_candidate right)
        then - c_download_count (ev_candidate left) < - c_download_count (ev_candidate right)
      else if c_provider_id (ev_candidate left) \<noteq> c_provider_id (ev_candidate right)
        then c_provider_id (ev_candidate left) < c_provider_id (ev_candidate right)
      else c_result_id (ev_candidate left) < c_result_id (ev_candidate right)) = rank_before"
    by (intro ext) (simp only: rank_before_def Let_def neg_equal_iff_equal neg_less_iff_less)
  finally show "strict_weak_order rank_before" .
qed

end
