(* ===== verification/Match_Props.thy ===== *)
theory Match_Props
  imports Match_Score Workflow_Types
begin

text \<open>
  What the matching rules guarantee: scores are well formed, an eligible candidate is one for the
  requested file and language, and the ranking is a function of the set of candidates.
\<close>

section \<open>Points\<close>

lemma clamp_bounds: "0 \<le> clamp v" "clamp v \<le> 1"
  by (auto simp: clamp_def)

lemma clamped_points:
  assumes "0 \<le> n" and "n \<le> 100"
  shows "0 \<le> math_round (rnd (clamp v * of_int n)) \<and> math_round (rnd (clamp v * of_int n)) \<le> n"
proof -
  have "clamp v * of_int n \<le> 1 * of_int n"
    using clamp_bounds [of v] assms by (intro mult_right_mono) auto
  then have "rnd (clamp v * of_int n) \<le> of_int n"
    using assms by (intro rnd_le_int) auto
  moreover have "0 \<le> rnd (clamp v * of_int n)"
    using clamp_bounds [of v] assms by (intro rnd_nonneg) auto
  ultimately show ?thesis by (auto simp: math_round_def) linarith
qed

lemma boolPoints_bounds: "0 \<le> n \<Longrightarrow> 0 \<le> boolPoints b n \<and> boolPoints b n \<le> n"
  by (simp add: boolPoints_def)

lemma contribution_simps [simp]:
  "co_signal (contribution s p l) = s" "co_points (contribution s p l) = p"
  by (simp_all add: contribution_def)

text \<open>The weight table of the score: each signal with the most it can add.\<close>

definition signal_weights :: "(string \<times> int) list" where
  "signal_weights =
     [(''external_id'', 20), (''title_year'', 15), (''episode'', 20), (''release_group'', 25), (''source'', 15),
      (''edition'', 10), (''streaming_service'', 5), (''resolution'', 5), (''provider_rating'', 3), (''popularity'', 2)]"

definition within_weight :: "Contribution \<Rightarrow> string \<times> int \<Rightarrow> bool" where
  "within_weight c w \<longleftrightarrow> co_signal c = fst w \<and> 0 \<le> co_points c \<and> co_points c \<le> snd w"

lemma within_weight_bool: "0 \<le> w \<Longrightarrow> within_weight (contribution s (boolPoints b w) l) (s, w)"
  by (simp add: within_weight_def boolPoints_bounds)

lemma score_contributions_weights:
  "list_all2 within_weight (score_contributions U media candidate releases selected) signal_weights"
  using clamped_points [of 3 "c_rating candidate"] clamped_points [of 2 "c_popularity candidate"]
  by (simp add: score_contributions_def signal_weights_def within_weight_bool) (simp add: within_weight_def)

lemma list_all2_weights_sum:
  "list_all2 within_weight cs ws \<Longrightarrow> 0 \<le> sum_list (map co_points cs)"
  by (induction rule: list_all2_induct) (auto simp: within_weight_def)

section \<open>The shape of a score\<close>

text \<open>
  A score is of one of three shapes: rejected with reasons and no points, the exact hash, or one
  contribution per signal, each within its weight.
\<close>

definition rejected_shape :: "Score \<Rightarrow> bool" where
  "rejected_shape s \<longleftrightarrow> sc_rejected_reasons s \<noteq> [] \<and> sc_total s = 0 \<and> sc_contributions s = []"

definition additive_shape :: "Score \<Rightarrow> bool" where
  "additive_shape s \<longleftrightarrow>
     sc_rejected_reasons s = [] \<and> list_all2 within_weight (sc_contributions s) signal_weights
     \<and> sc_total s = min 100 (sum_list (map co_points (sc_contributions s)))"

lemma evaluate_cases:
  defines "rejections \<equiv> \<lambda>X media c lang sel. identityRejections X media c lang (candidateReleases X c) sel"
  obtains (rejected) "rejections X media c lang sel \<noteq> []" "rejected_shape (evaluate X media c lang sel)"
      "sc_rejected_reasons (evaluate X media c lang sel) = rejections X media c lang sel"
  | (exact) "rejections X media c lang sel = []" "c_exact_hash c" "evaluate X media c lang sel = exact_hash_score"
  | (additive) "rejections X media c lang sel = []" "\<not> c_exact_hash c" "additive_shape (evaluate X media c lang sel)"
      "sc_contributions (evaluate X media c lang sel)
       = score_contributions (ext_unicode X) media c (candidateReleases X c) sel"
proof (cases "rejections X media c lang sel = []")
  case False
  then show thesis by (intro rejected) (auto simp: evaluate_def rejections_def rejected_shape_def Let_def)
next
  case True
  show thesis
  proof (cases "c_exact_hash c")
    case exact_hash: True
    with True show thesis by (intro exact) (auto simp: evaluate_def rejections_def Let_def)
  next
    case False
    with True show thesis
      using score_contributions_weights
      by (intro additive) (auto simp: evaluate_def rejections_def additive_shape_def Let_def)
  qed
qed

text \<open>C39: every score is well formed. A candidate is either rejected (with its reasons, no points
  and a total of zero), or it has the single exact-hash contribution of 100 points, which happens
  exactly for an unrejected candidate whose hash the provider verified, or it has one contribution
  for each of the ten signals, in order and each between zero and the signal's weight, whose sum,
  cut at 100, is the total. So a total is always between 0 and 100, and a total of at least one
  point shows that nothing conflicted.\<close>

theorem score_well_formed:
  "let s = evaluate X media c lang sel
   in (rejected_shape s \<longleftrightarrow> \<not> (s = exact_hash_score \<or> additive_shape s))
      \<and> (s = exact_hash_score \<longleftrightarrow> c_exact_hash c \<and> \<not> rejected_shape s)
      \<and> 0 \<le> sc_total s \<and> sc_total s \<le> 100
      \<and> (Eligible s 1 \<longleftrightarrow> 0 < sc_total s)"
proof (rule evaluate_cases [of X media c lang sel])
  note shapes = rejected_shape_def additive_shape_def exact_hash_score_def Eligible_def signal_weights_def
  let ?s = "evaluate X media c lang sel"
  show ?thesis if "rejected_shape ?s"
    using that by (auto simp: Let_def shapes)
  show ?thesis if "c_exact_hash c" "?s = exact_hash_score"
    unfolding that(2) using that(1) by (simp add: Let_def shapes)
  show ?thesis if "\<not> c_exact_hash c" "additive_shape ?s"
  proof -
    have "?s \<noteq> exact_hash_score" using that(2) by (auto simp: shapes)
    moreover have "\<not> rejected_shape ?s" using that(2) by (simp add: shapes)
    moreover have "0 \<le> sum_list (map co_points (sc_contributions ?s))"
      using that(2) by (intro list_all2_weights_sum [of _ signal_weights]) (simp add: additive_shape_def)
    ultimately show ?thesis
      using that by (auto simp: Let_def additive_shape_def Eligible_def)
  qed
qed

section \<open>An eligible candidate is for the requested file\<close>

text \<open>
  The episode ranges a candidate names for a season: its range pack, and its release names. A whole-season
  pack names none.
\<close>

definition standard_ranges :: "int \<Rightarrow> Candidate \<Rightarrow> Release list \<Rightarrow> (int \<times> int) list" where
  "standard_ranges season c releases =
     (case c_pack c of
        Some p \<Rightarrow> if pk_scope p = PackRange \<and> pk_season p \<in> {0, season} then [(pk_episode_from p, pk_episode_to p)] else []
      | None \<Rightarrow> [])
     @ map (\<lambda>r. (rl_episode r, max (rl_episode_end r) (rl_episode r))) (filter (\<lambda>r. rl_season r = season) releases)"

definition absolute_ranges :: "Candidate \<Rightarrow> Release list \<Rightarrow> (int \<times> int) list" where
  "absolute_ranges c releases =
     (case c_pack c of
        Some p \<Rightarrow> if pk_scope p = PackRange then [(pk_absolute_from p, pk_absolute_to p)] else []
      | None \<Rightarrow> [])
     @ map (\<lambda>r. (rl_absolute_episode r, rl_absolute_episode_end r)) releases"

lemma pack_covers_range:
  assumes "pack_covers media (c_pack c)"
  shows "(\<exists>(a, b) \<in> set (standard_ranges (m_season media) c releases). {m_episode media .. m_episode_end media} \<subseteq> {a .. b})
    \<or> 0 < m_absolute_episode_end media \<and> (\<exists>(a, b) \<in> set (absolute_ranges c releases).
         {m_absolute_episode media .. m_absolute_episode_end media} \<subseteq> {a .. b})"
  using assms by (auto simp: pack_covers_def standard_ranges_def absolute_ranges_def split: option.splits)

lemma release_covers_range:
  assumes "release_covers media r" and "r \<in> set releases"
  shows "(\<exists>(a, b) \<in> set (standard_ranges (m_season media) c releases). {m_episode media .. m_episode_end media} \<subseteq> {a .. b})
    \<or> 0 < m_absolute_episode_end media \<and> (\<exists>(a, b) \<in> set (absolute_ranges c releases).
         {m_absolute_episode media .. m_absolute_episode_end media} \<subseteq> {a .. b})"
proof (cases "rl_season r = m_season media \<and> rl_episode r \<le> m_episode media
    \<and> m_episode_end media \<le> max (rl_episode_end r) (rl_episode r)")
  case True
  with assms(2) have "(rl_episode r, max (rl_episode_end r) (rl_episode r)) \<in> set (standard_ranges (m_season media) c releases)"
    by (auto simp: standard_ranges_def)
  with True show ?thesis by (intro disjI1) (auto intro!: bexI)
next
  case False
  with assms have "0 < m_absolute_episode_end media" "rl_absolute_episode r \<le> m_absolute_episode media"
    "m_absolute_episode_end media \<le> rl_absolute_episode_end r" by (auto simp: release_covers_def)
  moreover have "(rl_absolute_episode r, rl_absolute_episode_end r) \<in> set (absolute_ranges c releases)"
    using assms(2) by (auto simp: absolute_ranges_def)
  ultimately show ?thesis by (intro disjI2 conjI) (auto intro!: bexI)
qed

lemma eligible_not_rejected:
  "Eligible (evaluate X media c lang sel) minimum \<Longrightarrow> identityRejections X media c lang (candidateReleases X c) sel = []"
  by (rule evaluate_cases [of X media c lang sel]) (auto simp: Eligible_def)

lemma movie_points:
  assumes "ref_kind (m_ref media) = MediaMovie" and "\<not> releaseGroupMatches U releases (m_release_group media)"
  shows "sum_list (map co_points (score_contributions U media c releases False)) \<le> 75"
proof -
  have "\<not> episodeEvidenceMatches media c releases"
    using assms(1) by (simp add: episodeEvidenceMatches_def MediaMovie_def MediaEpisode_def)
  with assms(2) show ?thesis
    using clamped_points [of 3 "c_rating c"] clamped_points [of 2 "c_popularity c"]
    by (simp add: score_contributions_def boolPoints_def)
qed

text \<open>C40: an eligible candidate is a subtitle for the requested file. Its language is equivalent to the
  requested one, it is not a forced-only track, neither its kind nor an external identity contradicts the file, and
  for a file of several episodes one range pack or one release name of the candidate covers all of
  them, in the season's or in the absolute numbering, unless the provider verified the file's hash;
  a whole-season pack does not count. A movie candidate that clears a minimum above 75 without a verified hash
  has the release group of the file or an equivalent one.\<close>

theorem eligible_is_for_target:
  assumes "Eligible (Evaluate X media c lang) minimum"
  shows "EquivalentLanguage X (c_language c) lang \<and> \<not> c_forced c
    \<and> c_kind c \<in> {[], ref_kind (m_ref media)}
    \<and> externalConflicts (ext_unicode X) (m_external_ids media) (c_external_ids c) = []
    \<and> (IsEpisodeRange media \<and> \<not> c_exact_hash c \<longrightarrow>
        (\<exists>(a, b) \<in> set (standard_ranges (m_season media) c (candidateReleases X c)).
           {m_episode media .. m_episode_end media} \<subseteq> {a .. b})
        \<or> 0 < m_absolute_episode_end media \<and> (\<exists>(a, b) \<in> set (absolute_ranges c (candidateReleases X c)).
           {m_absolute_episode media .. m_absolute_episode_end media} \<subseteq> {a .. b}))
    \<and> (ref_kind (m_ref media) = MediaMovie \<and> \<not> c_exact_hash c \<and> 75 < minimum \<longrightarrow>
        releaseGroupMatches (ext_unicode X) (candidateReleases X c) (m_release_group media))"
proof -
  let ?rs = "candidateReleases X c"
  note el = assms [unfolded Evaluate_def]
  have none: "identityRejections X media c lang ?rs False = []" using el by (rule eligible_not_rejected)
  have "coversTarget media c ?rs" if "IsEpisodeRange media" "\<not> c_exact_hash c"
    using none that by (auto simp: identityRejections_def Let_def split: if_splits)
  then have ranges: "pack_covers media (c_pack c) \<or> (\<exists>r \<in> set ?rs. release_covers media r)"
    if "IsEpisodeRange media" "\<not> c_exact_hash c" using that by (simp add: coversTarget_def)
  have "releaseGroupMatches (ext_unicode X) ?rs (m_release_group media)"
    if movie: "ref_kind (m_ref media) = MediaMovie" "\<not> c_exact_hash c" "75 < minimum"
  proof (rule ccontr)
    assume no: "\<not> releaseGroupMatches (ext_unicode X) ?rs (m_release_group media)"
    from el movie(2) none have "sc_total (evaluate X media c lang False) \<le> 75"
      using movie_points [OF movie(1) no, of c] by (simp add: evaluate_def Let_def)
    with el movie(3) show False by (simp add: Eligible_def)
  qed
  moreover have "EquivalentLanguage X (c_language c) lang" "\<not> c_forced c" "c_kind c \<in> {[], ref_kind (m_ref media)}"
    "externalConflicts (ext_unicode X) (m_external_ids media) (c_external_ids c) = []"
    using none by (auto simp: identityRejections_def Let_def split: if_splits)
  ultimately show ?thesis
    using ranges pack_covers_range [of media c ?rs] release_covers_range [of media _ ?rs c] by blast
qed

text \<open>A double episode and a range pack that holds it, with third-party services that read no release name.\<close>

definition plain_externals :: externals where
  "plain_externals = \<lparr>ext_unicode = ascii_tables, ext_lang_parse = (\<lambda>s. Some (Tag s)), ext_torrent = (\<lambda>_. None)\<rparr>"

definition double_episode :: Media where
  "double_episode = zero_media
     \<lparr>m_ref := \<lparr>ref_instance = ''tv'', ref_kind = MediaEpisode, ref_file_id = 5\<rparr>, m_season := 1, m_episode := 3,
      m_episode_end := 4\<rparr>"

definition range_pack_candidate :: Candidate where
  "range_pack_candidate = zero_candidate
     \<lparr>c_provider_id := ''subdl'', c_result_id := ''9'', c_language := ''en'',
      c_pack := Some \<lparr>pk_scope = PackRange, pk_season = 1, pk_episode_from = 1, pk_episode_to = 6, pk_absolute_from = 0,
        pk_absolute_to = 0, pk_direct_members = []\<rparr>\<rparr>"

lemma plain_english: "EquivalentLanguage plain_externals ''en'' ''en''"
  by (simp add: EquivalentLanguage_def ParseLanguage_def languageAliases_def plain_externals_def text_eval ascii_tables_def)

lemma NormalizeIdentity_Nil [simp]: "NormalizeIdentity U [] = []"
  by (simp add: NormalizeIdentity_def text_eval)

lemma comparable_Nil [simp]: "comparable U [] = []"
  by (simp add: comparable_def text_eval)

lemma editionDescriptor_Nil [simp]: "editionDescriptor [] = []"
  by (simp add: editionDescriptor_def blank_separators_def text_eval)

lemma normalizeEdition_Nil: "normalizeEdition U [] [] False False = []"
  by (simp add: normalizeEdition_def text_eval)

lemma double_episode_eligible: "Eligible (Evaluate plain_externals double_episode range_pack_candidate ''en'') 20"
proof -
  let ?c = range_pack_candidate and ?m = double_episode
  have releases: "candidateReleases plain_externals ?c = []"
    by (simp add: candidateReleases_def parseReleases_def range_pack_candidate_def zero_candidate_def)
  have fields: "c_exact_hash ?c = False" "c_rating ?c = 0" "c_popularity ?c = 0"
    "c_external_ids ?c = zero_ids" "m_external_ids ?m = zero_ids" "IsEpisodeRange ?m"
    by (simp_all add: range_pack_candidate_def zero_candidate_def double_episode_def zero_media_def IsEpisodeRange_def)
  have covers: "coversTarget ?m ?c []"
    by (simp add: coversTarget_def pack_covers_def range_pack_candidate_def double_episode_def zero_media_def)
  have "episodeEvidenceMatches ?m ?c []"
    using covers fields by (simp add: episodeEvidenceMatches_def double_episode_def)
  then have points: "20 \<le> sum_list (map co_points (score_contributions U ?m ?c [] False))" for U
    by (simp add: score_contributions_def boolPoints_def fields clamp_def math_round_def)
  have "identityRejections plain_externals ?m ?c ''en'' [] False = []"
    unfolding identityRejections_def Let_def
    using plain_english covers
    by (simp add: fields externalConflicts_def zero_ids_def edition_conflicts_def)
      (simp add: range_pack_candidate_def zero_candidate_def double_episode_def zero_media_def MediaEpisode_def MediaMovie_def
        packSeasonConflicts_def packContains_def PackRange_def PackSeason_def)
  then show ?thesis
    using points by (simp add: Evaluate_def evaluate_def Let_def releases fields Eligible_def)
qed

theorem eligible_is_for_target_witness:
  "EquivalentLanguage plain_externals ''en'' ''en''
   \<and> (\<exists>(a, b) \<in> set (standard_ranges 1 range_pack_candidate (candidateReleases plain_externals range_pack_candidate)).
        {3 .. 4} \<subseteq> {a .. b})"
  using eligible_is_for_target [OF double_episode_eligible]
  by (simp add: range_pack_candidate_def zero_candidate_def double_episode_def zero_media_def IsEpisodeRange_def
      standard_ranges_def)

section \<open>Ranking\<close>

definition result_identity :: "EvaluatedCandidate \<Rightarrow> string \<times> string" where
  "result_identity e = (c_provider_id (ev_candidate e), c_result_id (ev_candidate e))"

lemma tied_same_identity: "tied rank_before a b \<Longrightarrow> result_identity a = result_identity b"
  by (auto simp: rank_before_def result_identity_def Let_def split: if_splits)

lemma not_before_totals:
  "\<not> rank_before b a \<Longrightarrow>
   sc_total (ev_score b) < sc_total (ev_score a)
   \<or> sc_total (ev_score b) = sc_total (ev_score a) \<and> ev_priority a \<le> ev_priority b"
  by (auto simp: rank_before_def Let_def split: if_splits)

text \<open>the ranking depends only on which candidates were found, not on the order in which
  providers answered: two arrangements of the same results, each result once, are ranked alike, with
  every result kept. In the ranked list scores never rise, and among equal scores the provider
  listed first in the configuration comes first.\<close>

theorem rank_order_free:
  assumes "mset xs = mset ys" and "distinct (map result_identity xs)"
  shows "Rank xs = Rank ys \<and> mset (Rank xs) = mset xs
    \<and> sorted_wrt (\<lambda>a b. sc_total (ev_score b) < sc_total (ev_score a)
        \<or> sc_total (ev_score b) = sc_total (ev_score a) \<and> ev_priority a \<le> ev_priority b) (Rank xs)"
proof (intro conjI)
  have "a = b" if "a \<in> set xs" "b \<in> set xs" "tied rank_before a b" for a b
    using tied_same_identity [OF that(3)] that(1,2) assms(2) by (auto simp: distinct_map inj_on_def)
  then show "Rank xs = Rank ys"
    unfolding Rank_def by (intro rank.sort_by_order_free assms(1))
  show "mset (Rank xs) = mset xs" by (simp add: Rank_def)
  show "sorted_wrt (\<lambda>a b. sc_total (ev_score b) < sc_total (ev_score a)
      \<or> sc_total (ev_score b) = sc_total (ev_score a) \<and> ev_priority a \<le> ev_priority b) (Rank xs)"
    unfolding Rank_def
    by (rule sorted_wrt_mono_rel [OF _ rank.in_order_sort_by]) (rule not_before_totals)
qed

definition ranked_sample :: "string \<Rightarrow> int \<Rightarrow> EvaluatedCandidate" where
  "ranked_sample provider priority =
     \<lparr>ev_candidate = zero_candidate\<lparr>c_provider_id := provider\<rparr>, ev_score = zero_score\<lparr>sc_total := 40\<rparr>,
      ev_priority = priority\<rparr>"

theorem rank_order_free_witness:
  "Rank [ranked_sample ''a'' 1, ranked_sample ''b'' 0] = [ranked_sample ''b'' 0, ranked_sample ''a'' 1]
   \<and> Rank [ranked_sample ''b'' 0, ranked_sample ''a'' 1] = [ranked_sample ''b'' 0, ranked_sample ''a'' 1]"
proof -
  have "rank_before (ranked_sample ''b'' 0) (ranked_sample ''a'' 1)"
    by (simp add: ranked_sample_def rank_before_def zero_score_def)
  then have one: "Rank [ranked_sample ''a'' 1, ranked_sample ''b'' 0] = [ranked_sample ''b'' 0, ranked_sample ''a'' 1]"
    by (simp add: Rank_def)
  have "Rank [ranked_sample ''a'' 1, ranked_sample ''b'' 0] = Rank [ranked_sample ''b'' 0, ranked_sample ''a'' 1]"
    using rank_order_free [of "[ranked_sample ''a'' 1, ranked_sample ''b'' 0]" "[ranked_sample ''b'' 0, ranked_sample ''a'' 1]"]
    by (simp add: ranked_sample_def result_identity_def zero_candidate_def)
  with one show ?thesis by simp
qed

end
