(* ===== verification/Subtitle_Order.thy ===== *)
theory Subtitle_Order
  imports Go_Sort Go_Regexp "HOL-Library.Signed_Division"
begin

text \<open>
  \<open>internal/subtitleorder/order.go\<close>: putting the cues of a subtitle in start order and small timing
  repairs, on the raw text. An index outside a slice panics in Go; where the code indexes a slice
  whose length it does not test, the model returns \<open>IndexPanic\<close>, and \<open>Subtitle_Order_Props\<close> shows that
  this does not happen.
\<close>

datatype order_error = ErrUnsafe | IndexPanic

record Cue =
  cue_start :: duration
  cue_end :: duration
  cue_retime :: bool
  cue_drop :: bool

record cueBlock =
  cb_start :: nat
  cb_timing :: nat
  cb_end :: nat

definition newline :: char where "newline = CHR 0x0A"

definition timingFields :: regexp where
  "timingFields =
     seq_re [Begin, Group 1 (Maybe (seq_re [Repeat 1 None digit_class, Text_re '':''])),
       Group 2 (Repeat 2 (Some 2) digit_class), Text_re '':'', Group 3 (Repeat 2 (Some 2) digit_class),
       Group 4 (Class (one_of '',.'')), Group 5 (Repeat 3 (Some 3) digit_class),
       Group 6 (seq_re [Repeat 0 None (\<lambda>r. r = 9 \<or> r = 32), Text_re ''-->'', Repeat 0 None (\<lambda>r. r = 9 \<or> r = 32)]),
       Group 7 (Maybe (seq_re [Repeat 1 None digit_class, Text_re '':''])),
       Group 8 (Repeat 2 (Some 2) digit_class), Text_re '':'', Group 9 (Repeat 2 (Some 2) digit_class),
       Class (one_of '',.''), Group 10 (Repeat 3 (Some 3) digit_class),
       Group 11 (Repeat 0 None (\<lambda>r. r \<noteq> 10)), Finish]"

section \<open>Content\<close>

definition byte_order_mark :: string where
  "byte_order_mark = [CHR 0xEF, CHR 0xBB, CHR 0xBF]"

definition splitContent :: "string \<Rightarrow> string \<times> string \<times> nat" where
  "splitContent text0 =
     (let content0 = replace_all [CHR 0x0D, CHR 0x0A] [newline] text0;
          bom = (if has_prefix content0 byte_order_mark then byte_order_mark else []);
          content = trim_prefix content0 bom;
          trailing = length content - length (trim_right_set [newline] content)
      in (take (length content - trailing) content, bom, trailing))"

definition joined_text :: "string \<Rightarrow> string list \<Rightarrow> nat \<Rightarrow> string" where
  "joined_text bom records trailing = bom @ join [newline] records @ replicate trailing newline"

definition start_before :: "Cue list \<Rightarrow> nat \<Rightarrow> nat \<Rightarrow> bool" where
  "start_before cues i j \<longleftrightarrow> cue_start (cues ! i) < cue_start (cues ! j)"

definition keptInStartOrder :: "Cue list \<Rightarrow> nat list" where
  "keptInStartOrder cues = sort_by (start_before cues) (filter (\<lambda>i. \<not> cue_drop (cues ! i)) [0 ..< length cues])"

section \<open>Cue blocks\<close>

definition blank :: "string \<Rightarrow> bool" where
  "blank line \<longleftrightarrow> trim_space line = []"

definition isTimingLine :: "bool \<Rightarrow> string \<Rightarrow> bool" where
  "isTimingLine vtt line0 =
     (let line = trim_space line0
      in if vtt \<and> (has_prefix line ''NOTE '' \<or> has_prefix line ''Region: '' \<or> has_prefix line ''STYLE'') then False
         else contains_str line ''-->'')"

text \<open>The line after the WEBVTT header, or the first line.\<close>

fun after_header :: "nat \<Rightarrow> string list \<Rightarrow> nat option" where
  "after_header i [] = None"
| "after_header i (line # lines) =
     (case Go_Text.fields line of
        field # _ \<Rightarrow> if field = ''WEBVTT'' then Some (i + 1) else after_header (i + 1) lines
      | [] \<Rightarrow> after_header (i + 1) lines)"

definition first_line :: "bool \<Rightarrow> string list \<Rightarrow> nat" where
  "first_line vtt lines = (if vtt then (case after_header 0 lines of Some i \<Rightarrow> i | None \<Rightarrow> 0) else 0)"

text \<open>One step of the scan: line \<open>i\<close> starts a block when it is a timing line.\<close>

definition scan_line :: "bool \<Rightarrow> string list \<Rightarrow> nat \<Rightarrow> cueBlock list \<times> bool \<Rightarrow> nat \<Rightarrow> cueBlock list \<times> bool" where
  "scan_line vtt lines first st i =
     (let (blocks, ambiguous) = st;
          block = \<lparr>cb_start = i, cb_timing = i, cb_end = 0\<rparr>;
          previous = (if blocks = [] then int first - 1 else int (cb_timing (last blocks)))
      in if \<not> isTimingLine vtt (lines ! i) then (blocks, ambiguous)
         else if int i - 1 > previous \<and> \<not> blank (lines ! (i - 1)) then
           (let separated = (int i - 2 < int first \<or> blank (lines ! (i - 2)))
            in if vtt then
                 (blocks @ [if int i - 2 > previous \<and> separated then block\<lparr>cb_start := i - 1\<rparr> else block], ambiguous)
               else
                 (blocks @ [block\<lparr>cb_start := i - 1\<rparr>],
                  ambiguous \<or> \<not> separated \<and>
                    (atoi (trim_space (lines ! (i - 1))) = None \<or> isTimingLine vtt (lines ! (i - 2)))))
         else (blocks @ [block], ambiguous))"

text \<open>The line after the last line of text, from line \<open>line\<close> up to the limit.\<close>

fun text_end :: "bool \<Rightarrow> string list \<Rightarrow> nat list \<Rightarrow> nat \<Rightarrow> nat" where
  "text_end vtt lines [] e = e"
| "text_end vtt lines (line # rest) e =
     (if blank (lines ! line) then (if vtt then e else text_end vtt lines rest e)
      else text_end vtt lines rest (line + 1))"

fun set_ends :: "bool \<Rightarrow> string list \<Rightarrow> cueBlock list \<Rightarrow> cueBlock list" where
  "set_ends vtt lines [] = []"
| "set_ends vtt lines (block # blocks) =
     (let limit = (case blocks of [] \<Rightarrow> length lines | next_block # _ \<Rightarrow> cb_start next_block)
      in block\<lparr>cb_end := text_end vtt lines [cb_timing block + 1 ..< limit] (cb_timing block + 1)\<rparr>
         # set_ends vtt lines blocks)"

definition cueBlocks :: "string list \<Rightarrow> bool \<Rightarrow> cueBlock list \<times> bool" where
  "cueBlocks lines vtt =
     (let first = first_line vtt lines;
          (blocks, ambiguous) = foldl (scan_line vtt lines first) ([], False) [first ..< length lines]
      in (set_ends vtt lines blocks, ambiguous))"

definition slice :: "'a list \<Rightarrow> nat \<Rightarrow> nat \<Rightarrow> 'a list" where
  "slice xs i j = take (j - i) (drop i xs)"

definition cueLines :: "string list \<Rightarrow> cueBlock \<Rightarrow> string list" where
  "cueLines lines block = filter (\<lambda>line. \<not> blank line) (slice lines (cb_start block) (cb_end block))"

section \<open>Times\<close>

text \<open>\<open>%0wd\<close>: the sign comes before the padding.\<close>

definition zero_padded :: "nat \<Rightarrow> int \<Rightarrow> string" where
  "zero_padded w n =
     (let digits = nat_digits (nat \<bar>n\<bar>); sign = (if n < 0 then ''-'' else [])
      in sign @ replicate (w - length sign - length digits) CHR ''0'' @ digits)"

definition milliseconds :: "duration \<Rightarrow> int" where
  "milliseconds d = d sdiv 1000000"

definition formatClock :: "duration \<Rightarrow> string \<Rightarrow> bool \<Rightarrow> string" where
  "formatClock v separator hours =
     (let total = milliseconds v;
          h = total sdiv 3600000; m = total sdiv 60000 smod 60; s = total sdiv 1000 smod 60; ms = total smod 1000
      in if hours then zero_padded 2 h @ '':'' @ zero_padded 2 m @ '':'' @ zero_padded 2 s @ separator @ zero_padded 3 ms
         else zero_padded 2 m @ '':'' @ zero_padded 2 s @ separator @ zero_padded 3 ms)"

definition formatASS :: "duration \<Rightarrow> string" where
  "formatASS v =
     (let cs = milliseconds v sdiv 10
      in itoa (cs sdiv 360000) @ '':'' @ zero_padded 2 (cs sdiv 6000 smod 60) @ '':'' @ zero_padded 2 (cs sdiv 100 smod 60)
         @ ''.'' @ zero_padded 2 (cs smod 100))"

definition retimeBlock :: "string list \<Rightarrow> nat \<Rightarrow> duration \<Rightarrow> duration \<Rightarrow> order_error + string list" where
  "retimeBlock record timing start0 end0 =
     (if timing \<ge> length record then Err IndexPanic
      else (case find_submatch timingFields (record ! timing) of
              None \<Rightarrow> Err ErrUnsafe
            | Some m \<Rightarrow>
                (let hours = (m 1 \<noteq> [] \<or> m 7 \<noteq> [] \<or> hour \<le> start0 \<or> hour \<le> end0)
                 in Ok (record[timing := formatClock start0 (m 4) hours @ m 6 @ formatClock end0 (m 4) hours @ m 11]))))"

section \<open>Italics\<close>

text \<open>\<open>strings.Count\<close> of a nonempty text.\<close>

function count_str :: "string \<Rightarrow> string \<Rightarrow> nat" where
  "count_str [] p = 0"
| "count_str (c # cs) p =
     (if p \<noteq> [] \<and> has_prefix (c # cs) p then Suc (count_str (drop (length p) (c # cs)) p) else count_str cs p)"
  by pat_completeness auto
termination
  by (relation "measure (\<lambda>(s, _). length s)") (auto simp: diff_less_Suc neq_Nil_conv)

definition missingItalics :: "unicode \<Rightarrow> string list \<Rightarrow> string" where
  "missingItalics U record =
     (let lower = to_lower U (join [newline] record);
          missing = int (count_str lower ''<i>'') - int (count_str lower ''</i>'')
      in if missing \<le> 0 then [] else concat (replicate (nat missing) ''</i>''))"

definition hasUnclosedItalics :: "unicode \<Rightarrow> string list \<Rightarrow> cueBlock list \<Rightarrow> bool" where
  "hasUnclosedItalics U lines blocks \<longleftrightarrow>
     (\<exists>block \<in> set blocks. missingItalics U (slice lines (cb_start block) (cb_end block)) \<noteq> [])"

section \<open>Dialogue lines\<close>

text \<open>\<open>strings.Cut\<close>: without the separator the whole text and nothing.\<close>

definition cut_at :: "string \<Rightarrow> string \<Rightarrow> string \<times> string \<times> bool" where
  "cut_at s sep = (case cut s sep of Some (a, b) \<Rightarrow> (a, b, True) | None \<Rightarrow> (s, [], False))"

text \<open>\<open>strings.SplitN(s, ",", n)\<close> for a positive \<open>n\<close>.\<close>

fun split_n :: "char \<Rightarrow> nat \<Rightarrow> string \<Rightarrow> string list" where
  "split_n d 0 s = []"
| "split_n d (Suc 0) s = [s]"
| "split_n d (Suc (Suc n)) s =
     (case cut s [d] of None \<Rightarrow> [s] | Some (a, b) \<Rightarrow> a # split_n d (Suc n) b)"

text \<open>The last index at which the format has the field.\<close>

definition field_index :: "string \<Rightarrow> string list \<Rightarrow> nat option" where
  "field_index name format =
     foldl (\<lambda>found i. if format ! i = name then Some i else found) None [0 ..< length format]"

definition retimeDialogue :: "string \<Rightarrow> string list \<Rightarrow> duration \<Rightarrow> duration \<Rightarrow> order_error + string" where
  "retimeDialogue record format start0 end0 =
     (let (pre, value0, found) = cut_at record '':''
      in case (field_index ''start'' format, field_index ''end'' format) of
           (Some startIndex, Some endIndex) \<Rightarrow>
             if \<not> found then Err ErrUnsafe
             else (let trimmed = trim_left_set '' '' value0;
                       leading = take (length value0 - length trimmed) value0;
                       parts = split_n CHR '','' (length format) trimmed
                   in if length parts \<noteq> length format then Err ErrUnsafe
                      else Ok (pre @ '':'' @ leading
                               @ join '','' (parts[startIndex := formatASS start0, endIndex := formatASS end0])))
         | _ \<Rightarrow> Err ErrUnsafe)"

record dialogue =
  dg_cue :: Cue
  dg_record :: string
  dg_format :: "string list"

record dialogue_scan =
  ds_entries :: "dialogue list"
  ds_positions :: "nat list"
  ds_event_format :: string
  ds_cue_format :: string

definition dialogue_fields :: "unicode \<Rightarrow> string \<Rightarrow> string list" where
  "dialogue_fields U format = map (\<lambda>field. to_lower U (trim_space field)) (split_char CHR '','' format)"

definition scan_dialogue ::
  "unicode \<Rightarrow> Cue list \<Rightarrow> nat \<Rightarrow> string \<Rightarrow> dialogue_scan \<Rightarrow> order_error + dialogue_scan" where
  "scan_dialogue U cues index record scan =
     (let (header, value0, _) = cut_at (trim_space record) '':'';
          eventFormat = (if trim_space header = ''Format'' then trim_space value0 else ds_event_format scan);
          scan1 = scan\<lparr>ds_event_format := eventFormat\<rparr>
      in if trim_space header \<noteq> ''Dialogue'' then Ok scan1
         else if ds_entries scan \<noteq> [] \<and> eventFormat \<noteq> ds_cue_format scan then Err ErrUnsafe
         else if length cues \<le> length (ds_entries scan) then Err ErrUnsafe
         else Ok (scan1\<lparr>ds_cue_format := eventFormat,
                        ds_entries := ds_entries scan @
                          [\<lparr>dg_cue = cues ! length (ds_entries scan), dg_record = record,
                            dg_format = dialogue_fields U eventFormat\<rparr>],
                        ds_positions := ds_positions scan @ [index]\<rparr>))"

fun scan_dialogues ::
  "unicode \<Rightarrow> Cue list \<Rightarrow> nat \<Rightarrow> string list \<Rightarrow> dialogue_scan \<Rightarrow> order_error + dialogue_scan" where
  "scan_dialogues U cues i [] scan = Ok scan"
| "scan_dialogues U cues i (record # records) scan =
     (case scan_dialogue U cues i record scan of
        Inl e \<Rightarrow> Err e
      | Inr scan' \<Rightarrow> scan_dialogues U cues (i + 1) records scan')"

definition moved_dialogue :: "dialogue \<Rightarrow> order_error + string" where
  "moved_dialogue item =
     (if cue_retime (dg_cue item)
      then retimeDialogue (dg_record item) (dg_format item) (cue_start (dg_cue item)) (cue_end (dg_cue item))
      else Ok (dg_record item))"

text \<open>Each kept dialogue takes the next position; the positions left over are removed.\<close>

fun place_dialogues ::
  "dialogue list \<Rightarrow> nat list \<Rightarrow> nat list \<Rightarrow> string list \<Rightarrow> order_error + (string list \<times> nat list)" where
  "place_dialogues entries (k # order) (position # positions) records =
     (case moved_dialogue (entries ! k) of
        Inl e \<Rightarrow> Err e
      | Inr record \<Rightarrow> place_dialogues entries order positions (records[position := record]))"
| "place_dialogues entries order positions records = Ok (records, positions)"

definition repairDialogue :: "unicode \<Rightarrow> string \<Rightarrow> Cue list \<Rightarrow> order_error + string" where
  "repairDialogue U text0 cues =
     (let (content, bom, trailing) = splitContent text0;
          records = split_char newline content
      in case scan_dialogues U cues 0 records \<lparr>ds_entries = [], ds_positions = [], ds_event_format = [], ds_cue_format = []\<rparr> of
           Inl e \<Rightarrow> Err e
         | Inr scan \<Rightarrow>
             if length (ds_entries scan) \<noteq> length cues then Err ErrUnsafe
             else (case place_dialogues (ds_entries scan) (keptInStartOrder cues) (ds_positions scan) records of
                     Inl e \<Rightarrow> Err e
                   | Inr (placed, removed) \<Rightarrow>
                       Ok (joined_text bom
                         (map ((!) placed) (filter (\<lambda>i. i \<notin> set removed) [0 ..< length placed])) trailing)))"

section \<open>Repair\<close>

text \<open>The record of cue \<open>k\<close> as it is written to slot \<open>i\<close>.\<close>

definition edited_record ::
  "unicode \<Rightarrow> string \<Rightarrow> string list \<Rightarrow> cueBlock list \<Rightarrow> Cue list \<Rightarrow> bool \<Rightarrow> nat \<Rightarrow> nat \<Rightarrow> order_error + string list" where
  "edited_record U extension lines blocks cues closeItalics i k =
     (let source = blocks ! k; cue = cues ! k; record0 = cueLines lines source
      in case (if cue_retime cue
               then retimeBlock record0 (cb_timing source - cb_start source) (cue_start cue) (cue_end cue)
               else Ok record0) of
           Inl e \<Rightarrow> Err e
         | Inr record \<Rightarrow>
             if (closeItalics \<or> extension = ''.srt'' \<and> cb_start source < cb_timing source) \<and> record = [] then Err IndexPanic
             else (let closed_record = (if closeItalics
                         then record[length record - 1 := last record @ missingItalics U record] else record)
                   in Ok (if extension = ''.srt'' \<and> cb_start source < cb_timing source
                          then closed_record[0 := itoa (int i + 1)] else closed_record)))"

definition gap_lines :: "string list \<Rightarrow> cueBlock \<Rightarrow> cueBlock \<Rightarrow> string list" where
  "gap_lines lines left right =
     (let gap = slice lines (cb_end left) (cb_start right) in if gap = [] then [[]] else gap)"

fun fill_slots ::
  "(nat \<Rightarrow> nat \<Rightarrow> order_error + string list) \<Rightarrow> string list \<Rightarrow> nat \<Rightarrow> cueBlock list \<Rightarrow> nat list \<Rightarrow> order_error + string list" where
  "fill_slots edited lines i (block # blocks) (k # order) =
     (case edited i k of
        Inl e \<Rightarrow> Err e
      | Inr record \<Rightarrow>
          (case fill_slots edited lines (i + 1) blocks order of
             Inl e \<Rightarrow> Err e
           | Inr rest \<Rightarrow>
               Ok (record @ (if blocks = [] \<or> order = [] then [] else gap_lines lines block (hd blocks)) @ rest)))"
| "fill_slots edited lines i blocks order = Ok []"

text \<open>The rewriting part of \<open>repair\<close> on lines.\<close>

definition repair_lines ::
  "unicode \<Rightarrow> string \<Rightarrow> string list \<Rightarrow> cueBlock list \<Rightarrow> Cue list \<Rightarrow> bool \<Rightarrow> order_error + string list" where
  "repair_lines U extension lines blocks cues closeItalics =
     (if blocks = [] then Err IndexPanic
      else (let order = keptInStartOrder cues
            in case fill_slots (edited_record U extension lines blocks cues closeItalics) lines 0 blocks order of
                 Inl e \<Rightarrow> Err e
               | Inr records \<Rightarrow>
                   Ok (take (cb_start (hd blocks)) lines @ records
                       @ (if order = [] then [] else drop (cb_end (last blocks)) lines))))"

definition repair :: "unicode \<Rightarrow> string \<Rightarrow> string \<Rightarrow> Cue list \<Rightarrow> bool \<Rightarrow> order_error + string" where
  "repair U text0 extension0 cues closeItalics =
     (let edits = (\<exists>cue \<in> set cues. cue_retime cue \<or> cue_drop cue);
          sorted_cues = is_sorted_by (\<lambda>a b. cue_start a < cue_start b) cues;
          extension = to_lower U extension0
      in if extension = ''.ass'' \<or> extension = ''.ssa'' then
           (if sorted_cues \<and> \<not> edits then Ok text0 else repairDialogue U text0 cues)
         else (let (content, bom, trailing) = splitContent text0;
                   lines = split_char newline content;
                   (blocks, ambiguous) = cueBlocks lines (extension = ''.vtt'')
               in if sorted_cues \<and> \<not> edits \<and> (\<not> closeItalics \<or> \<not> hasUnclosedItalics U lines blocks) then Ok text0
                  else if ambiguous \<or> length blocks \<noteq> length cues then Err ErrUnsafe
                  else map_sum id (\<lambda>output. joined_text bom output trailing)
                         (repair_lines U extension lines blocks cues closeItalics)))"

definition Reorder :: "unicode \<Rightarrow> string \<Rightarrow> string \<Rightarrow> duration list \<Rightarrow> order_error + string" where
  "Reorder U text0 extension starts =
     repair U text0 extension (map (\<lambda>t. \<lparr>cue_start = t, cue_end = 0, cue_retime = False, cue_drop = False\<rparr>) starts) False"

definition Repair :: "unicode \<Rightarrow> string \<Rightarrow> string \<Rightarrow> Cue list \<Rightarrow> order_error + string" where
  "Repair U text0 extension cues = repair U text0 extension cues True"

end
