(* ===== verification/Subtitle_Order_Props.thy ===== *)
theory Subtitle_Order_Props
  imports Subtitle_Order
begin

text \<open>
  Reading back what \<open>Reorder\<close> writes. The lines of a subtitle are cut at its timing lines
  (\<open>segments\<close>), each segment into the text of a cue, a gap, and the index or identifier line of the next
  cue (\<open>cells\<close>); \<open>cueBlocks\<close> computes the positions of that division (\<open>cueBlocks_cells\<close>).
  A rewritten file is divided again, which shows what its cues are.
\<close>

section \<open>Lines\<close>

lemma set_trim_by: "set (trim_by p xs) \<subseteq> set xs"
  by (auto simp: trim_by_def dest!: set_dropWhileD)

lemma set_trim_space: "set (trim_space s) \<subseteq> set s"
proof
  fix c assume "c \<in> set (trim_space s)"
  then obtain r where "r \<in> set (runes s)" "c \<in> set (snd r)"
    using set_trim_by [of "\<lambda>x. is_space (fst x)" "runes s"] by (auto simp: trim_space_def)
  then have "c \<in> set (concat (map snd (runes s)))" unfolding set_concat set_map by blast
  then show "c \<in> set s" by (simp only: concat_runes)
qed

lemma timing_not_blank: "isTimingLine vtt l \<Longrightarrow> \<not> blank l"
  by (auto simp: isTimingLine_def blank_def Let_def split: if_splits)

lemma timing_dash: "isTimingLine vtt l \<Longrightarrow> CHR ''-'' \<in> set l"
proof -
  assume "isTimingLine vtt l"
  then have "contains_str (trim_space l) ''-->''" by (auto simp: isTimingLine_def Let_def split: if_splits)
  then have "CHR ''-'' \<in> set (trim_space l)" by (auto simp: contains_str_iff)
  then show ?thesis using set_trim_space by blast
qed

lemma nat_digits_digits: "c \<in> set (nat_digits n) \<Longrightarrow> is_dec c"
  by (induction n rule: nat_digits.induct) (subst (asm) (2) nat_digits.simps, auto simp: is_dec_def split: if_splits)

lemma nat_digits_nonempty: "nat_digits n \<noteq> []"
  by (subst nat_digits.simps) simp

lemma digit_first_not_blank: "is_dec c \<Longrightarrow> \<not> blank (c # cs)"
proof -
  assume "is_dec c"
  then have c: "byte_val c < (128 :: nat)" "\<not> is_space (byte_val c)" by (auto simp: is_dec_def is_space_def)
  then have "c \<in> set (concat (map snd (trim_by (\<lambda>x. is_space (fst x)) (runes (c # cs)))))"
    by (force simp: trim_by_def dropWhile_append)
  then have "trim_space (c # cs) \<noteq> []" unfolding trim_space_def by (metis empty_iff list.set(1))
  then show ?thesis by (simp add: blank_def)
qed

lemma index_line: "\<not> blank (itoa (int i + 1))" "\<not> isTimingLine vtt (itoa (int i + 1))"
proof -
  have i: "itoa (int i + 1) = nat_digits (nat (int i + 1))" by (simp add: itoa_def)
  obtain c cs where c: "nat_digits (nat (int i + 1)) = c # cs" using nat_digits_nonempty by (metis neq_Nil_conv)
  show "\<not> blank (itoa (int i + 1))"
    using nat_digits_digits [of c "nat (int i + 1)"] digit_first_not_blank by (simp add: i c)
  show "\<not> isTimingLine vtt (itoa (int i + 1))"
    using timing_dash [of vtt "itoa (int i + 1)"] nat_digits_digits [of "CHR ''-''"] by (auto simp: i is_dec_def)
qed

lemma empty_line: "blank []" "\<not> isTimingLine vtt []"
  using timing_dash [of vtt "[]"] by (auto simp: blank_def trim_space_def trim_by_def)

section \<open>Cutting at the timing lines\<close>

fun segments :: "bool \<Rightarrow> string list \<Rightarrow> string list \<times> (string \<times> string list) list" where
  "segments vtt [] = ([], [])"
| "segments vtt (l # ls) =
     (let (s, ts) = segments vtt ls in if isTimingLine vtt l then ([], (l, s) # ts) else (l # s, ts))"

definition unsegment :: "(string \<times> string list) list \<Rightarrow> string list" where
  "unsegment ts = concat (map (\<lambda>(t, s). t # s) ts)"

definition timeless :: "bool \<Rightarrow> string list \<Rightarrow> bool" where
  "timeless vtt ls \<longleftrightarrow> (\<forall>l \<in> set ls. \<not> isTimingLine vtt l)"

definition segments_ok :: "bool \<Rightarrow> (string \<times> string list) list \<Rightarrow> bool" where
  "segments_ok vtt ts \<longleftrightarrow> (\<forall>(t, s) \<in> set ts. isTimingLine vtt t \<and> timeless vtt s)"

lemma unsegment_simps [simp]: "unsegment [] = []" "unsegment ((t, s) # ts) = t # s @ unsegment ts"
  by (simp_all add: unsegment_def)

lemma timeless_simps [simp]:
  "timeless vtt []" "timeless vtt (l # ls) \<longleftrightarrow> \<not> isTimingLine vtt l \<and> timeless vtt ls"
  "timeless vtt (xs @ ys) \<longleftrightarrow> timeless vtt xs \<and> timeless vtt ys"
  by (auto simp: timeless_def)

lemma segments_ok_simps [simp]:
  "segments_ok vtt []" "segments_ok vtt ((t, s) # ts) \<longleftrightarrow> isTimingLine vtt t \<and> timeless vtt s \<and> segments_ok vtt ts"
  by (auto simp: segments_ok_def)

lemma segments_inverse:
  "segments vtt ls = (s, ts) \<Longrightarrow> ls = s @ unsegment ts \<and> timeless vtt s \<and> segments_ok vtt ts"
  by (induction ls arbitrary: s ts) (auto simp: Let_def split: prod.splits if_splits)

lemma segments_unique:
  assumes "timeless vtt s" and "segments_ok vtt ts"
  shows "segments vtt (s @ unsegment ts) = (s, ts)"
proof -
  have base: "segments vtt (s @ unsegment ts) = (s, ts)" if "segments vtt (unsegment ts) = ([], ts)" "timeless vtt s" for s ts
    using that by (induction s) auto
  have "segments vtt (unsegment ts) = ([], ts)" using assms(2)
  proof (induction ts)
    case (Cons a ts)
    then show ?case using base [of ts "snd a"] by (cases a) auto
  qed simp
  with assms(1) base show ?thesis by blast
qed

section \<open>Cells\<close>

text \<open>
  Whether the last line of a segment belongs to the next cue: the index of an SRT cue, the identifier
  of a WebVTT cue.
\<close>

definition has_id :: "bool \<Rightarrow> string list \<Rightarrow> bool" where
  "has_id vtt seg \<longleftrightarrow>
     seg \<noteq> [] \<and> \<not> blank (last seg) \<and> (vtt \<longrightarrow> 2 \<le> length seg \<and> blank (seg ! (length seg - 2)))"

definition core :: "bool \<Rightarrow> string list \<Rightarrow> string list" where
  "core vtt seg = (if has_id vtt seg then butlast seg else seg)"

definition id_line :: "bool \<Rightarrow> string list \<Rightarrow> string list" where
  "id_line vtt seg = (if has_id vtt seg then [last seg] else [])"

definition body :: "bool \<Rightarrow> string list \<Rightarrow> string list" where
  "body vtt c = (if vtt then takeWhile (\<lambda>l. \<not> blank l) c else rev (dropWhile blank (rev c)))"

definition gap :: "bool \<Rightarrow> string list \<Rightarrow> string list" where
  "gap vtt c = (if vtt then dropWhile (\<lambda>l. \<not> blank l) c else rev (takeWhile blank (rev c)))"

type_synonym cell = "string list \<times> string \<times> string list \<times> string list"

fun cells :: "bool \<Rightarrow> string list \<Rightarrow> (string \<times> string list) list \<Rightarrow> cell list" where
  "cells vtt s [] = []"
| "cells vtt s ((t, s') # ts) =
     (let c = (if ts = [] then s' else core vtt s')
      in (id_line vtt s, t, body vtt c, gap vtt c) # cells vtt s' ts)"

definition flat :: "cell \<Rightarrow> string list" where
  "flat c = (case c of (p, t, b, g) \<Rightarrow> p @ t # b @ g)"

definition head_core :: "bool \<Rightarrow> string list \<Rightarrow> (string \<times> string list) list \<Rightarrow> string list" where
  "head_core vtt s ts = (if ts = [] then s else core vtt s)"

fun cell_blocks :: "nat \<Rightarrow> cell list \<Rightarrow> cueBlock list" where
  "cell_blocks n [] = []"
| "cell_blocks n ((p, t, b, g) # cs) =
     \<lparr>cb_start = n, cb_timing = n + length p, cb_end = n + length p + 1 + length b\<rparr>
     # cell_blocks (n + length p + 1 + length b + length g) cs"

lemma flat_simp [simp]: "flat (p, t, b, g) = p @ t # b @ g"
  by (simp add: flat_def)

lemma core_id: "core vtt seg @ id_line vtt seg = seg"
  by (auto simp: core_def id_line_def has_id_def)

lemma body_gap: "body vtt c @ gap vtt c = c"
  by (auto simp: body_def gap_def simp flip: rev_append)

lemma cells_flat: "s @ unsegment ts = head_core vtt s ts @ concat (map flat (cells vtt s ts))"
proof (induction vtt s ts rule: cells.induct)
  case (2 vtt s t s' ts)
  have "s @ unsegment ((t, s') # ts) = core vtt s @ id_line vtt s @ t # head_core vtt s' ts @ concat (map flat (cells vtt s' ts))"
    using "2.IH" [OF refl] core_id [of vtt s] by (simp flip: append_assoc)
  also have "head_core vtt s' ts = (if ts = [] then s' else core vtt s')" by (simp add: head_core_def)
  finally show ?case by (simp add: Let_def head_core_def body_gap flip: append_assoc)
qed (simp add: head_core_def)

lemma length_cells [simp]: "length (cells vtt s ts) = length ts"
  by (induction vtt s ts rule: cells.induct) (auto simp: Let_def)

section \<open>The scan finds the cells\<close>

fun raw_blocks :: "bool \<Rightarrow> nat \<Rightarrow> string list \<Rightarrow> (string \<times> string list) list \<Rightarrow> cueBlock list" where
  "raw_blocks vtt n s [] = []"
| "raw_blocks vtt n s ((t, s') # ts) =
     \<lparr>cb_start = n + length s - length (id_line vtt s), cb_timing = n + length s, cb_end = 0\<rparr>
     # raw_blocks vtt (n + length s + 1) s' ts"

lemma scan_skips:
  "(\<And>i. i \<in> set is \<Longrightarrow> \<not> isTimingLine vtt (lines ! i)) \<Longrightarrow> foldl (scan_line vtt lines first) st is = st"
  by (induction "is") (auto simp: scan_line_def Let_def split: prod.splits)

lemma scan_hits:
  assumes lines: "lines = P @ s @ t # rest" and "length P = n" and "first \<le> n" and "isTimingLine vtt t"
    and prev: "bs = [] \<and> n = first \<or> bs \<noteq> [] \<and> Suc (cb_timing (last bs)) = n"
  shows "fst (scan_line vtt lines first (bs, amb) (n + length s))
    = bs @ [\<lparr>cb_start = n + length s - length (id_line vtt s), cb_timing = n + length s, cb_end = 0\<rparr>]"
proof -
  let ?i = "n + length s"
  have t: "lines ! ?i = t" using assms(2) by (simp add: lines nth_append)
  have p: "(if bs = [] then int first - 1 else int (cb_timing (last bs))) = int n - 1" using prev by auto
  have l1: "lines ! (?i - 1) = last s" if "s \<noteq> []"
    using that assms(2) by (cases s rule: rev_cases) (auto simp: lines nth_append)
  have l2: "lines ! (?i - 2) = s ! (length s - 2)" if "2 \<le> length s"
    using that assms(2) by (auto simp: lines nth_append)
  have c1: "int ?i - 1 > int n - 1 \<longleftrightarrow> s \<noteq> []" by auto
  have c2: "int ?i - 2 > int n - 1 \<longleftrightarrow> 2 \<le> length s" by auto
  have c3: "2 \<le> length s \<Longrightarrow> \<not> int ?i - 2 < int first" using assms(3) by simp
  show ?thesis
    unfolding scan_line_def split_def Let_def fst_conv snd_conv p c1 c2 t
    using assms(4) l1 l2 c3 by (auto simp: id_line_def has_id_def)
qed

lemma scan_raw:
  assumes "lines = P @ s @ unsegment ts" and "length P = n" and "first \<le> n"
    and "timeless vtt s" and "segments_ok vtt ts"
    and "bs = [] \<and> n = first \<or> bs \<noteq> [] \<and> Suc (cb_timing (last bs)) = n"
  shows "fst (foldl (scan_line vtt lines first) (bs, amb) [n ..< length lines]) = bs @ raw_blocks vtt n s ts"
  using assms
proof (induction ts arbitrary: P s n bs amb)
  case Nil
  have "\<not> isTimingLine vtt (lines ! i)" if "i \<in> set [n ..< length lines]" for i
    using that Nil.prems by (auto simp: nth_append timeless_def)
  then have "foldl (scan_line vtt lines first) (bs, amb) [n ..< length lines] = (bs, amb)" by (rule scan_skips)
  then show ?case by simp
next
  case (Cons a ts)
  obtain t s' where a: "a = (t, s')" by (cases a)
  let ?i = "n + length s"
  have range: "[n ..< length lines] = [n ..< ?i] @ ?i # [?i + 1 ..< length lines]"
  proof -
    have len: "length lines = ?i + Suc (length s' + length (unsegment ts))" using Cons.prems(1,2) a by simp
    show ?thesis unfolding len by (subst upt_add_eq_append) (auto simp: upt_conv_Cons simp del: upt_Suc)
  qed
  have skip: "\<not> isTimingLine vtt (lines ! i)" if "i \<in> set [n ..< ?i]" for i
    using that Cons.prems by (auto simp: nth_append timeless_def)
  obtain bs' amb' where step: "scan_line vtt lines first (bs, amb) ?i = (bs', amb')" by (cases "scan_line vtt lines first (bs, amb) ?i")
  have bs': "bs' = bs @ [\<lparr>cb_start = ?i - length (id_line vtt s), cb_timing = ?i, cb_end = 0\<rparr>]"
    using scan_hits [of lines P s t "s' @ unsegment ts" n first vtt bs amb] Cons.prems a step by simp
  have "fst (foldl (scan_line vtt lines first) (bs', amb') [?i + 1 ..< length lines]) = bs' @ raw_blocks vtt (?i + 1) s' ts"
    using Cons.prems a by (intro Cons.IH [of "P @ s @ [t]"]) (auto simp: bs')
  moreover have "foldl (scan_line vtt lines first) (bs, amb) [n ..< ?i] = (bs, amb)" using skip by (rule scan_skips)
  ultimately show ?case unfolding range by (simp add: step bs' a)
qed

lemma all_blank_body: "\<forall>l \<in> set c. blank l \<Longrightarrow> body False c = []"
  by (simp add: body_def)

lemma body_srt_Cons:
  "body False (l # c) = (if \<forall>x \<in> set c. blank x then (if blank l then [] else [l]) else l # body False c)"
  by (auto simp: body_def dropWhile_append)

lemma body_srt_nonempty: "\<not> (\<forall>x \<in> set c. blank x) \<Longrightarrow> body False c \<noteq> []"
  by (auto simp: body_def)

lemma text_end_srt:
  "(\<And>j. j < length c \<Longrightarrow> lines ! (a + j) = c ! j) \<Longrightarrow>
   text_end False lines [a ..< a + length c] e = (if \<forall>l \<in> set c. blank l then e else a + length (body False c))"
proof (induction c arbitrary: a e)
  case (Cons l c)
  have hd: "lines ! a = l" using Cons.prems [of 0] by simp
  have tl: "lines ! (Suc a + j) = c ! j" if "j < length c" for j
    using Cons.prems [of "Suc j"] that by simp
  have up: "[a ..< a + length (l # c)] = a # [Suc a ..< Suc a + length c]" by (subst upt_conv_Cons) simp_all
  have IH': "text_end False lines [Suc a ..< Suc a + length c] f
      = (if \<forall>l \<in> set c. blank l then f else Suc a + length (body False c))" for f
    by (rule Cons.IH) (rule tl)
  show ?case unfolding up text_end.simps(2) hd IH' by (simp add: body_srt_Cons)
qed simp

lemma text_end_vtt:
  "(\<And>j. j < length c \<Longrightarrow> lines ! (a + j) = c ! j) \<Longrightarrow>
   text_end True lines [a ..< a + length c] a = a + length (body True c)"
proof (induction c arbitrary: a)
  case (Cons l c)
  have hd: "lines ! a = l" using Cons.prems [of 0] by simp
  have tl: "lines ! (Suc a + j) = c ! j" if "j < length c" for j
    using Cons.prems [of "Suc j"] that by simp
  note IH = Cons.IH [of "Suc a", OF tl]
  have up: "[a ..< a + length (l # c)] = a # [Suc a ..< Suc a + length c]" by (subst upt_conv_Cons) simp_all
  have "text_end True lines [Suc a ..< Suc a + length c] (a + 1) = Suc a + length (body True c)"
    using IH by (simp only: Suc_eq_plus1)
  then show ?case unfolding up text_end.simps hd by (auto simp: body_def)
qed (simp add: body_def)

lemma text_end_body:
  assumes "\<And>j. j < length c \<Longrightarrow> lines ! (a + j) = c ! j"
  shows "text_end vtt lines [a ..< a + length c] a = a + length (body vtt c)"
  using text_end_srt [OF assms, of a] text_end_vtt [OF assms] all_blank_body [of c] by (cases vtt) auto

lemma set_ends_raw:
  assumes "lines = P @ s @ unsegment ts" and "length P = n"
  shows "set_ends vtt lines (raw_blocks vtt n s ts) = cell_blocks (n + length (head_core vtt s ts)) (cells vtt s ts)"
  using assms
proof (induction ts arbitrary: P s n)
  case (Cons a ts)
  obtain t s' where a: "a = (t, s')" by (cases a)
  let ?i = "n + length s"
  define c where "c = (if ts = [] then s' else core vtt s')"
  have c: "\<exists>r. s' @ unsegment ts = c @ r"
    using core_id [of vtt s'] by (auto simp: c_def) (metis append_assoc)
  then obtain r where lines: "lines = P @ s @ t # c @ r" using Cons.prems(1) a by auto
  have limit: "(case raw_blocks vtt (?i + 1) s' ts of [] \<Rightarrow> length lines | b # _ \<Rightarrow> cb_start b) = ?i + 1 + length c"
  proof (cases ts)
    case Nil
    then show ?thesis using Cons.prems a by (simp add: c_def)
  next
    case (Cons u us)
    have "length s' = length (core vtt s') + length (id_line vtt s')" using core_id [of vtt s'] by (metis length_append)
    then show ?thesis using Cons by (cases u) (simp add: c_def)
  qed
  have "text_end vtt lines [?i + 1 ..< ?i + 1 + length c] (?i + 1) = ?i + 1 + length (body vtt c)"
    using Cons.prems(2) by (intro text_end_body) (simp add: lines nth_append)
  moreover have "set_ends vtt lines (raw_blocks vtt (?i + 1) s' ts)
      = cell_blocks (?i + 1 + length (head_core vtt s' ts)) (cells vtt s' ts)"
    using Cons.prems a by (intro Cons.IH [of "P @ s @ [t]"]) simp_all
  moreover have "length (head_core vtt s' ts) = length (body vtt c) + length (gap vtt c)"
    using body_gap [of vtt c] by (metis c_def head_core_def length_append)
  moreover have "length s = length (core vtt s) + length (id_line vtt s)" using core_id [of vtt s] by (metis length_append)
  ultimately show ?case
    unfolding a raw_blocks.simps set_ends.simps limit
    by (simp add: Let_def flip: c_def) (simp add: head_core_def add.assoc)
qed simp

text \<open>The blocks of a file are the positions of its cells.\<close>

lemma cueBlocks_cells:
  assumes "segments vtt (drop (first_line vtt lines) lines) = (s, ts)" and "first_line vtt lines \<le> length lines"
  shows "fst (cueBlocks lines vtt) = cell_blocks (first_line vtt lines + length (head_core vtt s ts)) (cells vtt s ts)"
proof -
  let ?n = "first_line vtt lines"
  note seg = segments_inverse [OF assms(1)]
  have lines: "lines = take ?n lines @ s @ unsegment ts" using seg by (metis append_take_drop_id)
  have n: "length (take ?n lines) = ?n" using assms(2) by simp
  have "fst (foldl (scan_line vtt lines ?n) ([], False) [?n ..< length lines]) = raw_blocks vtt ?n s ts"
    using scan_raw [OF lines n, of ?n vtt "[]" False] seg by simp
  then show ?thesis
    using set_ends_raw [OF lines n, of vtt] by (simp add: cueBlocks_def Let_def split_def)
qed

section \<open>What the cells are made of\<close>

abbreviation written :: "string list \<Rightarrow> string list" where
  "written ls \<equiv> filter (\<lambda>l. \<not> blank l) ls"

definition gap_ok :: "bool \<Rightarrow> string list \<Rightarrow> bool" where
  "gap_ok vtt g \<longleftrightarrow> (if vtt then g = [] \<or> blank (hd g) else \<forall>l \<in> set g. blank l)"

definition id_ok :: "string list \<Rightarrow> bool" where
  "id_ok p \<longleftrightarrow> p = [] \<or> (\<exists>l. p = [l] \<and> \<not> blank l)"

definition cell_ok :: "bool \<Rightarrow> cell \<Rightarrow> bool" where
  "cell_ok vtt c = (case c of (p, t, b, g) \<Rightarrow>
     isTimingLine vtt t \<and> timeless vtt p \<and> timeless vtt b \<and> timeless vtt g \<and> id_ok p \<and> gap_ok vtt g)"

lemma cell_ok_simp [simp]:
  "cell_ok vtt (p, t, b, g) \<longleftrightarrow>
     isTimingLine vtt t \<and> timeless vtt p \<and> timeless vtt b \<and> timeless vtt g \<and> id_ok p \<and> gap_ok vtt g"
  by (simp add: cell_ok_def)

lemma written_id: "id_ok p \<Longrightarrow> written p = p"
  by (auto simp: id_ok_def)

lemma gap_ok_gap: "gap_ok vtt (gap vtt c)"
  using hd_dropWhile [of "\<lambda>l. \<not> blank l" c] by (auto simp: gap_ok_def gap_def dest: set_takeWhileD)

lemma id_ok_id_line: "id_ok (id_line vtt s)"
  by (auto simp: id_ok_def id_line_def has_id_def)

lemma timeless_parts:
  assumes "timeless vtt s"
  shows "timeless vtt (core vtt s)" "timeless vtt (id_line vtt s)" "timeless vtt (body vtt s)" "timeless vtt (gap vtt s)"
  using assms core_id [of vtt s] body_gap [of vtt s] by (metis timeless_simps(3))+

lemma cells_ok: "\<lbrakk>timeless vtt s; segments_ok vtt ts\<rbrakk> \<Longrightarrow> \<forall>c \<in> set (cells vtt s ts). cell_ok vtt c"
  by (induction vtt s ts rule: cells.induct) (auto simp: Let_def timeless_parts id_ok_id_line gap_ok_gap)

section \<open>Blocks of cells\<close>

lemma slice_append: "length P = n \<Longrightarrow> length ys = m - n \<Longrightarrow> n \<le> m \<Longrightarrow> slice (P @ ys @ zs) n m = ys"
  by (simp add: slice_def)

definition cell_view :: "cell \<Rightarrow> string \<times> string list" where
  "cell_view c = (case c of (p, t, b, g) \<Rightarrow> (t, written b))"

definition block_view :: "string list \<Rightarrow> cueBlock \<Rightarrow> string \<times> string list" where
  "block_view lines block = (lines ! cb_timing block, written (slice lines (cb_timing block + 1) (cb_end block)))"

text \<open>The cues of a file: each timing line with the lines of text \<open>cueBlocks\<close> gives it.\<close>

definition cue_view :: "bool \<Rightarrow> string list \<Rightarrow> (string \<times> string list) list" where
  "cue_view vtt lines = map (block_view lines) (fst (cueBlocks lines vtt))"

lemma cell_view_simp [simp]: "cell_view (p, t, b, g) = (t, written b)"
  by (simp add: cell_view_def)

lemma length_cell_blocks [simp]: "length (cell_blocks n cs) = length cs"
  by (induction n cs rule: cell_blocks.induct) auto

lemma block_views:
  "\<lbrakk>lines = P @ concat (map flat cs); length P = n\<rbrakk> \<Longrightarrow> map (block_view lines) (cell_blocks n cs) = map cell_view cs"
proof (induction cs arbitrary: P n)
  case (Cons c cs)
  obtain p t b g where c: "c = (p, t, b, g)" by (cases c)
  have rest: "map (block_view lines) (cell_blocks (n + length p + 1 + length b + length g) cs) = map cell_view cs"
    using Cons.prems c by (intro Cons.IH [of "P @ flat c"]) auto
  have "slice ((P @ p @ [t]) @ b @ g @ concat (map flat cs)) (n + length p + 1) (n + length p + 1 + length b) = b"
    using Cons.prems(2) by (intro slice_append) auto
  moreover have "lines ! (n + length p) = t" using Cons.prems c by (simp add: nth_append)
  ultimately have "block_view lines \<lparr>cb_start = n, cb_timing = n + length p, cb_end = n + length p + 1 + length b\<rparr> = (t, written b)"
    using Cons.prems(1) c by (simp add: block_view_def)
  with rest show ?case by (simp add: c)
qed simp

lemma block_lines:
  "\<lbrakk>lines = P @ concat (map flat cs); length P = n\<rbrakk> \<Longrightarrow>
   map (cueLines lines) (cell_blocks n cs) = map (\<lambda>(p, t, b, g). written (p @ t # b)) cs"
proof (induction cs arbitrary: P n)
  case (Cons c cs)
  obtain p t b g where c: "c = (p, t, b, g)" by (cases c)
  have "slice (P @ (p @ t # b) @ g @ concat (map flat cs)) n (n + length p + 1 + length b) = p @ t # b"
    using Cons.prems(2) by (intro slice_append) auto
  then have "cueLines lines \<lparr>cb_start = n, cb_timing = n + length p, cb_end = n + length p + 1 + length b\<rparr> = written (p @ t # b)"
    using Cons.prems(1) c by (simp add: cueLines_def)
  moreover have "map (cueLines lines) (cell_blocks (n + length p + 1 + length b + length g) cs)
      = map (\<lambda>(p, t, b, g). written (p @ t # b)) cs"
    using Cons.prems c by (intro Cons.IH [of "P @ flat c"]) auto
  ultimately show ?case by (simp add: c)
qed simp

lemma block_has_id:
  "map (\<lambda>block. cb_timing block - cb_start block) (cell_blocks n cs) = map (\<lambda>(p, t, b, g). length p) cs"
  by (induction n cs rule: cell_blocks.induct) auto

lemma cb_start_hd: "cs \<noteq> [] \<Longrightarrow> cb_start (hd (cell_blocks n cs)) = n"
  by (cases cs) auto

lemma drop_last_end:
  "\<lbrakk>lines = P @ concat (map flat cs); length P = n; cs \<noteq> []\<rbrakk> \<Longrightarrow>
   drop (cb_end (last (cell_blocks n cs))) lines = (case last cs of (p, t, b, g) \<Rightarrow> g)"
proof (induction cs arbitrary: P n)
  case (Cons c cs)
  obtain p t b g where c: "c = (p, t, b, g)" by (cases c)
  show ?case
  proof (cases "cs = []")
    case True
    then show ?thesis using Cons.prems c by simp
  next
    case False
    have "cell_blocks (n + length p + 1 + length b + length g) cs \<noteq> []"
      using False by (metis length_0_conv length_cell_blocks)
    moreover have "drop (cb_end (last (cell_blocks (n + length p + 1 + length b + length g) cs))) lines
        = (case last cs of (p, t, b, g) \<Rightarrow> g)"
      using Cons.prems c False by (intro Cons.IH [of "P @ flat c"]) auto
    ultimately show ?thesis using False by (simp add: c)
  qed
qed simp

section \<open>Writing the slots\<close>

definition filled_gap :: "string list \<Rightarrow> string list" where
  "filled_gap g = (if g = [] then [[]] else g)"

fun glue :: "(nat \<Rightarrow> nat \<Rightarrow> string list) \<Rightarrow> nat \<Rightarrow> cell list \<Rightarrow> nat list \<Rightarrow> string list" where
  "glue R i ((p, t, b, g) # cs) (k # ks) = R i k @ (if cs = [] \<or> ks = [] then [] else filled_gap g) @ glue R (i + 1) cs ks"
| "glue R i cs ks = []"

lemma fill_slots_glue:
  "\<lbrakk>lines = P @ concat (map flat cs); length P = n; \<And>j k. k \<in> set ks \<Longrightarrow> edited j k = Ok (R j k)\<rbrakk> \<Longrightarrow>
   fill_slots edited lines i (cell_blocks n cs) ks = Ok (glue R i cs ks)"
proof (induction cs arbitrary: P n i ks)
  case (Cons c cs)
  obtain p t b g where c: "c = (p, t, b, g)" by (cases c)
  show ?case
  proof (cases ks)
    case ks: (Cons k ks')
    let ?n = "n + length p + 1 + length b + length g"
    have rest: "fill_slots edited lines (i + 1) (cell_blocks ?n cs) ks' = Ok (glue R (i + 1) cs ks')"
      using Cons.prems c ks by (intro Cons.IH [of "P @ flat c"]) auto
    have "slice ((P @ p @ t # b) @ g @ concat (map flat cs)) (n + length p + 1 + length b) ?n = g"
      using Cons.prems(2) by (intro slice_append) auto
    then have "gap_lines lines \<lparr>cb_start = n, cb_timing = n + length p, cb_end = n + length p + 1 + length b\<rparr> (hd (cell_blocks ?n cs))
        = filled_gap g" if "cs \<noteq> []"
      using that Cons.prems(1) c by (simp add: gap_lines_def filled_gap_def cb_start_hd)
    moreover have "cell_blocks ?n cs = [] \<longleftrightarrow> cs = []" by (metis length_0_conv length_cell_blocks)
    ultimately show ?thesis using rest Cons.prems(3) [of k] c ks by simp
  qed simp
qed simp

section \<open>Reading the slots back\<close>

definition first_id :: "cell list \<Rightarrow> string list" where
  "first_id cs = (case cs of [] \<Rightarrow> [] | (p, _) # _ \<Rightarrow> p)"

fun cell_segments :: "cell list \<Rightarrow> (string \<times> string list) list" where
  "cell_segments [] = []"
| "cell_segments ((p, t, b, g) # cs) = (t, b @ g @ first_id cs) # cell_segments cs"

text \<open>Cells as a rewrite leaves them: no blank line in a text, and a gap before every further cue.\<close>

fun tidy :: "bool \<Rightarrow> cell list \<Rightarrow> bool" where
  "tidy vtt [] \<longleftrightarrow> True"
| "tidy vtt ((p, t, b, g) # cs) \<longleftrightarrow>
     cell_ok vtt (p, t, b, g) \<and> (\<forall>l \<in> set b. \<not> blank l) \<and> (cs \<noteq> [] \<longrightarrow> g \<noteq> []) \<and> tidy vtt cs"

lemma cell_segments_flat: "concat (map flat cs) = first_id cs @ unsegment (cell_segments cs)"
  by (induction cs rule: cell_segments.induct) (auto simp: first_id_def)

lemma cell_segments_Nil [simp]: "cell_segments cs = [] \<longleftrightarrow> cs = []"
  by (cases cs rule: cell_segments.cases) auto

lemma tidy_first_id: "tidy vtt cs \<Longrightarrow> id_ok (first_id cs) \<and> timeless vtt (first_id cs)"
  by (cases cs rule: cell_segments.cases) (auto simp: first_id_def id_ok_def)

lemma tidy_segments: "tidy vtt cs \<Longrightarrow> segments_ok vtt (cell_segments cs)"
  by (induction cs rule: cell_segments.induct) (auto simp: tidy_first_id)

lemma body_of_parts:
  assumes "\<forall>l \<in> set b. \<not> blank l" and "gap_ok vtt g"
  shows "body vtt (b @ g) = b"
proof (cases vtt)
  case True
  have "takeWhile (\<lambda>l. \<not> blank l) g = []"
    using assms(2) True by (cases g) (auto simp: gap_ok_def)
  with True assms(1) show ?thesis by (simp add: body_def takeWhile_append2)
next
  case False
  have "dropWhile blank (rev b) = rev b" using assms(1) by (cases b rule: rev_cases) auto
  moreover have "dropWhile blank (rev g @ rev b) = dropWhile blank (rev b)"
    using False assms(2) by (intro dropWhile_append2) (auto simp: gap_ok_def)
  ultimately show ?thesis using False by (simp add: body_def)
qed

lemma body_core_parts:
  assumes "\<forall>l \<in> set b. \<not> blank l" and "gap_ok vtt g" and "g \<noteq> []" and "id_ok p"
  shows "body vtt (core vtt (b @ g @ p)) = b"
proof (cases vtt)
  case True
  with assms(2,3) obtain x g' where g: "g = x # g'" "blank x" by (cases g) (auto simp: gap_ok_def)
  have "\<exists>r. core vtt (b @ g @ p) = b @ x # r"
  proof (cases "has_id vtt (b @ g @ p)")
    case id: True
    then have "g' @ p \<noteq> []" using g by (auto simp: has_id_def)
    with id show ?thesis by (auto simp: core_def g butlast_append)
  qed (auto simp: core_def g)
  then obtain r where r: "core vtt (b @ g @ p) = b @ (x # r)" by blast
  show ?thesis unfolding r using True g assms(1) by (intro body_of_parts) (auto simp: gap_ok_def)
next
  case False
  have "core vtt (b @ g @ p) = b @ g"
  proof (cases p rule: rev_cases)
    case Nil
    have "blank (last (b @ g))" using assms(2,3) False by (simp add: gap_ok_def)
    with Nil show ?thesis by (auto simp: core_def has_id_def)
  next
    case (snoc q l)
    with assms(4) False show ?thesis by (auto simp: id_ok_def core_def has_id_def butlast_append)
  qed
  with body_of_parts [OF assms(1,2)] show ?thesis by simp
qed

lemma tidy_view: "tidy vtt cs \<Longrightarrow> map cell_view (cells vtt s (cell_segments cs)) = map cell_view cs"
proof (induction cs arbitrary: s rule: cell_segments.induct)
  case (2 p t b g cs)
  then have b: "\<forall>l \<in> set b. \<not> blank l" "gap_ok vtt g" "cs \<noteq> [] \<longrightarrow> g \<noteq> []" "id_ok (first_id cs)"
    by (auto simp: tidy_first_id)
  have "body vtt (if cell_segments cs = [] then b @ g @ first_id cs else core vtt (b @ g @ first_id cs)) = b"
    using b body_of_parts [OF b(1,2)] body_core_parts [OF b(1,2) _ b(4)] by (auto simp: first_id_def)
  with 2 show ?case by (simp add: Let_def)
qed simp

lemma rescan_tidy:
  assumes lines: "lines = P @ h @ concat (map flat cs)" and "first_line vtt lines = length P"
    and "timeless vtt h" and "tidy vtt cs"
  shows "cue_view vtt lines = map cell_view cs"
proof -
  let ?s = "h @ first_id cs" and ?ts = "cell_segments cs"
  have "drop (first_line vtt lines) lines = ?s @ unsegment ?ts"
    unfolding assms(2) by (simp add: lines cell_segments_flat)
  moreover have "timeless vtt ?s" "segments_ok vtt ?ts" using assms(3,4) by (auto simp: tidy_first_id tidy_segments)
  ultimately have seg: "segments vtt (drop (first_line vtt lines) lines) = (?s, ?ts)" by (simp only: segments_unique)
  have blocks: "fst (cueBlocks lines vtt) = cell_blocks (length P + length (head_core vtt ?s ?ts)) (cells vtt ?s ?ts)"
    using cueBlocks_cells [OF seg] by (simp add: assms(2)) (simp add: lines)
  have "lines = (P @ head_core vtt ?s ?ts) @ concat (map flat (cells vtt ?s ?ts))"
    using cells_flat [of ?s ?ts vtt] by (simp add: lines cell_segments_flat [of cs])
  then have "cue_view vtt lines = map cell_view (cells vtt ?s ?ts)"
    unfolding cue_view_def blocks by (rule block_views) simp
  with tidy_view [OF assms(4)] show ?thesis by simp
qed

section \<open>The header\<close>

definition header_line :: "string \<Rightarrow> bool" where
  "header_line l \<longleftrightarrow> (case Go_Text.fields l of field # _ \<Rightarrow> field = ''WEBVTT'' | [] \<Rightarrow> False)"

lemma after_header_Cons [simp]:
  "after_header i (l # ls) = (if header_line l then Some (i + 1) else after_header (i + 1) ls)"
  by (auto simp: header_line_def split: list.splits)

lemma after_header_None: "after_header i ls = None \<longleftrightarrow> (\<forall>l \<in> set ls. \<not> header_line l)"
  by (induction ls arbitrary: i) (auto simp del: after_header.simps(2))

lemma after_header_Some:
  "after_header i ls = Some k \<Longrightarrow> i \<le> k \<and> k \<le> i + length ls \<and> after_header i (take (k - i) ls @ xs) = Some k"
proof (induction ls arbitrary: i)
  case (Cons l ls)
  show ?case
  proof (cases "header_line l")
    case True
    with Cons.prems have "k - i = Suc 0" "k = Suc i" by (auto simp del: after_header.simps(2))
    with True show ?thesis by (simp del: after_header.simps(2))
  next
    case False
    with Cons.prems have "after_header (i + 1) ls = Some k" by (simp del: after_header.simps(2))
    note IH = Cons.IH [OF this]
    then obtain d where "k - i = Suc d" "k - (i + 1) = d" by (metis Suc_diff_Suc Suc_eq_plus1 Suc_le_lessD)
    with IH False show ?thesis by (auto simp del: after_header.simps(2))
  qed
qed simp

lemma empty_not_header: "\<not> header_line []"
  by (simp add: header_line_def text_eval)

lemma first_line_le: "first_line vtt lines \<le> length lines"
  using after_header_Some [of 0 lines] by (auto simp: first_line_def split: option.splits)

lemma first_line_keeps:
  assumes "vtt \<Longrightarrow> set xs \<subseteq> insert [] (set lines)"
  shows "first_line vtt (take (first_line vtt lines) lines @ xs) = length (take (first_line vtt lines) lines)"
proof (cases "vtt \<and> after_header 0 lines \<noteq> None")
  case True
  then obtain k where "after_header 0 lines = Some k" by auto
  with after_header_Some [OF this, of xs] True show ?thesis by (simp add: first_line_def)
next
  case False
  have "after_header 0 xs = None" if "vtt"
    using False that assms by (auto simp: after_header_None empty_not_header)
  with False show ?thesis by (auto simp: first_line_def)
qed

section \<open>The cues of a reordered file\<close>

definition new_id :: "string \<Rightarrow> nat \<Rightarrow> string list \<Rightarrow> string list" where
  "new_id extension i p = (if extension = ''.srt'' \<and> p \<noteq> [] then [itoa (int i + 1)] else p)"

definition moved_record :: "string \<Rightarrow> cell list \<Rightarrow> nat \<Rightarrow> nat \<Rightarrow> string list" where
  "moved_record extension all i k = (case all ! k of (p, t, b, g) \<Rightarrow> new_id extension i p @ t # written b)"

fun out_cells :: "string \<Rightarrow> cell list \<Rightarrow> nat \<Rightarrow> cell list \<Rightarrow> nat list \<Rightarrow> cell list" where
  "out_cells extension all i ((p, t, b, g) # cs) (k # ks) =
     (case all ! k of (p', t', b', g') \<Rightarrow> (new_id extension i p', t', written b', if cs = [] then g else filled_gap g))
     # out_cells extension all (i + 1) cs ks"
| "out_cells extension all i cs ks = []"

lemma glue_out:
  "\<lbrakk>length ks = length cs; cs \<noteq> []\<rbrakk> \<Longrightarrow>
   glue (moved_record extension all) i cs ks @ (case last cs of (p, t, b, g) \<Rightarrow> g)
   = concat (map flat (out_cells extension all i cs ks))"
proof (induction extension all i cs ks rule: out_cells.induct)
  case (1 extension all i p t b g cs k ks)
  obtain p' t' b' g' where k: "all ! k = (p', t', b', g')" by (cases "all ! k")
  show ?case
  proof (cases "cs = []")
    case True
    then show ?thesis using 1 k by (simp add: moved_record_def)
  next
    case False
    moreover from False 1 have "ks \<noteq> []" by auto
    ultimately show ?thesis using 1 k by (simp add: moved_record_def)
  qed
qed auto

lemma new_id_ok: "\<lbrakk>id_ok p; timeless vtt p\<rbrakk> \<Longrightarrow> id_ok (new_id extension i p) \<and> timeless vtt (new_id extension i p)"
  using index_line by (auto simp: new_id_def id_ok_def)

lemma filled_gap_ok: "\<lbrakk>gap_ok vtt g; timeless vtt g\<rbrakk> \<Longrightarrow> gap_ok vtt (filled_gap g) \<and> timeless vtt (filled_gap g) \<and> filled_gap g \<noteq> []"
  using empty_line by (auto simp: filled_gap_def gap_ok_def)

lemma timeless_written: "timeless vtt b \<Longrightarrow> timeless vtt (written b)"
  by (auto simp: timeless_def)

lemma tidy_out:
  "\<lbrakk>\<forall>c \<in> set all. cell_ok vtt c; \<forall>c \<in> set cs. cell_ok vtt c; \<forall>k \<in> set ks. k < length all\<rbrakk> \<Longrightarrow>
   tidy vtt (out_cells extension all i cs ks)"
proof (induction extension all i cs ks rule: out_cells.induct)
  case (1 extension all i p t b g cs k ks)
  obtain p' t' b' g' where k: "all ! k = (p', t', b', g')" by (cases "all ! k")
  have "cell_ok vtt (p', t', b', g')" using 1(2,4) k by (metis list.set_intros(1) nth_mem)
  moreover have "cell_ok vtt (p, t, b, g)" using 1(3) by simp
  moreover have "out_cells extension all (i + 1) [] ks = []" by simp
  ultimately show ?case
    using 1 k by (auto simp: new_id_ok filled_gap_ok timeless_written)
qed auto

lemma out_view:
  "length ks = length cs \<Longrightarrow> map cell_view (out_cells extension all i cs ks) = map (\<lambda>k. cell_view (all ! k)) ks"
proof (induction extension all i cs ks rule: out_cells.induct)
  case (1 extension all i p t b g cs k ks)
  then show ?case by (cases "all ! k") simp
qed auto

lemma out_lines:
  "\<lbrakk>\<forall>k \<in> set ks. k < length all; Q []; \<And>j. extension = ''.srt'' \<Longrightarrow> Q (itoa (int j + 1));
    \<forall>c \<in> set all. \<forall>x \<in> set (flat c). Q x; \<forall>c \<in> set cs. \<forall>x \<in> set (flat c). Q x\<rbrakk> \<Longrightarrow>
   \<forall>x \<in> set (concat (map flat (out_cells extension all i cs ks))). Q x"
proof (induction extension all i cs ks rule: out_cells.induct)
  case (1 extension all i p t b g cs k ks)
  obtain p' t' b' g' where k: "all ! k = (p', t', b', g')" by (cases "all ! k")
  have "\<forall>x \<in> set (flat (p', t', b', g')). Q x"
    using 1(2,5) k by (metis list.set_intros(1) nth_mem)
  moreover have "\<forall>x \<in> set g. Q x" using 1(6) by simp
  ultimately have "\<forall>x \<in> set (flat (new_id extension i p', t', written b', if cs = [] then g else filled_gap g)). Q x"
    using 1(3,4) by (auto simp: new_id_def filled_gap_def)
  moreover have "\<forall>x \<in> set (concat (map flat (out_cells extension all (i + 1) cs ks))). Q x"
    using 1(2-6) by (intro 1(1)) auto
  ultimately show ?case
    by (simp only: out_cells.simps k prod.case list.map concat.simps set_append ball_Un)
qed auto

lemma sort_by_key: "sort_by (\<lambda>i j. f i < f j) xs = sort_key f xs"
proof -
  have "insert_by (\<lambda>i j. f i < f j) x ys = insort_key f x ys" for x ys
    by (induction ys) (auto simp: not_less)
  then show ?thesis by (induction xs) auto
qed

lemma sort_key_same: "(\<And>x. x \<in> set xs \<Longrightarrow> f x = g x) \<Longrightarrow> sort_key f xs = sort_key g xs"
proof (induction xs)
  case (Cons x xs)
  have "insort_key f x ys = insort_key g x ys" if "\<forall>y \<in> insert x (set ys). f y = g y" for ys
    using that by (induction ys) auto
  with Cons show ?case by simp
qed simp

definition moved_cue :: "duration \<Rightarrow> Cue" where
  "moved_cue t = \<lparr>cue_start = t, cue_end = 0, cue_retime = False, cue_drop = False\<rparr>"

definition start_order :: "duration list \<Rightarrow> nat list" where
  "start_order starts = sort_key ((!) starts) [0 ..< length starts]"

lemma kept_start_order: "keptInStartOrder (map moved_cue starts) = start_order starts"
proof -
  have all: "filter (\<lambda>i. \<not> cue_drop (map moved_cue starts ! i)) [0 ..< length starts] = [0 ..< length starts]"
    by (rule filter_True) (simp add: moved_cue_def)
  have "keptInStartOrder (map moved_cue starts)
      = sort_key (\<lambda>i. cue_start (map moved_cue starts ! i)) [0 ..< length starts]"
    unfolding keptInStartOrder_def start_before_def length_map all by (rule sort_by_key)
  also have "\<dots> = start_order starts"
    unfolding start_order_def by (intro sort_key_same) (auto simp: moved_cue_def)
  finally show ?thesis .
qed

lemma sorted_cues: "is_sorted_by (\<lambda>a b. cue_start a < cue_start b) (map moved_cue starts) \<longleftrightarrow> sorted starts"
  by (induction starts rule: induct_list012) (auto simp: moved_cue_def not_less intro: order_trans)

lemma start_order_in: "k \<in> set (start_order starts) \<longleftrightarrow> k < length starts"
  by (auto simp: start_order_def)

lemma length_start_order [simp]: "length (start_order starts) = length starts"
  by (simp add: start_order_def)

lemma cell_written: "cell_ok vtt (p, t, b, g) \<Longrightarrow> written (p @ t # b) = p @ t # written b"
  using timing_not_blank [of vtt t] by (auto simp: written_id)

lemma edited_moved:
  assumes lines: "lines = P @ concat (map flat cs)" and ok: "\<forall>c \<in> set cs. cell_ok vtt c"
    and n: "length starts = length cs" "k < length cs"
  shows "edited_record U extension lines (cell_blocks (length P) cs) (map moved_cue starts) False i k
    = Ok (moved_record extension cs i k)"
proof -
  obtain p t b g where k: "cs ! k = (p, t, b, g)" by (cases "cs ! k")
  let ?source = "cell_blocks (length P) cs ! k"
  have "cell_ok vtt (p, t, b, g)" using ok n(2) k by (metis nth_mem)
  then have rec: "written (p @ t # b) = p @ t # written b" by (rule cell_written)
  have "map (cueLines lines) (cell_blocks (length P) cs) ! k = map (\<lambda>(p, t, b, g). written (p @ t # b)) cs ! k"
    using block_lines [OF lines refl] by (rule arg_cong)
  with n k rec have source: "cueLines lines ?source = p @ t # written b" by simp
  have "map (\<lambda>block. cb_timing block - cb_start block) (cell_blocks (length P) cs) ! k = map (\<lambda>(p, t, b, g). length p) cs ! k"
    using block_has_id by (rule arg_cong)
  with n k have id: "cb_timing ?source - cb_start ?source = length p" by simp
  have "p = [] \<or> (\<exists>l. p = [l])" using \<open>cell_ok vtt (p, t, b, g)\<close> by (auto simp: id_ok_def)
  with id show ?thesis
    using n k by (auto simp: edited_record_def Let_def source moved_cue_def moved_record_def new_id_def)
qed

lemma repair_lines_cells:
  assumes lines: "lines = Q @ concat (map flat cs)" and ok: "\<forall>c \<in> set cs. cell_ok vtt c"
    and len: "length starts = length cs" "cs \<noteq> []"
  shows "repair_lines U extension lines (cell_blocks (length Q) cs) (map moved_cue starts) False
    = Ok (Q @ concat (map flat (out_cells extension cs 0 cs (start_order starts))))"
proof -
  let ?blocks = "cell_blocks (length Q) cs" and ?order = "start_order starts"
  have "fill_slots (edited_record U extension lines ?blocks (map moved_cue starts) False) lines 0 ?blocks ?order
      = Ok (glue (moved_record extension cs) 0 cs ?order)"
    using edited_moved [OF lines ok len(1)] len(1) by (intro fill_slots_glue [OF lines refl]) (simp add: start_order_in)
  moreover have "?blocks \<noteq> []" "?order \<noteq> []"
    using len by (metis length_0_conv length_cell_blocks, metis length_0_conv length_start_order)
  moreover have "take (cb_start (hd ?blocks)) lines = Q" using len(2) by (simp add: cb_start_hd lines)
  moreover have "glue (moved_record extension cs) 0 cs ?order @ drop (cb_end (last ?blocks)) lines
      = concat (map flat (out_cells extension cs 0 cs ?order))"
    unfolding drop_last_end [OF lines refl len(2)] using len by (intro glue_out) simp_all
  ultimately show ?thesis by (simp add: repair_lines_def kept_start_order)
qed

lemma reordered_view:
  assumes lines: "lines = P @ h @ concat (map flat cs)" and P: "P = take (first_line vtt lines) lines"
    and ok: "\<forall>c \<in> set cs. cell_ok vtt c" and h: "timeless vtt h"
    and len: "length ks = length cs" "\<forall>k \<in> set ks. k < length cs" and ext: "vtt \<Longrightarrow> extension \<noteq> ''.srt''"
  shows "cue_view vtt (P @ h @ concat (map flat (out_cells extension cs 0 cs ks))) = map (\<lambda>k. cell_view (cs ! k)) ks"
proof -
  let ?xs = "concat (map flat (out_cells extension cs 0 cs ks))"
  have "\<forall>x \<in> set ?xs. x \<in> insert [] (set lines)" if vtt
    using ext [OF that] len(2) by (intro out_lines) (auto simp: lines)
  then have sub: "set (h @ ?xs) \<subseteq> insert [] (set lines)" if vtt
    using that by (auto simp: lines simp del: set_concat)
  have "first_line vtt (P @ h @ ?xs) = length P"
    unfolding P by (rule first_line_keeps) (rule sub)
  then have "cue_view vtt (P @ h @ ?xs) = map cell_view (out_cells extension cs 0 cs ks)"
    by (intro rescan_tidy [OF refl] h tidy_out ok len(2))
  also have "\<dots> = map (\<lambda>k. cell_view (cs ! k)) ks" using len(1) by (rule out_view)
  finally show ?thesis .
qed

lemma itoa_newline: "newline \<notin> set (itoa (int i + 1))"
  using nat_digits_digits [of newline "nat (int i + 1)"] by (auto simp: itoa_def newline_def is_dec_def)

lemma split_lines:
  assumes "\<forall>l \<in> set (P @ h @ concat (map flat cs)). newline \<notin> set l" and "cs \<noteq> []" "length ks = length cs"
    and "\<forall>k \<in> set ks. k < length cs"
  shows "split_char newline (join [newline] (P @ h @ concat (map flat (out_cells extension cs 0 cs ks))))
    = P @ h @ concat (map flat (out_cells extension cs 0 cs ks))"
proof (rule split_char_join)
  have "\<forall>l \<in> set (concat (map flat (out_cells extension cs 0 cs ks))). newline \<notin> set l"
    using assms(1,4) by (intro out_lines) (auto simp: itoa_newline)
  then show "\<forall>l \<in> set (P @ h @ concat (map flat (out_cells extension cs 0 cs ks))). newline \<notin> set l"
    using assms(1) by (simp add: ball_Un)
  obtain c cs' k ks' where "cs = c # cs'" "ks = k # ks'" using assms(2,3) by (cases cs; cases ks) auto
  then show "P @ h @ concat (map flat (out_cells extension cs 0 cs ks)) \<noteq> []"
    by (cases c; cases "cs ! k") (auto simp: flat_def)
qed

lemma repair_lines_reorders:
  assumes ext: "vtt \<longleftrightarrow> extension = ''.vtt''" and n: "length (fst (cueBlocks lines vtt)) = length starts" and "starts \<noteq> []"
    and plain: "\<forall>l \<in> set lines. newline \<notin> set l"
  shows "\<exists>lines'. repair_lines U extension lines (fst (cueBlocks lines vtt)) (map moved_cue starts) False = Ok lines'
    \<and> split_char newline (join [newline] lines') = lines'
    \<and> cue_view vtt lines' = map ((!) (cue_view vtt lines)) (start_order starts)"
proof -
  define P where "P = take (first_line vtt lines) lines"
  obtain s ts where seg: "segments vtt (drop (first_line vtt lines) lines) = (s, ts)" by force
  note parts = segments_inverse [OF seg]
  define cs h where "cs = cells vtt s ts" and "h = head_core vtt s ts"
  have "length P = first_line vtt lines" using first_line_le [of vtt lines] by (simp add: P_def min_absorb2)
  then have blocks: "fst (cueBlocks lines vtt) = cell_blocks (length (P @ h)) cs"
    using cueBlocks_cells [OF seg first_line_le] by (simp add: cs_def h_def)
  have "lines = P @ s @ unsegment ts" using parts by (metis P_def append_take_drop_id)
  then have lines: "lines = P @ h @ concat (map flat cs)" using cells_flat [of s ts vtt] by (simp add: cs_def h_def)
  then have lines2: "lines = (P @ h) @ concat (map flat cs)" by simp
  have ok: "\<forall>c \<in> set cs. cell_ok vtt c" unfolding cs_def using parts by (intro cells_ok) auto
  have len: "length starts = length cs" "cs \<noteq> []" using n assms(3) by (auto simp: blocks)
  have h: "timeless vtt h" using parts timeless_parts(1) by (auto simp: h_def head_core_def)
  have idx: "\<forall>k \<in> set (start_order starts). k < length cs" using len(1) by (simp add: start_order_in)
  have "map (\<lambda>k. cell_view (cs ! k)) (start_order starts) = map ((!) (map cell_view cs)) (start_order starts)"
    using idx by simp
  also have "map cell_view cs = cue_view vtt lines"
    unfolding cue_view_def blocks by (rule block_views [OF lines2 refl, symmetric])
  finally have view: "cue_view vtt (P @ h @ concat (map flat (out_cells extension cs 0 cs (start_order starts))))
      = map ((!) (cue_view vtt lines)) (start_order starts)"
    using reordered_view [OF lines P_def ok h, of "start_order starts" extension] len idx ext by simp
  have "split_char newline (join [newline] (P @ h @ concat (map flat (out_cells extension cs 0 cs (start_order starts)))))
      = P @ h @ concat (map flat (out_cells extension cs 0 cs (start_order starts)))"
    using plain len idx by (intro split_lines) (auto simp: lines)
  with repair_lines_cells [OF lines2 ok len, of U extension] view show ?thesis by (auto simp: blocks)
qed

text \<open>C8: putting the cues of an SRT or WebVTT file in order moves whole cues and nothing else. A file
  whose cues start in order is returned byte for byte. Otherwise, when the scan cannot tell index lines from text or finds
  another number of cues than the parser did, the file is refused with \<open>ErrUnsafe\<close>; no input makes the code index past a
  slice. In every other case the output, read again line by line and scanned again for cues, has exactly the cues
  of the input, each timing line with all its lines of text, in the order of a stable sort by start
  time, between the same byte order mark and final newlines.\<close>

theorem reorder_sorts_cues:
  assumes "to_lower U extension \<notin> {''.ass'', ''.ssa''}" and "splitContent text0 = (content, bom, trailing)"
    and "vtt \<longleftrightarrow> to_lower U extension = ''.vtt''" and "lines = split_char newline content"
  shows "\<exists>lines'. Reorder U text0 extension starts =
      (if sorted starts then Ok text0
       else if snd (cueBlocks lines vtt) \<or> length (cue_view vtt lines) \<noteq> length starts then Err ErrUnsafe
       else Ok (joined_text bom lines' trailing))
    \<and> split_char newline (join [newline] lines') = lines'
    \<and> (length (cue_view vtt lines) = length starts \<longrightarrow>
        cue_view vtt lines' = map ((!) (cue_view vtt lines)) (sort_key ((!) starts) [0 ..< length starts]))"
proof -
  let ?ext = "to_lower U extension" and ?blocks = "fst (cueBlocks lines vtt)"
  have reorder: "Reorder U text0 extension starts =
      (if sorted starts then Ok text0
       else if snd (cueBlocks lines vtt) \<or> length ?blocks \<noteq> length starts then Err ErrUnsafe
       else map_sum id (\<lambda>output. joined_text bom output trailing) (repair_lines U ?ext lines ?blocks (map moved_cue starts) False))"
    using assms
    by (simp add: Reorder_def repair_def Let_def split_def sorted_cues flip: moved_cue_def)
      (auto simp: moved_cue_def)
  have len: "length (cue_view vtt lines) = length ?blocks" by (simp add: cue_view_def)
  have self: "split_char newline (join [newline] lines) = lines" by (simp add: assms(4) join_split_char)
  show ?thesis
  proof (cases "length ?blocks = length starts \<and> starts \<noteq> []")
    case True
    moreover have "\<forall>l \<in> set lines. newline \<notin> set l" using split_char_no_sep assms(4) by blast
    ultimately show ?thesis
      using repair_lines_reorders [of vtt ?ext lines starts U] assms(3) reorder len
      by (auto simp: start_order_def)
  next
    case False
    then show ?thesis using reorder len self by (intro exI [of _ lines]) auto
  qed
qed

text \<open>Two SRT cues in the wrong order.\<close>

definition swapped_lines :: "string list" where
  "swapped_lines = [''1'', ''00:05,000 --> 00:06,000'', ''B'', [], ''2'', ''00:01,000 --> 00:02,000'', ''A'']"

lemma sample_blank:
  "blank []" "\<not> blank ''1''" "\<not> blank ''2''" "\<not> blank ''A''" "\<not> blank ''B''"
  "\<not> blank ''00:05,000 --> 00:06,000''" "\<not> blank ''00:01,000 --> 00:02,000''"
  by (simp_all add: blank_def text_eval)

lemma sample_timing:
  "\<not> isTimingLine False []" "\<not> isTimingLine False ''1''" "\<not> isTimingLine False ''2''"
  "\<not> isTimingLine False ''A''" "\<not> isTimingLine False ''B''"
  "isTimingLine False ''00:05,000 --> 00:06,000''" "isTimingLine False ''00:01,000 --> 00:02,000''"
  by (simp_all add: isTimingLine_def text_eval)

lemma swapped_blocks:
  "cueBlocks swapped_lines False
   = ([\<lparr>cb_start = 0, cb_timing = 1, cb_end = 3\<rparr>, \<lparr>cb_start = 4, cb_timing = 5, cb_end = 7\<rparr>], False)"
  by (simp add: cueBlocks_def first_line_def swapped_lines_def scan_line_def sample_blank sample_timing upt_rec numeral_nat)

lemma swapped_view:
  "cue_view False swapped_lines = [(''00:05,000 --> 00:06,000'', [''B'']), (''00:01,000 --> 00:02,000'', [''A''])]"
  by (simp add: cue_view_def swapped_blocks block_view_def slice_def) (simp add: swapped_lines_def sample_blank)

lemma swapped_content:
  "splitContent (join [newline] swapped_lines) = (join [newline] swapped_lines, [], 0)"
  "split_char newline (join [newline] swapped_lines) = swapped_lines"
  "to_lower ascii_tables ''.srt'' = ''.srt''"
  by code_simp+

theorem reorder_sorts_cues_witness:
  "\<exists>lines'. Reorder ascii_tables (join [newline] swapped_lines) ''.srt'' [5 * second, second] = Ok (joined_text [] lines' 0)
     \<and> cue_view False lines' = [(''00:01,000 --> 00:02,000'', [''A'']), (''00:05,000 --> 00:06,000'', [''B''])]"
  using reorder_sorts_cues [OF _ swapped_content(1) _ swapped_content(2) [symmetric], where starts = "[5 * second, second]"
      and U = ascii_tables and extension = "''.srt''" and vtt = False]
  by (auto simp: swapped_content(3) swapped_blocks swapped_view upt_rec)

end
