(* ===== verification/Lapse_Policy.thy ===== *)
theory Lapse_Policy
  imports Match_Score Upgrade
begin

text \<open>
  When a downloaded candidate may be installed without LAPSE, and the order in which prepared candidates are
  tried (\<open>src/internal/workflow/service.go\<close>: \<open>LapsePolicy\<close>, \<open>lapseMaySkip\<close>, \<open>canBypassLapse\<close>, \<open>excellentSync\<close>,
  \<open>sortPrepared\<close>). A \<open>float64\<close> is the rational it stands for; LAPSE reports finite numbers only.
\<close>

section \<open>The sync policy\<close>

record LapsePolicy =
  lp_mode :: string
  lp_bypass_score :: int
  lp_require_identity_anchor :: bool
  lp_require_episode_evidence :: bool
  lp_require_release_group :: bool
  lp_lapse_for_packs :: bool
  lp_lapse_for_upgrades :: bool

definition DefaultLapsePolicy :: LapsePolicy where
  "DefaultLapsePolicy =
     \<lparr>lp_mode = ''confidence'', lp_bypass_score = 75, lp_require_identity_anchor = True,
      lp_require_episode_evidence = True, lp_require_release_group = True, lp_lapse_for_packs = True,
      lp_lapse_for_upgrades = True\<rparr>"

definition normalized :: "LapsePolicy \<Rightarrow> LapsePolicy" where
  "normalized p =
     (if lp_mode p = [] then DefaultLapsePolicy
      else if lp_bypass_score p = 0 then p\<lparr>lp_bypass_score := lp_bypass_score DefaultLapsePolicy\<rparr>
      else p)"

definition syncDisabled :: "LapsePolicy \<Rightarrow> bool" where
  "syncDisabled p \<longleftrightarrow> lp_mode p = ''never''"

definition lapseMaySkip :: "LapsePolicy \<Rightarrow> Candidate \<Rightarrow> bool \<Rightarrow> int \<Rightarrow> bool" where
  "lapseMaySkip p candidate runtimePack members \<longleftrightarrow>
     (if c_exact_hash candidate then False
      else
        let policy = normalized p
        in if syncDisabled policy then True
           else lp_mode policy = ''confidence'' \<and> \<not> runtimePack \<and> members = 1
                \<and> \<not> (c_pack candidate \<noteq> None \<and> lp_lapse_for_packs policy))"

text \<open>The loop over the contributions: an identity signal counts once any is positive, the last release group decides.\<close>

definition anchor_step :: "Contribution \<Rightarrow> bool \<times> bool \<Rightarrow> bool \<times> bool" where
  "anchor_step item found =
     (let (identity, releaseGroup) = found
      in if co_signal item = ''external_id'' \<or> co_signal item = ''title_year''
         then (identity \<or> co_points item > 0, releaseGroup)
         else if co_signal item = ''release_group'' then (identity, co_points item > 0)
         else found)"

definition canBypassLapse :: "externals \<Rightarrow> Media \<Rightarrow> Candidate \<Rightarrow> Score \<Rightarrow> bool \<Rightarrow> LapsePolicy \<Rightarrow> bool" where
  "canBypassLapse X media candidate score installed policy =
     (if lp_mode policy \<noteq> ''confidence'' \<or> (installed \<and> lp_lapse_for_upgrades policy)
         \<or> (c_pack candidate \<noteq> None \<and> lp_lapse_for_packs policy) \<or> sc_total score < lp_bypass_score policy
      then False
      else
        let (identity, releaseGroup) = fold anchor_step (sc_contributions score) (False, False)
        in if (lp_require_identity_anchor policy \<and> \<not> identity) \<or> (lp_require_release_group policy \<and> \<not> releaseGroup)
           then False
           else if \<not> HasMatchingEdition X media candidate then False
           else \<not> lp_require_episode_evidence policy \<or> ref_kind (m_ref media) \<noteq> MediaEpisode
                \<or> HasEpisodeEvidence X media candidate)"

section \<open>Prepared candidates\<close>

record preparedCandidate =
  pr_member_index :: int
  pr_member_count :: int
  pr_more_versions :: bool
  pr_from_cache :: bool
  pr_member_scope :: string
  pr_runtime_pack :: bool
  pr_candidate :: Candidate
  pr_score :: Score
  pr_priority :: int
  pr_path :: string
  pr_group_may_reject :: bool
  pr_sync :: SyncResult
  pr_output :: string
  pr_bypass :: bool

text \<open>
  A downloaded candidate is a prepared one whose last four fields are still empty, as the embedded struct of the
  source is.
\<close>

definition downloadedCandidate :: "Candidate \<Rightarrow> Score \<Rightarrow> int \<Rightarrow> bool \<Rightarrow> preparedCandidate" where
  "downloadedCandidate candidate score priority runtimePack =
     \<lparr>pr_member_index = 0, pr_member_count = 0, pr_more_versions = False, pr_from_cache = False, pr_member_scope = [],
      pr_runtime_pack = runtimePack, pr_candidate = candidate, pr_score = score, pr_priority = priority, pr_path = [],
      pr_group_may_reject = False, pr_sync = zero_sync, pr_output = [], pr_bypass = False\<rparr>"

definition earlyAcceptConfidence :: rat where "earlyAcceptConfidence = rnd (9 / 10)"

definition excellent :: "SyncResult \<Rightarrow> bool" where
  "excellent sync \<longleftrightarrow> sy_verdict sync = ''solid'' \<and> sy_confidence sync \<ge> earlyAcceptConfidence
     \<and> sy_agreement sync \<ge> 1 \<and> sy_coverage sync \<ge> 1"

definition excellentSync :: "preparedCandidate list \<Rightarrow> preparedCandidate option" where
  "excellentSync prepared = find (\<lambda>candidate. excellent (pr_sync candidate)) prepared"

definition prepared_before :: "preparedCandidate \<Rightarrow> preparedCandidate \<Rightarrow> bool" where
  "prepared_before a b =
     (if sy_confidence (pr_sync a) \<noteq> sy_confidence (pr_sync b) then sy_confidence (pr_sync b) < sy_confidence (pr_sync a)
      else if pr_priority a \<noteq> pr_priority b then pr_priority a < pr_priority b
      else if c_rating (pr_candidate a) \<noteq> c_rating (pr_candidate b)
        then c_rating (pr_candidate b) < c_rating (pr_candidate a)
      else if c_provider_id (pr_candidate a) \<noteq> c_provider_id (pr_candidate b)
        then c_provider_id (pr_candidate a) < c_provider_id (pr_candidate b)
      else c_result_id (pr_candidate a) < c_result_id (pr_candidate b))"

definition sortPrepared :: "preparedCandidate list \<Rightarrow> preparedCandidate list" where
  "sortPrepared candidates = sort_by prepared_before candidates"

interpretation prepared_order: strict_weak_order prepared_before
proof -
  have "strict_weak_order (\<lambda>a b.
      if - sy_confidence (pr_sync a) \<noteq> - sy_confidence (pr_sync b) then - sy_confidence (pr_sync a) < - sy_confidence (pr_sync b)
      else if pr_priority a \<noteq> pr_priority b then pr_priority a < pr_priority b
      else if - c_rating (pr_candidate a) \<noteq> - c_rating (pr_candidate b)
        then - c_rating (pr_candidate a) < - c_rating (pr_candidate b)
      else if c_provider_id (pr_candidate a) \<noteq> c_provider_id (pr_candidate b)
        then c_provider_id (pr_candidate a) < c_provider_id (pr_candidate b)
      else c_result_id (pr_candidate a) < c_result_id (pr_candidate b))"
    by (intro swo_lex swo_key)
  then show "strict_weak_order prepared_before"
    by (rule back_subst [where P = strict_weak_order])
      (intro ext, simp only: prepared_before_def neg_equal_iff_equal neg_less_iff_less)
qed

section \<open>Lemmas\<close>

lemma sortPrepared_set [simp]: "set (sortPrepared xs) = set xs"
  by (simp add: sortPrepared_def)

lemma excellentSync_in: "excellentSync xs = Some c \<Longrightarrow> c \<in> set xs \<and> excellent (pr_sync c)"
  by (auto simp: excellentSync_def find_Some_iff)

lemma fold_anchor_group:
  "snd (fold anchor_step cs (i, g)) \<Longrightarrow> g \<or> (\<exists>c \<in> set cs. co_signal c = ''release_group'' \<and> co_points c > 0)"
proof (induction cs arbitrary: i g)
  case (Cons c cs)
  obtain i' g' where s: "anchor_step c (i, g) = (i', g')" by force
  then have "g' \<longrightarrow> g \<or> co_signal c = ''release_group'' \<and> co_points c > 0"
    by (auto simp: anchor_step_def split: if_splits)
  with Cons.IH [of i' g'] Cons.prems s show ?case by auto
qed simp

lemma fold_anchor_identity:
  "fst (fold anchor_step cs (i, g)) \<Longrightarrow>
     i \<or> (\<exists>c \<in> set cs. (co_signal c = ''external_id'' \<or> co_signal c = ''title_year'') \<and> co_points c > 0)"
proof (induction cs arbitrary: i g)
  case (Cons c cs)
  obtain i' g' where s: "anchor_step c (i, g) = (i', g')" by force
  then have "i' \<longrightarrow> i \<or> (co_signal c = ''external_id'' \<or> co_signal c = ''title_year'') \<and> co_points c > 0"
    by (auto simp: anchor_step_def split: if_splits)
  with Cons.IH [of i' g'] Cons.prems s show ?case by auto
qed simp

end
