(* ===== verification/Rejections.thy ===== *)
theory Rejections
  imports Search_Queue Outages Lapse_Policy Go_Json Go_Regexp
begin

text \<open>
  Which candidates a search leaves alone because they were rejected before (\<open>src/internal/workflow/service.go\<close>:
  the rejection identity, \<open>candidateRejection\<close>, \<open>RejectionActive\<close>, \<open>recordCandidateRejection\<close>; and
  \<open>src/internal/store/repository.go\<close>: \<open>GetCandidateRejection\<close>, \<open>RecordCandidateLapseFailure\<close>). The JSON encoder
  of a candidate, SHA-256 in hexadecimal, the digest of the sync policy and the LAPSE baseline are the record \<open>tooling\<close>.
\<close>

section \<open>What failed\<close>

text \<open>All errors of a tree, depth first, and \<open>errors.As\<close> for a candidate error.\<close>

fun error_leaves :: "workflow_error \<Rightarrow> workflow_error list" where
  "error_leaves (WExhausted es) = concat (map error_leaves es)"
| "error_leaves (WJoined es) = concat (map error_leaves es)"
| "error_leaves (WContent e) = WContent e # error_leaves e"
| "error_leaves (WMediaUnavailable missing e) = WMediaUnavailable missing e # error_leaves e"
| "error_leaves (WWrapped msg e) = error_leaves e"
| "error_leaves e = [e]"

definition candidate_errors :: "workflow_error \<Rightarrow> candidate_error list" where
  "candidate_errors e = concat (map (\<lambda>x. case x of WCandidate c \<Rightarrow> [c] | _ \<Rightarrow> []) (error_leaves e))"

fun verdict_of :: "candidate_error list \<Rightarrow> string option" where
  "verdict_of [] = None"
| "verdict_of (VerdictError v # es) = Some v"
| "verdict_of (_ # es) = verdict_of es"

fun selection_of :: "candidate_error list \<Rightarrow> string option" where
  "selection_of [] = None"
| "selection_of (SelectionError rule # es) = Some rule"
| "selection_of (_ # es) = selection_of es"

definition is_content :: "workflow_error \<Rightarrow> bool" where
  "is_content e \<longleftrightarrow> list_ex (\<lambda>x. case x of WContent _ \<Rightarrow> True | _ \<Rightarrow> False) (error_leaves e)"

definition is_timeout :: "workflow_error \<Rightarrow> bool" where
  "is_timeout e \<longleftrightarrow> TimeoutError \<in> set (candidate_errors e)"

fun hasProcessExit :: "candidate_error list \<Rightarrow> bool" where
  "hasProcessExit [] = False"
| "hasProcessExit (ProcessExitError code out err # es) = True"
| "hasProcessExit (_ # es) = hasProcessExit es"

definition hasProcessExitError :: "workflow_error \<Rightarrow> bool" where
  "hasProcessExitError failure = hasProcessExit (candidate_errors failure)"

text \<open>Down a chain of single wrappings; a composite of several errors ends the walk.\<close>

fun singleProcessExitError :: "workflow_error \<Rightarrow> (int \<times> bool \<times> bool) option" where
  "singleProcessExitError (WCandidate (ProcessExitError code out err)) = Some (code, out, err)"
| "singleProcessExitError (WContent e) = singleProcessExitError e"
| "singleProcessExitError (WMediaUnavailable missing e) = singleProcessExitError e"
| "singleProcessExitError (WWrapped msg e) = singleProcessExitError e"
| "singleProcessExitError _ = None"

definition isMediaValidationRejection :: "workflow_error \<Rightarrow> bool" where
  "isMediaValidationRejection failure \<longleftrightarrow> NoSpeechError \<in> set (candidate_errors failure)"

definition lapseFailureDecision :: "workflow_error \<Rightarrow> string" where
  "lapseFailureDecision failure =
     (if hasProcessExitError failure then ''error''
      else if failure = WCandidate TooFewCuesError then ''non-solid''
      else if verdict_of (candidate_errors failure) \<noteq> None then ''non-solid''
      else ''error'')"

definition rejectionReasonCode :: "workflow_error \<Rightarrow> string" where
  "rejectionReasonCode failure =
     (let verdict = verdict_of (candidate_errors failure);
          install = (case failure of WCandidate (SubtitleValidationError code) \<Rightarrow> Some code | _ \<Rightarrow> None)
      in if failure = WCandidate InvalidOutputError then ''lapse_invalid_output''
         else if failure = WCandidate TooFewCuesError then ''lapse_too_few_cues''
         else if verdict = Some ''unsure'' \<or> verdict = Some ''nothing'' then ''lapse_'' @ the verdict
         else if selection_of (candidate_errors failure) \<noteq> None then ''pack_selection''
         else if install \<noteq> None \<and> install \<noteq> Some [] then the install
         else if is_content failure \<or> install \<noteq> None then ''invalid_subtitle''
         else [])"

section \<open>The identity of a candidate\<close>

record tooling =
  tl_json_candidate :: "Candidate \<Rightarrow> string"
  tl_json_member :: "PackMemberRef \<Rightarrow> string"
  tl_sha256 :: "string \<Rightarrow> string"
  tl_policy_sum :: "LapsePolicy \<Rightarrow> string"
  tl_baseline :: "string option"
  tl_policy :: LapsePolicy

text \<open>\<open>slices.Sort\<close> and \<open>slices.Compact\<close>.\<close>

definition sorted_compact :: "string list \<Rightarrow> string list" where
  "sorted_compact xs = remdups_adj (sort xs)"

definition member_before :: "tooling \<Rightarrow> PackMemberRef \<Rightarrow> PackMemberRef \<Rightarrow> bool" where
  "member_before T a b \<longleftrightarrow> tl_json_member T a < tl_json_member T b"

text \<open>A pack without the download references of its members, which are sorted and stripped of repetitions.\<close>

definition safe_pack :: "tooling \<Rightarrow> PackInfo \<Rightarrow> PackInfo" where
  "safe_pack T p =
     p\<lparr>pk_direct_members := remdups_adj (sort_by (member_before T)
         (map (\<lambda>member. member\<lparr>pm_download_ref := []\<rparr>) (pk_direct_members p)))\<rparr>"

definition safe_candidate :: "tooling \<Rightarrow> Candidate \<Rightarrow> Candidate" where
  "safe_candidate T candidate =
     candidate\<lparr>c_release_numbered := False, c_download_ref := [], c_rating := 0, c_popularity := 0,
       c_download_count := 0, c_alternate_titles := sorted_compact (c_alternate_titles candidate),
       c_release_names := sorted_compact (c_release_names candidate),
       c_release_groups := sorted_compact (c_release_groups candidate),
       c_resolutions := sorted_compact (c_resolutions candidate),
       c_pack := map_option (safe_pack T) (c_pack candidate)\<rparr>"

definition json_field :: "string \<Rightarrow> string \<Rightarrow> string" where
  "json_field name text = json_string name @ '':'' @ text"

text \<open>The selection evidence of an episode; a field marked \<open>omitempty\<close> is left out when it is zero.\<close>

definition episode_evidence :: "Media \<Rightarrow> string" where
  "episode_evidence media =
     (let (episodeEnd, absoluteEnd) =
            (if IsEpisodeRange media then (m_episode_end media, m_absolute_episode_end media) else (0, 0));
          items = [json_field ''Season'' (itoa (m_season media)), json_field ''Episode'' (itoa (m_episode media)),
             json_field ''AbsoluteEpisode'' (itoa (m_absolute_episode media)),
             json_field ''EpisodeTitle'' (json_string (m_episode_title media))]
             @ (if episodeEnd = 0 then [] else [json_field ''EpisodeEnd'' (itoa episodeEnd)])
             @ (if absoluteEnd = 0 then [] else [json_field ''AbsoluteEpisodeEnd'' (itoa absoluteEnd)])
      in ''{'' @ join '','' items @ ''}'')"

text \<open>Encoding cannot fail: the only numbers that JSON refuses were set to zero.\<close>

definition candidateSignature :: "tooling \<Rightarrow> Candidate \<Rightarrow> Media \<Rightarrow> string" where
  "candidateSignature T candidate media =
     tl_sha256 T (tl_json_candidate T (safe_candidate T candidate)
       @ (if ref_kind (m_ref media) = MediaEpisode then episode_evidence media @ ''/episode-selection-v2'' else []))"

definition RejectionToolSignature :: "tooling \<Rightarrow> string" where
  "RejectionToolSignature T =
     ''lapse-'' @ (case tl_baseline T of None \<Rightarrow> ''unknown'' | Some version \<Rightarrow> version)
       @ ''/policy-'' @ tl_policy_sum T (normalized (tl_policy T))"

text \<open>The request fields a rejection is bound to; the scope is the member checksum, empty for the whole candidate.\<close>

record reject_scope =
  rk_media_id :: int
  rk_media :: Media
  rk_language :: language
  rk_member_scope :: string

definition scope_suffix :: "string \<Rightarrow> string" where
  "scope_suffix scope = (if scope = [] then [] else ''/member-'' @ scope)"

definition candidateRejectionIdentity :: "tooling \<Rightarrow> reject_scope \<Rightarrow> Candidate \<Rightarrow> string \<Rightarrow> CandidateRejection" where
  "candidateRejectionIdentity T request candidate artifactChecksum =
     (let fingerprint = m_fingerprint (rk_media request)
      in \<lparr>rj_media_id = rk_media_id request, rj_language = rk_language request,
          rj_provider_id = c_provider_id candidate, rj_result_id = c_result_id candidate,
          rj_candidate_signature = candidateSignature T candidate (rk_media request) @ scope_suffix (rk_member_scope request),
          rj_artifact_checksum = artifactChecksum, rj_reason_code = [], rj_tool_signature = RejectionToolSignature T,
          rj_media_path = fp_path fingerprint, rj_media_file_id = fp_file_id fingerprint,
          rj_media_size = fp_size fingerprint, rj_media_mod_time_ns = unix_nano (fp_mod_time fingerprint),
          rj_rejected_at = 0\<rparr>)"

section \<open>Rules versions\<close>

definition SubtitleRulesVersion :: int where "SubtitleRulesVersion = 2"
definition SelectionRulesVersion :: int where "SelectionRulesVersion = 3"

definition rejectionRulesVersion :: "string \<Rightarrow> string" where
  "rejectionRulesVersion reasonCode =
     (if reasonCode = ''invalid_subtitle'' then ''/subtitle-rules-v'' @ itoa SubtitleRulesVersion
      else if reasonCode = ''pack_selection'' then ''/pack-selection-v'' @ itoa SelectionRulesVersion
      else [])"

definition exhaustedRulesVersion :: string where
  "exhaustedRulesVersion = rejectionRulesVersion ''invalid_subtitle'' @ rejectionRulesVersion ''pack_selection''"

definition versionedRejectionReasons :: "string list" where
  "versionedRejectionReasons = [''invalid_subtitle'', ''pack_selection'']"

definition toolIndependentRejectionReasons :: "string list" where
  "toolIndependentRejectionReasons = [''invalid_subtitle'', ''language_mismatch'', ''partial_coverage'']"

definition rejectionFollowsTool :: "string \<Rightarrow> bool" where
  "rejectionFollowsTool reasonCode \<longleftrightarrow> reasonCode \<notin> set toolIndependentRejectionReasons"

definition subtitleRulesInfix :: regexp where
  "subtitleRulesInfix = seq_re [Text_re ''/subtitle-rules-v'', Repeat 1 None digit_class, Finish]"

text \<open>\<open>FindString\<close>: the text of the leftmost match, empty when there is none.\<close>

definition find_string :: "regexp \<Rightarrow> string \<Rightarrow> string" where
  "find_string r s =
     (let rs = runes s in case find_from r rs 0 (length rs) of None \<Rightarrow> [] | Some (i, j, g) \<Rightarrow> slice_text rs i j)"

definition same_file :: "CandidateRejection \<Rightarrow> MediaFingerprint \<Rightarrow> bool" where
  "same_file rejection fingerprint \<longleftrightarrow>
     rj_media_path rejection = fp_path fingerprint \<and> rj_media_file_id rejection = fp_file_id fingerprint
     \<and> rj_media_size rejection = fp_size fingerprint
     \<and> rj_media_mod_time_ns rejection = unix_nano (fp_mod_time fingerprint)"

definition RejectionActive :: "tooling \<Rightarrow> CandidateRejection \<Rightarrow> MediaFingerprint \<Rightarrow> bool" where
  "RejectionActive T rejection fingerprint =
     (if \<not> same_file rejection fingerprint then False
      else if IsUserRejection (rj_reason_code rejection) then True
      else if (rejectionFollowsTool (rj_reason_code rejection) \<and> rj_tool_signature rejection \<noteq> RejectionToolSignature T)
              \<or> \<not> same_file rejection fingerprint
      then False
      else
        let suffix = rejectionRulesVersion (rj_reason_code rejection); signature = rj_candidate_signature rejection
        in if suffix = [] then True
           else if \<not> has_suffix signature suffix then False
           else
             let version = find_string subtitleRulesInfix (trim_suffix signature suffix)
             in if version \<noteq> [] then version = rejectionRulesVersion ''invalid_subtitle'' else True)"

section \<open>Lookup\<close>

record CandidateRejectionLookup =
  rl_media_id :: int
  rl_language :: language
  rl_provider_id :: string
  rl_result_id :: string
  rl_candidate_signature :: string
  rl_artifact_checksum :: string
  rl_tool_signature :: string
  rl_media_path :: string
  rl_media_file_id :: int
  rl_media_size :: int
  rl_media_mod_time_ns :: int
  rl_exclude_reason_codes :: "string list"
  rl_tool_independent_reason_codes :: "string list"

definition AnyCandidateSignature :: string where "AnyCandidateSignature = ''*''"

text \<open>The \<open>WHERE\<close> clause of the query.\<close>

definition same_candidate_file :: "CandidateRejectionLookup \<Rightarrow> CandidateRejection \<Rightarrow> bool" where
  "same_candidate_file l rj \<longleftrightarrow>
     rj_media_id rj = rl_media_id l \<and> rj_language rj = rl_language l \<and> rj_provider_id rj = rl_provider_id l
     \<and> rj_result_id rj = rl_result_id l \<and> rj_media_path rj = rl_media_path l
     \<and> rj_media_file_id rj = rl_media_file_id l \<and> rj_media_size rj = rl_media_size l
     \<and> rj_media_mod_time_ns rj = rl_media_mod_time_ns l"

definition lookup_matches :: "CandidateRejectionLookup \<Rightarrow> CandidateRejection \<Rightarrow> bool" where
  "lookup_matches l rj \<longleftrightarrow>
     same_candidate_file l rj
     \<and> (userReasonSQL (rj_reason_code rj)
          \<and> (rj_candidate_signature rj = rl_candidate_signature l \<or> rj_candidate_signature rj = AnyCandidateSignature)
        \<or> rj_candidate_signature rj = rl_candidate_signature l
          \<and> (rj_tool_signature rj = rl_tool_signature l
             \<or> rj_reason_code rj \<in> set (rl_tool_independent_reason_codes l))
          \<and> (rl_artifact_checksum l \<noteq> [] \<longrightarrow> rj_artifact_checksum rj = rl_artifact_checksum l)
          \<and> rj_reason_code rj \<notin> set (rl_exclude_reason_codes l))"

text \<open>\<open>ORDER BY rejected_at_ns DESC LIMIT 1\<close>: of the rows rejected last, one; here the first stored.\<close>

definition GetCandidateRejection :: "CandidateRejectionLookup \<Rightarrow> queue_db \<Rightarrow> CandidateRejection option" where
  "GetCandidateRejection l q =
     (case filter (lookup_matches l) (q_rejections q) of
        [] \<Rightarrow> None
      | rj # rjs \<Rightarrow> Some (select_best (\<lambda>a b. unix_nano (rj_rejected_at b) < unix_nano (rj_rejected_at a)) rj rjs))"

text \<open>The lookups of \<open>candidateRejection\<close>, in order: under the bare signature and under each rules version.\<close>

definition base_lookup :: "CandidateRejection \<Rightarrow> CandidateRejectionLookup" where
  "base_lookup identity =
     \<lparr>rl_media_id = rj_media_id identity, rl_language = rj_language identity,
      rl_provider_id = rj_provider_id identity, rl_result_id = rj_result_id identity,
      rl_candidate_signature = rj_candidate_signature identity, rl_artifact_checksum = rj_artifact_checksum identity,
      rl_tool_signature = rj_tool_signature identity, rl_media_path = rj_media_path identity,
      rl_media_file_id = rj_media_file_id identity, rl_media_size = rj_media_size identity,
      rl_media_mod_time_ns = rj_media_mod_time_ns identity, rl_exclude_reason_codes = versionedRejectionReasons,
      rl_tool_independent_reason_codes = toolIndependentRejectionReasons\<rparr>"

definition rejection_lookups :: "CandidateRejection \<Rightarrow> CandidateRejectionLookup list" where
  "rejection_lookups identity =
     (let lookup = base_lookup identity
      in lookup # map (\<lambda>suffix. lookup\<lparr>rl_exclude_reason_codes := [],
             rl_candidate_signature := rj_candidate_signature identity @ suffix\<rparr>)
           [rejectionRulesVersion ''invalid_subtitle'', rejectionRulesVersion ''pack_selection'', exhaustedRulesVersion])"

fun first_rejection ::
  "(CandidateRejectionLookup \<Rightarrow> ('e, CandidateRejection option) result) \<Rightarrow> CandidateRejectionLookup list
   \<Rightarrow> ('e, CandidateRejection option) result" where
  "first_rejection get [] = Ok None"
| "first_rejection get (l # ls) =
     (case get l of Err e \<Rightarrow> Err e | Ok (Some rj) \<Rightarrow> Ok (Some rj) | Ok None \<Rightarrow> first_rejection get ls)"

definition candidateRejection ::
  "tooling \<Rightarrow> (CandidateRejectionLookup \<Rightarrow> ('e, CandidateRejection option) result) \<Rightarrow> reject_scope \<Rightarrow> Candidate
   \<Rightarrow> string \<Rightarrow> ('e, CandidateRejection option) result" where
  "candidateRejection T get request candidate artifactChecksum =
     first_rejection get (rejection_lookups (candidateRejectionIdentity T request candidate artifactChecksum))"

section \<open>Recording\<close>

text \<open>
  The row \<open>recordCandidateRejection\<close> stores, or none when the failure is not a rejection. Before a verdict of
  LAPSE is recorded, the media is read; an error of that read is the caller's.
\<close>

definition rejection_row ::
  "tooling \<Rightarrow> gotime \<Rightarrow> reject_scope \<Rightarrow> Candidate \<Rightarrow> string \<Rightarrow> workflow_error \<Rightarrow> CandidateRejection option" where
  "rejection_row T now request candidate artifactChecksum failure =
     (let reasonCode = rejectionReasonCode failure;
          identity = candidateRejectionIdentity T request candidate artifactChecksum;
          version = (if selection_of (candidate_errors failure) = Some ''versions_exhausted'' then exhaustedRulesVersion
                     else rejectionRulesVersion reasonCode)
      in if reasonCode = [] then None
         else Some (identity\<lparr>rj_candidate_signature := rj_candidate_signature identity @ version,
                      rj_reason_code := reasonCode, rj_rejected_at := now\<rparr>))"

definition needs_readable_media :: "workflow_error \<Rightarrow> bool" where
  "needs_readable_media failure \<longleftrightarrow>
     rejectionReasonCode failure = ''lapse_nothing'' \<or> rejectionReasonCode failure = ''lapse_unsure''"

section \<open>LAPSE strikes\<close>

record lapse_strike =
  ls_rejection :: CandidateRejection
  ls_failure_signature :: string
  ls_occurrences :: int
  ls_first_observed_at_ns :: int
  ls_last_observed_at_ns :: int

record rejection_db =
  rd_queue :: queue_db
  rd_strikes :: "lapse_strike list"

text \<open>A strike row keeps of the rejection its identity and fingerprint only.\<close>

definition strike_identity :: "CandidateRejection \<Rightarrow> CandidateRejection" where
  "strike_identity rj = rj\<lparr>rj_reason_code := [], rj_rejected_at := 0\<rparr>"

definition strike_key :: "CandidateRejection \<Rightarrow> string \<Rightarrow> lapse_strike \<Rightarrow> bool" where
  "strike_key rj failureSignature row \<longleftrightarrow>
     ls_rejection row = strike_identity rj \<and> ls_failure_signature row = failureSignature"

definition validateCandidateLapseFailure :: "CandidateRejection \<Rightarrow> string \<Rightarrow> gotime \<Rightarrow> store_error option" where
  "validateCandidateLapseFailure rj failureSignature observedAt =
     (if rj_artifact_checksum rj = [] \<or> failureSignature = [] \<or> is_zero_time observedAt
      then Some ''candidate LAPSE failure artifact, signature, and observation timestamp are required''
      else if rj_media_file_id rj \<le> 0 \<or> rj_media_size rj < 0
      then Some ''candidate LAPSE failure fingerprint is required''
      else if \<not> validateCandidateRejectionIdentity rj
      then Some ''candidate rejection identity and fingerprint are required''
      else None)"

definition record_strike :: "CandidateRejection \<Rightarrow> string \<Rightarrow> gotime \<Rightarrow> lapse_strike list \<Rightarrow> lapse_strike list" where
  "record_strike rj failureSignature observedAt rows =
     sql_upsert (strike_key rj failureSignature) (\<lambda>_. True)
       (\<lambda>row. row\<lparr>ls_occurrences := min 2 (ls_occurrences row + 1), ls_last_observed_at_ns := unix_nano observedAt\<rparr>)
       \<lparr>ls_rejection = strike_identity rj, ls_failure_signature = failureSignature, ls_occurrences = 1,
        ls_first_observed_at_ns = unix_nano observedAt, ls_last_observed_at_ns = unix_nano observedAt\<rparr> rows"

definition occurrences :: "CandidateRejection \<Rightarrow> string \<Rightarrow> lapse_strike list \<Rightarrow> int" where
  "occurrences rj failureSignature rows =
     (case find (strike_key rj failureSignature) rows of None \<Rightarrow> 0 | Some row \<Rightarrow> ls_occurrences row)"

definition RecordCandidateLapseFailure ::
  "CandidateRejection \<Rightarrow> string \<Rightarrow> gotime \<Rightarrow> rejection_db \<Rightarrow> (store_error, bool) result \<times> rejection_db" where
  "RecordCandidateLapseFailure rj failureSignature observedAt db =
     (case validateCandidateLapseFailure rj failureSignature observedAt of
        Some e \<Rightarrow> (Err e, db)
      | None \<Rightarrow>
          if find_media (rd_queue db) (rj_media_id rj) = None then (Err ''FOREIGN KEY constraint failed'', db)
          else
            let rows = record_strike rj failureSignature observedAt (rd_strikes db)
            in if occurrences rj failureSignature rows < 2 then (Ok False, db\<lparr>rd_strikes := rows\<rparr>)
               else case putCandidateRejection
                      (rj\<lparr>rj_reason_code := ''lapse_repeated_empty_exit'', rj_rejected_at := observedAt\<rparr>) (rd_queue db) of
                      Err e \<Rightarrow> (Err e, db)
                    | Ok q \<Rightarrow> (Ok True, \<lparr>rd_queue = q, rd_strikes = sql_delete (strike_key rj failureSignature) rows\<rparr>))"

text \<open>\<open>ClearCandidateRejections\<close> with its strikes, as \<open>search --retry-rejected\<close> runs it.\<close>

definition ClearRejectionsAndStrikes :: "int \<Rightarrow> language \<Rightarrow> rejection_db \<Rightarrow> rejection_db" where
  "ClearRejectionsAndStrikes media_id language db =
     \<lparr>rd_queue = ClearCandidateRejections media_id language (rd_queue db),
      rd_strikes = sql_delete (\<lambda>row. rj_media_id (ls_rejection row) = media_id
        \<and> rj_language (ls_rejection row) = language) (rd_strikes db)\<rparr>"

end
