(* ===== verification/Rejection_Props.thy ===== *)
theory Rejection_Props
  imports Rejections Search_Queue_Props
begin

text \<open>
  What the rejection table is for: a stored rejection counts as active exactly when the lookup a search makes finds
  it, a recorded rejection is found by later searches, and a silent LAPSE exit rejects an artifact the second time.
  The lookup side is proved in the locale \<open>rejection_table\<close> and interpreted on the table of \<open>Search_Queue\<close>; the
  rules version at the end of a signature is found by the regular expression of the code.
\<close>

section \<open>The rules version at the end of a signature\<close>

lemma ends_Text_re:
  "cs \<noteq> [] \<Longrightarrow> ends (Text_re cs) rs i = (if map fst (take (length cs) (drop i rs)) = map of_char cs then [(i + length cs, [])] else [])"
proof (induction cs arbitrary: i rule: Text_re.induct)
  case (2 c)
  then show ?case by (cases "drop i rs") (auto simp: not_less nth_via_drop dest: drop_eq_Nil [THEN iffD1])
next
  case (3 c d cs)
  show ?case
  proof (cases "drop i rs")
    case Nil
    then show ?thesis by simp
  next
    case (Cons r rest)
    then have i: "i < length rs" "rs ! i = r" "drop (Suc i) rs = rest"
      by (auto simp: nth_via_drop intro: leI) (metis drop_all leI list.distinct(1), metis Cons_nth_drop_Suc drop_all leI list.distinct(1) list.inject)
    then show ?thesis using 3 Cons by auto
  qed
qed simp

lemma class_run_all: "class_run p rs i = length rs - i \<longleftrightarrow> (\<forall>r \<in> set (drop i rs). p (fst r))"
  by (metis class_run_def length_drop takeWhile_eq_all_conv takeWhile_eq_take take_all_iff length_takeWhile_le order_refl)

lemma ends_to_finish:
  "(j, g) \<in> set (ends (seq_re [a, b, Finish]) rs i) \<Longrightarrow> j = length rs"
  by (auto split: if_splits)

lemma ends_Then: "ends (Then a b) rs i \<noteq> [] \<longleftrightarrow> (\<exists>j g. (j, g) \<in> set (ends a rs i) \<and> ends b rs j \<noteq> [])"
  by (fastforce simp: concat_eq_Nil_conv)

lemma ends_Repeat: "set (ends (Repeat low None p) rs i) = (\<lambda>k. (i + k, [])) ` {low .. class_run p rs i}"
  by (auto simp: Let_def)

lemma ends_digits:
  "ends (Then (Repeat 1 None p) Finish) rs i \<noteq> [] \<longleftrightarrow> i < length rs \<and> (\<forall>r \<in> set (drop i rs). p (fst r))"
proof -
  have "ends (Then (Repeat 1 None p) Finish) rs i \<noteq> [] \<longleftrightarrow> (\<exists>k. 1 \<le> k \<and> k \<le> class_run p rs i \<and> i + k = length rs)"
    unfolding ends_Then ends_Repeat by (simp add: image_iff Bex_def) metis
  also have "\<dots> \<longleftrightarrow> i < length rs \<and> class_run p rs i = length rs - i"
    using class_run_le [of i p rs] by (auto intro: exI [of _ "length rs - i"])
  finally show ?thesis by (simp add: class_run_all)
qed

lemma infix_split:
  fixes xs :: "nat list" and p :: "nat \<Rightarrow> bool"
  shows "take (length lit) xs = lit \<and> drop (length lit) xs \<noteq> [] \<and> (\<forall>d \<in> set (drop (length lit) xs). p d)
    \<longleftrightarrow> (\<exists>ds. ds \<noteq> [] \<and> xs = lit @ ds \<and> (\<forall>d \<in> set ds. p d))"
  by (metis append_eq_conv_conj append_take_drop_id)

lemma subtitle_infix_ends:
  "ends subtitleRulesInfix rs i \<noteq> [] \<longleftrightarrow>
     (\<exists>ds. ds \<noteq> [] \<and> map fst (drop i rs) = map of_char ''/subtitle-rules-v'' @ ds \<and> (\<forall>d \<in> set ds. digit_class d))"
    (is "?l \<longleftrightarrow> ?r")
proof -
  define lit where "lit = ''/subtitle-rules-v''"
  have ne: "lit \<noteq> []" by (simp add: lit_def)
  have "?l \<longleftrightarrow> map fst (take (length lit) (drop i rs)) = map of_char lit
      \<and> ends (Then (Repeat 1 None digit_class) Finish) rs (i + length lit) \<noteq> []"
    unfolding subtitleRulesInfix_def seq_re.simps lit_def [symmetric] ends_Then [of "Text_re lit"] ends_Text_re [OF ne]
    by simp
  also have "\<dots> \<longleftrightarrow> take (length lit) (map fst (drop i rs)) = map of_char lit
       \<and> drop (length lit) (map fst (drop i rs)) \<noteq> []
       \<and> (\<forall>d \<in> set (drop (length lit) (map fst (drop i rs))). digit_class d)"
    unfolding ends_digits by (auto simp: take_map drop_map add.commute)
  finally show ?thesis
    using infix_split [of "map of_char lit" "map fst (drop i rs)" digit_class] by (simp add: lit_def)
qed

lemma runes_of_ascii: "\<forall>c \<in> set s. byte_val c < (128 :: nat) \<Longrightarrow> runes s = map (\<lambda>c. (byte_val c, [c])) s"
  by (induction s) auto

lemma last_cut_unique:
  "\<lbrakk>b @ x # t = b' @ x # t'; x \<notin> set t; x \<notin> set t'\<rbrakk> \<Longrightarrow> b = b' \<and> t = t'"
  by (auto simp: append_eq_append_conv2 Cons_eq_append_conv append_eq_Cons_conv)


lemma digit_class_byte: "digit_class (byte_val c) \<longleftrightarrow> is_dec c"
  by (simp add: digit_class_def is_dec_def)

text \<open>The rules version at the end of an ASCII text whose last slash starts \<open>t\<close>.\<close>

definition rules_tail :: "string \<Rightarrow> bool" where
  "rules_tail t \<longleftrightarrow> (\<exists>ds. ds \<noteq> [] \<and> t = ''subtitle-rules-v'' @ ds \<and> (\<forall>d \<in> set ds. is_dec d))"

lemma infix_at:
  assumes "\<forall>c \<in> set s. byte_val c < (128 :: nat)"
  shows "ends subtitleRulesInfix (runes s) i \<noteq> [] \<longleftrightarrow> (\<exists>t. drop i s = CHR ''/'' # t \<and> rules_tail t)"
proof -
  have map: "map fst (drop i (runes s)) = map byte_val (drop i s)"
    using runes_of_ascii [OF assms] by (simp add: drop_map o_def)
  have "(\<exists>ds. ds \<noteq> [] \<and> map byte_val (drop i s) = map byte_val ''/subtitle-rules-v'' @ ds \<and> (\<forall>d \<in> set ds. digit_class d))
      \<longleftrightarrow> (\<exists>ds. ds \<noteq> [] \<and> drop i s = ''/subtitle-rules-v'' @ ds \<and> (\<forall>d \<in> set ds. is_dec d))" (is "?l \<longleftrightarrow> ?r")
  proof
    assume ?l
    then obtain ds where ds: "ds \<noteq> []" "map byte_val (drop i s) = map byte_val ''/subtitle-rules-v'' @ ds" "\<forall>d \<in> set ds. digit_class d"
      by blast
    from ds(2) obtain us vs where uv: "drop i s = us @ vs" "map byte_val us = map byte_val ''/subtitle-rules-v''" "map byte_val vs = ds"
      by (auto simp: map_eq_append_conv simp del: list.map)
    have "inj (of_char :: char \<Rightarrow> nat)" by (rule inj_of_char)
    with uv(2) have "us = ''/subtitle-rules-v''" by (metis map_injective)
    with uv ds show ?r by (auto simp: digit_class_byte)
  next
    assume ?r
    then obtain ds where "ds \<noteq> []" "drop i s = ''/subtitle-rules-v'' @ ds" "\<forall>d \<in> set ds. is_dec d" by blast
    then show ?l by (intro exI [of _ "map byte_val ds"]) (auto simp: digit_class_byte)
  qed
  then show ?thesis by (simp add: subtitle_infix_ends map rules_tail_def) blast
qed

lemma find_infix:
  assumes "\<forall>c \<in> set s. byte_val c < (128 :: nat)" "s = b @ CHR ''/'' # t" "CHR ''/'' \<notin> set t"
  shows "find_string subtitleRulesInfix s = (if rules_tail t then CHR ''/'' # t else [])"
proof (cases "find_from subtitleRulesInfix (runes s) 0 (length (runes s))")
  case None
  have "length b \<le> length (runes s)" using runes_of_ascii [OF assms(1)] assms(2) by simp
  then have "ends subtitleRulesInfix (runes s) (length b) = []"
    using find_from_None [OF None, of "length b"] by simp
  then have "\<not> rules_tail t" using infix_at [OF assms(1), of "length b"] assms(2) by simp
  then show ?thesis by (simp add: find_string_def None Let_def)
next
  case (Some m)
  then obtain i j g where m: "find_from subtitleRulesInfix (runes s) 0 (length (runes s)) = Some (i, j, g)"
    by (cases m) auto
  note found = find_from_bounds [OF m]
  then obtain u where u: "drop i s = CHR ''/'' # u" "rules_tail u" using infix_at [OF assms(1), of i] by auto
  have "\<not> is_dec (CHR ''/'')" by (simp add: is_dec_def)
  then have "CHR ''/'' \<notin> set u" using u(2) by (auto simp: rules_tail_def)
  moreover have "take i s @ CHR ''/'' # u = b @ CHR ''/'' # t" using u(1) assms(2) by (metis append_take_drop_id)
  ultimately have t: "u = t" using last_cut_unique assms(3) by metis
  have j: "j = length (runes s)" using found ends_to_finish unfolding subtitleRulesInfix_def by blast
  have "slice_text (runes s) i j = drop i s"
    using runes_of_ascii [OF assms(1)] j by (simp add: slice_text_def drop_map o_def)
  with u t m show ?thesis by (simp add: find_string_def Let_def)
qed

lemma find_infix_none:
  assumes "\<forall>c \<in> set s. byte_val c < (128 :: nat)" "CHR ''/'' \<notin> set s"
  shows "find_string subtitleRulesInfix s = []"
proof -
  have "ends subtitleRulesInfix (runes s) i = []" for i
    using infix_at [OF assms(1), of i] assms(2) by (metis in_set_dropD list.set_intros(1))
  then show ?thesis
    using find_from_bounds [of subtitleRulesInfix "runes s" 0 "length (runes s)"]
    by (cases "find_from subtitleRulesInfix (runes s) 0 (length (runes s))") (auto simp: find_string_def)
qed


section \<open>Stored rejections and lookups\<close>

definition version_text :: "string \<Rightarrow> string \<Rightarrow> bool" where
  "version_text name v \<longleftrightarrow> (\<exists>ds. ds \<noteq> [] \<and> list_all is_dec ds \<and> v = CHR ''/'' # name @ ds)"

text \<open>What \<open>recordCandidateRejection\<close>, of this version or an older one, appends to a signature for a reason.\<close>

definition recorded_version :: "string \<Rightarrow> string \<Rightarrow> bool" where
  "recorded_version reason v \<longleftrightarrow>
     v = []
     \<or> reason = ''invalid_subtitle'' \<and> version_text ''subtitle-rules-v'' v
     \<or> reason = ''pack_selection'' \<and> version_text ''pack-selection-v'' v
     \<or> reason = ''pack_selection'' \<and> (\<exists>a b. version_text ''subtitle-rules-v'' a \<and> version_text ''pack-selection-v'' b \<and> v = a @ b)"

definition hex_text :: "string \<Rightarrow> bool" where
  "hex_text s \<longleftrightarrow> set s \<subseteq> set ''0123456789abcdef''"

lemma hex_no_slash: "hex_text s \<Longrightarrow> CHR ''/'' \<notin> set s"
  by (auto simp: hex_text_def)

lemma hex_ascii: "hex_text s \<Longrightarrow> c \<in> set s \<Longrightarrow> byte_val c < (128 :: nat)"
  unfolding hex_text_def by (drule (1) subsetD) auto

lemma dec_ascii: "is_dec c \<Longrightarrow> byte_val c < (128 :: nat) \<and> c \<noteq> CHR ''/''"
  by (auto simp: is_dec_def)

lemma sv_text: "rejectionRulesVersion ''invalid_subtitle'' = ''/subtitle-rules-v2''"
  by code_simp

lemma pv_text: "rejectionRulesVersion ''pack_selection'' = ''/pack-selection-v3''"
  by code_simp

lemma rules_tail_version: "rules_tail t \<longleftrightarrow> version_text ''subtitle-rules-v'' (CHR ''/'' # t)"
  unfolding rules_tail_def version_text_def list_all_iff append_Cons list.inject by blast

text \<open>Text before the rules versions of a signature: ASCII, and its last part is not a rules version.\<close>

definition bare_key :: "string \<Rightarrow> bool" where
  "bare_key base \<longleftrightarrow> (\<forall>c \<in> set base. byte_val c < (128 :: nat))
     \<and> (\<forall>b t. base = b @ CHR ''/'' # t \<longrightarrow> CHR ''/'' \<notin> set t \<longrightarrow> hd t = CHR ''m'')"

lemma scope_bare_key:
  assumes "hex_text h" "hex_text scope"
  shows "bare_key (h @ scope_suffix scope)"
proof (cases "scope = []")
  case True
  with assms show ?thesis using hex_no_slash [OF assms(1)] hex_ascii [OF assms(1)]
    by (auto simp: bare_key_def scope_suffix_def)
next
  case False
  then have eq: "h @ scope_suffix scope = h @ CHR ''/'' # ''member-'' @ scope" by (simp add: scope_suffix_def)
  have "CHR ''/'' \<notin> set (''member-'' @ scope)" using hex_no_slash [OF assms(2)] by auto
  then have "t = ''member-'' @ scope" if "h @ scope_suffix scope = b @ CHR ''/'' # t" "CHR ''/'' \<notin> set t" for b t
    using that eq last_cut_unique by metis
  then have "hd t = CHR ''m''" if "h @ scope_suffix scope = b @ CHR ''/'' # t" "CHR ''/'' \<notin> set t" for b t
    using that by fastforce
  moreover have "byte_val c < (128 :: nat)" if "c \<in> set (h @ CHR ''/'' # ''member-'' @ scope)" for c
    using that hex_ascii [OF assms(1), of c] hex_ascii [OF assms(2), of c] by auto
  ultimately show ?thesis unfolding bare_key_def eq by blast
qed

lemma has_suffix_iff: "has_suffix s p \<longleftrightarrow> (\<exists>b. s = b @ p)"
  unfolding has_suffix_def by (auto intro: exI [of _ "take (length s - length p) s"]) (metis append_take_drop_id)

lemma trim_suffix_append: "trim_suffix (b @ p) p = b"
  by (simp add: trim_suffix_def has_suffix_def)

lemma has_suffix_cut:
  "CHR ''/'' \<notin> set t \<Longrightarrow> CHR ''/'' \<notin> set t' \<Longrightarrow> has_suffix (b @ CHR ''/'' # t) (CHR ''/'' # t') \<longleftrightarrow> t = t'"
  unfolding has_suffix_iff using last_cut_unique [of b "CHR ''/''" t _ t'] by auto

lemma bare_no_suffix:
  assumes "bare_key base" "CHR ''/'' \<notin> set t" "hd t \<noteq> CHR ''m''"
  shows "\<not> has_suffix base (CHR ''/'' # t)"
  using assms by (auto simp: has_suffix_iff bare_key_def)

lemma version_text_cut:
  assumes "version_text name v" "CHR ''/'' \<notin> set name"
  obtains t where "v = CHR ''/'' # t" "CHR ''/'' \<notin> set t" "\<And>c. c \<in> set t \<Longrightarrow> c \<in> set name \<or> is_dec c"
proof -
  obtain ds where "list_all is_dec ds" "v = CHR ''/'' # name @ ds" using assms(1) by (auto simp: version_text_def)
  with that [of "name @ ds"] assms(2) show ?thesis by (auto simp: list_all_iff dest: dec_ascii)
qed

lemma find_infix_bare:
  assumes "bare_key base"
  shows "find_string subtitleRulesInfix base = []"
proof (cases "CHR ''/'' \<in> set base")
  case True
  then obtain b t where bt: "base = b @ CHR ''/'' # t" "CHR ''/'' \<notin> set t" by (metis split_list_last)
  with assms have "hd t = CHR ''m''" by (simp add: bare_key_def)
  then have "\<not> rules_tail t" by (auto simp: rules_tail_def)
  with find_infix [OF _ bt] assms show ?thesis by (simp add: bare_key_def)
next
  case False
  with assms find_infix_none show ?thesis by (simp add: bare_key_def)
qed

lemma find_infix_version:
  assumes "bare_key base" "version_text ''subtitle-rules-v'' v"
  shows "find_string subtitleRulesInfix (base @ v) = v"
proof -
  obtain t where t: "v = CHR ''/'' # t" "CHR ''/'' \<notin> set t" "\<And>c. c \<in> set t \<Longrightarrow> c \<in> set ''subtitle-rules-v'' \<or> is_dec c"
    using version_text_cut [OF assms(2)] by auto
  have "byte_val c < (128 :: nat)" if "c \<in> set ''subtitle-rules-v''" for c using that by auto
  then have "byte_val c < (128 :: nat)" if "c \<in> set t" for c using t(3) [OF that] dec_ascii by blast
  then have "\<forall>c \<in> set (base @ v). byte_val c < (128 :: nat)"
    using assms(1) t(1) by (auto simp: bare_key_def)
  moreover have "rules_tail t" using assms(2) t(1) by (simp add: rules_tail_version)
  ultimately show ?thesis using find_infix [of "base @ v" base t] t by simp
qed


text \<open>Whether the rules that decided a rejection are the current ones.\<close>

definition rules_current :: "string \<Rightarrow> string \<Rightarrow> bool" where
  "rules_current reason signature =
     (let suffix = rejectionRulesVersion reason
      in if suffix = [] then True
         else if \<not> has_suffix signature suffix then False
         else
           let version = find_string subtitleRulesInfix (trim_suffix signature suffix)
           in if version \<noteq> [] then version = rejectionRulesVersion ''invalid_subtitle'' else True)"

definition current_suffixes :: "string \<Rightarrow> string list" where
  "current_suffixes reason =
     (if reason = ''invalid_subtitle'' then [rejectionRulesVersion ''invalid_subtitle'']
      else if reason = ''pack_selection'' then [rejectionRulesVersion ''pack_selection'', exhaustedRulesVersion]
      else [[]])"

lemma version_suffix:
  assumes "version_text name v" "CHR ''/'' \<notin> set name" "CHR ''/'' \<notin> set t"
  shows "has_suffix (base @ v) (CHR ''/'' # t) \<longleftrightarrow> v = CHR ''/'' # t"
proof -
  obtain u where "v = CHR ''/'' # u" "CHR ''/'' \<notin> set u" using version_text_cut [OF assms(1,2)] by blast
  then show ?thesis using has_suffix_cut [of u t base] assms(3) by simp
qed

lemma recorded_versionE:
  assumes "recorded_version reason v"
  obtains (bare) "v = []"
    | (content) "reason = ''invalid_subtitle''" "version_text ''subtitle-rules-v'' v"
    | (pack) "reason = ''pack_selection''" "version_text ''pack-selection-v'' v"
    | (both) a b where "reason = ''pack_selection''" "version_text ''subtitle-rules-v'' a" "version_text ''pack-selection-v'' b" "v = a @ b"
  using assms unfolding recorded_version_def by (elim disjE exE conjE)

lemma rules_current_bare:
  assumes "bare_key base"
  shows "rules_current reason base \<longleftrightarrow> [] \<in> set (current_suffixes reason)"
proof -
  have "CHR ''/'' \<notin> set ''subtitle-rules-v2''" "CHR ''/'' \<notin> set ''pack-selection-v3''" by auto
  then have "\<not> has_suffix base ''/subtitle-rules-v2''" "\<not> has_suffix base ''/pack-selection-v3''"
    using bare_no_suffix [OF assms] by simp_all
  then have none: "\<not> has_suffix base (rejectionRulesVersion ''invalid_subtitle'')" "\<not> has_suffix base (rejectionRulesVersion ''pack_selection'')"
    unfolding sv_text pv_text .
  have ne: "rejectionRulesVersion ''invalid_subtitle'' \<noteq> []" "rejectionRulesVersion ''pack_selection'' \<noteq> []"
    by (simp_all add: sv_text pv_text)
  have "rejectionRulesVersion reason = [] \<and> current_suffixes reason = [[]]"
    if "reason \<noteq> ''invalid_subtitle''" "reason \<noteq> ''pack_selection''"
    using that by (simp add: rejectionRulesVersion_def current_suffixes_def)
  then consider "reason = ''invalid_subtitle''" | "reason = ''pack_selection''"
    | "rejectionRulesVersion reason = []" "current_suffixes reason = [[]]"
    by blast
  then show ?thesis
    using none ne by cases (simp_all add: rules_current_def current_suffixes_def exhaustedRulesVersion_def Let_def)
qed

lemma rules_current_iff:
  assumes "bare_key base" "recorded_version reason v"
  shows "rules_current reason (base @ v) \<longleftrightarrow> v \<in> set (current_suffixes reason)"
proof -
  have ns: "CHR ''/'' \<notin> set ''subtitle-rules-v''" "CHR ''/'' \<notin> set ''pack-selection-v''"
    "CHR ''/'' \<notin> set ''subtitle-rules-v2''" "CHR ''/'' \<notin> set ''pack-selection-v3''" by auto
  note simps = rules_current_def current_suffixes_def exhaustedRulesVersion_def sv_text pv_text Let_def
  from assms(2) show ?thesis
  proof (cases rule: recorded_versionE)
    case bare
    then show ?thesis using rules_current_bare [OF assms(1)] by simp
  next
    case content
    then have "has_suffix (base @ v) ''/subtitle-rules-v2'' \<longleftrightarrow> v = ''/subtitle-rules-v2''"
      using version_suffix [OF _ ns(1,3)] by blast
    then show ?thesis using content(1) trim_suffix_append [of base "''/subtitle-rules-v2''"] find_infix_bare [OF assms(1)]
      by (auto simp: simps)
  next
    case pack
    then have "has_suffix (base @ v) ''/pack-selection-v3'' \<longleftrightarrow> v = ''/pack-selection-v3''"
      using version_suffix [OF _ ns(2,4)] by blast
    moreover have "v \<noteq> ''/subtitle-rules-v2/pack-selection-v3''" using pack(2) by (auto simp: version_text_def)
    ultimately show ?thesis using pack(1) trim_suffix_append [of base "''/pack-selection-v3''"] find_infix_bare [OF assms(1)]
      by (auto simp: simps)
  next
    case (both a b)
    define sv where "sv = rejectionRulesVersion ''invalid_subtitle''"
    define pv where "pv = rejectionRulesVersion ''pack_selection''"
    have cur: "current_suffixes reason = [pv, sv @ pv]"
      by (simp add: both(1) current_suffixes_def exhaustedRulesVersion_def sv_def pv_def)
    have rules: "rules_current reason (base @ v) \<longleftrightarrow> has_suffix (base @ v) pv
       \<and> (find_string subtitleRulesInfix (trim_suffix (base @ v) pv) \<noteq> []
          \<longrightarrow> find_string subtitleRulesInfix (trim_suffix (base @ v) pv) = sv)"
      by (auto simp: both(1) rules_current_def Let_def sv_def pv_def pv_text)
    have pv: "version_text ''pack-selection-v'' pv" by (simp add: pv_def pv_text version_text_def is_dec_def)
    have b: "has_suffix (base @ v) pv \<longleftrightarrow> b = pv"
      using version_suffix [OF both(3) ns(2,4), of "base @ a"] both(4) by (simp add: pv_def pv_text)
    have a: "find_string subtitleRulesInfix (base @ a) = a" "a \<noteq> []"
      using find_infix_version [OF assms(1) both(2)] both(2) by (auto simp: version_text_def)
    have "v \<noteq> pv" using both pv by (auto simp: version_text_def)
    moreover have "b = pv" if "v = sv @ pv" using b that has_suffix_iff by (metis append_assoc)
    moreover have "trim_suffix (base @ v) pv = base @ a" if "b = pv"
      using that both(4) trim_suffix_append [of "base @ a" pv] by simp
    moreover have "v = sv @ pv \<longleftrightarrow> a = sv" if "b = pv" using that both(4) by simp
    ultimately show ?thesis unfolding rules cur set_simps using a b by (cases "b = pv") auto
  qed
qed


section \<open>The store behind the lookups\<close>

text \<open>
  What \<open>candidateRejection\<close> needs of the table: a lookup answers a row of the table that its conditions fit, and
  answers none only when no row fits.
\<close>

locale rejection_table =
  fixes get :: "CandidateRejectionLookup \<Rightarrow> 'db \<Rightarrow> CandidateRejection option"
    and rows :: "'db \<Rightarrow> CandidateRejection list"
  assumes get_fits: "get l db = Some rj \<Longrightarrow> rj \<in> set (rows db) \<and> lookup_matches l rj"
    and get_none: "\<lbrakk>get l db = None; rj \<in> set (rows db)\<rbrakk> \<Longrightarrow> \<not> lookup_matches l rj"
begin

lemma get_iff: "(\<exists>rj. get l db = Some rj) \<longleftrightarrow> (\<exists>rj \<in> set (rows db). lookup_matches l rj)"
  using get_fits get_none by (metis option.exhaust)

lemma first_rejection_iff:
  "(\<exists>rj. first_rejection (\<lambda>l. Ok (get l db)) ls = Ok (Some rj))
     \<longleftrightarrow> (\<exists>l \<in> set ls. \<exists>rj \<in> set (rows db). lookup_matches l rj)"
proof (induction ls)
  case (Cons l ls)
  then show ?case using get_iff [of l db] by (cases "get l db") auto
qed simp

lemma candidateRejection_iff:
  "(\<exists>rj. candidateRejection T (\<lambda>l. Ok (get l db)) request candidate artifact = Ok (Some rj))
     \<longleftrightarrow> (\<exists>rj \<in> set (rows db). \<exists>l \<in> set (rejection_lookups (candidateRejectionIdentity T request candidate artifact)).
          lookup_matches l rj)"
  unfolding candidateRejection_def first_rejection_iff by blast

end

interpretation latest_rejection: strict_weak_order "\<lambda>a b. unix_nano (rj_rejected_at b) < unix_nano (rj_rejected_at a)"
  by unfold_locales auto

interpretation stored_rejections: rejection_table GetCandidateRejection q_rejections
proof
  fix l db rj
  assume "GetCandidateRejection l db = Some rj"
  then obtain r rs where f: "filter (lookup_matches l) (q_rejections db) = r # rs"
    and "rj = select_best (\<lambda>a b. unix_nano (rj_rejected_at b) < unix_nano (rj_rejected_at a)) r rs"
    by (auto simp: GetCandidateRejection_def split: list.splits)
  then have "rj \<in> set (filter (lookup_matches l) (q_rejections db))"
    unfolding f using latest_rejection.select_best_in by metis
  then show "rj \<in> set (q_rejections db) \<and> lookup_matches l rj" by simp
next
  fix l db rj
  assume "GetCandidateRejection l db = None" "rj \<in> set (q_rejections db)"
  then show "\<not> lookup_matches l rj"
    by (auto simp: GetCandidateRejection_def filter_empty_conv split: list.splits)
qed


section \<open>Active rejections are the ones a lookup finds\<close>

definition rule_suffixes :: "string list" where
  "rule_suffixes = [rejectionRulesVersion ''invalid_subtitle'', rejectionRulesVersion ''pack_selection'', exhaustedRulesVersion]"

text \<open>A stored row is about the candidate (and, for the program's own rejections, about its artifact).\<close>

definition concerns :: "CandidateRejection \<Rightarrow> CandidateRejection \<Rightarrow> bool" where
  "concerns identity rj \<longleftrightarrow>
     rj_media_id rj = rj_media_id identity \<and> rj_language rj = rj_language identity
     \<and> rj_provider_id rj = rj_provider_id identity \<and> rj_result_id rj = rj_result_id identity
     \<and> (if IsUserRejection (rj_reason_code rj)
        then rj_candidate_signature rj = rj_candidate_signature identity \<or> rj_candidate_signature rj = AnyCandidateSignature
        else (\<exists>v. recorded_version (rj_reason_code rj) v \<and> rj_candidate_signature rj = rj_candidate_signature identity @ v)
             \<and> (rj_artifact_checksum identity = [] \<or> rj_artifact_checksum rj = rj_artifact_checksum identity))"

lemma some_lookup_matches:
  "(\<exists>l \<in> set (rejection_lookups identity). lookup_matches l rj) \<longleftrightarrow>
     same_candidate_file (base_lookup identity) rj
     \<and> (userReasonSQL (rj_reason_code rj)
          \<and> (rj_candidate_signature rj = AnyCandidateSignature
             \<or> (\<exists>v \<in> set ([] # rule_suffixes). rj_candidate_signature rj = rj_candidate_signature identity @ v))
        \<or> (rj_tool_signature rj = rj_tool_signature identity \<or> \<not> rejectionFollowsTool (rj_reason_code rj))
          \<and> (rj_artifact_checksum identity \<noteq> [] \<longrightarrow> rj_artifact_checksum rj = rj_artifact_checksum identity)
          \<and> (\<exists>v \<in> set ([] # rule_suffixes). rj_candidate_signature rj = rj_candidate_signature identity @ v
               \<and> (v = [] \<longrightarrow> rj_reason_code rj \<notin> set versionedRejectionReasons)))"
proof -
  have ne: "v \<noteq> []" if "v \<in> set rule_suffixes" for v
    using that by (auto simp: rule_suffixes_def exhaustedRulesVersion_def sv_text pv_text)
  have "lookup_matches ((base_lookup identity)\<lparr>rl_exclude_reason_codes := x, rl_candidate_signature := y\<rparr>) rj \<longleftrightarrow>
      same_candidate_file (base_lookup identity) rj
      \<and> (userReasonSQL (rj_reason_code rj) \<and> (rj_candidate_signature rj = y \<or> rj_candidate_signature rj = AnyCandidateSignature)
         \<or> rj_candidate_signature rj = y
           \<and> (rj_tool_signature rj = rj_tool_signature identity \<or> \<not> rejectionFollowsTool (rj_reason_code rj))
           \<and> (rj_artifact_checksum identity \<noteq> [] \<longrightarrow> rj_artifact_checksum rj = rj_artifact_checksum identity)
           \<and> rj_reason_code rj \<notin> set x)" for x y
    by (simp add: lookup_matches_def same_candidate_file_def base_lookup_def rejectionFollowsTool_def)
  note matches = this
  have base: "base_lookup identity = (base_lookup identity)\<lparr>rl_exclude_reason_codes := versionedRejectionReasons,
      rl_candidate_signature := rj_candidate_signature identity\<rparr>"
    by (simp add: base_lookup_def)
  have lookups: "set (rejection_lookups identity) =
      insert ((base_lookup identity)\<lparr>rl_exclude_reason_codes := versionedRejectionReasons, rl_candidate_signature := rj_candidate_signature identity\<rparr>)
        ((\<lambda>v. (base_lookup identity)\<lparr>rl_exclude_reason_codes := [], rl_candidate_signature := rj_candidate_signature identity @ v\<rparr>) ` set rule_suffixes)"
    unfolding rejection_lookups_def Let_def base [symmetric] rule_suffixes_def by simp
  show ?thesis
    unfolding lookups bex_simps image_iff ball_simps matches set_simps using ne by (auto simp: matches)
qed


lemma current_suffixes_alt:
  assumes "recorded_version reason v"
  shows "v \<in> set (current_suffixes reason) \<longleftrightarrow>
     v \<in> set ([] # rule_suffixes) \<and> (v = [] \<longrightarrow> reason \<notin> set versionedRejectionReasons)"
proof -
  have ne: "[] \<notin> set rule_suffixes"
    by (auto simp: rule_suffixes_def exhaustedRulesVersion_def sv_text pv_text)
  from assms show ?thesis
  proof (cases rule: recorded_versionE)
    case bare
    then show ?thesis using ne
      by (simp add: current_suffixes_def versionedRejectionReasons_def sv_text pv_text exhaustedRulesVersion_def)
  next
    case content
    then have "v \<noteq> []" "v \<noteq> rejectionRulesVersion ''pack_selection''" "v \<noteq> exhaustedRulesVersion"
      by (auto simp: version_text_def exhaustedRulesVersion_def sv_text pv_text is_dec_def)
    with content(1) show ?thesis by (simp add: current_suffixes_def rule_suffixes_def)
  next
    case pack
    then have "v \<noteq> []" "v \<noteq> rejectionRulesVersion ''invalid_subtitle''"
      by (auto simp: version_text_def sv_text)
    with pack(1) show ?thesis by (simp add: current_suffixes_def rule_suffixes_def)
  next
    case (both a b)
    have "v \<noteq> []" using both by (auto simp: version_text_def)
    moreover have "v \<noteq> rejectionRulesVersion ''invalid_subtitle''"
    proof
      assume v: "v = rejectionRulesVersion ''invalid_subtitle''"
      have "length (filter (\<lambda>c. c = CHR ''/'') v) = 1" by (simp add: v sv_text)
      moreover have "CHR ''/'' \<in> set a" "CHR ''/'' \<in> set b" using both by (auto simp: version_text_def)
      then have "filter (\<lambda>c. c = CHR ''/'') a \<noteq> []" "filter (\<lambda>c. c = CHR ''/'') b \<noteq> []" by (auto simp: filter_empty_conv)
      ultimately show False using both(4) by (cases "filter (\<lambda>c. c = CHR ''/'') a"; cases "filter (\<lambda>c. c = CHR ''/'') b") auto
    qed
    ultimately show ?thesis using both(1) by (simp add: current_suffixes_def rule_suffixes_def)
  qed
qed

lemma suffix_not_member: "v \<in> set rule_suffixes \<Longrightarrow> \<not> has_prefix v ''/member-''"
  by (auto simp: rule_suffixes_def exhaustedRulesVersion_def sv_text pv_text has_prefix_def)

lemma user_no_version: "\<lbrakk>IsUserRejection reason; recorded_version reason v\<rbrakk> \<Longrightarrow> v = []"
  by (auto simp: recorded_version_def IsUserRejection_def UserRejectionPrefix_def has_prefix_def)

lemma RejectionActive_alt:
  "RejectionActive T rj fp \<longleftrightarrow> same_file rj fp \<and> (IsUserRejection (rj_reason_code rj)
     \<or> (rejectionFollowsTool (rj_reason_code rj) \<longrightarrow> rj_tool_signature rj = RejectionToolSignature T)
       \<and> rules_current (rj_reason_code rj) (rj_candidate_signature rj))"
  by (simp add: RejectionActive_def rules_current_def Let_def)

text \<open>The premises on a stored row: its reason is the owner's in SQL and in Go alike, and its signature was built by the program.\<close>

definition recorded_row :: "string \<Rightarrow> CandidateRejection \<Rightarrow> bool" where
  "recorded_row key rj \<longleftrightarrow>
     (userReasonSQL (rj_reason_code rj) \<longleftrightarrow> IsUserRejection (rj_reason_code rj))
     \<and> (\<forall>v. rj_candidate_signature rj = key @ v \<longrightarrow> recorded_version (rj_reason_code rj) v \<or> has_prefix v ''/member-'')"

lemma row_active_iff:
  fixes request :: reject_scope and candidate :: Candidate and artifact :: string and T :: tooling
  defines "identity \<equiv> candidateRejectionIdentity T request candidate artifact"
  assumes key: "bare_key (rj_candidate_signature identity)"
    and row: "recorded_row (rj_candidate_signature identity) rj"
  shows "(\<exists>l \<in> set (rejection_lookups identity). lookup_matches l rj) \<longleftrightarrow>
     concerns identity rj \<and> RejectionActive T rj (m_fingerprint (rk_media request))"
proof -
  let ?key = "rj_candidate_signature identity" and ?r = "rj_reason_code rj" and ?s = "rj_candidate_signature rj"
  let ?fp = "m_fingerprint (rk_media request)"
  have here: "same_candidate_file (base_lookup identity) rj \<longleftrightarrow>
      rj_media_id rj = rj_media_id identity \<and> rj_language rj = rj_language identity
      \<and> rj_provider_id rj = rj_provider_id identity \<and> rj_result_id rj = rj_result_id identity \<and> same_file rj ?fp"
    by (simp add: same_candidate_file_def base_lookup_def same_file_def identity_def candidateRejectionIdentity_def Let_def)
  have tool: "rj_tool_signature identity = RejectionToolSignature T"
    by (simp add: identity_def candidateRejectionIdentity_def Let_def)
  have sql: "userReasonSQL ?r \<longleftrightarrow> IsUserRejection ?r"
    and built: "\<And>v. ?s = ?key @ v \<Longrightarrow> recorded_version ?r v \<or> has_prefix v ''/member-''"
    using row by (auto simp: recorded_row_def)
  have rec: "recorded_version ?r v" if "v \<in> set ([] # rule_suffixes)" "?s = ?key @ v" for v
    using built [OF that(2)] suffix_not_member that(1) by (auto simp: recorded_version_def [of _ "[]"])
  show ?thesis
  proof (cases "IsUserRejection ?r")
    case True
    have "(\<exists>v \<in> set ([] # rule_suffixes). ?s = ?key @ v) \<longleftrightarrow> ?s = ?key"
      using rec user_no_version [OF True] by auto
    then show ?thesis
      unfolding some_lookup_matches here concerns_def RejectionActive_alt sql using True by auto
  next
    case False
    have eq: "(\<exists>v \<in> set ([] # rule_suffixes). ?s = ?key @ v \<and> (v = [] \<longrightarrow> ?r \<notin> set versionedRejectionReasons))
        \<longleftrightarrow> (\<exists>v. recorded_version ?r v \<and> ?s = ?key @ v) \<and> rules_current ?r ?s"
      using rec current_suffixes_alt rules_current_iff [OF key] by metis
    show ?thesis
      unfolding some_lookup_matches here concerns_def RejectionActive_alt sql tool eq if_not_P [OF False]
      using False by blast
  qed
qed


text \<open>C6: a stored rejection counts as active for a media file exactly when it is one that a search's own lookup of the
  candidate finds. The rows with the candidate's signature are taken to carry the rules versions that recording
  appends, and SHA-256 and member checksums to be hexadecimal.\<close>

theorem rejection_active_as_looked_up:
  assumes "\<And>x. hex_text (tl_sha256 T x)" "hex_text (rk_member_scope request)"
    and rows: "\<And>rj. rj \<in> set (q_rejections q)
      \<Longrightarrow> recorded_row (rj_candidate_signature (candidateRejectionIdentity T request candidate artifact)) rj"
  shows "(\<exists>rj. candidateRejection T (\<lambda>l. Ok (GetCandidateRejection l q)) request candidate artifact = Ok (Some rj))
     \<longleftrightarrow> (\<exists>rj \<in> set (q_rejections q). concerns (candidateRejectionIdentity T request candidate artifact) rj
           \<and> RejectionActive T rj (m_fingerprint (rk_media request)))"
proof -
  have "bare_key (rj_candidate_signature (candidateRejectionIdentity T request candidate artifact))"
    using scope_bare_key [OF assms(1,2)] by (simp add: candidateRejectionIdentity_def candidateSignature_def Let_def)
  then show ?thesis
    unfolding stored_rejections.candidateRejection_iff using row_active_iff rows by blast
qed

definition sample_tooling :: tooling where
  "sample_tooling = \<lparr>tl_json_candidate = (\<lambda>_. ''{}''), tl_json_member = (\<lambda>_. ''{}''), tl_sha256 = (\<lambda>_. ''ab''),
     tl_policy_sum = (\<lambda>_. ''cd''), tl_baseline = Some ''1'', tl_policy = DefaultLapsePolicy\<rparr>"

definition sample_scope :: reject_scope where
  "sample_scope = \<lparr>rk_media_id = 1, rk_media = zero_media\<lparr>m_fingerprint := \<lparr>fp_path = ''/m'', fp_file_id = 1, fp_size = 1,
     fp_mod_time = unix_epoch\<rparr>\<rparr>, rk_language = ''en'', rk_member_scope = []\<rparr>"

definition sample_candidate :: Candidate where
  "sample_candidate = zero_candidate\<lparr>c_provider_id := ''p'', c_result_id := ''1''\<rparr>"

definition sample_rejection :: CandidateRejection where
  "sample_rejection = (candidateRejectionIdentity sample_tooling sample_scope sample_candidate ''ef'')
     \<lparr>rj_candidate_signature := ''ab/subtitle-rules-v2'', rj_reason_code := ''invalid_subtitle'', rj_rejected_at := unix_epoch\<rparr>"

theorem rejection_active_as_looked_up_witness:
  "(\<exists>rj. candidateRejection sample_tooling (\<lambda>l. Ok (GetCandidateRejection l (sample_queue\<lparr>q_rejections := [sample_rejection]\<rparr>)))
       sample_scope sample_candidate ''ef'' = (Ok (Some rj) :: (string, CandidateRejection option) result))
     \<longleftrightarrow> (\<exists>rj \<in> set (q_rejections (sample_queue\<lparr>q_rejections := [sample_rejection]\<rparr>)).
           concerns (candidateRejectionIdentity sample_tooling sample_scope sample_candidate ''ef'') rj
           \<and> RejectionActive sample_tooling rj (m_fingerprint (rk_media sample_scope)))"
proof -
  have "hex_text (tl_sha256 sample_tooling x)" for x by (simp add: sample_tooling_def hex_text_def)
  moreover have "hex_text (rk_member_scope sample_scope)" by (simp add: sample_scope_def hex_text_def)
  moreover have "recorded_row (rj_candidate_signature (candidateRejectionIdentity sample_tooling sample_scope sample_candidate ''ef'')) rj"
    if "rj \<in> set (q_rejections (sample_queue\<lparr>q_rejections := [sample_rejection]\<rparr>))" for rj
    using that by (simp add: sample_rejection_def recorded_row_def candidateRejectionIdentity_def candidateSignature_def
      Let_def sample_tooling_def sample_scope_def zero_media_def scope_suffix_def recorded_version_def version_text_def
      userReasonSQL_def IsUserRejection_def UserRejectionPrefix_def is_dec_def text_eval ascii_lower_def MediaEpisode_def)
  ultimately show ?thesis by (rule rejection_active_as_looked_up)
qed

section \<open>A recorded rejection is found again\<close>

text \<open>
  What may happen to the table while the media file stays the same and neither its automatic rejections
  (\<open>search --retry-rejected\<close>) nor its owner's verdicts are cleared: every operation of the queue, every rejection the
  program records for any candidate, and the recording of empty LAPSE runs.
\<close>

definition for_file :: "reject_scope \<Rightarrow> CandidateRejection \<Rightarrow> bool" where
  "for_file request rj \<longleftrightarrow> rj_media_id rj \<noteq> rk_media_id request \<or> same_file rj (m_fingerprint (rk_media request))"

inductive rejection_step :: "repository \<Rightarrow> reject_scope \<Rightarrow> queue_db \<Rightarrow> queue_db \<Rightarrow> bool" for rp request where
  step_op: "\<lbrakk>\<And>i l. op = QClearReject i l \<Longrightarrow> (i, l) \<noteq> (rk_media_id request, rk_language request);
     \<And>rj now j lease h. op = QReject rj now j lease h \<Longrightarrow> for_file request rj\<rbrakk>
     \<Longrightarrow> rejection_step rp request q (queue_apply rp op q)"
| step_put: "\<lbrakk>rejection_row T' now request' candidate artifact failure = Some new; for_file request new;
     PutCandidateRejection new q = Ok q'\<rbrakk> \<Longrightarrow> rejection_step rp request q q'"
| step_lapse: "\<lbrakk>RecordCandidateLapseFailure new failureSignature now db = (answer, db'); for_file request new\<rbrakk>
     \<Longrightarrow> rejection_step rp request (rd_queue db) (rd_queue db')"
| step_clear: "(i, l) \<noteq> (rk_media_id request, rk_language request) \<Longrightarrow> rejection_step rp request q (ClearCandidateRejections i l q)"

text \<open>A row that a lookup with the identity finds.\<close>

definition finding_row :: "CandidateRejection \<Rightarrow> string \<Rightarrow> string \<Rightarrow> CandidateRejection \<Rightarrow> bool" where
  "finding_row identity artifact v row \<longleftrightarrow>
     same_candidate_file (base_lookup identity) row \<and> rj_candidate_signature row = rj_candidate_signature identity @ v
     \<and> rj_tool_signature row = rj_tool_signature identity \<and> rj_artifact_checksum row = artifact
     \<and> (userReasonSQL (rj_reason_code row) \<or> v \<noteq> [] \<or> rj_reason_code row \<notin> set versionedRejectionReasons)"

lemma finding_row_found:
  assumes "finding_row (candidateRejectionIdentity T request candidate artifact') artifact v row" "v \<in> set ([] # rule_suffixes)"
    and "row \<in> set (q_rejections q)" "artifact' = [] \<or> artifact' = artifact"
  shows "\<exists>rj. candidateRejection T (\<lambda>l. Ok (GetCandidateRejection l q)) request candidate artifact' = Ok (Some rj)"
proof -
  have "rj_artifact_checksum (candidateRejectionIdentity T request candidate artifact') = artifact'"
    by (simp add: candidateRejectionIdentity_def Let_def)
  then have "\<exists>l \<in> set (rejection_lookups (candidateRejectionIdentity T request candidate artifact')). lookup_matches l row"
    unfolding some_lookup_matches
  proof (intro conjI)
    show "same_candidate_file (base_lookup (candidateRejectionIdentity T request candidate artifact')) row"
      using assms(1) by (simp add: finding_row_def)
    have sig: "\<exists>v \<in> set ([] # rule_suffixes). rj_candidate_signature row = rj_candidate_signature (candidateRejectionIdentity T request candidate artifact') @ v"
      using assms(1,2) unfolding finding_row_def by blast
    show "userReasonSQL (rj_reason_code row) \<and> (rj_candidate_signature row = AnyCandidateSignature \<or>
        (\<exists>v \<in> set ([] # rule_suffixes). rj_candidate_signature row = rj_candidate_signature (candidateRejectionIdentity T request candidate artifact') @ v))
      \<or> (rj_tool_signature row = rj_tool_signature (candidateRejectionIdentity T request candidate artifact') \<or> \<not> rejectionFollowsTool (rj_reason_code row))
        \<and> (rj_artifact_checksum (candidateRejectionIdentity T request candidate artifact') \<noteq> [] \<longrightarrow>
            rj_artifact_checksum row = rj_artifact_checksum (candidateRejectionIdentity T request candidate artifact'))
        \<and> (\<exists>v \<in> set ([] # rule_suffixes). rj_candidate_signature row = rj_candidate_signature (candidateRejectionIdentity T request candidate artifact') @ v
             \<and> (v = [] \<longrightarrow> rj_reason_code row \<notin> set versionedRejectionReasons))"
    proof (cases "userReasonSQL (rj_reason_code row)")
      case True
      with sig show ?thesis by blast
    next
      case False
      have e: "\<exists>v \<in> set ([] # rule_suffixes). rj_candidate_signature row = rj_candidate_signature (candidateRejectionIdentity T request candidate artifact') @ v
             \<and> (v = [] \<longrightarrow> rj_reason_code row \<notin> set versionedRejectionReasons)"
        using assms(1) False by (intro bexI [OF _ assms(2)]) (auto simp: finding_row_def)
      have tool: "rj_tool_signature row = rj_tool_signature (candidateRejectionIdentity T request candidate artifact')"
        and art: "rj_artifact_checksum row = artifact" using assms(1) by (simp_all add: finding_row_def)
      have "rj_artifact_checksum (candidateRejectionIdentity T request candidate artifact') \<noteq> [] \<longrightarrow>
            rj_artifact_checksum row = rj_artifact_checksum (candidateRejectionIdentity T request candidate artifact')"
        using assms(4) art \<open>_ = artifact'\<close> by auto
      then show ?thesis by (rule disjI2 [OF conjI [OF disjI1 [OF tool] conjI [OF _ e]]])
    qed
  qed
  then show ?thesis unfolding stored_rejections.candidateRejection_iff using assms(3) by blast
qed

lemma put_finding:
  assumes row: "row \<in> set (q_rejections q)" "finding_row identity artifact v row"
    and put: "putCandidateRejection new q = Ok q'"
    and same: "rj_media_id new = rj_media_id identity \<Longrightarrow> same_candidate_file (base_lookup identity)
        (new\<lparr>rj_language := rj_language identity, rj_provider_id := rj_provider_id identity, rj_result_id := rj_result_id identity\<rparr>)"
    and reason: "\<lbrakk>v = []; rj_candidate_signature new = rj_candidate_signature identity\<rbrakk>
      \<Longrightarrow> userReasonSQL (rj_reason_code new) \<or> rj_reason_code new \<notin> set versionedRejectionReasons"
  shows "\<exists>row' \<in> set (q_rejections q'). finding_row identity artifact v row'"
proof -
  let ?f = "\<lambda>old. new\<lparr>rj_reason_code := (if userReasonSQL (rj_reason_code old) then rj_reason_code old else rj_reason_code new)\<rparr>"
  have q': "q_rejections q' = sql_upsert (same_rejection new) (\<lambda>_. True) ?f new (q_rejections q)"
    using put by (auto simp: putCandidateRejection_def split: if_split_asm)
  show ?thesis
  proof (cases "same_rejection new row")
    case False
    with row(1) have "row \<in> set (q_rejections q')" by (auto simp: q' sql_upsert_def intro: sql_update_frame)
    with row(2) show ?thesis by blast
  next
    case True
    with row(1) have hit: "?f row \<in> set (q_rejections q')"
      using sql_update_hit [of row "q_rejections q" "same_rejection new" ?f] by (auto simp: q' sql_upsert_def)
    have "same_candidate_file (base_lookup identity) (?f row)"
      using True row(2) same by (auto simp: finding_row_def same_rejection_def same_candidate_file_def base_lookup_def)
    moreover have "rj_candidate_signature (?f row) = rj_candidate_signature identity @ v"
      "rj_tool_signature (?f row) = rj_tool_signature identity" "rj_artifact_checksum (?f row) = artifact"
      using True row(2) by (simp_all add: finding_row_def same_rejection_def)
    moreover have "userReasonSQL (rj_reason_code (?f row)) \<or> v \<noteq> [] \<or> rj_reason_code (?f row) \<notin> set versionedRejectionReasons"
      using True row(2) reason by (auto simp: finding_row_def same_rejection_def)
    ultimately have "finding_row identity artifact v (?f row)" unfolding finding_row_def by blast
    with hit show ?thesis by blast
  qed
qed

lemma user_reason: "IsUserRejection reason \<Longrightarrow> userReasonSQL reason"
proof -
  assume "IsUserRejection reason"
  then obtain rest where "reason = ''user_'' @ rest"
    by (auto simp: IsUserRejection_def UserRejectionPrefix_def has_prefix_iff)
  then show ?thesis by (simp add: userReasonSQL_def UserRejectionPrefix_def ascii_lower_def text_eval)
qed

lemma last_part:
  assumes "bare_key (base @ CHR ''/'' # t)" "CHR ''/'' \<notin> set t"
  shows "hd t = CHR ''m''"
  using assms unfolding bare_key_def by blast

lemma recorded_reason:
  assumes row: "rejection_row T' now request' candidate artifact failure = Some new"
    and key: "bare_key (rj_candidate_signature new)"
  shows "rj_reason_code new \<notin> set versionedRejectionReasons"
proof
  assume versioned: "rj_reason_code new \<in> set versionedRejectionReasons"
  define base where "base = rj_candidate_signature (candidateRejectionIdentity T' request' candidate artifact)"
  define v where "v = (if selection_of (candidate_errors failure) = Some ''versions_exhausted'' then exhaustedRulesVersion
                     else rejectionRulesVersion (rejectionReasonCode failure))"
  have new: "rj_candidate_signature new = base @ v" "rj_reason_code new = rejectionReasonCode failure"
    using row unfolding rejection_row_def Let_def v_def [symmetric] base_def [symmetric]
    by (cases "rejectionReasonCode failure = []"; simp; fastforce)+
  consider "v = exhaustedRulesVersion" | "v = rejectionRulesVersion ''invalid_subtitle''" | "v = rejectionRulesVersion ''pack_selection''"
    using versioned new(2) unfolding v_def versionedRejectionReasons_def by (simp split: if_split_asm) metis
  then show False
  proof cases
    case 1
    then have "rj_candidate_signature new = (base @ ''/subtitle-rules-v2'') @ CHR ''/'' # ''pack-selection-v3''"
      by (simp add: new(1) exhaustedRulesVersion_def sv_text pv_text)
    with key last_part [of "base @ ''/subtitle-rules-v2''" "''pack-selection-v3''"] show False by simp
  next
    case 2
    then have "rj_candidate_signature new = base @ CHR ''/'' # ''subtitle-rules-v2''" by (simp add: new(1) sv_text)
    with key last_part [of base "''subtitle-rules-v2''"] show False by simp
  next
    case 3
    then have "rj_candidate_signature new = base @ CHR ''/'' # ''pack-selection-v3''" by (simp add: new(1) pv_text)
    with key last_part [of base "''pack-selection-v3''"] show False by simp
  qed
qed

lemma lapse_queue:
  "RecordCandidateLapseFailure new failureSignature now db = (answer, db') \<Longrightarrow> rd_queue db' = rd_queue db
   \<or> putCandidateRejection (new\<lparr>rj_reason_code := ''lapse_repeated_empty_exit'', rj_rejected_at := now\<rparr>) (rd_queue db) = Ok (rd_queue db')"
  unfolding RecordCandidateLapseFailure_def Let_def
  by (simp split: option.split_asm if_split_asm sum.split_asm) auto

lemma reject_queue:
  assumes "RecordUserRejection new now j lease h q = Ok q2"
  obtains q1 where "putCandidateRejection new q = Ok q1" "q_rejections q2 = q_rejections q1" "IsUserRejection (rj_reason_code new)"
  using assms by (auto simp: RecordUserRejection_def Let_def dest!: upsert_rejections history_rejections split: if_split_asm sum.split_asm)

lemma finding_step:
  assumes step: "rejection_step rp request q q'" and bare: "bare_key (rj_candidate_signature (candidateRejectionIdentity T request candidate artifact'))"
    and row: "\<exists>row \<in> set (q_rejections q). finding_row (candidateRejectionIdentity T request candidate artifact') artifact v row"
  shows "\<exists>row \<in> set (q_rejections q'). finding_row (candidateRejectionIdentity T request candidate artifact') artifact v row"
proof -
  let ?I = "candidateRejectionIdentity T request candidate artifact'"
  let ?F = "finding_row ?I artifact v"
  have I: "rj_media_id ?I = rk_media_id request" "rj_language ?I = rk_language request"
    by (simp_all add: candidateRejectionIdentity_def Let_def)
  from row obtain r where r: "r \<in> set (q_rejections q)" "?F r" by blast
  have same: "same_candidate_file (base_lookup ?I)
        (new\<lparr>rj_language := rj_language ?I, rj_provider_id := rj_provider_id ?I, rj_result_id := rj_result_id ?I\<rparr>)"
    if "for_file request new" "rj_media_id new = rj_media_id ?I" for new
    using that by (simp add: for_file_def same_file_def same_candidate_file_def base_lookup_def candidateRejectionIdentity_def Let_def)
  have put: "\<exists>row \<in> set (q_rejections q'). ?F row" if "putCandidateRejection new q = Ok q'" "for_file request new"
      "userReasonSQL (rj_reason_code new) \<or> rj_reason_code new \<notin> set versionedRejectionReasons
       \<or> rj_candidate_signature new \<noteq> rj_candidate_signature ?I" for new q'
    by (rule put_finding [OF r that(1) same [OF that(2)]]) (assumption, use that(3) in blast)
  have key: "rj_media_id r = rk_media_id request" "rj_language r = rk_language request"
    using r(2) I by (simp_all add: finding_row_def same_candidate_file_def base_lookup_def)
  have deleted: "\<exists>row \<in> set (sql_delete p (q_rejections q)). ?F row"
    if "\<And>row. p row \<Longrightarrow> (rj_media_id row, rj_language row) \<noteq> (rk_media_id request, rk_language request)" for p
  proof -
    have "\<not> p r" using that [of r] key by blast
    with r have "r \<in> set (sql_delete p (q_rejections q))" by (simp add: sql_delete_def)
    with r(2) show ?thesis by blast
  qed
  show ?thesis
    using step
  proof cases
    case (step_op op)
    consider new now j lease h where "op = QReject new now j lease h" | i l where "op = QClearReject i l"
      | "case op of QReject _ _ _ _ _ \<Rightarrow> False | QClearReject _ _ \<Rightarrow> False | _ \<Rightarrow> True" by (cases op) auto
    then show ?thesis
    proof cases
      case 1
      show ?thesis
      proof (cases "RecordUserRejection new now j lease h q")
        case (Inl e)
        show ?thesis using row unfolding step_op(1) 1 queue_apply.simps Inl ok_or.simps .
      next
        case (Inr q2)
        then obtain q1 where q1: "putCandidateRejection new q = Ok q1" "q_rejections q2 = q_rejections q1" "IsUserRejection (rj_reason_code new)"
          by (rule reject_queue)
        from put [OF q1(1) step_op(3) [OF 1] disjI1 [OF user_reason [OF q1(3)]]] show ?thesis
          unfolding step_op(1) 1 queue_apply.simps Inr ok_or.simps q1(2) .
      qed
    next
      case 2
      have "q_rejections q' = sql_delete (\<lambda>rj. rj_media_id rj = i \<and> rj_language rj = l \<and> userReasonSQL (rj_reason_code rj)) (q_rejections q)"
        unfolding step_op(1) 2 queue_apply.simps ClearUserRejections_def Let_def snd_conv by simp
      then show ?thesis using step_op(2) [OF 2] by (simp only:) (rule deleted, blast)
    next
      case 3
      from queue_op_rejections [OF this] row show ?thesis unfolding step_op(1) by (simp only:)
    qed
  next
    case (step_put T' now request' candidate' artifact'' failure new)
    then have q1: "putCandidateRejection new q = Ok q'" by (simp add: PutCandidateRejection_def split: if_split_asm)
    have "rj_reason_code new \<notin> set versionedRejectionReasons" if "rj_candidate_signature new = rj_candidate_signature ?I"
      using recorded_reason [OF step_put(1)] bare that by simp
    with put [OF q1 step_put(2)] show ?thesis by blast
  next
    case (step_lapse new failureSignature now db answer db')
    from lapse_queue [OF step_lapse(3)] show ?thesis
    proof (elim disjE)
      assume "rd_queue db' = rd_queue db"
      with row show ?thesis unfolding step_lapse(1,2) by (simp only:)
    next
      assume 2: "putCandidateRejection (new\<lparr>rj_reason_code := ''lapse_repeated_empty_exit'', rj_rejected_at := now\<rparr>) (rd_queue db) = Ok (rd_queue db')"
      have "for_file request (new\<lparr>rj_reason_code := ''lapse_repeated_empty_exit'', rj_rejected_at := now\<rparr>)"
        using step_lapse(4) by (simp add: for_file_def same_file_def)
      from put [OF 2 [folded step_lapse(1)] this] show ?thesis unfolding step_lapse(2) by (simp add: versionedRejectionReasons_def)
    qed
  next
    case (step_clear i l)
    have "q_rejections q' = sql_delete (\<lambda>rj. rj_media_id rj = i \<and> rj_language rj = l \<and> \<not> userReasonSQL (rj_reason_code rj)) (q_rejections q)"
      unfolding step_clear(1) ClearCandidateRejections_def by simp
    then show ?thesis using step_clear(2) by (simp only:) (rule deleted, blast)
  qed
qed

lemma recorded_finding:
  assumes row: "rejection_row T now request candidate artifact failure = Some rj"
    and put: "PutCandidateRejection rj q = Ok q'"
  obtains v row where "v \<in> set ([] # rule_suffixes)" "row \<in> set (q_rejections q')"
    "finding_row (candidateRejectionIdentity T request candidate artifact') artifact v row"
proof -
  let ?I = "candidateRejectionIdentity T request candidate artifact'"
  define v where "v = (if selection_of (candidate_errors failure) = Some ''versions_exhausted'' then exhaustedRulesVersion
      else rejectionRulesVersion (rejectionReasonCode failure))"
  have rj: "rj = (candidateRejectionIdentity T request candidate artifact)
      \<lparr>rj_candidate_signature := rj_candidate_signature ?I @ v, rj_reason_code := rejectionReasonCode failure, rj_rejected_at := now\<rparr>"
    using row by (auto simp: rejection_row_def v_def Let_def candidateRejectionIdentity_def split: if_splits)
  have v: "v \<in> set ([] # rule_suffixes)" "v = [] \<longrightarrow> rj_reason_code rj \<notin> set versionedRejectionReasons"
    by (auto simp: rj v_def rule_suffixes_def rejectionRulesVersion_def exhaustedRulesVersion_def versionedRejectionReasons_def)
  let ?f = "\<lambda>old :: CandidateRejection. rj\<lparr>rj_reason_code := (if userReasonSQL (rj_reason_code old) then rj_reason_code old else rj_reason_code rj)\<rparr>"
  have q': "q_rejections q' = sql_upsert (same_rejection rj) (\<lambda>_. True) ?f rj (q_rejections q)"
    using put by (auto simp: PutCandidateRejection_def putCandidateRejection_def split: if_splits)
  obtain row' where r: "row' \<in> set (q_rejections q')" "row' = rj \<or> (\<exists>old. row' = ?f old)"
  proof (cases "\<exists>old \<in> set (q_rejections q). same_rejection rj old")
    case True
    then obtain old where "old \<in> set (q_rejections q)" "same_rejection rj old" by blast
    then have "?f old \<in> set (q_rejections q')"
      using True sql_update_hit [of old "q_rejections q" "\<lambda>r. same_rejection rj r \<and> True" ?f] by (simp add: q' sql_upsert_def)
    then show ?thesis by (rule that) (rule disjI2, rule exI, rule refl)
  next
    case False
    then have "rj \<in> set (q_rejections q')" by (auto simp: q' sql_upsert_def)
    from that [OF this] show ?thesis by blast
  qed
  have "same_candidate_file (base_lookup ?I) row'" "rj_candidate_signature row' = rj_candidate_signature ?I @ v"
    "rj_tool_signature row' = rj_tool_signature ?I" "rj_artifact_checksum row' = artifact"
    using r(2) by (auto simp: rj same_candidate_file_def base_lookup_def candidateRejectionIdentity_def Let_def)
  moreover have "userReasonSQL (rj_reason_code row') \<or> rj_reason_code row' = rj_reason_code rj" using r(2) by auto
  ultimately have "finding_row ?I artifact v row'" using v(2) by (auto simp: finding_row_def)
  with v(1) r(1) show ?thesis by (rule that)
qed

text \<open>C5: once a failure of a candidate was recorded as a rejection, the lookups of that candidate, before a download or
  for the same artifact, keep finding a rejection, whatever the table held before and whatever the queue and later
  recordings do to it: as long as the media file, LAPSE and its policy stay the same, the instance is not
  forgotten, and nobody clears the rejections of that media and language. SHA-256 and member checksums are taken to be hexadecimal.\<close>

theorem recorded_is_found:
  assumes row: "rejection_row T now request candidate artifact failure = Some rj"
    and put: "PutCandidateRejection rj q = Ok q1" and steps: "(rejection_step rp request)\<^sup>*\<^sup>* q1 q'"
    and art: "artifact' = [] \<or> artifact' = artifact"
    and hex: "\<And>x. hex_text (tl_sha256 T x)" "hex_text (rk_member_scope request)"
  shows "\<exists>rj'. candidateRejection T (\<lambda>l. Ok (GetCandidateRejection l q')) request candidate artifact' = Ok (Some rj')"
proof -
  let ?I = "candidateRejectionIdentity T request candidate artifact'"
  have bare: "bare_key (rj_candidate_signature ?I)"
    using scope_bare_key [OF hex] by (simp add: candidateRejectionIdentity_def candidateSignature_def Let_def)
  obtain v row0 where v: "v \<in> set ([] # rule_suffixes)" and row0: "row0 \<in> set (q_rejections q1)" "finding_row ?I artifact v row0"
    by (rule recorded_finding [OF row put])
  from steps have "\<exists>row \<in> set (q_rejections q'). finding_row ?I artifact v row"
  proof (induction rule: rtranclp_induct)
    case base
    with row0 show ?case by blast
  next
    case (step q2 q3)
    from finding_step [OF step(2) bare step(3)] show ?case .
  qed
  with v art show ?thesis using finding_row_found by blast
qed

theorem recorded_is_found_witness:
  "\<exists>rj'. candidateRejection sample_tooling (\<lambda>l. Ok (GetCandidateRejection l (ClearCandidateRejections 2 ''hr'' (sample_queue\<lparr>q_rejections :=
       [the (rejection_row sample_tooling unix_epoch sample_scope sample_candidate ''ef'' (WContent (WOther ''bad'')))]\<rparr>))))
     sample_scope sample_candidate [] = (Ok (Some rj') :: (string, CandidateRejection option) result)"
proof -
  let ?rj = "(candidateRejectionIdentity sample_tooling sample_scope sample_candidate ''ef'')
     \<lparr>rj_candidate_signature := ''ab/subtitle-rules-v2'', rj_reason_code := ''invalid_subtitle'', rj_rejected_at := unix_epoch\<rparr>"
  have row: "rejection_row sample_tooling unix_epoch sample_scope sample_candidate ''ef'' (WContent (WOther ''bad'')) = Some ?rj"
    by code_simp
  have put: "PutCandidateRejection ?rj sample_queue = Ok (sample_queue\<lparr>q_rejections := [?rj]\<rparr>)"
    by code_simp
  have "hex_text (tl_sha256 sample_tooling x)" for x by (simp add: sample_tooling_def hex_text_def)
  moreover have "hex_text (rk_member_scope sample_scope)" by (simp add: sample_scope_def hex_text_def)
  moreover have "rejection_step sample_repository sample_scope q (ClearCandidateRejections 2 ''hr'' q)" for q
    by (rule step_clear) (simp add: sample_scope_def)
  ultimately show ?thesis unfolding row option.sel
    using recorded_is_found [OF row put r_into_rtranclp, of sample_repository _ "[]"] by blast
qed

section \<open>Strikes\<close>

definition strikes_ok :: "lapse_strike list \<Rightarrow> bool" where
  "strikes_ok rows \<longleftrightarrow> (\<forall>row \<in> set rows. ls_occurrences row = 1)"

lemma find_map_key: "(\<And>r. key (f r) = key r) \<Longrightarrow> find key (map f rows) = map_option f (find key rows)"
  by (induction rows) auto

lemma strike_known:
  assumes "strikes_ok rows" "row \<in> set rows" "strike_key rj sig row"
  shows "occurrences rj sig (record_strike rj sig t rows) = 2"
proof -
  let ?g = "\<lambda>row. row\<lparr>ls_occurrences := min 2 (ls_occurrences row + 1), ls_last_observed_at_ns := unix_nano t\<rparr>"
  have rec: "record_strike rj sig t rows = map (\<lambda>row. if strike_key rj sig row then ?g row else row) rows"
    using assms(2,3) by (auto simp: record_strike_def sql_upsert_def sql_update_def)
  have "find (strike_key rj sig) rows \<noteq> None" using assms(2,3) by (auto simp: find_None_iff)
  then obtain first where f: "find (strike_key rj sig) rows = Some first" by auto
  then have "first \<in> set rows" "strike_key rj sig first" by (auto simp: find_Some_iff)
  then show ?thesis
    using assms(1) f by (simp add: occurrences_def rec find_map_key strike_key_def strikes_ok_def)
qed

lemma strike_new:
  assumes "\<And>row. row \<in> set rows \<Longrightarrow> \<not> strike_key rj sig row"
  shows "occurrences rj sig (record_strike rj sig t rows) = 1"
    and "strikes_ok rows \<Longrightarrow> strikes_ok (record_strike rj sig t rows)"
    and "\<exists>row \<in> set (record_strike rj sig t rows). strike_key rj sig row"
proof -
  let ?new = "\<lparr>ls_rejection = strike_identity rj, ls_failure_signature = sig, ls_occurrences = 1,
      ls_first_observed_at_ns = unix_nano t, ls_last_observed_at_ns = unix_nano t\<rparr>"
  have rec: "record_strike rj sig t rows = rows @ [?new]"
    using assms by (auto simp: record_strike_def sql_upsert_def)
  have "find (strike_key rj sig) rows = None" using assms by (auto simp: find_None_iff)
  then have "find (strike_key rj sig) (rows @ [?new]) = Some ?new"
    by (induction rows) (auto simp: strike_key_def split: if_splits)
  then show "occurrences rj sig (record_strike rj sig t rows) = 1" by (simp add: occurrences_def rec)
  show "strikes_ok rows \<Longrightarrow> strikes_ok (record_strike rj sig t rows)" by (simp add: rec strikes_ok_def)
  show "\<exists>row \<in> set (record_strike rj sig t rows). strike_key rj sig row" by (simp add: rec strike_key_def)
qed

lemma put_stores:
  assumes "putCandidateRejection rj q = Ok q'"
  shows "\<exists>r \<in> set (q_rejections q'). same_rejection rj r
    \<and> (rj_reason_code r = rj_reason_code rj \<or> userReasonSQL (rj_reason_code r))"
proof -
  let ?f = "\<lambda>old :: CandidateRejection. rj\<lparr>rj_reason_code := (if userReasonSQL (rj_reason_code old) then rj_reason_code old else rj_reason_code rj)\<rparr>"
  have q': "q_rejections q' = sql_upsert (same_rejection rj) (\<lambda>_. True) ?f rj (q_rejections q)"
    using assms by (auto simp: putCandidateRejection_def split: if_splits)
  show ?thesis
  proof (cases "\<exists>old \<in> set (q_rejections q). same_rejection rj old")
    case True
    then obtain old where "old \<in> set (q_rejections q)" "same_rejection rj old" by blast
    then have "?f old \<in> set (q_rejections q')"
      using True sql_update_hit [of old "q_rejections q" "\<lambda>r. same_rejection rj r \<and> True" ?f] by (simp add: q' sql_upsert_def)
    moreover have "same_rejection rj (?f old)" by (simp add: same_rejection_def)
    moreover have "rj_reason_code (?f old) = rj_reason_code rj \<or> userReasonSQL (rj_reason_code (?f old))" by simp
    ultimately show ?thesis by blast
  next
    case False
    then have "rj \<in> set (q_rejections q')" by (auto simp: q' sql_upsert_def)
    then show ?thesis by (intro bexI [of _ rj]) (simp_all add: same_rejection_def)
  qed
qed

text \<open>LAPSE ending silently rejects an artifact the second time and not the first: a failure is confirmed exactly
  when the same artifact already has a strike of the same LAPSE binary. A confirmed failure trades the strike for a
  rejection that names it (or keeps the owner's), an unconfirmed one leaves the rejections alone and one strike behind.\<close>

theorem two_silent_exits_reject:
  assumes ok: "strikes_ok (rd_strikes db)"
    and run: "RecordCandidateLapseFailure rj sig t db = (Ok confirmed, db')"
  shows "(confirmed \<longleftrightarrow> (\<exists>row \<in> set (rd_strikes db). strike_key rj sig row))
    \<and> strikes_ok (rd_strikes db')
    \<and> ((\<exists>row \<in> set (rd_strikes db'). strike_key rj sig row) \<longleftrightarrow> \<not> confirmed)
    \<and> (if confirmed
       then \<exists>r \<in> set (q_rejections (rd_queue db')). same_rejection rj r
              \<and> (rj_reason_code r = ''lapse_repeated_empty_exit'' \<or> userReasonSQL (rj_reason_code r))
       else rd_queue db' = rd_queue db)"
proof (intro conjI)
  let ?rows = "record_strike rj sig t (rd_strikes db)"
  let ?rj = "rj\<lparr>rj_reason_code := ''lapse_repeated_empty_exit'', rj_rejected_at := t\<rparr>"
  let ?known = "\<exists>row \<in> set (rd_strikes db). strike_key rj sig row"
  have known: "occurrences rj sig ?rows = (if ?known then 2 else 1)"
    using strike_known [OF ok] strike_new(1) by auto
  have split: "if ?known then confirmed \<and> (\<exists>q. putCandidateRejection ?rj (rd_queue db) = Ok q
        \<and> db' = \<lparr>rd_queue = q, rd_strikes = sql_delete (strike_key rj sig) ?rows\<rparr>)
      else \<not> confirmed \<and> db' = db\<lparr>rd_strikes := ?rows\<rparr>"
    using run known by (auto simp: RecordCandidateLapseFailure_def Let_def split: option.splits if_splits sum.splits)
  show "confirmed \<longleftrightarrow> ?known" using split by (auto split: if_splits)
  have other: "row \<in> set (rd_strikes db)" if "row \<in> set ?rows" "\<not> strike_key rj sig row" for row
    using that by (auto simp: record_strike_def sql_upsert_def set_sql_update strike_key_def split: if_splits)
  show "strikes_ok (rd_strikes db')"
  proof (cases ?known)
    case True
    with split have "rd_strikes db' = sql_delete (strike_key rj sig) ?rows" by auto
    with ok other show ?thesis by (simp add: strikes_ok_def sql_delete_def)
  next
    case False
    with split have "rd_strikes db' = ?rows" by simp
    with False strike_new(2) [of "rd_strikes db" rj sig t, OF _ ok] show ?thesis by auto
  qed
  show "(\<exists>row \<in> set (rd_strikes db'). strike_key rj sig row) \<longleftrightarrow> \<not> confirmed"
    using split strike_new(3) by (auto simp: sql_delete_def split: if_splits)
  have same: "same_rejection ?rj r = same_rejection rj r" for r by (simp add: same_rejection_def)
  show "if confirmed
         then \<exists>r \<in> set (q_rejections (rd_queue db')). same_rejection rj r
                \<and> (rj_reason_code r = ''lapse_repeated_empty_exit'' \<or> userReasonSQL (rj_reason_code r))
         else rd_queue db' = rd_queue db"
  proof (cases ?known)
    case True
    with split obtain q where "confirmed" "putCandidateRejection ?rj (rd_queue db) = Ok q" "rd_queue db' = q" by auto
    with put_stores [of ?rj "rd_queue db" q] show ?thesis unfolding same by simp
  next
    case False
    with split show ?thesis by simp
  qed
qed

theorem two_silent_exits_reject_witness:
  "strikes_ok (rd_strikes (snd (RecordCandidateLapseFailure sample_rejection ''exit'' (unix_epoch + 1)
     \<lparr>rd_queue = sample_queue, rd_strikes = []\<rparr>)))"
proof -
  have "strikes_ok (rd_strikes \<lparr>rd_queue = sample_queue, rd_strikes = []\<rparr>)" by (simp add: strikes_ok_def)
  moreover have "fst (RecordCandidateLapseFailure sample_rejection ''exit'' (unix_epoch + 1)
      \<lparr>rd_queue = sample_queue, rd_strikes = []\<rparr>) = Ok False"
    by code_simp
  ultimately show ?thesis using two_silent_exits_reject by (metis prod.collapse)
qed

end
