(* ===== verification/Effects.thy ===== *)
theory Effects
  imports Prelude
begin

text \<open>
  Code that acts on a state and can stop early. An action takes the state and gives a result or an
  exception, and the next state; \<open>bnd\<close> runs one action after another, \<open>each\<close> is a loop that ends at the first element whose body answers \<open>True\<close>, \<open>carry\<close> one that hands a value on. \<open>triple\<close> is Hoare logic
  for actions, which all end: what holds of the result and the state afterwards, and what of the exception.
\<close>

type_synonym ('s, 'e, 'a) act = "'s \<Rightarrow> ('e + 'a) \<times> 's"

definition ret :: "'a \<Rightarrow> ('s, 'e, 'a) act" where
  "ret a s = (Inr a, s)"

definition stop :: "'e \<Rightarrow> ('s, 'e, 'a) act" where
  "stop e s = (Inl e, s)"

definition bnd :: "('s, 'e, 'a) act \<Rightarrow> ('a \<Rightarrow> ('s, 'e, 'b) act) \<Rightarrow> ('s, 'e, 'b) act" where
  "bnd f g s = (case f s of (Inl e, s') \<Rightarrow> (Inl e, s') | (Inr a, s') \<Rightarrow> g a s')"

definition seq :: "('s, 'e, unit) act \<Rightarrow> ('s, 'e, 'b) act \<Rightarrow> ('s, 'e, 'b) act" where
  "seq f g = bnd f (\<lambda>_. g)"

definition reads :: "('s \<Rightarrow> 'a) \<Rightarrow> ('s, 'e, 'a) act" where
  "reads f s = (Inr (f s), s)"

definition update :: "('s \<Rightarrow> 's) \<Rightarrow> ('s, 'e, unit) act" where
  "update f s = (Inr (), f s)"

definition expect :: "'e + 'a \<Rightarrow> ('s, 'e, 'a) act" where
  "expect r s = (r, s)"

text \<open>The outcome of an action as a value: an error that is looked at instead of returned.\<close>

definition attempt :: "('s, 'e, 'a) act \<Rightarrow> ('s, 'x, 'e + 'a) act" where
  "attempt f s = (let (r, s') = f s in (Inr r, s'))"

fun each :: "('b \<Rightarrow> ('s, 'e, bool) act) \<Rightarrow> 'b list \<Rightarrow> ('s, 'e, bool) act" where
  "each body [] = ret False"
| "each body (x # xs) = bnd (body x) (\<lambda>done. if done then ret True else each body xs)"

text \<open>A loop that carries a value.\<close>

fun carry :: "('b \<Rightarrow> 'c \<Rightarrow> ('s, 'e, 'c) act) \<Rightarrow> 'b list \<Rightarrow> 'c \<Rightarrow> ('s, 'e, 'c) act" where
  "carry body [] a = ret a"
| "carry body (x # xs) a = bnd (body x a) (carry body xs)"

text \<open>A loop that collects, told how many elements follow, and that a body can end.\<close>

fun gather :: "('b \<Rightarrow> nat \<Rightarrow> ('s, 'e, 'c list \<times> bool) act) \<Rightarrow> 'b list \<Rightarrow> ('s, 'e, 'c list) act" where
  "gather body [] = ret []"
| "gather body (x # xs) =
     bnd (body x (length xs)) (\<lambda>(ys, last). if last then ret ys else bnd (gather body xs) (\<lambda>zs. ret (ys @ zs)))"

section \<open>Triples\<close>

definition triple ::
  "('s \<Rightarrow> bool) \<Rightarrow> ('s, 'e, 'a) act \<Rightarrow> ('a \<Rightarrow> 's \<Rightarrow> bool) \<Rightarrow> ('e \<Rightarrow> 's \<Rightarrow> bool) \<Rightarrow> bool" where
  "triple P f Q R \<longleftrightarrow> (\<forall>s. P s \<longrightarrow> (case f s of (Inl e, s') \<Rightarrow> R e s' | (Inr a, s') \<Rightarrow> Q a s'))"

lemma triple_ret: "(\<And>s. P s \<Longrightarrow> Q a s) \<Longrightarrow> triple P (ret a) Q R"
  by (simp add: triple_def ret_def)

lemma triple_stop: "(\<And>s. P s \<Longrightarrow> R e s) \<Longrightarrow> triple P (stop e) Q R"
  by (simp add: triple_def stop_def)

lemma triple_bnd:
  assumes "triple P f Q' R" and "\<And>a. triple (Q' a) (g a) Q R"
  shows "triple P (bnd f g) Q R"
  unfolding triple_def
proof (intro allI impI)
  fix s assume "P s"
  with assms(1) have f: "case f s of (Inl e, s') \<Rightarrow> R e s' | (Inr a, s') \<Rightarrow> Q' a s'" by (simp add: triple_def)
  show "case bnd f g s of (Inl e, s') \<Rightarrow> R e s' | (Inr a, s') \<Rightarrow> Q a s'"
  proof (cases "f s")
    case (Pair r s')
    then show ?thesis using f assms(2) by (cases r) (auto simp: bnd_def triple_def)
  qed
qed

lemma triple_seq: "\<lbrakk>triple P f (\<lambda>_. Q') R; triple Q' g Q R\<rbrakk> \<Longrightarrow> triple P (seq f g) Q R"
  unfolding seq_def by (rule triple_bnd)

lemma triple_reads: "(\<And>s. P s \<Longrightarrow> Q (f s) s) \<Longrightarrow> triple P (reads f) Q R"
  by (simp add: triple_def reads_def)

lemma triple_update: "(\<And>s. P s \<Longrightarrow> Q () (f s)) \<Longrightarrow> triple P (update f) Q R"
  by (simp add: triple_def update_def)

lemma triple_expect: "\<lbrakk>\<And>s a. \<lbrakk>P s; r = Inr a\<rbrakk> \<Longrightarrow> Q a s; \<And>s e. \<lbrakk>P s; r = Inl e\<rbrakk> \<Longrightarrow> R e s\<rbrakk> \<Longrightarrow> triple P (expect r) Q R"
  by (cases r) (auto simp: triple_def expect_def)

lemma triple_attempt:
  "triple P f (\<lambda>a. Q (Inr a)) (\<lambda>e. Q (Inl e)) \<Longrightarrow> triple P (attempt f) Q R"
  unfolding triple_def attempt_def Let_def split_def
  by (simp split: sum.split_asm) (metis sum.exhaust_sel sum.collapse)

lemma triple_conseq:
  "\<lbrakk>triple P f Q R; \<And>s. P' s \<Longrightarrow> P s; \<And>a s. Q a s \<Longrightarrow> Q' a s; \<And>e s. R e s \<Longrightarrow> R' e s\<rbrakk> \<Longrightarrow> triple P' f Q' R'"
  unfolding triple_def by (fastforce split: prod.splits sum.splits)

lemma triple_each:
  assumes "\<And>x. x \<in> set xs \<Longrightarrow> triple I (body x) (\<lambda>_. I) R"
  shows "triple I (each body xs) (\<lambda>_. I) R"
  using assms
proof (induction xs)
  case (Cons x xs)
  have "triple I (if d then ret True else each body xs) (\<lambda>_. I) R" for d
    using Cons by (auto intro: triple_ret)
  with Cons.prems show ?case by (auto intro: triple_bnd)
qed (auto intro: triple_ret)

lemma triple_carry:
  assumes "\<And>x a. x \<in> set xs \<Longrightarrow> triple (I a) (body x a) I R"
  shows "triple (I a) (carry body xs a) I R"
  using assms
proof (induction xs arbitrary: a)
  case (Cons x xs)
  then show ?case by (auto intro: triple_bnd)
qed (auto intro: triple_ret)

text \<open>An action that keeps an invariant whatever it answers.\<close>

definition keeps :: "('s \<Rightarrow> bool) \<Rightarrow> ('s, 'e, 'a) act \<Rightarrow> bool" where
  "keeps I f \<longleftrightarrow> (\<forall>s. I s \<longrightarrow> I (snd (f s)))"

lemma keeps_triple: "keeps I f \<longleftrightarrow> triple I f (\<lambda>_. I) (\<lambda>_. I)"
  unfolding keeps_def triple_def by (simp add: split_def split: sum.split)

lemma keeps_if: "\<lbrakk>b \<Longrightarrow> keeps I f; \<not> b \<Longrightarrow> keeps I g\<rbrakk> \<Longrightarrow> keeps I (if b then f else g)"
  by simp

lemma keeps_let: "(\<And>x. keeps I (f x)) \<Longrightarrow> keeps I (let x = a in f x)"
  by simp

lemma keeps_option: "\<lbrakk>keeps I f; \<And>x. keeps I (g x)\<rbrakk> \<Longrightarrow> keeps I (case a of None \<Rightarrow> f | Some x \<Rightarrow> g x)"
  by (simp split: option.split)

lemma keeps_sum: "\<lbrakk>\<And>x. keeps I (f x); \<And>x. keeps I (g x)\<rbrakk> \<Longrightarrow> keeps I (case a of Inl x \<Rightarrow> f x | Inr x \<Rightarrow> g x)"
  by (simp split: sum.split)

lemma keeps_pair: "(\<And>x y. keeps I (f x y)) \<Longrightarrow> keeps I (case a of (x, y) \<Rightarrow> f x y)"
  by (simp split: prod.split)

lemma keeps_ret: "keeps I (ret a)"
  by (simp add: keeps_def ret_def)

lemma keeps_stop: "keeps I (stop e)"
  by (simp add: keeps_def stop_def)

lemma keeps_reads: "keeps I (reads f)"
  by (simp add: keeps_def reads_def)

lemma keeps_expect: "keeps I (expect r)"
  by (simp add: keeps_def expect_def)

lemma keeps_update: "(\<And>s. I s \<Longrightarrow> I (f s)) \<Longrightarrow> keeps I (update f)"
  by (simp add: keeps_def update_def)

lemma keeps_bnd: "\<lbrakk>keeps I f; \<And>a. keeps I (g a)\<rbrakk> \<Longrightarrow> keeps I (bnd f g)"
  unfolding keeps_triple by (rule triple_bnd)

lemma keeps_seq: "\<lbrakk>keeps I f; keeps I g\<rbrakk> \<Longrightarrow> keeps I (seq f g)"
  unfolding seq_def by (rule keeps_bnd)

lemma keeps_attempt: "keeps I f \<Longrightarrow> keeps I (attempt f)"
  by (simp add: keeps_def attempt_def Let_def split_def)

lemma keeps_each: "(\<And>x. x \<in> set xs \<Longrightarrow> keeps I (body x)) \<Longrightarrow> keeps I (each body xs)"
  unfolding keeps_triple by (rule triple_each)

lemma keeps_carry: "(\<And>x a. x \<in> set xs \<Longrightarrow> keeps I (body x a)) \<Longrightarrow> keeps I (carry body xs a)"
  unfolding keeps_triple by (rule triple_carry)

lemmas keeps_rules = keeps_carry keeps_ret keeps_stop keeps_reads keeps_expect keeps_bnd keeps_seq keeps_attempt
  keeps_each keeps_if keeps_let keeps_option keeps_sum keeps_pair

end
