(* ===== verification/Acquire_Types.thy ===== *)
theory Acquire_Types
  imports Effects Rejections Search_Evidence
begin

text \<open>
  What acquiring a subtitle from one provider tier works on (\<open>src/internal/workflow/service.go\<close>: the fields of
  \<open>Service\<close> and \<open>Request\<close> that \<open>acquire\<close> uses, and the calls it makes). The world \<open>'x\<close> holds the files, the
  database, the clock and the providers; each call on an interface is a field of the environment that takes the
  world and returns the next one. The state of an acquisition keeps the world, what the Go function keeps in
  variables, and the list of the calls made so far, which only the theorems read. Log events are left out.
\<close>

section \<open>Data\<close>

record CandidateRecord =
  cr_provider_id :: string
  cr_result_id :: string
  cr_metadata_json :: string
  cr_score_json :: string
  cr_validation_json :: string

record CachedMember =
  cm_member_scoped :: bool
  cm_more_versions :: bool
  cm_alternatives :: "string list"
  cm_runtime_pack :: bool
  cm_path :: string
  cm_checksum :: string
  cm_candidate :: Candidate

record InstallRequest =
  ir_fallback :: bool
  ir_media_id :: int
  ir_media :: Media
  ir_language :: language
  ir_source_path :: string
  ir_destination_path :: string
  ir_candidate :: Candidate
  ir_score :: Score
  ir_sync_result :: SyncResult
  ir_candidate_signature :: string
  ir_artifact_checksum :: string

text \<open>What \<open>findUnrejectedPack\<close> answers: the member, a cache error's text, a lookup error, and the decisions it added.\<close>

record pack_answer =
  pa_member :: "CachedMember option"
  pa_cache_error :: "string option"
  pa_lookup_error :: "workflow_error option"
  pa_decisions :: "Decision list"

text \<open>What \<open>downloadAndSelectMembers\<close> answers.\<close>

record download_answer =
  da_paths :: "(workflow_error, string list) result"
  da_runtime_pack :: bool
  da_more_versions :: bool
  da_decisions :: "Decision list"

text \<open>The request of one acquisition, with the fields that are not exported.\<close>

record acq_request =
  aq_request :: Request
  aq_release_media :: "Media option"
  aq_member_scope :: string

definition aq_media :: "acq_request \<Rightarrow> Media" where
  "aq_media R = rq_media (aq_request R)"

definition memberRequest :: "acq_request \<Rightarrow> string \<Rightarrow> acq_request" where
  "memberRequest R scope = R\<lparr>aq_member_scope := scope\<rparr>"

definition reject_scope_of :: "acq_request \<Rightarrow> reject_scope" where
  "reject_scope_of R =
     \<lparr>rk_media_id = rq_media_id (aq_request R), rk_media = aq_media R, rk_language = rq_language (aq_request R),
      rk_member_scope = aq_member_scope R\<rparr>"

section \<open>The environment\<close>

record 'x acquire_env =
  av_externals :: externals
  av_service :: Service
  av_minimum_score :: int
  av_tooling :: tooling
  av_lapse_version :: string
  av_fallback_tier :: bool
  av_adapters :: "string \<Rightarrow> adapter option"
  av_reports_applicable :: bool
  av_decode :: "string \<Rightarrow> Score option"
  av_json_score :: "Score \<Rightarrow> string"
  av_json_sync :: "SyncResult \<Rightarrow> string"
  av_json_metadata :: "Candidate \<Rightarrow> string option"
  av_text :: "workflow_error \<Rightarrow> string"
  av_three_decimals :: "rat \<Rightarrow> string"
  av_release_episode :: "Media \<Rightarrow> (int \<times> int) option"
  av_ctx_err :: "'x \<Rightarrow> workflow_error option"
  av_media_err :: "Media \<Rightarrow> 'x \<Rightarrow> workflow_error option"
  av_language_err :: "string \<Rightarrow> language \<Rightarrow> 'x \<Rightarrow> workflow_error option"
  av_range_err :: "string \<Rightarrow> Media \<Rightarrow> 'x \<Rightarrow> workflow_error option"
  av_now :: "'x \<Rightarrow> gotime"
  av_checksum :: "string \<Rightarrow> 'x \<Rightarrow> (workflow_error, string) result"
  av_reread :: "'x \<Rightarrow> workflow_error \<Rightarrow> workflow_error"
  av_make_workspace :: "'x \<Rightarrow> (workflow_error, string) result \<times> 'x"
  av_remove_workspace :: "string \<Rightarrow> 'x \<Rightarrow> 'x"
  av_remove_file :: "string \<Rightarrow> 'x \<Rightarrow> workflow_error option \<times> 'x"
  av_read_media :: "Media \<Rightarrow> 'x \<Rightarrow> workflow_error option \<times> 'x"
  av_search :: "SearchQuery \<Rightarrow> 'x \<Rightarrow> SearchResult \<times> 'x"
  av_find_pack :: "(acq_request \<Rightarrow> 'x \<Rightarrow> pack_answer \<times> 'x) option"
  av_download :: "acq_request \<Rightarrow> Candidate \<Rightarrow> string \<Rightarrow> int \<Rightarrow> 'x \<Rightarrow> download_answer \<times> 'x"
  av_synchronize :: "Candidate \<Rightarrow> string \<Rightarrow> string \<Rightarrow> string \<Rightarrow> 'x \<Rightarrow> (workflow_error, SyncResult) result \<times> 'x"
  av_install :: "InstallRequest \<Rightarrow> 'x \<Rightarrow> (workflow_error, Installation) result \<times> 'x"
  av_get_rejection :: "CandidateRejectionLookup \<Rightarrow> 'x \<Rightarrow> (workflow_error, CandidateRejection option) result"
  av_put_rejection :: "CandidateRejection \<Rightarrow> 'x \<Rightarrow> workflow_error option \<times> 'x"
  av_lapse_failure :: "CandidateRejection \<Rightarrow> string \<Rightarrow> gotime \<Rightarrow> 'x \<Rightarrow> (workflow_error, bool) result \<times> 'x"
  av_record_candidates :: "int \<Rightarrow> language \<Rightarrow> CandidateRecord list \<Rightarrow> 'x \<Rightarrow> workflow_error option \<times> 'x"
  av_update_assessment :: "Installation \<Rightarrow> 'x \<Rightarrow> workflow_error option \<times> 'x"

section \<open>The state\<close>

text \<open>
  A call that the theorems speak of: a rejection lookup and whether it found one, a download with its index
  (negative in the exact phase), a LAPSE run with its answer, and an installation with the current record,
  whether that counts as installed, and whether it succeeded.
\<close>

datatype acq_call =
    Checked CandidateRejection bool
  | Fetched Candidate int
  | Timed Candidate "(workflow_error, SyncResult) result"
  | Installed Installation bool InstallRequest bool

record 'x acq_state =
  st_world :: 'x
  st_calls :: "acq_call list"
  st_result :: Result
  st_failures :: "workflow_error list"
  st_exact_records :: "CandidateRecord list"
  st_existing :: Installation
  st_assessed :: bool
  st_attempted :: "CandidateRejection list"
  st_latch :: "workflow_error option"
  st_resume :: providerResumeAccumulator

type_synonym ('x, 'a) step = "('x acq_state, workflow_error, 'a) act"

text \<open>A call that changes the world, and what it leaves in the list of calls.\<close>

definition call :: "('x \<Rightarrow> 'a \<times> 'x) \<Rightarrow> ('a \<Rightarrow> acq_call list) \<Rightarrow> ('x, 'a) step" where
  "call f noted s = (let (a, w) = f (st_world s) in (Inr a, s\<lparr>st_world := w, st_calls := st_calls s @ noted a\<rparr>))"

abbreviation quiet :: "('x \<Rightarrow> 'a \<times> 'x) \<Rightarrow> ('x, 'a) step" where
  "quiet f \<equiv> call f (\<lambda>_. [])"

definition note_call :: "acq_call \<Rightarrow> ('x, unit) step" where
  "note_call c = update (\<lambda>s. s\<lparr>st_calls := st_calls s @ [c]\<rparr>)"

definition ask :: "('x \<Rightarrow> 'a) \<Rightarrow> ('x, 'a) step" where
  "ask f = reads (\<lambda>s. f (st_world s))"

text \<open>\<open>if err := f(); err != nil { return err }\<close>.\<close>

definition must :: "('x \<Rightarrow> workflow_error option \<times> 'x) \<Rightarrow> ('x, unit) step" where
  "must f = bnd (quiet f) (\<lambda>err. case err of None \<Rightarrow> ret () | Some e \<Rightarrow> stop e)"

definition must_be :: "('x \<Rightarrow> workflow_error option) \<Rightarrow> ('x, unit) step" where
  "must_be f = bnd (ask f) (\<lambda>err. case err of None \<Rightarrow> ret () | Some e \<Rightarrow> stop e)"

definition set_result :: "(Result \<Rightarrow> Result) \<Rightarrow> ('x, unit) step" where
  "set_result f = update (\<lambda>s. s\<lparr>st_result := f (st_result s)\<rparr>)"

definition add_decisions :: "Decision list \<Rightarrow> ('x, unit) step" where
  "add_decisions ds = set_result (\<lambda>r. r\<lparr>rs_decisions := rs_decisions r @ ds\<rparr>)"

definition decide :: "string \<Rightarrow> Candidate \<Rightarrow> string \<Rightarrow> ('x, unit) step" where
  "decide stage candidate reason =
     add_decisions [\<lparr>dn_stage = stage, dn_provider_id = c_provider_id candidate, dn_result_id = c_result_id candidate,
       dn_reason = reason\<rparr>]"

definition set_outcome :: "outcome \<Rightarrow> ('x, unit) step" where
  "set_outcome out = set_result (\<lambda>r. r\<lparr>rs_outcome := out\<rparr>)"

definition add_failure :: "workflow_error \<Rightarrow> ('x, unit) step" where
  "add_failure e = update (\<lambda>s. s\<lparr>st_failures := st_failures s @ [e]\<rparr>)"

definition check_ctx :: "'x acquire_env \<Rightarrow> ('x, unit) step" where
  "check_ctx E = must_be (av_ctx_err E)"

definition checkMediaAvailable :: "'x acquire_env \<Rightarrow> acq_request \<Rightarrow> ('x, unit) step" where
  "checkMediaAvailable E R = must_be (av_media_err E (aq_media R))"

definition fileChecksum :: "'x acquire_env \<Rightarrow> string \<Rightarrow> ('x, string) step" where
  "fileChecksum E path = bnd (ask (av_checksum E path)) expect"

section \<open>Scoring\<close>

definition minimumScore :: "'x acquire_env \<Rightarrow> int" where
  "minimumScore E = (if av_minimum_score E \<le> 0 then 35 else av_minimum_score E)"

definition apply_hearing_policy :: "'x acquire_env \<Rightarrow> Candidate \<Rightarrow> Score \<Rightarrow> Score" where
  "apply_hearing_policy E candidate score =
     (if c_hearing_impaired candidate \<and> \<not> sv_allow_hearing_impaired (av_service E)
      then score\<lparr>sc_rejected_reasons := sc_rejected_reasons score @ [''hearing-impaired candidate is disabled by policy'']\<rparr>
      else score)"

definition service_evaluate :: "'x acquire_env \<Rightarrow> Media \<Rightarrow> Candidate \<Rightarrow> language \<Rightarrow> Score" where
  "service_evaluate E media candidate lang =
     apply_hearing_policy E candidate (Evaluate (av_externals E) media candidate lang)"

definition evaluateCachedMember :: "'x acquire_env \<Rightarrow> Media \<Rightarrow> CachedMember \<Rightarrow> language \<Rightarrow> Score" where
  "evaluateCachedMember E media member lang =
     (if \<not> cm_runtime_pack member then service_evaluate E media (cm_candidate member) lang
      else apply_hearing_policy E (cm_candidate member)
        (EvaluateSelectedPackMember (av_externals E) media (cm_candidate member) lang))"

text \<open>\<open>priorities\<close> with the length of the order for a provider it does not name; the last position of a name counts.\<close>

definition priority_of :: "'x acquire_env \<Rightarrow> string \<Rightarrow> int" where
  "priority_of E provider_id =
     (let order = sv_provider_order (av_service E)
      in case fold (\<lambda>i m. m(order ! i \<mapsto> i)) [0 ..< length order] Map.empty provider_id of
           None \<Rightarrow> int (length order) | Some i \<Rightarrow> int i)"

definition applicableProviderCount :: "'x acquire_env \<Rightarrow> acq_request \<Rightarrow> SearchResult \<Rightarrow> int" where
  "applicableProviderCount E R search =
     (if av_reports_applicable E then int (length (sx_applicable_providers search))
      else int (length (filter (\<lambda>i. i \<notin> set (rq_resume_providers (aq_request R))
             \<and> (case av_adapters E i of None \<Rightarrow> True
                | Some p \<Rightarrow> ad_supports_language p (rq_language (aq_request R)) \<and> SupportsMedia p (aq_media R)))
           (sv_provider_order (av_service E)))))"

section \<open>Candidate records\<close>

definition before_char :: "char \<Rightarrow> string \<Rightarrow> string" where
  "before_char c value = takeWhile (\<lambda>x. x \<noteq> c) value"

definition credentialFreeResultID :: "string \<Rightarrow> string" where
  "credentialFreeResultID value = before_char (CHR ''#'') (before_char (CHR ''?'') value)"

definition candidateRecord :: "'x acquire_env \<Rightarrow> Candidate \<Rightarrow> Score \<Rightarrow> bool \<Rightarrow> (workflow_error, CandidateRecord) result" where
  "candidateRecord E candidate score eligible =
     (let safe = candidate\<lparr>c_result_id := credentialFreeResultID (c_result_id candidate), c_download_ref := [],
            c_pack := map_option (safe_pack (av_tooling E)) (c_pack candidate)\<rparr>
      in case av_json_metadata E safe of
           None \<Rightarrow> Err (WOther ''json: unsupported value'')
         | Some metadata \<Rightarrow> Ok \<lparr>cr_provider_id = c_provider_id candidate, cr_result_id = c_result_id safe,
             cr_metadata_json = metadata, cr_score_json = av_json_score E score,
             cr_validation_json = ''{'' @ json_field ''eligible'' (if eligible then ''true'' else ''false'') @ ''}''\<rparr>)"

definition record_key :: "CandidateRecord \<Rightarrow> string \<times> string" where
  "record_key r = (cr_provider_id r, cr_result_id r)"

definition mergeCandidateRecords :: "CandidateRecord list \<Rightarrow> CandidateRecord list \<Rightarrow> CandidateRecord list" where
  "mergeCandidateRecords existing additional =
     fold (\<lambda>r merged. if record_key r \<in> record_key ` set merged then merged else merged @ [r]) (existing @ additional) []"

definition record_all :: "'x acquire_env \<Rightarrow> acq_request \<Rightarrow> CandidateRecord list \<Rightarrow> ('x, unit) step" where
  "record_all E R records =
     must (av_record_candidates E (rq_media_id (aq_request R)) (rq_language (aq_request R)) records)"

section \<open>Rejections\<close>

definition candidateFailureDecision :: "'x acquire_env \<Rightarrow> string \<Rightarrow> Candidate \<Rightarrow> workflow_error \<Rightarrow> ('x, unit) step" where
  "candidateFailureDecision E stage candidate failure = decide stage candidate (av_text E failure)"

definition lookup_rejection ::
  "'x acquire_env \<Rightarrow> acq_request \<Rightarrow> Candidate \<Rightarrow> string \<Rightarrow> ('x, CandidateRejection option) step" where
  "lookup_rejection E R candidate artifactChecksum =
     bnd (ask (\<lambda>w. candidateRejection (av_tooling E) (\<lambda>l. av_get_rejection E l w) (reject_scope_of R) candidate artifactChecksum))
       (\<lambda>answer. bnd (expect answer)
         (\<lambda>found. seq (note_call (Checked (candidateRejectionIdentity (av_tooling E) (reject_scope_of R) candidate artifactChecksum)
             (found \<noteq> None))) (ret found)))"

text \<open>Whether the failure was recorded as a rejection.\<close>

definition recordCandidateRejection ::
  "'x acquire_env \<Rightarrow> acq_request \<Rightarrow> Candidate \<Rightarrow> string \<Rightarrow> workflow_error \<Rightarrow> ('x, bool) step" where
  "recordCandidateRejection E R candidate artifactChecksum failure =
     (if rejectionReasonCode failure = [] then ret False
      else seq (if needs_readable_media failure then must (av_read_media E (aq_media R)) else ret ())
        (bnd (ask (av_now E)) (\<lambda>now.
          case rejection_row (av_tooling E) now (reject_scope_of R) candidate artifactChecksum failure of
            None \<Rightarrow> ret False
          | Some row \<Rightarrow> seq (must (av_put_rejection E row)) (ret True))))"

definition add_unless_rejected :: "workflow_error \<Rightarrow> bool \<Rightarrow> ('x, unit) step" where
  "add_unless_rejected failure recorded =
     (if \<not> recorded \<and> \<not> isMediaValidationRejection failure then add_failure failure else ret ())"

definition handleCandidateFailure ::
  "'x acquire_env \<Rightarrow> acq_request \<Rightarrow> Candidate \<Rightarrow> string \<Rightarrow> workflow_error \<Rightarrow> ('x, unit) step" where
  "handleCandidateFailure E R candidate path failure =
     bnd (fileChecksum E path) (\<lambda>checksum.
       if hasProcessExitError failure then
         bnd (ask (av_ctx_err E)) (\<lambda>ctx.
           if ctx \<noteq> None \<or> singleProcessExitError failure \<noteq> Some (2, True, True) then add_failure failure
           else bnd (ask (av_now E)) (\<lambda>now.
             bnd (quiet (av_lapse_failure E (candidateRejectionIdentity (av_tooling E) (reject_scope_of R) candidate checksum)
                   (''exit_2_empty_output@'' @ av_lapse_version E) now)) (\<lambda>answer.
               bnd (expect answer) (\<lambda>confirmed. if confirmed then ret () else add_failure failure))))
       else bnd (recordCandidateRejection E R candidate checksum failure) (add_unless_rejected failure))"

text \<open>The artifact is attempted once in a run; the key is the whole rejection identity.\<close>

definition beginCandidatePreparation :: "'x acquire_env \<Rightarrow> acq_request \<Rightarrow> Candidate \<Rightarrow> string \<Rightarrow> ('x, bool) step" where
  "beginCandidatePreparation E R candidate path =
     bnd (fileChecksum E path) (\<lambda>checksum.
       let key = candidateRejectionIdentity (av_tooling E) (reject_scope_of R) candidate checksum
       in bnd (reads st_attempted) (\<lambda>attempted.
            if key \<in> set attempted then ret False
            else seq (update (\<lambda>s. s\<lparr>st_attempted := key # attempted\<rparr>)) (ret True)))"

text \<open>Only files of the workspace are removed; an absent one is not an error of \<open>av_remove_file\<close>.\<close>

definition removeWorkflowArtifact :: "'x acquire_env \<Rightarrow> string \<Rightarrow> string \<Rightarrow> ('x, unit) step" where
  "removeWorkflowArtifact E workspace path =
     (if filepath_Dir path \<noteq> filepath_Clean workspace then ret ()
      else if \<not> has_prefix (filepath_Base path) ''selected-'' \<and> \<not> has_prefix (filepath_Base path) ''synchronized-'' then ret ()
      else must (av_remove_file E path))"

end
