(* ===== verification/Acquire_Steps.thy ===== *)
theory Acquire_Steps
  imports Acquire_Types
begin

text \<open>
  The steps of one acquisition (\<open>src/internal/workflow/service.go\<close>: \<open>prepareCandidate\<close>, \<open>updateInstallationAssessment\<close>,
  \<open>install\<close>; \<open>member_preparation.go\<close>; \<open>install.go\<close>: \<open>syncedOutputFailure\<close>). An error the Go code looks at instead of
  returning is an \<open>attempt\<close>.
\<close>

section \<open>Preparation\<close>

definition exact_sync :: SyncResult where
  "exact_sync = zero_sync\<lparr>sy_verdict := ''exact_hash'', sy_mode := ''bypass'', sy_reference := ''provider_hash'', sy_ratio := 1,
     sy_confidence := 1, sy_agreement := 1, sy_coverage := 1, sy_parts := 1\<rparr>"

definition disabled_sync :: SyncResult where
  "disabled_sync = zero_sync\<lparr>sy_verdict := ''sync_disabled'', sy_mode := ''bypass'', sy_reference := ''policy''\<rparr>"

definition bypass_sync :: SyncResult where
  "bypass_sync = zero_sync\<lparr>sy_verdict := ''score_bypass'', sy_mode := ''bypass'', sy_reference := ''release_evidence''\<rparr>"

definition lower_ext :: "'x acquire_env \<Rightarrow> string \<Rightarrow> string" where
  "lower_ext E path = to_lower (ext_unicode (av_externals E)) (filepath_Ext path)"

definition upgrade_allowed :: "'x acquire_env \<Rightarrow> Installation \<Rightarrow> Media \<Rightarrow> Candidate \<Rightarrow> Score \<Rightarrow> (workflow_error, bool) result" where
  "upgrade_allowed E existing media candidate score =
     shouldUpgrade (av_decode E) (av_service E) existing media candidate score"

definition tl_syncDisabled :: "'x acquire_env \<Rightarrow> bool" where
  "tl_syncDisabled E \<longleftrightarrow> syncDisabled (tl_policy (av_tooling E))"

text \<open>The checks at the start of \<open>prepareCandidate\<close>.\<close>

definition check_wanted :: "'x acquire_env \<Rightarrow> acq_request \<Rightarrow> preparedCandidate \<Rightarrow> bool \<Rightarrow> ('x, unit) step" where
  "check_wanted E R item installed =
     (if \<not> Eligible (pr_score item) (minimumScore E)
      then stop (WOther ''candidate score is below threshold or identity was rejected'')
      else if installed then
        bnd (reads st_existing) (\<lambda>existing.
          if sameInstalledCandidate existing (aq_media R) (pr_candidate item)
          then stop (WOther ''provider candidate is already installed'')
          else bnd (expect (upgrade_allowed E existing (aq_media R) (pr_candidate item) (pr_score item)))
            (\<lambda>allowed. if allowed then ret () else stop (WOther ''candidate does not satisfy upgrade policy'')))
      else ret ())"

text \<open>LAPSE, unless an earlier run of it timed out; the latch keeps the first timeout.\<close>

definition run_lapse :: "'x acquire_env \<Rightarrow> acq_request \<Rightarrow> Candidate \<Rightarrow> string \<Rightarrow> string \<Rightarrow> ('x, SyncResult) step" where
  "run_lapse E R candidate path output =
     bnd (reads st_latch) (\<lambda>latch.
       case latch of
         Some timeout \<Rightarrow> stop timeout
       | None \<Rightarrow>
           bnd (call (av_synchronize E candidate (fp_path (m_fingerprint (aq_media R))) path output)
                  (\<lambda>answer. [Timed candidate answer])) (\<lambda>answer.
             case answer of
               Err e \<Rightarrow> seq (if is_timeout e then update (\<lambda>s. s\<lparr>st_latch := Some (WCandidate TimeoutError)\<rparr>) else ret ()) (stop e)
             | Ok sync \<Rightarrow>
                 if sy_verdict sync \<noteq> ''solid'' then stop (WOther ''LAPSE synchronization was not solid'') else ret sync))"

text \<open>The deferred removal of the output of a failed run.\<close>

definition or_clean :: "'x acquire_env \<Rightarrow> string \<Rightarrow> string \<Rightarrow> ('x, 'a) step \<Rightarrow> ('x, 'a) step" where
  "or_clean E workspace output f =
     bnd (attempt f) (\<lambda>r. case r of
         Ok a \<Rightarrow> ret a
       | Err e \<Rightarrow> bnd (attempt (removeWorkflowArtifact E workspace output)) (\<lambda>cleaned. case cleaned of
             Ok _ \<Rightarrow> stop e
           | Err ce \<Rightarrow> stop (WOther (''cleanup synchronized scratch: '' @ av_text E ce @ ''; processing error: '' @ av_text E e))))"

definition prepareCandidate ::
  "'x acquire_env \<Rightarrow> acq_request \<Rightarrow> preparedCandidate \<Rightarrow> bool \<Rightarrow> string \<Rightarrow> int \<Rightarrow> ('x, preparedCandidate) step" where
  "prepareCandidate E R item installed workspace index =
     (let candidate = pr_candidate item; exact = c_exact_hash candidate; path = pr_path item;
          output = filepath_Join workspace (''synchronized-'' @ itoa index @ lower_ext E path);
          bypass = (\<lambda>sync. ret (item\<lparr>pr_output := path, pr_sync := sync, pr_bypass := True\<rparr>))
      in seq (check_wanted E R item installed)
        (seq (must_be (av_language_err E path (rq_language (aq_request R))))
        (seq (if exact then ret () else must_be (av_range_err E path (aq_media R)))
        (if exact then bypass exact_sync
         else if tl_syncDisabled E then bypass disabled_sync
         else if \<not> pr_runtime_pack item \<and> pr_member_scope item = [] \<and> \<not> c_release_numbered candidate
                 \<and> canBypassLapse (av_externals E) (aq_media R) candidate (pr_score item) installed
                     (normalized (tl_policy (av_tooling E)))
         then bypass bypass_sync
         else or_clean E workspace output
           (bnd (run_lapse E R candidate path output) (\<lambda>sync. ret (item\<lparr>pr_sync := sync, pr_output := output\<rparr>)))))))"

section \<open>The members of an archive\<close>

record member_progress =
  mp_ready :: "preparedCandidate list"
  mp_all_rejected :: bool
  mp_group_may_reject :: bool

definition versions_exhausted :: workflow_error where
  "versions_exhausted = WCandidate (SelectionError ''versions_exhausted'')"

definition versions_ambiguous :: workflow_error where
  "versions_ambiguous = WCandidate (SelectionError ''versions_ambiguous_without_sync'')"

definition ambiguous_text :: string where
  "ambiguous_text = ''multiple episode versions cannot be ranked when synchronization is disabled''"

definition decide_rejected :: "Candidate \<Rightarrow> CandidateRejection option \<Rightarrow> ('x, unit) step" where
  "decide_rejected candidate found =
     (case found of None \<Rightarrow> ret () | Some rejection \<Rightarrow> decide ''candidate_rejection'' candidate (rj_reason_code rejection))"

text \<open>What becomes of a member whose preparation failed.\<close>

definition member_failed ::
  "'x acquire_env \<Rightarrow> acq_request \<Rightarrow> acq_request \<Rightarrow> preparedCandidate \<Rightarrow> string \<Rightarrow> string \<Rightarrow> workflow_error
   \<Rightarrow> member_progress \<Rightarrow> ('x, member_progress) step" where
  "member_failed E R scoped item path workspace e p =
     seq (checkMediaAvailable E R)
     (seq (if pr_from_cache item then decide ''pack_cache'' (pr_candidate item) (lapseFailureDecision e) else ret ())
     (seq (decide ''lapse_prepare'' (pr_candidate item) (lapseFailureDecision e))
     (seq (handleCandidateFailure E scoped (pr_candidate item) path e)
     (bnd (fileChecksum E path) (\<lambda>checksum.
      bnd (lookup_rejection E scoped (pr_candidate item) checksum) (\<lambda>found.
      seq (removeWorkflowArtifact E workspace path)
        (ret (p\<lparr>mp_all_rejected := mp_all_rejected p \<and> found \<noteq> None,
               mp_group_may_reject := mp_group_may_reject p \<and> found \<noteq> None\<rparr>))))))))"

definition prepare_scoped ::
  "'x acquire_env \<Rightarrow> acq_request \<Rightarrow> acq_request \<Rightarrow> preparedCandidate \<Rightarrow> preparedCandidate \<Rightarrow> string \<Rightarrow> bool \<Rightarrow> string \<Rightarrow> int
   \<Rightarrow> member_progress \<Rightarrow> ('x, member_progress) step" where
  "prepare_scoped E R scoped item current path installed workspace index p =
     bnd (beginCandidatePreparation E scoped (pr_candidate item) path) (\<lambda>fresh.
       if \<not> fresh then
         seq (removeWorkflowArtifact E workspace path) (ret (p\<lparr>mp_all_rejected := False, mp_group_may_reject := False\<rparr>))
       else
         bnd (attempt (prepareCandidate E scoped current installed workspace index)) (\<lambda>prepared.
           seq (check_ctx E) (case prepared of
               Err e \<Rightarrow> member_failed E R scoped item path workspace e p
             | Ok ready \<Rightarrow>
                 seq (if pr_bypass ready then ret () else decide ''lapse_prepare'' (pr_candidate item) ''solid'')
                   (ret (p\<lparr>mp_all_rejected := False, mp_ready := mp_ready p @ [ready]\<rparr>)))))"

definition prepare_member ::
  "'x acquire_env \<Rightarrow> acq_request \<Rightarrow> preparedCandidate \<Rightarrow> nat \<Rightarrow> bool \<Rightarrow> bool \<Rightarrow> string \<Rightarrow> int \<Rightarrow> nat \<times> string
   \<Rightarrow> member_progress \<Rightarrow> ('x, member_progress) step" where
  "prepare_member E R item many variants installed workspace index numbered p =
     (let (n, path) = numbered; candidate = pr_candidate item; current = item\<lparr>pr_path := path\<rparr>
      in seq (check_ctx E) (seq (checkMediaAvailable E R)
        (if variants then
           bnd (fileChecksum E path) (\<lambda>checksum.
             let scoped = memberRequest R checksum;
                 version = current\<lparr>pr_member_scope := checksum, pr_member_index := int n + 1, pr_member_count := int many,
                   pr_runtime_pack := True\<rparr>
             in bnd (lookup_rejection E scoped candidate checksum) (\<lambda>found.
               if found \<noteq> None then seq (decide_rejected candidate found) (seq (removeWorkflowArtifact E workspace path) (ret p))
               else prepare_scoped E R scoped item version path installed workspace (index + int n) p))
         else prepare_scoped E R R item current path installed workspace (index + int n) p)))"

definition prepareMembers ::
  "'x acquire_env \<Rightarrow> acq_request \<Rightarrow> preparedCandidate \<Rightarrow> string list \<Rightarrow> bool \<Rightarrow> string \<Rightarrow> int \<Rightarrow> ('x, preparedCandidate list) step" where
  "prepareMembers E R item paths installed workspace index =
     (let candidate = pr_candidate item; variants = (length paths > 1 \<or> pr_member_scope item \<noteq> [])
      in if length paths > 1 \<and> tl_syncDisabled E then
           seq (bnd (recordCandidateRejection E R candidate [] versions_ambiguous) (\<lambda>_. ret ()))
           (seq (decide ''pack_selection'' candidate ambiguous_text)
           (bnd (each (\<lambda>path. seq (removeWorkflowArtifact E workspace path) (ret False)) paths) (\<lambda>_. ret [])))
         else
           bnd (carry (prepare_member E R item (length paths) variants installed workspace index) (enumerate 0 paths)
                 \<lparr>mp_ready = [], mp_all_rejected = True, mp_group_may_reject = True\<rparr>) (\<lambda>p.
             seq (if variants \<and> mp_all_rejected p \<and> \<not> pr_more_versions item
                  then bnd (recordCandidateRejection E R candidate [] versions_exhausted) (\<lambda>_. ret ())
                  else ret ())
               (ret (map (\<lambda>ready. ready\<lparr>pr_group_may_reject := mp_group_may_reject p\<rparr>) (mp_ready p)))))"

text \<open>
  The versions of one provider result, in the order of their first appearance; the Go map may visit the groups in
  another order.
\<close>

definition group_key :: "preparedCandidate \<Rightarrow> string \<times> string" where
  "group_key item = (c_provider_id (pr_candidate item), c_result_id (pr_candidate item))"

definition version_groups :: "preparedCandidate list \<Rightarrow> preparedCandidate list list" where
  "version_groups items =
     (let scoped = filter (\<lambda>item. pr_member_scope item \<noteq> []) items
      in map (\<lambda>key. filter (\<lambda>item. group_key item = key) scoped) (remdups (map group_key scoped)))"

text \<open>Whether every version of the group is rejected; the loop ends at the first that is not.\<close>

definition group_rejected :: "'x acquire_env \<Rightarrow> acq_request \<Rightarrow> preparedCandidate list \<Rightarrow> ('x, bool) step" where
  "group_rejected E R members =
     bnd (each (\<lambda>item.
         if \<not> pr_group_may_reject item then ret True
         else bnd (lookup_rejection E (memberRequest R (pr_member_scope item)) (pr_candidate item) (pr_member_scope item))
           (\<lambda>found. ret (found = None))) members)
       (\<lambda>open_left. ret (\<not> pr_more_versions (hd members) \<and> \<not> open_left))"

definition rejectExhaustedVersions :: "'x acquire_env \<Rightarrow> acq_request \<Rightarrow> preparedCandidate list \<Rightarrow> ('x, unit) step" where
  "rejectExhaustedVersions E R items =
     bnd (each (\<lambda>members. bnd (group_rejected E R members) (\<lambda>rejected.
         seq (if rejected then bnd (recordCandidateRejection E R (pr_candidate (hd members)) [] versions_exhausted) (\<lambda>_. ret ())
              else ret ()) (ret False))) (version_groups items))
       (\<lambda>_. ret ())"

section \<open>Installing\<close>

definition updateInstallationAssessment ::
  "'x acquire_env \<Rightarrow> Candidate \<Rightarrow> Score \<Rightarrow> ('x, unit) step" where
  "updateInstallationAssessment E candidate score =
     bnd (reads st_existing) (\<lambda>existing.
       let scored = existing\<lparr>in_score_json := av_json_score E score\<rparr>;
           updated = (if c_exact_hash candidate then scored\<lparr>in_sync_json := av_json_sync E exact_sync\<rparr> else scored)
       in bnd (quiet (av_update_assessment E updated)) (\<lambda>err.
            case err of
              Some e \<Rightarrow> stop (WWrapped ''refresh installed candidate assessment'' e)
            | None \<Rightarrow> update (\<lambda>s. s\<lparr>st_existing := updated\<rparr>)))"

text \<open>The refreshed assessment of the installed candidate, as the result reports it.\<close>

definition reassess :: "'x acquire_env \<Rightarrow> Candidate \<Rightarrow> Score \<Rightarrow> ('x, unit) step" where
  "reassess E candidate score =
     seq (updateInstallationAssessment E candidate score)
     (bnd (reads st_existing) (\<lambda>updated.
      bnd (ask (av_now E)) (\<lambda>now.
      set_result (\<lambda>r. setReassessmentResult (av_service E) r updated candidate score now))))"

fun syncedOutputFailure :: "workflow_error \<Rightarrow> bool \<Rightarrow> workflow_error" where
  "syncedOutputFailure (WCandidate (SubtitleValidationError code)) bypass =
     (if bypass then WCandidate (SubtitleValidationError code)
      else if code = [] then WCandidate (SubtitleValidationError ''lapse_invalid_output'')
      else if code = ''partial_coverage'' then WCandidate (SubtitleValidationError ''lapse_partial_coverage'')
      else WCandidate (SubtitleValidationError code))"
| "syncedOutputFailure e bypass = e"

definition subtitleDestination :: "'x acquire_env \<Rightarrow> string \<Rightarrow> language \<Rightarrow> string \<Rightarrow> string" where
  "subtitleDestination E mediaPath lang sourcePath =
     trim_suffix mediaPath (filepath_Ext mediaPath) @ ''.'' @ lang @ lower_ext E sourcePath"

definition reject_install :: "Candidate \<Rightarrow> string \<Rightarrow> ('x, unit) step" where
  "reject_install candidate reason = seq (set_outcome OutcomeRejected) (decide ''installation'' candidate reason)"

definition publish ::
  "'x acquire_env \<Rightarrow> acq_request \<Rightarrow> preparedCandidate \<Rightarrow> Installation \<Rightarrow> bool \<Rightarrow> string \<Rightarrow> ('x, unit) step" where
  "publish E R prepared current installed destination =
     (let identityRequest = (if pr_member_scope prepared \<noteq> [] then memberRequest R (pr_member_scope prepared) else R)
      in bnd (fileChecksum E (pr_path prepared)) (\<lambda>checksum.
        let identity = candidateRejectionIdentity (av_tooling E) (reject_scope_of identityRequest) (pr_candidate prepared) checksum;
            request = \<lparr>ir_fallback = av_fallback_tier E, ir_media_id = rq_media_id (aq_request R), ir_media = aq_media R,
              ir_language = rq_language (aq_request R), ir_source_path = pr_output prepared, ir_destination_path = destination,
              ir_candidate = pr_candidate prepared, ir_score = pr_score prepared, ir_sync_result = pr_sync prepared,
              ir_candidate_signature = rj_candidate_signature identity, ir_artifact_checksum = rj_artifact_checksum identity\<rparr>
        in bnd (call (av_install E request) (\<lambda>answer. [Installed current installed request (\<not> isl answer)])) (\<lambda>answer.
          case answer of
            Err e \<Rightarrow> stop (syncedOutputFailure e (pr_bypass prepared))
          | Ok installation \<Rightarrow>
              bnd (ask (av_now E)) (\<lambda>now. set_result (\<lambda>r. r\<lparr>rs_outcome := OutcomeInstalled, rs_candidate := pr_candidate prepared,
                rs_score := pr_score prepared, rs_sync_result := pr_sync prepared, rs_installation := installation,
                rs_next_upgrade := nextUpgradeAt (av_service E) now (pr_score prepared) (pr_candidate prepared)\<rparr>)))))"

definition install :: "'x acquire_env \<Rightarrow> acq_request \<Rightarrow> preparedCandidate \<Rightarrow> bool \<Rightarrow> ('x, unit) step" where
  "install E R prepared installed =
     bnd (reads st_existing) (\<lambda>current.
       let replacing = rq_replacing (aq_request R);
           existing = (case replacing of Some r \<Rightarrow> r | None \<Rightarrow> current);
           over = (installed \<or> replacing \<noteq> None);
           candidate = pr_candidate prepared;
           destination = (if over then in_path existing
             else subtitleDestination E (fp_path (m_fingerprint (aq_media R))) (rq_language (aq_request R)) (pr_output prepared))
       in if over \<and> \<not> EqualFold (ext_unicode (av_externals E)) (filepath_Ext (in_path existing)) (filepath_Ext (pr_output prepared))
          then reject_install candidate ''format-changing upgrades are not supported''
          else case replacing of
            None \<Rightarrow> publish E R prepared current installed destination
          | Some rejected \<Rightarrow>
              bnd (fileChecksum E (pr_output prepared)) (\<lambda>checksum.
                if checksum = in_checksum rejected then reject_install candidate ''identical to the rejected subtitle''
                else publish E R prepared current installed destination))"

end
