(* ===== verification/Acquire.thy ===== *)
theory Acquire
  imports Acquire_Steps
begin

text \<open>
  One provider tier of a search (\<open>src/internal/workflow/service.go\<close>: \<open>acquire\<close>; \<open>acquisition.go\<close>:
  \<open>tryExactCandidates\<close>): the cached pack, the exact-hash candidates, then the title search with its score tiers.
  A phase answers whether it ended the acquisition. The lookup in the pack cache and the download with its archive
  selection are calls of the environment.
\<close>

section \<open>Failures\<close>

definition is_validation :: "workflow_error \<Rightarrow> bool" where
  "is_validation e \<longleftrightarrow> (case e of WCandidate (SubtitleValidationError _) \<Rightarrow> True | _ \<Rightarrow> False)"

text \<open>A failed download: terminal when the provider state could not be stored, otherwise noted and passed over.\<close>

definition download_failed :: "'x acquire_env \<Rightarrow> acq_request \<Rightarrow> Candidate \<Rightarrow> workflow_error \<Rightarrow> ('x, unit) step" where
  "download_failed E R candidate e =
     seq (check_ctx E)
       (if workflow_find is_availability e \<noteq> None then stop e
        else seq (if snd (unavailableErrors [e])
                  then set_result (\<lambda>r. r\<lparr>rs_provider_errors := map_put (c_provider_id candidate) e (rs_provider_errors r)\<rparr>)
                  else ret ())
          (bnd (recordCandidateRejection E R candidate [] e) (\<lambda>recorded.
            seq (add_unless_rejected e recorded) (candidateFailureDecision E ''candidate'' candidate e))))"

text \<open>Whether the failures of the candidates decide the outcome.\<close>

definition conclude_failures :: "'x acquire_env \<Rightarrow> ('x, bool) step" where
  "conclude_failures E =
     bnd (reads (\<lambda>s. classifyCandidateFailures (st_result s) (map (av_reread E (st_world s)) (st_failures s))))
       (\<lambda>(classified, err, found).
          if \<not> found then ret False
          else seq (set_result (\<lambda>_. classified)) (case err of Some e \<Rightarrow> stop e | None \<Rightarrow> ret True))"

definition throttled :: "gotime \<Rightarrow> ('x, unit) step" where
  "throttled retry = set_result (\<lambda>r. r\<lparr>rs_outcome := OutcomeThrottled, rs_retry_at := retry\<rparr>)"

definition satisfied_by_existing :: "('x, unit) step" where
  "satisfied_by_existing =
     bnd (reads st_existing) (\<lambda>existing. set_result (\<lambda>r. r\<lparr>rs_outcome := OutcomeSatisfied, rs_installation := existing\<rparr>))"

text \<open>Whether the installation ended the search.\<close>

definition settled :: "('x, bool) step" where
  "settled = reads (\<lambda>s. rs_outcome (st_result s) = OutcomeInstalled \<or> rs_outcome (st_result s) = OutcomeSatisfied)"

text \<open>
  An installation of a prepared candidate. A validation failure before publication is the candidate's, every other
  error ends the acquisition. The answer tells whether the search is settled, and the failure otherwise.
\<close>

definition try_install ::
  "'x acquire_env \<Rightarrow> acq_request \<Rightarrow> acq_request \<Rightarrow> preparedCandidate \<Rightarrow> bool \<Rightarrow> ('x, bool \<times> workflow_error option) step" where
  "try_install E R identityRequest item installed =
     bnd (attempt (install E R item installed)) (\<lambda>answer.
       case answer of
         Err e \<Rightarrow>
           if \<not> is_validation e then stop e
           else seq (check_ctx E) (seq (handleCandidateFailure E identityRequest (pr_candidate item) (pr_path item) e)
             (ret (False, Some e)))
       | Ok _ \<Rightarrow> bnd settled (\<lambda>yes. ret (yes, None)))"

section \<open>The cached pack\<close>

definition cached_item :: "'x acquire_env \<Rightarrow> acq_request \<Rightarrow> bool \<Rightarrow> string \<Rightarrow> preparedCandidate \<Rightarrow> ('x, bool) step" where
  "cached_item E R installed workspace item =
     bnd (try_install E R (memberRequest R (pr_member_scope item)) item installed) (\<lambda>(yes, failure).
       if yes then ret True
       else seq (removeWorkflowArtifact E workspace (pr_output item)) (seq (set_outcome []) (ret False)))"

definition install_cached ::
  "'x acquire_env \<Rightarrow> acq_request \<Rightarrow> bool \<Rightarrow> string \<Rightarrow> CachedMember \<Rightarrow> Score \<Rightarrow> ('x, bool) step" where
  "install_cached E R installed workspace cached score =
     (let downloaded = (downloadedCandidate (cm_candidate cached) score 0 (cm_runtime_pack cached))
            \<lparr>pr_from_cache := True, pr_more_versions := cm_more_versions cached,
             pr_member_scope := (if cm_member_scoped cached then ''versions'' else [])\<rparr>
      in bnd (prepareMembers E R downloaded (cm_path cached # cm_alternatives cached) installed workspace (- 100)) (\<lambda>prepared.
        bnd (each (cached_item E R installed workspace) (sortPrepared prepared)) (\<lambda>terminal.
          if terminal then ret True
          else seq (rejectExhaustedVersions E R (sortPrepared prepared)) (ret False))))"

definition cached_member :: "'x acquire_env \<Rightarrow> acq_request \<Rightarrow> bool \<Rightarrow> string \<Rightarrow> CachedMember \<Rightarrow> ('x, bool) step" where
  "cached_member E R installed workspace cached =
     (let candidate = cm_candidate cached; scoped = (if cm_member_scoped cached then memberRequest R (cm_checksum cached) else R);
          score = evaluateCachedMember E (aq_media R) cached (rq_language (aq_request R))
      in bnd (lookup_rejection E scoped candidate (cm_checksum cached)) (\<lambda>found.
        if found \<noteq> None then seq (decide_rejected candidate found) (ret False)
        else if \<not> Eligible score (minimumScore E)
        then seq (decide ''pack_cache'' candidate ''cached candidate score is below threshold or identity was rejected'') (ret False)
        else bnd (reads st_existing) (\<lambda>existing.
          if installed \<and> sameInstalledCandidate existing (aq_media R) candidate then
            seq (reassess E candidate score)
            (seq (update (\<lambda>s. s\<lparr>st_assessed := True\<rparr>))
            (seq (decide ''upgrade'' candidate ''refreshed assessment for installed provider candidate'') (ret False)))
          else if installed then
            bnd (expect (upgrade_allowed E existing (aq_media R) candidate score)) (\<lambda>allowed.
              if allowed then install_cached E R installed workspace cached score else ret False)
          else install_cached E R installed workspace cached score)))"

definition cached_phase :: "'x acquire_env \<Rightarrow> acq_request \<Rightarrow> bool \<Rightarrow> string \<Rightarrow> ('x, bool) step" where
  "cached_phase E R installed workspace =
     (case av_find_pack E of
        None \<Rightarrow> ret False
      | Some find_pack \<Rightarrow>
          if ref_kind (m_ref (aq_media R)) \<noteq> MediaEpisode then ret False
          else bnd (quiet (find_pack R)) (\<lambda>answer.
            seq (add_decisions (pa_decisions answer))
              (case pa_lookup_error answer of
                 Some e \<Rightarrow> stop e
               | None \<Rightarrow> (case pa_cache_error answer of
                     Some text \<Rightarrow> seq (decide ''pack_cache'' zero_candidate text) (ret False)
                   | None \<Rightarrow> (case pa_member answer of
                         None \<Rightarrow> ret False
                       | Some cached \<Rightarrow> cached_member E R installed workspace cached)))))"

section \<open>Exact-hash candidates\<close>

definition collect_records :: "(workflow_error, CandidateRecord) result list \<Rightarrow> (workflow_error, CandidateRecord list) result" where
  "collect_records rs = foldr (\<lambda>r rest. case r of Err e \<Rightarrow> Err e | Ok x \<Rightarrow> (case rest of Err e \<Rightarrow> Err e | Ok xs \<Rightarrow> Ok (x # xs))) rs (Ok [])"

definition scored_record :: "'x acquire_env \<Rightarrow> Candidate \<Rightarrow> Score \<Rightarrow> (workflow_error, CandidateRecord) result" where
  "scored_record E candidate score = candidateRecord E candidate score (Eligible score (minimumScore E))"

definition record_exact :: "'x acquire_env \<Rightarrow> acq_request \<Rightarrow> SearchResult \<Rightarrow> ('x, unit) step" where
  "record_exact E R search =
     bnd (expect (collect_records (map (\<lambda>c. scored_record E c (service_evaluate E (aq_media R) c (rq_language (aq_request R))))
            (filter c_exact_hash (sx_candidates search))))) (\<lambda>records.
       bnd (reads (\<lambda>s. mergeCandidateRecords (st_exact_records s) records)) (\<lambda>merged.
         seq (update (\<lambda>s. s\<lparr>st_exact_records := merged\<rparr>))
           (if merged \<noteq> [] then record_all E R merged else ret ())))"

definition exact_downloaded ::
  "'x acquire_env \<Rightarrow> acq_request \<Rightarrow> bool \<Rightarrow> string \<Rightarrow> int \<Rightarrow> Candidate \<Rightarrow> Score \<Rightarrow> string \<Rightarrow> bool \<Rightarrow> ('x, bool) step" where
  "exact_downloaded E R installed workspace index candidate score path runtimePack =
     (let item = (downloadedCandidate candidate score (priority_of E (c_provider_id candidate)) runtimePack)\<lparr>pr_path := path\<rparr>
      in seq (checkMediaAvailable E R)
        (bnd (beginCandidatePreparation E R candidate path) (\<lambda>fresh.
          if \<not> fresh then seq (removeWorkflowArtifact E workspace path) (ret False)
          else bnd (attempt (prepareCandidate E R item installed workspace (- index - 2))) (\<lambda>answer.
            case answer of
              Err e \<Rightarrow> seq (handleCandidateFailure E R candidate path e)
                (seq (removeWorkflowArtifact E workspace path) (ret False))
            | Ok prepared \<Rightarrow>
                bnd (try_install E R R prepared installed) (\<lambda>(yes, failure).
                  if yes then ret True
                  else seq (removeWorkflowArtifact E workspace path)
                    (seq (case failure of Some e \<Rightarrow> candidateFailureDecision E ''installation'' candidate e | None \<Rightarrow> set_outcome [])
                      (ret False)))))))"

definition exact_candidate ::
  "'x acquire_env \<Rightarrow> acq_request \<Rightarrow> bool \<Rightarrow> string \<Rightarrow> nat \<times> Candidate \<Rightarrow> ('x, bool) step" where
  "exact_candidate E R installed workspace numbered =
     (let (n, candidate) = numbered; index = int n;
          score = service_evaluate E (aq_media R) candidate (rq_language (aq_request R))
      in seq (check_ctx E) (seq (checkMediaAvailable E R)
        (if \<not> c_exact_hash candidate then ret False
         else if \<not> Eligible score (minimumScore E) then ret False
         else bnd (reads st_existing) (\<lambda>existing.
           if installed \<and> sameInstalledCandidate existing (aq_media R) candidate then
             seq (reassess E candidate score)
             (seq (set_outcome OutcomeSatisfied)
             (seq (decide ''upgrade'' candidate ''refreshed assessment for installed provider candidate'') (ret True)))
           else bnd (lookup_rejection E R candidate []) (\<lambda>found.
             if found \<noteq> None then seq (decide_rejected candidate found) (ret False)
             else bnd (call (av_download E R candidate workspace (- index - 1)) (\<lambda>_. [Fetched candidate (- index - 1)])) (\<lambda>answer.
               seq (add_decisions (da_decisions answer))
                 (case da_paths answer of
                    Err e \<Rightarrow> seq (download_failed E R candidate e) (ret False)
                  | Ok paths \<Rightarrow> exact_downloaded E R installed workspace index candidate score (hd paths) (da_runtime_pack answer))))))))"

definition tryExactCandidates :: "'x acquire_env \<Rightarrow> acq_request \<Rightarrow> bool \<Rightarrow> string \<Rightarrow> SearchResult \<Rightarrow> ('x, bool) step" where
  "tryExactCandidates E R installed workspace search =
     seq (record_exact E R search) (each (exact_candidate E R installed workspace) (enumerate 0 (sx_candidates search)))"

definition search_query :: "acq_request \<Rightarrow> Media \<Rightarrow> search_mode \<Rightarrow> SearchQuery" where
  "search_query R media mode =
     \<lparr>qu_media = media, qu_language = rq_language (aq_request R), qu_mode = mode,
      qu_skip_providers = rq_resume_providers (aq_request R)\<rparr>"

definition check_search :: "'x acquire_env \<Rightarrow> acq_request \<Rightarrow> search_mode \<Rightarrow> SearchResult \<Rightarrow> ('x, unit) step" where
  "check_search E R mode search =
     seq (update (\<lambda>s. s\<lparr>st_resume := consume mode search (st_resume s)\<rparr>))
     (seq (must_be (\<lambda>_. searchPersistenceFailure (sx_errors search)))
     (seq (check_ctx E) (checkMediaAvailable E R)))"

definition exact_phase :: "'x acquire_env \<Rightarrow> acq_request \<Rightarrow> bool \<Rightarrow> string \<Rightarrow> ('x, bool) step" where
  "exact_phase E R installed workspace =
     bnd (quiet (av_search E (search_query R (aq_media R) SearchExactHash))) (\<lambda>exact.
       seq (check_search E R SearchExactHash exact) (tryExactCandidates E R installed workspace exact))"

section \<open>The title search\<close>

text \<open>The second search under the release's own numbering, and the request that remembers it.\<close>

definition broad_search :: "'x acquire_env \<Rightarrow> acq_request \<Rightarrow> ('x, SearchResult \<times> acq_request) step" where
  "broad_search E R =
     bnd (quiet (av_search E (search_query R (aq_media R) SearchBroad))) (\<lambda>search.
     bnd (ask (av_ctx_err E)) (\<lambda>ctx.
       case releaseNumberedMedia (av_release_episode E) (aq_media R) of
         None \<Rightarrow> ret (search, R)
       | Some release \<Rightarrow>
           if tl_syncDisabled E \<or> searchPersistenceFailure (sx_errors search) \<noteq> None \<or> ctx \<noteq> None then ret (search, R)
           else bnd (quiet (av_search E (search_query R release SearchBroad))) (\<lambda>releaseSearch.
             seq (must_be (\<lambda>_. searchPersistenceFailure (sx_errors releaseSearch)))
               (ret (mergeReleaseNumberedSearch search releaseSearch (m_season release) (m_season (aq_media R)),
                     R\<lparr>aq_release_media := Some release\<rparr>)))))"

definition workflow_errors :: "SearchResult \<Rightarrow> (string \<times> workflow_error) list" where
  "workflow_errors search = map (\<lambda>(i, e). (i, WProvider e)) (sx_errors search)"

text \<open>A search that waits for a skipped provider.\<close>

definition skipped_retry :: "acq_request \<Rightarrow> bool \<Rightarrow> SearchResult \<Rightarrow> Installation \<Rightarrow> gotime \<times> bool" where
  "skipped_retry R installed search existing =
     skippedProviderRetry (workflow_errors search) (installed \<and> InstallationMatchesMedia existing (aq_media R))"

definition nothing_found :: "'x acquire_env \<Rightarrow> acq_request \<Rightarrow> bool \<Rightarrow> SearchResult \<Rightarrow> int \<Rightarrow> ('x, unit) step" where
  "nothing_found E R installed search providerCount =
     bnd (reads id) (\<lambda>s.
       let exactRecords = st_exact_records s; errors = workflow_errors search;
           (retry, allUnavailable) = allProvidersUnavailable errors providerCount;
           (reset, skipped) = skipped_retry R installed search (st_existing s)
       in seq (if exactRecords \<noteq> [] \<or> providerCount = 0 \<or> int (length errors) < providerCount
               then record_all E R exactRecords else ret ())
         (if st_assessed s then satisfied_by_existing
          else if allUnavailable then throttled retry
          else if providerCount > 0 \<and> int (length errors) \<ge> providerCount
          then stop (WExhausted [WOther (''all '' @ itoa providerCount @ '' assigned subtitle providers failed'')])
          else if skipped then throttled reset
          else bnd (conclude_failures E) (\<lambda>found.
            if found then ret ()
            else if exactRecords \<noteq> [] then set_outcome OutcomeRejected
            else set_outcome OutcomeNoResult)))"

definition evaluated_candidates :: "'x acquire_env \<Rightarrow> acq_request \<Rightarrow> SearchResult \<Rightarrow> EvaluatedCandidate list" where
  "evaluated_candidates E R search =
     map (\<lambda>candidate. \<lparr>ev_candidate = candidate,
            ev_score = service_evaluate E (candidateMedia (aq_media R) (aq_release_media R) candidate) candidate (rq_language (aq_request R)),
            ev_priority = priority_of E (c_provider_id candidate)\<rparr>) (sx_candidates search)"

definition record_broad :: "'x acquire_env \<Rightarrow> acq_request \<Rightarrow> EvaluatedCandidate list \<Rightarrow> ('x, unit) step" where
  "record_broad E R evaluated =
     bnd (expect (collect_records (map (\<lambda>item. scored_record E (ev_candidate item) (ev_score item)) evaluated))) (\<lambda>records.
       bnd (reads (\<lambda>s. mergeCandidateRecords (st_exact_records s) records)) (record_all E R))"

text \<open>The installed candidate, when the search found it again, gets its score refreshed.\<close>

definition reassess_installed :: "'x acquire_env \<Rightarrow> acq_request \<Rightarrow> bool \<Rightarrow> EvaluatedCandidate list \<Rightarrow> ('x, unit) step" where
  "reassess_installed E R installed ranked =
     bnd (reads st_existing) (\<lambda>existing.
       if installed \<and> InstallationMatchesMedia existing (aq_media R) then
         (case find (\<lambda>item. Eligible (ev_score item) (minimumScore E) \<and> sameInstalledCandidate existing (aq_media R) (ev_candidate item)) ranked of
            None \<Rightarrow> ret ()
          | Some item \<Rightarrow>
              seq (reassess E (ev_candidate item) (ev_score item))
              (seq (update (\<lambda>s. s\<lparr>st_assessed := True\<rparr>))
                (decide ''upgrade'' (ev_candidate item) ''refreshed assessment for installed provider candidate'')))
       else ret ())"

definition not_rejected :: "'x acquire_env \<Rightarrow> acq_request \<Rightarrow> EvaluatedCandidate \<Rightarrow> EvaluatedCandidate list
  \<Rightarrow> ('x, EvaluatedCandidate list) step" where
  "not_rejected E R item eligible =
     bnd (lookup_rejection E R (ev_candidate item) []) (\<lambda>found.
       if found \<noteq> None then seq (decide_rejected (ev_candidate item) found) (ret eligible) else ret (eligible @ [item]))"

definition add_eligible ::
  "'x acquire_env \<Rightarrow> acq_request \<Rightarrow> bool \<Rightarrow> EvaluatedCandidate \<Rightarrow> EvaluatedCandidate list \<Rightarrow> ('x, EvaluatedCandidate list) step" where
  "add_eligible E R installed item eligible =
     (if \<not> Eligible (ev_score item) (minimumScore E) then ret eligible
      else if installed then
        bnd (reads st_existing) (\<lambda>existing.
          if sameInstalledCandidate existing (aq_media R) (ev_candidate item)
          then seq (decide ''upgrade'' (ev_candidate item) ''provider candidate is already installed'') (ret eligible)
          else bnd (expect (upgrade_allowed E existing (aq_media R) (ev_candidate item) (ev_score item))) (\<lambda>allowed.
            if \<not> allowed then ret eligible else not_rejected E R item eligible))
      else not_rejected E R item eligible)"

text \<open>The candidates that may be downloaded: the first exact one alone, or the best three.\<close>

definition shortlist :: "EvaluatedCandidate list \<Rightarrow> EvaluatedCandidate list" where
  "shortlist eligible =
     (case find (\<lambda>item. c_exact_hash (ev_candidate item)) eligible of
        Some item \<Rightarrow> [item]
      | None \<Rightarrow> take 3 eligible)"

definition item_total :: "nat \<times> EvaluatedCandidate \<Rightarrow> int" where
  "item_total numbered = sc_total (ev_score (snd numbered))"

text \<open>Runs of equal scores.\<close>

function score_tiers :: "(nat \<times> EvaluatedCandidate) list \<Rightarrow> (nat \<times> EvaluatedCandidate) list list" where
  "score_tiers [] = []"
| "score_tiers (x # xs) =
     (x # takeWhile (\<lambda>y. item_total y = item_total x) xs) # score_tiers (dropWhile (\<lambda>y. item_total y = item_total x) xs)"
  by pat_completeness auto
termination by (relation "measure length") (auto simp: le_imp_less_Suc length_dropWhile_le)

definition tier_candidate ::
  "'x acquire_env \<Rightarrow> acq_request \<Rightarrow> bool \<Rightarrow> string \<Rightarrow> nat \<times> EvaluatedCandidate \<Rightarrow> nat \<Rightarrow> ('x, preparedCandidate list \<times> bool) step" where
  "tier_candidate E R installed workspace numbered left =
     (let (n, item) = numbered; index = int n; candidate = ev_candidate item
      in seq (check_ctx E) (seq (checkMediaAvailable E R)
        (bnd (call (av_download E R candidate workspace index) (\<lambda>_. [Fetched candidate index])) (\<lambda>answer.
          seq (add_decisions (da_decisions answer))
            (case da_paths answer of
               Err e \<Rightarrow> seq (download_failed E R candidate e) (ret ([], False))
             | Ok paths \<Rightarrow>
                 let downloaded = (downloadedCandidate candidate (ev_score item) (ev_priority item) (da_runtime_pack answer))
                       \<lparr>pr_more_versions := da_more_versions answer\<rparr>
                 in bnd (prepareMembers E R downloaded paths installed workspace (index * 4)) (\<lambda>prepared.
                   case excellentSync prepared of
                     Some best \<Rightarrow>
                       if left > 0 then
                         seq (decide ''early_accept'' (pr_candidate best) (''LAPSE confidence ''
                             @ av_three_decimals E (sy_confidence (pr_sync best)) @ ''; '' @ itoa (int left)
                             @ '' tied candidates not checked'')) (ret (prepared, True))
                       else ret (prepared, False)
                   | None \<Rightarrow> ret (prepared, False)))))))"

definition remove_both :: "'x acquire_env \<Rightarrow> string \<Rightarrow> preparedCandidate \<Rightarrow> ('x, unit) step" where
  "remove_both E workspace item =
     bnd (attempt (removeWorkflowArtifact E workspace (pr_path item))) (\<lambda>source.
     bnd (attempt (removeWorkflowArtifact E workspace (pr_output item))) (\<lambda>output.
       case join_errors (case source of Err e \<Rightarrow> Some e | Ok _ \<Rightarrow> None) (case output of Err e \<Rightarrow> Some e | Ok _ \<Rightarrow> None) of
         Some e \<Rightarrow> stop e | None \<Rightarrow> ret ()))"

definition tier_item :: "'x acquire_env \<Rightarrow> acq_request \<Rightarrow> bool \<Rightarrow> string \<Rightarrow> nat \<Rightarrow> nat \<times> preparedCandidate \<Rightarrow> ('x, bool) step" where
  "tier_item E R installed workspace many numbered =
     (let (n, item) = numbered; candidate = pr_candidate item
      in seq (check_ctx E)
        (bnd (try_install E R (memberRequest R (pr_member_scope item)) item installed) (\<lambda>(yes, failure).
          if yes then
            seq (decide ''early_stop'' candidate (''installed from score '' @ itoa (sc_total (pr_score item)) @ ''; lower tiers skipped''))
              (ret True)
          else
            seq (case failure of Some e \<Rightarrow> candidateFailureDecision E ''installation'' candidate e | None \<Rightarrow> ret ())
            (seq (remove_both E workspace item)
            (seq (set_outcome [])
            (seq (if n + 1 < many then decide ''fallback'' zero_candidate ''next candidate in tier'' else ret ()) (ret False)))))))"

definition tournament_tier ::
  "'x acquire_env \<Rightarrow> acq_request \<Rightarrow> bool \<Rightarrow> string \<Rightarrow> nat \<Rightarrow> nat \<times> (nat \<times> EvaluatedCandidate) list \<Rightarrow> ('x, bool) step" where
  "tournament_tier E R installed workspace many numbered =
     (let (n, tier) = numbered
      in seq (decide ''tournament_tier'' zero_candidate (''evaluating score '' @ itoa (item_total (hd tier))))
        (bnd (gather (tier_candidate E R installed workspace) tier) (\<lambda>prepared.
          bnd (each (tier_item E R installed workspace (length prepared)) (enumerate 0 (sortPrepared prepared))) (\<lambda>terminal.
            if terminal then ret True
            else seq (rejectExhaustedVersions E R (sortPrepared prepared))
              (if n + 1 < many then seq (check_ctx E) (seq (decide ''fallback'' zero_candidate ''next score tier'') (ret False))
               else ret False)))))"

definition tournament :: "'x acquire_env \<Rightarrow> acq_request \<Rightarrow> bool \<Rightarrow> string \<Rightarrow> EvaluatedCandidate list \<Rightarrow> ('x, unit) step" where
  "tournament E R installed workspace eligible =
     (let tiers = score_tiers (enumerate 0 (shortlist eligible))
      in bnd (each (tournament_tier E R installed workspace (length tiers)) (enumerate 0 tiers)) (\<lambda>terminal.
        if terminal then ret ()
        else bnd (conclude_failures E) (\<lambda>found. if found then ret () else set_outcome OutcomeRejected)))"

definition none_eligible :: "'x acquire_env \<Rightarrow> acq_request \<Rightarrow> bool \<Rightarrow> SearchResult \<Rightarrow> ('x, unit) step" where
  "none_eligible E R installed search =
     bnd (reads id) (\<lambda>s.
       let (reset, skipped) = skipped_retry R installed search (st_existing s)
       in if st_assessed s then satisfied_by_existing
          else if skipped then throttled reset
          else bnd (conclude_failures E) (\<lambda>found. if found then ret () else set_outcome OutcomeRejected))"

definition broad_phase :: "'x acquire_env \<Rightarrow> acq_request \<Rightarrow> bool \<Rightarrow> string \<Rightarrow> ('x, unit) step" where
  "broad_phase E R0 installed workspace =
     bnd (broad_search E R0) (\<lambda>(search, R).
     seq (check_search E R SearchBroad search)
     (seq (set_result (\<lambda>r. r\<lparr>rs_provider_errors := workflow_errors search\<rparr>))
     (if sx_candidates search = [] then nothing_found E R installed search (applicableProviderCount E R search)
      else
        let evaluated = evaluated_candidates E R search; ranked = Rank evaluated
        in seq (record_broad E R evaluated)
          (seq (reassess_installed E R installed ranked)
          (bnd (carry (add_eligible E R installed) ranked []) (\<lambda>eligible.
            if eligible = [] then none_eligible E R installed search
            else tournament E R installed workspace eligible))))))"

section \<open>One tier\<close>

definition acquire_body :: "'x acquire_env \<Rightarrow> acq_request \<Rightarrow> bool \<Rightarrow> string \<Rightarrow> ('x, unit) step" where
  "acquire_body E R installed workspace =
     bnd (cached_phase E R installed workspace) (\<lambda>terminal.
       if terminal then ret ()
       else bnd (exact_phase E R installed workspace) (\<lambda>settled_by_hash.
         if settled_by_hash then ret () else broad_phase E R installed workspace))"

definition acquire_run :: "'x acquire_env \<Rightarrow> acq_request \<Rightarrow> bool \<Rightarrow> ('x, unit) step" where
  "acquire_run E R installed =
     bnd (quiet (av_make_workspace E)) (\<lambda>made.
       case made of
         Err e \<Rightarrow> stop (WWrapped ''create candidate workspace'' e)
       | Ok workspace \<Rightarrow>
           bnd (attempt (acquire_body E R installed workspace)) (\<lambda>answer.
             seq (quiet (\<lambda>w. ((), av_remove_workspace E workspace w))) (expect answer)))"

definition initial_state ::
  "Installation \<Rightarrow> CandidateRejection list \<Rightarrow> workflow_error option \<Rightarrow> 'x \<Rightarrow> 'x acq_state" where
  "initial_state existing attempted latch w =
     \<lparr>st_world = w, st_calls = [], st_result = zero_result, st_failures = [], st_exact_records = [], st_existing = existing,
      st_assessed = False, st_attempted = attempted, st_latch = latch, st_resume = zero_accumulator\<rparr>"

text \<open>
  The result, the error and the state left behind; the artifacts attempted and the LAPSE timeout belong to the run
  and go on to its next tier.
\<close>

definition acquire ::
  "'x acquire_env \<Rightarrow> Request \<Rightarrow> Installation \<Rightarrow> bool \<Rightarrow> CandidateRejection list \<Rightarrow> workflow_error option \<Rightarrow> 'x
   \<Rightarrow> (Result \<times> workflow_error option) \<times> 'x acq_state" where
  "acquire E request existing installed attempted latch w =
     (let R = \<lparr>aq_request = request, aq_release_media = None, aq_member_scope = []\<rparr>;
          (answer, s) = acquire_run E R installed (initial_state existing attempted latch w);
          result = (st_result s)\<lparr>rs_clean_empty_providers := cleanEmpty (st_resume s) (sv_provider_order (av_service E))\<rparr>
      in ((result, case answer of Err e \<Rightarrow> Some e | Ok _ \<Rightarrow> None), s))"

end
