(* ===== verification/Acquire_Inv.thy ===== *)
theory Acquire_Inv
  imports Acquire
begin

text \<open>
  The invariant of an acquisition. It speaks of the list of calls made so far: what was installed and why, which
  downloads a rejection lookup preceded, and that LAPSE stops after a timeout. \<open>side\<close> holds of the steps that only look
  up rejections, run LAPSE, or touch the rest of the state; \<open>Inv\<close> is what the phases of \<open>Acquire_Props\<close> keep.
\<close>

section \<open>What the calls say\<close>

fun side_call :: "acq_call \<Rightarrow> bool" where
  "side_call (Checked identity found) = True"
| "side_call (Timed candidate answer) = True"
| "side_call _ = False"

fun timed_out :: "acq_call \<Rightarrow> bool" where
  "timed_out (Timed candidate (Inl e)) = is_timeout e"
| "timed_out _ = False"

fun is_timed :: "acq_call \<Rightarrow> bool" where
  "is_timed (Timed candidate answer) = True"
| "is_timed _ = False"

fun lapse_stops :: "acq_call list \<Rightarrow> bool" where
  "lapse_stops [] = True"
| "lapse_stops (c # cs) \<longleftrightarrow> (timed_out c \<longrightarrow> \<not> list_ex is_timed cs) \<and> lapse_stops cs"

fun installed_ok :: "acq_call \<Rightarrow> bool" where
  "installed_ok (Installed existing installed request ok) = ok"
| "installed_ok _ = False"

fun title_fetch :: "acq_call \<Rightarrow> bool" where
  "title_fetch (Fetched candidate index) \<longleftrightarrow> 0 \<le> index"
| "title_fetch _ = False"

definition title_fetches :: "acq_call list \<Rightarrow> nat" where
  "title_fetches calls = length (filter title_fetch calls)"

definition whole_identity :: "'x acquire_env \<Rightarrow> acq_request \<Rightarrow> Candidate \<Rightarrow> CandidateRejection" where
  "whole_identity E R candidate =
     candidateRejectionIdentity (av_tooling E) (reject_scope_of (memberRequest R [])) candidate []"

definition fetches_checked :: "'x acquire_env \<Rightarrow> acq_request \<Rightarrow> acq_call list \<Rightarrow> bool" where
  "fetches_checked E R calls \<longleftrightarrow>
     (\<forall>pre candidate index post. calls = pre @ Fetched candidate index # post
        \<longrightarrow> Checked (whole_identity E R candidate) False \<in> set pre)"

definition sync_justified ::
  "'x acquire_env \<Rightarrow> acq_request \<Rightarrow> bool \<Rightarrow> acq_call list \<Rightarrow> Candidate \<Rightarrow> Score \<Rightarrow> SyncResult \<Rightarrow> bool" where
  "sync_justified E R installed calls candidate score sync \<longleftrightarrow>
     (if c_exact_hash candidate then sync = exact_sync
      else if tl_syncDisabled E then sync = disabled_sync
      else (\<not> c_release_numbered candidate
            \<and> canBypassLapse (av_externals E) (aq_media R) candidate score installed (normalized (tl_policy (av_tooling E)))
            \<and> sync = bypass_sync)
           \<or> (sy_verdict sync = ''solid'' \<and> Timed candidate (Ok sync) \<in> set calls))"

definition own_score :: "'x acquire_env \<Rightarrow> acq_request \<Rightarrow> Candidate \<Rightarrow> Score \<Rightarrow> bool" where
  "own_score E R candidate score \<longleftrightarrow>
     (let lang = rq_language (aq_request R)
      in score = service_evaluate E (aq_media R) candidate lang
         \<or> (\<exists>release. releaseNumberedMedia (av_release_episode E) (aq_media R) = Some release
              \<and> c_release_numbered candidate \<and> score = service_evaluate E release candidate lang)
         \<or> score = apply_hearing_policy E candidate (EvaluateSelectedPackMember (av_externals E) (aq_media R) candidate lang))"

definition wanted ::
  "'x acquire_env \<Rightarrow> acq_request \<Rightarrow> bool \<Rightarrow> Installation \<Rightarrow> Candidate \<Rightarrow> Score \<Rightarrow> bool" where
  "wanted E R installed existing candidate score \<longleftrightarrow>
     own_score E R candidate score \<and> Eligible score (minimumScore E)
     \<and> (installed \<longrightarrow> \<not> sameInstalledCandidate existing (aq_media R) candidate
          \<and> upgrade_allowed E existing (aq_media R) candidate score = Ok True)"

fun install_sound :: "'x acquire_env \<Rightarrow> acq_request \<Rightarrow> acq_call list \<Rightarrow> acq_call \<Rightarrow> bool" where
  "install_sound E R calls (Installed existing installed request ok) \<longleftrightarrow>
     wanted E R installed existing (ir_candidate request) (ir_score request)
     \<and> sync_justified E R installed calls (ir_candidate request) (ir_score request) (ir_sync_result request)"
| "install_sound E R calls _ \<longleftrightarrow> True"

text \<open>Every installation is justified by the calls that came before it.\<close>

definition installs_sound :: "'x acquire_env \<Rightarrow> acq_request \<Rightarrow> acq_call list \<Rightarrow> bool" where
  "installs_sound E R calls \<longleftrightarrow> (\<forall>pre c post. calls = pre @ c # post \<longrightarrow> install_sound E R pre c)"

definition fit :: "'x acquire_env \<Rightarrow> acq_request \<Rightarrow> bool \<Rightarrow> 'x acq_state \<Rightarrow> preparedCandidate \<Rightarrow> bool" where
  "fit E R installed s p \<longleftrightarrow>
     wanted E R installed (st_existing s) (pr_candidate p) (pr_score p)
     \<and> sync_justified E R installed (st_calls s) (pr_candidate p) (pr_score p) (pr_sync p)"

section \<open>Steps on the side\<close>

text \<open>After a timeout, one of this acquisition or one of an earlier tier (\<open>L\<close>), LAPSE does not run.\<close>

definition lapse_inv :: "workflow_error option \<Rightarrow> 'x acq_state \<Rightarrow> bool" where
  "lapse_inv L s \<longleftrightarrow>
     (if L = None then lapse_stops (st_calls s)
        \<and> st_latch s = (if list_ex timed_out (st_calls s) then Some (WCandidate TimeoutError) else None)
      else \<not> list_ex is_timed (st_calls s) \<and> st_latch s = L)"

definition moves :: "'x acq_state \<Rightarrow> 'x acq_state \<Rightarrow> bool" where
  "moves s0 s \<longleftrightarrow>
     (\<exists>cs. st_calls s = st_calls s0 @ cs \<and> list_all side_call cs)
     \<and> rs_outcome (st_result s) = rs_outcome (st_result s0) \<and> st_existing s = st_existing s0
     \<and> (\<forall>L. lapse_inv L s0 \<longrightarrow> lapse_inv L s)"

lemma moves_refl [simp]: "moves s s"
  by (simp add: moves_def)

lemma moves_trans: "\<lbrakk>moves s0 s1; moves s1 s2\<rbrakk> \<Longrightarrow> moves s0 s2"
  by (auto simp: moves_def)

definition side :: "('x, 'a) step \<Rightarrow> bool" where
  "side f \<longleftrightarrow> (\<forall>s0. keeps (moves s0) f)"

lemma side_rules:
  "side (ret a)" "side (stop e)" "side (reads g)" "side (expect r)"
  "\<lbrakk>side f; \<And>a. side (k a)\<rbrakk> \<Longrightarrow> side (bnd f k)"
  "\<lbrakk>side u; side f\<rbrakk> \<Longrightarrow> side (seq u f)"
  "side f \<Longrightarrow> side (attempt f)"
  "(\<And>x. x \<in> set xs \<Longrightarrow> side (body x)) \<Longrightarrow> side (each body xs)"
  "(\<And>x a. x \<in> set xs \<Longrightarrow> side (loop x a)) \<Longrightarrow> side (carry loop xs b)"
  "\<lbrakk>c \<Longrightarrow> side f; \<not> c \<Longrightarrow> side g'\<rbrakk> \<Longrightarrow> side (if c then f else g')"
  by (auto simp: side_def intro!: keeps_rules)


lemma side_update: "(\<And>s. moves s (f s)) \<Longrightarrow> side (update f)"
  by (auto simp: side_def intro!: keeps_update intro: moves_trans)

lemma side_case_option: "\<lbrakk>side f; \<And>x. side (g x)\<rbrakk> \<Longrightarrow> side (case a of None \<Rightarrow> f | Some x \<Rightarrow> g x)"
  by (simp split: option.split)

lemma side_case_sum: "\<lbrakk>\<And>x. side (f x); \<And>x. side (g x)\<rbrakk> \<Longrightarrow> side (case a of Inl x \<Rightarrow> f x | Inr x \<Rightarrow> g x)"
  by (simp split: sum.split)

lemma side_case_prod: "(\<And>x y. side (f x y)) \<Longrightarrow> side (case a of (x, y) \<Rightarrow> f x y)"
  by (simp split: prod.split)

lemma side_Let: "(\<And>x. side (f x)) \<Longrightarrow> side (let x = a in f x)"
  by simp

lemma moves_quiet: "moves s (s\<lparr>st_world := w\<rparr>)" "moves s (s\<lparr>st_failures := fs\<rparr>)" "moves s (s\<lparr>st_attempted := ats\<rparr>)"
  "moves s (s\<lparr>st_exact_records := rs\<rparr>)" "moves s (s\<lparr>st_assessed := b\<rparr>)" "moves s (s\<lparr>st_resume := acc\<rparr>)"
  by (simp_all add: moves_def lapse_inv_def)

lemma lapse_stops_append: "lapse_stops (cs @ [c]) \<longleftrightarrow> lapse_stops cs \<and> (is_timed c \<longrightarrow> \<not> list_ex timed_out cs)"
  by (induction cs) auto

lemma timed_out_is_timed: "timed_out c \<Longrightarrow> is_timed c"
  by (cases c rule: timed_out.cases) auto

lemma side_call_quiet: "side (quiet f)"
proof -
  have "moves s0 (snd (quiet f s))" if "moves s0 s" for s0 s
    using moves_trans [OF that moves_quiet(1)] by (simp add: call_def split_def Let_def)
  then show ?thesis by (simp add: side_def keeps_def)
qed

lemma side_note: "side_call c \<Longrightarrow> \<not> is_timed c \<Longrightarrow> side (note_call c)"
  unfolding note_call_def
  by (rule side_update) (auto simp: moves_def lapse_inv_def lapse_stops_append dest: timed_out_is_timed)

lemma side_ask: "side (ask f)"
  by (simp add: ask_def side_rules)

lemma side_set_result: "(\<And>r. rs_outcome (f r) = rs_outcome r) \<Longrightarrow> side (set_result f)"
  unfolding set_result_def by (rule side_update) (simp add: moves_def lapse_inv_def)

lemmas side_intros = side_rules side_case_option side_case_sum side_case_prod side_Let side_call_quiet side_ask

lemma side_must: "side (must f)" "side (must_be g)"
  by (simp_all add: must_def must_be_def side_intros)

lemma side_add_decisions: "side (add_decisions ds)"
  unfolding add_decisions_def by (rule side_set_result) simp

lemma side_decide: "side (decide stage candidate reason)"
  by (simp add: decide_def side_add_decisions)

lemma side_add_failure: "side (add_failure e)"
  unfolding add_failure_def by (rule side_update) (rule moves_quiet)

lemmas side_basic = side_must side_add_decisions side_decide side_add_failure

lemma side_checks: "side (check_ctx E)" "side (checkMediaAvailable E R)" "side (fileChecksum E path)"
  by (simp_all add: check_ctx_def checkMediaAvailable_def fileChecksum_def side_must side_intros)

lemma side_record_all: "side (record_all E R records)"
  by (simp add: record_all_def side_must)

lemma side_lookup: "side (lookup_rejection E R candidate artifact)"
  unfolding lookup_rejection_def by (intro side_intros side_note) simp_all

lemma side_record_rejection: "side (recordCandidateRejection E R candidate artifact failure)"
  unfolding recordCandidateRejection_def by (intro side_intros side_must)

lemma side_add_unless: "side (add_unless_rejected failure recorded)"
  unfolding add_unless_rejected_def by (intro side_intros side_add_failure)

lemma side_handle: "side (handleCandidateFailure E R candidate path failure)"
  unfolding handleCandidateFailure_def
  by (intro side_intros side_basic side_checks side_record_rejection side_add_unless)

lemma side_begin: "side (beginCandidatePreparation E R candidate path)"
  unfolding beginCandidatePreparation_def by (intro side_intros side_checks side_update moves_quiet)

lemma side_remove: "side (removeWorkflowArtifact E workspace path)"
  unfolding removeWorkflowArtifact_def by (intro side_intros side_must)

lemma side_decide_rejected: "side (decide_rejected candidate found)"
  unfolding decide_rejected_def by (intro side_intros side_decide)

lemma side_failure_decision: "side (candidateFailureDecision E stage candidate failure)"
  by (simp add: candidateFailureDecision_def side_decide)

lemmas side_steps = side_basic side_checks side_record_all side_lookup side_record_rejection side_add_unless side_handle
  side_begin side_remove side_decide_rejected side_failure_decision

section \<open>Preparation\<close>

lemma side_check_wanted: "side (check_wanted E R item installed)"
  unfolding check_wanted_def by (intro side_intros)

lemma lapse_inv_timed:
  assumes "st_latch s = None" "lapse_inv L s" "st_calls s' = st_calls s @ [Timed candidate answer]"
    and "st_latch s' = (if timed_out (Timed candidate answer) then Some (WCandidate TimeoutError) else None)"
  shows "lapse_inv L s'"
proof -
  have "L = None" "\<not> list_ex timed_out (st_calls s)" "lapse_stops (st_calls s)"
    using assms(1,2) by (simp_all add: lapse_inv_def split: if_splits)
  with assms(3,4) show ?thesis by (simp add: lapse_inv_def lapse_stops_append)
qed

lemma side_run_lapse: "side (run_lapse E R candidate path output)"
proof -
  have "moves s0 (snd (run_lapse E R candidate path output s))" if s: "moves s0 s" for s0 s
  proof (cases "st_latch s")
    case None
    obtain answer w where a: "av_synchronize E candidate (fp_path (m_fingerprint (aq_media R))) path output (st_world s) = (answer, w)"
      by force
    let ?s1 = "s\<lparr>st_world := w, st_calls := st_calls s @ [Timed candidate answer]\<rparr>"
    have timed: "moves s s'" if "st_calls s' = st_calls s @ [Timed candidate answer]"
        "st_latch s' = (if timed_out (Timed candidate answer) then Some (WCandidate TimeoutError) else None)"
        "st_result s' = st_result s" "st_existing s' = st_existing s" for s'
      using lapse_inv_timed [OF None _ that(1,2)] that by (simp add: moves_def)
    show ?thesis
    proof (cases answer)
      case (Inl e)
      show ?thesis
      proof (cases "is_timeout e")
        case True
        then have "snd (run_lapse E R candidate path output s) = ?s1\<lparr>st_latch := Some (WCandidate TimeoutError)\<rparr>"
          by (simp add: run_lapse_def bnd_def reads_def seq_def call_def update_def stop_def None a Inl Let_def)
        moreover have "moves s (?s1\<lparr>st_latch := Some (WCandidate TimeoutError)\<rparr>)"
          by (rule timed) (simp_all add: True Inl)
        ultimately show ?thesis using s moves_trans by metis
      next
        case False
        then have "snd (run_lapse E R candidate path output s) = ?s1"
          by (simp add: run_lapse_def bnd_def reads_def seq_def call_def ret_def stop_def None a Inl Let_def)
        moreover have "moves s ?s1" by (rule timed) (simp_all add: None False Inl)
        ultimately show ?thesis using s moves_trans by metis
      qed
    next
      case (Inr sync)
      then have "snd (run_lapse E R candidate path output s) = ?s1"
        by (simp add: run_lapse_def bnd_def reads_def seq_def call_def ret_def stop_def None a Let_def)
      moreover have "moves s ?s1" by (rule timed) (simp_all add: None Inr)
      ultimately show ?thesis using s moves_trans by metis
    qed
  next
    case (Some timeout)
    with s show ?thesis by (simp add: run_lapse_def bnd_def reads_def stop_def)
  qed
  then show ?thesis by (simp add: side_def keeps_def)
qed

lemma side_or_clean: "side f \<Longrightarrow> side (or_clean E workspace output f)"
  unfolding or_clean_def by (intro side_intros side_steps)

lemma side_prepare: "side (prepareCandidate E R item installed workspace index)"
  unfolding prepareCandidate_def Let_def
  by (intro side_intros side_check_wanted side_must side_or_clean side_run_lapse)


text \<open>What side steps keep.\<close>

definition stable :: "('x acq_state \<Rightarrow> bool) \<Rightarrow> bool" where
  "stable P \<longleftrightarrow> (\<forall>s s'. moves s s' \<longrightarrow> P s \<longrightarrow> P s')"

lemma side_stable: "\<lbrakk>side f; stable P\<rbrakk> \<Longrightarrow> triple P f (\<lambda>_. P) (\<lambda>_. P)"
  unfolding side_def stable_def keeps_triple [symmetric] by (metis keeps_def moves_refl)

lemma stable_conj: "\<lbrakk>stable P; stable Q\<rbrakk> \<Longrightarrow> stable (\<lambda>s. P s \<and> Q s)"
  by (auto simp: stable_def)

lemma stable_const [simp]: "stable (\<lambda>_. b)"
  by (simp add: stable_def)

lemma stable_existing: "stable (\<lambda>s. P (st_existing s))"
  by (simp add: stable_def moves_def)

lemma stable_called: "stable (\<lambda>s. c \<in> set (st_calls s))"
  by (auto simp: stable_def moves_def)

lemma sync_justified_mono: "sync_justified E R installed cs c score sync \<Longrightarrow> sync_justified E R installed (cs @ ds) c score sync"
  by (auto simp: sync_justified_def split: if_splits)

lemma stable_fit: "stable (\<lambda>s. fit E R installed s p)"
  by (auto simp: stable_def moves_def fit_def intro: sync_justified_mono)

lemma stable_all: "(\<And>x. x \<in> A \<Longrightarrow> stable (P x)) \<Longrightarrow> stable (\<lambda>s. \<forall>x \<in> A. P x s)"
  by (auto simp: stable_def)

lemma triple_if: "\<lbrakk>b \<Longrightarrow> triple P f Q R; \<not> b \<Longrightarrow> triple P g Q R\<rbrakk> \<Longrightarrow> triple P (if b then f else g) Q R"
  by simp

lemma triple_True: "triple P f (\<lambda>_ _. True) (\<lambda>_ _. True)"
  by (simp add: triple_def split: prod.splits sum.splits)

abbreviation returns :: "('s \<Rightarrow> bool) \<Rightarrow> ('s, 'e, 'a) act \<Rightarrow> ('a \<Rightarrow> 's \<Rightarrow> bool) \<Rightarrow> bool" where
  "returns P f Q \<equiv> triple P f Q (\<lambda>_ _. True)"

lemma returns_side: "\<lbrakk>side f; stable P\<rbrakk> \<Longrightarrow> returns P f (\<lambda>_. P)"
  by (rule triple_conseq [OF side_stable]) auto

lemma check_wanted_returns:
  "own_score E R (pr_candidate item) (pr_score item) \<Longrightarrow>
   returns (\<lambda>_. True) (check_wanted E R item installed)
     (\<lambda>_ s. wanted E R installed (st_existing s) (pr_candidate item) (pr_score item))"
  by (auto simp: triple_def check_wanted_def wanted_def bnd_def reads_def expect_def stop_def ret_def
      split: sum.splits if_splits prod.splits)

lemma run_lapse_returns:
  "returns (\<lambda>s. P (st_existing s)) (run_lapse E R candidate path output)
     (\<lambda>sync s. P (st_existing s) \<and> sy_verdict sync = ''solid'' \<and> Timed candidate (Ok sync) \<in> set (st_calls s))"
  by (auto simp: triple_def run_lapse_def bnd_def reads_def seq_def call_def update_def stop_def ret_def Let_def
      split: sum.splits if_splits prod.splits option.splits)

lemma or_clean_returns: "returns P f Q \<Longrightarrow> returns P (or_clean E workspace output f) Q"
  unfolding or_clean_def
  by (rule triple_bnd [where Q' = "\<lambda>r s. case r of Inl _ \<Rightarrow> True | Inr a \<Rightarrow> Q a s"])
    (auto simp: triple_def attempt_def bnd_def ret_def stop_def Let_def split: sum.splits prod.splits)

lemma prepare_returns:
  assumes "own_score E R (pr_candidate item) (pr_score item)"
  shows "returns (\<lambda>_. True) (prepareCandidate E R item installed workspace index) (\<lambda>p s. fit E R installed s p)"
proof -
  let ?c = "pr_candidate item" and ?W = "\<lambda>s. wanted E R installed (st_existing s) (pr_candidate item) (pr_score item)"
  have st: "stable ?W" by (rule stable_existing)
  show ?thesis
    unfolding prepareCandidate_def Let_def
  proof (rule triple_seq [OF check_wanted_returns [OF assms]], rule triple_seq [OF returns_side [OF _ st]], rule side_must,
      rule triple_seq [OF returns_side [OF _ st]])
    show "side (if c_exact_hash ?c then ret () else must_be (av_range_err E (pr_path item) (aq_media R)))"
      by (intro side_intros side_must)
    have lapse: "returns ?W (or_clean E workspace target
        (bnd (run_lapse E R ?c (pr_path item) target) (\<lambda>sync. ret (item\<lparr>pr_sync := sync, pr_output := target\<rparr>))))
        (\<lambda>p s. fit E R installed s p)" if "\<not> c_exact_hash ?c" "\<not> tl_syncDisabled E" for target
      by (rule or_clean_returns, rule triple_bnd [OF run_lapse_returns [where P = "\<lambda>e. wanted E R installed e ?c (pr_score item)"]],
          rule triple_ret) (use that in \<open>simp add: fit_def sync_justified_def\<close>)
    show "returns ?W (if c_exact_hash ?c then ret (item\<lparr>pr_output := pr_path item, pr_sync := exact_sync, pr_bypass := True\<rparr>)
       else if tl_syncDisabled E then ret (item\<lparr>pr_output := pr_path item, pr_sync := disabled_sync, pr_bypass := True\<rparr>)
       else if \<not> pr_runtime_pack item \<and> pr_member_scope item = [] \<and> \<not> c_release_numbered ?c
               \<and> canBypassLapse (av_externals E) (aq_media R) ?c (pr_score item) installed (normalized (tl_policy (av_tooling E)))
       then ret (item\<lparr>pr_output := pr_path item, pr_sync := bypass_sync, pr_bypass := True\<rparr>)
       else or_clean E workspace (filepath_Join workspace (''synchronized-'' @ itoa index @ lower_ext E (pr_path item)))
         (bnd (run_lapse E R ?c (pr_path item) (filepath_Join workspace (''synchronized-'' @ itoa index @ lower_ext E (pr_path item))))
           (\<lambda>sync. ret (item\<lparr>pr_sync := sync, pr_output := filepath_Join workspace (''synchronized-'' @ itoa index @ lower_ext E (pr_path item))\<rparr>))))
      (\<lambda>p s. fit E R installed s p)"
      by (intro triple_if triple_ret lapse) (simp_all add: fit_def sync_justified_def)
  qed
qed


lemma side_member_failed: "side (member_failed E R scoped item path workspace e p)"
  unfolding member_failed_def by (intro side_intros side_steps)

lemma side_prepare_scoped: "side (prepare_scoped E R scoped item current path installed workspace index p)"
  unfolding prepare_scoped_def by (intro side_intros side_steps side_prepare side_member_failed)

lemma side_prepare_member: "side (prepare_member E R item many variants installed workspace index numbered p)"
  unfolding prepare_member_def Let_def by (intro side_intros side_steps side_prepare_scoped)

lemma side_prepareMembers: "side (prepareMembers E R item paths installed workspace index)"
  unfolding prepareMembers_def Let_def by (intro side_intros side_steps side_prepare_member)

lemma side_rejectExhausted: "side (rejectExhaustedVersions E R items)"
  unfolding rejectExhaustedVersions_def group_rejected_def by (intro side_intros side_steps)

lemma returns_conj:
  assumes "side f" "stable I" "returns P f Q"
  shows "returns (\<lambda>s. I s \<and> P s) f (\<lambda>a s. I s \<and> Q a s)"
  using side_stable [OF assms(1,2)] assms(3) unfolding triple_def by (fastforce split: prod.splits sum.splits)

lemma own_score_member [simp]: "own_score E (memberRequest R scope) = own_score E R"
  by (simp add: fun_eq_iff own_score_def memberRequest_def aq_media_def)

lemma fit_member [simp]: "fit E (memberRequest R scope) = fit E R"
  by (simp add: fun_eq_iff fit_def wanted_def sync_justified_def own_score_def memberRequest_def aq_media_def)

lemma member_failed_ready:
  "returns I (member_failed E R scoped item path workspace e p) (\<lambda>p' s. mp_ready p' = mp_ready p)"
proof -
  show ?thesis
    unfolding member_failed_def
    by (intro triple_seq [OF triple_True] triple_bnd [OF triple_True] triple_ret) simp
qed

lemma prepare_scoped_returns:
  fixes E :: "'x acquire_env"
  assumes own: "own_score E R (pr_candidate current) (pr_score current)"
    and scoped: "scoped = R \<or> (\<exists>scope. scoped = memberRequest R scope)"
  shows "returns (\<lambda>s. \<forall>r \<in> set (mp_ready p). fit E R installed s r)
     (prepare_scoped E R scoped item current path installed workspace index p)
     (\<lambda>p' s. \<forall>r \<in> set (mp_ready p'). fit E R installed s r)"
proof -
  let ?I = "\<lambda>s. \<forall>r \<in> set (mp_ready p). fit E R installed s r"
  let ?Q = "\<lambda>r s. case r of Inl _ \<Rightarrow> True | Inr x \<Rightarrow> fit E R installed s x"
  have st: "stable ?I" by (rule stable_all) (rule stable_fit)
  have fits: "fit E scoped = fit E R" and owns: "own_score E scoped = own_score E R" using scoped by auto
  have prep: "returns (\<lambda>_. True) (attempt (prepareCandidate E scoped current installed workspace index)
      :: ('x, workflow_error + preparedCandidate) step) ?Q"
    using prepare_returns [of E scoped current installed workspace index, unfolded fits owns, OF own]
    by (intro triple_attempt) simp
  have stQ: "stable (\<lambda>s. ?I s \<and> ?Q r s)" for r
    by (rule stable_conj [OF st]) (cases r; simp add: stable_fit)
  have failed: "returns ?I (member_failed E R scoped item path workspace e p) (\<lambda>p' s. \<forall>r \<in> set (mp_ready p'). fit E R installed s r)" for e
    by (rule triple_conseq [OF returns_conj [OF side_member_failed st member_failed_ready [where I = "\<lambda>_. True"]]]) auto
  have side_prep: "side (attempt (prepareCandidate E scoped current installed workspace index) :: ('x, workflow_error + preparedCandidate) step)"
    by (intro side_intros side_prepare)
  have prepI: "returns ?I (attempt (prepareCandidate E scoped current installed workspace index) :: ('x, workflow_error + preparedCandidate) step)
      (\<lambda>r s. ?I s \<and> ?Q r s)"
    using returns_conj [OF side_prep st prep] by simp
  have ready: "returns (\<lambda>s. ?I s \<and> ?Q r s)
      (case r of Inl e \<Rightarrow> member_failed E R scoped item path workspace e p
       | Inr ready \<Rightarrow> seq (if pr_bypass ready then ret () else decide ''lapse_prepare'' (pr_candidate item) ''solid'')
           (ret (p\<lparr>mp_all_rejected := False, mp_ready := mp_ready p @ [ready]\<rparr>)))
      (\<lambda>p' s. \<forall>r \<in> set (mp_ready p'). fit E R installed s r)" for r
  proof (cases r)
    case (Inl e)
    then show ?thesis using failed by simp
  next
    case (Inr ready)
    have "side (if pr_bypass ready then ret () else decide ''lapse_prepare'' (pr_candidate item) ''solid'')"
      by (intro side_intros side_decide)
    note this [THEN returns_side, OF stQ [of r, unfolded Inr sum.case]]
    then show ?thesis unfolding Inr sum.case by (rule triple_seq) (rule triple_ret, auto)
  qed
  show ?thesis
    unfolding prepare_scoped_def
  proof (rule triple_bnd [OF returns_side [OF side_begin st]], rule triple_if)
    show "returns ?I (seq (removeWorkflowArtifact E workspace path) (ret (p\<lparr>mp_all_rejected := False, mp_group_may_reject := False\<rparr>)))
        (\<lambda>p' s. \<forall>r \<in> set (mp_ready p'). fit E R installed s r)"
      by (rule triple_seq [OF returns_side [OF side_remove st]]) (rule triple_ret, simp)
    show "returns ?I (bnd (attempt (prepareCandidate E scoped current installed workspace index)) (\<lambda>prepared. seq (check_ctx E)
        (case prepared of Inl e \<Rightarrow> member_failed E R scoped item path workspace e p
         | Inr ready \<Rightarrow> seq (if pr_bypass ready then ret () else decide ''lapse_prepare'' (pr_candidate item) ''solid'')
             (ret (p\<lparr>mp_all_rejected := False, mp_ready := mp_ready p @ [ready]\<rparr>)))))
        (\<lambda>p' s. \<forall>r \<in> set (mp_ready p'). fit E R installed s r)"
      by (rule triple_bnd [OF prepI], rule triple_seq [OF returns_side [OF side_checks(1) stQ]], rule ready)
  qed
qed

lemma prepare_member_returns:
  assumes own: "own_score E R (pr_candidate item) (pr_score item)"
  shows "returns (\<lambda>s. \<forall>r \<in> set (mp_ready p). fit E R installed s r)
     (prepare_member E R item many variants installed workspace index numbered p)
     (\<lambda>p' s. \<forall>r \<in> set (mp_ready p'). fit E R installed s r)"
proof -
  let ?I = "\<lambda>s. \<forall>r \<in> set (mp_ready p). fit E R installed s r"
  have st: "stable ?I" by (rule stable_all) (rule stable_fit)
  obtain n path where np: "numbered = (n, path)" by force
  have version: "returns ?I (let scoped = memberRequest R checksum; version = item\<lparr>pr_path := path, pr_member_scope := checksum,
          pr_member_index := int n + 1, pr_member_count := int many, pr_runtime_pack := True\<rparr>
        in bnd (lookup_rejection E scoped (pr_candidate item) checksum) (\<lambda>found.
          if found \<noteq> None then seq (decide_rejected (pr_candidate item) found) (seq (removeWorkflowArtifact E workspace path) (ret p))
          else prepare_scoped E R scoped item version path installed workspace (index + int n) p))
      (\<lambda>p' s. \<forall>r \<in> set (mp_ready p'). fit E R installed s r)" for checksum
    unfolding Let_def
    by (rule triple_bnd [OF returns_side [OF side_lookup st]], rule triple_if,
        rule triple_seq [OF returns_side [OF side_decide_rejected st]], rule triple_seq [OF returns_side [OF side_remove st]],
        rule triple_ret, assumption, rule prepare_scoped_returns) (use own in auto)
  have single: "returns ?I (prepare_scoped E R R item (item\<lparr>pr_path := path\<rparr>) path installed workspace (index + int n) p)
      (\<lambda>p' s. \<forall>r \<in> set (mp_ready p'). fit E R installed s r)"
    by (rule prepare_scoped_returns) (use own in auto)
  show ?thesis
    unfolding prepare_member_def np Let_def prod.case
    by (rule triple_seq [OF returns_side [OF side_checks(1) st]], rule triple_seq [OF returns_side [OF side_checks(2) st]],
        rule triple_if, rule triple_bnd [OF returns_side [OF side_checks(3) st]], rule version [unfolded Let_def], rule single)
qed

lemma prepareMembers_returns:
  assumes own: "own_score E R (pr_candidate item) (pr_score item)"
  shows "returns (\<lambda>_. True) (prepareMembers E R item paths installed workspace index) (\<lambda>ps s. \<forall>p \<in> set ps. fit E R installed s p)"
proof -
  let ?I = "\<lambda>p s. \<forall>r \<in> set (mp_ready p). fit E R installed s r"
  let ?start = "\<lparr>mp_ready = [], mp_all_rejected = True, mp_group_may_reject = True\<rparr>"
  have st: "stable (?I p)" for p by (rule stable_all) (rule stable_fit)
  have regroup: "fit E R installed s (r\<lparr>pr_group_may_reject := b\<rparr>) = fit E R installed s r" for s r b
    by (simp add: fit_def)
  have "returns (?I ?start) (carry (prepare_member E R item (length paths) variants installed workspace index) (enumerate 0 paths) ?start) ?I" for variants
    by (rule triple_carry) (rule prepare_member_returns [OF own])
  then have loop: "returns (\<lambda>_. True) (carry (prepare_member E R item (length paths) variants installed workspace index) (enumerate 0 paths) ?start) ?I" for variants
    by (rule triple_conseq) simp_all
  show ?thesis
    unfolding prepareMembers_def Let_def
  proof (rule triple_if)
    show "returns (\<lambda>_. True) (seq (bnd (recordCandidateRejection E R (pr_candidate item) [] versions_ambiguous) (\<lambda>_. ret ()))
        (seq (decide ''pack_selection'' (pr_candidate item) ambiguous_text)
          (bnd (each (\<lambda>path. seq (removeWorkflowArtifact E workspace path) (ret False)) paths) (\<lambda>_. ret []))))
        (\<lambda>ps s. \<forall>p \<in> set ps. fit E R installed s p)"
      by (intro triple_seq [OF triple_True] triple_bnd [OF triple_True] triple_ret) simp
    show "returns (\<lambda>_. True) (bnd (carry (prepare_member E R item (length paths) (length paths > 1 \<or> pr_member_scope item \<noteq> [])
          installed workspace index) (enumerate 0 paths) ?start) (\<lambda>p.
        seq (if (length paths > 1 \<or> pr_member_scope item \<noteq> []) \<and> mp_all_rejected p \<and> \<not> pr_more_versions item
             then bnd (recordCandidateRejection E R (pr_candidate item) [] versions_exhausted) (\<lambda>_. ret ()) else ret ())
          (ret (map (\<lambda>ready. ready\<lparr>pr_group_may_reject := mp_group_may_reject p\<rparr>) (mp_ready p)))))
        (\<lambda>ps s. \<forall>p \<in> set ps. fit E R installed s p)"
      by (rule triple_bnd [OF loop], rule triple_seq [OF returns_side [OF _ st]])
        (intro side_intros side_steps, rule triple_ret, simp add: regroup)
  qed
qed


section \<open>The invariant of an acquisition\<close>

definition calls_sound :: "workflow_error option \<Rightarrow> 'x acquire_env \<Rightarrow> acq_request \<Rightarrow> 'x acq_state \<Rightarrow> bool" where
  "calls_sound L E R s \<longleftrightarrow>
     installs_sound E R (st_calls s) \<and> fetches_checked E R (st_calls s) \<and> lapse_inv L s"

definition Inv :: "workflow_error option \<Rightarrow> 'x acquire_env \<Rightarrow> acq_request \<Rightarrow> Candidate set \<Rightarrow> nat \<Rightarrow> 'x acq_state \<Rightarrow> bool" where
  "Inv L E R K n s \<longleftrightarrow>
     calls_sound L E R s
     \<and> \<not> list_ex installed_ok (st_calls s) \<and> rs_outcome (st_result s) \<noteq> OutcomeInstalled
     \<and> (\<forall>c \<in> K. Checked (whole_identity E R c) False \<in> set (st_calls s))
     \<and> title_fetches (st_calls s) + n \<le> 3"

text \<open>The one successful installation is the last call, and the result is about it.\<close>

definition Fin :: "workflow_error option \<Rightarrow> 'x acquire_env \<Rightarrow> acq_request \<Rightarrow> 'x acq_state \<Rightarrow> bool" where
  "Fin L E R s \<longleftrightarrow>
     calls_sound L E R s \<and> title_fetches (st_calls s) \<le> 3
     \<and> (\<exists>pre existing installed request. st_calls s = pre @ [Installed existing installed request True]
          \<and> \<not> list_ex installed_ok pre \<and> rs_outcome (st_result s) = OutcomeInstalled
          \<and> rs_candidate (st_result s) = ir_candidate request \<and> rs_score (st_result s) = ir_score request
          \<and> rs_sync_result (st_result s) = ir_sync_result request)"

definition Over :: "workflow_error option \<Rightarrow> 'x acquire_env \<Rightarrow> acq_request \<Rightarrow> 'x acq_state \<Rightarrow> bool" where
  "Over L E R s \<longleftrightarrow> Inv L E R {} 0 s \<or> Fin L E R s"

lemma Inv_weaken: "\<lbrakk>Inv L E R K n s; K' \<subseteq> K; n' \<le> n\<rbrakk> \<Longrightarrow> Inv L E R K' n' s"
  by (auto simp: Inv_def)

lemma Inv_Over: "Inv L E R K n s \<Longrightarrow> Over L E R s"
  by (auto simp: Over_def intro: Inv_weaken)

lemma Inv_release [simp]: "Inv L E (R\<lparr>aq_release_media := m\<rparr>) = Inv L E R" "Over L E (R\<lparr>aq_release_media := m\<rparr>) = Over L E R"
proof -
  have m: "aq_media (R\<lparr>aq_release_media := m\<rparr>) = aq_media R" by (simp add: aq_media_def)
  have o: "own_score E (R\<lparr>aq_release_media := m\<rparr>) = own_score E R" by (simp add: fun_eq_iff own_score_def m)
  have i: "install_sound E (R\<lparr>aq_release_media := m\<rparr>) = install_sound E R"
  proof (intro ext)
    fix cs c show "install_sound E (R\<lparr>aq_release_media := m\<rparr>) cs c = install_sound E R cs c"
      by (cases c) (simp_all add: wanted_def sync_justified_def m o)
  qed
  have w: "whole_identity E (R\<lparr>aq_release_media := m\<rparr>) = whole_identity E R"
    by (simp add: fun_eq_iff whole_identity_def reject_scope_of_def memberRequest_def aq_media_def)
  have f: "fetches_checked E (R\<lparr>aq_release_media := m\<rparr>) = fetches_checked E R"
    by (rule ext) (simp only: fetches_checked_def w)
  have c: "calls_sound L E (R\<lparr>aq_release_media := m\<rparr>) = calls_sound L E R"
    by (rule ext) (simp only: calls_sound_def installs_sound_def i f)
  show inv: "Inv L E (R\<lparr>aq_release_media := m\<rparr>) = Inv L E R"
    by (intro ext) (simp only: Inv_def c w)
  show "Over L E (R\<lparr>aq_release_media := m\<rparr>) = Over L E R"
    by (intro ext) (simp only: Over_def Fin_def inv c)
qed

lemma side_call_plain: "list_all side_call cs \<Longrightarrow> \<not> list_ex installed_ok cs \<and> filter title_fetch cs = []"
  by (induction cs) (auto elim!: side_call.elims)

lemma side_call_sound: "side_call c \<Longrightarrow> install_sound E R cs c"
  by (cases c) simp_all

lemma installs_sound_append: "installs_sound E R (cs @ [c]) \<longleftrightarrow> installs_sound E R cs \<and> install_sound E R cs c"
  (is "?l \<longleftrightarrow> ?r")
proof
  assume ?l
  then show ?r unfolding installs_sound_def by (metis append_Cons append_assoc)
next
  assume r: ?r
  show ?l
    unfolding installs_sound_def
  proof (intro allI impI)
    fix pre d post
    assume "cs @ [c] = pre @ d # post"
    then show "install_sound E R pre d" using r by (cases post rule: rev_cases) (auto simp: installs_sound_def)
  qed
qed

lemma installs_sound_side: "list_all side_call ds \<Longrightarrow> installs_sound E R (cs @ ds) \<longleftrightarrow> installs_sound E R cs"
proof (induction ds rule: rev_induct)
  case (snoc d ds)
  then show ?case by (simp add: installs_sound_append side_call_sound append_assoc [symmetric] del: append_assoc)
qed simp

lemma fetches_checked_append:
  "fetches_checked E R (cs @ [c]) \<longleftrightarrow> fetches_checked E R cs
     \<and> (\<forall>candidate index. c = Fetched candidate index \<longrightarrow> Checked (whole_identity E R candidate) False \<in> set cs)"
  (is "?l \<longleftrightarrow> ?r")
proof
  assume ?l
  then show ?r unfolding fetches_checked_def by (metis append_Cons append_assoc)
next
  assume r: ?r
  show ?l
    unfolding fetches_checked_def
  proof (intro allI impI)
    fix pre candidate index post
    assume eq: "cs @ [c] = pre @ Fetched candidate index # post"
    then show "Checked (whole_identity E R candidate) False \<in> set pre"
      using r by (cases post rule: rev_cases) (auto simp: fetches_checked_def)
  qed
qed

lemma fetches_checked_side: "list_all side_call ds \<Longrightarrow> fetches_checked E R (cs @ ds) \<longleftrightarrow> fetches_checked E R cs"
proof (induction ds rule: rev_induct)
  case (snoc d ds)
  then have "\<And>c i. d \<noteq> Fetched c i" by auto
  with snoc show ?case by (simp add: fetches_checked_append append_assoc [symmetric] del: append_assoc)
qed simp

lemma calls_sound_moves: "\<lbrakk>moves s s'; calls_sound L E R s\<rbrakk> \<Longrightarrow> calls_sound L E R s'"
  by (auto simp: moves_def calls_sound_def fetches_checked_side installs_sound_side)

lemma stable_Inv: "stable (Inv L E R K n)"
  unfolding stable_def
proof (intro allI impI)
  fix s s' :: "'a acq_state"
  assume m: "moves s s'" and i: "Inv L E R K n s"
  from i have "calls_sound L E R s" by (simp add: Inv_def)
  from calls_sound_moves [OF m this] have "calls_sound L E R s'" .
  moreover obtain cs where "st_calls s' = st_calls s @ cs" "list_all side_call cs" "rs_outcome (st_result s') = rs_outcome (st_result s)"
    using m by (auto simp: moves_def)
  ultimately show "Inv L E R K n s'"
    using i side_call_plain [of cs] by (auto simp: Inv_def title_fetches_def)
qed

text \<open>The invariant, with prepared candidates that are fit to be installed.\<close>

definition Ready ::
  "workflow_error option \<Rightarrow> 'x acquire_env \<Rightarrow> acq_request \<Rightarrow> Candidate set \<Rightarrow> nat \<Rightarrow> bool \<Rightarrow> preparedCandidate list \<Rightarrow> 'x acq_state \<Rightarrow> bool" where
  "Ready L E R K n installed ps s \<longleftrightarrow> Inv L E R K n s \<and> (\<forall>p \<in> set ps. fit E R installed s p)"

text \<open>An action whose exceptions leave the invariant.\<close>

abbreviation acts ::
  "workflow_error option \<Rightarrow> 'x acquire_env \<Rightarrow> acq_request \<Rightarrow> ('x acq_state \<Rightarrow> bool) \<Rightarrow> ('x, 'a) step \<Rightarrow> ('a \<Rightarrow> 'x acq_state \<Rightarrow> bool) \<Rightarrow> bool" where
  "acts L E R P f Q \<equiv> triple P f Q (\<lambda>_. Inv L E R {} 0)"

lemma Ready_Inv: "Ready L E R K n installed ps s \<Longrightarrow> Inv L E R {} 0 s"
  by (auto simp: Ready_def intro: Inv_weaken)

lemma Ready_weaken: "\<lbrakk>Ready L E R K n installed ps s; K' \<subseteq> K; n' \<le> n; set ps' \<subseteq> set ps\<rbrakk> \<Longrightarrow> Ready L E R K' n' installed ps' s"
  by (auto simp: Ready_def intro: Inv_weaken)

lemma stable_Ready: "stable (Ready L E R K n installed ps)"
  unfolding Ready_def [abs_def] by (intro stable_conj stable_Inv stable_all stable_fit)

lemma acts_side: "side f \<Longrightarrow> acts L E R (Ready L E R K n installed ps) f (\<lambda>_. Ready L E R K n installed ps)"
  using side_stable [OF _ stable_Ready] by (rule triple_conseq) (auto intro: Ready_Inv)

lemma acts_returns:
  assumes "side f" "returns (\<lambda>_. True) f Q"
  shows "acts L E R (Ready L E R K n installed ps) f (\<lambda>a s. Ready L E R K n installed ps s \<and> Q a s)"
  using acts_side [OF assms(1)] assms(2) unfolding triple_def by (fastforce split: prod.splits sum.splits)

lemma acts_ret: "(\<And>s. P s \<Longrightarrow> Q a s) \<Longrightarrow> acts L E R P (ret a) Q"
  by (rule triple_ret)

lemma acts_stop: "acts L E R (Ready L E R K n installed ps) (stop e) Q"
  by (rule triple_stop) (rule Ready_Inv)

section \<open>Installing\<close>

lemma Ready_same:
  assumes "Ready L E R K n installed ps s" "st_calls s' = st_calls s" "st_existing s' = st_existing s" "st_latch s' = st_latch s"
    "rs_outcome (st_result s') \<noteq> OutcomeInstalled"
  shows "Ready L E R K n installed ps s'"
  using assms by (simp add: Ready_def Inv_def calls_sound_def lapse_inv_def fit_def)

lemma Ready_outcome: "rs_outcome (f (st_result s)) \<noteq> OutcomeInstalled \<Longrightarrow> Ready L E R K n installed ps s
    \<Longrightarrow> Ready L E R K n installed ps (s\<lparr>st_result := f (st_result s)\<rparr>)"
  by (rule Ready_same) simp_all

lemma acts_set_result:
  "(\<And>r. rs_outcome r \<noteq> OutcomeInstalled \<Longrightarrow> rs_outcome (f r) \<noteq> OutcomeInstalled) \<Longrightarrow>
   acts L E R (Ready L E R K n installed ps) (set_result f) (\<lambda>_. Ready L E R K n installed ps)"
  unfolding set_result_def
  by (rule triple_update, rule Ready_outcome) (auto simp: Ready_def Inv_def)

lemma acts_set_outcome:
  "out \<noteq> OutcomeInstalled \<Longrightarrow> acts L E R (Ready L E R K n installed ps) (set_outcome out) (\<lambda>_. Ready L E R K n installed ps)"
  unfolding set_outcome_def by (rule acts_set_result) simp

lemma ready_reject_install:
  "triple (Ready L E R K n installed ps) (reject_install candidate reason) (\<lambda>_. Ready L E R K n installed ps) (\<lambda>_. Ready L E R K n installed ps)"
  by (simp add: triple_def reject_install_def decide_def add_decisions_def set_outcome_def set_result_def seq_def bnd_def
      update_def Ready_same OutcomeRejected_def OutcomeInstalled_def)

lemma calls_sound_snoc:
  assumes "calls_sound L E R s" "st_calls s' = st_calls s @ [c]" "st_latch s' = st_latch s"
    and "install_sound E R (st_calls s) c" "\<not> is_timed c"
    and "\<And>candidate index. c = Fetched candidate index \<Longrightarrow> Checked (whole_identity E R candidate) False \<in> set (st_calls s)"
  shows "calls_sound L E R s'"
  using assms timed_out_is_timed [of c]
  by (auto simp: calls_sound_def installs_sound_append fetches_checked_append lapse_inv_def lapse_stops_append)

lemma fit_grows: "\<lbrakk>fit E R installed s p; st_calls s' = st_calls s @ cs; st_existing s' = st_existing s\<rbrakk> \<Longrightarrow> fit E R installed s' p"
  by (simp add: fit_def sync_justified_mono)

end
