(* ===== verification/Acquire_Props.thy ===== *)
theory Acquire_Props
  imports Acquire_Inv
begin

text \<open>
  The properties of an acquisition (\<open>Acquire\<close>): every phase keeps the invariant \<open>Inv\<close> of \<open>Acquire_Inv\<close>, or ends with
  the one installation that \<open>Fin\<close> describes.
\<close>

section \<open>Installing\<close>

text \<open>After an installation: still ready, or finished.\<close>

definition Then :: "workflow_error option \<Rightarrow> 'x acquire_env \<Rightarrow> acq_request \<Rightarrow> ('x acq_state \<Rightarrow> bool) \<Rightarrow> 'x acq_state \<Rightarrow> bool" where
  "Then L E R P s \<longleftrightarrow> (P s \<and> rs_outcome (st_result s) \<noteq> OutcomeInstalled) \<or> Fin L E R s"

lemma Ready_ThenI: "Ready L E R K n installed ps s \<Longrightarrow> Then L E R (Ready L E R K n installed ps) s"
  by (simp add: Then_def Ready_def Inv_def)

lemma Then_Over: "Then L E R (Ready L E R K n installed ps) s \<Longrightarrow> Over L E R s"
  by (auto simp: Then_def Over_def dest: Ready_Inv)

lemma Ready_Installed:
  assumes ready: "Ready L E R K n installed ps s" and p: "p \<in> set ps"
    and request: "ir_candidate request = pr_candidate p" "ir_score request = pr_score p" "ir_sync_result request = pr_sync p"
    and calls: "st_calls s' = st_calls s @ [Installed (st_existing s) installed request ok]"
      "st_latch s' = st_latch s" "st_existing s' = st_existing s"
  shows "calls_sound L E R s'" "title_fetches (st_calls s') + n \<le> 3"
    "\<lbrakk>\<not> ok; st_result s' = st_result s\<rbrakk> \<Longrightarrow> Ready L E R K n installed ps s'"
proof -
  let ?c = "Installed (st_existing s) installed request ok"
  from ready p have fit: "fit E R installed s p" and inv: "Inv L E R K n s" by (auto simp: Ready_def)
  then have "install_sound E R (st_calls s) ?c" by (simp add: fit_def request)
  with inv calls show sound: "calls_sound L E R s'" by (auto simp: Inv_def intro: calls_sound_snoc)
  from inv calls show bound: "title_fetches (st_calls s') + n \<le> 3" by (simp add: Inv_def title_fetches_def)
  assume "\<not> ok" "st_result s' = st_result s"
  with sound bound inv calls have "Inv L E R K n s'" by (auto simp: Inv_def)
  moreover have "fit E R installed s' q" if "q \<in> set ps" for q
    using ready that fit_grows [OF _ calls(1,3)] by (auto simp: Ready_def)
  ultimately show "Ready L E R K n installed ps s'" by (simp add: Ready_def)
qed

lemma acts_publish:
  assumes p: "p \<in> set ps"
  shows "triple (\<lambda>s. Ready L E R K n installed ps s \<and> st_existing s = current) (publish E R p current installed destination)
     (\<lambda>_. Then L E R (Ready L E R K n installed ps)) (\<lambda>_. Ready L E R K n installed ps)"
proof -
  have check: "triple (\<lambda>s. Ready L E R K n installed ps s \<and> st_existing s = current) (fileChecksum E path)
      (\<lambda>_ s. Ready L E R K n installed ps s \<and> st_existing s = current) (\<lambda>_. Ready L E R K n installed ps)" for path
    by (rule triple_conseq [OF side_stable [OF side_checks(3) stable_conj [OF stable_Ready stable_existing]]]) auto
  have run: "case bnd (call (av_install E request) (\<lambda>answer. [Installed current installed request (\<not> isl answer)])) (\<lambda>answer.
        case answer of
          Err e \<Rightarrow> stop (syncedOutputFailure e (pr_bypass p))
        | Ok installation \<Rightarrow>
            bnd (ask (av_now E)) (\<lambda>now. set_result (\<lambda>r. r\<lparr>rs_outcome := OutcomeInstalled, rs_candidate := pr_candidate p,
              rs_score := pr_score p, rs_sync_result := pr_sync p, rs_installation := installation,
              rs_next_upgrade := nextUpgradeAt (av_service E) now (pr_score p) (pr_candidate p)\<rparr>))) s of
        (Inl e, s') \<Rightarrow> Ready L E R K n installed ps s' | (Inr a, s') \<Rightarrow> Then L E R (Ready L E R K n installed ps) s'"
    if ready: "Ready L E R K n installed ps s" and cur: "st_existing s = current"
      and request: "ir_candidate request = pr_candidate p" "ir_score request = pr_score p" "ir_sync_result request = pr_sync p"
    for request s
  proof (cases "av_install E request (st_world s)")
    case (Pair answer w)
    have quiet: "\<not> list_ex installed_ok (st_calls s)" using ready by (simp add: Ready_def Inv_def)
    show ?thesis
    proof (cases answer)
      case (Inl e)
      let ?s = "s\<lparr>st_world := w, st_calls := st_calls s @ [Installed current installed request False]\<rparr>"
      have "Ready L E R K n installed ps ?s"
        by (rule Ready_Installed(3) [where ok = False, OF ready p request]) (simp_all add: cur)
      then show ?thesis using Pair Inl by (auto simp: bnd_def call_def stop_def)
    next
      case (Inr installation)
      let ?s = "s\<lparr>st_world := w, st_calls := st_calls s @ [Installed current installed request True],
        st_result := (st_result s)\<lparr>rs_outcome := OutcomeInstalled, rs_candidate := pr_candidate p,
          rs_score := pr_score p, rs_sync_result := pr_sync p, rs_installation := installation,
          rs_next_upgrade := nextUpgradeAt (av_service E) (av_now E w) (pr_score p) (pr_candidate p)\<rparr>\<rparr>"
      have "calls_sound L E R ?s" "title_fetches (st_calls ?s) + n \<le> 3"
        by (rule Ready_Installed(1,2) [where ok = True, OF ready p request]; simp add: cur)+
      then have "Fin L E R ?s" using quiet request by (auto simp: Fin_def)
      then show ?thesis
        using Pair Inr by (simp add: bnd_def call_def ask_def reads_def set_result_def update_def Then_def)
    qed
  qed
  have body: "triple (\<lambda>s. Ready L E R K n installed ps s \<and> st_existing s = current) (bnd (call (av_install E request) (\<lambda>answer. [Installed current installed request (\<not> isl answer)])) (\<lambda>answer.
        case answer of
          Err e \<Rightarrow> stop (syncedOutputFailure e (pr_bypass p))
        | Ok installation \<Rightarrow>
            bnd (ask (av_now E)) (\<lambda>now. set_result (\<lambda>r. r\<lparr>rs_outcome := OutcomeInstalled, rs_candidate := pr_candidate p,
              rs_score := pr_score p, rs_sync_result := pr_sync p, rs_installation := installation,
              rs_next_upgrade := nextUpgradeAt (av_service E) now (pr_score p) (pr_candidate p)\<rparr>))))
      (\<lambda>_. Then L E R (Ready L E R K n installed ps)) (\<lambda>_. Ready L E R K n installed ps)"
    if "ir_candidate request = pr_candidate p" "ir_score request = pr_score p" "ir_sync_result request = pr_sync p" for request
    unfolding triple_def using run [OF _ _ that] by simp
  show ?thesis
    unfolding publish_def Let_def
    by (rule triple_bnd [OF check], rule body) simp_all
qed

lemma acts_install:
  assumes p: "p \<in> set ps"
  shows "triple (Ready L E R K n installed ps) (install E R p installed)
     (\<lambda>_. Then L E R (Ready L E R K n installed ps)) (\<lambda>_. Ready L E R K n installed ps)"
proof -
  let ?P = "\<lambda>current s. Ready L E R K n installed ps s \<and> st_existing s = current"
  have stable: "stable (?P current)" for current by (intro stable_conj stable_Ready stable_existing)
  have reject: "triple (?P current) (reject_install candidate reason)
      (\<lambda>_. Then L E R (Ready L E R K n installed ps)) (\<lambda>_. Ready L E R K n installed ps)"
    for current candidate reason
    by (rule triple_conseq [OF ready_reject_install [where L = L and E = E and R = R and K = K and n = n and installed = installed and ps = ps]])
      (auto intro: Ready_ThenI)
  have checksum: "triple (?P current) (fileChecksum E path) (\<lambda>_. ?P current) (\<lambda>_. Ready L E R K n installed ps)" for current path
    by (rule triple_conseq [OF side_stable [OF side_checks(3) stable]]) auto
  show ?thesis
    unfolding install_def Let_def
  proof (rule triple_bnd [where Q' = ?P], rule triple_reads, simp, rule triple_if, rule reject)
    fix current
    show "triple (?P current)
      (case rq_replacing (aq_request R) of
         None \<Rightarrow> publish E R p current installed t
       | Some rejected \<Rightarrow> bnd (fileChecksum E (pr_output p)) (\<lambda>checksum.
           if checksum = in_checksum rejected then reject_install (pr_candidate p) ''identical to the rejected subtitle''
           else publish E R p current installed t))
      (\<lambda>_. Then L E R (Ready L E R K n installed ps)) (\<lambda>_. Ready L E R K n installed ps)" for t
      by (cases "rq_replacing (aq_request R)")
        (auto intro!: acts_publish [OF p] triple_bnd [OF checksum] reject)
  qed
qed

lemma acts_try_install:
  assumes p: "p \<in> set ps"
  shows "acts L E R (Ready L E R K n installed ps) (try_install E R identityRequest p installed)
     (\<lambda>(yes, failure). if yes then Over L E R else Ready L E R K n installed ps)"
proof -
  let ?Q = "\<lambda>answer. case answer of Inl _ \<Rightarrow> Ready L E R K n installed ps | Inr _ \<Rightarrow> Then L E R (Ready L E R K n installed ps)"
  show ?thesis
    unfolding try_install_def
  proof (rule triple_bnd [where Q' = ?Q])
    show "acts L E R (Ready L E R K n installed ps) (attempt (install E R p installed)) ?Q"
      by (rule triple_attempt) (rule triple_conseq [OF acts_install [OF p]]; simp)
    fix answer :: "workflow_error + unit"
    show "acts L E R (?Q answer) (case answer of
         Err e \<Rightarrow>
           if \<not> is_validation e then stop e
           else seq (check_ctx E) (seq (handleCandidateFailure E identityRequest (pr_candidate p) (pr_path p) e)
             (ret (False, Some e)))
       | Ok _ \<Rightarrow> bnd settled (\<lambda>yes. ret (yes, None)))
      (\<lambda>(yes, failure). if yes then Over L E R else Ready L E R K n installed ps)"
    proof (cases answer)
      case (Inl e)
      have "acts L E R (Ready L E R K n installed ps) (seq (check_ctx E) (seq (handleCandidateFailure E identityRequest (pr_candidate p) (pr_path p) e)
             (ret (False, Some e)))) (\<lambda>(yes, failure). if yes then Over L E R else Ready L E R K n installed ps)"
        by (rule triple_seq [OF acts_side [OF side_checks(1)]], rule triple_seq [OF acts_side [OF side_handle]], rule triple_ret) simp
      then show ?thesis by (simp add: Inl acts_stop)
    next
      case (Inr u)
      then show ?thesis
        by (auto simp: settled_def bnd_def reads_def ret_def triple_def Then_Over) (auto simp: Then_def Fin_def)
    qed
  qed
qed

section \<open>Loops and lookups\<close>

lemma triple_each_left:
  assumes "\<And>x rest. x \<in> set xs \<Longrightarrow> triple (I (x # rest)) (body x) (\<lambda>d s. if d then T s else I rest s) X"
  shows "triple (I xs) (each body xs) (\<lambda>d s. if d then T s else I [] s) X"
  using assms
proof (induction xs)
  case (Cons x xs)
  have rest: "triple (I xs) (each body xs) (\<lambda>d s. if d then T s else I [] s) X" using Cons by simp
  show ?case
    unfolding each.simps
  proof (rule triple_bnd)
    show "triple (I (x # xs)) (body x) (\<lambda>d s. if d then T s else I xs s) X" using Cons.prems by simp
    show "triple (\<lambda>s. if d then T s else I xs s) (if d then ret True else each body xs) (\<lambda>d s. if d then T s else I [] s) X" for d
      using rest by (cases d) (simp_all add: triple_ret)
  qed
qed (auto intro: triple_ret)

lemmas triple_each_same = triple_each_left [where I = "\<lambda>_. J" for J]

lemma triple_gather:
  fixes body :: "'b \<Rightarrow> nat \<Rightarrow> ('s, 'e, 'c list \<times> bool) act"
  assumes body: "\<And>x k m acc. x \<in> set xs \<Longrightarrow>
      triple (I (Suc k) acc) (body x m) (\<lambda>(ys, ended). I k (acc @ ys)) X"
    and less: "\<And>k acc s. I (Suc k) acc s \<Longrightarrow> I k acc s"
  shows "triple (I (length xs + k) acc) (gather body xs) (\<lambda>ys. I k (acc @ ys)) X"
  using body
proof (induction xs arbitrary: acc)
  case (Cons x xs)
  have down: "I (j + k) acc s \<Longrightarrow> I k acc s" for j acc s
    by (induction j) (auto dest: less)
  show ?case
    unfolding gather.simps
  proof (rule triple_bnd)
    show "triple (I (length (x # xs) + k) acc) (body x (length xs)) (\<lambda>(ys, ended). I (length xs + k) (acc @ ys)) X"
      using Cons.prems by simp
    fix answer :: "'c list \<times> bool"
    obtain ys l where a: "answer = (ys, l)" by force
    have "triple (I (length xs + k) (acc @ ys)) (gather body xs) (\<lambda>zs. I k ((acc @ ys) @ zs)) X"
      by (rule Cons.IH) (use Cons.prems in auto)
    then have "triple (I (length xs + k) (acc @ ys)) (bnd (gather body xs) (\<lambda>zs. ret (ys @ zs))) (\<lambda>zs. I k (acc @ zs)) X"
      by (rule triple_bnd) (simp add: triple_ret)
    then show "triple (case answer of (ys, ended) \<Rightarrow> I (length xs + k) (acc @ ys))
        (case answer of (ys, ended) \<Rightarrow> if ended then ret ys else bnd (gather body xs) (\<lambda>zs. ret (ys @ zs))) (\<lambda>ys. I k (acc @ ys)) X"
      by (auto simp: a intro: triple_ret down)
  qed
qed (auto intro: triple_ret)

lemma whole_request: "aq_member_scope R = [] \<Longrightarrow> memberRequest R [] = R"
  by (cases R) (simp add: memberRequest_def)

lemma lookup_returns:
  "aq_member_scope R = [] \<Longrightarrow> returns (\<lambda>_. True) (lookup_rejection E R c [])
     (\<lambda>found s. found = None \<longrightarrow> Checked (whole_identity E R c) False \<in> set (st_calls s))"
  by (auto simp: triple_def lookup_rejection_def ask_def reads_def bnd_def expect_def seq_def note_call_def update_def ret_def
      whole_identity_def whole_request split: sum.splits prod.splits)

lemma acts_lookup:
  assumes "aq_member_scope R = []"
  shows "acts L E R (Ready L E R K n installed ps) (lookup_rejection E R c [])
     (\<lambda>found. Ready L E R (if found = None then insert c K else K) n installed ps)"
proof -
  have "acts L E R (Ready L E R K n installed ps) (lookup_rejection E R c [])
      (\<lambda>found s. Ready L E R K n installed ps s \<and> (found = None \<longrightarrow> Checked (whole_identity E R c) False \<in> set (st_calls s)))"
    by (rule acts_returns [OF side_lookup lookup_returns [OF assms]])
  then show ?thesis by (rule triple_conseq) (auto simp: Ready_def Inv_def)
qed

lemma acts_fetch:
  assumes "c \<in> K" and n: "m = (if 0 \<le> index then Suc n else n)"
  shows "acts L E R (Ready L E R K m installed ps) (call f (\<lambda>_. [Fetched c index])) (\<lambda>_. Ready L E R K n installed ps)"
  unfolding triple_def
proof (intro allI impI)
  fix s assume ready: "Ready L E R K m installed ps s"
  then have inv: "Inv L E R K m s" by (simp add: Ready_def)
  obtain a w where f: "f (st_world s) = (a, w)" by force
  let ?s = "s\<lparr>st_world := w, st_calls := st_calls s @ [Fetched c index]\<rparr>"
  have "calls_sound L E R ?s"
    by (rule calls_sound_snoc [where c = "Fetched c index"]) (use inv \<open>c \<in> K\<close> in \<open>auto simp: Inv_def\<close>)
  moreover have "title_fetches (st_calls ?s) + n \<le> 3"
    using inv n by (auto simp: Inv_def title_fetches_def split: if_splits)
  ultimately have "Inv L E R K n ?s" using inv by (auto simp: Inv_def)
  moreover have "fit E R installed ?s q" if "q \<in> set ps" for q
    using ready that by (auto simp: Ready_def intro: fit_grows)
  ultimately show "case call f (\<lambda>_. [Fetched c index]) s of (Inl e, s') \<Rightarrow> Inv L E R {} 0 s' | (Inr a, s') \<Rightarrow> Ready L E R K n installed ps s'"
    by (simp add: call_def f Ready_def)
qed

section \<open>Phases\<close>

lemma acts_reassess:
  "acts L E R (Ready L E R K n installed []) (reassess E candidate score) (\<lambda>_. Ready L E R K n installed [])"
proof -
  have upd: "acts L E R (Ready L E R K n installed []) (updateInstallationAssessment E candidate score) (\<lambda>_. Ready L E R K n installed [])"
    unfolding updateInstallationAssessment_def Let_def
  proof (rule triple_bnd [where Q' = "\<lambda>_. Ready L E R K n installed []"], rule triple_reads, assumption,
      rule triple_bnd [OF acts_side [OF side_call_quiet]])
    show "acts L E R (Ready L E R K n installed []) (case err of Some e \<Rightarrow> stop (f e) | None \<Rightarrow> update (\<lambda>s. s\<lparr>st_existing := x\<rparr>))
       (\<lambda>_. Ready L E R K n installed [])" for f err x
      by (cases err) (auto intro!: acts_stop triple_update simp: Ready_def Inv_def calls_sound_def lapse_inv_def)
  qed
  show ?thesis
    unfolding reassess_def
    by (rule triple_seq [OF upd], rule triple_bnd [OF acts_side [OF side_rules(3)]], rule triple_bnd [OF acts_side [OF side_ask]],
        rule acts_set_result) (simp add: setReassessmentResult_def)
qed

lemma acts_download_failed:
  "acts L E R (Ready L E R K n installed ps) (download_failed E R c e) (\<lambda>_. Ready L E R K n installed ps)"
  by (rule acts_side) (unfold download_failed_def, intro side_intros side_steps side_set_result, simp)

lemma acts_cached_item:
  assumes "p \<in> set ps"
  shows "acts L E R (Ready L E R K n installed ps) (cached_item E R installed workspace p)
     (\<lambda>yes s. if yes then Over L E R s else Ready L E R K n installed ps s)"
  unfolding cached_item_def
proof (rule triple_bnd [OF acts_try_install [OF assms]])
  fix answer :: "bool \<times> workflow_error option"
  obtain yes failure where a: "answer = (yes, failure)" by force
  show "acts L E R (case answer of (yes, failure) \<Rightarrow> if yes then Over L E R else Ready L E R K n installed ps)
      (case answer of (yes, failure) \<Rightarrow> if yes then ret True
         else seq (removeWorkflowArtifact E workspace (pr_output p)) (seq (set_outcome []) (ret False)))
      (\<lambda>yes s. if yes then Over L E R s else Ready L E R K n installed ps s)"
    unfolding a prod.case
    by (rule triple_if; (simp only: if_True if_False)?)
      (simp_all add: triple_ret OutcomeInstalled_def triple_seq [OF acts_side [OF side_remove]] triple_seq [OF acts_set_outcome])
qed

lemma Ready_fit: "\<lbrakk>Ready L E R K n installed [] s; \<forall>p \<in> set ps. fit E R installed s p\<rbrakk> \<Longrightarrow> Ready L E R K n installed ps s"
  by (simp add: Ready_def)

lemma acts_prepareMembers:
  assumes "own_score E R (pr_candidate item) (pr_score item)"
  shows "acts L E R (Ready L E R K n installed ps) (prepareMembers E R item paths installed workspace index)
     (\<lambda>new. Ready L E R K n installed (ps @ new))"
proof -
  have "acts L E R (Ready L E R K n installed ps) (prepareMembers E R item paths installed workspace index)
      (\<lambda>new s. Ready L E R K n installed ps s \<and> (\<forall>p \<in> set new. fit E R installed s p))"
    by (rule acts_returns [OF side_prepareMembers prepareMembers_returns [OF assms]])
  then show ?thesis by (rule triple_conseq) (auto simp: Ready_def)
qed

lemma acts_install_cached:
  assumes "own_score E R (cm_candidate cached) score"
  shows "acts L E R (Ready L E R K n installed []) (install_cached E R installed workspace cached score)
     (\<lambda>yes s. if yes then Over L E R s else Ready L E R K n installed [] s)"
  unfolding install_cached_def Let_def
proof (rule triple_bnd [OF acts_prepareMembers], simp add: downloadedCandidate_def assms)
  fix prepared
  have "acts L E R (Ready L E R K n installed prepared) (each (cached_item E R installed workspace) (sortPrepared prepared))
      (\<lambda>yes s. if yes then Over L E R s else Ready L E R K n installed prepared s)"
    by (rule triple_each_same) (rule acts_cached_item, simp)
  then show "acts L E R (Ready L E R K n installed ([] @ prepared))
      (bnd (each (cached_item E R installed workspace) (sortPrepared prepared)) (\<lambda>terminal.
         if terminal then ret True else seq (rejectExhaustedVersions E R (sortPrepared prepared)) (ret False)))
      (\<lambda>yes s. if yes then Over L E R s else Ready L E R K n installed [] s)"
    unfolding append.simps
  proof (rule triple_bnd)
    show "acts L E R (\<lambda>s. if terminal then Over L E R s else Ready L E R K n installed prepared s)
        (if terminal then ret True else seq (rejectExhaustedVersions E R (sortPrepared prepared)) (ret False))
        (\<lambda>yes s. if yes then Over L E R s else Ready L E R K n installed [] s)" for terminal
      by (cases terminal)
        (auto intro!: triple_ret triple_seq [OF acts_side [OF side_rejectExhausted]] elim: Ready_weaken)
  qed
qed

lemma own_score_cached:
  "own_score E R (cm_candidate cached) (evaluateCachedMember E (aq_media R) cached (rq_language (aq_request R)))"
  by (simp add: own_score_def evaluateCachedMember_def Let_def)

lemma acts_reassessed:
  "acts L E R (Ready L E R K n installed []) (seq (reassess E candidate score)
     (seq (update (\<lambda>s. s\<lparr>st_assessed := True\<rparr>)) (decide stage candidate text))) (\<lambda>_. Ready L E R K n installed [])"
  by (rule triple_seq [OF acts_reassess], rule triple_seq [OF acts_side acts_side]) (intro side_update moves_quiet side_decide)+

lemma acts_cached_member:
  "acts L E R (Ready L E R K n installed []) (cached_member E R installed workspace cached)
     (\<lambda>yes s. if yes then Over L E R s else Ready L E R K n installed [] s)"
proof -
  let ?Q = "\<lambda>yes s. if yes then Over L E R s else Ready L E R K n installed [] s"
  have no: "acts L E R (Ready L E R K n installed []) (ret False) ?Q" by (simp add: triple_ret)
  note side = triple_seq [OF acts_side]
  show ?thesis
    unfolding cached_member_def Let_def
    by (rule triple_bnd [OF acts_side [OF side_lookup]], rule triple_if, rule side [OF side_decide_rejected no],
        rule triple_if, rule side [OF side_decide no], rule triple_bnd [OF acts_side [OF side_rules(3)]],
        rule triple_if, rule triple_seq [OF acts_reassess], rule side [OF side_update], rule moves_quiet, rule side [OF side_decide no],
        rule triple_if, rule triple_bnd [OF acts_side [OF side_rules(4)]], rule triple_if,
        rule acts_install_cached [OF own_score_cached], rule no, rule acts_install_cached [OF own_score_cached])
qed

lemma acts_cached_phase:
  "acts L E R (Ready L E R K n installed []) (cached_phase E R installed workspace)
     (\<lambda>yes s. if yes then Over L E R s else Ready L E R K n installed [] s)"
proof (cases "av_find_pack E")
  case None
  then show ?thesis by (simp add: cached_phase_def triple_ret)
next
  case (Some find_pack)
  let ?Q = "\<lambda>yes s. if yes then Over L E R s else Ready L E R K n installed [] s"
  have no: "acts L E R (Ready L E R K n installed []) (ret False) ?Q" by (simp add: triple_ret)
  have member: "acts L E R (Ready L E R K n installed [])
      (case member of None \<Rightarrow> ret False | Some cached \<Rightarrow> cached_member E R installed workspace cached) ?Q" for member
    by (cases member) (simp_all add: no acts_cached_member)
  have cache: "acts L E R (Ready L E R K n installed [])
      (case failed of Some text \<Rightarrow> seq (decide ''pack_cache'' zero_candidate text) (ret False)
        | None \<Rightarrow> (case member of None \<Rightarrow> ret False | Some cached \<Rightarrow> cached_member E R installed workspace cached)) ?Q" for failed member
    by (cases failed) (simp_all add: member triple_seq [OF acts_side [OF side_decide] no])
  have lookup: "acts L E R (Ready L E R K n installed []) (case err of Some e \<Rightarrow> stop e | None \<Rightarrow>
      (case failed of Some text \<Rightarrow> seq (decide ''pack_cache'' zero_candidate text) (ret False)
        | None \<Rightarrow> (case member of None \<Rightarrow> ret False | Some cached \<Rightarrow> cached_member E R installed workspace cached))) ?Q" for err failed member
    by (cases err) (simp_all add: cache acts_stop)
  show ?thesis
    unfolding cached_phase_def Some option.case
    by (rule triple_if, rule no, rule triple_bnd [OF acts_side [OF side_call_quiet]],
        rule triple_seq [OF acts_side [OF side_add_decisions]], rule lookup)
qed

lemma acts_exact_downloaded:
  assumes "own_score E R candidate score"
  shows "acts L E R (Ready L E R K n installed []) (exact_downloaded E R installed workspace index candidate score path pack)
     (\<lambda>yes s. if yes then Over L E R s else Ready L E R K n installed [] s)"
proof -
  let ?Q = "\<lambda>yes s. if yes then Over L E R s else Ready L E R K n installed [] s"
  let ?item = "(downloadedCandidate candidate score (priority_of E (c_provider_id candidate)) pack)\<lparr>pr_path := path\<rparr>"
  let ?A = "\<lambda>answer s. Ready L E R K n installed [] s \<and> (case answer of Inl _ \<Rightarrow> True | Inr p \<Rightarrow> fit E R installed s p)"
  note side = triple_seq [OF acts_side]
  have no: "acts L E R (Ready L E R K n installed []) (ret False) ?Q" by (simp add: triple_ret)
  have own: "own_score E R (pr_candidate ?item) (pr_score ?item)" using assms by (simp add: downloadedCandidate_def)
  have prep: "acts L E R (Ready L E R K n installed []) (attempt (prepareCandidate E R ?item installed workspace (- index - 2))) ?A"
    by (rule acts_returns, intro side_intros side_prepare, rule triple_attempt, rule triple_conseq [OF prepare_returns [OF own]]) simp_all
  have tried: "acts L E R (\<lambda>s. if yes then Over L E R s else Ready L E R K n installed [p] s)
      (if yes then ret True else seq (removeWorkflowArtifact E workspace path)
        (seq (case failure of Some e \<Rightarrow> candidateFailureDecision E ''installation'' candidate e | None \<Rightarrow> set_outcome [])
          (ret False))) ?Q" for yes p failure
  proof (cases yes)
    case True
    then show ?thesis by (simp add: triple_ret)
  next
    case False
    have "acts L E R (Ready L E R K n installed [p])
        (case failure of Some e \<Rightarrow> candidateFailureDecision E ''installation'' candidate e | None \<Rightarrow> set_outcome [])
        (\<lambda>_. Ready L E R K n installed [p])"
      by (cases failure) (simp_all add: acts_side side_failure_decision acts_set_outcome OutcomeInstalled_def)
    then show ?thesis
      using False by (auto intro!: side [OF side_remove] triple_seq [OF _ triple_ret] elim!: Ready_weaken)
  qed
  show ?thesis
    unfolding exact_downloaded_def Let_def
  proof (rule side [OF side_checks(2)], rule triple_bnd [OF acts_side [OF side_begin]], rule triple_if,
      rule side [OF side_remove no], rule triple_bnd [OF prep])
    fix answer :: "workflow_error + preparedCandidate"
    show "acts L E R (?A answer) (case answer of
          Err e \<Rightarrow> seq (handleCandidateFailure E R candidate path e) (seq (removeWorkflowArtifact E workspace path) (ret False))
        | Ok prepared \<Rightarrow>
            bnd (try_install E R R prepared installed) (\<lambda>(yes, failure).
              if yes then ret True
              else seq (removeWorkflowArtifact E workspace path)
                (seq (case failure of Some e \<Rightarrow> candidateFailureDecision E ''installation'' candidate e | None \<Rightarrow> set_outcome [])
                  (ret False)))) ?Q"
    proof (cases answer)
      case (Inl e)
      then show ?thesis by (simp add: side [OF side_handle] side [OF side_remove] no)
    next
      case (Inr p)
      have "acts L E R (Ready L E R K n installed [p])
          (bnd (try_install E R R p installed) (\<lambda>(yes, failure).
              if yes then ret True
              else seq (removeWorkflowArtifact E workspace path)
                (seq (case failure of Some e \<Rightarrow> candidateFailureDecision E ''installation'' candidate e | None \<Rightarrow> set_outcome [])
                  (ret False)))) ?Q"
      proof (rule triple_bnd [OF acts_try_install])
        show "p \<in> set [p]" by simp
        fix r :: "bool \<times> workflow_error option"
        obtain yes failure where r: "r = (yes, failure)" by force
        show "acts L E R (case r of (yes, failure) \<Rightarrow> if yes then Over L E R else Ready L E R K n installed [p])
          (case r of (yes, failure) \<Rightarrow> if yes then ret True
              else seq (removeWorkflowArtifact E workspace path)
                (seq (case failure of Some e \<Rightarrow> candidateFailureDecision E ''installation'' candidate e | None \<Rightarrow> set_outcome [])
                  (ret False))) ?Q"
          unfolding r prod.case using tried [of yes p failure] by (cases yes) (simp_all only: if_True if_False)
      qed
      then show ?thesis unfolding Inr sum.case by (rule triple_conseq) (auto simp: Ready_def)
    qed
  qed
qed

lemma own_score_title: "own_score E R c (service_evaluate E (aq_media R) c (rq_language (aq_request R)))"
  by (simp add: own_score_def Let_def)

lemma acts_exact_candidate:
  assumes scope: "aq_member_scope R = []"
  shows "acts L E R (Ready L E R {} n installed []) (exact_candidate E R installed workspace numbered)
     (\<lambda>yes s. if yes then Over L E R s else Ready L E R {} n installed [] s)"
proof -
  let ?Q = "\<lambda>yes s. if yes then Over L E R s else Ready L E R {} n installed [] s"
  obtain i c where numbered: "numbered = (i, c)" by force
  let ?score = "service_evaluate E (aq_media R) c (rq_language (aq_request R))"
  note side = triple_seq [OF acts_side]
  have no: "acts L E R (Ready L E R K n installed []) (ret False) ?Q" for K by (rule triple_ret) (simp, erule Ready_weaken, auto)
  have found: "acts L E R (Ready L E R {c} n installed []) (bnd (call (av_download E R c workspace (- int i - 1)) (\<lambda>_. [Fetched c (- int i - 1)])) (\<lambda>answer.
               seq (add_decisions (da_decisions answer))
                 (case da_paths answer of
                    Err e \<Rightarrow> seq (download_failed E R c e) (ret False)
                  | Ok paths \<Rightarrow> exact_downloaded E R installed workspace (int i) c ?score (hd paths) (da_runtime_pack answer)))) ?Q"
  proof (rule triple_bnd [OF acts_fetch], simp, simp, rule side [OF side_add_decisions])
    fix answer :: download_answer
    have downloaded: "acts L E R (Ready L E R {c} n installed [])
        (exact_downloaded E R installed workspace (int i) c ?score path pack) ?Q" for path pack
      by (rule triple_conseq [OF acts_exact_downloaded [OF own_score_title, where K = "{c}" and n = n and installed = installed]])
        (auto split: if_splits elim: Ready_weaken)
    show "acts L E R (Ready L E R {c} n installed []) (case da_paths answer of
                    Err e \<Rightarrow> seq (download_failed E R c e) (ret False)
                  | Ok paths \<Rightarrow> exact_downloaded E R installed workspace (int i) c ?score (hd paths) (da_runtime_pack answer)) ?Q"
      by (cases "da_paths answer"; simp only: sum.case) (rule triple_seq [OF acts_download_failed no], rule downloaded)
  qed
  have look: "acts L E R (Ready L E R (if found = None then insert c {} else {}) n installed [])
      (if found \<noteq> None then seq (decide_rejected c found) (ret False)
       else bnd (call (av_download E R c workspace (- int i - 1)) (\<lambda>_. [Fetched c (- int i - 1)])) (\<lambda>answer.
               seq (add_decisions (da_decisions answer))
                 (case da_paths answer of
                    Err e \<Rightarrow> seq (download_failed E R c e) (ret False)
                  | Ok paths \<Rightarrow> exact_downloaded E R installed workspace (int i) c ?score (hd paths) (da_runtime_pack answer)))) ?Q"
    for found :: "CandidateRejection option"
    by (cases found) (simp_all add: found side [OF side_decide_rejected no])
  have again: "acts L E R (Ready L E R {} n installed []) (seq (reassess E c ?score)
             (seq (set_outcome OutcomeSatisfied)
             (seq (decide ''upgrade'' c ''refreshed assessment for installed provider candidate'') (ret True)))) ?Q"
    by (rule triple_seq [OF acts_reassess], rule triple_seq [OF acts_set_outcome], simp add: OutcomeSatisfied_def OutcomeInstalled_def,
        rule side [OF side_decide], rule triple_ret) (auto simp: Ready_def intro: Inv_Over)
  show ?thesis
    unfolding exact_candidate_def numbered Let_def prod.case
    by (rule side [OF side_checks(1)], rule side [OF side_checks(2)], rule triple_if, rule no, rule triple_if, rule no,
        rule triple_bnd [OF acts_side [OF side_rules(3)]], rule triple_if, rule again,
        rule triple_bnd [OF acts_lookup [OF scope]], rule look)
qed

lemma acts_exact_phase:
  assumes scope: "aq_member_scope R = []"
  shows "acts L E R (Ready L E R {} n installed []) (exact_phase E R installed workspace)
     (\<lambda>yes s. if yes then Over L E R s else Ready L E R {} n installed [] s)"
proof -
  note side = triple_seq [OF acts_side]
  have search: "side (check_search E R mode found)" for mode found
    unfolding check_search_def by (intro side_intros side_steps side_update moves_quiet)
  have records: "side (record_exact E R found)" for found
    unfolding record_exact_def by (intro side_intros side_steps side_update moves_quiet)
  show ?thesis
    unfolding exact_phase_def tryExactCandidates_def
    by (rule triple_bnd [OF acts_side [OF side_call_quiet]], rule side [OF search], rule side [OF records],
        rule triple_each_same, rule acts_exact_candidate [OF scope])
qed

section \<open>The tournament\<close>

lemma acts_conclude:
  "acts L E R (Ready L E R K n installed ps) (conclude_failures E) (\<lambda>_. Ready L E R K n installed ps)"
  unfolding conclude_failures_def
proof (rule triple_bnd [where Q' = "\<lambda>(classified, err, found) s. Ready L E R K n installed ps s \<and> rs_outcome classified \<noteq> OutcomeInstalled"])
  show "acts L E R (Ready L E R K n installed ps)
      (reads (\<lambda>s. classifyCandidateFailures (st_result s) (map (av_reread E (st_world s)) (st_failures s))))
      (\<lambda>(classified, err, found) s. Ready L E R K n installed ps s \<and> rs_outcome classified \<noteq> OutcomeInstalled)"
    by (rule triple_reads)
      (auto simp: classifyCandidateFailures_def Ready_def Inv_def OutcomeInstalled_def OutcomeThrottled_def Let_def split: if_splits prod.splits)
  fix answer :: "Result \<times> workflow_error option \<times> bool"
  obtain classified err found where a: "answer = (classified, err, found)" by (metis prod_cases3)
  let ?P = "\<lambda>s. Ready L E R K n installed ps s \<and> rs_outcome classified \<noteq> OutcomeInstalled"
  have set: "acts L E R ?P (set_result (\<lambda>_. classified)) (\<lambda>_. Ready L E R K n installed ps)"
    unfolding set_result_def by (rule triple_update, rule Ready_same) auto
  have "acts L E R (Ready L E R K n installed ps) (case err of Some e \<Rightarrow> stop e | None \<Rightarrow> ret True) (\<lambda>_. Ready L E R K n installed ps)"
    by (cases err) (simp_all add: acts_stop triple_ret)
  from triple_seq [OF set this]
  show "acts L E R (case answer of (classified, err, found) \<Rightarrow> \<lambda>s. Ready L E R K n installed ps s \<and> rs_outcome classified \<noteq> OutcomeInstalled)
      (case answer of (classified, err, found) \<Rightarrow> if \<not> found then ret False
         else seq (set_result (\<lambda>_. classified)) (case err of Some e \<Rightarrow> stop e | None \<Rightarrow> ret True))
      (\<lambda>_. Ready L E R K n installed ps)"
    unfolding a prod.case by (cases found) (auto intro!: triple_ret)
qed

lemma acts_concluded:
  "acts L E R (Ready L E R K n installed ps) (bnd (conclude_failures E) (\<lambda>found. if found then ret () else set_outcome OutcomeRejected))
     (\<lambda>_. Ready L E R K n installed ps)"
  by (rule triple_bnd [OF acts_conclude])
    (simp add: triple_ret acts_set_outcome OutcomeRejected_def OutcomeInstalled_def)

lemma Ready_Over: "Ready L E R K n installed ps s \<Longrightarrow> Over L E R s"
  by (auto simp: Ready_def intro: Inv_Over)

lemma acts_concluded_over:
  "acts L E R (Ready L E R K n installed ps) (bnd (conclude_failures E) (\<lambda>found. if found then ret () else set_outcome OutcomeRejected))
     (\<lambda>_. Over L E R)"
  using acts_concluded by (rule triple_conseq) (auto intro: Ready_Over)

lemma acts_tier_candidate:
  assumes own: "own_score E R (ev_candidate item) (ev_score item)" and K: "ev_candidate item \<in> K"
  shows "acts L E R (Ready L E R K (Suc n) installed ps) (tier_candidate E R installed workspace (i, item) left)
     (\<lambda>(new, ended). Ready L E R K n installed (ps @ new))"
proof -
  let ?c = "ev_candidate item" and ?Q = "\<lambda>(new, ended :: bool). Ready L E R K n installed (ps @ new)"
  note side = triple_seq [OF acts_side]
  let ?prepared = "\<lambda>prepared. case excellentSync prepared of
       Some best \<Rightarrow>
         if left > 0 then
           seq (decide ''early_accept'' (pr_candidate best) (''LAPSE confidence ''
               @ av_three_decimals E (sy_confidence (pr_sync best)) @ ''; '' @ itoa (int left)
               @ '' tied candidates not checked'')) (ret (prepared, True))
         else ret (prepared, False)
     | None \<Rightarrow> ret (prepared, False)"
  have prepared: "acts L E R (Ready L E R K n installed (ps @ prepared)) (?prepared prepared) ?Q" for prepared
    by (cases "excellentSync prepared") (auto intro!: triple_ret side [OF side_decide])
  have members: "acts L E R (Ready L E R K n installed ps)
      (bnd (prepareMembers E R ((downloadedCandidate ?c (ev_score item) (ev_priority item) pack)\<lparr>pr_more_versions := more\<rparr>)
         paths installed workspace (int i * 4)) ?prepared) ?Q" for pack more paths
    by (rule triple_bnd [OF acts_prepareMembers prepared]) (simp add: downloadedCandidate_def own)
  have download: "acts L E R (Ready L E R K n installed ps) (case da_paths answer of
       Err e \<Rightarrow> seq (download_failed E R ?c e) (ret ([], False))
     | Ok paths \<Rightarrow>
         let downloaded = (downloadedCandidate ?c (ev_score item) (ev_priority item) (da_runtime_pack answer))
               \<lparr>pr_more_versions := da_more_versions answer\<rparr>
         in bnd (prepareMembers E R downloaded paths installed workspace (int i * 4)) ?prepared) ?Q" for answer
    by (cases "da_paths answer"; simp only: sum.case Let_def)
      (rule triple_seq [OF acts_download_failed], rule triple_ret, simp, rule members)
  show ?thesis
    unfolding tier_candidate_def Let_def prod.case
    by (rule side [OF side_checks(1)], rule side [OF side_checks(2)], rule triple_bnd [OF acts_fetch [OF K]], simp,
        rule side [OF side_add_decisions], rule download [unfolded Let_def])
qed

lemma side_remove_both: "side (remove_both E workspace item)"
  unfolding remove_both_def by (intro side_intros side_steps)

lemma acts_tier_item:
  assumes "p \<in> set ps"
  shows "acts L E R (Ready L E R K n installed ps) (tier_item E R installed workspace many (i, p))
     (\<lambda>yes s. if yes then Over L E R s else Ready L E R K n installed ps s)"
  unfolding tier_item_def Let_def prod.case
proof (rule triple_seq [OF acts_side [OF side_checks(1)]], rule triple_bnd [OF acts_try_install [OF assms]])
  let ?Q = "\<lambda>yes s. if yes then Over L E R s else Ready L E R K n installed ps s"
  fix r :: "bool \<times> workflow_error option"
  obtain yes failure where r: "r = (yes, failure)" by force
  note side = triple_seq [OF acts_side]
  have over: "acts L E R (Over L E R) (seq (decide stage c msg) (ret True)) ?Q" for stage c msg
    by (simp add: triple_def seq_def bnd_def decide_def add_decisions_def set_result_def update_def ret_def Over_def Inv_def Fin_def
        calls_sound_def lapse_inv_def)
  have on: "acts L E R (Ready L E R K n installed ps) (seq (case failure of Some e \<Rightarrow> candidateFailureDecision E ''installation'' c e | None \<Rightarrow> ret ())
            (seq (remove_both E workspace p)
            (seq (set_outcome [])
            (seq (if i + 1 < many then decide ''fallback'' zero_candidate ''next candidate in tier'' else ret ()) (ret False))))) ?Q" for c
    by (rule side [OF side_case_option [OF side_rules(1) side_failure_decision]], rule side [OF side_remove_both],
        rule triple_seq [OF acts_set_outcome], simp add: OutcomeInstalled_def, rule side, intro side_intros side_decide, rule triple_ret) simp
  show "acts L E R (case r of (yes, failure) \<Rightarrow> if yes then Over L E R else Ready L E R K n installed ps)
      (case r of (yes, failure) \<Rightarrow> if yes then
            seq (decide ''early_stop'' (pr_candidate p) (''installed from score '' @ itoa (sc_total (pr_score p)) @ ''; lower tiers skipped''))
              (ret True)
          else
            seq (case failure of Some e \<Rightarrow> candidateFailureDecision E ''installation'' (pr_candidate p) e | None \<Rightarrow> ret ())
            (seq (remove_both E workspace p)
            (seq (set_outcome [])
            (seq (if i + 1 < many then decide ''fallback'' zero_candidate ''next candidate in tier'' else ret ()) (ret False))))) ?Q"
    unfolding r prod.case using over on by (cases yes) (simp_all only: if_True if_False)
qed

lemma in_enumerated: "(i, x) \<in> set (enumerate k xs) \<Longrightarrow> x \<in> set xs"
  by (auto simp: in_set_enumerate_eq)

definition fits_budget :: "'x acquire_env \<Rightarrow> acq_request \<Rightarrow> Candidate set \<Rightarrow> (nat \<times> EvaluatedCandidate) list \<Rightarrow> bool" where
  "fits_budget E R K tier \<longleftrightarrow>
     (\<forall>(i, item) \<in> set tier. own_score E R (ev_candidate item) (ev_score item) \<and> ev_candidate item \<in> K)"

lemma acts_tier:
  assumes fits: "fits_budget E R K tier"
  shows "acts L E R (Ready L E R K (length tier + n) installed []) (tournament_tier E R installed workspace many (i, tier))
     (\<lambda>yes s. if yes then Over L E R s else Ready L E R K n installed [] s)"
  unfolding tournament_tier_def Let_def prod.case
proof (rule triple_seq [OF acts_side [OF side_decide]], rule triple_bnd)
  let ?Q = "\<lambda>yes s. if yes then Over L E R s else Ready L E R K n installed [] s"
  note side = triple_seq [OF acts_side]
  show "acts L E R (Ready L E R K (length tier + n) installed []) (gather (tier_candidate E R installed workspace) tier)
      (\<lambda>ps. Ready L E R K n installed ([] @ ps))"
  proof (rule triple_gather [where I = "\<lambda>k ps. Ready L E R K k installed ps"])
    fix numbered k m acc assume "numbered \<in> set tier"
    then show "acts L E R (Ready L E R K (Suc k) installed acc) (tier_candidate E R installed workspace numbered m)
        (\<lambda>(new, ended). Ready L E R K k installed (acc @ new))"
      using fits by (cases numbered) (auto simp: fits_budget_def intro!: acts_tier_candidate)
  next
    show "Ready L E R K (Suc k) installed ps s \<Longrightarrow> Ready L E R K k installed ps s" for k ps s by (erule Ready_weaken) simp_all
  qed
  fix prepared
  have item: "acts L E R (Ready L E R K n installed prepared) (tier_item E R installed workspace (length prepared) numbered)
      (\<lambda>yes s. if yes then Over L E R s else Ready L E R K n installed prepared s)"
    if "numbered \<in> set (enumerate 0 (sortPrepared prepared))" for numbered
  proof -
    obtain j p where "numbered = (j, p)" by force
    with that have "p \<in> set prepared" using in_enumerated [of j p 0 "sortPrepared prepared"] by simp
    then show ?thesis unfolding \<open>numbered = (j, p)\<close> by (rule acts_tier_item)
  qed
  have after: "acts L E R (Ready L E R K n installed prepared) (seq (rejectExhaustedVersions E R (sortPrepared prepared))
        (if i + 1 < many then seq (check_ctx E) (seq (decide ''fallback'' zero_candidate ''next score tier'') (ret False))
         else ret False)) ?Q"
    by (rule side [OF side_rejectExhausted], rule triple_if, rule side [OF side_checks(1)], rule side [OF side_decide])
      (rule triple_ret, simp, erule Ready_weaken, simp_all)+
  show "acts L E R (Ready L E R K n installed ([] @ prepared))
      (bnd (each (tier_item E R installed workspace (length prepared)) (enumerate 0 (sortPrepared prepared))) (\<lambda>terminal.
            if terminal then ret True
            else seq (rejectExhaustedVersions E R (sortPrepared prepared))
              (if i + 1 < many then seq (check_ctx E) (seq (decide ''fallback'' zero_candidate ''next score tier'') (ret False))
               else ret False))) ?Q"
    unfolding append.simps
  proof (rule triple_bnd [OF triple_each_same [OF item]])
    show "acts L E R (\<lambda>s. if terminal then Over L E R s else Ready L E R K n installed prepared s)
        (if terminal then ret True
            else seq (rejectExhaustedVersions E R (sortPrepared prepared))
              (if i + 1 < many then seq (check_ctx E) (seq (decide ''fallback'' zero_candidate ''next score tier'') (ret False))
               else ret False)) ?Q" for terminal
      using after by (cases terminal) (simp_all only: if_True if_False triple_ret)
  qed
qed

lemma concat_tiers: "concat (score_tiers xs) = xs"
  by (induction xs rule: score_tiers.induct) simp_all

lemma sum_length_tiers: "sum_list (map length tiers) = length (concat tiers)"
  by (simp add: length_concat)

lemma set_shortlist: "set (shortlist xs) \<subseteq> set xs"
  by (auto simp: shortlist_def find_Some_iff split: option.splits dest: in_set_takeD)

lemma length_shortlist: "length (shortlist xs) \<le> 3"
  by (simp add: shortlist_def split: option.splits)

lemma acts_tournament:
  assumes own: "\<And>item. item \<in> set eligible \<Longrightarrow> own_score E R (ev_candidate item) (ev_score item)"
  shows "acts L E R (Ready L E R (ev_candidate ` set eligible) 3 installed []) (tournament E R installed workspace eligible) (\<lambda>_. Over L E R)"
proof -
  define K where "K = ev_candidate ` set eligible"
  define tiers where "tiers = score_tiers (enumerate 0 (shortlist eligible))"
  have all: "set (concat tiers) = set (enumerate 0 (shortlist eligible))" and many: "sum_list (map length tiers) \<le> 3"
    by (simp_all only: tiers_def concat_tiers sum_length_tiers length_enumerate length_shortlist)
  have fits: "fits_budget E R K tier" if "tier \<in> set tiers" for tier
  proof -
    have "item \<in> set eligible" if "(i, item) \<in> set tier" for i item
    proof -
      from that \<open>tier \<in> set tiers\<close> have "(i, item) \<in> set (enumerate 0 (shortlist eligible))" using all by auto
      then have "item \<in> set (shortlist eligible)" by (auto simp: in_set_enumerate_eq)
      then show ?thesis using set_shortlist by auto
    qed
    then show ?thesis using own by (auto simp: fits_budget_def K_def)
  qed
  let ?I = "\<lambda>rest. Ready L E R K (sum_list (map (length \<circ> snd) rest)) installed []"
  have tier: "acts L E R (?I (numbered # rest)) (tournament_tier E R installed workspace (length tiers) numbered)
      (\<lambda>yes s. if yes then Over L E R s else ?I rest s)" if "numbered \<in> set (enumerate 0 tiers)" for numbered rest
  proof -
    obtain i tier where n: "numbered = (i, tier)" by force
    with that have "tier \<in> set tiers" by (auto simp: in_set_enumerate_eq)
    from acts_tier [OF fits [OF this], of L "sum_list (map (length \<circ> snd) rest)" installed workspace "length tiers" i]
    show ?thesis by (simp add: n)
  qed
  have start: "Ready L E R K 3 installed [] s \<Longrightarrow> ?I (enumerate 0 tiers) s" for s
  proof -
    assume "Ready L E R K 3 installed [] s"
    moreover have "map (length \<circ> snd) (enumerate 0 tiers) = map length tiers" by (simp add: enumerate_eq_zip flip: map_map)
    ultimately show ?thesis using many by (auto elim: Ready_weaken)
  qed
  have loop: "acts L E R (Ready L E R K 3 installed []) (each (tournament_tier E R installed workspace (length tiers)) (enumerate 0 tiers))
      (\<lambda>yes s. if yes then Over L E R s else ?I [] s)"
    by (rule triple_conseq [OF triple_each_left [where I = ?I, OF tier]]) (auto intro: start)
  have ends: "acts L E R (\<lambda>s. if terminal then Over L E R s else ?I [] s)
      (if terminal then ret () else bnd (conclude_failures E) (\<lambda>found. if found then ret () else set_outcome OutcomeRejected))
      (\<lambda>_. Over L E R)" for terminal
    using acts_concluded_over [of L E R K 0 installed] by (cases terminal) (simp_all add: triple_ret)
  show ?thesis
    unfolding tournament_def Let_def tiers_def [symmetric] K_def [symmetric] by (rule triple_bnd [OF loop ends])
qed

section \<open>The title search\<close>

definition Chosen ::
  "workflow_error option \<Rightarrow> 'x acquire_env \<Rightarrow> acq_request \<Rightarrow> nat \<Rightarrow> bool \<Rightarrow> EvaluatedCandidate list \<Rightarrow> 'x acq_state \<Rightarrow> bool" where
  "Chosen L E R n installed eligible s \<longleftrightarrow> Ready L E R (ev_candidate ` set eligible) n installed [] s
     \<and> (\<forall>item \<in> set eligible. own_score E R (ev_candidate item) (ev_score item))"

lemma acts_add_eligible:
  assumes scope: "aq_member_scope R = []" and own: "own_score E R (ev_candidate item) (ev_score item)"
  shows "acts L E R (Chosen L E R n installed eligible) (add_eligible E R installed item eligible) (Chosen L E R n installed)"
proof -
  let ?I = "Chosen L E R n installed"
  let ?own = "\<forall>item \<in> set eligible. own_score E R (ev_candidate item) (ev_score item)"
  let ?K = "ev_candidate ` set eligible"
  note side = triple_seq [OF acts_side]
  have found: "acts L E R (Ready L E R (if found = None then insert (ev_candidate item) ?K else ?K) n installed [])
      (if found \<noteq> None then seq (decide_rejected (ev_candidate item) found) (ret eligible) else ret (eligible @ [item])) ?I"
    if ?own for found :: "CandidateRejection option"
    using that own by (cases found) (simp_all add: Chosen_def triple_ret side [OF side_decide_rejected])
  have new: "acts L E R (Ready L E R ?K n installed []) (not_rejected E R item eligible) ?I" if ?own
    unfolding not_rejected_def by (rule triple_bnd [OF acts_lookup [OF scope] found [OF that]])
  have old: "acts L E R (Ready L E R ?K n installed []) (ret eligible) ?I" if ?own
    using that by (simp add: Chosen_def triple_ret)
  have all: "acts L E R (Ready L E R ?K n installed []) (add_eligible E R installed item eligible) ?I" if o: ?own
    unfolding add_eligible_def
    by (rule triple_if, rule old [OF o], rule triple_if, rule triple_bnd [OF acts_side [OF side_rules(3)]], rule triple_if,
        rule side [OF side_decide old [OF o]], rule triple_bnd [OF acts_side [OF side_rules(4)]], rule triple_if, rule old [OF o],
        rule new [OF o], rule new [OF o])
  show ?thesis
  proof (cases ?own)
    case True
    from all [OF True] show ?thesis by (rule triple_conseq) (simp_all add: Chosen_def)
  qed (auto simp: triple_def Chosen_def)
qed

lemma acts_satisfied: "acts L E R (Ready L E R K n installed ps) satisfied_by_existing (\<lambda>_. Ready L E R K n installed ps)"
  unfolding satisfied_by_existing_def
  by (rule triple_bnd [OF acts_side [OF side_rules(3)]], rule acts_set_result) (simp add: OutcomeSatisfied_def OutcomeInstalled_def)

lemma acts_throttled: "acts L E R (Ready L E R K n installed ps) (throttled retry) (\<lambda>_. Ready L E R K n installed ps)"
  unfolding throttled_def by (rule acts_set_result) (simp add: OutcomeThrottled_def OutcomeInstalled_def)

lemma acts_over: "acts L E R (Ready L E R K n installed ps) f (\<lambda>_. Ready L E R K n installed ps) \<Longrightarrow> acts L E R (Ready L E R K n installed ps) f (\<lambda>_. Over L E R)"
  by (erule triple_conseq) (auto intro: Ready_Over)

lemma acts_at: "(\<And>x. acts L E R P (f x) Q) \<Longrightarrow> acts L E R P (bnd (reads g) f) Q"
  by (auto simp: triple_def bnd_def reads_def)

lemma acts_none_eligible: "acts L E R (Ready L E R K n installed []) (none_eligible E R installed search) (\<lambda>_. Over L E R)"
  unfolding none_eligible_def Let_def split_def
  by (rule acts_at, rule triple_if, rule acts_over [OF acts_satisfied], rule triple_if, rule acts_over [OF acts_throttled],
      rule acts_concluded_over)

lemma acts_nothing_found: "acts L E R (Ready L E R K n installed []) (nothing_found E R installed search providers) (\<lambda>_. Over L E R)"
proof -
  have out: "acts L E R (Ready L E R K n installed [])
      (if found then ret () else if b then set_outcome OutcomeRejected else set_outcome OutcomeNoResult) (\<lambda>_. Over L E R)" for found b
    by (intro triple_if acts_over triple_ret acts_set_outcome) (simp_all add: OutcomeRejected_def OutcomeNoResult_def OutcomeInstalled_def)
  show ?thesis
    unfolding nothing_found_def Let_def split_def
    by (rule acts_at, rule triple_seq [OF acts_side], intro side_intros side_record_all, rule triple_if, rule acts_over [OF acts_satisfied],
        rule triple_if, rule acts_over [OF acts_throttled], rule triple_if, rule acts_stop, rule triple_if, rule acts_over [OF acts_throttled],
        rule triple_bnd [OF acts_conclude out])
qed

definition release_known :: "'x acquire_env \<Rightarrow> acq_request \<Rightarrow> bool" where
  "release_known E R \<longleftrightarrow>
     (\<forall>m. aq_release_media R = Some m \<longrightarrow> releaseNumberedMedia (av_release_episode E) (aq_media R) = Some m)"

lemma own_score_evaluated:
  "\<lbrakk>release_known E R; item \<in> set (evaluated_candidates E R search)\<rbrakk> \<Longrightarrow> own_score E R (ev_candidate item) (ev_score item)"
  by (cases "aq_release_media R"; cases "c_release_numbered (ev_candidate item)")
    (auto simp: evaluated_candidates_def own_score_def release_known_def candidateMedia_def Let_def)

lemma Ready_release [simp]: "Ready L E (R\<lparr>aq_release_media := m\<rparr>) = Ready L E R"
proof -
  have "fit E (R\<lparr>aq_release_media := m\<rparr>) = fit E R"
    by (simp add: fun_eq_iff fit_def wanted_def sync_justified_def own_score_def aq_media_def)
  then show ?thesis by (intro ext) (simp only: Ready_def Inv_release)
qed

lemma set_Rank [simp]: "set (Rank xs) = set xs"
  by (simp add: Rank_def)

text \<open>What follows the title search.\<close>

definition title_phase :: "'x acquire_env \<Rightarrow> acq_request \<Rightarrow> bool \<Rightarrow> string \<Rightarrow> SearchResult \<Rightarrow> ('x, unit) step" where
  "title_phase E R installed workspace search =
     seq (check_search E R SearchBroad search)
     (seq (set_result (\<lambda>r. r\<lparr>rs_provider_errors := workflow_errors search\<rparr>))
     (if sx_candidates search = [] then nothing_found E R installed search (applicableProviderCount E R search)
      else
        let evaluated = evaluated_candidates E R search; ranked = Rank evaluated
        in seq (record_broad E R evaluated)
          (seq (reassess_installed E R installed ranked)
          (bnd (carry (add_eligible E R installed) ranked []) (\<lambda>eligible.
            if eligible = [] then none_eligible E R installed search
            else tournament E R installed workspace eligible)))))"

lemma acts_title_phase:
  assumes scope: "aq_member_scope R = []" and release: "release_known E R"
  shows "acts L E R (Ready L E R {} 3 installed []) (title_phase E R installed workspace search) (\<lambda>_. Over L E R)"
proof -
  note side = triple_seq [OF acts_side]
  let ?ranked = "Rank (evaluated_candidates E R search)"
  let ?I = "Chosen L E R 3 installed"
  have checked: "side (check_search E R SearchBroad search)" unfolding check_search_def by (intro side_intros side_steps side_update moves_quiet)
  have errors: "side (set_result (\<lambda>r. r\<lparr>rs_provider_errors := x\<rparr>))" for x by (rule side_set_result) simp
  have records: "side (record_broad E R evaluated)" for evaluated unfolding record_broad_def by (intro side_intros side_steps)
  have again: "acts L E R (Ready L E R {} 3 installed []) (reassess_installed E R installed ?ranked) (\<lambda>_. Ready L E R {} 3 installed [])"
    unfolding reassess_installed_def
  proof (rule acts_at, rule triple_if)
    show "acts L E R (Ready L E R {} 3 installed []) (case found of None \<Rightarrow> ret () | Some item \<Rightarrow>
              seq (reassess E (ev_candidate item) (ev_score item))
              (seq (update (\<lambda>s. s\<lparr>st_assessed := True\<rparr>))
                (decide ''upgrade'' (ev_candidate item) ''refreshed assessment for installed provider candidate'')))
        (\<lambda>_. Ready L E R {} 3 installed [])" for found
      by (cases found) (simp_all add: triple_ret acts_reassessed)
  qed (rule triple_ret)
  have eligible: "acts L E R (?I []) (carry (add_eligible E R installed) ?ranked []) ?I"
    by (rule triple_carry, rule acts_add_eligible [OF scope], rule own_score_evaluated [OF release]) simp
  have ends: "acts L E R (?I eligible) (if eligible = [] then none_eligible E R installed search
            else tournament E R installed workspace eligible) (\<lambda>_. Over L E R)" for eligible
  proof (cases "\<forall>item \<in> set eligible. own_score E R (ev_candidate item) (ev_score item)")
    case True
    then have "acts L E R (Ready L E R (ev_candidate ` set eligible) 3 installed []) (if eligible = [] then none_eligible E R installed search
            else tournament E R installed workspace eligible) (\<lambda>_. Over L E R)"
      by (intro triple_if acts_none_eligible acts_tournament) simp
    then show ?thesis by (rule triple_conseq) (simp_all add: Chosen_def)
  qed (auto simp: triple_def Chosen_def)
  show ?thesis
    unfolding title_phase_def Let_def
    by (rule side [OF checked], rule side [OF errors], rule triple_if, rule acts_nothing_found, rule side [OF records],
        rule triple_seq [OF again], rule triple_bnd [OF triple_conseq [OF eligible] ends]) (simp_all add: Chosen_def)
qed

lemma acts_broad_phase:
  assumes scope: "aq_member_scope R = []" and release: "aq_release_media R = None"
  shows "acts L E R (Ready L E R {} 3 installed []) (broad_phase E R installed workspace) (\<lambda>_. Over L E R)"
proof -
  let ?same = "\<lambda>R'. R' = R \<or> (\<exists>m. releaseNumberedMedia (av_release_episode E) (aq_media R) = Some m \<and> R' = R\<lparr>aq_release_media := Some m\<rparr>)"
  have search: "side (broad_search E R)"
    unfolding broad_search_def by (intro side_intros side_steps)
  have answer: "returns (\<lambda>_. True) (broad_search E R) (\<lambda>(search, R') _. ?same R')"
    by (auto simp: triple_def broad_search_def bnd_def seq_def ret_def ask_def reads_def call_def must_be_def stop_def
        split: option.splits sum.splits prod.splits if_splits)
  have title: "acts L E R (\<lambda>s. Ready L E R {} 3 installed [] s \<and> ?same R') (title_phase E R' installed workspace search) (\<lambda>_. Over L E R)"
    for search R'
  proof (cases "?same R'")
    case True
    then have "aq_member_scope R' = []" "release_known E R'" "Ready L E R' = Ready L E R" "Inv L E R' = Inv L E R" "Over L E R' = Over L E R"
      using scope release by (auto simp: release_known_def aq_media_def)
    with acts_title_phase [of R' E L installed workspace search] show ?thesis by (auto elim: triple_conseq)
  qed (auto simp: triple_def)
  show ?thesis
    unfolding broad_phase_def title_phase_def [symmetric]
    by (rule triple_bnd [OF acts_returns [OF search answer]]) (simp add: title split_def)
qed

section \<open>One tier\<close>

lemma acts_body:
  assumes scope: "aq_member_scope R = []" and release: "aq_release_media R = None"
  shows "acts L E R (Ready L E R {} 3 installed []) (acquire_body E R installed workspace) (\<lambda>_. Over L E R)"
proof -
  have broad: "acts L E R (\<lambda>s. if settled_by_hash then Over L E R s else Ready L E R {} 3 installed [] s)
      (if settled_by_hash then ret () else broad_phase E R installed workspace) (\<lambda>_. Over L E R)" for settled_by_hash
    by (cases settled_by_hash) (simp_all add: triple_ret acts_broad_phase [OF scope release])
  have exact: "acts L E R (\<lambda>s. if terminal then Over L E R s else Ready L E R {} 3 installed [] s)
      (if terminal then ret () else bnd (exact_phase E R installed workspace) (\<lambda>settled_by_hash.
         if settled_by_hash then ret () else broad_phase E R installed workspace)) (\<lambda>_. Over L E R)" for terminal
    using triple_bnd [OF acts_exact_phase [OF scope] broad]
    by (cases terminal) (simp_all only: if_True if_False triple_ret)
  show ?thesis
    unfolding acquire_body_def by (rule triple_bnd [OF acts_cached_phase exact])
qed

lemma Inv_world [simp]: "Inv L E R K n (s\<lparr>st_world := w\<rparr>) = Inv L E R K n s" "Over L E R (s\<lparr>st_world := w\<rparr>) = Over L E R s"
  by (simp_all add: Inv_def Over_def Fin_def calls_sound_def lapse_inv_def)

lemma acts_run:
  assumes "aq_member_scope R = []" "aq_release_media R = None"
  shows "acts L E R (Ready L E R {} 3 installed []) (acquire_run E R installed) (\<lambda>_. Over L E R)"
  unfolding acquire_run_def
proof (rule triple_bnd [OF acts_side [OF side_call_quiet]])
  fix made :: "workflow_error + string"
  let ?A = "\<lambda>answer s. case answer of Inl _ \<Rightarrow> Inv L E R {} 0 s | Inr _ \<Rightarrow> Over L E R s"
  have tried: "acts L E R (Ready L E R {} 3 installed []) (attempt (acquire_body E R installed workspace)) ?A" for workspace
    by (rule triple_attempt) (rule triple_conseq [OF acts_body [OF assms]]; simp)
  have ends: "acts L E R (?A answer) (seq (quiet (\<lambda>w. ((), av_remove_workspace E workspace w))) (expect answer)) (\<lambda>_. Over L E R)"
    for answer workspace
    by (cases answer) (auto simp: triple_def seq_def bnd_def call_def expect_def)
  show "acts L E R (Ready L E R {} 3 installed []) (case made of
         Err e \<Rightarrow> stop (WWrapped ''create candidate workspace'' e)
       | Ok workspace \<Rightarrow>
           bnd (attempt (acquire_body E R installed workspace)) (\<lambda>answer.
             seq (quiet (\<lambda>w. ((), av_remove_workspace E workspace w))) (expect answer))) (\<lambda>_. Over L E R)"
    by (cases made) (simp_all add: acts_stop triple_bnd [OF tried ends])
qed

text \<open>The request of one acquisition, at its start.\<close>

definition acquire_request :: "Request \<Rightarrow> acq_request" where
  "acquire_request request = \<lparr>aq_request = request, aq_release_media = None, aq_member_scope = []\<rparr>"

lemma Ready_initial:
  "Ready latch E R {} 3 installed [] (initial_state existing attempted latch w)"
  by (simp add: Ready_def Inv_def calls_sound_def fetches_checked_def installs_sound_def lapse_inv_def title_fetches_def initial_state_def
      zero_result_def OutcomeInstalled_def)

lemma acquire_over:
  fixes w :: 'x
  assumes run: "acquire E request existing installed attempted latch w = ((result, err), s)"
  shows "Over latch E (acquire_request request) s" "err \<noteq> None \<Longrightarrow> Inv latch E (acquire_request request) {} 0 s"
    "result = (st_result s)\<lparr>rs_clean_empty_providers := rs_clean_empty_providers result\<rparr>"
proof -
  let ?R = "acquire_request request"
  obtain answer s' where step: "acquire_run E ?R installed (initial_state existing attempted latch w) = (answer, s')" by force
  with run have s: "s' = s" and e: "err = (case answer of Err e \<Rightarrow> Some e | Ok _ \<Rightarrow> None)"
    and r: "result = (st_result s)\<lparr>rs_clean_empty_providers := cleanEmpty (st_resume s) (sv_provider_order (av_service E))\<rparr>"
    by (auto simp: acquire_def acquire_request_def Let_def)
  have "acts latch E ?R (Ready latch E ?R {} 3 installed []) (acquire_run E ?R installed) (\<lambda>_. Over latch E ?R)"
    by (rule acts_run) (simp_all add: acquire_request_def)
  with step Ready_initial [of latch E ?R installed existing attempted w] s
  have "case answer of Inl _ \<Rightarrow> Inv latch E ?R {} 0 s | Inr _ \<Rightarrow> Over latch E ?R s" by (auto simp: triple_def)
  then show "Over latch E ?R s" "err \<noteq> None \<Longrightarrow> Inv latch E ?R {} 0 s"
    using e by (auto split: sum.splits intro: Inv_Over)
  show "result = (st_result s)\<lparr>rs_clean_empty_providers := rs_clean_empty_providers result\<rparr>" by (simp add: r)
qed

section \<open>Properties\<close>

text \<open>The calls an acquisition makes, in order, and the LAPSE latch it leaves.\<close>

definition acquire_calls ::
  "'x acquire_env \<Rightarrow> Request \<Rightarrow> Installation \<Rightarrow> bool \<Rightarrow> CandidateRejection list \<Rightarrow> workflow_error option \<Rightarrow> 'x \<Rightarrow> acq_call list" where
  "acquire_calls E request existing installed attempted latch w =
     st_calls (snd (acquire E request existing installed attempted latch w))"

text \<open>C2: every subtitle an acquisition sends to the installer belongs to a candidate that is eligible under its own
  score and, when a subtitle is already installed, is another candidate that the upgrade rules allow over it; and the
  synchronization it reports is justified: the exact-hash or policy verdict, the release-evidence bypass, or a solid
  LAPSE run for that candidate earlier in the same acquisition.
\<close>

theorem installs_are_sound:
  "installs_sound E (acquire_request request) (acquire_calls E request existing installed attempted latch w)"
proof -
  obtain result err s where run: "acquire E request existing installed attempted latch w = ((result, err), s)"
    by (metis surj_pair)
  then show ?thesis
    using acquire_over(1) [OF run] by (auto simp: acquire_calls_def Over_def Inv_def Fin_def calls_sound_def)
qed

text \<open>C33: the title search of one acquisition downloads at most three candidates.\<close>

theorem downloads_at_most_three:
  "title_fetches (acquire_calls E request existing installed attempted latch w) \<le> 3"
proof -
  obtain result err s where run: "acquire E request existing installed attempted latch w = ((result, err), s)"
    by (metis surj_pair)
  then show ?thesis
    using acquire_over(1) [OF run] by (auto simp: acquire_calls_def Over_def Inv_def Fin_def)
qed

text \<open>C14: a candidate is downloaded only after its rejections were looked up in the same acquisition and none was found.
\<close>

theorem downloads_are_checked:
  "fetches_checked E (acquire_request request) (acquire_calls E request existing installed attempted latch w)"
proof -
  obtain result err s where run: "acquire E request existing installed attempted latch w = ((result, err), s)"
    by (metis surj_pair)
  then show ?thesis
    using acquire_over(1) [OF run] by (auto simp: acquire_calls_def Over_def Inv_def Fin_def calls_sound_def)
qed

text \<open>C13: after a LAPSE run times out the acquisition starts no other, an acquisition told of a timeout in an earlier
  tier starts none at all, and the timeout is left for the next tier.
\<close>

theorem timeout_stops_lapse:
  "(if latch = None then lapse_stops (acquire_calls E request existing installed attempted latch w)
    else \<not> list_ex is_timed (acquire_calls E request existing installed attempted latch w))
   \<and> st_latch (snd (acquire E request existing installed attempted latch w)) =
       (if latch = None \<and> list_ex timed_out (acquire_calls E request existing installed attempted latch w)
        then Some (WCandidate TimeoutError) else latch)"
proof -
  obtain result err s where run: "acquire E request existing installed attempted latch w = ((result, err), s)"
    by (metis surj_pair)
  then show ?thesis
    using acquire_over(1) [OF run] by (auto simp: acquire_calls_def Over_def Inv_def Fin_def calls_sound_def lapse_inv_def)
qed

text \<open>C9: the outcome is \<open>installed\<close> exactly when an installation succeeded; then it is the last of the calls and the
  only success, no error is returned, and the result names the candidate, score and synchronization it was given.
\<close>

theorem installed_is_reported:
  "case acquire E request existing installed attempted latch w of
     ((result, err), s) \<Rightarrow>
       (if rs_outcome result = OutcomeInstalled
        then err = None
          \<and> (\<exists>pre current again ir. st_calls s = pre @ [Installed current again ir True] \<and> \<not> list_ex installed_ok pre
               \<and> rs_candidate result = ir_candidate ir \<and> rs_score result = ir_score ir
               \<and> rs_sync_result result = ir_sync_result ir)
        else \<not> list_ex installed_ok (st_calls s))"
proof -
  obtain result err s where run: "acquire E request existing installed attempted latch w = ((result, err), s)"
    by (metis surj_pair)
  note over = acquire_over [OF run]
  have same: "rs_outcome result = rs_outcome (st_result s)" "rs_candidate result = rs_candidate (st_result s)"
    "rs_score result = rs_score (st_result s)" "rs_sync_result result = rs_sync_result (st_result s)"
    using arg_cong [OF over(3), of rs_outcome] arg_cong [OF over(3), of rs_candidate]
      arg_cong [OF over(3), of rs_score] arg_cong [OF over(3), of rs_sync_result] by simp_all
  show ?thesis
    unfolding run prod.case same using over(1,2) by (cases err) (auto simp: Over_def Inv_def Fin_def)
qed

end
