(* ===== verification/Tier_Props.thy ===== *)
theory Tier_Props
  imports Acquire_Props Workflow_Props
begin

text \<open>
  The two provider tiers of a search with the acquisition of \<open>Acquire\<close> in each
  (\<open>src/internal/workflow/provider_tiers.go\<close>: \<open>runProviderTiers\<close> calling \<open>acquire\<close>). The tiers share the artifacts
  attempted and the LAPSE timeout of the run; the calls of both are kept in order.
\<close>

record 'x search_world =
  sw_world :: 'x
  sw_attempted :: "CandidateRejection list"
  sw_latch :: "workflow_error option"
  sw_calls :: "acq_call list"

text \<open>A new run, as \<open>Run\<close> and \<open>replaceInstalled\<close> start it.\<close>

definition new_run :: "'x \<Rightarrow> 'x search_world" where
  "new_run x = \<lparr>sw_world = x, sw_attempted = [], sw_latch = None, sw_calls = []\<rparr>"

text \<open>\<open>acquire\<close> on the service of a tier, whose searcher and order are in the environment \<open>A\<close> gives it.\<close>

definition tier_acquire ::
  "(Service \<Rightarrow> bool \<Rightarrow> 'x acquire_env) \<Rightarrow> Service \<Rightarrow> bool \<Rightarrow> Request \<Rightarrow> Installation \<Rightarrow> bool \<Rightarrow> 'x search_world
   \<Rightarrow> (Result \<times> workflow_error option) \<times> 'x search_world" where
  "tier_acquire A s fallback request existing installed w =
     (let (answer, st) = acquire (A s fallback) request existing installed (sw_attempted w) (sw_latch w) (sw_world w)
      in (answer, \<lparr>sw_world = st_world st, sw_attempted = st_attempted st, sw_latch = st_latch st,
            sw_calls = sw_calls w @ st_calls st\<rparr>))"

section \<open>One tier\<close>

lemma lapse_stops_join:
  "lapse_stops (xs @ ys) \<longleftrightarrow> lapse_stops xs \<and> lapse_stops ys \<and> (list_ex timed_out xs \<longrightarrow> \<not> list_ex is_timed ys)"
  by (induction xs) auto

lemma lapse_stops_none: "\<not> list_ex is_timed cs \<Longrightarrow> lapse_stops cs \<and> \<not> list_ex timed_out cs"
  by (induction cs) (auto dest: timed_out_is_timed)

text \<open>What one acquisition adds to the calls.\<close>

lemma acquire_adds:
  assumes "acquire E request existing installed attempted latch w = ((result, err), s)"
  shows "title_fetches (st_calls s) \<le> 3" "lapse_inv latch s" "length (filter installed_ok (st_calls s)) \<le> 1"
    "\<lbrakk>err \<noteq> None \<or> rs_outcome result \<noteq> OutcomeInstalled\<rbrakk> \<Longrightarrow> filter installed_ok (st_calls s) = []"
proof -
  note over = acquire_over [OF assms]
  have none: "\<not> list_ex installed_ok cs \<Longrightarrow> filter installed_ok cs = []" for cs by (induction cs) auto
  show "title_fetches (st_calls s) \<le> 3" "lapse_inv latch s" "length (filter installed_ok (st_calls s)) \<le> 1"
    using over(1) by (auto simp: Over_def Inv_def Fin_def calls_sound_def none)
  have "rs_outcome result = rs_outcome (st_result s)" using arg_cong [OF over(3), of rs_outcome] by simp
  then show "filter installed_ok (st_calls s) = []" if "err \<noteq> None \<or> rs_outcome result \<noteq> OutcomeInstalled"
    using that over(1,2) none by (auto simp: Over_def Inv_def Fin_def)
qed

lemma tier_adds:
  assumes "tier_acquire A s fallback request existing installed w = ((result, err), w')"
  obtains cs where "sw_calls w' = sw_calls w @ cs" "title_fetches cs \<le> 3" "length (filter installed_ok cs) \<le> 1"
    "err \<noteq> None \<or> rs_outcome result \<noteq> OutcomeInstalled \<Longrightarrow> filter installed_ok cs = []"
    "if sw_latch w = None then lapse_stops cs \<and> sw_latch w' = (if list_ex timed_out cs then Some (WCandidate TimeoutError) else None)
     else \<not> list_ex is_timed cs"
proof -
  obtain answer st where st: "acquire (A s fallback) request existing installed (sw_attempted w) (sw_latch w) (sw_world w) = (answer, st)"
    by (metis surj_pair)
  with assms have a: "answer = (result, err)" and w': "sw_calls w' = sw_calls w @ st_calls st" "sw_latch w' = st_latch st"
    by (auto simp: tier_acquire_def)
  show thesis
    by (rule that [of "st_calls st"]) (use w' acquire_adds [OF st [unfolded a]] in \<open>auto simp: lapse_inv_def split: if_splits\<close>)
qed

lemma title_fetches_append [simp]: "title_fetches (cs @ ds) = title_fetches cs + title_fetches ds"
  by (simp add: title_fetches_def)

text \<open>C15: a search that goes through both provider tiers downloads at most six candidates of title searches, installs at
  most one subtitle, and starts no LAPSE run after one that timed out, in the same tier or in the next.
\<close>

theorem tiers_share_the_run:
  "let calls = sw_calls (snd (runProviderTiers (E\<lparr>wv_acquire := tier_acquire A\<rparr>) s request existing installed (new_run x)))
   in title_fetches calls \<le> 6 \<and> length (filter installed_ok calls) \<le> 1 \<and> lapse_stops calls"
proof -
  let ?E = "E\<lparr>wv_acquire := tier_acquire A\<rparr>" and ?request = "tier_request request installed"
  obtain result err w1 where tier1:
    "tier_acquire A (preferred_service s) False ?request existing installed (new_run x) = ((result, err), w1)" by (metis surj_pair)
  then obtain cs where cs: "sw_calls w1 = cs" "title_fetches cs \<le> 3" "length (filter installed_ok cs) \<le> 1"
      "err \<noteq> None \<or> rs_outcome result \<noteq> OutcomeInstalled \<Longrightarrow> filter installed_ok cs = []"
      "lapse_stops cs" "sw_latch w1 = (if list_ex timed_out cs then Some (WCandidate TimeoutError) else None)"
    by (rule tier_adds) (simp add: new_run_def)
  have world: "snd (runProviderTiers ?E s request existing installed (new_run x)) =
      (if fallback_asked ?E s ?request existing installed ((result, err), w1)
       then snd (tier_acquire A (fallback_service s) True ?request existing installed w1) else w1)"
    using tiers_world [of ?E s ?request existing installed "new_run x"] by (simp add: runProviderTiers_world tier1)
  show ?thesis
  proof (cases "fallback_asked ?E s ?request existing installed ((result, err), w1)")
    case False
    then show ?thesis using cs by (simp add: world Let_def)
  next
    case True
    then have "err \<noteq> None \<or> rs_outcome result \<noteq> OutcomeInstalled" by (auto simp: fallback_asked_def)
    then have none: "filter installed_ok cs = []" by (rule cs(4))
    obtain result2 err2 w2 where tier2:
      "tier_acquire A (fallback_service s) True ?request existing installed w1 = ((result2, err2), w2)" by (metis surj_pair)
    then obtain ds where ds: "sw_calls w2 = cs @ ds" "title_fetches ds \<le> 3" "length (filter installed_ok ds) \<le> 1"
        "if list_ex timed_out cs then \<not> list_ex is_timed ds else lapse_stops ds"
      by (rule tier_adds) (use cs(1,6) in \<open>simp split: if_splits\<close>)
    have "lapse_stops (cs @ ds)"
      using cs(5) ds(4) by (auto simp: lapse_stops_join lapse_stops_none split: if_splits)
    with True cs(2) ds none show ?thesis by (simp add: world tier2 Let_def)
  qed
qed

end
