(* ===== verification/Acquire_Sample.thy ===== *)
theory Acquire_Sample
  imports Acquire_Props Workflow_Props Rejection_Props "HOL-Library.Code_Target_Nat"
begin

text \<open>
  Two acquisitions evaluated: two candidates of a title search, with LAPSE runs that time out and with solid ones.
  They show the calls that the properties of \<open>Acquire_Props\<close> speak of.
\<close>

definition sample_title :: "string \<Rightarrow> Candidate" where
  "sample_title result_id = zero_candidate\<lparr>c_provider_id := ''p'', c_result_id := result_id, c_language := ''en'',
     c_external_ids := zero_ids\<lparr>x_tmdb := 7\<rparr>\<rparr>"

definition sample_acquire :: "(Candidate \<Rightarrow> (workflow_error, SyncResult) result) \<Rightarrow> unit acquire_env" where
  "sample_acquire lapse = \<lparr>av_externals = sample_externals, av_service = resumed_service, av_minimum_score = 10,
     av_tooling = sample_tooling, av_lapse_version = ''1'', av_fallback_tier = False, av_adapters = (\<lambda>_. None),
     av_reports_applicable = False, av_decode = (\<lambda>_. None), av_json_score = (\<lambda>_. ''{}''), av_json_sync = (\<lambda>_. ''{}''),
     av_json_metadata = (\<lambda>_. Some ''{}''), av_text = (\<lambda>_. ''error''), av_three_decimals = (\<lambda>_. ''0.000''),
     av_release_episode = (\<lambda>_. None), av_ctx_err = (\<lambda>_. None), av_media_err = (\<lambda>_ _. None), av_language_err = (\<lambda>_ _ _. None),
     av_range_err = (\<lambda>_ _ _. None), av_now = (\<lambda>_. unix_epoch), av_checksum = (\<lambda>path _. Ok path), av_reread = (\<lambda>_ e. e),
     av_make_workspace = (\<lambda>w. (Ok ''/w'', w)), av_remove_workspace = (\<lambda>_ w. w), av_remove_file = (\<lambda>_ w. (None, w)),
     av_read_media = (\<lambda>_ w. (None, w)),
     av_search = (\<lambda>q w. (if qu_mode q = SearchExactHash then empty_search
        else empty_search\<lparr>sx_candidates := [sample_title ''1'', sample_title ''2'']\<rparr>, w)),
     av_find_pack = None, av_download = (\<lambda>R c workspace index w.
        (\<lparr>da_paths = Ok [''/w/selected-'' @ c_result_id c], da_runtime_pack = False, da_more_versions = False, da_decisions = []\<rparr>, w)),
     av_synchronize = (\<lambda>c media source target w. (lapse c, w)),
     av_install = (\<lambda>request w. (Ok zero_installation, w)), av_get_rejection = (\<lambda>_ _. Ok None), av_put_rejection = (\<lambda>_ w. (None, w)),
     av_lapse_failure = (\<lambda>_ _ _ w. (Ok False, w)), av_record_candidates = (\<lambda>_ _ _ w. (None, w)), av_update_assessment = (\<lambda>_ w. (None, w))\<rparr>"

definition sample_film :: Request where
  "sample_film = sample_search_request\<lparr>rq_media := zero_media\<lparr>m_ref := \<lparr>ref_instance = ''r'', ref_kind = MediaMovie, ref_file_id = 1\<rparr>,
     m_external_ids := zero_ids\<lparr>x_tmdb := 7\<rparr>\<rparr>, rq_language := ''en''\<rparr>"


fun call_kind :: "acq_call \<Rightarrow> string" where
  "call_kind (Checked identity found) = ''check''"
| "call_kind (Fetched candidate index) = ''fetch '' @ c_result_id candidate"
| "call_kind (Timed candidate answer) = ''lapse '' @ c_result_id candidate"
| "call_kind (Installed existing installed request ok) = ''install '' @ c_result_id (ir_candidate request)"





lemma kinds_timeout:
  "map call_kind (acquire_calls (sample_acquire (\<lambda>_. Err (WCandidate TimeoutError))) sample_film zero_installation False [] None ())
   = [''check'', ''check'', ''fetch 1'', ''lapse 1'', ''check'', ''fetch 2'', ''check'']"
  by code_simp

lemma kinds_installed:
  "map call_kind (acquire_calls (sample_acquire (\<lambda>_. Ok (zero_sync\<lparr>sy_verdict := ''solid''\<rparr>))) sample_film zero_installation False [] None ())
   = [''check'', ''check'', ''fetch 1'', ''lapse 1'', ''fetch 2'', ''lapse 2'', ''install 1'']"
  by code_simp
end
