(* ===== verification/Media_Breaker.thy ===== *)
theory Media_Breaker
  imports Rejections
begin

text \<open>
  The media breaker of \<open>src/internal/worker/media_breaker.go\<close>: searches that fail on unreadable media pause the
  leasing, while one missing file on a readable mount counts neither way. The file system is asked through the
  record \<open>probe\<close>: what \<open>os.Readlink\<close> answers within its timeout and what opening and listing a directory gives.
  The clock is the argument \<open>now\<close>.
\<close>

definition mediaBreakerThreshold :: int where "mediaBreakerThreshold = 3"
definition mediaBreakerPause :: duration where "mediaBreakerPause = minute"
definition mediaBreakerMaxPause :: duration where "mediaBreakerMaxPause = 30 * minute"

section \<open>Unreadable media\<close>

text \<open>\<open>errors.As\<close> finds the first such error of the tree.\<close>

definition find_unavailable :: "workflow_error \<Rightarrow> workflow_error option" where
  "find_unavailable e = find (\<lambda>x. case x of WMediaUnavailable _ _ \<Rightarrow> True | _ \<Rightarrow> False) (error_leaves e)"

definition MediaUnavailable :: "workflow_error \<Rightarrow> bool" where
  "MediaUnavailable e \<longleftrightarrow> find_unavailable e \<noteq> None"

definition MediaMissing :: "workflow_error \<Rightarrow> bool" where
  "MediaMissing e \<longleftrightarrow> (case find_unavailable e of Some (WMediaUnavailable missing _) \<Rightarrow> missing | _ \<Rightarrow> False)"

section \<open>Paths\<close>

text \<open>\<open>filepath.Rel\<close> on Unix, element by element; \<open>None\<close> is its error.\<close>

fun strip_common :: "string list \<Rightarrow> string list \<Rightarrow> string list \<times> string list" where
  "strip_common (b # bs) (t # ts) = (if b = t then strip_common bs ts else (b # bs, t # ts))"
| "strip_common bs ts = (bs, ts)"

definition path_elements :: "string \<Rightarrow> string list" where
  "path_elements path = filter (\<lambda>p. p \<noteq> []) (split_char slash path)"

definition filepath_Rel :: "string \<Rightarrow> string \<Rightarrow> string option" where
  "filepath_Rel basepath targpath =
     (let cleanBase = filepath_Clean basepath; targ = filepath_Clean targpath;
          base = (if cleanBase = ''.'' then [] else cleanBase);
          (bs, ts) = strip_common (path_elements base) (path_elements targ)
      in if targ = cleanBase then Some ''.''
         else if (take 1 base = [slash]) \<noteq> (take 1 targ = [slash]) then None
         else if bs \<noteq> [] \<and> ts \<noteq> [] \<and> hd bs = ''..'' then None
         else Some (join [slash] (replicate (length bs) ''..'' @ ts)))"

definition above_root :: "string \<Rightarrow> bool" where
  "above_root relative \<longleftrightarrow> relative = ''..'' \<or> has_prefix relative ''../''"

definition holds_path :: "string \<Rightarrow> string \<Rightarrow> bool" where
  "holds_path dir path = (case filepath_Rel dir path of None \<Rightarrow> False | Some relative \<Rightarrow> \<not> above_root relative)"

fun longest_root :: "string \<Rightarrow> string \<Rightarrow> string list \<Rightarrow> string" where
  "longest_root path best [] = best"
| "longest_root path best (r # rs) =
     (let cleaned' = filepath_Clean r
      in if \<not> holds_path cleaned' (filepath_Clean path) then longest_root path best rs
         else if length cleaned' > length best then longest_root path cleaned' rs
         else longest_root path best rs)"

definition containingRoot :: "string \<Rightarrow> string list \<Rightarrow> string" where
  "containingRoot path roots = longest_root path [] roots"

text \<open>\<open>strings.SplitN\<close> into at most three parts, of which the first two are used.\<close>

definition topDirectories :: "string \<Rightarrow> string" where
  "topDirectories directory =
     (let parts = split_char slash (trim_prefix directory [slash])
      in if hd parts = [] then [slash]
         else slash # (if length parts \<ge> 2 then filepath_Join (hd parts) (parts ! 1) else filepath_Clean (hd parts)))"

section \<open>Probing a mount\<close>

datatype listing = Hung | OpenFailed bool | Listed bool

record probe =
  pb_link :: "string \<Rightarrow> string option"
  pb_list :: "string \<Rightarrow> listing"

definition LinkTarget :: "probe \<Rightarrow> string \<Rightarrow> string option" where
  "LinkTarget P path =
     (case pb_link P path of
        None \<Rightarrow> None
      | Some target \<Rightarrow>
          if target = [] then None
          else Some (filepath_Clean (if take 1 target = [slash] then target else filepath_Join (filepath_Dir path) target)))"

text \<open>Whether the directory lists an entry, and whether it failed because it does not exist.\<close>

definition listsEntries :: "probe \<Rightarrow> string \<Rightarrow> bool \<times> bool" where
  "listsEntries P directory =
     (case pb_list P directory of
        Hung \<Rightarrow> (False, False)
      | OpenFailed missing \<Rightarrow> (False, missing)
      | Listed entries \<Rightarrow> (entries, False))"

text \<open>The walk upwards ends: a parent is shorter than its directory, or the same.\<close>

lemma length_join: "ws \<noteq> [] \<Longrightarrow> Suc (length (join [d] ws)) = (\<Sum>w\<leftarrow>ws. Suc (length w))"
  by (induction "[d]" ws rule: join.induct) auto

lemma clean_fold_size:
  "(\<Sum>w\<leftarrow>fold (clean_step rooted) parts kept. Suc (length w)) \<le> (\<Sum>w\<leftarrow>parts. Suc (length w)) + (\<Sum>w\<leftarrow>kept. Suc (length w))"
proof (induction parts arbitrary: kept)
  case (Cons p parts)
  have "(\<Sum>w\<leftarrow>clean_step rooted p kept. Suc (length w)) \<le> Suc (length p) + (\<Sum>w\<leftarrow>kept. Suc (length w))"
    by (auto simp: clean_step_def split: list.split)
  with Cons.IH [of "clean_step rooted p kept"] show ?case by simp
qed simp

lemma join_cleaned: "ws \<noteq> [] \<Longrightarrow> length (join [d] (clean_parts rooted ws)) \<le> length (join [d] ws)"
proof (cases "clean_parts rooted ws = []")
  case False
  assume "ws \<noteq> []"
  have "(\<Sum>w\<leftarrow>clean_parts rooted ws. Suc (length w)) \<le> (\<Sum>w\<leftarrow>ws. Suc (length w))"
    using clean_fold_size [of rooted ws "[]"] by (simp add: clean_parts_def rev_map [symmetric] sum_list.rev)
  with length_join [OF False, of d] length_join [OF \<open>ws \<noteq> []\<close>, of d] show ?thesis by linarith
qed simp

lemma split_char_snoc: "split_char d (s @ [d]) = split_char d s @ [[]]"
  by (induction s) (auto split: list.splits)

lemma clean_parts_snoc: "clean_parts rooted (parts @ [[]]) = clean_parts rooted parts"
  by (simp add: clean_parts_def clean_step_def)

lemma length_clean: "length (filepath_Clean (q @ [slash])) \<le> max 1 (length q)"
proof (cases q)
  case Nil
  then show ?thesis by (simp add: filepath_Clean_def clean_parts_def clean_step_def)
next
  case (Cons c r)
  have "length (join [slash] (clean_parts rooted (split_char slash q))) \<le> length q" for rooted
    using join_cleaned [of "split_char slash q" slash rooted]
    by (simp add: join_split_char)
  moreover have "length (join [slash] (clean_parts True (split_char slash q))) \<le> length r" if "c = slash"
    using join_cleaned [of "split_char slash r" slash True] that Cons
    by (simp add: join_split_char clean_parts_def clean_step_def)
  ultimately show ?thesis
    using Cons by (auto simp: filepath_Clean_def Let_def split_char_snoc [where s = "c # r", simplified] clean_parts_snoc le_max_iff_disj)
qed

lemma join_snoc: "ws \<noteq> [] \<Longrightarrow> join sep (ws @ [w]) = join sep ws @ sep @ w"
  by (induction sep ws rule: join.induct) auto

lemma directory_prefix:
  "take (length s - length (last (split_char d s))) s = []
   \<or> (\<exists>q w. take (length s - length (last (split_char d s))) s = q @ [d] \<and> s = q @ d # w)"
proof (cases "butlast (split_char d s) = []")
  case True
  then have "split_char d s = [last (split_char d s)]" by (metis append_Nil append_butlast_last_id split_char_nonempty)
  then have "last (split_char d s) = s" by (metis join.simps(2) join_split_char)
  then show ?thesis by simp
next
  case False
  have "s = join [d] (butlast (split_char d s) @ [last (split_char d s)])" by (simp add: join_split_char)
  then have s: "s = (join [d] (butlast (split_char d s)) @ [d]) @ last (split_char d s)"
    using join_snoc [OF False, of "[d]" "last (split_char d s)"] by (simp del: split_char.simps)
  then have "take (length s - length (last (split_char d s))) s = join [d] (butlast (split_char d s)) @ [d]"
    by (metis append_eq_conv_conj length_append add_diff_cancel_right')
  with s show ?thesis by (metis append.assoc append_Cons append_Nil)
qed

text \<open>The directory of a path is \<open>.\<close>, or the path itself, or shorter.\<close>

lemma parent_shorter: "filepath_Dir path = ''.'' \<or> filepath_Dir path = path \<or> length (filepath_Dir path) < length path"
proof -
  define p where "p = take (length path - length (last (split_char slash path))) path"
  have dir: "filepath_Dir path = filepath_Clean p" by (simp add: filepath_Dir_def p_def)
  consider "p = []" | q w where "p = q @ [slash]" "path = q @ slash # w"
    using directory_prefix [of path slash] p_def by blast
  then show ?thesis
  proof cases
    case 1
    then show ?thesis by (simp add: dir filepath_Clean_def clean_parts_def clean_step_def)
  next
    case (2 q w)
    have clean: "filepath_Clean [slash] = [slash]" by (simp add: filepath_Clean_def clean_parts_def clean_step_def)
    show ?thesis
    proof (cases "q = []")
      case True
      with 2 dir clean have "filepath_Dir path = [slash]" and "path = slash # w" by simp_all
      then show ?thesis by (cases w) auto
    next
      case False
      then have "length (filepath_Dir path) \<le> length q"
        using length_clean [of q] by (simp add: dir 2(1) max_def Suc_le_eq split: if_splits)
      with 2(2) show ?thesis by simp
    qed
  qed
qed

lemma dir_dot [simp]: "filepath_Dir ''.'' = ''.''"
  by (simp add: filepath_Dir_def filepath_Clean_def clean_parts_def clean_step_def)

function listsUpTo :: "probe \<Rightarrow> string \<Rightarrow> string \<Rightarrow> bool" where
  "listsUpTo P directory upper =
     (let (readable, missing) = listsEntries P directory; parent = filepath_Dir directory
      in if readable then True
         else if \<not> missing \<or> directory = upper \<or> parent = directory then False
         else listsUpTo P parent upper)"
  by auto
termination
proof (relation "measure (\<lambda>(P, d, t). if d = ''.'' then 0 else Suc (length d))")
  fix P directory upper and x :: "bool \<times> bool" and readable missing parent
  assume "parent = filepath_Dir directory" "\<not> (\<not> missing \<or> directory = upper \<or> parent = directory)"
  then have "directory \<noteq> ''.''" "parent = ''.'' \<or> length parent < length directory"
    using parent_shorter [of directory] by auto
  then show "((P, parent, upper), P, directory, upper) \<in> measure (\<lambda>(P, d, t). if d = ''.'' then 0 else Suc (length d))"
    by auto
qed simp

declare listsUpTo.simps [simp del]

definition mediaMountReadable :: "probe \<Rightarrow> string list \<Rightarrow> string \<Rightarrow> bool" where
  "mediaMountReadable P mediaRoots mediaPath =
     (let held = containingRoot mediaPath mediaRoots
      in if mediaRoots = [] \<or> mediaPath = [] then False
         else if held = [] then False
         else case LinkTarget P mediaPath of
                None \<Rightarrow> listsUpTo P (filepath_Dir (filepath_Clean mediaPath)) held
              | Some target \<Rightarrow>
                  let directory = filepath_Dir target; highest = topDirectories directory;
                      configured = containingRoot target mediaRoots
                  in listsUpTo P directory (if length configured > length highest then configured else highest))"

section \<open>The breaker\<close>

record breaker =
  bk_failures :: int
  bk_pause :: duration
  bk_paused_until :: gotime

definition closed_breaker :: breaker where
  "closed_breaker = \<lparr>bk_failures = 0, bk_pause = 0, bk_paused_until = 0\<rparr>"

definition recordSearchResult ::
  "probe \<Rightarrow> string list \<Rightarrow> gotime \<Rightarrow> workflow_error option \<Rightarrow> string \<Rightarrow> breaker \<Rightarrow> breaker" where
  "recordSearchResult P mediaRoots now err mediaPath b =
     (let unavailable = (case err of None \<Rightarrow> False | Some e \<Rightarrow> MediaUnavailable e)
      in if unavailable \<and> MediaMissing (the err) \<and> mediaMountReadable P mediaRoots mediaPath then b
         else if \<not> unavailable then b\<lparr>bk_failures := 0, bk_pause := 0\<rparr>
         else if bk_failures b + 1 < mediaBreakerThreshold then b\<lparr>bk_failures := bk_failures b + 1\<rparr>
         else let pause = min (max (2 * bk_pause b) mediaBreakerPause) mediaBreakerMaxPause
              in \<lparr>bk_failures = 0, bk_pause = pause, bk_paused_until = now + pause\<rparr>)"

definition mediaPaused :: "gotime \<Rightarrow> breaker \<Rightarrow> bool" where
  "mediaPaused now b \<longleftrightarrow> now < bk_paused_until b"

text \<open>\<open>Snapshot\<close>: the time leasing resumes, zero when it is not paused.\<close>

definition breaker_snapshot :: "gotime \<Rightarrow> breaker \<Rightarrow> gotime" where
  "breaker_snapshot now b = (if now < bk_paused_until b then bk_paused_until b else zero_time)"

section \<open>What a run of results leaves\<close>

datatype verdict_kind = Clears | Ignored | Counts

definition result_kind :: "probe \<Rightarrow> string list \<Rightarrow> workflow_error option \<Rightarrow> string \<Rightarrow> verdict_kind" where
  "result_kind P mediaRoots err mediaPath =
     (case err of
        None \<Rightarrow> Clears
      | Some e \<Rightarrow>
          if \<not> MediaUnavailable e then Clears
          else if MediaMissing e \<and> mediaMountReadable P mediaRoots mediaPath then Ignored else Counts)"

text \<open>The searches whose results were recorded, the latest first: when, what the file system answered then, how each
  ended and its media path.\<close>

type_synonym result_log = "(gotime \<times> probe \<times> workflow_error option \<times> string) list"

fun breaker_after :: "string list \<Rightarrow> result_log \<Rightarrow> breaker" where
  "breaker_after mediaRoots [] = closed_breaker"
| "breaker_after mediaRoots ((now, P, err, path) # older) =
     recordSearchResult P mediaRoots now err path (breaker_after mediaRoots older)"

text \<open>How many failures count since the last search that read its media.\<close>

fun run_length :: "string list \<Rightarrow> result_log \<Rightarrow> nat" where
  "run_length mediaRoots [] = 0"
| "run_length mediaRoots ((now, P, err, path) # older) =
     (case result_kind P mediaRoots err path of
        Ignored \<Rightarrow> run_length mediaRoots older
      | Clears \<Rightarrow> 0
      | Counts \<Rightarrow> Suc (run_length mediaRoots older))"

text \<open>The pause set by that many trips in a row.\<close>

definition pause_after :: "nat \<Rightarrow> duration" where
  "pause_after trips = (if trips = 0 then 0 else min (2 ^ (trips - 1) * minute) (30 * minute))"

text \<open>Until when the last trip, every third counted failure of a run, paused the queue; zero before the first.\<close>

fun last_trip :: "string list \<Rightarrow> result_log \<Rightarrow> gotime" where
  "last_trip mediaRoots [] = 0"
| "last_trip mediaRoots ((now, P, err, path) # older) =
     (let n = Suc (run_length mediaRoots older)
      in if result_kind P mediaRoots err path = Counts \<and> n mod 3 = 0 then now + pause_after (n div 3)
         else last_trip mediaRoots older)"

lemma record_by_kind:
  "recordSearchResult P mediaRoots now err path b =
     (case result_kind P mediaRoots err path of
        Ignored \<Rightarrow> b
      | Clears \<Rightarrow> b\<lparr>bk_failures := 0, bk_pause := 0\<rparr>
      | Counts \<Rightarrow>
          if bk_failures b + 1 < mediaBreakerThreshold then b\<lparr>bk_failures := bk_failures b + 1\<rparr>
          else let pause = min (max (2 * bk_pause b) mediaBreakerPause) mediaBreakerMaxPause
               in \<lparr>bk_failures = 0, bk_pause = pause, bk_paused_until = now + pause\<rparr>)"
  by (auto simp: recordSearchResult_def result_kind_def Let_def split: option.split)

lemma pause_step: "min (max (2 * pause_after n) mediaBreakerPause) mediaBreakerMaxPause = pause_after (Suc n)"
proof (cases n)
  case (Suc m)
  have "(1::int) \<le> 2 * 2 ^ m" by (simp flip: power_Suc)
  then have "max (2 * min (2 ^ m * minute) (30 * minute)) minute = min (2 * 2 ^ m * minute) (60 * minute)"
    by (intro max_absorb1 [THEN trans]) (auto simp: min_def)
  then show ?thesis by (simp add: Suc pause_after_def mediaBreakerPause_def mediaBreakerMaxPause_def)
qed (simp add: pause_after_def mediaBreakerPause_def mediaBreakerMaxPause_def)

lemma pause_bounds: "0 \<le> pause_after n" "pause_after n \<le> 30 * minute" "n \<noteq> 0 \<Longrightarrow> minute \<le> pause_after n"
proof -
  have "(1::int) \<le> 2 ^ (n - 1)" by simp
  then show "0 \<le> pause_after n" "pause_after n \<le> 30 * minute" "n \<noteq> 0 \<Longrightarrow> minute \<le> pause_after n"
    by (auto simp: pause_after_def min_def)
qed

lemma third: "Suc n mod 3 = (if n mod 3 = 2 then 0 else Suc (n mod 3))"
  "Suc n div 3 = (if n mod 3 = 2 then Suc (n div 3) else n div 3)" "n mod 3 \<noteq> 2 \<Longrightarrow> n mod 3 < 2"
  using mod_less_divisor [of 3 n] by (auto simp: mod_Suc div_Suc)

lemma breaker_counts:
  "bk_failures (breaker_after mediaRoots entries) = int (run_length mediaRoots entries mod 3)
   \<and> bk_pause (breaker_after mediaRoots entries) = pause_after (run_length mediaRoots entries div 3)
   \<and> bk_paused_until (breaker_after mediaRoots entries) = last_trip mediaRoots entries"
proof (induction entries rule: breaker_after.induct)
  case (2 mediaRoots now P err path older)
  show ?case
  proof (cases "result_kind P mediaRoots err path")
    case Clears
    with 2 show ?thesis by (simp add: record_by_kind) (simp add: pause_after_def)
  next
    case Ignored
    with 2 show ?thesis by (simp add: record_by_kind)
  next
    case Counts
    have "int (run_length mediaRoots older mod 3) + 1 < 3 \<longleftrightarrow> run_length mediaRoots older mod 3 \<noteq> 2"
      using third(3) [of "run_length mediaRoots older"] by auto
    with 2 Counts show ?thesis by (simp add: record_by_kind mediaBreakerThreshold_def Let_def third pause_step)
  qed
qed (simp_all add: closed_breaker_def pause_after_def)

text \<open>C22: the media breaker pauses the queue after every third search in a row that could not read its media, for a
  minute the first time and twice as long each further time, half an hour at most. After any history of results, each
  with the answers the file system gave then, its count, its pause and the time it pauses until are those of the
  failures since the last search that read its media; a file missing from a readable mount counts neither way.\<close>

theorem media_breaker_backs_off:
  "let b = breaker_after mediaRoots entries; n = run_length mediaRoots entries
   in bk_failures b = int (n mod 3) \<and> bk_pause b = pause_after (n div 3) \<and> pause_after (n div 3) \<le> 30 * minute
      \<and> (mediaPaused now b \<longleftrightarrow> now < last_trip mediaRoots entries)
      \<and> breaker_snapshot now b = (if now < last_trip mediaRoots entries then last_trip mediaRoots entries else zero_time)"
  using breaker_counts [of mediaRoots entries] pause_bounds(2) [of "run_length mediaRoots entries div 3"]
  by (simp add: Let_def mediaPaused_def breaker_snapshot_def)

end
