(* ===== verification/Worker_Jobs.thy ===== *)
theory Worker_Jobs
  imports Media_Breaker Search_Queue Schedule Effects
begin

text \<open>
  One search job of \<open>src/internal/worker/worker.go\<close>: \<open>runSearchLease\<close> from the lease to the completion it writes to
  the queue. The record \<open>job_env\<close> holds what the job meets: the media row it reads, how the workflow run ended and
  whether it was abandoned, what the lease renewal reports, whether the job's context had ended or its time limit had
  passed when the code looked, and what everyone else did to the queue while the workflow ran. The clock and the random
  source are read one value after another. Log entries are left out, and so is \<open>observability.MediaTitle\<close>, which is a
  parameter like the text of a duration.
\<close>

section \<open>The job and its surroundings\<close>

definition minimumThrottleDelay :: duration where "minimumThrottleDelay = minute"
definition unknownThrottleDelay :: duration where "unknownThrottleDelay = 6 * hour"
definition defaultJobTimeout :: duration where "defaultJobTimeout = 8 * hour"
definition defaultJobGrace :: duration where "defaultJobGrace = 2 * minute"

definition errJobTimedOut :: workflow_error where
  "errJobTimedOut = WOther ''subtitle job exceeded its time limit''"

record job_env =
  jv_repository :: repository
  jv_probe :: probe
  jv_media_roots :: "string list"
  jv_fused :: bool
  jv_aged_after :: duration
  jv_job_timeout :: duration
  jv_job_grace :: duration
  jv_title :: "Media \<Rightarrow> string"
  jv_duration_text :: "duration \<Rightarrow> string"
  jv_get_media :: "int \<Rightarrow> workflow_error + Media"
  jv_run :: "Request \<Rightarrow> Result \<times> workflow_error option"
  jv_abandoned :: bool
  jv_others :: "queue_db \<Rightarrow> queue_db"
  jv_renewal :: "workflow_error option"
  jv_timed_out :: bool
  jv_ended :: "workflow_error option"
  jv_now :: "nat \<Rightarrow> gotime"
  jv_unit :: "nat \<Rightarrow> rat"
  jv_wall :: gotime

record worker_state =
  ws_db :: queue_db
  ws_breaker :: breaker
  ws_reads :: nat
  ws_draws :: nat

type_synonym 'a job = "(worker_state, workflow_error, 'a) act"

definition clock_now :: "job_env \<Rightarrow> gotime job" where
  "clock_now E = bnd (reads ws_reads) (\<lambda>n. seq (update (\<lambda>s. s\<lparr>ws_reads := Suc n\<rparr>)) (ret (jv_now E n)))"

definition random_unit :: "job_env \<Rightarrow> rat job" where
  "random_unit E = bnd (reads ws_draws) (\<lambda>n. seq (update (\<lambda>s. s\<lparr>ws_draws := Suc n\<rparr>)) (ret (jv_unit E n)))"

text \<open>One transaction: it either changes the queue or fails and leaves it.\<close>

definition transact :: "(queue_db \<Rightarrow> (store_error, 'a \<times> queue_db) result) \<Rightarrow> 'a job" where
  "transact f = bnd (reads ws_db) (\<lambda>q. case f q of
      Err e \<Rightarrow> stop (WOther e)
    | Ok (a, q') \<Rightarrow> seq (update (\<lambda>s. s\<lparr>ws_db := q'\<rparr>)) (ret a))"

definition complete_search :: "job_env \<Rightarrow> SearchCompletion \<Rightarrow> SearchCompletionResult job" where
  "complete_search E completion = transact (CompleteSearch (jv_repository E) (jv_wall E) completion)"

text \<open>Best effort: a failed release is only reported.\<close>

definition releaseSearchLease :: "string \<Rightarrow> unit job" where
  "releaseSearchLease jobID =
     seq (bnd (attempt (transact (\<lambda>q. map_sum id (Pair ()) (ReleaseSearchLease jobID q)))) (\<lambda>_. ret ())) (ret ())"

section \<open>Completions\<close>

definition throttleRetryAt :: "job_env \<Rightarrow> gotime \<Rightarrow> gotime job" where
  "throttleRetryAt E reset =
     bnd (if is_zero_time reset then bnd (clock_now E) (\<lambda>t. ret (t + unknownThrottleDelay)) else ret reset) (\<lambda>reset'.
     bnd (clock_now E) (\<lambda>t.
       let delay = reset' - t
       in if delay < minimumThrottleDelay then bnd (clock_now E) (\<lambda>t'. ret (t' + minimumThrottleDelay))
          else bnd (random_unit E) (\<lambda>drawn.
            let unit' = (if drawn < 0 then 0 else if drawn > 1 then 1 else drawn)
            in ret (reset' + trunc_int (rnd (rnd (rnd (of_int delay) * rnd (1 / 10)) * unit'))))))"

definition job_scheduler :: "job_env \<Rightarrow> gotime \<Rightarrow> rat \<Rightarrow> Scheduler" where
  "job_scheduler E now drawn = \<lparr>s_now = now, s_unit = drawn, s_aged_after = jv_aged_after E\<rparr>"

definition preserveProviderResume :: "SearchLease \<Rightarrow> Result \<Rightarrow> gotime \<Rightarrow> SearchCompletion \<Rightarrow> SearchCompletion" where
  "preserveProviderResume lease result now completion =
     (if sl_priority lease = SearchPriorityUpgrade \<or> rs_resume_providers result = [] \<or> rs_resume_route_signature result = []
      then completion
      else completion\<lparr>co_resume_providers := rs_resume_providers result,
             co_resume_signature := rs_resume_route_signature result, co_preserve_resume := True,
             co_resume_saved_at := (if sl_resume_providers lease \<noteq> [] \<and> \<not> is_zero_time (sl_resume_saved_at lease)
                                    then sl_resume_saved_at lease else now)\<rparr>)"

definition searchHistory :: "job_env \<Rightarrow> Media \<Rightarrow> Result \<Rightarrow> SearchHistoryDetail" where
  "searchHistory E media result =
     \<lparr>hd_media_title = jv_title E media, hd_provider_id = c_provider_id (rs_candidate result),
      hd_release_name = (case c_release_names (rs_candidate result) of [] \<Rightarrow> [] | name # _ \<Rightarrow> name),
      hd_reason = [], hd_manual = False\<rparr>"

definition workflowCompletion :: "job_env \<Rightarrow> SearchLease \<Rightarrow> Result \<Rightarrow> Media \<Rightarrow> SearchCompletion job" where
  "workflowCompletion E lease result media =
     (let outcome = rs_outcome result; upgrading = (sl_priority lease = SearchPriorityUpgrade);
          again = \<not> is_zero_time (rs_next_upgrade result);
          completion = zero_completion\<lparr>co_job_id := sl_job_id lease, co_outcome := outcome\<rparr>;
          upgrade = completion\<lparr>co_next_attempt_at := rs_next_upgrade result,
                      co_priority := (if again then SearchPriorityUpgrade else 0)\<rparr>
      in if outcome = OutcomeSatisfied then
           ret (upgrade\<lparr>co_advance_upgrade := upgrading \<and> again, co_reset_missing := \<not> (upgrading \<and> again),
                  co_reset_failure := True\<rparr>)
         else if outcome = OutcomeInstalled then
           ret (upgrade\<lparr>co_reset_missing := True, co_reset_failure := True\<rparr>)
         else if outcome = OutcomeNoResult \<or> outcome = OutcomeRejected \<or> outcome = OutcomeRemoved then
           bnd (clock_now E) (\<lambda>t. bnd (random_unit E) (\<lambda>drawn.
             ret ((Missing (jv_fused E) (job_scheduler E t drawn) (sl_job_id lease)
                     (if upgrading then 1 else sl_attempt lease + 1) (m_released_at media))
                  \<lparr>co_reset_missing := upgrading, co_outcome := outcome, co_priority := SearchPriorityMissing\<rparr>)))
         else if outcome = OutcomeThrottled then
           bnd (throttleRetryAt E (rs_retry_at result)) (\<lambda>retryAt. bnd (clock_now E) (\<lambda>t.
             ret (preserveProviderResume lease result t
                    (completion\<lparr>co_next_attempt_at := retryAt, co_preserve_queue_order := True\<rparr>))))
         else stop (WOther (''workflow returned unsupported outcome '' @ outcome)))"

section \<open>The job\<close>

definition job_limit :: "job_env \<Rightarrow> duration" where
  "job_limit E = (if jv_job_timeout E \<le> 0 then defaultJobTimeout else jv_job_timeout E)"

definition job_grace :: "job_env \<Rightarrow> duration" where
  "job_grace E = (if jv_job_grace E \<le> 0 then defaultJobGrace else jv_job_grace E)"

text \<open>The job gives its lease back and reports why its context ended.\<close>

definition job_canceled :: "SearchLease \<Rightarrow> workflow_error \<Rightarrow> unit job" where
  "job_canceled lease ended = seq (releaseSearchLease (sl_job_id lease)) (stop ended)"

definition finish_unsupported :: "job_env \<Rightarrow> SearchLease \<Rightarrow> Media \<Rightarrow> unit job" where
  "finish_unsupported E lease media =
     (case jv_renewal E of
        Some lost \<Rightarrow> stop lost
      | None \<Rightarrow>
          (case jv_ended E of
             Some ended \<Rightarrow> job_canceled lease ended
           | None \<Rightarrow>
               bnd (complete_search E (zero_completion\<lparr>co_job_id := sl_job_id lease,
                      co_outcome := m_unsupported_reason media\<rparr>)) (\<lambda>_. ret ())))"

definition current_resume :: "job_env \<Rightarrow> SearchLease \<Rightarrow> Media \<Rightarrow> SearchLease job" where
  "current_resume E lease media =
     (if is_zero_time (sl_resume_saved_at lease) then ret lease
      else bnd (clock_now E) (\<lambda>t. bnd (clock_now E) (\<lambda>t'.
        if t - sl_resume_saved_at lease \<ge> ResumeTTL (job_scheduler E t' 0) (sl_attempt lease) (m_released_at media)
        then ret (lease\<lparr>sl_resume_providers := [], sl_resume_signature := [], sl_resume_saved_at := zero_time\<rparr>)
        else ret lease)))"

definition job_request :: "SearchLease \<Rightarrow> Media \<Rightarrow> Request" where
  "job_request lease media =
     (let upgrading = (sl_priority lease = SearchPriorityUpgrade)
      in \<lparr>rq_media_id = sl_media_id lease, rq_media = media, rq_language = sl_language lease, rq_manual = False,
          rq_force_probe = False, rq_upgrade_attempt = (if upgrading then sl_attempt lease + 1 else 0),
          rq_resume_providers = (if upgrading then [] else sl_resume_providers lease),
          rq_resume_route_signature = (if upgrading then [] else sl_resume_signature lease),
          rq_replace_installed = sl_replace_installed lease, rq_replacing = None\<rparr>)"

text \<open>\<open>runWorkflow\<close>: the workflow returns, or it is abandoned after its time limit and a grace.\<close>

definition runWorkflow :: "job_env \<Rightarrow> Request \<Rightarrow> Result \<times> workflow_error option" where
  "runWorkflow E request =
     (if jv_abandoned E
      then (zero_result, Some (WWrapped (jv_duration_text E (job_limit E) @ '', abandoned after a further ''
              @ jv_duration_text E (job_grace E)) errJobTimedOut))
      else jv_run E request)"

definition is_job_timeout :: "workflow_error \<Rightarrow> bool" where
  "is_job_timeout e \<longleftrightarrow> errJobTimedOut \<in> set (error_leaves e)"

definition fail_job :: "job_env \<Rightarrow> SearchLease \<Rightarrow> Media \<Rightarrow> Result \<Rightarrow> workflow_error \<Rightarrow> unit job" where
  "fail_job E lease media result err =
     bnd (clock_now E) (\<lambda>t. bnd (clock_now E) (\<lambda>t'. bnd (clock_now E) (\<lambda>t''.
       let completion = preserveProviderResume lease result t''
             ((Failure (job_scheduler E t 0) (sl_job_id lease) (sl_failure_attempt lease) ''workflow_error'')
              \<lparr>co_preserve_queue_order := MediaUnavailable err, co_history := Some (searchHistory E media zero_result),
                co_finished_at := t'\<rparr>)
       in bnd (attempt (complete_search E completion)) (\<lambda>done. case done of
            Err e \<Rightarrow> stop (WJoined ([err, e] @ (case jv_renewal E of None \<Rightarrow> [] | Some lost \<Rightarrow> [lost])))
          | Ok _ \<Rightarrow> stop err))))"

definition finish_job :: "job_env \<Rightarrow> SearchLease \<Rightarrow> Media \<Rightarrow> Result \<Rightarrow> unit job" where
  "finish_job E lease media result =
     bnd (workflowCompletion E lease result media) (\<lambda>completion. bnd (clock_now E) (\<lambda>t.
       bnd (complete_search E (completion
             \<lparr>co_history := (if rs_outcome result = OutcomeRemoved then None else Some (searchHistory E media result)),
               co_clear_replace := sl_replace_installed lease \<and> rs_outcome result \<noteq> OutcomeThrottled,
               co_finished_at := t\<rparr>)) (\<lambda>_. ret ())))"

text \<open>
  After the workflow: a lost lease ends the job, unless a failed job ran past its limit; the context is looked at
  unless the limit passed; then the result goes to the breaker and to the queue. \<open>jv_timed_out\<close> is the code's
  \<open>context.Cause(timeoutCtx) == errJobTimedOut && ctx.Err() == nil\<close>: the job's own limit passed while the worker was
  not stopping. When the worker stops, \<open>jv_ended\<close> is its reason and the search is released instead.
\<close>

definition settle_job :: "job_env \<Rightarrow> SearchLease \<Rightarrow> Media \<Rightarrow> Result \<times> workflow_error option \<Rightarrow> unit job" where
  "settle_job E lease media outcome =
     (let (result, err) = outcome; timedOut = jv_timed_out E;
          err' = (case err of
                    Some e \<Rightarrow> if timedOut \<and> \<not> is_job_timeout e
                              then Some (WWrapped (jv_duration_text E (job_limit E)) errJobTimedOut) else Some e
                  | None \<Rightarrow> None)
      in if jv_renewal E \<noteq> None \<and> (\<not> timedOut \<or> err = None) then stop (the (jv_renewal E))
         else if \<not> timedOut \<and> jv_ended E \<noteq> None then job_canceled lease (the (jv_ended E))
         else bnd (clock_now E) (\<lambda>t.
           seq (update (\<lambda>s. s\<lparr>ws_breaker := recordSearchResult (jv_probe E) (jv_media_roots E) t err'
                                 (fp_path (m_fingerprint media)) (ws_breaker s)\<rparr>))
             (case err' of
                Some e \<Rightarrow> fail_job E lease media result e
              | None \<Rightarrow> finish_job E lease media result)))"

text \<open>
  The others act on the queue from the lease to the first statement of the job that writes, which comes after the
  workflow; the update that opens the job stands for all they did.
\<close>

definition runSearchLease :: "job_env \<Rightarrow> SearchLease \<Rightarrow> unit job" where
  "runSearchLease E lease =
     seq (update (\<lambda>s. s\<lparr>ws_db := jv_others E (ws_db s)\<rparr>))
     (case jv_get_media E (sl_media_id lease) of
        Err e \<Rightarrow> settle_job E lease zero_media (zero_result, Some e)
      | Ok media \<Rightarrow>
          if m_unsupported_reason media \<noteq> [] then finish_unsupported E lease media
          else bnd (current_resume E lease media) (\<lambda>lease'.
            settle_job E lease' media (runWorkflow E (job_request lease' media))))"

end
