(* ===== verification/Worker_Job_Props.thy ===== *)
theory Worker_Job_Props
  imports Worker_Jobs Search_Queue_Props
begin

text \<open>
  What a search job leaves in the queue, whatever happens to it: the row of its search, and no other, is left as it
  is, given back, or completed with a next attempt.
\<close>

section \<open>Times the job computes\<close>

abbreviation with_db :: "queue_db \<Rightarrow> worker_state \<Rightarrow> bool" where
  "with_db q s \<equiv> ws_db s = q"

text \<open>An action that only reads: the queue stays as it is, and a result satisfies \<open>Q\<close>.\<close>

definition yields :: "('a \<Rightarrow> bool) \<Rightarrow> 'a job \<Rightarrow> bool" where
  "yields Q f \<longleftrightarrow> (\<forall>q. triple (with_db q) f (\<lambda>a s. with_db q s \<and> Q a) (\<lambda>_. with_db q))"

lemma yields_ret: "Q a \<Longrightarrow> yields Q (ret a)"
  by (simp add: yields_def triple_ret)

lemma yields_stop: "yields Q (stop e)"
  by (simp add: yields_def triple_stop)

lemma triple_pull: "(p \<Longrightarrow> triple P f Q R) \<Longrightarrow> triple (\<lambda>s. P s \<and> p) f Q R"
  by (auto simp: triple_def)

lemma yields_bnd: "\<lbrakk>yields P f; \<And>a. P a \<Longrightarrow> yields Q (g a)\<rbrakk> \<Longrightarrow> yields Q (bnd f g)"
  unfolding yields_def
proof (intro allI)
  fix q
  assume f: "\<forall>q. triple (with_db q) f (\<lambda>a s. with_db q s \<and> P a) (\<lambda>_. with_db q)"
    and g: "\<And>a. P a \<Longrightarrow> \<forall>q. triple (with_db q) (g a) (\<lambda>a s. with_db q s \<and> Q a) (\<lambda>_. with_db q)"
  show "triple (with_db q) (bnd f g) (\<lambda>a s. with_db q s \<and> Q a) (\<lambda>_. with_db q)"
    by (rule triple_bnd [OF f [rule_format]], rule triple_pull) (rule g [rule_format])
qed

lemma yields_clock: "yields (\<lambda>t. t \<in> range (jv_now E)) (clock_now E)"
  unfolding yields_def clock_now_def seq_def
  by (auto simp: triple_def bnd_def reads_def update_def ret_def)

lemma yields_random: "yields (\<lambda>_. True) (random_unit E)"
  unfolding yields_def random_unit_def seq_def
  by (auto simp: triple_def bnd_def reads_def update_def ret_def)

text \<open>A wait of at least a minute from a time the job read.\<close>

definition waits :: "job_env \<Rightarrow> gotime \<Rightarrow> bool" where
  "waits E t \<longleftrightarrow> (\<exists>n. jv_now E n + minute \<le> t)"

lemma waitsI: "\<lbrakk>t \<in> range (jv_now E); t + minute \<le> u\<rbrakk> \<Longrightarrow> waits E u"
  by (auto simp: waits_def)

lemma trunc_nonneg: "0 \<le> x \<Longrightarrow> 0 \<le> trunc_int x"
  by (simp add: trunc_int_def)

lemma throttle_waits: "yields (waits E) (throttleRetryAt E reset)"
proof -
  have "yields (waits E) (bnd (clock_now E) (\<lambda>t.
       let delay = r - t
       in if delay < minimumThrottleDelay then bnd (clock_now E) (\<lambda>t'. ret (t' + minimumThrottleDelay))
          else bnd (random_unit E) (\<lambda>drawn.
            let unit' = (if drawn < 0 then 0 else if drawn > 1 then 1 else drawn)
            in ret (r + trunc_int (rnd (rnd (rnd (of_int delay) * rnd (1 / 10)) * unit'))))))" for r
    unfolding Let_def
  proof (rule yields_bnd [OF yields_clock], split if_split, intro conjI impI)
    fix t assume t: "t \<in> range (jv_now E)"
    show "yields (waits E) (bnd (clock_now E) (\<lambda>t'. ret (t' + minimumThrottleDelay)))"
      by (rule yields_bnd [OF yields_clock], rule yields_ret, erule waitsI) (simp add: minimumThrottleDelay_def)
    assume long: "\<not> r - t < minimumThrottleDelay"
    show "yields (waits E) (bnd (random_unit E) (\<lambda>drawn. ret (r + trunc_int (rnd (rnd (rnd (rat_of_int (r - t)) * rnd (1 / 10)) *
            (if drawn < 0 then 0 else if drawn > 1 then 1 else drawn))))))"
    proof (rule yields_bnd [OF yields_random], rule yields_ret)
      fix drawn :: rat
      have "0 \<le> trunc_int (rnd (rnd (rnd (rat_of_int (r - t)) * rnd (1 / 10)) * (if drawn < 0 then 0 else if drawn > 1 then 1 else drawn)))"
        using long by (intro trunc_nonneg rnd_nonneg mult_nonneg_nonneg) (simp_all add: minimumThrottleDelay_def)
      with long show "waits E (r + trunc_int (rnd (rnd (rnd (rat_of_int (r - t)) * rnd (1 / 10)) *
            (if drawn < 0 then 0 else if drawn > 1 then 1 else drawn))))"
        by (intro waitsI [OF t]) (simp add: minimumThrottleDelay_def)
    qed
  qed
  note wait = this
  show ?thesis unfolding throttleRetryAt_def
  proof (rule yields_bnd [where P = "\<lambda>_. True"])
    show "yields (\<lambda>_. True) (if is_zero_time reset then bnd (clock_now E) (\<lambda>t. ret (t + unknownThrottleDelay)) else ret reset)"
      by (auto intro: yields_ret yields_bnd [OF yields_clock])
  qed (rule wait)
qed

section \<open>The completions a job records\<close>

text \<open>
  A completion of the job: it waits at least a minute, or the workflow found the language satisfied or installed a
  subtitle and named the date of the next upgrade, if any, or the media is not searched at all.
\<close>

definition completion_ok :: "job_env \<Rightarrow> string \<Rightarrow> int \<Rightarrow> SearchCompletion \<Rightarrow> bool" where
  "completion_ok E jobID mediaID c \<longleftrightarrow> co_job_id c = jobID
     \<and> (waits E (co_next_attempt_at c)
        \<or> (\<exists>request. snd (jv_run E request) = None \<and> rs_outcome (fst (jv_run E request)) \<in> {OutcomeSatisfied, OutcomeInstalled}
             \<and> co_next_attempt_at c = rs_next_upgrade (fst (jv_run E request)))
        \<or> (\<exists>media. jv_get_media E mediaID = Ok media \<and> m_unsupported_reason media \<noteq> []
             \<and> co_next_attempt_at c = zero_time))"

lemma preserve_ok [simp]:
  "co_job_id (preserveProviderResume lease result t c) = co_job_id c"
  "co_next_attempt_at (preserveProviderResume lease result t c) = co_next_attempt_at c"
  by (simp_all add: preserveProviderResume_def)

lemma missing_next: "0 < n \<Longrightarrow> s_now S + minute \<le> co_next_attempt_at (Missing fused S jobID n releasedAt)"
  using MissingDelay_range(1) [of n fused "s_unit S"] missing_interval_bounds(1) [of n]
    MissingDelay_range(1) [of AgedMissingAttempt fused "s_unit S"] missing_interval_bounds(1) [of AgedMissingAttempt]
  by (simp add: Missing_def Let_def zero_completion_def AgedMissingAttempt_def split: prod.split)

lemma failure_next: "s_now S + minute \<le> co_next_attempt_at (Failure S jobID n out)"
  using WorkflowFailureDelay_range [of n] by (simp add: Failure_def zero_completion_def)

lemma yields_if: "\<lbrakk>b \<Longrightarrow> yields Q f; \<not> b \<Longrightarrow> yields Q g\<rbrakk> \<Longrightarrow> yields Q (if b then f else g)"
  by simp

lemma workflow_completion_ok:
  assumes run: "jv_run E request = (result, None)" and pos: "0 \<le> sl_attempt lease"
  shows "yields (completion_ok E (sl_job_id lease) i) (workflowCompletion E lease result media)"
proof -
  have up: "completion_ok E (sl_job_id lease) i c"
    if "rs_outcome result = OutcomeSatisfied \<or> rs_outcome result = OutcomeInstalled"
      "co_job_id c = sl_job_id lease" "co_next_attempt_at c = rs_next_upgrade result" for c
    using that run unfolding completion_ok_def by (intro conjI disjI2 disjI1 exI [of _ request]) auto
  have wait: "completion_ok E (sl_job_id lease) i c" if "waits E (co_next_attempt_at c)" "co_job_id c = sl_job_id lease" for c
    using that by (simp add: completion_ok_def)
  show ?thesis
    unfolding workflowCompletion_def Let_def
  proof (intro yields_if yields_stop)
    assume "rs_outcome result = OutcomeNoResult \<or> rs_outcome result = OutcomeRejected \<or> rs_outcome result = OutcomeRemoved"
    let ?missing = "\<lambda>t drawn. Missing (jv_fused E) (job_scheduler E t drawn) (sl_job_id lease)
        (if sl_priority lease = SearchPriorityUpgrade then 1 else sl_attempt lease + 1) (m_released_at media)"
    show "yields (completion_ok E (sl_job_id lease) i) (bnd (clock_now E) (\<lambda>t. bnd (random_unit E) (\<lambda>drawn.
        ret (?missing t drawn\<lparr>co_reset_missing := sl_priority lease = SearchPriorityUpgrade, co_outcome := rs_outcome result,
               co_priority := SearchPriorityMissing\<rparr>))))"
    proof (rule yields_bnd [OF yields_clock], rule yields_bnd [OF yields_random], rule yields_ret, rule wait)
      fix t drawn assume t: "t \<in> range (jv_now E)"
      have "t + minute \<le> co_next_attempt_at (?missing t drawn)"
        using missing_next [of "if sl_priority lease = SearchPriorityUpgrade then 1 else sl_attempt lease + 1" "job_scheduler E t drawn"] pos
        by (simp add: job_scheduler_def)
      then show "waits E (co_next_attempt_at (?missing t drawn\<lparr>co_reset_missing := sl_priority lease = SearchPriorityUpgrade,
          co_outcome := rs_outcome result, co_priority := SearchPriorityMissing\<rparr>))"
        by (simp add: waitsI [OF t])
      show "co_job_id (?missing t drawn\<lparr>co_reset_missing := sl_priority lease = SearchPriorityUpgrade,
          co_outcome := rs_outcome result, co_priority := SearchPriorityMissing\<rparr>) = sl_job_id lease"
        by (simp add: Missing_def Let_def zero_completion_def split: prod.split)
    qed
  next
    assume "rs_outcome result = OutcomeThrottled"
    show "yields (completion_ok E (sl_job_id lease) i)
        (bnd (throttleRetryAt E (rs_retry_at result)) (\<lambda>retryAt. bnd (clock_now E) (\<lambda>t.
           ret (preserveProviderResume lease result t (zero_completion\<lparr>co_job_id := sl_job_id lease, co_outcome := rs_outcome result,
               co_next_attempt_at := retryAt, co_preserve_queue_order := True\<rparr>)))))"
      by (rule yields_bnd [OF throttle_waits], rule yields_bnd [OF yields_clock], rule yields_ret, rule wait) simp_all
  qed (rule yields_ret, rule up, simp, simp, simp)+
qed

section \<open>What the job does to its row\<close>

text \<open>
  A row the job owned afterwards: as it was, given back, or completed. A completed row is pending again, after a
  requested rerun, for the next upgrade, or with a wait of a minute or more; or it is complete, because the media was
  deleted or is not searched, or because the workflow satisfied the language and named no upgrade.
\<close>

definition given_back :: "search_row \<Rightarrow> search_row" where
  "given_back r = r\<lparr>sr_lease_owner := None, sr_lease_until_ns := None, sr_rerun_requested := False\<rparr>"

definition settled :: "job_env \<Rightarrow> int \<Rightarrow> queue_db \<Rightarrow> search_row \<Rightarrow> search_row \<Rightarrow> bool" where
  "settled E mediaID q r r' \<longleftrightarrow> sr_lease_owner r' = None \<and> sr_lease_until_ns r' = None \<and>
     (sr_state r' = pending \<and> (sr_rerun_requested r
        \<or> (\<exists>n. unix_nano (jv_now E n) + minute \<le> sr_next_attempt_at_ns r')
        \<or> (\<exists>request. snd (jv_run E request) = None \<and> rs_outcome (fst (jv_run E request)) \<in> {OutcomeSatisfied, OutcomeInstalled}
             \<and> sr_next_attempt_at_ns r' = unix_nano (rs_next_upgrade (fst (jv_run E request)))))
      \<or> sr_state r' = complete \<and> ((\<exists>m. find_media q (sr_media_id r) = Some m \<and> mr_deleted m)
        \<or> (\<exists>media. jv_get_media E mediaID = Ok media \<and> m_unsupported_reason media \<noteq> [])
        \<or> (\<exists>request. snd (jv_run E request) = None \<and> rs_outcome (fst (jv_run E request)) \<in> {OutcomeSatisfied, OutcomeInstalled}
             \<and> rs_next_upgrade (fst (jv_run E request)) = zero_time)))"

lemma completed_fields:
  "sr_lease_owner (completed_row c resume r) = None" "sr_lease_until_ns (completed_row c resume r) = None"
  "sr_state (completed_row c resume r) = (if sr_rerun_requested r \<or> co_next_attempt_at c \<noteq> 0 then pending else complete)"
  "\<lbrakk>\<not> sr_rerun_requested r; co_next_attempt_at c \<noteq> 0\<rbrakk> \<Longrightarrow> sr_next_attempt_at_ns (completed_row c resume r) = unix_nano (co_next_attempt_at c)"
  by (simp_all add: completed_row_def Let_def split: prod.split)

lemma completed_settled:
  assumes c: "completion_ok E jobID i c" and now: "\<forall>n. 0 < jv_now E n"
  shows "settled E i q r (completed_row c resume r)"
proof -
  consider (rerun) "sr_rerun_requested r" | (wait) n where "\<not> sr_rerun_requested r" "jv_now E n + minute \<le> co_next_attempt_at c"
    | (found) request where "\<not> sr_rerun_requested r" "snd (jv_run E request) = None"
        "rs_outcome (fst (jv_run E request)) \<in> {OutcomeSatisfied, OutcomeInstalled}" "co_next_attempt_at c = rs_next_upgrade (fst (jv_run E request))"
    | (unsupported) media where "\<not> sr_rerun_requested r" "jv_get_media E i = Ok media" "m_unsupported_reason media \<noteq> []"
        "co_next_attempt_at c = 0"
    using c unfolding completion_ok_def waits_def by blast
  then show ?thesis
  proof cases
    case rerun
    then show ?thesis by (simp add: settled_def completed_fields)
  next
    case (wait n)
    from now have "0 < jv_now E n" by blast
    with wait(2) have "co_next_attempt_at c \<noteq> 0" by linarith
    moreover have "unix_nano (jv_now E n) + minute \<le> unix_nano (co_next_attempt_at c)" using wait(2) by (simp add: unix_nano_def)
    ultimately show ?thesis using wait(1) by (auto simp: settled_def completed_fields)
  next
    case (found request)
    then show ?thesis
      unfolding settled_def completed_fields by (cases "co_next_attempt_at c = 0") (use completed_fields(4) in \<open>auto\<close>)
  next
    case (unsupported media)
    then show ?thesis by (auto simp: settled_def completed_fields)
  qed
qed

text \<open>The whole queue before and after: only the row of the job changes, and keys stay.\<close>

definition row_effect :: "(search_row \<Rightarrow> search_row \<Rightarrow> bool) \<Rightarrow> string \<Rightarrow> queue_db \<Rightarrow> queue_db \<Rightarrow> bool" where
  "row_effect R jobID q q' \<longleftrightarrow> (\<exists>f. q_searches q' = sql_update (owned_by jobID) f (q_searches q)
     \<and> (\<forall>r \<in> set (q_searches q). owned_by jobID r \<longrightarrow> search_row_key (f r) = search_row_key r \<and> R r (f r)))"

lemma row_effectI:
  "\<lbrakk>q_searches q' = sql_update (owned_by j) f (q_searches q); \<And>r. owned_by j r \<Longrightarrow> search_row_key (f r) = search_row_key r \<and> R r (f r)\<rbrakk>
   \<Longrightarrow> row_effect R j q q'"
  unfolding row_effect_def by blast

lemma row_effect_mono: "\<lbrakk>row_effect R j q q'; \<And>r r'. R r r' \<Longrightarrow> R' r r'\<rbrakk> \<Longrightarrow> row_effect R' j q q'"
  unfolding row_effect_def by metis

lemma effect_same: "(\<And>r. R r r) \<Longrightarrow> row_effect R j q q"
  by (rule row_effectI [where f = id]) (simp_all add: sql_update_def cong: if_cong)

abbreviation outcomes :: "job_env \<Rightarrow> int \<Rightarrow> queue_db \<Rightarrow> search_row \<Rightarrow> search_row \<Rightarrow> bool" where
  "outcomes E i q r r' \<equiv> r' = r \<or> r' = given_back r \<or> settled E i q r r'"

definition job_leaves :: "job_env \<Rightarrow> string \<Rightarrow> int \<Rightarrow> queue_db \<Rightarrow> unit job \<Rightarrow> bool" where
  "job_leaves E jobID mediaID q f \<longleftrightarrow> triple (with_db q) f
     (\<lambda>_ s. row_effect (settled E mediaID q) jobID q (ws_db s)) (\<lambda>_ s. row_effect (outcomes E mediaID q) jobID q (ws_db s))"

lemma completed_row_key: "search_row_key (completed_row c resume r) = search_row_key r"
  by (cases resume) (simp add: completed_row_def search_row_key_def Let_def)

lemma complete_leaves:
  assumes ok: "CompleteSearch rp wall c q = Ok (res, q')" and c: "completion_ok E j i c" and now: "\<forall>n. 0 < jv_now E n"
  shows "row_effect (settled E i q) j q q'"
proof -
  from c have j: "co_job_id c = j" by (simp add: completion_ok_def)
  from ok obtain r0 m resume kept' where r0:
    "r0 \<in> set (q_searches q)" "owned_by j r0" "find_media q (sr_media_id r0) = Some m"
    "q_searches q' = sql_update (owned_by j) (if mr_deleted m then deleted_row else completed_row c resume) (q_searches q)"
    "sql_count (owned_by j) (q_searches q) = 1"
    unfolding j [symmetric] by (rule CompleteSearch_Ok)
  have one: "r = r0" if "r \<in> set (q_searches q)" "owned_by j r" for r
    using r0(1,2,5) that by (metis sql_count_1_unique)
  define f where "f = (if mr_deleted m then deleted_row else completed_row c resume)"
  have f: "search_row_key (f r0) = search_row_key r0 \<and> settled E i q r0 (f r0)"
  proof (cases "mr_deleted m")
    case True
    with r0(3) show ?thesis by (auto simp: f_def settled_def deleted_row_def search_row_key_def)
  next
    case False
    with completed_settled [OF c now] completed_row_key show ?thesis by (simp add: f_def)
  qed
  show ?thesis unfolding row_effect_def
  proof (intro exI [of _ f] conjI ballI impI)
    show "q_searches q' = sql_update (owned_by j) f (q_searches q)" by (simp add: r0(4) f_def)
    fix r assume "r \<in> set (q_searches q)" "owned_by j r"
    then have "r = r0" by (rule one)
    with f show "search_row_key (f r) = search_row_key r" "settled E i q r (f r)" by simp_all
  qed
qed

lemma transact_complete:
  assumes "completion_ok E j i c" and "\<forall>n. 0 < jv_now E n"
  shows "triple (with_db q) (complete_search E c) (\<lambda>_ s. row_effect (settled E i q) j q (ws_db s)) (\<lambda>_. with_db q)"
  using complete_leaves [OF _ assms, of "jv_repository E" "jv_wall E" q]
  by (auto simp: triple_def complete_search_def transact_def seq_def bnd_def reads_def update_def ret_def stop_def split: sum.splits prod.splits)

lemma leaves_stop: "job_leaves E j i q (stop e)"
  by (auto simp: job_leaves_def intro!: triple_stop effect_same)

lemma outcomes_same: "row_effect (outcomes E i q) j q q"
  by (rule effect_same) simp

lemma leaves_bnd:
  assumes "yields P f" and "\<And>a. P a \<Longrightarrow> job_leaves E j i q (g a)"
  shows "job_leaves E j i q (bnd f g)"
  unfolding job_leaves_def
proof (rule triple_bnd)
  show "triple (with_db q) f (\<lambda>a s. with_db q s \<and> P a) (\<lambda>_ s. row_effect (outcomes E i q) j q (ws_db s))"
    using assms(1) [unfolded yields_def, rule_format, of q] by (rule triple_conseq) (simp_all add: outcomes_same)
qed (rule triple_pull, rule assms(2) [unfolded job_leaves_def])

lemma leaves_complete:
  assumes "completion_ok E j i c" and "\<forall>n. 0 < jv_now E n"
  shows "job_leaves E j i q (bnd (complete_search E c) (\<lambda>_. ret ()))"
  unfolding job_leaves_def
proof (rule triple_bnd)
  show "triple (with_db q) (complete_search E c) (\<lambda>_ s. row_effect (settled E i q) j q (ws_db s))
      (\<lambda>_ s. row_effect (outcomes E i q) j q (ws_db s))"
    by (rule triple_conseq [OF transact_complete [OF assms]]) (auto simp only: intro: outcomes_same)
qed (rule triple_ret)

lemma leaves_canceled: "job_leaves E (sl_job_id lease) i q (job_canceled lease ended)"
proof -
  have "row_effect (outcomes E i q) (sl_job_id lease) q (case ReleaseSearchLease (sl_job_id lease) q of Err _ \<Rightarrow> q | Ok q' \<Rightarrow> q')"
  proof (cases "ReleaseSearchLease (sl_job_id lease) q")
    case (Inr q')
    then have "q_searches q' = sql_update (owned_by (sl_job_id lease)) given_back (q_searches q)"
      by (auto simp: ReleaseSearchLease_def given_back_def [abs_def] split: if_split_asm)
    then have "row_effect (outcomes E i q) (sl_job_id lease) q q'"
      by (rule row_effectI) (simp add: given_back_def search_row_key_def)
    then show ?thesis by (simp add: Inr)
  qed (simp add: outcomes_same)
  then show ?thesis
    by (cases "ReleaseSearchLease (sl_job_id lease) q")
      (auto simp: job_leaves_def triple_def job_canceled_def releaseSearchLease_def transact_def attempt_def seq_def bnd_def
        reads_def update_def ret_def stop_def)
qed

lemma leaves_unsupported:
  assumes "jv_get_media E i = Ok media" "m_unsupported_reason media \<noteq> []" "\<forall>n. 0 < jv_now E n"
  shows "job_leaves E (sl_job_id lease) i q (finish_unsupported E lease media)"
  using assms
  by (auto simp: finish_unsupported_def completion_ok_def zero_completion_def
      intro: leaves_stop leaves_canceled leaves_complete split: option.split)

lemma leaves_fail:
  assumes now: "\<forall>n. 0 < jv_now E n"
  shows "job_leaves E (sl_job_id lease) i q (fail_job E lease media result err)"
  unfolding fail_job_def Let_def
proof (rule leaves_bnd [OF yields_clock], rule leaves_bnd [OF yields_clock], rule leaves_bnd [OF yields_clock])
  fix t t' t'' assume t: "t \<in> range (jv_now E)"
  let ?c = "preserveProviderResume lease result t''
             ((Failure (job_scheduler E t 0) (sl_job_id lease) (sl_failure_attempt lease) ''workflow_error'')
              \<lparr>co_preserve_queue_order := MediaUnavailable err, co_history := Some (searchHistory E media zero_result),
                co_finished_at := t'\<rparr>)"
  have "co_job_id ?c = sl_job_id lease" by (simp add: Failure_def)
  moreover have "t + minute \<le> co_next_attempt_at ?c"
    using failure_next [of "job_scheduler E t 0"] by (simp add: job_scheduler_def)
  ultimately have ok: "completion_ok E (sl_job_id lease) i ?c" using waitsI [OF t] by (simp add: completion_ok_def)
  show "job_leaves E (sl_job_id lease) i q (bnd (attempt (complete_search E ?c)) (\<lambda>done. case done of
            Err e \<Rightarrow> stop (WJoined ([err, e] @ (case jv_renewal E of None \<Rightarrow> [] | Some lost \<Rightarrow> [lost])))
          | Ok _ \<Rightarrow> stop err))"
    unfolding job_leaves_def
  proof (rule triple_bnd)
    show "triple (with_db q) (attempt (complete_search E ?c)) (\<lambda>_ s. row_effect (outcomes E i q) (sl_job_id lease) q (ws_db s))
        (\<lambda>_ s. row_effect (outcomes E i q) (sl_job_id lease) q (ws_db s))"
      by (rule triple_attempt, rule triple_conseq [OF transact_complete [OF ok now]]) (auto intro: row_effect_mono outcomes_same)
    show "triple (\<lambda>s. row_effect (outcomes E i q) (sl_job_id lease) q (ws_db s)) (case outcome of
            Err e \<Rightarrow> stop (WJoined ([err, e] @ (case jv_renewal E of None \<Rightarrow> [] | Some lost \<Rightarrow> [lost])))
          | Ok _ \<Rightarrow> stop err) (\<lambda>_ s. row_effect (settled E i q) (sl_job_id lease) q (ws_db s))
        (\<lambda>_ s. row_effect (outcomes E i q) (sl_job_id lease) q (ws_db s))" for outcome
      by (cases outcome) (auto intro: triple_stop)
  qed
qed

lemma leaves_finish:
  assumes "jv_run E request = (result, None)" and "0 \<le> sl_attempt lease" and now: "\<forall>n. 0 < jv_now E n"
  shows "job_leaves E (sl_job_id lease) i q (finish_job E lease media result)"
  unfolding finish_job_def
  by (rule leaves_bnd [OF workflow_completion_ok [OF assms(1,2)]], rule leaves_bnd [OF yields_clock], rule leaves_complete [OF _ now])
    (simp add: completion_ok_def)

lemma leaves_settle:
  assumes run: "snd outcome = None \<Longrightarrow> \<exists>request. jv_run E request = outcome"
    and pos: "0 \<le> sl_attempt lease" and now: "\<forall>n. 0 < jv_now E n"
  shows "job_leaves E (sl_job_id lease) i q (settle_job E lease media outcome)"
proof -
  obtain result err where outcome: "outcome = (result, err)" by (cases outcome)
  have recorded: "yields (\<lambda>_. True) (update (\<lambda>s. s\<lparr>ws_breaker := recordSearchResult (jv_probe E) (jv_media_roots E) t e
      (fp_path (m_fingerprint media)) (ws_breaker s)\<rparr>))" for t e
    by (simp add: yields_def triple_def update_def)
  have finish: "job_leaves E (sl_job_id lease) i q (finish_job E lease media result)" if "err = None"
    using run leaves_finish [OF _ pos now] that by (auto simp: outcome)
  show ?thesis
    unfolding settle_job_def outcome Let_def prod.case
    by (cases err)
      (auto simp: seq_def intro!: leaves_stop leaves_canceled leaves_fail [OF now] finish leaves_bnd [OF yields_clock] leaves_bnd [OF recorded])
qed

lemma yields_resume:
  "yields (\<lambda>l. sl_job_id l = sl_job_id lease \<and> sl_attempt l = sl_attempt lease) (current_resume E lease media)"
  unfolding current_resume_def
  by (intro yields_if yields_ret yields_bnd [OF yields_clock]) simp_all

text \<open>The whole job, from any state of the queue.\<close>

lemma job_outcome:
  assumes pos: "0 \<le> sl_attempt lease" and now: "\<forall>n. 0 < jv_now E n"
    and run: "runSearchLease E lease s = run" and q: "jv_others E (ws_db s) = q"
  shows "row_effect (if isl (fst run) then outcomes E (sl_media_id lease) q else settled E (sl_media_id lease) q)
    (sl_job_id lease) q (ws_db (snd run))"
proof -
  let ?rest = "case jv_get_media E (sl_media_id lease) of
        Err e \<Rightarrow> settle_job E lease zero_media (zero_result, Some e)
      | Ok media \<Rightarrow>
          if m_unsupported_reason media \<noteq> [] then finish_unsupported E lease media
          else bnd (current_resume E lease media) (\<lambda>lease'. settle_job E lease' media (runWorkflow E (job_request lease' media)))"
  have "job_leaves E (sl_job_id lease) (sl_media_id lease) q ?rest"
  proof (cases "jv_get_media E (sl_media_id lease)")
    case (Inl e)
    then show ?thesis by (simp, intro leaves_settle [OF _ pos now]) simp
  next
    case (Inr media)
    have "job_leaves E (sl_job_id lease) (sl_media_id lease) q (settle_job E lease' media (runWorkflow E (job_request lease' media)))"
      if "sl_job_id lease' = sl_job_id lease \<and> sl_attempt lease' = sl_attempt lease" for lease'
    proof -
      have "\<exists>request. jv_run E request = runWorkflow E (job_request lease' media)" if "snd (runWorkflow E (job_request lease' media)) = None"
        using that by (cases "jv_abandoned E") (auto simp: runWorkflow_def)
      from leaves_settle [OF this, of lease' "sl_media_id lease" q media] pos now that show ?thesis by simp
    qed
    with Inr show ?thesis by (auto intro!: leaves_unsupported now leaves_bnd [OF yields_resume])
  qed
  moreover have "run = ?rest (s\<lparr>ws_db := q\<rparr>)"
    by (simp add: runSearchLease_def seq_def bnd_def update_def q flip: run)
  ultimately show ?thesis
    by (cases run; cases "fst run") (auto simp: job_leaves_def triple_def dest!: spec [of _ "s\<lparr>ws_db := q\<rparr>"])
qed

section \<open>One completion, step by step\<close>

lemma complete_applies:
  assumes inv: "queue_inv q" and r: "r \<in> set (q_searches q)" "sr_lease_owner r = Some (co_job_id c)"
    and m: "find_media q (sr_media_id r) = Some m"
    and prio: "co_priority c = 0 \<or> validSearchPriority (co_priority c)"
    and keep: "kept_resume rp wall c m r = Ok (resume, n)"
  shows "\<exists>res q'. CompleteSearch rp wall c q = Ok (res, q')
    \<and> q_searches q' = sql_update (owned_by (co_job_id c)) (if mr_deleted m then deleted_row else completed_row c resume) (q_searches q)"
proof -
  have one: "sql_count (owned_by (co_job_id c)) (q_searches q) = 1" by (rule owned_unique [OF inv r])
  have x: "find (\<lambda>r. owned_by (co_job_id c) r \<and> find_media q (sr_media_id r) \<noteq> None) (q_searches q) = Some r"
    using r m sq.inv_owner [OF queue_invD(1) [OF inv]] by (intro find_hit) (auto simp: owned_by_def)
  let ?q = "q\<lparr>q_searches := sql_update (owned_by (co_job_id c)) (if mr_deleted m then deleted_row else completed_row c resume) (q_searches q)\<rparr>"
  have fin: "find_media ?q (sr_media_id r) = Some m" using m by (simp add: find_media_def)
  have ok: "(co_priority c \<noteq> 0 \<and> \<not> validSearchPriority (co_priority c)) = False" using prio by blast
  let ?res = "\<lparr>cr_rerun_scheduled = (\<not> mr_deleted m \<and> sr_rerun_requested r), cr_resume_count = n\<rparr>"
  have eq: "CompleteSearch rp wall c q = (case (if mr_deleted m then None else co_history c) of None \<Rightarrow> Ok (?res, ?q)
     | Some detail \<Rightarrow> (case insertSearchHistory (sr_media_id r) (sr_language r) (co_outcome c) detail
                (if is_zero_time (co_finished_at c) then wall else co_finished_at c) ?q of
             Err e \<Rightarrow> Err e | Ok q'' \<Rightarrow> Ok (?res, q'')))"
    unfolding CompleteSearch_def x
    by (simp only: ok if_False option.case sum.case prod.case Let_def m option.sel one keep refl simp_thms)
  show ?thesis unfolding eq by (cases "if mr_deleted m then None else co_history c") (simp_all add: insertSearchHistory_def fin)
qed

lemma plain_resume: "\<not> co_preserve_resume c \<Longrightarrow> kept_resume rp wall c m r = Ok ((''[]'', [], 0), 0)"
  by (simp add: kept_resume_def)

lemma current_resume_run:
  obtains n lease' where "current_resume E lease media s = (Ok lease', s\<lparr>ws_reads := n\<rparr>)"
    "sl_job_id lease' = sl_job_id lease" "sl_failure_attempt lease' = sl_failure_attempt lease"
    "sl_priority lease' = sl_priority lease" "sl_attempt lease' = sl_attempt lease" "sl_replace_installed lease' = sl_replace_installed lease"
proof (cases "is_zero_time (sl_resume_saved_at lease)")
  case True
  then show thesis by (intro that [of lease "ws_reads s"]) (simp_all add: current_resume_def ret_def)
next
  case False
  let ?old = "jv_now E (ws_reads s) - sl_resume_saved_at lease
      \<ge> ResumeTTL (job_scheduler E (jv_now E (Suc (ws_reads s))) 0) (sl_attempt lease) (m_released_at media)"
  let ?l = "if ?old then lease\<lparr>sl_resume_providers := [], sl_resume_signature := [], sl_resume_saved_at := zero_time\<rparr> else lease"
  have "current_resume E lease media s = (Ok ?l, s\<lparr>ws_reads := Suc (Suc (ws_reads s))\<rparr>)"
    using False by (simp add: current_resume_def clock_now_def seq_def bnd_def reads_def update_def ret_def)
  then show thesis by (rule that) simp_all
qed

lemma preserve_none: "preserveProviderResume lease zero_result t c = c"
  by (simp add: preserveProviderResume_def zero_result_def)

lemma plain_fields:
  assumes "\<not> sr_rerun_requested r" "co_next_attempt_at c \<noteq> 0"
  shows "search_row_key (completed_row c resume r) = search_row_key r"
    and "sr_attempt (completed_row c resume r) = max (co_missing_floor c)
      ((if co_reset_missing c then 0 else sr_attempt r) + (if co_advance_missing c \<or> co_advance_upgrade c then 1 else 0))"
    and "sr_failure_attempt (completed_row c resume r) = (if co_reset_failure c then 0 else sr_failure_attempt r + (if co_advance_failure c then 1 else 0))"
    and "sr_queue_order_ns (completed_row c resume r) = (if co_preserve_queue_order c then sr_queue_order_ns r else unix_nano (co_next_attempt_at c))"
    and "sr_last_outcome (completed_row c resume r) = co_outcome c"
    and "sr_priority (completed_row c resume r) = (if co_priority c = 0 then sr_priority r else co_priority c)"
    and "sr_replace_installed (completed_row c resume r) = (\<not> co_clear_replace c \<and> sr_replace_installed r)"
  by (rule completed_row_key) (insert assms, (cases resume; simp add: completed_row_def Let_def; fail)+)

text \<open>A search that was asked for again during the lease starts afresh at the time it was asked for.\<close>

lemma rerun_fields:
  assumes "sr_rerun_requested r"
  shows "sr_attempt (completed_row c resume r) = 0" "sr_failure_attempt (completed_row c resume r) = 0"
    and "sr_next_attempt_at_ns (completed_row c resume r) = sr_next_attempt_at_ns r"
    and "sr_queue_order_ns (completed_row c resume r) = sr_queue_order_ns r"
    and "sr_priority (completed_row c resume r) = sr_priority r"
    and "sr_last_outcome (completed_row c resume r) = []"
    and "sr_replace_installed (completed_row c resume r) = sr_replace_installed r"
  using assms by (cases resume; simp add: completed_row_def Let_def; fail)+

lemma deleted_fields:
  "search_row_key (deleted_row r) = search_row_key r" "sr_lease_owner (deleted_row r) = None" "sr_state (deleted_row r) = complete"
  by (simp_all add: deleted_row_def search_row_key_def)

text \<open>The row a successful completion writes.\<close>

lemma recorded_row:
  assumes ok: "CompleteSearch rp wall c q = Ok (res, q')" and r: "r \<in> set (q_searches q)" "sr_lease_owner r = Some (co_job_id c)"
    and m: "find_media q (sr_media_id r) = Some m"
  shows "\<exists>resume. (if mr_deleted m then deleted_row else completed_row c resume) r \<in> set (q_searches q')"
proof -
  from ok obtain r0 m0 resume kept' where r0: "r0 \<in> set (q_searches q)" "owned_by (co_job_id c) r0"
    "find_media q (sr_media_id r0) = Some m0" "sql_count (owned_by (co_job_id c)) (q_searches q) = 1"
    "q_searches q' = sql_update (owned_by (co_job_id c)) (if mr_deleted m0 then deleted_row else completed_row c resume) (q_searches q)"
    by (rule CompleteSearch_Ok)
  have own: "owned_by (co_job_id c) r" using r(2) by (simp add: owned_by_def)
  with r0(1,2,4) r(1) have "r0 = r" by (metis sql_count_1_unique)
  with r0(3,5) m have "q_searches q' = sql_update (owned_by (co_job_id c)) (if mr_deleted m then deleted_row else completed_row c resume) (q_searches q)"
    by simp
  then show ?thesis
    using sql_update_hit [of r "q_searches q" "owned_by (co_job_id c)" "if mr_deleted m then deleted_row else completed_row c resume"] r(1) own
    by metis
qed

lemmas job_eval = seq_def bnd_def reads_def update_def ret_def stop_def attempt_def clock_now_def

lemma transact_ok: "\<lbrakk>CompleteSearch (jv_repository E) (jv_wall E) c (ws_db s) = Ok (res, q')\<rbrakk>
  \<Longrightarrow> complete_search E c s = (Ok res, s\<lparr>ws_db := q'\<rparr>)"
  by (simp add: complete_search_def transact_def job_eval)

text \<open>A job that was canceled or whose workflow failed answers with an error.\<close>

lemma canceled_answers: "isl (fst (job_canceled lease ended s))"
  by (auto simp: job_canceled_def releaseSearchLease_def job_eval Let_def split: sum.split prod.split)

lemma fail_answers: "isl (fst (fail_job E lease media result err s))"
  by (auto simp: fail_job_def job_eval Let_def split: sum.split prod.split)

lemma canceled_not_ok: "job_canceled lease ended s \<noteq> (Ok (), s')"
  using canceled_answers [of lease ended s] by auto

lemma settle_err: "settle_job E lease media (result, Some e) s \<noteq> (Ok (), s')"
proof -
  have "isl (fst (settle_job E lease media (result, Some e) s))"
    by (auto simp: settle_job_def job_eval Let_def fail_answers canceled_answers split: sum.split prod.split)
  then show ?thesis by auto
qed

section \<open>The retry time of a throttled search\<close>

lemma rnd_tenth: "rnd (1 / 10) = 3602879701896397 / 36028797018963968"
  using rnd_eval [of "- 4" "1 / 10" 7205759403792794] by (simp add: power_int_def power_one_over)

lemma jitter_bounds:
  assumes d: "0 \<le> d" "d \<le> 2 ^ 53" and u: "0 \<le> u" "u \<le> 1"
  shows "0 \<le> trunc_int (rnd (rnd (rnd (of_int d) * rnd (1 / 10)) * u))"
    and "trunc_int (rnd (rnd (rnd (of_int d) * rnd (1 / 10)) * u)) \<le> d div 10 + 1"
proof -
  have rd: "rnd (of_int d) = of_int d" using d by (rule rnd_of_int)
  have n: "0 \<le> d div 10 + 1" "d div 10 + 1 \<le> 2 ^ 53" using d by auto
  have "rat_of_int d * rnd (1 / 10) \<le> of_int (d div 10 + 1)"
  proof -
    have "of_int d = 10 * rat_of_int (d div 10) + of_int (d mod 10)" by (metis mult.commute div_mod_decomp_int of_int_add of_int_mult of_int_numeral)
    moreover have "d mod 10 \<le> 9" by presburger
    then have "rat_of_int (d mod 10) \<le> 9" by (metis of_int_le_iff of_int_numeral)
    moreover have "rat_of_int (d div 10) \<le> 2 ^ 53 / 10" using d by simp
    ultimately show ?thesis by (simp add: rnd_tenth)
  qed
  then have a: "rnd (of_int d * rnd (1 / 10)) \<le> of_int (d div 10 + 1)" using n by (rule rnd_le_int)
  have "0 \<le> rat_of_int d * rnd (1 / 10)" using d(1) by (simp add: rnd_tenth)
  then have b: "0 \<le> rnd (of_int d * rnd (1 / 10))" by (rule rnd_nonneg)
  have "rnd (of_int d * rnd (1 / 10)) * u \<le> of_int (d div 10 + 1)"
    using mult_left_le [OF u(2) b] a by linarith
  then have "rnd (rnd (of_int d * rnd (1 / 10)) * u) \<le> of_int (d div 10 + 1)" using n by (rule rnd_le_int)
  moreover have "0 \<le> rnd (rnd (of_int d * rnd (1 / 10)) * u)" using b u(1) by (intro rnd_nonneg) simp
  ultimately show "0 \<le> trunc_int (rnd (rnd (rnd (of_int d) * rnd (1 / 10)) * u))"
    and "trunc_int (rnd (rnd (rnd (of_int d) * rnd (1 / 10)) * u)) \<le> d div 10 + 1"
    using trunc_int_between [of 0 _ "d div 10 + 1"] by (simp_all add: rd)
qed

text \<open>
  The jittered retry: never before a reported reset nor within a minute of a time the job read, and not later than a
  tenth of the wait (or a minute) after the reset.
\<close>

lemma throttle_run:
  assumes mono: "mono (jv_now E)"
  obtains n t draws reset' where "throttleRetryAt E reset s = (Ok t, s\<lparr>ws_reads := n, ws_draws := draws\<rparr>)"
    "reset' = (if reset = zero_time then jv_now E (ws_reads s) + unknownThrottleDelay else reset)"
    "reset' \<le> t" "jv_now E (ws_reads s) + minute \<le> t"
    "reset' - jv_now E (ws_reads s) \<le> 2 ^ 53 \<longrightarrow> t \<le> max (reset' + (reset' - jv_now E (ws_reads s)) div 10 + 1) (jv_now E n + minute)"
proof -
  define k where "k = (if reset = zero_time then Suc (ws_reads s) else ws_reads s)"
  define reset' where "reset' = (if reset = zero_time then jv_now E (ws_reads s) + unknownThrottleDelay else reset)"
  define unit' where "unit' = (let drawn = jv_unit E (ws_draws s) in if drawn < 0 then 0 else if drawn > 1 then 1 else drawn)"
  define jitter where "jitter = trunc_int (rnd (rnd (rnd (of_int (reset' - jv_now E k)) * rnd (1 / 10)) * unit'))"
  have k: "jv_now E (ws_reads s) \<le> jv_now E k" "jv_now E k \<le> jv_now E (Suc k)" "jv_now E (Suc k) \<le> jv_now E (Suc (Suc k))"
    using mono by (auto simp: k_def intro: monoD)
  have unit: "0 \<le> unit'" "unit' \<le> 1" by (auto simp: unit'_def Let_def)
  have run: "throttleRetryAt E reset s = (if reset' - jv_now E k < minimumThrottleDelay
      then (Ok (jv_now E (Suc k) + minimumThrottleDelay), s\<lparr>ws_reads := Suc (Suc k), ws_draws := ws_draws s\<rparr>)
      else (Ok (reset' + jitter), s\<lparr>ws_reads := Suc k, ws_draws := Suc (ws_draws s)\<rparr>))"
    by (auto simp: throttleRetryAt_def job_eval random_unit_def k_def reset'_def jitter_def unit'_def Let_def)
  show thesis
  proof (cases "reset' - jv_now E k < minimumThrottleDelay")
    case True
    with run have "throttleRetryAt E reset s = (Ok (jv_now E (Suc k) + minute), s\<lparr>ws_reads := Suc (Suc k), ws_draws := ws_draws s\<rparr>)"
      by (simp add: minimumThrottleDelay_def)
    moreover have "reset' \<le> jv_now E (Suc k) + minute" using True k by (simp add: minimumThrottleDelay_def)
    ultimately show thesis by (rule that [OF _ reset'_def]) (use k in auto)
  next
    case False
    then have delay: "minute \<le> reset' - jv_now E k" by (simp add: minimumThrottleDelay_def)
    have low: "0 \<le> jitter"
      unfolding jitter_def using delay unit(1) by (intro trunc_nonneg rnd_nonneg mult_nonneg_nonneg) (simp_all add: rnd_tenth)
    have "reset' - jv_now E (ws_reads s) \<le> 2 ^ 53 \<Longrightarrow> jitter \<le> (reset' - jv_now E k) div 10 + 1"
      unfolding jitter_def using delay k(1) by (intro jitter_bounds unit) auto
    moreover have "(reset' - jv_now E k) div 10 \<le> (reset' - jv_now E (ws_reads s)) div 10"
      using k(1) by (intro zdiv_mono1) auto
    ultimately have high: "reset' - jv_now E (ws_reads s) \<le> 2 ^ 53 \<longrightarrow> reset' + jitter \<le> reset' + (reset' - jv_now E (ws_reads s)) div 10 + 1"
      by auto
    from run False have "throttleRetryAt E reset s = (Ok (reset' + jitter), s\<lparr>ws_reads := Suc k, ws_draws := Suc (ws_draws s)\<rparr>)" by simp
    then show thesis by (rule that [OF _ reset'_def]) (use low high delay k in auto)
  qed
qed

section \<open>A sample job\<close>

definition sample_job :: "bool \<Rightarrow> Result \<Rightarrow> job_env" where
  "sample_job stuck result =
     \<lparr>jv_repository = sample_repository, jv_probe = \<lparr>pb_link = (\<lambda>_. None), pb_list = (\<lambda>_. Hung)\<rparr>, jv_media_roots = [],
      jv_fused = False, jv_aged_after = 0, jv_job_timeout = 0, jv_job_grace = 0, jv_title = m_title,
      jv_duration_text = (\<lambda>_. []), jv_get_media = (\<lambda>_. Ok zero_media), jv_run = (\<lambda>_. (result, None)),
      jv_abandoned = stuck, jv_others = id, jv_renewal = (if stuck then Some (WOther ''search lease not found'') else None),
      jv_timed_out = stuck, jv_ended = None, jv_now = (\<lambda>n. unix_epoch + 3 * hour + int n * second),
      jv_unit = (\<lambda>_. 0), jv_wall = unix_epoch + 3 * hour\<rparr>"

definition sample_job_lease :: SearchLease where
  "sample_job_lease = \<lparr>sl_media_id = 1, sl_language = ''en'', sl_job_id = ''job'', sl_attempt = 0, sl_failure_attempt = 0,
     sl_lease_until = unix_epoch + 2 * hour, sl_priority = SearchPriorityImport, sl_resume_providers = [],
     sl_resume_signature = [], sl_resume_saved_at = 0, sl_replace_installed = False\<rparr>"

definition sample_worker :: worker_state where
  "sample_worker = \<lparr>ws_db = sample_claimed, ws_breaker = closed_breaker, ws_reads = 0, ws_draws = 0\<rparr>"

lemma sample_job_sel [simp]:
  "jv_repository (sample_job b res) = sample_repository" "jv_get_media (sample_job b res) i = Ok zero_media"
  "jv_run (sample_job b res) request = (res, None)" "jv_abandoned (sample_job b res) = b" "jv_others (sample_job b res) q = q"
  "jv_timed_out (sample_job b res) = b" "jv_ended (sample_job b res) = None" "jv_renewal (sample_job False res) = None"
  "jv_now (sample_job b res) n = unix_epoch + 3 * hour + int n * second"
  by (simp_all add: sample_job_def)

lemma sample_lease_sel [simp]: "sl_media_id sample_job_lease = 1" "sl_job_id sample_job_lease = ''job''"
  "sl_attempt sample_job_lease = 0" "sl_resume_saved_at sample_job_lease = 0" "sl_failure_attempt sample_job_lease = 0"
  "sl_replace_installed sample_job_lease = False"
  by (simp_all add: sample_job_lease_def)

lemma sample_worker_db [simp]: "ws_db sample_worker = sample_claimed"
  by (simp add: sample_worker_def)

lemma sample_clock: "0 < jv_now (sample_job b res) n" "mono (jv_now (sample_job b res))"
  by (simp_all add: unix_epoch_def mono_def)

lemma sample_claimed_row:
  obtains r where "r \<in> set (q_searches sample_claimed)" "search_row_key r = (1, ''en'')" "sr_lease_owner r = Some ''job''"
    "\<not> sr_rerun_requested r" "sr_media_id r = 1" "sr_failure_attempt r = 0" "sr_queue_order_ns r = hour"
  by (rule that [of "hd (q_searches sample_claimed)"]) (simp_all add: sample_claimed_eq search_row_key_def new_search_def)

lemma sample_media_facts: "\<not> mr_deleted sample_media" "m_unsupported_reason zero_media = []"
  by (simp_all add: sample_media_def zero_media_def)

text \<open>A throttled run of the sample job completes.\<close>

lemma sample_throttled:
  assumes out: "rs_outcome res = OutcomeThrottled" and none: "rs_resume_providers res = []"
  shows "\<exists>s'. runSearchLease (sample_job False res) sample_job_lease sample_worker = (Ok (), s')"
proof -
  let ?E = "sample_job False res"
  obtain r where r: "r \<in> set (q_searches sample_claimed)" "sr_lease_owner r = Some ''job''" "sr_media_id r = 1"
    by (rule sample_claimed_row)
  have neq: "OutcomeThrottled \<noteq> OutcomeSatisfied" "OutcomeThrottled \<noteq> OutcomeInstalled" "OutcomeThrottled \<noteq> OutcomeNoResult"
    "OutcomeThrottled \<noteq> OutcomeRejected" "OutcomeThrottled \<noteq> OutcomeRemoved" by (simp_all add: outcome_defs)
  have keep: "preserveProviderResume l res t c = c" for l t c by (simp add: preserveProviderResume_def none)
  obtain b where b: "settle_job ?E sample_job_lease zero_media (res, None) sample_worker
      = finish_job ?E sample_job_lease zero_media res (sample_worker\<lparr>ws_reads := Suc 0, ws_breaker := b\<rparr>)"
    by (simp add: settle_job_def job_eval sample_worker_def)
  define s2 where "s2 = sample_worker\<lparr>ws_reads := Suc 0, ws_breaker := b\<rparr>"
  have s2: "ws_db s2 = sample_claimed" "sample_worker\<lparr>ws_db := sample_claimed\<rparr> = sample_worker" by (simp_all add: s2_def sample_worker_def)
  obtain n t draws where t: "throttleRetryAt ?E (rs_retry_at res) s2 = (Ok t, s2\<lparr>ws_reads := n, ws_draws := draws\<rparr>)"
    using throttle_run [OF sample_clock(2)] by metis
  define c where "c = (zero_completion\<lparr>co_job_id := ''job'', co_outcome := OutcomeThrottled, co_next_attempt_at := t, co_preserve_queue_order := True\<rparr>)
      \<lparr>co_history := Some (searchHistory ?E zero_media res), co_clear_replace := False, co_finished_at := jv_now ?E (Suc n)\<rparr>"
  have c: "co_job_id c = ''job''" "co_priority c = 0" "\<not> co_preserve_resume c" by (simp_all add: c_def zero_completion_def)
  have "sr_lease_owner r = Some (co_job_id c)" and "find_media sample_claimed (sr_media_id r) = Some sample_media"
    using r c sample_found by simp_all
  from complete_applies [OF queue_reach_inv [OF sample_claimed_reach] r(1) this _ plain_resume [OF c(3)]] c(2)
  obtain answer q' where "CompleteSearch (jv_repository ?E) (jv_wall ?E) c sample_claimed = Ok (answer, q')" by blast
  then have "finish_job ?E sample_job_lease zero_media res s2 = (Ok (), s2\<lparr>ws_draws := draws, ws_reads := Suc (Suc n), ws_db := q'\<rparr>)"
    using t neq by (simp add: finish_job_def workflowCompletion_def out job_eval keep complete_search_def transact_def c_def s2(1))
  then show ?thesis
    using b by (simp add: runSearchLease_def seq_def bnd_def update_def ret_def sample_media_facts current_resume_def runWorkflow_def s2(2) flip: s2_def)
qed

section \<open>Properties\<close>

text \<open>C3: no search is lost by its job. Whatever the job meets (a vanished media row, a failing, throttled, stuck or
  canceled workflow, a lost lease, a failing store, changes by others meanwhile), it changes no other search, and its
  own is left leased as it was, given back, or settled: pending again for a requested rerun, for the next upgrade or
  at least a minute after a time the job read, and complete only when the media was deleted or is not searched or the
  workflow satisfied the language without naming an upgrade. A job that reports success has settled its search.\<close>

theorem searches_stay_queued:
  assumes "0 \<le> sl_attempt lease" "\<forall>n. 0 < jv_now E n"
    and "runSearchLease E lease s = (answer, s')" "jv_others E (ws_db s) = q" "r \<in> set (q_searches q)"
  shows "\<exists>r' \<in> set (q_searches (ws_db s')). search_row_key r' = search_row_key r
    \<and> (if sr_lease_owner r \<noteq> Some (sl_job_id lease) then r' = r
       else if answer = Ok () then settled E (sl_media_id lease) q r r'
       else r' = r \<or> r' = given_back r \<or> settled E (sl_media_id lease) q r r')"
proof -
  from job_outcome [OF assms(1-4)] obtain f where
    f: "q_searches (ws_db s') = sql_update (owned_by (sl_job_id lease)) f (q_searches q)"
      "\<And>r. \<lbrakk>r \<in> set (q_searches q); owned_by (sl_job_id lease) r\<rbrakk> \<Longrightarrow> search_row_key (f r) = search_row_key r
        \<and> (if isl answer then outcomes E (sl_media_id lease) q r (f r) else settled E (sl_media_id lease) q r (f r))"
    unfolding row_effect_def by (cases "isl answer") auto
  let ?r = "if owned_by (sl_job_id lease) r then f r else r"
  have "?r \<in> set (q_searches (ws_db s'))" unfolding f(1) using assms(5) by (force simp: set_sql_update)
  moreover have "answer = Ok () \<longleftrightarrow> \<not> isl answer" by (cases answer) auto
  ultimately show ?thesis using f(2) [OF assms(5)] by (intro bexI [of _ ?r]) (auto simp: owned_by_def)
qed

theorem searches_stay_queued_witness:
  "\<exists>r' \<in> set (q_searches (ws_db (snd (runSearchLease (sample_job False zero_result) sample_job_lease sample_worker)))). search_row_key r' = (1, ''en'')"
proof -
  obtain r where r: "r \<in> set (q_searches sample_claimed)" "search_row_key r = (1, ''en'')" by (rule sample_claimed_row)
  obtain answer s' where run: "runSearchLease (sample_job False zero_result) sample_job_lease sample_worker = (answer, s')" by (metis surj_pair)
  have q: "jv_others (sample_job False zero_result) (ws_db sample_worker) = sample_claimed" by simp
  from searches_stay_queued [OF _ _ run q r(1)] sample_clock(1) run r(2) show ?thesis by auto
qed

text \<open>C29: a stuck job does not hold its search. When the workflow of a supported media ignores the job's time limit and
  is abandoned, the worker itself not being stopped, and the search is still leased to the job, the job answers with the
  timeout, even when the lease could not be renewed, and the search is unleased. A search asked for again during the
  lease starts afresh at the time it was asked for; the search of a media deleted meanwhile is complete; every other
  search is pending with its failure count one higher, due after the backoff of its failures.\<close>

theorem stuck_job_recorded:
  assumes "jv_abandoned E" "jv_timed_out E" "jv_get_media E (sl_media_id lease) = Ok media" "m_unsupported_reason media = []"
    and "runSearchLease E lease s = (answer, s')" "jv_others E (ws_db s) = q" "queue_reach (jv_repository E) q"
    and "r \<in> set (q_searches q)" "sr_lease_owner r = Some (sl_job_id lease)"
    and "find_media q (sr_media_id r) = Some m" "\<forall>n. 0 < jv_now E n"
  shows "\<exists>r' \<in> set (q_searches (ws_db s')). \<exists>n. search_row_key r' = search_row_key r \<and> sr_lease_owner r' = None
    \<and> (\<exists>e. answer = Err e \<and> is_job_timeout e)
    \<and> (if mr_deleted m then sr_state r' = complete
       else if sr_rerun_requested r then sr_state r' = pending \<and> sr_attempt r' = 0 \<and> sr_failure_attempt r' = 0
         \<and> sr_next_attempt_at_ns r' = sr_next_attempt_at_ns r
       else sr_state r' = pending \<and> sr_attempt r' = max 0 (sr_attempt r) \<and> sr_failure_attempt r' = sr_failure_attempt r + 1
         \<and> sr_next_attempt_at_ns r' = unix_nano (jv_now E n + WorkflowFailureDelay (sl_failure_attempt lease))
         \<and> sr_last_outcome r' = ''workflow_error'')"
proof -
  obtain n lease' where resume: "current_resume E lease media (s\<lparr>ws_db := q\<rparr>) = (Ok lease', s\<lparr>ws_db := q, ws_reads := n\<rparr>)"
    and same: "sl_job_id lease' = sl_job_id lease" "sl_failure_attempt lease' = sl_failure_attempt lease"
    by (rule current_resume_run [of E lease media "s\<lparr>ws_db := q\<rparr>"]) (auto simp: ac_simps)
  define late where "late = WWrapped (jv_duration_text E (job_limit E) @ '', abandoned after a further '' @ jv_duration_text E (job_grace E)) errJobTimedOut"
  have late: "is_job_timeout late" "runWorkflow E request = (zero_result, Some late)" for request
    using assms(1) by (simp_all add: late_def is_job_timeout_def errJobTimedOut_def runWorkflow_def)
  let ?s = "s\<lparr>ws_db := q, ws_reads := Suc n, ws_breaker := recordSearchResult (jv_probe E) (jv_media_roots E) (jv_now E n)
      (Some late) (fp_path (m_fingerprint media)) (ws_breaker s)\<rparr>"
  have settle: "runSearchLease E lease s = fail_job E lease' media zero_result late ?s"
    using assms(2-4) resume late by (simp add: runSearchLease_def assms(6) settle_job_def job_eval)
  define c where "c = (Failure (job_scheduler E (jv_now E (Suc n)) 0) (sl_job_id lease) (sl_failure_attempt lease) ''workflow_error'')
      \<lparr>co_preserve_queue_order := MediaUnavailable late, co_history := Some (searchHistory E media zero_result),
       co_finished_at := jv_now E (Suc (Suc n))\<rparr>"
  have c: "co_job_id c = sl_job_id lease" "co_priority c = 0" "\<not> co_preserve_resume c"
    "co_next_attempt_at c = jv_now E (Suc n) + WorkflowFailureDelay (sl_failure_attempt lease)"
    by (simp_all add: c_def Failure_def zero_completion_def job_scheduler_def)
  have wait: "co_next_attempt_at c \<noteq> 0"
    using assms(11) [rule_format, of "Suc n"] WorkflowFailureDelay_range [of "sl_failure_attempt lease"] unfolding c(4) by linarith
  have c': "co_missing_floor c = 0" "\<not> co_reset_missing c" "\<not> co_advance_missing c" "\<not> co_advance_upgrade c" "co_advance_failure c"
    "\<not> co_reset_failure c" "co_outcome c = ''workflow_error''"
    by (simp_all add: c_def Failure_def zero_completion_def)
  have owner: "sr_lease_owner r = Some (co_job_id c)" using assms(9) c(1) by simp
  let ?f = "if mr_deleted m then deleted_row else completed_row c (''[]'', [], 0)"
  obtain res q' where ok: "CompleteSearch (jv_repository E) (jv_wall E) c q = Ok (res, q')"
    and rows: "q_searches q' = sql_update (owned_by (co_job_id c)) ?f (q_searches q)"
    using complete_applies [OF queue_reach_inv [OF assms(7)] assms(8) owner assms(10) _ plain_resume [OF c(3)]] c(2) by blast
  have "fail_job E lease' media zero_result late ?s = (Err late, ?s\<lparr>ws_reads := Suc (Suc (Suc (Suc n))), ws_db := q'\<rparr>)"
    using ok by (simp add: fail_job_def job_eval complete_search_def transact_def same preserve_none c_def)
  then have run: "answer = Err late" "ws_db s' = q'" using settle assms(5) by simp_all
  have "?f r \<in> set (q_searches (ws_db s'))"
    unfolding run rows using assms(8,9) c(1) by (simp add: sql_update_hit owned_by_def)
  moreover have "search_row_key (?f r) = search_row_key r" "sr_lease_owner (?f r) = None" "mr_deleted m \<Longrightarrow> sr_state (?f r) = complete"
    by (simp_all add: completed_row_key completed_fields deleted_fields)
  moreover have "sr_state (?f r) = pending \<and> sr_attempt (?f r) = 0 \<and> sr_failure_attempt (?f r) = 0
    \<and> sr_next_attempt_at_ns (?f r) = sr_next_attempt_at_ns r" if "\<not> mr_deleted m" "sr_rerun_requested r"
    using that by (simp add: completed_fields rerun_fields)
  moreover have "sr_state (?f r) = pending \<and> sr_attempt (?f r) = max 0 (sr_attempt r)
    \<and> sr_failure_attempt (?f r) = sr_failure_attempt r + 1 \<and> sr_next_attempt_at_ns (?f r) = unix_nano (co_next_attempt_at c)
    \<and> sr_last_outcome (?f r) = ''workflow_error''" if "\<not> mr_deleted m" "\<not> sr_rerun_requested r"
    using that wait c' by (simp add: completed_fields plain_fields)
  moreover have "\<exists>e. answer = Err e \<and> is_job_timeout e" using run(1) late(1) by blast
  ultimately show ?thesis unfolding c(4) by (intro bexI [of _ "?f r"] exI [of _ "Suc n"]) simp_all
qed

theorem stuck_job_recorded_witness:
  "\<exists>r' \<in> set (q_searches (ws_db (snd (runSearchLease (sample_job True zero_result) sample_job_lease sample_worker)))).
     search_row_key r' = (1, ''en'') \<and> sr_failure_attempt r' = 1 \<and> sr_state r' = pending"
proof -
  obtain r where r: "r \<in> set (q_searches sample_claimed)" "search_row_key r = (1, ''en'')" "sr_lease_owner r = Some ''job''"
    "\<not> sr_rerun_requested r" "sr_media_id r = 1" "sr_failure_attempt r = 0" by (rule sample_claimed_row)
  obtain answer s' where run: "runSearchLease (sample_job True zero_result) sample_job_lease sample_worker = (answer, s')" by (metis surj_pair)
  have q: "jv_others (sample_job True zero_result) (ws_db sample_worker) = sample_claimed" by simp
  have reach: "queue_reach (jv_repository (sample_job True zero_result)) sample_claimed" using sample_claimed_reach by simp
  have m: "find_media sample_claimed (sr_media_id r) = Some sample_media" using sample_found r(5) by simp
  from stuck_job_recorded [OF _ _ _ sample_media_facts(2) run q reach r(1) _ m] sample_clock(1) sample_media_facts(1) run r(2,3,4,6)
  show ?thesis by fastforce
qed

text \<open>C30: a throttle only delays a search. When the job of a throttled search recorded its end without an error and the
  media was not deleted meanwhile, the search is unleased and pending and keeps its place in the queue, its priority and
  a queued replacement. Unless it was asked for again during the lease, it keeps its counters and is due no earlier than
  the reset the providers reported (six hours on when they reported none), no earlier than a minute after a time the job
  read, and, for a wait of at most 2^53 nanoseconds (104 days), within a tenth of the wait after the reset; asked for
  again, it starts afresh with both counters at zero at the time it was asked for.\<close>

theorem throttled_keeps_place:
  assumes "runSearchLease E lease s = (Ok (), s')" "jv_others E (ws_db s) = q" "mono (jv_now E)" "0 < jv_now E 0"
    and "jv_get_media E (sl_media_id lease) = Ok media" "m_unsupported_reason media = []"
    and "\<And>request. jv_run E request = (result, None)" "rs_outcome result = OutcomeThrottled"
    and "r \<in> set (q_searches q)" "sr_lease_owner r = Some (sl_job_id lease)"
    and "find_media q (sr_media_id r) = Some m" "\<not> mr_deleted m"
  shows "\<exists>r' \<in> set (q_searches (ws_db s')). \<exists>n k t. search_row_key r' = search_row_key r
    \<and> sr_queue_order_ns r' = sr_queue_order_ns r \<and> sr_priority r' = sr_priority r \<and> sr_replace_installed r' = sr_replace_installed r
    \<and> sr_state r' = pending \<and> sr_lease_owner r' = None
    \<and> (if sr_rerun_requested r
       then sr_attempt r' = 0 \<and> sr_failure_attempt r' = 0 \<and> sr_next_attempt_at_ns r' = sr_next_attempt_at_ns r
       else sr_attempt r' = max 0 (sr_attempt r) \<and> sr_failure_attempt r' = sr_failure_attempt r
         \<and> sr_next_attempt_at_ns r' = unix_nano t)
    \<and> (let reset = (if rs_retry_at result = zero_time then jv_now E n + 6 * hour else rs_retry_at result)
       in reset \<le> t \<and> jv_now E n + minute \<le> t
          \<and> (reset - jv_now E n \<le> 2 ^ 53 \<longrightarrow> t \<le> max (reset + (reset - jv_now E n) div 10 + 1) (jv_now E k + minute)))"
proof -
  obtain n0 lease' where resume: "current_resume E lease media (s\<lparr>ws_db := q\<rparr>) = (Ok lease', s\<lparr>ws_db := q, ws_reads := n0\<rparr>)"
    and same: "sl_job_id lease' = sl_job_id lease" "sl_replace_installed lease' = sl_replace_installed lease"
    by (rule current_resume_run [of E lease media "s\<lparr>ws_db := q\<rparr>"]) (auto simp: ac_simps)
  define s1 where "s1 = s\<lparr>ws_db := q, ws_reads := n0\<rparr>"
  have settle: "settle_job E lease' media (runWorkflow E (job_request lease' media)) s1 = (Ok (), s')"
    using assms(1,5,6) resume by (simp add: runSearchLease_def assms(2) seq_def bnd_def update_def s1_def)
  have "\<not> jv_abandoned E"
    using settle settle_err by (auto simp: runWorkflow_def)
  then have "settle_job E lease' media (result, None) s1 = (Ok (), s')" using settle assms(7) by (simp add: runWorkflow_def)
  then obtain b where finish: "finish_job E lease' media result (s1\<lparr>ws_reads := Suc n0, ws_breaker := b\<rparr>) = (Ok (), s')"
    by (auto simp: settle_job_def job_eval s1_def canceled_not_ok split: if_split_asm)
  define s2 where "s2 = s1\<lparr>ws_reads := Suc n0, ws_breaker := b\<rparr>"
  obtain n t draws reset' where t: "throttleRetryAt E (rs_retry_at result) s2 = (Ok t, s2\<lparr>ws_reads := n, ws_draws := draws\<rparr>)"
    "reset' = (if rs_retry_at result = zero_time then jv_now E (ws_reads s2) + unknownThrottleDelay else rs_retry_at result)"
    "reset' \<le> t" "jv_now E (ws_reads s2) + minute \<le> t"
    "reset' - jv_now E (ws_reads s2) \<le> 2 ^ 53 \<longrightarrow> t \<le> max (reset' + (reset' - jv_now E (ws_reads s2)) div 10 + 1) (jv_now E n + minute)"
    by (rule throttle_run [OF assms(3)])
  define c where "c = (preserveProviderResume lease' result (jv_now E n) (zero_completion\<lparr>co_job_id := sl_job_id lease',
      co_outcome := rs_outcome result, co_next_attempt_at := t, co_preserve_queue_order := True\<rparr>))
      \<lparr>co_history := Some (searchHistory E media result), co_clear_replace := False, co_finished_at := jv_now E (Suc n)\<rparr>"
  have neq: "OutcomeThrottled \<noteq> OutcomeSatisfied" "OutcomeThrottled \<noteq> OutcomeInstalled" "OutcomeThrottled \<noteq> OutcomeNoResult"
    "OutcomeThrottled \<noteq> OutcomeRejected" "OutcomeThrottled \<noteq> OutcomeRemoved" by (simp_all add: outcome_defs)
  have "bnd (complete_search E c) (\<lambda>_. ret ()) (s2\<lparr>ws_draws := draws, ws_reads := Suc (Suc n)\<rparr>) = (Ok (), s')"
    using finish neq t(1) by (simp add: s2_def [symmetric] finish_job_def workflowCompletion_def assms(8) job_eval c_def)
  then obtain res where done': "CompleteSearch (jv_repository E) (jv_wall E) c q = Ok (res, ws_db s')"
    by (auto simp: complete_search_def transact_def job_eval s2_def s1_def split: sum.splits prod.splits)
  have c: "co_job_id c = sl_job_id lease" "co_next_attempt_at c = t" "co_preserve_queue_order c" "\<not> co_clear_replace c"
    "co_priority c = 0" "co_missing_floor c = 0" "\<not> co_reset_missing c" "\<not> co_advance_missing c" "\<not> co_advance_upgrade c"
    "\<not> co_reset_failure c" "\<not> co_advance_failure c"
    by (simp_all add: c_def preserveProviderResume_def zero_completion_def same)
  have "0 < jv_now E (ws_reads s2)" using assms(3,4) by (meson le0 less_le_trans monoD)
  with t(4) have pos: "t \<noteq> 0" by linarith
  obtain keep where mem: "completed_row c keep r \<in> set (q_searches (ws_db s'))"
    using recorded_row [OF done' assms(9) _ assms(11)] assms(10,12) c(1) by auto
  have "search_row_key (completed_row c keep r) = search_row_key r" "sr_lease_owner (completed_row c keep r) = None"
    "sr_state (completed_row c keep r) = pending"
    using pos c by (simp_all add: completed_row_key completed_fields)
  moreover have "sr_queue_order_ns (completed_row c keep r) = sr_queue_order_ns r \<and> sr_priority (completed_row c keep r) = sr_priority r
    \<and> sr_replace_installed (completed_row c keep r) = sr_replace_installed r"
    using pos c by (cases "sr_rerun_requested r") (simp_all add: plain_fields rerun_fields)
  moreover have "if sr_rerun_requested r
       then sr_attempt (completed_row c keep r) = 0 \<and> sr_failure_attempt (completed_row c keep r) = 0
         \<and> sr_next_attempt_at_ns (completed_row c keep r) = sr_next_attempt_at_ns r
       else sr_attempt (completed_row c keep r) = max 0 (sr_attempt r) \<and> sr_failure_attempt (completed_row c keep r) = sr_failure_attempt r
         \<and> sr_next_attempt_at_ns (completed_row c keep r) = unix_nano t"
    using pos c by (simp add: plain_fields rerun_fields completed_fields)
  ultimately show ?thesis using mem t(2-5) unfolding unknownThrottleDelay_def Let_def by blast
qed

definition sample_throttle :: Result where
  "sample_throttle = zero_result\<lparr>rs_outcome := OutcomeThrottled\<rparr>"

theorem throttled_keeps_place_witness:
  "\<exists>r' \<in> set (q_searches (ws_db (snd (runSearchLease (sample_job False sample_throttle) sample_job_lease sample_worker)))).
     search_row_key r' = (1, ''en'') \<and> sr_queue_order_ns r' = hour \<and> sr_lease_owner r' = None"
proof -
  obtain r where r: "r \<in> set (q_searches sample_claimed)" "search_row_key r = (1, ''en'')" "sr_lease_owner r = Some ''job''"
    "\<not> sr_rerun_requested r" "sr_media_id r = 1" "sr_queue_order_ns r = hour" by (rule sample_claimed_row)
  have res: "rs_outcome sample_throttle = OutcomeThrottled" "rs_resume_providers sample_throttle = []"
    by (simp_all add: sample_throttle_def zero_result_def)
  obtain s' where run: "runSearchLease (sample_job False sample_throttle) sample_job_lease sample_worker = (Ok (), s')"
    using sample_throttled [OF res] by blast
  have q: "jv_others (sample_job False sample_throttle) (ws_db sample_worker) = sample_claimed" by simp
  have m: "find_media sample_claimed (sr_media_id r) = Some sample_media" using sample_found r(5) by simp
  from throttled_keeps_place [OF run q sample_clock(2,1) _ sample_media_facts(2) _ res(1) r(1) _ m sample_media_facts(1)] run r(2,3,6)
  show ?thesis by fastforce
qed

end
