(* ===== verification/Worker_Loop.thy ===== *)
theory Worker_Loop
  imports Worker_Jobs
begin

text \<open>
  The daemon of \<open>src/internal/worker/worker.go\<close>: the settings \<open>prepare\<close> completes, the dispatch of search jobs, and the
  loop of \<open>Run\<close> with its shutdown \<open>drainDaemon\<close>. The loop is a step relation: one step is one case of the \<open>select\<close>
  statement, or the end of the context, which the environment chooses. A started job is counted; what it does is
  \<open>Worker_Jobs\<close>. \<open>RunOnce\<close> runs one pass of the same operations and is left out.
\<close>

section \<open>Settings\<close>

definition maximumWorkflows :: int where "maximumWorkflows = 8"

record settings =
  wk_poll_interval :: duration
  wk_lease_duration :: duration
  wk_renew_interval :: duration
  wk_shutdown_timeout :: duration
  wk_reconcile_interval :: duration
  wk_search_batch :: int
  wk_max_workflows :: int
  wk_notification_batch :: int

text \<open>A setting that is not positive takes its default.\<close>

definition or_default :: "int \<Rightarrow> int \<Rightarrow> int" where
  "or_default d n = (if n \<le> 0 then d else n)"

definition prepare :: "settings \<Rightarrow> (string, settings) result" where
  "prepare w =
     (let lease = or_default (5 * minute) (wk_lease_duration w); renew = or_default minute (wk_renew_interval w)
      in if renew \<ge> lease then Err ''worker renewal interval must be shorter than lease duration''
         else Ok \<lparr>wk_poll_interval = or_default (30 * second) (wk_poll_interval w), wk_lease_duration = lease,
                wk_renew_interval = renew, wk_shutdown_timeout = or_default (30 * second) (wk_shutdown_timeout w),
                wk_reconcile_interval = or_default (6 * hour) (wk_reconcile_interval w),
                wk_search_batch = min (or_default 10 (wk_search_batch w)) 10,
                wk_max_workflows = min (or_default 1 (wk_max_workflows w)) maximumWorkflows,
                wk_notification_batch = min (or_default 10 (wk_notification_batch w)) 10\<rparr>)"

definition pollDelay :: "bool \<Rightarrow> settings \<Rightarrow> rat \<Rightarrow> duration" where
  "pollDelay fused w drawn =
     (let unit' = (if drawn < 0 then 0 else if drawn > 1 then 1 else drawn)
      in trunc_int (rnd (rnd (of_int (wk_poll_interval w)) * mul_add fused (rnd (1 / 5)) unit' (rnd (9 / 10)))))"

definition prepared :: "settings \<Rightarrow> bool" where
  "prepared w \<longleftrightarrow> 0 < wk_poll_interval w \<and> 0 < wk_renew_interval w \<and> wk_renew_interval w < wk_lease_duration w
     \<and> 0 < wk_shutdown_timeout w \<and> 0 < wk_reconcile_interval w \<and> wk_search_batch w \<in> {1..10}
     \<and> wk_max_workflows w \<in> {1..8} \<and> wk_notification_batch w \<in> {1..10}"

lemma or_default_pos: "0 < d \<Longrightarrow> 0 < or_default d n" "0 < n \<Longrightarrow> or_default d n = n"
  by (simp_all add: or_default_def)

lemma prepare_prepared:
  assumes "prepare w = Ok w'"
  shows "prepared w'"
proof -
  have batch: "1 \<le> or_default d n" if "0 < d" for d n using or_default_pos(1) [OF that, of n] by simp
  from assms show ?thesis
    by (auto simp: prepare_def prepared_def Let_def maximumWorkflows_def batch or_default_pos(1) not_le split: if_split_asm)
qed

lemma prepare_again: "prepared w \<Longrightarrow> prepare w = Ok w"
  by (simp add: prepare_def prepared_def or_default_pos(2) Let_def maximumWorkflows_def)

section \<open>Paused routes\<close>

text \<open>
  \<open>pausedRouteKeys\<close> (\<open>route_gate.go\<close>): the routes to leave out of the next lease, and the pauses to remember. A pause
  is reported when it is new or its reset changed, a resumption when its route is no longer paused.
\<close>

record RoutePause =
  rt_key :: RouteKey
  rt_reset_at :: gotime
  rt_provider_count :: int

definition reported_pauses :: "(RouteKey \<rightharpoonup> RoutePause) \<Rightarrow> RoutePause list \<Rightarrow> RoutePause list" where
  "reported_pauses known pauses =
     filter (\<lambda>p. case known (rt_key p) of None \<Rightarrow> True | Some previous \<Rightarrow> rt_reset_at previous \<noteq> rt_reset_at p) pauses"

definition pausedRouteKeys ::
  "(string, RoutePause list) result \<Rightarrow> (RouteKey \<rightharpoonup> RoutePause)
   \<Rightarrow> (string, RouteKey list \<times> RoutePause list) result \<times> (RouteKey \<rightharpoonup> RoutePause)" where
  "pausedRouteKeys gate known =
     (case gate of
        Err e \<Rightarrow> (Err e, known)
      | Ok pauses \<Rightarrow> (Ok (map rt_key pauses, reported_pauses known pauses),
                     map_of (rev (map (\<lambda>p. (rt_key p, p)) pauses))))"

section \<open>Dispatch\<close>

text \<open>
  What one dispatch meets: whether the context had ended, the media breaker's clock, the routes that are paused or the
  error of asking, the clock and the fresh job ids of the lease call, and how many of the leased jobs are started
  before the context ends, all unless it does.
\<close>

record dispatch_env =
  dv_ended :: bool
  dv_breaker_now :: gotime
  dv_routes :: "(string, RoutePause list) result"
  dv_now :: gotime
  dv_fresh :: "nat \<Rightarrow> string"
  dv_started :: "nat option"

datatype daemon_phase = Running | Draining | Abandoning | Returned

record daemon =
  dm_db :: queue_db
  dm_breaker :: breaker
  dm_active :: int
  dm_maintenance :: bool
  dm_ended :: bool
  dm_paused_routes :: "RouteKey \<rightharpoonup> RoutePause"
  dm_phase :: daemon_phase

definition dispatch :: "repository \<Rightarrow> settings \<Rightarrow> dispatch_env \<Rightarrow> daemon \<Rightarrow> daemon" where
  "dispatch rp w D d =
     (let available = wk_max_workflows w - dm_active d
      in if dm_ended d then d
         else if available \<le> 0 \<or> mediaPaused (dv_breaker_now D) (dm_breaker d) then d
         else case pausedRouteKeys (dv_routes D) (dm_paused_routes d) of
                (Err e, known) \<Rightarrow> d
              | (Ok (routes, _), known) \<Rightarrow>
                  (case LeaseDueSearchesExcept rp (dv_fresh D) (dv_now D) available (wk_lease_duration w) routes (dm_db d) of
                     Err e \<Rightarrow> d\<lparr>dm_paused_routes := known\<rparr>
                   | Ok (leases, q) \<Rightarrow>
                       d\<lparr>dm_paused_routes := known, dm_db := q,
                         dm_active := dm_active d + int (length (case dv_started D of None \<Rightarrow> leases | Some n \<Rightarrow> take n leases))\<rparr>))"

definition startMaintenance :: "daemon \<Rightarrow> daemon" where
  "startMaintenance d = (if dm_ended d \<or> dm_maintenance d then d else d\<lparr>dm_maintenance := True\<rparr>)"

text \<open>
  What the daemon's jobs and everyone else do meanwhile to the queue and the breaker is the environment's. \<open>dm_active\<close>
  is the loop's \<open>active\<close>, the search jobs that have not ended: the goroutine of a stuck workflow goes on after
  the job that abandoned it has ended, and is not counted.
\<close>

inductive daemon_step :: "repository \<Rightarrow> settings \<Rightarrow> daemon \<Rightarrow> daemon \<Rightarrow> bool" for rp w where
  search_done: "\<lbrakk>dm_phase d = Running; 0 < dm_active d\<rbrakk>
     \<Longrightarrow> daemon_step rp w d (dispatch rp w D (d\<lparr>dm_active := dm_active d - 1\<rparr>))"
| maintenance_done: "\<lbrakk>dm_phase d = Running; dm_maintenance d\<rbrakk> \<Longrightarrow> daemon_step rp w d (d\<lparr>dm_maintenance := False\<rparr>)"
| woken: "dm_phase d = Running \<Longrightarrow> daemon_step rp w d (dispatch rp w D d)"
| timer: "dm_phase d = Running \<Longrightarrow> daemon_step rp w d (startMaintenance (dispatch rp w D d))"
| context_ends: "daemon_step rp w d (d\<lparr>dm_ended := True\<rparr>)"
| others: "daemon_step rp w d (d\<lparr>dm_db := q, dm_breaker := b\<rparr>)"
| drain: "\<lbrakk>dm_phase d = Running; dm_ended d\<rbrakk> \<Longrightarrow> daemon_step rp w d (d\<lparr>dm_phase := Draining\<rparr>)"
| drained_search: "\<lbrakk>dm_phase d \<in> {Draining, Abandoning}; 0 < dm_active d\<rbrakk> \<Longrightarrow> daemon_step rp w d (d\<lparr>dm_active := dm_active d - 1\<rparr>)"
| drained_maintenance: "\<lbrakk>dm_phase d \<in> {Draining, Abandoning}; dm_maintenance d\<rbrakk> \<Longrightarrow> daemon_step rp w d (d\<lparr>dm_maintenance := False\<rparr>)"
| graceful_timeout: "\<lbrakk>dm_phase d = Draining; 0 < dm_active d \<or> dm_maintenance d\<rbrakk> \<Longrightarrow> daemon_step rp w d (d\<lparr>dm_phase := Abandoning\<rparr>)"
| hard_timeout: "\<lbrakk>dm_phase d = Abandoning; 0 < dm_active d \<or> dm_maintenance d\<rbrakk> \<Longrightarrow> daemon_step rp w d (d\<lparr>dm_phase := Returned\<rparr>)"
| drained: "\<lbrakk>dm_phase d \<in> {Draining, Abandoning}; dm_active d = 0; \<not> dm_maintenance d\<rbrakk> \<Longrightarrow> daemon_step rp w d (d\<lparr>dm_phase := Returned\<rparr>)"

text \<open>\<open>Run\<close> prepares the worker, dispatches once and starts the maintenance before it enters the loop.\<close>

definition daemon_start :: "repository \<Rightarrow> settings \<Rightarrow> dispatch_env \<Rightarrow> queue_db \<Rightarrow> daemon" where
  "daemon_start rp w D q =
     startMaintenance (dispatch rp w D
       \<lparr>dm_db = q, dm_breaker = closed_breaker, dm_active = 0, dm_maintenance = False, dm_ended = False,
        dm_paused_routes = Map.empty, dm_phase = Running\<rparr>)"

inductive daemon_reach :: "repository \<Rightarrow> settings \<Rightarrow> daemon \<Rightarrow> bool" for rp w where
  started: "daemon_reach rp w (daemon_start rp w D q)"
| stepped: "\<lbrakk>daemon_reach rp w d; daemon_step rp w d d'\<rbrakk> \<Longrightarrow> daemon_reach rp w d'"

inductive_cases daemon_stepE: "daemon_step rp w d d'"

section \<open>The workload is bounded\<close>

lemma claim_leases: "length (fst (fold (claim_due fresh now until) items acc)) \<le> length (fst acc) + length items"
proof (induction items arbitrary: acc)
  case (Cons item items)
  have "length (fst (claim_due fresh now until item acc)) \<le> Suc (length (fst acc))"
    by (cases item; cases acc) (simp add: claim_due_def Let_def)
  with Cons.IH [of "claim_due fresh now until item acc"] show ?case by simp
qed simp

lemma lease_limit:
  assumes "LeaseDueSearchesExcept rp fresh now n dur routes q = Ok (leases, q')" and "0 \<le> n"
  shows "int (length leases) \<le> n"
proof (cases "leases = []")
  case False
  with assms(1) have "leases = fst (fold (claim_due fresh now (now + dur)) (List.enumerate 0 (due_items rp q now n routes)) ([], q_searches q))"
    by (auto simp: LeaseDueSearchesExcept_def split: if_split_asm prod.split_asm)
  then have "length leases \<le> length (due_items rp q now n routes)"
    using claim_leases [of fresh now "now + dur" "List.enumerate 0 (due_items rp q now n routes)" "([], q_searches q)"] by simp
  also have "\<dots> \<le> nat n" by (simp add: due_items_def)
  finally show ?thesis using assms(2) by linarith
qed (simp add: assms(2))

lemma dispatch_frame [simp]:
  "dm_maintenance (dispatch rp w D d) = dm_maintenance d" "dm_ended (dispatch rp w D d) = dm_ended d"
  "dm_phase (dispatch rp w D d) = dm_phase d" "dm_breaker (dispatch rp w D d) = dm_breaker d"
  by (simp_all add: dispatch_def Let_def split: sum.split prod.split)

lemma dispatch_active:
  "dm_active d \<le> dm_active (dispatch rp w D d)"
  "dm_active d \<le> wk_max_workflows w \<Longrightarrow> dm_active (dispatch rp w D d) \<le> wk_max_workflows w"
  "dm_ended d \<Longrightarrow> dispatch rp w D d = d"
proof -
  have len: "int (length (case dv_started D of None \<Rightarrow> leases | Some n \<Rightarrow> take n leases)) \<le> wk_max_workflows w - dm_active d"
    if "LeaseDueSearchesExcept rp (dv_fresh D) (dv_now D) (wk_max_workflows w - dm_active d) (wk_lease_duration w) routes (dm_db d) = Ok (leases, q)"
      "\<not> wk_max_workflows w - dm_active d \<le> 0" for leases q routes
    using lease_limit [OF that(1)] that(2) by (auto split: option.split)
  show "dm_active d \<le> dm_active (dispatch rp w D d)"
    by (auto simp: dispatch_def Let_def split: sum.split prod.split)
  show "dm_active d \<le> wk_max_workflows w \<Longrightarrow> dm_active (dispatch rp w D d) \<le> wk_max_workflows w"
    using len by (force simp: dispatch_def Let_def split: sum.split prod.split)
  show "dm_ended d \<Longrightarrow> dispatch rp w D d = d" by (simp add: dispatch_def)
qed

lemma maintenance_frame [simp]: "dm_active (startMaintenance d) = dm_active d" "dm_phase (startMaintenance d) = dm_phase d"
  "dm_ended (startMaintenance d) = dm_ended d"
  by (simp_all add: startMaintenance_def)

lemma daemon_active:
  assumes "daemon_reach rp w d" and "0 \<le> wk_max_workflows w"
  shows "0 \<le> dm_active d \<and> dm_active d \<le> wk_max_workflows w"
  using assms(1)
proof induction
  case (started D q)
  with assms(2) dispatch_active(1,2) [where w = w and rp = rp and D = D and d = "\<lparr>dm_db = q, dm_breaker = closed_breaker, dm_active = 0,
      dm_maintenance = False, dm_ended = False, dm_paused_routes = Map.empty, dm_phase = Running\<rparr>"]
  show ?case by (simp add: daemon_start_def)
next
  case (stepped d d')
  from stepped.hyps(2) show ?case
  proof cases
    case (search_done D)
    with stepped.IH show ?thesis
      using dispatch_active(1,2) [where w = w and rp = rp and D = D and d = "d\<lparr>dm_active := dm_active d - 1\<rparr>"] by simp
  next
    case (woken D)
    with stepped.IH show ?thesis using dispatch_active(1,2) [where w = w and rp = rp and D = D and d = d] by simp
  next
    case (timer D)
    with stepped.IH show ?thesis using dispatch_active(1,2) [where w = w and rp = rp and D = D and d = d] by simp
  qed (use stepped.IH in simp_all)
qed

text \<open>The phases after the end of the context.\<close>

lemma ended_phase:
  assumes "daemon_reach rp w d"
  shows "dm_phase d \<noteq> Running \<longrightarrow> dm_ended d"
  using assms
proof induction
  case (started D q)
  then show ?case by (simp add: daemon_start_def)
next
  case (stepped d d')
  from stepped.hyps(2) stepped.IH show ?case by cases auto
qed

text \<open>What is left of the shutdown: work that has not come back and timers that have not fired.\<close>

fun timers_left :: "daemon_phase \<Rightarrow> int" where
  "timers_left Running = 3"
| "timers_left Draining = 2"
| "timers_left Abandoning = 1"
| "timers_left Returned = 0"

definition shutdown_left :: "daemon \<Rightarrow> int" where
  "shutdown_left d = dm_active d + (if dm_maintenance d then 1 else 0) + timers_left (dm_phase d)"

lemma shutdown_step:
  assumes "daemon_step rp w d d'" and "dm_phase d \<in> {Draining, Abandoning}"
  shows "shutdown_left d' < shutdown_left d
    \<or> dm_active d' = dm_active d \<and> dm_maintenance d' = dm_maintenance d \<and> dm_phase d' = dm_phase d"
  using assms by cases (auto simp: shutdown_left_def)

section \<open>Properties\<close>

definition sample_settings :: settings where
  "sample_settings = \<lparr>wk_poll_interval = 30 * second, wk_lease_duration = 5 * minute, wk_renew_interval = minute,
     wk_shutdown_timeout = 30 * second, wk_reconcile_interval = 6 * hour, wk_search_batch = 10, wk_max_workflows = 4,
     wk_notification_batch = 10\<rparr>"

definition sample_dispatch :: dispatch_env where
  "sample_dispatch = \<lparr>dv_ended = False, dv_breaker_now = unix_epoch, dv_routes = Ok [], dv_now = unix_epoch, dv_fresh = (\<lambda>_. ''job''),
     dv_started = None\<rparr>"

definition idle_queue :: queue_db where
  "idle_queue = \<lparr>q_instances = [], q_media = [], q_searches = [], q_history = [], q_rejections = []\<rparr>"

abbreviation idle_repository :: repository where
  "idle_repository \<equiv> \<lparr>rp_scope = None, rp_routes = None, rp_digest = id\<rparr>"

abbreviation idle_daemon :: daemon where
  "idle_daemon \<equiv> daemon_start idle_repository sample_settings sample_dispatch idle_queue"

lemma sample_settings_prepared: "prepared sample_settings"
  by (simp add: prepared_def sample_settings_def)

lemma idle_daemon_facts: "dm_active idle_daemon = 0" "dm_maintenance idle_daemon" "dm_phase idle_daemon = Running"
  by (simp_all add: daemon_start_def startMaintenance_def dispatch_def sample_settings_def mediaPaused_def closed_breaker_def
      sample_dispatch_def unix_epoch_def pausedRouteKeys_def LeaseDueSearchesExcept_def due_items_def idle_queue_def)

text \<open>C20: the daemon never runs more search jobs at a time than configured, and never more than eight. Whatever is due,
  woken, finished or changed by others, every state the prepared daemon reaches counts between zero and its maximum of
  running jobs, and once its context has ended no step starts another. A job that abandoned its stuck workflow has
  ended and given up its place; the goroutine of that workflow is not a job and is not counted.\<close>

theorem daemon_workload_bounded:
  assumes "prepare w0 = Ok w" "daemon_reach rp w d"
  shows "0 \<le> dm_active d \<and> dm_active d \<le> wk_max_workflows w \<and> wk_max_workflows w \<le> 8
    \<and> (\<forall>d'. dm_ended d \<and> daemon_step rp w d d' \<longrightarrow> dm_active d' \<le> dm_active d \<and> dm_ended d')"
proof -
  have w: "0 \<le> wk_max_workflows w" "wk_max_workflows w \<le> 8"
    using prepare_prepared [OF assms(1)] by (auto simp: prepared_def)
  have "dm_active d' \<le> dm_active d \<and> dm_ended d'" if "dm_ended d" "daemon_step rp w d d'" for d'
    using that(2,1) by cases (auto simp: dispatch_active(3))
  with daemon_active [OF assms(2) w(1)] w(2) show ?thesis by blast
qed

theorem daemon_workload_bounded_witness:
  "daemon_reach idle_repository sample_settings idle_daemon \<and> dm_active idle_daemon = 0 \<and> wk_max_workflows sample_settings = 4"
proof -
  have reach: "daemon_reach idle_repository sample_settings idle_daemon" by (rule started)
  from daemon_workload_bounded [OF prepare_again [OF sample_settings_prepared] reach] idle_daemon_facts(1) reach
  show ?thesis by (simp add: sample_settings_def)
qed

lemma shutdown_facts:
  assumes "dm_phase d \<in> {Draining, Abandoning}" "daemon_reach rp w d" "0 \<le> wk_max_workflows w"
  shows "0 < shutdown_left d"
    "\<exists>d'. daemon_step rp w d d' \<and> shutdown_left d' < shutdown_left d"
    "\<forall>d'. daemon_step rp w d d' \<longrightarrow> shutdown_left d' < shutdown_left d
      \<or> dm_active d' = dm_active d \<and> dm_maintenance d' = dm_maintenance d \<and> dm_phase d' = dm_phase d"
    "\<exists>d1 d2. (daemon_step rp w)\<^sup>=\<^sup>= d d1 \<and> daemon_step rp w d1 d2 \<and> dm_phase d2 = Returned"
    "\<forall>d'. daemon_step rp w d d' \<and> dm_phase d = Draining \<and> dm_phase d' = Returned \<longrightarrow> dm_active d = 0 \<and> \<not> dm_maintenance d"
proof -
  have n: "0 \<le> dm_active d" using daemon_active [OF assms(2,3)] by blast
  then show "0 < shutdown_left d" using assms(1) by (auto simp: shutdown_left_def)
  show "\<exists>d'. daemon_step rp w d d' \<and> shutdown_left d' < shutdown_left d"
  proof (cases "0 < dm_active d")
    case True
    with daemon_step.drained_search [OF assms(1) True, of rp w] show ?thesis by (auto simp: shutdown_left_def)
  next
    case False
    with n daemon_step.drained_maintenance [OF assms(1), of rp w] daemon_step.drained [OF assms(1), of rp w] assms(1)
    show ?thesis by (cases "dm_maintenance d") (fastforce simp: shutdown_left_def)+
  qed
  show "\<exists>d1 d2. (daemon_step rp w)\<^sup>=\<^sup>= d d1 \<and> daemon_step rp w d1 d2 \<and> dm_phase d2 = Returned"
  proof (cases "0 < dm_active d \<or> dm_maintenance d")
    case True
    have hard: "daemon_step rp w d1 (d1\<lparr>dm_phase := Returned\<rparr>)" if "dm_phase d1 = Abandoning" "0 < dm_active d1 \<or> dm_maintenance d1" for d1
      using that by (rule daemon_step.hard_timeout)
    show ?thesis
    proof (cases "dm_phase d = Draining")
      case draining: True
      from daemon_step.graceful_timeout [OF draining True, of rp w] hard [of "d\<lparr>dm_phase := Abandoning\<rparr>"] True
      show ?thesis by fastforce
    next
      case False
      with assms(1) hard [of d] True show ?thesis by fastforce
    qed
  next
    case False
    with n have "daemon_step rp w d (d\<lparr>dm_phase := Returned\<rparr>)" by (intro daemon_step.drained assms(1)) auto
    then show ?thesis by fastforce
  qed
  show "\<forall>d'. daemon_step rp w d d' \<and> dm_phase d = Draining \<and> dm_phase d' = Returned \<longrightarrow> dm_active d = 0 \<and> \<not> dm_maintenance d"
  proof (intro allI impI)
    fix d' assume "daemon_step rp w d d' \<and> dm_phase d = Draining \<and> dm_phase d' = Returned"
    then have "daemon_step rp w d d'" "dm_phase d = Draining" "dm_phase d' = Returned" by auto
    then show "dm_active d = 0 \<and> \<not> dm_maintenance d" by cases auto
  qed
qed (use shutdown_step [OF _ assms(1)] in blast)

text \<open>C21: the shutdown ends. Every step of a daemon that drains brings it closer to its end or is a change by others; as
  long as it has not returned a step closer is there, with two firings of the shutdown timer it returns even if no job
  ever comes back, and without a timeout it returns only when every job and the maintenance came back.\<close>

theorem daemon_shutdown_ends:
  assumes "dm_phase d \<in> {Draining, Abandoning}" "daemon_reach rp w d" "0 \<le> wk_max_workflows w"
  shows "0 < shutdown_left d \<and> (\<exists>d'. daemon_step rp w d d' \<and> shutdown_left d' < shutdown_left d)
    \<and> (\<forall>d'. daemon_step rp w d d' \<longrightarrow> shutdown_left d' < shutdown_left d
         \<or> dm_active d' = dm_active d \<and> dm_maintenance d' = dm_maintenance d \<and> dm_phase d' = dm_phase d)
    \<and> (\<exists>d1 d2. (daemon_step rp w)\<^sup>=\<^sup>= d d1 \<and> daemon_step rp w d1 d2 \<and> dm_phase d2 = Returned)
    \<and> (\<forall>d'. daemon_step rp w d d' \<and> dm_phase d = Draining \<and> dm_phase d' = Returned \<longrightarrow> dm_active d = 0 \<and> \<not> dm_maintenance d)"
  using shutdown_facts [OF assms] by blast

theorem daemon_shutdown_ends_witness:
  "\<exists>d d1 d2. dm_phase d = Draining \<and> dm_maintenance d \<and> (daemon_step idle_repository sample_settings)\<^sup>=\<^sup>= d d1
     \<and> daemon_step idle_repository sample_settings d1 d2 \<and> dm_phase d2 = Returned"
proof -
  let ?d = "idle_daemon\<lparr>dm_ended := True, dm_phase := Draining\<rparr>"
  have "daemon_reach idle_repository sample_settings ?d"
    using stepped [OF stepped [OF started context_ends] drain, of idle_repository sample_settings sample_dispatch idle_queue]
      idle_daemon_facts(3) by simp
  moreover have "0 \<le> wk_max_workflows sample_settings" by (simp add: sample_settings_def)
  moreover have "dm_phase ?d = Draining" "dm_maintenance ?d" using idle_daemon_facts(2) by simp_all
  ultimately show ?thesis using daemon_shutdown_ends [of ?d] by blast
qed

end
