(* ===== verification/Worker_Reconcile.thy ===== *)
theory Worker_Reconcile
  imports Prelude "HOL-Library.Char_ord" "HOL-Library.List_Lexorder" "HOL-Library.Product_Lexorder"
begin

text \<open>
  Scheduled reconciliation of \<open>src/internal/worker/worker.go\<close>: \<open>reconcileDueContexts\<close>, the release of pending
  discoveries at startup and the timing rows of \<open>src/internal/store/reconcile_timing.go\<close> that carry the schedule over a
  restart. What an instance's reconciler returns is the environment's, as are the clock, a failed read or save of the rows and the end of
  the dispatch context. The lock that skips a tick while a scan runs is taken by whoever calls.
\<close>

section \<open>Timing\<close>

record reconcile_attempt =
  ra_last_attempt :: gotime
  ra_failures :: int
  ra_deferred :: bool

definition zero_attempt :: reconcile_attempt where
  "zero_attempt = \<lparr>ra_last_attempt = 0, ra_failures = 0, ra_deferred = False\<rparr>"

record timing_row =
  ti_name :: string
  ti_attempted_at_ns :: int
  ti_failures :: int
  ti_deferred :: bool

definition row_timing :: "timing_row \<Rightarrow> reconcile_attempt" where
  "row_timing r = \<lparr>ra_last_attempt = from_unix (ti_attempted_at_ns r), ra_failures = ti_failures r, ra_deferred = ti_deferred r\<rparr>"

definition ReconcileTimings :: "timing_row list \<Rightarrow> string \<rightharpoonup> reconcile_attempt" where
  "ReconcileTimings rows = map_of (map (\<lambda>r. (ti_name r, row_timing r)) (filter (\<lambda>r. ti_attempted_at_ns r > 0) rows))"

definition RecordReconcileTiming :: "string \<Rightarrow> reconcile_attempt \<Rightarrow> timing_row list \<Rightarrow> timing_row list" where
  "RecordReconcileTiming name a rows = sql_update (\<lambda>r. ti_name r = name)
     (\<lambda>r. r\<lparr>ti_attempted_at_ns := unix_nano (ra_last_attempt a), ti_failures := ra_failures a, ti_deferred := ra_deferred a\<rparr>) rows"

section \<open>One pass\<close>

definition reconcileFailureDelays :: "duration list" where
  "reconcileFailureDelays = [5 * minute, 15 * minute, hour, 6 * hour]"

definition reconcileDeferredDelay :: duration where "reconcileDeferredDelay = hour"

datatype reconcile_outcome = Reconciled | HistoryDeferred | ReconcileFailed

text \<open>
  \<open>rv_pending\<close> is \<open>None\<close> for a reconciler that does not report pending discoveries and for one that failed to;
  \<open>rv_names\<close> lists the reconcilers; \<open>rv_ended\<close> counts the instances looked at before the dispatch context ends.
\<close>

record reconcile_env =
  rv_names :: "string list"
  rv_priority :: "string \<Rightarrow> int"
  rv_interval :: duration
  rv_now :: gotime
  rv_run :: "string \<Rightarrow> reconcile_outcome"
  rv_pending :: "string \<Rightarrow> bool option"
  rv_stores_timing :: bool
  rv_loads :: bool
  rv_saves :: "string \<Rightarrow> bool"
  rv_ended :: "nat option"

record reconcile_state =
  rc_attempts :: "(string \<rightharpoonup> reconcile_attempt) option"
  rc_rows :: "timing_row list"
  rc_ran :: "string list"

definition attempt_of :: "(string \<rightharpoonup> reconcile_attempt) \<Rightarrow> string \<Rightarrow> reconcile_attempt" where
  "attempt_of attempts name = (case attempts name of None \<Rightarrow> zero_attempt | Some a \<Rightarrow> a)"

definition reconcile_delay :: "duration \<Rightarrow> reconcile_attempt \<Rightarrow> duration" where
  "reconcile_delay interval a =
     (if ra_failures a > 0 then
        (let index = ra_failures a - 1
         in delay_nth (if index \<ge> int (length reconcileFailureDelays) then int (length reconcileFailureDelays) - 1 else index)
              reconcileFailureDelays)
      else if ra_deferred a then min interval reconcileDeferredDelay else interval)"

definition reconcile_due :: "reconcile_env \<Rightarrow> reconcile_attempt \<Rightarrow> bool" where
  "reconcile_due E a \<longleftrightarrow> is_zero_time (ra_last_attempt a) \<or> \<not> rv_now E < ra_last_attempt a + reconcile_delay (rv_interval E) a"

definition next_attempt :: "gotime \<Rightarrow> reconcile_outcome \<Rightarrow> reconcile_attempt \<Rightarrow> reconcile_attempt" where
  "next_attempt now out a =
     (case out of
        HistoryDeferred \<Rightarrow> \<lparr>ra_last_attempt = now, ra_failures = 0, ra_deferred = True\<rparr>
      | ReconcileFailed \<Rightarrow>
          a\<lparr>ra_last_attempt := now, ra_deferred := False,
            ra_failures := (if ra_failures a < int (length reconcileFailureDelays) then ra_failures a + 1 else ra_failures a)\<rparr>
      | Reconciled \<Rightarrow> \<lparr>ra_last_attempt = now, ra_failures = 0, ra_deferred = False\<rparr>)"

definition setReconcileAttempt :: "reconcile_env \<Rightarrow> string \<Rightarrow> reconcile_attempt \<Rightarrow> reconcile_state \<Rightarrow> reconcile_state" where
  "setReconcileAttempt E name a s =
     s\<lparr>rc_attempts := Some ((case rc_attempts s of None \<Rightarrow> Map.empty | Some m \<Rightarrow> m)(name \<mapsto> a)),
       rc_rows := (if rv_stores_timing E \<and> rv_saves E name then RecordReconcileTiming name a (rc_rows s) else rc_rows s)\<rparr>"

definition reconcile_one :: "reconcile_env \<Rightarrow> string \<Rightarrow> reconcile_state \<Rightarrow> reconcile_state" where
  "reconcile_one E name s =
     (let a = attempt_of (the (rc_attempts s)) name
      in if \<not> reconcile_due E a then s
         else (setReconcileAttempt E name (next_attempt (rv_now E) (rv_run E name) a) s)\<lparr>rc_ran := rc_ran s @ [name]\<rparr>)"

text \<open>At startup: an instance that last succeeded and whose discovery is pending again is due at once.\<close>

definition releasePendingDiscoveries :: "reconcile_env \<Rightarrow> (string \<rightharpoonup> reconcile_attempt) \<Rightarrow> string \<rightharpoonup> reconcile_attempt" where
  "releasePendingDiscoveries E attempts = (\<lambda>name.
     case attempts name of
       None \<Rightarrow> None
     | Some a \<Rightarrow>
         if is_zero_time (ra_last_attempt a) \<or> ra_failures a > 0 \<or> ra_deferred a then Some a
         else if name \<in> set (rv_names E) \<and> rv_pending E name = Some True then None else Some a)"

definition load_attempts :: "reconcile_env \<Rightarrow> reconcile_state \<Rightarrow> reconcile_state" where
  "load_attempts E s =
     (case rc_attempts s of
        Some _ \<Rightarrow> s
      | None \<Rightarrow> s\<lparr>rc_attempts := Some (releasePendingDiscoveries E
                       (if rv_stores_timing E then ReconcileTimings (rc_rows s) else Map.empty))\<rparr>)"

definition reconcile_order :: "reconcile_env \<Rightarrow> string list" where
  "reconcile_order E = sort_key (\<lambda>name. (- rv_priority E name, name)) (rv_names E)"

definition reconcileDue :: "reconcile_env \<Rightarrow> reconcile_state \<Rightarrow> reconcile_state" where
  "reconcileDue E s =
     (if rc_attempts s = None \<and> rv_stores_timing E \<and> \<not> rv_loads E then s
      else fold (reconcile_one E) (case rv_ended E of None \<Rightarrow> reconcile_order E | Some n \<Rightarrow> take n (reconcile_order E)) (load_attempts E s))"

section \<open>What a pass does\<close>

lemma set_attempt_simps:
  "rc_attempts (setReconcileAttempt E name a s) = Some ((case rc_attempts s of None \<Rightarrow> Map.empty | Some m \<Rightarrow> m)(name \<mapsto> a))"
  "rc_ran (setReconcileAttempt E name a s) = rc_ran s"
  by (simp_all add: setReconcileAttempt_def)

lemma reconcile_fold:
  assumes "distinct names" and "rc_attempts s = Some m"
  shows "rc_ran (fold (reconcile_one E) names s) = rc_ran s @ filter (\<lambda>n. reconcile_due E (attempt_of m n)) names
    \<and> (\<exists>m'. rc_attempts (fold (reconcile_one E) names s) = Some m' \<and> (\<forall>n. m' n =
        (if n \<in> set names \<and> reconcile_due E (attempt_of m n) then Some (next_attempt (rv_now E) (rv_run E n) (attempt_of m n)) else m n)))"
  using assms
proof (induction names arbitrary: s m)
  case (Cons x names)
  define s1 where "s1 = reconcile_one E x s"
  obtain m1 where m1: "rc_attempts s1 = Some m1"
    "m1 = (if reconcile_due E (attempt_of m x) then m(x \<mapsto> next_attempt (rv_now E) (rv_run E x) (attempt_of m x)) else m)"
    "rc_ran s1 = rc_ran s @ (if reconcile_due E (attempt_of m x) then [x] else [])"
    using Cons.prems(2) by (auto simp: s1_def reconcile_one_def Let_def set_attempt_simps)
  have same: "attempt_of m1 n = attempt_of m n" if "n \<noteq> x" for n using that by (simp add: m1(2) attempt_of_def)
  have "x \<notin> set names" "distinct names" using Cons.prems(1) by simp_all
  from Cons.IH [OF this(2) m1(1)] obtain m' where
    ran: "rc_ran (fold (reconcile_one E) names s1) = rc_ran s1 @ filter (\<lambda>n. reconcile_due E (attempt_of m1 n)) names"
    and m': "rc_attempts (fold (reconcile_one E) names s1) = Some m'"
      "\<And>n. m' n = (if n \<in> set names \<and> reconcile_due E (attempt_of m1 n) then Some (next_attempt (rv_now E) (rv_run E n) (attempt_of m1 n)) else m1 n)"
    by blast
  have "filter (\<lambda>n. reconcile_due E (attempt_of m1 n)) names = filter (\<lambda>n. reconcile_due E (attempt_of m n)) names"
    using \<open>x \<notin> set names\<close> same by (intro filter_cong refl) metis
  moreover have "m' n = (if n \<in> set (x # names) \<and> reconcile_due E (attempt_of m n)
      then Some (next_attempt (rv_now E) (rv_run E n) (attempt_of m n)) else m n)" for n
    using m'(2) [of n] same [of n] \<open>x \<notin> set names\<close> by (cases "n = x") (auto simp: m1(2))
  ultimately show ?case using ran m'(1) m1(3) by (auto simp: s1_def)
qed auto

text \<open>What the timing table holds is what is in memory, for every instance that has a row.\<close>

definition timing_synced :: "(string \<rightharpoonup> reconcile_attempt) \<Rightarrow> timing_row list \<Rightarrow> bool" where
  "timing_synced m rows \<longleftrightarrow> distinct (map ti_name rows) \<and> (\<forall>r \<in> set rows. \<forall>a. m (ti_name r) = Some a \<longrightarrow>
     ti_attempted_at_ns r = unix_nano (ra_last_attempt a) \<and> ti_failures r = ra_failures a \<and> ti_deferred r = ra_deferred a)"

lemma record_synced:
  "timing_synced m rows \<Longrightarrow> timing_synced (m(name \<mapsto> a)) (RecordReconcileTiming name a rows)"
  by (auto simp: timing_synced_def RecordReconcileTiming_def map_sql_update elim!: in_sql_updateE)

lemma fold_synced:
  assumes "rc_attempts s = Some m" "timing_synced m (rc_rows s)" and saves: "rv_stores_timing E" "\<forall>n. rv_saves E n"
  shows "\<exists>m'. rc_attempts (fold (reconcile_one E) names s) = Some m' \<and> timing_synced m' (rc_rows (fold (reconcile_one E) names s))
    \<and> map ti_name (rc_rows (fold (reconcile_one E) names s)) = map ti_name (rc_rows s)"
  using assms(1,2)
proof (induction names arbitrary: s m)
  case (Cons x names)
  show ?case
  proof (cases "reconcile_due E (attempt_of m x)")
    case True
    then obtain a where a: "rc_attempts (reconcile_one E x s) = Some (m(x \<mapsto> a))"
      "rc_rows (reconcile_one E x s) = RecordReconcileTiming x a (rc_rows s)"
      using Cons.prems(1) saves by (auto simp: reconcile_one_def Let_def setReconcileAttempt_def)
    have "map ti_name (RecordReconcileTiming x a (rc_rows s)) = map ti_name (rc_rows s)"
      by (simp add: RecordReconcileTiming_def map_sql_update)
    moreover have "timing_synced (m(x \<mapsto> a)) (rc_rows (reconcile_one E x s))"
      unfolding a(2) by (rule record_synced [OF Cons.prems(2)])
    note Cons.IH [OF a(1) this]
    ultimately show ?thesis using a(2) by simp
  next
    case False
    then have "reconcile_one E x s = s" using Cons.prems(1) by (simp add: reconcile_one_def Let_def)
    with Cons.IH [OF Cons.prems] show ?thesis by simp
  qed
qed auto

lemma timings_synced:
  assumes "timing_synced m rows" "r \<in> set rows" "m (ti_name r) = Some a" "unix_epoch < ra_last_attempt a"
  shows "ReconcileTimings rows (ti_name r) = Some a"
proof -
  from assms have r: "ti_attempted_at_ns r = unix_nano (ra_last_attempt a)" "ti_failures r = ra_failures a" "ti_deferred r = ra_deferred a"
    by (auto simp: timing_synced_def)
  have "distinct (map ti_name (filter (\<lambda>r. ti_attempted_at_ns r > 0) rows))"
    using assms(1) by (auto simp: timing_synced_def intro: distinct_map_filter)
  then have d: "distinct (map fst (map (\<lambda>r. (ti_name r, row_timing r)) (filter (\<lambda>r. ti_attempted_at_ns r > 0) rows)))"
    by (simp add: comp_def)
  have "row_timing r = a" using r by (simp add: row_timing_def)
  moreover have "0 < ti_attempted_at_ns r" using assms(4) r(1) by (simp add: unix_nano_def)
  ultimately show ?thesis
    unfolding ReconcileTimings_def using assms(2) by (intro map_of_is_SomeI [OF d]) force
qed

text \<open>Failures in a row, the latest last.\<close>

lemma fail_once: "ra_failures (next_attempt t ReconcileFailed a) = (if ra_failures a < 4 then ra_failures a + 1 else ra_failures a)"
  "ra_last_attempt (next_attempt t ReconcileFailed a) = t"
  by (simp_all add: next_attempt_def reconcileFailureDelays_def)

lemma failed_run:
  assumes "ra_failures a = 0" and "tries \<noteq> []"
  shows "ra_failures (fold (\<lambda>t. next_attempt t ReconcileFailed) tries a) = int (min (length tries) 4)
    \<and> ra_last_attempt (fold (\<lambda>t. next_attempt t ReconcileFailed) tries a) = last tries"
  using assms(2)
proof (induction tries rule: rev_induct)
  case (snoc t tries)
  show ?case
  proof (cases tries)
    case Nil
    with assms(1) show ?thesis by (simp add: fail_once)
  next
    case (Cons u us)
    with snoc have "ra_failures (fold (\<lambda>t. next_attempt t ReconcileFailed) tries a) = int (min (length tries) 4)" by simp
    then show ?thesis by (simp add: fail_once min_def)
  qed
qed simp

section \<open>Properties\<close>

definition sample_reconcile :: reconcile_env where
  "sample_reconcile = \<lparr>rv_names = [''radarr'', ''sonarr''], rv_priority = (\<lambda>n. if n = ''sonarr'' then 5 else 0), rv_interval = 6 * hour,
     rv_now = unix_epoch + hour, rv_run = (\<lambda>_. ReconcileFailed), rv_pending = (\<lambda>_. None), rv_stores_timing = True, rv_loads = True,
     rv_saves = (\<lambda>_. True), rv_ended = None\<rparr>"

definition sample_timing :: reconcile_state where
  "sample_timing = \<lparr>rc_attempts = Some Map.empty, rc_rows = [\<lparr>ti_name = ''sonarr'', ti_attempted_at_ns = 0, ti_failures = 0, ti_deferred = False\<rparr>],
     rc_ran = []\<rparr>"

lemma sample_pass:
  "rc_ran (reconcileDue sample_reconcile sample_timing) = [''sonarr'', ''radarr'']"
  "the (rc_attempts (reconcileDue sample_reconcile sample_timing)) ''sonarr'' =
     Some \<lparr>ra_last_attempt = unix_epoch + hour, ra_failures = 1, ra_deferred = False\<rparr>"
  by (simp_all add: reconcileDue_def load_attempts_def sample_reconcile_def sample_timing_def reconcile_order_def reconcile_one_def
      attempt_of_def zero_attempt_def reconcile_due_def setReconcileAttempt_def next_attempt_def reconcileFailureDelays_def
      RecordReconcileTiming_def Let_def)



text \<open>a restart keeps the schedule. When the timing of every pass was saved, an instance that has a row and an
  attempt after the epoch is loaded at the next start with the attempt it had, so it is due when it would have been,
  unless its last reconciliation succeeded and its discovery is pending again, which makes it due at once.\<close>

theorem reconcile_restart_keeps_schedule:
  assumes "rc_attempts s = Some m" "timing_synced m (rc_rows s)" "rv_stores_timing E" "\<forall>n. rv_saves E n"
    and "reconcileDue E s = s'" "name \<in> set (map ti_name (rc_rows s))"
    and "the (rc_attempts s') name = Some a" "unix_epoch < ra_last_attempt a" "rv_stores_timing E'"
  shows "the (rc_attempts (load_attempts E' (s'\<lparr>rc_attempts := None\<rparr>))) name =
    (if ra_failures a \<le> 0 \<and> \<not> ra_deferred a \<and> name \<in> set (rv_names E') \<and> rv_pending E' name = Some True then None else Some a)"
proof -
  have load: "load_attempts E s = s" by (simp add: load_attempts_def assms(1))
  from fold_synced [OF assms(1-4)] obtain m' where m': "rc_attempts s' = Some m'" "timing_synced m' (rc_rows s')"
    "map ti_name (rc_rows s') = map ti_name (rc_rows s)"
    using assms(5) by (auto simp: reconcileDue_def load assms(1))
  from assms(6) m'(3) obtain r where r: "r \<in> set (rc_rows s')" "ti_name r = name" by (metis in_set_conv_decomp_first image_iff list.set_map)
  have "ReconcileTimings (rc_rows s') name = Some a"
    using timings_synced [OF m'(2) r(1)] r(2) assms(7,8) m'(1) by simp
  moreover have "ra_last_attempt a \<noteq> 0" using assms(8) by (simp add: unix_epoch_def)
  ultimately show ?thesis by (auto simp: load_attempts_def assms(9) releasePendingDiscoveries_def)
qed

theorem reconcile_restart_keeps_schedule_witness:
  "the (rc_attempts (load_attempts sample_reconcile ((reconcileDue sample_reconcile sample_timing)\<lparr>rc_attempts := None\<rparr>))) ''sonarr''
     = Some \<lparr>ra_last_attempt = unix_epoch + hour, ra_failures = 1, ra_deferred = False\<rparr>"
proof -
  have "rc_attempts sample_timing = Some Map.empty" "timing_synced Map.empty (rc_rows sample_timing)" "rv_stores_timing sample_reconcile"
    "\<forall>n. rv_saves sample_reconcile n" "''sonarr'' \<in> set (map ti_name (rc_rows sample_timing))"
    by (simp_all add: sample_timing_def sample_reconcile_def timing_synced_def)
  from reconcile_restart_keeps_schedule [OF this(1-4) refl this(5) sample_pass(2) _ this(3)] show ?thesis by simp
qed

end
