(* ===== verification/Notifiers.thy ===== *)
theory Notifiers
  imports Domain Go_Path Store_Types "HOL-Library.Char_ord" "HOL-Library.List_Lexorder"
begin

text \<open>
  The notifiers of \<open>src/internal/notifier\<close> and the intents of \<open>src/internal/workflow/notification.go\<close>: what a delivery
  can end with, the Silo scan with its path mappings, the Arr rescan, and the requests a changed subtitle queues. The
  HTTP exchange, the Arr client, JSON and SHA-256 are parameters.
\<close>

section \<open>Delivery errors\<close>

datatype delivery_error =
    DeliveryError (de_target: string) (de_status: int) (de_retryable: bool) (de_refused: bool) (de_reason: string)
  | SkippedError string
  | DeliveryContext
  | OtherDeliveryError string

definition IsSkipped :: "delivery_error \<Rightarrow> string option" where
  "IsSkipped e = (case e of SkippedError reason \<Rightarrow> Some reason | _ \<Rightarrow> None)"

definition IsRefused :: "delivery_error \<Rightarrow> bool" where
  "IsRefused e = (case e of DeliveryError _ _ _ refused _ \<Rightarrow> refused | _ \<Rightarrow> False)"

definition IsRetryable :: "delivery_error \<Rightarrow> bool" where
  "IsRetryable e = (case e of DeliveryError _ _ retryable _ _ \<Rightarrow> retryable | _ \<Rightarrow> False)"

section \<open>Path mappings\<close>

record path_mapping =
  map_from :: string
  map_to :: string

definition normalizeMappingPath :: "string \<Rightarrow> string option" where
  "normalizeMappingPath value =
     (let raw = replace_all [CHR 0x5C] [slash] value
      in if ''..'' \<in> set (split_char slash raw) then None
         else let normalized = filepath_Clean raw
              in if normalized = ''.'' \<or> \<not> has_prefix normalized [slash] then None else Some normalized)"

definition pathHasPrefix :: "string \<Rightarrow> string \<Rightarrow> bool" where
  "pathHasPrefix path prefix =
     (if prefix = [slash] then has_prefix path [slash] else path = prefix \<or> has_prefix path (prefix @ [slash]))"

text \<open>The mapping with the longest source that holds the path, the first of equals.\<close>

fun best_mapping :: "string \<Rightarrow> path_mapping list \<Rightarrow> (string \<times> string) option \<Rightarrow> (string \<times> string) option option" where
  "best_mapping path [] best = Some best"
| "best_mapping path (m # ms) best =
     (case (normalizeMappingPath (map_from m), normalizeMappingPath (map_to m)) of
        (Some source, Some target) \<Rightarrow>
          best_mapping path ms
            (if pathHasPrefix path source \<and> (case best of None \<Rightarrow> True | Some (b, _) \<Rightarrow> length source > length b)
             then Some (source, target) else best)
      | _ \<Rightarrow> None)"

definition rewritePath :: "string \<Rightarrow> path_mapping list \<Rightarrow> string option" where
  "rewritePath value mappings =
     (case normalizeMappingPath value of
        None \<Rightarrow> None
      | Some normalized \<Rightarrow>
          (case best_mapping normalized mappings None of
             None \<Rightarrow> None
           | Some None \<Rightarrow> Some normalized
           | Some (Some (source, target)) \<Rightarrow>
               let suffix = trim_prefix normalized source;
                   rewritten = (if suffix = [] then target else filepath_Join target (trim_prefix suffix [slash]))
               in if has_prefix rewritten [slash] then Some rewritten else None))"

section \<open>Silo\<close>

text \<open>The path that is scanned; \<open>pathpkg.Dir\<close> is \<open>filepath.Dir\<close> on Unix.\<close>

definition scanPath :: "path_mapping list \<Rightarrow> Media \<Rightarrow> string \<Rightarrow> (delivery_error, string) result" where
  "scanPath mappings media subtitlePath =
     (let mediaPath = fp_path (m_fingerprint media); target = (if mediaPath = [] then subtitlePath else mediaPath)
      in if target = [] then Err (DeliveryError [] 0 False False ''media path is empty'')
         else case rewritePath target mappings of
                None \<Rightarrow> Err (DeliveryError [] 0 False False ''path mapping is invalid'')
              | Some mapped \<Rightarrow> Ok (filepath_Dir mapped))"

text \<open>The answer to the request: a status, no answer because the context ended, or no answer at all.\<close>

datatype http_answer = Answered int | ContextEnded | Unreachable

definition retryable_status :: "int \<Rightarrow> bool" where
  "retryable_status status \<longleftrightarrow> status = 408 \<or> status = 429 \<or> status \<ge> 500"

definition silo_SubtitleChanged :: "(string \<Rightarrow> http_answer) \<Rightarrow> path_mapping list \<Rightarrow> Media \<Rightarrow> string \<Rightarrow> delivery_error option" where
  "silo_SubtitleChanged request mappings media subtitlePath =
     (case scanPath mappings media subtitlePath of
        Err e \<Rightarrow> Some e
      | Ok path \<Rightarrow>
          (case request path of
             ContextEnded \<Rightarrow> Some DeliveryContext
           | Unreachable \<Rightarrow> Some (DeliveryError [] 0 True False ''transport unavailable'')
           | Answered status \<Rightarrow>
               if status \<ge> 200 \<and> status < 300 then None
               else Some (DeliveryError [] status (retryable_status status \<or> status = 409) False (itoa status))))"

section \<open>Arr rescans\<close>

definition ArrRescanName :: string where "ArrRescanName = ''arr_rescan''"
definition ArrRescanDelay :: duration where "ArrRescanDelay = minute"

definition RescanID :: "Media \<Rightarrow> int option" where
  "RescanID media =
     (let known = (\<lambda>i. if i > 0 then Some i else None)
      in if ref_kind (m_ref media) = MediaEpisode then known (m_series_id media)
         else if ref_kind (m_ref media) = MediaMovie then known (m_entity_id media) else None)"

definition RescanCoalesceKey :: "Media \<Rightarrow> string option" where
  "RescanCoalesceKey media =
     map_option (\<lambda>i. ref_instance (m_ref media) @ [CHR 0x00] @ ref_kind (m_ref media) @ [CHR 0x00] @ itoa i) (RescanID media)"

definition rescan_CoalesceKey :: "Media \<Rightarrow> (delivery_error, string) result" where
  "rescan_CoalesceKey media =
     (case RescanCoalesceKey media of None \<Rightarrow> Err (SkippedError ''unknown_arr_id'') | Some key \<Rightarrow> Ok key)"

text \<open>
  What the rescan of one instance gives: the media kind it serves, and for an id success, the end of the context, or
  the status and retryability \<open>catalog.ArrRequestFailure\<close> reads from the error.
\<close>

datatype rescan_answer = Rescanned | RescanContextEnded | RescanFailed int bool

definition rescan_SubtitleChanged ::
  "(string \<rightharpoonup> media_kind \<times> (int \<Rightarrow> rescan_answer)) \<Rightarrow> Media \<Rightarrow> delivery_error option" where
  "rescan_SubtitleChanged instances media =
     (case instances (ref_instance (m_ref media)) of
        None \<Rightarrow> Some (SkippedError ''rescan_disabled'')
      | Some (kind, rescan) \<Rightarrow>
          (case RescanID media of
             None \<Rightarrow> Some (SkippedError ''unknown_arr_id'')
           | Some i \<Rightarrow>
               if kind \<noteq> ref_kind (m_ref media)
               then Some (DeliveryError ''Arr rescan'' 0 False False ''media kind does not match the instance'')
               else (case rescan i of
                       Rescanned \<Rightarrow> None
                     | RescanContextEnded \<Rightarrow> Some DeliveryContext
                     | RescanFailed status retryable \<Rightarrow>
                         Some (if status = 0 then
                                 (if retryable then DeliveryError ''Arr rescan'' 0 True False ''transport unavailable''
                                  else DeliveryError ''Arr rescan'' 0 False False ''request invalid'')
                               else if retryable_status status then DeliveryError ''Arr rescan'' status True False (itoa status)
                               else DeliveryError ''Arr rescan'' status False True (itoa status)))))"

section \<open>Intents\<close>

definition notificationDue :: "string \<Rightarrow> gotime \<Rightarrow> gotime" where
  "notificationDue name now = (if name = ArrRescanName then now + ArrRescanDelay else now)"

definition notificationRequest ::
  "(string \<Rightarrow> string) \<Rightarrow> string \<Rightarrow> Media \<Rightarrow> string \<Rightarrow> string \<Rightarrow> gotime \<Rightarrow> NotificationRequest" where
  "notificationRequest hex_sha256 name media raw payload now =
     (let (raw', coalesce) =
            (case (if name = ArrRescanName then RescanCoalesceKey media else None) of
               None \<Rightarrow> (raw, False)
             | Some key \<Rightarrow> (name @ [CHR 0x00] @ key, True))
      in \<lparr>nr_notifier = name, nr_dedupe_key = hex_sha256 raw', nr_payload = payload,
          nr_next_attempt_at = notificationDue name now, nr_coalesce = coalesce\<rparr>)"

definition nul_joined :: "string list \<Rightarrow> string" where
  "nul_joined parts = join [CHR 0x00] parts"

text \<open>\<open>encode\<close> is the JSON encoding of the media and the subtitle's path; it fails as \<open>json.Marshal\<close> can.\<close>

definition notificationRequests ::
  "(string \<Rightarrow> string) \<Rightarrow> (Media \<Rightarrow> string \<Rightarrow> (string, string) result) \<Rightarrow> Media \<Rightarrow> Installation \<Rightarrow> string list \<Rightarrow> gotime
   \<Rightarrow> (string, NotificationRequest list) result" where
  "notificationRequests hex_sha256 encode media inst notifierNames now =
     (if notifierNames = [] then Ok []
      else case encode media (in_path inst) of
             Err e \<Rightarrow> Err e
           | Ok payload \<Rightarrow> Ok (map (\<lambda>name. notificationRequest hex_sha256 name media
               (nul_joined [name, itoa (in_media_id inst), in_language inst, in_checksum inst, in_path inst, in_media_path inst,
                  itoa (in_media_file_id inst), itoa (in_media_size inst), itoa (in_media_mod_time_ns inst)])
               payload now) (sort notifierNames)))"

definition changeNotifierNames :: "string list \<Rightarrow> (string \<Rightarrow> bool) \<Rightarrow> Media \<Rightarrow> string list" where
  "changeNotifierNames configured rescans media =
     (if \<not> rescans (ref_instance (m_ref media)) then configured
      else if RescanID media = None then configured
      else configured @ [ArrRescanName])"

definition arrRescanOnly :: "string list \<Rightarrow> string list" where
  "arrRescanOnly names = (if ArrRescanName \<in> set names then [ArrRescanName] else [])"

definition changeNotificationRequests ::
  "(string \<Rightarrow> string) \<Rightarrow> (Media \<Rightarrow> string \<Rightarrow> (string, string) result) \<Rightarrow> string \<Rightarrow> Media \<Rightarrow> Installation \<Rightarrow> string list \<Rightarrow> gotime
   \<Rightarrow> (string, NotificationRequest list) result" where
  "changeNotificationRequests hex_sha256 encode change media inst notifierNames now =
     (if notifierNames = [] then Ok []
      else case encode media (in_path inst) of
             Err e \<Rightarrow> Err e
           | Ok payload \<Rightarrow> Ok (map (\<lambda>name. notificationRequest hex_sha256 name media
               (nul_joined [change, name, itoa (in_media_id inst), in_language inst, in_checksum inst, in_path inst,
                  itoa (unix_nano now)])
               payload now) (sort notifierNames)))"

end
