(* ===== verification/Worker_Notify.thy ===== *)
theory Worker_Notify
  imports Notifiers Outbox Schedule
begin

text \<open>
  The delivery of notifications by \<open>src/internal/worker/worker.go\<close>: leased intents are grouped so that one request
  satisfies a group, the first of a group is delivered, and every member whose lease is still held is completed with
  that outcome. A notifier is the record of its operations; the payload's JSON decoding is a parameter. The groups run
  concurrently, but each touches its own rows only.
\<close>

section \<open>Groups\<close>

record notifier =
  nt_coalesce :: "(Media \<Rightarrow> string \<Rightarrow> (delivery_error, string) result) option"
  nt_deliver :: "Media \<Rightarrow> string \<Rightarrow> delivery_error option"

record notify_env =
  nv_notifiers :: "string \<rightharpoonup> notifier"
  nv_decode :: "string \<Rightarrow> (Media \<times> string) option"

text \<open>A lease with its payload decoded once; \<open>None\<close> is a payload that does not decode.\<close>

type_synonym delivery = "NotificationLease \<times> (Media \<times> string) option"

definition notificationCoalesceKey :: "notify_env \<Rightarrow> delivery \<Rightarrow> string option" where
  "notificationCoalesceKey N d =
     (case nv_notifiers N (nl_notifier (fst d)) of
        None \<Rightarrow> None
      | Some n \<Rightarrow>
          (case nt_coalesce n of
             None \<Rightarrow> None
           | Some coalesce \<Rightarrow>
               (case snd d of
                  None \<Rightarrow> None
                | Some (media, path) \<Rightarrow>
                    (case coalesce media path of
                       Err _ \<Rightarrow> None
                     | Ok key \<Rightarrow> Some (nl_notifier (fst d) @ [CHR 0x00] @ key)))))"

definition decoded :: "notify_env \<Rightarrow> NotificationLease \<Rightarrow> delivery" where
  "decoded N lease = (lease, nv_decode N (nl_payload lease))"

text \<open>The loop: the groups so far and the index of the group of every key.\<close>

definition coalesce_step ::
  "(delivery \<Rightarrow> string option) \<Rightarrow> delivery \<Rightarrow> delivery list list \<times> (string \<rightharpoonup> nat) \<Rightarrow> delivery list list \<times> (string \<rightharpoonup> nat)" where
  "coalesce_step keyOf d acc =
     (let (groups, byKey) = acc
      in case keyOf d of
           None \<Rightarrow> (groups @ [[d]], byKey)
         | Some key \<Rightarrow>
             (case byKey key of
                Some index \<Rightarrow> (groups[index := groups ! index @ [d]], byKey)
              | None \<Rightarrow> (groups @ [[d]], byKey(key \<mapsto> length groups))))"

definition coalesceNotifications :: "notify_env \<Rightarrow> NotificationLease list \<Rightarrow> delivery list list" where
  "coalesceNotifications N leased =
     fst (fold (coalesce_step (notificationCoalesceKey N)) (map (decoded N) leased) ([], Map.empty))"

section \<open>Completing a notification\<close>

definition completion_result :: "delivery_error option \<Rightarrow> string" where
  "completion_result err =
     (case err of
        None \<Rightarrow> ''success''
      | Some e \<Rightarrow>
          if IsSkipped e \<noteq> None then ''skipped''
          else if IsRetryable e then ''retryable_error''
          else if IsRefused e then ''refused'' else ''permanent_error'')"

text \<open>\<open>finished\<close> and \<open>retry\<close> are the two times the clock is read.\<close>

definition notification_completion :: "NotificationLease \<Rightarrow> delivery_error option \<Rightarrow> gotime \<Rightarrow> gotime \<Rightarrow> NotificationCompletion" where
  "notification_completion lease err finished retry =
     \<lparr>nc_job_id = nl_job_id lease, nc_result = completion_result err,
      nc_next_attempt_at = (if completion_result err = ''retryable_error'' then retry + FailureDelay (nl_attempt lease) else zero_time),
      nc_finished_at = finished\<rparr>"

section \<open>A group\<close>

text \<open>
  What a group meets: whether the dispatch context ended before it started, what ended its wait for a free slot,
  which contexts had ended when it got one, what each renewal reports and which member's context ended, whether the
  leader's and the work context ended during the delivery, and the clock at each completion.
\<close>

datatype slot_wait = SlotFree | DispatchEnded | LeaderEnded

record group_env =
  gv_skip :: bool
  gv_wait :: slot_wait
  gv_dispatch_ended :: bool
  gv_leader_ended :: bool
  gv_renewal :: "string \<Rightarrow> string option"
  gv_member_ended :: "string \<Rightarrow> bool"
  gv_leader_done :: bool
  gv_work_ended :: bool
  gv_finished :: "string \<Rightarrow> gotime"
  gv_retry :: "string \<Rightarrow> gotime"
  gv_wall :: gotime

definition releaseNotificationLeases :: "delivery list \<Rightarrow> notification_row list \<Rightarrow> notification_row list" where
  "releaseNotificationLeases members rows =
     fold (\<lambda>(lease, _) rows. snd (ReleaseNotificationLease (nl_job_id lease) rows)) members rows"

definition deliver :: "notify_env \<Rightarrow> delivery \<Rightarrow> delivery_error option" where
  "deliver N d =
     (case snd d of
        None \<Rightarrow> Some (OtherDeliveryError ''invalid payload'')
      | Some (media, path) \<Rightarrow>
          (case nv_notifiers N (nl_notifier (fst d)) of
             None \<Rightarrow> Some (OtherDeliveryError (''notifier '' @ nl_notifier (fst d) @ '' is not configured''))
           | Some n \<Rightarrow> nt_deliver n media path))"

definition complete_member ::
  "group_env \<Rightarrow> delivery_error option \<Rightarrow> nat \<times> delivery \<Rightarrow> notification_row list \<Rightarrow> notification_row list" where
  "complete_member G err numbered rows =
     (let (index, (lease, _)) = numbered; job = nl_job_id lease
      in if index > 0 \<and> (gv_renewal G job \<noteq> None \<or> gv_member_ended G job) then rows
         else snd (CompleteNotification (gv_wall G)
                (notification_completion lease err (gv_finished G job) (gv_retry G job)) rows))"

text \<open>The table afterwards, and the error of the delivery when one was made.\<close>

definition processNotificationGroup ::
  "notify_env \<Rightarrow> group_env \<Rightarrow> delivery list \<Rightarrow> notification_row list \<Rightarrow> delivery_error option option \<times> notification_row list" where
  "processNotificationGroup N G members rows =
     (if gv_skip G then (None, rows)
      else case gv_wait G of
             DispatchEnded \<Rightarrow> (None, releaseNotificationLeases members rows)
           | LeaderEnded \<Rightarrow> (None, rows)
           | SlotFree \<Rightarrow>
               if gv_dispatch_ended G then (None, releaseNotificationLeases members rows)
               else if gv_leader_ended G then (None, rows)
               else let err = deliver N (hd members)
                    in (Some err,
                        if gv_renewal G (nl_job_id (fst (hd members))) \<noteq> None then rows
                        else if gv_leader_done G then
                          (if gv_work_ended G then releaseNotificationLeases members rows else rows)
                        else fold (complete_member G err) (List.enumerate 0 members) rows))"

section \<open>The groups are the classes of equal keys\<close>

definition same_group :: "(delivery \<Rightarrow> string option) \<Rightarrow> delivery \<Rightarrow> delivery \<Rightarrow> bool" where
  "same_group keyOf d e \<longleftrightarrow> keyOf d \<noteq> None \<and> keyOf d = keyOf e"

text \<open>The specification: each delivery joins the group its key opened, and opens one otherwise.\<close>

function key_classes :: "(delivery \<Rightarrow> string option) \<Rightarrow> delivery list \<Rightarrow> delivery list list" where
  "key_classes keyOf [] = []"
| "key_classes keyOf (d # ds) =
     (d # filter (same_group keyOf d) ds) # key_classes keyOf (filter (\<lambda>e. \<not> same_group keyOf d e) ds)"
  by pat_completeness auto
termination
  by (relation "measure (length \<circ> snd)") (auto simp: less_Suc_eq_le)

lemma class_members: "g \<in> set (key_classes keyOf ds) \<Longrightarrow> g \<noteq> [] \<and> set g \<subseteq> set ds"
  by (induction keyOf ds rule: key_classes.induct) auto

lemma class_head: "g \<in> set (key_classes keyOf ds) \<Longrightarrow> hd g \<in> set ds"
  using class_members [of g keyOf ds] by (cases g) auto

lemma class_covers: "e \<in> set ds \<Longrightarrow> \<exists>g \<in> set (key_classes keyOf ds). e = hd g \<or> same_group keyOf (hd g) e"
  by (induction keyOf ds rule: key_classes.induct) auto

definition add_to :: "(delivery \<Rightarrow> string option) \<Rightarrow> delivery \<Rightarrow> delivery list list \<Rightarrow> delivery list list" where
  "add_to keyOf d groups = map (\<lambda>g. if same_group keyOf (hd g) d then g @ [d] else g) groups"

lemma classes_snoc:
  "key_classes keyOf (ds @ [d]) =
     (if \<exists>e \<in> set ds. same_group keyOf e d then add_to keyOf d (key_classes keyOf ds) else key_classes keyOf ds @ [[d]])"
proof (induction keyOf ds rule: key_classes.induct)
  case (2 keyOf x xs)
  show ?case
  proof (cases "same_group keyOf x d")
    case True
    have "map (\<lambda>g. if same_group keyOf (hd g) d then g @ [d] else g) (key_classes keyOf (filter (\<lambda>e. \<not> same_group keyOf x e) xs))
        = key_classes keyOf (filter (\<lambda>e. \<not> same_group keyOf x e) xs)"
      using True by (intro map_idI) (auto dest!: class_head simp: same_group_def)
    with True show ?thesis by (simp add: add_to_def)
  next
    case False
    have "(\<exists>e \<in> set (filter (\<lambda>e. \<not> same_group keyOf x e) xs). same_group keyOf e d) \<longleftrightarrow> (\<exists>e \<in> set (x # xs). same_group keyOf e d)"
    proof
      assume "\<exists>e \<in> set (x # xs). same_group keyOf e d"
      then obtain e where e: "e \<in> set (x # xs)" "same_group keyOf e d" by blast
      with False have "e \<noteq> x" "\<not> same_group keyOf x e" by (auto simp: same_group_def)
      with e show "\<exists>e \<in> set (filter (\<lambda>e. \<not> same_group keyOf x e) xs). same_group keyOf e d" by fastforce
    qed auto
    with False 2 show ?thesis by (simp add: add_to_def)
  qed
qed (simp add: add_to_def)

text \<open>The index of a key is the position of the group it opened.\<close>

definition keys_indexed :: "(delivery \<Rightarrow> string option) \<Rightarrow> delivery list list \<Rightarrow> (string \<rightharpoonup> nat) \<Rightarrow> bool" where
  "keys_indexed keyOf groups byKey \<longleftrightarrow>
     (\<forall>k i. byKey k = Some i \<longleftrightarrow> i < length groups \<and> keyOf (hd (groups ! i)) = Some k)"

lemma keys_indexed_snoc:
  assumes idx: "keys_indexed keyOf groups byKey" and new: "\<And>k. keyOf d = Some k \<Longrightarrow> byKey k = None"
  shows "keys_indexed keyOf (groups @ [[d]]) (case keyOf d of None \<Rightarrow> byKey | Some k \<Rightarrow> byKey(k \<mapsto> length groups))"
  unfolding keys_indexed_def
proof (intro allI)
  fix k i
  have old: "byKey k = Some i \<longleftrightarrow> i < length groups \<and> keyOf (hd (groups ! i)) = Some k" using idx by (simp add: keys_indexed_def)
  consider "i < length groups" | "i = length groups" | "i > length groups" by linarith
  then show "(case keyOf d of None \<Rightarrow> byKey | Some k \<Rightarrow> byKey(k \<mapsto> length groups)) k = Some i
    \<longleftrightarrow> i < length (groups @ [[d]]) \<and> keyOf (hd ((groups @ [[d]]) ! i)) = Some k"
    using old new by cases (auto simp: nth_append split: option.split)
qed

lemma coalesce_snoc:
  assumes idx: "keys_indexed keyOf groups byKey" and ne: "\<forall>g \<in> set groups. g \<noteq> []"
  shows "fst (coalesce_step keyOf d (groups, byKey)) =
      (if \<exists>g \<in> set groups. same_group keyOf (hd g) d then add_to keyOf d groups else groups @ [[d]])
    \<and> keys_indexed keyOf (fst (coalesce_step keyOf d (groups, byKey))) (snd (coalesce_step keyOf d (groups, byKey)))"
proof (cases "keyOf d")
  case None
  then have "\<not> (\<exists>g \<in> set groups. same_group keyOf (hd g) d)" by (auto simp: same_group_def)
  moreover have "keys_indexed keyOf (groups @ [[d]]) byKey" using keys_indexed_snoc [OF idx, of d] None by simp
  ultimately show ?thesis by (simp add: coalesce_step_def None)
next
  case (Some key)
  show ?thesis
  proof (cases "byKey key")
    case None
    have no: "keyOf (hd (groups ! i)) \<noteq> Some key" if "i < length groups" for i
    proof
      assume "keyOf (hd (groups ! i)) = Some key"
      with idx that have "byKey key = Some i" by (simp add: keys_indexed_def)
      with None show False by simp
    qed
    then have "\<not> (\<exists>g \<in> set groups. same_group keyOf (hd g) d)" using Some by (metis in_set_conv_nth same_group_def)
    moreover have "keys_indexed keyOf (groups @ [[d]]) (byKey(key \<mapsto> length groups))"
      using keys_indexed_snoc [OF idx, of d] Some None by simp
    ultimately show ?thesis by (simp add: coalesce_step_def Some None)
  next
    case found: (Some index)
    then have i: "index < length groups" "keyOf (hd (groups ! index)) = Some key" using idx by (simp_all add: keys_indexed_def)
    have only: "j = index" if "j < length groups" "keyOf (hd (groups ! j)) = Some key" for j
    proof -
      have "byKey key = Some j" using idx that by (simp add: keys_indexed_def)
      with found show ?thesis by simp
    qed
    have "groups[index := groups ! index @ [d]] = add_to keyOf d groups"
    proof (rule nth_equalityI)
      fix j assume "j < length (groups[index := groups ! index @ [d]])"
      then have j: "j < length groups" by simp
      then show "groups[index := groups ! index @ [d]] ! j = add_to keyOf d groups ! j"
      proof (cases "j = index")
        case False
        with only [OF j] have "\<not> same_group keyOf (hd (groups ! j)) d" using Some by (auto simp: same_group_def)
        with False j show ?thesis by (simp add: add_to_def)
      qed (use i Some in \<open>simp add: add_to_def same_group_def\<close>)
    qed (simp add: add_to_def)
    moreover have "hd (groups[index := groups ! index @ [d]] ! j) = hd (groups ! j)" if "j < length groups" for j
      using ne that by (cases "j = index") (simp_all add: hd_append)
    with idx have "keys_indexed keyOf (groups[index := groups ! index @ [d]]) byKey"
      by (simp add: keys_indexed_def cong: conj_cong)
    moreover have "same_group keyOf (hd (groups ! index)) d" using i(2) Some by (simp add: same_group_def)
    then have "\<exists>g \<in> set groups. same_group keyOf (hd g) d" using i(1) nth_mem by blast
    ultimately show ?thesis by (simp add: coalesce_step_def Some found)
  qed
qed

lemma coalesce_classes:
  "fst (fold (coalesce_step keyOf) ds ([], Map.empty)) = key_classes keyOf ds
   \<and> keys_indexed keyOf (fst (fold (coalesce_step keyOf) ds ([], Map.empty))) (snd (fold (coalesce_step keyOf) ds ([], Map.empty)))"
proof (induction ds rule: rev_induct)
  case (snoc d ds)
  obtain groups byKey where acc: "fold (coalesce_step keyOf) ds ([], Map.empty) = (groups, byKey)" by (metis surj_pair)
  from snoc have g: "groups = key_classes keyOf ds" "keys_indexed keyOf groups byKey" unfolding acc fst_conv snd_conv by blast+
  have ne: "\<forall>g \<in> set groups. g \<noteq> []" using g(1) class_members by blast
  have "(\<exists>g \<in> set groups. same_group keyOf (hd g) d) \<longleftrightarrow> (\<exists>e \<in> set ds. same_group keyOf e d)"
  proof
    assume "\<exists>e \<in> set ds. same_group keyOf e d"
    then obtain e where e: "e \<in> set ds" "same_group keyOf e d" by blast
    from class_covers [OF e(1), of keyOf] obtain h where "h \<in> set (key_classes keyOf ds)" "e = hd h \<or> same_group keyOf (hd h) e" by blast
    with e(2) g(1) show "\<exists>g \<in> set groups. same_group keyOf (hd g) d" by (auto simp: same_group_def)
  next
    assume "\<exists>g \<in> set groups. same_group keyOf (hd g) d"
    then show "\<exists>e \<in> set ds. same_group keyOf e d" using g(1) class_head by blast
  qed
  then have "fst (coalesce_step keyOf d (groups, byKey)) = key_classes keyOf (ds @ [d])"
    using conjunct1 [OF coalesce_snoc [OF g(2) ne, of d]] unfolding classes_snoc g(1) [symmetric] by (simp only:)
  moreover note conjunct2 [OF coalesce_snoc [OF g(2) ne, of d]]
  ultimately show ?case by (simp add: acc)
qed (simp add: keys_indexed_def)

lemma coalesce_are_classes: "coalesceNotifications N leased = key_classes (notificationCoalesceKey N) (map (decoded N) leased)"
  using coalesce_classes by (simp add: coalesceNotifications_def)

lemma classes_mset: "mset (concat (key_classes keyOf ds)) = mset ds"
proof (induction keyOf ds rule: key_classes.induct)
  case (2 keyOf d ds)
  have "mset (filter (same_group keyOf d) ds) + mset (filter (\<lambda>e. \<not> same_group keyOf d e) ds) = mset ds"
    by (metis multiset_partition mset_filter)
  with 2 show ?case by simp
qed simp

lemma classes_exact:
  "g \<in> set (key_classes keyOf ds) \<Longrightarrow>
     (if keyOf (hd g) = None then length g = 1 else g = filter (\<lambda>d. keyOf d = keyOf (hd g)) ds)"
proof (induction keyOf ds rule: key_classes.induct)
  case (2 keyOf x xs)
  show ?case
  proof (cases "g = x # filter (same_group keyOf x) xs")
    case True
    then show ?thesis by (auto simp: same_group_def intro!: filter_cong)
  next
    case False
    with 2 have g: "g \<in> set (key_classes keyOf (filter (\<lambda>e. \<not> same_group keyOf x e) xs))" by auto
    from class_head [OF g] have "\<not> same_group keyOf x (hd g)" by auto
    then have x: "keyOf (hd g) \<noteq> None \<Longrightarrow> keyOf x \<noteq> keyOf (hd g)" by (auto simp: same_group_def)
    have "filter (\<lambda>d. keyOf d = keyOf (hd g)) (filter (\<lambda>e. \<not> same_group keyOf x e) xs) = filter (\<lambda>d. keyOf d = keyOf (hd g)) (x # xs)"
      if "keyOf (hd g) \<noteq> None" using x [OF that] by (auto simp: same_group_def intro!: filter_cong)
    with 2(1) [OF g] show ?thesis by auto
  qed
qed simp

section \<open>What a group does to the table\<close>

lemma FailureDelay_range: "minute \<le> FailureDelay a \<and> FailureDelay a \<le> hour"
  using delayAt_in [of failureDelays a] by (auto simp: FailureDelay_def failureDelays_def)

text \<open>Updates by owner that each end the lease touch every row at most once.\<close>

lemma fold_owned:
  assumes "\<And>x r. nw_lease_owner (f x r) = None"
  shows "fold (\<lambda>x. sql_update (notification_owned (job x)) (f x)) xs rows
    = map (\<lambda>r. case find (\<lambda>x. notification_owned (job x) r) xs of None \<Rightarrow> r | Some x \<Rightarrow> f x r) rows"
proof (induction xs arbitrary: rows)
  case (Cons x xs)
  have free: "find (\<lambda>y. notification_owned (job y) (f x r)) xs = None" for r
    using assms by (simp add: find_None_iff notification_owned_def)
  show ?case unfolding fold_simps comp_def Cons.IH
    by (auto simp: sql_update_def free)
qed (simp add: sql_update_def)

definition released_row :: "notification_row \<Rightarrow> notification_row" where
  "released_row r = r\<lparr>nw_lease_owner := None, nw_lease_until_ns := None\<rparr>"

lemma release_rows:
  assumes "\<forall>m \<in> set members. nl_job_id (fst m) \<noteq> []"
  shows "releaseNotificationLeases members rows =
    map (\<lambda>r. if \<exists>m \<in> set members. notification_owned (nl_job_id (fst m)) r then released_row r else r) rows"
proof -
  have "releaseNotificationLeases members rows
      = fold (\<lambda>m. sql_update (notification_owned (nl_job_id (fst m))) released_row) members rows"
    unfolding releaseNotificationLeases_def using assms
    by (intro fold_cong refl ext) (auto simp: ReleaseNotificationLease_def released_row_def [abs_def] split: prod.split)
  also have "\<dots> = map (\<lambda>r. case find (\<lambda>m. notification_owned (nl_job_id (fst m)) r) members of None \<Rightarrow> r | Some x \<Rightarrow> released_row r) rows"
    by (rule fold_owned) (simp add: released_row_def)
  also have "\<dots> = map (\<lambda>r. if \<exists>m \<in> set members. notification_owned (nl_job_id (fst m)) r then released_row r else r) rows"
    by (intro map_cong refl) (auto simp: find_None_iff find_Some_iff split: option.split dest: nth_mem)
  finally show ?thesis .
qed

definition held :: "group_env \<Rightarrow> nat \<times> delivery \<Rightarrow> bool" where
  "held G numbered \<longleftrightarrow> fst numbered = 0
     \<or> gv_renewal G (nl_job_id (fst (snd numbered))) = None \<and> \<not> gv_member_ended G (nl_job_id (fst (snd numbered)))"

definition member_completion :: "group_env \<Rightarrow> delivery_error option \<Rightarrow> nat \<times> delivery \<Rightarrow> NotificationCompletion" where
  "member_completion G err numbered =
     (let lease = fst (snd numbered)
      in notification_completion lease err (gv_finished G (nl_job_id lease)) (gv_retry G (nl_job_id lease)))"

lemma complete_rows:
  "fold (complete_member G err) numbered rows =
    map (\<lambda>r. case find (\<lambda>x. notification_owned (nl_job_id (fst (snd x))) r) (filter (held G) numbered) of
        None \<Rightarrow> r | Some x \<Rightarrow> finished_row (gv_wall G) (member_completion G err x) r) rows"
proof -
  have "fold (complete_member G err) numbered rows
      = fold (\<lambda>x. sql_update (notification_owned (nl_job_id (fst (snd x)))) (finished_row (gv_wall G) (member_completion G err x)))
          (filter (held G) numbered) rows"
  proof (induction numbered arbitrary: rows)
    case (Cons x xs)
    have "complete_member G err x rows = (if held G x
      then sql_update (notification_owned (nl_job_id (fst (snd x)))) (finished_row (gv_wall G) (member_completion G err x)) rows else rows)"
      by (cases x) (auto simp: complete_member_def held_def member_completion_def CompleteNotification_def notification_completion_def Let_def)
    with Cons show ?case by simp
  qed simp
  also have "\<dots> = map (\<lambda>r. case find (\<lambda>x. notification_owned (nl_job_id (fst (snd x))) r) (filter (held G) numbered) of
        None \<Rightarrow> r | Some x \<Rightarrow> finished_row (gv_wall G) (member_completion G err x) r) rows"
    by (rule fold_owned) (simp add: finished_row_def Let_def)
  finally show ?thesis .
qed

text \<open>A completed row: finished for good, or due again after the backoff of its attempts.\<close>

definition delivered_row :: "group_env \<Rightarrow> delivery_error option \<Rightarrow> NotificationLease \<Rightarrow> notification_row \<Rightarrow> notification_row \<Rightarrow> bool" where
  "delivered_row G err lease r r' \<longleftrightarrow> nw_lease_owner r' = None \<and> nw_attempt r' = nw_attempt r + 1 \<and> nw_result r' = completion_result err
     \<and> (if completion_result err = ''retryable_error''
        then nw_next_attempt_at_ns r' = unix_nano (gv_retry G (nl_job_id lease) + FailureDelay (nl_attempt lease))
          \<and> nw_dedupe_key r' = nw_dedupe_key r \<and> nw_finished_at_ns r' = None
        else nw_next_attempt_at_ns r' = 0 \<and> nw_dedupe_key r' = None \<and> nw_finished_at_ns r' \<noteq> None)"

lemma finished_delivered:
  assumes "unix_epoch < gv_retry G (nl_job_id (fst (snd x)))"
  shows "delivered_row G err (fst (snd x)) r (finished_row (gv_wall G) (member_completion G err x) r)"
proof -
  have "unix_epoch < gv_retry G (nl_job_id (fst (snd x))) + FailureDelay (nl_attempt (fst (snd x)))"
    using assms FailureDelay_range [of "nl_attempt (fst (snd x))"] by linarith
  then show ?thesis
    by (auto simp: delivered_row_def finished_row_def member_completion_def notification_completion_def Let_def unix_nano_def unix_epoch_def)
qed

section \<open>Properties\<close>

text \<open>C28: the notifications of a batch are grouped by key: the groups are the classes of the leases with one key, in the
  order of their first leases, a lease without a key is alone, every group keeps the order of the leases, and no lease
  is lost or repeated.\<close>

theorem notifications_grouped_by_key:
  "coalesceNotifications N leased = key_classes (notificationCoalesceKey N) (map (decoded N) leased)
   \<and> mset (concat (coalesceNotifications N leased)) = mset (map (decoded N) leased)
   \<and> (\<forall>g \<in> set (coalesceNotifications N leased).
        if notificationCoalesceKey N (hd g) = None then length g = 1
        else g = filter (\<lambda>d. notificationCoalesceKey N d = notificationCoalesceKey N (hd g)) (map (decoded N) leased))"
  unfolding coalesce_are_classes using classes_mset classes_exact by blast

text \<open>Silo keys a delivery by the directory it scans; here the payload stands for it.\<close>

definition sample_batch :: "Media \<Rightarrow> notify_env" where
  "sample_batch media = \<lparr>nv_notifiers = [''silo'' \<mapsto> \<lparr>nt_coalesce = Some (\<lambda>_ path. Ok path), nt_deliver = (\<lambda>_ _. None)\<rparr>],
     nv_decode = (\<lambda>payload. Some (media, payload))\<rparr>"

definition sample_intent :: "int \<Rightarrow> string \<Rightarrow> NotificationLease" where
  "sample_intent n path = \<lparr>nl_id = n, nl_notifier = ''silo'', nl_payload = path, nl_attempt = 0, nl_job_id = path,
     nl_lease_until = unix_epoch\<rparr>"

theorem notifications_grouped_by_key_witness:
  "\<forall>media. map (map (nl_id \<circ> fst)) (coalesceNotifications (sample_batch media)
      [sample_intent 1 ''/tv'', sample_intent 2 ''/film'', sample_intent 3 ''/tv'']) = [[1, 3], [2]]"
proof
  fix media
  have key: "notificationCoalesceKey (sample_batch media) (decoded (sample_batch media) (sample_intent n path)) = Some (''silo'' @ [CHR 0x00] @ path)" for n path
    by (simp add: notificationCoalesceKey_def decoded_def sample_batch_def sample_intent_def)
  have "nl_id (fst (decoded (sample_batch media) (sample_intent n path))) = n" for n path by (simp add: decoded_def sample_intent_def)
  with key notifications_grouped_by_key [of "sample_batch media" "[sample_intent 1 ''/tv'', sample_intent 2 ''/film'', sample_intent 3 ''/tv'']"]
  show "map (map (nl_id \<circ> fst)) (coalesceNotifications (sample_batch media)
      [sample_intent 1 ''/tv'', sample_intent 2 ''/film'', sample_intent 3 ''/tv'']) = [[1, 3], [2]]"
    by (simp add: same_group_def)
qed

text \<open>What a delivered group does to one row: the first held member that owns it completes it.\<close>

definition group_effect :: "group_env \<Rightarrow> delivery_error option \<Rightarrow> delivery list \<Rightarrow> notification_row \<Rightarrow> notification_row" where
  "group_effect G err members r =
     (case find (\<lambda>x. notification_owned (nl_job_id (fst (snd x))) r) (filter (held G) (List.enumerate 0 members)) of
        None \<Rightarrow> r | Some x \<Rightarrow> finished_row (gv_wall G) (member_completion G err x) r)"

lemma group_effect_settles:
  assumes "i < length members" "held G (i, members ! i)" "notification_owned (nl_job_id (fst (members ! i))) r"
    and "\<forall>job. unix_epoch < gv_retry G job"
  shows "\<exists>m \<in> set members. notification_owned (nl_job_id (fst m)) r \<and> delivered_row G err (fst m) r (group_effect G err members r)"
proof -
  let ?xs = "filter (held G) (List.enumerate 0 members)"
  have "(i, members ! i) \<in> set ?xs" using assms(1,2) by (auto simp: in_set_enumerate_eq)
  moreover have "notification_owned (nl_job_id (fst (snd (i, members ! i)))) r" using assms(3) by simp
  ultimately have "find (\<lambda>x. notification_owned (nl_job_id (fst (snd x))) r) ?xs \<noteq> None" unfolding find_None_iff by blast
  then obtain x where x: "find (\<lambda>x. notification_owned (nl_job_id (fst (snd x))) r) ?xs = Some x" by blast
  then have own: "x \<in> set ?xs" "notification_owned (nl_job_id (fst (snd x))) r" by (auto simp: find_Some_iff dest: nth_mem)
  from own(1) have "snd x \<in> set members" by (auto simp: in_set_enumerate_eq dest: nth_mem)
  with x own(2) finished_delivered [of G x err r] assms(4) show ?thesis by (auto simp: group_effect_def)
qed

lemma group_effect_cases:
  assumes "\<forall>job. unix_epoch < gv_retry G job"
  shows "group_effect G err members r = r
    \<or> (\<exists>m \<in> set members. notification_owned (nl_job_id (fst m)) r \<and> delivered_row G err (fst m) r (group_effect G err members r))"
proof (cases "find (\<lambda>x. notification_owned (nl_job_id (fst (snd x))) r) (filter (held G) (List.enumerate 0 members))")
  case (Some x)
  then have x: "x \<in> set (List.enumerate 0 members)" "held G x" "notification_owned (nl_job_id (fst (snd x))) r"
    using nth_mem [of _ "filter (held G) (List.enumerate 0 members)"] by (auto simp: find_Some_iff)
  then have "fst x < length members" "members ! fst x = snd x" by (auto simp: in_set_enumerate_eq)
  with x(2,3) group_effect_settles [OF _ _ _ assms, of "fst x" members r err] show ?thesis by simp
qed (simp add: group_effect_def)

lemma group_effect_rows: "fold (complete_member G err) (List.enumerate 0 members) rows = map (group_effect G err members) rows"
  unfolding group_effect_def by (rule complete_rows)

text \<open>C27: no notification is lost by its delivery. Whatever a group meets, no other row changes, and the row of a member is
  left leased as it was (it is leased again when the lease ends), given back, or completed with the outcome of the one
  delivery of the group: due again after its backoff when the delivery can be retried, finished otherwise. When the
  leader was delivered with its lease held, every member whose lease is still held is completed.\<close>

theorem notification_never_lost:
  assumes "processNotificationGroup N G members rows = (sent, rows')" "\<forall>m \<in> set members. nl_job_id (fst m) \<noteq> []"
    and "\<forall>job. unix_epoch < gv_retry G job"
  shows "\<exists>g. rows' = map g rows \<and> (\<forall>r.
    (if \<exists>m \<in> set members. notification_owned (nl_job_id (fst m)) r
     then g r = r \<or> g r = released_row r
       \<or> (\<exists>m \<in> set members. \<exists>err. sent = Some err \<and> notification_owned (nl_job_id (fst m)) r \<and> delivered_row G err (fst m) r (g r))
     else g r = r)
    \<and> (sent \<noteq> None \<and> gv_renewal G (nl_job_id (fst (hd members))) = None \<and> \<not> gv_leader_done G
       \<and> (\<exists>i < length members. held G (i, members ! i) \<and> notification_owned (nl_job_id (fst (members ! i))) r)
       \<longrightarrow> (\<exists>m \<in> set members. \<exists>err. sent = Some err \<and> delivered_row G err (fst m) r (g r))))"
proof -
  let ?owned = "\<lambda>r. \<exists>m \<in> set members. notification_owned (nl_job_id (fst m)) r"
  let ?err = "deliver N (hd members)"
  consider (same) "rows' = rows" "sent = None \<or> gv_renewal G (nl_job_id (fst (hd members))) \<noteq> None \<or> gv_leader_done G"
    | (released) "rows' = releaseNotificationLeases members rows" "sent = None \<or> gv_leader_done G"
    | (completed) "rows' = map (group_effect G ?err members) rows" "sent = Some ?err"
    using assms(1) by (auto simp: processNotificationGroup_def group_effect_rows Let_def split: if_split_asm slot_wait.split_asm)
  then show ?thesis
  proof cases
    case same
    then show ?thesis by (intro exI [of _ id]) auto
  next
    case released
    then show ?thesis
      by (intro exI [of _ "\<lambda>r. if ?owned r then released_row r else r"]) (auto simp: release_rows [OF assms(2)])
  next
    case completed
    show ?thesis
    proof (intro exI [of _ "group_effect G ?err members"] conjI allI impI)
      show "rows' = map (group_effect G ?err members) rows" by (rule completed(1))
    next
      fix r
      show "if ?owned r then group_effect G ?err members r = r \<or> group_effect G ?err members r = released_row r
          \<or> (\<exists>m \<in> set members. \<exists>err. sent = Some err \<and> notification_owned (nl_job_id (fst m)) r
               \<and> delivered_row G err (fst m) r (group_effect G ?err members r))
        else group_effect G ?err members r = r"
        using group_effect_cases [OF assms(3), of ?err members r] completed(2) by auto
    next
      fix r
      assume "sent \<noteq> None \<and> gv_renewal G (nl_job_id (fst (hd members))) = None \<and> \<not> gv_leader_done G
        \<and> (\<exists>i < length members. held G (i, members ! i) \<and> notification_owned (nl_job_id (fst (members ! i))) r)"
      then show "\<exists>m \<in> set members. \<exists>err. sent = Some err \<and> delivered_row G err (fst m) r (group_effect G ?err members r)"
        using group_effect_settles [OF _ _ _ assms(3), of _ members r ?err] completed(2) by blast
    qed
  qed
qed

definition sample_notify :: notify_env where
  "sample_notify = \<lparr>nv_notifiers = [''silo'' \<mapsto> \<lparr>nt_coalesce = None, nt_deliver = (\<lambda>_ _. None)\<rparr>], nv_decode = (\<lambda>_. None)\<rparr>"

definition sample_group :: group_env where
  "sample_group = \<lparr>gv_skip = False, gv_wait = SlotFree, gv_dispatch_ended = False, gv_leader_ended = False, gv_renewal = (\<lambda>_. None),
     gv_member_ended = (\<lambda>_. False), gv_leader_done = False, gv_work_ended = False, gv_finished = (\<lambda>_. unix_epoch + hour),
     gv_retry = (\<lambda>_. unix_epoch + hour), gv_wall = unix_epoch + hour\<rparr>"

definition sample_member :: delivery where
  "sample_member = (\<lparr>nl_id = 1, nl_notifier = ''silo'', nl_payload = ''null'', nl_attempt = 0, nl_job_id = ''n1'', nl_lease_until = unix_epoch\<rparr>, None)"

definition sample_outbox_row :: notification_row where
  "sample_outbox_row = \<lparr>nw_id = 1, nw_notifier = ''silo'', nw_payload = ''null'', nw_attempt = 0, nw_next_attempt_at_ns = 1, nw_result = [],
     nw_lease_owner = Some ''n1'', nw_lease_until_ns = Some 5, nw_dedupe_key = Some ''k'', nw_finished_at_ns = None\<rparr>"

theorem notification_never_lost_witness:
  "\<exists>r'. snd (processNotificationGroup sample_notify sample_group [sample_member] [sample_outbox_row]) = [r']
     \<and> nw_lease_owner r' = None \<and> nw_attempt r' = 1 \<and> nw_result r' = ''permanent_error''"
proof -
  obtain sent rows' where run: "processNotificationGroup sample_notify sample_group [sample_member] [sample_outbox_row] = (sent, rows')"
    by (metis surj_pair)
  have sent: "sent = Some (Some (OtherDeliveryError ''invalid payload''))"
    using run by (simp add: processNotificationGroup_def sample_group_def sample_member_def deliver_def Let_def)
  have pre: "\<forall>m \<in> set [sample_member]. nl_job_id (fst m) \<noteq> []" "\<forall>job. unix_epoch < gv_retry sample_group job"
    by (simp_all add: sample_member_def sample_group_def)
  have own: "notification_owned (nl_job_id (fst sample_member)) sample_outbox_row"
    by (simp add: notification_owned_def sample_member_def sample_outbox_row_def)
  have ok: "gv_renewal sample_group j = None" "\<not> gv_leader_done sample_group" for j by (simp_all add: sample_group_def)
  from notification_never_lost [OF run pre] obtain g where "rows' = map g [sample_outbox_row]"
    "delivered_row sample_group (Some (OtherDeliveryError ''invalid payload'')) (fst sample_member) sample_outbox_row (g sample_outbox_row)"
    using sent own ok by (auto simp: held_def)
  moreover have "completion_result (Some (OtherDeliveryError reason)) = ''permanent_error''" for reason
    by (simp add: completion_result_def IsSkipped_def IsRetryable_def IsRefused_def)
  ultimately show ?thesis using run by (simp add: delivered_row_def sample_outbox_row_def)
qed

end
