(* ===== verification/Pack_Names.thy ===== *)
theory Pack_Names
  imports Domain Go_Regexp Go_Path Float64 "HOL-Library.Char_ord" "HOL-Library.List_Lexorder"
begin

text \<open>
  What \<open>src/internal/pack/select.go\<close> reads from the name of a file in a subtitle archive: episode tokens, ranges and
  what makes them ambiguous, absolute, compact and plain numbers, and normalized titles. A position in a name counts its
  decoded runes where the code counts bytes; every position comes from a match and so lies between runes. Numbers are
  runs of at most five digits, so \<open>Atoi\<close> does not fail on them.
\<close>

section \<open>Expressions\<close>

text \<open>\<open>(?i)\<close> folds case: \<open>s\<close> also stands for the long s, \<open>k\<close> for the Kelvin sign.\<close>

definition fold_class :: "char \<Rightarrow> nat \<Rightarrow> bool" where
  "fold_class c r \<longleftrightarrow> r = of_char c \<or> r + 32 = of_char c \<or> c = CHR ''s'' \<and> r = 383 \<or> c = CHR ''k'' \<and> r = 8490"

definition Letters :: "string \<Rightarrow> regexp" where
  "Letters w = seq_re (map (\<lambda>c. Class (fold_class c)) w)"

definition blank_class :: "nat \<Rightarrow> bool" where
  "blank_class r \<longleftrightarrow> r = 9 \<or> r = 10 \<or> r = 12 \<or> r = 13 \<or> r = 32"

definition alnum_folded :: "nat \<Rightarrow> bool" where
  "alnum_folded r \<longleftrightarrow> 48 \<le> r \<and> r \<le> 57 \<or> 97 \<le> r \<and> r \<le> 122 \<or> 65 \<le> r \<and> r \<le> 90 \<or> r = 383 \<or> r = 8490"

abbreviation Digits :: "nat \<Rightarrow> nat \<Rightarrow> regexp" where "Digits low high \<equiv> Repeat low (Some high) digit_class"
abbreviation Dot_re :: regexp where "Dot_re \<equiv> Maybe (Text_re ''.'')"

definition season_episode :: "nat \<Rightarrow> nat \<Rightarrow> regexp" where
  "season_episode g h = seq_re [Letters ''s'', Group g (Digits 1 3), Dot_re, Letters ''e'', Group h (Digits 1 4)]"

definition season_cross :: "nat \<Rightarrow> nat \<Rightarrow> regexp" where
  "season_cross g h = seq_re [Group g (Digits 1 3), Letters ''x'', Group h (Digits 1 4)]"

definition episodeTokenPattern :: regexp where
  "episodeTokenPattern = Alt (season_episode 1 2) (season_cross 3 4)"

definition episodeRangePatterns :: "regexp list" where
  "episodeRangePatterns =
     [seq_re [season_episode 1 2, Text_re ''-'', Letters ''e'', Group 3 (Digits 1 4)],
      seq_re [season_episode 1 2, Text_re ''-'', season_episode 3 4],
      seq_re [season_cross 1 2, Text_re ''-'', season_cross 3 4]]"

definition range_endpoint :: regexp where
  "range_endpoint = Alt (season_episode 1 2) (Alt (season_cross 3 4) (Then (Letters ''e'') (Digits 1 4)))"

definition rangeEndpointBeforePattern :: regexp where
  "rangeEndpointBeforePattern = Then range_endpoint Finish"

definition rangeEndpointAfterPattern :: regexp where
  "rangeEndpointAfterPattern = seq_re [Begin, range_endpoint, Alt Finish (Class (\<lambda>r. \<not> alnum_folded r))]"

definition episodeContinuationPattern :: regexp where
  "episodeContinuationPattern =
     Then Begin (Alt (seq_re [Letters ''s'', Digits 1 3, Dot_re, Letters ''e'', Digits 0 4])
       (Alt (seq_re [Digits 1 3, Letters ''x'', Digits 0 4]) (Then (Letters ''e'') (Digits 0 4))))"

definition absolutePattern :: regexp where
  "absolutePattern =
     seq_re [Alt (Then Boundary (Letters ''ep''))
               (seq_re [Boundary, Letters ''abs'', Maybe (Letters ''olute''), Repeat 0 None (one_of '' ._-'')]),
             Group 1 (Digits 2 5), Boundary]"

definition forcedPattern :: regexp where
  "forcedPattern = seq_re [Alt Begin (Class (one_of '' ._-'')), Letters ''forced'', Alt (Class (one_of '' ._-'')) Finish]"

text \<open>All matches in a name, and the number a group holds.\<close>

definition matches_in :: "regexp \<Rightarrow> string \<Rightarrow> (nat \<times> nat \<times> groups) list" where
  "matches_in r name = (let rs = runes name in find_all r rs 0 (length rs))"

definition group_number :: "string \<Rightarrow> groups \<Rightarrow> nat \<Rightarrow> int" where
  "group_number name g n = int (digits_val 0 (group_text (runes name) g n))"

definition part_before :: "string \<Rightarrow> nat \<Rightarrow> string" where
  "part_before name i = slice_text (runes name) 0 i"

definition part_after :: "string \<Rightarrow> nat \<Rightarrow> string" where
  "part_after name i = concat (map snd (drop i (runes name)))"

section \<open>Tokens and ranges\<close>

definition isAlphaNumeric :: "unicode \<Rightarrow> nat \<Rightarrow> bool" where
  "isAlphaNumeric U r \<longleftrightarrow> is_letter U r \<or> is_number U r"

definition hasRangeStartBoundary :: "unicode \<Rightarrow> string \<Rightarrow> nat \<Rightarrow> bool" where
  "hasRangeStartBoundary U name start \<longleftrightarrow> start = 0 \<or> \<not> isAlphaNumeric U (fst (runes name ! (start - 1)))"

definition completeRangeToken :: "unicode \<Rightarrow> string \<Rightarrow> nat \<Rightarrow> nat \<Rightarrow> bool" where
  "completeRangeToken U name start stop' \<longleftrightarrow>
     hasRangeStartBoundary U name start
     \<and> (stop' < length (runes name) \<longrightarrow> \<not> isAlphaNumeric U (fst (runes name ! stop')))"

definition rangeIsChained :: "string \<Rightarrow> nat \<Rightarrow> nat \<Rightarrow> bool" where
  "rangeIsChained name start stop' =
     (let rs = runes name
      in start > 0 \<and> fst (rs ! (start - 1)) = 45 \<and> match_string rangeEndpointBeforePattern (part_before name (start - 1))
         \<or> stop' < length rs \<and> fst (rs ! stop') = 45 \<and> match_string rangeEndpointAfterPattern (part_after name (stop' + 1)))"

definition complete_tokens :: "unicode \<Rightarrow> string \<Rightarrow> (nat \<times> nat \<times> groups) list" where
  "complete_tokens U name = filter (\<lambda>(i, j, _). completeRangeToken U name i j) (matches_in episodeTokenPattern name)"

definition token_numbers :: "string \<Rightarrow> groups \<Rightarrow> int \<times> int" where
  "token_numbers name g =
     (if map_of g 1 \<noteq> None then (group_number name g 1, group_number name g 2)
      else (group_number name g 3, group_number name g 4))"

definition episodeToken :: "unicode \<Rightarrow> string \<Rightarrow> (int \<times> int) option" where
  "episodeToken U name =
     (case complete_tokens U name of [] \<Rightarrow> None | (_, _, g) # _ \<Rightarrow> Some (token_numbers name g))"

definition titleAfterSpacedDash :: regexp where
  "titleAfterSpacedDash = seq_re [Begin, Repeat 1 None (one_of '' ''), Text_re ''-'', Repeat 1 None (one_of '' ''), Finish]"

definition episodeContinuation :: "unicode \<Rightarrow> string \<Rightarrow> nat \<Rightarrow> bool" where
  "episodeContinuation U name offset =
     (let rest = drop offset (runes name);
          suffix = dropWhile (\<lambda>x. is_space (fst x) \<or> one_of ''._-'' (fst x)) rest;
          between = concat (map snd (take (length rest - length suffix) rest))
      in case find_from episodeContinuationPattern suffix 0 (length suffix) of
           None \<Rightarrow> False
         | Some (a, b, _) \<Rightarrow>
             if match_string titleAfterSpacedDash between \<and> \<not> (\<exists>x \<in> set (take b suffix). digit_class (fst x))
                \<and> b < length suffix \<and> fst (suffix ! b) = 32 then False
             else if b = length suffix then True
             else \<not> isAlphaNumeric U (fst (suffix ! b))
                  \<and> \<not> (one_of ''Ee'' (fst (suffix ! (b - 1))) \<and> is_mark U (fst (suffix ! b))))"

record episodeRangeMatch =
  rm_start :: nat
  rm_end :: nat
  rm_groups :: groups
  rm_pattern :: nat

definition rangeLikeEpisodeMatches :: "unicode \<Rightarrow> string \<Rightarrow> episodeRangeMatch list" where
  "rangeLikeEpisodeMatches U name =
     concat (map (\<lambda>(index, pattern). map (\<lambda>(i, j, g). \<lparr>rm_start = i, rm_end = j, rm_groups = g, rm_pattern = index\<rparr>)
       (filter (\<lambda>(i, j, _). completeRangeToken U name i j) (matches_in pattern name))) (List.enumerate 0 episodeRangePatterns))"

text \<open>Season, first and last episode, and the season of the end.\<close>

definition parseRangeMatch :: "string \<Rightarrow> episodeRangeMatch \<Rightarrow> int \<times> int \<times> int \<times> int" where
  "parseRangeMatch name m =
     (let value' = group_number name (rm_groups m)
      in if rm_pattern m = 0 then (value' 1, value' 2, value' 3, value' 1)
         else (value' 1, value' 2, value' 4, value' 3))"

definition acceptedEpisodeRange :: "unicode \<Rightarrow> string \<Rightarrow> episodeRangeMatch \<Rightarrow> (int \<times> int \<times> int) option" where
  "acceptedEpisodeRange U name m =
     (if \<not> completeRangeToken U name (rm_start m) (rm_end m) \<or> rangeIsChained name (rm_start m) (rm_end m)
         \<or> episodeContinuation U name (rm_end m) then None
      else (let (season, first, final, endSeason) = parseRangeMatch name m
            in if season \<le> 0 \<or> first \<le> 0 \<or> final \<le> 0 \<or> endSeason \<noteq> season \<or> first > final then None
               else Some (season, first, final)))"

definition acceptedEpisodeRangeMatch :: "unicode \<Rightarrow> string \<Rightarrow> (episodeRangeMatch \<times> int \<times> int \<times> int) option" where
  "acceptedEpisodeRangeMatch U name =
     (case rangeLikeEpisodeMatches U name of
        [m] \<Rightarrow> map_option (Pair m) (acceptedEpisodeRange U name m)
      | _ \<Rightarrow> None)"

definition episodeRange :: "unicode \<Rightarrow> string \<Rightarrow> (int \<times> int \<times> int) option" where
  "episodeRange U name = map_option snd (acceptedEpisodeRangeMatch U name)"

definition hasMalformedHyphenatedRangeEvidence :: "unicode \<Rightarrow> string \<Rightarrow> bool" where
  "hasMalformedHyphenatedRangeEvidence U name \<longleftrightarrow>
     (\<exists>pattern \<in> set episodeRangePatterns. \<exists>(i, j, _) \<in> set (matches_in pattern name).
        hasRangeStartBoundary U name i \<and> j < length (runes name) \<and> isAlphaNumeric U (fst (runes name ! j)))"

definition hasInvalidOrAmbiguousRangeEvidence :: "unicode \<Rightarrow> string \<Rightarrow> bool" where
  "hasInvalidOrAmbiguousRangeEvidence U name \<longleftrightarrow>
     hasMalformedHyphenatedRangeEvidence U name
     \<or> (\<exists>(i, j, _) \<in> set (complete_tokens U name). episodeContinuation U name j
          \<and> (case acceptedEpisodeRangeMatch U name of None \<Rightarrow> True | Some (m, _) \<Rightarrow> i \<noteq> rm_start m))
     \<or> rangeLikeEpisodeMatches U name \<noteq> [] \<and> acceptedEpisodeRangeMatch U name = None"

text \<open>\<open>ReleaseEpisodeRange\<close>: the range of a release, or that its name is malformed.\<close>

definition ReleaseEpisodeRange :: "unicode \<Rightarrow> string \<Rightarrow> (int \<times> int \<times> int) option \<times> bool" where
  "ReleaseEpisodeRange U name =
     (if hasInvalidOrAmbiguousRangeEvidence U name then (None, True) else (episodeRange U name, False))"

text \<open>The name with the accepted range replaced by a space.\<close>

definition without_range :: "string \<Rightarrow> episodeRangeMatch \<Rightarrow> string" where
  "without_range name m = part_before name (rm_start m) @ '' '' @ part_after name (rm_end m)"

definition removeAcceptedEpisodeRanges :: "unicode \<Rightarrow> string \<Rightarrow> string" where
  "removeAcceptedEpisodeRanges U name =
     (case acceptedEpisodeRangeMatch U name of None \<Rightarrow> name | Some (m, _) \<Rightarrow> without_range name m)"

section \<open>Evidence\<close>

definition absoluteEpisode :: "string \<Rightarrow> int option" where
  "absoluteEpisode name =
     (case find_submatch absolutePattern name of
        None \<Rightarrow> None
      | Some g \<Rightarrow> (let value' = int (digits_val 0 (g 1)) in if value' > 0 then Some value' else None))"

definition hasEpisodeEvidence :: "unicode \<Rightarrow> string \<Rightarrow> bool" where
  "hasEpisodeEvidence U name \<longleftrightarrow>
     match_string episodeTokenPattern name \<or> episodeRange U name \<noteq> None \<or> absoluteEpisode name \<noteq> None"

text \<open>
  The tokens of a name that stand alone, each read again by itself as the code does (\<open>episodeToken\<close> of the token's text).
\<close>

definition token_episodes :: "unicode \<Rightarrow> string \<Rightarrow> (int \<times> int) list" where
  "token_episodes U name =
     map (\<lambda>(i, j, _). case episodeToken U (slice_text (runes name) i j) of None \<Rightarrow> (0, 0) | Some t \<Rightarrow> t) (complete_tokens U name)"

fun absolute_conflict :: "int \<Rightarrow> int list \<Rightarrow> bool" where
  "absolute_conflict absolute [] \<longleftrightarrow> False"
| "absolute_conflict absolute (v # vs) \<longleftrightarrow> absolute > 0 \<and> v \<noteq> absolute \<or> absolute_conflict v vs"

definition conflictingEpisodeEvidence :: "unicode \<Rightarrow> string \<Rightarrow> Media \<Rightarrow> bool" where
  "conflictingEpisodeEvidence U name media =
     (if hasInvalidOrAmbiguousRangeEvidence U name then True
      else let found = acceptedEpisodeRangeMatch U name;
               rest = removeAcceptedEpisodeRanges U name
           in (case found of
                 None \<Rightarrow> False
               | Some (_, season, first, final) \<Rightarrow>
                   season \<noteq> m_season media \<or> m_episode media < first \<or> m_episode media > final)
              \<or> (\<exists>t \<in> set (token_episodes U rest). t \<noteq> (m_season media, m_episode media))
              \<or> absolute_conflict (m_absolute_episode media)
                  (map (\<lambda>(_, _, g). group_number rest g 1) (matches_in absolutePattern rest)))"

definition contradictsRange :: "unicode \<Rightarrow> string \<Rightarrow> Media \<Rightarrow> bool" where
  "contradictsRange U name media =
     (if hasInvalidOrAmbiguousRangeEvidence U name then True
      else (case acceptedEpisodeRangeMatch U name of
              None \<Rightarrow> False
            | Some (_, season, first, final) \<Rightarrow>
                season \<noteq> m_season media \<or> first > m_episode media \<or> final < m_episode_end media)
           \<or> (\<exists>(season, episode) \<in> set (token_episodes U (removeAcceptedEpisodeRanges U name)).
                season \<noteq> m_season media \<or> episode < m_episode media \<or> episode > m_episode_end media))"

end
