(* ===== verification/Pack_Numbers.thy ===== *)
theory Pack_Numbers
  imports Pack_Names
begin

text \<open>
  The weaker readings of a file name in \<open>src/internal/pack/select.go\<close>: normalized titles and their similarity, compact
  numbers (607 for season 6, episode 7), numbered sets and the number in the release name of the media file.
\<close>

section \<open>Titles\<close>

definition replace_matches :: "regexp \<Rightarrow> string \<Rightarrow> string \<Rightarrow> string" where
  "replace_matches r new s =
     (let rs = runes s;
          (pieces, end') = fold (\<lambda>(i, j, _) (pieces, from'). (pieces @ slice_text rs from' i @ new, j)) (matches_in r s) ([], 0)
      in pieces @ slice_text rs end' (length rs))"

definition title_rune :: "string \<times> bool \<Rightarrow> nat \<Rightarrow> string \<times> bool" where
  "title_rune st r =
     (let (built, space) = st
      in if 97 \<le> r \<and> r \<le> 122 \<or> 48 \<le> r \<and> r \<le> 57 \<or> r > 127
         then ((if space \<and> built \<noteq> [] then built @ '' '' else built) @ encode_rune r, False)
         else (built, True))"

definition normalizeTitle :: "unicode \<Rightarrow> string \<Rightarrow> string" where
  "normalizeTitle U value' = fst (foldl title_rune ([], False) (map fst (runes (to_lower U value'))))"

definition filenameTitle :: "unicode \<Rightarrow> string \<Rightarrow> string \<Rightarrow> string" where
  "filenameTitle U name seriesTitle =
     (let stem = trim_suffix (filepath_Base name) (filepath_Ext name);
          bare = replace_matches forcedPattern '' '' (replace_matches absolutePattern '' ''
                   (replace_matches episodeTokenPattern '' '' (removeAcceptedEpisodeRanges U stem)));
          normalized = normalizeTitle U bare; series = normalizeTitle U seriesTitle
      in if series \<noteq> [] \<and> has_prefix normalized (series @ '' '') then trim_space (trim_prefix normalized series)
         else normalized)"

text \<open>The edit distance row by row: \<open>next_row\<close> is one turn of the outer loop, given the row above it.\<close>

fun row_cells :: "nat \<Rightarrow> nat list \<Rightarrow> nat \<Rightarrow> nat list \<Rightarrow> nat list" where
  "row_cells left (diagonal # up # prev) r (s # b) =
     (let cell = min (min (left + 1) (up + 1)) (diagonal + (if r \<noteq> s then 1 else 0))
      in cell # row_cells cell (up # prev) r b)"
| "row_cells left prev r b = []"

definition next_row :: "nat list \<Rightarrow> nat list \<Rightarrow> nat \<times> nat \<Rightarrow> nat list" where
  "next_row b previous ir = (let (i, r) = ir in (i + 1) # row_cells (i + 1) previous r b)"

definition edit_cost :: "nat list \<Rightarrow> nat list \<Rightarrow> nat" where
  "edit_cost a b = last (foldl (next_row b) [0 ..< length b + 1] (List.enumerate 0 a))"

definition similarity :: "string \<Rightarrow> string \<Rightarrow> rat" where
  "similarity left right =
     (let a = map fst (runes left); b = map fst (runes right); maximum = max (length a) (length b)
      in if maximum = 0 then 1 else rnd (1 - rnd (of_nat (edit_cost a b) / of_nat maximum)))"

section \<open>Compact numbers\<close>

definition leadingGroupTag :: regexp where
  "leadingGroupTag =
     seq_re [Begin, Repeat 0 None blank_class, Text_re ''['', Group 1 (Repeat 0 None (\<lambda>r. r \<noteq> 93)), Text_re '']'']"

definition spacedDashBefore :: regexp where
  "spacedDashBefore = seq_re [Class blank_class, Text_re ''-'', Repeat 1 None blank_class, Finish]"

definition titleDashAfter :: "unicode \<Rightarrow> regexp" where
  "titleDashAfter U =
     seq_re [Begin, Repeat 1 None blank_class, Text_re ''-'', Repeat 1 None blank_class, Class (is_letter U)]"

definition animeGroupTagged :: "unicode \<Rightarrow> string \<Rightarrow> bool" where
  "animeGroupTagged U name =
     (case find_submatch leadingGroupTag name of
        None \<Rightarrow> False
      | Some g \<Rightarrow> (let tag = to_lower U (g 1) in \<not> contains_str tag ''.'' \<and> \<not> contains_str tag ''www''))"

definition compactVideoNumbers :: "string list" where
  "compactVideoNumbers = [''264'', ''265'', ''480'', ''576'', ''720'']"

record compactNumber =
  cn_value :: int
  cn_season :: int
  cn_episode :: int
  cn_absolute :: bool

definition compact_parts :: "string \<Rightarrow> string list" where
  "compact_parts run =
     (if length run = 3 then [run]
      else if length run = 6 \<and> run ! 0 = run ! 3 \<and> take 2 (drop 1 run) < take 2 (drop 4 run) then [take 3 run, drop 3 run]
      else [])"

definition compact_number :: "bool \<Rightarrow> string \<Rightarrow> compactNumber" where
  "compact_number absolute part =
     (let value' = int (digits_val 0 part)
      in \<lparr>cn_value = value', cn_season = value' div 100, cn_episode = value' mod 100, cn_absolute = absolute\<rparr>)"

text \<open>The loop over the bytes of the name: those before the position, and the rest.\<close>

function compact_scan :: "(string \<Rightarrow> string \<Rightarrow> bool) \<Rightarrow> string \<Rightarrow> string \<Rightarrow> string \<Rightarrow> compactNumber list" where
  "compact_scan absolute titleDigits front [] = []"
| "compact_scan absolute titleDigits front (c # cs) =
     (if \<not> is_dec c then compact_scan absolute titleDigits (front @ [c]) cs
      else (let run = takeWhile is_dec (c # cs); after = dropWhile is_dec cs;
                separated = (front = [] \<or> last front \<in> set '' ._-[('') \<and> (after = [] \<or> hd after \<in> set '' ._-])'');
                parts = (if separated then compact_parts run else [])
            in map (compact_number (absolute front after))
                 (filter (\<lambda>part. \<not> (hd part = CHR ''0'' \<or> part \<in> set compactVideoNumbers
                                     \<or> titleDigits \<noteq> [] \<and> contains_str titleDigits part)) parts)
               @ compact_scan absolute titleDigits (front @ run) after))"
  by pat_completeness auto
termination
  by (relation "measure (\<lambda>(_, _, _, s). length s)") (auto intro: le_imp_less_Suc length_dropWhile_le)

definition compactNumbers :: "unicode \<Rightarrow> string \<Rightarrow> string \<Rightarrow> bool \<Rightarrow> compactNumber list" where
  "compactNumbers U name title anime =
     (if hasEpisodeEvidence U name then []
      else compact_scan (\<lambda>front after. animeGroupTagged U name
               \<or> anime \<and> match_string spacedDashBefore front \<and> \<not> match_string (titleDashAfter U) after)
             (filter is_dec title) [] name)"

definition compactNamesTarget :: "compactNumber \<Rightarrow> Media \<Rightarrow> bool" where
  "compactNamesTarget number media =
     (if m_season media < 1 \<or> m_season media > 9 \<or> m_episode media < 1 \<or> m_episode media > 99 then False
      else if cn_season number \<noteq> m_season media \<or> cn_episode number \<noteq> m_episode media then False
      else if m_absolute_episode media > 0 \<and> cn_value number = m_absolute_episode media then True
      else if cn_absolute number then False
      else m_absolute_episode media \<le> 0 \<or> cn_value number - m_absolute_episode media \<ge> 100)"

definition compactEpisodeMatches :: "unicode \<Rightarrow> string \<Rightarrow> Media \<Rightarrow> bool" where
  "compactEpisodeMatches U name media =
     (case compactNumbers U name (m_title media) (Anime media) of
        [number] \<Rightarrow> compactNamesTarget number media
      | _ \<Rightarrow> False)"

definition compactNamesOtherEpisode :: "unicode \<Rightarrow> string \<Rightarrow> Media \<Rightarrow> bool" where
  "compactNamesOtherEpisode U name media =
     (let numbers = compactNumbers U name (m_title media) (Anime media)
      in \<exists>number \<in> set numbers. cn_value number \<noteq> m_absolute_episode media
           \<and> (length numbers > 1 \<or> \<not> compactNamesTarget number media))"

section \<open>Numbered sets\<close>

definition seasonEpisodePrefix :: regexp where
  "seasonEpisodePrefix =
     seq_re [Begin, Group 1 (Digits 1 2), Text_re ''-'', Group 2 (Digits 1 3), Class (\<lambda>r. blank_class r \<or> one_of ''._'' r)]"

definition partNumber :: regexp where
  "partNumber =
     (let gap = (\<lambda>r. blank_class r \<or> one_of ''._-'' r)
      in seq_re [Alt Begin (Class gap), Letters ''part'', Repeat 0 None gap, Group 1 (Digits 1 2), Alt (Class gap) Finish])"

definition leadingNumber :: regexp where
  "leadingNumber =
     seq_re [Begin, Group 1 (Digits 1 3), Repeat 0 None blank_class, Class (one_of ''-.''), Repeat 1 None blank_class,
       Class (\<lambda>r. \<not> blank_class r)]"

text \<open>\<open>None\<close> where the code returns false.\<close>

definition numberedEpisode :: "unicode \<Rightarrow> string \<Rightarrow> int \<Rightarrow> int option" where
  "numberedEpisode U name season =
     (let base = filepath_Base (replace_all [CHR 92] ''/'' name);
          positive = (\<lambda>episode. if episode > 0 then Some episode else None);
          number = (\<lambda>g n. int (digits_val 0 (g n)))
      in if hasEpisodeEvidence U base \<or> hasInvalidOrAmbiguousRangeEvidence U base then None
         else case find_submatch seasonEpisodePrefix base of
                Some g \<Rightarrow> if number g 1 = season then positive (number g 2) else None
              | None \<Rightarrow>
                  if season \<noteq> 1 then None
                  else (let stem = trim_suffix base (filepath_Ext base)
                        in case find_submatch partNumber stem of
                             Some g \<Rightarrow> positive (number g 1)
                           | None \<Rightarrow>
                               (case find_submatch leadingNumber stem of
                                  Some g \<Rightarrow> positive (number g 1)
                                | None \<Rightarrow> None)))"

section \<open>The number of the media file's release\<close>

definition ReleaseEpisode :: "unicode \<Rightarrow> Media \<Rightarrow> (int \<times> int) option" where
  "ReleaseEpisode U media =
     (let name = (if m_release_name media = [] then filepath_Base (m_original_filename media) else m_release_name media)
      in if name = [] \<or> name = ''.'' \<or> hasInvalidOrAmbiguousRangeEvidence U name then None
         else if episodeRange U name \<noteq> None then None
         else if length (complete_tokens U name) \<noteq> 1 then None
         else case episodeToken U name of
                None \<Rightarrow> None
              | Some (season, episode) \<Rightarrow>
                  if season = 0 \<or> season = m_season media then None else Some (season, episode))"

end
