(* ===== verification/Pack_Titles.thy ===== *)
theory Pack_Titles
  imports Pack_Numbers
begin

text \<open>
  The title comparison of \<open>src/internal/pack/select.go\<close> counts the edits between two titles: the rows that \<open>similarity\<close>
  computes hold the least cost of an alignment of the titles' prefixes.
\<close>

section \<open>Alignments\<close>

text \<open>
  An alignment of two rune sequences deletes, inserts or replaces runes, each at a cost of one, and keeps the others.
\<close>

inductive alignment :: "nat \<Rightarrow> nat list \<Rightarrow> nat list \<Rightarrow> bool" where
  none: "alignment 0 [] []"
| deleted: "alignment n a b \<Longrightarrow> alignment (Suc n) (r # a) b"
| inserted: "alignment n a b \<Longrightarrow> alignment (Suc n) a (s # b)"
| replaced: "alignment n a b \<Longrightarrow> alignment (Suc n) (r # a) (s # b)"
| kept: "alignment n a b \<Longrightarrow> alignment n (r # a) (r # b)"

fun edits :: "nat list \<Rightarrow> nat list \<Rightarrow> nat" where
  "edits [] b = length b"
| "edits (r # a) [] = Suc (length a)"
| "edits (r # a) (s # b) = min (min (edits (r # a) b + 1) (edits a (s # b) + 1)) (edits a b + (if r \<noteq> s then 1 else 0))"

lemma edits_Nil [simp]: "edits a [] = length a"
  by (cases a) simp_all

lemma edits_alignment: "alignment (edits a b) a b"
proof (induction a b rule: edits.induct)
  case (1 b)
  show ?case by (induction b) (auto intro: alignment.intros)
next
  case (2 r a)
  have "alignment (length c) c []" for c by (induction c) (auto intro: alignment.intros)
  from this [of "r # a"] show ?case by simp
next
  case (3 r a s b)
  have "edits (r # a) (s # b) = Suc (edits (r # a) b) \<or> edits (r # a) (s # b) = Suc (edits a (s # b))
      \<or> edits (r # a) (s # b) = Suc (edits a b) \<or> r = s \<and> edits (r # a) (s # b) = edits a b"
    by (auto simp: min_def)
  with alignment.inserted [OF 3(1), of s] alignment.deleted [OF 3(2), of r] alignment.replaced [OF 3(3), of r s]
    alignment.kept [OF 3(3), of r] show ?case by metis
qed

lemma edits_least: "alignment n a b \<Longrightarrow> edits a b \<le> n"
proof (induction rule: alignment.induct)
  case (deleted n a b r)
  then show ?case by (cases b) auto
next
  case (inserted n a b s)
  then show ?case by (cases a) auto
qed auto

lemma edits_Least: "edits a b = (LEAST n. alignment n a b)"
  by (rule sym [OF Least_equality]) (auto intro: edits_alignment edits_least)

lemma alignment_append: "alignment n a b \<Longrightarrow> alignment m c d \<Longrightarrow> alignment (n + m) (a @ c) (b @ d)"
  by (induction rule: alignment.induct) (auto intro: alignment.intros)

lemma alignment_rev: "alignment n a b \<Longrightarrow> alignment n (rev a) (rev b)"
proof (induction rule: alignment.induct)
  case (deleted n a b r)
  from alignment_append [OF deleted.IH alignment.deleted [OF alignment.none]] show ?case by simp
next
  case (inserted n a b s)
  from alignment_append [OF inserted.IH alignment.inserted [OF alignment.none]] show ?case by simp
next
  case (replaced n a b r s)
  from alignment_append [OF replaced.IH alignment.replaced [OF alignment.none]] show ?case by simp
next
  case (kept n a b r)
  from alignment_append [OF kept.IH alignment.kept [OF alignment.none]] show ?case by simp
qed (simp add: alignment.none)

lemma alignment_swap: "alignment n a b \<Longrightarrow> alignment n b a"
  by (induction rule: alignment.induct) (auto intro: alignment.intros)

lemma edits_rev: "edits (rev a) (rev b) = edits a b"
  by (rule antisym; metis alignment_rev edits_alignment edits_least rev_rev_ident)

lemma edits_swap: "edits a b = edits b a"
  by (rule antisym; metis alignment_swap edits_alignment edits_least)

lemma edits_le_max: "edits a b \<le> max (length a) (length b)"
  by (induction a b rule: edits.induct) auto

lemma edits_zero: "edits a b = 0 \<longleftrightarrow> a = b"
  by (induction a b rule: edits.induct) (auto simp: min_def)

section \<open>The rows\<close>

text \<open>The cost between a prefix of one title and every extension of a prefix of the other, read from the left.\<close>

abbreviation between :: "nat list \<Rightarrow> nat list \<Rightarrow> nat" where "between p q \<equiv> edits (rev p) (rev q)"

fun costs :: "nat list \<Rightarrow> nat list \<Rightarrow> nat list \<Rightarrow> nat list" where
  "costs p q [] = [between p q]"
| "costs p q (s # b) = between p q # costs p (q @ [s]) b"

lemma costs_Cons: "costs p q b = between p q # tl (costs p q b)"
  by (cases b) simp_all

lemma costs_last: "last (costs p q b) = between p (q @ b)"
proof (induction b arbitrary: q)
  case (Cons s b)
  have "costs p (q @ [s]) b \<noteq> []" by (cases b) simp_all
  with Cons show ?case by simp
qed simp

lemma costs_start: "costs [] q b = [length q ..< length q + length b + 1]"
proof (induction b arbitrary: q)
  case (Cons s b)
  have "[length q ..< length q + length (s # b) + 1] = length q # [Suc (length q) ..< Suc (length q) + length b + 1]"
    by (subst upt_conv_Cons) simp_all
  with Cons [of "q @ [s]"] show ?case by simp
qed simp

lemma row_cells_costs: "row_cells (between (p @ [r]) q) (costs p q b) r b = tl (costs (p @ [r]) q b)"
proof (induction b arbitrary: q)
  case (Cons s b)
  obtain rest where rest: "costs p (q @ [s]) b = between p (q @ [s]) # rest" using costs_Cons by metis
  have cell: "between (p @ [r]) (q @ [s])
      = min (min (between (p @ [r]) q + 1) (between p (q @ [s]) + 1)) (between p q + (if r \<noteq> s then 1 else 0))"
    by simp
  have "row_cells (between (p @ [r]) q) (costs p q (s # b)) r (s # b)
      = between (p @ [r]) (q @ [s]) # row_cells (between (p @ [r]) (q @ [s])) (costs p (q @ [s]) b) r b"
    unfolding costs.simps(2) rest row_cells.simps(1) Let_def cell ..
  also have "\<dots> = between (p @ [r]) (q @ [s]) # tl (costs (p @ [r]) (q @ [s]) b)" unfolding Cons.IH ..
  also have "\<dots> = costs (p @ [r]) (q @ [s]) b" by (rule costs_Cons [symmetric])
  finally show ?case by simp
qed simp

lemma rows_costs: "foldl (next_row b) (costs p [] b) (List.enumerate (length p) a) = costs (p @ a) [] b"
proof (induction a arbitrary: p)
  case (Cons r a)
  have "next_row b (costs p [] b) (length p, r) = costs (p @ [r]) [] b"
    using row_cells_costs [of p r "[]" b] costs_Cons [of "p @ [r]" "[]" b] by (simp add: next_row_def)
  with Cons [of "p @ [r]"] show ?case by simp
qed simp

lemma edit_cost_edits: "edit_cost a b = edits a b"
  using rows_costs [of b "[]" a] costs_start [of "[]" b] costs_last [of a "[]" b]
  by (simp add: edit_cost_def edits_rev)

lemma similarity_bounds: "0 \<le> similarity left right" "similarity left right \<le> 1"
proof -
  have share: "0 \<le> rnd (of_nat n / of_nat m)" "rnd (of_nat n / of_nat m) \<le> 1" if "n \<le> m" for n m :: nat
  proof -
    show "0 \<le> rnd (of_nat n / of_nat m)" by (rule rnd_nonneg) simp
    have "of_nat n / of_nat m \<le> (1 :: rat)" using that by (cases "m = 0") (simp_all add: divide_le_eq)
    then show "rnd (of_nat n / of_nat m) \<le> 1" using rnd_mono [of _ 1] by simp
  qed
  have cost: "edit_cost a b \<le> max (length a) (length b)" for a b unfolding edit_cost_edits by (rule edits_le_max)
  have "0 \<le> rnd (1 - x) \<and> rnd (1 - x) \<le> 1" if "0 \<le> x" "x \<le> 1" for x :: rat
    using rnd_nonneg [of "1 - x"] rnd_mono [of "1 - x" 1] that by simp
  from this [OF share [OF cost [of "map fst (runes left)" "map fst (runes right)"]]] show "0 \<le> similarity left right" "similarity left right \<le> 1"
    by (simp_all add: similarity_def Let_def)
qed

text \<open>C24: the similarity of two titles is the edit distance the code means. The rows end with the least number of runes to
  insert, delete or replace; it is symmetric, zero only for equal titles and at most the longer length, and the
  similarity computed from it in floating point stays between 0 and 1, is symmetric and is 1 for equal titles.\<close>

theorem title_similarity_is_edit_distance:
  "edit_cost a b = (LEAST n. alignment n a b) \<and> edit_cost a b = edit_cost b a \<and> (edit_cost a b = 0 \<longleftrightarrow> a = b)
   \<and> edit_cost a b \<le> max (length a) (length b) \<and> 0 \<le> similarity left right \<and> similarity left right \<le> 1
   \<and> similarity left right = similarity right left \<and> similarity left left = 1"
proof -
  have swap: "similarity left right = similarity right left"
    unfolding similarity_def Let_def edit_cost_edits
    by (simp only: max.commute [of "length (map fst (runes left))"] edits_swap [of "map fst (runes left)"])
  have same: "similarity left left = 1" using edits_zero [of "map fst (runes left)" "map fst (runes left)"]
    by (simp add: similarity_def Let_def edit_cost_edits)
  show ?thesis
    unfolding edit_cost_edits
    by (intro conjI edits_Least edits_zero edits_le_max similarity_bounds swap same) (rule edits_swap)
qed

end
