(* ===== verification/Pack_Select.thy ===== *)
theory Pack_Select
  imports Pack_Numbers Match_Score
begin

text \<open>
  The choice of a subtitle archive's members: \<open>Select\<close>, \<open>SelectSingleEpisode\<close> and \<open>selectRange\<close>
  (\<open>src/internal/pack/select.go\<close>), the versions of an episode (\<open>alternatives.go\<close>) and of a film
  (\<open>movie_versions.go\<close>), and the packs recognized by what they hold (\<open>runtime.go\<close>). Each rule of \<open>Select\<close> is the list of
  members it matches; the first rule that matches any decides.
\<close>

section \<open>Members and errors\<close>

record Member =
  mb_safe_name :: string
  mb_normalized_path :: string
  mb_checksum :: string
  mb_byte_size :: int
  mb_season :: int
  mb_episode_from :: int
  mb_episode_to :: int
  mb_absolute_from :: int
  mb_absolute_to :: int
  mb_normalized_title :: string
  mb_forced :: bool
  mb_selection_rule :: string
  mb_selection_evidence :: string

record Manifest =
  mf_runtime_pack :: bool
  mf_provider_id :: string
  mf_result_id :: string
  mf_language :: language
  mf_checksum :: string
  mf_archive_type :: string
  mf_candidate :: Candidate
  mf_members :: "Member list"
  mf_skipped_members :: int

record SelectionError =
  se_reason :: string
  se_rule :: string
  se_archive_type :: string
  se_member_count :: int
  se_matching :: int

definition selectionError :: "Manifest \<Rightarrow> string \<Rightarrow> int \<Rightarrow> string \<Rightarrow> SelectionError" where
  "selectionError manifest rule matching reason =
     \<lparr>se_reason = reason, se_rule = rule, se_archive_type = mf_archive_type manifest,
      se_member_count = int (length (mf_members manifest)), se_matching = matching\<rparr>"

definition memberEvidence :: "unicode \<Rightarrow> string \<Rightarrow> string \<Rightarrow> Member" where
  "memberEvidence U name seriesTitle =
     (let ((season, first, final), absolute) =
            (case episodeRange U name of
               Some r \<Rightarrow> (r, 0)
             | None \<Rightarrow>
                 (case episodeToken U name of
                    Some (season, episode) \<Rightarrow> ((season, episode, episode), 0)
                  | None \<Rightarrow> ((0, 0, 0), case absoluteEpisode name of None \<Rightarrow> 0 | Some a \<Rightarrow> a)))
      in \<lparr>mb_safe_name = name, mb_normalized_path = [], mb_checksum = [], mb_byte_size = 0, mb_season = season,
          mb_episode_from = first, mb_episode_to = final, mb_absolute_from = absolute, mb_absolute_to = absolute,
          mb_normalized_title = filenameTitle U name seriesTitle, mb_forced = match_string forcedPattern name,
          mb_selection_rule = [], mb_selection_evidence = []\<rparr>)"

definition eligibleMembers :: "Member list \<Rightarrow> bool \<Rightarrow> Member list" where
  "eligibleMembers members wantForced =
     filter (\<lambda>m. mb_forced m = wantForced)
       (map (\<lambda>m. m\<lparr>mb_forced := mb_forced m \<or> match_string forcedPattern (mb_safe_name m)\<rparr>) members)"

text \<open>\<open>None\<close> when the rule matched nothing and the next one is tried.\<close>

definition uniqueRule :: "Manifest \<Rightarrow> Member list \<Rightarrow> string \<Rightarrow> string \<Rightarrow> (SelectionError, Member) result option" where
  "uniqueRule manifest matches rule evidence =
     (case matches of
        [] \<Rightarrow> None
      | [m] \<Rightarrow> Some (Ok (m\<lparr>mb_selection_rule := rule, mb_selection_evidence := evidence\<rparr>))
      | _ \<Rightarrow> Some (Err (selectionError manifest rule (int (length matches)) (rule @ '' matched multiple members''))))"

section \<open>The rules\<close>

definition directMatchesMedia :: "PackMemberRef \<Rightarrow> Media \<Rightarrow> bool" where
  "directMatchesMedia direct media \<longleftrightarrow>
     pm_episode direct = m_episode media \<and> (pm_season direct = 0 \<or> pm_season direct = m_season media)
     \<or> m_absolute_episode media > 0 \<and> pm_absolute_episode direct = m_absolute_episode media"

text \<open>A member is taken once, by its lower-case name, however many references name it.\<close>

definition add_unseen :: "unicode \<Rightarrow> Member \<Rightarrow> Member list \<Rightarrow> Member list" where
  "add_unseen U m matches =
     (if to_lower U (mb_safe_name m) \<in> set (map (to_lower U \<circ> mb_safe_name) matches) then matches else matches @ [m])"

definition direct_matches :: "unicode \<Rightarrow> Candidate \<Rightarrow> Media \<Rightarrow> Member list \<Rightarrow> Member list" where
  "direct_matches U candidate media members =
     (case c_pack candidate of
        None \<Rightarrow> []
      | Some pack \<Rightarrow>
          fold (add_unseen U)
            (concat (map (\<lambda>direct. filter (\<lambda>m. EqualFold U (filepath_Base (pm_filename direct)) (mb_safe_name m)) members)
               (filter (\<lambda>direct. directMatchesMedia direct media) (pk_direct_members pack)))) [])"

definition token_matches :: "unicode \<Rightarrow> Media \<Rightarrow> Member list \<Rightarrow> Member list" where
  "token_matches U media members =
     filter (\<lambda>m. \<not> hasInvalidOrAmbiguousRangeEvidence U (mb_safe_name m) \<and> episodeRange U (mb_safe_name m) = None
               \<and> episodeToken U (mb_safe_name m) = Some (m_season media, m_episode media)) members"

definition range_matches :: "unicode \<Rightarrow> Media \<Rightarrow> Member list \<Rightarrow> Member list" where
  "range_matches U media members =
     filter (\<lambda>m. \<not> hasInvalidOrAmbiguousRangeEvidence U (mb_safe_name m)
               \<and> (case episodeRange U (mb_safe_name m) of
                    None \<Rightarrow> False
                  | Some (season, first, final) \<Rightarrow>
                      season = m_season media \<and> first \<le> m_episode media \<and> m_episode media \<le> final)) members"

definition absolute_matches :: "Media \<Rightarrow> Member list \<Rightarrow> Member list" where
  "absolute_matches media members =
     (if m_absolute_episode media > 0
      then filter (\<lambda>m. absoluteEpisode (mb_safe_name m) = Some (m_absolute_episode media)) members else [])"

definition numberedEpisodeMatches :: "unicode \<Rightarrow> Member list \<Rightarrow> Media \<Rightarrow> Member list" where
  "numberedEpisodeMatches U members media =
     (let number = (\<lambda>m. numberedEpisode U (mb_safe_name m) (m_season media))
      in if length (filter (\<lambda>m. number m \<noteq> None) members) < 3 then []
         else filter (\<lambda>m. number m = Some (m_episode media)) members)"

definition title_matches :: "unicode \<Rightarrow> Media \<Rightarrow> Member list \<Rightarrow> Member list" where
  "title_matches U media members =
     (let wanted = normalizeTitle U (m_episode_title media)
      in if length (runes wanted) > 4
         then filter (\<lambda>m. \<not> hasInvalidOrAmbiguousRangeEvidence U (mb_safe_name m) \<and> \<not> hasEpisodeEvidence U (mb_safe_name m)
                \<and> mb_normalized_title m \<noteq> []
                \<and> similarity wanted (normalizeTitle U (mb_normalized_title m)) \<ge> rnd (98 / 100)) members
         else [])"

text \<open>The last episode the pack gives the release's season and Arr's season.\<close>

definition last_episodes :: "unicode \<Rightarrow> Member list \<Rightarrow> int \<Rightarrow> int \<Rightarrow> int \<times> int" where
  "last_episodes U members arrSeason releaseSeason =
     foldl (\<lambda>(releaseLast, arrLast) m.
       if episodeRange U (mb_safe_name m) \<noteq> None then (releaseLast, arrLast)
       else case episodeToken U (mb_safe_name m) of
              None \<Rightarrow> (releaseLast, arrLast)
            | Some (season, episode) \<Rightarrow>
                if season = releaseSeason \<and> episode > releaseLast then (episode, arrLast)
                else if season = arrSeason \<and> episode > arrLast then (releaseLast, episode)
                else (releaseLast, arrLast)) (0, 0) members"

definition packUsesArrNumbering :: "unicode \<Rightarrow> Member list \<Rightarrow> int \<Rightarrow> int \<Rightarrow> bool" where
  "packUsesArrNumbering U members arrSeason releaseSeason =
     (let (releaseLast, arrLast) = last_episodes U members arrSeason releaseSeason in arrLast > releaseLast)"

definition release_matches :: "unicode \<Rightarrow> Media \<Rightarrow> Member list \<Rightarrow> Member list" where
  "release_matches U media unfiltered =
     (case ReleaseEpisode U media of
        None \<Rightarrow> []
      | Some (season, episode) \<Rightarrow>
          if packUsesArrNumbering U unfiltered (m_season media) season then []
          else filter (\<lambda>m. \<not> conflictingEpisodeEvidence U (mb_safe_name m) (media\<lparr>m_season := season, m_episode := episode\<rparr>)
                 \<and> episodeRange U (mb_safe_name m) = None \<and> episodeToken U (mb_safe_name m) = Some (season, episode)) unfiltered)"

definition two_digits :: "int \<Rightarrow> string" where
  "two_digits n = (if 0 \<le> n \<and> n < 10 then ''0'' @ itoa n else itoa n)"

definition numbered_as :: "int \<Rightarrow> int \<Rightarrow> string" where
  "numbered_as season episode = ''S'' @ two_digits season @ ''E'' @ two_digits episode"

definition release_number :: "unicode \<Rightarrow> Media \<Rightarrow> string" where
  "release_number U media = (case ReleaseEpisode U media of None \<Rightarrow> [] | Some (season, episode) \<Rightarrow> numbered_as season episode)"

definition select_rules :: "unicode \<Rightarrow> Candidate \<Rightarrow> Media \<Rightarrow> Member list \<Rightarrow> (Member list \<times> string \<times> string) list" where
  "select_rules U candidate media unfiltered =
     (let members = filter (\<lambda>m. \<not> conflictingEpisodeEvidence U (mb_safe_name m) media) unfiltered;
          number = numbered_as (m_season media) (m_episode media)
      in [(direct_matches U candidate media members, ''provider_direct'', ''provider supplied a direct member for the target episode''),
          (token_matches U media members, ''episode_token'', ''filename identifies '' @ number),
          (range_matches U media members, ''episode_range'', ''filename range contains '' @ number),
          (absolute_matches media members, ''absolute_episode'',
             ''filename identifies absolute episode '' @ itoa (m_absolute_episode media)),
          (filter (\<lambda>m. compactEpisodeMatches U (mb_safe_name m) media) members, ''compact_episode'',
             ''filename numbers the episode '' @ itoa (m_season media) @ two_digits (m_episode media)),
          (numberedEpisodeMatches U members media, ''numbered_episode'',
             ''numbered set without episode tokens identifies episode '' @ itoa (m_episode media)),
          (title_matches U media members, ''episode_title'', ''normalized episode title similarity is at least 0.98''),
          (release_matches U media unfiltered, ''release_episode_token'',
             ''filename identifies '' @ release_number U media @ '', the media release's own number'')])"

fun try_rules :: "Manifest \<Rightarrow> (Member list \<times> string \<times> string) list \<Rightarrow> (SelectionError, Member) result" where
  "try_rules manifest [] = Err (selectionError manifest ''none'' 0 ''no unique member identifies the target episode'')"
| "try_rules manifest ((matches, rule, evidence) # rules) =
     (case uniqueRule manifest matches rule evidence of Some decided \<Rightarrow> decided | None \<Rightarrow> try_rules manifest rules)"

definition selectRange :: "unicode \<Rightarrow> Manifest \<Rightarrow> Member list \<Rightarrow> Media \<Rightarrow> (SelectionError, Member) result" where
  "selectRange U manifest members media =
     (let matches = filter (\<lambda>m. \<not> contradictsRange U (mb_safe_name m) media
            \<and> (case episodeRange U (mb_safe_name m) of
                 None \<Rightarrow> False
               | Some (season, first, final) \<Rightarrow>
                   season = m_season media \<and> first \<le> m_episode media \<and> m_episode_end media \<le> final)) members
      in case uniqueRule manifest matches ''episode_range'' (''filename range covers ''
                @ numbered_as (m_season media) (m_episode media) @ ''-E'' @ two_digits (m_episode_end media)) of
           Some decided \<Rightarrow> decided
         | None \<Rightarrow> Err (selectionError manifest ''none'' 0 ''no unique member covers the target episode range''))"

definition Select :: "unicode \<Rightarrow> Manifest \<Rightarrow> Candidate \<Rightarrow> Media \<Rightarrow> bool \<Rightarrow> (SelectionError, Member) result" where
  "Select U manifest candidate media wantForced =
     (let members = eligibleMembers (mf_members manifest) wantForced
      in if members = [] then Err (selectionError manifest ''forced_policy'' 0 ''no members satisfy the forced-subtitle policy'')
         else if IsEpisodeRange media then selectRange U manifest members media
         else try_rules manifest (select_rules U candidate media members))"

definition SelectSingleEpisode :: "unicode \<Rightarrow> Manifest \<Rightarrow> Candidate \<Rightarrow> Media \<Rightarrow> bool \<Rightarrow> (SelectionError, Member) result" where
  "SelectSingleEpisode U manifest candidate media wantForced =
     (let selected = Select U manifest candidate media wantForced;
          failed = (case selected of
             Err e \<Rightarrow> e | Ok _ \<Rightarrow> selectionError manifest ''none'' 0 ''no unique member identifies the target episode'');
          members = eligibleMembers (mf_members manifest) wantForced
      in if (case selected of Ok m \<Rightarrow> mb_selection_rule m \<noteq> ''release_episode_token'' | Err _ \<Rightarrow> False) then selected
         else case members of
                [m] \<Rightarrow>
                  if IsEpisodeRange media then
                    (if c_pack candidate = None \<and> \<not> contradictsRange U (mb_safe_name m) media
                     then Ok (m\<lparr>mb_selection_rule := ''single_range'',
                        mb_selection_evidence := ''single subtitle member does not contradict the target episode range''\<rparr>)
                     else Err failed)
                  else if c_pack candidate = None \<and> mf_skipped_members manifest = 0
                     \<and> \<not> hasInvalidOrAmbiguousRangeEvidence U (mb_safe_name m) \<and> \<not> hasEpisodeEvidence U (mb_safe_name m)
                     \<and> \<not> compactNamesOtherEpisode U (mb_safe_name m) media
                  then Ok (m\<lparr>mb_selection_rule := ''single_generic'',
                        mb_selection_evidence := ''single subtitle member has no conflicting episode evidence''\<rparr>)
                  else Err failed
              | _ \<Rightarrow> Err failed)"

end
