(* ===== verification/Pack_Versions.thy ===== *)
theory Pack_Versions
  imports Pack_Select
begin

text \<open>
  Several versions of one subtitle in an archive: \<open>SelectUntriedAlternatives\<close> (\<open>src/internal/pack/alternatives.go\<close>) for an
  episode, \<open>SelectMovieAlternatives\<close> (\<open>movie_versions.go\<close>) for a film; and the packs recognized by what they hold
  (\<open>runtime.go\<close>). \<open>slices.SortFunc\<close> is the stable sort here: the names of an archive's members differ.
\<close>

section \<open>Versions of an episode\<close>

definition maxEpisodeVersions :: nat where "maxEpisodeVersions = 3"

datatype 'e version_error = SelectionFailed SelectionError | TriedFailed 'e

text \<open>A file with the checksum of an earlier one is left out; an empty checksum is no checksum.\<close>

definition add_distinct :: "Member \<Rightarrow> Member list \<Rightarrow> Member list" where
  "add_distinct m kept = (if mb_checksum m \<noteq> [] \<and> mb_checksum m \<in> set (map mb_checksum kept) then kept else kept @ [m])"

definition distinct_versions :: "Member list \<Rightarrow> Member list" where
  "distinct_versions members = fold add_distinct members []"

text \<open>The members that are selected alone by the rule that was ambiguous.\<close>

definition selected_alone :: "unicode \<Rightarrow> Manifest \<Rightarrow> Candidate \<Rightarrow> Media \<Rightarrow> bool \<Rightarrow> string \<Rightarrow> Member list" where
  "selected_alone U manifest candidate media wantForced rule =
     concat (map (\<lambda>m. case Select U (manifest\<lparr>mf_members := [m]\<rparr>) candidate media wantForced of
         Err _ \<Rightarrow> []
       | Ok selected \<Rightarrow> if mb_selection_rule selected = rule then [selected] else []) (mf_members manifest))"

definition episode_versions :: "unicode \<Rightarrow> Manifest \<Rightarrow> Candidate \<Rightarrow> Media \<Rightarrow> bool \<Rightarrow> string \<Rightarrow> Member list" where
  "episode_versions U manifest candidate media wantForced rule =
     sort_key mb_safe_name (distinct_versions (selected_alone U manifest candidate media wantForced rule))"

fun split_tried :: "(Member \<Rightarrow> ('e, bool) result) \<Rightarrow> Member list \<Rightarrow> ('e, Member list \<times> Member list) result" where
  "split_tried tried [] = Ok ([], [])"
| "split_tried tried (m # ms) =
     (case tried m of
        Err e \<Rightarrow> Err e
      | Ok rejected \<Rightarrow>
          (case split_tried tried ms of
             Err e \<Rightarrow> Err e
           | Ok (untried, rest) \<Rightarrow> Ok (if rejected then (untried, m # rest) else (m # untried, rest))))"

definition by_affinity :: "externals \<Rightarrow> Media \<Rightarrow> Member list \<Rightarrow> Member list" where
  "by_affinity X media = sort_key (\<lambda>m. - ReleaseAffinity X media (mb_safe_name m))"

definition SelectUntriedAlternatives ::
  "externals \<Rightarrow> Manifest \<Rightarrow> Candidate \<Rightarrow> Media \<Rightarrow> bool \<Rightarrow> (Member \<Rightarrow> ('e, bool) result) option
   \<Rightarrow> ('e version_error, Member list \<times> bool) result" where
  "SelectUntriedAlternatives X manifest candidate media wantForced tried =
     (case Select (ext_unicode X) manifest candidate media wantForced of
        Ok m \<Rightarrow> Ok ([m], False)
      | Err e \<Rightarrow>
          if c_exact_hash candidate \<or> se_rule e \<notin> {''episode_token'', ''compact_episode'', ''release_episode_token''}
          then Err (SelectionFailed e)
          else let versions = episode_versions (ext_unicode X) manifest candidate media wantForced (se_rule e)
               in if versions = [] then Err (SelectionFailed e)
                  else if length versions \<le> maxEpisodeVersions then Ok (versions, False)
                  else let ranked = by_affinity X media versions
                       in case (case tried of None \<Rightarrow> Ok (ranked, []) | Some f \<Rightarrow> split_tried f ranked) of
                            Err failed \<Rightarrow> Err (TriedFailed failed)
                          | Ok (untried, rejected) \<Rightarrow>
                              Ok (take maxEpisodeVersions (untried @ rejected), length untried > maxEpisodeVersions))"

definition SelectAlternatives ::
  "externals \<Rightarrow> Manifest \<Rightarrow> Candidate \<Rightarrow> Media \<Rightarrow> bool \<Rightarrow> (unit version_error, Member list) result" where
  "SelectAlternatives X manifest candidate media wantForced =
     map_sum id fst (SelectUntriedAlternatives X manifest candidate media wantForced None)"

section \<open>Versions of a film\<close>

definition extraWords :: "string list" where
  "extraWords = [''commentary'', ''trailer'', ''featurette'', ''featurettes'', ''extras'', ''bonus'', ''short'', ''shorts'']"

definition languageWords :: "(string \<times> language) list" where
  "languageWords =
     [(''en'', ''en''), (''eng'', ''en''), (''english'', ''en''),
      (''hr'', ''hr''), (''hrv'', ''hr''), (''cro'', ''hr''), (''croatian'', ''hr''), (''hrvatski'', ''hr''),
      (''sr'', ''sr''), (''srp'', ''sr''), (''serbian'', ''sr''), (''srpski'', ''sr''),
      (''bs'', ''bs''), (''bos'', ''bs''), (''bosnian'', ''bs'')]"

definition nameWords :: "unicode \<Rightarrow> string \<Rightarrow> string list" where
  "nameWords U name = fields_func (\<lambda>r. \<not> is_letter U r) (to_lower U name)"

definition preferWhere :: "('a \<Rightarrow> bool) \<Rightarrow> 'a list \<Rightarrow> 'a list" where
  "preferWhere keep members = (let kept = filter keep members in if kept = [] then members else kept)"

definition isExtra :: "unicode \<Rightarrow> string \<Rightarrow> string list \<Rightarrow> bool" where
  "isExtra U name titleWords \<longleftrightarrow> (\<exists>word \<in> set (nameWords U name). word \<in> set extraWords \<and> word \<notin> set titleWords)"

definition tag_word :: "unicode \<Rightarrow> string list \<Rightarrow> nat \<Rightarrow> nat \<times> string \<Rightarrow> language option" where
  "tag_word U titleWords number_of_words indexed =
     (let (index, word) = indexed; lower = to_lower U word
      in case map_of languageWords lower of
           None \<Rightarrow> None
         | Some lang \<Rightarrow>
             if lower \<in> set titleWords then None
             else if length word = 2 \<and> word \<noteq> to_upper U word \<and> index + 1 \<noteq> number_of_words then None
             else Some lang)"

definition languageTag :: "unicode \<Rightarrow> string \<Rightarrow> string list \<Rightarrow> language option" where
  "languageTag U name titleWords =
     (let words = fields_func (\<lambda>r. \<not> is_letter U r) (trim_suffix name (filepath_Ext name))
      in case List.map_filter (tag_word U titleWords (length words)) (List.enumerate 0 words) of
           [] \<Rightarrow> None | lang # _ \<Rightarrow> Some lang)"

definition movie_members :: "unicode \<Rightarrow> Candidate \<Rightarrow> Member list \<Rightarrow> Member list" where
  "movie_members U candidate members =
     (let titleWords = nameWords U (c_title candidate);
          tag = (\<lambda>m. languageTag U (mb_safe_name m) titleWords)
      in distinct_versions
           (preferWhere (\<lambda>m. tag m = None \<or> tag m = Some (c_language candidate))
             (preferWhere (\<lambda>m. tag m = Some (c_language candidate))
               (preferWhere (\<lambda>m. \<not> isExtra U (mb_safe_name m) titleWords) members))))"

definition marked_as :: "string \<Rightarrow> string \<Rightarrow> Member \<Rightarrow> Member" where
  "marked_as rule evidence m = m\<lparr>mb_selection_rule := rule, mb_selection_evidence := evidence\<rparr>"

definition SelectMovieAlternatives :: "unicode \<Rightarrow> Manifest \<Rightarrow> Candidate \<Rightarrow> bool \<Rightarrow> (SelectionError, Member list) result" where
  "SelectMovieAlternatives U manifest candidate wantForced =
     (let members = eligibleMembers (mf_members manifest) wantForced;
          versions = movie_members U candidate members; n = length versions
      in if c_forced candidate \<and> \<not> wantForced \<or> members = []
         then Err (selectionError manifest ''forced_policy'' 0 ''no members satisfy the forced-subtitle policy'')
         else if \<exists>m \<in> set versions. IsMultiDisc (mb_safe_name m)
         then Err (selectionError manifest ''single_movie'' (int n) ''movie subtitle is split across discs'')
         else if c_exact_hash candidate \<and> n > 1
         then Err (selectionError manifest ''single_movie'' (int n) ''movie candidate must contain exactly one eligible subtitle member'')
         else if n = 1
         then Ok (map (marked_as ''single_movie'' ''single movie subtitle member satisfies subtitle policy'') versions)
         else if n \<le> 3
         then Ok (map (marked_as ''movie_versions'' ''one of up to three movie subtitle versions, ranked by timing'')
                    (sort_key mb_safe_name versions))
         else Err (selectionError manifest ''single_movie'' (int n) ''movie candidate has more subtitle versions than can be ranked''))"

section \<open>Packs recognized by their members\<close>

definition IsRuntimePack :: "unicode \<Rightarrow> Manifest \<Rightarrow> bool" where
  "IsRuntimePack U manifest =
     (if c_kind (mf_candidate manifest) \<noteq> MediaEpisode \<or> c_pack (mf_candidate manifest) \<noteq> None then False
      else length (mf_members manifest) > 1
        \<or> (\<exists>m \<in> set (mf_members manifest).
             case episodeRange U (mb_safe_name m) of None \<Rightarrow> False | Some (_, first, final) \<Rightarrow> final > first))"

text \<open>The season of one name, given the season so far; zero is unknown, \<open>None\<close> ends the search without one.\<close>

fun token_season :: "unicode \<Rightarrow> string \<Rightarrow> (nat \<times> nat \<times> groups) list \<Rightarrow> int \<Rightarrow> int option" where
  "token_season U name [] season = Some season"
| "token_season U name ((i, j, g) # tokens) season =
     (if \<not> completeRangeToken U name i j then None
      else (let (s, e) = (case episodeToken U (slice_text (runes name) i j) of None \<Rightarrow> (0, 0) | Some t \<Rightarrow> t)
            in if s \<le> 0 \<or> e \<le> 0 \<or> season \<noteq> 0 \<and> season \<noteq> s then None else token_season U name tokens s))"

fun members_season :: "unicode \<Rightarrow> Member list \<Rightarrow> int \<Rightarrow> int option" where
  "members_season U [] season = Some season"
| "members_season U (m # ms) season =
     (if hasInvalidOrAmbiguousRangeEvidence U (mb_safe_name m) then None
      else case token_season U (mb_safe_name m) (matches_in episodeTokenPattern (mb_safe_name m)) season of
             None \<Rightarrow> None | Some season' \<Rightarrow> members_season U ms season')"

definition RuntimeCacheSeason :: "unicode \<Rightarrow> Manifest \<Rightarrow> int option" where
  "RuntimeCacheSeason U manifest =
     (let c = mf_candidate manifest
      in if c_exact_hash c \<or> c_external_ids c = \<lparr>x_imdb = [], x_tmdb = 0, x_tvdb = 0\<rparr> \<and> trim_space (c_title c) = [] then None
         else if c_season c < 0 then None
         else case members_season U (mf_members manifest) (c_season c) of
                None \<Rightarrow> None
              | Some season \<Rightarrow> if season > 0 then Some season else None)"

end
