(* ===== verification/Pack_Props.thy ===== *)
theory Pack_Props
  imports Pack_Versions Workflow_Types "HOL-Library.Code_Target_Nat"
begin

text \<open>
  What the choice of an archive's members guarantees: the selected member's name does not contradict the file, several
  versions are bounded and untried ones come first, and a pack recognized by its members agrees on one season.
\<close>

section \<open>One member\<close>

lemma uniqueRule_cases:
  "uniqueRule manifest matches rule evidence = Some (Ok m) \<longleftrightarrow>
     (\<exists>m0. matches = [m0] \<and> m = m0\<lparr>mb_selection_rule := rule, mb_selection_evidence := evidence\<rparr>)"
  "uniqueRule manifest matches rule evidence = None \<longleftrightarrow> matches = []"
  "uniqueRule manifest matches rule evidence = Some (Err e) \<longleftrightarrow>
     1 < length matches \<and> e = selectionError manifest rule (int (length matches)) (rule @ '' matched multiple members'')"
  by (auto simp: uniqueRule_def split: list.splits)

text \<open>The first rule that matches anything decides.\<close>

lemma try_rules_Ok:
  "try_rules manifest rules = Ok m \<Longrightarrow>
   \<exists>stronger m0 rule evidence weaker. rules = stronger @ ([m0], rule, evidence) # weaker \<and> (\<forall>r \<in> set stronger. fst r = [])
     \<and> m = m0\<lparr>mb_selection_rule := rule, mb_selection_evidence := evidence\<rparr>"
proof (induction rules)
  case (Cons r rules)
  obtain matches rule evidence where r: "r = (matches, rule, evidence)" by (cases r)
  show ?case
  proof (cases "uniqueRule manifest matches rule evidence")
    case None
    with Cons r obtain weaker stronger m0 rule' evidence' where
      "rules = stronger @ ([m0], rule', evidence') # weaker" "\<forall>r \<in> set stronger. fst r = []"
      "m = m0\<lparr>mb_selection_rule := rule', mb_selection_evidence := evidence'\<rparr>" by auto
    with None show ?thesis unfolding r uniqueRule_cases
      by (intro exI [of _ "(matches, rule, evidence) # stronger"] exI [of _ m0]) auto
  next
    case (Some decided)
    with Cons.prems r have "uniqueRule manifest matches rule evidence = Some (Ok m)" by simp
    then obtain m0 where "matches = [m0]" "m = m0\<lparr>mb_selection_rule := rule, mb_selection_evidence := evidence\<rparr>"
      unfolding uniqueRule_cases by blast
    with r show ?thesis
      by (intro exI [of _ "[]"] exI [of _ m0] exI [of _ rule] exI [of _ evidence] exI [of _ rules]) simp
  qed
qed simp

text \<open>What the name of a member says about a single episode.\<close>

definition names_only :: "unicode \<Rightarrow> string \<Rightarrow> int \<Rightarrow> int \<Rightarrow> bool" where
  "names_only U name season episode \<longleftrightarrow>
     \<not> hasInvalidOrAmbiguousRangeEvidence U name
     \<and> (\<forall>(s, e) \<in> set (token_episodes U (removeAcceptedEpisodeRanges U name)). s = season \<and> e = episode)
     \<and> (case episodeRange U name of None \<Rightarrow> True
        | Some (s, first, final) \<Rightarrow> s = season \<and> first \<le> episode \<and> episode \<le> final)"

lemma consistent_names_only:
  "\<not> conflictingEpisodeEvidence U name media \<Longrightarrow> names_only U name (m_season media) (m_episode media)"
  by (auto simp: names_only_def conflictingEpisodeEvidence_def episodeRange_def Let_def split: if_split_asm option.splits)

lemma eligible_member:
  assumes "m \<in> set (eligibleMembers members wantForced)"
  obtains original where "original \<in> set members" "m = original\<lparr>mb_forced := wantForced\<rparr>"
    "(mb_forced original \<or> match_string forcedPattern (mb_safe_name original)) = wantForced"
  using assms by (auto simp: eligibleMembers_def)

lemma set_add_unseen: "set (fold (add_unseen U) ms kept) \<subseteq> set kept \<union> set ms"
proof (induction ms arbitrary: kept)
  case (Cons m ms)
  from Cons [of "add_unseen U m kept"] show ?case by (auto simp: add_unseen_def split: if_split_asm)
qed simp

lemma direct_members: "set (direct_matches U candidate media members) \<subseteq> set members"
  using set_add_unseen unfolding direct_matches_def by (fastforce split: option.split)

lemma rule_list:
  assumes "(matches, rule, evidence) \<in> set (select_rules U candidate media unfiltered)"
  defines "members \<equiv> filter (\<lambda>m. \<not> conflictingEpisodeEvidence U (mb_safe_name m) media) unfiltered"
  shows "rule = ''provider_direct'' \<and> matches = direct_matches U candidate media members
    \<or> rule = ''episode_token'' \<and> matches = token_matches U media members
    \<or> rule = ''episode_range'' \<and> matches = range_matches U media members
    \<or> rule = ''absolute_episode'' \<and> matches = absolute_matches media members
    \<or> rule = ''compact_episode'' \<and> matches = filter (\<lambda>m. compactEpisodeMatches U (mb_safe_name m) media) members
    \<or> rule = ''numbered_episode'' \<and> matches = numberedEpisodeMatches U members media
    \<or> rule = ''episode_title'' \<and> matches = title_matches U media members
    \<or> rule = ''release_episode_token'' \<and> matches = release_matches U media unfiltered"
proof -
  have "map (\<lambda>(ms, r, _). (r, ms)) (select_rules U candidate media unfiltered) =
    [(''provider_direct'', direct_matches U candidate media members), (''episode_token'', token_matches U media members),
     (''episode_range'', range_matches U media members), (''absolute_episode'', absolute_matches media members),
     (''compact_episode'', filter (\<lambda>m. compactEpisodeMatches U (mb_safe_name m) media) members),
     (''numbered_episode'', numberedEpisodeMatches U members media), (''episode_title'', title_matches U media members),
     (''release_episode_token'', release_matches U media unfiltered)]"
    unfolding select_rules_def Let_def members_def by (simp only: list.map prod.case)
  moreover have "(rule, matches) \<in> set (map (\<lambda>(ms, r, _). (r, ms)) (select_rules U candidate media unfiltered))"
    using assms(1) by force
  ultimately show ?thesis by (simp only: list.set insert_iff empty_iff prod.inject simp_thms)
qed

lemma rule_members:
  "m \<in> set (direct_matches U candidate media members) \<Longrightarrow> m \<in> set members"
  "m \<in> set (token_matches U media members) \<Longrightarrow> m \<in> set members"
  "m \<in> set (range_matches U media members) \<Longrightarrow> m \<in> set members"
  "m \<in> set (absolute_matches media members) \<Longrightarrow> m \<in> set members"
  "m \<in> set (numberedEpisodeMatches U members media) \<Longrightarrow> m \<in> set members"
  "m \<in> set (title_matches U media members) \<Longrightarrow> m \<in> set members"
  by (auto dest: subsetD [OF direct_members] simp: token_matches_def range_matches_def absolute_matches_def numberedEpisodeMatches_def
      title_matches_def Let_def split: if_split_asm)

lemma release_rule:
  assumes "m \<in> set (release_matches U media unfiltered)"
  shows "m \<in> set unfiltered \<and> (\<exists>season episode. ReleaseEpisode U media = Some (season, episode) \<and> season \<noteq> m_season media
    \<and> episodeToken U (mb_safe_name m) = Some (season, episode) \<and> names_only U (mb_safe_name m) season episode)"
proof (cases "ReleaseEpisode U media")
  case (Some r)
  have "fst r \<noteq> m_season media"
    using Some by (auto simp: ReleaseEpisode_def Let_def split: if_split_asm option.split_asm)
  with Some assms consistent_names_only [of U "mb_safe_name m" "media\<lparr>m_season := fst r, m_episode := snd r\<rparr>"]
  show ?thesis by (cases r) (auto simp: release_matches_def split: if_split_asm)
qed (use assms in \<open>simp add: release_matches_def\<close>)

lemma rule_matches:
  assumes "(matches, rule, evidence) \<in> set (select_rules U candidate media unfiltered)" "m \<in> set matches"
  shows "m \<in> set unfiltered
    \<and> (if rule = ''release_episode_token''
       then \<exists>season episode. ReleaseEpisode U media = Some (season, episode) \<and> season \<noteq> m_season media
         \<and> episodeToken U (mb_safe_name m) = Some (season, episode) \<and> names_only U (mb_safe_name m) season episode
       else names_only U (mb_safe_name m) (m_season media) (m_episode media))"
proof -
  let ?members = "filter (\<lambda>m. \<not> conflictingEpisodeEvidence U (mb_safe_name m) media) unfiltered"
  consider "rule \<noteq> ''release_episode_token''" "m \<in> set ?members"
    | "rule = ''release_episode_token''" "m \<in> set (release_matches U media unfiltered)"
    using rule_list [OF assms(1)] assms(2)
    by (elim disjE conjE) (auto simp del: set_filter filter_filter dest: rule_members subsetD [OF filter_is_subset])
  then show ?thesis
  proof cases
    case 1
    then show ?thesis using consistent_names_only [of U "mb_safe_name m" media] by simp
  next
    case 2
    then show ?thesis using release_rule [of m U media unfiltered] by simp
  qed
qed

lemma range_member:
  assumes "selectRange U manifest members media = Ok m"
  shows "\<exists>m0 evidence season first final. m0 \<in> set members
    \<and> m = m0\<lparr>mb_selection_rule := ''episode_range'', mb_selection_evidence := evidence\<rparr>
    \<and> \<not> contradictsRange U (mb_safe_name m0) media \<and> episodeRange U (mb_safe_name m0) = Some (season, first, final)
    \<and> season = m_season media \<and> first \<le> m_episode media \<and> m_episode_end media \<le> final"
proof -
  let ?fits = "\<lambda>m. \<not> contradictsRange U (mb_safe_name m) media
            \<and> (case episodeRange U (mb_safe_name m) of
                 None \<Rightarrow> False
               | Some (season, first, final) \<Rightarrow>
                   season = m_season media \<and> first \<le> m_episode media \<and> m_episode_end media \<le> final)"
  from assms obtain evidence where "uniqueRule manifest (filter ?fits members) ''episode_range'' evidence = Some (Ok m)"
    by (auto simp: selectRange_def Let_def split: option.split_asm)
  then obtain m0 where m0: "filter ?fits members = [m0]"
    "m = m0\<lparr>mb_selection_rule := ''episode_range'', mb_selection_evidence := evidence\<rparr>"
    unfolding uniqueRule_cases by blast
  have "m0 \<in> set (filter ?fits members)" unfolding m0(1) by simp
  with m0(2) show ?thesis by (auto split: option.split_asm)
qed

text \<open>C10: an archive member is never installed for another episode. The member \<open>Select\<close> returns is a file of the archive
  that obeys the forced-subtitle policy. For a range of episodes its name gives one range that covers them all. For one
  episode it is the only file that the first applicable rule matches, and every token and range its name holds is that
  of the wanted episode, or, by the last rule, of the number the release of the media file itself gives the episode in
  another season.\<close>

theorem selected_member_fits:
  assumes "Select U manifest candidate media wantForced = Ok m"
  shows "\<exists>original \<in> set (mf_members manifest).
    m = original\<lparr>mb_forced := wantForced, mb_selection_rule := mb_selection_rule m, mb_selection_evidence := mb_selection_evidence m\<rparr>
    \<and> (mb_forced original \<or> match_string forcedPattern (mb_safe_name original)) = wantForced
    \<and> (if IsEpisodeRange media then
         \<not> contradictsRange U (mb_safe_name m) media \<and> (\<exists>season first final. episodeRange U (mb_safe_name m) = Some (season, first, final)
           \<and> season = m_season media \<and> first \<le> m_episode media \<and> m_episode_end media \<le> final)
       else (\<exists>stronger weaker. select_rules U candidate media (eligibleMembers (mf_members manifest) wantForced)
               = stronger @ ([original\<lparr>mb_forced := wantForced\<rparr>], mb_selection_rule m, mb_selection_evidence m) # weaker
               \<and> (\<forall>r \<in> set stronger. fst r = []))
         \<and> (if mb_selection_rule m = ''release_episode_token''
            then \<exists>season episode. ReleaseEpisode U media = Some (season, episode) \<and> season \<noteq> m_season media
              \<and> episodeToken U (mb_safe_name m) = Some (season, episode) \<and> names_only U (mb_safe_name m) season episode
            else names_only U (mb_safe_name m) (m_season media) (m_episode media)))"
proof (cases "IsEpisodeRange media")
  case True
  with assms have "selectRange U manifest (eligibleMembers (mf_members manifest) wantForced) media = Ok m"
    by (auto simp: Select_def Let_def split: if_split_asm)
  from range_member [OF this] obtain m0 evidence season first final where m0: "m0 \<in> set (eligibleMembers (mf_members manifest) wantForced)"
    "m = m0\<lparr>mb_selection_rule := ''episode_range'', mb_selection_evidence := evidence\<rparr>"
    "\<not> contradictsRange U (mb_safe_name m0) media" "episodeRange U (mb_safe_name m0) = Some (season, first, final)"
    "season = m_season media" "first \<le> m_episode media" "m_episode_end media \<le> final" by blast
  from m0(1) obtain original where "original \<in> set (mf_members manifest)" "m0 = original\<lparr>mb_forced := wantForced\<rparr>"
    "(mb_forced original \<or> match_string forcedPattern (mb_safe_name original)) = wantForced" by (rule eligible_member)
  with m0 True show ?thesis by (intro bexI [of _ original]) auto
next
  case False
  with assms have "try_rules manifest (select_rules U candidate media (eligibleMembers (mf_members manifest) wantForced)) = Ok m"
    by (auto simp: Select_def Let_def split: if_split_asm)
  from try_rules_Ok [OF this] obtain stronger m0 rule evidence weaker where
    rules: "select_rules U candidate media (eligibleMembers (mf_members manifest) wantForced) = stronger @ ([m0], rule, evidence) # weaker"
      "\<forall>r \<in> set stronger. fst r = []"
    and m: "m = m0\<lparr>mb_selection_rule := rule, mb_selection_evidence := evidence\<rparr>" by blast
  have "([m0], rule, evidence) \<in> set (select_rules U candidate media (eligibleMembers (mf_members manifest) wantForced))"
    unfolding rules(1) by simp
  note fits = rule_matches [OF this list.set_intros(1)]
  from conjunct1 [OF fits] obtain original where original: "original \<in> set (mf_members manifest)" "m0 = original\<lparr>mb_forced := wantForced\<rparr>"
    "(mb_forced original \<or> match_string forcedPattern (mb_safe_name original)) = wantForced" by (rule eligible_member)
  have "mb_selection_rule m = rule" "mb_selection_evidence m = evidence" "mb_safe_name m = mb_safe_name m0" by (simp_all add: m)
  note fields = this
  have "m = original\<lparr>mb_forced := wantForced, mb_selection_rule := rule, mb_selection_evidence := evidence\<rparr>"
    by (simp add: m original(2))
  with original rules conjunct2 [OF fits] False show ?thesis unfolding fields by (intro bexI [of _ original]) auto
qed

definition sample_member_file :: "string \<Rightarrow> string \<Rightarrow> Member" where
  "sample_member_file name check =
     \<lparr>mb_safe_name = name, mb_normalized_path = [], mb_checksum = check, mb_byte_size = 0, mb_season = 0, mb_episode_from = 0,
      mb_episode_to = 0, mb_absolute_from = 0, mb_absolute_to = 0, mb_normalized_title = [], mb_forced = False,
      mb_selection_rule = [], mb_selection_evidence = []\<rparr>"

definition sample_manifest :: "(string \<times> string) list \<Rightarrow> Manifest" where
  "sample_manifest names =
     \<lparr>mf_runtime_pack = False, mf_provider_id = [], mf_result_id = [], mf_language = [], mf_checksum = [], mf_archive_type = [],
      mf_candidate = zero_candidate, mf_members = map (\<lambda>(name, check). sample_member_file name check) names, mf_skipped_members = 0\<rparr>"

definition sample_target :: Media where
  "sample_target = zero_media\<lparr>m_title := ''Show'', m_season := 1, m_episode := 2\<rparr>"

definition two_files :: Manifest where
  "two_files = sample_manifest [(''S1E1.srt'', ''a''), (''S1E2.srt'', ''b'')]"

lemma two_files_selected:
  "map_sum se_rule (\<lambda>m. (mb_safe_name m, mb_selection_rule m)) (Select ascii_tables two_files zero_candidate sample_target False)
     = Ok (''S1E2.srt'', ''episode_token'')"
  by code_simp

theorem selected_member_fits_witness:
  "\<exists>m. Select ascii_tables two_files zero_candidate sample_target False = Ok m \<and> mb_safe_name m = ''S1E2.srt''
     \<and> names_only ascii_tables (mb_safe_name m) 1 2"
proof (cases "Select ascii_tables two_files zero_candidate sample_target False")
  case (Inr m)
  then have m: "mb_safe_name m = ''S1E2.srt''" "mb_selection_rule m = ''episode_token''" using two_files_selected by simp_all
  have media: "\<not> IsEpisodeRange sample_target" "m_season sample_target = 1" "m_episode sample_target = 2"
    by (simp_all add: sample_target_def IsEpisodeRange_def zero_media_def)
  have "names_only ascii_tables (mb_safe_name m) 1 2"
    using selected_member_fits [OF Inr] media(1) by (auto simp: m(2) media)
  with Inr m(1) show ?thesis by blast
qed (use two_files_selected in simp)

end
