(* ===== verification/Pack_Version_Props.thy ===== *)
theory Pack_Version_Props
  imports Pack_Props
begin

text \<open>
  Several versions of a subtitle: how many are returned, that no file comes twice, and that a version rejected before
  never displaces one that was not tried; and the season of a pack recognized by its members.
\<close>

section \<open>Distinct versions\<close>

definition no_file_twice :: "Member list \<Rightarrow> bool" where
  "no_file_twice ms \<longleftrightarrow> distinct (filter (\<lambda>c. c \<noteq> []) (map mb_checksum ms))"

lemma no_file_twice_perm: "mset xs = mset ys \<Longrightarrow> no_file_twice xs \<longleftrightarrow> no_file_twice ys"
  unfolding no_file_twice_def by (metis mset_eq_imp_distinct_iff mset_filter mset_map)

lemma no_file_twice_take: "no_file_twice xs \<Longrightarrow> no_file_twice (take n xs)"
  unfolding no_file_twice_def by (metis append_take_drop_id distinct_append filter_append map_append)

lemma add_distinct_fold:
  "set (fold add_distinct ms kept) \<subseteq> set kept \<union> set ms" "no_file_twice kept \<Longrightarrow> no_file_twice (fold add_distinct ms kept)"
  "set kept \<subseteq> set (fold add_distinct ms kept)"
proof (induction ms arbitrary: kept)
  case (Cons m ms)
  { case 1 then show ?case using Cons(1) [of "add_distinct m kept"] by (auto simp: add_distinct_def split: if_split_asm)
  next
    case 2
    then have "no_file_twice (add_distinct m kept)" by (auto simp: add_distinct_def no_file_twice_def)
    then show ?case using Cons(2) by simp
  next
    case 3 then show ?case using Cons(3) [of "add_distinct m kept"] by (auto simp: add_distinct_def split: if_split_asm) }
qed simp_all

lemma distinct_versions: "set (distinct_versions ms) \<subseteq> set ms" "no_file_twice (distinct_versions ms)"
  using add_distinct_fold(1) [of ms "[]"] add_distinct_fold(2) [of "[]" ms]
  by (simp_all add: distinct_versions_def no_file_twice_def)

lemma distinct_versions_Nil: "distinct_versions ms = [] \<longleftrightarrow> ms = []"
proof (cases ms)
  case (Cons m rest)
  then show ?thesis using add_distinct_fold(3) [of "[m]" rest] by (auto simp: distinct_versions_def add_distinct_def)
qed (simp add: distinct_versions_def)

section \<open>Versions of an episode\<close>

lemma episode_versions:
  "no_file_twice (episode_versions U manifest candidate media wantForced rule)"
  "m \<in> set (episode_versions U manifest candidate media wantForced rule) \<Longrightarrow> mb_selection_rule m = rule
     \<and> (\<exists>file' \<in> set (mf_members manifest). Select U (manifest\<lparr>mf_members := [file']\<rparr>) candidate media wantForced = Ok m)"
proof -
  let ?alone = "selected_alone U manifest candidate media wantForced rule"
  have "mset (episode_versions U manifest candidate media wantForced rule) = mset (distinct_versions ?alone)"
    by (simp add: episode_versions_def)
  from no_file_twice_perm [OF this] show "no_file_twice (episode_versions U manifest candidate media wantForced rule)"
    using distinct_versions(2) by blast
  assume "m \<in> set (episode_versions U manifest candidate media wantForced rule)"
  then have "m \<in> set ?alone" using distinct_versions(1) [of ?alone] by (auto simp: episode_versions_def)
  then show "mb_selection_rule m = rule
     \<and> (\<exists>file' \<in> set (mf_members manifest). Select U (manifest\<lparr>mf_members := [file']\<rparr>) candidate media wantForced = Ok m)"
    by (auto simp: selected_alone_def split: sum.split_asm if_split_asm)
qed

lemma split_tried:
  "split_tried tried ms = Ok (untried, rejected) \<Longrightarrow>
   mset (untried @ rejected) = mset ms \<and> (\<forall>m \<in> set rejected. tried m = Ok True) \<and> (\<forall>m \<in> set untried. tried m = Ok False)"
proof (induction ms arbitrary: untried rejected)
  case (Cons m ms)
  from Cons.prems obtain done' u r where parts: "tried m = Ok done'" "split_tried tried ms = Ok (u, r)"
    "(untried, rejected) = (if done' then (u, m # r) else (m # u, r))"
    by (auto split: sum.split_asm if_split_asm prod.split_asm)
  from Cons.IH [OF parts(2)] parts(1,3) show ?case by (cases done') simp_all
qed simp

text \<open>The best versions, untried ones first.\<close>

lemma best_versions:
  assumes "SelectUntriedAlternatives X manifest candidate media wantForced tried = Ok (ms, untriedLeft)"
    and "Select (ext_unicode X) manifest candidate media wantForced = Err e"
  defines "versions \<equiv> episode_versions (ext_unicode X) manifest candidate media wantForced (se_rule e)"
  shows "\<exists>untried rejected. ms = take 3 (untried @ rejected) \<and> mset (untried @ rejected) = mset versions \<and> versions \<noteq> []
    \<and> untriedLeft = (length versions > 3 \<and> length untried > 3) \<and> \<not> c_exact_hash candidate
    \<and> (\<forall>m \<in> set rejected. \<exists>f. tried = Some f \<and> f m = Ok True)
    \<and> (length versions > 3 \<longrightarrow> (\<forall>m \<in> set untried. \<forall>f. tried = Some f \<longrightarrow> f m = Ok False))"
proof -
  have none: "\<not> c_exact_hash candidate" "versions \<noteq> []"
    using assms(1,2) unfolding versions_def
    by (auto simp: SelectUntriedAlternatives_def Let_def split: if_split_asm)
  show ?thesis
  proof (cases "length versions \<le> 3")
    case True
    with assms(1,2) none have "ms = versions" "\<not> untriedLeft"
      unfolding versions_def by (simp_all add: SelectUntriedAlternatives_def Let_def maxEpisodeVersions_def split: if_split_asm)
    with none True show ?thesis by (intro exI [of _ versions] exI [of _ "[]"]) simp
  next
    case False
    obtain untried rejected where split: "(case tried of None \<Rightarrow> Ok (by_affinity X media versions, [])
          | Some f \<Rightarrow> split_tried f (by_affinity X media versions)) = Ok (untried, rejected)"
      "ms = take 3 (untried @ rejected)" "untriedLeft = (length untried > 3)"
      using assms(1,2) False none unfolding versions_def
      by (auto simp: SelectUntriedAlternatives_def Let_def maxEpisodeVersions_def split: if_split_asm sum.split_asm)
    have "mset (untried @ rejected) = mset versions \<and> (\<forall>m \<in> set rejected. \<exists>f. tried = Some f \<and> f m = Ok True)
      \<and> (\<forall>m \<in> set untried. \<forall>f. tried = Some f \<longrightarrow> f m = Ok False)"
      using split(1) split_tried [of _ "by_affinity X media versions" untried rejected]
      by (cases tried) (auto simp: by_affinity_def)
    with split(2,3) False none show ?thesis by (intro exI [of _ untried] exI [of _ rejected]) simp
  qed
qed

text \<open>C23: when a pack holds several versions of the wanted episode, at most three are tried, none of them twice, each a file
  of the archive that would be selected alone by the rule that was ambiguous. A version rejected before for this media
  file never displaces an untried one: with a rejected version among those returned, or no untried one reported left,
  every version of the pack is returned or was rejected.\<close>

theorem untried_versions_first:
  assumes "SelectUntriedAlternatives X manifest candidate media wantForced tried = Ok (ms, untriedLeft)"
    and "Select (ext_unicode X) manifest candidate media wantForced = Err e"
  defines "versions \<equiv> episode_versions (ext_unicode X) manifest candidate media wantForced (se_rule e)"
  shows "0 < length ms \<and> length ms \<le> 3 \<and> no_file_twice ms \<and> \<not> c_exact_hash candidate
    \<and> (\<forall>m \<in> set ms. mb_selection_rule m = se_rule e
         \<and> (\<exists>file' \<in> set (mf_members manifest).
              Select (ext_unicode X) (manifest\<lparr>mf_members := [file']\<rparr>) candidate media wantForced = Ok m))
    \<and> (\<not> untriedLeft \<or> length versions > 3 \<and> (\<exists>m \<in> set ms. \<exists>f. tried = Some f \<and> f m = Ok True)
       \<longrightarrow> (\<forall>v \<in> set versions. v \<in> set ms \<or> (\<exists>f. tried = Some f \<and> f v = Ok True)))"
proof -
  from best_versions [OF assms(1,2)] obtain untried rejected where
    ms: "ms = take 3 (untried @ rejected)" and perm: "mset (untried @ rejected) = mset versions"
    and some: "versions \<noteq> []" and left: "untriedLeft = (length versions > 3 \<and> length untried > 3)"
    and exact: "\<not> c_exact_hash candidate" and rejected: "\<forall>m \<in> set rejected. \<exists>f. tried = Some f \<and> f m = Ok True"
    and untried: "length versions > 3 \<longrightarrow> (\<forall>m \<in> set untried. \<forall>f. tried = Some f \<longrightarrow> f m = Ok False)"
    unfolding versions_def by blast
  have len: "length (untried @ rejected) = length versions" and set: "set (untried @ rejected) = set versions"
    using perm by (metis size_mset) (use perm in \<open>metis set_mset_mset\<close>)
  have twice: "no_file_twice ms" unfolding ms
    by (rule no_file_twice_take) (use no_file_twice_perm [OF perm] episode_versions(1) in \<open>simp add: versions_def\<close>)
  have all: "\<forall>v \<in> set versions. v \<in> set ms \<or> (\<exists>f. tried = Some f \<and> f v = Ok True)"
    if "\<not> untriedLeft \<or> length versions > 3 \<and> (\<exists>m \<in> set ms. \<exists>f. tried = Some f \<and> f m = Ok True)"
  proof (cases "length versions > 3 \<and> length untried > 3")
    case True
    then have "set ms \<subseteq> set untried" unfolding ms by (auto dest: in_set_takeD)
    with True that untried left show ?thesis by fastforce
  next
    case False
    have "set untried \<subseteq> set ms"
    proof (cases "length versions > 3")
      case True
      with False show ?thesis unfolding ms by simp
    next
      case False
      with len show ?thesis unfolding ms by simp
    qed
    with rejected set show ?thesis by auto
  qed
  have lens: "0 < length ms" "length ms \<le> 3" using some len unfolding ms by auto
  have each: "mb_selection_rule m = se_rule e \<and> (\<exists>file' \<in> set (mf_members manifest).
      Select (ext_unicode X) (manifest\<lparr>mf_members := [file']\<rparr>) candidate media wantForced = Ok m)" if "m \<in> set ms" for m
  proof (rule episode_versions(2))
    show "m \<in> set (episode_versions (ext_unicode X) manifest candidate media wantForced (se_rule e))"
      using in_set_takeD [OF that [unfolded ms]] unfolding set versions_def .
  qed
  show ?thesis by (intro conjI lens twice exact ballI each impI all) assumption+
qed

definition two_versions :: Manifest where
  "two_versions = sample_manifest [(''S1E2'', ''a''), (''1x2'', ''b'')]"

abbreviation ascii_externals :: externals where
  "ascii_externals \<equiv> \<lparr>ext_unicode = ascii_tables, ext_lang_parse = (\<lambda>_. None), ext_torrent = (\<lambda>_. None)\<rparr>"

definition version_file :: "string \<Rightarrow> string \<Rightarrow> Member" where
  "version_file name check = (sample_member_file name check)
     \<lparr>mb_selection_rule := ''episode_token'', mb_selection_evidence := ''filename identifies S01E02''\<rparr>"

lemma two_versions_ambiguous:
  "map_sum se_rule id (Select ascii_tables two_versions zero_candidate sample_target False) = Err ''episode_token''"
  by code_simp

lemma first_version_alone:
  "Select ascii_tables (two_versions\<lparr>mf_members := [sample_member_file ''S1E2'' ''a'']\<rparr>) zero_candidate sample_target False
     = Ok (version_file ''S1E2'' ''a'')"
  by code_simp

lemma second_version_alone:
  "Select ascii_tables (two_versions\<lparr>mf_members := [sample_member_file ''1x2'' ''b'']\<rparr>) zero_candidate sample_target False
     = Ok (version_file ''1x2'' ''b'')"
  by code_simp

lemma two_versions_found:
  "mset (episode_versions ascii_tables two_versions zero_candidate sample_target False ''episode_token'')
     = {#version_file ''S1E2'' ''a'', version_file ''1x2'' ''b''#}"
proof -
  have members: "mf_members two_versions = [sample_member_file ''S1E2'' ''a'', sample_member_file ''1x2'' ''b'']"
    by (simp add: two_versions_def sample_manifest_def)
  have "selected_alone ascii_tables two_versions zero_candidate sample_target False ''episode_token''
      = [version_file ''S1E2'' ''a'', version_file ''1x2'' ''b'']"
    unfolding selected_alone_def members by (simp add: first_version_alone second_version_alone) (simp add: version_file_def)
  then show ?thesis
    by (simp add: episode_versions_def distinct_versions_def add_distinct_def version_file_def sample_member_file_def)
qed

theorem untried_versions_first_witness:
  "\<exists>ms. SelectUntriedAlternatives ascii_externals two_versions zero_candidate sample_target False (None :: (Member \<Rightarrow> (unit, bool) result) option)
       = Ok (ms, False)
     \<and> mset ms = {#version_file ''S1E2'' ''a'', version_file ''1x2'' ''b''#} \<and> no_file_twice ms \<and> length ms \<le> 3"
proof -
  let ?versions = "episode_versions ascii_tables two_versions zero_candidate sample_target False ''episode_token''"
  obtain e where e: "Select (ext_unicode ascii_externals) two_versions zero_candidate sample_target False = Err e" "se_rule e = ''episode_token''"
    using two_versions_ambiguous by (cases "Select ascii_tables two_versions zero_candidate sample_target False") simp_all
  have "length ?versions = 2" using two_versions_found by (metis size_mset size_add_mset size_empty One_nat_def Suc_1)
  then have ms: "SelectUntriedAlternatives ascii_externals two_versions zero_candidate sample_target False
      (None :: (Member \<Rightarrow> (unit, bool) result) option) = Ok (?versions, False)"
    using e by (auto simp: SelectUntriedAlternatives_def maxEpisodeVersions_def zero_candidate_def Let_def)
  from untried_versions_first [OF ms e(1)] e(2) ms two_versions_found show ?thesis by auto
qed

section \<open>Versions of a film\<close>

lemma preferWhere_subset: "set (preferWhere keep xs) \<subseteq> set xs"
  by (auto simp: preferWhere_def Let_def)

lemma preferWhere_Nil [simp]: "preferWhere keep xs = [] \<longleftrightarrow> xs = []"
  by (auto simp: preferWhere_def Let_def)

lemma preferWhere_failed: "x \<in> set (preferWhere keep xs) \<Longrightarrow> \<not> keep x \<Longrightarrow> preferWhere keep xs = xs \<and> (\<forall>y \<in> set xs. \<not> keep y)"
  by (auto simp: preferWhere_def Let_def filter_empty_conv split: if_split_asm)

lemma preferWhere_kept: "y \<in> set xs \<Longrightarrow> keep y \<Longrightarrow> y \<in> set (preferWhere keep xs)"
  by (auto simp: preferWhere_def Let_def filter_empty_conv)

definition movie_tag :: "unicode \<Rightarrow> Candidate \<Rightarrow> Member \<Rightarrow> language option" where
  "movie_tag U candidate m = languageTag U (mb_safe_name m) (nameWords U (c_title candidate))"

definition movie_extra :: "unicode \<Rightarrow> Candidate \<Rightarrow> Member \<Rightarrow> bool" where
  "movie_extra U candidate m \<longleftrightarrow> isExtra U (mb_safe_name m) (nameWords U (c_title candidate))"

definition likely_movie :: "unicode \<Rightarrow> Candidate \<Rightarrow> Member list \<Rightarrow> Member list" where
  "likely_movie U candidate members = preferWhere (\<lambda>m. \<not> movie_extra U candidate m) members"

definition tagged_movie :: "unicode \<Rightarrow> Candidate \<Rightarrow> Member list \<Rightarrow> Member list" where
  "tagged_movie U candidate members = preferWhere (\<lambda>m. movie_tag U candidate m = Some (c_language candidate)) (likely_movie U candidate members)"

lemma movie_members_eq:
  "movie_members U candidate members = distinct_versions
     (preferWhere (\<lambda>m. movie_tag U candidate m = None \<or> movie_tag U candidate m = Some (c_language candidate)) (tagged_movie U candidate members))"
  unfolding movie_members_def movie_tag_def movie_extra_def likely_movie_def tagged_movie_def Let_def by (rule refl)

lemma movie_member_kept:
  assumes "m \<in> set (movie_members U candidate members)"
  shows "m \<in> set (preferWhere (\<lambda>m. movie_tag U candidate m = None \<or> movie_tag U candidate m = Some (c_language candidate))
      (tagged_movie U candidate members))" "m \<in> set (tagged_movie U candidate members)" "m \<in> set (likely_movie U candidate members)" "m \<in> set members"
proof -
  show three: "m \<in> set (preferWhere (\<lambda>m. movie_tag U candidate m = None \<or> movie_tag U candidate m = Some (c_language candidate))
      (tagged_movie U candidate members))"
    using assms unfolding movie_members_eq by (rule subsetD [OF distinct_versions(1)])
  from subsetD [OF preferWhere_subset three] show two: "m \<in> set (tagged_movie U candidate members)" .
  from subsetD [OF preferWhere_subset two [unfolded tagged_movie_def]] show one: "m \<in> set (likely_movie U candidate members)" .
  from subsetD [OF preferWhere_subset one [unfolded likely_movie_def]] show "m \<in> set members" .
qed

lemma movie_extras:
  assumes "m \<in> set (movie_members U candidate members)" "movie_extra U candidate m" "other \<in> set members"
  shows "movie_extra U candidate other"
  using preferWhere_failed [OF movie_member_kept(3) [OF assms(1), unfolded likely_movie_def]] assms(2,3) by blast

lemma likely_kept: "other \<in> set members \<Longrightarrow> \<not> movie_extra U candidate other \<Longrightarrow> other \<in> set (likely_movie U candidate members)"
  unfolding likely_movie_def by (rule preferWhere_kept)

lemma movie_tags:
  assumes "m \<in> set (movie_members U candidate members)" "movie_tag U candidate m \<noteq> Some (c_language candidate)"
    and "other \<in> set members" "\<not> movie_extra U candidate other"
  shows "movie_tag U candidate other \<noteq> Some (c_language candidate)"
    "movie_tag U candidate m \<noteq> None \<Longrightarrow> movie_tag U candidate other \<noteq> None"
proof -
  note kept = movie_member_kept [OF assms(1)]
  note untagged = preferWhere_failed [OF kept(2) [unfolded tagged_movie_def] assms(2), folded tagged_movie_def]
  show "movie_tag U candidate other \<noteq> Some (c_language candidate)"
    using bspec [OF conjunct2 [OF untagged] likely_kept [OF assms(3,4)]] .
  assume "movie_tag U candidate m \<noteq> None"
  with assms(2) have "\<not> (movie_tag U candidate m = None \<or> movie_tag U candidate m = Some (c_language candidate))" by blast
  from bspec [OF conjunct2 [OF preferWhere_failed [OF kept(1) this, unfolded conjunct1 [OF untagged]]] likely_kept [OF assms(3,4)]]
  show "movie_tag U candidate other \<noteq> None" by simp
qed

lemma movie_result:
  assumes "SelectMovieAlternatives U manifest candidate wantForced = Ok ms"
  defines "versions \<equiv> movie_members U candidate (eligibleMembers (mf_members manifest) wantForced)"
  shows "eligibleMembers (mf_members manifest) wantForced \<noteq> []" "\<forall>m \<in> set versions. \<not> IsMultiDisc (mb_safe_name m)"
    "length versions \<le> 3" "c_exact_hash candidate \<longrightarrow> length versions \<le> 1"
    "\<exists>rule evidence order. mset order = mset versions \<and> ms = map (marked_as rule evidence) order"
proof -
  note result = assms(1) [unfolded SelectMovieAlternatives_def Let_def, folded versions_def]
  have policy: "\<not> (c_forced candidate \<and> \<not> wantForced \<or> eligibleMembers (mf_members manifest) wantForced = [])"
    using result by (rule contrapos_pn) simp
  note result = result [unfolded if_not_P [OF policy]]
  have discs: "\<not> (\<exists>m \<in> set versions. IsMultiDisc (mb_safe_name m))" using result by (rule contrapos_pn) simp
  note result = result [unfolded if_not_P [OF discs]]
  have exact: "\<not> (c_exact_hash candidate \<and> length versions > 1)" using result by (rule contrapos_pn) simp
  note result = result [unfolded if_not_P [OF exact]]
  show "eligibleMembers (mf_members manifest) wantForced \<noteq> []" "\<forall>m \<in> set versions. \<not> IsMultiDisc (mb_safe_name m)"
    "c_exact_hash candidate \<longrightarrow> length versions \<le> 1" using policy discs exact by auto
  have "length versions \<le> 3 \<and> (\<exists>rule evidence order. mset order = mset versions \<and> ms = map (marked_as rule evidence) order)"
  proof (cases "length versions = 1")
    case True
    from result [unfolded if_P [OF True]] have "ms = map (marked_as ''single_movie'' ''single movie subtitle member satisfies subtitle policy'') versions"
      by (simp only: sum.inject)
    with True show ?thesis by (intro conjI exI [of _ versions] exI) simp_all
  next
    case False
    note result = result [unfolded if_not_P [OF False]]
    have few: "length versions \<le> 3"
    proof (rule ccontr)
      assume "\<not> length versions \<le> 3"
      from result [unfolded if_not_P [OF this]] show False by simp
    qed
    from result [unfolded if_P [OF few]] have "ms = map (marked_as ''movie_versions'' ''one of up to three movie subtitle versions, ranked by timing'')
        (sort_key mb_safe_name versions)" by (simp only: sum.inject)
    with few show ?thesis by (intro conjI exI [of _ "sort_key mb_safe_name versions"] exI) simp_all
  qed
  then show "length versions \<le> 3" "\<exists>rule evidence order. mset order = mset versions \<and> ms = map (marked_as rule evidence) order"
    by blast+
qed

text \<open>C25: the subtitle of a film's archive. The selection returns one to three files of the archive that obey the
  forced-subtitle policy, none of them twice and none a part of a disc set, and a single one for an exact hash match. Bonus
  material is returned only when the archive holds nothing else, a file without the wanted language's tag only when no
  proper file has it, and a file tagged with another language only when every proper file is.\<close>

theorem movie_versions_sound:
  assumes "SelectMovieAlternatives U manifest candidate wantForced = Ok ms"
  shows "0 < length ms \<and> length ms \<le> 3 \<and> no_file_twice ms \<and> (c_exact_hash candidate \<longrightarrow> length ms = 1)
    \<and> (\<forall>m \<in> set ms. \<not> IsMultiDisc (mb_safe_name m)
         \<and> (\<exists>original \<in> set (mf_members manifest). mb_safe_name m = mb_safe_name original
              \<and> (mb_forced original \<or> match_string forcedPattern (mb_safe_name original)) = wantForced)
         \<and> (\<forall>other \<in> set (eligibleMembers (mf_members manifest) wantForced).
              (movie_extra U candidate m \<longrightarrow> movie_extra U candidate other)
              \<and> (movie_tag U candidate m \<noteq> Some (c_language candidate) \<and> \<not> movie_extra U candidate other
                 \<longrightarrow> movie_tag U candidate other \<noteq> Some (c_language candidate)
                   \<and> (movie_tag U candidate m \<noteq> None \<longrightarrow> movie_tag U candidate other \<noteq> None))))"
proof -
  let ?members = "eligibleMembers (mf_members manifest) wantForced"
  let ?versions = "movie_members U candidate ?members"
  note result = movie_result [OF assms]
  from result(5) obtain rule evidence order where ms: "mset order = mset ?versions" "ms = map (marked_as rule evidence) order" by blast
  have len: "length ms = length ?versions" unfolding ms(2) using ms(1) by (metis length_map size_mset)
  have "?versions \<noteq> []"
    using result(1) unfolding movie_members_eq distinct_versions_Nil preferWhere_Nil tagged_movie_def likely_movie_def .
  then have lens: "0 < length ms" "length ms \<le> 3" "c_exact_hash candidate \<longrightarrow> length ms = 1"
    using result(3,4) unfolding len by (auto simp: le_Suc_eq)
  have "no_file_twice order" using no_file_twice_perm [OF ms(1)] distinct_versions(2) unfolding movie_members_eq by blast
  then have twice: "no_file_twice ms" unfolding ms(2) no_file_twice_def by (simp add: comp_def marked_as_def)
  have source: "\<exists>v \<in> set ?versions. mb_safe_name m = mb_safe_name v" if "m \<in> set ms" for m
    using that mset_eq_setD [OF ms(1)] unfolding ms(2) by (auto simp: marked_as_def)
  show ?thesis
  proof (intro conjI lens twice ballI)
    fix m assume "m \<in> set ms"
    then obtain v where v: "v \<in> set ?versions" "mb_safe_name m = mb_safe_name v" using source by blast
    then have same: "movie_extra U candidate m = movie_extra U candidate v" "movie_tag U candidate m = movie_tag U candidate v"
      by (simp_all add: movie_extra_def movie_tag_def)
    show "\<not> IsMultiDisc (mb_safe_name m)" using result(2) v by simp
    obtain original where "original \<in> set (mf_members manifest)" "v = original\<lparr>mb_forced := wantForced\<rparr>"
      "(mb_forced original \<or> match_string forcedPattern (mb_safe_name original)) = wantForced"
      using movie_member_kept(4) [OF v(1)] by (rule eligible_member)
    with v(2) show "\<exists>original \<in> set (mf_members manifest). mb_safe_name m = mb_safe_name original
        \<and> (mb_forced original \<or> match_string forcedPattern (mb_safe_name original)) = wantForced" by (intro bexI [of _ original]) simp_all
    fix other assume other: "other \<in> set ?members"
    show "movie_extra U candidate m \<longrightarrow> movie_extra U candidate other" using movie_extras [OF v(1) _ other] unfolding same by blast
    show "movie_tag U candidate m \<noteq> Some (c_language candidate) \<and> \<not> movie_extra U candidate other
        \<longrightarrow> movie_tag U candidate other \<noteq> Some (c_language candidate)
          \<and> (movie_tag U candidate m \<noteq> None \<longrightarrow> movie_tag U candidate other \<noteq> None)"
      using movie_tags [OF v(1) _ other] unfolding same by blast
  qed
qed

definition film_archive :: Manifest where
  "film_archive = sample_manifest [(''F.EN.srt'', ''a''), (''F.HR.srt'', ''b'')]"

definition film_candidate :: Candidate where
  "film_candidate = zero_candidate\<lparr>c_title := ''F'', c_language := ''hr''\<rparr>"

lemma film_selected:
  "map_sum se_rule (map mb_safe_name) (SelectMovieAlternatives ascii_tables film_archive film_candidate False) = Ok [''F.HR.srt'']"
  by code_simp

theorem movie_versions_sound_witness:
  "\<exists>m. SelectMovieAlternatives ascii_tables film_archive film_candidate False = Ok [m] \<and> mb_safe_name m = ''F.HR.srt''
     \<and> \<not> IsMultiDisc ''F.HR.srt''"
proof (cases "SelectMovieAlternatives ascii_tables film_archive film_candidate False")
  case (Inr ms)
  with film_selected obtain m where m: "ms = [m]" "mb_safe_name m = ''F.HR.srt''" by auto
  from movie_versions_sound [OF Inr] have "\<forall>m \<in> set ms. \<not> IsMultiDisc (mb_safe_name m)" by blast
  with Inr m show ?thesis by simp
qed (use film_selected in simp)

section \<open>The season of a pack\<close>

lemma token_season:
  assumes "token_season U name tokens season = Some s" "0 \<le> season"
  shows "0 \<le> s \<and> (season \<noteq> 0 \<longrightarrow> s = season) \<and> (\<forall>(i, j, g) \<in> set tokens. completeRangeToken U name i j
    \<and> 0 < s \<and> (\<exists>e. episodeToken U (slice_text (runes name) i j) = Some (s, e) \<and> 0 < e))"
  using assms
proof (induction tokens arbitrary: season)
  case (Cons t tokens)
  obtain i j g where t: "t = (i, j, g)" by (cases t)
  from Cons.prems obtain s1 e1 where found: "completeRangeToken U name i j" "episodeToken U (slice_text (runes name) i j) = Some (s1, e1)"
    "0 < s1" "0 < e1" "season = 0 \<or> season = s1" "token_season U name tokens s1 = Some s"
    unfolding t by (cases "episodeToken U (slice_text (runes name) i j)") (auto split: if_split_asm)
  from Cons.IH [OF found(6)] found(3) have "s = s1" by simp
  with Cons.IH [OF found(6)] found t show ?case by auto
qed simp

lemma members_season:
  assumes "members_season U ms season = Some s" "0 \<le> season"
  shows "0 \<le> s \<and> (season \<noteq> 0 \<longrightarrow> s = season) \<and> (\<forall>m \<in> set ms. \<not> hasInvalidOrAmbiguousRangeEvidence U (mb_safe_name m)
    \<and> (\<forall>(i, j, g) \<in> set (matches_in episodeTokenPattern (mb_safe_name m)). completeRangeToken U (mb_safe_name m) i j
         \<and> (\<exists>e. episodeToken U (slice_text (runes (mb_safe_name m)) i j) = Some (s, e) \<and> 0 < e)))"
  using assms
proof (induction ms arbitrary: season)
  case (Cons m ms)
  from Cons.prems obtain s1 where found: "\<not> hasInvalidOrAmbiguousRangeEvidence U (mb_safe_name m)"
    "token_season U (mb_safe_name m) (matches_in episodeTokenPattern (mb_safe_name m)) season = Some s1" "members_season U ms s1 = Some s"
    by (auto split: if_split_asm option.split_asm)
  note first = token_season [OF found(2) Cons.prems(2)]
  note rest = Cons.IH [OF found(3) conjunct1 [OF first]]
  have "completeRangeToken U (mb_safe_name m) i j \<and> (\<exists>e. episodeToken U (slice_text (runes (mb_safe_name m)) i j) = Some (s, e) \<and> 0 < e)"
    if "(i, j, g) \<in> set (matches_in episodeTokenPattern (mb_safe_name m))" for i j g
  proof -
    from first that have "completeRangeToken U (mb_safe_name m) i j" "0 < s1"
      "\<exists>e. episodeToken U (slice_text (runes (mb_safe_name m)) i j) = Some (s1, e) \<and> 0 < e" by auto
    with rest show ?thesis by auto
  qed
  with first rest found(1) show ?case by auto
qed simp

text \<open>C31: a pack is cached for a season only when every name in it agrees. Every episode token of every file stands alone and
  gives that season and a positive episode, no name holds an ambiguous range, and a season the provider gave is the same.\<close>

theorem runtime_season_agreed:
  assumes "RuntimeCacheSeason U manifest = Some s"
  shows "0 < s \<and> (c_season (mf_candidate manifest) \<noteq> 0 \<longrightarrow> s = c_season (mf_candidate manifest)) \<and> \<not> c_exact_hash (mf_candidate manifest)
    \<and> (\<forall>m \<in> set (mf_members manifest). \<not> hasInvalidOrAmbiguousRangeEvidence U (mb_safe_name m)
         \<and> complete_tokens U (mb_safe_name m) = matches_in episodeTokenPattern (mb_safe_name m)
         \<and> (\<forall>(season, episode) \<in> set (token_episodes U (mb_safe_name m)). season = s \<and> 0 < episode))"
proof -
  from assms have found: "members_season U (mf_members manifest) (c_season (mf_candidate manifest)) = Some s" "0 \<le> c_season (mf_candidate manifest)"
    "0 < s" "\<not> c_exact_hash (mf_candidate manifest)"
    by (auto simp: RuntimeCacheSeason_def Let_def split: if_split_asm option.split_asm)
  note agreed = members_season [OF found(1,2)]
  have each: "\<not> hasInvalidOrAmbiguousRangeEvidence U (mb_safe_name m)
      \<and> complete_tokens U (mb_safe_name m) = matches_in episodeTokenPattern (mb_safe_name m)
      \<and> (\<forall>(season, episode) \<in> set (token_episodes U (mb_safe_name m)). season = s \<and> 0 < episode)"
    if "m \<in> set (mf_members manifest)" for m
  proof -
    note m = bspec [OF conjunct2 [OF conjunct2 [OF agreed]] that]
    have all: "complete_tokens U (mb_safe_name m) = matches_in episodeTokenPattern (mb_safe_name m)"
      unfolding complete_tokens_def by (rule filter_True) (use conjunct2 [OF m] in blast)
    have "fst t = s \<and> 0 < snd t" if "t \<in> set (token_episodes U (mb_safe_name m))" for t
    proof -
      from that obtain i j g where t: "(i, j, g) \<in> set (matches_in episodeTokenPattern (mb_safe_name m))"
        "t = (case episodeToken U (slice_text (runes (mb_safe_name m)) i j) of None \<Rightarrow> (0, 0) | Some t \<Rightarrow> t)"
        unfolding token_episodes_def all by auto
      from bspec [OF conjunct2 [OF m] t(1)] obtain e where "episodeToken U (slice_text (runes (mb_safe_name m)) i j) = Some (s, e)" "0 < e"
        by blast
      with t(2) show ?thesis by simp
    qed
    then show ?thesis using conjunct1 [OF m] all by (intro conjI ballI) auto
  qed
  show ?thesis using conjunct1 [OF conjunct2 [OF agreed]] found(3,4) by (intro conjI ballI each) blast+
qed

definition season_pack :: Manifest where
  "season_pack = (sample_manifest [(''S1E2'', ''a''), (''1x3'', ''b'')])\<lparr>mf_candidate := zero_candidate\<lparr>c_title := ''F''\<rparr>\<rparr>"

lemma season_pack_season: "RuntimeCacheSeason ascii_tables season_pack = Some 1"
  by code_simp

theorem runtime_season_agreed_witness:
  "RuntimeCacheSeason ascii_tables season_pack = Some 1
   \<and> complete_tokens ascii_tables ''S1E2'' = matches_in episodeTokenPattern ''S1E2''"
proof -
  have "sample_member_file ''S1E2'' ''a'' \<in> set (mf_members season_pack)" by (simp add: season_pack_def sample_manifest_def)
  with runtime_season_agreed [OF season_pack_season]
  have "complete_tokens ascii_tables (mb_safe_name (sample_member_file ''S1E2'' ''a'')) =
      matches_in episodeTokenPattern (mb_safe_name (sample_member_file ''S1E2'' ''a''))" by blast
  with season_pack_season show ?thesis unfolding sample_member_file_def Member.simps by blast
qed

end
