(* ===== verification/Spec2Isabelle.thy ===== *)
theory Spec2Isabelle
  imports Schedule Transport Permits Search_Queue_Props Outbox TTL_Cache Upgrade_Props Outage_Props Workflow_Props Match_Props
    Subtitle_Order_Props Rejection_Props Tier_Props Acquire_Sample Worker_Job_Props Worker_Loop Worker_Reconcile Worker_Notify
    Pack_Titles Pack_Version_Props
begin

text \<open>
  Verification of subsyncd, a service that finds, checks and installs subtitles for the media files
  of Sonarr and Radarr. Paths below are under \<open>src/internal\<close>.

  \<^bold>\<open>The program.\<close> Media events and timers put searches for a media file and language into a queue
  (\<open>store\<close>). A worker leases due searches; the workflow (\<open>workflow/service.go\<close>) looks at what is
  installed and asks the preferred and then the fallback providers through a coordinator
  (\<open>provider/coordinator.go\<close>), which caches answers. Every request passes a gate of permits
  and persisted cooldowns (\<open>provider/limiter.go\<close>, \<open>transport.go\<close>). Candidates are scored and ranked
  (\<open>match\<close>), prepared (\<open>subtitleorder\<close>), installed, and later reassessed by the upgrade rules. The outcome is
  written to the queue with a retry time (\<open>schedule\<close>) and announced through an outbox.

  \<^bold>\<open>Vocabulary.\<close> \<open>Prelude\<close>: times as nanoseconds, fallible results as sums, SQL statements over row lists, the
  locale \<open>strict_weak_order\<close> of comparison functions. \<open>Float64\<close>: binary64 rounding on rationals, with the fused
  multiply-add of arm64 as a flag. \<open>Go_Text\<close>, \<open>Go_Regexp\<close>, \<open>Go_Sort\<close>, \<open>Go_Json\<close>, \<open>Go_Path\<close>: the library
  functions the code calls, on byte strings and decoded runes. \<open>Domain\<close>, \<open>Store_Types\<close>, \<open>Workflow_Types\<close>: the
  structs of \<open>domain\<close>, \<open>store\<close> and \<open>workflow\<close> as records.

  \<^bold>\<open>Components and what is shown of them.\<close>
  \<^item> \<open>Schedule\<close> (\<open>schedule\<close>): the retry intervals and their jitter.
  \<^item> \<open>Rate_Headers\<close>, \<open>Provider_Errors\<close>, \<open>Provider_Gate\<close>, \<open>Transport\<close> (\<open>provider/rateheaders.go\<close>,
    \<open>errors.go\<close>, \<open>limiter.go\<close>, \<open>transport.go\<close> and the provider state table of \<open>store/repository.go\<close>): which
    rate window counts, and that disabling, cooldowns and escalation persist as they should (C11, C12).
  \<^item> \<open>Permits\<close> (\<open>limiter.go\<close>): the semaphores of the gate as a step relation over all interleavings;
    bounds (C4) and absence of deadlock (C34).
  \<^item> \<open>Lease_Table\<close>: the contract of a table of leased rows as a locale, interpreted on the search
    queue and on the outbox. \<open>Search_Queue\<close>, \<open>Search_Queue_Inv\<close>, \<open>Search_Queue_Props\<close>: the search, progress and
    rejection tables of \<open>store\<close> with the statements that write them: leasing, claiming, renewing, completing, releasing,
    scheduling from media events, inventories, media updates under the order trigger, retries, backfill, queue priorities,
    verdicts and \<open>ForgetInstance\<close>; what those transactions write in other tables (tracks, installations, events) is left
    out. Their invariant by rule induction over operations (C17), mutual exclusion (C1), no lost change, progress that
    survives the operations up to the next lease (C19), sticky verdicts (C18, C32). \<open>Outbox\<close>: the notification table (C35).
  \<^item> \<open>TTL_Cache\<close> (\<open>provider/ttlcache.go\<close>): the cache against a log of stores (C36) and concurrent loads as a step
    relation (C37).
  \<^item> \<open>Upgrade\<close>, \<open>Upgrade_Props\<close> (\<open>workflow/upgrade.go\<close>, \<open>removal_budget.go\<close>): bounded deletions, bounded upgrade chains.
  \<^item> \<open>Outages\<close>, \<open>Outage_Props\<close> (\<open>workflow/route_availability.go\<close> and the retry rules of \<open>service.go\<close>): the
    preflight contract of an adapter as a locale, interpreted on the gate; which routes are paused.
  \<^item> \<open>Coordinator\<close>, \<open>Coordinator_Props\<close> (\<open>provider/coordinator.go\<close>): answers independent of their order of arrival, and
    what the cache answers after further searches (C38).
  \<^item> \<open>Search_Evidence\<close> (\<open>workflow/provider_resume.go\<close>, \<open>release_numbering.go\<close>): the providers a resumed search skips
    and the merge of the search under a release's numbering.
  \<^item> \<open>Workflow_Run\<close>, \<open>Workflow_Props\<close> (\<open>workflow/service.go\<close> \<open>Run\<close>, \<open>provider_tiers.go\<close>): one search over an
    abstract world: when the fallback tier is asked (C7) and when the remover is consulted (C16).
  \<^item> \<open>Rejections\<close>, \<open>Rejection_Props\<close> (\<open>workflow/service.go\<close> from \<open>candidateRejection\<close> to \<open>RejectionToolSignature\<close>, and the
    rejection and strike tables of \<open>store/repository.go\<close>): under which signature a failure is recorded and which rows count.
    The lookup as a locale interpreted on the table; C6, and C5 over the writes that come between record and lookup.
  \<^item> \<open>Effects\<close>: actions that thread a state and can stop, with a Hoare logic. \<open>Acquire_Types\<close>, \<open>Acquire_Steps\<close>, \<open>Acquire\<close>
    (\<open>workflow/service.go\<close> \<open>acquire\<close>, \<open>prepareCandidate\<close>, \<open>install\<close>; \<open>acquisition.go\<close>; \<open>member_preparation.go\<close>), with
    \<open>Lapse_Policy\<close>: one provider tier as such actions. The state lists the calls made; \<open>Acquire_Inv\<close> holds the invariant
    of that list, in which an install is justified by the calls before it, and what every step keeps of it, \<open>Acquire_Props\<close> carries it through the phases (C2, C9, C13, C14, C33),
    \<open>Tier_Props\<close> through both tiers of a search (C15). \<open>Acquire_Sample\<close> evaluates two acquisitions.
  \<^item> \<open>Match_Release\<close>, \<open>Match_Score\<close>, \<open>Match_Props\<close> (\<open>match\<close>): release names, scores, ranking, C39, C40.
  \<^item> \<open>Subtitle_Order\<close>, \<open>Subtitle_Order_Props\<close> (\<open>subtitleorder\<close>): reordering of subtitle files, C8.
  \<^item> \<open>Pack_Names\<close>, \<open>Pack_Numbers\<close> (\<open>pack/select.go\<close>): what the name of an archive's file says about its episode.
    \<open>Pack_Titles\<close>: the similarity of titles is the edit distance (C24). \<open>Pack_Select\<close>, \<open>Pack_Props\<close>: one member, which never
    contradicts the wanted episode (C10). \<open>Pack_Versions\<close>, \<open>Pack_Version_Props\<close> (\<open>alternatives.go\<close>, \<open>movie_versions.go\<close>,
    \<open>runtime.go\<close>): several versions (C23, C25) and the season of a pack (C31).
  \<^item> \<open>Worker_Jobs\<close>, \<open>Worker_Job_Props\<close> (\<open>worker/worker.go\<close> \<open>runSearchLease\<close>): one leased search as an action of \<open>Effects\<close>
    over the queue and the breaker: what it leaves in the queue however it ends (C3), after a timeout (C29) and
    after a throttle (C30), a change during the lease and a deleted media included. \<open>Media_Breaker\<close> (\<open>worker/media_breaker.go\<close>): the pause after unreadable media against a
    count over the log of results (C22).
  \<^item> \<open>Worker_Loop\<close> (\<open>Run\<close>, \<open>prepare\<close>, \<open>drainDaemon\<close>, \<open>route_gate.go\<close>): the daemon as a step relation; the number of
    search jobs is bounded (C20; an abandoned workflow's goroutine outlives its job and is not counted) and the shutdown
    ends (C21).
  \<^item> \<open>Worker_Reconcile\<close> (\<open>reconcileDueContexts\<close>, \<open>store/reconcile_timing.go\<close>): which instances a pass runs and what it
    leaves (C26), and the schedule over a restart.
  \<^item> \<open>Notifiers\<close> (\<open>notifier\<close>, \<open>workflow/notification.go\<close>), \<open>Worker_Notify\<close>: the grouping of leased intents against a
    specification by key classes (C28), and that an intent stays until it has been answered for good (C27).

  \<^bold>\<open>Parameters.\<close> Code outside the repository is an argument: the Unicode tables, BCP 47 tags and release names
  (\<open>externals\<close>), JSON values of other packages, URL parsing and digests, HTTP date formats, provider adapters, and the
  database failing or not. Where a theorem needs a law of one of them it is a premise, and its witness
  instantiates it.

  \<^bold>\<open>Loops and fuel.\<close> Loops are structural recursion, folds, or \<open>function\<close>s with a measure. The only fuel is
  in \<open>Go_Regexp\<close>: \<open>find_from\<close> counts the remaining start positions and \<open>split_from\<close> and \<open>find_all\<close> the runes of
  the text, of which each match consumes at least one. Integers are 64-bit in the code; times, counters and sizes stay far from the bounds, and the
  places where a value is clamped or parsed at that width write the bounds out. The label set of a
  release is an 8-bit word.

  \<^bold>\<open>Not modelled.\<close> In an acquisition the lookup in the pack cache (\<open>findUnrejectedPack\<close>) and the download with its
  archive selection (\<open>downloadAndSelectMembers\<close>) are calls of the environment, as are LAPSE and the installer; a failure
  that a refusal confirms later is read again through \<open>av_reread\<close>; log events are left out, a nil slice is not told from
  an empty one, and the versions of several archives are visited in the
  order of their first appearance where the code ranges over a map. Not modelled at all: the
  file-system protocol of installation and removal; the extraction of archives and the pack cache (\<open>pack\<close>); the goroutine that renews a
  lease (its report is a parameter) and \<open>RunOnce\<close> of the worker; provider adapters and the Sonarr and Radarr clients (network protocols of third parties);
  LAPSE (an external program); configuration, command line, control API and logging.
\<close>

end
